(* ===== verification/Prelude.thy ===== *)
theory Prelude
  imports Main "HOL-Library.Word" "HOL-Library.Multiset"
begin

text \<open>
  What every component of the model shares: Go's clock values, the string helpers of
  the standard library's \<open>strings\<close> package that the sources call, the "keep the last
  n entries" slices of the ring buffers, the stable sort of \<open>sort.SliceStable\<close>, and
  big-endian bytes.

  Conventions. An \<open>instant\<close> is a \<open>time.Time\<close>: nanoseconds since Go's zero time, so
  the zero value is \<open>0\<close> and \<open>IsZero\<close> is \<open>t = 0\<close>. A \<open>duration\<close> is a
  \<open>time.Duration\<close>; \<open>time_sub\<close> is \<open>Time.Sub\<close>, which saturates at the int64
  bounds. A Go string is a \<open>string\<close> (a list of bytes). A Go map is a partial function,
  or an association list where the order of the iteration can be seen.
\<close>

named_theorems go_time \<open>facts about Go's saturating clock arithmetic\<close>
named_theorems ring \<open>facts about keeping the last entries of a list\<close>
named_theorems go_str \<open>facts about prefixes and suffixes of strings\<close>

subsection \<open>Instants and durations\<close>

type_synonym instant = int
type_synonym duration = int

abbreviation (input) milliseconds :: "int \<Rightarrow> duration" where
  "milliseconds n \<equiv> n * 1000000"

abbreviation (input) seconds :: "int \<Rightarrow> duration" where
  "seconds n \<equiv> n * 1000000000"

abbreviation (input) minutes :: "int \<Rightarrow> duration" where
  "minutes n \<equiv> n * 60000000000"

definition is_zero :: "instant \<Rightarrow> bool" where
  "is_zero t \<longleftrightarrow> t = 0"

definition time_sub :: "instant \<Rightarrow> instant \<Rightarrow> duration" where
  "time_sub t u = max (-9223372036854775808) (min 9223372036854775807 (t - u))"

lemma time_sub_less [go_time]:
  "-9223372036854775808 < d \<Longrightarrow> d \<le> 9223372036854775807 \<Longrightarrow> time_sub t u < d \<longleftrightarrow> t - u < d"
  by (auto simp: time_sub_def min_def max_def)

lemma time_sub_le [go_time]:
  "-9223372036854775808 \<le> d \<Longrightarrow> d < 9223372036854775807 \<Longrightarrow> time_sub t u \<le> d \<longleftrightarrow> t - u \<le> d"
  by (auto simp: time_sub_def min_def max_def)

lemma time_sub_ge [go_time]:
  "-9223372036854775808 < d \<Longrightarrow> d \<le> 9223372036854775807 \<Longrightarrow> d \<le> time_sub t u \<longleftrightarrow> d \<le> t - u"
  by (auto simp: time_sub_def min_def max_def)

lemma time_sub_gt [go_time]:
  "-9223372036854775808 \<le> d \<Longrightarrow> d < 9223372036854775807 \<Longrightarrow> d < time_sub t u \<longleftrightarrow> d < t - u"
  by (auto simp: time_sub_def min_def max_def)

lemma time_sub_self [simp]: "time_sub t t = 0"
  by (simp add: time_sub_def)

subsection \<open>What a call can do\<close>

text \<open>
  A call returns a value, returns a Go \<open>error\<close> (named by a short tag), or panics.
\<close>

datatype 'a outcome = Return 'a | Fail string | Panic string

fun bind_outcome :: "'a outcome \<Rightarrow> ('a \<Rightarrow> 'b outcome) \<Rightarrow> 'b outcome" where
  "bind_outcome (Return x) f = f x"
| "bind_outcome (Fail e) f = Fail e"
| "bind_outcome (Panic e) f = Panic e"

fun_cases bind_outcome_ReturnE: "bind_outcome m f = Return y"

subsection \<open>Strings\<close>

definition has_prefix :: "'a list \<Rightarrow> 'a list \<Rightarrow> bool" where
  "has_prefix s p \<longleftrightarrow> take (length p) s = p"

definition has_suffix :: "'a list \<Rightarrow> 'a list \<Rightarrow> bool" where
  "has_suffix s p \<longleftrightarrow> length p \<le> length s \<and> drop (length s - length p) s = p"

definition trim_prefix :: "'a list \<Rightarrow> 'a list \<Rightarrow> 'a list" where
  "trim_prefix s p = (if has_prefix s p then drop (length p) s else s)"

lemma has_prefix_iff [go_str]: "has_prefix s p \<longleftrightarrow> (\<exists>r. s = p @ r)"
  by (auto simp: has_prefix_def) (metis append_take_drop_id)

lemma has_suffix_iff [go_str]: "has_suffix s p \<longleftrightarrow> (\<exists>r. s = r @ p)"
  by (auto simp: has_suffix_def) (metis append_take_drop_id)

lemma trim_prefix_append [simp]: "trim_prefix (p @ s) p = s"
  by (simp add: trim_prefix_def has_prefix_def)

lemma has_prefix_append [simp]: "has_prefix (p @ s) p"
  by (simp add: has_prefix_def)

lemma has_prefix_trans: "has_prefix s p \<Longrightarrow> has_prefix p q \<Longrightarrow> has_prefix s q"
  by (auto simp: has_prefix_iff)

text \<open>\<open>strings.ReplaceAll(s, old, new)\<close> for one-byte arguments.\<close>

definition replace_char :: "char \<Rightarrow> char \<Rightarrow> string \<Rightarrow> string" where
  "replace_char a b s = map (\<lambda>c. if c = a then b else c) s"

lemma replace_char_back:
  "b \<notin> set s \<Longrightarrow> replace_char b a (replace_char a b s) = s"
  by (induction s) (auto simp: replace_char_def)

text \<open>\<open>strings.SplitN(s, sep, n)\<close> for a one-byte separator and \<open>n > 0\<close>: at most \<open>n\<close>
  parts, the last one the rest of the string.\<close>

fun split_n :: "char \<Rightarrow> nat \<Rightarrow> string \<Rightarrow> string list" where
  "split_n c 0 s = []"
| "split_n c (Suc 0) s = [s]"
| "split_n c (Suc (Suc n)) s =
     (if c \<in> set s
      then takeWhile (\<lambda>x. x \<noteq> c) s # split_n c (Suc n) (tl (dropWhile (\<lambda>x. x \<noteq> c) s))
      else [s])"

lemma length_takeWhile_less: "x \<in> set xs \<Longrightarrow> \<not> P x \<Longrightarrow> length (takeWhile P xs) < length xs"
  by (induction xs) auto

lemma length_takeWhile_nth:
  "distinct xs \<Longrightarrow> i < length xs \<Longrightarrow> length (takeWhile (\<lambda>x. x \<noteq> xs ! i) xs) = i"
proof (induction xs arbitrary: i)
  case (Cons x xs)
  then show ?case by (cases i) auto
qed simp

text \<open>\<open>strings.TrimSpace\<close> on the ASCII white space.\<close>

definition is_space :: "char \<Rightarrow> bool" where
  "is_space c \<longleftrightarrow> c = CHR '' '' \<or> c = CHR 0x09 \<or> c = CHR 0x0A \<or> c = CHR 0x0B \<or> c = CHR 0x0C \<or> c = CHR 0x0D"

definition trim_space :: "string \<Rightarrow> string" where
  "trim_space s = rev (dropWhile is_space (rev (dropWhile is_space s)))"

lemma trim_space_Nil [simp]: "trim_space [] = []"
  by (simp add: trim_space_def)

text \<open>\<open>fmt.Sprintf("%d", n)\<close> and \<open>"%02X"\<close> of a byte.\<close>

fun show_nat :: "nat \<Rightarrow> string" where
  "show_nat n = (if n < 10 then [char_of (48 + n)] else show_nat (n div 10) @ [char_of (48 + n mod 10)])"

declare show_nat.simps [simp del]

definition hex_digit :: "nat \<Rightarrow> char" where
  "hex_digit n = ''0123456789ABCDEF'' ! n"

definition show_hex2 :: "8 word \<Rightarrow> string" where
  "show_hex2 b = [hex_digit (unat b div 16), hex_digit (unat b mod 16)]"

text \<open>\<open>strings.Index\<close>, \<open>strings.Contains\<close> and \<open>strings.Replace(s, old, new, 1)\<close>.\<close>

fun str_index :: "'a list \<Rightarrow> 'a list \<Rightarrow> nat option" where
  "str_index p [] = (if p = [] then Some 0 else None)"
| "str_index p (c # cs) = (if has_prefix (c # cs) p then Some 0 else map_option Suc (str_index p cs))"

definition str_contains :: "'a list \<Rightarrow> 'a list \<Rightarrow> bool" where
  "str_contains s p \<longleftrightarrow> str_index p s \<noteq> None"

definition replace_first :: "'a list \<Rightarrow> 'a list \<Rightarrow> 'a list \<Rightarrow> 'a list" where
  "replace_first old new s =
     (case str_index old s of
        None \<Rightarrow> s
      | Some i \<Rightarrow> take i s @ new @ drop (i + length old) s)"

lemma str_index_Some: "str_index p s = Some i \<Longrightarrow> \<exists>a b. s = a @ p @ b \<and> length a = i"
proof (induction p s arbitrary: i rule: str_index.induct)
  case (2 p c cs)
  show ?case
  proof (cases "has_prefix (c # cs) p")
    case True
    with 2(2) show ?thesis by (auto simp: has_prefix_iff)
  next
    case False
    with 2(2) obtain j where "str_index p cs = Some j" "i = Suc j" by auto
    with 2(1) [OF False] obtain a b where "cs = a @ p @ b" "length a = j" by blast
    with \<open>i = Suc j\<close> show ?thesis by (intro exI [of _ "c # a"] exI [of _ b]) simp
  qed
qed (auto split: if_splits)

lemma str_index_None: "str_index p s = None \<Longrightarrow> s \<noteq> a @ p @ b"
proof (induction p s arbitrary: a rule: str_index.induct)
  case (2 p c cs)
  then have np: "\<not> has_prefix (c # cs) p" and "str_index p cs = None" by (auto split: if_splits)
  with 2(1) have IH: "cs \<noteq> a' @ p @ b" for a' by blast
  show ?case
  proof
    assume eq: "c # cs = a @ p @ b"
    show False
    proof (cases a)
      case Nil
      with eq np show ?thesis by (metis append_Nil has_prefix_append)
    next
      case (Cons x xs)
      with eq IH show ?thesis by auto
    qed
  qed
qed (auto split: if_splits)

lemma str_contains_iff [go_str]: "str_contains s p \<longleftrightarrow> (\<exists>a b. s = a @ p @ b)"
  unfolding str_contains_def
  using str_index_Some str_index_None by (metis option.exhaust)

lemma str_contains_char: "str_contains s [c] \<longleftrightarrow> c \<in> set s"
  by (auto simp: str_contains_iff in_set_conv_decomp)

text \<open>\<open>strings.Split(s, sep)\<close> and \<open>strings.TrimRight(s, cutset)\<close> for one-byte arguments.\<close>

fun split_on :: "char \<Rightarrow> string \<Rightarrow> string list" where
  "split_on c [] = [[]]"
| "split_on c (x # xs) =
     (if x = c then [] # split_on c xs
      else case split_on c xs of [] \<Rightarrow> [[x]] | w # ws \<Rightarrow> (x # w) # ws)"

definition trim_right :: "char \<Rightarrow> string \<Rightarrow> string" where
  "trim_right c s = rev (dropWhile (\<lambda>x. x = c) (rev s))"

lemma split_on_not_Nil [simp]: "split_on c s \<noteq> []"
  by (induction s) (auto split: list.splits)

lemma split_on_single: "c \<notin> set s \<Longrightarrow> split_on c s = [s]"
  by (induction s) auto

lemma split_on_append: "c \<notin> set s \<Longrightarrow> split_on c (s @ c # r) = s # split_on c r"
  by (induction s) auto

lemma trim_right_append [simp]: "x \<noteq> c \<Longrightarrow> trim_right c (s @ [x, c]) = s @ [x]"
  by (simp add: trim_right_def)

text \<open>Reading a map of strings: a missing key is the empty string.\<close>

definition get_str :: "(string \<Rightarrow> string option) \<Rightarrow> string \<Rightarrow> string" where
  "get_str m k = (case m k of Some v \<Rightarrow> v | None \<Rightarrow> [])"

subsection \<open>The last entries of a list\<close>

definition take_last :: "nat \<Rightarrow> 'a list \<Rightarrow> 'a list" where
  "take_last n xs = drop (length xs - n) xs"

lemma length_take_last [ring, simp]: "length (take_last n xs) = min n (length xs)"
  by (simp add: take_last_def)

lemma take_last_all [ring, simp]: "length xs \<le> n \<Longrightarrow> take_last n xs = xs"
  by (simp add: take_last_def)

lemma take_last_append [ring]:
  "take_last n (take_last n xs @ ys) = take_last n (xs @ ys)"
proof -
  have "drop (min n (length xs) + length ys - n) (drop (length xs - n) xs) =
      drop (length xs + length ys - n) xs"
    by (cases "length xs \<le> n") (auto simp: min_def add.commute)
  moreover have "min n (length xs) + length ys - n - min n (length xs) =
      length xs + length ys - n - length xs"
    by (auto simp: min_def)
  ultimately show ?thesis
    by (simp only: take_last_def [of n "xs @ ys"] take_last_def [of n "take_last n xs @ ys"]
        length_append length_take_last drop_append) (simp add: take_last_def)
qed

lemma set_take_last: "set (take_last n xs) \<subseteq> set xs"
  by (simp add: take_last_def set_drop_subset)

lemma take_last_snoc_last [simp]: "0 < n \<Longrightarrow> last (take_last n (xs @ [x])) = x"
  by (simp add: take_last_def)

subsection \<open>Stable sorting with a \<open>less\<close> function\<close>

text \<open>
  \<open>sort.SliceStable(xs, less)\<close> promises the permutation of \<open>xs\<close> that is ordered by
  \<open>less\<close> and keeps equal elements in their order; for a strict weak order there is one
  such permutation, which insertion from the right computes.
\<close>

fun insert_by :: "('a \<Rightarrow> 'a \<Rightarrow> bool) \<Rightarrow> 'a \<Rightarrow> 'a list \<Rightarrow> 'a list" where
  "insert_by lt x [] = [x]"
| "insert_by lt x (y # ys) = (if lt y x then y # insert_by lt x ys else x # y # ys)"

definition stable_sort :: "('a \<Rightarrow> 'a \<Rightarrow> bool) \<Rightarrow> 'a list \<Rightarrow> 'a list" where
  "stable_sort lt xs = foldr (insert_by lt) xs []"

lemma mset_insert_by [simp]: "mset (insert_by lt x ys) = add_mset x (mset ys)"
  by (induction ys) auto

lemma set_insert_by [simp]: "set (insert_by lt x ys) = insert x (set ys)"
  by (induction ys) auto

lemma mset_stable_sort [simp]: "mset (stable_sort lt xs) = mset xs"
  by (induction xs) (auto simp: stable_sort_def)

lemma set_stable_sort [simp]: "set (stable_sort lt xs) = set xs"
  by (metis mset_stable_sort set_mset_mset)

lemma length_stable_sort [simp]: "length (stable_sort lt xs) = length xs"
  by (metis mset_stable_sort size_mset)

lemma stable_sort_Nil [simp]: "stable_sort lt [] = []"
  by (simp add: stable_sort_def)

lemma stable_sort_Cons [simp]: "stable_sort lt (x # xs) = insert_by lt x (stable_sort lt xs)"
  by (simp add: stable_sort_def)

lemma distinct_map_stable_sort [simp]:
  "distinct (map f (stable_sort lt xs)) \<longleftrightarrow> distinct (map f xs)"
  by (metis distinct_count_atmost_1 mset_map mset_stable_sort set_mset_mset)

lemma filter_stable_sort_size:
  "length (filter P (stable_sort lt xs)) = length (filter P xs)"
  by (metis mset_filter mset_stable_sort size_mset)

lemma filter_stable_sort_single:
  "filter P xs = [x] \<Longrightarrow> filter P (stable_sort lt xs) = [x]"
  by (metis mset_filter mset_single_iff mset_stable_sort)

definition ordered_by :: "('a \<Rightarrow> 'a \<Rightarrow> bool) \<Rightarrow> 'a list \<Rightarrow> bool" where
  "ordered_by lt xs \<longleftrightarrow> sorted_wrt (\<lambda>x y. \<not> lt y x) xs"

lemma insert_by_ordered_front: "ordered_by lt (x # xs) \<Longrightarrow> insert_by lt x xs = x # xs"
  by (cases xs) (auto simp: ordered_by_def)

lemma stable_sort_ordered: "ordered_by lt xs \<Longrightarrow> stable_sort lt xs = xs"
proof (induction xs)
  case (Cons x xs)
  then have "stable_sort lt xs = xs" by (simp add: ordered_by_def)
  with Cons.prems show ?case by (simp add: insert_by_ordered_front)
qed simp

subsection \<open>Bytes in network order\<close>

type_synonym byte = "8 word"

fun be_bytes :: "nat \<Rightarrow> nat \<Rightarrow> byte list" where
  "be_bytes 0 n = []"
| "be_bytes (Suc k) n = word_of_nat (n div 256 ^ k) # be_bytes k n"

fun be_nat :: "byte list \<Rightarrow> nat" where
  "be_nat [] = 0"
| "be_nat (b # bs) = unat b * 256 ^ length bs + be_nat bs"

lemma length_be_bytes [simp]: "length (be_bytes k n) = k"
  by (induction k) auto

lemma mod_times_Suc:
  "n div 256 ^ k mod 256 * 256 ^ k + n mod 256 ^ k = n mod (256 ^ Suc k :: nat)"
proof -
  have "n mod (256 ^ k * 256) = 256 ^ k * (n div 256 ^ k mod 256) + n mod 256 ^ k"
    by (rule mod_mult2_eq)
  then show ?thesis by (simp add: mult.commute)
qed

lemma be_nat_be_bytes [simp]: "be_nat (be_bytes k n) = n mod 256 ^ k"
proof (induction k)
  case (Suc k)
  have "unat (word_of_nat (n div 256 ^ k) :: byte) = n div 256 ^ k mod 256"
    by (simp add: unat_of_nat)
  then have "be_nat (be_bytes (Suc k) n) = n div 256 ^ k mod 256 * 256 ^ k + n mod 256 ^ k"
    using Suc.IH by simp
  also have "\<dots> = n mod 256 ^ Suc k" by (rule mod_times_Suc)
  finally show ?case .
qed simp

lemma unat_byte_less: "unat (b :: byte) < 256"
  using unsigned_less [of b] by simp

lemma be_nat_append: "be_nat (xs @ ys) = be_nat xs * 256 ^ length ys + be_nat ys"
  by (induction xs) (simp_all add: power_add algebra_simps)

lemma be_nat_less: "be_nat bs < 256 ^ length bs"
proof (induction bs)
  case (Cons b bs)
  have "be_nat (b # bs) < Suc (unat b) * 256 ^ length bs"
    using Cons.IH by simp
  also have "\<dots> \<le> 256 * 256 ^ length bs"
    by (rule mult_le_mono1) (use unat_byte_less [of b] in simp)
  finally show ?case by simp
qed simp

lemma be_bytes_add_mult: "be_bytes j (m * 256 ^ j + r) = be_bytes j r"
proof (induction j arbitrary: m)
  case (Suc j)
  have "(m * 256 ^ Suc j + r) div 256 ^ j = (r + (m * 256) * 256 ^ j) div 256 ^ j"
    by (simp add: mult.assoc add.commute)
  also have "\<dots> = m * 256 + r div 256 ^ j"
    by (rule div_mult_self1) simp
  finally have q: "(m * 256 ^ Suc j + r) div 256 ^ j = m * 256 + r div 256 ^ j" .
  have hd: "(word_of_nat ((m * 256 ^ Suc j + r) div 256 ^ j) :: byte) = word_of_nat (r div 256 ^ j)"
    unfolding q by (simp only: word_unat_eq_iff unat_of_nat) simp
  have "m * 256 ^ Suc j + r = (m * 256) * 256 ^ j + r" by simp
  then have "be_bytes j (m * 256 ^ Suc j + r) = be_bytes j r"
    by (simp only: Suc.IH [of "m * 256"])
  with hd show ?case by (simp only: be_bytes.simps)
qed simp

lemma be_bytes_be_nat [simp]: "k = length bs \<Longrightarrow> be_bytes k (be_nat bs) = bs"
proof (induction bs arbitrary: k)
  case (Cons b bs)
  have "be_nat (b # bs) div 256 ^ length bs = unat b"
    using be_nat_less [of bs] by simp
  with Cons show ?case
    by (simp add: be_bytes_add_mult)
qed simp

end
