(* ===== verification/Interfaces.thy ===== *)
theory Interfaces
  imports Prelude
begin

text \<open>
  The interfaces the components of the daemon rely on, as locales: each states what the
  provider promises and proves once what its clients use. Every locale is interpreted on
  the model's own definitions in the theory of the component that provides them.
\<close>

subsection \<open>Machines: one step lemma, every run\<close>

text \<open>A component driven by events, with a predicate that every step keeps.\<close>

locale invariant_machine =
  fixes step :: "'s \<Rightarrow> 'e \<Rightarrow> 's"
    and inv :: "'s \<Rightarrow> bool"
  assumes step_inv: "inv s \<Longrightarrow> inv (step s e)"
begin

lemma run_inv: "inv s \<Longrightarrow> inv (foldl step s es)"
  by (induction es arbitrary: s) (auto intro: step_inv)

lemma run_inv_at: "inv s \<Longrightarrow> inv (foldl step s (take n es))"
  by (rule run_inv)

end

text \<open>A machine with a flag that, once set, stays set.\<close>

locale latch_machine =
  fixes step :: "'s \<Rightarrow> 'e \<Rightarrow> 's"
    and spent :: "'s \<Rightarrow> bool"
  assumes spent_stays: "spent s \<Longrightarrow> spent (step s e)"
begin

lemma run_spent: "spent s \<Longrightarrow> spent (foldl step s es)"
  by (induction es arbitrary: s) (auto intro: spent_stays)

end

sublocale latch_machine \<subseteq> latch_inv: invariant_machine step spent
  by unfold_locales (rule spent_stays)

text \<open>A machine with an action that is over once the latch is set.\<close>

locale frozen_machine = latch_machine +
  fixes count :: "'s \<Rightarrow> nat"
  assumes spent_count: "spent s \<Longrightarrow> count (step s e) = count s"
begin

lemma run_spent_count: "spent s \<Longrightarrow> count (foldl step s es) = count s"
proof (induction es arbitrary: s)
  case (Cons e es)
  then show ?case using spent_stays [of s e] spent_count [of s e] by simp
qed simp

end

text \<open>A machine that performs some action at most once: doing it sets the latch, and a
  set latch forbids it.\<close>

locale once_machine = frozen_machine +
  assumes count_step: "count (step s e) = count s \<or> (count (step s e) = Suc (count s) \<and> spent (step s e))"
begin

lemma run_count: "count (foldl step s es) \<le> Suc (count s)"
proof (induction es arbitrary: s)
  case (Cons e es)
  show ?case
  proof (cases "count (step s e) = count s")
    case True
    with Cons.IH [of "step s e"] show ?thesis by simp
  next
    case False
    with count_step [of s e] have "count (step s e) = Suc (count s)" and "spent (step s e)"
      by auto
    then show ?thesis by (simp add: run_spent_count)
  qed
qed simp

end

subsection \<open>Ring buffers\<close>

text \<open>A buffer that appends and then keeps only its newest entries.\<close>

locale ring_buffer =
  fixes push :: "'s \<Rightarrow> 'a \<Rightarrow> 's"
    and items :: "'s \<Rightarrow> 'a list"
    and cap :: "'s \<Rightarrow> nat"
  assumes push_items: "items (push s x) = take_last (cap s) (items s @ [x])"
    and push_cap: "cap (push s x) = cap s"
begin

lemma run_cap: "cap (foldl push s xs) = cap s"
  by (induction xs arbitrary: s) (auto simp: push_cap)

lemma push_bounded: "length (items (push s x)) \<le> cap s"
  by (simp add: push_items)

lemma run_items:
  "length (items s) \<le> cap s \<Longrightarrow> items (foldl push s xs) = take_last (cap s) (items s @ xs)"
proof (induction xs arbitrary: s)
  case (Cons x xs)
  have "items (foldl push s (x # xs)) = take_last (cap s) (take_last (cap s) (items s @ [x]) @ xs)"
    using Cons.IH [of "push s x"] by (simp add: push_items push_cap)
  then show ?case by (simp add: take_last_append)
qed simp

lemma run_bounded: "length (items s) \<le> cap s \<Longrightarrow> length (items (foldl push s xs)) \<le> cap s"
  by (simp add: run_items)

lemma run_newest:
  "length (items s) \<le> cap s \<Longrightarrow> 0 < cap s \<Longrightarrow> last (items (foldl push s (xs @ [x]))) = x"
  using run_items [of s "xs @ [x]"] take_last_snoc_last [of "cap s" "items s @ xs" x] by simp

end

subsection \<open>Wire formats\<close>

text \<open>An encoder and a parser that returns what it did not read.\<close>

locale codec =
  fixes enc :: "'a \<Rightarrow> 'b list"
    and dec :: "'b list \<Rightarrow> ('a \<times> 'b list) option"
    and ok :: "'a \<Rightarrow> bool"
  assumes dec_enc: "ok x \<Longrightarrow> dec (enc x @ rest) = Some (x, rest)"
begin

lemma dec_enc_all: "ok x \<Longrightarrow> dec (enc x) = Some (x, [])"
  using dec_enc [of x "[]"] by simp

lemma enc_inj: "ok x \<Longrightarrow> ok y \<Longrightarrow> enc x = enc y \<Longrightarrow> x = y"
  by (metis dec_enc_all option.inject prod.inject)

text \<open>No message is a proper prefix of another, so a stream splits in one way only.\<close>

lemma enc_prefix_free: "ok x \<Longrightarrow> ok y \<Longrightarrow> enc x @ r = enc y @ r' \<Longrightarrow> x = y \<and> r = r'"
  by (metis dec_enc option.inject prod.inject)

fun decode_n :: "nat \<Rightarrow> 'b list \<Rightarrow> ('a list \<times> 'b list) option" where
  "decode_n 0 bs = Some ([], bs)"
| "decode_n (Suc n) bs =
     (case dec bs of None \<Rightarrow> None
      | Some (x, r) \<Rightarrow> map_option (\<lambda>(xs, r'). (x # xs, r')) (decode_n n r))"

lemma decode_stream:
  "(\<And>x. x \<in> set xs \<Longrightarrow> ok x) \<Longrightarrow>
    decode_n (length xs) (concat (map enc xs) @ rest) = Some (xs, rest)"
  by (induction xs) (auto simp: dec_enc)

end

subsection \<open>Cooldowns\<close>

text \<open>A per-key claim that is granted at most once per period.\<close>

locale cooldown =
  fixes claim :: "'s \<Rightarrow> 'k \<Rightarrow> instant \<Rightarrow> bool \<times> 's"
    and stamp :: "'s \<Rightarrow> 'k \<Rightarrow> instant option"
    and period :: duration
  assumes claim_granted: "fst (claim s k t) \<longleftrightarrow> (\<forall>u. stamp s k = Some u \<longrightarrow> period \<le> t - u)"
    and claim_stamp: "stamp (snd (claim s k t)) =
      (if fst (claim s k t) then (stamp s)(k \<mapsto> t) else stamp s)"
begin

text \<open>The instants at which a sequence of claims was granted for one key.\<close>

fun grants :: "'s \<Rightarrow> 'k \<Rightarrow> ('k \<times> instant) list \<Rightarrow> instant list" where
  "grants s k [] = []"
| "grants s k ((j, t) # cs) =
     (if j = k \<and> fst (claim s j t) then [t] else []) @ grants (snd (claim s j t)) k cs"

lemma grants_after_stamp:
  "stamp s k = Some u \<Longrightarrow> t \<in> set (grants s k cs) \<Longrightarrow> 0 < period \<Longrightarrow> u + period \<le> t"
proof (induction cs arbitrary: s u)
  case (Cons c cs)
  obtain j v where c: "c = (j, v)" by force
  show ?case
  proof (cases "j = k \<and> fst (claim s j v)")
    case True
    with Cons.prems c have uv: "u + period \<le> v" by (auto simp: claim_granted)
    from True have "stamp (snd (claim s j v)) k = Some v" by (auto simp: claim_stamp)
    then show ?thesis
      using Cons.IH [of "snd (claim s j v)" v] Cons.prems c True uv by auto
  next
    case False
    then have "stamp (snd (claim s j v)) k = Some u"
      using Cons.prems(1) by (auto simp: claim_stamp)
    with Cons.IH Cons.prems c False show ?thesis by auto
  qed
qed simp

lemma grants_spaced: "0 < period \<Longrightarrow> sorted_wrt (\<lambda>t u. t + period \<le> u) (grants s k cs)"
proof (induction cs arbitrary: s)
  case (Cons c cs)
  obtain j v where c: "c = (j, v)" by force
  show ?case
  proof (cases "j = k \<and> fst (claim s j v)")
    case True
    then have "stamp (snd (claim s j v)) k = Some v" by (auto simp: claim_stamp)
    with Cons c True grants_after_stamp show ?thesis by auto
  next
    case False
    with Cons c show ?thesis by auto
  qed
qed simp

end

subsection \<open>Comparators\<close>

text \<open>What \<open>sort.SliceStable\<close> asks of its \<open>less\<close> function: a strict weak order.\<close>

locale less_function =
  fixes lt :: "'a \<Rightarrow> 'a \<Rightarrow> bool"
  assumes lt_irrefl: "\<not> lt x x"
    and lt_asym: "lt x y \<Longrightarrow> \<not> lt y x"
    and le_trans: "\<not> lt y x \<Longrightarrow> \<not> lt z y \<Longrightarrow> \<not> lt z x"
begin

lemma insert_by_ordered: "ordered_by lt ys \<Longrightarrow> ordered_by lt (insert_by lt x ys)"
proof (induction ys)
  case (Cons y ys)
  then have IH: "ordered_by lt (insert_by lt x ys)" by (simp add: ordered_by_def)
  show ?case
  proof (cases "lt y x")
    case True
    with lt_asym have "\<not> lt x y" by blast
    with IH True Cons.prems show ?thesis by (auto simp: ordered_by_def)
  next
    case False
    then show ?thesis
      using Cons.prems by (auto simp: ordered_by_def dest: le_trans)
  qed
qed (simp add: ordered_by_def)

lemma stable_sort_is_ordered: "ordered_by lt (stable_sort lt xs)"
  by (induction xs) (simp_all add: insert_by_ordered, simp add: ordered_by_def)

lemma sort_idem [simp]: "stable_sort lt (stable_sort lt xs) = stable_sort lt xs"
  by (rule stable_sort_ordered) (rule stable_sort_is_ordered)

text \<open>The first element of the sorted list has nothing before it.\<close>

lemma sort_hd_least: "stable_sort lt xs = y # ys \<Longrightarrow> x \<in> set xs \<Longrightarrow> \<not> lt x y"
proof -
  assume s: "stable_sort lt xs = y # ys" and x: "x \<in> set xs"
  have "x \<in> set (y # ys)" using x s by (metis set_stable_sort)
  moreover have "ordered_by lt (y # ys)" using stable_sort_is_ordered [of xs] s by simp
  ultimately show ?thesis by (auto simp: ordered_by_def lt_irrefl)
qed

text \<open>Stability: elements that do not differ in the order keep their order.\<close>

lemma insert_by_stable:
  "(\<And>y. y \<in> set ys \<Longrightarrow> P y \<Longrightarrow> P x \<Longrightarrow> \<not> lt y x) \<Longrightarrow> ordered_by lt ys \<Longrightarrow>
    filter P (insert_by lt x ys) = filter P (x # ys)"
proof (induction ys)
  case (Cons y ys)
  then have "ordered_by lt ys" by (simp add: ordered_by_def)
  with Cons show ?case by auto
qed simp

lemma sort_stable:
  "(\<And>x y. P x \<Longrightarrow> P y \<Longrightarrow> \<not> lt x y) \<Longrightarrow> filter P (stable_sort lt xs) = filter P xs"
  by (induction xs) (simp_all add: insert_by_stable stable_sort_is_ordered)

end

end
