(* ===== verification/Ids.thy ===== *)
theory Ids
  imports Interfaces
begin

text \<open>
  Spotify ids (\<open>ids.go\<close>) and the user-name obfuscation of the logs (\<open>utils.go\<close>).
  An id is 16 bytes, written in base 62 with 22 digits inside a
  \<open>spotify:<type>:<id>\<close> uri. \<open>text62\<close> and \<open>set_string62\<close> are \<open>big.Int.Text(62)\<close>
  and \<open>big.Int.SetString(_, 62)\<close>; \<open>fill_bytes16\<close> is \<open>FillBytes\<close> on a 16 byte buffer,
  which panics when the number does not fit.
\<close>

subsection \<open>Base 62\<close>

definition alphabet62 :: string where
  "alphabet62 = ''0123456789abcdefghijklmnopqrstuvwxyzABCDEFGHIJKLMNOPQRSTUVWXYZ''"

definition digit62 :: "nat \<Rightarrow> char" where
  "digit62 d = alphabet62 ! d"

definition digit62_val :: "char \<Rightarrow> nat option" where
  "digit62_val c =
     (if c \<in> set alphabet62 then Some (length (takeWhile (\<lambda>x. x \<noteq> c) alphabet62)) else None)"

fun text62 :: "nat \<Rightarrow> string" where
  "text62 n = (if n < 62 then [digit62 n] else text62 (n div 62) @ [digit62 (n mod 62)])"

declare text62.simps [simp del]

fun scan62 :: "nat \<Rightarrow> string \<Rightarrow> nat option" where
  "scan62 a [] = Some a"
| "scan62 a (c # cs) =
     (case digit62_val c of None \<Rightarrow> None | Some d \<Rightarrow> scan62 (a * 62 + d) cs)"

text \<open>\<open>SetString\<close>: an optional sign, then at least one digit and nothing else; the sign
  does not matter to \<open>FillBytes\<close>, which writes the absolute value.\<close>

definition set_string62 :: "string \<Rightarrow> nat option" where
  "set_string62 s =
     (let ds = (case s of c # cs \<Rightarrow> if c = CHR ''+'' \<or> c = CHR ''-'' then cs else s | [] \<Rightarrow> s)
      in if ds = [] then None else scan62 0 ds)"

definition fill_bytes16 :: "nat \<Rightarrow> byte list outcome" where
  "fill_bytes16 n = (if n < 256 ^ 16 then Return (be_bytes 16 n) else Panic ''math/big: buffer too small'')"

subsection \<open>Ids and uris\<close>

record spotify_id =
  sid_typ :: string
  sid_id :: "byte list"

definition gid_to_base62 :: "byte list \<Rightarrow> string outcome" where
  "gid_to_base62 gid =
     (let s = text62 (be_nat gid)
      in if length s \<le> 22 then Return (replicate (22 - length s) (CHR ''0'') @ s)
         else Panic ''strings: negative Repeat count'')"

definition spotify_id_from_gid :: "string \<Rightarrow> byte list \<Rightarrow> spotify_id outcome" where
  "spotify_id_from_gid typ gid =
     (if length gid \<noteq> 16 then Panic ''invalid gid'' else Return \<lparr>sid_typ = typ, sid_id = gid\<rparr>)"

definition spotify_id_uri :: "spotify_id \<Rightarrow> string outcome" where
  "spotify_id_uri i =
     bind_outcome (gid_to_base62 (sid_id i))
       (\<lambda>b. Return (''spotify:'' @ sid_typ i @ '':'' @ b))"

definition spotify_id_from_base62 :: "string \<Rightarrow> string \<Rightarrow> spotify_id outcome" where
  "spotify_id_from_base62 typ s =
     (case set_string62 s of
        None \<Rightarrow> Fail ''failed decoding base62''
      | Some n \<Rightarrow> bind_outcome (fill_bytes16 n) (\<lambda>bs. Return \<lparr>sid_typ = typ, sid_id = bs\<rparr>))"

definition is_lower :: "char \<Rightarrow> bool" where
  "is_lower c \<longleftrightarrow> (let n = of_char c :: nat in 97 \<le> n \<and> n \<le> 122)"

text \<open>\<open>UriRegexp\<close>: \<open>^spotify:([a-z]+):([0-9a-zA-Z]{21,22})$\<close>, with its two groups.\<close>

definition uri_match :: "string \<Rightarrow> (string \<times> string) option" where
  "uri_match uri =
     (if has_prefix uri ''spotify:'' then
        let r = drop 8 uri; typ = takeWhile is_lower r; r2 = dropWhile is_lower r; b = tl r2
        in if typ \<noteq> [] \<and> r2 \<noteq> [] \<and> hd r2 = CHR '':''
              \<and> (length b = 21 \<or> length b = 22) \<and> list_all (\<lambda>c. digit62_val c \<noteq> None) b
           then Some (typ, b) else None
      else None)"

definition spotify_id_from_uri :: "string \<Rightarrow> spotify_id outcome" where
  "spotify_id_from_uri uri =
     (case uri_match uri of
        None \<Rightarrow> Fail ''invalid uri''
      | Some (typ, b) \<Rightarrow> spotify_id_from_base62 typ b)"

definition infer_spotify_id_type :: "string \<Rightarrow> string" where
  "infer_spotify_id_type uri =
     (if has_prefix uri ''spotify:episode:'' \<or> has_prefix uri ''spotify:show:''
      then ''episode'' else ''track'')"

subsection \<open>Context tracks\<close>

record context_track =
  ct_uri :: string
  ct_uid :: string
  ct_gid :: "byte list"
  ct_metadata :: "string \<Rightarrow> string option"

record provided_track =
  pt_uri :: string
  pt_uid :: string
  pt_metadata :: "string \<Rightarrow> string option"
  pt_artist_uri :: string
  pt_album_uri :: string
  pt_provider :: string

definition context_track_to_provided_track :: "string \<Rightarrow> context_track \<Rightarrow> provided_track outcome" where
  "context_track_to_provided_track typ t =
     bind_outcome
       (if ct_uri t \<noteq> [] then Return (ct_uri t)
        else if ct_gid t \<noteq> [] then bind_outcome (spotify_id_from_gid typ (ct_gid t)) spotify_id_uri
        else Panic ''invalid context track'')
       (\<lambda>uri. Return \<lparr>pt_uri = uri, pt_uid = ct_uid t, pt_metadata = ct_metadata t,
          pt_artist_uri = get_str (ct_metadata t) ''artist_uri'',
          pt_album_uri = get_str (ct_metadata t) ''album_uri'',
          pt_provider =
            (if get_str (ct_metadata t) ''is_queued'' = ''true'' then ''queue''
             else if get_str (ct_metadata t) ''autoplay.is_autoplay'' = ''true'' then ''autoplay''
             else ''context'')\<rparr>)"

subsection \<open>Lemmas on base 62\<close>

lemma length_alphabet62 [simp]: "length alphabet62 = 62"
  by (simp add: alphabet62_def)

lemma distinct_alphabet62: "distinct alphabet62"
  by (simp add: alphabet62_def)

lemma digit62_val_digit62 [simp]: "d < 62 \<Longrightarrow> digit62_val (digit62 d) = Some d"
  using distinct_alphabet62 by (simp add: digit62_val_def digit62_def length_takeWhile_nth)

lemma digit62_val_bound: "digit62_val c = Some d \<Longrightarrow> d < 62"
  using length_takeWhile_less [of c alphabet62 "\<lambda>x. x \<noteq> c"]
  by (auto simp: digit62_val_def split: if_splits)

lemma digit62_val_sign [simp]: "digit62_val (CHR ''+'') = None" "digit62_val (CHR ''-'') = None"
  by (simp_all add: digit62_val_def alphabet62_def)

lemma scan62_append: "scan62 a (xs @ ys) = Option.bind (scan62 a xs) (\<lambda>b. scan62 b ys)"
  by (induction a xs rule: scan62.induct) (auto split: option.splits)

lemma scan62_text62: "scan62 0 (text62 n) = Some n"
proof (induction n rule: text62.induct)
  case (1 n)
  show ?case
  proof (cases "n < 62")
    case True
    then show ?thesis by (simp add: text62.simps [of n])
  next
    case False
    with 1 have "scan62 0 (text62 (n div 62)) = Some (n div 62)" by simp
    with False show ?thesis by (simp add: text62.simps [of n] scan62_append)
  qed
qed

lemma scan62_zeros: "scan62 0 (replicate k (CHR ''0'') @ s) = scan62 0 s"
  by (induction k) (auto simp: digit62_val_def alphabet62_def)

lemma text62_digits: "c \<in> set (text62 n) \<Longrightarrow> digit62_val c \<noteq> None"
proof (induction n rule: text62.induct)
  case (1 n)
  then show ?case
    by (cases "n < 62") (auto simp: text62.simps [of n])
qed

lemma text62_not_Nil [simp]: "text62 n \<noteq> []"
  by (simp add: text62.simps [of n])

lemma length_text62: "n < 62 ^ k \<Longrightarrow> 0 < k \<Longrightarrow> length (text62 n) \<le> k"
proof (induction n arbitrary: k rule: text62.induct)
  case (1 n)
  show ?case
  proof (cases "n < 62")
    case True
    with 1 show ?thesis by (simp add: text62.simps [of n])
  next
    case False
    with 1 obtain j where k: "k = Suc j" by (cases k) auto
    with 1 False have "0 < j" by (cases j) auto
    moreover have "n div 62 < 62 ^ j" using 1 k by (simp add: less_mult_imp_div_less mult.commute)
    ultimately have "length (text62 (n div 62)) \<le> j" using 1 False by blast
    with False k show ?thesis by (simp add: text62.simps [of n])
  qed
qed

lemma scan62_total: "list_all (\<lambda>c. digit62_val c \<noteq> None) s \<Longrightarrow> \<exists>n. scan62 a s = Some n"
  by (induction a s rule: scan62.induct) auto

lemma set_string62_digits:
  "s \<noteq> [] \<Longrightarrow> list_all (\<lambda>c. digit62_val c \<noteq> None) s \<Longrightarrow> set_string62 s = scan62 0 s"
  by (cases s) (auto simp: set_string62_def)

lemma gid_to_base62_16:
  assumes "length gid = 16"
  obtains s where "gid_to_base62 gid = Return s" and "length s = 22"
    and "list_all (\<lambda>c. digit62_val c \<noteq> None) s" and "set_string62 s = Some (be_nat gid)"
proof -
  have "be_nat gid < 62 ^ 22"
    using be_nat_less [of gid] assms by simp
  then have len: "length (text62 (be_nat gid)) \<le> 22" by (rule length_text62) simp
  let ?s = "replicate (22 - length (text62 (be_nat gid))) (CHR ''0'') @ text62 (be_nat gid)"
  have zero: "digit62_val (CHR ''0'') \<noteq> None"
    by (simp add: digit62_val_def alphabet62_def)
  have digits: "list_all (\<lambda>c. digit62_val c \<noteq> None) ?s"
    using zero text62_digits by (auto simp: list_all_iff)
  have "set_string62 ?s = Some (be_nat gid)"
    using set_string62_digits [OF _ digits] by (simp add: scan62_zeros scan62_text62)
  with len digits show thesis by (intro that [of ?s]) (simp_all add: gid_to_base62_def Let_def)
qed

lemma uri_match_build:
  assumes "typ \<noteq> []" and "list_all is_lower typ" and "length b = 22"
    and "list_all (\<lambda>c. digit62_val c \<noteq> None) b"
  shows "uri_match (''spotify:'' @ typ @ '':'' @ b) = Some (typ, b)"
proof -
  have colon: "\<not> is_lower (CHR '':'')" by (simp add: is_lower_def)
  then have "takeWhile is_lower (typ @ '':'' @ b) = typ"
    and "dropWhile is_lower (typ @ '':'' @ b) = '':'' @ b"
    using assms(2) by (auto simp: list_all_iff takeWhile_append2 dropWhile_append2)
  with assms colon show ?thesis
    by (simp add: uri_match_def has_prefix_def Let_def)
qed

lemma spotify_id_from_uri_match:
  assumes "uri_match uri = Some (typ, b)"
  obtains n where "set_string62 b = Some n"
    and "spotify_id_from_uri uri =
      (if n < 256 ^ 16 then Return \<lparr>sid_typ = typ, sid_id = be_bytes 16 n\<rparr>
       else Panic ''math/big: buffer too small'')"
proof -
  from assms have "length b = 21 \<or> length b = 22"
    and digits: "list_all (\<lambda>c. digit62_val c \<noteq> None) b"
    by (auto simp: uri_match_def Let_def simp del: length_tl split: if_splits)
  then have "b \<noteq> []" by auto
  with digits obtain n where "set_string62 b = Some n"
    using scan62_total [of b 0] by (auto simp: set_string62_digits)
  with assms that show thesis
    by (simp add: spotify_id_from_uri_def spotify_id_from_base62_def fill_bytes16_def)
qed

subsection \<open>The codec of ids\<close>

text \<open>The textual form of a gid is a codec on 22 digit strings: nothing follows the id.\<close>

definition base62_enc :: "byte list \<Rightarrow> string" where
  "base62_enc gid = (case gid_to_base62 gid of Return s \<Rightarrow> s | _ \<Rightarrow> [])"

definition base62_dec :: "string \<Rightarrow> (byte list \<times> string) option" where
  "base62_dec s =
     (case spotify_id_from_base62 [] (take 22 s) of Return i \<Rightarrow> Some (sid_id i, drop 22 s) | _ \<Rightarrow> None)"

interpretation id62: codec base62_enc base62_dec "\<lambda>gid. length gid = 16"
proof unfold_locales
  fix gid :: "byte list" and rest :: string
  assume len: "length gid = 16"
  then obtain s where s: "gid_to_base62 gid = Return s" "length s = 22"
    "set_string62 s = Some (be_nat gid)"
    by (rule gid_to_base62_16)
  have "be_nat gid < 256 ^ 16" using be_nat_less [of gid] len by simp
  with s len show "base62_dec (base62_enc gid @ rest) = Some (gid, rest)"
    by (simp add: base62_enc_def base62_dec_def spotify_id_from_base62_def fill_bytes16_def)
qed

subsection \<open>User names in the logs\<close>

function obfuscate_username :: "string \<Rightarrow> string" where
  "obfuscate_username u =
     (if CHR ''@'' \<in> set u
      then obfuscate_username (takeWhile (\<lambda>c. c \<noteq> CHR ''@'') u) @ ''@''
             @ tl (dropWhile (\<lambda>c. c \<noteq> CHR ''@'') u)
      else if length u < 5 then u
      else take 2 u @ replicate (length u - 4) (CHR ''*'') @ drop (length u - 2) u)"
  by pat_completeness auto
termination
  by (relation "measure length") (auto intro: length_takeWhile_less)

declare obfuscate_username.simps [simp del]

lemma obfuscate_plain:
  "CHR ''@'' \<notin> set u \<Longrightarrow> obfuscate_username u =
     (if length u < 5 then u
      else take 2 u @ replicate (length u - 4) (CHR ''*'') @ drop (length u - 2) u)"
  by (simp add: obfuscate_username.simps [of u])

lemma length_obfuscate_plain: "CHR ''@'' \<notin> set u \<Longrightarrow> length (obfuscate_username u) = length u"
  by (auto simp: obfuscate_plain)

subsection \<open>Properties\<close>

text \<open>every 16 byte gid survives the trip through its uri: the uri of an id of a
  lower-case type is accepted by \<open>SpotifyIdFromUri\<close>, which returns the very same id.\<close>

theorem spotify_id_uri_roundtrip:
  assumes "length gid = 16" and "typ \<noteq> []" and "list_all is_lower typ"
  shows "\<exists>uri. spotify_id_uri \<lparr>sid_typ = typ, sid_id = gid\<rparr> = Return uri
    \<and> spotify_id_from_uri uri = Return \<lparr>sid_typ = typ, sid_id = gid\<rparr>"
proof -
  obtain s where s: "gid_to_base62 gid = Return s" "length s = 22"
    "list_all (\<lambda>c. digit62_val c \<noteq> None) s" "set_string62 s = Some (be_nat gid)"
    using assms(1) by (rule gid_to_base62_16)
  have fits: "be_nat gid < 256 ^ 16" using be_nat_less [of gid] assms(1) by simp
  from assms(2,3) s(2,3) have "uri_match (''spotify:'' @ typ @ '':'' @ s) = Some (typ, s)"
    by (rule uri_match_build)
  with s fits assms(1) show ?thesis
    by (simp add: spotify_id_uri_def spotify_id_from_uri_def spotify_id_from_base62_def fill_bytes16_def)
qed

theorem spotify_id_uri_roundtrip_witness:
  "\<exists>uri. spotify_id_uri \<lparr>sid_typ = ''track'', sid_id = replicate 16 255\<rparr> = Return uri
    \<and> spotify_id_from_uri uri = Return \<lparr>sid_typ = ''track'', sid_id = replicate 16 255\<rparr>"
  by (rule spotify_id_uri_roundtrip) (simp_all add: is_lower_def)

text \<open>on a uri of the accepted shape, \<open>SpotifyIdFromUri\<close> returns the 16 byte
  big-endian value of its id when that value is below \<open>2^128\<close>, and panics when it is
  not: the regular expression admits 21 and 22 digit ids that no 16 byte buffer holds.\<close>

theorem spotify_id_from_uri_outcome:
  assumes "uri_match uri = Some (typ, b)"
  shows "\<exists>n. scan62 0 b = Some n
    \<and> (n < 2 ^ 128 \<longrightarrow> spotify_id_from_uri uri = Return \<lparr>sid_typ = typ, sid_id = be_bytes 16 n\<rparr>)
    \<and> (2 ^ 128 \<le> n \<longrightarrow> spotify_id_from_uri uri = Panic ''math/big: buffer too small'')"
proof -
  obtain n where n: "set_string62 b = Some n"
    and r: "spotify_id_from_uri uri =
      (if n < 256 ^ 16 then Return \<lparr>sid_typ = typ, sid_id = be_bytes 16 n\<rparr>
       else Panic ''math/big: buffer too small'')"
    using assms by (rule spotify_id_from_uri_match)
  from assms have "length b = 21 \<or> length b = 22" and "list_all (\<lambda>c. digit62_val c \<noteq> None) b"
    by (auto simp: uri_match_def Let_def simp del: length_tl split: if_splits)
  then have "set_string62 b = scan62 0 b"
    by (intro set_string62_digits) auto
  with n r show ?thesis by (intro exI [of _ n]) simp
qed

theorem spotify_id_from_uri_outcome_witness:
  "spotify_id_from_uri ''spotify:track:ZZZZZZZZZZZZZZZZZZZZZZ'' = Panic ''math/big: buffer too small''"
proof -
  have Z: "digit62_val (CHR ''Z'') = Some 61"
    by (simp add: digit62_val_def alphabet62_def)
  have "uri_match ''spotify:track:ZZZZZZZZZZZZZZZZZZZZZZ'' = Some (''track'', ''ZZZZZZZZZZZZZZZZZZZZZZ'')"
    using uri_match_build [of "''track''" "''ZZZZZZZZZZZZZZZZZZZZZZ''"] by (simp add: is_lower_def Z)
  from spotify_id_from_uri_outcome [OF this] show ?thesis by (simp add: Z)
qed

end
