(* ===== verification/BtState.thy ===== *)
theory BtState
  imports Interfaces
begin

text \<open>
  The state of the bluetooth manager (\<open>daemon/bluetooth/manager.go\<close>, \<open>types.go\<close>) and what
  its methods exchange with the outside.

  The fields of \<open>manager\<close> are those of the Go struct without its locks, log and
  connections. Maps whose only value is \<open>true\<close> are sets. \<open>effects\<close> is not a field of
  the code: it is the list of everything the manager did to the outside (events emitted,
  D-Bus calls, goroutines started), in order. Each method reads the clock once.

  BlueZ, netlink and the HID and iAP2 helpers answer through a \<open>bt_env\<close>: what
  \<open>GetDeviceInfo\<close> returns, whether \<open>bnep0\<close> is up, and which calls succeed.
\<close>

subsection \<open>Devices\<close>

datatype variant = VStr string | VBool bool | VU32 "32 word" | VByte "8 word" | VStrs "string list"

record device_info =
  di_address :: string
  di_name :: string
  di_alias :: string
  di_class :: string
  di_icon :: string
  di_paired :: bool
  di_trusted :: bool
  di_blocked :: bool
  di_connected :: bool
  di_legacy_pairing :: bool
  di_battery :: nat

definition blank_device_info :: "string \<Rightarrow> device_info" where
  "blank_device_info a = \<lparr>di_address = a, di_name = [], di_alias = [], di_class = [], di_icon = [],
     di_paired = False, di_trusted = False, di_blocked = False, di_connected = False,
     di_legacy_pairing = False, di_battery = 0\<rparr>"

fun as_str :: "variant \<Rightarrow> string" where
  "as_str (VStr s) = s"
| "as_str _ = []"

fun as_bool :: "variant \<Rightarrow> bool" where
  "as_bool (VBool b) = b"
| "as_bool _ = False"

definition prop_or :: "(string \<Rightarrow> variant option) \<Rightarrow> string \<Rightarrow> (variant \<Rightarrow> 'a) \<Rightarrow> 'a \<Rightarrow> 'a" where
  "prop_or props k f old = (case props k of None \<Rightarrow> old | Some v \<Rightarrow> f v)"

definition fill_device_info :: "device_info \<Rightarrow> (string \<Rightarrow> variant option) \<Rightarrow> device_info" where
  "fill_device_info info props = info\<lparr>
     di_name := prop_or props ''Name'' as_str (di_name info),
     di_alias := prop_or props ''Alias'' as_str (di_alias info),
     di_class := prop_or props ''Class'' (\<lambda>v. case v of VU32 c \<Rightarrow> show_nat (unat c) | _ \<Rightarrow> di_class info) (di_class info),
     di_icon := prop_or props ''Icon'' as_str (di_icon info),
     di_paired := prop_or props ''Paired'' as_bool (di_paired info),
     di_trusted := prop_or props ''Trusted'' as_bool (di_trusted info),
     di_blocked := prop_or props ''Blocked'' as_bool (di_blocked info),
     di_connected := prop_or props ''Connected'' as_bool (di_connected info),
     di_legacy_pairing := prop_or props ''LegacyPairing'' as_bool (di_legacy_pairing info)\<rparr>"

definition battery_info :: "device_info \<Rightarrow> (string \<Rightarrow> variant option) \<Rightarrow> device_info" where
  "battery_info info props =
     (case props ''Percentage'' of Some (VByte p) \<Rightarrow> info\<lparr>di_battery := unat p\<rparr> | _ \<Rightarrow> info)"

text \<open>\<open>GetDeviceInfo\<close>: the device properties must be readable, the battery's need not be.\<close>

definition get_device_info ::
  "string \<Rightarrow> (string \<Rightarrow> variant option) option \<Rightarrow> (string \<Rightarrow> variant option) option \<Rightarrow> device_info option" where
  "get_device_info address props battery =
     (case props of
        None \<Rightarrow> None
      | Some p \<Rightarrow>
          let info = fill_device_info (blank_device_info address) p
          in Some (case battery of None \<Rightarrow> info | Some b \<Rightarrow> battery_info info b))"

text \<open>The address in a BlueZ object path and back.\<close>

definition format_device_path :: "string \<Rightarrow> string \<Rightarrow> string" where
  "format_device_path adapter address = adapter @ ''/dev_'' @ replace_char (CHR '':'') (CHR ''_'') address"

definition address_from_path :: "string \<Rightarrow> string \<Rightarrow> string" where
  "address_from_path adapter path =
     replace_char (CHR ''_'') (CHR '':'') (trim_prefix path (adapter @ ''/dev_''))"

lemma address_from_path_format:
  "CHR ''_'' \<notin> set address \<Longrightarrow> address_from_path adapter (format_device_path adapter address) = address"
proof -
  assume a: "CHR ''_'' \<notin> set address"
  have "trim_prefix ((adapter @ ''/dev_'') @ replace_char (CHR '':'') (CHR ''_'') address) (adapter @ ''/dev_'')
      = replace_char (CHR '':'') (CHR ''_'') address"
    by (rule trim_prefix_append)
  with a show ?thesis
    by (simp add: address_from_path_def format_device_path_def replace_char_back)
qed

subsection \<open>Known devices, pairing requests, events\<close>

record known_device =
  kd_address :: string
  kd_name :: string
  kd_starred :: bool
  kd_last :: instant

record pairing_request =
  pr_device :: string
  pr_passkey :: string
  pr_type :: string

datatype bt_event =
    EventPairing string string
  | EventPairingCancelled string
  | EventPaired device_info
  | EventConnect string "device_info option"
  | EventDisconnect string
  | EventNetworkConnect string
  | EventNetworkDisconnect
  | EventNAPUnavailable string
  | EventBondLost string

datatype bt_effect =
    Emit bt_event
  | PersistKnown "known_device list"
  | CallDisconnect string
  | CallConnect string
  | CallNetDisconnect string
  | CallNetConnect string
  | CallRemoveDevice string
  | CallSetTrusted string
  | RequestDHCP
  | GoPage "string list"
  | GoPageLater "string list"
  | GoRecoverPan string
  | GoAutoPan string
  | GoConnectForced string
  | GoRecordPan string
  | GoIap2Session string
  | DropIap2 string
  | ArmWatchdog string
  | ClearWatchdog string
  | AdvRefresh
  | NmcliConnect string
  | SetProperty string bool
  | SetTimeout nat
  | EnsureIap2 string
  | GoConnectInfo string
  | GoOfflineLoop

subsection \<open>The manager\<close>

record manager =
  adapter :: string
  has_emit :: bool
  has_hid :: bool
  agent_current :: "pairing_request option"
  pending_disconnects :: "string set"
  last_pan_address :: string
  offline_retry :: bool
  pan_retry_history :: "instant list"
  self_teardown_at :: instant
  pan_backoff_until :: "string \<Rightarrow> instant option"
  pan_backoff_delay :: "string \<Rightarrow> duration option"
  pan_backoff_bumped :: "string \<Rightarrow> instant option"
  pan_session_up :: "string set"
  known_devices :: "known_device list"
  manual_disconnects :: "string \<Rightarrow> instant option"
  connected_since :: "string \<Rightarrow> instant option"
  connected_now :: "string set"
  le_links :: "string set"
  last_network_drop_at :: instant
  online :: bool
  active_reconnect_in_flight :: bool
  auth_fail_count :: "string \<Rightarrow> nat option"
  auth_fail_last :: "string \<Rightarrow> instant option"
  sdp_bounce_at :: "string \<Rightarrow> instant option"
  has_iap2 :: bool
  iap2_watching :: "string set"
  effects :: "bt_effect list"

definition new_manager :: "string \<Rightarrow> manager" where
  "new_manager a = \<lparr>adapter = a, has_emit = True, has_hid = True, agent_current = None,
     pending_disconnects = {}, last_pan_address = [], offline_retry = False,
     pan_retry_history = [], self_teardown_at = 0,
     pan_backoff_until = Map.empty, pan_backoff_delay = Map.empty, pan_backoff_bumped = Map.empty,
     pan_session_up = {}, known_devices = [], manual_disconnects = Map.empty,
     connected_since = Map.empty, connected_now = {}, le_links = {}, last_network_drop_at = 0,
     online = False, active_reconnect_in_flight = False,
     auth_fail_count = Map.empty, auth_fail_last = Map.empty, sdp_bounce_at = Map.empty,
     has_iap2 = True, iap2_watching = {}, effects = []\<rparr>"

definition effect :: "bt_effect \<Rightarrow> manager \<Rightarrow> manager" where
  "effect e m = m\<lparr>effects := effects m @ [e]\<rparr>"

definition emit :: "bt_event \<Rightarrow> manager \<Rightarrow> manager" where
  "emit e m = (if has_emit m then effect (Emit e) m else m)"

record bt_env =
  env_info :: "string \<Rightarrow> device_info option"
  env_net_up :: bool
  env_net_up_after :: bool
  env_call :: "bt_effect \<Rightarrow> bool"

text \<open>The calls that make a device connect again.\<close>

fun reconnects :: "string \<Rightarrow> bt_effect \<Rightarrow> bool" where
  "reconnects a (CallConnect b) = (a = b)"
| "reconnects a (CallNetConnect b) = (a = b)"
| "reconnects a (GoPage bs) = (a \<in> set bs)"
| "reconnects a (GoPageLater bs) = (a \<in> set bs)"
| "reconnects a (GoRecoverPan b) = (a = b)"
| "reconnects a (GoAutoPan b) = (a = b)"
| "reconnects a (GoConnectForced b) = (a = b)"
| "reconnects a _ = False"

lemma emit_simps [simp]:
  "known_devices (emit e m) = known_devices m"
  "manual_disconnects (emit e m) = manual_disconnects m"
  "pan_backoff_until (emit e m) = pan_backoff_until m"
  "pan_session_up (emit e m) = pan_session_up m"
  "last_pan_address (emit e m) = last_pan_address m"
  "agent_current (emit e m) = agent_current m"
  "adapter (emit e m) = adapter m"
  "has_emit (emit e m) = has_emit m"
  "active_reconnect_in_flight (emit e m) = active_reconnect_in_flight m"
  "connected_since (emit e m) = connected_since m"
  "connected_now (emit e m) = connected_now m"
  "online (emit e m) = online m"
  "has_hid (emit e m) = has_hid m"
  "pending_disconnects (emit e m) = pending_disconnects m"
  "le_links (emit e m) = le_links m"
  "sdp_bounce_at (emit e m) = sdp_bounce_at m"
  "has_iap2 (emit e m) = has_iap2 m"
  "iap2_watching (emit e m) = iap2_watching m"
  "auth_fail_count (emit e m) = auth_fail_count m"
  "auth_fail_last (emit e m) = auth_fail_last m"
  "effects (emit e m) = effects m @ (if has_emit m then [Emit e] else [])"
  by (simp_all add: emit_def effect_def)

lemma effect_simps [simp]:
  "known_devices (effect e m) = known_devices m"
  "manual_disconnects (effect e m) = manual_disconnects m"
  "pan_backoff_until (effect e m) = pan_backoff_until m"
  "pan_session_up (effect e m) = pan_session_up m"
  "last_pan_address (effect e m) = last_pan_address m"
  "active_reconnect_in_flight (effect e m) = active_reconnect_in_flight m"
  "agent_current (effect e m) = agent_current m"
  "adapter (effect e m) = adapter m"
  "has_emit (effect e m) = has_emit m"
  "connected_since (effect e m) = connected_since m"
  "connected_now (effect e m) = connected_now m"
  "online (effect e m) = online m"
  "has_hid (effect e m) = has_hid m"
  "pending_disconnects (effect e m) = pending_disconnects m"
  "le_links (effect e m) = le_links m"
  "sdp_bounce_at (effect e m) = sdp_bounce_at m"
  "has_iap2 (effect e m) = has_iap2 m"
  "iap2_watching (effect e m) = iap2_watching m"
  "auth_fail_count (effect e m) = auth_fail_count m"
  "auth_fail_last (effect e m) = auth_fail_last m"
  "effects (effect e m) = effects m @ [e]"
  by (simp_all add: effect_def)

end
