(* ===== verification/BtPan.thy ===== *)
theory BtPan
  imports BtState
begin

text \<open>
  The two brakes on automatic PAN reconnects (\<open>manager.go\<close>) and the manual-disconnect
  marks (\<open>known_devices.go\<close>): the sliding window of recovery attempts, the per-device
  backoff that doubles while a connection flaps, the marks that pause a device the user
  disconnected, and the markers of the manager's own teardown and of the current session.
\<close>

subsection \<open>The retry window\<close>

definition pan_retry_threshold :: nat where "pan_retry_threshold = 3"
definition pan_retry_window :: duration where "pan_retry_window = seconds 30"
definition pan_stable_after :: duration where "pan_stable_after = seconds 60"
definition pan_stable_retry_allowed :: nat where "pan_stable_retry_allowed = 1"

definition should_retry_pan_threshold :: "instant \<Rightarrow> nat \<Rightarrow> manager \<Rightarrow> (bool \<times> nat) \<times> manager" where
  "should_retry_pan_threshold now threshold m =
     (let fresh = filter (\<lambda>t. now - pan_retry_window < t) (pan_retry_history m)
      in if threshold \<le> length fresh
         then ((False, length fresh), m\<lparr>pan_retry_history := fresh\<rparr>)
         else ((True, length fresh), m\<lparr>pan_retry_history := fresh @ [now]\<rparr>))"

definition should_retry_pan :: "instant \<Rightarrow> manager \<Rightarrow> (bool \<times> nat) \<times> manager" where
  "should_retry_pan now m = should_retry_pan_threshold now pan_retry_threshold m"

text \<open>The instants of the attempts a sequence of calls was allowed.\<close>

fun pan_grants :: "manager \<Rightarrow> (instant \<times> nat) list \<Rightarrow> instant list" where
  "pan_grants m [] = []"
| "pan_grants m ((now, threshold) # cs) =
     (if fst (fst (should_retry_pan_threshold now threshold m)) then [now] else [])
       @ pan_grants (snd (should_retry_pan_threshold now threshold m)) cs"

subsection \<open>The flap backoff\<close>

definition pan_backoff_min :: duration where "pan_backoff_min = seconds 30"
definition pan_backoff_max :: duration where "pan_backoff_max = minutes 5"
definition pan_backoff_decay_after :: duration where "pan_backoff_decay_after = minutes 10"

definition bump_pan_backoff :: "instant \<Rightarrow> string \<Rightarrow> manager \<Rightarrow> duration \<times> manager" where
  "bump_pan_backoff now a m =
     (let prev = (case pan_backoff_bumped m a of
                    Some t \<Rightarrow> if time_sub now t > pan_backoff_decay_after then None
                              else pan_backoff_delay m a
                  | None \<Rightarrow> pan_backoff_delay m a);
          d2 = (case prev of None \<Rightarrow> 0 | Some d \<Rightarrow> d) * 2;
          d1 = (if d2 < pan_backoff_min then pan_backoff_min else d2);
          d = (if d1 > pan_backoff_max then pan_backoff_max else d1)
      in (d, m\<lparr>pan_backoff_delay := (pan_backoff_delay m)(a \<mapsto> d),
               pan_backoff_until := (pan_backoff_until m)(a \<mapsto> now + d),
               pan_backoff_bumped := (pan_backoff_bumped m)(a \<mapsto> now)\<rparr>))"

definition in_pan_backoff :: "instant \<Rightarrow> string \<Rightarrow> manager \<Rightarrow> bool" where
  "in_pan_backoff now a m \<longleftrightarrow> now < (case pan_backoff_until m a of Some t \<Rightarrow> t | None \<Rightarrow> 0)"

definition clear_pan_backoff_pause :: "string \<Rightarrow> manager \<Rightarrow> manager" where
  "clear_pan_backoff_pause a m = m\<lparr>pan_backoff_until := (pan_backoff_until m)(a := None)\<rparr>"

definition clear_pan_backoff :: "string \<Rightarrow> manager \<Rightarrow> manager" where
  "clear_pan_backoff a m = m\<lparr>pan_backoff_until := (pan_backoff_until m)(a := None),
     pan_backoff_delay := (pan_backoff_delay m)(a := None),
     pan_backoff_bumped := (pan_backoff_bumped m)(a := None)\<rparr>"

subsection \<open>Manual-disconnect marks\<close>

definition manual_disconnect_ttl :: duration where "manual_disconnect_ttl = minutes 10"

definition mark_manual_disconnect :: "instant \<Rightarrow> string \<Rightarrow> manager \<Rightarrow> manager" where
  "mark_manual_disconnect now a m = m\<lparr>manual_disconnects := (manual_disconnects m)(a \<mapsto> now)\<rparr>"

definition clear_manual_disconnect :: "string \<Rightarrow> manager \<Rightarrow> manager" where
  "clear_manual_disconnect a m = m\<lparr>manual_disconnects := (manual_disconnects m)(a := None)\<rparr>"

definition is_manual_disconnect :: "instant \<Rightarrow> string \<Rightarrow> manager \<Rightarrow> bool \<times> manager" where
  "is_manual_disconnect now a m =
     (case manual_disconnects m a of
        None \<Rightarrow> (False, m)
      | Some t \<Rightarrow> if time_sub now t > manual_disconnect_ttl
                  then (False, m\<lparr>manual_disconnects := (manual_disconnects m)(a := None)\<rparr>)
                  else (True, m))"

definition clear_manual_disconnects :: "manager \<Rightarrow> manager" where
  "clear_manual_disconnects m = m\<lparr>manual_disconnects := Map.empty\<rparr>"

subsection \<open>Session markers\<close>

definition self_teardown_window :: duration where "self_teardown_window = seconds 5"

definition note_self_teardown :: "instant \<Rightarrow> manager \<Rightarrow> manager" where
  "note_self_teardown now m = m\<lparr>self_teardown_at := now\<rparr>"

definition consume_self_teardown :: "instant \<Rightarrow> manager \<Rightarrow> bool \<times> manager" where
  "consume_self_teardown now m =
     (if is_zero (self_teardown_at m) \<or> time_sub now (self_teardown_at m) \<ge> self_teardown_window
      then (False, m) else (True, m\<lparr>self_teardown_at := 0\<rparr>))"

definition set_pan_session_up :: "string \<Rightarrow> manager \<Rightarrow> manager" where
  "set_pan_session_up a m = m\<lparr>pan_session_up := insert a (pan_session_up m)\<rparr>"

definition pan_session_was_up :: "string \<Rightarrow> manager \<Rightarrow> bool" where
  "pan_session_was_up a m \<longleftrightarrow> a \<in> pan_session_up m"

definition clear_pan_session :: "string \<Rightarrow> manager \<Rightarrow> manager" where
  "clear_pan_session a m = m\<lparr>pan_session_up := pan_session_up m - {a}\<rparr>"

definition seed_last_pan_address :: "string \<Rightarrow> manager \<Rightarrow> manager" where
  "seed_last_pan_address a m = (if a = [] then m else m\<lparr>last_pan_address := a\<rparr>)"

definition set_online :: "bool \<Rightarrow> manager \<Rightarrow> manager" where
  "set_online b m = m\<lparr>online := b\<rparr>"

lemmas pan_consts = pan_retry_threshold_def pan_retry_window_def pan_stable_after_def
  pan_stable_retry_allowed_def pan_backoff_min_def pan_backoff_max_def pan_backoff_decay_after_def
  manual_disconnect_ttl_def self_teardown_window_def

subsection \<open>The interface of the marks\<close>

text \<open>A pause that is set at an instant, holds for a bounded time and can be lifted.
  \<open>paused\<close> is the question the reconnect code asks; \<open>hold\<close> says for which ages a mark
  set in a given state holds.\<close>

locale pause_marks =
  fixes mark :: "instant \<Rightarrow> 'k \<Rightarrow> 's \<Rightarrow> 's"
    and lift :: "'k \<Rightarrow> 's \<Rightarrow> 's"
    and paused :: "instant \<Rightarrow> 'k \<Rightarrow> 's \<Rightarrow> bool"
    and hold :: "instant \<Rightarrow> 'k \<Rightarrow> 's \<Rightarrow> duration \<Rightarrow> bool"
  assumes paused_mark: "0 \<le> t \<Longrightarrow> t \<le> u \<Longrightarrow> paused u k (mark t k s) \<longleftrightarrow> hold t k s (u - t)"
    and paused_lift: "0 \<le> u \<Longrightarrow> \<not> paused u k (lift k s)"
    and paused_frame_mark: "j \<noteq> k \<Longrightarrow> paused u j (mark t k s) \<longleftrightarrow> paused u j s"
    and paused_frame_lift: "j \<noteq> k \<Longrightarrow> paused u j (lift k s) \<longleftrightarrow> paused u j s"
begin

lemma mark_marks: "0 \<le> t \<Longrightarrow> hold t k s 0 \<Longrightarrow> paused t k (mark t k s)"
  by (simp add: paused_mark)

lemma lift_mark: "0 \<le> u \<Longrightarrow> \<not> paused u k (lift k (mark t k s))"
  by (rule paused_lift)

text \<open>Marks of other keys, in any number, do not disturb a pause.\<close>

lemma paused_frame_marks:
  "(\<And>t j. (t, j) \<in> set ms \<Longrightarrow> j \<noteq> k) \<Longrightarrow>
    paused u k (foldl (\<lambda>s (t, j). mark t j s) s ms) \<longleftrightarrow> paused u k s"
proof (induction ms arbitrary: s)
  case (Cons m ms)
  obtain t j where m: "m = (t, j)" by force
  then have "j \<noteq> k" using Cons.prems by auto
  then have "paused u k (mark t j s) \<longleftrightarrow> paused u k s"
    by (intro paused_frame_mark) simp
  moreover have "j \<noteq> k" if "(t, j) \<in> set ms" for t j
    using that Cons.prems by auto
  then have "paused u k (foldl (\<lambda>s (t, j). mark t j s) (mark t j s) ms) \<longleftrightarrow> paused u k (mark t j s)"
    by (rule Cons.IH)
  ultimately show ?case using m by simp
qed simp

end

text \<open>The manual marks hold for ten minutes.\<close>

definition manual_paused :: "instant \<Rightarrow> string \<Rightarrow> manager \<Rightarrow> bool" where
  "manual_paused now a m \<longleftrightarrow> fst (is_manual_disconnect now a m)"

lemma manual_paused_iff:
  "manual_paused now a m \<longleftrightarrow> (\<exists>t. manual_disconnects m a = Some t \<and> now - t \<le> manual_disconnect_ttl)"
  by (auto simp: manual_paused_def is_manual_disconnect_def pan_consts go_time split: option.splits)

interpretation manual: pause_marks mark_manual_disconnect clear_manual_disconnect manual_paused
  "\<lambda>_ _ _ d. d \<le> manual_disconnect_ttl"
  by unfold_locales
    (auto simp: manual_paused_iff mark_manual_disconnect_def clear_manual_disconnect_def)

text \<open>The backoff holds for the delay that the bump computes.\<close>

definition bump_mark :: "instant \<Rightarrow> string \<Rightarrow> manager \<Rightarrow> manager" where
  "bump_mark now a m = snd (bump_pan_backoff now a m)"

interpretation flap: pause_marks bump_mark clear_pan_backoff in_pan_backoff
  "\<lambda>t a m d. d < fst (bump_pan_backoff t a m)"
  by unfold_locales
    (auto simp: in_pan_backoff_def bump_mark_def bump_pan_backoff_def Let_def clear_pan_backoff_def)

lemma is_manual_disconnect_snd:
  "snd (is_manual_disconnect now a m) = m \<or>
   snd (is_manual_disconnect now a m) = m\<lparr>manual_disconnects := (manual_disconnects m)(a := None)\<rparr>"
  by (auto simp: is_manual_disconnect_def split: option.splits)

lemma manual_paused_after_query [simp]:
  "manual_paused now b (snd (is_manual_disconnect now a m)) = manual_paused now b m"
  by (auto simp: manual_paused_iff is_manual_disconnect_def pan_consts go_time split: option.splits)

lemma in_pan_backoff_after_query [simp]:
  "in_pan_backoff now b (snd (is_manual_disconnect now a m)) = in_pan_backoff now b m"
  using is_manual_disconnect_snd [of now a m] by (auto simp: in_pan_backoff_def)

subsection \<open>Lemmas on the retry window\<close>

text \<open>The grants so far, the history the manager keeps of them, and the last instant seen:
  what the history forgot is out of the window, and any \<open>k + 1\<close> grants span it.\<close>

definition spaced :: "nat \<Rightarrow> instant list \<Rightarrow> bool" where
  "spaced k ts \<longleftrightarrow> (\<forall>i. i + k < length ts \<longrightarrow> ts ! i + pan_retry_window \<le> ts ! (i + k))"

definition window_ok :: "nat \<Rightarrow> instant list \<Rightarrow> manager \<Rightarrow> instant \<Rightarrow> bool" where
  "window_ok k g m now \<longleftrightarrow> sorted g \<and> (\<forall>t\<in>set g. t \<le> now) \<and> spaced k g
     \<and> (\<exists>old. g = old @ pan_retry_history m \<and> (\<forall>t\<in>set old. t + pan_retry_window \<le> now))"

lemma spaced_snoc:
  assumes "spaced k g" and "k \<le> length g \<Longrightarrow> g ! (length g - k) + pan_retry_window \<le> t" and "0 < k"
  shows "spaced k (g @ [t])"
proof -
  have "(g @ [t]) ! i + pan_retry_window \<le> (g @ [t]) ! (i + k)" if "i + k < Suc (length g)" for i
  proof (cases "i + k = length g")
    case True
    then have "i = length g - k" by simp
    with True assms(2,3) show ?thesis by (simp add: nth_append)
  next
    case False
    with that assms(1) show ?thesis by (simp add: nth_append spaced_def)
  qed
  then show ?thesis by (simp add: spaced_def)
qed

lemma dropWhile_sorted:
  "sorted (h :: int list) \<Longrightarrow> dropWhile (\<lambda>t. t \<le> c) h = filter (\<lambda>t. c < t) h"
proof (induction h)
  case (Cons x h)
  then show ?case
    by (cases "x \<le> c") (auto intro!: filter_True [symmetric])
qed simp

lemma sorted_filter_gt_split:
  assumes "sorted (h :: int list)"
  obtains p where "h = p @ filter (\<lambda>t. c < t) h" and "\<forall>t\<in>set p. t \<le> c"
proof -
  have "h = takeWhile (\<lambda>t. t \<le> c) h @ filter (\<lambda>t. c < t) h"
    using dropWhile_sorted [OF assms, of c] takeWhile_dropWhile_id [of "\<lambda>t. t \<le> c" h] by metis
  then show thesis using that [of "takeWhile (\<lambda>t. t \<le> c) h"] by (auto dest: set_takeWhileD)
qed

lemma window_step:
  assumes ok: "window_ok k g m now0" and le: "now0 \<le> now" and thr: "threshold \<le> k" and k: "0 < k"
  shows "window_ok k
    (g @ (if fst (fst (should_retry_pan_threshold now threshold m)) then [now] else []))
    (snd (should_retry_pan_threshold now threshold m)) now"
proof -
  let ?h = "pan_retry_history m"
  let ?f = "filter (\<lambda>t. now - pan_retry_window < t) ?h"
  from ok obtain old where g: "g = old @ ?h" and old: "\<forall>t\<in>set old. t + pan_retry_window \<le> now0"
    and sg: "sorted g" and gn: "\<forall>t\<in>set g. t \<le> now0" and sp: "spaced k g"
    by (auto simp: window_ok_def)
  from sg g have "sorted ?h" by (simp add: sorted_append)
  then obtain p where p: "?h = p @ ?f" and pl: "\<forall>t\<in>set p. t \<le> now - pan_retry_window"
    by (rule sorted_filter_gt_split)
  let ?old = "old @ p"
  have g': "g = ?old @ ?f" using g p by simp
  have old': "\<forall>t\<in>set ?old. t + pan_retry_window \<le> now" using old pl le by auto
  have gn': "\<forall>t\<in>set g. t \<le> now" using gn le by auto
  show ?thesis
  proof (cases "threshold \<le> length ?f")
    case True
    with g' old' sg sp gn' show ?thesis
      by (auto simp: window_ok_def should_retry_pan_threshold_def Let_def)
  next
    case False
    have "g ! (length g - k) + pan_retry_window \<le> now" if "k \<le> length g"
    proof -
      have "length g = length ?old + length ?f" using g' by (metis length_append)
      then have "length g - k < length ?old" using that False thr k by linarith
      then have "g ! (length g - k) \<in> set ?old" using g' by (metis nth_append nth_mem)
      with old' show ?thesis by blast
    qed
    then have "spaced k (g @ [now])" using sp k by (intro spaced_snoc) auto
    moreover have "sorted (g @ [now])" using sg gn' by (simp add: sorted_append)
    moreover have "g @ [now] = ?old @ (?f @ [now])" using g' by simp
    ultimately show ?thesis using False old' gn'
      unfolding window_ok_def should_retry_pan_threshold_def Let_def by auto
  qed
qed

lemma pan_grants_spaced:
  "window_ok k g m now0 \<Longrightarrow> sorted (now0 # map fst cs) \<Longrightarrow> (\<forall>c\<in>set cs. snd c \<le> k) \<Longrightarrow> 0 < k
    \<Longrightarrow> spaced k (g @ pan_grants m cs)"
proof (induction cs arbitrary: g m now0)
  case Nil
  then show ?case by (simp add: window_ok_def)
next
  case (Cons c cs)
  obtain now threshold where c: "c = (now, threshold)" by force
  from Cons.prems c have "window_ok k
    (g @ (if fst (fst (should_retry_pan_threshold now threshold m)) then [now] else []))
    (snd (should_retry_pan_threshold now threshold m)) now"
    by (intro window_step) auto
  from Cons.IH [OF this] Cons.prems c show ?case by simp
qed

subsection \<open>Lemmas on the backoff\<close>

lemma bump_pan_backoff_bounds:
  "pan_backoff_min \<le> fst (bump_pan_backoff now a m) \<and> fst (bump_pan_backoff now a m) \<le> pan_backoff_max"
  by (simp add: bump_pan_backoff_def pan_consts Let_def)

text \<open>The state of a device after \<open>n + 1\<close> bumps that were never ten minutes apart.\<close>

definition backoff_after :: "nat \<Rightarrow> duration" where
  "backoff_after n = min (pan_backoff_min * 2 ^ n) pan_backoff_max"

lemma backoff_after_Suc: "backoff_after (Suc n) = min (max (backoff_after n * 2) pan_backoff_min) pan_backoff_max"
proof -
  obtain x :: int where x: "2 ^ n = x" and "1 \<le> x" by simp
  then show ?thesis
    unfolding backoff_after_def power_Suc x pan_consts by (simp add: min_def max_def)
qed

lemma bump_first:
  "pan_backoff_delay m a = None \<Longrightarrow> fst (bump_pan_backoff now a m) = backoff_after 0"
  by (simp add: bump_pan_backoff_def backoff_after_def pan_consts Let_def split: option.splits)

lemma bump_next:
  assumes "pan_backoff_delay m a = Some (backoff_after n)" and "pan_backoff_bumped m a = Some t"
    and "now - t \<le> pan_backoff_decay_after"
  shows "fst (bump_pan_backoff now a m) = backoff_after (Suc n)"
proof -
  have "\<not> pan_backoff_decay_after < time_sub now t"
    using assms(3) by (simp add: pan_consts go_time)
  with assms show ?thesis
    by (simp add: bump_pan_backoff_def backoff_after_Suc Let_def min_def max_def)
qed

lemma bump_records:
  "pan_backoff_delay (bump_mark now a m) a = Some (fst (bump_pan_backoff now a m))"
  "pan_backoff_bumped (bump_mark now a m) a = Some now"
  "pan_backoff_until (bump_mark now a m) a = Some (now + fst (bump_pan_backoff now a m))"
  by (simp_all add: bump_mark_def bump_pan_backoff_def Let_def)

lemma bumps_delay:
  "pan_backoff_delay m a = Some (backoff_after n) \<Longrightarrow> pan_backoff_bumped m a = Some t \<Longrightarrow>
    (\<forall>i < length ts. ts ! i - (t # ts) ! i \<le> pan_backoff_decay_after) \<Longrightarrow>
    pan_backoff_delay (foldl (\<lambda>m now. bump_mark now a m) m ts) a = Some (backoff_after (n + length ts))"
proof (induction ts arbitrary: m n t)
  case (Cons u ts)
  have "u - t \<le> pan_backoff_decay_after" using Cons.prems(3) by (metis length_greater_0_conv list.discI nth_Cons_0)
  then have d: "pan_backoff_delay (bump_mark u a m) a = Some (backoff_after (Suc n))"
    using bump_next [OF Cons.prems(1,2), of u] by (simp add: bump_records)
  have "\<forall>i < length ts. ts ! i - (u # ts) ! i \<le> pan_backoff_decay_after"
    using Cons.prems(3) by (metis Suc_less_eq length_Cons nth_Cons_Suc)
  from Cons.IH [OF d bump_records(2) this] show ?case by simp
qed simp

subsection \<open>Properties\<close>

text \<open>the retry window is a rate limiter. Whatever the calls and their times, as
  long as the clock does not go back and no call asks for more than \<open>k\<close> attempts, the
  allowed attempts number \<open>i\<close> and \<open>i + k\<close> are at least the 30 second window apart.\<close>

theorem pan_retry_rate_limited:
  assumes "sorted (map fst cs)" and "\<forall>c\<in>set cs. snd c \<le> k" and "0 < k"
    and "pan_retry_history m = []"
    and "i + k < length (pan_grants m cs)"
  shows "pan_grants m cs ! i + seconds 30 \<le> pan_grants m cs ! (i + k)"
proof -
  let ?now0 = "(case cs of [] \<Rightarrow> 0 | c # _ \<Rightarrow> fst c)"
  have "window_ok k [] m ?now0" using assms(4) by (simp add: window_ok_def spaced_def)
  moreover have "sorted (?now0 # map fst cs)" using assms(1) by (cases cs) auto
  ultimately have "spaced k ([] @ pan_grants m cs)"
    using assms(2,3) by (rule pan_grants_spaced)
  with assms(5) show ?thesis by (simp add: spaced_def pan_consts)
qed

theorem pan_retry_rate_limited_witness:
  "pan_grants (new_manager []) [(0, 1), (seconds 10, 1), (seconds 31, 1)] ! 0 + seconds 30
    \<le> pan_grants (new_manager []) [(0, 1), (seconds 10, 1), (seconds 31, 1)] ! (0 + 1)"
  by (rule pan_retry_rate_limited)
    (simp_all add: new_manager_def should_retry_pan_threshold_def pan_consts)

text \<open>while a device keeps flapping (each bump within ten minutes of the one before),
  the \<open>n\<close>-th bump after the first pauses it for 30 seconds times \<open>2^n\<close>, never more than
  five minutes, and the device counts as paused exactly until then.\<close>

theorem pan_backoff_doubles:
  assumes "pan_backoff_delay m a = None"
    and "\<forall>i < length ts. ts ! i - (t # ts) ! i \<le> minutes 10"
    and "m' = foldl (\<lambda>m now. snd (bump_pan_backoff now a m)) m (t # ts)"
  shows "pan_backoff_delay m' a = Some (min (seconds 30 * 2 ^ length ts) (minutes 5))
    \<and> (in_pan_backoff u a m' \<longleftrightarrow> u < last (t # ts) + min (seconds 30 * 2 ^ length ts) (minutes 5))"
proof -
  let ?m1 = "bump_mark t a m"
  have m': "m' = foldl (\<lambda>m now. bump_mark now a m) ?m1 ts" using assms(3) by (simp add: bump_mark_def)
  have d1: "pan_backoff_delay ?m1 a = Some (backoff_after 0)"
    by (simp add: bump_records bump_first [OF assms(1)])
  have d: "pan_backoff_delay m' a = Some (backoff_after (0 + length ts))"
    unfolding m' by (rule bumps_delay [OF d1 bump_records(2)]) (use assms(2) in \<open>simp add: pan_consts\<close>)
  have "m' = bump_mark (last (t # ts)) a (foldl (\<lambda>m now. bump_mark now a m) m (butlast (t # ts)))"
    unfolding m' by (cases ts rule: rev_cases) auto
  then have "pan_backoff_until m' a = Some (last (t # ts) + the (pan_backoff_delay m' a))"
    by (simp add: bump_records)
  with d show ?thesis by (simp add: in_pan_backoff_def backoff_after_def pan_consts)
qed

theorem pan_backoff_doubles_witness:
  "in_pan_backoff (seconds 100) ''A''
     (foldl (\<lambda>m now. snd (bump_pan_backoff now ''A'' m)) (new_manager []) [0, seconds 50])"
  using pan_backoff_doubles [of "new_manager []" "''A''" "[seconds 50]" 0
      "foldl (\<lambda>m now. snd (bump_pan_backoff now ''A'' m)) (new_manager []) [0, seconds 50]" "seconds 100"]
  by (simp add: new_manager_def)

end
