(* ===== verification/BtKnown.thy ===== *)
theory BtKnown
  imports BtPan
begin

text \<open>
  The prioritised list of phones to reconnect to (\<open>daemon/bluetooth/known_devices.go\<close>):
  its order, the operations that change it and persist it, and the candidates that the
  reconnect code takes from it.
\<close>

subsection \<open>Order\<close>

definition known_less :: "known_device \<Rightarrow> known_device \<Rightarrow> bool" where
  "known_less x y =
     (if kd_starred x \<noteq> kd_starred y then kd_starred x else kd_last y < kd_last x)"

definition sort_known_devices :: "known_device list \<Rightarrow> known_device list" where
  "sort_known_devices ds = stable_sort known_less ds"

interpretation known: less_function known_less
  by unfold_locales (auto simp: known_less_def split: if_splits)

subsection \<open>Changing the list\<close>

definition seed_known_devices :: "known_device list \<Rightarrow> manager \<Rightarrow> manager" where
  "seed_known_devices ds m = m\<lparr>known_devices := sort_known_devices ds\<rparr>"

definition snapshot_known :: "manager \<Rightarrow> known_device list" where
  "snapshot_known m = sort_known_devices (known_devices m)"

definition notify_known_changed :: "known_device list \<Rightarrow> manager \<Rightarrow> manager" where
  "notify_known_changed ds m = effect (PersistKnown ds) m"

fun update_entry :: "instant \<Rightarrow> string \<Rightarrow> string \<Rightarrow> bool \<Rightarrow> known_device list \<Rightarrow> known_device list option" where
  "update_entry now a name bump [] = None"
| "update_entry now a name bump (d # ds) =
     (if kd_address d \<noteq> a then map_option ((#) d) (update_entry now a name bump ds)
      else let d1 = (if bump then d\<lparr>kd_last := now\<rparr> else d);
               d2 = (if name \<noteq> [] then d1\<lparr>kd_name := name\<rparr> else d1)
           in Some (d2 # ds))"

definition upsert_known_device :: "instant \<Rightarrow> string \<Rightarrow> string \<Rightarrow> bool \<Rightarrow> manager \<Rightarrow> manager" where
  "upsert_known_device now a name bump m =
     (let ds = (case update_entry now a name bump (known_devices m) of
                  Some ds \<Rightarrow> ds
                | None \<Rightarrow> known_devices m @ [\<lparr>kd_address = a, kd_name = name,
                      kd_starred = (known_devices m = []), kd_last = now\<rparr>]);
          m1 = m\<lparr>known_devices := sort_known_devices ds\<rparr>
      in notify_known_changed (snapshot_known m1) m1)"

definition record_pan_connected :: "instant \<Rightarrow> string \<Rightarrow> string \<Rightarrow> manager \<Rightarrow> manager" where
  "record_pan_connected now a name m = upsert_known_device now a name True m"

definition record_paired_device :: "instant \<Rightarrow> string \<Rightarrow> string \<Rightarrow> manager \<Rightarrow> manager" where
  "record_paired_device now a name m = upsert_known_device now a name False m"

definition star_entry :: "string \<Rightarrow> bool \<Rightarrow> known_device \<Rightarrow> known_device" where
  "star_entry a starred d =
     (if kd_address d = a then d\<lparr>kd_starred := starred\<rparr>
      else if starred then d\<lparr>kd_starred := False\<rparr> else d)"

definition star_device :: "string \<Rightarrow> bool \<Rightarrow> manager \<Rightarrow> unit outcome \<times> manager" where
  "star_device a starred m =
     (let found = (\<exists>d\<in>set (known_devices m). kd_address d = a);
          ds = map (star_entry a starred) (known_devices m)
      in if \<not> found then (Fail ''unknown device'', m\<lparr>known_devices := ds\<rparr>)
         else let m1 = m\<lparr>known_devices := sort_known_devices ds\<rparr>
              in (Return (), notify_known_changed (snapshot_known m1) m1))"

text \<open>The index of the first device with the least \<open>LastConnected\<close>.\<close>

definition oldest_index :: "known_device list \<Rightarrow> nat" where
  "oldest_index ds =
     foldl (\<lambda>j i. if kd_last (ds ! i) < kd_last (ds ! j) then i else j) 0 [0..<length ds]"

definition remove_device :: "bt_env \<Rightarrow> string \<Rightarrow> manager \<Rightarrow> bool \<times> manager" where
  "remove_device env a m =
     (let m1 = effect (CallRemoveDevice a) m
      in if env_call env (CallRemoveDevice a)
         then (True, if has_hid m1 then effect (ClearWatchdog a) m1 else m1)
         else (False, m1))"

definition forget_device :: "bt_env \<Rightarrow> string \<Rightarrow> manager \<Rightarrow> manager" where
  "forget_device env a m =
     (let m0 = snd (remove_device env a m);
          gone = filter (\<lambda>d. kd_address d = a) (known_devices m0);
          forgot_starred = (gone \<noteq> [] \<and> kd_starred (last gone));
          kept = filter (\<lambda>d. kd_address d \<noteq> a) (known_devices m0);
          ds = (if forgot_starred \<and> kept \<noteq> []
                then let o1 = oldest_index kept
                     in sort_known_devices (kept[o1 := (kept ! o1)\<lparr>kd_starred := True\<rparr>])
                else kept);
          m1 = m0\<lparr>known_devices := ds\<rparr>;
          m2 = clear_manual_disconnect a m1;
          m3 = (if last_pan_address m2 = a then m2\<lparr>last_pan_address := []\<rparr> else m2)
      in notify_known_changed (snapshot_known m1) m3)"

subsection \<open>Reading the list\<close>

record known_view =
  kv_address :: string
  kv_name :: string
  kv_starred :: bool
  kv_last :: instant
  kv_connected :: bool
  kv_network :: bool

definition known_view_of :: "bt_env \<Rightarrow> manager \<Rightarrow> known_device \<Rightarrow> known_view" where
  "known_view_of env m d =
     (let v = \<lparr>kv_address = kd_address d, kv_name = kd_name d, kv_starred = kd_starred d,
               kv_last = kd_last d, kv_connected = False,
               kv_network = (env_net_up env \<and> kd_address d = last_pan_address m)\<rparr>
      in case env_info env (kd_address d) of
           None \<Rightarrow> v
         | Some info \<Rightarrow> v\<lparr>kv_connected := di_connected info,
             kv_name := (if di_alias info \<noteq> [] then di_alias info
                         else if di_name info \<noteq> [] then di_name info else kd_name d)\<rparr>)"

definition known_views :: "bt_env \<Rightarrow> manager \<Rightarrow> known_view list" where
  "known_views env m = map (known_view_of env m) (snapshot_known m)"

definition is_known_device :: "string \<Rightarrow> manager \<Rightarrow> bool" where
  "is_known_device a m \<longleftrightarrow> (\<exists>d\<in>set (known_devices m). kd_address d = a)"

text \<open>The candidates: in priority order, without the paused devices. Asking about a
  manual mark drops it when it has expired.\<close>

fun unpaused :: "instant \<Rightarrow> string list \<Rightarrow> manager \<Rightarrow> string list \<times> manager" where
  "unpaused now [] m = ([], m)"
| "unpaused now (a # as) m =
     (let (man, m1) = is_manual_disconnect now a m;
          (rest, m2) = unpaused now as m1
      in (if man \<or> in_pan_backoff now a m1 then rest else a # rest, m2))"

definition reconnect_candidates :: "instant \<Rightarrow> manager \<Rightarrow> string list \<times> manager" where
  "reconnect_candidates now m = unpaused now (map kd_address (snapshot_known m)) m"

definition top_reconnect_candidate :: "instant \<Rightarrow> manager \<Rightarrow> string \<times> manager" where
  "top_reconnect_candidate now m =
     (let (cs, m1) = reconnect_candidates now m in (case cs of c # _ \<Rightarrow> c | [] \<Rightarrow> [], m1))"

subsection \<open>Lemmas on the candidates\<close>

lemma unpaused_fst:
  "fst (unpaused now as m) = filter (\<lambda>a. \<not> manual_paused now a m \<and> \<not> in_pan_backoff now a m) as"
proof (induction as arbitrary: m)
  case (Cons a as)
  show ?case
    by (simp add: split_beta Let_def Cons.IH flip: manual_paused_def)
qed simp

text \<open>Asking changes nothing but expired marks.\<close>

lemma is_manual_disconnect_expired:
  "snd (is_manual_disconnect now a m) =
     m\<lparr>manual_disconnects := (\<lambda>b. if b = a \<and> \<not> manual_paused now b m then None else manual_disconnects m b)\<rparr>"
  by (auto simp: is_manual_disconnect_def manual_paused_iff pan_consts go_time fun_eq_iff split: option.splits)

lemma unpaused_snd:
  "snd (unpaused now as m) =
     m\<lparr>manual_disconnects := (\<lambda>b. if b \<in> set as \<and> \<not> manual_paused now b m then None else manual_disconnects m b)\<rparr>"
proof (induction as arbitrary: m)
  case (Cons a as)
  let ?m1 = "snd (is_manual_disconnect now a m)"
  have "snd (unpaused now (a # as) m) = snd (unpaused now as ?m1)"
    by (simp add: split_beta Let_def)
  also have "\<dots> = ?m1\<lparr>manual_disconnects := (\<lambda>b. if b \<in> set as \<and> \<not> manual_paused now b m then None else manual_disconnects ?m1 b)\<rparr>"
    by (simp add: Cons.IH)
  also have "\<dots> = m\<lparr>manual_disconnects := (\<lambda>b. if b \<in> set (a # as) \<and> \<not> manual_paused now b m then None else manual_disconnects m b)\<rparr>"
    by (auto simp: is_manual_disconnect_expired fun_eq_iff)
  finally show ?case .
qed simp

lemma unpaused_effects [simp]: "effects (snd (unpaused now as m)) = effects m"
  by (simp add: unpaused_snd)

lemma unpaused_manual [simp]: "manual_paused u a (snd (unpaused now as m)) = (manual_paused u a m \<and> (a \<in> set as \<longrightarrow> manual_paused now a m))"
  by (auto simp: unpaused_snd manual_paused_iff)

lemma unpaused_backoff [simp]: "in_pan_backoff u a (snd (unpaused now as m)) = in_pan_backoff u a m"
  by (simp add: unpaused_snd in_pan_backoff_def)

subsection \<open>The invariant of the list\<close>

definition known_ok :: "known_device list \<Rightarrow> bool" where
  "known_ok ds \<longleftrightarrow> distinct (map kd_address ds) \<and> length (filter kd_starred ds) \<le> 1"

lemma known_ok_sort [simp]: "known_ok (sort_known_devices ds) = known_ok ds"
  by (simp add: known_ok_def sort_known_devices_def filter_stable_sort_size)

lemma update_entry_frame:
  "update_entry now a name bump ds = Some ds' \<Longrightarrow>
    map kd_address ds' = map kd_address ds \<and> map kd_starred ds' = map kd_starred ds"
proof (induction ds arbitrary: ds')
  case (Cons d ds)
  then show ?case by (auto simp: Let_def split: if_splits)
qed simp

lemma update_entry_None:
  "update_entry now a name bump ds = None \<longleftrightarrow> a \<notin> kd_address ` set ds"
  by (induction ds) (auto simp: Let_def)

lemma starred_count: "length (filter kd_starred ds) = count_list (map kd_starred ds) True"
  by (induction ds) auto

lemma known_ok_upsert:
  "known_ok (known_devices m) \<Longrightarrow> known_ok (known_devices (upsert_known_device now a name bump m))"
proof (cases "update_entry now a name bump (known_devices m)")
  case None
  assume ok: "known_ok (known_devices m)"
  from None have "a \<notin> kd_address ` set (known_devices m)" by (simp add: update_entry_None)
  with ok have "known_ok (known_devices m @ [\<lparr>kd_address = a, kd_name = name,
      kd_starred = (known_devices m = []), kd_last = now\<rparr>])"
    by (cases "known_devices m = []") (auto simp: known_ok_def)
  with None show ?thesis
    by (simp add: upsert_known_device_def Let_def notify_known_changed_def)
next
  case (Some ds)
  assume ok: "known_ok (known_devices m)"
  from update_entry_frame [OF Some] ok have "known_ok ds"
    by (simp add: known_ok_def starred_count)
  with Some show ?thesis
    by (simp add: upsert_known_device_def Let_def notify_known_changed_def)
qed

lemma kd_address_star_entry [simp]: "kd_address (star_entry a b d) = kd_address d"
  by (simp add: star_entry_def)

lemma map_address_star [simp]: "map kd_address (map (star_entry a b) ds) = map kd_address ds"
  by (induction ds) auto

lemma star_clears_unknown:
  "a \<notin> kd_address ` set ds \<Longrightarrow> filter kd_starred (map (star_entry a True) ds) = []"
  by (induction ds) (auto simp: star_entry_def)

lemma star_count:
  "distinct (map kd_address ds) \<Longrightarrow> length (filter kd_starred (map (star_entry a True) ds)) \<le> 1"
proof (induction ds)
  case (Cons d ds)
  show ?case
  proof (cases "kd_address d = a")
    case True
    with Cons.prems have "filter kd_starred (map (star_entry a True) ds) = []"
      by (intro star_clears_unknown) auto
    then show ?thesis by simp
  next
    case False
    with Cons show ?thesis by (simp add: star_entry_def)
  qed
qed simp

lemma unstar_count: "length (filter kd_starred (map (star_entry a False) ds)) \<le> length (filter kd_starred ds)"
  by (induction ds) (auto simp: star_entry_def)

lemma known_ok_star: "known_ok ds \<Longrightarrow> known_ok (map (star_entry a b) ds)"
  using star_count [of ds a] unstar_count [of a ds]
  by (cases b) (auto simp: known_ok_def simp flip: map_map)

lemma known_ok_star_device:
  "known_ok (known_devices m) \<Longrightarrow> known_ok (known_devices (snd (star_device a b m)))"
  by (simp add: star_device_def Let_def notify_known_changed_def known_ok_star)

text \<open>Forgetting: the remaining list and where the star goes.\<close>

lemma remove_device_frame [simp]:
  "known_devices (snd (remove_device env a m)) = known_devices m"
  "manual_disconnects (snd (remove_device env a m)) = manual_disconnects m"
  "pan_backoff_until (snd (remove_device env a m)) = pan_backoff_until m"
  by (simp_all add: remove_device_def Let_def)

definition forget_list :: "string \<Rightarrow> known_device list \<Rightarrow> known_device list" where
  "forget_list a ds =
     (let gone = filter (\<lambda>d. kd_address d = a) ds; kept = filter (\<lambda>d. kd_address d \<noteq> a) ds
      in if (gone \<noteq> [] \<and> kd_starred (last gone)) \<and> kept \<noteq> []
         then sort_known_devices (kept[oldest_index kept := (kept ! oldest_index kept)\<lparr>kd_starred := True\<rparr>])
         else kept)"

lemma known_devices_forget [simp]:
  "known_devices (forget_device env a m) = forget_list a (known_devices m)"
  by (simp add: forget_device_def forget_list_def Let_def notify_known_changed_def
      clear_manual_disconnect_def)

lemma oldest_fold:
  "j < length ds \<Longrightarrow> n \<le> length ds \<Longrightarrow> (\<forall>i < k. kd_last (ds ! j) \<le> kd_last (ds ! i)) \<Longrightarrow> k \<le> n \<Longrightarrow>
    (let r = foldl (\<lambda>j i. if kd_last (ds ! i) < kd_last (ds ! j) then i else j) j [k..<n]
     in r < length ds \<and> (\<forall>i < n. kd_last (ds ! r) \<le> kd_last (ds ! i)))"
proof (induction "n - k" arbitrary: j k)
  case (Suc x)
  then have "k < n" by simp
  then have up: "[k..<n] = k # [Suc k..<n]" by (rule upt_conv_Cons)
  let ?j = "if kd_last (ds ! k) < kd_last (ds ! j) then k else j"
  have "\<forall>i < Suc k. kd_last (ds ! ?j) \<le> kd_last (ds ! i)"
    using Suc.prems(3) by (force simp: less_Suc_eq)
  moreover have "?j < length ds" using Suc.prems \<open>k < n\<close> by simp
  moreover have "x = n - Suc k" using Suc.hyps(2) by simp
  ultimately show ?case
    using Suc.hyps(1) [of "Suc k" ?j] Suc.prems(2) \<open>k < n\<close> up by simp
qed (simp add: Let_def)

lemma oldest_index_least:
  assumes "ds \<noteq> []"
  shows "oldest_index ds < length ds" and "d \<in> set ds \<Longrightarrow> kd_last (ds ! oldest_index ds) \<le> kd_last d"
proof -
  have "oldest_index ds < length ds \<and> (\<forall>i < length ds. kd_last (ds ! oldest_index ds) \<le> kd_last (ds ! i))"
    using oldest_fold [of 0 ds "length ds" 0] assms by (simp add: oldest_index_def Let_def)
  then show "oldest_index ds < length ds" and "d \<in> set ds \<Longrightarrow> kd_last (ds ! oldest_index ds) \<le> kd_last d"
    by (auto simp: in_set_conv_nth)
qed

lemma filter_partition_length:
  "length (filter P ds) = length (filter P (filter Q ds)) + length (filter P (filter (\<lambda>x. \<not> Q x) ds))"
  by (induction ds) auto

lemma kept_starless:
  assumes "known_ok ds" and "d \<in> set ds" and "kd_address d = a" and "kd_starred d"
  shows "filter kd_starred (filter (\<lambda>d. kd_address d \<noteq> a) ds) = []"
proof -
  have "d \<in> set (filter kd_starred (filter (\<lambda>d. kd_address d = a) ds))"
    using assms(2-4) by simp
  then have "0 < length (filter kd_starred (filter (\<lambda>d. kd_address d = a) ds))"
    by (rule length_pos_if_in_set)
  moreover have "length (filter kd_starred ds) \<le> 1" using assms(1) by (simp add: known_ok_def)
  ultimately have "length (filter kd_starred (filter (\<lambda>d. kd_address d \<noteq> a) ds)) = 0"
    using filter_partition_length [of kd_starred ds "\<lambda>d. kd_address d = a"] by linarith
  then show ?thesis by (simp only: length_0_conv)
qed

lemma filter_update_one:
  "filter P xs = [] \<Longrightarrow> i < length xs \<Longrightarrow> P x \<Longrightarrow> filter P (xs[i := x]) = [x]"
proof (induction xs arbitrary: i)
  case (Cons y ys)
  then show ?case by (cases i) (auto split: if_splits)
qed simp

lemma map_update_same: "f x = f (xs ! i) \<Longrightarrow> map f (xs[i := x]) = map f xs"
  by (metis list_update_id map_update)

lemma known_ok_filter: "known_ok ds \<Longrightarrow> known_ok (filter P ds)"
proof -
  assume "known_ok ds"
  moreover have "length (filter kd_starred (filter P ds)) \<le> length (filter kd_starred ds)"
    using filter_partition_length [of kd_starred ds P] by linarith
  ultimately show ?thesis
    by (auto simp: known_ok_def distinct_map_filter simp del: filter_filter)
qed

text \<open>The star moves to the device that was connected longest ago.\<close>

lemma forget_starred:
  assumes ok: "known_ok ds" and d: "d \<in> set ds" "kd_address d = a" "kd_starred d"
    and kept: "filter (\<lambda>d. kd_address d \<noteq> a) ds \<noteq> []"
  obtains e where "e \<in> set ds" and "kd_address e \<noteq> a"
    and "\<And>x. x \<in> set ds \<Longrightarrow> kd_address x \<noteq> a \<Longrightarrow> kd_last e \<le> kd_last x"
    and "filter kd_starred (forget_list a ds) = [e\<lparr>kd_starred := True\<rparr>]"
    and "distinct (map kd_address (forget_list a ds))"
proof -
  let ?kept = "filter (\<lambda>d. kd_address d \<noteq> a) ds"
  let ?o = "oldest_index ?kept"
  let ?e = "?kept ! ?o"
  let ?new = "?kept[?o := ?e\<lparr>kd_starred := True\<rparr>]"
  have o: "?o < length ?kept" and least: "\<And>x. x \<in> set ?kept \<Longrightarrow> kd_last ?e \<le> kd_last x"
    using oldest_index_least [OF kept] by blast+
  have e: "?e \<in> set ?kept" using o by (rule nth_mem)
  have "filter (\<lambda>d. kd_address d = a) ds = [d]"
  proof -
    have "distinct (map kd_address ds)" using ok by (simp add: known_ok_def)
    with d(1,2) show ?thesis by (induction ds) (force simp: filter_empty_conv image_iff)+
  qed
  then have fl: "forget_list a ds = sort_known_devices ?new"
    using kept d(3) by (simp add: forget_list_def Let_def)
  have "filter kd_starred ?new = [?e\<lparr>kd_starred := True\<rparr>]"
    by (rule filter_update_one [OF kept_starless [OF ok d] o]) simp
  then have st: "filter kd_starred (forget_list a ds) = [?e\<lparr>kd_starred := True\<rparr>]"
    unfolding fl sort_known_devices_def by (rule filter_stable_sort_single)
  have "map kd_address ?new = map kd_address ?kept" by (rule map_update_same) simp
  moreover have "distinct (map kd_address ?kept)"
    using ok by (simp add: known_ok_def distinct_map_filter)
  ultimately have "distinct (map kd_address (forget_list a ds))"
    unfolding fl sort_known_devices_def by (simp only: distinct_map_stable_sort)
  with st e least show thesis by (intro that [of ?e]) auto
qed

lemma known_ok_forget_list: "known_ok ds \<Longrightarrow> known_ok (forget_list a ds)"
proof -
  assume ok: "known_ok ds"
  let ?gone = "filter (\<lambda>d. kd_address d = a) ds"
  show ?thesis
  proof (cases "(?gone \<noteq> [] \<and> kd_starred (last ?gone)) \<and> filter (\<lambda>d. kd_address d \<noteq> a) ds \<noteq> []")
    case True
    then have "last ?gone \<in> set ?gone" by (intro last_in_set) simp
    then have d: "last ?gone \<in> set ds" "kd_address (last ?gone) = a" by auto
    from True have st: "kd_starred (last ?gone)"
      and kept: "filter (\<lambda>d. kd_address d \<noteq> a) ds \<noteq> []" by auto
    obtain e where "filter kd_starred (forget_list a ds) = [e]"
      and "distinct (map kd_address (forget_list a ds))"
      using forget_starred [OF ok d st kept] by metis
    then show ?thesis by (simp add: known_ok_def)
  next
    case False
    then show ?thesis using known_ok_filter [OF ok] by (auto simp: forget_list_def Let_def)
  qed
qed

subsection \<open>The list as a machine\<close>

datatype known_op =
    Upsert instant string string bool
  | Star string bool
  | Forget bt_env string

fun known_step :: "manager \<Rightarrow> known_op \<Rightarrow> manager" where
  "known_step m (Upsert now a name bump) = upsert_known_device now a name bump m"
| "known_step m (Star a b) = snd (star_device a b m)"
| "known_step m (Forget env a) = forget_device env a m"

interpretation known_list: invariant_machine known_step "\<lambda>m. known_ok (known_devices m)"
proof unfold_locales
  fix m :: manager and e :: known_op
  assume "known_ok (known_devices m)"
  then show "known_ok (known_devices (known_step m e))"
    by (cases e) (simp_all add: known_ok_upsert known_ok_star_device known_ok_forget_list)
qed

subsection \<open>Properties\<close>

text \<open>however devices are paired, connected, starred and forgotten, the list never
  holds an address twice and never has more than one priority device.\<close>

theorem known_list_invariant:
  assumes "distinct (map kd_address (known_devices m))"
    and "length (filter kd_starred (known_devices m)) \<le> 1"
    and "m' = foldl known_step m ops"
  shows "distinct (map kd_address (known_devices m'))
    \<and> length (filter kd_starred (known_devices m')) \<le> 1"
  using known_list.run_inv [of m ops] assms by (simp add: known_ok_def)

theorem known_list_invariant_witness:
  "distinct (map kd_address (known_devices (foldl known_step (new_manager [])
      [Upsert 1 ''A'' [] False, Upsert 2 ''B'' [] False, Star ''B'' True])))
    \<and> length (filter kd_starred (known_devices (foldl known_step (new_manager [])
      [Upsert 1 ''A'' [] False, Upsert 2 ''B'' [] False, Star ''B'' True]))) \<le> 1"
  by (rule known_list_invariant [OF _ _ refl]) (simp_all add: new_manager_def)

text \<open>forgetting the priority device hands its star to the remaining device that was
  connected longest ago, and to that one only.\<close>

theorem forget_moves_star:
  assumes "distinct (map kd_address (known_devices m))"
    and "length (filter kd_starred (known_devices m)) \<le> 1"
    and "d \<in> set (known_devices m)" and "kd_address d = a" and "kd_starred d"
    and "b \<in> set (known_devices m)" and "kd_address b \<noteq> a"
  shows "\<exists>e. e \<in> set (known_devices m) \<and> kd_address e \<noteq> a
    \<and> (\<forall>x\<in>set (known_devices m). kd_address x \<noteq> a \<longrightarrow> kd_last e \<le> kd_last x)
    \<and> filter kd_starred (known_devices (forget_device env a m)) = [e\<lparr>kd_starred := True\<rparr>]"
proof -
  have ok: "known_ok (known_devices m)" using assms(1,2) by (simp add: known_ok_def)
  have kept: "filter (\<lambda>d. kd_address d \<noteq> a) (known_devices m) \<noteq> []"
    using assms(6,7) by (auto simp: filter_empty_conv)
  obtain e where "e \<in> set (known_devices m)" "kd_address e \<noteq> a"
    "\<And>x. x \<in> set (known_devices m) \<Longrightarrow> kd_address x \<noteq> a \<Longrightarrow> kd_last e \<le> kd_last x"
    "filter kd_starred (forget_list a (known_devices m)) = [e\<lparr>kd_starred := True\<rparr>]"
    using forget_starred [OF ok assms(3-5) kept] by metis
  then show ?thesis by (intro exI [of _ e]) simp
qed

definition two_phones :: manager where
  "two_phones = (new_manager [])\<lparr>known_devices :=
     [\<lparr>kd_address = ''A'', kd_name = [], kd_starred = True, kd_last = 5\<rparr>,
      \<lparr>kd_address = ''B'', kd_name = [], kd_starred = False, kd_last = 9\<rparr>]\<rparr>"

definition quiet_env :: bt_env where
  "quiet_env = \<lparr>env_info = (\<lambda>_. None), env_net_up = False, env_net_up_after = False, env_call = (\<lambda>_. True)\<rparr>"

theorem forget_moves_star_witness:
  "\<exists>e. filter kd_starred (known_devices (forget_device quiet_env ''A'' two_phones)) = [e\<lparr>kd_starred := True\<rparr>]"
proof -
  have "\<exists>e. e \<in> set (known_devices two_phones) \<and> kd_address e \<noteq> ''A''
    \<and> (\<forall>x\<in>set (known_devices two_phones). kd_address x \<noteq> ''A'' \<longrightarrow> kd_last e \<le> kd_last x)
    \<and> filter kd_starred (known_devices (forget_device quiet_env ''A'' two_phones)) = [e\<lparr>kd_starred := True\<rparr>]"
    by (rule forget_moves_star [of two_phones "known_devices two_phones ! 0" _ "known_devices two_phones ! 1"])
      (simp_all add: two_phones_def)
  then show ?thesis by blast
qed

text \<open>the reconnect candidates are exactly the known devices that are neither marked as
  manually disconnected nor in flap backoff, the starred one first and then the most
  recently connected first.\<close>

theorem reconnect_candidates_priority:
  "\<exists>ds. fst (reconnect_candidates now m) = map kd_address ds
    \<and> mset ds = filter_mset (\<lambda>d. \<not> fst (is_manual_disconnect now (kd_address d) m)
                              \<and> \<not> in_pan_backoff now (kd_address d) m) (mset (known_devices m))
    \<and> sorted_wrt (\<lambda>x y. if kd_starred x = kd_starred y then kd_last y \<le> kd_last x else kd_starred x) ds"
proof -
  let ?P = "\<lambda>d. \<not> manual_paused now (kd_address d) m \<and> \<not> in_pan_backoff now (kd_address d) m"
  let ?ds = "filter ?P (snapshot_known m)"
  have "fst (reconnect_candidates now m) = map kd_address ?ds"
    by (simp add: reconnect_candidates_def unpaused_fst filter_map o_def)
  moreover have "mset ?ds = filter_mset ?P (mset (known_devices m))"
    by (simp add: snapshot_known_def sort_known_devices_def)
  moreover have "ordered_by known_less ?ds"
    using known.stable_sort_is_ordered [of "known_devices m"]
    by (auto simp: ordered_by_def snapshot_known_def sort_known_devices_def sorted_wrt_filter)
  then have "sorted_wrt (\<lambda>x y. if kd_starred x = kd_starred y then kd_last y \<le> kd_last x else kd_starred x) ?ds"
    unfolding ordered_by_def by (rule sorted_wrt_mono_rel [rotated]) (auto simp: known_less_def split: if_splits)
  ultimately show ?thesis unfolding manual_paused_def by blast
qed

text \<open>Starring an address that is not in the list returns the error, but by then every
  device has lost its star: the list in memory has no priority device any more, and the
  change is not persisted.\<close>

lemma star_unknown_clears_priority:
  assumes "\<not> is_known_device a m"
  shows "fst (star_device a True m) = Fail ''unknown device''
    \<and> filter kd_starred (known_devices (snd (star_device a True m))) = []
    \<and> effects (snd (star_device a True m)) = effects m"
proof -
  from assms have "a \<notin> kd_address ` set (known_devices m)" by (auto simp: is_known_device_def)
  then show ?thesis
    using star_clears_unknown [of a "known_devices m"]
    by (auto simp: star_device_def Let_def simp del: filter_map)
qed

lemma star_unknown_clears_priority_witness:
  "fst (star_device ''Z'' True two_phones) = Fail ''unknown device''
    \<and> filter kd_starred (known_devices (snd (star_device ''Z'' True two_phones))) = []
    \<and> effects (snd (star_device ''Z'' True two_phones)) = effects two_phones"
  by (rule star_unknown_clears_priority) (simp add: is_known_device_def two_phones_def)

end
