(* ===== verification/BtMgmt.thy ===== *)
theory BtMgmt
  imports BtKnown
begin

text \<open>
  The kernel's management socket (\<open>daemon/bluetooth/mgmt_watcher.go\<close>): the parser of its
  events and the classification of a disconnect by its reason, which decides whether the
  manager goes on reconnecting to a phone.
\<close>

subsection \<open>Events on the wire\<close>

definition mgmt_ev_connected :: nat where "mgmt_ev_connected = 0x000B"
definition mgmt_ev_disconnected :: nat where "mgmt_ev_disconnected = 0x000C"

definition mgmt_addr_le_public :: byte where "mgmt_addr_le_public = 1"
definition mgmt_addr_le_random :: byte where "mgmt_addr_le_random = 2"

definition mgmt_reason_unknown :: byte where "mgmt_reason_unknown = 0"
definition mgmt_reason_timeout :: byte where "mgmt_reason_timeout = 1"
definition mgmt_reason_local :: byte where "mgmt_reason_local = 2"
definition mgmt_reason_remote :: byte where "mgmt_reason_remote = 3"
definition mgmt_reason_auth :: byte where "mgmt_reason_auth = 4"
definition mgmt_reason_suspend :: byte where "mgmt_reason_suspend = 5"

lemmas mgmt_consts = mgmt_ev_connected_def mgmt_ev_disconnected_def mgmt_addr_le_public_def
  mgmt_addr_le_random_def mgmt_reason_unknown_def mgmt_reason_timeout_def mgmt_reason_local_def
  mgmt_reason_remote_def mgmt_reason_auth_def mgmt_reason_suspend_def

record mgmt_event =
  me_opcode :: nat
  me_addr :: string
  me_addr_type :: byte
  me_reason :: byte

definition le16 :: "byte list \<Rightarrow> nat \<Rightarrow> nat" where
  "le16 buf i = unat (buf ! i) + 256 * unat (buf ! Suc i)"

definition show_addr :: "byte list \<Rightarrow> string" where
  "show_addr p = show_hex2 (p ! 5) @ '':'' @ show_hex2 (p ! 4) @ '':'' @ show_hex2 (p ! 3) @ '':''
     @ show_hex2 (p ! 2) @ '':'' @ show_hex2 (p ! 1) @ '':'' @ show_hex2 (p ! 0)"

definition parse_mgmt_event :: "byte list \<Rightarrow> mgmt_event option" where
  "parse_mgmt_event buf =
     (if length buf < 6 then None
      else let opcode = le16 buf 0; plen = le16 buf 4 in
      if length buf < 6 + plen then None
      else let p = drop 6 buf in
      if opcode = mgmt_ev_connected then
        (if plen < 7 then None
         else Some \<lparr>me_opcode = opcode, me_addr = show_addr p, me_addr_type = p ! 6, me_reason = 0\<rparr>)
      else if opcode = mgmt_ev_disconnected then
        (if plen < 8 then None
         else Some \<lparr>me_opcode = opcode, me_addr = show_addr p, me_addr_type = p ! 6, me_reason = p ! 7\<rparr>)
      else None)"

definition is_le_addr_type :: "byte \<Rightarrow> bool" where
  "is_le_addr_type t \<longleftrightarrow> t = mgmt_addr_le_public \<or> t = mgmt_addr_le_random"

definition mgmt_reason_name :: "byte \<Rightarrow> string" where
  "mgmt_reason_name r =
     (if r = mgmt_reason_unknown then ''unknown''
      else if r = mgmt_reason_timeout then ''timeout/out-of-range''
      else if r = mgmt_reason_local then ''local-host''
      else if r = mgmt_reason_remote then ''remote-terminated''
      else if r = mgmt_reason_auth then ''auth-failure''
      else if r = mgmt_reason_suspend then ''suspend''
      else ''?'')"

subsection \<open>What a disconnect means\<close>

definition manual_disconnect_min_uptime :: duration where "manual_disconnect_min_uptime = seconds 45"
definition network_drop_grace :: duration where "network_drop_grace = seconds 15"
definition bond_lost_threshold :: nat where "bond_lost_threshold = 2"
definition bond_lost_window :: duration where "bond_lost_window = minutes 10"

lemmas disc_consts = manual_disconnect_min_uptime_def network_drop_grace_def
  bond_lost_threshold_def bond_lost_window_def

definition note_auth_failure :: "instant \<Rightarrow> string \<Rightarrow> manager \<Rightarrow> bool \<times> manager" where
  "note_auth_failure now a m =
     (let stale = (case auth_fail_last m a of Some t \<Rightarrow> time_sub now t > bond_lost_window | None \<Rightarrow> False);
          c0 = (if stale then 0 else case auth_fail_count m a of Some c \<Rightarrow> c | None \<Rightarrow> 0);
          c = c0 + 1;
          m1 = m\<lparr>auth_fail_last := (auth_fail_last m)(a \<mapsto> now)\<rparr>
      in if c \<ge> bond_lost_threshold
         then (True, m1\<lparr>auth_fail_count := (auth_fail_count m)(a \<mapsto> 0)\<rparr>)
         else (False, m1\<lparr>auth_fail_count := (auth_fail_count m)(a \<mapsto> c)\<rparr>))"

definition clear_auth_failures :: "string \<Rightarrow> manager \<Rightarrow> manager" where
  "clear_auth_failures a m = m\<lparr>auth_fail_count := (auth_fail_count m)(a := None),
     auth_fail_last := (auth_fail_last m)(a := None)\<rparr>"

definition mark_network_drop :: "instant \<Rightarrow> manager \<Rightarrow> manager" where
  "mark_network_drop now m = m\<lparr>last_network_drop_at := now\<rparr>"

definition recent_network_drop :: "instant \<Rightarrow> manager \<Rightarrow> bool" where
  "recent_network_drop now m \<longleftrightarrow>
     \<not> is_zero (last_network_drop_at m) \<and> time_sub now (last_network_drop_at m) < network_drop_grace"

definition connection_uptime :: "instant \<Rightarrow> string \<Rightarrow> manager \<Rightarrow> duration option" where
  "connection_uptime now a m = map_option (time_sub now) (connected_since m a)"

definition handle_disconnect_reason :: "instant \<Rightarrow> string \<Rightarrow> byte \<Rightarrow> manager \<Rightarrow> manager" where
  "handle_disconnect_reason now a reason m =
     (if reason = mgmt_reason_remote then
        (if \<not> is_known_device a m then m
         else if (case connection_uptime now a m of Some u \<Rightarrow> u < manual_disconnect_min_uptime | None \<Rightarrow> False)
         then clear_pan_session a m
         else if recent_network_drop now m
         then clear_manual_disconnect a (clear_pan_session a m)
         else if \<not> pan_session_was_up a m then m
         else mark_manual_disconnect now a (clear_pan_session a m))
      else if reason = mgmt_reason_timeout then
        (let m1 = clear_manual_disconnect a (clear_pan_session a m)
         in if is_known_device a m1 then effect (GoPageLater [a]) m1 else m1)
      else if reason = mgmt_reason_auth then
        (let m1 = clear_pan_session a m
         in if \<not> is_known_device a m1 then m1
            else let (lost, m2) = note_auth_failure now a m1
                 in if lost then emit (EventBondLost a) (mark_manual_disconnect now a m2) else m2)
      else clear_pan_session a m)"

definition note_le_link :: "string \<Rightarrow> bool \<Rightarrow> manager \<Rightarrow> manager" where
  "note_le_link a up m =
     (let m1 = m\<lparr>le_links := (if up then insert a (le_links m) else le_links m - {a})\<rparr>
      in if \<not> up \<and> le_links m1 = {} \<and> has_hid m1 then effect AdvRefresh m1 else m1)"

definition any_le_connected :: "manager \<Rightarrow> bool" where
  "any_le_connected m \<longleftrightarrow> le_links m \<noteq> {}"

text \<open>The body of the socket's read loop.\<close>

definition mgmt_packet :: "instant \<Rightarrow> byte list \<Rightarrow> manager \<Rightarrow> manager" where
  "mgmt_packet now buf m =
     (case parse_mgmt_event buf of
        None \<Rightarrow> m
      | Some ev \<Rightarrow>
          if me_opcode ev = mgmt_ev_connected then
            (if is_le_addr_type (me_addr_type ev) then note_le_link (me_addr ev) True m else m)
          else if me_opcode ev = mgmt_ev_disconnected then
            handle_disconnect_reason now (me_addr ev) (me_reason ev)
              (if is_le_addr_type (me_addr_type ev) then note_le_link (me_addr ev) False m else m)
          else m)"

subsection \<open>Lemmas\<close>

lemma hex_digit_inj: "i < 16 \<Longrightarrow> j < 16 \<Longrightarrow> hex_digit i = hex_digit j \<Longrightarrow> i = j"
proof -
  have "distinct ''0123456789ABCDEF''" by simp
  then show "i < 16 \<Longrightarrow> j < 16 \<Longrightarrow> hex_digit i = hex_digit j \<Longrightarrow> i = j"
    unfolding hex_digit_def by (subst (asm) nth_eq_iff_index_eq) auto
qed

lemma length_show_hex2 [simp]: "length (show_hex2 b) = 2"
  by (simp add: show_hex2_def)

lemma show_hex2_inj: "show_hex2 a = show_hex2 b \<Longrightarrow> a = b"
proof -
  assume "show_hex2 a = show_hex2 b"
  moreover have "unat a < 256" "unat b < 256" by (rule unat_byte_less)+
  ultimately have "unat a div 16 = unat b div 16" and "unat a mod 16 = unat b mod 16"
    by (auto simp: show_hex2_def dest!: hex_digit_inj [rotated 2])
  then have "unat a = unat b" by (metis div_mult_mod_eq)
  then show ?thesis by (simp add: word_unat_eq_iff)
qed

lemma show_addr_inj:
  assumes "show_addr p = show_addr r" and "6 \<le> length p" and "6 \<le> length r"
  shows "take 6 p = take 6 r"
proof -
  from assms(1) have "p ! i = r ! i" if "i < 6" for i
    using that by (auto simp: show_addr_def append_eq_append_conv less_Suc_eq numeral_eq_Suc dest: show_hex2_inj)
  then show ?thesis using assms(2,3) by (intro nth_equalityI) auto
qed

lemma parse_mgmt_event_Some:
  "parse_mgmt_event buf = Some ev \<Longrightarrow>
    (me_opcode ev = mgmt_ev_connected \<and> 7 \<le> le16 buf 4 \<or> me_opcode ev = mgmt_ev_disconnected \<and> 8 \<le> le16 buf 4)
    \<and> 6 + le16 buf 4 \<le> length buf \<and> me_addr ev = show_addr (drop 6 buf)"
  by (auto simp: parse_mgmt_event_def Let_def split: if_splits)

definition auth_count :: "manager \<Rightarrow> string \<Rightarrow> nat" where
  "auth_count m a = (case auth_fail_count m a of Some c \<Rightarrow> c | None \<Rightarrow> 0)"

lemma note_auth_failure_fst:
  "auth_count m a \<le> 1 \<Longrightarrow> fst (note_auth_failure now a m) \<longleftrightarrow>
     auth_count m a = 1 \<and> (\<forall>t. auth_fail_last m a = Some t \<longrightarrow> now - t \<le> bond_lost_window)"
  by (auto simp: note_auth_failure_def auth_count_def disc_consts Let_def go_time split: option.splits)

lemma note_auth_failure_count:
  "auth_count m a \<le> 1 \<Longrightarrow> auth_count (snd (note_auth_failure now a m)) a =
     (if fst (note_auth_failure now a m) then 0 else 1)"
  by (auto simp: note_auth_failure_def auth_count_def disc_consts Let_def split: option.splits)

lemma note_auth_failure_frame [simp]:
  "known_devices (snd (note_auth_failure now a m)) = known_devices m"
  "manual_disconnects (snd (note_auth_failure now a m)) = manual_disconnects m"
  "effects (snd (note_auth_failure now a m)) = effects m"
  "has_emit (snd (note_auth_failure now a m)) = has_emit m"
  by (simp_all add: note_auth_failure_def Let_def)

lemma mgmt_frames [simp]:
  "known_devices (clear_pan_session a m) = known_devices m"
  "effects (clear_pan_session a m) = effects m"
  "has_emit (clear_pan_session a m) = has_emit m"
  "auth_fail_count (clear_pan_session a m) = auth_fail_count m"
  "auth_fail_last (clear_pan_session a m) = auth_fail_last m"
  "manual_disconnects (clear_pan_session a m) = manual_disconnects m"
  "known_devices (clear_manual_disconnect a m) = known_devices m"
  "effects (clear_manual_disconnect a m) = effects m"
  "known_devices (mark_manual_disconnect now a m) = known_devices m"
  "effects (mark_manual_disconnect now a m) = effects m"
  "has_emit (mark_manual_disconnect now a m) = has_emit m"
  "auth_fail_count (mark_manual_disconnect now a m) = auth_fail_count m"
  "auth_fail_last (mark_manual_disconnect now a m) = auth_fail_last m"
  by (simp_all add: clear_pan_session_def clear_manual_disconnect_def mark_manual_disconnect_def)

lemma is_known_frames [simp]:
  "is_known_device a (clear_pan_session b m) = is_known_device a m"
  "is_known_device a (clear_manual_disconnect b m) = is_known_device a m"
  by (simp_all add: is_known_device_def)

text \<open>Which of a sequence of failures of one device report a lost bond.\<close>

fun auth_fires :: "manager \<Rightarrow> string \<Rightarrow> instant list \<Rightarrow> bool list" where
  "auth_fires m a [] = []"
| "auth_fires m a (t # ts) = fst (note_auth_failure t a m) # auth_fires (snd (note_auth_failure t a m)) a ts"

lemma length_auth_fires [simp]: "length (auth_fires m a ts) = length ts"
  by (induction ts arbitrary: m) auto

lemma auth_fail_last_note [simp]: "auth_fail_last (snd (note_auth_failure t a m)) a = Some t"
  by (simp add: note_auth_failure_def Let_def)

lemma auth_fires_Suc:
  "auth_count m a \<le> 1 \<Longrightarrow> Suc i < length ts \<Longrightarrow>
    auth_fires m a ts ! Suc i \<longleftrightarrow> \<not> auth_fires m a ts ! i \<and> ts ! Suc i - ts ! i \<le> bond_lost_window"
proof (induction ts arbitrary: m i)
  case (Cons t ts)
  let ?m = "snd (note_auth_failure t a m)"
  have c: "auth_count ?m a = (if fst (note_auth_failure t a m) then 0 else 1)"
    by (rule note_auth_failure_count [OF Cons.prems(1)])
  then have le: "auth_count ?m a \<le> 1" by simp
  show ?case
  proof (cases i)
    case 0
    with Cons.prems(2) obtain u us where ts: "ts = u # us" by (cases ts) auto
    show ?thesis using note_auth_failure_fst [OF le, of u] c by (simp add: ts 0)
  next
    case (Suc j)
    with Cons.IH [OF le, of j] Cons.prems(2) show ?thesis by simp
  qed
qed simp

text \<open>The bytes the kernel sends: two 16 bit fields, the payload length, the payload.\<close>

definition mgmt_frame :: "nat \<Rightarrow> nat \<Rightarrow> byte list \<Rightarrow> byte list" where
  "mgmt_frame opcode index p =
     [word_of_nat (opcode mod 256), word_of_nat (opcode div 256 mod 256),
      word_of_nat (index mod 256), word_of_nat (index div 256 mod 256),
      word_of_nat (length p mod 256), word_of_nat (length p div 256 mod 256)] @ p"

lemma unat_byte_of_nat [simp]: "n < 256 \<Longrightarrow> unat (word_of_nat n :: byte) = n"
  by (simp add: unat_of_nat)

lemma le16_frame:
  "opcode < 65536 \<Longrightarrow> le16 (mgmt_frame opcode index p @ rest) 0 = opcode"
  "length p < 65536 \<Longrightarrow> le16 (mgmt_frame opcode index p @ rest) 4 = length p"
  by (simp_all add: le16_def mgmt_frame_def)

subsection \<open>Properties\<close>

text \<open>the parser reads back what the kernel writes: the opcode, the address printed from
  the last byte to the first, its type and, for a disconnect, the reason; bytes after the
  frame do not matter, and the printed address determines the six bytes.\<close>

theorem mgmt_parse_frame:
  assumes "opcode = mgmt_ev_connected \<and> 7 \<le> length p \<or> opcode = mgmt_ev_disconnected \<and> 8 \<le> length p"
    and "length p < 65536"
  shows "parse_mgmt_event (mgmt_frame opcode index p @ rest) =
      Some \<lparr>me_opcode = opcode, me_addr = show_addr p, me_addr_type = p ! 6,
            me_reason = (if opcode = mgmt_ev_disconnected then p ! 7 else 0)\<rparr>
    \<and> (\<forall>q. 6 \<le> length q \<and> show_addr q = show_addr p \<longrightarrow> take 6 q = take 6 p)"
proof -
  let ?buf = "mgmt_frame opcode index p @ rest"
  have op: "le16 ?buf 0 = opcode" using assms(1) by (intro le16_frame(1)) (auto simp: mgmt_consts)
  have len: "le16 ?buf 4 = length p" using assms(2) by (rule le16_frame(2))
  have payload: "drop 6 ?buf = p @ rest" by (simp add: mgmt_frame_def)
  have "show_addr (p @ rest) = show_addr p"
    using assms(1) by (auto simp: show_addr_def nth_append)
  moreover have "length ?buf = 6 + length p + length rest" by (simp add: mgmt_frame_def)
  ultimately have "parse_mgmt_event ?buf =
      Some \<lparr>me_opcode = opcode, me_addr = show_addr p, me_addr_type = p ! 6,
            me_reason = (if opcode = mgmt_ev_disconnected then p ! 7 else 0)\<rparr>"
    using assms(1) unfolding parse_mgmt_event_def Let_def op len payload
    by (auto simp: nth_append mgmt_consts)
  moreover have "6 \<le> length p" using assms(1) by auto
  ultimately show ?thesis using show_addr_inj by blast
qed

theorem mgmt_parse_frame_witness:
  "parse_mgmt_event (mgmt_frame mgmt_ev_disconnected 0 [1, 2, 3, 4, 5, 6, 0, 3] @ [9]) =
      Some \<lparr>me_opcode = mgmt_ev_disconnected, me_addr = ''06:05:04:03:02:01'', me_addr_type = 0, me_reason = 3\<rparr>"
  using mgmt_parse_frame [of mgmt_ev_disconnected "[1, 2, 3, 4, 5, 6, 0, 3]" 0 "[9]"]
  by (simp add: show_addr_def show_hex2_def hex_digit_def mgmt_consts)

text \<open>a disconnect by the phone pauses automatic reconnects only when it looks
  deliberate: the phone is known, it had been connected for at least 45 seconds (or for an
  unknown time), no PAN drop happened in the last 15 seconds, and PAN had come up in this
  session. A recent PAN drop lifts an earlier pause; nothing else touches the marks, no
  mark of another phone changes, and nothing is sent out.\<close>

theorem remote_disconnect_classified:
  fixes m :: manager
  assumes "is_known_device a m"
  shows "manual_disconnects (handle_disconnect_reason now a mgmt_reason_remote m) a =
      (if \<exists>t. connected_since m a = Some t \<and> time_sub now t < seconds 45
       then manual_disconnects m a
       else if last_network_drop_at m \<noteq> 0 \<and> time_sub now (last_network_drop_at m) < seconds 15
       then None
       else if pan_session_was_up a m then Some now else manual_disconnects m a)
    \<and> (\<forall>b. b \<noteq> a \<longrightarrow>
        manual_disconnects (handle_disconnect_reason now a mgmt_reason_remote m) b = manual_disconnects m b)
    \<and> effects (handle_disconnect_reason now a mgmt_reason_remote m) = effects m"
proof -
  have c: "(case connection_uptime now a m of Some u \<Rightarrow> u < manual_disconnect_min_uptime | None \<Rightarrow> False)
      \<longleftrightarrow> (\<exists>t. connected_since m a = Some t \<and> time_sub now t < seconds 45)"
    by (auto simp: connection_uptime_def disc_consts split: option.splits)
  have d: "recent_network_drop now m \<longleftrightarrow>
      last_network_drop_at m \<noteq> 0 \<and> time_sub now (last_network_drop_at m) < seconds 15"
    by (simp add: recent_network_drop_def is_zero_def disc_consts)
  show ?thesis
    unfolding handle_disconnect_reason_def c d using assms
    by (auto simp: clear_manual_disconnect_def mark_manual_disconnect_def)
qed

theorem remote_disconnect_classified_witness:
  "manual_disconnects (handle_disconnect_reason (seconds 100) ''A'' mgmt_reason_remote
      (set_pan_session_up ''A'' two_phones)) ''A'' = Some (seconds 100)"
  using remote_disconnect_classified [of "''A''" "set_pan_session_up ''A'' two_phones" "seconds 100"]
  by (simp add: is_known_device_def set_pan_session_up_def two_phones_def new_manager_def
      pan_session_was_up_def)

text \<open>a lost bond is reported for exactly those authentication failures that follow
  another failure of the device within ten minutes which was not itself a report; so it
  takes two failures for each report.\<close>

theorem bond_lost_needs_two_failures:
  assumes "auth_fail_count m a = None" and "i < length ts"
  shows "auth_fires m a ts ! i \<longleftrightarrow>
    0 < i \<and> \<not> auth_fires m a ts ! (i - 1) \<and> ts ! i - ts ! (i - 1) \<le> minutes 10"
proof (cases i)
  case 0
  have "auth_count m a = 0" using assms(1) by (simp add: auth_count_def)
  then have "\<not> fst (note_auth_failure t a m)" for t by (simp add: note_auth_failure_fst)
  with 0 assms(2) show ?thesis by (cases ts) auto
next
  case (Suc j)
  have "auth_count m a \<le> 1" using assms(1) by (simp add: auth_count_def)
  from auth_fires_Suc [OF this, of j ts] Suc assms(2) show ?thesis by (simp add: disc_consts)
qed

theorem bond_lost_needs_two_failures_witness:
  "auth_fires (new_manager []) ''A'' [0, seconds 1, seconds 2] ! 1"
proof -
  have "\<not> auth_fires (new_manager []) ''A'' [0, seconds 1, seconds 2] ! 0"
    by (simp add: note_auth_failure_def new_manager_def disc_consts)
  then show ?thesis
    using bond_lost_needs_two_failures [of "new_manager []" "''A''" 1 "[0, seconds 1, seconds 2]"]
    by (simp add: new_manager_def)
qed

end
