(* ===== verification/BtAgent.thy ===== *)
theory BtAgent
  imports BtState
begin

text \<open>
  The pairing agent (\<open>daemon/bluetooth/agent.go\<close>): BlueZ asks it to confirm a pairing, the
  user accepts or denies, and the request in flight is dropped only by whoever it belongs to.
  The field \<open>current\<close> of the agent is \<open>agent_current\<close> of the manager; the manager of a
  running daemon always has an agent, since \<open>NewManager\<close> fails without one.
\<close>

subsection \<open>Operations\<close>

text \<open>\<open>fmt.Sprintf("%06d", passkey)\<close>: padded to six digits, longer numbers in full.\<close>

definition show_passkey :: "32 word \<Rightarrow> string" where
  "show_passkey n = (let s = show_nat (unat n) in replicate (6 - length s) CHR ''0'' @ s)"

definition set_current :: "pairing_request \<Rightarrow> manager \<Rightarrow> manager" where
  "set_current pr m = m\<lparr>agent_current := Some pr\<rparr>"

definition get_current :: "manager \<Rightarrow> pairing_request option" where
  "get_current m = agent_current m"

definition clear_current :: "manager \<Rightarrow> manager" where
  "clear_current m = m\<lparr>agent_current := None\<rparr>"

definition clear_current_if_device :: "string \<Rightarrow> manager \<Rightarrow> bool \<times> manager" where
  "clear_current_if_device path m =
     (case agent_current m of
        Some pr \<Rightarrow> if pr_device pr = path then (True, m\<lparr>agent_current := None\<rparr>) else (False, m)
      | None \<Rightarrow> (False, m))"

definition request_confirmation :: "string \<Rightarrow> 32 word \<Rightarrow> manager \<Rightarrow> manager" where
  "request_confirmation device passkey m =
     (let address = address_from_path (adapter m) device;
          key = show_passkey passkey;
          m1 = set_current \<lparr>pr_device = device, pr_passkey = key, pr_type = ''confirmation''\<rparr> m;
          m2 = emit (EventPairing address key) m1
      in effect (CallSetTrusted address) m2)"

definition cancel_pairing :: "manager \<Rightarrow> manager" where
  "cancel_pairing m =
     clear_current (case get_current m of
       Some pr \<Rightarrow> emit (EventPairingCancelled (address_from_path (adapter m) (pr_device pr))) m
     | None \<Rightarrow> m)"

definition accept_pairing :: "bt_env \<Rightarrow> manager \<Rightarrow> unit outcome \<times> manager" where
  "accept_pairing env m =
     (case get_current m of
        None \<Rightarrow> (Fail ''no pairing request in progress'', m)
      | Some pr \<Rightarrow>
          let address = address_from_path (adapter m) (pr_device pr);
              info = (case env_info env address of
                        Some i \<Rightarrow> i
                      | None \<Rightarrow> (blank_device_info address)\<lparr>di_paired := True\<rparr>)
          in (Return (), snd (clear_current_if_device (pr_device pr) (emit (EventPaired info) m))))"

definition reject_pairing :: "manager \<Rightarrow> unit outcome \<times> manager" where
  "reject_pairing m =
     (case get_current m of
        None \<Rightarrow> (Fail ''no pairing request in progress'', m)
      | Some _ \<Rightarrow> (Return (), clear_current m))"

subsection \<open>Lemmas\<close>

lemma clear_current_if_device_current:
  "agent_current (snd (clear_current_if_device path m)) =
     (case agent_current m of Some pr \<Rightarrow> if pr_device pr = path then None else Some pr | None \<Rightarrow> None)"
  by (simp add: clear_current_if_device_def split: option.split)

lemma clear_current_if_device_only:
  "snd (clear_current_if_device path m) = m\<lparr>agent_current := agent_current (snd (clear_current_if_device path m))\<rparr>"
  by (simp add: clear_current_if_device_def split: option.split)

lemma clear_current_if_device_frame [simp]:
  "effects (snd (clear_current_if_device path m)) = effects m"
  "manual_disconnects (snd (clear_current_if_device path m)) = manual_disconnects m"
  "pending_disconnects (snd (clear_current_if_device path m)) = pending_disconnects m"
  "pan_backoff_until (snd (clear_current_if_device path m)) = pan_backoff_until m"
  "connected_now (snd (clear_current_if_device path m)) = connected_now m"
  "has_emit (snd (clear_current_if_device path m)) = has_emit m"
  "has_hid (snd (clear_current_if_device path m)) = has_hid m"
  "adapter (snd (clear_current_if_device path m)) = adapter m"
  "known_devices (snd (clear_current_if_device path m)) = known_devices m"
  "last_pan_address (snd (clear_current_if_device path m)) = last_pan_address m"
  by (simp_all add: clear_current_if_device_def split: option.splits)

lemma cancel_pairing_frame:
  "agent_current (cancel_pairing m) = None"
  "effects (cancel_pairing m) = effects m @
     (case agent_current m of
        Some pr \<Rightarrow> if has_emit m then [Emit (EventPairingCancelled (address_from_path (adapter m) (pr_device pr)))] else []
      | None \<Rightarrow> [])"
  by (simp_all add: cancel_pairing_def clear_current_def get_current_def split: option.split)

subsection \<open>Properties\<close>

text \<open>a confirmation request is answered once. After BlueZ asks for a device, accepting
  announces the pairing of exactly that device (with the details BlueZ knows, or the bare
  address) and clears the request, so a second accept, a deny or a late cancel finds nothing
  and announces nothing. Another device's connection or pairing in between does not clear it.\<close>

theorem pairing_answered_once:
  assumes "has_emit m" and "CHR ''_'' \<notin> set a" and "other \<noteq> format_device_path (adapter m) a"
    and "asked = request_confirmation (format_device_path (adapter m) a) key m"
    and "accepted = accept_pairing env (snd (clear_current_if_device other asked))"
  shows "fst accepted = Return ()
    \<and> effects (snd accepted) = effects m @ [Emit (EventPairing a (show_passkey key)), CallSetTrusted a,
        Emit (EventPaired (case env_info env a of Some i \<Rightarrow> i | None \<Rightarrow> (blank_device_info a)\<lparr>di_paired := True\<rparr>))]
    \<and> fst (accept_pairing env (snd accepted)) = Fail ''no pairing request in progress''
    \<and> fst (reject_pairing (snd accepted)) = Fail ''no pairing request in progress''
    \<and> effects (cancel_pairing (snd accepted)) = effects (snd accepted)"
proof -
  let ?path = "format_device_path (adapter m) a"
  have addr: "address_from_path (adapter m) ?path = a" by (rule address_from_path_format [OF assms(2)])
  have cur: "agent_current asked = Some \<lparr>pr_device = ?path, pr_passkey = show_passkey key, pr_type = ''confirmation''\<rparr>"
    unfolding assms(4) by (simp add: request_confirmation_def set_current_def Let_def)
  have same: "snd (clear_current_if_device other asked) = asked"
    using cur assms(3) by (simp add: clear_current_if_device_def)
  have eff: "effects asked = effects m @ [Emit (EventPairing a (show_passkey key)), CallSetTrusted a]"
    and ad: "adapter asked = adapter m" and em: "has_emit asked"
    using assms(1) unfolding assms(4)
    by (simp_all add: request_confirmation_def set_current_def Let_def addr)
  have none: "agent_current (snd accepted) = None"
    unfolding assms(5) same
    by (simp add: accept_pairing_def get_current_def cur Let_def clear_current_if_device_current)
  have res: "fst accepted = Return ()" and eff2: "effects (snd accepted) = effects asked @
      [Emit (EventPaired (case env_info env a of Some i \<Rightarrow> i | None \<Rightarrow> (blank_device_info a)\<lparr>di_paired := True\<rparr>))]"
    unfolding assms(5) same
    using em by (simp_all add: accept_pairing_def get_current_def cur Let_def ad addr)
  show ?thesis
    using res eff2 eff none
    by (simp add: accept_pairing_def reject_pairing_def get_current_def cancel_pairing_frame)
qed

theorem pairing_answered_once_witness:
  "effects (snd (accept_pairing \<lparr>env_info = (\<lambda>_. None), env_net_up = False, env_net_up_after = False, env_call = (\<lambda>_. True)\<rparr>
      (snd (clear_current_if_device [] (request_confirmation (format_device_path ''/h'' ''A:B'') 7 (new_manager ''/h''))))))
    = [Emit (EventPairing ''A:B'' ''000007''), CallSetTrusted ''A:B'',
       Emit (EventPaired ((blank_device_info ''A:B'')\<lparr>di_paired := True\<rparr>))]"
proof -
  have "show_passkey 7 = ''000007''" by code_simp
  then show ?thesis
    using pairing_answered_once [OF _ _ _ refl refl, of "new_manager ''/h''" "''A:B''" "[]"
      "\<lparr>env_info = (\<lambda>_. None), env_net_up = False, env_net_up_after = False, env_call = (\<lambda>_. True)\<rparr>" 7]
    by (simp add: new_manager_def format_device_path_def)
qed

end
