(* ===== verification/BtNetwork.thy ===== *)
theory BtNetwork
  imports BtMgmt BtAgent
begin

text \<open>
  The manager's handlers (\<open>daemon/bluetooth/manager.go\<close>): what happens when BlueZ reports a
  device paired, connected or gone, when \<open>bnep0\<close> disappears, when the offline loop ticks or
  the device wakes up, and when the user asks for a connection or its end.

  A goroutine that a handler starts is an effect (\<open>Go...\<close>) and its body is a definition of
  its own (\<open>..._task\<close>) that runs later on the state it then finds, so the interleavings of
  the code are the sequences of these steps. Loops that poll are functions of the list of the
  answers they get; the list ends where the timeout ends the loop.
\<close>

subsection \<open>Bringing PAN up\<close>

definition connect_network_internal :: "bt_env \<Rightarrow> instant \<Rightarrow> string \<Rightarrow> bool \<Rightarrow> manager \<Rightarrow> unit outcome \<times> manager" where
  "connect_network_internal env now a force m =
     (if \<not> force \<and> last_pan_address m = a \<and> env_net_up env
      then (Return (), set_pan_session_up a m)
      else
        let m1 = (if force then effect (CallNetDisconnect a) (note_self_teardown now m) else m);
            m2 = effect (CallNetConnect a) m1
        in if \<not> env_call env (CallNetConnect a) then (Fail ''network connect (nap)'', m2)
           else if \<not> env_net_up_after env then (Fail ''bnep0 interface is not up'', m2)
           else
             let m3 = (effect RequestDHCP m2)\<lparr>last_pan_address := a\<rparr>;
                 m4 = set_pan_session_up a (clear_pan_backoff_pause a (clear_manual_disconnect a m3));
                 m5 = effect (GoRecordPan a) m4
             in (Return (), emit (EventNetworkConnect a) m5))"

definition connect_network :: "bt_env \<Rightarrow> instant \<Rightarrow> string \<Rightarrow> manager \<Rightarrow> unit outcome \<times> manager" where
  "connect_network env now a m = connect_network_internal env now a False m"

definition connect_network_forced :: "bt_env \<Rightarrow> instant \<Rightarrow> string \<Rightarrow> manager \<Rightarrow> unit outcome \<times> manager" where
  "connect_network_forced env now a m = connect_network_internal env now a True m"

definition record_pan_task :: "bt_env \<Rightarrow> instant \<Rightarrow> string \<Rightarrow> manager \<Rightarrow> manager" where
  "record_pan_task env now a m =
     record_pan_connected now a
       (case env_info env a of
          Some i \<Rightarrow> if di_alias i \<noteq> [] then di_alias i else di_name i
        | None \<Rightarrow> []) m"

subsection \<open>Paging\<close>

definition try_active_reconnect :: "string list \<Rightarrow> manager \<Rightarrow> manager" where
  "try_active_reconnect addrs m =
     (if addrs = [] \<or> active_reconnect_in_flight m then m
      else effect (GoPage addrs) (m\<lparr>active_reconnect_in_flight := True\<rparr>))"

text \<open>The paging goroutine: each address with the instant at which its turn comes.\<close>

fun page_devices :: "bt_env \<Rightarrow> (instant \<times> string) list \<Rightarrow> manager \<Rightarrow> manager" where
  "page_devices env [] m = m"
| "page_devices env ((now, a) # as) m =
     (let (man, m1) = is_manual_disconnect now a m
      in if man \<or> in_pan_backoff now a m1 then page_devices env as m1
         else let m2 = effect (CallConnect a) m1
              in if env_call env (CallConnect a) then m2 else page_devices env as m2)"

definition page_task :: "bt_env \<Rightarrow> (instant \<times> string) list \<Rightarrow> manager \<Rightarrow> manager" where
  "page_task env as m = (page_devices env as m)\<lparr>active_reconnect_in_flight := False\<rparr>"

subsection \<open>Recovering a dropped PAN\<close>

definition try_recover_pan :: "manager \<Rightarrow> manager" where
  "try_recover_pan m =
     (if last_pan_address m = [] then m else effect (GoRecoverPan (last_pan_address m)) m)"

definition recover_pan_task :: "bt_env \<Rightarrow> instant \<Rightarrow> string \<Rightarrow> manager \<Rightarrow> manager" where
  "recover_pan_task env now a m =
     (let (man, m1) = is_manual_disconnect now a m
      in if man \<or> in_pan_backoff now a m1 then m1
         else case env_info env a of
           None \<Rightarrow> m1
         | Some info \<Rightarrow>
             if \<not> di_connected info then m1
             else
               let threshold = (case connection_uptime now a m1 of
                     Some u \<Rightarrow> if u > pan_stable_after then pan_stable_retry_allowed else pan_retry_threshold
                   | None \<Rightarrow> pan_retry_threshold);
                   ((allowed, recent), m2) = should_retry_pan_threshold now threshold m1
               in if allowed then snd (connect_network env now a m2)
                  else if threshold = pan_stable_retry_allowed then snd (bump_pan_backoff now a m2)
                  else m2)"

text \<open>The netlink watcher, for a removed link named \<open>bnep0\<close>.\<close>

definition pan_interface :: string where "pan_interface = ''bnep0''"

definition link_removed :: "instant \<Rightarrow> string \<Rightarrow> manager \<Rightarrow> manager" where
  "link_removed now name m =
     (if name \<noteq> pan_interface then m
      else let (own, m1) = consume_self_teardown now m
           in if own then m1
              else try_recover_pan (emit EventNetworkDisconnect (mark_network_drop now m1)))"

subsection \<open>The offline loop\<close>

text \<open>The first candidate that is connected, and the disconnected ones before it; a
  candidate BlueZ knows nothing about is skipped.\<close>

fun first_connected :: "bt_env \<Rightarrow> string list \<Rightarrow> string option \<times> string list" where
  "first_connected env [] = (None, [])"
| "first_connected env (a # as) =
     (case env_info env a of
        None \<Rightarrow> first_connected env as
      | Some info \<Rightarrow> if di_connected info then (Some a, [])
                     else map_prod id ((#) a) (first_connected env as))"

definition run_offline_retry_attempt :: "bt_env \<Rightarrow> instant \<Rightarrow> manager \<Rightarrow> manager" where
  "run_offline_retry_attempt env now m =
     (let (cs, m1) = reconnect_candidates now m
      in if cs = [] then m1
         else case first_connected env cs of
           (Some a, _) \<Rightarrow>
             snd (if env_net_up env then connect_network_forced env now a m1 else connect_network env now a m1)
         | (None, ds) \<Rightarrow> if ds = [] then m1 else try_active_reconnect ds m1)"

definition offline_retry_interval :: duration where "offline_retry_interval = seconds 15"
definition offline_retry_fast_attempts :: nat where "offline_retry_fast_attempts = 20"
definition offline_retry_slow_interval :: duration where "offline_retry_slow_interval = minutes 1"

definition set_offline_retry :: "bool \<Rightarrow> manager \<Rightarrow> manager" where
  "set_offline_retry active m =
     (if active
      then if offline_retry m then m else effect GoOfflineLoop (m\<lparr>offline_retry := True\<rparr>)
      else m\<lparr>offline_retry := False\<rparr>)"

text \<open>The loop over its ticks, with the number of attempts made and the period of the ticker;
  a tick comes with the answers the world gives at it. The list ends when \<open>stop\<close> is closed.\<close>

fun offline_retry_ticks :: "(bt_env \<times> instant) list \<Rightarrow> nat \<Rightarrow> duration \<Rightarrow> manager \<Rightarrow> (nat \<times> duration) \<times> manager" where
  "offline_retry_ticks [] attempts period m = ((attempts, period), m)"
| "offline_retry_ticks ((env, now) # ts) attempts period m =
     (let n = attempts + 1;
          p = (if n = offline_retry_fast_attempts then offline_retry_slow_interval else period)
      in offline_retry_ticks ts n p (run_offline_retry_attempt env now m))"

definition offline_retry_loop :: "bt_env \<Rightarrow> instant \<Rightarrow> (bt_env \<times> instant) list \<Rightarrow> manager \<Rightarrow> (nat \<times> duration) \<times> manager" where
  "offline_retry_loop env now ts m =
     offline_retry_ticks ts 1 offline_retry_interval (run_offline_retry_attempt env now m)"

definition recover_network_after_resume :: "bt_env \<Rightarrow> instant \<Rightarrow> string \<Rightarrow> manager \<Rightarrow> manager" where
  "recover_network_after_resume env now addr m =
     (let m1 = clear_manual_disconnects m;
          a1 = (if addr = [] then last_pan_address m1 else addr);
          (a, m2) = (if a1 = [] then top_reconnect_candidate now m1 else (a1, m1))
      in if a = [] then m2
         else case env_info env a of
           None \<Rightarrow> m2
         | Some info \<Rightarrow>
             if \<not> di_connected info
             then let (cs, m3) = reconnect_candidates now m2 in try_active_reconnect cs m3
             else if \<not> env_net_up env then snd (connect_network_forced env now a m2)
             else m2)"

subsection \<open>Waiting for a service\<close>

text \<open>\<open>strings.EqualFold\<close> against a uuid: its letters fold only with their ASCII case.\<close>

definition ascii_lower :: "char \<Rightarrow> char" where
  "ascii_lower c = (if 65 \<le> (of_char c :: nat) \<and> (of_char c :: nat) \<le> 90 then char_of ((of_char c :: nat) + 32) else c)"

definition equal_fold :: "string \<Rightarrow> string \<Rightarrow> bool" where
  "equal_fold s t \<longleftrightarrow> map ascii_lower s = map ascii_lower t"

definition lists_uuid :: "string \<Rightarrow> (string \<Rightarrow> variant option) \<Rightarrow> bool" where
  "lists_uuid uuid props = (case props ''UUIDs'' of Some (VStrs us) \<Rightarrow> list_ex (\<lambda>u. equal_fold u uuid) us | _ \<Rightarrow> False)"

definition pan_nap_uuid :: string where "pan_nap_uuid = ''00001116-0000-1000-8000-00805f9b34fb''"
definition iap2_service_uuid :: string where "iap2_service_uuid = ''00000000-deca-fade-deca-deafdecacafe''"

text \<open>The answer (available, not before the timeout, or an error) and the number of nudges.\<close>

fun wait_for_nap_service :: "bool \<Rightarrow> (string \<Rightarrow> variant option) option list \<Rightarrow> bool outcome \<times> nat" where
  "wait_for_nap_service nudged [] = (Return False, 0)"
| "wait_for_nap_service nudged (None # ps) = (Fail ''get properties'', 0)"
| "wait_for_nap_service nudged (Some props # ps) =
     (if \<not> prop_or props ''Connected'' as_bool False then (Fail ''disconnected while waiting for NAP'', 0)
      else if lists_uuid pan_nap_uuid props then (Return True, 0)
      else if prop_or props ''ServicesResolved'' as_bool False \<and> \<not> nudged
      then map_prod id Suc (wait_for_nap_service True ps)
      else wait_for_nap_service nudged ps)"

definition sdp_bounce_cooldown :: duration where "sdp_bounce_cooldown = minutes 3"

definition sdp_bounce_claim :: "manager \<Rightarrow> string \<Rightarrow> instant \<Rightarrow> bool \<times> manager" where
  "sdp_bounce_claim m a now =
     (if (case sdp_bounce_at m a of Some l \<Rightarrow> time_sub now l < sdp_bounce_cooldown | None \<Rightarrow> False)
      then (False, m)
      else (True, m\<lparr>sdp_bounce_at := (sdp_bounce_at m)(a \<mapsto> now)\<rparr>))"

definition try_sdp_refresh_bounce :: "bt_env \<Rightarrow> instant \<Rightarrow> string \<Rightarrow> manager \<Rightarrow> manager" where
  "try_sdp_refresh_bounce env now a m =
     (let (granted, m1) = sdp_bounce_claim m a now
      in if \<not> granted then m1
         else
           let m2 = effect (CallDisconnect a) (m1\<lparr>pending_disconnects := insert a (pending_disconnects m1)\<rparr>)
           in if \<not> env_call env (CallDisconnect a)
              then m2\<lparr>pending_disconnects := pending_disconnects m2 - {a}\<rparr>
              else effect (CallConnect a) m2)"

text \<open>The auto-PAN goroutine of a connected device.\<close>

definition auto_pan_task :: "bt_env \<Rightarrow> instant \<Rightarrow> string \<Rightarrow> (string \<Rightarrow> variant option) option list \<Rightarrow> manager \<Rightarrow> manager" where
  "auto_pan_task env now a polls m =
     (let (res, nudges) = wait_for_nap_service False polls;
          m1 = foldr (\<lambda>_. effect (CallConnect a)) [0..<nudges] m
      in case res of
           Return True \<Rightarrow> snd (connect_network env now a m1)
         | Return False \<Rightarrow> try_sdp_refresh_bounce env now a (emit (EventNAPUnavailable a) m1)
         | _ \<Rightarrow> m1)"

text \<open>The wait for the iAP2 service: found, and still connected. \<open>streak\<close> counts failed reads.\<close>

fun wait_for_service_uuid :: "string \<Rightarrow> nat \<Rightarrow> (string \<Rightarrow> variant option) option list \<Rightarrow> bool \<times> bool" where
  "wait_for_service_uuid uuid streak [] = (False, True)"
| "wait_for_service_uuid uuid streak (None # ps) =
     (if streak + 1 \<ge> 5 then (False, False) else wait_for_service_uuid uuid (streak + 1) ps)"
| "wait_for_service_uuid uuid streak (Some props # ps) =
     (if \<not> prop_or props ''Connected'' as_bool True then (False, False)
      else if lists_uuid uuid props then (True, True)
      else wait_for_service_uuid uuid 0 ps)"

text \<open>The rounds of \<open>ensureIap2Session\<close>, at most eight, each with its polls.\<close>

fun iap2_rounds :: "nat \<Rightarrow> (string \<Rightarrow> variant option) option list list \<Rightarrow> bool" where
  "iap2_rounds 0 rs = False"
| "iap2_rounds (Suc n) [] = False"
| "iap2_rounds (Suc n) (ps # rs) =
     (let (found, connected) = wait_for_service_uuid iap2_service_uuid 0 ps
      in if found then True else if \<not> connected then False else iap2_rounds n rs)"

definition iap2_watch_begin :: "string \<Rightarrow> manager \<Rightarrow> bool \<times> manager" where
  "iap2_watch_begin a m =
     (if \<not> has_iap2 m \<or> a \<in> iap2_watching m then (False, m)
      else (True, m\<lparr>iap2_watching := insert a (iap2_watching m)\<rparr>))"

definition iap2_watch_end :: "string \<Rightarrow> (string \<Rightarrow> variant option) option list list \<Rightarrow> manager \<Rightarrow> manager" where
  "iap2_watch_end a rounds m =
     (let m1 = (if iap2_rounds 8 rounds then effect (EnsureIap2 a) m else m)
      in m1\<lparr>iap2_watching := iap2_watching m1 - {a}\<rparr>)"

definition ensure_iap2_session :: "string \<Rightarrow> (string \<Rightarrow> variant option) option list list \<Rightarrow> manager \<Rightarrow> manager" where
  "ensure_iap2_session a rounds m =
     (let (mine, m1) = iap2_watch_begin a m in if mine then iap2_watch_end a rounds m1 else m1)"

subsection \<open>What BlueZ reports\<close>

definition arm_hid_watchdog :: "string \<Rightarrow> manager \<Rightarrow> manager" where
  "arm_hid_watchdog a m = (if has_hid m then effect (ArmWatchdog a) m else m)"

definition handle_device_paired :: "bt_env \<Rightarrow> instant \<Rightarrow> string \<Rightarrow> string \<Rightarrow> manager \<Rightarrow> manager" where
  "handle_device_paired env now path a m =
     (let m1 = snd (clear_current_if_device path m);
          info = (case env_info env a of
                    Some i \<Rightarrow> i
                  | None \<Rightarrow> (blank_device_info a)\<lparr>di_paired := True\<rparr>);
          name = (if di_alias info = [] then di_name info else di_alias info);
          m2 = record_paired_device now a name m1;
          m3 = clear_manual_disconnect a (clear_auth_failures a m2);
          m4 = (if a \<in> connected_now m3 then m3
                else m3\<lparr>connected_now := insert a (connected_now m3),
                        connected_since := (connected_since m3)(a \<mapsto> now)\<rparr>);
          m5 = effect (GoIap2Session a) (arm_hid_watchdog a m4)
      in emit (EventPaired info) m5)"

definition handle_device_connected :: "bt_env \<Rightarrow> instant \<Rightarrow> string \<Rightarrow> manager \<Rightarrow> manager" where
  "handle_device_connected env now a m =
     (let m1 = m\<lparr>manual_disconnects := (manual_disconnects m)(a := None),
                 connected_since := (connected_since m)(a \<mapsto> now),
                 connected_now := insert a (connected_now m)\<rparr>;
          m2 = clear_auth_failures a m1;
          m3 = emit (case env_info env a of
                       None \<Rightarrow> EventConnect a None
                     | Some i \<Rightarrow> EventConnect [] (Some i)) m2
      in case env_info env a of
           None \<Rightarrow> m3
         | Some info \<Rightarrow>
             if \<not> di_paired info then m3
             else
               let m4 = effect (GoIap2Session a) (arm_hid_watchdog a m3)
               in if last_pan_address m4 \<noteq> a
                     \<and> (online m4 \<or> last_pan_address m4 \<noteq> [] \<and> env_net_up env)
                  then m4
                  else effect (GoAutoPan a) m4)"

definition handle_device_disconnected :: "string \<Rightarrow> string \<Rightarrow> manager \<Rightarrow> manager" where
  "handle_device_disconnected path a m =
     (let m1 = (if a \<in> pending_disconnects m
                then m\<lparr>pending_disconnects := pending_disconnects m - {a}\<rparr>
                else emit (EventDisconnect a) m);
          m2 = m1\<lparr>connected_now := connected_now m1 - {a}\<rparr>;
          m3 = (if has_iap2 m2 then effect (DropIap2 a) m2 else m2)
      in snd (clear_current_if_device path m3))"

definition bluez_device_interface :: string where "bluez_device_interface = ''org.bluez.Device1''"

text \<open>The body of the signal loop, for a \<open>PropertiesChanged\<close> with all its arguments: a change
  of \<open>Paired\<close> is handled before a change of \<open>Connected\<close>.\<close>

definition properties_changed ::
  "bt_env \<Rightarrow> instant \<Rightarrow> string \<Rightarrow> string \<Rightarrow> (string \<Rightarrow> variant option) \<Rightarrow> manager \<Rightarrow> manager" where
  "properties_changed env now path iface changes m =
     (if iface \<noteq> bluez_device_interface then m
      else
        let a = address_from_path (adapter m) path;
            m1 = (case changes ''Paired'' of
                    Some v \<Rightarrow> if as_bool v then handle_device_paired env now path a m else m
                  | None \<Rightarrow> m)
        in case changes ''Connected'' of
             Some v \<Rightarrow> if as_bool v then handle_device_connected env now a m1
                       else handle_device_disconnected path a m1
           | None \<Rightarrow> m1)"

subsection \<open>What the user asks\<close>

definition page_device :: "bt_env \<Rightarrow> string \<Rightarrow> manager \<Rightarrow> unit outcome \<times> manager" where
  "page_device env a m =
     (if \<not> is_known_device a m then (Fail ''unknown device'', m)
      else
        let m1 = clear_pan_backoff a (clear_manual_disconnect a m)
        in (Return (),
            if (case env_info env a of Some i \<Rightarrow> di_connected i | None \<Rightarrow> False)
            then effect (GoConnectForced a) m1
            else try_active_reconnect [a] m1))"

definition disconnect_device :: "bt_env \<Rightarrow> instant \<Rightarrow> string \<Rightarrow> manager \<Rightarrow> unit outcome \<times> manager" where
  "disconnect_device env now a m =
     (let m1 = mark_manual_disconnect now a (m\<lparr>pending_disconnects := insert a (pending_disconnects m)\<rparr>);
          m2 = effect (CallDisconnect a) m1
      in if \<not> env_call env (CallDisconnect a)
         then (Fail ''disconnect device'',
               clear_manual_disconnect a (m2\<lparr>pending_disconnects := pending_disconnects m2 - {a}\<rparr>))
         else (Return (), emit (EventDisconnect a) m2))"

definition connect_info_task :: "bt_env \<Rightarrow> string \<Rightarrow> manager \<Rightarrow> manager" where
  "connect_info_task env a m = emit (EventConnect a (env_info env a)) m"

definition connect_device :: "bt_env \<Rightarrow> string \<Rightarrow> manager \<Rightarrow> unit outcome \<times> manager" where
  "connect_device env a m =
     (let m1 = effect (NmcliConnect a) m
      in if env_call env (NmcliConnect a) then (Return (), effect (GoConnectInfo a) m1)
         else (Fail ''nmcli connect'', m1))"

definition set_discoverable :: "bt_env \<Rightarrow> bool \<Rightarrow> manager \<Rightarrow> unit outcome \<times> manager" where
  "set_discoverable env enable m =
     (let m1 = effect (SetTimeout (if enable then 0 else 180)) m;
          m2 = effect (SetProperty ''Discoverable'' enable) m1
      in if \<not> env_call env (SetProperty ''Discoverable'' enable) then (Fail ''set Discoverable'', m2)
         else
           let m3 = effect (SetProperty ''Pairable'' enable) m2
           in if \<not> env_call env (SetProperty ''Pairable'' enable) then (Fail ''set Pairable'', m3)
              else (Return (), m3))"

text \<open>\<open>GetDevices\<close>: the managed objects in the order the map yields them.\<close>

type_synonym bluez_object = "string \<times> (string \<Rightarrow> (string \<Rightarrow> variant option) option)"

definition bluez_battery_interface :: string where "bluez_battery_interface = ''org.bluez.Battery1''"

fun get_devices :: "string \<Rightarrow> bluez_object list \<Rightarrow> device_info list" where
  "get_devices adapter_path [] = []"
| "get_devices adapter_path ((path, ifaces) # objs) =
     (case ifaces bluez_device_interface of
        None \<Rightarrow> get_devices adapter_path objs
      | Some props \<Rightarrow>
          let info = fill_device_info (blank_device_info (address_from_path adapter_path path)) props
          in (case ifaces bluez_battery_interface of None \<Rightarrow> info | Some b \<Rightarrow> battery_info info b)
             # get_devices adapter_path objs)"

definition sweep_hid_watchdogs :: "device_info list option \<Rightarrow> manager \<Rightarrow> manager" where
  "sweep_hid_watchdogs devs m =
     (case devs of
        None \<Rightarrow> m
      | Some ds \<Rightarrow> foldl (\<lambda>m d. if di_paired d \<and> di_connected d then arm_hid_watchdog (di_address d) m else m) m ds)"

text \<open>\<open>NewManager\<close> adopts the devices that are connected already.\<close>

definition adopt_connected :: "instant \<Rightarrow> device_info list \<Rightarrow> manager \<Rightarrow> string list \<times> manager" where
  "adopt_connected now devs m =
     foldl (\<lambda>(as, m) d.
       if \<not> di_connected d then (as, m)
       else
         let a = di_address d;
             m1 = m\<lparr>connected_now := insert a (connected_now m), connected_since := (connected_since m)(a \<mapsto> now)\<rparr>
         in if di_paired d then (as @ [a], effect (GoIap2Session a) m1) else (as, m1)) ([], m) devs"

definition start_watchdogs :: "string list \<Rightarrow> manager \<Rightarrow> manager" where
  "start_watchdogs as m = foldl (\<lambda>m a. arm_hid_watchdog a m) m as"

subsection \<open>Cooldown of the bounce\<close>

interpretation bounce: cooldown sdp_bounce_claim sdp_bounce_at sdp_bounce_cooldown
proof unfold_locales
  fix m :: manager and k t
  show "fst (sdp_bounce_claim m k t) \<longleftrightarrow> (\<forall>u. sdp_bounce_at m k = Some u \<longrightarrow> sdp_bounce_cooldown \<le> t - u)"
    by (auto simp: sdp_bounce_claim_def sdp_bounce_cooldown_def go_time split: option.splits)
  show "sdp_bounce_at (snd (sdp_bounce_claim m k t)) =
      (if fst (sdp_bounce_claim m k t) then (sdp_bounce_at m)(k \<mapsto> t) else sdp_bounce_at m)"
    by (simp add: sdp_bounce_claim_def)
qed

subsection \<open>What a step adds to the effects\<close>

text \<open>\<open>quiet_step a m m'\<close>: from \<open>m\<close> to \<open>m'\<close> nothing was started that connects \<open>a\<close>.\<close>

definition quiet_step :: "string \<Rightarrow> manager \<Rightarrow> manager \<Rightarrow> bool" where
  "quiet_step a m m' \<longleftrightarrow> (\<exists>es. effects m' = effects m @ es \<and> (\<forall>e\<in>set es. \<not> reconnects a e))"

lemma quiet_step_refl [simp]: "quiet_step a m m"
  by (simp add: quiet_step_def)

lemma quiet_step_trans: "quiet_step a m m1 \<Longrightarrow> quiet_step a m1 m2 \<Longrightarrow> quiet_step a m m2"
  by (fastforce simp: quiet_step_def)

lemma quiet_step_same: "effects m1 = effects m \<Longrightarrow> quiet_step a m m1"
  by (simp add: quiet_step_def)

lemma quiet_step_effect: "quiet_step a m m1 \<Longrightarrow> \<not> reconnects a e \<Longrightarrow> quiet_step a m (effect e m1)"
  by (fastforce simp: quiet_step_def)

lemma quiet_step_drop:
  "quiet_step a m m' \<longleftrightarrow> has_prefix (effects m') (effects m)
    \<and> (\<forall>e\<in>set (drop (length (effects m)) (effects m')). \<not> reconnects a e)"
  by (auto simp: quiet_step_def has_prefix_iff)

lemma pan_frames [simp]:
  "effects (set_pan_session_up a m) = effects m"
  "effects (clear_pan_backoff_pause a m) = effects m"
  "effects (clear_pan_backoff a m) = effects m"
  "effects (note_self_teardown now m) = effects m"
  "effects (mark_network_drop now m) = effects m"
  "effects (clear_manual_disconnects m) = effects m"
  "effects (clear_auth_failures a m) = effects m"
  "has_emit (set_pan_session_up a m) = has_emit m"
  "has_emit (clear_pan_backoff_pause a m) = has_emit m"
  "has_emit (clear_manual_disconnect a m) = has_emit m"
  "has_emit (note_self_teardown now m) = has_emit m"
  by (simp_all add: set_pan_session_up_def clear_pan_backoff_pause_def clear_pan_backoff_def
      note_self_teardown_def mark_network_drop_def clear_manual_disconnects_def
      clear_auth_failures_def clear_manual_disconnect_def)

lemma is_manual_disconnect_effects [simp]: "effects (snd (is_manual_disconnect now a m)) = effects m"
  using is_manual_disconnect_snd [of now a m] by auto

lemma should_retry_effects [simp]: "effects (snd (should_retry_pan_threshold now n m)) = effects m"
  by (simp add: should_retry_pan_threshold_def Let_def)

lemma bump_effects [simp]: "effects (snd (bump_pan_backoff now a m)) = effects m"
  by (simp add: bump_pan_backoff_def Let_def)

lemma connect_network_effects:
  "effects (snd (connect_network_internal env now b force m)) =
     effects m @ (if \<not> force \<and> last_pan_address m = b \<and> env_net_up env then []
       else (if force then [CallNetDisconnect b] else []) @ [CallNetConnect b]
         @ (if env_call env (CallNetConnect b) \<and> env_net_up_after env
            then [RequestDHCP, GoRecordPan b] @ (if has_emit m then [Emit (EventNetworkConnect b)] else [])
            else []))"
  by (simp add: connect_network_internal_def Let_def emit_def)

lemma connect_network_quiet:
  "a \<noteq> b \<Longrightarrow> quiet_step a m (snd (connect_network_internal env now b force m))"
  by (auto simp: quiet_step_def connect_network_effects)

lemmas connect_network_entry = connect_network_def connect_network_forced_def

lemma try_active_reconnect_quiet:
  "a \<notin> set as \<Longrightarrow> quiet_step a m (try_active_reconnect as m)"
  by (auto simp: try_active_reconnect_def quiet_step_def)

lemma first_connected_set:
  "first_connected env cs = (r, ds) \<Longrightarrow> set ds \<subseteq> set cs \<and> (\<forall>b. r = Some b \<longrightarrow> b \<in> set cs)"
proof (induction cs arbitrary: r ds)
  case (Cons c cs)
  then show ?case
    by (cases "first_connected env cs") (auto split: option.splits if_splits)
qed simp

definition paused :: "instant \<Rightarrow> string \<Rightarrow> manager \<Rightarrow> bool" where
  "paused now a m \<longleftrightarrow> manual_paused now a m \<or> in_pan_backoff now a m"

lemma candidates_not_paused: "a \<in> set (fst (reconnect_candidates now m)) \<Longrightarrow> \<not> paused now a m"
  by (auto simp: reconnect_candidates_def unpaused_fst paused_def)

lemma offline_attempt_quiet:
  assumes "paused now a m"
  shows "quiet_step a m (run_offline_retry_attempt env now m)"
proof -
  obtain cs m1 where c: "reconnect_candidates now m = (cs, m1)" by force
  then have eff: "effects m1 = effects m"
    by (metis reconnect_candidates_def snd_conv unpaused_effects)
  have a: "a \<notin> set cs" using candidates_not_paused [of a now m] assms c by auto
  obtain r ds where f: "first_connected env cs = (r, ds)" by force
  have "quiet_step a m1 (run_offline_retry_attempt env now m)"
  proof (cases r)
    case None
    with f a c first_connected_set [OF f] show ?thesis
      by (auto simp: run_offline_retry_attempt_def intro!: try_active_reconnect_quiet)
  next
    case (Some b)
    with first_connected_set [OF f] a have "a \<noteq> b" by auto
    with Some f c show ?thesis
      by (auto simp: run_offline_retry_attempt_def connect_network_entry intro!: connect_network_quiet)
  qed
  with quiet_step_same [OF eff] show ?thesis by (rule quiet_step_trans)
qed

lemma paused_after_query [simp]: "paused now a (snd (is_manual_disconnect now b m)) = paused now a m"
  by (simp add: paused_def)

lemma paused_split:
  "fst (is_manual_disconnect now a m) \<or> in_pan_backoff now a (snd (is_manual_disconnect now a m)) \<longleftrightarrow> paused now a m"
  by (simp add: paused_def manual_paused_def)

lemma recover_task_quiet:
  assumes "paused now a m"
  shows "quiet_step a m (recover_pan_task env now a m)"
  using assms paused_split [of now a m]
  by (auto simp: recover_pan_task_def split_beta Let_def quiet_step_def)

lemma paused_effect [simp]: "paused now a (effect e m) = paused now a m"
  by (simp add: paused_def in_pan_backoff_def manual_paused_iff)

lemma page_devices_quiet:
  "paused now a m \<Longrightarrow> quiet_step a m (page_devices env (map (Pair now) as) m)"
proof (induction as arbitrary: m)
  case (Cons b as)
  let ?m1 = "snd (is_manual_disconnect now b m)"
  have q: "quiet_step a m ?m1" by (rule quiet_step_same) simp
  have p: "paused now a ?m1" using Cons.prems by simp
  show ?case
  proof (cases "fst (is_manual_disconnect now b m) \<or> in_pan_backoff now b ?m1")
    case True
    then show ?thesis using quiet_step_trans [OF q Cons.IH [OF p]] by (auto simp: split_beta)
  next
    case False
    then have "\<not> paused now b m" by (simp only: paused_split) simp
    then have "a \<noteq> b" using Cons.prems by auto
    then have q2: "quiet_step a m (effect (CallConnect b) ?m1)"
      using q by (intro quiet_step_effect) auto
    have "quiet_step a (effect (CallConnect b) ?m1) (page_devices env (map (Pair now) as) (effect (CallConnect b) ?m1))"
      by (rule Cons.IH) (use p in simp)
    from quiet_step_trans [OF q2 this] q2 False show ?thesis by (auto simp: split_beta Let_def)
  qed
qed simp

subsection \<open>Recoveries of a stable session\<close>

lemma connect_network_frame [simp]:
  "pan_retry_history (snd (connect_network_internal env now b force m)) = pan_retry_history m"
  "connected_since (snd (connect_network_internal env now b force m)) = connected_since m"
  by (simp_all add: connect_network_internal_def Let_def emit_def effect_def note_self_teardown_def
      set_pan_session_up_def clear_pan_backoff_pause_def clear_manual_disconnect_def)

lemma query_frame [simp]:
  "pan_retry_history (snd (is_manual_disconnect now b m)) = pan_retry_history m"
  "connected_since (snd (is_manual_disconnect now b m)) = connected_since m"
  "last_pan_address (snd (is_manual_disconnect now b m)) = last_pan_address m"
  using is_manual_disconnect_snd [of now b m] by auto

lemma retry_frame [simp]:
  "connected_since (snd (should_retry_pan_threshold now n m)) = connected_since m"
  "connected_since (snd (bump_pan_backoff now b m)) = connected_since m"
  by (simp_all add: should_retry_pan_threshold_def bump_pan_backoff_def Let_def)

definition stable_session :: "instant \<Rightarrow> string \<Rightarrow> manager \<Rightarrow> bool" where
  "stable_session now a m \<longleftrightarrow> (\<exists>s. connected_since m a = Some s \<and> now - s > pan_stable_after)"

lemma recover_task_stable:
  assumes "stable_session now a m" and "\<not> paused now a m" and "env_info env a = Some i" and "di_connected i"
  defines "m1 \<equiv> snd (is_manual_disconnect now a m)"
  shows "recover_pan_task env now a m =
    (let ((allowed, recent), m2) = should_retry_pan_threshold now pan_stable_retry_allowed m1
     in if allowed then snd (connect_network env now a m2) else snd (bump_pan_backoff now a m2))"
proof -
  have "\<not> fst (is_manual_disconnect now a m) \<and> \<not> in_pan_backoff now a m1"
    using assms(2) paused_split [of now a m] by (simp add: m1_def)
  moreover have "\<exists>u. connection_uptime now a m1 = Some u \<and> u > pan_stable_after"
    using assms(1) by (auto simp: stable_session_def connection_uptime_def m1_def pan_consts go_time)
  ultimately show ?thesis
    using assms(3,4) by (auto simp: recover_pan_task_def split_beta Let_def m1_def)
qed

lemma should_retry_once:
  "fst (fst (should_retry_pan_threshold now 1 m)) \<Longrightarrow> now \<in> set (pan_retry_history (snd (should_retry_pan_threshold now 1 m)))"
  by (auto simp: should_retry_pan_threshold_def Let_def split: if_splits)

lemma should_retry_refused:
  "t \<in> set (pan_retry_history m) \<Longrightarrow> now - pan_retry_window < t \<Longrightarrow> \<not> fst (fst (should_retry_pan_threshold now 1 m))"
proof -
  assume "t \<in> set (pan_retry_history m)" and "now - pan_retry_window < t"
  then have "t \<in> set (filter (\<lambda>t. now - pan_retry_window < t) (pan_retry_history m))" by simp
  then have "1 \<le> length (filter (\<lambda>t. now - pan_retry_window < t) (pan_retry_history m))"
    by (metis One_nat_def Suc_leI length_pos_if_in_set)
  then show ?thesis by (simp add: should_retry_pan_threshold_def Let_def)
qed

text \<open>After a recovery task of a stable session, either its attempt is in the history or the
  device is in backoff.\<close>

lemma recover_task_leaves:
  assumes "stable_session t a m" and "\<not> paused t a m" and "env_info env a = Some i" and "di_connected i"
  shows "t \<in> set (pan_retry_history (recover_pan_task env t a m))
    \<or> (\<forall>u < t + pan_backoff_min. in_pan_backoff u a (recover_pan_task env t a m))"
proof -
  let ?m1 = "snd (is_manual_disconnect t a m)"
  let ?r = "should_retry_pan_threshold t 1 ?m1"
  have rec: "recover_pan_task env t a m =
      (if fst (fst ?r) then snd (connect_network env t a (snd ?r)) else snd (bump_pan_backoff t a (snd ?r)))"
    by (simp add: recover_task_stable [OF assms] split_beta Let_def pan_stable_retry_allowed_def)
  show ?thesis
  proof (cases "fst (fst ?r)")
    case True
    with should_retry_once rec show ?thesis by (simp add: connect_network_def)
  next
    case False
    have "t + pan_backoff_min \<le> t + fst (bump_pan_backoff t a (snd ?r))"
      using bump_pan_backoff_bounds [of t a "snd ?r"] by simp
    moreover have "pan_backoff_until (bump_mark t a (snd ?r)) a = Some (t + fst (bump_pan_backoff t a (snd ?r)))"
      by (rule bump_records)
    ultimately show ?thesis using False rec by (auto simp: in_pan_backoff_def bump_mark_def)
  qed
qed

lemma recover_task_quiet_history:
  assumes "stable_session u a m" and "t \<in> set (pan_retry_history m)" and "u - pan_retry_window < t"
  shows "quiet_step a m (recover_pan_task env u a m)"
proof (cases "paused u a m")
  case True
  then show ?thesis by (rule recover_task_quiet)
next
  case False
  let ?m1 = "snd (is_manual_disconnect u a m)"
  show ?thesis
  proof (cases "\<exists>i. env_info env a = Some i \<and> di_connected i")
    case True
    then obtain i where i: "env_info env a = Some i" "di_connected i" by blast
    have "\<not> fst (fst (should_retry_pan_threshold u 1 ?m1))"
      using assms(2,3) by (intro should_retry_refused) simp_all
    then show ?thesis
      using recover_task_stable [OF assms(1) False i]
      by (simp add: split_beta Let_def pan_stable_retry_allowed_def quiet_step_def)
  next
    case no: False
    then have "recover_pan_task env u a m = ?m1"
      by (auto simp: recover_pan_task_def split_beta Let_def split: option.splits)
    then show ?thesis by (simp add: quiet_step_same)
  qed
qed

lemma connected_since_recover [simp]:
  "connected_since (recover_pan_task env now a m) = connected_since m"
  by (simp add: recover_pan_task_def split_beta Let_def connect_network_def split: option.split)

subsection \<open>Properties\<close>

definition added :: "manager \<Rightarrow> manager \<Rightarrow> bt_effect list" where
  "added m m' = drop (length (effects m)) (effects m')"

lemma quiet_step_added: "quiet_step a m m' \<Longrightarrow> \<not> list_ex (reconnects a) (added m m')"
  by (auto simp: quiet_step_def added_def list_ex_iff)

text \<open>C4: a paused device is left alone. While a device is marked as manually disconnected
  (for ten minutes) or in flap backoff, neither an attempt of the offline loop, nor a PAN
  recovery, nor the paging of a list of devices that contains it makes any call that would
  connect it, whatever BlueZ answers; other devices may still be connected.\<close>

theorem paused_device_left_alone:
  fixes m :: manager
  assumes "fst (is_manual_disconnect now a m) \<or> in_pan_backoff now a m"
  shows "\<not> list_ex (reconnects a) (added m (run_offline_retry_attempt env now m))
    \<and> \<not> list_ex (reconnects a) (added m (recover_pan_task env now a m))
    \<and> \<not> list_ex (reconnects a) (added m (page_task env (map (Pair now) as) m))"
proof -
  have p: "paused now a m" using assms by (simp add: paused_def manual_paused_def)
  have "quiet_step a m (page_task env (map (Pair now) as) m)"
    using page_devices_quiet [OF p, of env as] by (simp add: page_task_def quiet_step_def)
  from quiet_step_added [OF this] show ?thesis
    using quiet_step_added [OF offline_attempt_quiet [OF p, of env]]
      quiet_step_added [OF recover_task_quiet [OF p, of env]] by blast
qed

theorem paused_device_left_alone_witness:
  "\<not> list_ex (reconnects ''A'') (added (mark_manual_disconnect 0 ''A'' two_phones)
      (run_offline_retry_attempt quiet_env (minutes 9) (mark_manual_disconnect 0 ''A'' two_phones)))"
  using paused_device_left_alone [of "minutes 9" "''A''" "mark_manual_disconnect 0 ''A'' two_phones" quiet_env]
  by (simp add: mark_manual_disconnect_def is_manual_disconnect_def pan_consts go_time)

text \<open>a stable session is recovered at most once per window. When a session has lasted more
  than a minute and its device is reachable, a PAN drop starts a recovery or a backoff, and a
  second drop within 30 seconds of it starts no attempt to connect that device.\<close>

theorem stable_session_recovered_once:
  fixes m :: manager
  assumes "connected_since m a = Some s" and "t - s > seconds 60"
    and "\<not> fst (is_manual_disconnect t a m)" and "\<not> in_pan_backoff t a m"
    and "env_info env a = Some i" and "di_connected i"
    and "t \<le> u" and "u < t + seconds 30"
  shows "\<not> list_ex (reconnects a)
    (added (recover_pan_task env t a m) (recover_pan_task env' u a (recover_pan_task env t a m)))"
proof -
  let ?m = "recover_pan_task env t a m"
  have st: "stable_session t a m" using assms(1,2) by (simp add: stable_session_def pan_consts)
  then have su: "stable_session u a ?m" using assms(7) by (auto simp: stable_session_def)
  have np: "\<not> paused t a m" using assms(3,4) by (simp add: paused_def manual_paused_def)
  from recover_task_leaves [OF st np assms(5,6)]
  have "quiet_step a ?m (recover_pan_task env' u a ?m)"
  proof
    assume "t \<in> set (pan_retry_history ?m)"
    with su show ?thesis
      by (rule recover_task_quiet_history) (use assms(8) in \<open>simp add: pan_consts\<close>)
  next
    assume "\<forall>u < t + pan_backoff_min. in_pan_backoff u a ?m"
    then have "paused u a ?m" using assms(8) by (simp add: paused_def pan_consts)
    then show ?thesis by (rule recover_task_quiet)
  qed
  then show ?thesis by (rule quiet_step_added)
qed

definition one_up :: manager where
  "one_up = two_phones\<lparr>connected_since := [''A'' \<mapsto> 0], last_pan_address := ''A''\<rparr>"

definition phone_env :: bt_env where
  "phone_env = quiet_env\<lparr>env_info := (\<lambda>a. Some ((blank_device_info a)\<lparr>di_connected := True, di_paired := True\<rparr>)),
     env_net_up_after := True\<rparr>"

theorem stable_session_recovered_once_witness:
  "\<not> list_ex (reconnects ''A'') (added (recover_pan_task phone_env (seconds 70) ''A'' one_up)
     (recover_pan_task phone_env (seconds 80) ''A'' (recover_pan_task phone_env (seconds 70) ''A'' one_up)))"
  by (rule stable_session_recovered_once [where s = 0 and i = "(blank_device_info ''A'')\<lparr>di_connected := True, di_paired := True\<rparr>"])
    (simp_all add: one_up_def two_phones_def new_manager_def is_manual_disconnect_def in_pan_backoff_def
      phone_env_def quiet_env_def blank_device_info_def)

text \<open>what a PAN connect leaves behind. On success the address becomes the tracked one, its
  pauses are lifted, its session counts as up and the connect event goes out last (when there
  is an emitter), unless the tracked PAN was up already, which changes nothing else. On failure
  the tracked address, the marks, the backoff and the session markers are as before and no
  event goes out.\<close>

theorem connect_network_outcome:
  fixes m :: manager
  assumes "0 \<le> now" and "connect_network_internal env now a force m = (r, m')"
  shows "(case r of
      Return _ \<Rightarrow> last_pan_address m' = a \<and> a \<in> pan_session_up m'
        \<and> (if \<not> force \<and> last_pan_address m = a \<and> env_net_up env
           then m' = set_pan_session_up a m
           else \<not> fst (is_manual_disconnect now a m') \<and> \<not> in_pan_backoff now a m'
             \<and> (has_emit m \<longrightarrow> last (effects m') = Emit (EventNetworkConnect a)))
    | _ \<Rightarrow> last_pan_address m' = last_pan_address m \<and> manual_disconnects m' = manual_disconnects m
        \<and> pan_backoff_until m' = pan_backoff_until m \<and> pan_session_up m' = pan_session_up m
        \<and> (\<forall>ev. Emit ev \<notin> set (added m m')))"
proof -
  have m': "m' = snd (connect_network_internal env now a force m)"
    and r: "r = fst (connect_network_internal env now a force m)" using assms(2) by simp_all
  show ?thesis
  proof (cases "\<not> force \<and> last_pan_address m = a \<and> env_net_up env")
    case True
    then show ?thesis unfolding m' r
      by (simp add: connect_network_internal_def set_pan_session_up_def)
  next
    case False
    then show ?thesis unfolding m' r added_def
      using assms(1)
      by (auto simp: connect_network_internal_def Let_def emit_def effect_def note_self_teardown_def
          set_pan_session_up_def clear_pan_backoff_pause_def clear_manual_disconnect_def
          is_manual_disconnect_def in_pan_backoff_def)
  qed
qed

theorem connect_network_outcome_witness:
  "last_pan_address (snd (connect_network_internal phone_env 5 ''B'' True two_phones)) = ''B''"
proof -
  have "connect_network_internal phone_env 5 ''B'' True two_phones =
      (Return (), snd (connect_network_internal phone_env 5 ''B'' True two_phones))"
    by (simp add: connect_network_internal_def Let_def phone_env_def quiet_env_def)
  from connect_network_outcome [OF _ this] show ?thesis by simp
qed

text \<open>while the daemon is online over another device or another path, a phone that connects
  is announced and recorded but never takes the network over: the tracked PAN address stays and
  nothing is started that connects to the phone.\<close>

theorem online_not_taken_over:
  fixes m :: manager
  assumes "online m" and "last_pan_address m \<noteq> a"
  shows "last_pan_address (handle_device_connected env now a m) = last_pan_address m
    \<and> \<not> list_ex (reconnects b) (added m (handle_device_connected env now a m))
    \<and> a \<in> connected_now (handle_device_connected env now a m)"
  using assms
  by (auto simp: handle_device_connected_def Let_def clear_auth_failures_def emit_def effect_def
      arm_hid_watchdog_def added_def split: option.split)

theorem online_not_taken_over_witness:
  "\<not> list_ex (reconnects ''B'') (added (one_up\<lparr>online := True\<rparr>)
     (handle_device_connected phone_env 5 ''B'' (one_up\<lparr>online := True\<rparr>)))"
  using online_not_taken_over [of "one_up\<lparr>online := True\<rparr>" "''B''" phone_env 5 "''B''"]
  by (simp add: one_up_def)

text \<open>a disconnect the user asks for is announced exactly once. When BlueZ accepts the call,
  the event goes out at once and the \<open>Connected: false\<close> that BlueZ then reports emits no second
  one; the device is paused from then on. When BlueZ refuses, no event goes out and the device
  is not paused.\<close>

theorem user_disconnect_announced_once:
  fixes m :: manager
  assumes "has_emit m" and "0 \<le> now" and "disconnect_device env now a m = (r, m1)"
    and "m2 = handle_device_disconnected path a m1"
  shows "(r = Return () \<longrightarrow> filter (\<lambda>e. \<exists>ev. e = Emit ev) (added m m2) = [Emit (EventDisconnect a)]
            \<and> fst (is_manual_disconnect now a m2) \<and> a \<notin> pending_disconnects m2)
    \<and> (r \<noteq> Return () \<longrightarrow> filter (\<lambda>e. \<exists>ev. e = Emit ev) (added m m1) = []
            \<and> \<not> fst (is_manual_disconnect now a m1) \<and> a \<notin> pending_disconnects m1)"
proof -
  have m1: "m1 = snd (disconnect_device env now a m)" and r: "r = fst (disconnect_device env now a m)"
    using assms(3) by simp_all
  show ?thesis unfolding assms(4) m1 r
    using assms(1)
    by (auto simp: disconnect_device_def Let_def handle_device_disconnected_def mark_manual_disconnect_def
        clear_manual_disconnect_def emit_def effect_def is_manual_disconnect_def added_def pan_consts)
qed

theorem user_disconnect_announced_once_witness:
  "filter (\<lambda>e. \<exists>ev. e = Emit ev) (added two_phones
     (handle_device_disconnected [] ''A'' (snd (disconnect_device quiet_env 7 ''A'' two_phones))))
     = [Emit (EventDisconnect ''A'')]"
proof -
  have "disconnect_device quiet_env 7 ''A'' two_phones =
      (Return (), snd (disconnect_device quiet_env 7 ''A'' two_phones))"
    by (simp add: disconnect_device_def Let_def quiet_env_def)
  moreover have "has_emit two_phones" by (simp add: two_phones_def new_manager_def)
  ultimately show ?thesis
    using user_disconnect_announced_once [OF _ _ _ refl, of two_phones 7 quiet_env "''A''"] by simp
qed

end
