(* ===== verification/RouteHealth.thy ===== *)
theory RouteHealth
  imports BtState
begin

text \<open>
  The arbiter of the default route (\<open>daemon/bluetooth/route_health.go\<close>): probes over
  \<open>bnep0\<close> and over the alternative path feed a state machine that demotes the tethered
  route when it is dead while the alternative works, and restores it after it recovered.
  The kernel's routing table is the list of default routes of \<open>bnep0\<close>, each a metric; the
  answers of netlink and of the probes are arguments.
\<close>

subsection \<open>The state machine\<close>

record route_health =
  fail_streak :: nat
  ok_streak :: nat
  demoted :: bool
  demoted_at :: instant

datatype route_action = ActionNone | ActionDemote | ActionRestore

definition demote_after :: nat where "demote_after = 3"
definition restore_after :: nat where "restore_after = 3"
definition restore_hold_down :: duration where "restore_hold_down = minutes 5"
definition demoted_metric :: nat where "demoted_metric = 700"

lemmas route_consts = demote_after_def restore_after_def restore_hold_down_def demoted_metric_def

definition health_reset :: route_health where
  "health_reset = \<lparr>fail_streak = 0, ok_streak = 0, demoted = False, demoted_at = 0\<rparr>"

definition health_tick :: "bool \<Rightarrow> bool \<Rightarrow> instant \<Rightarrow> route_health \<Rightarrow> route_action \<times> route_health" where
  "health_tick pan_ok alt_ok now s =
     (if pan_ok then
        (let s1 = s\<lparr>fail_streak := 0, ok_streak := ok_streak s + 1\<rparr>
         in if demoted s1 \<and> ok_streak s1 \<ge> restore_after \<and> time_sub now (demoted_at s1) \<ge> restore_hold_down
            then (ActionRestore, s1\<lparr>demoted := False, ok_streak := 0\<rparr>)
            else (ActionNone, s1))
      else
        (let s1 = s\<lparr>ok_streak := 0\<rparr>
         in if \<not> alt_ok then (ActionNone, s1\<lparr>fail_streak := 0\<rparr>)
            else
              (let s2 = s1\<lparr>fail_streak := fail_streak s1 + 1\<rparr>
               in if \<not> demoted s2 \<and> fail_streak s2 \<ge> demote_after
                  then (ActionDemote, s2\<lparr>demoted := True, demoted_at := now, fail_streak := 0\<rparr>)
                  else (ActionNone, s2))))"

subsection \<open>The route and the loop\<close>

text \<open>\<open>setPanRouteMetric\<close> on the default routes of \<open>bnep0\<close>: the first is replaced by one with
  the metric. Netlink answers whether it added the new route (one that exists already counts
  as added) and whether it deleted the old one.\<close>

datatype route_added = AddOk | AddExists | AddFails

definition set_pan_route_metric :: "nat \<Rightarrow> route_added \<Rightarrow> bool \<Rightarrow> nat list \<Rightarrow> unit outcome \<times> nat list" where
  "set_pan_route_metric metric add del routes =
     (case routes of
        [] \<Rightarrow> (Return (), routes)
      | r # rs \<Rightarrow>
          if r = metric then (Return (), routes)
          else if add = AddFails then (Fail ''route add'', routes)
          else let rs' = (if add = AddOk then rs @ [metric] else rs)
               in if del then (Return (), rs') else (Fail ''route del'', r # rs'))"

definition tether_route_state :: "nat list \<Rightarrow> string" where
  "tether_route_state routes =
     (case routes of [] \<Rightarrow> [] | r # _ \<Rightarrow> if r \<ge> demoted_metric then ''demoted'' else ''ok'')"

text \<open>A round of the loop: the default routes of \<open>bnep0\<close> at its start, the probes, and
  whether replacing the route works.\<close>

record probe_round =
  pr_routes :: "nat list"
  pr_alt :: string
  pr_alt_ok :: bool
  pr_pan_ok :: bool
  pr_now :: instant
  pr_add :: route_added
  pr_del :: bool

definition arbiter_round :: "probe_round \<Rightarrow> route_health \<Rightarrow> route_action \<times> nat list \<times> route_health" where
  "arbiter_round r s =
     (case pr_routes r of
        [] \<Rightarrow> (ActionNone, pr_routes r, health_reset)
      | prio # _ \<Rightarrow>
          let s0 = (if demoted s \<and> prio = 0 then health_reset else s);
              alt_ok = (pr_alt r \<noteq> [] \<and> pr_alt_ok r);
              (act, s1) = health_tick (pr_pan_ok r) alt_ok (pr_now r) s0
          in case act of
               ActionDemote \<Rightarrow>
                 let (res, routes) = set_pan_route_metric demoted_metric (pr_add r) (pr_del r) (pr_routes r)
                 in (act, routes, case res of Return _ \<Rightarrow> s1 | _ \<Rightarrow> health_reset)
             | ActionRestore \<Rightarrow>
                 (act, snd (set_pan_route_metric 0 (pr_add r) (pr_del r) (pr_routes r)), s1)
             | ActionNone \<Rightarrow> (act, pr_routes r, s1))"

text \<open>The actions of a run of ticks, with the instants.\<close>

fun health_run :: "route_health \<Rightarrow> (bool \<times> bool \<times> instant) list \<Rightarrow> route_action list" where
  "health_run s [] = []"
| "health_run s ((p, a, now) # ts) = fst (health_tick p a now s) # health_run (snd (health_tick p a now s)) ts"

subsection \<open>Lemmas\<close>

lemma length_health_run [simp]: "length (health_run s ts) = length ts"
  by (induction ts arbitrary: s) auto

fun health_states :: "route_health \<Rightarrow> (bool \<times> bool \<times> instant) list \<Rightarrow> route_health" where
  "health_states s [] = s"
| "health_states s ((p, a, now) # ts) = health_states (snd (health_tick p a now s)) ts"

lemma health_run_nth:
  "i < length ts \<Longrightarrow> health_run s ts ! i =
     (case ts ! i of (p, a, now) \<Rightarrow> fst (health_tick p a now (health_states s (take i ts))))"
proof (induction ts arbitrary: s i)
  case (Cons t ts)
  obtain p a now where t: "t = (p, a, now)" by (cases t) auto
  with Cons show ?case by (cases i) auto
qed simp

lemma health_states_append: "health_states s (ts @ us) = health_states (health_states s ts) us"
  by (induction s ts rule: health_states.induct) auto

lemma health_states_Suc:
  "i < length ts \<Longrightarrow> health_states s (take (Suc i) ts) =
     (case ts ! i of (p, a, now) \<Rightarrow> snd (health_tick p a now (health_states s (take i ts))))"
  by (simp add: take_Suc_conv_app_nth health_states_append split: prod.splits)

text \<open>What a demotion means for the state: the last rounds all failed, with the alternative up.\<close>

definition streak_ok :: "(bool \<times> bool \<times> instant) list \<Rightarrow> route_health \<Rightarrow> bool" where
  "streak_ok ts s \<longleftrightarrow>
     fail_streak s \<le> length ts
   \<and> (\<forall>j < fail_streak s. case rev ts ! j of (p, a, now) \<Rightarrow> \<not> p \<and> a)
   \<and> ok_streak s \<le> length ts
   \<and> (\<forall>j < ok_streak s. case rev ts ! j of (p, a, now) \<Rightarrow> p)"

lemma streak_ok_step:
  "streak_ok ts s \<Longrightarrow> streak_ok (ts @ [(p, a, now)]) (snd (health_tick p a now s))"
  by (auto simp: streak_ok_def health_tick_def Let_def nth_Cons less_Suc_eq_0_disj split: nat.splits)

lemma streak_ok_run: "streak_ok ts s \<Longrightarrow> streak_ok (ts @ us) (health_states s us)"
proof (induction us arbitrary: ts s)
  case (Cons t us)
  obtain p a now where t: "t = (p, a, now)" by (cases t) auto
  have "streak_ok ((ts @ [t]) @ us) (health_states (snd (health_tick p a now s)) us)"
    using Cons streak_ok_step t by blast
  with t show ?case by simp
qed simp

lemma tick_demote:
  "fst (health_tick p a now s) = ActionDemote \<longleftrightarrow> \<not> p \<and> a \<and> \<not> demoted s \<and> fail_streak s \<ge> 2"
  by (auto simp: health_tick_def route_consts Let_def)

lemma tick_restore:
  "fst (health_tick p a now s) = ActionRestore \<longleftrightarrow>
     p \<and> demoted s \<and> ok_streak s \<ge> 2 \<and> now - demoted_at s \<ge> minutes 5"
  by (auto simp: health_tick_def route_consts Let_def go_time)

lemma tick_demoted:
  "demoted (snd (health_tick p a now s)) =
     (case fst (health_tick p a now s) of ActionDemote \<Rightarrow> True | ActionRestore \<Rightarrow> False | ActionNone \<Rightarrow> demoted s)"
  "demoted_at (snd (health_tick p a now s)) =
     (if fst (health_tick p a now s) = ActionDemote then now else demoted_at s)"
  by (auto simp: health_tick_def Let_def)

text \<open>Demoted since tick \<open>i\<close>: that is when the last action happened.\<close>

lemma demoted_since:
  "demoted (health_states health_reset ts) \<Longrightarrow>
    \<exists>i < length ts. health_run health_reset ts ! i = ActionDemote
      \<and> demoted_at (health_states health_reset ts) = snd (snd (ts ! i))
      \<and> (\<forall>j. i < j \<and> j < length ts \<longrightarrow> health_run health_reset ts ! j = ActionNone)"
proof (induction ts rule: rev_induct)
  case (snoc t ts)
  obtain p a now where t: "t = (p, a, now)" by (cases t) auto
  let ?s = "health_states health_reset ts"
  have run: "health_run health_reset (ts @ [t]) ! j =
      (if j < length ts then health_run health_reset ts ! j else fst (health_tick p a now ?s))"
    if "j < Suc (length ts)" for j
    using that health_run_nth [of j "ts @ [t]" health_reset] health_run_nth [of j ts health_reset] t
    by (auto simp: nth_append less_Suc_eq)
  note run = run [unfolded t]
  show ?case
  proof (cases "fst (health_tick p a now ?s)")
    case ActionDemote
    then show ?thesis
      by (intro exI [of _ "length ts"]) (auto simp: run t health_states_append tick_demoted)
  next
    case ActionRestore
    with snoc.prems show ?thesis by (simp add: t health_states_append tick_demoted)
  next
    case ActionNone
    with snoc.prems have "demoted ?s" by (simp add: t health_states_append tick_demoted)
    from snoc.IH [OF this] obtain i where "i < length ts" "health_run health_reset ts ! i = ActionDemote"
      "demoted_at ?s = snd (snd (ts ! i))"
      "\<forall>j. i < j \<and> j < length ts \<longrightarrow> health_run health_reset ts ! j = ActionNone" by blast
    with ActionNone show ?thesis
      by (intro exI [of _ i]) (auto simp: run t health_states_append tick_demoted nth_append less_Suc_eq)
  qed
qed (simp add: health_reset_def)

subsection \<open>Properties\<close>

text \<open>C3: the tethered route is demoted only when it is dead and the alternative is alive, for
  three probes in a row up to this one: no single lost probe, and no outage of both paths,
  demotes it.\<close>

theorem demote_needs_three_failures:
  assumes "i < length ts" and "health_run health_reset ts ! i = ActionDemote"
  shows "2 \<le> i \<and> (\<forall>j \<in> {i - 2..i}. \<not> fst (ts ! j) \<and> fst (snd (ts ! j)))"
proof -
  let ?s = "health_states health_reset (take i ts)"
  obtain p a now where t: "ts ! i = (p, a, now)" by (cases "ts ! i") auto
  have d: "\<not> p \<and> a \<and> fail_streak ?s \<ge> 2"
    using assms t by (simp add: health_run_nth tick_demote)
  have "streak_ok ([] @ take i ts) ?s"
    by (rule streak_ok_run) (simp add: streak_ok_def health_reset_def)
  then have len: "fail_streak ?s \<le> i" and fl: "\<And>j. j < fail_streak ?s \<Longrightarrow> (case rev (take i ts) ! j of (p, a, now) \<Rightarrow> \<not> p \<and> a)"
    using assms(1) by (auto simp: streak_ok_def)
  have "\<not> fst (ts ! (i - Suc k)) \<and> fst (snd (ts ! (i - Suc k)))" if "k < 2" for k
    using fl [of k] d len that assms(1) by (auto simp: rev_nth split: prod.splits)
  from this [of 0] this [of 1] have "\<not> fst (ts ! j) \<and> fst (snd (ts ! j))" if "j = i - 1 \<or> j = i - 2" for j
    using that by (auto simp: numeral_2_eq_2)
  moreover have "j = i \<or> j = i - 1 \<or> j = i - 2" if "j \<in> {i - 2..i}" for j using that by auto
  ultimately show ?thesis using d len t by (metis fst_conv order_trans snd_conv)
qed

theorem demote_needs_three_failures_witness:
  "\<not> fst ([(True, True, 0), (False, True, 20), (False, True, 40), (False, True, 60 :: int)] ! 1)"
  using demote_needs_three_failures [of 3 "[(True, True, 0), (False, True, 20), (False, True, 40), (False, True, 60)]"]
  by (simp add: health_tick_def health_reset_def route_consts numeral_3_eq_3)

text \<open>demotions and restorations alternate, and a restoration comes only after three clean
  probes in a row and at least five minutes after the demotion it undoes.\<close>

theorem restore_after_hold_down:
  assumes "k < length ts" and "health_run health_reset ts ! k = ActionRestore"
  shows "\<exists>i < k. health_run health_reset ts ! i = ActionDemote
    \<and> (\<forall>j. i < j \<and> j < k \<longrightarrow> health_run health_reset ts ! j = ActionNone)
    \<and> snd (snd (ts ! i)) + minutes 5 \<le> snd (snd (ts ! k))
    \<and> fst (ts ! k) \<and> fst (ts ! (k - 1)) \<and> fst (ts ! (k - 2))"
proof -
  let ?s = "health_states health_reset (take k ts)"
  obtain p a now where t: "ts ! k = (p, a, now)" by (cases "ts ! k") auto
  have r: "p" "demoted ?s" "ok_streak ?s \<ge> 2" "now - demoted_at ?s \<ge> minutes 5"
    using assms t by (simp_all add: health_run_nth tick_restore)
  have run: "health_run health_reset (take k ts) ! j = health_run health_reset ts ! j" if "j < k" for j
    using that assms(1) health_run_nth [of j "take k ts" health_reset] health_run_nth [of j ts health_reset]
    by (simp add: min_def split: if_splits)
  from demoted_since [OF r(2)] assms(1) run obtain i where i: "i < k" "health_run health_reset ts ! i = ActionDemote"
    "demoted_at ?s = snd (snd (ts ! i))" "\<forall>j. i < j \<and> j < k \<longrightarrow> health_run health_reset ts ! j = ActionNone"
    by auto
  have "streak_ok ([] @ take k ts) ?s"
    by (rule streak_ok_run) (simp add: streak_ok_def health_reset_def)
  then have len: "ok_streak ?s \<le> k" and fl: "\<And>j. j < ok_streak ?s \<Longrightarrow> (case rev (take k ts) ! j of (p, a, now) \<Rightarrow> p)"
    using assms(1) by (auto simp: streak_ok_def)
  have "fst (ts ! (k - Suc j))" if "j < 2" for j
    using fl [of j] r(3) len that assms(1) by (auto simp: rev_nth split: prod.splits)
  from this [of 0] this [of 1] have "fst (ts ! (k - 1))" "fst (ts ! (k - 2))" by (simp_all add: numeral_2_eq_2)
  with i r(1,4) t show ?thesis by (intro exI [of _ i]) auto
qed

theorem restore_after_hold_down_witness:
  "\<exists>i < 5. health_run health_reset ([(False, True, 0), (False, True, 0), (False, True, 0),
      (True, True, 1), (True, True, 2), (True, True, minutes 5)]) ! i = ActionDemote"
  using restore_after_hold_down [of 5 "[(False, True, 0), (False, True, 0), (False, True, 0),
      (True, True, 1), (True, True, 2), (True, True, minutes 5)]"]
  by (fastforce simp: health_tick_def health_reset_def route_consts go_time)

end
