(* ===== verification/BtIap2.thy ===== *)
theory BtIap2
  imports Interfaces
begin

text \<open>
  The supervisor of the iAP2 sidecar process (\<open>daemon/bluetooth/iap2_volume.go\<close>): which
  session is wanted, when the sidecar is spawned, and how failed sessions are retried.

  \<open>iap2_running\<close> stands for \<open>cmd\<close> and \<open>stdin\<close>, which the code sets and clears together;
  the process is the environment: \<open>spawn\<close> says whether a start succeeds and \<open>write\<close> whether
  a command line reaches it. \<open>iap2_effects\<close> lists the spawns, the commands written and the
  timers set.
\<close>

subsection \<open>State\<close>

datatype iap2_command = CmdConnect string | CmdDisconnect | CmdVolume int

datatype iap2_effect =
    Spawned
  | Wrote iap2_command
  | RetryIn duration string
  | RespawnAfter string
  | StdinClosed
  | Killed

record iap2 =
  iap2_running :: bool
  iap2_state :: string
  iap2_last_err :: string
  iap2_addr :: string
  iap2_want :: string
  iap2_stopped :: bool
  iap2_retries :: nat
  iap2_retry_base :: duration
  iap2_effects :: "iap2_effect list"

definition new_iap2 :: iap2 where
  "new_iap2 = \<lparr>iap2_running = False, iap2_state = [], iap2_last_err = [], iap2_addr = [], iap2_want = [],
     iap2_stopped = False, iap2_retries = 0, iap2_retry_base = 0, iap2_effects = []\<rparr>"

definition iap2_effect :: "iap2_effect \<Rightarrow> iap2 \<Rightarrow> iap2" where
  "iap2_effect e v = v\<lparr>iap2_effects := iap2_effects v @ [e]\<rparr>"

subsection \<open>Operations\<close>

definition iap2_ensure_running :: "bool \<Rightarrow> iap2 \<Rightarrow> bool \<times> iap2" where
  "iap2_ensure_running spawn v =
     (if iap2_running v then (True, v)
      else if iap2_stopped v then (False, v)
      else if \<not> spawn then (False, v)
      else (True, iap2_effect Spawned (v\<lparr>iap2_running := True\<rparr>)))"

definition iap2_send :: "bool \<Rightarrow> iap2_command \<Rightarrow> iap2 \<Rightarrow> bool \<times> iap2" where
  "iap2_send write c v =
     (if \<not> iap2_running v then (False, v)
      else if write then (True, iap2_effect (Wrote c) v)
      else (False, v))"

definition iap2_ensure_session :: "bool \<Rightarrow> bool \<Rightarrow> string \<Rightarrow> iap2 \<Rightarrow> iap2" where
  "iap2_ensure_session spawn write addr v =
     (let v1 = (if iap2_want v \<noteq> addr then v\<lparr>iap2_retries := 0\<rparr> else v)\<lparr>iap2_want := addr\<rparr>;
          (ok, v2) = iap2_ensure_running spawn v1
      in if ok then snd (iap2_send write (CmdConnect addr) v2) else v2)"

definition iap2_drop_session :: "bool \<Rightarrow> string \<Rightarrow> iap2 \<Rightarrow> iap2" where
  "iap2_drop_session write addr v =
     (if addr \<noteq> [] \<and> iap2_want v \<noteq> addr then v
      else let v1 = v\<lparr>iap2_want := []\<rparr> in snd (iap2_send write CmdDisconnect v1))"

definition iap2_send_volume :: "bool \<Rightarrow> int \<Rightarrow> iap2 \<Rightarrow> bool \<times> iap2" where
  "iap2_send_volume write steps v =
     (if iap2_state v \<noteq> ''connected'' then (False, v) else iap2_send write (CmdVolume steps) v)"

definition iap2_connected :: "iap2 \<Rightarrow> bool" where
  "iap2_connected v \<longleftrightarrow> iap2_state v = ''connected''"

definition iap2_status :: "iap2 option \<Rightarrow> string \<times> string \<times> bool" where
  "iap2_status ov =
     (case ov of
        None \<Rightarrow> (''unavailable'', [], False)
      | Some v \<Rightarrow> (if iap2_state v = [] then ''idle'' else iap2_state v, iap2_last_err v, True))"

text \<open>A state event of the sidecar.\<close>

definition iap2_state_event :: "string \<Rightarrow> string \<Rightarrow> iap2 \<Rightarrow> iap2" where
  "iap2_state_event st addr v =
     (let v1 = v\<lparr>iap2_state := st, iap2_addr := addr\<rparr>
      in if st = ''connected'' then v1\<lparr>iap2_last_err := [], iap2_retries := 0\<rparr>
         else if st = ''disconnected'' \<and> iap2_want v1 \<noteq> [] \<and> \<not> iap2_stopped v1 \<and> iap2_retries v1 < 4
         then let n = iap2_retries v1 + 1;
                  base = (if iap2_retry_base v1 = 0 then seconds 10 else iap2_retry_base v1);
                  v2 = v1\<lparr>iap2_retries := n\<rparr>
              in if int n * base > 0 then iap2_effect (RetryIn (int n * base) (iap2_want v2)) v2 else v2
         else v1)"

definition iap2_error_event :: "string \<Rightarrow> iap2 \<Rightarrow> iap2" where
  "iap2_error_event err v = v\<lparr>iap2_last_err := err\<rparr>"

text \<open>A retry timer that fires, for the address it was set for.\<close>

definition iap2_retry_fires :: "bool \<Rightarrow> bool \<Rightarrow> string \<Rightarrow> iap2 \<Rightarrow> iap2" where
  "iap2_retry_fires spawn write want v =
     (if iap2_want v = want \<and> \<not> iap2_stopped v \<and> iap2_state v \<noteq> ''connected''
      then iap2_ensure_session spawn write want v else v)"

text \<open>The sidecar exits: the pump forgets it and starts over three seconds later for the
  session wanted at the exit.\<close>

definition iap2_exited :: "iap2 \<Rightarrow> iap2" where
  "iap2_exited v =
     (let v1 = v\<lparr>iap2_running := False, iap2_state := []\<rparr>
      in if iap2_want v1 \<noteq> [] \<and> \<not> iap2_stopped v1 then iap2_effect (RespawnAfter (iap2_want v1)) v1 else v1)"

text \<open>\<open>Close\<close>: the wait for the exit is the list of the checks whether \<open>cmd\<close> is gone, at most
  twenty; a process that stays is killed.\<close>

definition iap2_close :: "bool list \<Rightarrow> iap2 \<Rightarrow> iap2" where
  "iap2_close gone v =
     (let v1 = v\<lparr>iap2_stopped := True, iap2_want := []\<rparr>
      in if \<not> iap2_running v1 then v1
         else let v2 = iap2_effect StdinClosed v1
              in if list_ex id (take 20 gone) then v2 else iap2_effect Killed v2)"

subsection \<open>The supervisor as a machine\<close>

datatype iap2_input =
    InEnsure bool bool string
  | InDrop bool string
  | InVolume bool int
  | InState string string
  | InError string
  | InRetry bool bool string
  | InRespawn bool bool string
  | InExited
  | InClose "bool list"

fun iap2_step :: "iap2 \<Rightarrow> iap2_input \<Rightarrow> iap2" where
  "iap2_step v (InEnsure sp wr a) = iap2_ensure_session sp wr a v"
| "iap2_step v (InDrop wr a) = iap2_drop_session wr a v"
| "iap2_step v (InVolume wr n) = snd (iap2_send_volume wr n v)"
| "iap2_step v (InState st a) = iap2_state_event st a v"
| "iap2_step v (InError e) = iap2_error_event e v"
| "iap2_step v (InRetry sp wr a) = iap2_retry_fires sp wr a v"
| "iap2_step v (InRespawn sp wr a) = iap2_ensure_session sp wr a v"
| "iap2_step v InExited = iap2_exited v"
| "iap2_step v (InClose gone) = iap2_close gone v"

lemmas iap2_defs = iap2_ensure_running_def iap2_send_def iap2_ensure_session_def iap2_drop_session_def
  iap2_send_volume_def iap2_state_event_def iap2_error_event_def iap2_retry_fires_def iap2_exited_def
  iap2_close_def iap2_effect_def

definition spawns :: "iap2 \<Rightarrow> nat" where
  "spawns v = length (filter (\<lambda>e. e = Spawned) (iap2_effects v))"

text \<open>Closed for good: stopped, no process left.\<close>

definition iap2_done :: "iap2 \<Rightarrow> bool" where
  "iap2_done v \<longleftrightarrow> iap2_stopped v \<and> \<not> iap2_running v"

interpretation iap2_closed: latch_machine iap2_step iap2_done
proof unfold_locales
  fix v e
  show "iap2_done v \<Longrightarrow> iap2_done (iap2_step v e)"
    by (cases e) (auto simp: iap2_done_def iap2_defs Let_def)
qed

interpretation iap2_stop: latch_machine iap2_step iap2_stopped
proof unfold_locales
  fix v e
  show "iap2_stopped v \<Longrightarrow> iap2_stopped (iap2_step v e)"
    by (cases e) (auto simp: iap2_defs Let_def)
qed

lemma spawns_effect [simp]:
  "spawns (iap2_effect e v) = (if e = Spawned then Suc (spawns v) else spawns v)"
  by (simp add: spawns_def iap2_effect_def)

lemma spawns_update [simp]:
  "spawns (v\<lparr>iap2_want := a\<rparr>) = spawns v" "spawns (v\<lparr>iap2_retries := n\<rparr>) = spawns v"
  "spawns (v\<lparr>iap2_state := s\<rparr>) = spawns v" "spawns (v\<lparr>iap2_addr := b\<rparr>) = spawns v"
  "spawns (v\<lparr>iap2_last_err := x\<rparr>) = spawns v" "spawns (v\<lparr>iap2_running := r\<rparr>) = spawns v"
  "spawns (v\<lparr>iap2_stopped := t\<rparr>) = spawns v"
  by (simp_all add: spawns_def)

lemma stopped_no_spawn: "iap2_stopped v \<Longrightarrow> spawns (iap2_step v e) = spawns v"
  by (cases e) (auto simp: spawns_def iap2_defs Let_def)

text \<open>The retries between two connected states.\<close>

definition is_retry :: "iap2_effect \<Rightarrow> bool" where
  "is_retry e = (case e of RetryIn _ _ \<Rightarrow> True | _ \<Rightarrow> False)"

definition retry_timers :: "iap2 \<Rightarrow> iap2_effect list" where
  "retry_timers v = filter is_retry (iap2_effects v)"

text \<open>The inputs of a session that never connects: all but a change of the wanted address, a
  drop, a close and the \<open>connected\<close> state.\<close>

fun failing :: "string \<Rightarrow> iap2_input \<Rightarrow> bool" where
  "failing want (InEnsure _ _ a) = (a = want)"
| "failing want (InRespawn _ _ a) = (a = want)"
| "failing want (InState st _) = (st \<noteq> ''connected'')"
| "failing want (InDrop _ _) = False"
| "failing want (InClose _) = False"
| "failing want _ = True"

definition retry_plan :: "string \<Rightarrow> nat \<Rightarrow> iap2_effect list" where
  "retry_plan want n = map (\<lambda>k. RetryIn (int (Suc k) * seconds 10) want) [0..<n]"

lemma step_retries:
  "failing (iap2_want v) e \<Longrightarrow> iap2_retry_base v = 0 \<Longrightarrow>
    iap2_want (iap2_step v e) = iap2_want v \<and> iap2_retry_base (iap2_step v e) = 0 \<and>
    ((iap2_retries (iap2_step v e) = iap2_retries v \<and> retry_timers (iap2_step v e) = retry_timers v)
     \<or> (iap2_retries v < 4 \<and> iap2_retries (iap2_step v e) = Suc (iap2_retries v)
        \<and> retry_timers (iap2_step v e) = retry_timers v @ [RetryIn (int (Suc (iap2_retries v)) * seconds 10) (iap2_want v)]))"
  by (cases e) (auto simp: iap2_defs retry_timers_def is_retry_def Let_def)

lemma run_retries:
  "list_all (failing (iap2_want v)) es \<Longrightarrow> iap2_retry_base v = 0 \<Longrightarrow> iap2_retries v \<le> 4 \<Longrightarrow>
    retry_timers v = old @ retry_plan (iap2_want v) (iap2_retries v) \<Longrightarrow>
    iap2_retries (foldl iap2_step v es) \<le> 4 \<and>
    retry_timers (foldl iap2_step v es) = old @ retry_plan (iap2_want v) (iap2_retries (foldl iap2_step v es))"
proof (induction es arbitrary: v)
  case (Cons e es)
  let ?v = "iap2_step v e"
  from Cons.prems(1) have fe: "failing (iap2_want v) e" by simp
  note st = step_retries [OF fe Cons.prems(2)]
  then have w: "iap2_want ?v = iap2_want v" and b: "iap2_retry_base ?v = 0" by simp_all
  from st Cons.prems(3,4) have "iap2_retries ?v \<le> 4"
    and "retry_timers ?v = old @ retry_plan (iap2_want v) (iap2_retries ?v)"
    by (auto simp: retry_plan_def)
  with Cons.IH [of ?v] Cons.prems(1) w b show ?case by simp
qed simp

subsection \<open>Properties\<close>

text \<open>a session that keeps failing is retried at most four times, after 10, 20, 30 and 40
  seconds: whatever the sidecar reports and whatever else the daemon asks for the same
  phone, until a session connects, is dropped, or another phone is wanted.\<close>

theorem iap2_retries_bounded:
  assumes "iap2_retries v = 0" and "iap2_retry_base v = 0"
    and "list_all (failing (iap2_want v)) es"
  shows "\<exists>n \<le> 4. filter is_retry (iap2_effects (foldl iap2_step v es)) =
    filter is_retry (iap2_effects v) @ map (\<lambda>k. RetryIn (int (Suc k) * seconds 10) (iap2_want v)) [0..<n]"
  using run_retries [OF assms(3,2), of "retry_timers v"] assms(1)
  by (auto simp: retry_plan_def retry_timers_def)

theorem iap2_retries_bounded_witness:
  "\<exists>n \<le> 4. filter is_retry (iap2_effects (foldl iap2_step (iap2_ensure_session True True ''A'' new_iap2)
      (replicate 9 (InState ''disconnected'' ''A'')))) = map (\<lambda>k. RetryIn (int (Suc k) * seconds 10) ''A'') [0..<n]"
  using iap2_retries_bounded [of "iap2_ensure_session True True ''A'' new_iap2" "replicate 9 (InState ''disconnected'' ''A'')"]
  by (simp add: iap2_defs new_iap2_def is_retry_def numeral_eq_Suc)

text \<open>after \<open>Close\<close> no sidecar is ever started again, whatever timers, exits, events and
  requests still arrive; and once its process is gone none runs.\<close>

theorem iap2_close_is_final:
  "length (filter (\<lambda>e. e = Spawned) (iap2_effects (foldl iap2_step (iap2_close gone v) es)))
     = length (filter (\<lambda>e. e = Spawned) (iap2_effects v))
   \<and> (InExited \<in> set es \<longrightarrow> \<not> iap2_running (foldl iap2_step (iap2_close gone v) es))"
proof -
  have st: "iap2_stopped (iap2_close gone v)" by (simp add: iap2_defs Let_def)
  have "spawns (foldl iap2_step u es) = spawns u" if "iap2_stopped u" for u es
    using that by (induction es arbitrary: u) (auto simp: stopped_no_spawn iap2_stop.spent_stays)
  from this [OF st] have "spawns (foldl iap2_step (iap2_close gone v) es) = spawns v"
    by (simp add: iap2_close_def Let_def)
  moreover have "\<not> iap2_running (foldl iap2_step (iap2_close gone v) es)" if "InExited \<in> set es"
  proof -
    from that obtain xs ys where es: "es = xs @ InExited # ys" by (auto dest: split_list)
    let ?u = "foldl iap2_step (iap2_close gone v) xs"
    have "iap2_stopped ?u" by (rule iap2_stop.run_spent [OF st])
    then have "iap2_done (iap2_step ?u InExited)" by (simp add: iap2_done_def iap2_defs Let_def)
    then have "iap2_done (foldl iap2_step (iap2_step ?u InExited) ys)" by (rule iap2_closed.run_spent)
    then show ?thesis by (simp add: es iap2_done_def)
  qed
  ultimately show ?thesis by (simp add: spawns_def)
qed

theorem iap2_close_is_final_witness:
  "\<not> iap2_running (foldl iap2_step (iap2_close [False] (iap2_ensure_session True True ''A'' new_iap2))
     [InRetry True True ''A'', InExited, InRespawn True True ''A''])"
  using iap2_close_is_final [of "[False]" "iap2_ensure_session True True ''A'' new_iap2"
    "[InRetry True True ''A'', InExited, InRespawn True True ''A'']"] by simp

end
