(* ===== verification/BtHid.thy ===== *)
theory BtHid
  imports BtIap2
begin

text \<open>
  The volume keys over Bluetooth LE (\<open>daemon/bluetooth/hid_volume.go\<close>): the characteristics
  the phone reads and subscribes to, the reconciler that registers the service and its
  advertisement with BlueZ, the watchdog that reports a phone that never subscribes, and
  the worker that turns volume steps into key reports.

  BlueZ answers each call through \<open>reply\<close>; \<open>hid_effects\<close> lists the calls, reports and
  goroutines in order. The two channels are a flag (\<open>pokeCh\<close>, capacity one) and a queue
  (\<open>sendCh\<close>, capacity eight).
\<close>

subsection \<open>Constants and characteristics\<close>

definition hid_bit_volume_down :: byte where "hid_bit_volume_down = 1"
definition hid_bit_volume_up :: byte where "hid_bit_volume_up = 2"
definition hid_max_steps_per_send :: nat where "hid_max_steps_per_send = 16"
definition hid_watchdog_cooldown :: duration where "hid_watchdog_cooldown = minutes 10"
definition hid_send_capacity :: nat where "hid_send_capacity = 8"

lemmas hid_consts = hid_bit_volume_down_def hid_bit_volume_up_def hid_max_steps_per_send_def
  hid_watchdog_cooldown_def hid_send_capacity_def

definition uuid_tail :: string where "uuid_tail = ''-0000-1000-8000-00805f9b34fb''"

definition short_uuid :: "string \<Rightarrow> string" where
  "short_uuid u =
     (if length u = 36 \<and> has_suffix u uuid_tail then trim_prefix (take 8 u) ''0000'' else u)"

record gatt_char =
  gc_uuid :: string
  gc_value :: "byte list"
  gc_notifying :: bool

definition gatt_read :: "gatt_char \<Rightarrow> byte list" where
  "gatt_read c = gc_value c"

definition gatt_write :: "byte list \<Rightarrow> gatt_char \<Rightarrow> gatt_char" where
  "gatt_write v c = c\<lparr>gc_value := v\<rparr>"

text \<open>\<open>gattProps\<close>: the properties of one interface, read only.\<close>

definition gatt_props_get_all :: "string \<Rightarrow> (string \<Rightarrow> 'v option) \<Rightarrow> string \<Rightarrow> (string \<Rightarrow> 'v option) outcome" where
  "gatt_props_get_all mine props iface = (if iface \<noteq> mine then Fail ''unknown interface'' else Return props)"

definition gatt_props_get :: "string \<Rightarrow> (string \<Rightarrow> 'v option) \<Rightarrow> string \<Rightarrow> string \<Rightarrow> 'v outcome" where
  "gatt_props_get mine props iface name =
     bind_outcome (gatt_props_get_all mine props iface)
       (\<lambda>all. case all name of None \<Rightarrow> Fail ''unknown property'' | Some v \<Rightarrow> Return v)"

definition gatt_props_set :: "string \<Rightarrow> string \<Rightarrow> 'v \<Rightarrow> unit outcome" where
  "gatt_props_set iface name v = Fail ''read-only''"

subsection \<open>State\<close>

datatype bluez_reply = ReplyOk | ReplyErr string

datatype hid_effect =
    RegisterApp
  | RegisterAdv
  | UnregisterAdv
  | UnregisterApp
  | Notify "byte list"
  | GoAdvUp
  | GoWatchdog string

record hid =
  app_registered :: bool
  adv_registered :: bool
  hid_closed :: bool
  adv_failures :: nat
  sub_dead :: bool
  char_read :: "string set"
  sent_reports :: nat
  has_on_adv_up :: bool
  watchdog_at :: "string \<Rightarrow> instant option"
  hid_input :: gatt_char
  poked :: bool
  send_queue :: "int list"
  hid_stopped :: bool
  hid_effects :: "hid_effect list"

definition new_hid :: hid where
  "new_hid = \<lparr>app_registered = False, adv_registered = False, hid_closed = False, adv_failures = 0,
     sub_dead = False, char_read = {}, sent_reports = 0, has_on_adv_up = False,
     watchdog_at = Map.empty,
     hid_input = \<lparr>gc_uuid = ''00002a4d'' @ uuid_tail, gc_value = [0], gc_notifying = False\<rparr>,
     poked = False, send_queue = [], hid_stopped = False, hid_effects = []\<rparr>"

definition hid_effect :: "hid_effect \<Rightarrow> hid \<Rightarrow> hid" where
  "hid_effect e h = h\<lparr>hid_effects := hid_effects h @ [e]\<rparr>"

definition hid_call :: "(hid_effect \<Rightarrow> bluez_reply) \<Rightarrow> hid_effect \<Rightarrow> hid \<Rightarrow> bluez_reply \<times> hid" where
  "hid_call reply e h = (reply e, hid_effect e h)"

text \<open>A reply that does not count as a failure: success, or the named BlueZ error.\<close>

definition is_bluez_err :: "bluez_reply \<Rightarrow> string \<Rightarrow> bool" where
  "is_bluez_err r name \<longleftrightarrow> r = ReplyErr (''org.bluez.Error.'' @ name)"

definition tolerated :: "bluez_reply \<Rightarrow> string \<Rightarrow> bool" where
  "tolerated r name \<longleftrightarrow> r = ReplyOk \<or> is_bluez_err r name"

subsection \<open>Registration\<close>

definition poke :: "hid \<Rightarrow> hid" where
  "poke h = h\<lparr>poked := True\<rparr>"

definition hid_start :: "hid \<Rightarrow> hid" where
  "hid_start h = poke (h\<lparr>has_on_adv_up := True\<rparr>)"

definition adv_wanted :: "hid \<Rightarrow> bool" where
  "adv_wanted h \<longleftrightarrow> \<not> hid_closed h"

definition reconcile_adv :: "(hid_effect \<Rightarrow> bluez_reply) \<Rightarrow> hid \<Rightarrow> bool \<times> hid" where
  "reconcile_adv reply h =
     (if adv_wanted h \<and> \<not> adv_registered h then
        (let (r, h1) = hid_call reply RegisterAdv h
         in if \<not> tolerated r ''AlreadyExists'' then (False, h1\<lparr>adv_failures := adv_failures h1 + 1\<rparr>)
            else let h2 = h1\<lparr>adv_failures := 0, adv_registered := True\<rparr>
                 in (True, if has_on_adv_up h2 then hid_effect GoAdvUp h2 else h2))
      else if \<not> adv_wanted h \<and> adv_registered h then
        (let (r, h1) = hid_call reply UnregisterAdv h
         in if \<not> tolerated r ''DoesNotExist'' then (False, h1)
            else (True, h1\<lparr>adv_registered := False\<rparr>))
      else (True, h))"

definition reconcile :: "(hid_effect \<Rightarrow> bluez_reply) \<Rightarrow> hid \<Rightarrow> bool \<times> hid" where
  "reconcile reply h =
     (if hid_closed h then (True, h)
      else if app_registered h then reconcile_adv reply h
      else let (r, h1) = hid_call reply RegisterApp h
           in if \<not> tolerated r ''AlreadyExists'' then (False, h1)
              else reconcile_adv reply (h1\<lparr>app_registered := True\<rparr>))"

text \<open>The reconciler after a poke: attempts until one settles; the list holds BlueZ's answers at
  each attempt and ends where the daemon stops.\<close>

fun reconciler :: "(hid_effect \<Rightarrow> bluez_reply) list \<Rightarrow> hid \<Rightarrow> bool \<times> hid" where
  "reconciler [] h = (False, h)"
| "reconciler (reply # rs) h =
     (let (settled, h1) = reconcile reply (h\<lparr>poked := False\<rparr>)
      in if settled then (True, h1) else reconciler rs h1)"

text \<open>\<open>forceAdvRefresh\<close>: the part before the pause, and whether it pauses; then the poke, unless
  the daemon stopped meanwhile.\<close>

definition force_adv_refresh :: "(hid_effect \<Rightarrow> bluez_reply) \<Rightarrow> hid \<Rightarrow> bool \<times> hid" where
  "force_adv_refresh reply h =
     (if hid_closed h then (False, h)
      else if \<not> adv_registered h then (False, poke h)
      else let (r, h1) = hid_call reply UnregisterAdv h
           in if \<not> tolerated r ''DoesNotExist'' then (False, h1)
              else (True, h1\<lparr>adv_registered := False\<rparr>))"

definition adv_refresh_done :: "hid \<Rightarrow> hid" where
  "adv_refresh_done h = (if hid_stopped h then h else poke h)"

definition adv_state :: "bool \<Rightarrow> hid \<Rightarrow> string" where
  "adv_state le_link h =
     (if \<not> app_registered h then ''gatt service not registered''
      else if \<not> adv_registered h then ''advertisement pending (bluez retry)''
      else if le_link then ''registered, not radiating (phone holds the LE link)''
      else ''advertising'')"

definition hid_close :: "hid \<Rightarrow> hid" where
  "hid_close h =
     (let h1 = h\<lparr>hid_stopped := True, hid_closed := True, adv_registered := False, app_registered := False\<rparr>;
          h2 = (if adv_registered h then hid_effect UnregisterAdv h1 else h1)
      in if app_registered h then hid_effect UnregisterApp h2 else h2)"

subsection \<open>Subscription and its watchdog\<close>

definition set_sub_dead :: "bool \<Rightarrow> hid \<Rightarrow> hid" where
  "set_sub_dead dead h = (if \<not> hid_closed h \<and> sub_dead h \<noteq> dead then h\<lparr>sub_dead := dead\<rparr> else h)"

definition start_notify :: "hid \<Rightarrow> hid" where
  "start_notify h = set_sub_dead False (h\<lparr>hid_input := (hid_input h)\<lparr>gc_notifying := True\<rparr>\<rparr>)"

definition stop_notify :: "hid \<Rightarrow> hid" where
  "stop_notify h =
     (let h1 = h\<lparr>hid_input := (hid_input h)\<lparr>gc_notifying := False\<rparr>\<rparr>
      in if has_on_adv_up h1 then hid_effect GoAdvUp h1 else h1)"

definition mark_read :: "string \<Rightarrow> hid \<Rightarrow> hid" where
  "mark_read uuid h = h\<lparr>char_read := insert (short_uuid uuid) (char_read h)\<rparr>"

definition read_summary :: "hid \<Rightarrow> string" where
  "read_summary h =
     (let yn = (\<lambda>b. if b then ''y'' else ''n'');
          one = (\<lambda>u. u @ ''='' @ yn (u \<in> char_read h))
      in ''hid attach since start: '' @ one ''2a50'' @ '' '' @ one ''2a4a'' @ '' '' @ one ''2a4b'' @ '' ''
         @ one ''2908'' @ '' notify='' @ yn (gc_notifying (hid_input h)))"

definition watchdog_claim :: "hid \<Rightarrow> string \<Rightarrow> instant \<Rightarrow> bool \<times> hid" where
  "watchdog_claim h addr now =
     (if (case watchdog_at h addr of Some t \<Rightarrow> time_sub now t < hid_watchdog_cooldown | None \<Rightarrow> False)
      then (False, h)
      else (True, h\<lparr>watchdog_at := (watchdog_at h)(addr \<mapsto> now)\<rparr>))"

definition arm_subscribe_watchdog :: "string \<Rightarrow> hid \<Rightarrow> hid" where
  "arm_subscribe_watchdog addr h = hid_effect (GoWatchdog addr) (set_sub_dead False h)"

text \<open>The watchdog's goroutine once its delay has passed.\<close>

definition watchdog_fires :: "instant \<Rightarrow> string \<Rightarrow> bool \<Rightarrow> hid \<Rightarrow> hid" where
  "watchdog_fires now addr connected h =
     (let ready = (\<not> hid_closed h \<and> adv_wanted h)
      in if \<not> ready \<or> gc_notifying (hid_input h) \<or> \<not> connected then h
         else let (granted, h1) = watchdog_claim h addr now
              in if \<not> granted then h1 else set_sub_dead True h1)"

definition clear_watchdog :: "string \<Rightarrow> hid \<Rightarrow> hid" where
  "clear_watchdog addr h = set_sub_dead False (h\<lparr>watchdog_at := (watchdog_at h)(addr := None)\<rparr>)"

interpretation watchdog: cooldown watchdog_claim watchdog_at hid_watchdog_cooldown
proof unfold_locales
  fix h :: hid and k t
  show "fst (watchdog_claim h k t) \<longleftrightarrow> (\<forall>u. watchdog_at h k = Some u \<longrightarrow> hid_watchdog_cooldown \<le> t - u)"
    by (auto simp: watchdog_claim_def hid_consts go_time split: option.splits)
  show "watchdog_at (snd (watchdog_claim h k t)) =
      (if fst (watchdog_claim h k t) then (watchdog_at h)(k \<mapsto> t) else watchdog_at h)"
    by (simp add: watchdog_claim_def)
qed

subsection \<open>Volume reports\<close>

definition note_sent :: "hid \<Rightarrow> (nat \<times> bool) \<times> hid" where
  "note_sent h =
     (let n = sent_reports h + 1 in ((n, n = 1 \<or> n mod 50 = 0), h\<lparr>sent_reports := n\<rparr>))"

definition hid_available :: "hid \<Rightarrow> bool" where
  "hid_available h \<longleftrightarrow> app_registered h \<and> gc_notifying (hid_input h)"

definition send_steps :: "int \<Rightarrow> hid \<Rightarrow> bool \<times> hid" where
  "send_steps steps h =
     (if steps = 0 \<or> \<not> hid_available h then (False, h)
      else if length (send_queue h) < hid_send_capacity
      then (True, h\<lparr>send_queue := send_queue h @ [steps]\<rparr>)
      else (True, h))"

text \<open>The value is stored before it is emitted; \<open>ok n\<close> says whether the emission succeeds that
  comes after \<open>n\<close> effects.\<close>

definition notify_value :: "(nat \<Rightarrow> bool) \<Rightarrow> byte list \<Rightarrow> hid \<Rightarrow> bool \<times> hid" where
  "notify_value ok b h =
     (ok (length (hid_effects h)), hid_effect (Notify b) (h\<lparr>hid_input := (hid_input h)\<lparr>gc_value := b\<rparr>\<rparr>))"

fun send_presses :: "(nat \<Rightarrow> bool) \<Rightarrow> byte \<Rightarrow> nat \<Rightarrow> hid \<Rightarrow> hid" where
  "send_presses ok key 0 h = h"
| "send_presses ok key (Suc n) h =
     (let (pressed, h1) = notify_value ok [key] h
      in if \<not> pressed then h1
         else let (released, h2) = notify_value ok [0] h1
              in if \<not> released then h2
                 else send_presses ok key n (snd (note_sent h2)))"

text \<open>Go's unary minus on an \<open>int\<close> of 64 bits.\<close>

definition neg64 :: "int \<Rightarrow> int" where
  "neg64 n = (if n = - (2 ^ 63) then n else - n)"

definition send_burst :: "(nat \<Rightarrow> bool) \<Rightarrow> int \<Rightarrow> hid \<Rightarrow> hid" where
  "send_burst ok steps h =
     (let key = (if steps < 0 then hid_bit_volume_down else hid_bit_volume_up);
          n = (if steps < 0 then neg64 steps else steps);
          capped = (if n > int hid_max_steps_per_send then int hid_max_steps_per_send else n)
      in send_presses ok key (nat capped) h)"

definition send_worker_round :: "(nat \<Rightarrow> bool) \<Rightarrow> hid \<Rightarrow> hid" where
  "send_worker_round ok h =
     (case send_queue h of
        [] \<Rightarrow> h
      | steps # q \<Rightarrow> send_burst ok steps (h\<lparr>send_queue := q\<rparr>))"

text \<open>\<open>SendPhoneVolumeSteps\<close> of the manager: the iAP2 session when it is up, else the keys; a
  manager without the volume service has no \<open>hid\<close>.\<close>

definition send_hid_volume_steps :: "int \<Rightarrow> hid option \<Rightarrow> bool \<times> hid option" where
  "send_hid_volume_steps steps oh =
     (case oh of None \<Rightarrow> (False, None) | Some h \<Rightarrow> map_prod id Some (send_steps steps h))"

definition send_phone_volume_steps ::
  "bool \<Rightarrow> int \<Rightarrow> iap2 option \<Rightarrow> hid option \<Rightarrow> bool \<times> iap2 option \<times> hid option" where
  "send_phone_volume_steps write steps ov oh =
     (let (sent, ov1) = (case ov of None \<Rightarrow> (False, None) | Some v \<Rightarrow> map_prod id Some (iap2_send_volume write steps v))
      in if sent then (True, ov1, oh)
         else let (sent', oh1) = send_hid_volume_steps steps oh in (sent', ov1, oh1))"

definition hid_volume_status :: "hid option \<Rightarrow> bool \<times> bool \<times> bool" where
  "hid_volume_status oh =
     (case oh of None \<Rightarrow> (False, False, False)
      | Some h \<Rightarrow> (app_registered h \<and> adv_registered h, gc_notifying (hid_input h), sub_dead h))"

subsection \<open>Lemmas\<close>

lemma hid_effect_simps [simp]:
  "hid_effects (hid_effect e h) = hid_effects h @ [e]"
  "hid_closed (hid_effect e h) = hid_closed h"
  "sent_reports (hid_effect e h) = sent_reports h"
  "watchdog_at (hid_effect e h) = watchdog_at h"
  "sub_dead (hid_effect e h) = sub_dead h"
  "adv_registered (hid_effect e h) = adv_registered h"
  "app_registered (hid_effect e h) = app_registered h"
  "hid_input (hid_effect e h) = hid_input h"
  by (simp_all add: hid_effect_def)

lemma send_presses_all:
  assumes "\<And>n. ok n"
  shows "hid_effects (send_presses ok key n h) = hid_effects h @ concat (replicate n [Notify [key], Notify [0]])
    \<and> sent_reports (send_presses ok key n h) = sent_reports h + n
    \<and> gc_value (hid_input (send_presses ok key n h)) = (if n = 0 then gc_value (hid_input h) else [0])"
proof (induction n arbitrary: h)
  case (Suc n)
  let ?h3 = "snd (note_sent (snd (notify_value ok [0] (snd (notify_value ok [key] h)))))"
  have "send_presses ok key (Suc n) h = send_presses ok key n ?h3"
    using assms by (simp add: notify_value_def)
  moreover have "hid_effects ?h3 = hid_effects h @ [Notify [key], Notify [0]]"
    "sent_reports ?h3 = Suc (sent_reports h)" "gc_value (hid_input ?h3) = [0]"
    by (simp_all add: notify_value_def note_sent_def Let_def hid_effect_def)
  ultimately show ?case using Suc.IH [of ?h3] by simp
qed simp

text \<open>Whatever fails, what was emitted is a prefix of the full sequence, and a key is counted
  only when it was released.\<close>

lemma send_presses_prefix:
  "\<exists>k. k \<le> 2 * n \<and> hid_effects (send_presses ok key n h) =
      hid_effects h @ take k (concat (replicate n [Notify [key], Notify [0]]))
    \<and> sent_reports (send_presses ok key n h) \<le> sent_reports h + k div 2"
proof (induction n arbitrary: h)
  case (Suc n)
  let ?h1 = "snd (notify_value ok [key] h)"
  let ?h2 = "snd (notify_value ok [0] ?h1)"
  let ?h3 = "snd (note_sent ?h2)"
  consider "\<not> fst (notify_value ok [key] h)"
    | "fst (notify_value ok [key] h)" "\<not> fst (notify_value ok [0] ?h1)"
    | "fst (notify_value ok [key] h)" "fst (notify_value ok [0] ?h1)" by blast
  then show ?case
  proof cases
    case 1
    then have "send_presses ok key (Suc n) h = ?h1" by (simp add: split_beta Let_def)
    then show ?thesis by (intro exI [of _ 1]) (simp add: notify_value_def)
  next
    case 2
    then have "send_presses ok key (Suc n) h = ?h2" by (simp add: split_beta Let_def)
    then show ?thesis by (intro exI [of _ 2]) (simp add: notify_value_def numeral_2_eq_2)
  next
    case 3
    then have "send_presses ok key (Suc n) h = send_presses ok key n ?h3" by (simp add: split_beta Let_def)
    moreover obtain k where "k \<le> 2 * n" "hid_effects (send_presses ok key n ?h3) =
      hid_effects ?h3 @ take k (concat (replicate n [Notify [key], Notify [0]]))"
      "sent_reports (send_presses ok key n ?h3) \<le> sent_reports ?h3 + k div 2"
      using Suc.IH [of ?h3] by blast
    ultimately show ?thesis
      by (intro exI [of _ "Suc (Suc k)"]) (simp add: notify_value_def note_sent_def Let_def)
  qed
qed simp

lemma set_sub_dead_frame [simp]:
  "hid_closed (set_sub_dead b h) = hid_closed h"
  "watchdog_at (set_sub_dead b h) = watchdog_at h"
  "hid_effects (set_sub_dead b h) = hid_effects h"
  by (simp_all add: set_sub_dead_def)

text \<open>The reports of the watchdog: the instants at which it declares a phone's keys dead.\<close>

fun watchdog_reports :: "hid \<Rightarrow> string \<Rightarrow> (string \<times> instant) list \<Rightarrow> instant list" where
  "watchdog_reports h a [] = []"
| "watchdog_reports h a ((b, t) # fs) =
     (if b = a \<and> fst (watchdog_claim h b t) then [t] else [])
       @ watchdog_reports (watchdog_fires t b True h) a fs"

lemma watchdog_reports_grants:
  "\<not> hid_closed h \<Longrightarrow> \<not> gc_notifying (hid_input h) \<Longrightarrow> watchdog_at g = watchdog_at h \<Longrightarrow>
    watchdog_reports h a fs = watchdog.grants g a fs"
proof (induction fs arbitrary: g h)
  case (Cons f fs)
  obtain b t where f: "f = (b, t)" by force
  have eq: "fst (watchdog_claim h b t) = fst (watchdog_claim g b t)"
    by (simp add: watchdog.claim_granted Cons.prems(3))
  have "watchdog_at (snd (watchdog_claim g b t)) = watchdog_at (watchdog_fires t b True h)"
    using Cons.prems eq
    by (simp add: watchdog_fires_def adv_wanted_def split_beta Let_def watchdog.claim_stamp)
  moreover have "\<not> hid_closed (watchdog_fires t b True h)" "\<not> gc_notifying (hid_input (watchdog_fires t b True h))"
    using Cons.prems
    by (simp_all add: watchdog_fires_def watchdog_claim_def set_sub_dead_def Let_def)
  ultimately have "watchdog_reports (watchdog_fires t b True h) a fs = watchdog.grants (snd (watchdog_claim g b t)) a fs"
    by (intro Cons.IH)
  then show ?case using f eq by simp
qed simp

subsection \<open>Properties\<close>

text \<open>a burst of volume steps becomes at most sixteen complete key presses in the right
  direction: while BlueZ takes the reports, exactly \<open>min |steps| 16\<close> pairs of a press (bit 0
  for down, bit 1 for up) and a release, so the key is never left held; and whatever fails,
  nothing but a prefix of that sequence is emitted.\<close>

theorem volume_burst_reports:
  assumes "- (2 ^ 63) < steps"
  defines "n \<equiv> min (nat \<bar>steps\<bar>) 16"
    and "full \<equiv> concat (replicate (min (nat \<bar>steps\<bar>) 16) [Notify [if steps < 0 then 1 else 2], Notify [0]])"
  shows "((\<forall>k. ok k) \<longrightarrow> hid_effects (send_burst ok steps h) = hid_effects h @ full
        \<and> sent_reports (send_burst ok steps h) = sent_reports h + n)
    \<and> has_prefix (hid_effects h @ full) (hid_effects (send_burst ok steps h))"
proof -
  have b: "send_burst ok steps h = send_presses ok (if steps < 0 then 1 else 2) n h"
    using assms(1) by (auto simp: send_burst_def Let_def n_def hid_consts neg64_def min_def nat_le_iff)
  have fl: "full = concat (replicate n [Notify [if steps < 0 then 1 else 2], Notify [0]])"
    by (simp add: full_def n_def)
  obtain k where "hid_effects (send_burst ok steps h) = hid_effects h @ take k full"
    using send_presses_prefix [of n ok "if steps < 0 then 1 else 2" h] b fl by metis
  then have "has_prefix (hid_effects h @ full) (hid_effects (send_burst ok steps h))"
    by (metis append_assoc append_take_drop_id has_prefix_append)
  with send_presses_all [of ok "if steps < 0 then 1 else 2" n h] show ?thesis
    by (auto simp: b fl)
qed

theorem volume_burst_reports_witness:
  "hid_effects (send_burst (\<lambda>_. True) (-2) new_hid) = [Notify [1], Notify [0], Notify [1], Notify [0]]"
  using volume_burst_reports [of "-2" "\<lambda>_. True" new_hid] by (simp add: new_hid_def numeral_2_eq_2)

text \<open>the watchdog declares the keys of one phone dead at most once in ten minutes, however
  often it is armed and for however many phones.\<close>

theorem watchdog_rate_limited:
  assumes "\<not> hid_closed h" and "\<not> gc_notifying (hid_input h)"
  shows "sorted_wrt (\<lambda>t u. t + minutes 10 \<le> u) (watchdog_reports h a fs)"
  using watchdog.grants_spaced [of h a fs] watchdog_reports_grants [OF assms refl]
  by (simp add: hid_consts)

theorem watchdog_rate_limited_witness:
  "sorted_wrt (\<lambda>t u. t + minutes 10 \<le> u)
     (watchdog_reports new_hid ''A'' [(''A'', 0), (''A'', minutes 4), (''A'', minutes 11)])"
  by (rule watchdog_rate_limited) (simp_all add: new_hid_def)

text \<open>closing the volume service withdraws what was registered and is final: no later
  reconciliation or refresh of the advertisement calls BlueZ again or marks anything as
  registered, and the keys stay unavailable.\<close>

theorem hid_close_is_final:
  "hid_effects (hid_close h) = hid_effects h @ (if adv_registered h then [UnregisterAdv] else [])
      @ (if app_registered h then [UnregisterApp] else [])
    \<and> reconcile reply (hid_close h) = (True, hid_close h)
    \<and> force_adv_refresh reply (hid_close h) = (False, hid_close h)
    \<and> \<not> hid_available (hid_close h)
    \<and> send_steps steps (hid_close h) = (False, hid_close h)
    \<and> adv_state le (hid_close h) = ''gatt service not registered''"
  by (simp add: hid_close_def reconcile_def force_adv_refresh_def hid_available_def send_steps_def
      adv_state_def hid_effect_def Let_def)

end
