(* ===== verification/PiProfiles.thy ===== *)
theory PiProfiles
  imports Interfaces
begin

text \<open>
  The stored Raspberry Pi profiles (\<open>daemon/pi_profiles.go\<close>) and the device's ssh keys
  (\<open>daemon/sshkey.go\<close>): reading the profiles from the settings, where the key of a profile
  lives, making sure it exists, and running a command with the key first.

  A settings blob is what \<open>json.Unmarshal\<close> makes of it: \<open>None\<close> for an empty or malformed
  one. Files are a partial function from paths to contents. Texts are ASCII where white
  space matters.
\<close>

subsection \<open>Profiles\<close>

record pi_profile =
  pp_id :: string
  pp_label :: string
  pp_ip :: string
  pp_user :: string
  pp_password :: string
  pp_key_installed :: bool

text \<open>The field \<open>piProfiles\<close>: absent, present but not a list of profiles, or a list (\<open>null\<close> is
  the empty one).\<close>

datatype raw_profiles = NoProfiles | BadProfiles | SomeProfiles "pi_profile list"

record settings =
  st_profiles :: raw_profiles
  st_server :: "(string \<times> string) option"
  st_active :: string

definition legacy_pi_profile_id :: string where "legacy_pi_profile_id = ''legacy''"
definition max_profile_id_len :: nat where "max_profile_id_len = 64"

definition trim_profile :: "pi_profile \<Rightarrow> pi_profile" where
  "trim_profile p = p\<lparr>pp_id := trim_space (pp_id p), pp_ip := trim_space (pp_ip p), pp_user := trim_space (pp_user p)\<rparr>"

definition parse_pi_profiles :: "settings option \<Rightarrow> pi_profile list" where
  "parse_pi_profiles blob =
     (case blob of
        None \<Rightarrow> []
      | Some s \<Rightarrow>
         (case st_profiles s of
            BadProfiles \<Rightarrow> []
          | SomeProfiles ps \<Rightarrow> map trim_profile ps
          | NoProfiles \<Rightarrow>
             (case st_server s of
                None \<Rightarrow> []
              | Some (ip0, user0) \<Rightarrow>
                  let ip = trim_space ip0; user = trim_space user0
                  in if ip \<noteq> [] \<and> user \<noteq> []
                     then [\<lparr>pp_id = legacy_pi_profile_id, pp_label = legacy_pi_profile_id, pp_ip = ip,
                            pp_user = user, pp_password = [], pp_key_installed = False\<rparr>]
                     else [])))"

definition find_profile :: "string \<Rightarrow> pi_profile list \<Rightarrow> pi_profile option" where
  "find_profile i ps = find (\<lambda>p. pp_id p = i) ps"

definition resolve_active_profile :: "settings option \<Rightarrow> pi_profile option" where
  "resolve_active_profile blob =
     (case parse_pi_profiles blob of
        [] \<Rightarrow> None
      | p # ps \<Rightarrow>
          let active = (case blob of Some s \<Rightarrow> st_active s | None \<Rightarrow> [])
          in if active = [] then Some p
             else case find_profile active (p # ps) of Some q \<Rightarrow> Some q | None \<Rightarrow> Some p)"

definition bad_id_chars :: "char list" where
  "bad_id_chars = [CHR 0x22, CHR 0x24, CHR 0x60, CHR 0x0A, CHR 0x0D, CHR 0x09, CHR 0x20, CHR 0x5C, CHR 0x2F]"

definition sanitize_profile_id :: "string \<Rightarrow> string outcome" where
  "sanitize_profile_id i0 =
     (let i = trim_space i0
      in if i = [] then Fail ''profile id is empty''
         else if length i > max_profile_id_len then Fail ''profile id too long''
         else if list_ex (\<lambda>c. str_contains i [c]) bad_id_chars then Fail ''unsupported character''
         else if str_contains i ''..'' \<or> has_prefix i ''.'' then Fail ''not a safe file name''
         else Return i)"

subsection \<open>Key files\<close>

definition default_ssh_key_path :: string where "default_ssh_key_path = ''/etc/mira/ssh/id_ed25519''"

text \<open>The environment variable's value, empty when unset.\<close>

definition key_path :: "string \<Rightarrow> string" where
  "key_path env = (if env \<noteq> [] then env else default_ssh_key_path)"

text \<open>\<open>filepath.Dir\<close> of a clean path, and \<open>filepath.Join\<close> of it with a name.\<close>

definition path_dir :: "string \<Rightarrow> string" where
  "path_dir p =
     (if CHR ''/'' \<notin> set p then ''.''
      else let d = rev (tl (dropWhile (\<lambda>c. c \<noteq> CHR ''/'') (rev p))) in if d = [] then ''/'' else d)"

definition path_join :: "string \<Rightarrow> string \<Rightarrow> string" where
  "path_join d name = (if d = ''.'' then name else if d = ''/'' then CHR ''/'' # name else d @ ''/'' @ name)"

definition key_path_for_profile :: "string \<Rightarrow> string \<Rightarrow> string outcome" where
  "key_path_for_profile env i0 =
     bind_outcome (sanitize_profile_id i0)
       (\<lambda>i. if i = legacy_pi_profile_id then Return (key_path env)
            else Return (path_join (path_dir (key_path env)) (i @ ''_ed25519'')))"

type_synonym files = "string \<Rightarrow> string option"

definition pub_path :: "string \<Rightarrow> string" where
  "pub_path path = path @ ''.pub''"

text \<open>What \<open>ssh-keygen\<close> and the file system answer: whether the directory can be made, the
  new pair, the public key derived from a private one, whether it can be written.\<close>

record key_env =
  ke_mkdir :: bool
  ke_keygen :: "(string \<times> string) option"
  ke_derive :: "string \<Rightarrow> string option"
  ke_write :: bool

definition derive_public_key :: "key_env \<Rightarrow> string \<Rightarrow> files \<Rightarrow> unit outcome \<times> files" where
  "derive_public_key env path fs =
     (case fs path of
        None \<Rightarrow> (Fail ''deriving public key'', fs)
      | Some priv \<Rightarrow>
         (case ke_derive env priv of
            None \<Rightarrow> (Fail ''deriving public key'', fs)
          | Some pub \<Rightarrow> if ke_write env then (Return (), fs(pub_path path \<mapsto> pub))
                        else (Fail ''writing public key'', fs)))"

definition ensure_key_at :: "key_env \<Rightarrow> string \<Rightarrow> files \<Rightarrow> unit outcome \<times> files" where
  "ensure_key_at env path fs =
     (if fs path \<noteq> None \<and> fs (pub_path path) \<noteq> None then (Return (), fs)
      else if fs path \<noteq> None then derive_public_key env path fs
      else if \<not> ke_mkdir env then (Fail ''creating key directory'', fs)
      else
        let fs1 = fs(pub_path path := None)
        in case ke_keygen env of
             None \<Rightarrow> (Fail ''ssh-keygen failed'', fs1)
           | Some (priv, pub) \<Rightarrow> (Return (), fs1(path \<mapsto> priv, pub_path path \<mapsto> pub)))"

definition ensure_key_for_profile :: "string \<Rightarrow> key_env \<Rightarrow> string \<Rightarrow> files \<Rightarrow> unit outcome \<times> files" where
  "ensure_key_for_profile var env i fs =
     (case key_path_for_profile var i of
        Return path \<Rightarrow> ensure_key_at env path fs
      | Fail e \<Rightarrow> (Fail e, fs)
      | Panic e \<Rightarrow> (Panic e, fs))"

definition read_public_key :: "string \<Rightarrow> files \<Rightarrow> string option" where
  "read_public_key path fs = map_option trim_space (fs (pub_path path))"

subsection \<open>Commands on the Pi\<close>

text \<open>How an ssh run ends: well, with the exit code of ssh, or not started at all.\<close>

datatype ssh_result = SshOk string | SshExit int string | SshNotRun

definition ssh_transport_error :: "ssh_result \<Rightarrow> bool" where
  "ssh_transport_error r = (case r of SshOk _ \<Rightarrow> False | SshExit c _ \<Rightarrow> c = 255 | SshNotRun \<Rightarrow> True)"

fun ssh_output :: "ssh_result \<Rightarrow> string" where
  "ssh_output (SshOk s) = s"
| "ssh_output (SshExit _ s) = s"
| "ssh_output SshNotRun = []"

datatype ssh_attempt = KeyAttempt | PasswordAttempt

record key_first_result =
  kf_used_key :: bool
  kf_output :: string
  kf_ok :: bool
  kf_attempts :: "ssh_attempt list"

definition run_key_first :: "ssh_result \<Rightarrow> ssh_result \<Rightarrow> key_first_result" where
  "run_key_first key pass =
     (case key of
        SshOk s \<Rightarrow> \<lparr>kf_used_key = True, kf_output = s, kf_ok = True, kf_attempts = [KeyAttempt]\<rparr>
      | _ \<Rightarrow>
          if \<not> ssh_transport_error key
          then \<lparr>kf_used_key = False, kf_output = ssh_output key, kf_ok = False, kf_attempts = [KeyAttempt]\<rparr>
          else \<lparr>kf_used_key = False, kf_output = ssh_output pass,
                kf_ok = (case pass of SshOk _ \<Rightarrow> True | _ \<Rightarrow> False),
                kf_attempts = [KeyAttempt, PasswordAttempt]\<rparr>)"

definition bad_key_chars :: "char list" where
  "bad_key_chars = [CHR 0x22, CHR 0x24, CHR 0x60, CHR 0x0A]"

definition safe_public_key_for_script :: "string \<Rightarrow> unit outcome" where
  "safe_public_key_for_script key =
     (if list_ex (\<lambda>c. str_contains key [c]) bad_key_chars then Fail ''unsupported character''
      else if trim_space key = [] then Fail ''public key is empty''
      else Return ())"

definition pubkey_mark :: string where "pubkey_mark = ''__MIRA_PUBKEY__''"

text \<open>\<open>installKeyCommand\<close> and \<open>removeKeyCommand\<close>, for their script templates.\<close>

definition key_command :: "string \<Rightarrow> string \<Rightarrow> string outcome" where
  "key_command template key =
     bind_outcome (safe_public_key_for_script key) (\<lambda>_. Return (replace_first pubkey_mark key template))"

definition quoted_line :: string where
  "quoted_line = ''LINE='' @ [CHR 0x22] @ pubkey_mark @ [CHR 0x22]"

subsection \<open>Lemmas\<close>

lemma sanitize_Return:
  "sanitize_profile_id i0 = Return i \<longleftrightarrow>
    i = trim_space i0 \<and> i \<noteq> [] \<and> length i \<le> 64 \<and> set i \<inter> set bad_id_chars = {}
    \<and> \<not> str_contains i ''..'' \<and> \<not> has_prefix i ''.''"
  by (auto simp: sanitize_profile_id_def Let_def max_profile_id_len_def list_ex_iff str_contains_char)

lemma path_dir_default [simp]: "path_dir ''/etc/mira/ssh/id_ed25519'' = ''/etc/mira/ssh''"
  by (simp add: path_dir_def)

lemma key_path_default [simp]: "key_path [] = ''/etc/mira/ssh/id_ed25519''"
  by (simp add: key_path_def default_ssh_key_path_def)

lemma key_path_for_profile_default:
  "key_path_for_profile [] i0 = Return p \<longleftrightarrow>
    (\<exists>i. sanitize_profile_id i0 = Return i \<and>
      p = ''/etc/mira/ssh/'' @ (if i = ''legacy'' then ''id'' else i) @ ''_ed25519'')"
  by (cases "sanitize_profile_id i0")
    (auto simp: key_path_for_profile_def legacy_pi_profile_id_def path_join_def)

lemma resolve_active_in: "resolve_active_profile blob = Some p \<Longrightarrow> p \<in> set (parse_pi_profiles blob)"
  by (auto simp: resolve_active_profile_def find_profile_def Let_def find_Some_iff
      split: list.splits option.splits if_splits)

lemma ensure_key_at_complete:
  "fst (ensure_key_at env path fs) = Return () \<Longrightarrow>
    snd (ensure_key_at env path fs) path \<noteq> None \<and> snd (ensure_key_at env path fs) (pub_path path) \<noteq> None"
  by (auto simp: ensure_key_at_def derive_public_key_def pub_path_def Let_def
      split: option.splits if_splits)

lemma ensure_key_at_keeps_private:
  "fs path = Some k \<Longrightarrow> snd (ensure_key_at env path fs) path = Some k"
  by (auto simp: ensure_key_at_def derive_public_key_def pub_path_def Let_def
      split: option.splits if_splits)

lemma ensure_key_at_frame:
  "q \<noteq> path \<Longrightarrow> q \<noteq> pub_path path \<Longrightarrow> snd (ensure_key_at env path fs) q = fs q"
  by (auto simp: ensure_key_at_def derive_public_key_def Let_def split: option.splits if_splits)

subsection \<open>Properties\<close>

text \<open>the key file of a profile stays in the key directory (its name has no separator), and
  different profile ids get different key files, with one exception: a profile named
  \<open>id\<close> gets the file of the legacy profile.\<close>

theorem key_paths_distinct:
  assumes "key_path_for_profile [] a = Return p" and "key_path_for_profile [] b = Return q"
  shows "\<exists>name. p = ''/etc/mira/ssh/'' @ name \<and> CHR ''/'' \<notin> set name \<and> \<not> has_prefix name ''.''
    \<and> (p = q \<longleftrightarrow> trim_space a = trim_space b
        \<or> {trim_space a, trim_space b} = {''legacy'', ''id''})"
proof -
  let ?n = "\<lambda>i :: string. if i = ''legacy'' then ''id'' else i"
  obtain i where i: "sanitize_profile_id a = Return i" "p = ''/etc/mira/ssh/'' @ ?n i @ ''_ed25519''"
    using assms(1) by (auto simp only: key_path_for_profile_default)
  obtain j where j: "sanitize_profile_id b = Return j" "q = ''/etc/mira/ssh/'' @ ?n j @ ''_ed25519''"
    using assms(2) by (auto simp only: key_path_for_profile_default)
  have ij: "i = trim_space a" "j = trim_space b" using i j by (simp_all add: sanitize_Return)
  have safe: "CHR ''/'' \<notin> set i" "i \<noteq> []" "\<not> has_prefix i ''.''"
    using i(1) by (auto simp: sanitize_Return bad_id_chars_def)
  have "p = q \<longleftrightarrow> ?n i = ?n j" using i(2) j(2) by simp
  also have "\<dots> \<longleftrightarrow> i = j \<or> {i, j} = {''legacy'', ''id''}" by auto
  finally have eq: "p = q \<longleftrightarrow> i = j \<or> {i, j} = {''legacy'', ''id''}" .
  have "CHR ''/'' \<notin> set (?n i @ ''_ed25519'')" using safe(1) by auto
  moreover have "\<not> has_prefix (?n i @ ''_ed25519'') ''.''"
    using safe(2,3) by (cases i) (auto simp: has_prefix_def)
  ultimately show ?thesis using i(2) eq ij by (intro exI [of _ "?n i @ ''_ed25519''"]) auto
qed

theorem key_paths_distinct_witness:
  "key_path_for_profile [] ''id'' = key_path_for_profile [] ''legacy''"
proof -
  have "sanitize_profile_id ''id'' = Return ''id''" "sanitize_profile_id ''legacy'' = Return ''legacy''"
    by code_simp+
  then have p: "\<exists>p q. key_path_for_profile [] ''id'' = Return p \<and> key_path_for_profile [] ''legacy'' = Return q"
    by (simp add: key_path_for_profile_default)
  then obtain p q where "key_path_for_profile [] ''id'' = Return p" "key_path_for_profile [] ''legacy'' = Return q"
    by blast
  moreover from key_paths_distinct [OF this]
  have "p = q \<longleftrightarrow> trim_space ''id'' = trim_space ''legacy'' \<or> {trim_space ''id'', trim_space ''legacy''} = {''legacy'', ''id''}"
    by blast
  moreover have "trim_space ''id'' = ''id''" "trim_space ''legacy'' = ''legacy''" by code_simp+
  ultimately show ?thesis by auto
qed

text \<open>making sure of a key is idempotent and never loses a private key: when it succeeds
  both halves of the pair exist, a second run changes nothing, an existing private key is kept
  in every case, and no other file is touched.\<close>

theorem ensure_key_idempotent:
  assumes "ensure_key_at env path fs = (Return (), fs')"
  shows "fs' path \<noteq> None \<and> fs' (pub_path path) \<noteq> None
    \<and> ensure_key_at env' path fs' = (Return (), fs')
    \<and> (\<forall>k. fs path = Some k \<longrightarrow> fs' path = Some k)
    \<and> (\<forall>q. q \<noteq> path \<and> q \<noteq> pub_path path \<longrightarrow> fs' q = fs q)"
proof -
  have "fs' path \<noteq> None \<and> fs' (pub_path path) \<noteq> None"
    using ensure_key_at_complete [of env path fs] assms by simp
  moreover from this have "ensure_key_at env' path fs' = (Return (), fs')"
    by (simp add: ensure_key_at_def)
  ultimately show ?thesis
    using ensure_key_at_keeps_private [of fs path _ env] ensure_key_at_frame [of _ path env fs] assms by auto
qed

theorem ensure_key_idempotent_witness:
  "ensure_key_at \<lparr>ke_mkdir = False, ke_keygen = None, ke_derive = Map.empty, ke_write = False\<rparr> ''k''
     [''k'' \<mapsto> ''priv'', ''k.pub'' \<mapsto> ''pub''] = (Return (), [''k'' \<mapsto> ''priv'', ''k.pub'' \<mapsto> ''pub''])"
proof -
  have "ensure_key_at \<lparr>ke_mkdir = True, ke_keygen = Some (''priv'', ''pub''), ke_derive = Map.empty, ke_write = True\<rparr> ''k''
      Map.empty = (Return (), [''k'' \<mapsto> ''priv'', ''k.pub'' \<mapsto> ''pub''])"
    by (simp add: ensure_key_at_def pub_path_def fun_upd_idem)
  from ensure_key_idempotent [OF this] show ?thesis by blast
qed

text \<open>A key that ends in a backslash passes the check and escapes the quote that ends the line
  of the script.\<close>

lemma key_command_backslash:
  "key_command quoted_line (''k'' @ [CHR 0x5C]) = Return (''LINE='' @ [CHR 0x22] @ ''k'' @ [CHR 0x5C] @ [CHR 0x22])"
  by code_simp

end
