(* ===== verification/Recovery.thy ===== *)
theory Recovery
  imports PiProfiles
begin

text \<open>
  The recovery that reboots the Raspberry Pi once when it is reachable but gives no internet
  (\<open>daemon/recovery.go\<close>), the flag file that survives the daemon's own restart, and the
  deletion of a profile (\<open>daemon/pi_profiles.go\<close>), which ends its episode.

  \<open>rv_flag\<close> is the flag file: what \<open>json.Unmarshal\<close> and \<open>time.Parse\<close> make of it. Times in
  it have the resolution of RFC 3339, a second. \<open>rv_effects\<close> lists the writes of the flag, the
  reboot commands and the tethering runs in order. One daemon lifetime is \<open>boot_check\<close> and
  then \<open>tick_once\<close> at each tick.
\<close>

subsection \<open>Configuration and state\<close>

record recovery_config =
  rc_no_internet_for :: duration
  rc_patience :: duration
  rc_key_env :: string
  rc_has_tethering :: bool

text \<open>The defaults of \<open>NewPiRecovery\<close>, for windows that are not set.\<close>

definition recovery_window_default :: duration where "recovery_window_default = seconds 15"
definition recovery_patience_default :: duration where "recovery_patience_default = minutes 10"

definition recovery_config_of :: "duration \<Rightarrow> duration \<Rightarrow> string \<Rightarrow> bool \<Rightarrow> recovery_config" where
  "recovery_config_of window patience key_env tethering =
     \<lparr>rc_no_internet_for = (if window \<le> 0 then recovery_window_default else window),
      rc_patience = (if patience \<le> 0 then recovery_patience_default else patience),
      rc_key_env = key_env, rc_has_tethering = tethering\<rparr>"

datatype stamp = BlankStamp | BadStamp | Stamp instant

datatype flag_file = FlagAbsent | FlagCorrupt | FlagFile stamp string

datatype recovery_state = Idle | Rebooting | Waiting

datatype recovery_effect = SaveFlag string | Reboot string string string | RunTethering

record recovery =
  rv_state :: recovery_state
  rv_started :: instant
  rv_profile :: string
  rv_issued :: bool
  rv_fired :: bool
  rv_saw_down :: bool
  rv_failed :: bool
  rv_no_net_since :: instant
  rv_flag :: flag_file
  rv_effects :: "recovery_effect list"

definition new_recovery :: "flag_file \<Rightarrow> recovery" where
  "new_recovery f = \<lparr>rv_state = Idle, rv_started = 0, rv_profile = [], rv_issued = False, rv_fired = False,
     rv_saw_down = False, rv_failed = False, rv_no_net_since = 0, rv_flag = f, rv_effects = []\<rparr>"

definition rv_effect :: "recovery_effect \<Rightarrow> recovery \<Rightarrow> recovery" where
  "rv_effect e r = r\<lparr>rv_effects := rv_effects r @ [e]\<rparr>"

text \<open>What a tick sees of the world.\<close>

record recovery_env =
  rt_now :: instant
  rt_settings :: "settings option"
  rt_files :: files
  rt_reachable :: bool
  rt_internet :: bool
  rt_save_ok :: bool
  rt_remove_ok :: bool
  rt_reboot_ok :: bool

subsection \<open>The flag file\<close>

datatype loaded_flag = LoadError | NoFlag | Loaded stamp string

definition load_flag :: "flag_file \<Rightarrow> loaded_flag" where
  "load_flag f =
     (case f of
        FlagAbsent \<Rightarrow> NoFlag
      | FlagCorrupt \<Rightarrow> LoadError
      | FlagFile st pid \<Rightarrow> if st = BlankStamp \<or> trim_space pid = [] then NoFlag else Loaded st pid)"

definition to_seconds :: "instant \<Rightarrow> instant" where
  "to_seconds t = seconds (t div 1000000000)"

definition save_flag :: "bool \<Rightarrow> instant \<Rightarrow> string \<Rightarrow> recovery \<Rightarrow> bool \<times> recovery" where
  "save_flag ok now pid r =
     (if ok then (True, rv_effect (SaveFlag pid) (r\<lparr>rv_flag := FlagFile (Stamp (to_seconds now)) pid\<rparr>))
      else (False, r))"

definition clear_flag :: "bool \<Rightarrow> recovery \<Rightarrow> recovery" where
  "clear_flag ok r = (if ok then r\<lparr>rv_flag := FlagAbsent\<rparr> else r)"

definition clear_flag_for_profile :: "bool \<Rightarrow> string \<Rightarrow> recovery \<Rightarrow> recovery" where
  "clear_flag_for_profile ok pid r =
     (case load_flag (rv_flag r) of
        Loaded st fid \<Rightarrow>
          if fid \<noteq> pid then r
          else let r1 = clear_flag ok r
               in if rv_profile r1 = pid then r1\<lparr>rv_state := Idle, rv_started := 0, rv_profile := []\<rparr> else r1
      | _ \<Rightarrow> r)"

definition recovery_status :: "recovery \<Rightarrow> string \<times> instant" where
  "recovery_status r =
     (case rv_state r of
        Rebooting \<Rightarrow> (''rebooting'', rv_started r)
      | Waiting \<Rightarrow> (''waiting_after_reboot'', rv_started r)
      | Idle \<Rightarrow> ([], 0))"

subsection \<open>A daemon lifetime\<close>

definition boot_check :: "recovery_config \<Rightarrow> recovery_env \<Rightarrow> recovery \<Rightarrow> recovery" where
  "boot_check cfg env r =
     (case load_flag (rv_flag r) of
        LoadError \<Rightarrow> clear_flag (rt_remove_ok env) r
      | NoFlag \<Rightarrow> r
      | Loaded st pid \<Rightarrow>
         (case st of
            Stamp started \<Rightarrow>
              if time_sub (rt_now env) started > rc_patience cfg
              then (clear_flag (rt_remove_ok env) r)\<lparr>rv_issued := True\<rparr>
              else
                let active = (case resolve_active_profile (rt_settings env) of Some p \<Rightarrow> pp_id p | None \<Rightarrow> [])
                in if active = [] \<or> active \<noteq> pid
                   then (clear_flag (rt_remove_ok env) r)\<lparr>rv_issued := True\<rparr>
                   else r\<lparr>rv_state := Waiting, rv_started := started, rv_profile := pid, rv_issued := True\<rparr>
          | _ \<Rightarrow> clear_flag (rt_remove_ok env) r))"

definition issue_reboot :: "recovery_env \<Rightarrow> pi_profile \<Rightarrow> string \<Rightarrow> recovery \<Rightarrow> recovery" where
  "issue_reboot env p keyp r =
     (let (saved, r1) = save_flag (rt_save_ok env) (rt_now env) (pp_id p) r
      in if \<not> saved then r1
         else
           let r2 = rv_effect (Reboot (pp_ip p) (pp_user p) keyp) (r1\<lparr>rv_state := Rebooting\<rparr>);
               r3 = (if rt_reboot_ok env then r2 else r2\<lparr>rv_failed := True\<rparr>)
           in r3\<lparr>rv_state := Waiting, rv_started := rt_now env, rv_profile := pp_id p, rv_issued := True,
                 rv_fired := False, rv_saw_down := False, rv_no_net_since := 0\<rparr>)"

text \<open>The profile a tick works on and its key: an active profile whose key file exists.\<close>

definition recognized :: "recovery_config \<Rightarrow> recovery_env \<Rightarrow> (pi_profile \<times> string) option" where
  "recognized cfg env =
     (case resolve_active_profile (rt_settings env) of
        None \<Rightarrow> None
      | Some p \<Rightarrow>
         (case key_path_for_profile (rc_key_env cfg) (pp_id p) of
            Return keyp \<Rightarrow> if rt_files env keyp = None then None else Some (p, keyp)
          | _ \<Rightarrow> None))"

definition idle_tick :: "recovery_config \<Rightarrow> recovery_env \<Rightarrow> recovery \<Rightarrow> recovery" where
  "idle_tick cfg env r =
     (if rv_issued r then r
      else case recognized cfg env of
        None \<Rightarrow> r
      | Some (p, keyp) \<Rightarrow>
          if \<not> rt_reachable env then r\<lparr>rv_no_net_since := 0\<rparr>
          else if rt_internet env then r\<lparr>rv_no_net_since := 0\<rparr>
          else if is_zero (rv_no_net_since r) then r\<lparr>rv_no_net_since := rt_now env\<rparr>
          else if time_sub (rt_now env) (rv_no_net_since r) < rc_no_internet_for cfg then r
          else issue_reboot env p keyp r)"

definition wait_tick :: "recovery_config \<Rightarrow> recovery_env \<Rightarrow> recovery \<Rightarrow> recovery" where
  "wait_tick cfg env r =
     (if time_sub (rt_now env) (rv_started r) > rc_patience cfg
      then (clear_flag (rt_remove_ok env) r)\<lparr>rv_state := Idle, rv_started := 0\<rparr>
      else if rt_internet env
      then (clear_flag (rt_remove_ok env) r)\<lparr>rv_state := Idle, rv_started := 0\<rparr>
      else
        let r1 = (if rt_reachable env then r else r\<lparr>rv_saw_down := True\<rparr>)
        in if \<not> rv_fired r1 \<and> rt_reachable env \<and> (rv_saw_down r1 \<or> rv_failed r1)
           then let r2 = r1\<lparr>rv_fired := True\<rparr> in if rc_has_tethering cfg then rv_effect RunTethering r2 else r2
           else r1)"

definition tick_once :: "recovery_config \<Rightarrow> recovery_env \<Rightarrow> recovery \<Rightarrow> recovery" where
  "tick_once cfg env r = (if rv_state r \<noteq> Idle then wait_tick cfg env r else idle_tick cfg env r)"

text \<open>What happens to the service after its start: ticks, and deletions of profiles.\<close>

datatype recovery_input = Tick recovery_env | ClearFor bool string

fun recovery_step :: "recovery_config \<Rightarrow> recovery \<Rightarrow> recovery_input \<Rightarrow> recovery" where
  "recovery_step cfg r (Tick env) = tick_once cfg env r"
| "recovery_step cfg r (ClearFor ok pid) = clear_flag_for_profile ok pid r"

definition lifetime :: "recovery_config \<Rightarrow> flag_file \<Rightarrow> recovery_env \<Rightarrow> recovery_input list \<Rightarrow> recovery" where
  "lifetime cfg f env is = foldl (recovery_step cfg) (boot_check cfg env (new_recovery f)) is"

subsection \<open>Deleting a profile\<close>

record delete_result =
  dr_key_removed :: bool
  dr_authorized_removed :: bool
  dr_error :: string

text \<open>\<open>rm_ok\<close> says whether an existing file can be removed; the ssh runs answer as they do.\<close>

definition delete_pi_profile ::
  "string \<Rightarrow> (string \<Rightarrow> bool) \<Rightarrow> bool \<Rightarrow> string \<Rightarrow> string \<Rightarrow> string \<Rightarrow> ssh_result \<Rightarrow> ssh_result \<Rightarrow> string
    \<Rightarrow> files \<Rightarrow> recovery \<Rightarrow> delete_result outcome \<times> files \<times> recovery" where
  "delete_pi_profile var rm_ok flag_ok remove_script ip0 user0 key pass pid0 fs r =
     (case sanitize_profile_id pid0 of
        Fail e \<Rightarrow> (Fail e, fs, r)
      | Panic e \<Rightarrow> (Panic e, fs, r)
      | Return pid \<Rightarrow>
     (case key_path_for_profile var pid of
        Fail e \<Rightarrow> (Fail e, fs, r)
      | Panic e \<Rightarrow> (Panic e, fs, r)
      | Return path \<Rightarrow>
          if fs path \<noteq> None \<and> \<not> rm_ok path then (Fail ''removing'', fs, r)
          else if fs (pub_path path) \<noteq> None \<and> \<not> rm_ok (pub_path path) then (Fail ''removing'', fs(path := None), r)
          else
            let pub = read_public_key path fs;
                removed = (fs path \<noteq> None \<or> fs (pub_path path) \<noteq> None);
                fs1 = fs(path := None, pub_path path := None);
                r1 = clear_flag_for_profile flag_ok pid r;
                res = \<lparr>dr_key_removed = removed, dr_authorized_removed = False, dr_error = []\<rparr>
            in if trim_space ip0 = [] \<or> trim_space user0 = [] then (Return res, fs1, r1)
               else case pub of
                 None \<Rightarrow> (Return res, fs1, r1)
               | Some k \<Rightarrow>
                  (case key_command remove_script k of
                     Return script \<Rightarrow>
                       if kf_ok (run_key_first key pass)
                       then (Return (res\<lparr>dr_authorized_removed := True\<rparr>), fs1, r1)
                       else (Return (res\<lparr>dr_error := ''ssh failed''\<rparr>), fs1, r1)
                   | _ \<Rightarrow> (Return (res\<lparr>dr_error := ''unsafe public key''\<rparr>), fs1, r1))))"

subsection \<open>At most one reboot\<close>

lemmas recovery_defs = tick_once_def idle_tick_def wait_tick_def issue_reboot_def save_flag_def
  clear_flag_def clear_flag_for_profile_def rv_effect_def

definition is_reboot :: "recovery_effect \<Rightarrow> bool" where
  "is_reboot e = (case e of Reboot _ _ _ \<Rightarrow> True | _ \<Rightarrow> False)"

definition reboots :: "recovery \<Rightarrow> nat" where
  "reboots r = length (filter is_reboot (rv_effects r))"

lemma reboots_effect [simp]: "reboots (rv_effect e r) = (if is_reboot e then Suc (reboots r) else reboots r)"
  by (simp add: reboots_def rv_effect_def)

lemma clear_flag_frame [simp]:
  "rv_effects (clear_flag ok r) = rv_effects r" "rv_issued (clear_flag ok r) = rv_issued r"
  "rv_profile (clear_flag ok r) = rv_profile r" "rv_state (clear_flag ok r) = rv_state r"
  by (simp_all add: clear_flag_def)

lemma clear_for_frame [simp]:
  "rv_effects (clear_flag_for_profile ok pid r) = rv_effects r"
  "rv_issued (clear_flag_for_profile ok pid r) = rv_issued r"
  by (simp_all add: clear_flag_for_profile_def Let_def split: loaded_flag.split)

lemma clear_for_reboots [simp]: "reboots (clear_flag_for_profile ok pid r) = reboots r"
  by (simp add: reboots_def)

lemma wait_tick_effects:
  "rv_effects (wait_tick cfg env r) = rv_effects r \<or> rv_effects (wait_tick cfg env r) = rv_effects r @ [RunTethering]"
  "rv_issued (wait_tick cfg env r) = rv_issued r"
  by (auto simp: wait_tick_def rv_effect_def Let_def)

lemma wait_tick_reboots [simp]: "reboots (wait_tick cfg env r) = reboots r"
  using wait_tick_effects(1) [of cfg env r] by (auto simp: reboots_def is_reboot_def)

lemma issue_reboot_effects:
  "rv_effects (issue_reboot env p keyp r) = rv_effects r @
     (if rt_save_ok env then [SaveFlag (pp_id p), Reboot (pp_ip p) (pp_user p) keyp] else [])"
  "rv_issued (issue_reboot env p keyp r) = (rv_issued r \<or> rt_save_ok env)"
  by (simp_all add: issue_reboot_def save_flag_def rv_effect_def Let_def)

lemma step_spent: "rv_issued r \<Longrightarrow> rv_issued (recovery_step cfg r e)"
  by (cases e) (auto simp: tick_once_def idle_tick_def wait_tick_effects)

lemma step_spent_reboots: "rv_issued r \<Longrightarrow> reboots (recovery_step cfg r e) = reboots r"
  by (cases e) (auto simp: tick_once_def idle_tick_def)

text \<open>A reboot is the work of \<open>issueReboot\<close>.\<close>

lemma step_reboot_cases:
  obtains "reboots (recovery_step cfg r e) = reboots r"
  | env p keyp where "e = Tick env" "rv_state r = Idle" "\<not> rv_issued r" "recognized cfg env = Some (p, keyp)"
      "rt_reachable env" "\<not> rt_internet env" "rv_no_net_since r \<noteq> 0" "rt_save_ok env"
      "rc_no_internet_for cfg \<le> time_sub (rt_now env) (rv_no_net_since r)"
      "recovery_step cfg r e = issue_reboot env p keyp r"
proof (cases e)
  case (Tick env)
  show ?thesis
  proof (cases "rv_state r = Idle \<and> \<not> rv_issued r")
    case True
    show ?thesis
    proof (cases "recognized cfg env")
      case None
      with True Tick that(1) show ?thesis by (simp add: tick_once_def idle_tick_def)
    next
      case (Some pk)
      obtain p keyp where pk: "pk = (p, keyp)" by force
      show ?thesis
      proof (cases "rt_reachable env \<and> \<not> rt_internet env \<and> rv_no_net_since r \<noteq> 0
          \<and> rc_no_internet_for cfg \<le> time_sub (rt_now env) (rv_no_net_since r)")
        case go: True
        then have st: "recovery_step cfg r e = issue_reboot env p keyp r"
          using True Tick Some pk by (simp add: tick_once_def idle_tick_def is_zero_def)
        show ?thesis
        proof (cases "rt_save_ok env")
          case True': True
          with go st True Tick Some pk that(2) show ?thesis by blast
        next
          case False
          with st that(1) show ?thesis by (simp add: issue_reboot_effects reboots_def)
        qed
      next
        case False
        then have "rv_effects (recovery_step cfg r e) = rv_effects r"
          using True Tick Some pk by (auto simp: tick_once_def idle_tick_def is_zero_def)
        with that(1) show ?thesis by (simp add: reboots_def)
      qed
    qed
  next
    case False
    have "reboots (tick_once cfg env r) = reboots r"
    proof (cases "rv_state r = Idle")
      case True
      with False show ?thesis by (simp add: tick_once_def idle_tick_def)
    qed (simp add: tick_once_def)
    with Tick that(1) show ?thesis by simp
  qed
next
  case (ClearFor ok pid)
  with that(1) show ?thesis by (simp add: reboots_def)
qed

lemma step_reboots: 
  "reboots (recovery_step cfg r e) = reboots r \<or>
    reboots (recovery_step cfg r e) = Suc (reboots r) \<and> rv_issued (recovery_step cfg r e)"
proof (cases rule: step_reboot_cases [of cfg r e])
  case 1
  then show ?thesis by blast
next
  case (2 env p keyp)
  show ?thesis unfolding 2(10) using 2(8)
    by (simp add: issue_reboot_effects reboots_def is_reboot_def)
qed

interpretation once: once_machine "recovery_step cfg" rv_issued reboots for cfg
proof unfold_locales
  fix r e
  show "rv_issued r \<Longrightarrow> rv_issued (recovery_step cfg r e)" by (rule step_spent)
  show "rv_issued r \<Longrightarrow> reboots (recovery_step cfg r e) = reboots r" by (rule step_spent_reboots)
  show "reboots (recovery_step cfg r e) = reboots r \<or>
    reboots (recovery_step cfg r e) = Suc (reboots r) \<and> rv_issued (recovery_step cfg r e)" by (rule step_reboots)
qed

lemma boot_check_effects [simp]: "rv_effects (boot_check cfg env r) = rv_effects r"
  by (simp add: boot_check_def Let_def split: loaded_flag.split stamp.split option.split)

lemma boot_check_issued:
  "load_flag f = Loaded (Stamp t) pid \<Longrightarrow> rv_issued (boot_check cfg env (new_recovery f))"
  by (auto simp: boot_check_def new_recovery_def Let_def split: option.split)

lemma reboots_boot [simp]: "reboots (boot_check cfg env (new_recovery f)) = 0"
  by (simp add: reboots_def new_recovery_def)

subsection \<open>The window before the reboot\<close>

text \<open>A tick that sees the recognized Pi reachable and no internet.\<close>

definition dark :: "recovery_config \<Rightarrow> recovery_env \<Rightarrow> bool" where
  "dark cfg env \<longleftrightarrow> recognized cfg env \<noteq> None \<and> rt_reachable env \<and> \<not> rt_internet env"

definition ticks :: "recovery_config \<Rightarrow> recovery \<Rightarrow> recovery_env list \<Rightarrow> recovery" where
  "ticks cfg r es = foldl (\<lambda>r env. tick_once cfg env r) r es"

lemma ticks_snoc [simp]: "ticks cfg r (es @ [env]) = tick_once cfg env (ticks cfg r es)"
  by (simp add: ticks_def)

lemma ticks_Nil [simp]: "ticks cfg r [] = r"
  by (simp add: ticks_def)

lemma tick_issued_mono: "rv_issued r \<Longrightarrow> rv_issued (tick_once cfg env r)"
  using step_spent [of r cfg "Tick env"] by simp

text \<open>The start of the window is the instant of a dark tick after which no recognized tick was
  anything but dark.\<close>

definition window_since :: "recovery_config \<Rightarrow> recovery_env list \<Rightarrow> instant \<Rightarrow> bool" where
  "window_since cfg es s \<longleftrightarrow>
     (\<exists>i < length es. rt_now (es ! i) = s \<and> dark cfg (es ! i)
        \<and> (\<forall>j. i \<le> j \<and> j < length es \<longrightarrow> recognized cfg (es ! j) = None \<or> dark cfg (es ! j)))"

lemma window_since_extend:
  assumes "window_since cfg es s" and "recognized cfg env = None \<or> dark cfg env"
  shows "window_since cfg (es @ [env]) s"
proof -
  obtain i where i: "i < length es" "rt_now (es ! i) = s" "dark cfg (es ! i)"
    and j: "\<And>j. i \<le> j \<Longrightarrow> j < length es \<Longrightarrow> recognized cfg (es ! j) = None \<or> dark cfg (es ! j)"
    using assms(1) unfolding window_since_def by blast
  have "recognized cfg ((es @ [env]) ! j) = None \<or> dark cfg ((es @ [env]) ! j)"
    if "i \<le> j" "j < length (es @ [env])" for j
    using that j [of j] assms(2) by (cases "j < length es") (auto simp: nth_append)
  with i show ?thesis unfolding window_since_def
    by (intro exI [of _ i]) (simp add: nth_append)
qed

lemma window_since_now: "dark cfg env \<Longrightarrow> window_since cfg (es @ [env]) (rt_now env)"
  unfolding window_since_def by (intro exI [of _ "length es"]) (simp add: nth_append)

lemma idle_tick_since:
  assumes "\<not> rv_issued r" and "\<not> rv_issued (idle_tick cfg env r)"
  shows "rv_state (idle_tick cfg env r) = rv_state r
    \<and> (rv_no_net_since (idle_tick cfg env r) = 0
       \<or> dark cfg env \<and> rv_no_net_since (idle_tick cfg env r) = rt_now env
       \<or> (recognized cfg env = None \<or> dark cfg env) \<and> rv_no_net_since (idle_tick cfg env r) = rv_no_net_since r)"
proof (cases "recognized cfg env")
  case (Some pk)
  obtain p keyp where "pk = (p, keyp)" by force
  with Some assms show ?thesis
    by (auto simp: idle_tick_def dark_def is_zero_def issue_reboot_def save_flag_def Let_def split: if_splits)
qed (use assms in \<open>simp add: idle_tick_def\<close>)

lemma ticks_window:
  assumes "rv_state r = Idle" and "rv_no_net_since r = 0"
  shows "\<not> rv_issued (ticks cfg r es) \<Longrightarrow> rv_state (ticks cfg r es) = Idle
    \<and> (rv_no_net_since (ticks cfg r es) = 0 \<or> window_since cfg es (rv_no_net_since (ticks cfg r es)))"
proof (induction es rule: rev_induct)
  case (snoc env es)
  let ?r = "ticks cfg r es"
  have ni: "\<not> rv_issued ?r" using snoc.prems tick_issued_mono by (auto simp del: not_None_eq)
  with snoc.IH have idle: "rv_state ?r = Idle"
    and win: "rv_no_net_since ?r = 0 \<or> window_since cfg es (rv_no_net_since ?r)" by auto
  have st: "tick_once cfg env ?r = idle_tick cfg env ?r" using idle by (simp add: tick_once_def)
  have "\<not> rv_issued (idle_tick cfg env ?r)" using snoc.prems st by simp
  note since = idle_tick_since [OF ni this]
  then have "rv_no_net_since (idle_tick cfg env ?r) = 0
      \<or> window_since cfg (es @ [env]) (rv_no_net_since (idle_tick cfg env ?r))"
    using win window_since_now [of cfg env es] window_since_extend [of cfg es _ env] by metis
  with since idle show ?case by (simp only: ticks_snoc st)
qed (simp add: assms)

subsection \<open>Properties\<close>

text \<open>C1: one daemon lifetime issues at most one reboot, whatever the ticks see and whichever
  profiles are deleted meanwhile; and none at all when it starts with a readable flag of an
  earlier reboot, be it fresh, stale or of another profile.\<close>

theorem reboots_at_most_once:
  shows "length (filter is_reboot (rv_effects (lifetime cfg f env is))) \<le> 1
    \<and> (load_flag f = Loaded (Stamp t) pid \<longrightarrow> filter is_reboot (rv_effects (lifetime cfg f env is)) = [])"
proof
  show "length (filter is_reboot (rv_effects (lifetime cfg f env is))) \<le> 1"
    using once.run_count [of cfg "boot_check cfg env (new_recovery f)" "is"]
    by (simp add: lifetime_def flip: reboots_def)
  show "load_flag f = Loaded (Stamp t) pid \<longrightarrow> filter is_reboot (rv_effects (lifetime cfg f env is)) = []"
  proof
    assume "load_flag f = Loaded (Stamp t) pid"
    then have "rv_issued (boot_check cfg env (new_recovery f))" by (rule boot_check_issued)
    from once.run_spent_count [OF this, of cfg "is"] have "reboots (lifetime cfg f env is) = 0"
      by (simp add: lifetime_def)
    then show "filter is_reboot (rv_effects (lifetime cfg f env is)) = []" by (simp add: reboots_def)
  qed
qed

definition calm_env :: recovery_env where
  "calm_env = \<lparr>rt_now = minutes 60, rt_settings = None, rt_files = Map.empty, rt_reachable = True,
     rt_internet = False, rt_save_ok = True, rt_remove_ok = True, rt_reboot_ok = True\<rparr>"

theorem reboots_at_most_once_witness:
  "filter is_reboot (rv_effects (lifetime (recovery_config_of 0 0 [] True) (FlagFile (Stamp (minutes 55)) ''pi-1'')
     calm_env [Tick calm_env, ClearFor True ''pi-1'', Tick calm_env])) = []"
proof -
  have "load_flag (FlagFile (Stamp (minutes 55)) ''pi-1'') = Loaded (Stamp (minutes 55)) ''pi-1''"
    by (simp add: load_flag_def trim_space_def is_space_def)
  with reboots_at_most_once show ?thesis by blast
qed

text \<open>a reboot survives the daemon's own restart. A tick that issues a reboot has written the
  flag before the command, the flag then holds the profile and the instant (to the second),
  and whenever the daemon starts again from that flag, at any time and with any settings, it
  issues no reboot in that lifetime.\<close>

theorem reboot_survives_restart:
  assumes "filter is_reboot (rv_effects (tick_once cfg env r)) \<noteq> filter is_reboot (rv_effects r)"
  shows "\<exists>p keyp. rv_effects (tick_once cfg env r) = rv_effects r @ [SaveFlag (pp_id p), Reboot (pp_ip p) (pp_user p) keyp]
    \<and> resolve_active_profile (rt_settings env) = Some p
    \<and> rv_flag (tick_once cfg env r) = FlagFile (Stamp (rt_now env div 1000000000 * 1000000000)) (pp_id p)
    \<and> filter is_reboot (rv_effects (lifetime cfg' (rv_flag (tick_once cfg env r)) env' is)) = []"
proof -
  have neq: "recovery_step cfg r (Tick env) = tick_once cfg env r" by simp
  have "\<exists>p keyp. recognized cfg env = Some (p, keyp) \<and> rt_save_ok env \<and> tick_once cfg env r = issue_reboot env p keyp r"
  proof (cases rule: step_reboot_cases [of cfg r "Tick env"])
    case 1
    have "filter is_reboot (rv_effects (tick_once cfg env r)) = filter is_reboot (rv_effects r)"
    proof -
      obtain zs where "rv_effects (tick_once cfg env r) = rv_effects r @ zs"
        using wait_tick_effects(1) [of cfg env r] issue_reboot_effects(1) [of env _ _ r]
        by (fastforce simp: tick_once_def idle_tick_def split: option.splits prod.splits)
      with 1 show ?thesis by (simp add: reboots_def)
    qed
    with assms show ?thesis by simp
  next
    case (2 env0 p keyp)
    then show ?thesis by auto
  qed
  then obtain p keyp where rec: "recognized cfg env = Some (p, keyp)" and ok: "rt_save_ok env"
    and st: "tick_once cfg env r = issue_reboot env p keyp r" by blast
  have act: "resolve_active_profile (rt_settings env) = Some p" and "key_path_for_profile (rc_key_env cfg) (pp_id p) = Return keyp"
    using rec by (auto simp: recognized_def split: option.splits outcome.splits if_splits)
  then have "trim_space (pp_id p) \<noteq> []"
    by (auto simp: key_path_for_profile_def sanitize_profile_id_def Let_def)
  moreover have fl: "rv_flag (tick_once cfg env r) = FlagFile (Stamp (to_seconds (rt_now env))) (pp_id p)"
    unfolding st using ok by (simp add: issue_reboot_def save_flag_def rv_effect_def Let_def)
  ultimately have "load_flag (rv_flag (tick_once cfg env r)) = Loaded (Stamp (to_seconds (rt_now env))) (pp_id p)"
    by (simp add: load_flag_def)
  from boot_check_issued [OF this] have
    "reboots (lifetime cfg' (rv_flag (tick_once cfg env r)) env' is) = 0"
    using once.run_spent_count [of "boot_check cfg' env' (new_recovery (rv_flag (tick_once cfg env r)))" cfg' "is"]
    by (simp add: lifetime_def)
  then have "filter is_reboot (rv_effects (lifetime cfg' (rv_flag (tick_once cfg env r)) env' is)) = []"
    by (simp add: reboots_def)
  with act fl ok show ?thesis
    by (intro exI [of _ p] exI [of _ keyp]) (simp add: st issue_reboot_effects to_seconds_def)
qed

definition pi_settings :: "string \<Rightarrow> settings option" where
  "pi_settings active = Some \<lparr>st_profiles = SomeProfiles
     [\<lparr>pp_id = ''pi-1'', pp_label = [], pp_ip = ''10.0.0.1'', pp_user = ''pi'', pp_password = [], pp_key_installed = True\<rparr>,
      \<lparr>pp_id = ''pi-2'', pp_label = [], pp_ip = ''10.0.0.2'', pp_user = ''pi'', pp_password = [], pp_key_installed = True\<rparr>],
     st_server = None, st_active = active\<rparr>"

definition dark_env :: "instant \<Rightarrow> string \<Rightarrow> recovery_env" where
  "dark_env now active = calm_env\<lparr>rt_now := now, rt_settings := pi_settings active, rt_files := (\<lambda>_. Some [])\<rparr>"

definition pi_config :: recovery_config where
  "pi_config = recovery_config_of 0 0 [] True"

lemma pi_recognized:
  "recognized pi_config (dark_env now ''pi-1'') = Some
     (\<lparr>pp_id = ''pi-1'', pp_label = [], pp_ip = ''10.0.0.1'', pp_user = ''pi'', pp_password = [], pp_key_installed = True\<rparr>,
      ''/etc/mira/ssh/pi-1_ed25519'')"
  "recognized pi_config (dark_env now ''pi-2'') = Some
     (\<lparr>pp_id = ''pi-2'', pp_label = [], pp_ip = ''10.0.0.2'', pp_user = ''pi'', pp_password = [], pp_key_installed = True\<rparr>,
      ''/etc/mira/ssh/pi-2_ed25519'')"
proof -
  have "key_path_for_profile [] ''pi-1'' = Return ''/etc/mira/ssh/pi-1_ed25519''"
    "key_path_for_profile [] ''pi-2'' = Return ''/etc/mira/ssh/pi-2_ed25519''"
    "resolve_active_profile (pi_settings ''pi-1'') = Some \<lparr>pp_id = ''pi-1'', pp_label = [], pp_ip = ''10.0.0.1'', pp_user = ''pi'', pp_password = [], pp_key_installed = True\<rparr>"
    "resolve_active_profile (pi_settings ''pi-2'') = Some \<lparr>pp_id = ''pi-2'', pp_label = [], pp_ip = ''10.0.0.2'', pp_user = ''pi'', pp_password = [], pp_key_installed = True\<rparr>"
    by code_simp+
  then show
    "recognized pi_config (dark_env now ''pi-1'') = Some
      (\<lparr>pp_id = ''pi-1'', pp_label = [], pp_ip = ''10.0.0.1'', pp_user = ''pi'', pp_password = [], pp_key_installed = True\<rparr>,
       ''/etc/mira/ssh/pi-1_ed25519'')"
    "recognized pi_config (dark_env now ''pi-2'') = Some
      (\<lparr>pp_id = ''pi-2'', pp_label = [], pp_ip = ''10.0.0.2'', pp_user = ''pi'', pp_password = [], pp_key_installed = True\<rparr>,
       ''/etc/mira/ssh/pi-2_ed25519'')"
    by (simp_all add: recognized_def pi_config_def recovery_config_of_def dark_env_def)
qed

lemma dark_env_simps [simp]:
  "rt_now (dark_env now a) = now" "rt_reachable (dark_env now a)" "\<not> rt_internet (dark_env now a)"
  "rt_save_ok (dark_env now a)" "rt_reboot_ok (dark_env now a)"
  by (simp_all add: dark_env_def calm_env_def)

lemma pi_config_simps [simp]: "rc_no_internet_for pi_config = seconds 15"
  by (simp add: pi_config_def recovery_config_of_def recovery_window_default_def)

lemma pi_reboots:
  "rv_effects (tick_once pi_config (dark_env 20000000000 a) (tick_once pi_config (dark_env 1000000000 ''pi-1'') (new_recovery FlagAbsent)))
    = (case recognized pi_config (dark_env 20000000000 a) of None \<Rightarrow> [] | Some (p, keyp) \<Rightarrow> [SaveFlag (pp_id p), Reboot (pp_ip p) (pp_user p) keyp])"
  by (simp add: tick_once_def idle_tick_def pi_recognized new_recovery_def is_zero_def time_sub_def
      issue_reboot_effects split: option.split)

theorem reboot_survives_restart_witness:
  "filter is_reboot (rv_effects (lifetime pi_config
     (rv_flag (tick_once pi_config (dark_env (seconds 20) ''pi-1'') (tick_once pi_config (dark_env (seconds 1) ''pi-1'') (new_recovery FlagAbsent))))
     calm_env [Tick calm_env])) = []"
proof -
  let ?r = "tick_once pi_config (dark_env (seconds 1) ''pi-1'') (new_recovery FlagAbsent)"
  have "rv_effects ?r = []"
    by (simp add: tick_once_def idle_tick_def pi_recognized new_recovery_def is_zero_def)
  then have "filter is_reboot (rv_effects (tick_once pi_config (dark_env (seconds 20) ''pi-1'') ?r)) \<noteq> filter is_reboot (rv_effects ?r)"
    by (simp add: pi_reboots pi_recognized is_reboot_def)
  from reboot_survives_restart [OF this] show ?thesis by blast
qed

text \<open>C2: while the same Pi stays the recognized one, a reboot needs a dark window. When the tick
  \<open>env\<close> after the ticks \<open>es\<close> reboots, there is an earlier tick, at least the configured time
  before it (15 seconds by default), such that this tick, every tick after it and \<open>env\<close> itself
  saw the Pi reachable and without internet; and what the tick does is to write the flag for this
  Pi and then to send the reboot to its address with its key. (When the recognized Pi changes
  or is not recognized for a while, the window goes on: \<open>window_spans_profiles\<close>.)\<close>

theorem reboot_needs_dark_window:
  assumes "0 < rc_no_internet_for cfg" and "rc_no_internet_for cfg < 2 ^ 63"
    and "filter is_reboot (rv_effects (tick_once cfg env (ticks cfg (new_recovery f) es)))
        \<noteq> filter is_reboot (rv_effects (ticks cfg (new_recovery f) es))"
    and "\<And>e. e \<in> set (es @ [env]) \<Longrightarrow> recognized cfg e = Some (p, keyp)"
  shows "\<exists>i < length es. rt_now (es ! i) + rc_no_internet_for cfg \<le> rt_now env
    \<and> (\<forall>e \<in> set (drop i es @ [env]). rt_reachable e \<and> \<not> rt_internet e)
    \<and> rv_effects (tick_once cfg env (ticks cfg (new_recovery f) es)) =
        rv_effects (ticks cfg (new_recovery f) es) @ [SaveFlag (pp_id p), Reboot (pp_ip p) (pp_user p) keyp]"
proof -
  let ?r = "ticks cfg (new_recovery f) es"
  have rec: "recognized cfg env = Some (p, keyp)" using assms(4) by simp
  have "\<not> rv_issued ?r \<and> rt_reachable env \<and> \<not> rt_internet env \<and> rv_no_net_since ?r \<noteq> 0
      \<and> rc_no_internet_for cfg \<le> time_sub (rt_now env) (rv_no_net_since ?r)
      \<and> rv_effects (tick_once cfg env ?r) = rv_effects ?r @ [SaveFlag (pp_id p), Reboot (pp_ip p) (pp_user p) keyp]"
  proof (cases rule: step_reboot_cases [of cfg ?r "Tick env"])
    case 1
    obtain zs where "rv_effects (tick_once cfg env ?r) = rv_effects ?r @ zs"
      using wait_tick_effects(1) [of cfg env ?r] issue_reboot_effects(1) [of env _ _ ?r]
      by (fastforce simp: tick_once_def idle_tick_def split: option.splits prod.splits)
    with 1 assms(3) show ?thesis by (simp add: reboots_def)
  next
    case (2 env0 p' keyp')
    with rec show ?thesis by (auto simp: issue_reboot_effects)
  qed
  then have ni: "\<not> rv_issued ?r" and d: "rt_reachable env" "\<not> rt_internet env" and nz: "rv_no_net_since ?r \<noteq> 0"
    and le: "rc_no_internet_for cfg \<le> rt_now env - rv_no_net_since ?r"
    and eff: "rv_effects (tick_once cfg env ?r) = rv_effects ?r @ [SaveFlag (pp_id p), Reboot (pp_ip p) (pp_user p) keyp]"
    using assms(1,2) by (auto simp: go_time)
  from ni nz have "window_since cfg es (rv_no_net_since ?r)"
    using ticks_window [of "new_recovery f" cfg es] by (simp add: new_recovery_def)
  then obtain i where i: "i < length es" "rt_now (es ! i) = rv_no_net_since ?r"
    and w: "\<And>j. i \<le> j \<Longrightarrow> j < length es \<Longrightarrow> recognized cfg (es ! j) = None \<or> dark cfg (es ! j)"
    unfolding window_since_def by blast
  have "rt_reachable e \<and> \<not> rt_internet e" if e: "e \<in> set (drop i es)" for e
  proof -
    obtain k where "k < length es - i" "e = es ! (i + k)"
      using e by (auto simp: in_set_conv_nth)
    then have j: "i \<le> i + k" "i + k < length es" "e = es ! (i + k)" using i(1) by simp_all
    with w [of "i + k"] assms(4) [of e] show ?thesis by (auto simp: dark_def)
  qed
  with i d le eff show ?thesis by (intro exI [of _ i]) auto
qed

theorem reboot_needs_dark_window_witness:
  "rv_effects (tick_once pi_config (dark_env (seconds 20) ''pi-1'')
      (ticks pi_config (new_recovery FlagAbsent) [dark_env (seconds 1) ''pi-1''])) =
    [SaveFlag ''pi-1'', Reboot ''10.0.0.1'' ''pi'' ''/etc/mira/ssh/pi-1_ed25519'']"
proof -
  let ?r = "ticks pi_config (new_recovery FlagAbsent) [dark_env (seconds 1) ''pi-1'']"
  have e: "rv_effects ?r = []"
    by (simp add: ticks_def tick_once_def idle_tick_def pi_recognized new_recovery_def is_zero_def)
  have neq: "filter is_reboot (rv_effects (tick_once pi_config (dark_env (seconds 20) ''pi-1'') ?r))
    \<noteq> filter is_reboot (rv_effects ?r)"
    unfolding e by (simp add: ticks_def pi_reboots pi_recognized is_reboot_def)
  have same: "recognized pi_config x = recognized pi_config (dark_env 0 ''pi-1'')"
    if "x \<in> set ([dark_env (seconds 1) ''pi-1''] @ [dark_env (seconds 20) ''pi-1''])" for x
    using that by (auto simp: pi_recognized)
  obtain i where "rv_effects (tick_once pi_config (dark_env (seconds 20) ''pi-1'') ?r) =
      rv_effects ?r @ [SaveFlag ''pi-1'', Reboot ''10.0.0.1'' ''pi'' ''/etc/mira/ssh/pi-1_ed25519'']"
    using reboot_needs_dark_window [OF _ _ neq same [unfolded pi_recognized]] by auto
  then show ?thesis unfolding e by simp
qed

text \<open>The window is not bound to a profile: a Pi that has just become the active one is rebooted
  at the first tick that sees it, because of what an earlier tick saw of another Pi.\<close>

lemma window_spans_profiles:
  "Reboot ''10.0.0.2'' ''pi'' ''/etc/mira/ssh/pi-2_ed25519'' \<in> set (rv_effects
     (ticks pi_config (new_recovery FlagAbsent) [dark_env (seconds 1) ''pi-1'', dark_env (seconds 20) ''pi-2'']))"
  by (simp add: ticks_def pi_reboots pi_recognized)

text \<open>waiting ends. Once more than the patience (ten minutes by default) has passed since the
  reboot, or as soon as the internet is back, a tick of the waiting phase returns to idle and
  removes the flag, and issues no reboot; until then it stays in the phase and keeps the flag,
  and it starts the tethering setup only when the Pi is reachable after having been down or
  after a failed command, and only once.\<close>

theorem waiting_phase_ends:
  assumes "rv_state r \<noteq> Idle" and "0 < rc_patience cfg" and "rc_patience cfg < 2 ^ 63 - 1"
  shows "(if rt_now env - rv_started r > rc_patience cfg \<or> rt_internet env
      then rv_state (tick_once cfg env r) = Idle \<and> rv_effects (tick_once cfg env r) = rv_effects r
        \<and> (rt_remove_ok env \<longrightarrow> rv_flag (tick_once cfg env r) = FlagAbsent)
      else rv_state (tick_once cfg env r) = rv_state r \<and> rv_flag (tick_once cfg env r) = rv_flag r
        \<and> rv_effects (tick_once cfg env r) = rv_effects r @
            (if rc_has_tethering cfg \<and> \<not> rv_fired r \<and> rt_reachable env \<and> (rv_saw_down r \<or> rv_failed r)
             then [RunTethering] else [])
        \<and> (rv_effects (tick_once cfg env r) \<noteq> rv_effects r \<longrightarrow> rv_fired (tick_once cfg env r)))"
  using assms
  by (auto simp: tick_once_def wait_tick_def clear_flag_def rv_effect_def Let_def go_time)

theorem waiting_phase_ends_witness:
  "rv_state (tick_once pi_config (dark_env (minutes 11) ''pi-1'')
     ((new_recovery (FlagFile (Stamp 0) ''pi-1''))\<lparr>rv_state := Waiting\<rparr>)) = Idle"
  using waiting_phase_ends [of "(new_recovery (FlagFile (Stamp 0) ''pi-1''))\<lparr>rv_state := Waiting\<rparr>"
      pi_config "dark_env (minutes 11) ''pi-1''"]
  by (simp add: pi_config_def recovery_config_of_def recovery_patience_default_def new_recovery_def)

end
