(* ===== verification/PiJobs.thy ===== *)
theory PiJobs
  imports PiProfiles
begin

text \<open>
  The two background jobs on the Pi: the provisioning wizard (\<open>daemon/setup_pi.go\<close>) and the
  USB tethering setup (\<open>daemon/tethering.go\<close>). Each tracks one run of a script in memory:
  its state, the ring of its last log lines and the outcome read from the script's
  \<open>RESULT\<close> line. A run is the sequence of its start, the chunks its script writes and its
  end; the script's exit and the ssh runs are arguments.
\<close>

subsection \<open>Log lines and results\<close>

definition job_log_cap :: nat where "job_log_cap = 200"
definition job_log_tail_lines :: nat where "job_log_tail_lines = 20"

definition ring_append :: "string list \<Rightarrow> string \<Rightarrow> string list" where
  "ring_append ls l =
     (let ls' = ls @ [l]
      in if length ls' > job_log_cap then drop (length ls' - job_log_cap) ls' else ls')"

definition newline :: char where "newline = CHR 0x0A"

text \<open>The lines of a chunk of output, as \<open>Write\<close> takes it apart.\<close>

definition chunk_lines :: "string \<Rightarrow> string list" where
  "chunk_lines p = filter (\<lambda>l. l \<noteq> []) (split_on newline (trim_right newline p))"

definition quote :: char where "quote = CHR 0x22"

definition until_char :: "(char \<Rightarrow> bool) \<Rightarrow> string \<Rightarrow> string" where
  "until_char stop s = takeWhile (\<lambda>c. \<not> stop c) s"

definition parse_quoted_field :: "string \<Rightarrow> string \<Rightarrow> string" where
  "parse_quoted_field s key =
     (case str_index (key @ ''='') s of
        None \<Rightarrow> []
      | Some i \<Rightarrow>
          let rest = drop (i + length key + 1) s
          in if has_prefix rest [quote] then until_char (\<lambda>c. c = quote) (tl rest)
             else until_char (\<lambda>c. c = CHR '' '' \<or> c = CHR 0x09) rest)"

definition result_prefix :: string where "result_prefix = ''RESULT ''"

text \<open>The rest of the last \<open>RESULT\<close> line.\<close>

definition last_result :: "string list \<Rightarrow> string option" where
  "last_result ls =
     map_option (\<lambda>l. drop (length result_prefix) (trim_space l))
       (find (\<lambda>l. has_prefix (trim_space l) result_prefix) (rev ls))"

definition parse_setup_pi_result :: "string list \<Rightarrow> string \<times> string" where
  "parse_setup_pi_result ls =
     (case last_result ls of
        None \<Rightarrow> ([], [])
      | Some r \<Rightarrow> (parse_quoted_field r ''model'', parse_quoted_field r ''tier''))"

definition parse_tethering_result :: "string list \<Rightarrow> string \<times> bool \<times> bool \<times> string" where
  "parse_tethering_result ls =
     (case last_result ls of
        None \<Rightarrow> ([], False, False, [])
      | Some r \<Rightarrow> (parse_quoted_field r ''uplink'', parse_quoted_field r ''tethering'' = ''ok'',
                   parse_quoted_field r ''internet'' = ''ok'', parse_quoted_field r ''detail''))"

datatype job_state = JobIdle | JobRunning | JobSuccess | JobFailed

definition job_state_name :: "job_state \<Rightarrow> string" where
  "job_state_name s = (case s of JobIdle \<Rightarrow> ''idle'' | JobRunning \<Rightarrow> ''running''
     | JobSuccess \<Rightarrow> ''success'' | JobFailed \<Rightarrow> ''failed'')"

text \<open>\<open>UnixNano\<close> of an instant.\<close>

definition unix_nano :: "instant \<Rightarrow> int" where
  "unix_nano t = t - seconds 62135596800"

definition job_name :: "string \<Rightarrow> instant \<Rightarrow> string" where
  "job_name prefix now = prefix @ show_nat (nat (unix_nano now))"

text \<open>How the script's process ended.\<close>

datatype run_end = RunOk | RunTimeout | RunError string

subsection \<open>Tethering\<close>

record tether =
  te_job :: string
  te_profile :: string
  te_state :: job_state
  te_started :: instant
  te_finished :: instant
  te_uplink :: string
  te_tethering_ok :: bool
  te_internet_ok :: bool
  te_err :: string
  te_log :: "string list"

definition new_tether :: tether where
  "new_tether = \<lparr>te_job = [], te_profile = [], te_state = JobIdle, te_started = 0, te_finished = 0,
     te_uplink = [], te_tethering_ok = False, te_internet_ok = False, te_err = [], te_log = []\<rparr>"

definition resolve_tethering_profile :: "settings option option \<Rightarrow> string \<Rightarrow> pi_profile outcome" where
  "resolve_tethering_profile source explicit0 =
     (case source of
        None \<Rightarrow> Fail ''no settings source''
      | Some blob \<Rightarrow>
          let explicit = trim_space explicit0
          in if explicit \<noteq> []
             then case find_profile explicit (parse_pi_profiles blob) of
                    None \<Rightarrow> Fail ''unknown profile id''
                  | Some p \<Rightarrow> if trim_space (pp_ip p) = [] \<or> trim_space (pp_user p) = []
                              then Fail ''profile has no ip/user'' else Return p
             else case resolve_active_profile blob of
                    None \<Rightarrow> Fail ''no active pi profile''
                  | Some p \<Rightarrow> if trim_space (pp_ip p) = [] \<or> trim_space (pp_user p) = []
                              then Fail ''profile has no ip/user'' else Return p)"

text \<open>\<open>StartTethering\<close>: the profile and job that run, or the error. \<open>script\<close> says whether the
  script exists.\<close>

definition start_tethering ::
  "string \<Rightarrow> settings option option \<Rightarrow> files \<Rightarrow> bool \<Rightarrow> instant \<Rightarrow> string \<Rightarrow> tether \<Rightarrow> (pi_profile \<times> string) outcome \<times> tether" where
  "start_tethering key_env source fs script now profile_id s =
     (let explicit = trim_space profile_id
      in if explicit \<noteq> [] \<and> (case sanitize_profile_id explicit of Return _ \<Rightarrow> False | _ \<Rightarrow> True)
         then (Fail ''bad profile id'', s)
         else case resolve_tethering_profile source profile_id of
           Fail e \<Rightarrow> (Fail e, s)
         | Panic e \<Rightarrow> (Panic e, s)
         | Return p \<Rightarrow>
            (case key_path_for_profile key_env (pp_id p) of
               Return keyp \<Rightarrow>
                 if fs keyp = None then (Fail ''no ssh key'', s)
                 else if \<not> script then (Fail ''script not found'', s)
                 else if te_state s = JobRunning then (Fail ''busy'', s)
                 else
                   let job = job_name ''teth-'' now
                   in (Return (p, job),
                       s\<lparr>te_job := job, te_profile := pp_id p, te_state := JobRunning, te_started := now,
                         te_finished := 0, te_uplink := [], te_tethering_ok := False, te_internet_ok := False,
                         te_err := [], te_log := []\<rparr>)
             | _ \<Rightarrow> (Fail ''bad profile id'', s)))"

definition te_append_log :: "tether \<Rightarrow> string \<Rightarrow> tether" where
  "te_append_log s l = s\<lparr>te_log := ring_append (te_log s) l\<rparr>"

definition te_write :: "tether \<Rightarrow> string \<Rightarrow> tether" where
  "te_write s p = foldl te_append_log s (chunk_lines p)"

definition te_run_error :: "run_end \<Rightarrow> string" where
  "te_run_error r = (case r of RunOk \<Rightarrow> [] | RunTimeout \<Rightarrow> ''tethering timed out after 10m0s'' | RunError e \<Rightarrow> e)"

text \<open>The start of the run's log and its end.\<close>

definition te_run_begin :: "string \<Rightarrow> pi_profile \<Rightarrow> tether \<Rightarrow> tether" where
  "te_run_begin script p s =
     te_append_log s (''exec '' @ script @ '' (host '' @ pp_ip p @ '', user '' @ pp_user p @ '')'')"

definition te_run_finish :: "instant \<Rightarrow> string \<Rightarrow> run_end \<Rightarrow> tether \<Rightarrow> tether" where
  "te_run_finish now job r s =
     (let err = te_run_error r;
          (uplink, tok, iok, detail) = parse_tethering_result (te_log s)
      in if te_job s \<noteq> job then s
         else
           let s1 = (if err = [] then s\<lparr>te_state := JobSuccess\<rparr> else s\<lparr>te_state := JobFailed, te_err := err\<rparr>);
               s2 = s1\<lparr>te_finished := now\<rparr>;
               s3 = (if uplink \<noteq> [] then s2\<lparr>te_uplink := uplink\<rparr> else s2)
           in s3\<lparr>te_tethering_ok := tok, te_internet_ok := iok\<rparr>)"

definition te_fail_job :: "instant \<Rightarrow> string \<Rightarrow> string \<Rightarrow> tether \<Rightarrow> tether" where
  "te_fail_job now job err s =
     (if te_job s = job then s\<lparr>te_state := JobFailed, te_err := err, te_finished := now\<rparr> else s)"

text \<open>The body of the run's goroutine, with the chunks the script writes.\<close>

definition te_run :: "string \<Rightarrow> string \<Rightarrow> pi_profile \<Rightarrow> string \<Rightarrow> string list \<Rightarrow> run_end \<Rightarrow> instant \<Rightarrow> tether \<Rightarrow> tether" where
  "te_run key_env script p job chunks r now s =
     (case key_path_for_profile key_env (pp_id p) of
        Return _ \<Rightarrow> te_run_finish now job r (foldl te_write (te_run_begin script p s) chunks)
      | Fail e \<Rightarrow> te_fail_job now job (''key path: '' @ e) s
      | Panic e \<Rightarrow> s)"

record tether_status =
  tst_state :: string
  tst_job :: string
  tst_profile :: string
  tst_started :: "instant option"
  tst_finished :: "instant option"
  tst_uplink :: string
  tst_tethering_ok :: bool
  tst_internet_ok :: bool
  tst_err :: string
  tst_log_tail :: "string list"

definition tethering_status :: "tether \<Rightarrow> tether_status" where
  "tethering_status s = \<lparr>tst_state = job_state_name (te_state s), tst_job = te_job s, tst_profile = te_profile s,
     tst_started = (if is_zero (te_started s) then None else Some (te_started s)),
     tst_finished = (if is_zero (te_finished s) then None else Some (te_finished s)),
     tst_uplink = te_uplink s, tst_tethering_ok = te_tethering_ok s, tst_internet_ok = te_internet_ok s,
     tst_err = te_err s,
     tst_log_tail = (if length (te_log s) > job_log_tail_lines
                     then drop (length (te_log s) - job_log_tail_lines) (te_log s) else te_log s)\<rparr>"

subsection \<open>The provisioning wizard\<close>

record setup_pi =
  su_job :: string
  su_profile :: string
  su_state :: job_state
  su_started :: instant
  su_finished :: instant
  su_model :: string
  su_tier :: string
  su_err :: string
  su_key_installed :: bool
  su_key_error :: string
  su_log :: "string list"

definition new_setup_pi :: setup_pi where
  "new_setup_pi = \<lparr>su_job = [], su_profile = [], su_state = JobIdle, su_started = 0, su_finished = 0,
     su_model = [], su_tier = [], su_err = [], su_key_installed = False, su_key_error = [], su_log = []\<rparr>"

record setup_request =
  sr_ip :: string
  sr_user :: string
  sr_password :: string
  sr_profile_id :: string

text \<open>\<open>net.ParseIP\<close>: a dotted IPv4 address, or an IPv6 address with at most one \<open>::\<close> that stands
  for one group or more, whose last group may be an IPv4 address.\<close>

definition is_digit :: "char \<Rightarrow> bool" where
  "is_digit c \<longleftrightarrow> 48 \<le> (of_char c :: nat) \<and> (of_char c :: nat) \<le> 57"

definition is_hex :: "char \<Rightarrow> bool" where
  "is_hex c \<longleftrightarrow> is_digit c \<or> 65 \<le> (of_char c :: nat) \<and> (of_char c :: nat) \<le> 70
     \<or> 97 \<le> (of_char c :: nat) \<and> (of_char c :: nat) \<le> 102"

definition dec_value :: "string \<Rightarrow> nat" where
  "dec_value s = foldl (\<lambda>n c. n * 10 + (of_char c - 48)) 0 s"

definition is_octet :: "string \<Rightarrow> bool" where
  "is_octet s \<longleftrightarrow> s \<noteq> [] \<and> length s \<le> 3 \<and> list_all is_digit s \<and> (length s > 1 \<longrightarrow> hd s \<noteq> CHR ''0'')
     \<and> dec_value s \<le> 255"

definition is_ipv4 :: "string \<Rightarrow> bool" where
  "is_ipv4 s \<longleftrightarrow> length (split_on (CHR ''.'') s) = 4 \<and> list_all is_octet (split_on (CHR ''.'') s)"

definition is_group :: "string \<Rightarrow> bool" where
  "is_group s \<longleftrightarrow> s \<noteq> [] \<and> length s \<le> 4 \<and> list_all is_hex s"

text \<open>The number of 16 bit groups in a part of an IPv6 address; only the last may be IPv4.\<close>

definition ipv6_groups :: "bool \<Rightarrow> string \<Rightarrow> nat option" where
  "ipv6_groups at_end s =
     (if s = [] then Some 0
      else let gs = split_on (CHR '':'') s
           in if \<not> list_all is_group (butlast gs) then None
              else if is_group (last gs) then Some (length gs)
              else if at_end \<and> is_ipv4 (last gs) then Some (length gs + 1)
              else None)"

definition is_ipv6 :: "string \<Rightarrow> bool" where
  "is_ipv6 s =
     (case str_index ''::'' s of
        None \<Rightarrow> ipv6_groups True s = Some 8
      | Some i \<Rightarrow>
         (case (ipv6_groups False (take i s), ipv6_groups True (drop (i + 2) s)) of
            (Some a, Some b) \<Rightarrow> a + b \<le> 7
          | _ \<Rightarrow> False))"

definition parse_ip :: "string \<Rightarrow> bool" where
  "parse_ip s \<longleftrightarrow> is_ipv4 s \<or> is_ipv6 s"

definition validate_setup_pi_request :: "setup_request \<Rightarrow> unit outcome" where
  "validate_setup_pi_request q =
     (if trim_space (sr_ip q) = [] then Fail ''missing ip''
      else if \<not> parse_ip (sr_ip q) then Fail ''invalid ip''
      else if trim_space (sr_user q) = [] then Fail ''missing user''
      else if sr_password q = [] then Fail ''missing password''
      else if trim_space (sr_profile_id q) \<noteq> []
      then (case sanitize_profile_id (sr_profile_id q) of
              Return _ \<Rightarrow> Return () | Fail e \<Rightarrow> Fail e | Panic e \<Rightarrow> Panic e)
      else Return ())"

definition resolve_profile_id :: "settings option option \<Rightarrow> string \<Rightarrow> string outcome" where
  "resolve_profile_id source explicit0 =
     (let explicit = trim_space explicit0
      in if explicit \<noteq> [] then sanitize_profile_id explicit
         else case source of
           None \<Rightarrow> Return legacy_pi_profile_id
         | Some blob \<Rightarrow>
            (case resolve_active_profile blob of
               Some p \<Rightarrow> sanitize_profile_id (pp_id p)
             | None \<Rightarrow> Return legacy_pi_profile_id))"

definition start_setup_pi ::
  "settings option option \<Rightarrow> bool \<Rightarrow> instant \<Rightarrow> setup_request \<Rightarrow> setup_pi \<Rightarrow> (string \<times> string) outcome \<times> setup_pi" where
  "start_setup_pi source script now q s =
     (case validate_setup_pi_request q of
        Fail e \<Rightarrow> (Fail e, s)
      | Panic e \<Rightarrow> (Panic e, s)
      | Return _ \<Rightarrow>
          if \<not> script then (Fail ''script not found'', s)
          else case resolve_profile_id source (sr_profile_id q) of
            Fail e \<Rightarrow> (Fail e, s)
          | Panic e \<Rightarrow> (Panic e, s)
          | Return pid \<Rightarrow>
              if su_state s = JobRunning then (Fail ''busy'', s)
              else
                let job = job_name ''pi-'' now
                in (Return (job, pid),
                    s\<lparr>su_job := job, su_profile := pid, su_state := JobRunning, su_started := now, su_finished := 0,
                      su_model := [], su_tier := [], su_err := [], su_key_installed := False, su_key_error := [],
                      su_log := []\<rparr>))"

definition su_append_log :: "setup_pi \<Rightarrow> string \<Rightarrow> setup_pi" where
  "su_append_log s l = s\<lparr>su_log := ring_append (su_log s) l\<rparr>"

definition su_write :: "setup_pi \<Rightarrow> string \<Rightarrow> setup_pi" where
  "su_write s p = foldl su_append_log s (chunk_lines p)"

text \<open>The key of the run: its path, the public key when there is one, and what went wrong.\<close>

definition su_prepare_key ::
  "string \<Rightarrow> key_env \<Rightarrow> string \<Rightarrow> files \<Rightarrow> setup_pi \<Rightarrow> (string \<times> string \<times> string) \<times> files \<times> setup_pi" where
  "su_prepare_key var env pid fs s =
     (let failed = (\<lambda>path e fs. ((path, [], ''key generation failed: '' @ e), fs,
                      su_append_log s (''setup-pi: key generation failed: '' @ e)))
      in case key_path_for_profile var pid of
           Return path \<Rightarrow>
             (case ensure_key_for_profile var env pid fs of
                (Return _, fs1) \<Rightarrow>
                  (case read_public_key path fs1 of
                     Some pub \<Rightarrow> ((path, pub, []), fs1, s)
                   | None \<Rightarrow> failed path ''read'' fs1)
              | (Fail e, fs1) \<Rightarrow> failed path e fs1
              | (Panic e, fs1) \<Rightarrow> failed path e fs1)
         | Fail e \<Rightarrow> failed (key_path var) e fs
         | Panic e \<Rightarrow> failed (key_path var) e fs)"

definition su_run_error :: "run_end \<Rightarrow> string" where
  "su_run_error r = (case r of RunOk \<Rightarrow> [] | RunTimeout \<Rightarrow> ''provisioning timed out after 30m0s'' | RunError e \<Rightarrow> e)"

text \<open>The installation of the key after a successful run: whether it is installed, the key
  error, and the log.\<close>

definition su_install_key ::
  "string \<Rightarrow> string \<Rightarrow> string \<Rightarrow> string \<Rightarrow> ssh_result \<Rightarrow> ssh_result \<Rightarrow> setup_pi \<Rightarrow> (bool \<times> string) \<times> setup_pi" where
  "su_install_key script err pub key_err key pass s =
     (if err \<noteq> [] \<or> pub = [] then ((False, key_err), s)
      else case key_command script pub of
        Return _ \<Rightarrow>
          let res = run_key_first key pass;
              s1 = foldl su_append_log s (chunk_lines (kf_output res))
          in if kf_ok res then ((True, key_err), s1)
             else ((False, ''key installation failed: ssh''), s1)
      | Fail e \<Rightarrow> ((False, ''key installation failed: '' @ e), su_append_log s (''setup-pi: key installation failed: '' @ e))
      | Panic e \<Rightarrow> ((False, e), s))"

definition su_run_finish :: "instant \<Rightarrow> string \<Rightarrow> string \<Rightarrow> string \<times> string \<Rightarrow> bool \<times> string \<Rightarrow> setup_pi \<Rightarrow> setup_pi" where
  "su_run_finish now job err result key s =
     (if su_job s \<noteq> job then s
      else
        let s1 = (if err = [] then s\<lparr>su_state := JobSuccess\<rparr> else s\<lparr>su_state := JobFailed, su_err := err\<rparr>);
            s2 = s1\<lparr>su_finished := now\<rparr>;
            s3 = (if fst result \<noteq> [] then s2\<lparr>su_model := fst result\<rparr> else s2);
            s4 = (if snd result \<noteq> [] then s3\<lparr>su_tier := snd result\<rparr> else s3)
        in s4\<lparr>su_key_installed := fst key, su_key_error := snd key\<rparr>)"

record setup_env =
  se_key_var :: string
  se_key_env :: key_env
  se_script :: string
  se_install_script :: string
  se_chunks :: "string list"
  se_end :: run_end
  se_ssh_key :: ssh_result
  se_ssh_pass :: ssh_result
  se_done :: instant

definition su_run :: "setup_env \<Rightarrow> setup_request \<Rightarrow> string \<Rightarrow> string \<Rightarrow> files \<Rightarrow> setup_pi \<Rightarrow> files \<times> setup_pi" where
  "su_run env q job pid fs s =
     (let ((path, pub, key_err), fs1, s1) = su_prepare_key (se_key_var env) (se_key_env env) pid fs s;
          s2 = su_append_log s1 (''exec '' @ se_script env @ '' (host '' @ sr_ip q @ '', user '' @ sr_user q @ '')'');
          s3 = foldl su_write s2 (se_chunks env);
          err = su_run_error (se_end env);
          result = parse_setup_pi_result (su_log s3);
          (key, s4) = su_install_key (se_install_script env) err pub key_err (se_ssh_key env) (se_ssh_pass env) s3
      in (fs1, su_run_finish (se_done env) job err result key s4))"

record setup_pi_status =
  sst_state :: string
  sst_job :: string
  sst_profile :: string
  sst_started :: "instant option"
  sst_finished :: "instant option"
  sst_model :: string
  sst_tier :: string
  sst_err :: string
  sst_log_tail :: "string list"
  sst_key_installed :: bool
  sst_key_error :: string

definition get_setup_pi_status :: "setup_pi \<Rightarrow> setup_pi_status" where
  "get_setup_pi_status s = \<lparr>sst_state = job_state_name (su_state s), sst_job = su_job s, sst_profile = su_profile s,
     sst_started = (if is_zero (su_started s) then None else Some (su_started s)),
     sst_finished = (if is_zero (su_finished s) then None else Some (su_finished s)),
     sst_model = su_model s, sst_tier = su_tier s, sst_err = su_err s,
     sst_log_tail = (if length (su_log s) > job_log_tail_lines
                     then drop (length (su_log s) - job_log_tail_lines) (su_log s) else su_log s),
     sst_key_installed = su_key_installed s, sst_key_error = su_key_error s\<rparr>"

subsection \<open>The log rings\<close>

lemma ring_append_take_last [ring]: "ring_append ls l = take_last job_log_cap (ls @ [l])"
  by (simp add: ring_append_def take_last_def Let_def)

interpretation tether_log: ring_buffer te_append_log te_log "\<lambda>_. job_log_cap"
  by unfold_locales (simp_all add: te_append_log_def ring_append_take_last)

interpretation setup_log: ring_buffer su_append_log su_log "\<lambda>_. job_log_cap"
  by unfold_locales (simp_all add: su_append_log_def ring_append_take_last)

lemma te_writes_concat: "foldl te_write s chunks = foldl te_append_log s (concat (map chunk_lines chunks))"
  by (induction chunks arbitrary: s) (simp_all add: te_write_def)

lemma te_append_frame [simp]:
  "te_job (te_append_log s l) = te_job s" "te_state (te_append_log s l) = te_state s"
  "te_uplink (te_append_log s l) = te_uplink s"
  by (simp_all add: te_append_log_def)

lemma te_appends_frame [simp]:
  "te_job (foldl te_append_log s ls) = te_job s" "te_state (foldl te_append_log s ls) = te_state s"
  by (induction ls arbitrary: s) simp_all

lemma chunk_lines_line:
  "newline \<notin> set l \<Longrightarrow> l \<noteq> [] \<Longrightarrow> chunk_lines (l @ [newline]) = [l]"
proof -
  assume n: "newline \<notin> set l" and ne: "l \<noteq> []"
  from ne obtain xs x where "l = xs @ [x]" by (metis rev_exhaust)
  with n have "trim_right newline (l @ [newline]) = l" by (auto simp: trim_right_def)
  with n ne show ?thesis by (simp add: chunk_lines_def split_on_single)
qed

lemma find_rev_last:
  "P x \<Longrightarrow> (\<And>y. y \<in> set post \<Longrightarrow> \<not> P y) \<Longrightarrow> find P (rev (pre @ x # post)) = Some x"
proof -
  assume "P x" and "\<And>y. y \<in> set post \<Longrightarrow> \<not> P y"
  moreover have "find P (xs @ ys) = (case find P xs of Some z \<Rightarrow> Some z | None \<Rightarrow> find P ys)" for xs ys
    by (induction xs) auto
  moreover have "find P (rev post) = None" using calculation(2) by (simp add: find_None_iff)
  ultimately show ?thesis by simp
qed

lemma last_result_kept:
  assumes "has_prefix (trim_space x) result_prefix"
    and "\<And>y. y \<in> set post \<Longrightarrow> \<not> has_prefix (trim_space y) result_prefix"
    and "length post < job_log_cap"
  shows "last_result (take_last job_log_cap (pre @ x # post)) = Some (drop (length result_prefix) (trim_space x))"
proof -
  have "\<exists>pre'. take_last job_log_cap (pre @ x # post) = pre' @ x # post"
    using assms(3) by (auto simp: take_last_def drop_append drop_Cons')
  then obtain pre' where "take_last job_log_cap (pre @ x # post) = pre' @ x # post" ..
  with assms(1,2) show ?thesis
    by (simp add: last_result_def find_rev_last del: rev_append)
qed

text \<open>The line the script prints.\<close>

definition ok_text :: "bool \<Rightarrow> string" where
  "ok_text b = (if b then ''ok'' else ''fail'')"

definition result_line :: "string \<Rightarrow> bool \<Rightarrow> bool \<Rightarrow> string \<Rightarrow> string" where
  "result_line uplink tok iok detail =
     ''RESULT uplink='' @ [quote] @ uplink @ [quote] @ '' tethering='' @ [quote] @ ok_text tok @ [quote]
       @ '' internet='' @ [quote] @ ok_text iok @ [quote] @ '' detail='' @ [quote] @ detail @ [quote]"

lemma trim_space_id: "s \<noteq> [] \<Longrightarrow> \<not> is_space (hd s) \<Longrightarrow> \<not> is_space (last s) \<Longrightarrow> trim_space s = s"
proof -
  assume s: "s \<noteq> []" "\<not> is_space (hd s)" "\<not> is_space (last s)"
  then have "dropWhile is_space s = s" by (cases s) auto
  moreover have "dropWhile is_space (rev s) = rev s" using s by (cases s rule: rev_cases) auto
  ultimately show ?thesis by (simp add: trim_space_def)
qed

lemma trim_result_line [simp]: "trim_space (result_line u t i d) = result_line u t i d"
  by (rule trim_space_id) (simp_all add: result_line_def is_space_def quote_def)

lemma until_quote: "quote \<notin> set s \<Longrightarrow> until_char (\<lambda>c. c = quote) (s @ quote # r) = s"
  by (induction s) (auto simp: until_char_def)

lemma result_line_fields:
  assumes "u \<in> {''eth'', ''wlan'', ''none''}" and "quote \<notin> set d"
  shows "parse_quoted_field (drop 7 (result_line u t i d)) ''uplink'' = u"
    and "parse_quoted_field (drop 7 (result_line u t i d)) ''tethering'' = ok_text t"
    and "parse_quoted_field (drop 7 (result_line u t i d)) ''internet'' = ok_text i"
    and "parse_quoted_field (drop 7 (result_line u t i d)) ''detail'' = d"
proof -
  have td: "takeWhile (\<lambda>c. c \<noteq> quote) (d @ [quote]) = d"
    using until_quote [OF assms(2), of "[]"] by (simp add: until_char_def)
  show "parse_quoted_field (drop 7 (result_line u t i d)) ''uplink'' = u"
    "parse_quoted_field (drop 7 (result_line u t i d)) ''tethering'' = ok_text t"
    "parse_quoted_field (drop 7 (result_line u t i d)) ''internet'' = ok_text i"
    using assms(1)
    by (auto simp: parse_quoted_field_def result_line_def ok_text_def has_prefix_def until_char_def quote_def)
  show "parse_quoted_field (drop 7 (result_line u t i d)) ''detail'' = d"
    using assms(1) td
    by (auto simp: parse_quoted_field_def result_line_def ok_text_def has_prefix_def until_char_def quote_def)
qed

lemma drop_result_prefix [simp]: "drop (length result_prefix) (result_line u t i d) = drop 7 (result_line u t i d)"
  by (simp add: result_prefix_def numeral_eq_Suc)

lemma has_result_prefix [simp]: "has_prefix (result_line u t i d) result_prefix"
  by (simp add: result_line_def result_prefix_def has_prefix_def)

lemma newline_result_line: "newline \<notin> set d \<Longrightarrow> u \<in> {''eth'', ''wlan'', ''none''} \<Longrightarrow> newline \<notin> set (result_line u t i d)"
  by (auto simp: result_line_def newline_def quote_def ok_text_def)

lemma te_log_run:
  "length (te_log s) \<le> job_log_cap \<Longrightarrow>
    te_log (foldl te_write s chunks) = take_last job_log_cap (te_log s @ concat (map chunk_lines chunks))"
  using tether_log.run_items [of s "concat (map chunk_lines chunks)"] by (simp add: te_writes_concat)

lemma su_frame [simp]:
  "su_job (su_append_log s l) = su_job s" "su_state (su_append_log s l) = su_state s"
  by (simp_all add: su_append_log_def)

lemma su_appends_frame [simp]:
  "su_job (foldl su_append_log s ls) = su_job s" "su_state (foldl su_append_log s ls) = su_state s"
  by (induction ls arbitrary: s) simp_all

lemma su_writes_frame [simp]:
  "su_job (foldl su_write s ps) = su_job s"
  by (induction ps arbitrary: s) (simp_all add: su_write_def)

lemma su_prepare_key_job [simp]: "su_job (snd (snd (su_prepare_key var env pid fs s))) = su_job s"
  by (simp add: su_prepare_key_def Let_def split: outcome.split prod.split option.split)

lemma su_install_key_frame:
  "su_job (snd (su_install_key script err pub ke key pass s)) = su_job s"
  "fst (fst (su_install_key script err pub ke key pass s)) \<longleftrightarrow>
    err = [] \<and> pub \<noteq> [] \<and> safe_public_key_for_script pub = Return () \<and> kf_ok (run_key_first key pass)"
  by (cases "safe_public_key_for_script pub"; simp add: su_install_key_def key_command_def Let_def)+

lemma su_run_error_Nil: "su_run_error r = [] \<longleftrightarrow> r = RunOk \<or> r = RunError []"
  by (cases r) (auto simp: su_run_error_def)

subsection \<open>Properties\<close>

text \<open>the outcome of a tethering run is what its script reported. When the script writes its
  \<open>RESULT\<close> line as one chunk and fewer than 200 lines after it, none of them a \<open>RESULT\<close> line,
  the status shows the uplink and the two verdicts of that line whatever was logged before,
  and success exactly when the script exited well.\<close>

theorem tethering_outcome_read_back:
  assumes "u \<in> {''eth'', ''wlan'', ''none''}" and "quote \<notin> set d" and "newline \<notin> set d"
    and "length (te_log s) \<le> 200" and "te_job s = job"
    and "length (concat (map chunk_lines later)) < 200"
    and "\<forall>l \<in> set (concat (map chunk_lines later)). \<not> has_prefix (trim_space l) ''RESULT ''"
    and "s' = te_run_finish now job r (foldl te_write s (before @ [result_line u tok iok d @ [newline]] @ later))"
  shows "te_uplink s' = u \<and> te_tethering_ok s' = tok \<and> te_internet_ok s' = iok
    \<and> te_state s' = (if te_run_error r = [] then JobSuccess else JobFailed)"
proof -
  let ?line = "result_line u tok iok d"
  let ?s = "foldl te_write s (before @ [?line @ [newline]] @ later)"
  have line: "chunk_lines (?line @ [newline]) = [?line]"
    by (rule chunk_lines_line [OF newline_result_line [OF assms(3,1)]]) (simp add: result_line_def)
  have "te_log ?s = take_last job_log_cap (te_log s @ concat (map chunk_lines (before @ [?line @ [newline]] @ later)))"
    by (rule te_log_run) (use assms(4) in \<open>simp add: job_log_cap_def\<close>)
  then have log: "te_log ?s = take_last job_log_cap
      ((te_log s @ concat (map chunk_lines before)) @ ?line # concat (map chunk_lines later))"
    by (simp add: line)
  have "last_result (te_log ?s) = Some (drop (length result_prefix) (trim_space ?line))"
    unfolding log
  proof (rule last_result_kept)
    show "has_prefix (trim_space ?line) result_prefix" by simp
    show "length (concat (map chunk_lines later)) < job_log_cap"
      using assms(6) by (simp add: job_log_cap_def)
    show "\<And>y. y \<in> set (concat (map chunk_lines later)) \<Longrightarrow> \<not> has_prefix (trim_space y) result_prefix"
      using assms(7) unfolding result_prefix_def by blast
  qed
  then have "last_result (te_log ?s) = Some (drop 7 ?line)" by simp
  then have "parse_tethering_result (te_log ?s) = (u, tok, iok, d)"
    using result_line_fields [OF assms(1,2)] by (simp add: parse_tethering_result_def ok_text_def)
  moreover have "te_job ?s = job" using assms(5) by (simp only: te_writes_concat te_appends_frame)
  moreover have "u \<noteq> []" using assms(1) by auto
  ultimately show ?thesis unfolding assms(8) by (simp add: te_run_finish_def Let_def del: foldl_append)
qed

theorem tethering_outcome_read_back_witness:
  "te_uplink (te_run_finish 5 [] RunOk (foldl te_write new_tether
     ([[]] @ [result_line ''wlan'' True False ''usb'' @ [newline]] @ [[]]))) = ''wlan''"
proof -
  have c: "chunk_lines [] = []" by (simp add: chunk_lines_def trim_right_def)
  show ?thesis
    using tethering_outcome_read_back [OF _ _ _ _ _ _ _ refl, of "''wlan''" "''usb''" new_tether "[]" "[[]]" 5 RunOk "[[]]" True False]
    by (simp add: new_tether_def quote_def newline_def c)
qed

text \<open>A chunk boundary in the middle of the line loses the result: the two parts become two
  lines of the log.\<close>

lemma chunked_result_lost:
  "te_uplink (te_run_finish 5 [] RunOk (foldl te_write new_tether
     [''RESULT uplink='' @ [quote] @ ''wlan'' @ [quote] @ '' tethering='', [quote] @ ''ok'' @ [quote, newline]])) = ''wlan''
   \<and> \<not> te_tethering_ok (te_run_finish 5 [] RunOk (foldl te_write new_tether
     [''RESULT uplink='' @ [quote] @ ''wlan'' @ [quote] @ '' tethering='', [quote] @ ''ok'' @ [quote, newline]]))"
  by code_simp

text \<open>the wizard leaves no half state. A provisioning run is a success exactly when its script
  exited well, whatever happened to the key; and the key counts as installed only when the
  script succeeded, the profile has a usable public key and the installing command ran.\<close>

theorem setup_pi_no_half_state:
  assumes "su_job s = job" and "se_end env \<noteq> RunError []"
    and "su_run env q job pid fs s = (fs', s')"
  shows "su_state s' = (if se_end env = RunOk then JobSuccess else JobFailed)
    \<and> (su_key_installed s' \<longrightarrow> se_end env = RunOk \<and> kf_ok (run_key_first (se_ssh_key env) (se_ssh_pass env))
        \<and> (\<exists>path pub. key_path_for_profile (se_key_var env) pid = Return path
             \<and> read_public_key path fs' = Some pub \<and> safe_public_key_for_script pub = Return ()))"
proof -
  obtain path pub key_err fs1 s1 where prep:
    "su_prepare_key (se_key_var env) (se_key_env env) pid fs s = ((path, pub, key_err), fs1, s1)"
    by (metis prod_cases3)
  let ?s2 = "su_append_log s1 (''exec '' @ se_script env @ '' (host '' @ sr_ip q @ '', user '' @ sr_user q @ '')'')"
  let ?s3 = "foldl su_write ?s2 (se_chunks env)"
  let ?i = "su_install_key (se_install_script env) (su_run_error (se_end env)) pub key_err (se_ssh_key env) (se_ssh_pass env) ?s3"
  have "su_job s1 = job" using su_prepare_key_job [of "se_key_var env" "se_key_env env" pid fs s] prep assms(1) by simp
  then have job: "su_job (snd ?i) = job" by (simp add: su_install_key_frame)
  have s': "s' = su_run_finish (se_done env) job (su_run_error (se_end env)) (parse_setup_pi_result (su_log ?s3)) (fst ?i) (snd ?i)"
    and fs': "fs' = fs1"
    using assms(3) prep by (simp_all add: su_run_def split_beta Let_def)
  have st: "su_state s' = (if se_end env = RunOk then JobSuccess else JobFailed)"
    and inst: "su_key_installed s' = fst (fst ?i)"
    using job assms(2) unfolding s' by (simp_all add: su_run_finish_def Let_def su_run_error_Nil)
  have "pub \<noteq> [] \<Longrightarrow> key_path_for_profile (se_key_var env) pid = Return path \<and> read_public_key path fs1 = Some pub"
    using prep by (auto simp: su_prepare_key_def Let_def split: outcome.splits prod.splits option.splits)
  with st inst fs' assms(2) show ?thesis
    unfolding su_install_key_frame(2) by (auto simp: su_run_error_Nil)
qed

definition wizard_env :: setup_env where
  "wizard_env = \<lparr>se_key_var = [],
     se_key_env = \<lparr>ke_mkdir = True, ke_keygen = Some (''priv'', ''pub''), ke_derive = Map.empty, ke_write = True\<rparr>,
     se_script = ''setup-pi.sh'', se_install_script = quoted_line, se_chunks = [], se_end = RunOk,
     se_ssh_key = SshExit 255 [], se_ssh_pass = SshExit 5 [], se_done = 9\<rparr>"

theorem setup_pi_no_half_state_witness:
  "su_state (snd (su_run wizard_env \<lparr>sr_ip = ''1.2.3.4'', sr_user = ''pi'', sr_password = ''x'', sr_profile_id = []\<rparr>
     ''job'' ''pi-1'' Map.empty (new_setup_pi\<lparr>su_job := ''job''\<rparr>))) = JobSuccess"
  using setup_pi_no_half_state [OF _ _ prod.collapse [symmetric], of "new_setup_pi\<lparr>su_job := ''job''\<rparr>" "''job''" wizard_env
      "\<lparr>sr_ip = ''1.2.3.4'', sr_user = ''pi'', sr_password = ''x'', sr_profile_id = []\<rparr>" "''pi-1''" Map.empty]
  by (simp add: wizard_env_def)

end
