(* ===== verification/GoLib.thy ===== *)
theory GoLib
  imports Prelude "HOL-Library.Monad_Syntax" "HOL-Library.Log_Nat"
begin

text \<open>
  What the daemon uses of Go's library for its HTTP clients: the parser of \<open>encoding/json\<close> and
  the decoding of a parsed value into a struct (\<open>json.Unmarshal\<close>), the rounding of a rational
  number to the nearest \<open>float64\<close>, the query strings of \<open>net/url\<close>, and the answers of
  \<open>net/http\<close>.

  A field of a struct takes the last member whose name matches it up to the case of ASCII letters;
  a missing member or \<open>null\<close> leaves the zero value, and a value of the wrong type is an error.
  Texts are taken to be valid UTF-8, objects not to repeat a member that is itself a struct, and
  the nesting to stay below the limit of 10000 levels.
\<close>

named_theorems json_dec \<open>how values decode\<close>

subsection \<open>JSON text\<close>

datatype json =
    JNull
  | JBool bool
  | JNum rat bool  \<comment> \<open>the value, and whether the literal has neither fraction nor exponent\<close>
  | JStr string
  | JArr "json list"
  | JObj "(string \<times> json) list"

definition is_digit :: "char \<Rightarrow> bool" where
  "is_digit c \<longleftrightarrow> 48 \<le> (of_char c :: nat) \<and> (of_char c :: nat) \<le> 57"

definition digit_val :: "char \<Rightarrow> nat" where
  "digit_val c = of_char c - 48"

definition digits_val :: "string \<Rightarrow> nat" where
  "digits_val s = foldl (\<lambda>n c. 10 * n + digit_val c) 0 s"

definition hex_val :: "char \<Rightarrow> nat option" where
  "hex_val c =
     (let n = of_char c :: nat
      in if 48 \<le> n \<and> n \<le> 57 then Some (n - 48)
         else if 97 \<le> n \<and> n \<le> 102 then Some (n - 87)
         else if 65 \<le> n \<and> n \<le> 70 then Some (n - 55)
         else None)"

definition hex4 :: "char \<Rightarrow> char \<Rightarrow> char \<Rightarrow> char \<Rightarrow> nat option" where
  "hex4 a b c d =
     (case (hex_val a, hex_val b, hex_val c, hex_val d) of
        (Some w, Some x, Some y, Some z) \<Rightarrow> Some (((w * 16 + x) * 16 + y) * 16 + z)
      | _ \<Rightarrow> None)"

text \<open>The UTF-8 bytes of a code point.\<close>

definition utf8 :: "nat \<Rightarrow> string" where
  "utf8 n =
     (if n < 128 then [char_of n]
      else if n < 2048 then [char_of (192 + n div 64), char_of (128 + n mod 64)]
      else if n < 65536
      then [char_of (224 + n div 4096), char_of (128 + n div 64 mod 64), char_of (128 + n mod 64)]
      else [char_of (240 + n div 262144), char_of (128 + n div 4096 mod 64),
            char_of (128 + n div 64 mod 64), char_of (128 + n mod 64)])"

definition simple_escape :: "char \<Rightarrow> char option" where
  "simple_escape c = map_of
     [(CHR 0x22, CHR 0x22), (CHR 0x5C, CHR 0x5C), (CHR 0x2F, CHR 0x2F), (CHR 0x62, CHR 0x08),
      (CHR 0x66, CHR 0x0C), (CHR 0x6E, CHR 0x0A), (CHR 0x72, CHR 0x0D), (CHR 0x74, CHR 0x09)] c"

text \<open>What follows \<open>\\u\<close> and its four digits: a high surrogate followed by a low one is one
  code point, a surrogate on its own the replacement character.\<close>

definition second_unit :: "string \<Rightarrow> nat option" where
  "second_unit s =
     (case s of
        b # v # g1 # g2 # g3 # g4 # r \<Rightarrow> if b = CHR 0x5C \<and> v = CHR 0x75 then hex4 g1 g2 g3 g4 else None
      | _ \<Rightarrow> None)"

definition json_unit :: "nat \<Rightarrow> string \<Rightarrow> string \<times> string" where
  "json_unit u s =
     (if 55296 \<le> u \<and> u < 57344 then
        (case second_unit s of
           Some w \<Rightarrow> if u < 56320 \<and> 56320 \<le> w \<and> w < 57344
                     then (utf8 (65536 + (u - 55296) * 1024 + (w - 56320)), drop 6 s)
                     else (utf8 65533, s)
         | None \<Rightarrow> (utf8 65533, s))
      else (utf8 u, s))"

definition json_escape :: "string \<Rightarrow> (string \<times> string) option" where
  "json_escape s =
     (case s of
        [] \<Rightarrow> None
      | e # r \<Rightarrow>
          (if e = CHR 0x75 then
             (case r of
                a # b # c # d # q \<Rightarrow> map_option (\<lambda>u. json_unit u q) (hex4 a b c d)
              | _ \<Rightarrow> None)
           else map_option (\<lambda>x. ([x], r)) (simple_escape e)))"

lemma json_unit_shorter: "json_unit u s = (x, r) \<Longrightarrow> length r \<le> length s"
  by (auto simp: json_unit_def split: if_splits option.splits)

lemma json_escape_shorter: "json_escape s = Some (x, r) \<Longrightarrow> length r < length s"
  by (auto simp: json_escape_def less_Suc_eq_le dest!: json_unit_shorter split: list.splits if_splits)

text \<open>A byte below 32.\<close>

fun is_control :: "char \<Rightarrow> bool" where
  "is_control (Char b0 b1 b2 b3 b4 b5 b6 b7) = (if b5 then False else if b6 then False else \<not> b7)"

text \<open>The rest of a string after its opening quote.\<close>

function (sequential) json_string :: "string \<Rightarrow> (string \<times> string) option" where
  "json_string [] = None"
| "json_string (c # r) =
     (if c = CHR 0x22 then Some ([], r)
      else if c = CHR 0x5C then
        (case json_escape r of
           None \<Rightarrow> None
         | Some (x, q) \<Rightarrow> map_option (\<lambda>(s, p). (x @ s, p)) (json_string q))
      else if is_control c then None
      else map_option (\<lambda>(s, q). (c # s, q)) (json_string r))"
  by pat_completeness auto
termination
  by (relation "measure length") (auto dest: json_escape_shorter)

lemma json_string_shorter: "json_string s = Some (t, r) \<Longrightarrow> length r < length s"
proof (induction s arbitrary: t r rule: json_string.induct)
  case (2 c r0)
  then show ?case
    by (fastforce split: if_splits option.splits dest: json_escape_shorter)
qed simp

text \<open>A number: sign, digits without a leading zero, fraction, exponent.\<close>

definition json_int_part :: "string \<Rightarrow> (string \<times> string) option" where
  "json_int_part s =
     (case s of
        [] \<Rightarrow> None
      | c # r \<Rightarrow>
          (if c = CHR ''0'' then Some ([c], r)
           else if is_digit c then Some (takeWhile is_digit s, dropWhile is_digit s)
           else None))"

definition json_fraction :: "string \<Rightarrow> (string \<times> string) option" where
  "json_fraction s =
     (case s of
        [] \<Rightarrow> Some ([], [])
      | c # r \<Rightarrow>
          (if c = CHR ''.'' then
             (if takeWhile is_digit r = [] then None
              else Some (takeWhile is_digit r, dropWhile is_digit r))
           else Some ([], s)))"

text \<open>The exponent, \<open>None\<close> inside when there is none.\<close>

definition json_exponent :: "string \<Rightarrow> (int option \<times> string) option" where
  "json_exponent s =
     (case s of
        [] \<Rightarrow> Some (None, [])
      | c # r \<Rightarrow>
          (if c = CHR ''e'' \<or> c = CHR ''E'' then
             (let neg = (r \<noteq> [] \<and> hd r = CHR ''-'');
                  r1 = (if r \<noteq> [] \<and> (hd r = CHR ''-'' \<or> hd r = CHR ''+'') then tl r else r);
                  ds = takeWhile is_digit r1
              in if ds = [] then None
                 else Some (Some ((if neg then -1 else 1) * int (digits_val ds)), dropWhile is_digit r1))
           else Some (None, s)))"

definition ten_to :: "int \<Rightarrow> rat" where
  "ten_to e = (if 0 \<le> e then 10 ^ nat e else 1 / 10 ^ nat (- e))"

definition json_number :: "string \<Rightarrow> (json \<times> string) option" where
  "json_number s =
     (let neg = (s \<noteq> [] \<and> hd s = CHR ''-'')
      in do {
           (ip, r1) \<leftarrow> json_int_part (if neg then tl s else s);
           (fp, r2) \<leftarrow> json_fraction r1;
           (ex, r3) \<leftarrow> json_exponent r2;
           Some (JNum ((if neg then -1 else 1) * of_nat (digits_val (ip @ fp)) *
                        ten_to ((case ex of None \<Rightarrow> 0 | Some e \<Rightarrow> e) - int (length fp)))
                      (fp = [] \<and> ex = None), r3)
         })"

definition json_space :: "char \<Rightarrow> bool" where
  "json_space c \<longleftrightarrow> c = CHR 0x20 \<or> c = CHR 0x09 \<or> c = CHR 0x0A \<or> c = CHR 0x0D"

abbreviation skip_ws :: "string \<Rightarrow> string" where
  "skip_ws s \<equiv> dropWhile json_space s"

definition json_word :: "string \<Rightarrow> json \<Rightarrow> string \<Rightarrow> (json \<times> string) option" where
  "json_word w v s = (if has_prefix s w then Some (v, drop (length w) s) else None)"

lemma skip_ws_shorter: "length (skip_ws s) \<le> length s"
  by (rule length_dropWhile_le)

lemma skip_ws_Cons: "skip_ws s = c # r \<Longrightarrow> length r < length s"
  using skip_ws_shorter [of s] by simp

lemma json_int_part_shorter: "json_int_part s = Some (d, r) \<Longrightarrow> length r < length s"
  by (auto simp: json_int_part_def length_dropWhile_le less_Suc_eq_le split: list.splits if_splits)

lemma json_fraction_shorter: "json_fraction s = Some (d, r) \<Longrightarrow> length r \<le> length s"
  by (auto simp: json_fraction_def intro: le_SucI length_dropWhile_le split: list.splits if_splits)

lemma json_exponent_shorter: "json_exponent s = Some (d, r) \<Longrightarrow> length r \<le> length s"
  by (auto simp: json_exponent_def Let_def split: list.splits if_splits
      intro: le_SucI length_dropWhile_le order.trans [OF length_dropWhile_le])

lemma json_number_shorter: "json_number s = Some (v, r) \<Longrightarrow> length r < length s"
proof -
  assume *: "json_number s = Some (v, r)"
  let ?t = "if s \<noteq> [] \<and> hd s = CHR ''-'' then tl s else s"
  from * obtain ip r1 fp r2 ex where
    "json_int_part ?t = Some (ip, r1)" "json_fraction r1 = Some (fp, r2)" "json_exponent r2 = Some (ex, r)"
    by (auto simp: json_number_def Let_def Option.bind_eq_Some_conv)
  then have "length r1 < length ?t" "length r2 \<le> length r1" "length r \<le> length r2"
    by (auto dest: json_int_part_shorter json_fraction_shorter json_exponent_shorter)
  moreover have "length ?t \<le> length s" by auto
  ultimately show ?thesis by linarith
qed

text \<open>Values, elements and members. Every call reads at least one byte, so fuel of one more than
  the length of the text never runs out.\<close>

fun json_value :: "nat \<Rightarrow> string \<Rightarrow> (json \<times> string) option"
and json_elements :: "nat \<Rightarrow> string \<Rightarrow> (json list \<times> string) option"
and json_members :: "nat \<Rightarrow> string \<Rightarrow> ((string \<times> json) list \<times> string) option" where
  "json_value 0 s = None"
| "json_value (Suc n) s =
     (case skip_ws s of
        [] \<Rightarrow> None
      | c # r \<Rightarrow>
          (if c = CHR 0x22 then map_option (\<lambda>(t, q). (JStr t, q)) (json_string r)
           else if c = CHR ''['' then
             (case skip_ws r of
                [] \<Rightarrow> None
              | d # q \<Rightarrow> if d = CHR '']'' then Some (JArr [], q)
                         else map_option (\<lambda>(xs, p). (JArr xs, p)) (json_elements n r))
           else if c = CHR ''{'' then
             (case skip_ws r of
                [] \<Rightarrow> None
              | d # q \<Rightarrow> if d = CHR ''}'' then Some (JObj [], q)
                         else map_option (\<lambda>(xs, p). (JObj xs, p)) (json_members n r))
           else if c = CHR ''t'' then json_word ''true'' (JBool True) (c # r)
           else if c = CHR ''f'' then json_word ''false'' (JBool False) (c # r)
           else if c = CHR ''n'' then json_word ''null'' JNull (c # r)
           else json_number (c # r)))"
| "json_elements 0 s = None"
| "json_elements (Suc n) s =
     (case json_value n s of
        None \<Rightarrow> None
      | Some (v, r) \<Rightarrow>
          (case skip_ws r of
             [] \<Rightarrow> None
           | c # q \<Rightarrow>
               if c = CHR '','' then map_option (\<lambda>(vs, p). (v # vs, p)) (json_elements n q)
               else if c = CHR '']'' then Some ([v], q)
               else None))"
| "json_members 0 s = None"
| "json_members (Suc n) s =
     (case skip_ws s of
        [] \<Rightarrow> None
      | c # r \<Rightarrow>
          (if c \<noteq> CHR 0x22 then None
           else
             (case json_string r of
                None \<Rightarrow> None
              | Some (k, r1) \<Rightarrow>
                  (case skip_ws r1 of
                     [] \<Rightarrow> None
                   | d # r2 \<Rightarrow>
                       (if d \<noteq> CHR '':'' then None
                        else
                          (case json_value n r2 of
                             None \<Rightarrow> None
                           | Some (v, r3) \<Rightarrow>
                               (case skip_ws r3 of
                                  [] \<Rightarrow> None
                                | e # q \<Rightarrow>
                                    if e = CHR '','' then map_option (\<lambda>(vs, p). ((k, v) # vs, p)) (json_members n q)
                                    else if e = CHR ''}'' then Some ([(k, v)], q)
                                    else None)))))))"

text \<open>A text is one value with white space around it. Two units of fuel per byte, because
  an element and its value read the same byte.\<close>

definition json_parse :: "string \<Rightarrow> json option" where
  "json_parse s =
     (case json_value (2 * length s + 2) s of
        Some (v, r) \<Rightarrow> if skip_ws r = [] then Some v else None
      | None \<Rightarrow> None)"

text \<open>\<open>json.NewDecoder(r).Decode\<close> reads the first value and leaves the rest.\<close>

definition json_decode :: "string \<Rightarrow> json option" where
  "json_decode s = map_option fst (json_value (2 * length s + 2) s)"

lemma json_shorter_all:
  "(\<forall>s v r. json_value n s = Some (v, r) \<longrightarrow> length r < length s) \<and>
   (\<forall>s vs r. json_elements n s = Some (vs, r) \<longrightarrow> length r < length s) \<and>
   (\<forall>s ms r. json_members n s = Some (ms, r) \<longrightarrow> length r < length s)"
proof (induction n)
  case (Suc n)
  then have V: "\<And>s v r. json_value n s = Some (v, r) \<Longrightarrow> length r < length s"
    and E: "\<And>s vs r. json_elements n s = Some (vs, r) \<Longrightarrow> length r < length s"
    and M: "\<And>s ms r. json_members n s = Some (ms, r) \<Longrightarrow> length r < length s"
    by blast+
  have "length r < length s" if "json_value (Suc n) s = Some (v, r)" for s v r
    using that
    by (auto simp: json_word_def split: list.splits if_splits
        dest!: skip_ws_Cons json_string_shorter json_number_shorter E M)
  moreover have "length r < length s" if "json_elements (Suc n) s = Some (vs, r)" for s vs r
    using that by (auto split: list.splits if_splits option.splits dest!: skip_ws_Cons V E)
  moreover have "length r < length s" if "json_members (Suc n) s = Some (ms, r)" for s ms r
    using that
    by (auto split: list.splits if_splits option.splits dest!: skip_ws_Cons json_string_shorter V M)
  ultimately show ?case by blast
qed simp

lemmas json_shorter =
  json_shorter_all [THEN conjunct1, rule_format]
  json_shorter_all [THEN conjunct2, THEN conjunct1, rule_format]
  json_shorter_all [THEN conjunct2, THEN conjunct2, rule_format]

text \<open>The fuel of \<open>json_parse\<close> is enough: more of it does not change the result.\<close>

lemma json_fuel_all:
  "(\<forall>s m. 2 * length s < n \<longrightarrow> 2 * length s < m \<longrightarrow> json_value n s = json_value m s) \<and>
   (\<forall>s m. 2 * length s + 1 < n \<longrightarrow> 2 * length s + 1 < m \<longrightarrow> json_elements n s = json_elements m s) \<and>
   (\<forall>s m. 2 * length s + 1 < n \<longrightarrow> 2 * length s + 1 < m \<longrightarrow> json_members n s = json_members m s)"
proof (induction n)
  case (Suc n)
  then have V: "\<And>s m. 2 * length s < n \<Longrightarrow> 2 * length s < m \<Longrightarrow> json_value n s = json_value m s"
    and E: "\<And>s m. 2 * length s + 1 < n \<Longrightarrow> 2 * length s + 1 < m \<Longrightarrow> json_elements n s = json_elements m s"
    and M: "\<And>s m. 2 * length s + 1 < n \<Longrightarrow> 2 * length s + 1 < m \<Longrightarrow> json_members n s = json_members m s"
    by blast+
  have "json_value (Suc n) s = json_value m s"
    if n: "2 * length s < Suc n" and m: "2 * length s < m" for s m
  proof -
    obtain k where k: "m = Suc k" using m by (cases m) auto
    have "json_elements n r = json_elements k r" "json_members n r = json_members k r"
      if "skip_ws s = c # r" for c r
      using skip_ws_Cons [OF that] n m k by (auto intro!: E M)
    then show ?thesis by (cases "skip_ws s") (simp_all only: k json_value.simps list.case)
  qed
  moreover have "json_elements (Suc n) s = json_elements m s"
    if n: "2 * length s + 1 < Suc n" and m: "2 * length s + 1 < m" for s m
  proof -
    obtain k where k: "m = Suc k" using m by (cases m) auto
    have v: "json_value n s = json_value k s" using n m k by (auto intro!: V)
    have "json_elements n q = json_elements k q"
      if "json_value k s = Some (v, r)" "skip_ws r = c # q" for v r c q
      using json_shorter(1) [OF that(1)] skip_ws_Cons [OF that(2)] n m k by (auto intro!: E)
    then show ?thesis unfolding k json_elements.simps v
      by (intro option.case_cong list.case_cong prod.case_cong refl) (simp only:)
  qed
  moreover have "json_members (Suc n) s = json_members m s"
    if n: "2 * length s + 1 < Suc n" and m: "2 * length s + 1 < m" for s m
  proof -
    obtain k where k: "m = Suc k" using m by (cases m) auto
    have v: "json_value n r2 = json_value k r2"
      if "skip_ws s = c # r" "json_string r = Some (key, r1)" "skip_ws r1 = d # r2" for c r key r1 d r2
      using skip_ws_Cons [OF that(1)] json_string_shorter [OF that(2)] skip_ws_Cons [OF that(3)] n m k
      by (auto intro!: V)
    have "json_members n q = json_members k q"
      if "skip_ws s = c # r" "json_string r = Some (key, r1)" "skip_ws r1 = d # r2"
        "json_value k r2 = Some (v, r3)" "skip_ws r3 = e # q" for c r key r1 d r2 v r3 e q
      using skip_ws_Cons [OF that(1)] json_string_shorter [OF that(2)] skip_ws_Cons [OF that(3)]
        json_shorter(1) [OF that(4)] skip_ws_Cons [OF that(5)] n m k
      by (auto intro!: M)
    with v show ?thesis unfolding k json_members.simps
      by (intro option.case_cong list.case_cong prod.case_cong if_cong refl) (simp_all only:)
  qed
  ultimately show ?case by blast
qed simp

lemma json_parse_fuel:
  "2 * length s < n \<Longrightarrow>
    json_parse s = (case json_value n s of
        Some (v, r) \<Rightarrow> if skip_ws r = [] then Some v else None | None \<Rightarrow> None)"
  using json_fuel_all [of "2 * length s + 2"] by (auto simp: json_parse_def)

subsection \<open>Doubles\<close>

text \<open>\<open>f64 q\<close> is the double nearest to \<open>q\<close>, ties to even, for the range of the normal numbers.\<close>

definition two_to :: "int \<Rightarrow> rat" where
  "two_to e = (if 0 \<le> e then 2 ^ nat e else 1 / 2 ^ nat (- e))"

definition round_even :: "rat \<Rightarrow> int" where
  "round_even q =
     (let f = \<lfloor>q\<rfloor>; t = q - of_int f
      in if t < 1 / 2 then f else if 1 / 2 < t then f + 1 else if even f then f else f + 1)"

definition f64_exponent :: "rat \<Rightarrow> int" where
  "f64_exponent a =
     (let (n, d) = quotient_of a; k = bitlen n - bitlen d
      in if two_to k \<le> a then k else k - 1)"

definition f64 :: "rat \<Rightarrow> rat" where
  "f64 q =
     (if q = 0 then 0
      else let a = \<bar>q\<bar>; e = f64_exponent a
           in sgn q * of_int (round_even (a * two_to (52 - e))) * two_to (e - 52))"

text \<open>Go's conversion of a floating point number to an integer, in the range of int64.\<close>

definition trunc :: "rat \<Rightarrow> int" where
  "trunc q = (if q \<ge> 0 then \<lfloor>q\<rfloor> else \<lceil>q\<rceil>)"

lemma trunc_nonneg: "0 \<le> q \<Longrightarrow> 0 \<le> trunc q"
  by (simp add: trunc_def)

lemma trunc_of_int [simp]: "trunc (of_int n) = n"
  by (simp add: trunc_def)

definition f64_max :: rat where
  "f64_max = of_int (2 ^ 1024 - 2 ^ 971)"

subsection \<open>Decoding into a struct\<close>

definition fold_key :: "string \<Rightarrow> string" where
  "fold_key s = map (\<lambda>c. let n = of_char c :: nat in if 97 \<le> n \<and> n \<le> 122 then char_of (n - 32) else c) s"

text \<open>Whether two names are the same up to the case of ASCII letters.\<close>

definition same_key :: "string \<Rightarrow> string \<Rightarrow> bool" where
  "same_key k k' =
     (if k = k' then True else if length k = length k' then fold_key k = fold_key k' else False)"

definition member :: "string \<Rightarrow> (string \<times> json) list \<Rightarrow> json option" where
  "member k kvs = map_option snd (find (\<lambda>(k', v). same_key k' k \<and> v \<noteq> JNull) (rev kvs))"

definition field :: "string \<Rightarrow> 'a \<Rightarrow> (json \<Rightarrow> 'a option) \<Rightarrow> json \<Rightarrow> 'a option" where
  "field k zero d j =
     (case j of
        JNull \<Rightarrow> Some zero
      | JObj kvs \<Rightarrow> (case member k kvs of None \<Rightarrow> Some zero | Some v \<Rightarrow> d v)
      | _ \<Rightarrow> None)"

text \<open>A pointer to a struct stays nil when the member is missing or \<open>null\<close>.\<close>

definition opt_field :: "string \<Rightarrow> (json \<Rightarrow> 'a option) \<Rightarrow> json \<Rightarrow> 'a option option" where
  "opt_field k d j = field k None (\<lambda>v. map_option Some (d v)) j"

fun dec_str :: "json \<Rightarrow> string option" where
  "dec_str (JStr s) = Some s"
| "dec_str JNull = Some []"
| "dec_str _ = None"

fun dec_bool :: "json \<Rightarrow> bool option" where
  "dec_bool (JBool b) = Some b"
| "dec_bool JNull = Some False"
| "dec_bool _ = None"

text \<open>\<open>int\<close> and \<open>int64\<close>: an integer literal in range.\<close>

fun dec_int :: "json \<Rightarrow> int option" where
  "dec_int (JNum q lit) =
     (if lit \<and> -9223372036854775808 \<le> q \<and> q \<le> 9223372036854775807 then Some \<lfloor>q\<rfloor> else None)"
| "dec_int JNull = Some 0"
| "dec_int _ = None"

fun dec_float :: "json \<Rightarrow> rat option" where
  "dec_float (JNum q lit) = (if \<bar>f64 q\<bar> \<le> f64_max then Some (f64 q) else None)"
| "dec_float JNull = Some 0"
| "dec_float _ = None"

definition dec_all :: "('a \<Rightarrow> 'b option) \<Rightarrow> 'a list \<Rightarrow> 'b list option" where
  "dec_all d xs = those (map d xs)"

fun dec_list :: "(json \<Rightarrow> 'a option) \<Rightarrow> json \<Rightarrow> 'a list option" where
  "dec_list d (JArr xs) = dec_all d xs"
| "dec_list d JNull = Some []"
| "dec_list d _ = None"

text \<open>A \<open>json.RawMessage\<close> keeps the value as it is; a \<open>map[string]json.RawMessage\<close> the members,
  the last one of a name.\<close>

fun dec_map :: "json \<Rightarrow> (string \<times> json) list option" where
  "dec_map (JObj kvs) = Some kvs"
| "dec_map JNull = Some []"
| "dec_map _ = None"

definition raw_get :: "string \<Rightarrow> (string \<times> json) list \<Rightarrow> json option" where
  "raw_get k kvs = map_of (rev kvs) k"

text \<open>A raw field is absent, or the value as it is, \<open>null\<close> included.\<close>

definition raw_field :: "string \<Rightarrow> json \<Rightarrow> json option option" where
  "raw_field k j =
     (case j of
        JNull \<Rightarrow> Some None
      | JObj kvs \<Rightarrow> Some (map_option snd (find (\<lambda>(k', v). same_key k' k) (rev kvs)))
      | _ \<Rightarrow> None)"

lemma dec_all_Nil [json_dec, simp]: "dec_all d [] = Some []"
  by (simp add: dec_all_def)

lemma dec_all_Cons [json_dec, simp]:
  "dec_all d (x # xs) = (case d x of None \<Rightarrow> None | Some y \<Rightarrow> map_option ((#) y) (dec_all d xs))"
  by (simp add: dec_all_def split: option.split)

lemma dec_all_length: "dec_all d xs = Some ys \<Longrightarrow> length ys = length xs"
  by (induction xs arbitrary: ys) (auto split: option.splits)

lemma dec_all_in: "dec_all d xs = Some ys \<Longrightarrow> y \<in> set ys \<Longrightarrow> \<exists>x \<in> set xs. d x = Some y"
  by (induction xs arbitrary: ys) (auto split: option.splits)

lemma json_parse_null [json_dec]: "field k z d JNull = Some z"
  by (simp add: field_def)

subsection \<open>Numbers as text\<close>

definition show_int :: "int \<Rightarrow> string" where
  "show_int n = (if n < 0 then CHR ''-'' # show_nat (nat (- n)) else show_nat (nat n))"

lemma digit_chars:
  "char_of (48 :: nat) = CHR ''0''" "char_of (49 :: nat) = CHR ''1''" "char_of (50 :: nat) = CHR ''2''"
  "char_of (51 :: nat) = CHR ''3''" "char_of (52 :: nat) = CHR ''4''" "char_of (53 :: nat) = CHR ''5''"
  "char_of (54 :: nat) = CHR ''6''" "char_of (55 :: nat) = CHR ''7''" "char_of (56 :: nat) = CHR ''8''"
  "char_of (57 :: nat) = CHR ''9''"
  by code_simp+

lemmas show_eval = show_int_def show_nat.simps digit_chars

text \<open>\<open>strings.LastIndex(s, c)\<close> for one byte: what follows the last occurrence, all of \<open>s\<close>
  when there is none; and what precedes it, the byte included, nothing when there is none.\<close>

definition after_last :: "char \<Rightarrow> string \<Rightarrow> string" where
  "after_last c s = rev (takeWhile (\<lambda>x. x \<noteq> c) (rev s))"

definition upto_last :: "char \<Rightarrow> string \<Rightarrow> string" where
  "upto_last c s = rev (dropWhile (\<lambda>x. x \<noteq> c) (rev s))"

lemma after_last_no_sep: "c \<notin> set (after_last c s)"
  by (auto simp: after_last_def dest: set_takeWhileD)

lemma upto_after_last [simp]: "upto_last c s @ after_last c s = s"
  by (simp add: upto_last_def after_last_def flip: rev_append)

subsection \<open>Query strings and answers\<close>

fun str_less :: "string \<Rightarrow> string \<Rightarrow> bool" where
  "str_less [] [] = False"
| "str_less [] (_ # _) = True"
| "str_less (_ # _) [] = False"
| "str_less (a # as) (b # bs) =
     ((of_char a :: nat) < of_char b \<or> a = b \<and> str_less as bs)"

definition unreserved :: "char \<Rightarrow> bool" where
  "unreserved c \<longleftrightarrow>
     (let n = of_char c :: nat
      in 48 \<le> n \<and> n \<le> 57 \<or> 65 \<le> n \<and> n \<le> 90 \<or> 97 \<le> n \<and> n \<le> 122 \<or> c \<in> set ''-_.~'')"

definition query_escape :: "string \<Rightarrow> string" where
  "query_escape s =
     concat (map (\<lambda>c. if unreserved c then [c]
                      else if c = CHR '' '' then ''+''
                      else CHR ''%'' # [hex_digit (of_char c div 16), hex_digit (of_char c mod 16)]) s)"

text \<open>\<open>url.Values.Encode\<close>: the pairs in the order of their keys, one value for each.\<close>

definition encode_query :: "(string \<times> string) list \<Rightarrow> string" where
  "encode_query kvs =
     (case map (\<lambda>(k, v). query_escape k @ ''='' @ query_escape v)
             (stable_sort (\<lambda>a b. str_less (fst a) (fst b)) kvs) of
        [] \<Rightarrow> []
      | p # ps \<Rightarrow> p @ concat (map ((@) ''&'') ps))"

text \<open>A request fails, or is answered with a status and a body that may break off.\<close>

datatype http = NoResponse | Response int "string option"

end
