(* ===== verification/PiSession.thy ===== *)
theory PiSession
  imports Interfaces PiProfiles GoLib
begin

text \<open>
  The ssh session to the active Raspberry Pi (\<open>daemon/pi_session.go\<close>): one goroutine that probes
  the Pi of the active profile, holds one long-lived \<open>ssh -N\<close>, looks every ten seconds whether the
  profile has changed, and tries again on the same grid when the session is gone.

  The goroutine is a state machine over the places where it waits (\<open>pi_place\<close>); what it waits for,
  and the calls of other goroutines, are events. The mutex is part of the state: one path of
  \<open>resolveTarget\<close> returns while it holds it, and whoever locks it next waits forever. The list
  of the ssh processes that are alive is a ghost.
\<close>

subsection \<open>The session\<close>

datatype pi_conn = Disconnected | Connecting | Connected

fun pi_conn_name :: "pi_conn \<Rightarrow> string" where
  "pi_conn_name Disconnected = ''disconnected''"
| "pi_conn_name Connecting = ''connecting''"
| "pi_conn_name Connected = ''connected''"

record pi_identity =
  pi_id :: string
  pi_ip :: string
  pi_user :: string
  pi_key :: string

definition no_identity :: pi_identity where
  "no_identity = \<lparr>pi_id = [], pi_ip = [], pi_user = [], pi_key = []\<rparr>"

definition same_identity :: "pi_identity \<Rightarrow> pi_identity \<Rightarrow> bool" where
  "same_identity p q \<longleftrightarrow> pi_id p = pi_id q \<and> pi_ip p = pi_ip q \<and> pi_user p = pi_user q \<and> pi_key p = pi_key q"

text \<open>Where the goroutine of the loop is: about to attempt, watching a session, waiting for the
  next tick of the grid, or gone.\<close>

datatype pi_place = Attempting | Watching | Waiting | Gone

record pi_session =
  ps_key_var :: string  \<comment> \<open>the environment variable that moves the keys\<close>
  ps_state :: pi_conn
  ps_target_id :: string
  ps_last_bad :: string
  ps_last_attempt :: instant
  ps_attempts :: nat
  ps_log :: "string list"
  ps_sess :: "pi_identity option"
  ps_bound :: pi_identity
  ps_locked :: bool
  ps_stopped :: bool
  ps_place :: pi_place
  ps_alive :: "pi_identity list"

definition new_pi_session :: "string \<Rightarrow> pi_session" where
  "new_pi_session var = \<lparr>ps_key_var = var, ps_state = Disconnected, ps_target_id = [], ps_last_bad = [],
     ps_last_attempt = 0, ps_attempts = 0, ps_log = [], ps_sess = None, ps_bound = no_identity,
     ps_locked = False, ps_stopped = False, ps_place = Attempting, ps_alive = []\<rparr>"

definition set_conn :: "pi_conn \<Rightarrow> pi_session \<Rightarrow> pi_session" where
  "set_conn c s = s\<lparr>ps_state := c\<rparr>"

definition pi_log_cap :: nat where "pi_log_cap = 100"

definition pi_append_log :: "pi_session \<Rightarrow> string \<Rightarrow> pi_session" where
  "pi_append_log s line =
     (let ls = ps_log s @ [line]
      in s\<lparr>ps_log := (if length ls > pi_log_cap then drop (length ls - pi_log_cap) ls else ls)\<rparr>)"

definition one_line :: "string \<Rightarrow> string" where
  "one_line s = concat (map (\<lambda>c. if c = CHR 0x0A then '' | '' else [c]) (trim_space s))"

text \<open>What the process prints is cut into lines.\<close>

definition session_write :: "pi_session \<Rightarrow> string \<Rightarrow> pi_session" where
  "session_write s text =
     foldl pi_append_log s (filter (\<lambda>l. l \<noteq> []) (split_on CHR 0x0A (trim_right CHR 0x0A text)))"

subsection \<open>The target\<close>

text \<open>The active profile of the settings, when it has an address and a user.\<close>

definition load_pi_profile_target :: "settings option \<Rightarrow> (string \<times> string \<times> string) option" where
  "load_pi_profile_target blob =
     (case resolve_active_profile blob of
        None \<Rightarrow> None
      | Some p \<Rightarrow>
          let ip = trim_space (pp_ip p); user = trim_space (pp_user p)
          in if ip = [] \<or> user = [] then None else Some (pp_id p, ip, user))"

definition set_target_id :: "string \<Rightarrow> pi_session \<Rightarrow> pi_session" where
  "set_target_id i s = s\<lparr>ps_target_id := i, ps_last_bad := (if i = [] then ps_last_bad s else [])\<rparr>"

text \<open>A profile id that is no file name is warned about once; that path locks the mutex again
  after the warning and returns with it.\<close>

definition resolve_target :: "settings option \<Rightarrow> pi_session \<Rightarrow> pi_identity option \<times> pi_session" where
  "resolve_target blob s =
     (case load_pi_profile_target blob of
        None \<Rightarrow> (None, set_target_id [] s)
      | Some (i, ip, user) \<Rightarrow>
          (if ip = [] \<or> user = [] then (None, set_target_id [] s)
           else case key_path_for_profile (ps_key_var s) i of
                  Return path \<Rightarrow>
                    (Some \<lparr>pi_id = i, pi_ip = ip, pi_user = user, pi_key = path\<rparr>, set_target_id i s)
                | _ \<Rightarrow>
                    (let s1 = set_target_id [] s
                     in (None, if ps_last_bad s1 \<noteq> i then s1\<lparr>ps_last_bad := i, ps_locked := True\<rparr> else s1))))"

subsection \<open>The long-lived process\<close>

definition kill_session :: "pi_session \<Rightarrow> pi_session" where
  "kill_session s =
     (case ps_sess s of
        None \<Rightarrow> s
      | Some i \<Rightarrow> s\<lparr>ps_sess := None, ps_bound := no_identity, ps_alive := remove1 i (ps_alive s)\<rparr>)"

definition finish_session :: "pi_session \<Rightarrow> pi_session" where
  "finish_session s =
     set_conn Disconnected
       (s\<lparr>ps_sess := None, ps_bound := no_identity,
          ps_alive := (case ps_sess s of None \<Rightarrow> ps_alive s | Some i \<Rightarrow> remove1 i (ps_alive s))\<rparr>)"

definition session_args :: "pi_identity \<Rightarrow> string list" where
  "session_args i =
     [''-N'', ''-i'', pi_key i, ''-o'', ''BatchMode=yes'', ''-o'', ''StrictHostKeyChecking=accept-new'',
      ''-o'', ''ConnectTimeout=10'', ''-o'', ''ServerAliveInterval=10'', ''-o'', ''ServerAliveCountMax=3'',
      ''-o'', ''LogLevel=ERROR'', pi_user i @ ''@'' @ pi_ip i]"

text \<open>What an attempt meets: the settings, which key files are there, the clock, how the probe of
  a target ends, and the error of a process that cannot be started with its arguments.\<close>

record pi_env =
  pv_blob :: "settings option"
  pv_exists :: "string \<Rightarrow> bool"
  pv_now :: instant
  pv_probe :: "pi_identity \<Rightarrow> ssh_result"
  pv_start :: "string list \<Rightarrow> string option"

text \<open>The error of a probe; the text of a process that could not run is not modelled.\<close>

definition probe_error :: "ssh_result \<Rightarrow> string option" where
  "probe_error r =
     (case r of
        SshOk _ \<Rightarrow> None
      | SshExit c out \<Rightarrow> Some (''exit status '' @ show_int c @ '' ('' @ one_line out @ '')'')
      | SshNotRun \<Rightarrow> Some (''exec ()''))"

definition start_session :: "pi_env \<Rightarrow> pi_identity \<Rightarrow> pi_session \<Rightarrow> string option \<times> pi_session" where
  "start_session env i s =
     (case pv_start env (session_args i) of
        Some err \<Rightarrow> (Some err, s)
      | None \<Rightarrow> (None, s\<lparr>ps_alive := ps_alive s @ [i]\<rparr>))"

text \<open>The two phases of a connect to a target whose key is there.\<close>

definition connect_target :: "pi_env \<Rightarrow> pi_identity \<Rightarrow> pi_session \<Rightarrow> bool \<times> pi_session" where
  "connect_target env i s =
     (let s1 = set_conn Connecting (s\<lparr>ps_last_attempt := pv_now env, ps_attempts := Suc (ps_attempts s)\<rparr>)
      in case probe_error (pv_probe env i) of
           Some err \<Rightarrow>
             (False, set_conn Disconnected (pi_append_log s1
                (''pi: reconnect probe to '' @ pi_user i @ ''@'' @ pi_ip i @ '' (profile '' @ pi_id i @
                 '') failed: '' @ one_line err)))
         | None \<Rightarrow>
             (case start_session env i (set_conn Connected s1) of
                (Some err, s2) \<Rightarrow>
                  (False, set_conn Disconnected (pi_append_log s2 (''pi: starting session failed: '' @ one_line err)))
              | (None, s2) \<Rightarrow> (True, s2\<lparr>ps_sess := Some i, ps_bound := i\<rparr>)))"

text \<open>One attempt; with the mutex left locked it does not come back.\<close>

definition attempt :: "pi_env \<Rightarrow> pi_session \<Rightarrow> bool \<times> pi_session" where
  "attempt env s =
     (let (t, s1) = resolve_target (pv_blob env) s
      in if ps_locked s1 then (False, s1)
         else case t of
                None \<Rightarrow> (False, set_conn Disconnected (kill_session s1))
              | Some i \<Rightarrow>
                  (if ps_sess s1 \<noteq> None \<and> same_identity (ps_bound s1) i then (True, s1)
                   else
                     let s2 = (if ps_sess s1 \<noteq> None then set_conn Disconnected (kill_session s1) else s1)
                     in if \<not> pv_exists env (pi_key i) then (False, set_conn Disconnected s2)
                        else connect_target env i s2))"

subsection \<open>The loop and the calls of others\<close>

text \<open>The end of the goroutine when the stop channel is closed.\<close>

definition settle :: "pi_session \<Rightarrow> pi_session" where
  "settle s =
     (if \<not> ps_stopped s then s
      else case ps_place s of
             Watching \<Rightarrow> (finish_session (kill_session s))\<lparr>ps_place := Gone\<rparr>
           | Waiting \<Rightarrow> s\<lparr>ps_place := Gone\<rparr>
           | _ \<Rightarrow> s)"

definition attempt_round :: "pi_env \<Rightarrow> pi_session \<Rightarrow> pi_session" where
  "attempt_round env s =
     (let (running, s1) = attempt env s
      in if ps_locked s1 then s1
         else settle (s1\<lparr>ps_place := (if running then Watching else Waiting)\<rparr>))"

definition watch_tick :: "settings option \<Rightarrow> pi_session \<Rightarrow> pi_session" where
  "watch_tick blob s =
     (let (t, s1) = resolve_target blob s
      in if ps_locked s1 then s1
         else case t of
                Some i \<Rightarrow>
                  if same_identity i (ps_bound s1) then s1
                  else (finish_session (kill_session s1))\<lparr>ps_place := Attempting\<rparr>
              | None \<Rightarrow> (finish_session (kill_session s1))\<lparr>ps_place := Attempting\<rparr>)"

definition session_died :: "pi_session \<Rightarrow> pi_session" where
  "session_died s = (finish_session s)\<lparr>ps_place := Waiting\<rparr>"

definition stop_session :: "pi_session \<Rightarrow> pi_session" where
  "stop_session s =
     (if ps_locked s then s\<lparr>ps_stopped := True, ps_alive := []\<rparr>
      else settle (s\<lparr>ps_stopped := True\<rparr>))"

text \<open>\<open>ProbeReachable\<close>, which the recovery calls.\<close>

definition probe_reachable :: "pi_env \<Rightarrow> pi_session \<Rightarrow> bool \<times> pi_session" where
  "probe_reachable env s =
     (let (t, s1) = resolve_target (pv_blob env) s
      in case t of
           None \<Rightarrow> (False, s1)
         | Some i \<Rightarrow>
             (if \<not> pv_exists env (pi_key i) then False else probe_error (pv_probe env i) = None, s1))"

datatype pi_event =
    PiAttempt pi_env
  | PiTick "settings option"
  | PiDied
  | PiStop
  | PiProbe pi_env
  | PiWrite string

fun pi_step :: "pi_session \<Rightarrow> pi_event \<Rightarrow> pi_session" where
  "pi_step s PiStop = stop_session s"
| "pi_step s (PiAttempt env) =
     (if ps_locked s \<or> ps_place s \<noteq> Attempting then s else attempt_round env s)"
| "pi_step s (PiTick blob) =
     (if ps_locked s then s
      else case ps_place s of
             Watching \<Rightarrow> watch_tick blob s
           | Waiting \<Rightarrow> s\<lparr>ps_place := Attempting\<rparr>
           | _ \<Rightarrow> s)"
| "pi_step s PiDied = (if ps_locked s \<or> ps_place s \<noteq> Watching then s else session_died s)"
| "pi_step s (PiProbe env) = (if ps_locked s then s else snd (probe_reachable env s))"
| "pi_step s (PiWrite t) = (if ps_locked s then s else session_write s t)"

subsection \<open>The status\<close>

record pi_status =
  pt_conn :: string
  pt_last_attempt :: "instant option"
  pt_model :: string
  pt_tier :: string
  pt_profile_id :: string
  pt_profiles :: "(string \<times> bool) list"
  pt_recovery :: string
  pt_recovery_started :: "instant option"

definition nonzero :: "instant \<Rightarrow> instant option" where
  "nonzero t = (if is_zero t then None else Some t)"

definition profile_status :: "string \<Rightarrow> (string \<Rightarrow> bool) \<Rightarrow> pi_profile \<Rightarrow> (string \<times> bool) option" where
  "profile_status var exist p =
     (if trim_space (pp_id p) = [] then None
      else case key_path_for_profile var (pp_id p) of
             Return path \<Rightarrow> Some (pp_id p, exist path)
           | _ \<Rightarrow> None)"

definition get_pi_status ::
    "settings option \<Rightarrow> (string \<Rightarrow> bool) \<Rightarrow> string \<times> string \<Rightarrow> string \<times> instant \<Rightarrow> pi_session \<Rightarrow> pi_status" where
  "get_pi_status blob exist model_tier recovery s =
     \<lparr>pt_conn = pi_conn_name (ps_state s), pt_last_attempt = nonzero (ps_last_attempt s),
      pt_model = fst model_tier, pt_tier = snd model_tier, pt_profile_id = ps_target_id s,
      pt_profiles = List.map_filter (profile_status (ps_key_var s) exist) (parse_pi_profiles blob),
      pt_recovery = fst recovery,
      pt_recovery_started = (if fst recovery = [] then None else nonzero (snd recovery))\<rparr>"


subsection \<open>The log\<close>

lemma pi_append_log_ring [ring]: "ps_log (pi_append_log s l) = take_last pi_log_cap (ps_log s @ [l])"
  by (simp add: pi_append_log_def take_last_def Let_def)

interpretation pi_log: ring_buffer pi_append_log ps_log "\<lambda>_. pi_log_cap"
  by unfold_locales (simp_all add: pi_append_log_ring)

subsection \<open>What the steps leave alone\<close>

named_theorems pi_frame \<open>fields of the session that an operation keeps\<close>

lemma set_conn_frame [pi_frame, simp]:
  "ps_state (set_conn c s) = c" "ps_sess (set_conn c s) = ps_sess s" "ps_bound (set_conn c s) = ps_bound s"
  "ps_alive (set_conn c s) = ps_alive s" "ps_place (set_conn c s) = ps_place s"
  "ps_locked (set_conn c s) = ps_locked s" "ps_stopped (set_conn c s) = ps_stopped s"
  "ps_key_var (set_conn c s) = ps_key_var s" "ps_attempts (set_conn c s) = ps_attempts s"
  by (simp_all add: set_conn_def)

lemma pi_append_log_frame [pi_frame, simp]:
  "ps_state (pi_append_log s l) = ps_state s" "ps_sess (pi_append_log s l) = ps_sess s"
  "ps_bound (pi_append_log s l) = ps_bound s" "ps_alive (pi_append_log s l) = ps_alive s"
  "ps_place (pi_append_log s l) = ps_place s" "ps_locked (pi_append_log s l) = ps_locked s"
  "ps_stopped (pi_append_log s l) = ps_stopped s" "ps_key_var (pi_append_log s l) = ps_key_var s"
  by (simp_all add: pi_append_log_def Let_def)

lemma session_write_frame [pi_frame, simp]:
  "ps_state (session_write s t) = ps_state s" "ps_sess (session_write s t) = ps_sess s"
  "ps_bound (session_write s t) = ps_bound s" "ps_alive (session_write s t) = ps_alive s"
  "ps_place (session_write s t) = ps_place s" "ps_locked (session_write s t) = ps_locked s"
  "ps_stopped (session_write s t) = ps_stopped s" "ps_key_var (session_write s t) = ps_key_var s"
proof -
  define ls where "ls = filter (\<lambda>l. l \<noteq> []) (split_on CHR 0x0A (trim_right CHR 0x0A t))"
  have *: "session_write s t = foldl pi_append_log s ls" by (simp add: session_write_def ls_def)
  have "ps_state (foldl pi_append_log s ls) = ps_state s \<and> ps_sess (foldl pi_append_log s ls) = ps_sess s \<and>
    ps_bound (foldl pi_append_log s ls) = ps_bound s \<and> ps_alive (foldl pi_append_log s ls) = ps_alive s \<and>
    ps_place (foldl pi_append_log s ls) = ps_place s \<and> ps_locked (foldl pi_append_log s ls) = ps_locked s \<and>
    ps_stopped (foldl pi_append_log s ls) = ps_stopped s \<and> ps_key_var (foldl pi_append_log s ls) = ps_key_var s"
    by (induction ls arbitrary: s) simp_all
  then show "ps_state (session_write s t) = ps_state s" "ps_sess (session_write s t) = ps_sess s"
    "ps_bound (session_write s t) = ps_bound s" "ps_alive (session_write s t) = ps_alive s"
    "ps_place (session_write s t) = ps_place s" "ps_locked (session_write s t) = ps_locked s"
    "ps_stopped (session_write s t) = ps_stopped s" "ps_key_var (session_write s t) = ps_key_var s"
    by (simp_all add: *)
qed

lemma same_identity_iff [simp]: "same_identity p q \<longleftrightarrow> p = q"
  by (cases p; cases q) (auto simp: same_identity_def)

text \<open>The target of the settings, and settings whose profile id is no file name.\<close>

definition target_of :: "string \<Rightarrow> settings option \<Rightarrow> pi_identity option" where
  "target_of var blob =
     (case load_pi_profile_target blob of
        None \<Rightarrow> None
      | Some (i, ip, user) \<Rightarrow>
          (case key_path_for_profile var i of
             Return path \<Rightarrow> Some \<lparr>pi_id = i, pi_ip = ip, pi_user = user, pi_key = path\<rparr>
           | _ \<Rightarrow> None))"

definition bad_profile :: "string \<Rightarrow> settings option \<Rightarrow> bool" where
  "bad_profile var blob \<longleftrightarrow>
     (case load_pi_profile_target blob of
        None \<Rightarrow> False
      | Some (i, ip, user) \<Rightarrow> (case key_path_for_profile var i of Return _ \<Rightarrow> False | _ \<Rightarrow> True))"

lemma load_target_nonempty:
  "load_pi_profile_target blob = Some (i, ip, user) \<Longrightarrow> ip \<noteq> [] \<and> user \<noteq> []"
  by (auto simp: load_pi_profile_target_def Let_def split: option.splits if_splits)

lemma resolve_target_target: "fst (resolve_target blob s) = target_of (ps_key_var s) blob"
  using load_target_nonempty [of blob]
  by (fastforce simp: resolve_target_def target_of_def Let_def split: option.split outcome.split)

lemma resolve_target_frame [pi_frame]:
  assumes "resolve_target blob s = (t, s1)"
  shows "ps_state s1 = ps_state s" "ps_sess s1 = ps_sess s" "ps_bound s1 = ps_bound s"
    "ps_alive s1 = ps_alive s" "ps_place s1 = ps_place s" "ps_stopped s1 = ps_stopped s"
    "ps_key_var s1 = ps_key_var s" "ps_attempts s1 = ps_attempts s"
  using assms
  by (auto simp: resolve_target_def set_target_id_def Let_def split: option.splits outcome.splits if_splits prod.splits)

lemma resolve_target_locked:
  "resolve_target blob s = (t, s1) \<Longrightarrow> ps_locked s1 \<longleftrightarrow>
    ps_locked s \<or> bad_profile (ps_key_var s) blob \<and>
      (\<forall>i ip user. load_pi_profile_target blob = Some (i, ip, user) \<longrightarrow> ps_last_bad s \<noteq> i)"
  using load_target_nonempty [of blob]
  by (fastforce simp: resolve_target_def set_target_id_def bad_profile_def Let_def
      split: option.splits outcome.splits if_splits prod.splits)

subsection \<open>The specification\<close>

text \<open>What the session is meant to do: it is due for an attempt, waits for the grid, is bound to
  one target, or is over.\<close>

datatype pi_spec = SpecDue | SpecIdle | SpecBound pi_identity | SpecOver

definition reaches :: "pi_env \<Rightarrow> pi_identity \<Rightarrow> bool" where
  "reaches env i \<longleftrightarrow> pv_exists env (pi_key i) \<and> probe_error (pv_probe env i) = None \<and>
     pv_start env (session_args i) = None"

definition spec_attempt :: "string \<Rightarrow> pi_env \<Rightarrow> pi_spec" where
  "spec_attempt var env =
     (case target_of var (pv_blob env) of
        None \<Rightarrow> SpecIdle | Some i \<Rightarrow> if reaches env i then SpecBound i else SpecIdle)"

fun spec_step :: "string \<Rightarrow> pi_spec \<times> bool \<Rightarrow> pi_event \<Rightarrow> pi_spec \<times> bool" where
  "spec_step var (c, stopped) PiStop = (if c = SpecDue then SpecDue else SpecOver, True)"
| "spec_step var (c, stopped) (PiAttempt env) =
     (if c \<noteq> SpecDue then c else if stopped then SpecOver else spec_attempt var env, stopped)"
| "spec_step var (c, stopped) (PiTick blob) =
     ((case c of
         SpecBound i \<Rightarrow> if target_of var blob = Some i then c else SpecDue
       | SpecIdle \<Rightarrow> SpecDue
       | _ \<Rightarrow> c), stopped)"
| "spec_step var (c, stopped) PiDied = ((case c of SpecBound i \<Rightarrow> SpecIdle | _ \<Rightarrow> c), stopped)"
| "spec_step var c _ = c"

definition spec_of :: "pi_session \<Rightarrow> pi_spec \<times> bool" where
  "spec_of s =
     (case ps_place s of
        Attempting \<Rightarrow> SpecDue | Waiting \<Rightarrow> SpecIdle | Watching \<Rightarrow> SpecBound (ps_bound s) | Gone \<Rightarrow> SpecOver,
      ps_stopped s)"

definition session_ok :: "pi_session \<Rightarrow> bool" where
  "session_ok s \<longleftrightarrow>
     (if ps_place s = Watching
      then ps_sess s = Some (ps_bound s) \<and> ps_state s = Connected \<and>
           (ps_alive s = [ps_bound s] \<or> ps_locked s \<and> ps_stopped s \<and> ps_alive s = [])
      else ps_sess s = None \<and> ps_state s = Disconnected \<and> ps_alive s = []) \<and>
     (ps_stopped s \<and> \<not> ps_locked s \<longrightarrow> ps_place s = Attempting \<or> ps_place s = Gone)"

lemma connect_target_outcome:
  assumes "connect_target env i s = (running, s1)" "pv_exists env (pi_key i)"
  shows "running = reaches env i" "ps_place s1 = ps_place s" "ps_stopped s1 = ps_stopped s"
    "ps_locked s1 = ps_locked s" "ps_key_var s1 = ps_key_var s"
    "running \<Longrightarrow> ps_sess s1 = Some i \<and> ps_bound s1 = i \<and> ps_state s1 = Connected \<and> ps_alive s1 = ps_alive s @ [i]"
    "\<not> running \<Longrightarrow> ps_sess s1 = ps_sess s \<and> ps_state s1 = Disconnected \<and> ps_alive s1 = ps_alive s"
  using assms
  by (auto simp: connect_target_def start_session_def reaches_def Let_def split: option.splits)

lemma attempt_outcome:
  assumes "session_ok s" "ps_place s = Attempting" "attempt env s = (running, s1)" "\<not> ps_locked s1"
  shows "ps_place s1 = Attempting" "ps_stopped s1 = ps_stopped s" "ps_key_var s1 = ps_key_var s"
    "running \<Longrightarrow> \<exists>i. target_of (ps_key_var s) (pv_blob env) = Some i \<and> reaches env i \<and>
      ps_sess s1 = Some i \<and> ps_bound s1 = i \<and> ps_state s1 = Connected \<and> ps_alive s1 = [i]"
    "\<not> running \<Longrightarrow> spec_attempt (ps_key_var s) env = SpecIdle \<and>
      ps_sess s1 = None \<and> ps_state s1 = Disconnected \<and> ps_alive s1 = []"
proof -
  obtain t s0 where r: "resolve_target (pv_blob env) s = (t, s0)" by force
  note fr = resolve_target_frame [OF r]
  have t: "t = target_of (ps_key_var s) (pv_blob env)" using resolve_target_target [of "pv_blob env" s] r by simp
  have ok: "ps_sess s = None" "ps_state s = Disconnected" "ps_alive s = []"
    using assms(1,2) by (auto simp: session_ok_def)
  have nl: "\<not> ps_locked s0" using assms(3,4) by (auto simp: attempt_def r split: if_splits)
  have "ps_place s1 = Attempting \<and> ps_stopped s1 = ps_stopped s \<and> ps_key_var s1 = ps_key_var s \<and>
    (running \<longrightarrow> (\<exists>i. target_of (ps_key_var s) (pv_blob env) = Some i \<and> reaches env i \<and>
      ps_sess s1 = Some i \<and> ps_bound s1 = i \<and> ps_state s1 = Connected \<and> ps_alive s1 = [i])) \<and>
    (\<not> running \<longrightarrow> spec_attempt (ps_key_var s) env = SpecIdle \<and>
      ps_sess s1 = None \<and> ps_state s1 = Disconnected \<and> ps_alive s1 = [])"
  proof (cases t)
    case None
    then show ?thesis
      using assms(2,3) t fr ok nl by (auto simp: attempt_def r kill_session_def spec_attempt_def)
  next
    case (Some i)
    show ?thesis
    proof (cases "pv_exists env (pi_key i)")
      case True
      with assms(3) Some fr ok nl have "connect_target env i s0 = (running, s1)"
        by (simp add: attempt_def r)
      from connect_target_outcome [OF this True] Some t fr ok assms(2) show ?thesis
        by (auto simp: spec_attempt_def)
    next
      case False
      with assms(2,3) Some t fr ok nl show ?thesis
        by (auto simp: attempt_def r spec_attempt_def reaches_def)
    qed
  qed
  then show "ps_place s1 = Attempting" "ps_stopped s1 = ps_stopped s" "ps_key_var s1 = ps_key_var s"
    "running \<Longrightarrow> \<exists>i. target_of (ps_key_var s) (pv_blob env) = Some i \<and> reaches env i \<and>
      ps_sess s1 = Some i \<and> ps_bound s1 = i \<and> ps_state s1 = Connected \<and> ps_alive s1 = [i]"
    "\<not> running \<Longrightarrow> spec_attempt (ps_key_var s) env = SpecIdle \<and>
      ps_sess s1 = None \<and> ps_state s1 = Disconnected \<and> ps_alive s1 = []"
    by blast+
qed

subsection \<open>Every step keeps the session bound to its process\<close>

lemma attempt_round_ok:
  assumes "session_ok s" "ps_place s = Attempting" "\<not> ps_locked s"
  shows "session_ok (attempt_round env s)"
    and "\<not> ps_locked (attempt_round env s) \<Longrightarrow>
      spec_of (attempt_round env s) = spec_step (ps_key_var s) (spec_of s) (PiAttempt env)"
    and "\<not> ps_locked (attempt_round env s) \<Longrightarrow> ps_key_var (attempt_round env s) = ps_key_var s"
proof -
  obtain running s1 where a: "attempt env s = (running, s1)" by force
  have idle: "ps_sess s = None" "ps_state s = Disconnected" "ps_alive s = []"
    using assms(1,2) by (auto simp: session_ok_def)
  have "session_ok (attempt_round env s) \<and> (\<not> ps_locked (attempt_round env s) \<longrightarrow>
      spec_of (attempt_round env s) = spec_step (ps_key_var s) (spec_of s) (PiAttempt env) \<and>
      ps_key_var (attempt_round env s) = ps_key_var s)"
  proof (cases "ps_locked s1")
    case True
    obtain t s0 where r: "resolve_target (pv_blob env) s = (t, s0)" by force
    have "s1 = s0"
    proof (cases "ps_locked s0")
      case False
      with a True resolve_target_frame [OF r] idle show ?thesis
        by (auto simp: attempt_def r kill_session_def connect_target_def start_session_def Let_def
            split: option.splits if_splits prod.splits)
    qed (use a in \<open>simp add: attempt_def r\<close>)
    with True a assms(2) resolve_target_frame [OF r] idle show ?thesis
      by (auto simp: attempt_round_def session_ok_def)
  next
    case False
    note out = attempt_outcome [OF assms(1,2) a False]
    show ?thesis
    proof (cases running)
      case True
      from out(4) [OF True] out(1-3) a False True assms(2) show ?thesis
        by (auto simp: attempt_round_def settle_def session_ok_def spec_of_def spec_attempt_def
            finish_session_def kill_session_def)
    next
      case F: False
      from out(5) [OF F] out(1-3) a False F assms(2) show ?thesis
        by (auto simp: attempt_round_def settle_def session_ok_def spec_of_def)
    qed
  qed
  then show "session_ok (attempt_round env s)"
    "\<not> ps_locked (attempt_round env s) \<Longrightarrow>
      spec_of (attempt_round env s) = spec_step (ps_key_var s) (spec_of s) (PiAttempt env)"
    "\<not> ps_locked (attempt_round env s) \<Longrightarrow> ps_key_var (attempt_round env s) = ps_key_var s"
    by blast+
qed

lemma watch_tick_ok:
  assumes "session_ok s" "ps_place s = Watching" "\<not> ps_locked s"
  shows "session_ok (watch_tick blob s)"
    and "\<not> ps_locked (watch_tick blob s) \<Longrightarrow>
      spec_of (watch_tick blob s) = spec_step (ps_key_var s) (spec_of s) (PiTick blob)"
    and "ps_key_var (watch_tick blob s) = ps_key_var s"
proof -
  obtain t s0 where r: "resolve_target blob s = (t, s0)" by force
  note fr = resolve_target_frame [OF r]
  have t: "t = target_of (ps_key_var s) blob" using resolve_target_target [of blob s] r by simp
  have on: "ps_sess s = Some (ps_bound s)" "ps_state s = Connected" "ps_alive s = [ps_bound s]" "\<not> ps_stopped s"
    using assms by (auto simp: session_ok_def)
  show "session_ok (watch_tick blob s)"
    using fr on assms(2)
    by (auto simp: watch_tick_def r session_ok_def finish_session_def kill_session_def split: option.split)
  show "spec_of (watch_tick blob s) = spec_step (ps_key_var s) (spec_of s) (PiTick blob)"
    if "\<not> ps_locked (watch_tick blob s)"
    using that fr on assms(2) t
    by (auto simp: watch_tick_def r spec_of_def finish_session_def kill_session_def
        split: option.splits if_splits)
  show "ps_key_var (watch_tick blob s) = ps_key_var s"
    using fr by (auto simp: watch_tick_def r finish_session_def kill_session_def split: option.split)
qed

lemma pi_step_ok:
  assumes "session_ok s"
  shows "session_ok (pi_step s e)"
proof (cases e)
  case (PiProbe env)
  obtain t s0 where r: "resolve_target (pv_blob env) s = (t, s0)" by force
  with assms PiProbe resolve_target_frame [OF r] show ?thesis
    by (auto simp: session_ok_def probe_reachable_def split: option.split)
next
  case PiStop
  with assms show ?thesis
    by (auto simp: session_ok_def stop_session_def settle_def finish_session_def kill_session_def
        split: pi_place.split)
next
  case (PiWrite t)
  with assms show ?thesis by (auto simp: session_ok_def)
next
  case PiDied
  with assms show ?thesis by (auto simp: session_ok_def session_died_def finish_session_def)
next
  case (PiTick blob)
  with assms watch_tick_ok(1) [OF assms] show ?thesis
    by (auto simp: session_ok_def [of "_\<lparr>ps_place := _\<rparr>"] split: pi_place.split)
      (auto simp: session_ok_def)
qed (use assms attempt_round_ok(1) [OF assms] in simp)

interpretation pi_bound: invariant_machine pi_step session_ok
  by unfold_locales (rule pi_step_ok)

lemma new_pi_session_ok: "session_ok (new_pi_session var)"
  by (simp add: session_ok_def new_pi_session_def)

text \<open>A step whose settings name a usable profile follows the specification and leaves the mutex
  unlocked.\<close>

fun names_bad_profile :: "string \<Rightarrow> pi_event \<Rightarrow> bool" where
  "names_bad_profile var (PiAttempt env) = bad_profile var (pv_blob env)"
| "names_bad_profile var (PiTick blob) = bad_profile var blob"
| "names_bad_profile var (PiProbe env) = bad_profile var (pv_blob env)"
| "names_bad_profile var _ = False"

lemma attempt_unlocked:
  assumes "\<not> ps_locked s" "\<not> bad_profile (ps_key_var s) (pv_blob env)"
  shows "\<not> ps_locked (attempt_round env s)"
proof -
  obtain t s0 where r: "resolve_target (pv_blob env) s = (t, s0)" by force
  have "\<not> ps_locked s0" using resolve_target_locked [OF r] assms by blast
  then show ?thesis
    by (auto simp: attempt_round_def attempt_def r kill_session_def connect_target_def start_session_def
        settle_def finish_session_def Let_def split: option.splits if_splits prod.splits pi_place.splits)
qed

lemma watch_unlocked:
  assumes "\<not> ps_locked s" "\<not> bad_profile (ps_key_var s) blob"
  shows "\<not> ps_locked (watch_tick blob s)"
proof -
  obtain t s0 where r: "resolve_target blob s = (t, s0)" by force
  have "\<not> ps_locked s0" using resolve_target_locked [OF r] assms by blast
  then show ?thesis
    by (auto simp: watch_tick_def r kill_session_def finish_session_def split: option.split)
qed

lemma pi_step_refines:
  assumes "session_ok s" "\<not> ps_locked s" "\<not> names_bad_profile (ps_key_var s) e"
  shows "spec_of (pi_step s e) = spec_step (ps_key_var s) (spec_of s) e \<and>
    \<not> ps_locked (pi_step s e) \<and> ps_key_var (pi_step s e) = ps_key_var s"
proof (cases e)
  case (PiAttempt env)
  show ?thesis
  proof (cases "ps_place s = Attempting")
    case True
    then show ?thesis
      using PiAttempt assms attempt_unlocked [of s env] attempt_round_ok [OF assms(1) True assms(2), of env]
      by auto
  next
    case False
    then have "fst (spec_of s) \<noteq> SpecDue" by (cases "ps_place s") (simp_all add: spec_of_def)
    with False PiAttempt assms(2) show ?thesis by (cases "spec_of s") auto
  qed
next
  case (PiTick blob)
  show ?thesis
  proof (cases "ps_place s = Watching")
    case True
    then show ?thesis
      using PiTick assms watch_unlocked [of s blob] watch_tick_ok [OF assms(1) True assms(2), of blob] by simp
  next
    case False
    with PiTick assms(2) show ?thesis by (cases "ps_place s") (auto simp: spec_of_def)
  qed
next
  case (PiProbe env)
  obtain t s0 where r: "resolve_target (pv_blob env) s = (t, s0)" by force
  have "\<not> ps_locked s0" using resolve_target_locked [OF r] PiProbe assms(2,3) by auto
  moreover have "pi_step s e = s0"
    using PiProbe assms(2) by (simp add: probe_reachable_def r split: option.split)
  moreover have "spec_of s0 = spec_of s" 
    using resolve_target_frame [OF r] by (cases "ps_place s") (simp_all add: spec_of_def)
  ultimately show ?thesis
    using PiProbe resolve_target_frame(7) [OF r] by (cases "spec_of s") simp
next
  case PiStop
  with assms show ?thesis
    by (cases "ps_place s")
      (auto simp: spec_of_def stop_session_def settle_def finish_session_def kill_session_def session_ok_def)
next
  case PiDied
  with assms show ?thesis
    by (cases "ps_place s") (auto simp: spec_of_def session_died_def finish_session_def)
next
  case (PiWrite t)
  have "spec_of (session_write s t) = spec_of s" by (cases "ps_place s") (simp_all add: spec_of_def)
  with PiWrite assms show ?thesis by (cases "spec_of s") simp
qed

lemma pi_run_refines:
  assumes "session_ok s" "\<not> ps_locked s" "\<And>e. e \<in> set es \<Longrightarrow> \<not> names_bad_profile (ps_key_var s) e"
  shows "spec_of (foldl pi_step s es) = foldl (spec_step (ps_key_var s)) (spec_of s) es \<and>
    \<not> ps_locked (foldl pi_step s es)"
  using assms
proof (induction es arbitrary: s)
  case (Cons e es)
  have st: "spec_of (pi_step s e) = spec_step (ps_key_var s) (spec_of s) e \<and>
      \<not> ps_locked (pi_step s e) \<and> ps_key_var (pi_step s e) = ps_key_var s"
    using Cons.prems by (intro pi_step_refines) auto
  then show ?case using Cons.IH [of "pi_step s e"] Cons.prems pi_step_ok [of s e] by auto
qed simp

text \<open>A locked mutex stays locked.\<close>

interpretation pi_lock: frozen_machine pi_step ps_locked ps_attempts
proof
  fix s :: pi_session and e
  assume "ps_locked s"
  then show "ps_locked (pi_step s e)" "ps_attempts (pi_step s e) = ps_attempts s"
    by (cases e; simp add: stop_session_def)+
qed

lemma locked_place: "ps_locked s \<Longrightarrow> ps_place (foldl pi_step s es) = ps_place s"
proof (induction es arbitrary: s)
  case (Cons e es)
  have "ps_place (pi_step s e) = ps_place s" using Cons.prems by (cases e) (simp_all add: stop_session_def)
  with Cons.IH [of "pi_step s e"] pi_lock.spent_stays [OF Cons.prems] show ?case by simp
qed simp

subsection \<open>Properties\<close>

lemma pi_session_refines_spec_facts:
  assumes "\<And>e. e \<in> set es \<Longrightarrow> \<not> names_bad_profile var e"
  shows "spec_of (foldl pi_step (new_pi_session var) es) = foldl (spec_step var) (SpecDue, False) es"
    and "ps_alive (foldl pi_step (new_pi_session var) es) =
      (case fst (foldl (spec_step var) (SpecDue, False) es) of SpecBound i \<Rightarrow> [i] | _ \<Rightarrow> [])"
proof -
  let ?s = "foldl pi_step (new_pi_session var) es"
  have start: "ps_key_var (new_pi_session var) = var" "\<not> ps_locked (new_pi_session var)"
    "spec_of (new_pi_session var) = (SpecDue, False)"
    by (simp_all add: new_pi_session_def spec_of_def)
  have r: "spec_of ?s = foldl (spec_step var) (SpecDue, False) es \<and> \<not> ps_locked ?s"
    using pi_run_refines [OF new_pi_session_ok start(2), of es, unfolded start] assms by simp
  then show "spec_of ?s = foldl (spec_step var) (SpecDue, False) es" by simp
  have "session_ok ?s" by (rule pi_bound.run_inv) (rule new_pi_session_ok)
  then have "\<not> ps_locked ?s \<Longrightarrow> ps_alive ?s = (case fst (spec_of ?s) of SpecBound i \<Rightarrow> [i] | _ \<Rightarrow> [])"
    by (cases "ps_place ?s") (auto simp: session_ok_def spec_of_def)
  with r show "ps_alive ?s =
      (case fst (foldl (spec_step var) (SpecDue, False) es) of SpecBound i \<Rightarrow> [i] | _ \<Rightarrow> [])"
    by simp
qed

text \<open>C8: The session follows the active profile. For any run whose settings name usable profiles
  only, the session is where the specification says: bound to the target of the last successful
  attempt until a tick finds another target (then an attempt is due at once), the process dies
  (then the next one is due at the next tick) or it is stopped; and exactly the process of the
  bound target is alive.\<close>

theorem pi_session_refines_spec:
  assumes "\<And>e. e \<in> set es \<Longrightarrow> \<not> names_bad_profile var e"
  shows "spec_of (foldl pi_step (new_pi_session var) es) = foldl (spec_step var) (SpecDue, False) es \<and>
    ps_alive (foldl pi_step (new_pi_session var) es) =
      (case fst (foldl (spec_step var) (SpecDue, False) es) of SpecBound i \<Rightarrow> [i] | _ \<Rightarrow> [])"
  using pi_session_refines_spec_facts [OF assms] by blast

lemma bad_profile_freezes_session_facts:
  assumes "\<not> ps_locked s" and "ps_place s = Attempting" and "bad_profile (ps_key_var s) (pv_blob env)"
    and "\<And>i ip user. load_pi_profile_target (pv_blob env) = Some (i, ip, user) \<Longrightarrow> ps_last_bad s \<noteq> i"
  shows "ps_locked (foldl pi_step s (PiAttempt env # es))"
    and "ps_attempts (foldl pi_step s (PiAttempt env # es)) = ps_attempts s"
    and "ps_place (foldl pi_step s (PiAttempt env # es)) = Attempting"
proof -
  obtain t s0 where r: "resolve_target (pv_blob env) s = (t, s0)" by force
  have l: "ps_locked s0" using resolve_target_locked [OF r] assms(3,4) by blast
  then have s1: "pi_step s (PiAttempt env) = s0"
    using assms(1,2) by (simp add: attempt_round_def attempt_def r)
  show "ps_locked (foldl pi_step s (PiAttempt env # es))"
    using pi_lock.run_spent [OF l, of es] by (simp only: foldl_Cons s1)
  show "ps_attempts (foldl pi_step s (PiAttempt env # es)) = ps_attempts s"
    using pi_lock.run_spent_count [OF l, of es] resolve_target_frame(8) [OF r] by (simp only: foldl_Cons s1)
  show "ps_place (foldl pi_step s (PiAttempt env # es)) = Attempting"
    using locked_place [OF l, of es] resolve_target_frame(5) [OF r] assms(2) by (simp only: foldl_Cons s1)
qed

text \<open>Settings that name a profile whose id is no file name, met for the first time, leave the
  mutex locked: the goroutine never attempts again and never leaves its place, whatever happens,
  though the comment promises an idle session that re-reads the settings.\<close>

theorem bad_profile_freezes_session:
  assumes "\<not> ps_locked s" and "ps_place s = Attempting" and "bad_profile (ps_key_var s) (pv_blob env)"
    and "\<And>i ip user. load_pi_profile_target (pv_blob env) = Some (i, ip, user) \<Longrightarrow> ps_last_bad s \<noteq> i"
  shows "ps_locked (foldl pi_step s (PiAttempt env # es)) \<and>
    ps_attempts (foldl pi_step s (PiAttempt env # es)) = ps_attempts s \<and>
    ps_place (foldl pi_step s (PiAttempt env # es)) = Attempting"
  by (intro conjI bad_profile_freezes_session_facts assms)

definition sample_settings :: "string \<Rightarrow> settings option" where
  "sample_settings i = Some \<lparr>st_profiles = SomeProfiles [\<lparr>pp_id = i, pp_label = [], pp_ip = ''10.0.0.2'',
     pp_user = ''pi'', pp_password = [], pp_key_installed = True\<rparr>], st_server = None, st_active = []\<rparr>"

definition sample_pi_env :: "string \<Rightarrow> pi_env" where
  "sample_pi_env i = \<lparr>pv_blob = sample_settings i, pv_exists = (\<lambda>p. True), pv_now = 5,
     pv_probe = (\<lambda>t. SshOk []), pv_start = (\<lambda>args. None)\<rparr>"

lemma sample_targets:
  "target_of [] (sample_settings ''car'') = Some \<lparr>pi_id = ''car'', pi_ip = ''10.0.0.2'', pi_user = ''pi'',
     pi_key = ''/etc/mira/ssh/car_ed25519''\<rparr>"
  "\<not> bad_profile [] (sample_settings ''car'')" "bad_profile [] (sample_settings ''my pi'')"
  "load_pi_profile_target (sample_settings ''my pi'') = Some (''my pi'', ''10.0.0.2'', ''pi'')"
  by code_simp+

theorem pi_session_refines_spec_witness:
  "let i = \<lparr>pi_id = ''car'', pi_ip = ''10.0.0.2'', pi_user = ''pi'', pi_key = ''/etc/mira/ssh/car_ed25519''\<rparr>;
       s = foldl pi_step (new_pi_session []) [PiAttempt (sample_pi_env ''car''), PiTick (sample_settings ''car'')]
   in spec_of s = (SpecBound i, False) \<and> ps_alive s = [i]"
proof -
  let ?es = "[PiAttempt (sample_pi_env ''car''), PiTick (sample_settings ''car'')]"
  have g: "\<not> names_bad_profile [] e" if "e \<in> set ?es" for e
    using that sample_targets(2) by (auto simp: sample_pi_env_def)
  have "foldl (spec_step []) (SpecDue, False) ?es =
      (SpecBound \<lparr>pi_id = ''car'', pi_ip = ''10.0.0.2'', pi_user = ''pi'', pi_key = ''/etc/mira/ssh/car_ed25519''\<rparr>, False)"
    by (simp add: spec_attempt_def sample_targets(1) reaches_def sample_pi_env_def probe_error_def)
  with pi_session_refines_spec [of ?es "[]", OF g] show ?thesis
    by (simp only: Let_def fst_conv pi_spec.case)
qed

theorem bad_profile_freezes_session_witness:
  "ps_locked (foldl pi_step (new_pi_session []) (PiAttempt (sample_pi_env ''my pi'') # [PiAttempt (sample_pi_env ''car'')])) \<and>
    ps_attempts (foldl pi_step (new_pi_session []) (PiAttempt (sample_pi_env ''my pi'') # [PiAttempt (sample_pi_env ''car'')])) = 0"
  using bad_profile_freezes_session [of "new_pi_session []" "sample_pi_env ''my pi''" "[PiAttempt (sample_pi_env ''car'')]"]
    sample_targets(3,4)
  by (simp del: foldl_Cons pi_step.simps add: new_pi_session_def sample_pi_env_def)

end
