(* ===== verification/LogBuffer.thy ===== *)
theory LogBuffer
  imports Interfaces
begin

text \<open>
  The ring of recent problems shown on the debug screen (\<open>daemon/logbuffer.go\<close>): the hook
  that logrus calls for warnings and worse, and the copy of the ring that is written to disk
  and read back as the problems of the previous run.

  The file at the buffer's path holds a list of lines, \<open>None\<close> when it is absent or not a
  JSON list of strings. Lines arrive with the time of day the entry carries.
\<close>

record log_buffer =
  lb_lines :: "string list"
  lb_max :: nat
  lb_path :: string
  lb_file :: "string list option"

definition new_log_buffer :: "int \<Rightarrow> log_buffer" where
  "new_log_buffer n = \<lparr>lb_lines = [], lb_max = (if n \<le> 0 then 20 else nat n), lb_path = [], lb_file = None\<rparr>"

definition load_persisted_problems :: "string list option \<Rightarrow> string list" where
  "load_persisted_problems file = (case file of None \<Rightarrow> [] | Some ls \<Rightarrow> ls)"

definition problems_persist_path :: string where
  "problems_persist_path = ''/var/local/mira/problems.json''"

text \<open>\<open>InstallLogBuffer\<close>: the previous problems and the new buffer.\<close>

definition install_log_buffer :: "string list option \<Rightarrow> string list \<times> log_buffer" where
  "install_log_buffer file =
     (load_persisted_problems file, (new_log_buffer 20)\<lparr>lb_path := problems_persist_path, lb_file := file\<rparr>)"

datatype log_level = PanicLevel | FatalLevel | ErrorLevel | WarnLevel | InfoLevel | DebugLevel | TraceLevel

definition level_name :: "log_level \<Rightarrow> string" where
  "level_name l = (case l of PanicLevel \<Rightarrow> ''panic'' | FatalLevel \<Rightarrow> ''fatal'' | ErrorLevel \<Rightarrow> ''error''
     | WarnLevel \<Rightarrow> ''warning'' | InfoLevel \<Rightarrow> ''info'' | DebugLevel \<Rightarrow> ''debug'' | TraceLevel \<Rightarrow> ''trace'')"

definition hook_levels :: "log_level list" where
  "hook_levels = [WarnLevel, ErrorLevel, FatalLevel, PanicLevel]"

text \<open>The value under the error key: an error or a string with its text, or something else.\<close>

datatype log_value = ErrorValue string | StringValue string | OtherValue

definition to_str :: "log_value \<Rightarrow> string" where
  "to_str v = (case v of ErrorValue s \<Rightarrow> s | StringValue s \<Rightarrow> s | OtherValue \<Rightarrow> [])"

record log_entry =
  le_hour :: nat
  le_minute :: nat
  le_second :: nat
  le_level :: log_level
  le_message :: string
  le_error :: "log_value option"

definition two_digits :: "nat \<Rightarrow> string" where
  "two_digits n = [char_of (48 + n div 10 mod 10), char_of (48 + n mod 10)]"

definition entry_line :: "log_entry \<Rightarrow> string" where
  "entry_line e =
     two_digits (le_hour e) @ '':'' @ two_digits (le_minute e) @ '':'' @ two_digits (le_second e)
       @ '' '' @ level_name (le_level e) @ '' '' @ le_message e
       @ (case le_error e of None \<Rightarrow> [] | Some v \<Rightarrow> '': '' @ to_str v)"

text \<open>\<open>Fire\<close>; \<open>write_ok\<close> says whether the file can be replaced.\<close>

definition log_fire :: "bool \<Rightarrow> log_buffer \<Rightarrow> log_entry \<Rightarrow> log_buffer" where
  "log_fire write_ok b e =
     (let ls = lb_lines b @ [entry_line e];
          ls' = (if length ls > lb_max b then drop (length ls - lb_max b) ls else ls);
          b1 = b\<lparr>lb_lines := ls'\<rparr>
      in if lb_path b1 \<noteq> [] \<and> write_ok then b1\<lparr>lb_file := Some ls'\<rparr> else b1)"

text \<open>Logrus calls the hook for an entry of one of its levels.\<close>

definition log_entry_fires :: "bool \<Rightarrow> log_buffer \<Rightarrow> log_entry \<Rightarrow> log_buffer" where
  "log_entry_fires write_ok b e = (if le_level e \<in> set hook_levels then log_fire write_ok b e else b)"

definition newest_first :: "int \<Rightarrow> string list \<Rightarrow> string list" where
  "newest_first n ls =
     (let k = (if n \<le> 0 \<or> n > int (length ls) then length ls else nat n) in take k (rev ls))"

definition log_recent :: "int \<Rightarrow> log_buffer \<Rightarrow> string list" where
  "log_recent n b = newest_first n (lb_lines b)"

definition previous_problems :: "int \<Rightarrow> string list \<Rightarrow> string list" where
  "previous_problems n prev = newest_first n prev"

subsection \<open>The ring\<close>

definition log_add_line :: "log_buffer \<Rightarrow> string \<Rightarrow> log_buffer" where
  "log_add_line b l =
     (let ls' = take_last (lb_max b) (lb_lines b @ [l])
      in b\<lparr>lb_lines := ls', lb_file := (if lb_path b \<noteq> [] then Some ls' else lb_file b)\<rparr>)"

lemma log_fire_line: "log_fire True b e = log_add_line b (entry_line e)"
  by (simp add: log_fire_def log_add_line_def take_last_def Let_def)

interpretation problems: ring_buffer log_add_line lb_lines lb_max
  by unfold_locales (simp_all add: log_add_line_def Let_def)

lemma log_fires: "foldl (log_fire True) b es = foldl log_add_line b (map entry_line es)"
  by (induction es arbitrary: b) (simp_all add: log_fire_line)

lemma log_path_run [simp]: "lb_path (foldl log_add_line b ls) = lb_path b"
  by (induction ls arbitrary: b) (simp_all add: log_add_line_def Let_def)

lemma log_file_run:
  "lb_path b \<noteq> [] \<Longrightarrow> ls \<noteq> [] \<Longrightarrow> lb_file (foldl log_add_line b ls) = Some (lb_lines (foldl log_add_line b ls))"
  by (induction ls rule: rev_induct) (simp_all add: log_add_line_def Let_def)

subsection \<open>Properties\<close>

text \<open>the debug screen shows the newest problems first, and a restart does not lose them.
  After any entries, \<open>Recent n\<close> is the last \<open>n\<close> of their lines (all that are kept, at most
  twenty, for \<open>n\<close> out of range), newest first; and when the writes succeed, the next start
  reads back exactly the lines of this one.\<close>

theorem problems_newest_first:
  assumes "install_log_buffer file = (prev, b)" and "es \<noteq> []"
  shows "log_recent n (foldl (log_fire True) b es) =
      take (if n \<le> 0 \<or> n > int (min 20 (length es)) then min 20 (length es) else nat n) (rev (map entry_line es))
    \<and> fst (install_log_buffer (lb_file (foldl (log_fire True) b es))) = lb_lines (foldl (log_fire True) b es)
    \<and> previous_problems n (fst (install_log_buffer (lb_file (foldl (log_fire True) b es)))) =
        log_recent n (foldl (log_fire True) b es)"
proof -
  have b: "lb_lines b = []" "lb_max b = 20" "lb_path b \<noteq> []"
    using assms(1) by (auto simp: install_log_buffer_def new_log_buffer_def problems_persist_path_def)
  note run = log_fires [of b es]
  have lines: "lb_lines (foldl (log_fire True) b es) = take_last 20 (map entry_line es)"
    unfolding run using problems.run_items [of b "map entry_line es"] b by simp
  have fl: "lb_file (foldl (log_fire True) b es) = Some (take_last 20 (map entry_line es))"
    using log_file_run [of b "map entry_line es"] b assms(2) lines unfolding run by simp
  have rev: "take k (rev (take_last 20 (map entry_line es))) = take (min k 20) (rev (map entry_line es))" for k
    by (rule nth_equalityI) (auto simp: take_last_def rev_drop)
  show ?thesis
    unfolding log_recent_def previous_problems_def lines fl
    by (auto simp: newest_first_def rev install_log_buffer_def load_persisted_problems_def lines min_def Let_def nat_le_iff)
qed

theorem problems_newest_first_witness:
  "log_recent 1 (foldl (log_fire True) (snd (install_log_buffer None))
     [\<lparr>le_hour = 1, le_minute = 2, le_second = 3, le_level = WarnLevel, le_message = ''a'', le_error = None\<rparr>,
      \<lparr>le_hour = 1, le_minute = 2, le_second = 4, le_level = ErrorLevel, le_message = ''b'', le_error = Some (StringValue ''c'')\<rparr>])
   = [''01:02:04 error b: c'']"
proof -
  have "entry_line \<lparr>le_hour = 1, le_minute = 2, le_second = 4, le_level = ErrorLevel, le_message = ''b'', le_error = Some (StringValue ''c'')\<rparr>
      = ''01:02:04 error b: c''" by code_simp
  then show ?thesis
    using problems_newest_first [OF prod.collapse [symmetric], of
      "[\<lparr>le_hour = 1, le_minute = 2, le_second = 3, le_level = WarnLevel, le_message = ''a'', le_error = None\<rparr>,
        \<lparr>le_hour = 1, le_minute = 2, le_second = 4, le_level = ErrorLevel, le_message = ''b'', le_error = Some (StringValue ''c'')\<rparr>]" 1 None]
    by simp
qed

end
