(* ===== verification/HashStore.thy ===== *)
theory HashStore
  imports Interfaces
begin

text \<open>
  The hashes of Spotify's persisted queries (\<open>daemon/hashstore.go\<close>, \<open>daemon/hashscrape.go\<close>):
  the built-in table, the store of scraped hashes with the previous generation kept as a
  fallback, the extraction of hashes from the web player's code, the cache file, and one
  rotation. Fetching the pages is left to the environment: a rotation takes what the scrape
  returned.
\<close>

subsection \<open>The table and the store\<close>

definition op_hash_defaults :: "(string \<times> string) list" where
  "op_hash_defaults = [
      (''searchDesktop'', ''21b3fe49546912ba782db5c47e9ef5a7dbd20329520ba0c7d0fcfadee671d24e''),
      (''fetchLibraryTracks'', ''087278b20b743578a6262c2b0b4bcd20d879c503cc359a2285baf083ef944240''),
      (''libraryV3'', ''9f4da031f81274d572cfedaf6fc57a737c84b43d572952200b2c36aaa8fec1c6''),
      (''fetchPlaylist'', ''bb67e0af06e8d6f52b531f97468ee4acd44cd0f82b988e15c2ea47b1148efc77''),
      (''userTopContent'', ''49ee15704de4a7fdeac65a02db20604aa11e46f02e809c55d9a89f6db9754356''),
      (''areEntitiesInLibrary'', ''134337999233cc6fdd6b1e6dbf94841409f04a946c5c7b744b09ba0dfe5a85ed''),
      (''addToLibrary'', ''7c5a69420e2bfae3da5cc4e14cbc8bb3f6090f80afc00ffc179177f19be3f33d''),
      (''applyCurations'', ''05b739a3a73091c213385233b9d3ed8a857c2ca29d2eebadb3d04ed12e288697''),
      (''recents'', ''698be5892a3cc95331deebeff463d05dfdd5febf5254bea30b895b5a93dfb584'')]"

definition target_ops :: "string list" where
  "target_ops = map fst op_hash_defaults"

definition is_lower_hex :: "char \<Rightarrow> bool" where
  "is_lower_hex c \<longleftrightarrow> 48 \<le> (of_char c :: nat) \<and> (of_char c :: nat) \<le> 57
     \<or> 97 \<le> (of_char c :: nat) \<and> (of_char c :: nat) \<le> 102"

definition is_64_hex :: "string \<Rightarrow> bool" where
  "is_64_hex s \<longleftrightarrow> length s = 64 \<and> list_all is_lower_hex s"

type_synonym hashes = "string \<Rightarrow> string option"

record hash_store =
  hs_current :: hashes
  hs_previous :: hashes

definition new_hash_store :: hash_store where
  "new_hash_store = \<lparr>hs_current = Map.empty, hs_previous = Map.empty\<rparr>"

definition default_hash :: "string \<Rightarrow> string" where
  "default_hash op = get_str (map_of op_hash_defaults) op"

text \<open>\<open>hash\<close>; a nil store answers with the table.\<close>

definition hash_for :: "hash_store option \<Rightarrow> string \<Rightarrow> string" where
  "hash_for os op =
     (case os of
        None \<Rightarrow> default_hash op
      | Some s \<Rightarrow>
          if get_str (hs_current s) op \<noteq> [] then get_str (hs_current s) op
          else if get_str (hs_previous s) op \<noteq> [] then get_str (hs_previous s) op
          else default_hash op)"

definition adopt_one :: "hashes \<Rightarrow> nat \<times> hash_store \<Rightarrow> string \<Rightarrow> nat \<times> hash_store" where
  "adopt_one scraped cs op =
     (let (changed, s) = cs; h = get_str scraped op
      in if \<not> is_64_hex h then (changed, s)
         else if hash_for (Some s) op = h then (changed, s\<lparr>hs_current := (hs_current s)(op \<mapsto> h)\<rparr>)
         else
           let s1 = (if get_str (hs_current s) op \<noteq> []
                     then s\<lparr>hs_previous := (hs_previous s)(op \<mapsto> get_str (hs_current s) op)\<rparr> else s)
           in (changed + 1, s1\<lparr>hs_current := (hs_current s1)(op \<mapsto> h)\<rparr>))"

definition adopt :: "hashes \<Rightarrow> hash_store \<Rightarrow> nat \<times> hash_store" where
  "adopt scraped s = foldl (adopt_one scraped) (0, s) target_ops"

definition seed_one :: "hashes \<Rightarrow> hashes \<Rightarrow> hash_store \<Rightarrow> string \<Rightarrow> hash_store" where
  "seed_one cur prev s op =
     (let s1 = (if is_64_hex (get_str cur op) then s\<lparr>hs_current := (hs_current s)(op \<mapsto> get_str cur op)\<rparr> else s)
      in if is_64_hex (get_str prev op) then s1\<lparr>hs_previous := (hs_previous s1)(op \<mapsto> get_str prev op)\<rparr> else s1)"

definition seed :: "hashes \<Rightarrow> hashes \<Rightarrow> hash_store \<Rightarrow> hash_store" where
  "seed cur prev s = foldl (seed_one cur prev) s target_ops"

definition has_all_targets :: "hash_store \<Rightarrow> bool" where
  "has_all_targets s \<longleftrightarrow>
     list_all (\<lambda>op. \<not> (get_str (hs_current s) op = [] \<and> get_str (hs_previous s) op = [])) target_ops"

definition hash_snapshot :: "hash_store \<Rightarrow> hashes \<times> hashes" where
  "hash_snapshot s = (hs_current s, hs_previous s)"

subsection \<open>Extraction\<close>

text \<open>A match of \<open>reOpDef\<close> at the start of a text: the operation, its hash, and the rest. The
  name cannot contain the quote that ends it, so there is one way to match.\<close>

definition dquote :: char where "dquote = CHR 0x22"

definition is_alpha :: "char \<Rightarrow> bool" where
  "is_alpha c \<longleftrightarrow> 65 \<le> (of_char c :: nat) \<and> (of_char c :: nat) \<le> 90
     \<or> 97 \<le> (of_char c :: nat) \<and> (of_char c :: nat) \<le> 122"

definition is_name_char :: "char \<Rightarrow> bool" where
  "is_name_char c \<longleftrightarrow> is_alpha c \<or> 48 \<le> (of_char c :: nat) \<and> (of_char c :: nat) \<le> 57 \<or> c = CHR ''_''"

definition op_kinds :: "string list" where
  "op_kinds = [''query'', ''mutation'', ''subscription'']"

definition drop_prefix :: "string \<Rightarrow> string \<Rightarrow> string option" where
  "drop_prefix p s = (if has_prefix s p then Some (drop (length p) s) else None)"

definition match_kind :: "string \<Rightarrow> string option" where
  "match_kind s =
     (case filter (\<lambda>k. has_prefix s (k @ [dquote, CHR '','', dquote])) op_kinds of
        [] \<Rightarrow> None
      | k # _ \<Rightarrow> Some (drop (length k + 3) s))"

definition match_op_def :: "string \<Rightarrow> (string \<times> string \<times> string) option" where
  "match_op_def s =
     (case s of
        [] \<Rightarrow> None
      | c # r \<Rightarrow>
          if c \<noteq> dquote \<or> r = [] \<or> \<not> is_alpha (hd r) then None
          else
            let name = takeWhile is_name_char r
            in case drop_prefix [dquote, CHR '','', dquote] (drop (length name) r) of
                 None \<Rightarrow> None
               | Some r1 \<Rightarrow>
                  (case match_kind r1 of
                     None \<Rightarrow> None
                   | Some r2 \<Rightarrow>
                       if is_64_hex (take 64 r2) \<and> has_prefix (drop 64 r2) [dquote]
                       then Some (name, take 64 r2, drop 65 r2) else None))"

lemma match_op_def_shorter: "match_op_def s = Some (n, h, r) \<Longrightarrow> length r < length s"
  by (auto simp: match_op_def_def drop_prefix_def match_kind_def Let_def
      split: list.splits if_splits option.splits)

text \<open>All matches, from left to right, none overlapping.\<close>

function find_op_defs :: "string \<Rightarrow> (string \<times> string) list" where
  "find_op_defs s =
     (case s of
        [] \<Rightarrow> []
      | c # cs \<Rightarrow>
         (case match_op_def (c # cs) of
            Some (n, h, r) \<Rightarrow> (n, h) # find_op_defs r
          | None \<Rightarrow> find_op_defs cs))"
  by pat_completeness auto

termination
  by (relation "measure length") (auto dest: match_op_def_shorter)

declare find_op_defs.simps [simp del]

definition extract_target_ops :: "string \<Rightarrow> hashes" where
  "extract_target_ops js =
     foldl (\<lambda>out (op, h). if op \<notin> set target_ops then out
              else if out op \<noteq> None then out else out(op \<mapsto> h)) Map.empty (find_op_defs js)"

definition have_all_targets :: "hashes \<Rightarrow> bool" where
  "have_all_targets found \<longleftrightarrow> list_all (\<lambda>op. is_64_hex (get_str found op)) target_ops"

text \<open>The hashes a further chunk adds to what was found.\<close>

definition merge_found :: "hashes \<Rightarrow> hashes \<Rightarrow> hashes" where
  "merge_found found extra =
     (\<lambda>op. if get_str found op = [] \<and> extra op \<noteq> None then extra op else found op)"

text \<open>The regular expression of the main bundle's url: the leftmost \<open>http\<close> or \<open>https\<close> url, up to
  the last file name of the bundle in it.\<close>

definition is_url_char :: "char \<Rightarrow> bool" where
  "is_url_char c \<longleftrightarrow> c \<notin> set [CHR '' '', CHR 0x09, CHR 0x0A, CHR 0x0C, CHR 0x0D, CHR 0x22, CHR 0x27, CHR ''<'', CHR ''>'']"

definition bundle_tail :: "string \<Rightarrow> nat option" where
  "bundle_tail s =
     (if \<not> has_prefix s ''/web-player.'' then None
      else let h = takeWhile is_lower_hex (drop 12 s)
           in if h \<noteq> [] \<and> has_prefix (drop (12 + length h) s) ''.js'' then Some (15 + length h) else None)"

definition match_bundle :: "string \<Rightarrow> string option" where
  "match_bundle s =
     (case (if has_prefix s ''http://'' then Some 7 else if has_prefix s ''https://'' then Some 8 else None) of
        None \<Rightarrow> None
      | Some k \<Rightarrow>
          let run = takeWhile is_url_char (drop k s)
          in (case filter (\<lambda>i. bundle_tail (drop i run) \<noteq> None) (rev [1..<length run]) of
                [] \<Rightarrow> None
              | i # _ \<Rightarrow> Some (take (k + i + (case bundle_tail (drop i run) of Some n \<Rightarrow> n | None \<Rightarrow> 0)) s)))"

fun find_bundle :: "string \<Rightarrow> string option" where
  "find_bundle [] = None"
| "find_bundle (c # cs) = (case match_bundle (c # cs) of Some u \<Rightarrow> Some u | None \<Rightarrow> find_bundle cs)"

text \<open>The name after the last slash.\<close>

definition url_name :: "string \<Rightarrow> string" where
  "url_name u = rev (takeWhile (\<lambda>c. c \<noteq> CHR ''/'') (rev u))"

text \<open>The route chunks: their bodies, \<open>None\<close> when one cannot be fetched. At most ten, within the
  budget of bytes.\<close>

definition max_chunk_fetch :: nat where "max_chunk_fetch = 10"
definition hash_scrape_budget :: nat where "hash_scrape_budget = 24 * 1048576"

fun scrape_chunks :: "nat \<Rightarrow> nat \<Rightarrow> string option list \<Rightarrow> hashes \<Rightarrow> hashes" where
  "scrape_chunks i spent [] found = found"
| "scrape_chunks i spent (b # bs) found =
     (if i \<ge> max_chunk_fetch \<or> have_all_targets found \<or> spent \<ge> hash_scrape_budget then found
      else case b of
        None \<Rightarrow> scrape_chunks (Suc i) spent bs found
      | Some body \<Rightarrow> scrape_chunks (Suc i) (spent + length body) bs (merge_found found (extract_target_ops body)))"

text \<open>What a scrape returns: an error, the sign that the bundle is unchanged, or what was found.\<close>

datatype scrape_result = ScrapeFailed | ScrapeUnchanged string | Scraped hashes string

definition scrape :: "string \<Rightarrow> string option \<Rightarrow> string option \<Rightarrow> string option list \<Rightarrow> scrape_result" where
  "scrape cached home main chunks =
     (case home of
        None \<Rightarrow> ScrapeFailed
      | Some h \<Rightarrow>
         (case find_bundle h of
            None \<Rightarrow> ScrapeFailed
          | Some u \<Rightarrow>
              let bundle = url_name u
              in if cached \<noteq> [] \<and> bundle = cached then ScrapeUnchanged bundle
                 else case main of
                   None \<Rightarrow> ScrapeFailed
                 | Some m \<Rightarrow>
                     let found = extract_target_ops m
                     in if have_all_targets found then Scraped found bundle
                        else Scraped (scrape_chunks 0 (length h + length m) chunks found) bundle))"

subsection \<open>The cache file and a rotation\<close>

record hash_cache_file =
  hc_version :: int
  hc_fetched_at :: int
  hc_bundle :: string
  hc_current :: hashes
  hc_previous :: hashes

definition hash_cache_version :: int where "hash_cache_version = 1"

text \<open>\<open>None\<close> is a file that is absent or not JSON.\<close>

definition load_hash_cache_file :: "hash_cache_file option \<Rightarrow> hash_store \<Rightarrow> (string \<times> int) \<times> hash_store" where
  "load_hash_cache_file file s =
     (case file of
        None \<Rightarrow> (([], 0), s)
      | Some f \<Rightarrow>
          if hc_version f \<noteq> hash_cache_version then (([], 0), s)
          else ((hc_bundle f, hc_fetched_at f), seed (hc_current f) (hc_previous f) s))"

definition save_hash_cache_file :: "bool \<Rightarrow> string \<Rightarrow> int \<Rightarrow> hash_store \<Rightarrow> hash_cache_file option \<Rightarrow> hash_cache_file option" where
  "save_hash_cache_file ok bundle fetched_at s file =
     (if \<not> ok then file
      else let (cur, prev) = hash_snapshot s
           in Some \<lparr>hc_version = hash_cache_version, hc_fetched_at = fetched_at, hc_bundle = bundle,
                    hc_current = cur, hc_previous = prev\<rparr>)"

record hash_service =
  hv_store :: hash_store
  hv_bundle :: string
  hv_fetched_at :: int
  hv_gate :: bool
  hv_last_rotate :: int
  hv_file :: "hash_cache_file option"

definition load_hash_cache :: "hash_service \<Rightarrow> hash_service" where
  "load_hash_cache v =
     (let ((bundle, at), s) = load_hash_cache_file (hv_file v) (hv_store v)
      in v\<lparr>hv_store := s, hv_bundle := bundle, hv_fetched_at := at\<rparr>)"

text \<open>A rotation: the nanoseconds of its start, the second of its end, and what the scrape gives for
  the bundle it knows.\<close>

definition rotate_once :: "int \<Rightarrow> int \<Rightarrow> bool \<Rightarrow> (string \<Rightarrow> scrape_result) \<Rightarrow> hash_service \<Rightarrow> hash_service" where
  "rotate_once started now_unix save_ok scraper v0 =
     (if hv_gate v0 then v0
      else
        let v = v0\<lparr>hv_last_rotate := started\<rparr>; res = scraper (hv_bundle v)
        in case res of
             ScrapeFailed \<Rightarrow> v
           | ScrapeUnchanged _ \<Rightarrow> v
           | Scraped found bundle \<Rightarrow>
               if \<not> have_all_targets found then v
               else
                 let s = snd (adopt found (hv_store v))
                 in v\<lparr>hv_store := s, hv_bundle := bundle, hv_fetched_at := now_unix,
                     hv_file := save_hash_cache_file save_ok bundle now_unix s (hv_file v)\<rparr>)"

text \<open>Whether \<open>triggerHashRotate\<close> starts a rotation, and whether the daemon's start does.\<close>

definition trigger_hash_rotate :: "int \<Rightarrow> hash_service \<Rightarrow> bool" where
  "trigger_hash_rotate now_nano v \<longleftrightarrow> \<not> (hv_last_rotate v \<noteq> 0 \<and> now_nano - hv_last_rotate v < minutes 5)"

definition startup_rotates :: "int \<Rightarrow> hash_service \<Rightarrow> bool" where
  "startup_rotates now_nano v \<longleftrightarrow>
     \<not> (hv_fetched_at v \<noteq> 0 \<and> now_nano - seconds (hv_fetched_at v) < minutes 1440 \<and> has_all_targets (hv_store v))"

subsection \<open>The store holds usable hashes only\<close>

text \<open>Every entry is a target's, and is 64 lower-case hexadecimal digits.\<close>

definition hashes_ok :: "hashes \<Rightarrow> bool" where
  "hashes_ok m \<longleftrightarrow> (\<forall>op h. m op = Some h \<longrightarrow> op \<in> set target_ops \<and> is_64_hex h)"

definition store_ok :: "hash_store \<Rightarrow> bool" where
  "store_ok s \<longleftrightarrow> hashes_ok (hs_current s) \<and> hashes_ok (hs_previous s)"

lemma hashes_ok_upd: "hashes_ok m \<Longrightarrow> op \<in> set target_ops \<Longrightarrow> is_64_hex h \<Longrightarrow> hashes_ok (m(op \<mapsto> h))"
  by (auto simp: hashes_ok_def)

lemma hashes_ok_get: "hashes_ok m \<Longrightarrow> get_str m op \<noteq> [] \<Longrightarrow> is_64_hex (get_str m op)"
  by (auto simp: hashes_ok_def get_str_def split: option.splits)

lemma adopt_one_ok:
  "store_ok s \<Longrightarrow> op \<in> set target_ops \<Longrightarrow> store_ok (snd (adopt_one scraped (n, s) op))"
  by (auto simp: adopt_one_def store_ok_def Let_def hashes_ok_upd hashes_ok_get)

lemma adopt_fold_ok:
  "store_ok (snd cs) \<Longrightarrow> set ops \<subseteq> set target_ops \<Longrightarrow> store_ok (snd (foldl (adopt_one scraped) cs ops))"
proof (induction ops arbitrary: cs)
  case (Cons op ops)
  then have "store_ok (snd (adopt_one scraped cs op))"
    using adopt_one_ok [of "snd cs" op scraped "fst cs"] by simp
  with Cons show ?case by simp
qed simp

lemma adopt_ok: "store_ok s \<Longrightarrow> store_ok (snd (adopt scraped s))"
  by (simp add: adopt_def adopt_fold_ok)

lemma seed_one_ok:
  "store_ok s \<Longrightarrow> op \<in> set target_ops \<Longrightarrow> store_ok (seed_one cur prev s op)"
  by (auto simp: seed_one_def store_ok_def Let_def hashes_ok_upd)

lemma seed_fold_ok:
  "store_ok s \<Longrightarrow> set ops \<subseteq> set target_ops \<Longrightarrow> store_ok (foldl (seed_one cur prev) s ops)"
  by (induction ops arbitrary: s) (auto simp: seed_one_ok)

lemma seed_ok: "store_ok s \<Longrightarrow> store_ok (seed cur prev s)"
  by (simp add: seed_def seed_fold_ok)

lemma new_hash_store_ok: "store_ok new_hash_store"
  by (simp add: store_ok_def hashes_ok_def new_hash_store_def)

lemma defaults_hex: "list_all (\<lambda>(op, h). is_64_hex h) op_hash_defaults"
  by code_simp

lemma default_hash_hex: "op \<in> set target_ops \<Longrightarrow> is_64_hex (default_hash op)"
proof -
  assume "op \<in> set target_ops"
  then obtain h where h: "map_of op_hash_defaults op = Some h"
    by (metis domD dom_map_of_conv_image_fst image_set target_ops_def)
  then have "(op, h) \<in> set op_hash_defaults" by (rule map_of_SomeD)
  then have "is_64_hex h" using defaults_hex by (auto simp: list_all_iff)
  with h show ?thesis by (simp add: default_hash_def get_str_def)
qed

text \<open>What one operation's entry becomes when the others are processed too.\<close>

lemma adopt_one_other:
  "op' \<noteq> op \<Longrightarrow> hs_current (snd (adopt_one scraped cs op)) op' = hs_current (snd cs) op'
     \<and> hs_previous (snd (adopt_one scraped cs op)) op' = hs_previous (snd cs) op'"
  by (cases cs) (simp add: adopt_one_def Let_def)

lemma adopt_fold_other:
  "op' \<notin> set ops \<Longrightarrow> hs_current (snd (foldl (adopt_one scraped) cs ops)) op' = hs_current (snd cs) op'
     \<and> hs_previous (snd (foldl (adopt_one scraped) cs ops)) op' = hs_previous (snd cs) op'"
  by (induction ops arbitrary: cs) (auto simp: adopt_one_other)

lemma adopt_one_same:
  assumes "is_64_hex (get_str scraped op)"
  shows "hs_current (snd (adopt_one scraped cs op)) op = Some (get_str scraped op)"
    and "get_str (hs_current (snd cs)) op \<noteq> [] \<Longrightarrow> get_str (hs_current (snd cs)) op \<noteq> get_str scraped op \<Longrightarrow>
      hs_previous (snd (adopt_one scraped cs op)) op = Some (get_str (hs_current (snd cs)) op)"
  using assms by (cases cs; simp add: adopt_one_def Let_def hash_for_def)+

lemma distinct_targets: "distinct target_ops"
  by code_simp

lemma adopt_current:
  assumes "op \<in> set target_ops" and "is_64_hex (get_str scraped op)"
  shows "hs_current (snd (adopt scraped s)) op = Some (get_str scraped op)"
    and "get_str (hs_current s) op \<noteq> [] \<Longrightarrow> get_str (hs_current s) op \<noteq> get_str scraped op \<Longrightarrow>
      hs_previous (snd (adopt scraped s)) op = Some (get_str (hs_current s) op)"
proof -
  obtain xs ys where ops: "target_ops = xs @ op # ys" using assms(1) by (auto dest: split_list)
  have "distinct (xs @ op # ys)" using distinct_targets unfolding ops .
  then have notin: "op \<notin> set xs" "op \<notin> set ys" by auto
  let ?c = "foldl (adopt_one scraped) (0, s) xs"
  have pre: "hs_current (snd ?c) op = hs_current s op" "hs_previous (snd ?c) op = hs_previous s op"
    using adopt_fold_other [OF notin(1), of scraped "(0, s)"] by simp_all
  have eq: "snd (adopt scraped s) = snd (foldl (adopt_one scraped) (adopt_one scraped ?c op) ys)"
    by (simp add: adopt_def ops)
  have post: "hs_current (snd (adopt scraped s)) op = hs_current (snd (adopt_one scraped ?c op)) op"
    "hs_previous (snd (adopt scraped s)) op = hs_previous (snd (adopt_one scraped ?c op)) op"
    unfolding eq using adopt_fold_other [OF notin(2)] by blast+
  show "hs_current (snd (adopt scraped s)) op = Some (get_str scraped op)"
    unfolding post(1) by (rule adopt_one_same(1) [OF assms(2)])
  show "hs_previous (snd (adopt scraped s)) op = Some (get_str (hs_current s) op)"
    if "get_str (hs_current s) op \<noteq> []" "get_str (hs_current s) op \<noteq> get_str scraped op"
    using that adopt_one_same(2) [OF assms(2), of ?c] pre unfolding post(2) by (simp add: get_str_def)
qed

text \<open>A chunk never replaces a hash that was found before it.\<close>

lemma scrape_chunks_keeps: "get_str found op \<noteq> [] \<Longrightarrow> get_str (scrape_chunks i n bs found) op = get_str found op"
proof (induction i n bs found rule: scrape_chunks.induct)
  case (2 i spent b bs found)
  have "get_str (merge_found found extra) op = get_str found op" for extra
    using "2.prems" by (simp add: merge_found_def get_str_def)
  with 2 show ?case by (auto split: option.split)
qed simp

lemma find_bundle_example:
  "find_bundle ''<script src=https://x/y/web-player.0af.js>'' = Some ''https://x/y/web-player.0af.js''
   \<and> url_name ''https://x/y/web-player.0af.js'' = ''web-player.0af.js''"
  by code_simp

subsection \<open>The service as a machine\<close>

datatype hash_event =
    LoadCache
  | Rotate int int bool "string \<Rightarrow> scrape_result"

fun hash_step :: "hash_service \<Rightarrow> hash_event \<Rightarrow> hash_service" where
  "hash_step v LoadCache = load_hash_cache v"
| "hash_step v (Rotate t now ok f) = rotate_once t now ok f v"

interpretation hash_machine: invariant_machine hash_step "\<lambda>v. store_ok (hv_store v)"
proof unfold_locales
  fix v :: hash_service and e
  assume "store_ok (hv_store v)"
  then show "store_ok (hv_store (hash_step v e))"
    by (cases e) (auto simp: load_hash_cache_def load_hash_cache_file_def rotate_once_def Let_def seed_ok adopt_ok
        split: option.splits scrape_result.splits)
qed

subsection \<open>Properties\<close>

text \<open>every query always has a usable hash. However often the cache is loaded (whatever the
  file holds) and the hashes are rotated (whatever the scrape found), the hash of every
  operation the daemon uses is 64 hexadecimal digits.\<close>

theorem query_hash_always_usable:
  assumes "op \<in> set target_ops" and "store_ok (hv_store v)"
  shows "is_64_hex (hash_for (Some (hv_store (foldl hash_step v es))) op)"
proof -
  have "store_ok (hv_store (foldl hash_step v es))" using hash_machine.run_inv assms(2) by blast
  then show ?thesis using default_hash_hex [OF assms(1)]
    by (simp add: hash_for_def store_ok_def hashes_ok_get)
qed

definition idle_hashes :: hash_service where
  "idle_hashes = \<lparr>hv_store = new_hash_store, hv_bundle = [], hv_fetched_at = 0, hv_gate = False,
     hv_last_rotate = 0, hv_file = None\<rparr>"

theorem query_hash_always_usable_witness:
  "is_64_hex (hash_for (Some (hv_store (foldl hash_step idle_hashes
     [LoadCache, Rotate 4 5 True (\<lambda>_. Scraped [''recents'' \<mapsto> ''x''] ''b''),
      Rotate 5 6 True (\<lambda>b. scrape b None None [])]))) ''recents'')"
  by (rule query_hash_always_usable)
    (simp_all add: target_ops_def op_hash_defaults_def idle_hashes_def new_hash_store_ok)

text \<open>a rotation takes effect as a whole and keeps the way back. When the scrape found a hash
  for every operation, each is used from then on, and the one that it replaced in the store
  is the previous one; when one is missing, no hash changes.\<close>

theorem rotation_all_or_nothing:
  assumes "\<not> hv_gate v" and "op \<in> set target_ops"
  shows "if list_all (\<lambda>op. is_64_hex (get_str found op)) target_ops
    then hash_for (Some (hv_store (rotate_once t now ok (\<lambda>_. Scraped found bundle) v))) op = get_str found op
      \<and> (get_str (hs_current (hv_store v)) op \<noteq> [] \<and> get_str (hs_current (hv_store v)) op \<noteq> get_str found op \<longrightarrow>
          hs_previous (hv_store (rotate_once t now ok (\<lambda>_. Scraped found bundle) v)) op = Some (get_str (hs_current (hv_store v)) op))
    else hv_store (rotate_once t now ok (\<lambda>_. Scraped found bundle) v) = hv_store v"
proof (cases "have_all_targets found")
  case True
  then have hex: "is_64_hex (get_str found op)" using assms(2) by (simp add: have_all_targets_def list_all_iff)
  have st: "hv_store (rotate_once t now ok (\<lambda>_. Scraped found bundle) v) = snd (adopt found (hv_store v))"
    using True assms(1) by (simp add: rotate_once_def Let_def)
  have "get_str found op \<noteq> []" using hex by (auto simp: is_64_hex_def)
  then have "hash_for (Some (snd (adopt found (hv_store v)))) op = get_str found op"
    using adopt_current(1) [OF assms(2) hex, of "hv_store v"] by (simp add: hash_for_def get_str_def)
  with adopt_current(2) [OF assms(2) hex, of "hv_store v"] True st show ?thesis
    by (simp add: have_all_targets_def)
next
  case False
  with assms(1) show ?thesis by (simp add: have_all_targets_def [symmetric] rotate_once_def Let_def)
qed

theorem rotation_all_or_nothing_witness:
  "hv_store (rotate_once 4 5 True (\<lambda>_. Scraped [''recents'' \<mapsto> ''x''] ''b'') idle_hashes) = new_hash_store"
proof -
  have none: "list_all (\<lambda>op. is_64_hex (get_str [''recents'' \<mapsto> ''x''] op)) target_ops = False" by code_simp
  have "hv_store (rotate_once 4 5 True (\<lambda>_. Scraped [''recents'' \<mapsto> ''x''] ''b'') idle_hashes) = hv_store idle_hashes"
    using rotation_all_or_nothing [of idle_hashes "''recents''" "[''recents'' \<mapsto> ''x'']" 4 5 True "''b''"]
    unfolding none if_False by (simp add: idle_hashes_def target_ops_def op_hash_defaults_def)
  then show ?thesis by (simp add: idle_hashes_def)
qed

end
