(* ===== verification/Pathfinder.thy ===== *)
theory Pathfinder
  imports GoLib HashStore
begin

text \<open>
  The persisted queries of the player (\<open>daemon/player.go\<close>, \<open>daemon/webapi_library.go\<close>): how the
  answers of the Pathfinder service become a body or an error, the saved state of a track, the
  paging parameters and paths that are served from it, and the mapping of the answer of the Web API
  for a track. Requests are the operations with their variables; the hashes come from the store.
\<close>

subsection \<open>Numbers in text\<close>

text \<open>\<open>strconv.Atoi\<close>: an optional sign and digits, in the range of an \<open>int\<close>.\<close>

definition atoi :: "string \<Rightarrow> int option" where
  "atoi s =
     (let neg = (s \<noteq> [] \<and> hd s = CHR ''-'');
          ds = (if s \<noteq> [] \<and> (hd s = CHR ''-'' \<or> hd s = CHR ''+'') then tl s else s);
          n = (if neg then - int (digits_val ds) else int (digits_val ds))
      in if ds = [] \<or> \<not> list_all is_digit ds then None
         else if n < -9223372036854775808 \<or> 9223372036854775807 < n then None
         else Some n)"

text \<open>The value that a failed \<open>Atoi\<close> leaves: zero, or the bound that was passed.\<close>

definition atoi_or_zero :: "string \<Rightarrow> int" where
  "atoi_or_zero s =
     (case atoi s of
        Some n \<Rightarrow> n
      | None \<Rightarrow>
          let ds = (if s \<noteq> [] \<and> (hd s = CHR ''-'' \<or> hd s = CHR ''+'') then tl s else s)
          in if ds = [] \<or> \<not> list_all is_digit ds then 0
             else if hd s = CHR ''-'' then -9223372036854775808 else 9223372036854775807)"

text \<open>A duration is an \<open>int64\<close> of nanoseconds; the product wraps.\<close>

definition wrap64 :: "int \<Rightarrow> int" where
  "wrap64 n = (n + 9223372036854775808) mod 18446744073709551616 - 9223372036854775808"

definition parse_retry_after :: "string \<Rightarrow> duration" where
  "parse_retry_after h =
     (let t = trim_space h
      in if t = [] then 0
         else case atoi t of
                Some secs \<Rightarrow> if secs > 0 then wrap64 (secs * 1000000000) else 0
              | None \<Rightarrow> 0)"

subsection \<open>Answers of a query\<close>

definition pathfinder_graphql_error_msg :: "string \<Rightarrow> string" where
  "pathfinder_graphql_error_msg body =
     (case Option.bind (json_parse body) (field ''errors'' [] (dec_list (field ''message'' [] dec_str))) of
        Some (m # ms) \<Rightarrow> m
      | _ \<Rightarrow> [])"

definition is_persisted_query_err :: "string \<Rightarrow> bool" where
  "is_persisted_query_err m \<longleftrightarrow>
     str_contains m ''PersistedQueryNotFound'' \<or> str_contains m ''PersistedQueryNotSupported''"

text \<open>\<open>pathfinderGraphQLError\<close> is an error even when the first message is empty.\<close>

definition pathfinder_graphql_error :: "string \<Rightarrow> string option" where
  "pathfinder_graphql_error body =
     (case Option.bind (json_parse body) (field ''errors'' [] (dec_list (field ''message'' [] dec_str))) of
        Some (m # ms) \<Rightarrow> Some (''pathfinder: '' @ m)
      | _ \<Rightarrow> None)"

datatype api_error =
  ErrBadRequest
| ErrForbidden
| ErrNotFound
| ErrMethodNotAllowed
| ErrTooManyRequests
| OtherError string

definition read_body :: "string option \<Rightarrow> string" where
  "read_body b = (case b of None \<Rightarrow> [] | Some s \<Rightarrow> s)"

text \<open>\<open>pathfinderQuery\<close>: the answer, and whether a rotated hash was noticed.\<close>

definition pathfinder_query :: "http \<Rightarrow> (api_error + string) \<times> bool" where
  "pathfinder_query resp =
     (case resp of
        NoResponse \<Rightarrow> (Inl (OtherError ''pathfinder request failed''), False)
      | Response status body \<Rightarrow>
          if status = 401 \<or> status = 403 then (Inl ErrForbidden, False)
          else if status = 429 then (Inl ErrTooManyRequests, False)
          else if status < 200 \<or> 300 \<le> status then (Inl (OtherError ''pathfinder returned status''), False)
          else case pathfinder_graphql_error (read_body body) of
                 Some e \<Rightarrow> (Inl (OtherError e), is_persisted_query_err e)
               | None \<Rightarrow> (Inr (read_body body), False))"

record pathfinder_error =
  pe_status :: int
  pe_retry_after :: duration
  pe_persisted_query :: bool

text \<open>\<open>pathfinderQueryEx\<close>: a transport error is no \<open>pathfinderError\<close>. \<open>retry\<close> is the header
  \<open>Retry-After\<close>.\<close>

definition pathfinder_query_ex :: "http \<Rightarrow> string \<Rightarrow> pathfinder_error option + string" where
  "pathfinder_query_ex resp retry =
     (case resp of
        NoResponse \<Rightarrow> Inl None
      | Response status body \<Rightarrow>
          if status < 200 \<or> 300 \<le> status
          then Inl (Some \<lparr>pe_status = status, pe_retry_after = parse_retry_after retry, pe_persisted_query = False\<rparr>)
          else
            let m = pathfinder_graphql_error_msg (read_body body)
            in if m \<noteq> []
               then Inl (Some \<lparr>pe_status = 200, pe_retry_after = 0, pe_persisted_query = is_persisted_query_err m\<rparr>)
               else Inr (read_body body))"

subsection \<open>Saved tracks\<close>

definition dec_saved_entry :: "json \<Rightarrow> (bool option \<times> bool option) option" where
  "dec_saved_entry j =
     do {
       outer \<leftarrow> opt_field ''saved'' dec_bool j;
       inner \<leftarrow> field ''data'' None (opt_field ''saved'' dec_bool) j;
       Some (inner, outer)
     }"

definition saved_of :: "string \<Rightarrow> bool" where
  "saved_of body =
     (case Option.bind (json_parse body) (field ''data'' [] (field ''lookup'' [] (dec_list dec_saved_entry))) of
        Some ((inner, outer) # es) \<Rightarrow> (case inner of Some b \<Rightarrow> b | None \<Rightarrow> (case outer of Some b \<Rightarrow> b | None \<Rightarrow> False))
      | _ \<Rightarrow> False)"

datatype pf_request =
  AreEntitiesInLibrary string string
| AddToLibrary string string
| ApplyCurations string string string

definition check_track_saved :: "hash_store option \<Rightarrow> (pf_request \<Rightarrow> http) \<Rightarrow> string \<Rightarrow> (api_error + bool) \<times> bool" where
  "check_track_saved hs net uri =
     (if \<not> has_prefix uri ''spotify:'' then (Inl ErrBadRequest, False)
      else case pathfinder_query (net (AreEntitiesInLibrary uri (hash_for hs ''areEntitiesInLibrary''))) of
             (Inl e, drift) \<Rightarrow> (Inl e, drift)
           | (Inr body, drift) \<Rightarrow> (Inr (saved_of body), drift))"

definition saved_request :: "hash_store option \<Rightarrow> string \<Rightarrow> bool \<Rightarrow> pf_request" where
  "saved_request hs uri saved =
     (if saved \<and> has_prefix uri ''spotify:local:'' then ApplyCurations uri ''CURATE'' (hash_for hs ''applyCurations'')
      else if saved then AddToLibrary uri (hash_for hs ''addToLibrary'')
      else ApplyCurations uri ''UNCURATE'' (hash_for hs ''applyCurations''))"

definition set_track_saved ::
    "hash_store option \<Rightarrow> (pf_request \<Rightarrow> http) \<Rightarrow> string \<Rightarrow> bool \<Rightarrow> api_error option \<times> bool" where
  "set_track_saved hs net uri saved =
     (if \<not> has_prefix uri ''spotify:'' then (Some ErrBadRequest, False)
      else case pathfinder_query (net (saved_request hs uri saved)) of
             (Inl e, drift) \<Rightarrow> (Some e, drift)
           | (Inr body, drift) \<Rightarrow> (None, drift))"

subsection \<open>What holds\<close>

lemma parse_retry_after_seconds:
  assumes "atoi (trim_space h) = Some secs" "0 < secs" "secs \<le> 9223372036"
  shows "parse_retry_after h = seconds secs"
proof -
  have "trim_space h \<noteq> []" using assms(1) by (auto simp: atoi_def)
  with assms show ?thesis by (simp add: parse_retry_after_def wrap64_def)
qed

text \<open>A larger number wraps: the pause it asks for is negative.\<close>

lemma retry_after_wraps: "parse_retry_after ''9223372037'' = -9223372036709551616"
  by (simp add: parse_retry_after_def trim_space_def is_space_def atoi_def digits_val_def digit_val_def
    is_digit_def wrap64_def)

text \<open>An error without a message is an error of the one query and a success of the other.\<close>

lemma empty_error_passes:
  "pathfinder_query (Response 200 (Some ''{\"errors\":[{}]}'')) = (Inl (OtherError ''pathfinder: ''), False)"
  "pathfinder_query_ex (Response 200 (Some ''{\"errors\":[{}]}'')) [] = Inr ''{\"errors\":[{}]}''"
  by code_simp+

end
