(* ===== verification/Lyrics.thy ===== *)
theory Lyrics
  imports Interfaces GoLib
begin

text \<open>
  The lyrics of a track (\<open>daemon/lyrics.go\<close>): three sources that are asked in turn until one has
  lyrics with line times, a source of word by word timing, the text of podcast episodes, the
  parsers of what they answer, and the cache in front of them.

  A request is answered by a function of its url, which the environment supplies for each
  attempt; the clock is read where the code reads it. Calls of the provider are taken one after
  the other. The cache is an association list with one
  entry per key, and where Go's iteration order matters it is the order of an arbitrary rank.
\<close>

subsection \<open>Results\<close>

record lyrics_word =
  lw_start :: string
  lw_word :: string

record lyrics_line =
  ll_start :: string
  ll_words :: string
  ll_syllables :: "lyrics_word list"

record lyrics_result =
  lr_sync_type :: string
  lr_lines :: "lyrics_line list"

definition plain_line :: "string \<Rightarrow> string \<Rightarrow> lyrics_line" where
  "plain_line t w = \<lparr>ll_start = t, ll_words = w, ll_syllables = []\<rparr>"

definition line_synced :: string where "line_synced = ''LINE_SYNCED''"
definition unsynced :: string where "unsynced = ''UNSYNCED''"

definition has_words :: "lyrics_result \<Rightarrow> bool" where
  "has_words r \<longleftrightarrow> (\<exists>l \<in> set (lr_lines r). ll_syllables l \<noteq> [])"

record lyrics_query =
  q_track_id :: string
  q_track_name :: string
  q_artist_name :: string
  q_album_name :: string
  q_duration_ms :: int

text \<open>What \<open>errors.Is\<close> can tell apart: the source has no lyrics, its token was refused, or
  something else went wrong.\<close>

datatype lyrics_error = NoLyrics | Unauthorized | OtherError

text \<open>A source answers an error or a result, which may be nil.\<close>

type_synonym lyrics_answer = "lyrics_error + lyrics_result option"

fun answer_result :: "lyrics_answer \<Rightarrow> lyrics_result option" where
  "answer_result (Inr r) = r"
| "answer_result (Inl _) = None"

definition transient :: "lyrics_answer \<Rightarrow> bool" where
  "transient a \<longleftrightarrow> (case a of Inl e \<Rightarrow> e \<noteq> NoLyrics | Inr _ \<Rightarrow> False)"

subsection \<open>Plain text and LRC\<close>

definition plain_text_lines :: "string \<Rightarrow> lyrics_line list" where
  "plain_text_lines text =
     map (plain_line ''0'') (filter (\<lambda>l. l \<noteq> []) (map trim_space (split_on CHR 0x0A text)))"

definition plain_text_to_result :: "string \<Rightarrow> lyrics_result option" where
  "plain_text_to_result text =
     (let lines = plain_text_lines text
      in if lines = [] then None else Some \<lparr>lr_sync_type = unsynced, lr_lines = lines\<rparr>)"

text \<open>\<open>\s\<close> of a regular expression.\<close>

definition re_space :: "char \<Rightarrow> bool" where
  "re_space c \<longleftrightarrow> c = CHR 0x20 \<or> c = CHR 0x09 \<or> c = CHR 0x0A \<or> c = CHR 0x0C \<or> c = CHR 0x0D"

text \<open>\<open>^\[(\d{2}):(\d{2})\.(\d{2,3})\]\s?(.*)$\<close> on a line: the four groups.\<close>

definition lrc_text :: "string \<Rightarrow> string" where
  "lrc_text r = (case r of [] \<Rightarrow> [] | c # r' \<Rightarrow> if re_space c then r' else r)"

fun match_lrc :: "string \<Rightarrow> (string \<times> string \<times> string \<times> string) option" where
  "match_lrc (a # m1 # m2 # b # s1 # s2 # c # f1 # f2 # r) =
     (if a = CHR ''['' \<and> is_digit m1 \<and> is_digit m2 \<and> b = CHR '':'' \<and> is_digit s1 \<and> is_digit s2 \<and>
         c = CHR ''.'' \<and> is_digit f1 \<and> is_digit f2
      then (case r of
              [] \<Rightarrow> None
            | d # r1 \<Rightarrow>
                (if is_digit d then
                   (case r1 of
                      [] \<Rightarrow> None
                    | e # r2 \<Rightarrow> if e = CHR '']'' then Some ([m1, m2], [s1, s2], [f1, f2, d], lrc_text r2) else None)
                 else if d = CHR '']'' then Some ([m1, m2], [s1, s2], [f1, f2], lrc_text r1)
                 else None))
      else None)"
| "match_lrc _ = None"

definition lrc_line :: "string \<Rightarrow> lyrics_line option" where
  "lrc_line raw =
     (let s = trim_space raw
      in if s = [] then None
         else case match_lrc s of
                None \<Rightarrow> None
              | Some (m, sec, f, text) \<Rightarrow>
                  let frac = (if length f = 2 then digits_val f * 10 else digits_val f);
                      ms = digits_val m * 60 * 1000 + digits_val sec * 1000 + frac
                  in Some (plain_line (show_nat ms) text))"

definition parse_lrc :: "string \<Rightarrow> lyrics_answer" where
  "parse_lrc lrc =
     (let lines = List.map_filter lrc_line (split_on CHR 0x0A lrc)
      in if lines = [] then Inl OtherError
         else Inr (Some \<lparr>lr_sync_type = line_synced, lr_lines = lines\<rparr>))"

subsection \<open>The primary source and episode texts\<close>

type_synonym token_source = "bool \<Rightarrow> string option"

record lyrics_endpoint =
  le_url :: string
  le_query :: string
  le_platform :: string
  le_get_token :: bool  \<comment> \<open>whether a source of access tokens is there\<close>

text \<open>The answers one call can get: an access token for each \<open>force\<close>, and the response to a url
  asked with headers.\<close>

record lyrics_net =
  ln_token :: token_source
  ln_get :: "string \<Rightarrow> (string \<times> string) list \<Rightarrow> http"

definition dec_primary_line :: "json \<Rightarrow> lyrics_line option" where
  "dec_primary_line j = do {
     t \<leftarrow> field ''startTimeMs'' [] dec_str j;
     w \<leftarrow> field ''words'' [] dec_str j;
     Some (plain_line t w) }"

definition dec_primary_lyrics :: "json \<Rightarrow> (string \<times> lyrics_line list) option" where
  "dec_primary_lyrics j = do {
     t \<leftarrow> field ''syncType'' [] dec_str j;
     ls \<leftarrow> field ''lines'' [] (dec_list dec_primary_line) j;
     Some (t, ls) }"

definition parse_primary :: "string \<Rightarrow> lyrics_answer" where
  "parse_primary body =
     (case do { j \<leftarrow> json_parse body; field ''lyrics'' ([], []) dec_primary_lyrics j } of
        None \<Rightarrow> Inl OtherError
      | Some (sync, lines) \<Rightarrow>
          (if lines = [] then Inl NoLyrics
           else Inr (Some \<lparr>lr_sync_type = (if sync = [] then unsynced else sync), lr_lines = lines\<rparr>)))"

definition endpoint_url :: "lyrics_endpoint \<Rightarrow> string \<Rightarrow> string" where
  "endpoint_url p i = le_url p @ i @ (if le_query p = [] then [] else ''?'' @ le_query p)"

definition browser_agent :: string where
  "browser_agent =
     ''Mozilla/5.0 (Windows NT 10.0; Win64; x64) AppleWebKit/537.36 (KHTML, like Gecko) Chrome/120.0.0.0 Safari/537.36''"

definition endpoint_headers :: "lyrics_endpoint \<Rightarrow> string \<Rightarrow> (string \<times> string) list" where
  "endpoint_headers p token =
     (''Authorization'', ''Bearer '' @ token) #
     (if le_platform p = [] then [] else [(''App-Platform'', le_platform p)]) @
     [(''Accept'', ''application/json''), (''User-Agent'', browser_agent)]"

text \<open>One request, for either endpoint; \<open>parse\<close> reads the body.\<close>

definition endpoint_request ::
    "(string \<Rightarrow> lyrics_answer) \<Rightarrow> lyrics_endpoint \<Rightarrow> lyrics_net \<Rightarrow> string \<Rightarrow> bool \<Rightarrow> lyrics_answer" where
  "endpoint_request parse p n i force =
     (case ln_token n force of
        None \<Rightarrow> Inl OtherError
      | Some token \<Rightarrow>
          (case ln_get n (endpoint_url p i) (endpoint_headers p token) of
             NoResponse \<Rightarrow> Inl OtherError
           | Response status body \<Rightarrow>
               (if status = 401 \<or> status = 403 then Inl Unauthorized
                else if status = 404 then Inl NoLyrics
                else if status \<noteq> 200 then Inl OtherError
                else case body of None \<Rightarrow> Inl OtherError | Some b \<Rightarrow> parse b)))"

definition primary_request :: "lyrics_endpoint \<Rightarrow> lyrics_net \<Rightarrow> string \<Rightarrow> bool \<Rightarrow> lyrics_answer" where
  "primary_request = endpoint_request parse_primary"

definition with_fresh_token :: "(bool \<Rightarrow> lyrics_answer) \<Rightarrow> lyrics_answer" where
  "with_fresh_token request =
     (let a = request False in if a = Inl Unauthorized then request True else a)"

definition primary_fetch :: "lyrics_endpoint \<Rightarrow> lyrics_net \<Rightarrow> lyrics_query \<Rightarrow> lyrics_answer" where
  "primary_fetch p n q =
     (if le_url p = [] then Inl NoLyrics
      else if \<not> le_get_token p then Inl NoLyrics
      else
        let i = after_last CHR '':'' (q_track_id q)
        in if i = [] then Inl NoLyrics
           else with_fresh_token (primary_request p n i))"

record episode_section =
  es_start_ms :: int
  es_title :: "string option"
  es_text :: "(int \<times> string) option"
  es_fallback :: "(int \<times> string) option"

definition dec_sentence :: "json \<Rightarrow> (int \<times> string) option" where
  "dec_sentence j =
     field ''sentence'' (0, [])
       (\<lambda>s. do { t \<leftarrow> field ''startMs'' 0 dec_int s; w \<leftarrow> field ''text'' [] dec_str s; Some (t, w) }) j"

definition dec_section :: "json \<Rightarrow> episode_section option" where
  "dec_section j = do {
     t \<leftarrow> field ''startMs'' 0 dec_int j;
     title \<leftarrow> opt_field ''title'' (field ''title'' [] dec_str) j;
     text \<leftarrow> opt_field ''text'' dec_sentence j;
     fallback \<leftarrow> opt_field ''fallback'' dec_sentence j;
     Some \<lparr>es_start_ms = t, es_title = title, es_text = text, es_fallback = fallback\<rparr> }"

fun has_text :: "(int \<times> string) option \<Rightarrow> bool" where
  "has_text None = False"
| "has_text (Some (t, w)) = (trim_space w \<noteq> [])"

text \<open>The sentence of a section, its start, and whether it is spoken.\<close>

definition section_sentence :: "episode_section \<Rightarrow> (string \<times> int \<times> bool) option" where
  "section_sentence s =
     (let start = (\<lambda>t. if t = 0 then es_start_ms s else t)
      in case es_text s of
           Some (t, w) \<Rightarrow>
             if has_text (es_text s) then Some (w, start t, True)
             else (case es_fallback s of
                     Some (t', w') \<Rightarrow> if has_text (es_fallback s) then Some (w', start t', False) else None
                   | None \<Rightarrow> None)
         | None \<Rightarrow> (case es_fallback s of
                     Some (t', w') \<Rightarrow> if has_text (es_fallback s) then Some (w', start t', False) else None
                   | None \<Rightarrow> None))"

fun section_title :: "episode_section \<Rightarrow> string" where
  "section_title s = (case es_title s of None \<Rightarrow> [] | Some t \<Rightarrow> trim_space t)"

text \<open>The loop over the sections, with the speaker that waits for a sentence.\<close>

fun episode_lines :: "string \<Rightarrow> episode_section list \<Rightarrow> lyrics_line list" where
  "episode_lines speaker [] = []"
| "episode_lines speaker (s # ss) =
     (if section_title s \<noteq> [] then episode_lines (section_title s) ss
      else case section_sentence s of
             None \<Rightarrow> episode_lines speaker ss
           | Some (w, t, spoken) \<Rightarrow>
               (if spoken \<and> speaker \<noteq> []
                then plain_line (show_int t) (speaker @ '': '' @ w) # episode_lines [] ss
                else plain_line (show_int t) w # episode_lines speaker ss))"

definition parse_episode_text :: "string \<Rightarrow> lyrics_answer" where
  "parse_episode_text body =
     (case do { j \<leftarrow> json_parse body; field ''section'' [] (dec_list dec_section) j } of
        None \<Rightarrow> Inl OtherError
      | Some sections \<Rightarrow>
          (let lines = episode_lines [] sections
           in if lines = [] then Inl NoLyrics
              else Inr (Some \<lparr>lr_sync_type = line_synced, lr_lines = lines\<rparr>)))"

definition episode_request :: "lyrics_endpoint \<Rightarrow> lyrics_net \<Rightarrow> string \<Rightarrow> bool \<Rightarrow> lyrics_answer" where
  "episode_request = endpoint_request parse_episode_text"

definition episode_fetch :: "lyrics_endpoint \<Rightarrow> lyrics_net \<Rightarrow> string \<Rightarrow> lyrics_answer" where
  "episode_fetch p n i =
     (if le_url p = [] then Inl NoLyrics
      else if \<not> le_get_token p then Inl NoLyrics
      else with_fresh_token (episode_request p n i))"

text \<open>\<open>FetchEpisodeText\<close>; the provider may have no episode source.\<close>

definition fetch_episode_text :: "lyrics_endpoint option \<Rightarrow> lyrics_net \<Rightarrow> string \<Rightarrow> lyrics_answer" where
  "fetch_episode_text p n episode =
     (let i = after_last CHR '':'' episode
      in if i = [] then Inl OtherError
         else case p of None \<Rightarrow> Inl NoLyrics | Some ep \<Rightarrow> episode_fetch ep n i)"


subsection \<open>The secondary source\<close>

definition secondary_cooldown :: duration where "secondary_cooldown = 60000000000"
definition secondary_token_ttl :: duration where "secondary_token_ttl = 50000000000"
definition secondary_token_refused_cooldown :: duration where
  "secondary_token_refused_cooldown = 1800000000000"

text \<open>The provider; \<open>se_sent\<close> is a ghost list of the urls it has requested, the newest first.\<close>

record secondary =
  se_token_url :: string
  se_subtitle_url :: string
  se_app_id :: string
  se_subtitle_fmt :: string
  se_user_agent :: string
  se_app_version_header :: string
  se_app_version :: string
  se_cookie_header :: string
  se_cookie_value :: string
  se_tok :: string
  se_exp :: instant
  se_cooldown_until :: instant
  se_sent :: "string list"

definition secondary_headers :: "secondary \<Rightarrow> (string \<times> string) list" where
  "secondary_headers s =
     (if se_user_agent s = [] then [] else [(''X-User-Agent'', se_user_agent s)]) @
     (if se_app_version_header s = [] \<or> se_app_version s = [] then []
      else [(se_app_version_header s, se_app_version s)]) @
     (if se_cookie_header s = [] \<or> se_cookie_value s = [] then []
      else [(se_cookie_header s, se_cookie_value s)]) @
     [(''Accept'', ''application/json''), (''Accept-Language'', ''en-US,en;q=0.9'')]"

text \<open>What one attempt meets: the clock when the token is looked at and when its answer is in,
  the clock when the source is told to back off, and the response to a url asked with headers.\<close>

record secondary_env =
  sv_check :: instant
  sv_answered :: instant
  sv_back_off :: instant
  sv_get :: "string \<Rightarrow> (string \<times> string) list \<Rightarrow> http"

definition secondary_get :: "secondary_env \<Rightarrow> string \<Rightarrow> secondary \<Rightarrow> http \<times> secondary" where
  "secondary_get e url s = (sv_get e url (secondary_headers s), s\<lparr>se_sent := url # se_sent s\<rparr>)"

definition is_null_token :: "string \<Rightarrow> bool" where
  "is_null_token t \<longleftrightarrow> (\<forall>c \<in> set t. c = CHR ''0'')"

definition dec_status :: "json \<Rightarrow> int option" where
  "dec_status j = field ''header'' 0 (field ''status_code'' 0 dec_int) j"

definition dec_token :: "json \<Rightarrow> (int \<times> string) option" where
  "dec_token j =
     field ''message'' (0, [])
       (\<lambda>m. do { sc \<leftarrow> dec_status m;
                 t \<leftarrow> field ''body'' [] (field ''user_token'' [] dec_str) m;
                 Some (sc, t) }) j"

definition drop_token :: "secondary \<Rightarrow> secondary" where
  "drop_token s = s\<lparr>se_tok := [], se_exp := 0\<rparr>"

definition refuse_token :: "instant \<Rightarrow> secondary \<Rightarrow> secondary" where
  "refuse_token now s = (drop_token s)\<lparr>se_cooldown_until := now + secondary_token_refused_cooldown\<rparr>"

text \<open>What becomes of the answer to the request of a token.\<close>

definition note_token ::
    "secondary_env \<Rightarrow> int \<Rightarrow> int \<Rightarrow> string \<Rightarrow> secondary \<Rightarrow> string option \<times> secondary" where
  "note_token e status sc t s =
     (let s1 = (if status = 401 \<or> status = 403 \<or> sc = 401 \<or> sc = 403 \<or> sc = 200 \<and> t = []
                then refuse_token (sv_answered e) s else s)
      in if sc \<noteq> 200 \<or> t = [] then (None, s1)
         else if is_null_token t then (None, refuse_token (sv_answered e) s1)
         else (Some t, s1\<lparr>se_tok := t, se_exp := sv_answered e + secondary_token_ttl\<rparr>))"

definition get_token :: "secondary_env \<Rightarrow> secondary \<Rightarrow> string option \<times> secondary" where
  "get_token e s =
     (if se_tok s \<noteq> [] \<and> sv_check e < se_exp s then (Some (se_tok s), s)
      else
        let (r, s1) = secondary_get e (se_token_url s @ ''?'' @ encode_query [(''app_id'', se_app_id s)]) s
        in case r of
             NoResponse \<Rightarrow> (None, s1)
           | Response status None \<Rightarrow> (None, s1)
           | Response status (Some body) \<Rightarrow>
               (case do { j \<leftarrow> json_parse body; dec_token j } of
                  None \<Rightarrow> (None, s1)
                | Some (sc, t) \<Rightarrow> note_token e status sc t s1))"

definition invalidate_token :: "instant \<Rightarrow> secondary \<Rightarrow> secondary" where
  "invalidate_token now s = (drop_token s)\<lparr>se_cooldown_until := now + secondary_cooldown\<rparr>"

definition seconds_of_ms :: "int \<Rightarrow> int" where
  "seconds_of_ms ms = ms div 1000"

definition subtitle_query :: "secondary \<Rightarrow> string \<Rightarrow> lyrics_query \<Rightarrow> (string \<times> string) list" where
  "subtitle_query s token q =
     [(''format'', ''json''), (''namespace'', ''lyrics_richsynched''),
      (''subtitle_format'', se_subtitle_fmt s), (''app_id'', se_app_id s), (''usertoken'', token),
      (''q_track'', q_track_name q), (''q_artist'', q_artist_name q), (''q_artists'', q_artist_name q),
      (''f_subtitle_length'', [])] @
     (if q_album_name q = [] then [] else [(''q_album'', q_album_name q)]) @
     (if q_duration_ms q > 0 then [(''q_duration'', show_int (seconds_of_ms (q_duration_ms q)))] else [])"

text \<open>A macro call answers an envelope with a status and a body that is kept raw.\<close>

definition dec_envelope :: "json \<Rightarrow> (int \<times> json option) option" where
  "dec_envelope j =
     field ''message'' (0, None)
       (\<lambda>m. do { sc \<leftarrow> dec_status m; b \<leftarrow> raw_field ''body'' m; Some (sc, b) }) j"

definition ms_of_seconds :: "rat \<Rightarrow> int" where
  "ms_of_seconds t = trunc (f64 (t * 1000))"

definition dec_subtitle_line :: "json \<Rightarrow> lyrics_line option" where
  "dec_subtitle_line j = do {
     w \<leftarrow> field ''text'' [] dec_str j;
     t \<leftarrow> field ''time'' 0 (field ''total'' 0 dec_float) j;
     Some (plain_line (show_int (ms_of_seconds t)) w) }"

fun parse_subtitles :: "json \<Rightarrow> lyrics_result option" where
  "parse_subtitles raw =
     (case dec_envelope raw of
        Some (sc, Some (JObj kvs)) \<Rightarrow>
          (if sc \<noteq> 200 then None
           else case field ''subtitle_list'' []
                       (dec_list (field ''subtitle'' [] (field ''subtitle_body'' [] dec_str))) (JObj kvs) of
                  Some (body # _) \<Rightarrow>
                    (if body = [] then None
                     else case do { j \<leftarrow> json_parse body; dec_list dec_subtitle_line j } of
                            Some (l # ls) \<Rightarrow> Some \<lparr>lr_sync_type = line_synced, lr_lines = l # ls\<rparr>
                          | _ \<Rightarrow> None)
                | _ \<Rightarrow> None)
      | _ \<Rightarrow> None)"

definition parse_plain :: "json \<Rightarrow> lyrics_result option" where
  "parse_plain raw =
     (case field ''message'' (0, [])
             (\<lambda>m. do { sc \<leftarrow> dec_status m;
                       t \<leftarrow> field ''body'' [] (field ''lyrics'' [] (field ''lyrics_body'' [] dec_str)) m;
                       Some (sc, t) }) raw of
        None \<Rightarrow> None
      | Some (sc, t) \<Rightarrow> if sc \<noteq> 200 \<or> t = [] then None else plain_text_to_result t)"

definition dec_macro_message :: "json \<Rightarrow> (int \<times> (string \<times> json) list) option" where
  "dec_macro_message m = do {
     sc \<leftarrow> dec_status m;
     calls \<leftarrow> field ''body'' [] (field ''macro_calls'' [] dec_map) m;
     Some (sc, calls) }"

fun parse_macro_response :: "string \<Rightarrow> lyrics_answer" where
  "parse_macro_response body =
     (case do { j \<leftarrow> json_parse body; kvs \<leftarrow> dec_map j; m \<leftarrow> raw_get ''message'' kvs; dec_macro_message m } of
        None \<Rightarrow> Inl OtherError
      | Some (sc, calls) \<Rightarrow>
          (if sc = 401 \<or> sc = 403 then Inl Unauthorized
           else if sc \<noteq> 200 then Inl OtherError
           else
             case Option.bind (raw_get ''track.subtitles.get'' calls) parse_subtitles of
               Some r \<Rightarrow> Inr (Some r)
             | None \<Rightarrow>
                 (case Option.bind (raw_get ''track.lyrics.get'' calls) parse_plain of
                    Some r \<Rightarrow> Inr (Some r)
                  | None \<Rightarrow> Inl NoLyrics)))"

definition secondary_attempt :: "secondary_env \<Rightarrow> lyrics_query \<Rightarrow> secondary \<Rightarrow> lyrics_answer \<times> secondary" where
  "secondary_attempt e q s =
     (case get_token e s of
        (None, s1) \<Rightarrow> (Inl OtherError, s1)
      | (Some token, s1) \<Rightarrow>
          (let (r, s2) = secondary_get e (se_subtitle_url s1 @ ''?'' @ encode_query (subtitle_query s1 token q)) s1
           in case r of
                NoResponse \<Rightarrow> (Inl OtherError, s2)
              | Response status None \<Rightarrow> (Inl OtherError, s2)
              | Response status (Some body) \<Rightarrow>
                  (if status = 401 \<or> status = 403 then (Inl Unauthorized, s2)
                   else (parse_macro_response body, s2))))"

text \<open>The guard both kinds of requests start with.\<close>

definition secondary_enabled :: "secondary \<Rightarrow> bool" where
  "secondary_enabled s \<longleftrightarrow> se_token_url s \<noteq> [] \<and> se_subtitle_url s \<noteq> []"

definition secondary_fetch ::
    "instant \<Rightarrow> secondary_env \<Rightarrow> secondary_env \<Rightarrow> lyrics_query \<Rightarrow> secondary \<Rightarrow> lyrics_answer \<times> secondary" where
  "secondary_fetch now e1 e2 q s =
     (if \<not> secondary_enabled s then (Inl NoLyrics, s)
      else if now < se_cooldown_until s then (Inl OtherError, s)
      else
        let (a, s1) = secondary_attempt e1 q s
        in if a \<noteq> Inl Unauthorized then (a, s1)
           else
             let (b, s2) = secondary_attempt e2 q (drop_token s1)
             in (b, if b = Inl Unauthorized then invalidate_token (sv_back_off e2) s2 else s2))"

text \<open>Word by word timing.\<close>

definition word_of_seg :: "rat \<Rightarrow> json \<Rightarrow> lyrics_word option" where
  "word_of_seg ts j = do {
     c \<leftarrow> field ''c'' [] dec_str j;
     t \<leftarrow> field ''o'' 0 dec_float j;
     Some \<lparr>lw_start = show_int (ms_of_seconds (f64 (ts + t))), lw_word = c\<rparr> }"

definition dec_richsync_line :: "json \<Rightarrow> lyrics_line option" where
  "dec_richsync_line j = do {
     ts \<leftarrow> field ''ts'' 0 dec_float j;
     x \<leftarrow> field ''x'' [] dec_str j;
     ws \<leftarrow> field ''l'' [] (dec_list (word_of_seg ts)) j;
     Some \<lparr>ll_start = show_int (ms_of_seconds ts), ll_words = x, ll_syllables = ws\<rparr> }"

definition parse_richsync :: "string \<Rightarrow> lyrics_result option" where
  "parse_richsync body =
     (if body = [] then None
      else case do { j \<leftarrow> json_parse body; dec_list dec_richsync_line j } of
             None \<Rightarrow> None
           | Some lines \<Rightarrow> if lines = [] then None
                           else Some \<lparr>lr_sync_type = line_synced, lr_lines = lines\<rparr>)"

definition subtitle_base :: "secondary \<Rightarrow> string" where
  "subtitle_base s = upto_last CHR ''/'' (se_subtitle_url s)"

definition rate_limited :: "int \<Rightarrow> bool" where
  "rate_limited sc \<longleftrightarrow> sc = 401 \<or> sc = 403 \<or> sc = 429"

text \<open>A body that broke off counts as far as it was read, which is not a JSON value.\<close>

definition envelope_of :: "string option \<Rightarrow> (int \<times> json option) option" where
  "envelope_of body = do { b \<leftarrow> body; j \<leftarrow> json_parse b; dec_envelope j }"

definition resolve_common_track_id ::
    "secondary_env \<Rightarrow> string \<Rightarrow> lyrics_query \<Rightarrow> secondary \<Rightarrow> string option \<times> secondary" where
  "resolve_common_track_id e token q s =
     (let (r, s1) = secondary_get e (subtitle_base s @ ''matcher.track.get?'' @ encode_query
            [(''format'', ''json''), (''app_id'', se_app_id s), (''usertoken'', token),
             (''q_track'', q_track_name q), (''q_artist'', q_artist_name q)]) s
      in case r of
           NoResponse \<Rightarrow> (None, s1)
         | Response status body \<Rightarrow>
             (case envelope_of body of
                None \<Rightarrow> (None, s1)
              | Some (sc, raw) \<Rightarrow>
                  (case Option.bind raw (field ''track'' 0 (field ''commontrack_id'' 0 dec_int)) of
                     None \<Rightarrow> (None, invalidate_token (sv_back_off e) s1)
                   | Some i \<Rightarrow>
                       (if rate_limited sc then (None, invalidate_token (sv_back_off e) s1)
                        else if i = 0 then (None, s1)
                        else (Some (show_int i), s1)))))"

definition fetch_richsync ::
    "instant \<Rightarrow> secondary_env \<Rightarrow> lyrics_query \<Rightarrow> secondary \<Rightarrow> lyrics_result option \<times> secondary" where
  "fetch_richsync now e q s =
     (if \<not> secondary_enabled s \<or> now < se_cooldown_until s then (None, s)
      else case get_token e s of
        (None, s1) \<Rightarrow> (None, s1)
      | (Some token, s1) \<Rightarrow>
          (case resolve_common_track_id e token q s1 of
             (None, s2) \<Rightarrow> (None, s2)
           | (Some i, s2) \<Rightarrow>
               (let (r, s3) = secondary_get e (subtitle_base s2 @ ''track.richsync.get?'' @ encode_query
                      [(''format'', ''json''), (''app_id'', se_app_id s2), (''usertoken'', token),
                       (''commontrack_id'', i)]) s2
                in case r of
                     NoResponse \<Rightarrow> (None, s3)
                   | Response status body \<Rightarrow>
                       (case envelope_of body of
                          None \<Rightarrow> (None, s3)
                        | Some (sc, raw) \<Rightarrow>
                            (if rate_limited sc then (None, invalidate_token (sv_back_off e) s3)
                             else if sc \<noteq> 200 then (None, s3)
                             else case Option.bind raw (field ''richsync'' [] (field ''richsync_body'' [] dec_str)) of
                                    None \<Rightarrow> (None, invalidate_token (sv_back_off e) s3)
                                  | Some rb \<Rightarrow> (parse_richsync rb, s3))))))"


subsection \<open>The last source\<close>

definition lrclib_url :: string where
  "lrclib_url = ''https://lrclib.net/api/get''"

definition dec_lrclib :: "json \<Rightarrow> (bool \<times> string \<times> string) option" where
  "dec_lrclib j = do {
     i \<leftarrow> field ''instrumental'' False dec_bool j;
     s \<leftarrow> field ''syncedLyrics'' [] dec_str j;
     p \<leftarrow> field ''plainLyrics'' [] dec_str j;
     Some (i, s, p) }"

definition parse_lrclib :: "string \<Rightarrow> lyrics_answer" where
  "parse_lrclib body =
     (case do { j \<leftarrow> json_parse body; dec_lrclib j } of
        None \<Rightarrow> Inl OtherError
      | Some (instrumental, synced, plain) \<Rightarrow>
          (if instrumental then Inl NoLyrics
           else case (if synced = [] then None else answer_result (parse_lrc synced)) of
                  Some r \<Rightarrow> Inr (Some r)
                | None \<Rightarrow> if plain = [] then Inl NoLyrics else Inr (plain_text_to_result plain)))"

definition tertiary_fetch :: "(string \<Rightarrow> http) \<Rightarrow> lyrics_query \<Rightarrow> lyrics_answer" where
  "tertiary_fetch get q =
     (case get (lrclib_url @ ''?'' @ encode_query
             ([(''track_name'', q_track_name q), (''artist_name'', q_artist_name q)] @
              (if q_duration_ms q > 0 then [(''duration'', show_int (seconds_of_ms (q_duration_ms q)))] else []))) of
        NoResponse \<Rightarrow> Inl OtherError
      | Response status body \<Rightarrow>
          (if status = 404 then Inl NoLyrics
           else case body of
                  None \<Rightarrow> Inl OtherError
                | Some b \<Rightarrow> if status \<noteq> 200 then Inl OtherError else parse_lrclib b))"

subsection \<open>The cache\<close>

type_synonym lyrics_cache = "(string \<times> lyrics_result option) list"

definition cache_set :: "string \<Rightarrow> lyrics_result option \<Rightarrow> lyrics_cache \<Rightarrow> lyrics_cache" where
  "cache_set k v c = (k, v) # filter (\<lambda>e. fst e \<noteq> k) c"

text \<open>The loop that deletes while it iterates: its bound is half of what is left.\<close>

fun evict_loop :: "string list \<Rightarrow> nat \<Rightarrow> lyrics_cache \<Rightarrow> lyrics_cache" where
  "evict_loop [] n c = c"
| "evict_loop (k # ks) n c =
     (if length c div 2 \<le> n then c
      else evict_loop ks (Suc n) (filter (\<lambda>e. fst e \<noteq> k) c))"

text \<open>The iteration visits the keys in the order of a rank that the runtime chooses.\<close>

definition evict_oldest :: "(string \<Rightarrow> nat) \<Rightarrow> lyrics_cache \<Rightarrow> lyrics_cache" where
  "evict_oldest rank c = evict_loop (sort_key rank (map fst c)) 0 c"

definition lyrics_cache_limit :: nat where "lyrics_cache_limit = 200"

definition store_lyrics ::
    "(string \<Rightarrow> nat) \<Rightarrow> string \<Rightarrow> lyrics_result option \<Rightarrow> lyrics_cache \<Rightarrow> lyrics_cache" where
  "store_lyrics rank k v c =
     (let c1 = cache_set k v c
      in if length c1 > lyrics_cache_limit then evict_oldest rank c1 else c1)"

subsection \<open>The provider\<close>

record lyrics_provider =
  lp_primary :: lyrics_endpoint
  lp_secondary :: secondary
  lp_episode :: "lyrics_endpoint option"
  lp_cache :: lyrics_cache

text \<open>The constructors read the environment variables.\<close>

definition new_primary :: "(string \<Rightarrow> string) \<Rightarrow> bool \<Rightarrow> lyrics_endpoint" where
  "new_primary env tok =
     \<lparr>le_url = env ''THING_LP_PRIMARY_URL'', le_query = env ''THING_LP_PRIMARY_QUERY'',
      le_platform = env ''THING_LP_PRIMARY_PLATFORM'', le_get_token = tok\<rparr>"

definition new_episode_text :: "(string \<Rightarrow> string) \<Rightarrow> bool \<Rightarrow> lyrics_endpoint" where
  "new_episode_text env tok =
     \<lparr>le_url = env ''THING_LP_EPISODE_URL'', le_query = env ''THING_LP_EPISODE_QUERY'',
      le_platform = env ''THING_LP_EPISODE_PLATFORM'', le_get_token = tok\<rparr>"

definition new_secondary :: "(string \<Rightarrow> string) \<Rightarrow> secondary" where
  "new_secondary env =
     \<lparr>se_token_url = env ''THING_LP_TOKEN_URL'', se_subtitle_url = env ''THING_LP_SUBTITLE_URL'',
      se_app_id = env ''THING_LP_APP_ID'', se_subtitle_fmt = env ''THING_LP_SUBTITLE_FORMAT'',
      se_user_agent = env ''THING_LP_SECONDARY_USER_AGENT'',
      se_app_version_header = env ''THING_LP_SECONDARY_APP_VERSION_HEADER'',
      se_app_version = env ''THING_LP_SECONDARY_APP_VERSION'',
      se_cookie_header = env ''THING_LP_SECONDARY_COOKIE_HEADER'',
      se_cookie_value = env ''THING_LP_SECONDARY_COOKIE'',
      se_tok = [], se_exp = 0, se_cooldown_until = 0, se_sent = []\<rparr>"

definition new_lyrics_provider :: "(string \<Rightarrow> string) \<Rightarrow> bool \<Rightarrow> lyrics_provider" where
  "new_lyrics_provider env tok =
     \<lparr>lp_primary = new_primary env tok, lp_secondary = new_secondary env,
      lp_episode = Some (new_episode_text env tok), lp_cache = []\<rparr>"

definition clear_cache :: "lyrics_provider \<Rightarrow> lyrics_provider" where
  "clear_cache lp = lp\<lparr>lp_cache := []\<rparr>"

text \<open>A source as the chain sees it, threading the one that has state.\<close>

type_synonym lyrics_source = "secondary \<Rightarrow> lyrics_answer \<times> secondary"

fun try_sources ::
    "lyrics_source list \<Rightarrow> lyrics_result option \<Rightarrow> bool \<Rightarrow> secondary \<Rightarrow>
      (lyrics_result option \<times> bool) \<times> secondary" where
  "try_sources [] first bad s = ((first, bad), s)"
| "try_sources (src # srcs) first bad s =
     (let (a, s1) = src s
      in case a of
           Inl e \<Rightarrow> try_sources srcs first (bad \<or> e \<noteq> NoLyrics) s1
         | Inr None \<Rightarrow> try_sources srcs first bad s1
         | Inr (Some r) \<Rightarrow>
             (if lr_sync_type r = line_synced then ((Some r, bad), s1)
              else try_sources srcs (if first = None then Some r else first) bad s1))"

text \<open>What one call of \<open>FetchLyrics\<close> meets.\<close>

record fetch_env =
  fe_rank :: "string \<Rightarrow> nat"
  fe_primary :: lyrics_net
  fe_now :: instant
  fe_first :: secondary_env
  fe_second :: secondary_env
  fe_rich_now :: instant
  fe_rich :: secondary_env
  fe_tertiary :: "string \<Rightarrow> http"

definition provider_sources :: "fetch_env \<Rightarrow> lyrics_endpoint \<Rightarrow> lyrics_query \<Rightarrow> lyrics_source list" where
  "provider_sources e p q =
     [\<lambda>s. (primary_fetch p (fe_primary e) q, s),
      secondary_fetch (fe_now e) (fe_first e) (fe_second e) q,
      \<lambda>s. (tertiary_fetch (fe_tertiary e) q, s)]"

text \<open>The sources without the word by word timing, and what is cached.\<close>

definition fetch_from_sources ::
    "fetch_env \<Rightarrow> lyrics_query \<Rightarrow> lyrics_provider \<Rightarrow> (lyrics_error + lyrics_result) \<times> lyrics_provider" where
  "fetch_from_sources e q lp =
     (let ((best, bad), s1) = try_sources (provider_sources e (lp_primary lp) q) None False (lp_secondary lp);
          lp1 = lp\<lparr>lp_secondary := s1\<rparr>
      in case best of
           None \<Rightarrow>
             (Inl NoLyrics,
              if \<not> bad \<and> q_artist_name q \<noteq> []
              then lp1\<lparr>lp_cache := store_lyrics (fe_rank e) (q_track_id q) None (lp_cache lp1)\<rparr>
              else lp1)
         | Some r \<Rightarrow>
             (Inr r, lp1\<lparr>lp_cache := store_lyrics (fe_rank e) (q_track_id q) (Some r) (lp_cache lp1)\<rparr>))"

definition fetch_lyrics ::
    "fetch_env \<Rightarrow> lyrics_query \<Rightarrow> bool \<Rightarrow> lyrics_provider \<Rightarrow>
      (lyrics_error + lyrics_result) \<times> lyrics_provider" where
  "fetch_lyrics e q want_rich lp =
     (if q_track_name q = [] then (Inl OtherError, lp)
      else
        let cached = map_of (lp_cache lp) (q_track_id q)
        in case cached of
             Some None \<Rightarrow> (Inl NoLyrics, lp)
           | _ \<Rightarrow>
               (case cached of
                  Some (Some r) \<Rightarrow>
                    (if \<not> want_rich \<or> has_words r then (Inr r, lp)
                     else
                       let (rich, s1) = fetch_richsync (fe_rich_now e) (fe_rich e) q (lp_secondary lp);
                           lp1 = lp\<lparr>lp_secondary := s1\<rparr>
                       in case rich of
                            None \<Rightarrow> (Inr r, lp1)
                          | Some w \<Rightarrow> (Inr w, lp1\<lparr>lp_cache := store_lyrics (fe_rank e) (q_track_id q) (Some w) (lp_cache lp1)\<rparr>))
                | _ \<Rightarrow>
                    (if want_rich then
                       let (rich, s1) = fetch_richsync (fe_rich_now e) (fe_rich e) q (lp_secondary lp);
                           lp1 = lp\<lparr>lp_secondary := s1\<rparr>
                       in case rich of
                            None \<Rightarrow> fetch_from_sources e q lp1
                          | Some w \<Rightarrow> (Inr w, lp1\<lparr>lp_cache := store_lyrics (fe_rank e) (q_track_id q) (Some w) (lp_cache lp1)\<rparr>)
                     else fetch_from_sources e q lp)))"


subsection \<open>The chain of sources\<close>

named_theorems lyrics \<open>how the sources and the cache of lyrics behave\<close>

definition synced :: "lyrics_result \<Rightarrow> bool" where
  "synced r \<longleftrightarrow> lr_sync_type r = line_synced"

text \<open>The specification: the first synced result, else the first result.\<close>

definition best_answer :: "lyrics_answer list \<Rightarrow> lyrics_result option" where
  "best_answer as =
     (let rs = List.map_filter answer_result as
      in case find synced rs of Some r \<Rightarrow> Some r | None \<Rightarrow> (case rs of [] \<Rightarrow> None | r # _ \<Rightarrow> Some r))"

text \<open>What every source would answer in a call.\<close>

definition source_answers :: "fetch_env \<Rightarrow> lyrics_query \<Rightarrow> lyrics_endpoint \<Rightarrow> secondary \<Rightarrow> lyrics_answer list" where
  "source_answers e q p s =
     [primary_fetch p (fe_primary e) q,
      fst (secondary_fetch (fe_now e) (fe_first e) (fe_second e) q s),
      tertiary_fetch (fe_tertiary e) q]"

lemma map_filter_answers [simp]:
  "List.map_filter answer_result [] = []"
  "List.map_filter answer_result (Inl x # as) = List.map_filter answer_result as"
  "List.map_filter answer_result (Inr None # as) = List.map_filter answer_result as"
  "List.map_filter answer_result (Inr (Some r) # as) = r # List.map_filter answer_result as"
  by (simp_all add: List.map_filter_simps)

lemma answer_cases:
  obtains (error) x where "a = (Inl x :: lyrics_answer)" | (nil) "a = Inr None"
  | (synced) r where "a = Inr (Some r)" "synced r"
  | (unsynced) r where "a = Inr (Some r)" "\<not> synced r"
  by (cases a; metis option.exhaust)

lemma try_sources_best [lyrics]:
  "fst (fst (try_sources (provider_sources e p q) None False s)) = best_answer (source_answers e q p s)"
proof -
  let ?sec = "secondary_fetch (fe_now e) (fe_first e) (fe_second e) q s"
  obtain b s1 where b: "?sec = (b, s1)" by (cases ?sec)
  show ?thesis
    by (cases rule: answer_cases [of "primary_fetch p (fe_primary e) q"];
        cases rule: answer_cases [of b];
        cases rule: answer_cases [of "tertiary_fetch (fe_tertiary e) q"])
      (simp_all add: provider_sources_def source_answers_def best_answer_def synced_def b)
qed

lemma try_sources_bad [lyrics]:
  "fst (try_sources (provider_sources e p q) None False s) = (None, False) \<Longrightarrow>
    a \<in> set (source_answers e q p s) \<Longrightarrow> a = Inl NoLyrics \<or> a = Inr None"
proof -
  let ?sec = "secondary_fetch (fe_now e) (fe_first e) (fe_second e) q s"
  obtain b s1 where b: "?sec = (b, s1)" by (cases ?sec)
  assume "fst (try_sources (provider_sources e p q) None False s) = (None, False)"
    and "a \<in> set (source_answers e q p s)"
  then show ?thesis
    by (cases rule: answer_cases [of "primary_fetch p (fe_primary e) q"];
        cases rule: answer_cases [of b];
        cases rule: answer_cases [of "tertiary_fetch (fe_tertiary e) q"])
      (auto simp add: provider_sources_def source_answers_def synced_def b)
qed

subsection \<open>The cache\<close>

definition lines_ok :: "lyrics_result \<Rightarrow> bool" where
  "lines_ok r \<longleftrightarrow> lr_lines r \<noteq> []"

definition cache_ok :: "lyrics_cache \<Rightarrow> bool" where
  "cache_ok c \<longleftrightarrow>
     distinct (map fst c) \<and> length c \<le> lyrics_cache_limit \<and> (\<forall>r. Some r \<in> snd ` set c \<longrightarrow> lines_ok r)"

lemma set_evict_loop: "set (evict_loop ks n c) \<subseteq> set c"
  by (induction ks n c rule: evict_loop.induct) auto

lemma distinct_evict_loop: "distinct (map fst c) \<Longrightarrow> distinct (map fst (evict_loop ks n c))"
  by (induction ks n c rule: evict_loop.induct) (auto simp: distinct_map_filter)

lemma length_remove_key:
  "distinct (map fst c) \<Longrightarrow> k \<in> fst ` set c \<Longrightarrow> Suc (length (filter (\<lambda>e. fst e \<noteq> k) c)) = length c"
proof (induction c)
  case (Cons a c)
  show ?case
  proof (cases "fst a = k")
    case True
    have "fst a \<notin> fst ` set c" using Cons.prems by simp
    with True have "filter (\<lambda>e. fst e \<noteq> k) c = c" by (intro filter_True ballI) (metis image_eqI)
    with True show ?thesis by simp
  qed (use Cons in auto)
qed simp

text \<open>The loop deletes until its count has met half of what is left.\<close>

lemma length_evict_loop:
  "distinct (map fst c) \<Longrightarrow> distinct ks \<Longrightarrow> set ks \<subseteq> fst ` set c \<Longrightarrow> length c div 2 \<le> n + length ks \<Longrightarrow>
    (let d = length (evict_loop ks n c) in d \<le> length c \<and> d div 2 \<le> n + (length c - d))"
proof (induction ks n c rule: evict_loop.induct)
  case (2 k ks n c)
  show ?case
  proof (cases "length c div 2 \<le> n")
    case False
    let ?c = "filter (\<lambda>e. fst e \<noteq> k) c"
    have len: "Suc (length ?c) = length c" using 2(2,4) by (intro length_remove_key) auto
    have "set ks \<subseteq> fst ` set ?c" using 2(3,4) by force
    then have "let d = length (evict_loop ks (Suc n) ?c)
        in d \<le> length ?c \<and> d div 2 \<le> Suc n + (length ?c - d)"
      using 2 False len by (intro 2(1)) (auto simp: distinct_map_filter)
    with False len show ?thesis by (auto simp: Let_def)
  qed simp
qed simp

lemma evict_oldest_shrinks:
  assumes "distinct (map fst c)" "1 < length c"
  shows "length (evict_oldest rank c) < length c"
proof -
  let ?ks = "sort_key rank (map fst c)"
  have "let d = length (evict_loop ?ks 0 c) in d \<le> length c \<and> d div 2 \<le> 0 + (length c - d)"
    using assms by (intro length_evict_loop) auto
  with assms(2) show ?thesis by (auto simp: evict_oldest_def Let_def)
qed

text \<open>The comment says that half is dropped when the cache is over its limit: a third is, because
  the bound of the loop shrinks with the map.\<close>

lemma evict_loop_exact:
  "distinct (map fst c) \<Longrightarrow> distinct ks \<Longrightarrow> set ks \<subseteq> fst ` set c \<Longrightarrow> n + length c = 201 \<Longrightarrow> n \<le> 67 \<Longrightarrow>
    67 \<le> n + length ks \<Longrightarrow> length (evict_loop ks n c) = 134"
proof (induction ks n c rule: evict_loop.induct)
  case (2 k ks n c)
  show ?case
  proof (cases "n = 67")
    case False
    let ?c = "filter (\<lambda>e. fst e \<noteq> k) c"
    have len: "Suc (length ?c) = length c" using 2(2,4) by (intro length_remove_key) auto
    have sub: "set ks \<subseteq> fst ` set ?c" using 2(3,4) by force
    have go: "\<not> length c div 2 \<le> n" using 2(5,6) False by auto
    then have "length (evict_loop ks (Suc n) ?c) = 134"
      using 2(2-7) False len sub by (intro 2(1)) (auto simp: distinct_map_filter)
    with go show ?thesis by simp
  qed (use 2(5) in auto)
qed simp

lemma evict_drops_a_third:
  "distinct (map fst c) \<Longrightarrow> length c = 201 \<Longrightarrow> length (evict_oldest rank c) = 134"
  unfolding evict_oldest_def by (rule evict_loop_exact) auto

lemma store_lyrics_ok [lyrics]:
  assumes "cache_ok c" and "\<And>r. v = Some r \<Longrightarrow> lines_ok r"
  shows "cache_ok (store_lyrics rank k v c)"
proof -
  let ?c = "cache_set k v c"
  have d: "distinct (map fst ?c)" using assms(1) by (auto simp: cache_ok_def cache_set_def distinct_map_filter)
  have l: "length ?c \<le> Suc lyrics_cache_limit"
    using assms(1) by (auto simp: cache_ok_def cache_set_def intro: order.trans [OF length_filter_le])
  have r: "lines_ok r" if "Some r \<in> snd ` set ?c" for r
    using assms that by (auto simp: cache_ok_def cache_set_def)
  have "cache_ok (evict_oldest rank ?c)" if "length ?c > lyrics_cache_limit"
  proof -
    have "length (evict_oldest rank ?c) < length ?c"
      using d that by (intro evict_oldest_shrinks) (auto simp: lyrics_cache_limit_def)
    moreover have "set (evict_oldest rank ?c) \<subseteq> set ?c"
      by (simp add: evict_oldest_def set_evict_loop)
    ultimately show ?thesis
      using d l r that by (fastforce simp: cache_ok_def evict_oldest_def intro: distinct_evict_loop)
  qed
  with d l r show ?thesis by (auto simp: store_lyrics_def cache_ok_def Let_def)
qed

lemma stored_lyrics [lyrics]: "map_of (store_lyrics rank k v c) k = Some w \<Longrightarrow> w = v"
proof -
  assume "map_of (store_lyrics rank k v c) k = Some w"
  then have "(k, w) \<in> set (store_lyrics rank k v c)" by (rule map_of_SomeD)
  then have "(k, w) \<in> set (cache_set k v c)"
    using set_evict_loop by (fastforce simp: store_lyrics_def evict_oldest_def Let_def split: if_splits)
  then show ?thesis by (auto simp: cache_set_def)
qed

subsection \<open>Every result has lines\<close>

definition answer_ok :: "lyrics_answer \<Rightarrow> bool" where
  "answer_ok a \<longleftrightarrow> (\<forall>r. a = Inr (Some r) \<longrightarrow> lines_ok r)"

lemma answer_ok_simps [simp]: "answer_ok (Inl x)" "answer_ok (Inr None)" "answer_ok (Inr (Some r)) = lines_ok r"
  by (auto simp: answer_ok_def)

lemma plain_text_to_result_ok: "answer_ok (Inr (plain_text_to_result t))"
  by (auto simp: plain_text_to_result_def answer_ok_def lines_ok_def Let_def split: if_splits)

lemma parse_lrc_ok: "answer_ok (parse_lrc t)"
  by (simp add: parse_lrc_def Let_def lines_ok_def)

lemma parse_primary_ok: "answer_ok (parse_primary b)"
  by (auto simp: parse_primary_def lines_ok_def split: option.split)

lemma parse_subtitles_ok: "parse_subtitles raw = Some r \<Longrightarrow> lines_ok r"
  by (auto simp: lines_ok_def split: option.splits json.splits if_splits list.splits)

lemma parse_plain_ok: "parse_plain raw = Some r \<Longrightarrow> lines_ok r"
  using plain_text_to_result_ok by (auto simp: parse_plain_def answer_ok_def split: option.splits if_splits)

lemma parse_macro_response_ok: "answer_ok (parse_macro_response b)"
  by (auto split: option.split simp del: parse_subtitles.simps simp: Option.bind_eq_Some_conv
      dest!: parse_subtitles_ok parse_plain_ok)

lemma parse_lrclib_ok: "answer_ok (parse_lrclib b)"
proof -
  have "lines_ok r" if "answer_result (parse_lrc t) = Some r" for t r
    using that parse_lrc_ok [of t] by (cases "parse_lrc t") auto
  then show ?thesis
    using plain_text_to_result_ok by (auto simp: parse_lrclib_def split: option.split)
qed

lemma parse_richsync_ok: "parse_richsync b = Some r \<Longrightarrow> lines_ok r"
  by (auto simp: parse_richsync_def lines_ok_def split: if_splits option.splits)

lemma primary_fetch_ok: "answer_ok (primary_fetch p n q)"
  using parse_primary_ok
  by (auto simp: primary_fetch_def with_fresh_token_def primary_request_def endpoint_request_def Let_def
      split: option.split http.split)

lemma secondary_attempt_ok: "answer_ok (fst (secondary_attempt e q s))"
  using parse_macro_response_ok
  by (auto simp: secondary_attempt_def Let_def simp del: parse_macro_response.simps
      split: option.split http.split prod.split)

lemma secondary_fetch_ok: "answer_ok (fst (secondary_fetch now e1 e2 q s))"
  using secondary_attempt_ok
  by (auto simp: secondary_fetch_def Let_def split: prod.split) (metis fst_conv)+

lemma tertiary_fetch_ok: "answer_ok (tertiary_fetch g q)"
  using parse_lrclib_ok by (auto simp: tertiary_fetch_def split: http.split option.split)

lemma source_answers_ok [lyrics]: "a \<in> set (source_answers e q p s) \<Longrightarrow> answer_ok a"
  by (auto simp: source_answers_def primary_fetch_ok secondary_fetch_ok tertiary_fetch_ok)

lemma best_answer_in: "best_answer as = Some r \<Longrightarrow> Inr (Some r) \<in> set as"
proof -
  have *: "r \<in> set (List.map_filter answer_result as) \<Longrightarrow> Inr (Some r) \<in> set as" for r
    by (induction as) (auto simp: List.map_filter_simps split: option.splits sum.splits elim: answer_result.elims)
  show "best_answer as = Some r \<Longrightarrow> Inr (Some r) \<in> set as"
    by (auto simp: best_answer_def Let_def find_Some_iff intro!: * split: option.splits list.splits)
qed

lemma fetch_richsync_ok: "fst (fetch_richsync now e q s) = Some r \<Longrightarrow> lines_ok r"
  by (auto simp: fetch_richsync_def Let_def split: if_splits option.splits prod.splits http.splits
      dest: parse_richsync_ok)

subsection \<open>Runs of the provider\<close>

datatype lyrics_event =
    LyricsFetch fetch_env lyrics_query bool
  | LyricsClear

fun lyrics_step :: "lyrics_provider \<Rightarrow> lyrics_event \<Rightarrow> lyrics_provider" where
  "lyrics_step lp (LyricsFetch e q want) = snd (fetch_lyrics e q want lp)"
| "lyrics_step lp LyricsClear = clear_cache lp"

definition provider_ok :: "lyrics_provider \<Rightarrow> bool" where
  "provider_ok lp \<longleftrightarrow> cache_ok (lp_cache lp)"

lemma best_lines_ok:
  "fst (try_sources (provider_sources e p q) None False s) = (Some r, bad) \<Longrightarrow> lines_ok r"
  using try_sources_best [of e p q s] source_answers_ok [OF best_answer_in, of e q p s r]
  by (metis answer_ok_simps(3) fst_conv)

lemma fetch_from_sources_ok:
  assumes "provider_ok lp"
  shows "provider_ok (snd (fetch_from_sources e q lp))"
    and "fst (fetch_from_sources e q lp) = Inr r \<Longrightarrow> lines_ok r"
proof -
  obtain best bad s1 where
    t: "try_sources (provider_sources e (lp_primary lp) q) None False (lp_secondary lp) = ((best, bad), s1)"
    by (metis prod.exhaust)
  have ok: "lines_ok r'" if "best = Some r'" for r'
    using best_lines_ok [of e "lp_primary lp" q "lp_secondary lp" r' bad] t that by simp
  show "provider_ok (snd (fetch_from_sources e q lp))"
    using assms ok
    by (auto simp: fetch_from_sources_def t provider_ok_def Let_def intro!: store_lyrics_ok split: option.split)
  show "fst (fetch_from_sources e q lp) = Inr r \<Longrightarrow> lines_ok r"
    using ok by (auto simp: fetch_from_sources_def t Let_def split: option.splits)
qed

lemma cached_lines_ok: "provider_ok lp \<Longrightarrow> map_of (lp_cache lp) k = Some (Some r) \<Longrightarrow> lines_ok r"
  by (force simp: provider_ok_def cache_ok_def dest: map_of_SomeD)

lemma fetch_lyrics_ok:
  assumes "provider_ok lp"
  shows "provider_ok (snd (fetch_lyrics e q want lp))"
    and "fst (fetch_lyrics e q want lp) = Inr r \<Longrightarrow> lines_ok r"
proof -
  let ?rich = "fetch_richsync (fe_rich_now e) (fe_rich e) q (lp_secondary lp)"
  obtain w s1 where w: "?rich = (w, s1)" by (cases ?rich)
  have wok: "lines_ok x" if "w = Some x" for x
    using fetch_richsync_ok [of "fe_rich_now e" "fe_rich e" q "lp_secondary lp" x] w that by simp
  have ok1: "provider_ok (lp\<lparr>lp_secondary := s1\<rparr>)" using assms by (simp add: provider_ok_def)
  show "provider_ok (snd (fetch_lyrics e q want lp))"
    using assms ok1 wok
    by (auto simp: fetch_lyrics_def w Let_def fetch_from_sources_ok provider_ok_def [of "_\<lparr>lp_cache := _\<rparr>"]
        intro!: store_lyrics_ok split: option.split) (auto simp: provider_ok_def)
  show "fst (fetch_lyrics e q want lp) = Inr r \<Longrightarrow> lines_ok r"
    using assms ok1 wok cached_lines_ok [OF assms]
    by (auto simp: fetch_lyrics_def w Let_def split: option.splits if_splits
        dest: fetch_from_sources_ok(2) [OF assms] fetch_from_sources_ok(2) [OF ok1])
qed

interpretation lyrics_runs: invariant_machine lyrics_step provider_ok
proof
  fix lp ev
  assume "provider_ok lp"
  then show "provider_ok (lyrics_step lp ev)"
    by (cases ev) (simp_all add: fetch_lyrics_ok, simp add: provider_ok_def clear_cache_def cache_ok_def)
qed

lemma provider_ok_start: "lp_cache lp = [] \<Longrightarrow> provider_ok lp"
  by (simp add: provider_ok_def cache_ok_def)

lemma lyrics_cache_invariant_facts:
  assumes "lp_cache lp = []"
  shows "length (lp_cache (foldl lyrics_step lp es)) \<le> 200"
    and "distinct (map fst (lp_cache (foldl lyrics_step lp es)))"
    and "map_of (lp_cache (foldl lyrics_step lp es)) k = Some (Some r) \<Longrightarrow> lr_lines r \<noteq> []"
    and "fst (fetch_lyrics e q want (foldl lyrics_step lp es)) = Inr r \<Longrightarrow> lr_lines r \<noteq> []"
proof -
  have ok: "provider_ok (foldl lyrics_step lp es)"
    using assms by (intro lyrics_runs.run_inv provider_ok_start)
  then show "length (lp_cache (foldl lyrics_step lp es)) \<le> 200"
    "distinct (map fst (lp_cache (foldl lyrics_step lp es)))"
    by (simp_all add: provider_ok_def cache_ok_def lyrics_cache_limit_def)
  show "map_of (lp_cache (foldl lyrics_step lp es)) k = Some (Some r) \<Longrightarrow> lr_lines r \<noteq> []"
    using cached_lines_ok [OF ok] by (simp add: lines_ok_def)
  show "fst (fetch_lyrics e q want (foldl lyrics_step lp es)) = Inr r \<Longrightarrow> lr_lines r \<noteq> []"
    using fetch_lyrics_ok(2) [OF ok] by (simp add: lines_ok_def)
qed

text \<open>C7: The cache of lyrics. From an empty cache on, through any calls, evictions in any order and
  clearings: the cache holds at most 200 tracks, one entry each, what it holds and what a call
  returns has at least one line.\<close>

theorem lyrics_cache_invariant:
  assumes "lp_cache lp = []"
  shows "length (lp_cache (foldl lyrics_step lp es)) \<le> 200 \<and>
    distinct (map fst (lp_cache (foldl lyrics_step lp es))) \<and>
    (\<forall>k r. map_of (lp_cache (foldl lyrics_step lp es)) k = Some (Some r) \<longrightarrow> lr_lines r \<noteq> []) \<and>
    (\<forall>e q want r. fst (fetch_lyrics e q want (foldl lyrics_step lp es)) = Inr r \<longrightarrow> lr_lines r \<noteq> [])"
  using lyrics_cache_invariant_facts [OF assms] by blast

lemma fetch_uncached:
  "q_track_name q \<noteq> [] \<Longrightarrow> map_of (lp_cache lp) (q_track_id q) = None \<Longrightarrow>
    fetch_lyrics e q False lp = fetch_from_sources e q lp"
  by (simp add: fetch_lyrics_def)

lemma fetch_lyrics_best [lyrics]:
  assumes "q_track_name q \<noteq> []" and "map_of (lp_cache lp) (q_track_id q) = None"
  shows "fst (fetch_lyrics e q False lp) =
      (case best_answer (source_answers e q (lp_primary lp) (lp_secondary lp)) of
         None \<Rightarrow> Inl NoLyrics | Some r \<Rightarrow> Inr r)"
proof -
  obtain best bad s1 where
    t: "try_sources (provider_sources e (lp_primary lp) q) None False (lp_secondary lp) = ((best, bad), s1)"
    by (metis prod.exhaust)
  then have "best_answer (source_answers e q (lp_primary lp) (lp_secondary lp)) = best"
    using try_sources_best [of e "lp_primary lp" q "lp_secondary lp"] by simp
  with assms show ?thesis
    by (simp add: fetch_uncached fetch_from_sources_def t Let_def split: option.split)
qed

lemma lyrics_best_source_facts:
  assumes "q_track_name q \<noteq> []" and "map_of (lp_cache lp) (q_track_id q) = None"
  shows "fst (fetch_lyrics e q False lp) =
      (case best_answer (source_answers e q (lp_primary lp) (lp_secondary lp)) of
         None \<Rightarrow> Inl NoLyrics | Some r \<Rightarrow> Inr r)"
    and "map_of (lp_cache (snd (fetch_lyrics e q False lp))) (q_track_id q) = Some None \<Longrightarrow>
      q_artist_name q \<noteq> [] \<and>
      (\<forall>a \<in> set (source_answers e q (lp_primary lp) (lp_secondary lp)). a = Inl NoLyrics \<or> a = Inr None)"
proof -
  obtain best bad s1 where
    t: "try_sources (provider_sources e (lp_primary lp) q) None False (lp_secondary lp) = ((best, bad), s1)"
    by (metis prod.exhaust)
  show "fst (fetch_lyrics e q False lp) =
      (case best_answer (source_answers e q (lp_primary lp) (lp_secondary lp)) of
         None \<Rightarrow> Inl NoLyrics | Some r \<Rightarrow> Inr r)"
    using assms by (rule fetch_lyrics_best)
  assume "map_of (lp_cache (snd (fetch_lyrics e q False lp))) (q_track_id q) = Some None"
  then have "best = None" "\<not> bad" "q_artist_name q \<noteq> []"
    using assms(2) by (auto simp: fetch_uncached assms(1) fetch_from_sources_def t Let_def dest: stored_lyrics
        split: option.splits if_splits)
  with t show "q_artist_name q \<noteq> [] \<and>
      (\<forall>a \<in> set (source_answers e q (lp_primary lp) (lp_secondary lp)). a = Inl NoLyrics \<or> a = Inr None)"
    by (auto dest!: try_sources_bad [of e "lp_primary lp" q "lp_secondary lp", rotated])
qed

text \<open>C6: The chain of sources asks the next one only while it has no synced lyrics, and yet returns
  what asking all of them would: the first synced result, else the first one, else the error
  that there are none. A track is remembered as one without lyrics only when it has an artist and
  every source said so.\<close>

theorem lyrics_best_source:
  assumes "q_track_name q \<noteq> []" and "map_of (lp_cache lp) (q_track_id q) = None"
  shows "fst (fetch_lyrics e q False lp) =
      (case best_answer (source_answers e q (lp_primary lp) (lp_secondary lp)) of
         None \<Rightarrow> Inl NoLyrics | Some r \<Rightarrow> Inr r) \<and>
    (map_of (lp_cache (snd (fetch_lyrics e q False lp))) (q_track_id q) = Some None \<longrightarrow>
      q_artist_name q \<noteq> [] \<and>
      (\<forall>a \<in> set (source_answers e q (lp_primary lp) (lp_secondary lp)). a = Inl NoLyrics \<or> a = Inr None))"
  using lyrics_best_source_facts [OF assms] by blast

subsection \<open>Backing off\<close>

datatype secondary_call =
    CallFetch instant secondary_env secondary_env lyrics_query
  | CallRichsync instant secondary_env lyrics_query

fun call_time :: "secondary_call \<Rightarrow> instant" where
  "call_time (CallFetch now e1 e2 q) = now"
| "call_time (CallRichsync now e q) = now"

fun secondary_step :: "secondary \<Rightarrow> secondary_call \<Rightarrow> secondary" where
  "secondary_step s (CallFetch now e1 e2 q) = snd (secondary_fetch now e1 e2 q s)"
| "secondary_step s (CallRichsync now e q) = snd (fetch_richsync now e q s)"

lemma cooling_step: "call_time c < se_cooldown_until s \<Longrightarrow> secondary_step s c = s"
  by (cases c) (simp_all add: secondary_fetch_def fetch_richsync_def)

lemma cooling_run:
  "(\<And>c. c \<in> set cs \<Longrightarrow> call_time c < se_cooldown_until s) \<Longrightarrow> foldl secondary_step s cs = s"
  by (induction cs) (auto simp: cooling_step)

lemma note_token_refused:
  "note_token e status sc t s = (None, s') \<Longrightarrow>
    sc = 401 \<or> sc = 403 \<or> sc = 200 \<and> is_null_token t \<Longrightarrow>
    se_tok s' = [] \<and> se_cooldown_until s' = sv_answered e + secondary_token_refused_cooldown"
proof -
  assume n: "note_token e status sc t s = (None, s')" and "sc = 401 \<or> sc = 403 \<or> sc = 200 \<and> is_null_token t"
  then consider "sc = 401" | "sc = 403" | "sc = 200" "t = []" | "sc = 200" "t \<noteq> []" "is_null_token t"
    by blast
  then show ?thesis
    using n by cases (auto simp: note_token_def refuse_token_def drop_token_def Let_def)
qed

text \<open>The secondary source backs off. When a lookup is refused even with a fresh token, the token
  is forgotten and no call that starts within 60 seconds requests anything; when the answer to
  the request of a token is a refusal (a 401 or 403, an empty token or one of zeros), within 30
  minutes.\<close>

theorem secondary_backs_off:
  shows "secondary_fetch now e1 e2 q s = (Inl Unauthorized, s') \<Longrightarrow>
      (\<And>c. c \<in> set cs \<Longrightarrow> call_time c < sv_back_off e2 + seconds 60) \<Longrightarrow>
      se_tok s' = [] \<and> foldl secondary_step s' cs = s'"
    and "note_token e status sc t s = (None, s') \<Longrightarrow>
      sc = 401 \<or> sc = 403 \<or> sc = 200 \<and> is_null_token t \<Longrightarrow>
      (\<And>c. c \<in> set cs \<Longrightarrow> call_time c < sv_answered e + minutes 30) \<Longrightarrow>
      se_tok s' = [] \<and> foldl secondary_step s' cs = s'"
proof -
  assume f: "secondary_fetch now e1 e2 q s = (Inl Unauthorized, s')"
    and cs: "\<And>c. c \<in> set cs \<Longrightarrow> call_time c < sv_back_off e2 + seconds 60"
  from f obtain s2 where "s' = invalidate_token (sv_back_off e2) s2"
    by (auto simp: secondary_fetch_def Let_def split: if_splits prod.splits)
  with cs show "se_tok s' = [] \<and> foldl secondary_step s' cs = s'"
    by (auto simp: invalidate_token_def drop_token_def secondary_cooldown_def intro!: cooling_run)
next
  assume f: "note_token e status sc t s = (None, s')" "sc = 401 \<or> sc = 403 \<or> sc = 200 \<and> is_null_token t"
    and cs: "\<And>c. c \<in> set cs \<Longrightarrow> call_time c < sv_answered e + minutes 30"
  show "se_tok s' = [] \<and> foldl secondary_step s' cs = s'"
    using note_token_refused [OF f] cs
    by (auto simp: secondary_token_refused_cooldown_def intro!: cooling_run)
qed

subsection \<open>LRC files\<close>

definition two_digits :: "nat \<Rightarrow> string" where
  "two_digits n = [char_of (48 + n div 10), char_of (48 + n mod 10)]"

text \<open>A line of an LRC file with hundredths of a second.\<close>

definition lrc_show :: "nat \<times> nat \<times> nat \<times> string \<Rightarrow> string" where
  "lrc_show e = (case e of (m, sec, cs, text) \<Rightarrow>
     ''['' @ two_digits m @ '':'' @ two_digits sec @ ''.'' @ two_digits cs @ ''] '' @ text)"

definition lrc_entry_ok :: "nat \<times> nat \<times> nat \<times> string \<Rightarrow> bool" where
  "lrc_entry_ok e = (case e of (m, sec, cs, text) \<Rightarrow>
     m < 100 \<and> sec < 100 \<and> cs < 100 \<and> CHR 0x0A \<notin> set text \<and> (text = [] \<or> \<not> is_space (last text)))"

definition lrc_shown_line :: "nat \<times> nat \<times> nat \<times> string \<Rightarrow> lyrics_line" where
  "lrc_shown_line e = (case e of (m, sec, cs, text) \<Rightarrow>
     plain_line (show_nat ((m * 60 + sec) * 1000 + cs * 10)) text)"

lemma digit_of_nat: "n < 10 \<Longrightarrow> is_digit (char_of (48 + n)) \<and> digit_val (char_of (48 + n)) = n"
  by (simp add: is_digit_def digit_val_def)

lemma two_digits_val: "n < 100 \<Longrightarrow> digits_val (two_digits n) = n"
  using digit_of_nat [of "n div 10"] digit_of_nat [of "n mod 10"]
  by (simp add: digits_val_def two_digits_def)

lemma two_digits_cases:
  assumes "n < 100"
  obtains a b where "two_digits n = [a, b]" "is_digit a" "is_digit b"
  using digit_of_nat [of "n div 10"] digit_of_nat [of "n mod 10"] assms
  by (simp add: two_digits_def)

lemma is_digit_not [simp]: "\<not> is_digit CHR '']''" "\<not> is_digit (CHR 0x0A)" "\<not> is_space CHR '']''"
  by (simp_all add: is_digit_def is_space_def)

lemma match_lrc_shown:
  assumes "m < 100" "sec < 100" "cs < 100"
  shows "match_lrc (''['' @ two_digits m @ '':'' @ two_digits sec @ ''.'' @ two_digits cs @ '']'' @ r) =
    Some (two_digits m, two_digits sec, two_digits cs, lrc_text r)"
proof -
  from assms obtain a b c d e f where "two_digits m = [a, b]" "two_digits sec = [c, d]"
    "two_digits cs = [e, f]" "is_digit a" "is_digit b" "is_digit c" "is_digit d" "is_digit e" "is_digit f"
    by (metis two_digits_cases)
  then show ?thesis by simp
qed

lemma trim_space_shown:
  assumes "wd = [] \<or> \<not> is_space (last wd)"
  shows "trim_space (CHR ''['' # xs @ '']'' @ '' '' @ wd) =
    CHR ''['' # xs @ '']'' @ (if wd = [] then [] else '' '' @ wd)"
proof (cases "wd = []")
  case True
  then show ?thesis by (simp add: trim_space_def is_space_def)
next
  case False
  then obtain ys y where t: "wd = ys @ [y]" by (metis rev_exhaust)
  with assms have "\<not> is_space y" by simp
  with t show ?thesis by (simp add: trim_space_def is_space_def)
qed

lemma lrc_line_shown: "lrc_entry_ok e \<Longrightarrow> lrc_line (lrc_show e) = Some (lrc_shown_line e)"
proof -
  assume ok: "lrc_entry_ok e"
  obtain m sec cs wd where e: "e = (m, sec, cs, wd)" by (cases e)
  let ?h = "two_digits m @ '':'' @ two_digits sec @ ''.'' @ two_digits cs"
  let ?r = "if wd = [] then [] else '' '' @ wd"
  from ok e have b: "m < 100" "sec < 100" "cs < 100" and t: "wd = [] \<or> \<not> is_space (last wd)"
    by (auto simp: lrc_entry_ok_def)
  have s: "lrc_show e = CHR ''['' # ?h @ '']'' @ '' '' @ wd" by (simp add: lrc_show_def e)
  have "match_lrc (CHR ''['' # ?h @ '']'' @ ?r) =
      Some (two_digits m, two_digits sec, two_digits cs, lrc_text ?r)"
    using match_lrc_shown [OF b, of ?r] by simp
  moreover have "lrc_text ?r = wd" by (simp add: lrc_text_def re_space_def)
  moreover have "length (two_digits cs) = 2" by (simp add: two_digits_def)
  moreover have "trim_space (lrc_show e) = CHR ''['' # ?h @ '']'' @ ?r"
    unfolding s by (rule trim_space_shown [OF t])
  ultimately show ?thesis
    using b by (simp add: lrc_line_def two_digits_val lrc_shown_line_def Let_def add_mult_distrib)
      (simp add: e)
qed

lemma newline_lrc_show: "lrc_entry_ok e \<Longrightarrow> CHR 0x0A \<notin> set (lrc_show e)"
proof -
  have "CHR 0x0A \<notin> set (two_digits n)" if "n < 100" for n
    using that by (rule two_digits_cases) auto
  then show "lrc_entry_ok e \<Longrightarrow> CHR 0x0A \<notin> set (lrc_show e)"
    by (auto simp: lrc_entry_ok_def lrc_show_def)
qed

lemma lrc_lines_shown:
  "(\<And>e. e \<in> set es \<Longrightarrow> lrc_entry_ok e) \<Longrightarrow>
    List.map_filter lrc_line (split_on CHR 0x0A (concat (map (\<lambda>e. lrc_show e @ [CHR 0x0A]) es))) =
    map lrc_shown_line es"
proof (induction es)
  case Nil
  show ?case by (simp add: List.map_filter_simps lrc_line_def)
next
  case (Cons e es)
  then have "lrc_entry_ok e" by simp
  with Cons show ?case
    by (simp add: split_on_append newline_lrc_show lrc_line_shown List.map_filter_simps)
qed

text \<open>An LRC file read back: every line of the form \<open>[mm:ss.xx] wd\<close> becomes a line with its
  start in milliseconds and its wd.\<close>

theorem parse_lrc_roundtrip:
  assumes "es \<noteq> []" and "\<And>e. e \<in> set es \<Longrightarrow> lrc_entry_ok e"
  shows "parse_lrc (concat (map (\<lambda>e. lrc_show e @ [CHR 0x0A]) es)) =
    Inr (Some \<lparr>lr_sync_type = line_synced, lr_lines = map lrc_shown_line es\<rparr>)"
  using assms by (simp add: parse_lrc_def lrc_lines_shown)

theorem parse_lrc_roundtrip_witness:
  "parse_lrc (concat (map (\<lambda>e. lrc_show e @ [CHR 0x0A]) [(3, 20, 31, ''hello''), (0, 0, 5, [])])) =
    Inr (Some \<lparr>lr_sync_type = line_synced,
      lr_lines = [plain_line ''200310'' ''hello'', plain_line ''50'' []]\<rparr>)"
proof -
  let ?es = "[(3, 20, 31, ''hello''), (0, 0, 5, [])]"
  have ok: "list_all lrc_entry_ok ?es" by code_simp
  have shown: "lrc_shown_line (3, 20, 31, ''hello'') = plain_line ''200310'' ''hello''"
    "lrc_shown_line (0, 0, 5, []) = plain_line ''50'' []"
    by (simp_all add: lrc_shown_line_def show_eval)
  have "parse_lrc (concat (map (\<lambda>e. lrc_show e @ [CHR 0x0A]) ?es)) =
      Inr (Some \<lparr>lr_sync_type = line_synced, lr_lines = map lrc_shown_line ?es\<rparr>)"
  proof (rule parse_lrc_roundtrip)
    show "?es \<noteq> []" by (rule list.distinct)
    show "lrc_entry_ok e" if "e \<in> set ?es" for e
      using ok that unfolding list_all_iff by (rule bspec)
  qed
  then show ?thesis unfolding list.map shown .
qed

subsection \<open>Concrete instances\<close>

definition sample_query :: lyrics_query where
  "sample_query = \<lparr>q_track_id = ''track:t1'', q_track_name = ''Song'', q_artist_name = ''Band'',
     q_album_name = [], q_duration_ms = 0\<rparr>"

definition sample_secondary :: secondary where
  "sample_secondary = \<lparr>se_token_url = ''h/token'', se_subtitle_url = ''h/sub'', se_app_id = ''app'',
     se_subtitle_fmt = ''f'', se_user_agent = [], se_app_version_header = [], se_app_version = [],
     se_cookie_header = [], se_cookie_value = [], se_tok = ''old'', se_exp = 100,
     se_cooldown_until = 0, se_sent = []\<rparr>"

definition sample_token_json :: string where
  "sample_token_json =
     ''{\"message\":{\"header\":{\"status_code\":200},\"body\":{\"user_token\":\"new\"}}}''"

text \<open>The token is granted and every lookup refused.\<close>

definition sample_env :: secondary_env where
  "sample_env = \<lparr>sv_check = 1, sv_answered = 2, sv_back_off = 3,
     sv_get = (\<lambda>url h. if has_prefix url ''h/token'' then Response 200 (Some sample_token_json)
                       else Response 401 (Some []))\<rparr>"

definition sample_provider :: lyrics_provider where
  "sample_provider = \<lparr>lp_primary = \<lparr>le_url = ''h/primary/'', le_query = [], le_platform = [], le_get_token = True\<rparr>,
     lp_secondary = sample_secondary\<lparr>se_token_url := []\<rparr>, lp_episode = None, lp_cache = []\<rparr>"

definition sample_fetch_env :: fetch_env where
  "sample_fetch_env = \<lparr>fe_rank = (\<lambda>k. 0),
     fe_primary = \<lparr>ln_token = (\<lambda>force. Some ''a''),
       ln_get = (\<lambda>url t. if url = ''h/primary/t1''
         then Response 200 (Some ''{\"lyrics\":{\"lines\":[{\"words\":\"la\"}]}}'') else NoResponse)\<rparr>,
     fe_now = 0, fe_first = sample_env, fe_second = sample_env, fe_rich_now = 0, fe_rich = sample_env,
     fe_tertiary = (\<lambda>url. Response 200 (Some ''{\"syncedLyrics\":\"[00:01.50] lo\"}''))\<rparr>"

abbreviation (input) sample_result :: lyrics_result where
  "sample_result \<equiv> \<lparr>lr_sync_type = line_synced, lr_lines = [plain_line ''1500'' ''lo'']\<rparr>"

lemma sample_answers:
  "source_answers sample_fetch_env sample_query (lp_primary sample_provider) (lp_secondary sample_provider) =
    [Inr (Some \<lparr>lr_sync_type = unsynced, lr_lines = [plain_line [] ''la'']\<rparr>), Inl NoLyrics,
     Inr (Some sample_result)]"
  by code_simp

lemma sample_best:
  "best_answer (source_answers sample_fetch_env sample_query (lp_primary sample_provider)
      (lp_secondary sample_provider)) = Some sample_result"
  by (simp add: sample_answers best_answer_def synced_def line_synced_def unsynced_def)

lemma sample_uncached:
  "q_track_name sample_query \<noteq> []" "lp_cache sample_provider = []"
  "map_of (lp_cache sample_provider) (q_track_id sample_query) = None"
  by (simp_all add: sample_query_def sample_provider_def)

lemma sample_fetch: "fst (fetch_lyrics sample_fetch_env sample_query False sample_provider) = Inr sample_result"
  using fetch_lyrics_best [OF sample_uncached(1,3), of sample_fetch_env] by (simp add: sample_best)

theorem lyrics_cache_invariant_witness:
  "length (lp_cache (foldl lyrics_step sample_provider [LyricsClear, LyricsClear])) \<le> 200 \<and>
    fst (fetch_lyrics sample_fetch_env sample_query False (foldl lyrics_step sample_provider [])) = Inr sample_result \<and>
    lr_lines sample_result \<noteq> []"
  using lyrics_cache_invariant [OF sample_uncached(2), of "[LyricsClear, LyricsClear]"]
    lyrics_cache_invariant [OF sample_uncached(2), of "[]"]
    sample_fetch
  by simp

theorem lyrics_best_source_witness:
  "fst (fetch_lyrics sample_fetch_env sample_query False sample_provider) = Inr sample_result"
  using lyrics_best_source [OF sample_uncached(1,3), of sample_fetch_env] by (simp add: sample_best)

lemma sample_refused:
  "fst (secondary_fetch 5 sample_env sample_env sample_query sample_secondary) = Inl Unauthorized"
  by code_simp

theorem secondary_backs_off_witness:
  "let s = snd (secondary_fetch 5 sample_env sample_env sample_query sample_secondary);
       s1 = snd (note_token sample_env 200 200 ''00'' sample_secondary)
   in se_tok s = [] \<and> foldl secondary_step s [CallRichsync 60000000002 sample_env sample_query] = s \<and>
      se_tok s1 = [] \<and> foldl secondary_step s1 [CallRichsync 1800000000001 sample_env sample_query] = s1"
proof -
  have f: "secondary_fetch 5 sample_env sample_env sample_query sample_secondary =
      (Inl Unauthorized, snd (secondary_fetch 5 sample_env sample_env sample_query sample_secondary))"
    using sample_refused by (metis prod.collapse)
  have n: "note_token sample_env 200 200 ''00'' sample_secondary =
      (None, snd (note_token sample_env 200 200 ''00'' sample_secondary))"
    by (simp add: note_token_def is_null_token_def)
  show ?thesis
    using secondary_backs_off(1) [OF f, of "[CallRichsync 60000000002 sample_env sample_query]"]
      secondary_backs_off(2) [OF n, of "[CallRichsync 1800000000001 sample_env sample_query]"]
    by (simp add: sample_env_def is_null_token_def Let_def)
qed

end
