(* ===== verification/Hashcash.thy ===== *)
theory Hashcash
  imports Prelude GoCrypto
begin

text \<open>
  The proof of work of the login (\<open>login5/hashcash.go\<close>): a suffix of two eight byte counters is
  counted up until the hash of prefix and suffix ends in enough zero bits. The search has no
  bound of its own, so it is a partial function; it returns exactly when there is a solution
  among the suffixes it visits.
\<close>

subsection \<open>The parts\<close>

text \<open>\<open>bits.TrailingZeros8\<close>.\<close>

fun tz :: "nat \<Rightarrow> nat \<Rightarrow> nat" where
  "tz 0 n = 0"
| "tz (Suc k) n = (if even n then Suc (tz k (n div 2)) else 0)"

definition trailing_zeros8 :: "byte \<Rightarrow> nat" where
  "trailing_zeros8 b = tz 8 (unat b)"

text \<open>The loop over the bytes from the last one on.\<close>

fun check_bytes :: "byte list \<Rightarrow> int \<Rightarrow> bool" where
  "check_bytes [] len = False"
| "check_bytes (b # bs) len =
     (let zeros = trailing_zeros8 b
      in if len \<le> int zeros then True
         else if zeros < 8 then False
         else check_bytes bs (len - 8))"

definition check_hashcash :: "byte list \<Rightarrow> int \<Rightarrow> bool" where
  "check_hashcash hash len = check_bytes (rev hash) len"

text \<open>\<open>incrementHashcash(data, idx)\<close>: the byte at the index, then those before it while there is a
  carry.\<close>

fun increment_hashcash :: "nat \<Rightarrow> byte list \<Rightarrow> byte list" where
  "increment_hashcash 0 data = data[0 := data ! 0 + 1]"
| "increment_hashcash (Suc idx) data =
     (let d = data[Suc idx := data ! Suc idx + 1]
      in if d ! Suc idx = 0 then increment_hashcash idx d else d)"

definition start_suffix :: "byte list \<Rightarrow> byte list" where
  "start_suffix login_context = take 8 (drop 12 (sha1 login_context)) @ replicate 8 0"

definition next_suffix :: "byte list \<Rightarrow> byte list" where
  "next_suffix suffix = increment_hashcash 7 (take 8 suffix) @ increment_hashcash 7 (drop 8 suffix)"

definition hashcash_ok :: "byte list \<Rightarrow> int \<Rightarrow> byte list \<Rightarrow> bool" where
  "hashcash_ok prefix len suffix = check_hashcash (sha1 (prefix @ suffix)) len"

partial_function (option) search_hashcash :: "byte list \<Rightarrow> int \<Rightarrow> byte list \<Rightarrow> byte list option" where
  "search_hashcash prefix len suffix =
     (if hashcash_ok prefix len suffix then Some suffix
      else search_hashcash prefix len (next_suffix suffix))"

declare search_hashcash.simps [code]

record hashcash_solution =
  hs_suffix :: "byte list"
  hs_seconds :: int
  hs_nanos :: int

text \<open>The solution with the time that the search took.\<close>

definition solve_hashcash :: "byte list \<Rightarrow> byte list \<Rightarrow> int \<Rightarrow> duration \<Rightarrow> hashcash_solution option" where
  "solve_hashcash login_context prefix len took =
     map_option (\<lambda>s. \<lparr>hs_suffix = s, hs_seconds = took div 1000000000, hs_nanos = took mod 1000000000\<rparr>)
       (search_hashcash prefix len (start_suffix login_context))"

subsection \<open>Counting\<close>

lemma length_increment [simp]: "length (increment_hashcash i data) = length data"
  by (induction i data rule: increment_hashcash.induct) (auto simp: Let_def)

lemma increment_append: "idx < length xs \<Longrightarrow> increment_hashcash idx (xs @ ys) = increment_hashcash idx xs @ ys"
  by (induction idx xs rule: increment_hashcash.induct) (auto simp: Let_def nth_append list_update_append)

lemma increment_snoc:
  "increment_hashcash (length xs) (xs @ [b]) =
    (if b + 1 = 0 \<and> xs \<noteq> [] then increment_hashcash (length xs - 1) xs @ [0] else xs @ [b + 1])"
proof (cases xs rule: rev_cases)
  case (snoc ys y)
  have "increment_hashcash (length ys) (ys @ [y, 0]) = increment_hashcash (length ys) (ys @ [y]) @ [0]"
    using increment_append [of "length ys" "ys @ [y]" "[0]"] by simp
  with snoc show ?thesis by (auto simp: Let_def nth_append list_update_append)
qed auto

lemma unat_byte_inc: "unat (b + 1 :: byte) = Suc (unat b) mod 256"
  by (simp add: unat_word_ariths)

text \<open>The increment is the successor of the big-endian number, modulo its width.\<close>

lemma increment_value:
  "length data = Suc idx \<Longrightarrow> be_nat (increment_hashcash idx data) = Suc (be_nat data) mod 256 ^ Suc idx"
proof (induction data arbitrary: idx rule: rev_induct)
  case (snoc b xs)
  then have l: "length xs = idx" by simp
  have v: "be_nat (xs @ [b]) = be_nat xs * 256 + unat b" by (simp add: be_nat_append)
  show ?case
  proof (cases "b + 1 = 0")
    case z: True
    then have "Suc (unat b) mod 256 = 0" by (metis unat_byte_inc unat_0)
    then have b: "unat b = 255" using unat_byte_less [of b] by (auto simp: mod_Suc split: if_splits)
    show ?thesis
    proof (cases xs rule: rev_cases)
      case Nil
      with l z b show ?thesis by simp
    next
      case (snoc ys y)
      then have l': "length xs = Suc (length ys)" by simp
      have idx: "idx = Suc (length ys)" using l l' by simp
      have "be_nat (increment_hashcash idx (xs @ [b])) =
          be_nat (increment_hashcash (length ys) xs) * 256"
        using increment_snoc [of xs b] z snoc l by (auto simp: be_nat_append)
      also have "\<dots> = Suc (be_nat xs) mod 256 ^ Suc (length ys) * 256"
        using snoc.IH [OF l'] by simp
      also have "\<dots> = (Suc (be_nat xs) * 256) mod (256 ^ Suc (length ys) * 256)"
        by (rule mult_mod_left)
      also have "Suc (be_nat xs) * 256 = Suc (be_nat (xs @ [b]))" using v b by simp
      finally show ?thesis by (simp add: idx mult.commute mult.left_commute)
    qed
  next
    case nz: False
    then have "Suc (unat b) mod 256 \<noteq> 0" by (metis unat_byte_inc unat_eq_zero)
    then have b: "unat (b + 1) = Suc (unat b)" using unat_byte_less [of b] by (auto simp: unat_byte_inc mod_Suc split: if_splits)
    have "increment_hashcash idx (xs @ [b]) = xs @ [b + 1]" using increment_snoc [of xs b] nz l by simp
    then have "be_nat (increment_hashcash idx (xs @ [b])) = Suc (be_nat (xs @ [b]))"
      using b by (simp add: be_nat_append)
    moreover have "be_nat (increment_hashcash idx (xs @ [b])) < 256 ^ Suc idx"
      using be_nat_less [of "increment_hashcash idx (xs @ [b])"] l by simp
    ultimately show ?thesis by simp
  qed
qed simp

definition count_suffix :: "nat \<Rightarrow> nat \<Rightarrow> byte list" where
  "count_suffix k n = be_bytes 8 (k + n) @ be_bytes 8 n"

lemma be_bytes_mod: "be_bytes k (n mod 256 ^ k) = be_bytes k n"
  by (metis be_nat_be_bytes be_bytes_be_nat length_be_bytes)

lemma increment_be_bytes: "increment_hashcash 7 (be_bytes 8 n) = be_bytes 8 (Suc n)"
proof -
  have "be_nat (increment_hashcash 7 (be_bytes 8 n)) = Suc (n mod 256 ^ 8) mod 256 ^ 8"
    using increment_value [of "be_bytes 8 n" 7] by simp
  also have "\<dots> = Suc n mod 256 ^ 8" by (rule mod_Suc_eq)
  finally have "be_bytes 8 (be_nat (increment_hashcash 7 (be_bytes 8 n))) = be_bytes 8 (Suc n mod 256 ^ 8)"
    by (simp only:)
  then show ?thesis by (simp only: be_bytes_mod) (simp add: be_bytes_be_nat)
qed

lemma next_count_suffix: "next_suffix (count_suffix k n) = count_suffix k (Suc n)"
  by (simp only: next_suffix_def count_suffix_def take_append drop_append length_be_bytes)
    (simp add: increment_be_bytes)

lemma start_count_suffix:
  "start_suffix ctx = count_suffix (be_nat (take 8 (drop 12 (sha1 ctx)))) 0"
proof -
  have "be_bytes k 0 = replicate k 0" for k by (induction k) simp_all
  then show ?thesis by (simp add: start_suffix_def count_suffix_def)
qed

subsection \<open>Trailing zeros\<close>

lemma tz_le: "tz k n \<le> k"
  by (induction k n rule: tz.induct) auto

lemma tz_dvd: "z \<le> k \<Longrightarrow> z \<le> tz k n \<longleftrightarrow> 2 ^ z dvd n"
proof (induction k n arbitrary: z rule: tz.induct)
  case (2 k n)
  show ?case
  proof (cases z)
    case (Suc y)
    have "2 ^ Suc y dvd n \<longleftrightarrow> even n \<and> 2 ^ y dvd n div 2"
      by (auto elim!: evenE simp: dvd_def)
    with Suc 2 show ?thesis by auto
  qed simp
qed simp

lemma trailing_zeros8_le [simp]: "trailing_zeros8 b \<le> 8"
  by (simp add: trailing_zeros8_def tz_le)

lemma trailing_zeros8_dvd: "z \<le> 8 \<Longrightarrow> z \<le> trailing_zeros8 b \<longleftrightarrow> 2 ^ z dvd unat b"
  by (simp add: trailing_zeros8_def tz_dvd)

lemma trailing_zeros8_full: "trailing_zeros8 b = 8 \<longleftrightarrow> unat b = 0"
proof -
  have "trailing_zeros8 b = 8 \<longleftrightarrow> 8 \<le> trailing_zeros8 b"
    using trailing_zeros8_le [of b] by linarith
  also have "\<dots> \<longleftrightarrow> 256 dvd unat b" by (simp add: trailing_zeros8_dvd)
  also have "\<dots> \<longleftrightarrow> unat b = 0"
    using unat_byte_less [of b] by (metis dvd_0_right dvd_imp_le linorder_not_less neq0_conv)
  finally show ?thesis .
qed

lemma dvd_low_byte: "z \<le> 8 \<Longrightarrow> 2 ^ z dvd n * 256 + (m :: nat) \<longleftrightarrow> 2 ^ z dvd m"
proof -
  assume "z \<le> 8"
  then have "(2::nat) ^ z dvd 2 ^ 8" by (rule le_imp_power_dvd)
  then have "2 ^ z dvd n * 256" by simp
  then show ?thesis by (simp add: dvd_add_right_iff)
qed

lemma check_bytes_dvd:
  "bs \<noteq> [] \<Longrightarrow> z \<le> 8 * length bs \<Longrightarrow> check_bytes bs (int z) \<longleftrightarrow> 2 ^ z dvd be_nat (rev bs)"
proof (induction bs arbitrary: z)
  case (Cons b bs)
  have v: "be_nat (rev (b # bs)) = be_nat (rev bs) * 256 + unat b" by (simp add: be_nat_append)
  show ?case
  proof (cases "z \<le> 8")
    case True
    then have "2 ^ z dvd be_nat (rev (b # bs)) \<longleftrightarrow> z \<le> trailing_zeros8 b"
      by (simp only: v dvd_low_byte trailing_zeros8_dvd)
    with True show ?thesis by (auto simp: Let_def)
  next
    case False
    then obtain y where y: "z = y + 8" by (metis le_add_diff_inverse2 nat_le_linear)
    show ?thesis
    proof (cases "trailing_zeros8 b = 8")
      case True
      then have "2 ^ z dvd be_nat (rev (b # bs)) \<longleftrightarrow> 2 ^ y * 256 dvd be_nat (rev bs) * 256"
        by (simp add: be_nat_append trailing_zeros8_full y power_add)
      also have "\<dots> \<longleftrightarrow> 2 ^ y dvd be_nat (rev bs)" by simp
      finally have "2 ^ z dvd be_nat (rev (b # bs)) \<longleftrightarrow> 2 ^ y dvd be_nat (rev bs)" .
      moreover have "bs \<noteq> []" using False Cons.prems(2) by auto
      ultimately show ?thesis
        using Cons.IH [of y] Cons.prems(2) True False y by (simp add: Let_def)
    next
      case nf: False
      then have "trailing_zeros8 b < 8" using trailing_zeros8_le [of b] by linarith
      then have "\<not> 2 ^ 8 dvd unat b" using trailing_zeros8_dvd [of 8 b] by simp
      then have "\<not> 2 ^ 8 dvd be_nat (rev (b # bs))" by (simp only: v dvd_low_byte [of 8])  simp
      then have "\<not> 2 ^ z dvd be_nat (rev (b # bs))"
        using False le_imp_power_dvd [of 8 z 2] dvd_trans by (metis nat_le_linear)
      with \<open>trailing_zeros8 b < 8\<close> False show ?thesis by (simp add: Let_def)
    qed
  qed
qed simp

subsection \<open>The search\<close>

definition first_solution :: "byte list \<Rightarrow> int \<Rightarrow> byte list \<Rightarrow> byte list \<Rightarrow> bool" where
  "first_solution prefix len s r \<longleftrightarrow>
     (\<exists>m. r = (next_suffix ^^ m) s \<and> hashcash_ok prefix len r \<and>
       (\<forall>j < m. \<not> hashcash_ok prefix len ((next_suffix ^^ j) s)))"

lemma first_solution_now: "hashcash_ok prefix len s \<Longrightarrow> first_solution prefix len s s"
  unfolding first_solution_def by (rule exI [of _ 0]) simp

lemma first_solution_later:
  assumes "\<not> hashcash_ok prefix len s" "first_solution prefix len (next_suffix s) r"
  shows "first_solution prefix len s r"
proof -
  obtain m where m: "r = (next_suffix ^^ m) (next_suffix s)" "hashcash_ok prefix len r"
    "\<forall>j < m. \<not> hashcash_ok prefix len ((next_suffix ^^ j) (next_suffix s))"
    using assms(2) by (auto simp: first_solution_def)
  have "\<not> hashcash_ok prefix len ((next_suffix ^^ j) s)" if "j < Suc m" for j
    using that assms(1) m(3) by (cases j) (simp_all add: funpow_swap1)
  with m(1,2) show ?thesis
    unfolding first_solution_def by (intro exI [of _ "Suc m"]) (simp add: funpow_swap1)
qed

lemma search_hashcash_first: "search_hashcash prefix len s = Some r \<Longrightarrow> first_solution prefix len s r"
proof (rule search_hashcash.raw_induct [where P = first_solution])
  fix search prefix len s r
  assume IH: "\<And>prefix len s r. search prefix len s = Some r \<Longrightarrow> first_solution prefix len s r"
    and "(if hashcash_ok prefix len s then Some s else search prefix len (next_suffix s)) = Some r"
  then show "first_solution prefix len s r"
    by (auto intro: first_solution_now first_solution_later split: if_splits)
qed

lemma search_hashcash_returns:
  "hashcash_ok prefix len ((next_suffix ^^ m) s) \<Longrightarrow> \<exists>r. search_hashcash prefix len s = Some r"
proof (induction m arbitrary: s)
  case 0
  then show ?case by (subst search_hashcash.simps) simp
next
  case (Suc m)
  then have "\<exists>r. search_hashcash prefix len (next_suffix s) = Some r" by (simp add: funpow_swap1)
  then show ?case by (subst search_hashcash.simps) simp
qed

lemma next_count_funpow: "(next_suffix ^^ m) (count_suffix k n) = count_suffix k (n + m)"
  by (induction m) (simp_all add: next_count_suffix)

subsection \<open>Properties\<close>

text \<open>The byte by byte check of a hash is the divisibility of its big-endian number by a power of
  two, for any length the hash can have.\<close>

theorem check_hashcash_is_divisibility:
  assumes "hash \<noteq> []" and "0 \<le> len" and "len \<le> 8 * int (length hash)"
  shows "check_hashcash hash len \<longleftrightarrow> 2 ^ nat len dvd be_nat hash"
proof -
  have "check_bytes (rev hash) (int (nat len)) \<longleftrightarrow> 2 ^ nat len dvd be_nat (rev (rev hash))"
    using assms by (intro check_bytes_dvd) auto
  with assms(2) show ?thesis by (simp add: check_hashcash_def)
qed

theorem check_hashcash_is_divisibility_witness:
  "check_hashcash [3, 8, 0] 11 \<longleftrightarrow> 2 ^ 11 dvd be_nat [3, 8, 0]"
  using check_hashcash_is_divisibility [of "[3, 8, 0]" 11] by simp

text \<open>C9: The search visits the suffixes whose halves count up from the hash of the login context and
  from zero, each modulo 2 to the 64. It returns exactly when one of them solves the challenge,
  and then with the first one that does, and with the time the search took in seconds and
  nanoseconds. When none of them does, it does not return.\<close>

theorem solve_hashcash_first:
  fixes ctx :: "byte list"
  defines "k \<equiv> be_nat (take 8 (drop 12 (sha1 ctx)))"
  shows "((\<exists>sol. solve_hashcash ctx prefix len took = Some sol) \<longleftrightarrow> (\<exists>n. hashcash_ok prefix len (count_suffix k n))) \<and>
    (\<forall>sol. solve_hashcash ctx prefix len took = Some sol \<longrightarrow>
      (\<exists>m. hs_suffix sol = count_suffix k m \<and> hashcash_ok prefix len (count_suffix k m) \<and>
        (\<forall>j < m. \<not> hashcash_ok prefix len (count_suffix k j))) \<and>
      hs_seconds sol * 1000000000 + hs_nanos sol = took \<and> 0 \<le> hs_nanos sol \<and> hs_nanos sol < 1000000000)"
proof -
  have start: "start_suffix ctx = count_suffix k 0" by (simp add: k_def start_count_suffix)
  have reach: "(next_suffix ^^ j) (start_suffix ctx) = count_suffix k j" for j
    by (simp add: start next_count_funpow)
  have first: "\<exists>m. r = count_suffix k m \<and> hashcash_ok prefix len (count_suffix k m) \<and>
      (\<forall>j < m. \<not> hashcash_ok prefix len (count_suffix k j))"
    if "search_hashcash prefix len (start_suffix ctx) = Some r" for r
    using search_hashcash_first [OF that] by (auto simp: first_solution_def reach)
  have "(\<exists>r. search_hashcash prefix len (start_suffix ctx) = Some r) \<longleftrightarrow> (\<exists>n. hashcash_ok prefix len (count_suffix k n))"
    using first search_hashcash_returns [of prefix len _ "start_suffix ctx", unfolded reach] by blast
  with first show ?thesis by (auto simp: solve_hashcash_def)
qed

theorem solve_hashcash_first_witness:
  "\<exists>sol. solve_hashcash [1] [2] 0 1500000000 = Some sol \<and>
    hs_suffix sol = count_suffix (be_nat (take 8 (drop 12 (sha1 [1])))) 0 \<and>
    hs_seconds sol * 1000000000 + hs_nanos sol = 1500000000"
proof -
  have "check_hashcash h 0" if "length h = 20" for h
    using check_bytes_dvd [of "rev h" 0] that by (cases "h = []") (simp_all add: check_hashcash_def)
  then have ok: "hashcash_ok [2] 0 s" for s by (simp add: hashcash_ok_def)
  note both = solve_hashcash_first [of "[1]" "[2]" 0 1500000000]
  obtain sol where sol: "solve_hashcash [1] [2] 0 1500000000 = Some sol"
    using both ok by blast
  with both obtain m where m: "hs_suffix sol = count_suffix (be_nat (take 8 (drop 12 (sha1 [1])))) m"
    "\<forall>j < m. \<not> hashcash_ok [2] 0 (count_suffix (be_nat (take 8 (drop 12 (sha1 [1])))) j)"
    and "hs_seconds sol * 1000000000 + hs_nanos sol = 1500000000" by blast
  then have "m = 0" using ok by blast
  with sol m(1) show ?thesis
    using \<open>hs_seconds sol * 1000000000 + hs_nanos sol = 1500000000\<close> by blast
qed

end
