(* ===== verification/ApConn.thy ===== *)
theory ApConn
  imports Interfaces GoCrypto
begin

text \<open>
  The connection to the access point below its packets (\<open>ap/conn.go\<close>, \<open>ap/shannon.go\<close>,
  \<open>ap/accumulator.go\<close>, \<open>dh/dh.go\<close> and the key derivation of \<open>ap/ap.go\<close>): the length-prefixed
  messages of the handshake, the Diffie-Hellman exchange, the keys derived from what was
  exchanged, and the encrypted packets.

  The Shannon cipher and the protocol buffers are third-party code and parameters of the model:
  a \<open>cipher\<close> is the operations of the cipher object on its state, and a message is given by the
  functions that marshal and unmarshal it. The bytes that can be read are a list; a read that
  finds too few consumes them all and fails.
\<close>

subsection \<open>Reading\<close>

text \<open>\<open>io.ReadFull\<close> of \<open>n\<close> bytes.\<close>

definition read_full :: "nat \<Rightarrow> byte list \<Rightarrow> (byte list \<times> byte list) option" where
  "read_full n bs = (if n \<le> length bs then Some (take n bs, drop n bs) else None)"

lemma read_full_append [simp]: "length xs = n \<Longrightarrow> read_full n (xs @ ys) = Some (xs, ys)"
  by (simp add: read_full_def)

subsection \<open>Messages of the handshake\<close>

definition hello_bytes :: "bool \<Rightarrow> byte list" where
  "hello_bytes with_hello = (if with_hello then [0, 4] else [])"

text \<open>What \<open>writeMessage\<close> writes for the marshalled bytes; the length counts the hello and itself,
  in 32 bits.\<close>

definition write_message :: "bool \<Rightarrow> byte list \<Rightarrow> byte list" where
  "write_message with_hello data =
     hello_bytes with_hello @ be_bytes 4 (length (hello_bytes with_hello) + 4 + length data) @ data"

text \<open>The size of the buffer for a message whose length field is \<open>len\<close>: the subtraction wraps.\<close>

definition body_size :: "32 word \<Rightarrow> nat" where
  "body_size len = unat (len - 4)"

definition too_long :: "int \<Rightarrow> 32 word \<Rightarrow> bool" where
  "too_long max_length len \<longleftrightarrow> max_length > 0 \<and> len > word_of_int max_length"

definition read_message ::
    "(byte list \<Rightarrow> 'm option) \<Rightarrow> int \<Rightarrow> byte list \<Rightarrow> ('m \<times> byte list) option" where
  "read_message unmarshal max_length bs =
     (case read_full 4 bs of
        None \<Rightarrow> None
      | Some (l, bs1) \<Rightarrow>
          let len = word_of_nat (be_nat l) :: 32 word
          in if too_long max_length len then None
             else case read_full (body_size len) bs1 of
                    None \<Rightarrow> None
                  | Some (data, bs2) \<Rightarrow> map_option (\<lambda>m. (m, bs2)) (unmarshal data))"

text \<open>The bytes that went over the connection during the key exchange, in both directions.\<close>

definition accumulate :: "byte list \<Rightarrow> byte list \<Rightarrow> byte list" where
  "accumulate acc n_bytes = acc @ n_bytes"

subsection \<open>The Diffie-Hellman exchange\<close>

definition dh_generator :: nat where "dh_generator = 2"

definition dh_prime_bytes :: "nat list" where
  "dh_prime_bytes = [
     0xff, 0xff, 0xff, 0xff, 0xff, 0xff, 0xff, 0xff, 0xc9, 0x0f, 0xda, 0xa2, 0x21, 0x68, 0xc2, 0x34, 0xc4, 0xc6,
     0x62, 0x8b, 0x80, 0xdc, 0x1c, 0xd1, 0x29, 0x02, 0x4e, 0x08, 0x8a, 0x67, 0xcc, 0x74, 0x02, 0x0b, 0xbe, 0xa6,
     0x3b, 0x13, 0x9b, 0x22, 0x51, 0x4a, 0x08, 0x79, 0x8e, 0x34, 0x04, 0xdd, 0xef, 0x95, 0x19, 0xb3, 0xcd, 0x3a,
     0x43, 0x1b, 0x30, 0x2b, 0x0a, 0x6d, 0xf2, 0x5f, 0x14, 0x37, 0x4f, 0xe1, 0x35, 0x6d, 0x6d, 0x51, 0xc2, 0x45,
     0xe4, 0x85, 0xb5, 0x76, 0x62, 0x5e, 0x7e, 0xc6, 0xf4, 0x4c, 0x42, 0xe9, 0xa6, 0x3a, 0x36, 0x20, 0xff, 0xff,
     0xff, 0xff, 0xff, 0xff, 0xff, 0xff]"

definition dh_prime :: nat where
  "dh_prime = be_nat (map word_of_nat dh_prime_bytes)"

text \<open>\<open>Int.Bytes\<close>: big-endian without leading zeros.\<close>

fun int_bytes :: "nat \<Rightarrow> byte list" where
  "int_bytes n = (if n = 0 then [] else int_bytes (n div 256) @ [word_of_nat (n mod 256)])"

declare int_bytes.simps [simp del]

text \<open>\<open>Exp\<close> modulo a number, by repeated squaring.\<close>

fun pow_mod :: "nat \<Rightarrow> nat \<Rightarrow> nat \<Rightarrow> nat" where
  "pow_mod m b e =
     (if e = 0 then 1 mod m
      else let h = pow_mod m (b * b mod m) (e div 2) in if even e then h else b * h mod m)"

declare pow_mod.simps [simp del]

record diffie_hellman =
  dh_private :: nat
  dh_public :: nat
  dh_shared :: "byte list"

text \<open>From the 95 random bytes.\<close>

definition new_diffie_hellman :: "byte list \<Rightarrow> diffie_hellman" where
  "new_diffie_hellman random =
     (let k = be_nat random
      in \<lparr>dh_private = k, dh_public = pow_mod dh_prime dh_generator k, dh_shared = []\<rparr>)"

definition dh_exchange :: "byte list \<Rightarrow> diffie_hellman \<Rightarrow> diffie_hellman" where
  "dh_exchange remote d = d\<lparr>dh_shared := int_bytes (pow_mod dh_prime (be_nat remote) (dh_private d))\<rparr>"

definition dh_public_bytes :: "diffie_hellman \<Rightarrow> byte list" where
  "dh_public_bytes d = int_bytes (dh_public d)"

subsection \<open>Keys\<close>

definition mac_data :: "byte list \<Rightarrow> byte list \<Rightarrow> byte list" where
  "mac_data shared exchanged =
     concat (map (\<lambda>i. hmac_sha1 shared (exchanged @ [word_of_nat i])) [1, 2, 3, 4, 5])"

text \<open>The answer to the challenge and the two keys of the packets.\<close>

definition solve_challenge :: "byte list \<Rightarrow> byte list \<Rightarrow> byte list \<times> byte list \<times> byte list" where
  "solve_challenge shared exchanged =
     (let md = mac_data shared exchanged
      in (hmac_sha1 (take 20 md) exchanged, take 32 (drop 20 md), take 32 (drop 52 md)))"

subsection \<open>Encrypted packets\<close>

record 'c cipher =
  ci_new :: "byte list \<Rightarrow> 'c"
  ci_nonce :: "32 word \<Rightarrow> 'c \<Rightarrow> 'c"
  ci_encrypt :: "byte list \<Rightarrow> 'c \<Rightarrow> byte list \<times> 'c"
  ci_decrypt :: "byte list \<Rightarrow> 'c \<Rightarrow> byte list \<times> 'c"
  ci_finish :: "'c \<Rightarrow> byte list \<times> 'c"
  ci_check :: "byte list \<Rightarrow> 'c \<Rightarrow> bool \<times> 'c"

record 'c shannon_conn =
  sc_send_cipher :: 'c
  sc_send_nonce :: "32 word"
  sc_recv_cipher :: 'c
  sc_recv_nonce :: "32 word"
  sc_unread :: "byte list"

definition new_shannon_conn :: "'c cipher \<Rightarrow> byte list \<Rightarrow> byte list \<Rightarrow> 'c shannon_conn" where
  "new_shannon_conn ci send_key recv_key =
     \<lparr>sc_send_cipher = ci_new ci send_key, sc_send_nonce = 0,
      sc_recv_cipher = ci_new ci recv_key, sc_recv_nonce = 0, sc_unread = []\<rparr>"

type_synonym packet = "byte \<times> byte list"

definition packet_bytes :: "packet \<Rightarrow> byte list" where
  "packet_bytes p = fst p # be_bytes 2 (length (snd p)) @ snd p"

text \<open>The bytes of a packet on the wire, the mac included.\<close>

definition send_packet ::
    "'c cipher \<Rightarrow> packet \<Rightarrow> 'c shannon_conn \<Rightarrow> byte list outcome \<times> 'c shannon_conn" where
  "send_packet ci p c =
     (if length (snd p) > 65535 then (Fail ''payload too big'', c)
      else
        let c1 = ci_nonce ci (sc_send_nonce c) (sc_send_cipher c);
            (enc, c2) = ci_encrypt ci (packet_bytes p) c1;
            (mac, c3) = ci_finish ci c2
        in (Return (enc @ mac), c\<lparr>sc_send_cipher := c3, sc_send_nonce := sc_send_nonce c + 1\<rparr>))"

definition peek_unencrypted ::
    "nat \<Rightarrow> byte list \<Rightarrow> 'c shannon_conn \<Rightarrow> byte list outcome \<times> byte list \<times> 'c shannon_conn" where
  "peek_unencrypted n bs c =
     (if sc_unread c \<noteq> [] then (Panic ''not supported'', bs, c)
      else case read_full n bs of
             None \<Rightarrow> (Fail ''failed peeking uncrypted'', [], c)
           | Some (buf, bs') \<Rightarrow> (Return buf, bs', c\<lparr>sc_unread := buf\<rparr>))"

text \<open>A packet from the peeked bytes and the connection; what is left of the peeked bytes stays
  peeked.\<close>

definition receive_packet ::
    "'c cipher \<Rightarrow> byte list \<Rightarrow> 'c shannon_conn \<Rightarrow> packet outcome \<times> byte list \<times> 'c shannon_conn" where
  "receive_packet ci conn c =
     (let bs = sc_unread c @ conn;
          left = (\<lambda>rest c. (drop (length rest - length conn) rest,
                    c\<lparr>sc_unread := take (length rest - length conn) rest\<rparr>));
          c1 = ci_nonce ci (sc_recv_nonce c) (sc_recv_cipher c);
          s1 = c\<lparr>sc_recv_nonce := sc_recv_nonce c + 1, sc_recv_cipher := c1\<rparr>
      in case read_full 3 bs of
           None \<Rightarrow> (Fail ''failed reading packet header'', left [] s1)
         | Some (h, bs1) \<Rightarrow>
             (let (hd, c2) = ci_decrypt ci h c1;
                  s2 = s1\<lparr>sc_recv_cipher := c2\<rparr>
              in case read_full (be_nat (drop 1 hd)) bs1 of
                   None \<Rightarrow> (Fail ''failed reading packet payload'', left [] s2)
                 | Some (p, bs2) \<Rightarrow>
                     (let (payload, c3) = ci_decrypt ci p c2;
                          s3 = s2\<lparr>sc_recv_cipher := c3\<rparr>
                      in case read_full 4 bs2 of
                           None \<Rightarrow> (Fail ''failed reading packet mac'', left [] s3)
                         | Some (mac, bs3) \<Rightarrow>
                             (let (ok, c4) = ci_check ci mac c3;
                                  s4 = s3\<lparr>sc_recv_cipher := c4\<rparr>
                              in (if ok then Return (hd ! 0, payload) else Fail ''invalid packet mac'',
                                  left bs3 s4)))))"

subsection \<open>The exchange agrees\<close>

lemma be_nat_int_bytes [simp]: "be_nat (int_bytes n) = n"
proof (induction n rule: int_bytes.induct)
  case (1 n)
  then show ?case by (subst int_bytes.simps) (simp add: be_nat_append unat_of_nat)
qed

lemma pow_mod_power: "pow_mod m b e = b ^ e mod m"
proof (induction m b e rule: pow_mod.induct)
  case (1 m b e)
  show ?case
  proof (cases "e = 0")
    case False
    have h: "pow_mod m (b * b mod m) (e div 2) = (b * b) ^ (e div 2) mod m"
      using 1 [OF False] by (simp add: power_mod)
    have sq: "(b * b) ^ (e div 2) = b ^ (2 * (e div 2))"
      by (simp add: power_mult power2_eq_square)
    show ?thesis
    proof (cases "even e")
      case True
      then have "2 * (e div 2) = e" by simp
      with h sq True False show ?thesis by (subst pow_mod.simps) (simp add: Let_def)
    next
      case odd: False
      then have "Suc (2 * (e div 2)) = e" by simp
      then have "b * b ^ (2 * (e div 2)) = b ^ e" by (metis power_Suc)
      with h sq odd False show ?thesis
        by (subst pow_mod.simps) (simp add: Let_def mod_mult_right_eq)
    qed
  qed (simp add: pow_mod.simps)
qed

lemma dh_agreement:
  "dh_shared (dh_exchange (dh_public_bytes (new_diffie_hellman r2)) (new_diffie_hellman r1)) =
   dh_shared (dh_exchange (dh_public_bytes (new_diffie_hellman r1)) (new_diffie_hellman r2))"
proof -
  have "(dh_generator ^ be_nat r2 mod dh_prime) ^ be_nat r1 mod dh_prime =
      (dh_generator ^ be_nat r1 mod dh_prime) ^ be_nat r2 mod dh_prime"
    by (simp only: power_mod power_mult [symmetric] mult.commute)
  then show ?thesis
    by (simp add: dh_exchange_def dh_public_bytes_def new_diffie_hellman_def Let_def pow_mod_power)
qed

lemma length_mac_data: "length (mac_data shared exchanged) = 100"
  by (simp add: mac_data_def)

subsection \<open>Messages of the handshake read back\<close>

lemma message_length: "n < 4294967292 \<Longrightarrow> body_size (word_of_nat ((n + 4) mod 256 ^ 4)) = n"
proof -
  assume "n < 4294967292"
  then have "(n + 4) mod 256 ^ 4 = n + 4" by simp
  moreover have "(word_of_nat (n + 4) - 4 :: 32 word) = word_of_nat n" by simp
  moreover have "unat (word_of_nat n :: 32 word) = n"
    using \<open>n < 4294967292\<close> by (simp add: unat_of_nat)
  ultimately show ?thesis by (simp only: body_size_def)
qed

lemma read_message_written:
  "length data < 4294967292 \<Longrightarrow> read_message unmarshal (-1) (write_message False data @ rest) =
    map_option (\<lambda>m. (m, rest)) (unmarshal data)"
  using message_length [of "length data"]
  by (simp add: read_message_def write_message_def hello_bytes_def too_long_def Let_def add.commute
      del: be_bytes.simps)

interpretation handshake: codec "write_message False" "read_message Some (-1)" "\<lambda>d. length d < 4294967292"
  by unfold_locales (simp add: read_message_written)

lemma body_size_small: "unat len < 4 \<Longrightarrow> body_size len = 4294967292 + unat len"
proof -
  assume "unat len < 4"
  then have "unat (len - 4) = 2 ^ 32 + unat len - 4"
    by (simp add: unat_sub_if_size word_size word_le_nat_alt)
  then show ?thesis by (simp add: body_size_def)
qed

lemma body_size_large: "4 \<le> unat len \<Longrightarrow> body_size len = unat len - 4"
  by (simp add: body_size_def unat_sub word_le_nat_alt)

subsection \<open>Packets read back\<close>

text \<open>What the client relies on of the cipher: decryption inverts encryption and both lead to the
  same state, a text may be processed in pieces, the mac of a state checks in that state, and
  setting the nonce forgets everything but the key.\<close>

definition cipher_ok :: "'c cipher \<Rightarrow> bool" where
  "cipher_ok ci \<longleftrightarrow>
     (\<forall>d c. length (fst (ci_encrypt ci d c)) = length d) \<and>
     (\<forall>d c. ci_decrypt ci (fst (ci_encrypt ci d c)) c = (d, snd (ci_encrypt ci d c))) \<and>
     (\<forall>a b c. ci_encrypt ci (a @ b) c =
        (fst (ci_encrypt ci a c) @ fst (ci_encrypt ci b (snd (ci_encrypt ci a c))),
         snd (ci_encrypt ci b (snd (ci_encrypt ci a c))))) \<and>
     (\<forall>c. length (fst (ci_finish ci c)) = 4 \<and> fst (ci_check ci (fst (ci_finish ci c)) c)) \<and>
     (\<forall>n d c. ci_nonce ci n (snd (ci_encrypt ci d c)) = ci_nonce ci n c) \<and>
     (\<forall>n c. ci_nonce ci n (snd (ci_finish ci c)) = ci_nonce ci n c) \<and>
     (\<forall>n m c. ci_nonce ci n (snd (ci_check ci m c)) = ci_nonce ci n c) \<and>
     (\<forall>n m c. ci_nonce ci n (ci_nonce ci m c) = ci_nonce ci n c)"

lemma cipher_okD:
  assumes "cipher_ok ci"
  shows "length (fst (ci_encrypt ci d c)) = length d"
    and "ci_decrypt ci (fst (ci_encrypt ci d c)) c = (d, snd (ci_encrypt ci d c))"
    and "ci_encrypt ci (d @ d') c =
        (fst (ci_encrypt ci d c) @ fst (ci_encrypt ci d' (snd (ci_encrypt ci d c))),
         snd (ci_encrypt ci d' (snd (ci_encrypt ci d c))))"
    and "length (fst (ci_finish ci c)) = 4" "fst (ci_check ci (fst (ci_finish ci c)) c)"
    and "ci_nonce ci n (snd (ci_encrypt ci d c)) = ci_nonce ci n c"
    and "ci_nonce ci n (snd (ci_finish ci c)) = ci_nonce ci n c"
    and "ci_nonce ci n (snd (ci_check ci d c)) = ci_nonce ci n c"
    and "ci_nonce ci n (ci_nonce ci m c) = ci_nonce ci n c"
  using assms unfolding cipher_ok_def by blast+

text \<open>The sending half of one end and the receiving half of the other.\<close>

definition linked :: "'c cipher \<Rightarrow> 'c shannon_conn \<Rightarrow> 'c shannon_conn \<Rightarrow> bool" where
  "linked ci a b \<longleftrightarrow>
     (\<forall>n. ci_nonce ci n (sc_send_cipher a) = ci_nonce ci n (sc_recv_cipher b)) \<and>
     sc_send_nonce a = sc_recv_nonce b \<and> sc_unread b = []"

lemma receive_packet_parts:
  assumes "sc_unread b = []" "ci_nonce ci (sc_recv_nonce b) (sc_recv_cipher b) = c"
    "ci_decrypt ci e1 c = (h, c1)" "length e1 = 3" "be_nat (drop 1 h) = length e2"
    "ci_decrypt ci e2 c1 = (payload, c2)" "length mac = 4" "ci_check ci mac c2 = (True, c3)"
  shows "receive_packet ci (e1 @ e2 @ mac @ rest) b = (Return (h ! 0, payload), rest,
    b\<lparr>sc_recv_nonce := sc_recv_nonce b + 1, sc_recv_cipher := c3, sc_unread := []\<rparr>)"
proof -
  have r: "read_full 3 (e1 @ e2 @ mac @ rest) = Some (e1, e2 @ mac @ rest)"
    "read_full (be_nat (drop 1 h)) (e2 @ mac @ rest) = Some (e2, mac @ rest)"
    "read_full 4 (mac @ rest) = Some (mac, rest)"
    using assms(4,5,7) by simp_all
  have l: "length rest - length (e1 @ e2 @ mac @ rest) = 0" by simp
  show ?thesis
    unfolding receive_packet_def Let_def assms(1,2) append_Nil r option.case prod.case assms(3,6,8) l
    by simp
qed

lemma packet_roundtrip:
  assumes ok: "cipher_ok ci" and l: "linked ci a b" and len: "length (snd p) \<le> 65535"
    and s: "send_packet ci p a = (Return bs, a')"
  shows "\<exists>b'. receive_packet ci (bs @ rest) b = (Return p, rest, b') \<and> linked ci a' b'"
proof -
  define c where "c = ci_nonce ci (sc_send_nonce a) (sc_send_cipher a)"
  let ?h = "fst p # be_bytes 2 (length (snd p))"
  let ?E = "\<lambda>d c. fst (ci_encrypt ci d c)" and ?S = "\<lambda>d c. snd (ci_encrypt ci d c)"
  let ?c1 = "?S ?h c" let ?c2 = "?S (snd p) ?c1"
  let ?mac = "fst (ci_finish ci ?c2)"
  have split: "ci_encrypt ci (packet_bytes p) c = (?E ?h c @ ?E (snd p) ?c1, ?c2)"
  proof -
    have "packet_bytes p = ?h @ snd p" by (simp add: packet_bytes_def)
    then show ?thesis by (simp only: cipher_okD(3) [OF ok])
  qed
  have bs: "bs = ?E ?h c @ ?E (snd p) ?c1 @ ?mac"
    and a': "a' = a\<lparr>sc_send_cipher := snd (ci_finish ci ?c2), sc_send_nonce := sc_send_nonce a + 1\<rparr>"
    using s len split by (auto simp: send_packet_def Let_def c_def split: prod.splits)
  have c: "ci_nonce ci (sc_recv_nonce b) (sc_recv_cipher b) = c" "sc_unread b = []"
    using l by (auto simp: linked_def c_def)
  have lens: "length (?E ?h c) = 3" "length (?E (snd p) ?c1) = length (snd p)" "length ?mac = 4"
    by (simp_all only: cipher_okD [OF ok] list.size length_be_bytes)
  have dec: "ci_decrypt ci (?E ?h c) c = (?h, ?c1)" "ci_decrypt ci (?E (snd p) ?c1) ?c1 = (snd p, ?c2)"
    and chk: "fst (ci_check ci ?mac ?c2)"
    by (rule cipher_okD [OF ok])+
  have n: "be_nat (drop 1 ?h) = length (snd p)" using len by (simp del: be_bytes.simps)
  then have n': "be_nat (drop 1 ?h) = length (?E (snd p) ?c1)" by (simp only: lens(2))
  obtain c3 where c3: "ci_check ci ?mac ?c2 = (True, c3)" using chk by (metis prod.collapse)
  let ?b' = "b\<lparr>sc_recv_nonce := sc_recv_nonce b + 1, sc_recv_cipher := c3, sc_unread := []\<rparr>"
  have "receive_packet ci (?E ?h c @ ?E (snd p) ?c1 @ ?mac @ rest) b = (Return (?h ! 0, snd p), rest, ?b')"
    using c(2,1) dec(1) lens(1) n' dec(2) lens(3) c3 by (rule receive_packet_parts)
  then have "receive_packet ci (bs @ rest) b = (Return p, rest, ?b')"
    unfolding bs append_assoc by simp
  moreover have "ci_nonce ci m c3 = ci_nonce ci m ?c2" for m
    using cipher_okD(8) [OF ok, of m ?mac ?c2] c3 by simp
  then have "linked ci a' ?b'"
    using l by (simp add: linked_def a' c_def cipher_okD [OF ok])
  ultimately show ?thesis by blast
qed

text \<open>A sequence of packets, sent one after the other and received from the stream.\<close>

fun send_packets :: "'c cipher \<Rightarrow> packet list \<Rightarrow> 'c shannon_conn \<Rightarrow> byte list \<times> 'c shannon_conn" where
  "send_packets ci [] c = ([], c)"
| "send_packets ci (p # ps) c =
     (let (r, c1) = send_packet ci p c; (bs, c2) = send_packets ci ps c1
      in (case r of Return b \<Rightarrow> b @ bs | _ \<Rightarrow> bs, c2))"

fun receive_packets ::
    "'c cipher \<Rightarrow> nat \<Rightarrow> byte list \<Rightarrow> 'c shannon_conn \<Rightarrow> packet outcome list \<times> byte list \<times> 'c shannon_conn" where
  "receive_packets ci 0 bs c = ([], bs, c)"
| "receive_packets ci (Suc n) bs c =
     (let (r, bs1, c1) = receive_packet ci bs c; (rs, bs2, c2) = receive_packets ci n bs1 c1
      in (r # rs, bs2, c2))"

lemma send_packet_returns:
  "length (snd p) \<le> 65535 \<Longrightarrow> \<exists>bs c1. send_packet ci p c = (Return bs, c1)"
  by (auto simp: send_packet_def Let_def split: prod.split)

lemma packets_roundtrip:
  "cipher_ok ci \<Longrightarrow> linked ci a b \<Longrightarrow> (\<And>p. p \<in> set ps \<Longrightarrow> length (snd p) \<le> 65535) \<Longrightarrow>
    fst (receive_packets ci (length ps) (fst (send_packets ci ps a) @ rest) b) = map Return ps \<and>
    fst (snd (receive_packets ci (length ps) (fst (send_packets ci ps a) @ rest) b)) = rest"
proof (induction ps arbitrary: a b)
  case (Cons p ps)
  have len: "length (snd p) \<le> 65535" using Cons.prems(3) [of p] by simp
  obtain bs a1 where s: "send_packet ci p a = (Return bs, a1)" using send_packet_returns [OF len] by blast
  let ?tail = "fst (send_packets ci ps a1) @ rest"
  obtain b1 where r: "receive_packet ci (bs @ ?tail) b = (Return p, ?tail, b1)" "linked ci a1 b1"
    using packet_roundtrip [OF Cons.prems(1,2) len s, of ?tail] by blast
  have "fst (send_packets ci (p # ps) a) @ rest = bs @ ?tail"
    by (simp add: s split: prod.split)
  with r Cons.IH [OF Cons.prems(1) r(2)] Cons.prems(3) show ?case
    by (simp add: Let_def case_prod_beta)
qed simp

subsection \<open>Properties\<close>

lemma shannon_stream_roundtrip_facts:
  assumes "cipher_ok ci" and "linked ci a b" and "\<And>p. p \<in> set ps \<Longrightarrow> length (snd p) \<le> 65535"
  shows "fst (receive_packets ci (length ps) (fst (send_packets ci ps a) @ rest) b) = map Return ps"
    and "fst (snd (receive_packets ci (length ps) (fst (send_packets ci ps a) @ rest) b)) = rest"
  using packets_roundtrip [OF assms] by simp_all

text \<open>C10: Packets arrive as they were sent. For a cipher that behaves as documented and two ends with
  the same key and the same count of packets so far, any sequence of packets of at most 65535
  bytes that one end sends is what the other one receives, in order, and nothing of what follows
  in the stream is consumed.\<close>

theorem shannon_stream_roundtrip:
  assumes "cipher_ok ci" and "linked ci a b" and "\<And>p. p \<in> set ps \<Longrightarrow> length (snd p) \<le> 65535"
  shows "fst (receive_packets ci (length ps) (fst (send_packets ci ps a) @ rest) b) = map Return ps \<and>
    fst (snd (receive_packets ci (length ps) (fst (send_packets ci ps a) @ rest) b)) = rest"
  using shannon_stream_roundtrip_facts [OF assms] by blast

text \<open>A concrete cipher: every byte is combined with the key and the nonce, the mac is their sum.\<close>

definition toy_cipher :: "(byte \<times> byte \<times> byte) cipher" where
  "toy_cipher = \<lparr>ci_new = (\<lambda>k. (word_of_nat (be_nat k), 0, 0)),
     ci_nonce = (\<lambda>n (k, _, _). (k, ucast n, 0)),
     ci_encrypt = (\<lambda>d (k, n, m). (map (\<lambda>b. b + k + n) d, (k, n, m + sum_list d))),
     ci_decrypt = (\<lambda>d (k, n, m). (map (\<lambda>b. b - k - n) d, (k, n, m + sum_list (map (\<lambda>b. b - k - n) d)))),
     ci_finish = (\<lambda>(k, n, m). ([m, k, n, 0], (k, n, 0))),
     ci_check = (\<lambda>mac (k, n, m). (mac = [m, k, n, 0], (k, n, 0)))\<rparr>"

lemma toy_cipher_ok: "cipher_ok toy_cipher"
  by (simp add: cipher_ok_def toy_cipher_def case_prod_beta comp_def)

lemma toy_linked: "linked toy_cipher (new_shannon_conn toy_cipher k k') (new_shannon_conn toy_cipher k' k)"
  by (simp add: linked_def new_shannon_conn_def)

theorem shannon_stream_roundtrip_witness:
  "fst (receive_packets toy_cipher 2
      (fst (send_packets toy_cipher [(4, [1, 2]), (0xb2, [])] (new_shannon_conn toy_cipher [7] [9])) @ [5])
      (new_shannon_conn toy_cipher [9] [7])) = [Return (4, [1, 2]), Return (0xb2, [])]"
proof -
  have "fst (receive_packets toy_cipher (length [(4 :: byte, [1, 2 :: byte]), (0xb2, [])])
      (fst (send_packets toy_cipher [(4, [1, 2]), (0xb2, [])] (new_shannon_conn toy_cipher [7] [9])) @ [5])
      (new_shannon_conn toy_cipher [9] [7])) = map Return [(4 :: byte, [1, 2 :: byte]), (0xb2, [])]"
    by (rule shannon_stream_roundtrip [OF toy_cipher_ok toy_linked, THEN conjunct1]) auto
  then show ?thesis by (simp del: receive_packets.simps send_packets.simps add: numeral_2_eq_2)
qed

text \<open>The limit of a handshake message bounds the buffer that is allocated for it, except that
  a length field below four wraps around: it passes the limit and asks for a buffer of almost
  four gigabytes.\<close>

theorem read_message_buffer:
  assumes "0 < max_length" and "max_length < 4294967296" and "\<not> too_long max_length len"
  shows "4 \<le> unat len \<Longrightarrow> int (body_size len) \<le> max_length - 4"
    and "unat len < 4 \<Longrightarrow> body_size len = 4294967292 + unat len"
proof -
  have "unat (word_of_int max_length :: 32 word) = nat max_length"
    using assms(1,2) by (simp add: unsigned_of_int take_bit_int_eq_self)
  then have "unat len \<le> nat max_length"
    using assms by (simp add: too_long_def word_le_nat_alt not_less)
  then have m: "int (unat len) \<le> max_length" using assms(1) by linarith
  show "int (body_size len) \<le> max_length - 4" if "4 \<le> unat len"
    using m that by (simp only: body_size_large [OF that] of_nat_diff of_nat_numeral)
  show "unat len < 4 \<Longrightarrow> body_size len = 4294967292 + unat len" by (rule body_size_small)
qed

theorem read_message_buffer_witness:
  "int (body_size 9) \<le> 9 - 4 \<and> body_size 0 = 4294967292"
proof -
  have "\<not> too_long 9 9" "\<not> too_long 9 0" by (simp_all add: too_long_def)
  then show ?thesis
    using read_message_buffer(1) [of 9 9] read_message_buffer(2) [of 9 0] by simp
qed

end
