(* ===== verification/Traces.thy ===== *)
theory Traces
  imports Main
begin

text \<open>
  What a sequence of events gives rise to, said from the events and not from the state that the steps
  keep: \<open>along f es\<close> is what the events of \<open>es\<close> contribute, each judged by the events before it. The
  specifications of the components that answer or hand out something later are written with it.
\<close>

definition along :: "('e list \<Rightarrow> 'e \<Rightarrow> 'b list) \<Rightarrow> 'e list \<Rightarrow> 'b list" where
  "along f es = concat (map (\<lambda>i. f (take i es) (es ! i)) [0..<length es])"

lemma along_Nil [simp]: "along f [] = []"
  by (simp add: along_def)

lemma along_snoc [simp]: "along f (es @ [e]) = along f es @ f es e"
proof -
  have m: "map (\<lambda>i. f (take i (es @ [e])) ((es @ [e]) ! i)) [0..<length es] = map (\<lambda>i. f (take i es) (es ! i)) [0..<length es]"
    by (simp add: nth_append)
  have "along f (es @ [e]) =
      concat (map (\<lambda>i. f (take i (es @ [e])) ((es @ [e]) ! i)) [0..<length es] @ [f es e])"
    unfolding along_def by simp
  then show ?thesis unfolding m by (simp add: along_def)
qed

lemma set_along: "set (along f es) = (\<Union>i < length es. set (f (take i es) (es ! i)))"
  by (auto simp: along_def)

text \<open>The value of the last event that has one.\<close>

definition latest :: "('e \<Rightarrow> 'b option) \<Rightarrow> 'e list \<Rightarrow> 'b option" where
  "latest f es = (case rev (List.map_filter f es) of [] \<Rightarrow> None | v # vs \<Rightarrow> Some v)"

lemma latest_Nil [simp]: "latest f [] = None"
  by (simp add: latest_def List.map_filter_def)

lemma latest_snoc [simp]: "latest f (es @ [e]) = (case f e of None \<Rightarrow> latest f es | Some v \<Rightarrow> Some v)"
  by (simp add: latest_def List.map_filter_def split: option.split)

end
