(* ===== verification/Accesspoint.thy ===== *)
theory Accesspoint
  imports Interfaces ApConn Traces "HOL-Library.AList"
begin

text \<open>
  The access point connection above its frames (\<open>ap/ap.go\<close>, \<open>ap/packets.go\<close>): the attempts of
  \<open>Connect\<close>, the answer to the login, the goroutine that reads packets and hands them to the channels
  of their receivers, the pong watchdog and the reconnection.

  The connections are numbered: \<open>ap_conn\<close> is the current one, \<open>ap_enc\<close> the one of \<open>encConn\<close>, which an
  attempt that fails early leaves behind. A channel is a number; it has no buffer, so the read loop stays in \<open>ApDelivering\<close> until the
  receiver of the packet takes it. \<open>connMu\<close> is held by a connection attempt: what wants to close the
  connection meanwhile is done when the attempt has ended (\<open>ap_closer\<close>). \<open>backoff\<close> is described by
  its documented effect: a pause between attempts, and at most five retries in \<open>Connect\<close>. What the
  network does and what a handshake ends in are arguments of the steps.
\<close>

subsection \<open>Packets\<close>

definition packet_ping :: byte where "packet_ping = 0x04"
definition packet_pong :: byte where "packet_pong = 0x49"
definition packet_pong_ack :: byte where "packet_pong_ack = 0x4a"
definition packet_ap_welcome :: byte where "packet_ap_welcome = 0xac"
definition packet_auth_failure :: byte where "packet_auth_failure = 0xad"

definition pong_ack_interval :: duration where "pong_ack_interval = seconds 120"

subsection \<open>The connection\<close>

datatype ap_place =
  ApNotStarted | ApReading | ApDelivering "nat list" packet | ApReconnecting | ApSleeping | ApEnded | ApCrashed

text \<open>\<open>ap_sent\<close> and \<open>ap_got\<close> are ghosts: the packets written and the deliveries that were taken.\<close>

record accesspoint =
  ap_done :: bool
  ap_place :: ap_place
  ap_chans :: "(byte \<times> nat list) list"
  ap_next_chan :: nat
  ap_closed_chans :: "nat list"
  ap_conn :: "nat option"
  ap_conns :: nat
  ap_closed_conns :: "nat list"
  ap_closer :: bool
  ap_enc :: "nat option"
  ap_last_ack :: instant
  ap_welcome :: bool
  ap_sent :: "packet list"
  ap_got :: "(nat \<times> packet) list"

definition new_accesspoint :: accesspoint where
  "new_accesspoint = \<lparr>ap_done = False, ap_place = ApNotStarted, ap_chans = [], ap_next_chan = 0,
     ap_closed_chans = [], ap_conn = None, ap_conns = 0, ap_closed_conns = [], ap_closer = False,
     ap_enc = None, ap_last_ack = 0, ap_welcome = False, ap_sent = [], ap_got = []\<rparr>"

definition ap_close_conn :: "accesspoint \<Rightarrow> accesspoint" where
  "ap_close_conn a =
     (case ap_conn a of None \<Rightarrow> a | Some c \<Rightarrow> a\<lparr>ap_closed_conns := List.insert c (ap_closed_conns a)\<rparr>)"

definition ap_request_close :: "accesspoint \<Rightarrow> accesspoint" where
  "ap_request_close a = (if ap_place a = ApReconnecting then a\<lparr>ap_closer := True\<rparr> else ap_close_conn a)"

text \<open>Packets go over the connection that \<open>encConn\<close> was made for.\<close>

definition ap_alive :: "accesspoint \<Rightarrow> bool" where
  "ap_alive a \<longleftrightarrow> (case ap_enc a of None \<Rightarrow> False | Some c \<Rightarrow> c \<notin> set (ap_closed_conns a))"

text \<open>The dials of \<open>init\<close>: at most six, each with an address of its own; the value says whether one
  succeeded and how many were made. A missing outcome is a failure.\<close>

fun init_dials :: "nat \<Rightarrow> bool list \<Rightarrow> bool \<times> nat" where
  "init_dials attempts [] = (False, 6)"
| "init_dials attempts (ok # oks) =
     (if ok then (True, Suc attempts)
      else if Suc attempts \<ge> 6 then (False, Suc attempts)
      else init_dials (Suc attempts) oks)"

text \<open>How a login attempt ends after the dials: the exchange of keys fails, the packet of the login
  is not answered, it is answered by an unencrypted response, by a packet.\<close>

datatype login_reply =
  NoKeys | NoAnswer | ChallengeFailed | LoginPacket byte bool

datatype login_error = LoginRefused | LoginFailed

text \<open>\<open>authenticate\<close> with the reply; the flag of a packet says whether its message can be read.\<close>

definition authenticate :: "login_reply \<Rightarrow> login_error option" where
  "authenticate r =
     (case r of
        NoKeys \<Rightarrow> Some LoginFailed
      | NoAnswer \<Rightarrow> Some LoginFailed
      | ChallengeFailed \<Rightarrow> Some LoginRefused
      | LoginPacket ty readable \<Rightarrow>
          if ty = packet_ap_welcome then (if readable then None else Some LoginFailed)
          else if ty = packet_auth_failure then (if readable then Some LoginRefused else Some LoginFailed)
          else Some LoginFailed)"

text \<open>\<open>connect\<close>: one attempt. The previous connection is closed once a dial succeeded.\<close>

definition ap_connect_once :: "bool list \<times> login_reply \<Rightarrow> accesspoint \<Rightarrow> login_error option \<times> accesspoint" where
  "ap_connect_once env a =
     (case env of (dials, reply) \<Rightarrow>
        if \<not> fst (init_dials 0 dials) then (Some LoginFailed, a)
        else
          let a1 = (ap_close_conn a)\<lparr>ap_conn := Some (ap_conns a), ap_conns := Suc (ap_conns a)\<rparr>;
              a2 = (if reply = NoKeys then a1 else a1\<lparr>ap_enc := Some (ap_conns a)\<rparr>)
          in case authenticate reply of
               Some e \<Rightarrow> (Some e, a2)
             | None \<Rightarrow> (None, a2\<lparr>ap_welcome := True\<rparr>))"

text \<open>\<open>Connect\<close>: the attempt and its retries; an attempt that has no outcome left is cut short by the
  context. The numbers are those of the attempts made.\<close>

fun ap_retry :: "nat \<Rightarrow> (bool list \<times> login_reply) list \<Rightarrow> accesspoint \<Rightarrow> login_error option \<times> nat \<times> accesspoint" where
  "ap_retry n [] a = (Some LoginFailed, 0, a)"
| "ap_retry n (env # envs) a =
     (case ap_connect_once env a of
        (None, a1) \<Rightarrow> (None, 1, a1)
      | (Some e, a1) \<Rightarrow>
          (case n of
             0 \<Rightarrow> (Some e, 1, a1)
           | Suc m \<Rightarrow>
               if envs = [] then (Some e, 1, a1)
               else (case ap_retry m envs a1 of (r, k, a2) \<Rightarrow> (r, Suc k, a2))))"

definition ap_connect :: "(bool list \<times> login_reply) list \<Rightarrow> accesspoint \<Rightarrow> unit outcome \<times> accesspoint" where
  "ap_connect envs a =
     (if ap_done a then (Fail ''accesspoint closed'', a)
      else case ap_retry 5 envs a of
             (None, _, a1) \<Rightarrow> (Return (), a1)
           | (Some e, _, a1) \<Rightarrow> (Fail ''connect'', a1))"

subsection \<open>The users of the connection\<close>

definition ap_close :: "accesspoint \<Rightarrow> accesspoint" where
  "ap_close a = (if ap_done a then a else ap_request_close (a\<lparr>ap_done := True\<rparr>))"

definition ap_send :: "bool \<Rightarrow> packet \<Rightarrow> accesspoint \<Rightarrow> unit outcome \<times> accesspoint" where
  "ap_send ok pkt a =
     (if ap_done a then (Fail ''accesspoint closed'', a)
      else if ap_enc a = None then (Panic ''nil encConn'', a)
      else if ok \<and> ap_alive a then (Return (), a\<lparr>ap_sent := ap_sent a @ [pkt]\<rparr>)
      else (Fail ''send'', a))"

definition chans_of :: "byte \<Rightarrow> accesspoint \<Rightarrow> nat list" where
  "chans_of ty a = (case map_of (ap_chans a) ty of None \<Rightarrow> [] | Some cs \<Rightarrow> cs)"

definition add_chan :: "nat \<Rightarrow> byte \<Rightarrow> (byte \<times> nat list) list \<Rightarrow> (byte \<times> nat list) list" where
  "add_chan c ty m = AList.update ty ((case map_of m ty of None \<Rightarrow> [] | Some cs \<Rightarrow> cs) @ [c]) m"

text \<open>The channel of a closed access point is closed.\<close>

definition ap_receive :: "instant \<Rightarrow> byte list \<Rightarrow> accesspoint \<Rightarrow> nat \<times> accesspoint" where
  "ap_receive now types a =
     (let c = ap_next_chan a; a1 = a\<lparr>ap_next_chan := Suc c\<rparr>
      in if ap_done a then (c, a1\<lparr>ap_closed_chans := ap_closed_chans a @ [c]\<rparr>)
         else
           let a2 = a1\<lparr>ap_chans := fold (add_chan c) types (ap_chans a)\<rparr>
           in (c, if ap_place a = ApNotStarted
                  then a2\<lparr>ap_place := ApReading, ap_last_ack := now + pong_ack_interval\<rparr> else a2))"

text \<open>A tick of the watchdog.\<close>

definition ap_tick :: "instant \<Rightarrow> accesspoint \<Rightarrow> accesspoint" where
  "ap_tick now a =
     (if ap_done a \<or> ap_place a = ApNotStarted then a
      else if time_sub now (ap_last_ack a) > pong_ack_interval then ap_request_close a
      else a)"

subsection \<open>The read loop\<close>

text \<open>The channels of all types, each once.\<close>

definition all_chans :: "accesspoint \<Rightarrow> nat list" where
  "all_chans a = remdups (concat (map snd (ap_chans a)))"

definition ap_end :: "accesspoint \<Rightarrow> accesspoint" where
  "ap_end a = a\<lparr>ap_place := ApEnded, ap_closed_chans := ap_closed_chans a @ all_chans a\<rparr>"

definition ap_leave :: "accesspoint \<Rightarrow> accesspoint" where
  "ap_leave a = (let a1 = ap_close_conn a in if ap_done a then ap_end a1 else a1\<lparr>ap_place := ApReconnecting\<rparr>)"

text \<open>A read: \<open>None\<close> is an error of the connection or of a frame. \<open>send_ok\<close> tells whether a pong goes
  out.\<close>

definition ap_read :: "instant \<Rightarrow> bool \<Rightarrow> packet option \<Rightarrow> accesspoint \<Rightarrow> accesspoint" where
  "ap_read now send_ok r a =
     (if ap_place a \<noteq> ApReading then a
      else if ap_done a then ap_leave a
      else if ap_enc a = None then a\<lparr>ap_place := ApCrashed\<rparr>
      else case (if ap_alive a then r else None) of
             None \<Rightarrow> ap_leave a
           | Some (ty, payload) \<Rightarrow>
               if ty = packet_ping then
                 (case ap_send send_ok (packet_pong, payload) a of
                    (Return _, a1) \<Rightarrow> a1
                  | (_, a1) \<Rightarrow> ap_leave a1)
               else if ty = packet_pong_ack then a\<lparr>ap_last_ack := now\<rparr>
               else
                 let cs = chans_of ty a; pkt = (ty, payload)
                 in a\<lparr>ap_place := (if cs = [] then ApReading else ApDelivering cs pkt)\<rparr>)"

text \<open>The receiver of the first channel takes the packet.\<close>

definition ap_take :: "accesspoint \<Rightarrow> accesspoint" where
  "ap_take a =
     (case ap_place a of
        ApDelivering (c # cs) pkt \<Rightarrow>
          a\<lparr>ap_got := ap_got a @ [(c, pkt)],
            ap_place := (if cs = [] then ApReading else ApDelivering cs pkt)\<rparr>
      | _ \<Rightarrow> a)"

text \<open>The end of an attempt to reconnect, and the end of the pause after a failed one.\<close>

definition ap_reconnect :: "instant \<Rightarrow> bool list \<times> login_reply \<Rightarrow> accesspoint \<Rightarrow> accesspoint" where
  "ap_reconnect now env a =
     (if ap_place a \<noteq> ApReconnecting then a
      else
        let (err, a1) = (if ap_welcome a then ap_connect_once env a else (Some LoginFailed, a));
            a2 = (if err = None then a1\<lparr>ap_place := ApReading, ap_last_ack := now + pong_ack_interval\<rparr>
                  else a1\<lparr>ap_place := ApSleeping\<rparr>)
        in if ap_closer a then (ap_close_conn a2)\<lparr>ap_closer := False\<rparr> else a2)"

definition ap_wake :: "bool \<Rightarrow> accesspoint \<Rightarrow> accesspoint" where
  "ap_wake timer a =
     (if ap_place a \<noteq> ApSleeping then a
      else if timer then a\<lparr>ap_place := ApReconnecting\<rparr>
      else if ap_done a then ap_end a
      else a)"

subsection \<open>The events\<close>

datatype ap_event =
  ApConnect "(bool list \<times> login_reply) list"
| ApClose
| ApSend bool packet
| ApReceive instant "byte list"
| ApTick instant
| ApRead instant bool "packet option"
| ApTake
| ApReconnect instant "bool list \<times> login_reply"
| ApWake bool

primrec ap_step :: "accesspoint \<Rightarrow> ap_event \<Rightarrow> accesspoint" where
  "ap_step a (ApConnect envs) = (if ap_place a = ApReconnecting then a else snd (ap_connect envs a))"
| "ap_step a ApClose = ap_close a"
| "ap_step a (ApSend ok pkt) = (if ap_place a = ApReconnecting then a else snd (ap_send ok pkt a))"
| "ap_step a (ApReceive now types) = (if ap_place a = ApReconnecting then a else snd (ap_receive now types a))"
| "ap_step a (ApTick now) = ap_tick now a"
| "ap_step a (ApRead now ok r) = ap_read now ok r a"
| "ap_step a ApTake = ap_take a"
| "ap_step a (ApReconnect now env) = ap_reconnect now env a"
| "ap_step a (ApWake timer) = ap_wake timer a"

definition ap_run :: "ap_event list \<Rightarrow> accesspoint" where
  "ap_run es = foldl ap_step new_accesspoint es"


subsection \<open>Deliveries and channels\<close>

text \<open>The deliveries that the read loop still owes.\<close>

definition ap_pending :: "accesspoint \<Rightarrow> (nat \<times> packet) list" where
  "ap_pending a = (case ap_place a of ApDelivering cs pkt \<Rightarrow> map (\<lambda>c. (c, pkt)) cs | _ \<Rightarrow> [])"

definition ids_in :: "(byte \<times> nat list) list \<Rightarrow> nat set" where
  "ids_in m = \<Union> (set ` snd ` set m)"

definition chan_ids :: "accesspoint \<Rightarrow> nat set" where
  "chan_ids a = ids_in (ap_chans a)"

definition channels_ok :: "accesspoint \<Rightarrow> bool" where
  "channels_ok a \<longleftrightarrow>
     distinct (ap_closed_chans a) \<and>
     (\<forall>c \<in> set (ap_closed_chans a). c < ap_next_chan a) \<and>
     (\<forall>c \<in> chan_ids a. c < ap_next_chan a) \<and>
     (ap_place a \<noteq> ApEnded \<longrightarrow> chan_ids a \<inter> set (ap_closed_chans a) = {}) \<and>
     (\<forall>q \<in> set (ap_pending a). fst q \<in> chan_ids a) \<and>
     (ap_closed_chans a \<noteq> [] \<longrightarrow> ap_done a) \<and>
     (ap_place a = ApEnded \<longrightarrow> ap_done a)"

text \<open>What a step that has to do with the connection only leaves alone.\<close>

definition same_channels :: "accesspoint \<Rightarrow> accesspoint \<Rightarrow> bool" where
  "same_channels a b \<longleftrightarrow> ap_got b = ap_got a \<and> ap_chans b = ap_chans a \<and>
     ap_next_chan b = ap_next_chan a \<and> ap_closed_chans b = ap_closed_chans a \<and> ap_done b = ap_done a"

lemma same_channels_refl [simp]: "same_channels a a"
  by (simp add: same_channels_def)

lemma same_channels_ok:
  "same_channels a b \<Longrightarrow> ap_pending b = ap_pending a \<Longrightarrow> (ap_place b = ApEnded) = (ap_place a = ApEnded) \<Longrightarrow>
    channels_ok b = channels_ok a"
  by (simp add: same_channels_def channels_ok_def chan_ids_def)

lemma ap_close_conn_same [simp]:
  "same_channels a (ap_close_conn a)" "ap_place (ap_close_conn a) = ap_place a" "ap_done (ap_close_conn a) = ap_done a"
  "ap_pending (ap_close_conn a) = ap_pending a" "ap_conns (ap_close_conn a) = ap_conns a"
  "ap_conn (ap_close_conn a) = ap_conn a" "ap_enc (ap_close_conn a) = ap_enc a"
  "ap_welcome (ap_close_conn a) = ap_welcome a" "ap_closer (ap_close_conn a) = ap_closer a"
  "ap_last_ack (ap_close_conn a) = ap_last_ack a"
  by (simp_all add: ap_close_conn_def same_channels_def ap_pending_def split: option.split)

lemma ap_request_close_same [simp]:
  "same_channels a (ap_request_close a)" "ap_place (ap_request_close a) = ap_place a"
  by (simp_all add: ap_request_close_def) (simp add: same_channels_def)

lemma ap_connect_once_same:
  "same_channels a (snd (ap_connect_once env a)) \<and> ap_place (snd (ap_connect_once env a)) = ap_place a \<and>
   ap_closer (snd (ap_connect_once env a)) = ap_closer a"
  using ap_close_conn_same(1) [of a]
  by (auto simp: ap_connect_once_def Let_def same_channels_def split: prod.split option.split)

lemma same_channels_trans: "same_channels a b \<Longrightarrow> same_channels b c \<Longrightarrow> same_channels a c"
  by (simp add: same_channels_def)

lemma ap_retry_same:
  "same_channels a (snd (snd (ap_retry n envs a))) \<and> ap_place (snd (snd (ap_retry n envs a))) = ap_place a"
proof (induction envs arbitrary: n a)
  case (Cons env envs)
  obtain r a1 where r: "ap_connect_once env a = (r, a1)" by (cases "ap_connect_once env a")
  then have a1: "same_channels a a1 \<and> ap_place a1 = ap_place a" using ap_connect_once_same [of a env] by simp
  have "same_channels a (snd (snd (ap_retry m envs a1))) \<and> ap_place (snd (snd (ap_retry m envs a1))) = ap_place a" for m
    using Cons.IH [of a1 m] a1 same_channels_trans [of a a1] by simp
  with a1 r show ?case by (cases r; cases n) (simp_all add: case_prod_beta)
qed simp

lemma ap_pending_place: "ap_place b = ap_place a \<Longrightarrow> ap_pending b = ap_pending a"
  by (simp add: ap_pending_def)

lemma ap_connect_ok: "channels_ok a \<Longrightarrow> channels_ok (snd (ap_connect envs a))"
  using ap_retry_same [of a 5 envs] same_channels_ok [of a "snd (snd (ap_retry 5 envs a))"]
    ap_pending_place [of "snd (snd (ap_retry 5 envs a))" a]
  by (auto simp: ap_connect_def split: prod.splits option.splits)

lemma ap_send_same: "same_channels a (snd (ap_send ok pkt a)) \<and> ap_place (snd (ap_send ok pkt a)) = ap_place a"
  by (simp add: ap_send_def same_channels_def)

lemma ap_send_ok: "channels_ok a \<Longrightarrow> channels_ok (snd (ap_send ok pkt a))"
  using ap_send_same [of a ok pkt] same_channels_ok [of a "snd (ap_send ok pkt a)"]
    ap_pending_place [of "snd (ap_send ok pkt a)" a] by simp

lemma ap_close_ok: "channels_ok a \<Longrightarrow> channels_ok (ap_close a)"
proof -
  have "channels_ok a \<Longrightarrow> channels_ok (a\<lparr>ap_done := True\<rparr>)"
    by (simp add: channels_ok_def chan_ids_def ap_pending_def)
  then show "channels_ok a \<Longrightarrow> channels_ok (ap_close a)"
    using same_channels_ok [of "a\<lparr>ap_done := True\<rparr>" "ap_request_close (a\<lparr>ap_done := True\<rparr>)"]
      ap_pending_place [of "ap_request_close (a\<lparr>ap_done := True\<rparr>)" "a\<lparr>ap_done := True\<rparr>"]
    by (simp add: ap_close_def)
qed

lemma ap_tick_ok: "channels_ok a \<Longrightarrow> channels_ok (ap_tick now a)"
  using same_channels_ok [of a "ap_request_close a"] ap_pending_place [of "ap_request_close a" a]
  by (simp add: ap_tick_def)

text \<open>Registering a channel adds it to the known ones.\<close>

lemma ids_in_simps [simp]: "ids_in [] = {}" "ids_in (p # m) = set (snd p) \<union> ids_in m"
  by (auto simp: ids_in_def)

lemma ids_update_le: "ids_in (AList.update ty v m) \<subseteq> set v \<union> ids_in m"
  by (induction m) auto

lemma ids_update_ge:
  "(\<And>cs. map_of m ty = Some cs \<Longrightarrow> set cs \<subseteq> set v) \<Longrightarrow> ids_in m \<subseteq> ids_in (AList.update ty v m)"
proof (induction m)
  case (Cons p m)
  then show ?case by (cases "fst p = ty"; cases p) auto
qed simp

lemma map_of_ids: "map_of m ty = Some cs \<Longrightarrow> set cs \<subseteq> ids_in m"
  by (induction m) (auto split: if_splits)

lemma add_chan_ids: "ids_in m \<subseteq> ids_in (add_chan c ty m) \<and> ids_in (add_chan c ty m) \<subseteq> insert c (ids_in m)"
  using ids_update_le [of ty "(case map_of m ty of None \<Rightarrow> [] | Some cs \<Rightarrow> cs) @ [c]" m] map_of_ids [of m ty]
    ids_update_ge [of m ty "(case map_of m ty of None \<Rightarrow> [] | Some cs \<Rightarrow> cs) @ [c]"]
  unfolding add_chan_def by (cases "map_of m ty") auto

lemma fold_add_chan_ids:
  "ids_in m \<subseteq> ids_in (fold (add_chan c) types m) \<and> ids_in (fold (add_chan c) types m) \<subseteq> insert c (ids_in m)"
proof (induction types arbitrary: m)
  case (Cons ty types)
  show ?case using add_chan_ids [of m c ty] Cons [of "add_chan c ty m"] by auto
qed auto

lemma ap_receive_ok:
  assumes "channels_ok a"
  shows "channels_ok (snd (ap_receive now types a))"
proof (cases "ap_done a")
  case True
  with assms show ?thesis
    by (auto simp: ap_receive_def Let_def channels_ok_def chan_ids_def ap_pending_def less_Suc_eq)
next
  case False
  define a2 where "a2 = a\<lparr>ap_next_chan := Suc (ap_next_chan a), ap_chans := fold (add_chan (ap_next_chan a)) types (ap_chans a)\<rparr>"
  have ids: "chan_ids a \<subseteq> chan_ids a2" "chan_ids a2 \<subseteq> insert (ap_next_chan a) (chan_ids a)"
    unfolding chan_ids_def a2_def
    using fold_add_chan_ids [where m = "ap_chans a" and c = "ap_next_chan a" and types = types] by simp_all
  have pending: "ap_pending a2 = ap_pending a" by (simp add: a2_def ap_pending_def)
  have "ap_next_chan a \<notin> set (ap_closed_chans a)" using assms by (auto simp: channels_ok_def)
  then have "channels_ok a2"
    using assms ids False pending unfolding channels_ok_def
    by (auto simp: less_Suc_eq a2_def simp del: prod.collapse)
  moreover have "channels_ok (a2\<lparr>ap_place := ApReading, ap_last_ack := k\<rparr>)" if "ap_place a = ApNotStarted" for k
    using \<open>channels_ok a2\<close> that by (simp add: channels_ok_def chan_ids_def ap_pending_def a2_def)
  ultimately show ?thesis using False by (simp add: ap_receive_def Let_def flip: a2_def)
qed

lemma set_all_chans: "set (all_chans a) = chan_ids a"
  by (auto simp: all_chans_def chan_ids_def ids_in_def)

lemma ap_end_ok: "channels_ok a \<Longrightarrow> ap_done a \<Longrightarrow> ap_pending a = [] \<Longrightarrow> ap_place a \<noteq> ApEnded \<Longrightarrow> channels_ok (ap_end a)"
proof -
  assume a: "channels_ok a" "ap_done a" "ap_pending a = []" "ap_place a \<noteq> ApEnded"
  have "chan_ids (ap_end a) = chan_ids a" by (simp add: chan_ids_def ap_end_def)
  moreover have "distinct (all_chans a)" by (simp add: all_chans_def)
  ultimately show "channels_ok (ap_end a)"
    using a unfolding channels_ok_def
    by (auto simp: ap_end_def set_all_chans ap_pending_def [of "ap_end a"] ap_pending_def [of "a\<lparr>ap_place := p, ap_closed_chans := c\<rparr>" for p c])
qed

lemma ap_move_ok:
  assumes "channels_ok a" "ap_pending a = []" "p \<in> {ApReading, ApReconnecting, ApSleeping, ApCrashed}" "ap_place a \<noteq> ApEnded"
  shows "channels_ok (a\<lparr>ap_place := p\<rparr>)"
  using assms by (auto simp: channels_ok_def chan_ids_def ap_pending_def)

lemma ap_leave_ok:
  assumes "channels_ok a" "ap_place a = ApReading"
  shows "channels_ok (ap_leave a)"
proof -
  have "channels_ok (ap_close_conn a)" using assms(1) same_channels_ok [of a "ap_close_conn a"] by simp
  moreover have "ap_pending (ap_close_conn a) = []" using assms(2) by (simp add: ap_pending_def)
  ultimately show ?thesis
    using assms(2) ap_end_ok [of "ap_close_conn a"] ap_move_ok [of "ap_close_conn a" ApReconnecting]
    by (simp add: ap_leave_def Let_def)
qed

lemma ap_deliver_ok:
  assumes "channels_ok a" "ap_place a = ApReading"
  shows "channels_ok (a\<lparr>ap_place := (if chans_of ty a = [] then ApReading else ApDelivering (chans_of ty a) pkt)\<rparr>)"
proof -
  have "set (chans_of ty a) \<subseteq> chan_ids a"
    using map_of_ids [of "ap_chans a" ty] 
    by (cases "map_of (ap_chans a) ty") (simp_all add: chans_of_def chan_ids_def)
  with assms show ?thesis
    by (auto simp: channels_ok_def chan_ids_def ap_pending_def)
qed

lemma ap_read_ok:
  assumes "channels_ok a"
  shows "channels_ok (ap_read now ok r a)"
proof (cases "ap_place a = ApReading \<and> \<not> ap_done a \<and> ap_enc a \<noteq> None")
  case True
  then obtain e where e: "ap_enc a = Some e" by auto
  define r' where "r' = (if ap_alive a then r else None)"
  from True have *: "ap_read now ok r a = (case r' of None \<Rightarrow> ap_leave a
      | Some (ty, payload) \<Rightarrow>
               if ty = packet_ping then
                 (case ap_send ok (packet_pong, payload) a of
                    (Return _, a1) \<Rightarrow> a1
                  | (_, a1) \<Rightarrow> ap_leave a1)
               else if ty = packet_pong_ack then a\<lparr>ap_last_ack := now\<rparr>
               else
                 let cs = chans_of ty a; pkt = (ty, payload)
                 in a\<lparr>ap_place := (if cs = [] then ApReading else ApDelivering cs pkt)\<rparr>)"
    unfolding ap_read_def r'_def using e by simp
  have "channels_ok (a\<lparr>ap_last_ack := now\<rparr>)"
    using assms by (simp add: channels_ok_def chan_ids_def ap_pending_def)
  moreover have "channels_ok (case ap_send ok pkt a of (Return _, a1) \<Rightarrow> a1 | (_, a1) \<Rightarrow> ap_leave a1)" for pkt
    using ap_send_ok [OF assms, of ok pkt] ap_send_same [of a ok pkt] True ap_leave_ok [of "snd (ap_send ok pkt a)"]
    by (auto split: prod.splits outcome.splits)
  ultimately show ?thesis
    unfolding * using ap_leave_ok [OF assms] ap_deliver_ok [OF assms] True
    by (simp add: Let_def split: option.split prod.split)
next
  case False
  then show ?thesis
    using assms ap_leave_ok [OF assms] ap_move_ok [OF assms, of ApCrashed]
    by (auto simp: ap_read_def ap_pending_def)
qed

lemma ap_take_ok: "channels_ok a \<Longrightarrow> channels_ok (ap_take a)"
proof (cases "ap_place a")
  case (ApDelivering cs pkt)
  assume a: "channels_ok a"
  have "chan_ids (ap_take a) = chan_ids a" by (simp add: ap_take_def chan_ids_def split: ap_place.split list.split)
  with a ApDelivering show ?thesis
    unfolding channels_ok_def by (cases cs) (auto simp: ap_take_def ap_pending_def)
qed (simp_all add: ap_take_def)

lemma ap_wake_ok: "channels_ok a \<Longrightarrow> channels_ok (ap_wake timer a)"
  using ap_end_ok [of a] ap_move_ok [of a ApReconnecting] by (auto simp: ap_wake_def ap_pending_def)

lemma ap_reconnect_ok:
  assumes "channels_ok a"
  shows "channels_ok (ap_reconnect now env a)"
proof (cases "ap_place a = ApReconnecting")
  case False
  with assms show ?thesis by (simp add: ap_reconnect_def)
next
  case True
  obtain err a1 where e: "(if ap_welcome a then ap_connect_once env a else (Some LoginFailed, a)) = (err, a1)"
    by (cases "if ap_welcome a then ap_connect_once env a else (Some LoginFailed, a)")
  then have s: "same_channels a a1" "ap_place a1 = ap_place a"
    using ap_connect_once_same [of a env] by (auto split: if_splits)
  then have ok1: "channels_ok a1" "ap_pending a1 = []"
    using assms True same_channels_ok [of a a1] by (simp_all add: ap_pending_def)
  define a2 where "a2 = (if err = None then a1\<lparr>ap_place := ApReading, ap_last_ack := now + pong_ack_interval\<rparr>
                  else a1\<lparr>ap_place := ApSleeping\<rparr>)"
  have "channels_ok a2"
    using ok1 s True by (auto simp: a2_def channels_ok_def chan_ids_def ap_pending_def)
  moreover have "channels_ok ((ap_close_conn a2)\<lparr>ap_closer := False\<rparr>) = channels_ok (ap_close_conn a2)"
    by (simp add: channels_ok_def chan_ids_def ap_pending_def)
  ultimately show ?thesis
    using True e same_channels_ok [of a2 "ap_close_conn a2"] by (simp add: ap_reconnect_def flip: a2_def)
qed

lemma ap_step_ok: "channels_ok a \<Longrightarrow> channels_ok (ap_step a e)"
  by (cases e)
    (simp_all add: ap_connect_ok ap_close_ok ap_send_ok ap_receive_ok ap_tick_ok ap_read_ok ap_take_ok
      ap_reconnect_ok ap_wake_ok)

subsection \<open>The connections\<close>

definition conns_ok :: "accesspoint \<Rightarrow> bool" where
  "conns_ok a \<longleftrightarrow>
     (\<forall>c \<in> set (ap_closed_conns a). c < ap_conns a) \<and>
     (\<forall>c. ap_conn a = Some c \<longrightarrow> c < ap_conns a) \<and>
     (\<forall>c. ap_enc a = Some c \<longrightarrow> c < ap_conns a \<and> (ap_conn a = Some c \<or> c \<in> set (ap_closed_conns a))) \<and>
     (ap_closer a \<longrightarrow> ap_place a = ApReconnecting)"

definition same_conns :: "accesspoint \<Rightarrow> accesspoint \<Rightarrow> bool" where
  "same_conns a b \<longleftrightarrow> ap_closed_conns b = ap_closed_conns a \<and> ap_conn b = ap_conn a \<and> ap_conns b = ap_conns a \<and>
     ap_enc b = ap_enc a \<and> ap_closer b = ap_closer a"

lemma same_conns_ok: "same_conns a b \<Longrightarrow> (ap_closer a \<longrightarrow> ap_place b = ApReconnecting) \<Longrightarrow> conns_ok a \<Longrightarrow> conns_ok b"
  by (simp add: same_conns_def conns_ok_def)

lemma conns_ok_close_conn [intro]: "conns_ok a \<Longrightarrow> conns_ok (ap_close_conn a)"
  by (cases "ap_conn a") (auto simp: ap_close_conn_def conns_ok_def)

lemma conns_ok_request_close [intro]: "conns_ok a \<Longrightarrow> conns_ok (ap_request_close a)"
  using conns_ok_close_conn [of a] by (simp add: ap_request_close_def) (simp add: conns_ok_def)

lemma conns_ok_once: "conns_ok a \<Longrightarrow> conns_ok (snd (ap_connect_once env a))"
proof -
  assume a: "conns_ok a"
  let ?a1 = "(ap_close_conn a)\<lparr>ap_conn := Some (ap_conns a), ap_conns := Suc (ap_conns a)\<rparr>"
  have "conns_ok (?a1\<lparr>ap_enc := e\<rparr>)" if "e = ap_enc a \<or> e = Some (ap_conns a)" for e
    using a that by (cases "ap_conn a"; cases "ap_enc a") (auto simp: ap_close_conn_def conns_ok_def less_Suc_eq)
  from this [of "ap_enc a"] this [of "Some (ap_conns a)"]
  have "conns_ok ?a1" "conns_ok (?a1\<lparr>ap_enc := Some (ap_conns a)\<rparr>)"
    by (simp_all add: conns_ok_def)
  moreover have "conns_ok (b\<lparr>ap_welcome := True\<rparr>) = conns_ok b" for b :: accesspoint
    by (simp add: conns_ok_def)
  ultimately show ?thesis
    using a by (cases "authenticate (snd env)"; cases "snd env = NoKeys") (simp_all add: ap_connect_once_def case_prod_beta)
qed

lemma conns_ok_retry: "conns_ok a \<Longrightarrow> conns_ok (snd (snd (ap_retry n envs a)))"
proof (induction envs arbitrary: n a)
  case (Cons env envs)
  obtain r a1 where r: "ap_connect_once env a = (r, a1)" by (cases "ap_connect_once env a")
  then have a1: "conns_ok a1" using conns_ok_once [OF Cons.prems, of env] by simp
  then have "conns_ok (snd (snd (ap_retry m envs a1)))" for m by (rule Cons.IH)
  with a1 r show ?case by (cases r; cases n) (simp_all add: case_prod_beta)
qed simp

lemma conns_ok_place: "conns_ok a \<Longrightarrow> \<not> ap_closer a \<Longrightarrow> conns_ok (a\<lparr>ap_place := p\<rparr>)"
  by (simp add: conns_ok_def)

lemma conns_ok_leave: "conns_ok a \<Longrightarrow> ap_place a = ApReading \<Longrightarrow> conns_ok (ap_leave a)"
  using conns_ok_close_conn [of a] by (auto simp: ap_leave_def ap_end_def Let_def conns_ok_def)

lemma conns_ok_send: "conns_ok a \<Longrightarrow> conns_ok (snd (ap_send ok pkt a))"
  by (simp add: ap_send_def conns_ok_def)

lemma ap_read_cases:
  obtains "ap_read now ok r a = a"
    | "ap_place a = ApReading" "ap_read now ok r a = ap_leave a"
    | "ap_place a = ApReading" "same_conns a (ap_read now ok r a)"
proof (cases "ap_place a = ApReading \<and> \<not> ap_done a \<and> ap_enc a \<noteq> None")
  case True
  define p where "p = (if ap_alive a then r else None)"
  show ?thesis
  proof (cases p)
    case None
    with True have "ap_read now ok r a = ap_leave a" by (auto simp: ap_read_def p_def)
    with True that show ?thesis by blast
  next
    case (Some pkt)
    obtain ty payload where pkt: "pkt = (ty, payload)" by (cases pkt)
    have alive: "ap_alive a" using Some by (simp add: p_def split: if_splits)
    from True obtain e where e: "ap_enc a = Some e" by auto
    from True Some pkt e have *: "ap_read now ok r a =
        (if ty = packet_ping then
           (case ap_send ok (packet_pong, payload) a of (Return _, a1) \<Rightarrow> a1 | (_, a1) \<Rightarrow> ap_leave a1)
         else if ty = packet_pong_ack then a\<lparr>ap_last_ack := now\<rparr>
         else a\<lparr>ap_place := (if chans_of ty a = [] then ApReading else ApDelivering (chans_of ty a) pkt)\<rparr>)"
      unfolding ap_read_def by (simp add: Let_def flip: p_def)
    consider "ty = packet_ping" "ok" | "ty = packet_ping" "\<not> ok" | "ty \<noteq> packet_ping" by blast
    then show ?thesis
    proof cases
      case 1
      with * True e alive have "ap_read now ok r a = a\<lparr>ap_sent := ap_sent a @ [(packet_pong, payload)]\<rparr>"
        by (simp add: ap_send_def)
      with True that(3) show ?thesis by (simp add: same_conns_def)
    next
      case 2
      with * True e have "ap_read now ok r a = ap_leave a" by (simp add: ap_send_def)
      with True that(2) show ?thesis by blast
    next
      case 3
      with * True that(3) show ?thesis by (simp add: same_conns_def)
    qed
  qed
next
  case False
  then consider "ap_place a \<noteq> ApReading" | "ap_place a = ApReading" "ap_done a"
    | "ap_place a = ApReading" "\<not> ap_done a" "ap_enc a = None" by blast
  then show ?thesis
  proof cases
    case 1
    with that(1) show ?thesis by (simp add: ap_read_def)
  next
    case 2
    with that(2) show ?thesis by (simp add: ap_read_def)
  next
    case 3
    with that(3) show ?thesis by (simp add: ap_read_def same_conns_def)
  qed
qed

lemma conns_ok_read: "conns_ok a \<Longrightarrow> conns_ok (ap_read now ok r a)"
  by (cases rule: ap_read_cases [of now ok r a])
    (auto intro: conns_ok_leave same_conns_ok simp: conns_ok_def [of a])

lemma conns_ok_reconnect:
  assumes "conns_ok a"
  shows "conns_ok (ap_reconnect now env a)"
proof (cases "ap_place a = ApReconnecting")
  case False
  with assms show ?thesis by (simp add: ap_reconnect_def)
next
  case True
  obtain err a1 where e: "(if ap_welcome a then ap_connect_once env a else (Some LoginFailed, a)) = (err, a1)"
    by (cases "if ap_welcome a then ap_connect_once env a else (Some LoginFailed, a)")
  then have s: "conns_ok a1" "ap_closer a1 = ap_closer a"
    using conns_ok_once [OF assms, of env] ap_connect_once_same [of a env] assms by (auto split: if_splits)
  define a2 where "a2 = (if err = None then a1\<lparr>ap_place := ApReading, ap_last_ack := now + pong_ack_interval\<rparr>
                  else a1\<lparr>ap_place := ApSleeping\<rparr>)"
  have a2: "conns_ok (a2\<lparr>ap_closer := False\<rparr>)" "\<not> ap_closer a \<Longrightarrow> conns_ok a2"
    using s by (auto simp: a2_def conns_ok_def)
  have "(ap_close_conn a2)\<lparr>ap_closer := False\<rparr> = ap_close_conn (a2\<lparr>ap_closer := False\<rparr>)"
    by (simp add: ap_close_conn_def split: option.split)
  then show ?thesis
    using True e a2 conns_ok_close_conn [OF a2(1)] by (simp add: ap_reconnect_def flip: a2_def)
qed

lemma conns_ok_step:
  assumes "conns_ok a"
  shows "conns_ok (ap_step a e)"
proof (cases e)
  case (ApConnect envs)
  with assms conns_ok_retry [OF assms, of 5 envs] show ?thesis
    by (cases "ap_retry 5 envs a"; cases "fst (ap_retry 5 envs a)") (simp_all add: ap_connect_def)
next
  case ApClose
  have "conns_ok (a\<lparr>ap_done := True\<rparr>)" using assms by (simp add: conns_ok_def)
  with ApClose assms show ?thesis by (auto simp: ap_close_def)
next
  case (ApReceive now types)
  with assms show ?thesis by (auto simp: ap_receive_def Let_def conns_ok_def)
next
  case ApTake
  with assms show ?thesis by (auto simp: ap_take_def conns_ok_def split: ap_place.split list.split)
next
  case (ApWake timer)
  with assms show ?thesis by (auto simp: ap_wake_def ap_end_def conns_ok_def)
qed (use assms in \<open>auto simp: ap_tick_def intro: conns_ok_send conns_ok_read conns_ok_reconnect\<close>)

definition accesspoint_ok :: "accesspoint \<Rightarrow> bool" where
  "accesspoint_ok a \<longleftrightarrow> channels_ok a \<and> conns_ok a"

interpretation accesspoint: invariant_machine ap_step accesspoint_ok
  by unfold_locales (simp add: accesspoint_ok_def ap_step_ok conns_ok_step)

lemma ap_run_ok: "accesspoint_ok (ap_run es)"
  unfolding ap_run_def
  by (rule accesspoint.run_inv)
    (simp add: new_accesspoint_def accesspoint_ok_def conns_ok_def channels_ok_def chan_ids_def ap_pending_def)


subsection \<open>Properties\<close>

text \<open>What the events say about deliveries. A call of \<open>Receive\<close> subscribes the channel that it returns,
  once for each mention of the type; a read packet of any type but a ping and a pong acknowledgement is
  owed to every channel subscribed to its type before, in the order of the subscriptions.\<close>

definition subscribes :: "byte \<Rightarrow> ap_event list \<Rightarrow> ap_event \<Rightarrow> nat list" where
  "subscribes ty es e =
     (case e of
        ApReceive now types \<Rightarrow>
          if ap_place (ap_run es) = ApReconnecting \<or> ap_done (ap_run es) then []
          else replicate (length (filter ((=) ty) types)) (fst (ap_receive now types (ap_run es)))
      | _ \<Rightarrow> [])"

definition packets_read :: "ap_event list \<Rightarrow> ap_event \<Rightarrow> packet list" where
  "packets_read es e =
     (case e of
        ApRead now ok (Some pkt) \<Rightarrow>
          if ap_place (ap_run es) = ApReading \<and> \<not> ap_done (ap_run es) \<and> ap_alive (ap_run es) \<and>
             fst pkt \<noteq> packet_ping \<and> fst pkt \<noteq> packet_pong_ack
          then [pkt] else []
      | _ \<Rightarrow> [])"

definition owed :: "ap_event list \<Rightarrow> (nat \<times> packet) list" where
  "owed = along (\<lambda>es e. concat (map (\<lambda>pkt. map (\<lambda>c. (c, pkt)) (along (subscribes (fst pkt)) es)) (packets_read es e)))"

lemma ap_run_snoc [simp]: "ap_run (es @ [e]) = ap_step (ap_run es) e"
  by (simp add: ap_run_def)

lemma chans_of_same: "same_channels a b \<Longrightarrow> chans_of ty b = chans_of ty a"
  by (simp add: same_channels_def chans_of_def)

lemma got_same: "same_channels a b \<Longrightarrow> ap_got b = ap_got a"
  by (simp add: same_channels_def)

lemma map_of_add_chan:
  "(case map_of (add_chan c ty m) ty' of None \<Rightarrow> [] | Some cs \<Rightarrow> cs) =
   (case map_of m ty' of None \<Rightarrow> [] | Some cs \<Rightarrow> cs) @ (if ty' = ty then [c] else [])"
  by (simp add: add_chan_def update_conv')

lemma map_of_fold_add_chan:
  "(case map_of (fold (add_chan c) types m) ty of None \<Rightarrow> [] | Some cs \<Rightarrow> cs) =
   (case map_of m ty of None \<Rightarrow> [] | Some cs \<Rightarrow> cs) @ replicate (length (filter ((=) ty) types)) c"
proof (induction types arbitrary: m)
  case (Cons t types)
  show ?case using Cons [of "add_chan c t m"] map_of_add_chan [of c t m ty] by simp
qed simp

lemma chans_of_receive:
  "chans_of ty (snd (ap_receive now types a)) =
   chans_of ty a @ (if ap_done a then [] else replicate (length (filter ((=) ty) types)) (ap_next_chan a))"
  using map_of_fold_add_chan [of "ap_next_chan a" types "ap_chans a" ty]
  by (auto simp: ap_receive_def chans_of_def Let_def)

lemma fst_ap_receive: "fst (ap_receive now types a) = ap_next_chan a"
  by (simp add: ap_receive_def Let_def)

text \<open>Of the steps, only \<open>Receive\<close> changes the subscriptions and only a take hands something out.\<close>

lemma ap_connect_same: "same_channels a (snd (ap_connect envs a)) \<and> ap_place (snd (ap_connect envs a)) = ap_place a"
  using ap_retry_same [of a 5 envs]
  by (cases "ap_retry 5 envs a"; cases "fst (ap_retry 5 envs a)") (simp_all add: ap_connect_def)

lemma ap_leave_frame:
  "ap_chans (ap_leave a) = ap_chans a" "ap_got (ap_leave a) = ap_got a"
  "ap_place (ap_leave a) \<in> {ApEnded, ApReconnecting}"
  using ap_close_conn_same(1) [of a] by (simp_all add: ap_leave_def ap_end_def same_channels_def Let_def)

lemma ap_reconnect_frame:
  "ap_chans (ap_reconnect now env a) = ap_chans a \<and> ap_got (ap_reconnect now env a) = ap_got a \<and>
   (ap_place a = ApReconnecting \<longrightarrow> ap_place (ap_reconnect now env a) \<in> {ApReading, ApSleeping})"
proof (cases "ap_place a = ApReconnecting")
  case True
  obtain err a1 where e: "(if ap_welcome a then ap_connect_once env a else (Some LoginFailed, a)) = (err, a1)"
    by (cases "if ap_welcome a then ap_connect_once env a else (Some LoginFailed, a)")
  then have "same_channels a a1" using ap_connect_once_same [of a env] by (auto split: if_splits)
  moreover define a2 where "a2 = (if err = None then a1\<lparr>ap_place := ApReading, ap_last_ack := now + pong_ack_interval\<rparr>
                  else a1\<lparr>ap_place := ApSleeping\<rparr>)"
  ultimately have a2: "ap_chans a2 = ap_chans a" "ap_got a2 = ap_got a" "ap_place a2 \<in> {ApReading, ApSleeping}"
    by (simp_all add: a2_def same_channels_def)
  then show ?thesis
    using True e ap_close_conn_same(1) [of a2] by (simp add: ap_reconnect_def same_channels_def flip: a2_def)
qed (simp add: ap_reconnect_def)

lemma ap_read_frame:
  assumes "ap_place a = ApReading"
  shows "ap_chans (ap_read now ok r a) = ap_chans a \<and> ap_got (ap_read now ok r a) = ap_got a \<and>
    ap_pending (ap_read now ok r a) =
      (case r of None \<Rightarrow> []
       | Some (ty, payload) \<Rightarrow>
           if \<not> ap_done a \<and> ap_alive a \<and> ty \<noteq> packet_ping \<and> ty \<noteq> packet_pong_ack
           then map (\<lambda>c. (c, (ty, payload))) (chans_of ty a) else [])"
proof -
  have leave: "ap_pending (ap_leave x) = []" for x
    using ap_leave_frame(3) [of x] by (auto simp: ap_pending_def)
  have ping: "ap_chans (case ap_send ok p a of (Return _, a1) \<Rightarrow> a1 | (_, a1) \<Rightarrow> ap_leave a1) = ap_chans a \<and>
     ap_got (case ap_send ok p a of (Return _, a1) \<Rightarrow> a1 | (_, a1) \<Rightarrow> ap_leave a1) = ap_got a \<and>
     ap_pending (case ap_send ok p a of (Return _, a1) \<Rightarrow> a1 | (_, a1) \<Rightarrow> ap_leave a1) = []" for p
    using ap_send_same [of a ok p] ap_leave_frame [of "snd (ap_send ok p a)"] leave [of "snd (ap_send ok p a)"] assms
    by (auto simp: same_channels_def ap_pending_def split: prod.splits outcome.splits)
  have idle: "ap_pending a = []" using assms by (simp add: ap_pending_def)
  show ?thesis
  proof (cases "ap_done a \<or> ap_enc a = None \<or> \<not> ap_alive a \<or> r = None")
    case True
    then show ?thesis
      using assms leave [of a] ap_leave_frame [of a]
      by (auto simp: ap_read_def ap_alive_def ap_pending_def split: option.splits prod.splits)
  next
    case False
    then obtain ty payload e where "r = Some (ty, payload)" "ap_enc a = Some e" by auto
    with False assms ping [of "(packet_pong, payload)"] idle show ?thesis
      by (auto simp: ap_read_def Let_def ap_pending_def)
  qed
qed

lemma chans_of_step:
  "chans_of ty (ap_step (ap_run es) e) = chans_of ty (ap_run es) @ subscribes ty es e"
proof (cases e)
  case (ApConnect envs)
  then show ?thesis using ap_connect_same [of "ap_run es" envs] by (simp add: subscribes_def chans_of_same)
next
  case ApClose
  then show ?thesis
    using ap_request_close_same(1) [of "(ap_run es)\<lparr>ap_done := True\<rparr>"]
    by (simp add: subscribes_def ap_close_def same_channels_def chans_of_def)
next
  case (ApSend ok pkt)
  then show ?thesis using ap_send_same [of "ap_run es" ok pkt] by (simp add: subscribes_def chans_of_same)
next
  case (ApReceive now types)
  then show ?thesis by (simp add: subscribes_def chans_of_receive fst_ap_receive)
next
  case (ApTick now)
  then show ?thesis by (simp add: subscribes_def ap_tick_def chans_of_same)
next
  case (ApRead now ok r)
  then show ?thesis using ap_read_frame [of "ap_run es" now ok r]
    by (cases "ap_place (ap_run es) = ApReading") (simp_all add: subscribes_def chans_of_def ap_read_def)
next
  case ApTake
  then show ?thesis by (simp add: subscribes_def chans_of_def ap_take_def split: ap_place.split list.split)
next
  case (ApReconnect now env)
  then show ?thesis using ap_reconnect_frame [of now env "ap_run es"] by (simp add: subscribes_def chans_of_def)
next
  case (ApWake timer)
  then show ?thesis by (simp add: subscribes_def chans_of_def ap_wake_def ap_end_def)
qed

lemma chans_of_run: "chans_of ty (ap_run es) = along (subscribes ty) es"
proof (induction es rule: rev_induct)
  case (snoc e es)
  then show ?case by (simp add: chans_of_step)
qed (simp add: ap_run_def new_accesspoint_def chans_of_def)

definition handed :: "accesspoint \<Rightarrow> (nat \<times> packet) list" where
  "handed a = ap_got a @ ap_pending a"

lemma handed_same: "same_channels a b \<Longrightarrow> ap_place b = ap_place a \<Longrightarrow> handed b = handed a"
  unfolding handed_def using got_same [of a b] ap_pending_place [of b a] by simp

lemma handed_step:
  "handed (ap_step a e) = handed a @
     (case e of
        ApRead now ok (Some pkt) \<Rightarrow>
          if ap_place a = ApReading \<and> \<not> ap_done a \<and> ap_alive a \<and> fst pkt \<noteq> packet_ping \<and> fst pkt \<noteq> packet_pong_ack
          then map (\<lambda>c. (c, pkt)) (chans_of (fst pkt) a) else []
      | _ \<Rightarrow> [])"
proof (cases e)
  case (ApConnect envs)
  then show ?thesis using handed_same [of a "snd (ap_connect envs a)"] ap_connect_same [of a envs] by simp
next
  case ApClose
  have "handed (a\<lparr>ap_done := True\<rparr>) = handed a" by (simp add: handed_def ap_pending_def)
  with ApClose show ?thesis
    using handed_same [OF ap_request_close_same(1) [of "a\<lparr>ap_done := True\<rparr>"] ap_request_close_same(2)]
    by (simp add: ap_close_def)
next
  case (ApSend ok pkt)
  then show ?thesis using handed_same [of a "snd (ap_send ok pkt a)"] ap_send_same [of a ok pkt] by simp
next
  case (ApReceive now types)
  then show ?thesis by (simp add: ap_receive_def Let_def handed_def ap_pending_def)
next
  case (ApTick now)
  then show ?thesis using handed_same [of a "ap_request_close a"] by (simp add: ap_tick_def)
next
  case (ApRead now ok r)
  show ?thesis
  proof (cases "ap_place a = ApReading")
    case True
    then have "ap_pending a = []" by (simp add: ap_pending_def)
    with True ApRead ap_read_frame [OF True, of now ok r] show ?thesis
      by (auto simp: handed_def split: option.splits prod.splits)
  next
    case False
    with ApRead show ?thesis by (simp add: ap_read_def split: option.split)
  qed
next
  case ApTake
  then show ?thesis by (auto simp: handed_def ap_take_def ap_pending_def split: ap_place.split list.split)
next
  case (ApReconnect now env)
  then show ?thesis
    using ap_reconnect_frame [of now env a]
    by (cases "ap_place a = ApReconnecting") (auto simp: handed_def ap_pending_def ap_reconnect_def)
next
  case (ApWake timer)
  then show ?thesis by (simp add: handed_def ap_wake_def ap_end_def ap_pending_def)
qed

lemma owed_handed: "owed es = handed (ap_run es)"
proof (induction es rule: rev_induct)
  case (snoc e es)
  have "owed (es @ [e]) = owed es @
      concat (map (\<lambda>pkt. map (\<lambda>c. (c, pkt)) (chans_of (fst pkt) (ap_run es))) (packets_read es e))"
    by (simp add: owed_def chans_of_run)
  then show ?case
    using snoc handed_step [of "ap_run es" e]
    by (auto simp: packets_read_def split: ap_event.splits option.splits)
qed (simp add: owed_def ap_run_def handed_def ap_pending_def new_accesspoint_def)

text \<open>C11: What the read loop hands out. The deliveries that were taken, followed by the rest of the
  packet that is being delivered, are exactly what the history of the connection owes: every read
  packet, in order, to every channel that \<open>Receive\<close> had returned before for its type, in the order of
  the calls, without loss or repetition; when the loop reads the next packet nothing is outstanding. No
  packet is on its way to a closed channel, and no channel is closed twice: both would be a panic.
  Channels are closed only after \<open>Close\<close>.\<close>

theorem ap_deliveries_in_order:
  assumes "a = ap_run es"
  shows "owed es = ap_got a @ ap_pending a \<and>
         (ap_place a = ApReading \<longrightarrow> ap_got a = owed es) \<and>
         (\<forall>q \<in> set (ap_pending a). fst q \<notin> set (ap_closed_chans a)) \<and>
         distinct (ap_closed_chans a) \<and>
         (ap_closed_chans a \<noteq> [] \<longrightarrow> ap_done a)"
proof -
  have ok: "channels_ok a" using assms ap_run_ok [of es] by (simp add: accesspoint_ok_def)
  have "owed es = ap_got a @ ap_pending a" using assms by (simp add: owed_handed handed_def)
  moreover have "ap_place a = ApReading \<Longrightarrow> ap_pending a = []" "ap_place a = ApEnded \<Longrightarrow> ap_pending a = []"
    by (simp_all add: ap_pending_def)
  ultimately show ?thesis using ok unfolding channels_ok_def by (cases "ap_place a = ApEnded") auto
qed

text \<open>The dials and the login of one attempt.\<close>

lemma init_dials_spec: "n < 6 \<Longrightarrow> fst (init_dials n oks) = (True \<in> set (take (6 - n) oks)) \<and> snd (init_dials n oks) \<le> 6"
proof (induction n oks rule: init_dials.induct)
  case (2 n ok oks)
  show ?case
  proof (cases "ok \<or> n = 5")
    case True
    with 2(2) show ?thesis by (auto simp: take_Cons')
  next
    case False
    with 2 show ?thesis by (simp add: take_Cons')
  qed
qed simp

definition attempt_succeeds :: "bool list \<times> login_reply \<Rightarrow> bool" where
  "attempt_succeeds env \<longleftrightarrow> True \<in> set (take 6 (fst env)) \<and> snd env = LoginPacket packet_ap_welcome True"

lemma authenticate_welcome: "authenticate r = None \<longleftrightarrow> r = LoginPacket packet_ap_welcome True"
  by (auto simp: authenticate_def split: login_reply.splits)

lemma ap_connect_once_succeeds: "fst (ap_connect_once env a) = None \<longleftrightarrow> attempt_succeeds env"
  using init_dials_spec [of 0 "fst env"]
  by (cases env; cases "authenticate (snd env)")
    (auto simp: ap_connect_once_def attempt_succeeds_def Let_def simp flip: authenticate_welcome)

lemma ap_connect_once_welcome:
  "attempt_succeeds env \<Longrightarrow> snd (ap_connect_once env a) =
     (ap_close_conn a)\<lparr>ap_conn := Some (ap_conns a), ap_conns := Suc (ap_conns a), ap_enc := Some (ap_conns a),
       ap_welcome := True\<rparr>"
  using init_dials_spec [of 0 "fst env"] authenticate_welcome [of "snd env"]
  by (cases env) (auto simp: ap_connect_once_def attempt_succeeds_def Let_def)

lemma ap_retry_spec:
  "case ap_retry n envs a of (r, k, a') \<Rightarrow>
     k \<le> Suc n \<and> k \<le> length envs \<and>
     (r = None \<longleftrightarrow> (\<exists>env \<in> set (take (Suc n) envs). attempt_succeeds env)) \<and>
     (r \<noteq> None \<longrightarrow> k = min (Suc n) (length envs)) \<and>
     (r = None \<longrightarrow> attempt_succeeds (envs ! (k - 1)) \<and> 0 < k \<and> (\<forall>i < k - 1. \<not> attempt_succeeds (envs ! i)))"
proof (induction envs arbitrary: n a)
  case (Cons env envs)
  obtain r a1 where r: "ap_connect_once env a = (r, a1)" by (cases "ap_connect_once env a")
  then have s: "r = None \<longleftrightarrow> attempt_succeeds env" using ap_connect_once_succeeds [of env a] by simp
  show ?case
  proof (cases "r = None \<or> n = 0 \<or> envs = []")
    case True
    with r s show ?thesis by (cases r; cases n) auto
  next
    case False
    then obtain e m where e: "r = Some e" "n = Suc m" "envs \<noteq> []" by (cases n) auto
    obtain r' k a' where r': "ap_retry m envs a1 = (r', k, a')" by (cases "ap_retry m envs a1")
    with Cons [of m a1] have IH: "k \<le> Suc m" "k \<le> length envs"
      "r' = None \<longleftrightarrow> (\<exists>env \<in> set (take (Suc m) envs). attempt_succeeds env)"
      "r' \<noteq> None \<longrightarrow> k = min (Suc m) (length envs)"
      "r' = None \<longrightarrow> attempt_succeeds (envs ! (k - 1)) \<and> 0 < k \<and> (\<forall>i < k - 1. \<not> attempt_succeeds (envs ! i))"
      by auto
    have "\<not> attempt_succeeds env" using s e by simp
    moreover have "(\<forall>i < Suc k - 1. \<not> attempt_succeeds ((env # envs) ! i))" if "r' = None"
    proof (intro allI impI)
      fix i assume "i < Suc k - 1"
      then show "\<not> attempt_succeeds ((env # envs) ! i)"
        using IH(5) that \<open>\<not> attempt_succeeds env\<close> by (cases i) auto
    qed
    ultimately show ?thesis
      using r r' e IH by (auto simp: nth_Cons')
  qed
qed simp

text \<open>\<open>Connect\<close> makes at most six attempts of at most six dials each, and ends. It succeeds exactly
  when one of these attempts can be made and is welcomed, with the first such one; a refused
  login does not stop it before. Without success it has made all six attempts that the context
  leaves time for.\<close>

theorem ap_connect_attempts:
  assumes "\<not> ap_done a"
  shows "(fst (ap_connect envs a) = Return () \<longleftrightarrow> (\<exists>env \<in> set (take 6 envs). attempt_succeeds env)) \<and>
    (\<exists>k. fst (snd (ap_retry 5 envs a)) = k \<and> k \<le> 6 \<and>
      (fst (ap_connect envs a) = Return () \<longrightarrow>
        attempt_succeeds (envs ! (k - 1)) \<and> (\<forall>i < k - 1. \<not> attempt_succeeds (envs ! i))) \<and>
      (fst (ap_connect envs a) \<noteq> Return () \<longrightarrow> k = min 6 (length envs))) \<and>
    (\<forall>env \<in> set envs. snd (init_dials 0 (fst env)) \<le> 6)"
proof -
  obtain r k a' where r: "ap_retry 5 envs a = (r, k, a')" by (cases "ap_retry 5 envs a")
  have "fst (ap_connect envs a) = Return () \<longleftrightarrow> r = None"
    using assms r by (cases r) (simp_all add: ap_connect_def)
  then show ?thesis
    using ap_retry_spec [of 5 envs a] r init_dials_spec [of 0] by (auto simp: eval_nat_numeral)
qed

text \<open>C12: A connection that has gone silent is replaced: when the last pong acknowledgement is more
  than two minutes old, the tick of the watchdog closes the connection; whatever the read loop was
  waiting for, its read fails, and the attempt that succeeds puts it back to reading from the new
  connection, with a new deadline and with every channel and every delivery as they were.\<close>

theorem ap_silent_connection_replaced:
  assumes "a = ap_run es" and "\<not> ap_done a" and "ap_place a = ApReading"
    and "ap_enc a \<noteq> None" and "ap_welcome a"
    and "now - ap_last_ack a > pong_ack_interval" and "attempt_succeeds env"
    and "b = foldl ap_step a [ApTick now, ApRead t ok r, ApReconnect t' env]"
  shows "ap_place b = ApReading \<and> ap_alive b \<and> ap_conn b = Some (ap_conns a) \<and>
    ap_last_ack b = t' + pong_ack_interval \<and> same_channels a b"
proof -
  have ok: "conns_ok a" using assms(1) ap_run_ok [of es] by (simp add: accesspoint_ok_def)
  define c where "c = ap_close_conn a"
  have tick: "ap_tick now a = c"
    using assms(2,3,6) by (simp add: ap_tick_def ap_request_close_def c_def pong_ack_interval_def go_time)
  have "\<not> ap_alive c"
    using ok assms(4) by (cases "ap_conn a") (auto simp: c_def ap_close_conn_def ap_alive_def conns_ok_def)
  then have read: "ap_read t ok r c = (ap_close_conn c)\<lparr>ap_place := ApReconnecting\<rparr>"
    using assms(2-4) by (auto simp: ap_read_def ap_leave_def c_def)
  define d where "d = (ap_close_conn c)\<lparr>ap_place := ApReconnecting\<rparr>"
  have d: "same_channels a d" "ap_conns d = ap_conns a" "ap_welcome d" "\<not> ap_closer d" "ap_place d = ApReconnecting"
    "\<forall>x \<in> set (ap_closed_conns d). x < ap_conns a" "\<forall>x. ap_conn d = Some x \<longrightarrow> x < ap_conns a"
    using assms(3,5) ok same_channels_trans [of a c "ap_close_conn c"]
    by (auto simp: d_def c_def same_channels_def conns_ok_def) (auto simp: ap_close_conn_def split: option.splits)
  then have "ap_conns d \<notin> set (ap_closed_conns (ap_close_conn d))"
    by (auto simp: ap_close_conn_def split: option.split)
  moreover have "fst (ap_connect_once env d) = None" using assms(7) by (simp add: ap_connect_once_succeeds)
  ultimately show ?thesis
    using assms(8) d ap_connect_once_welcome [OF assms(7), of d] ap_close_conn_same(1) [of d]
    by (cases "ap_connect_once env d")
      (simp add: tick read ap_reconnect_def ap_alive_def same_channels_def flip: d_def)
qed

text \<open>A tick that comes while the connection is being replaced waits for the lock, and then closes the
  new connection.\<close>

lemma ap_late_tick_closes_fresh_connection:
  assumes "ap_place a = ApReconnecting" "\<not> ap_done a" "ap_welcome a" "attempt_succeeds env"
    and "now - ap_last_ack a > pong_ack_interval"
  shows "let b = ap_reconnect t env (ap_tick now a)
         in ap_place b = ApReading \<and> ap_last_ack b = t + pong_ack_interval \<and> \<not> ap_alive b"
proof -
  have "ap_tick now a = a\<lparr>ap_closer := True\<rparr>"
    using assms(1,2,5) by (simp add: ap_tick_def ap_request_close_def pong_ack_interval_def go_time)
  moreover have "fst (ap_connect_once env (a\<lparr>ap_closer := True\<rparr>)) = None"
    using assms(4) by (simp add: ap_connect_once_succeeds)
  ultimately show ?thesis
    using assms(1,3) ap_connect_once_welcome [OF assms(4), of "a\<lparr>ap_closer := True\<rparr>"]
    by (cases "ap_connect_once env (a\<lparr>ap_closer := True\<rparr>)")
      (simp add: ap_reconnect_def ap_alive_def Let_def, simp add: ap_close_conn_def)
qed

text \<open>\<open>Close\<close> does not reach a read loop that waits for a receiver: as long as nobody takes the
  packet, it stays there, and no channel is closed.\<close>

lemma ap_close_leaves_blocked_delivery:
  "ap_place a = ApDelivering (c # cs) pkt \<Longrightarrow> (\<And>e. e \<in> set es \<Longrightarrow> e \<noteq> ApTake) \<Longrightarrow>
    ap_place (foldl ap_step a es) = ApDelivering (c # cs) pkt"
proof (induction es arbitrary: a)
  case (Cons e es)
  have "ap_place (snd (ap_connect envs a)) = ap_place a" for envs
    using ap_retry_same [of a 5 envs]
    by (cases "ap_retry 5 envs a"; cases "fst (ap_retry 5 envs a)") (simp_all add: ap_connect_def)
  then have "ap_place (ap_step a e) = ApDelivering (c # cs) pkt"
    using Cons.prems(1) Cons.prems(2) [of e]
    by (cases e)
      (simp_all add: ap_close_def ap_send_def ap_receive_def ap_tick_def ap_read_def ap_reconnect_def
        ap_wake_def ap_request_close_def Let_def)
  then show ?case using Cons by simp
qed simp

subsection \<open>Witnesses\<close>

definition sample_login :: "bool list \<times> login_reply" where
  "sample_login = ([False, True], LoginPacket packet_ap_welcome True)"

definition sample_ap_events :: "ap_event list" where
  "sample_ap_events = [ApConnect [([True], LoginPacket packet_auth_failure True), sample_login],
     ApReceive 0 [0x1b, 0x50], ApReceive 0 [0x50],
     ApRead 1 True (Some (0x50, [7])), ApTake, ApTake, ApRead 2 True (Some (packet_ping, [9])),
     ApRead 3 True (Some (0x1b, [8]))]"

lemma ap_deliveries_in_order_witness:
  "ap_got (ap_run sample_ap_events) = [(0, (0x50, [7])), (1, (0x50, [7]))] \<and>
   owed sample_ap_events = ap_got (ap_run sample_ap_events) @ [(0, (0x1b, [8]))] \<and>
   ap_sent (ap_run sample_ap_events) = [(packet_pong, [9])]"
proof -
  have "ap_got (ap_run sample_ap_events) = [(0, (0x50, [7])), (1, (0x50, [7]))]"
    "ap_pending (ap_run sample_ap_events) = [(0, (0x1b, [8]))]"
    "ap_sent (ap_run sample_ap_events) = [(packet_pong, [9])]"
    by code_simp+
  then show ?thesis using ap_deliveries_in_order [of _ sample_ap_events, OF refl] by simp
qed

lemma ap_connect_attempts_witness:
  "fst (ap_connect [([True], LoginPacket packet_auth_failure True), sample_login] new_accesspoint) = Return ()"
proof -
  have "\<not> ap_done new_accesspoint" by (simp add: new_accesspoint_def)
  moreover have "attempt_succeeds sample_login" by code_simp
  ultimately show ?thesis
    using ap_connect_attempts [of new_accesspoint "[([True], LoginPacket packet_auth_failure True), sample_login]"]
    by simp
qed

lemma ap_silent_connection_replaced_witness:
  "ap_place (foldl ap_step (ap_run (sample_ap_events @ [ApTake]))
      [ApTick (seconds 241), ApRead 5 True (Some (0x50, [1])), ApReconnect 6 sample_login]) = ApReading"
proof -
  have s: "\<not> ap_done (ap_run (sample_ap_events @ [ApTake]))" "ap_place (ap_run (sample_ap_events @ [ApTake])) = ApReading"
    "ap_enc (ap_run (sample_ap_events @ [ApTake])) \<noteq> None" "ap_welcome (ap_run (sample_ap_events @ [ApTake]))"
    "seconds 241 - ap_last_ack (ap_run (sample_ap_events @ [ApTake])) > pong_ack_interval"
    "attempt_succeeds sample_login"
    by code_simp+
  show ?thesis
    using ap_silent_connection_replaced [OF refl s refl, of 5 True "Some (0x50, [1])" 6] by blast
qed

end
