(* ===== verification/Mercury.thy ===== *)
theory Mercury
  imports Interfaces ApConn
begin

text \<open>
  The request multiplexer over the access point (\<open>mercury/client.go\<close>): the frames of requests and
  responses, the loop that hands out sequence numbers and matches responses to the requests that
  wait for them, and \<open>Request\<close> with its split of the payload.

  A request is known to the model by a number (\<open>rid\<close>) that stands for its response channel, and
  what is sent to a channel is kept in a ghost list. The header is a protocol buffer: the
  functions that marshal it and read its status code back are parameters.
\<close>

subsection \<open>Frames\<close>

text \<open>\<open>binary.Read\<close> with its error ignored: an integer that is not there is zero and the rest is
  consumed. \<open>Reader.Read\<close> into a buffer: what is there, zeros after it.\<close>

definition read_be :: "nat \<Rightarrow> byte list \<Rightarrow> nat \<times> byte list" where
  "read_be k bs = (if k \<le> length bs then (be_nat (take k bs), drop k bs) else (0, []))"

definition read_buf :: "nat \<Rightarrow> byte list \<Rightarrow> byte list \<times> byte list" where
  "read_buf n bs = (take n bs @ replicate (n - length bs) 0, drop n bs)"

fun read_parts :: "nat \<Rightarrow> byte list \<Rightarrow> byte list list \<times> byte list" where
  "read_parts 0 bs = ([], bs)"
| "read_parts (Suc n) bs =
     (let (len, bs1) = read_be 2 bs; (part, bs2) = read_buf len bs1; (parts, bs3) = read_parts n bs2
      in (part # parts, bs3))"

definition part_bytes :: "byte list \<Rightarrow> byte list" where
  "part_bytes p = be_bytes 2 (length p) @ p"

text \<open>The frame of a request: the marshalled header is the first part. Counts and lengths are
  truncated to 16 bits.\<close>

definition mercury_frame :: "nat \<Rightarrow> byte list list \<Rightarrow> byte list" where
  "mercury_frame seq parts =
     be_bytes 2 8 @ be_bytes 8 seq @ [1] @ be_bytes 2 (length parts) @ concat (map part_bytes parts)"

text \<open>The head of a response: sequence, flags and the number of parts.\<close>

datatype mercury_head = BadSequenceLength | Partial | Head nat nat "byte list"

definition read_head :: "byte list \<Rightarrow> mercury_head" where
  "read_head bs =
     (let (seq_len, bs1) = read_be 2 bs
      in if seq_len \<notin> {8, 4, 2} then BadSequenceLength
         else
           let (seq, bs2) = read_be seq_len bs1; (flags, bs3) = read_be 1 bs2
           in if flags \<noteq> 1 then Partial
              else let (cnt, bs4) = read_be 2 bs3 in Head seq cnt bs4)"

subsection \<open>The loop\<close>

text \<open>What a waiting request is told: the status of the header, which may be missing, and the parts
  after the header; or an error.\<close>

type_synonym mercury_response = "string + int option \<times> byte list list"

record mercury =
  me_seq :: "64 word"
  me_reqs :: "64 word \<Rightarrow> nat option"
  me_answers :: "(nat \<times> mercury_response) list"
  me_sent :: "byte list list"

definition new_mercury :: mercury where
  "new_mercury = \<lparr>me_seq = 0, me_reqs = Map.empty, me_answers = [], me_sent = []\<rparr>"

definition answer :: "nat \<Rightarrow> mercury_response \<Rightarrow> mercury \<Rightarrow> mercury" where
  "answer rid r m = m\<lparr>me_answers := me_answers m @ [(rid, r)]\<rparr>"

text \<open>A packet of the access point; \<open>status\<close> reads the header, failing when it is no header.\<close>

definition mercury_req_type :: byte where "mercury_req_type = 0xb2"

definition on_packet :: "(byte list \<Rightarrow> int option option) \<Rightarrow> packet \<Rightarrow> mercury \<Rightarrow> mercury" where
  "on_packet status p m =
     (if fst p \<noteq> mercury_req_type then m
      else case read_head (snd p) of
             Head seq cnt rest \<Rightarrow>
               (case me_reqs m (word_of_nat seq) of
                  None \<Rightarrow> m
                | Some rid \<Rightarrow>
                    let m1 = m\<lparr>me_reqs := (me_reqs m)(word_of_nat seq := None)\<rparr>
                    in case fst (read_parts cnt rest) of
                         [] \<Rightarrow> answer rid (Inl ''received empty mercury response'') m1
                       | h # parts \<Rightarrow>
                           (case status h of
                              None \<Rightarrow> answer rid (Inl ''failed unmarshaling mercury header'') m1
                            | Some st \<Rightarrow> answer rid (Inr (st, parts)) m1))
           | _ \<Rightarrow> m)"

text \<open>A request from the channel: its marshalled header, if it can be marshalled, and its parts;
  \<open>send\<close> tells whether a packet with this payload could be sent.\<close>

definition on_request ::
    "(byte list \<Rightarrow> bool) \<Rightarrow> nat \<Rightarrow> byte list option \<Rightarrow> byte list list \<Rightarrow> mercury \<Rightarrow> mercury" where
  "on_request send rid header parts m =
     (let seq = me_seq m; m1 = m\<lparr>me_seq := seq + 1\<rparr>
      in case header of
           None \<Rightarrow> answer rid (Inl ''failed marshaling mercury header'') m1
         | Some h \<Rightarrow>
             (let frame = mercury_frame (unat seq) (h # parts)
              in if send frame
                 then m1\<lparr>me_reqs := (me_reqs m)(seq \<mapsto> rid), me_sent := me_sent m @ [frame]\<rparr>
                 else answer rid (Inl ''failed sending mercury request'')
                        (m1\<lparr>me_reqs := (me_reqs m)(seq := None)\<rparr>)))"

subsection \<open>Requests\<close>

definition max_part :: nat where "max_part = 65535"

text \<open>The loop that cuts the payload.\<close>

definition split_payload :: "byte list \<Rightarrow> byte list list" where
  "split_payload payload = chunks max_part payload"

text \<open>What the caller gets; reading the status of a header without one is a nil dereference.\<close>

fun request_result :: "mercury_response \<Rightarrow> byte list outcome" where
  "request_result (Inl e) = Fail e"
| "request_result (Inr (None, parts)) = Panic ''nil status code''"
| "request_result (Inr (Some st, parts)) =
     (if st \<noteq> 200 then Fail ''mercury request failed'' else Return (concat parts))"

text \<open>A packet can be sent when its payload fits (\<open>sendPacket\<close>) and the connection takes it.\<close>

definition can_send :: "bool \<Rightarrow> byte list \<Rightarrow> bool" where
  "can_send up frame \<longleftrightarrow> length frame \<le> 65535 \<and> up"

datatype mercury_event =
    MercuryRequest nat bool "byte list option" "byte list"  \<comment> \<open>request, connection up, header, payload\<close>
  | MercuryPacket packet

fun mercury_step :: "(byte list \<Rightarrow> int option option) \<Rightarrow> mercury \<Rightarrow> mercury_event \<Rightarrow> mercury" where
  "mercury_step status m (MercuryRequest rid up header payload) =
     on_request (can_send up) rid header (split_payload payload) m"
| "mercury_step status m (MercuryPacket p) = on_packet status p m"

subsection \<open>Frames read back\<close>

lemma read_be_bytes [simp]: "n < 256 ^ k \<Longrightarrow> read_be k (be_bytes k n @ bs) = (n, bs)"
  by (simp add: read_be_def)

lemma read_buf_append [simp]: "length p = n \<Longrightarrow> read_buf n (p @ bs) = (p, bs)"
  by (simp add: read_buf_def)

lemma read_parts_bytes:
  "(\<And>p. p \<in> set parts \<Longrightarrow> length p < 65536) \<Longrightarrow>
    read_parts (length parts) (concat (map part_bytes parts) @ bs) = (parts, bs)"
proof (induction parts)
  case (Cons p parts)
  have "length p < 256 ^ 2" using Cons.prems [of p] by simp
  then have "read_be 2 (part_bytes p @ x) = (length p, p @ x)" for x
    by (simp only: part_bytes_def append_assoc read_be_bytes)
  with Cons show ?case by simp
qed simp

definition frame_ok :: "nat \<times> byte list list \<Rightarrow> bool" where
  "frame_ok f \<longleftrightarrow> fst f < 18446744073709551616 \<and> length (snd f) < 65536 \<and> (\<forall>p \<in> set (snd f). length p < 65536)"

lemma read_head_frame:
  assumes "frame_ok (seq, parts)"
  shows "read_head (mercury_frame seq parts @ bs) =
    Head seq (length parts) (concat (map part_bytes parts) @ bs)"
proof -
  have l: "(8 :: nat) < 256 ^ 2" "seq < 256 ^ 8" "(1 :: nat) < 256 ^ 1" "length parts < 256 ^ 2"
    using assms by (simp_all add: frame_ok_def)
  have one: "[1] = be_bytes 1 1" by simp
  show ?thesis
    unfolding read_head_def mercury_frame_def append_assoc one
    by (simp only: read_be_bytes [OF l(1)] Let_def prod.case) 
      (simp only: read_be_bytes [OF l(2)] read_be_bytes [OF l(3)] read_be_bytes [OF l(4)] prod.case, simp)
qed

lemma length_part_bytes: "length (concat (map part_bytes parts)) = 2 * length parts + length (concat parts)"
  by (induction parts) (simp_all add: part_bytes_def)

lemma length_mercury_frame: "length (mercury_frame seq parts) = 13 + 2 * length parts + length (concat parts)"
  by (simp add: mercury_frame_def length_part_bytes del: be_bytes.simps)

text \<open>A frame that fits a packet is one that can be read back.\<close>

lemma sent_frame_ok:
  fixes seq :: "64 word"
  assumes "length (mercury_frame (unat seq) parts) \<le> 65535"
  shows "frame_ok (unat seq, parts)"
proof -
  have "length p \<le> length (concat parts)" if "p \<in> set parts" for p
    using that by (induction parts) auto
  moreover have "13 + 2 * length parts + length (concat parts) \<le> 65535"
    using assms by (simp add: length_mercury_frame)
  moreover have "unat seq < 18446744073709551616" using unsigned_less [of seq] by simp
  ultimately show ?thesis by (fastforce simp: frame_ok_def)
qed

text \<open>The parser of whole frames, and the codec it makes with the encoder.\<close>

definition parse_frame :: "byte list \<Rightarrow> ((nat \<times> byte list list) \<times> byte list) option" where
  "parse_frame bs =
     (case read_head bs of
        Head seq cnt rest \<Rightarrow> (let (parts, r) = read_parts cnt rest in Some ((seq, parts), r))
      | _ \<Rightarrow> None)"

interpretation frames: codec "\<lambda>(seq, parts). mercury_frame seq parts" parse_frame frame_ok
proof
  fix f rest
  assume ok: "frame_ok f"
  obtain seq parts where f: "f = (seq, parts)" by force
  have "read_parts (length parts) (concat (map part_bytes parts) @ rest) = (parts, rest)"
    using ok by (intro read_parts_bytes) (simp add: frame_ok_def f)
  then show "parse_frame ((case f of (seq, parts) \<Rightarrow> mercury_frame seq parts) @ rest) = Some (f, rest)"
    using ok by (simp add: f parse_frame_def read_head_frame)
qed

subsection \<open>Splitting a payload\<close>

lemma split_payload_parts: "p \<in> set (split_payload payload) \<Longrightarrow> p \<noteq> [] \<and> length p \<le> max_part"
  using chunks_length [of p max_part payload] by (auto simp: split_payload_def)

lemma concat_split_payload [simp]: "concat (split_payload payload) = payload"
  by (simp add: split_payload_def max_part_def concat_chunks)

subsection \<open>Every request is answered at most once\<close>

definition waiting :: "mercury \<Rightarrow> nat set" where
  "waiting m = ran (me_reqs m)"

definition mercury_ok :: "mercury \<Rightarrow> bool" where
  "mercury_ok m \<longleftrightarrow>
     distinct (map fst (me_answers m)) \<and> waiting m \<inter> fst ` set (me_answers m) = {} \<and>
     inj_on (me_reqs m) (dom (me_reqs m)) \<and> (\<forall>s \<in> dom (me_reqs m). s < me_seq m)"

fun request_ids :: "mercury_event list \<Rightarrow> nat list" where
  "request_ids [] = []"
| "request_ids (MercuryRequest rid up h p # es) = rid # request_ids es"
| "request_ids (MercuryPacket p # es) = request_ids es"

lemma answer_simps [simp]:
  "me_answers (answer rid r m) = me_answers m @ [(rid, r)]" "me_reqs (answer rid r m) = me_reqs m"
  "me_seq (answer rid r m) = me_seq m" "me_sent (answer rid r m) = me_sent m"
  by (simp_all add: answer_def)

lemma ran_without:
  assumes "inj_on f (dom f)" "f s = Some x"
  shows "ran (f(s := None)) = ran f - {x}"
proof (intro set_eqI iffI)
  fix y
  assume "y \<in> ran (f(s := None))"
  then obtain t where t: "t \<noteq> s" "f t = Some y" by (auto simp: ran_def split: if_splits)
  moreover have "y \<noteq> x" using inj_onD [OF assms(1), of t s] t assms(2) by auto
  ultimately show "y \<in> ran f - {x}" by (auto simp: ran_def)
next
  fix y
  assume "y \<in> ran f - {x}"
  then obtain t where "f t = Some y" "y \<noteq> x" by (auto simp: ran_def)
  with assms(2) have "(f(s := None)) t = Some y" by auto
  then show "y \<in> ran (f(s := None))" by (rule ranI)
qed

lemma mercury_ok_answered:
  assumes "mercury_ok m" "me_reqs m seq = Some rid"
  shows "mercury_ok (answer rid r (m\<lparr>me_reqs := (me_reqs m)(seq := None)\<rparr>))"
proof -
  have "ran ((me_reqs m)(seq := None)) = ran (me_reqs m) - {rid}"
    using assms by (intro ran_without) (auto simp: mercury_ok_def)
  moreover have "rid \<in> ran (me_reqs m)" using assms(2) by (auto simp: ran_def)
  moreover have "inj_on ((me_reqs m)(seq := None)) (dom ((me_reqs m)(seq := None)))"
    using assms(1) by (auto simp: mercury_ok_def inj_on_def)
  ultimately show ?thesis
    using assms by (auto simp: mercury_ok_def waiting_def)
qed

lemma on_packet_cases:
  "on_packet status p m = m \<or>
    (\<exists>seq rid r. me_reqs m seq = Some rid \<and>
      on_packet status p m = answer rid r (m\<lparr>me_reqs := (me_reqs m)(seq := None)\<rparr>))"
proof (cases "fst p = mercury_req_type")
  case True
  show ?thesis
  proof (cases "read_head (snd p)")
    case (Head seq cnt rest)
    show ?thesis
    proof (cases "me_reqs m (word_of_nat seq)")
      case (Some rid)
      have "\<exists>r. on_packet status p m = answer rid r (m\<lparr>me_reqs := (me_reqs m)(word_of_nat seq := None)\<rparr>)"
        using True Head Some
        by (cases "fst (read_parts cnt rest)"; cases "status (hd (fst (read_parts cnt rest)))")
          (auto simp: on_packet_def)
      with Some show ?thesis by blast
    qed (use True Head in \<open>simp add: on_packet_def\<close>)
  qed (use True in \<open>simp_all add: on_packet_def\<close>)
qed (simp add: on_packet_def)

lemma on_packet_ok:
  assumes "mercury_ok m"
  shows "mercury_ok (on_packet status p m)"
    and "waiting (on_packet status p m) \<union> fst ` set (me_answers (on_packet status p m)) =
      waiting m \<union> fst ` set (me_answers m)"
    and "me_seq (on_packet status p m) = me_seq m"
proof -
  have "mercury_ok (on_packet status p m) \<and>
    waiting (on_packet status p m) \<union> fst ` set (me_answers (on_packet status p m)) =
      waiting m \<union> fst ` set (me_answers m) \<and> me_seq (on_packet status p m) = me_seq m"
  proof (cases "on_packet status p m = m")
    case False
    then obtain seq rid r where 2: "me_reqs m seq = Some rid"
      "on_packet status p m = answer rid r (m\<lparr>me_reqs := (me_reqs m)(seq := None)\<rparr>)"
      using on_packet_cases [of status p m] by blast
    have "ran ((me_reqs m)(seq := None)) = ran (me_reqs m) - {rid}"
      using assms 2(1) by (intro ran_without) (auto simp: mercury_ok_def)
    moreover have "rid \<in> ran (me_reqs m)" using 2(1) by (auto simp: ran_def)
    ultimately have "waiting (on_packet status p m) \<union> fst ` set (me_answers (on_packet status p m)) =
        waiting m \<union> fst ` set (me_answers m)"
      by (auto simp: waiting_def 2(2))
    with mercury_ok_answered [OF assms 2(1), of r] show ?thesis by (simp add: 2(2))
  qed (use assms in simp)
  then show "mercury_ok (on_packet status p m)"
    "waiting (on_packet status p m) \<union> fst ` set (me_answers (on_packet status p m)) =
      waiting m \<union> fst ` set (me_answers m)"
    "me_seq (on_packet status p m) = me_seq m"
    by blast+
qed

lemma seq_increases: "unat (s :: 64 word) < 18446744073709551615 \<Longrightarrow> unat (s + 1) = Suc (unat s)"
  by (simp add: unat_word_ariths)

lemma on_request_ok:
  assumes "mercury_ok m" "rid \<notin> waiting m \<union> fst ` set (me_answers m)"
    and "unat (me_seq m) < 18446744073709551615"
  shows "mercury_ok (on_request send rid h parts m)"
    and "waiting (on_request send rid h parts m) \<union> fst ` set (me_answers (on_request send rid h parts m)) =
      insert rid (waiting m \<union> fst ` set (me_answers m))"
    and "unat (me_seq (on_request send rid h parts m)) = Suc (unat (me_seq m))"
proof -
  have lt: "me_seq m < me_seq m + 1" using seq_increases [OF assms(3)] by (simp add: word_less_nat_alt)
  have fresh: "me_reqs m (me_seq m) = None"
    using assms(1) by (force simp: mercury_ok_def)
  then have same: "(me_reqs m)(me_seq m := None) = me_reqs m" by auto
  have old: "s < me_seq m + 1" if "s \<in> dom (me_reqs m)" for s
    using assms(1) that lt unfolding mercury_ok_def by (blast intro: less_trans)
  have ran: "ran ((me_reqs m)(me_seq m \<mapsto> rid)) = insert rid (ran (me_reqs m))"
    using fresh by (rule ran_map_upd)
  have inj: "inj_on ((me_reqs m)(me_seq m \<mapsto> rid)) (dom ((me_reqs m)(me_seq m \<mapsto> rid)))"
    using assms(1,2) fresh by (auto simp: mercury_ok_def waiting_def inj_on_def ran_def dom_def)
  show "mercury_ok (on_request send rid h parts m)"
    using assms(1,2) lt old inj ran same
    by (auto simp: on_request_def Let_def mercury_ok_def waiting_def split: option.split)
  show "waiting (on_request send rid h parts m) \<union> fst ` set (me_answers (on_request send rid h parts m)) =
      insert rid (waiting m \<union> fst ` set (me_answers m))"
    using ran same by (auto simp: on_request_def Let_def waiting_def split: option.split)
  show "unat (me_seq (on_request send rid h parts m)) = Suc (unat (me_seq m))"
    using seq_increases [OF assms(3)] by (auto simp: on_request_def Let_def split: option.split)
qed

lemma mercury_run_ok:
  "mercury_ok m \<Longrightarrow> distinct (request_ids es) \<Longrightarrow>
    set (request_ids es) \<inter> (waiting m \<union> fst ` set (me_answers m)) = {} \<Longrightarrow>
    unat (me_seq m) + length (request_ids es) < 18446744073709551616 \<Longrightarrow>
    mercury_ok (foldl (mercury_step status) m es)"
proof (induction es arbitrary: m rule: request_ids.induct)
  case (2 rid up h p es)
  let ?m = "on_request (can_send up) rid h (split_payload p) m"
  have pre: "rid \<notin> waiting m \<union> fst ` set (me_answers m)" "unat (me_seq m) < 18446744073709551615"
    using 2(4,5) by auto
  note ok = on_request_ok [OF 2(2) pre, of "can_send up" h "split_payload p"]
  have "mercury_ok (foldl (mercury_step status) ?m es)"
    using 2(3-5) ok by (intro 2(1)) auto
  then show ?case by simp
next
  case (3 p es)
  note ok = on_packet_ok [OF 3(2), of status p]
  have "mercury_ok (foldl (mercury_step status) (on_packet status p m) es)"
    using 3(3-5) ok by (intro 3(1)) auto
  then show ?case by simp
qed simp

lemma new_mercury_ok: "mercury_ok new_mercury"
  by (simp add: mercury_ok_def new_mercury_def waiting_def)

subsection \<open>What each request is owed\<close>

text \<open>Said from the events: the response in a packet, the response to the request with sequence number
  \<open>n\<close>, which is the one in the first later packet that carries this number, and the outcome of each
  request in turn, the first one having number \<open>n\<close>. \<open>None\<close> is a request that still waits.\<close>

definition decoded :: "(byte list \<Rightarrow> int option option) \<Rightarrow> nat \<Rightarrow> byte list \<Rightarrow> mercury_response" where
  "decoded status cnt rest =
     (case fst (read_parts cnt rest) of
        [] \<Rightarrow> Inl ''received empty mercury response''
      | h # parts \<Rightarrow>
          (case status h of None \<Rightarrow> Inl ''failed unmarshaling mercury header'' | Some st \<Rightarrow> Inr (st, parts)))"

fun response_to :: "(byte list \<Rightarrow> int option option) \<Rightarrow> nat \<Rightarrow> mercury_event list \<Rightarrow> mercury_response option" where
  "response_to status n [] = None"
| "response_to status n (MercuryRequest rid up h p # es) = response_to status n es"
| "response_to status n (MercuryPacket p # es) =
     (case read_head (snd p) of
        Head seq cnt rest \<Rightarrow>
          if fst p = mercury_req_type \<and> seq = n then Some (decoded status cnt rest) else response_to status n es
      | _ \<Rightarrow> response_to status n es)"

fun outcomes :: "(byte list \<Rightarrow> int option option) \<Rightarrow> nat \<Rightarrow> mercury_event list \<Rightarrow> (nat \<times> mercury_response option) list" where
  "outcomes status n [] = []"
| "outcomes status n (MercuryRequest rid up header payload # es) =
     (rid, case header of
             None \<Rightarrow> Some (Inl ''failed marshaling mercury header'')
           | Some h \<Rightarrow>
               if can_send up (mercury_frame n (h # split_payload payload)) then response_to status n es
               else Some (Inl ''failed sending mercury request''))
     # outcomes status (Suc n) es"
| "outcomes status n (MercuryPacket p # es) = outcomes status n es"

lemma outcomes_ids [simp]: "map fst (outcomes status n es) = request_ids es"
  by (induction status n es rule: outcomes.induct) simp_all

lemma read_be_less: "fst (read_be k bs) < 256 ^ k"
  using be_nat_less [of "take k bs"] by (auto simp: read_be_def)

lemma read_head_seq: "read_head bs = Head seq cnt rest \<Longrightarrow> seq < 18446744073709551616"
proof -
  assume h: "read_head bs = Head seq cnt rest"
  obtain k bs1 where k: "read_be 2 bs = (k, bs1)" by (cases "read_be 2 bs")
  obtain s bs2 where s: "read_be k bs1 = (s, bs2)" by (cases "read_be k bs1")
  have "k \<in> {8, 4, 2}" "seq = s"
    using h by (auto simp: read_head_def k s Let_def split: if_splits prod.splits)
  then show ?thesis using read_be_less [of k bs1] s by auto
qed

lemma seq_word: "seq < 18446744073709551616 \<Longrightarrow> (word_of_nat seq = s) = (seq = unat (s :: 64 word))"
  by (auto simp: unat_of_nat)

text \<open>What a packet does to a request that waits.\<close>

lemma on_packet_waiting:
  assumes "me_reqs m s = Some rid"
  shows "(response_to status (unat s) (MercuryPacket p # es) = response_to status (unat s) es \<and>
        me_reqs (on_packet status p m) s = Some rid) \<or>
     (\<exists>r. response_to status (unat s) (MercuryPacket p # es) = Some r \<and> (rid, r) \<in> set (me_answers (on_packet status p m)))"
proof (cases "fst p = mercury_req_type \<and> (\<exists>seq cnt rest. read_head (snd p) = Head seq cnt rest)")
  case False
  then show ?thesis using assms by (cases "read_head (snd p)") (auto simp: on_packet_def)
next
  case True
  then obtain seq cnt rest where h: "fst p = mercury_req_type" "read_head (snd p) = Head seq cnt rest" by blast
  note w = seq_word [OF read_head_seq [OF h(2)], of s]
  show ?thesis
  proof (cases "seq = unat s")
    case True
    then have "on_packet status p m = answer rid (decoded status cnt rest) (m\<lparr>me_reqs := (me_reqs m)(s := None)\<rparr>)"
      using h assms w by (auto simp: on_packet_def decoded_def Let_def split: list.split option.split)
    with True h show ?thesis by simp
  next
    case False
    then have "me_reqs (on_packet status p m) s = Some rid"
      using h assms w by (auto simp: on_packet_def Let_def split: list.split option.split)
    with False h show ?thesis by simp
  qed
qed

text \<open>Answers are only ever added.\<close>

lemma mercury_answers_grow: "\<exists>zs. me_answers (foldl (mercury_step status) m es) = me_answers m @ zs"
proof (induction es arbitrary: m)
  case (Cons e es)
  have "\<exists>ys. me_answers (mercury_step status m e) = me_answers m @ ys"
  proof (cases e)
    case (MercuryRequest rid up h p)
    then show ?thesis by (auto simp: on_request_def Let_def split: option.split)
  next
    case (MercuryPacket p)
    then show ?thesis using on_packet_cases [of status p m] by auto
  qed
  with Cons [of "mercury_step status m e"] show ?case by auto
qed simp

definition settled :: "mercury \<Rightarrow> nat \<Rightarrow> mercury_response option \<Rightarrow> bool" where
  "settled m rid r \<longleftrightarrow> map_of (me_answers m) rid = r \<and> (rid \<in> waiting m \<longleftrightarrow> r = None)"

lemma settled_answered:
  assumes "mercury_ok (foldl (mercury_step status) m es)" and "(rid, r) \<in> set (me_answers m)"
  shows "settled (foldl (mercury_step status) m es) rid (Some r)"
proof -
  have "(rid, r) \<in> set (me_answers (foldl (mercury_step status) m es))"
    using mercury_answers_grow [of status m es] assms(2) by auto
  then show ?thesis using assms(1) by (force simp: settled_def mercury_ok_def)
qed

lemma settled_waiting:
  assumes "mercury_ok m" "mercury_ok (foldl (mercury_step status) m es)" "me_reqs m s = Some rid"
    and "distinct (request_ids es)" "set (request_ids es) \<inter> (waiting m \<union> fst ` set (me_answers m)) = {}"
    and "unat (me_seq m) + length (request_ids es) < 18446744073709551616"
  shows "settled (foldl (mercury_step status) m es) rid (response_to status (unat s) es)"
  using assms
proof (induction es arbitrary: m rule: request_ids.induct)
  case 1
  then have "rid \<in> waiting m" by (auto simp: waiting_def ran_def)
  moreover from this have "map_of (me_answers m) rid = None"
    using 1(1) by (auto simp: mercury_ok_def map_of_eq_None_iff)
  ultimately show ?case by (simp add: settled_def)
next
  case (2 rid' up h p es)
  let ?m = "on_request (can_send up) rid' h (split_payload p) m"
  have pre: "rid' \<notin> waiting m \<union> fst ` set (me_answers m)" "unat (me_seq m) < 18446744073709551615"
    using 2(6,7) by auto
  note ok = on_request_ok [OF 2(2) pre, of "can_send up" h "split_payload p"]
  have "s \<noteq> me_seq m" using 2(2,4) by (force simp: mercury_ok_def)
  then have "me_reqs ?m s = Some rid" using 2(4) by (auto simp: on_request_def Let_def split: option.split)
  moreover have "set (request_ids es) \<inter> (waiting ?m \<union> fst ` set (me_answers ?m)) = {}"
    using 2(5,6) unfolding ok(2) by auto
  ultimately have "settled (foldl (mercury_step status) ?m es) rid (response_to status (unat s) es)"
    using 2(3,5,7) ok by (intro 2(1)) auto
  then show ?case by simp
next
  case (3 p es)
  let ?m = "on_packet status p m"
  note ok = on_packet_ok [OF 3(2), of status p]
  from on_packet_waiting [OF 3(4), of status p es] show ?case
  proof (elim disjE conjE exE)
    assume r: "response_to status (unat s) (MercuryPacket p # es) = response_to status (unat s) es"
      and w: "me_reqs ?m s = Some rid"
    have "set (request_ids es) \<inter> (waiting ?m \<union> fst ` set (me_answers ?m)) = {}"
      using 3(6) unfolding ok(2) by simp
    with 3 ok w have "settled (foldl (mercury_step status) ?m es) rid (response_to status (unat s) es)"
      by (intro 3(1)) auto
    then show ?thesis unfolding r by simp
  next
    fix r
    assume r: "response_to status (unat s) (MercuryPacket p # es) = Some r" and "(rid, r) \<in> set (me_answers ?m)"
    with 3(3) settled_answered [of status ?m es rid r] show ?thesis unfolding r by simp
  qed
qed

lemma settled_outcomes:
  assumes "mercury_ok m" "distinct (request_ids es)"
    and "set (request_ids es) \<inter> (waiting m \<union> fst ` set (me_answers m)) = {}"
    and "unat (me_seq m) + length (request_ids es) < 18446744073709551616"
    and "(rid, r) \<in> set (outcomes status (unat (me_seq m)) es)"
  shows "settled (foldl (mercury_step status) m es) rid r"
  using assms
proof (induction es arbitrary: m rule: request_ids.induct)
  case (2 rid' up h p es)
  let ?m = "on_request (can_send up) rid' h (split_payload p) m"
  have pre: "rid' \<notin> waiting m \<union> fst ` set (me_answers m)" "unat (me_seq m) < 18446744073709551615"
    using 2(4,5) by auto
  note ok = on_request_ok [OF 2(2) pre, of "can_send up" h "split_payload p"]
  have dis: "set (request_ids es) \<inter> (waiting ?m \<union> fst ` set (me_answers ?m)) = {}"
    using 2(3,4) unfolding ok(2) by auto
  have le: "unat (me_seq ?m) + length (request_ids es) < 18446744073709551616" and d: "distinct (request_ids es)"
    using 2(3,5) ok(3) by auto
  have fin: "mercury_ok (foldl (mercury_step status) ?m es)"
    by (rule mercury_run_ok [OF ok(1) d dis le])
  show ?case
  proof (cases "(rid, r) \<in> set (outcomes status (Suc (unat (me_seq m))) es)")
    case True
    then have "settled (foldl (mercury_step status) ?m es) rid r"
      using dis le d ok by (intro 2(1)) auto
    then show ?thesis by simp
  next
    case False
    with 2(6) have rid: "rid = rid'" and r: "r = (case h of
             None \<Rightarrow> Some (Inl ''failed marshaling mercury header'')
           | Some hdr \<Rightarrow>
               if can_send up (mercury_frame (unat (me_seq m)) (hdr # split_payload p)) then response_to status (unat (me_seq m)) es
               else Some (Inl ''failed sending mercury request''))" by auto
    have "(\<exists>e. r = Some e \<and> (rid, e) \<in> set (me_answers ?m)) \<or>
        (r = response_to status (unat (me_seq m)) es \<and> me_reqs ?m (me_seq m) = Some rid)"
      unfolding rid r by (auto simp: on_request_def Let_def split: option.split)
    then have "settled (foldl (mercury_step status) ?m es) rid r"
      using settled_answered [OF fin] settled_waiting [OF ok(1) fin _ d dis le] by blast
    then show ?thesis by simp
  qed
next
  case (3 p es)
  note ok = on_packet_ok [OF 3(2), of status p]
  have "settled (foldl (mercury_step status) (on_packet status p m) es) rid r"
    using 3(3-6) ok by (intro 3(1)) auto
  then show ?case by simp
qed simp

lemma mercury_known:
  "fst ` set (me_answers (foldl (mercury_step status) m es)) \<union> waiting (foldl (mercury_step status) m es)
    \<subseteq> fst ` set (me_answers m) \<union> waiting m \<union> set (request_ids es)"
proof (induction es arbitrary: m rule: request_ids.induct)
  case (2 rid up h p es)
  have ran: "ran ((me_reqs m)(s := x)) \<subseteq> set_option x \<union> ran (me_reqs m)" for s x
    by (auto simp: ran_def)
  have "fst ` set (me_answers (on_request (can_send up) rid h (split_payload p) m)) \<union>
      waiting (on_request (can_send up) rid h (split_payload p) m) \<subseteq>
      insert rid (fst ` set (me_answers m) \<union> waiting m)"
    using ran [of "me_seq m" None] ran [of "me_seq m" "Some rid"]
    by (auto simp: on_request_def Let_def waiting_def split: option.split)
  with 2 [of "on_request (can_send up) rid h (split_payload p) m"]
  show ?case unfolding foldl_Cons mercury_step.simps request_ids.simps list.set by blast
next
  case (3 p es)
  have "fst ` set (me_answers (on_packet status p m)) \<union> waiting (on_packet status p m) \<subseteq>
      fst ` set (me_answers m) \<union> waiting m"
  proof (cases "on_packet status p m = m")
    case False
    then obtain s rid r where q: "me_reqs m s = Some rid"
      "on_packet status p m = answer rid r (m\<lparr>me_reqs := (me_reqs m)(s := None)\<rparr>)"
      using on_packet_cases [of status p m] by blast
    moreover have "ran ((me_reqs m)(s := None)) \<subseteq> ran (me_reqs m)" by (auto simp: ran_def)
    moreover have "rid \<in> ran (me_reqs m)" using q(1) by (rule ranI)
    ultimately show ?thesis by (auto simp: waiting_def)
  qed simp
  with 3 [of "on_packet status p m"]
  show ?case unfolding foldl_Cons mercury_step.simps request_ids.simps by blast
qed auto

subsection \<open>Properties\<close>

text \<open>C13: Every request gets exactly the outcome that its events owe it, whatever packets arrive. In a
  run with distinct requests, fewer than 2 to the 64, every response channel gets at most one
  response, so that its buffer of one never blocks the loop; the n-th request is told that its header
  could not be marshalled or its frame not be sent, or else what is in the first packet after it that
  carries its number n; as long as there is no such packet it waits and is told nothing. Nobody
  else is told anything.\<close>

theorem mercury_answers_once:
  assumes "distinct (request_ids es)" and "length (request_ids es) < 18446744073709551616"
    and "m = foldl (mercury_step status) new_mercury es"
  shows "distinct (map fst (me_answers m)) \<and>
    (\<forall>(rid, r) \<in> set (outcomes status 0 es). map_of (me_answers m) rid = r \<and> (rid \<in> waiting m \<longleftrightarrow> r = None)) \<and>
    fst ` set (me_answers m) \<union> waiting m \<subseteq> set (request_ids es)"
proof -
  have new: "me_answers new_mercury = []" "waiting new_mercury = {}" "unat (me_seq new_mercury) = 0"
    by (simp_all add: new_mercury_def waiting_def)
  have "mercury_ok m"
    using assms new by (auto intro: mercury_run_ok new_mercury_ok)
  moreover have "settled m rid r" if "(rid, r) \<in> set (outcomes status 0 es)" for rid r
    unfolding assms(3) using assms new that by (intro settled_outcomes new_mercury_ok) auto
  moreover have "fst ` set (me_answers m) \<union> waiting m \<subseteq> set (request_ids es)"
    using mercury_known [of status new_mercury es] new assms(3) by simp
  ultimately show ?thesis by (auto simp: mercury_ok_def settled_def)
qed

text \<open>C14: A request and its response cross the connection. What goes out is one frame, which the other
  side reads back as the sequence number of the request, its header and the parts of its payload;
  and the frame that answers this number, with a header of status 200 and a payload cut into parts,
  is read back as that payload and is what the caller gets.\<close>

theorem mercury_exchange:
  fixes rid :: nat
  assumes "can_send up (mercury_frame (unat (me_seq m)) (h # split_payload payload))"
    and "frame_ok (unat (me_seq m), h' # split_payload reply)" and "status h' = Some (Some 200)"
  defines "m' \<equiv> foldl (mercury_step status) m
      [MercuryRequest rid up (Some h) payload,
       MercuryPacket (mercury_req_type, mercury_frame (unat (me_seq m)) (h' # split_payload reply))]"
  shows "(\<exists>frame parts. me_sent m' = me_sent m @ [frame] \<and> length frame \<le> 65535 \<and>
      parse_frame frame = Some ((unat (me_seq m), h # parts), []) \<and> concat parts = payload) \<and>
    me_answers m' = me_answers m @ [(rid, Inr (Some 200, split_payload reply))] \<and>
    request_result (Inr (Some 200, split_payload reply)) = Return reply \<and>
    me_reqs m' (me_seq m) = None"
proof -
  let ?parts = "h' # split_payload reply"
  let ?frame = "mercury_frame (unat (me_seq m)) (h # split_payload payload)"
  have head: "read_head (mercury_frame (unat (me_seq m)) ?parts) =
      Head (unat (me_seq m)) (length ?parts) (concat (map part_bytes ?parts))"
    using read_head_frame [OF assms(2), of "[]"] by simp
  have "read_parts (length ?parts) (concat (map part_bytes ?parts) @ []) = (?parts, [])"
    by (rule read_parts_bytes) (use assms(2) in \<open>auto simp: frame_ok_def\<close>)
  then have parts: "fst (read_parts (length ?parts) (concat (map part_bytes ?parts))) = ?parts"
    by (simp only: append_Nil2 fst_conv)
  have m': "m' = answer rid (Inr (Some 200, split_payload reply))
      (m\<lparr>me_seq := me_seq m + 1, me_sent := me_sent m @ [?frame], me_reqs := (me_reqs m)(me_seq m := None)\<rparr>)"
    unfolding m'_def using assms(1,3) head parts
    by (simp add: on_request_def on_packet_def Let_def del: read_parts.simps)
  have fits: "length ?frame \<le> 65535" using assms(1) by (simp add: can_send_def)
  then have "frame_ok (unat (me_seq m), h # split_payload payload)"
    by (rule sent_frame_ok)
  then have "parse_frame ?frame = Some ((unat (me_seq m), h # split_payload payload), [])"
    using frames.dec_enc_all [of "(unat (me_seq m), h # split_payload payload)"] by simp
  with fits have "me_sent m' = me_sent m @ [?frame] \<and> length ?frame \<le> 65535 \<and>
      parse_frame ?frame = Some ((unat (me_seq m), h # split_payload payload), []) \<and>
      concat (split_payload payload) = payload"
    by (simp add: m')
  then show ?thesis unfolding m' by auto
qed

text \<open>The split of the payload cannot help: all parts travel in one packet, whose limit is the size of
  one part, so a request with a second part always fails.\<close>

lemma large_request_fails:
  assumes "length payload > 65535"
  shows "me_answers (mercury_step status m (MercuryRequest rid up (Some h) payload)) =
    me_answers m @ [(rid, Inl ''failed sending mercury request'')]"
proof -
  have "length (mercury_frame s (h # split_payload payload)) > 65535" for s
    using assms by (simp add: length_mercury_frame)
  then have "\<not> can_send up (mercury_frame s (h # split_payload payload))" for s
    by (simp add: can_send_def not_le)
  then show ?thesis by (simp add: on_request_def Let_def)
qed

lemma chunks_short: "xs \<noteq> [] \<Longrightarrow> length xs \<le> n \<Longrightarrow> chunks n xs = [xs]"
  by (subst chunks.simps, cases "n = 0") (simp_all add: chunks.simps)

theorem mercury_answers_once_witness:
  "let m = foldl (mercury_step (\<lambda>h. Some (Some 200))) new_mercury
       [MercuryRequest 7 True (Some [9]) [1], MercuryRequest 8 False (Some [9]) [], MercuryRequest 9 True (Some [9]) [2],
        MercuryPacket (mercury_req_type, mercury_frame 2 [[9], [5]])]
   in map_of (me_answers m) 7 = None \<and> 7 \<in> waiting m \<and>
      map_of (me_answers m) 8 = Some (Inl ''failed sending mercury request'') \<and>
      map_of (me_answers m) 9 = Some (Inr (Some 200, [[5]]))"
proof -
  let ?es = "[MercuryRequest 7 True (Some [9]) [1], MercuryRequest 8 False (Some [9]) [], MercuryRequest 9 True (Some [9]) [2],
        MercuryPacket (mercury_req_type, mercury_frame 2 [[9], [5]])]"
  have s: "split_payload [1] = [[1]]" "split_payload [2] = [[2]]" "split_payload [] = []"
    by (simp_all add: split_payload_def max_part_def chunks_short chunks.simps)
  have "read_head (mercury_frame 2 [[9], [5]]) = Head 2 2 (part_bytes [9] @ part_bytes [5])"
    using read_head_frame [of 2 "[[9], [5]]" "[]"] by (simp add: frame_ok_def)
  moreover have "read_parts (length [[9], [5 :: byte]]) (concat (map part_bytes [[9], [5]]) @ []) = ([[9], [5]], [])"
    by (rule read_parts_bytes) auto
  then have "fst (read_parts 2 (part_bytes [9] @ part_bytes [5 :: byte])) = [[9], [5]]"
    by (simp add: numeral_2_eq_2 del: read_parts.simps)
  ultimately have "outcomes (\<lambda>h. Some (Some 200)) 0 ?es =
      [(7, None), (8, Some (Inl ''failed sending mercury request'')), (9, Some (Inr (Some 200, [[5]])))]"
    by (simp add: s can_send_def length_mercury_frame decoded_def del: read_parts.simps)
  then show ?thesis
    using mercury_answers_once [OF _ _ refl, of ?es "\<lambda>h. Some (Some 200)"]
    by (simp add: Let_def del: mercury_step.simps)
qed

theorem mercury_exchange_witness:
  "me_answers (foldl (mercury_step (\<lambda>h. Some (Some 200))) new_mercury
      [MercuryRequest 7 True (Some [9]) [1, 2],
       MercuryPacket (mercury_req_type, mercury_frame 0 ([9] # split_payload [5, 6, 7]))]) =
    [(7, Inr (Some 200, split_payload [5, 6, 7]))]"
proof -
  have s: "split_payload [1, 2] = [[1, 2]]" "split_payload [5, 6, 7] = [[5, 6, 7]]"
    by (simp_all add: split_payload_def max_part_def chunks_short)
  have seq: "unat (me_seq new_mercury) = 0" "me_answers new_mercury = []" by (simp_all add: new_mercury_def)
  show ?thesis
    using mercury_exchange [of True new_mercury "[9]" "[1, 2]" "[9]" "[5, 6, 7]" "\<lambda>h. Some (Some 200)" 7]
    by (simp add: seq can_send_def length_mercury_frame s frame_ok_def del: mercury_step.simps)
qed

end
