(* ===== verification/Dealer.thy ===== *)
theory Dealer
  imports Interfaces GoLib Traces "HOL-Library.AList"
begin

text \<open>
  The dealer (\<open>dealer/recv.go\<close>, \<open>dealer/dealer.go\<close>, \<open>dealer/msg.go\<close>): the websocket over which
  Spotify pushes messages and sends requests. Messages go to every receiver with a matching uri
  prefix, requests to the one receiver of their ident; both through bounded channels that the
  read loop never waits for. A request is answered by a goroutine of its own.

  The channels are lists with their capacity, the goroutines that wait for the answer of a
  handler a list of the requests they wait for, and what is written to the websocket a ghost list.
  The decompression of \<open>compress/gzip\<close> is a parameter.
\<close>

subsection \<open>Base64\<close>

definition base64_alphabet :: string where
  "base64_alphabet = ''ABCDEFGHIJKLMNOPQRSTUVWXYZabcdefghijklmnopqrstuvwxyz0123456789+/''"

fun index_in :: "char \<Rightarrow> string \<Rightarrow> nat option" where
  "index_in c [] = None"
| "index_in c (x # xs) = (if x = c then Some 0 else map_option Suc (index_in c xs))"

definition digit64 :: "char \<Rightarrow> nat option" where
  "digit64 c = index_in c base64_alphabet"

text \<open>\<open>StdEncoding.DecodeString\<close>: groups of four digits, the last one padded; line ends are skipped.\<close>

fun decode_groups :: "string \<Rightarrow> byte list option" where
  "decode_groups [] = Some []"
| "decode_groups (a # b # c # d # r) =
     (case (digit64 a, digit64 b) of
        (Some w, Some x) \<Rightarrow>
          (if c = CHR ''='' then (if d = CHR ''='' \<and> r = [] then Some [word_of_nat (w * 4 + x div 16)] else None)
           else case digit64 c of
                  None \<Rightarrow> None
                | Some y \<Rightarrow>
                    (if d = CHR ''='' then
                       (if r = [] then Some [word_of_nat (w * 4 + x div 16), word_of_nat (x mod 16 * 16 + y div 4)]
                        else None)
                     else case digit64 d of
                            None \<Rightarrow> None
                          | Some z \<Rightarrow>
                              map_option ((@) [word_of_nat (w * 4 + x div 16), word_of_nat (x mod 16 * 16 + y div 4),
                                  word_of_nat (y mod 4 * 64 + z)]) (decode_groups r)))
      | _ \<Rightarrow> None)"
| "decode_groups _ = None"

definition base64_decode :: "string \<Rightarrow> byte list option" where
  "base64_decode s = decode_groups (filter (\<lambda>c. c \<noteq> CHR 0x0A \<and> c \<noteq> CHR 0x0D) s)"

subsection \<open>Raw messages\<close>

text \<open>An element of \<open>payloads\<close>: a string, or some other JSON value.\<close>

datatype raw_payload = PayloadString string | PayloadOther

type_synonym headers = "(string \<times> string) list"

record raw_message =
  rm_type :: string
  rm_uri :: string
  rm_headers :: headers
  rm_ident :: string
  rm_key :: string
  rm_payloads :: "raw_payload list"
  rm_compressed :: "byte list"

definition dec_payload :: "json \<Rightarrow> raw_payload option" where
  "dec_payload j = Some (case j of JStr s \<Rightarrow> PayloadString s | _ \<Rightarrow> PayloadOther)"

definition dec_bytes :: "json \<Rightarrow> byte list option" where
  "dec_bytes j = (case j of JStr s \<Rightarrow> base64_decode s | JNull \<Rightarrow> Some [] | _ \<Rightarrow> None)"

definition dec_headers :: "json \<Rightarrow> headers option" where
  "dec_headers j =
     Option.bind (dec_map j) (\<lambda>kvs. dec_all (\<lambda>(k, v). map_option (Pair k) (dec_str v)) (rev kvs))"

definition dec_raw_message :: "json \<Rightarrow> raw_message option" where
  "dec_raw_message j = do {
     ty \<leftarrow> field ''type'' [] dec_str j;
     m \<leftarrow> field ''method'' [] dec_str j;
     uri \<leftarrow> field ''uri'' [] dec_str j;
     hs \<leftarrow> field ''headers'' [] dec_headers j;
     ident \<leftarrow> field ''message_ident'' [] dec_str j;
     key \<leftarrow> field ''key'' [] dec_str j;
     ps \<leftarrow> field ''payloads'' [] (dec_list dec_payload) j;
     c \<leftarrow> field ''payload'' [] (field ''compressed'' [] dec_bytes) j;
     Some \<lparr>rm_type = ty, rm_uri = uri, rm_headers = hs, rm_ident = ident, rm_key = key,
           rm_payloads = ps, rm_compressed = c\<rparr> }"

definition transfer_encoding :: string where "transfer_encoding = ''Transfer-Encoding''"

text \<open>The data after the transfer encoding, and the headers without it.\<close>

definition handle_transfer_encoding ::
    "(byte list \<Rightarrow> byte list option) \<Rightarrow> headers \<Rightarrow> byte list \<Rightarrow> (byte list \<times> headers) option" where
  "handle_transfer_encoding gunzip hs data =
     (case map_of hs transfer_encoding of
        None \<Rightarrow> Some (data, hs)
      | Some enc \<Rightarrow>
          if enc = ''gzip''
          then map_option (\<lambda>d. (d, filter (\<lambda>h. fst h \<noteq> transfer_encoding) hs)) (gunzip data)
          else None)"

subsection \<open>The dealer\<close>

record message =
  mg_uri :: string
  mg_headers :: headers
  mg_payload :: "byte list"

record message_receiver =
  mr_prefixes :: "string list"
  mr_queue :: "message list"

text \<open>A request in a channel: its number, and what its handler is given.\<close>

record dealer_request =
  dq_id :: nat
  dq_ident :: string
  dq_payload :: "byte list"

record request_receiver =
  rr_queue :: "dealer_request list"

text \<open>Where the goroutine of the read loop is: not started yet, at a read, at the start of a
  connection attempt, inside one (with the lock of the connection), in the pause after a failed
  one, or gone, its channels closed.\<close>

datatype dealer_place = NotStarted | Reading | Retrying | Dialing | Sleeping | Stopped

text \<open>
  The connections are numbered; \<open>de_conn\<close> is the one \<open>d.conn\<close> points to and \<open>de_closed\<close> those torn
  down. \<open>de_closer\<close> says that a goroutine waits for the lock in order to close the connection,
  \<open>de_pinging\<close> that the ticker is about to write a ping, \<open>de_kick\<close> that \<open>reconnectNow\<close> is full.
  The waiting goroutines are the numbers of their requests with the keys of the replies;
  \<open>de_replies\<close> are the calls of \<open>sendReply\<close> before the close: whether the connection takes the
  bytes is not recorded.
\<close>

record dealer =
  de_done :: bool
  de_receivers :: "message_receiver list"
  de_requests :: "(string \<times> request_receiver) list"
  de_next :: nat
  de_waiting :: "(nat \<times> string) list"
  de_replies :: "(nat \<times> string \<times> bool) list"
  de_place :: dealer_place
  de_conn :: "nat option"
  de_conns :: nat
  de_closed :: "nat list"
  de_closer :: bool
  de_pinging :: bool
  de_last_pong :: instant
  de_kick :: bool

definition new_dealer :: dealer where
  "new_dealer = \<lparr>de_done = False, de_receivers = [], de_requests = [], de_next = 0,
     de_waiting = [], de_replies = [], de_place = NotStarted, de_conn = None, de_conns = 0,
     de_closed = [], de_closer = False, de_pinging = False, de_last_pong = 0, de_kick = False\<rparr>"

definition ping_interval :: duration where "ping_interval = seconds 30"
definition dealer_timeout :: duration where "dealer_timeout = seconds 10"

definition message_receiver_buffer :: nat where "message_receiver_buffer = 32"
definition request_receiver_buffer :: nat where "request_receiver_buffer = 8"

definition matches :: "string \<Rightarrow> message_receiver \<Rightarrow> bool" where
  "matches uri r \<longleftrightarrow> list_ex (has_prefix uri) (mr_prefixes r)"

definition connection_prefix :: string where "connection_prefix = ''hm://pusher/v1/connections/''"

text \<open>A send that does not wait; a connection id drops the oldest message when the channel is
  full.\<close>

definition deliver_message :: "message \<Rightarrow> message_receiver \<Rightarrow> message_receiver" where
  "deliver_message msg r =
     (if length (mr_queue r) < message_receiver_buffer then r\<lparr>mr_queue := mr_queue r @ [msg]\<rparr>
      else if has_prefix (mg_uri msg) connection_prefix then r\<lparr>mr_queue := tl (mr_queue r) @ [msg]\<rparr>
      else r)"

text \<open>The payload of a message, when it has one that can be read.\<close>

definition first_payload :: "(byte list \<Rightarrow> byte list option) \<Rightarrow> raw_message \<Rightarrow> (byte list \<times> headers) option" where
  "first_payload gunzip raw =
     (case rm_payloads raw of
        [] \<Rightarrow> Some ([], rm_headers raw)
      | PayloadString s # _ \<Rightarrow>
          Option.bind (base64_decode s) (handle_transfer_encoding gunzip (rm_headers raw))
      | PayloadOther # _ \<Rightarrow> None)"

definition handle_message :: "(byte list \<Rightarrow> byte list option) \<Rightarrow> raw_message \<Rightarrow> dealer \<Rightarrow> dealer" where
  "handle_message gunzip raw d =
     (if \<not> list_ex (matches (rm_uri raw)) (de_receivers d) then d
      else case first_payload gunzip raw of
             None \<Rightarrow> d
           | Some (p, hs) \<Rightarrow>
               let msg = \<lparr>mg_uri = rm_uri raw, mg_headers = hs, mg_payload = p\<rparr>
               in d\<lparr>de_receivers := map (\<lambda>r. if matches (rm_uri raw) r then deliver_message msg r else r)
                      (de_receivers d)\<rparr>)"

text \<open>The first receiver starts the read loop and the ticker.\<close>

definition start_receiving :: "instant \<Rightarrow> dealer \<Rightarrow> dealer" where
  "start_receiving now d =
     (if de_place d = NotStarted
      then d\<lparr>de_place := Reading, de_last_pong := now + ping_interval\<rparr> else d)"

definition receive_message :: "instant \<Rightarrow> string list \<Rightarrow> dealer \<Rightarrow> unit outcome \<times> dealer" where
  "receive_message now prefixes d =
     (if prefixes = [] then (Panic ''uri prefixes list cannot be empty'', d)
      else if de_done d then (Return (), d)
      else (Return (), start_receiving now
             (d\<lparr>de_receivers := de_receivers d @ [\<lparr>mr_prefixes = prefixes, mr_queue = []\<rparr>]\<rparr>)))"

definition receive_request :: "instant \<Rightarrow> string \<Rightarrow> dealer \<Rightarrow> unit outcome \<times> dealer" where
  "receive_request now uri d =
     (if de_done d then (Return (), d)
      else if map_of (de_requests d) uri \<noteq> None then (Panic ''cannot have more request receivers'', d)
      else (Return (), start_receiving now (d\<lparr>de_requests := (uri, \<lparr>rr_queue = []\<rparr>) # de_requests d\<rparr>)))"

definition send_reply :: "nat \<Rightarrow> string \<Rightarrow> bool \<Rightarrow> dealer \<Rightarrow> dealer" where
  "send_reply i key success d =
     (if de_done d then d else d\<lparr>de_replies := de_replies d @ [(i, key, success)]\<rparr>)"

text \<open>A request; \<open>decodes\<close> tells whether its payload is a player command, \<open>pick\<close> which case the
  \<open>select\<close> takes when there is room but the dealer has been closed. With a full channel the failure
  is replied at once, otherwise a goroutine waits.\<close>

definition handle_request ::
    "(byte list \<Rightarrow> byte list option) \<Rightarrow> (byte list \<Rightarrow> bool) \<Rightarrow> bool \<Rightarrow> raw_message \<Rightarrow> dealer \<Rightarrow> dealer" where
  "handle_request gunzip decodes pick raw d =
     (case map_of (de_requests d) (rm_ident raw) of
        None \<Rightarrow> d
      | Some r \<Rightarrow>
          (case handle_transfer_encoding gunzip (rm_headers raw) (rm_compressed raw) of
             None \<Rightarrow> d
           | Some (p, _) \<Rightarrow>
               (if \<not> decodes p then d
                else
                  let i = de_next d; d1 = d\<lparr>de_next := Suc i\<rparr>
                  in if length (rr_queue r) < request_receiver_buffer \<and> \<not> (de_done d \<and> pick)
                     then d1\<lparr>de_requests := AList.update (rm_ident raw)
                                (r\<lparr>rr_queue := rr_queue r @ [\<lparr>dq_id = i, dq_ident = rm_ident raw, dq_payload = p\<rparr>]\<rparr>)
                                (de_requests d),
                             de_waiting := (if de_done d then [] else [(i, rm_key raw)]) @ de_waiting d\<rparr>
                     else if de_done d then d1
                     else send_reply i (rm_key raw) False d1)))"

text \<open>A waiting goroutine gets the answer of the handler, or its timer fires (\<open>None\<close>).\<close>

definition reply_waiting :: "nat \<Rightarrow> bool option \<Rightarrow> dealer \<Rightarrow> dealer" where
  "reply_waiting i r d =
     (case map_of (de_waiting d) i of
        None \<Rightarrow> d
      | Some key \<Rightarrow>
          send_reply i key (r = Some True) (d\<lparr>de_waiting := filter (\<lambda>w. fst w \<noteq> i) (de_waiting d)\<rparr>))"

subsection \<open>The connection\<close>

definition close_conn :: "dealer \<Rightarrow> dealer" where
  "close_conn d = (case de_conn d of None \<Rightarrow> d | Some c \<Rightarrow> d\<lparr>de_closed := List.insert c (de_closed d)\<rparr>)"

text \<open>\<open>closeConn\<close> takes the read lock first, which a connection attempt of the read loop holds.\<close>

definition request_close :: "dealer \<Rightarrow> dealer" where
  "request_close d = (if de_place d = Dialing then d\<lparr>de_closer := True\<rparr> else close_conn d)"

definition conn_alive :: "dealer \<Rightarrow> bool" where
  "conn_alive d \<longleftrightarrow> (case de_conn d of None \<Rightarrow> False | Some c \<Rightarrow> c \<notin> set (de_closed d))"

text \<open>\<open>connect\<close> after the token and the address: \<open>ok\<close> is the outcome of the dial. The connection
  it replaces is closed.\<close>

definition dial :: "bool \<Rightarrow> dealer \<Rightarrow> dealer" where
  "dial ok d =
     (if ok then (close_conn d)\<lparr>de_conn := Some (de_conns d), de_conns := Suc (de_conns d)\<rparr> else d)"

definition connect_dealer :: "bool \<Rightarrow> dealer \<Rightarrow> unit outcome \<times> dealer" where
  "connect_dealer ok d =
     (if de_done d then (Fail ''dealer closed'', d)
      else if de_conn d \<noteq> None then (Return (), d)
      else if ok then (Return (), dial True d) else (Fail ''dial'', d))"

definition close_dealer :: "dealer \<Rightarrow> dealer" where
  "close_dealer d =
     (if de_done d then d else request_close (d\<lparr>de_done := True, de_waiting := []\<rparr>))"

definition force_reconnect :: "dealer \<Rightarrow> dealer" where
  "force_reconnect d =
     (if de_done d then d
      else let d1 = d\<lparr>de_kick := True\<rparr> in if de_place d = Dialing then d1 else close_conn d1)"

text \<open>A tick of the pinger: it closes a connection without a recent pong, or writes a ping; the
  connection that does not take the ping is closed.\<close>

definition ping_tick :: "instant \<Rightarrow> dealer \<Rightarrow> dealer" where
  "ping_tick now d =
     (if de_done d \<or> de_place d = NotStarted \<or> de_pinging d then d
      else if time_sub now (de_last_pong d) > ping_interval + dealer_timeout then request_close d
      else d\<lparr>de_pinging := True\<rparr>)"

definition ping_write :: "bool \<Rightarrow> dealer \<Rightarrow> dealer" where
  "ping_write ok d =
     (if \<not> de_pinging d \<or> de_place d = Dialing then d
      else let d1 = d\<lparr>de_pinging := False\<rparr>
           in if de_done d \<or> (ok \<and> conn_alive d) then d1 else close_conn d1)"

subsection \<open>The read loop\<close>

text \<open>A text message by its type; \<open>None\<close> breaks the loop.\<close>

definition recv_message ::
    "(byte list \<Rightarrow> byte list option) \<Rightarrow> (byte list \<Rightarrow> bool) \<Rightarrow> bool \<Rightarrow> instant \<Rightarrow> string \<Rightarrow> dealer \<Rightarrow> dealer option" where
  "recv_message gunzip decodes pick now txt d =
     (case Option.bind (json_parse txt) dec_raw_message of
        None \<Rightarrow> None
      | Some raw \<Rightarrow>
          Some (if rm_type raw = ''message'' then handle_message gunzip raw d
                else if rm_type raw = ''request'' then handle_request gunzip decodes pick raw d
                else if rm_type raw = ''pong'' then d\<lparr>de_last_pong := now\<rparr>
                else d))"

definition leave_loop :: "dealer \<Rightarrow> dealer" where
  "leave_loop d = (close_conn d)\<lparr>de_place := (if de_done d then Stopped else Retrying)\<rparr>"

datatype read_result = ReadText string | ReadBinary | ReadError

definition recv_read ::
    "(byte list \<Rightarrow> byte list option) \<Rightarrow> (byte list \<Rightarrow> bool) \<Rightarrow> bool \<Rightarrow> instant \<Rightarrow> read_result \<Rightarrow> dealer \<Rightarrow> dealer" where
  "recv_read gunzip decodes pick now r d =
     (if de_place d \<noteq> Reading then d
      else if de_done d then leave_loop d
      else case (if conn_alive d then r else ReadError) of
             ReadError \<Rightarrow> leave_loop d
           | ReadBinary \<Rightarrow> d
           | ReadText txt \<Rightarrow>
               (case recv_message gunzip decodes pick now txt d of
                  None \<Rightarrow> leave_loop d
                | Some d1 \<Rightarrow> d1))"

text \<open>The retry loop: an attempt starts, it ends (and the lock is free), the pause ends.\<close>

definition start_dial :: "dealer \<Rightarrow> dealer" where
  "start_dial d =
     (if de_place d \<noteq> Retrying then d
      else d\<lparr>de_place := (if de_done d then Stopped else Dialing)\<rparr>)"

definition dial_ends :: "instant \<Rightarrow> bool \<Rightarrow> dealer \<Rightarrow> dealer" where
  "dial_ends now ok d =
     (if de_place d \<noteq> Dialing then d
      else
        let d1 = dial ok d;
            d2 = (if ok then d1\<lparr>de_place := Reading, de_last_pong := now + ping_interval\<rparr>
                  else d1\<lparr>de_place := Sleeping\<rparr>)
        in if de_closer d then (close_conn d2)\<lparr>de_closer := False\<rparr> else d2)"

datatype wake_cause = ByDone | ByKick | ByTimer

definition wake :: "wake_cause \<Rightarrow> dealer \<Rightarrow> dealer" where
  "wake cause d =
     (if de_place d \<noteq> Sleeping then d
      else case cause of
             ByDone \<Rightarrow> if de_done d then d\<lparr>de_place := Stopped\<rparr> else d
           | ByKick \<Rightarrow> if de_kick d then d\<lparr>de_place := Retrying, de_kick := False\<rparr> else d
           | ByTimer \<Rightarrow> d\<lparr>de_place := Retrying\<rparr>)"

subsection \<open>The events\<close>

text \<open>A receiver takes the oldest message of its channel.\<close>

definition take_message :: "nat \<Rightarrow> dealer \<Rightarrow> dealer" where
  "take_message i d =
     (if i < length (de_receivers d)
      then d\<lparr>de_receivers := (de_receivers d)[i := (de_receivers d ! i)\<lparr>mr_queue := tl (mr_queue (de_receivers d ! i))\<rparr>]\<rparr>
      else d)"

definition take_request :: "string \<Rightarrow> dealer \<Rightarrow> dealer" where
  "take_request uri d =
     (case map_of (de_requests d) uri of
        None \<Rightarrow> d
      | Some r \<Rightarrow> d\<lparr>de_requests := AList.update uri (r\<lparr>rr_queue := tl (rr_queue r)\<rparr>) (de_requests d)\<rparr>)"

datatype dealer_event =
  ReceiveMessage instant "string list"
| ReceiveRequest instant string
| ConnectDealer bool
| CloseDealer
| ForceReconnect
| PingTick instant
| PingWrite bool
| RecvRead bool instant read_result
| StartDial
| DialEnds instant bool
| Wake wake_cause
| TakeMessage nat
| TakeRequest string
| ReplyWaiting nat "bool option"

primrec dealer_step ::
    "(byte list \<Rightarrow> byte list option) \<Rightarrow> (byte list \<Rightarrow> bool) \<Rightarrow> dealer \<Rightarrow> dealer_event \<Rightarrow> dealer" where
  "dealer_step gunzip decodes d (ReceiveMessage now prefixes) = snd (receive_message now prefixes d)"
| "dealer_step gunzip decodes d (ReceiveRequest now uri) = snd (receive_request now uri d)"
| "dealer_step gunzip decodes d (ConnectDealer ok) =
     (if de_place d = Dialing then d else snd (connect_dealer ok d))"
| "dealer_step gunzip decodes d CloseDealer = close_dealer d"
| "dealer_step gunzip decodes d ForceReconnect = force_reconnect d"
| "dealer_step gunzip decodes d (PingTick now) = ping_tick now d"
| "dealer_step gunzip decodes d (PingWrite ok) = ping_write ok d"
| "dealer_step gunzip decodes d (RecvRead pick now r) = recv_read gunzip decodes pick now r d"
| "dealer_step gunzip decodes d StartDial = start_dial d"
| "dealer_step gunzip decodes d (DialEnds now ok) = dial_ends now ok d"
| "dealer_step gunzip decodes d (Wake cause) = wake cause d"
| "dealer_step gunzip decodes d (TakeMessage i) = take_message i d"
| "dealer_step gunzip decodes d (TakeRequest uri) = take_request uri d"
| "dealer_step gunzip decodes d (ReplyWaiting i r) = reply_waiting i r d"

definition dealer_run ::
    "(byte list \<Rightarrow> byte list option) \<Rightarrow> (byte list \<Rightarrow> bool) \<Rightarrow> dealer_event list \<Rightarrow> dealer" where
  "dealer_run gunzip decodes es = foldl (dealer_step gunzip decodes) new_dealer es"

subsection \<open>The invariant of every run\<close>

definition buffers_ok :: "dealer \<Rightarrow> bool" where
  "buffers_ok d \<longleftrightarrow>
     (\<forall>r \<in> set (de_receivers d). length (mr_queue r) \<le> message_receiver_buffer) \<and>
     (\<forall>r \<in> snd ` set (de_requests d). length (rr_queue r) \<le> request_receiver_buffer)"

definition replies_ok :: "dealer \<Rightarrow> bool" where
  "replies_ok d \<longleftrightarrow>
     distinct (map fst (de_waiting d) @ map fst (de_replies d)) \<and>
     (\<forall>i \<in> set (map fst (de_waiting d) @ map fst (de_replies d)). i < de_next d) \<and>
     (\<not> de_done d \<longrightarrow> {..<de_next d} \<subseteq> set (map fst (de_waiting d) @ map fst (de_replies d)))"

definition connection_ok :: "dealer \<Rightarrow> bool" where
  "connection_ok d \<longleftrightarrow>
     (\<forall>c \<in> set (de_closed d). c < de_conns d) \<and>
     (\<forall>c. de_conn d = Some c \<longrightarrow> c < de_conns d) \<and>
     (de_closer d \<longrightarrow> de_place d = Dialing) \<and>
     (de_place d = Stopped \<longrightarrow> de_done d)"

lemmas dealer_ops =
  receive_message_def receive_request_def start_receiving_def connect_dealer_def dial_def
  close_dealer_def request_close_def close_conn_def force_reconnect_def ping_tick_def ping_write_def
  leave_loop_def start_dial_def dial_ends_def wake_def

text \<open>What an event that is neither a read nor the work of a receiver leaves alone.\<close>

definition same_queues :: "dealer \<Rightarrow> dealer \<Rightarrow> bool" where
  "same_queues d d' \<longleftrightarrow> de_receivers d' = de_receivers d \<and> de_requests d' = de_requests d \<and>
     de_next d' = de_next d \<and> de_waiting d' = de_waiting d \<and> de_replies d' = de_replies d \<and>
     de_done d' = de_done d"

lemma close_conn_same [simp]: "same_queues d (close_conn d)"
  by (simp add: close_conn_def same_queues_def split: option.split)

lemma same_queues_ok: "same_queues d d' \<Longrightarrow> buffers_ok d' = buffers_ok d \<and> replies_ok d' = replies_ok d"
  by (simp add: same_queues_def buffers_ok_def replies_ok_def)

lemma connection_events_same:
  "same_queues d (leave_loop d)" "same_queues d (start_dial d)" "same_queues d (dial_ends now ok d)"
  "same_queues d (wake cause d)" "same_queues d (force_reconnect d)" "same_queues d (ping_tick now d)"
  "same_queues d (ping_write ok d)" "same_queues d (snd (connect_dealer ok d))"
  by (simp add: dealer_ops same_queues_def split: option.split,
      simp add: dealer_ops same_queues_def,
      simp add: dial_ends_def dial_def close_conn_def same_queues_def Let_def split: option.split,
      simp add: wake_def same_queues_def split: wake_cause.split,
      simp add: force_reconnect_def close_conn_def same_queues_def Let_def split: option.split,
      simp add: ping_tick_def request_close_def close_conn_def same_queues_def split: option.split,
      simp add: ping_write_def close_conn_def same_queues_def Let_def split: option.split,
      simp add: connect_dealer_def dial_def close_conn_def same_queues_def split: option.split)

text \<open>What the handlers leave alone: everything that concerns the connection.\<close>

definition same_connection :: "dealer \<Rightarrow> dealer \<Rightarrow> bool" where
  "same_connection d d' \<longleftrightarrow> de_conn d' = de_conn d \<and> de_conns d' = de_conns d \<and>
     de_closed d' = de_closed d \<and> de_closer d' = de_closer d \<and> de_place d' = de_place d \<and>
     de_done d' = de_done d \<and> de_kick d' = de_kick d"

lemma same_connection_ok: "same_connection d d' \<Longrightarrow> connection_ok d' = connection_ok d"
  by (simp add: same_connection_def connection_ok_def)

lemma handlers_same_connection:
  "same_connection d (handle_message gunzip raw d)"
  "same_connection d (handle_request gunzip decodes pick raw d)"
  "same_connection d (reply_waiting i r d)"
  "same_connection d (take_message i d)" "same_connection d (take_request uri d)"
  by (simp add: handle_message_def same_connection_def Let_def split: option.split,
      simp add: handle_request_def send_reply_def same_connection_def Let_def split: option.split,
      simp add: reply_waiting_def send_reply_def same_connection_def split: option.split,
      simp add: take_message_def same_connection_def,
      simp add: take_request_def same_connection_def split: option.split)

lemma recv_message_same_connection:
  "recv_message gunzip decodes pick now txt d = Some d1 \<Longrightarrow> same_connection d d1"
  using handlers_same_connection(1) [of d gunzip] handlers_same_connection(2) [of d gunzip decodes pick]
  by (auto simp: recv_message_def same_connection_def split: option.splits if_splits)

lemma deliver_message_bounded:
  "length (mr_queue r) \<le> message_receiver_buffer \<Longrightarrow>
    length (mr_queue (deliver_message msg r)) \<le> message_receiver_buffer"
  by (simp add: deliver_message_def message_receiver_buffer_def)

lemma handle_message_parts:
  "de_receivers (handle_message gunzip raw d) = de_receivers d \<or>
   (\<exists>msg. de_receivers (handle_message gunzip raw d) =
      map (\<lambda>r. if matches (rm_uri raw) r then deliver_message msg r else r) (de_receivers d))"
  "de_requests (handle_message gunzip raw d) = de_requests d"
  "de_next (handle_message gunzip raw d) = de_next d"
  "de_waiting (handle_message gunzip raw d) = de_waiting d"
  "de_replies (handle_message gunzip raw d) = de_replies d"
  "de_done (handle_message gunzip raw d) = de_done d"
  by (auto simp: handle_message_def Let_def split: option.split)

lemma handle_message_ok:
  assumes "buffers_ok d" "replies_ok d"
  shows "buffers_ok (handle_message gunzip raw d)" "replies_ok (handle_message gunzip raw d)"
  using assms handle_message_parts(1) [of gunzip raw d] deliver_message_bounded
  by (auto simp: buffers_ok_def replies_ok_def handle_message_parts(2-6))

lemma update_bounded:
  "\<forall>x \<in> snd ` set kvs. P x \<Longrightarrow> P v \<Longrightarrow> \<forall>x \<in> snd ` set (AList.update k v kvs). P x"
  by (induction kvs) (auto split: if_splits)

lemma map_of_snd: "map_of kvs k = Some v \<Longrightarrow> v \<in> snd ` set kvs"
  by (metis image_eqI map_of_SomeD snd_conv)

lemma lessThan_Suc_new: "{..<Suc n} \<subseteq> insert n A \<longleftrightarrow> {..<n} \<subseteq> insert n A"
  by (auto simp: lessThan_Suc)

lemma replies_ok_new_waiting:
  "replies_ok d \<Longrightarrow> \<not> de_done d \<Longrightarrow>
    replies_ok (d\<lparr>de_next := Suc (de_next d), de_requests := rs, de_waiting := (de_next d, k) # de_waiting d\<rparr>)"
  by (auto simp: replies_ok_def lessThan_Suc less_Suc_eq)

lemma replies_ok_new_reply:
  "replies_ok d \<Longrightarrow> \<not> de_done d \<Longrightarrow>
    replies_ok (d\<lparr>de_next := Suc (de_next d), de_replies := de_replies d @ [(de_next d, k, b)]\<rparr>)"
  by (auto simp: replies_ok_def lessThan_Suc less_Suc_eq)

lemma handle_request_outcome [consumes 1]:
  assumes "\<not> de_done d"
  obtains (ignored) "handle_request gunzip decodes pick raw d = d"
    | (queued) r q where "map_of (de_requests d) (rm_ident raw) = Some r"
        "length (rr_queue r) < request_receiver_buffer" "length (rr_queue q) = Suc (length (rr_queue r))"
        "handle_request gunzip decodes pick raw d =
           d\<lparr>de_next := Suc (de_next d), de_requests := AList.update (rm_ident raw) q (de_requests d),
             de_waiting := (de_next d, rm_key raw) # de_waiting d\<rparr>"
    | (full) "handle_request gunzip decodes pick raw d =
           d\<lparr>de_next := Suc (de_next d), de_replies := de_replies d @ [(de_next d, rm_key raw, False)]\<rparr>"
proof (cases "map_of (de_requests d) (rm_ident raw)")
  case None
  then show ?thesis by (intro ignored) (simp add: handle_request_def)
next
  case (Some r)
  show ?thesis
  proof (cases "handle_transfer_encoding gunzip (rm_headers raw) (rm_compressed raw)")
    case None
    with Some show ?thesis by (intro ignored) (simp add: handle_request_def)
  next
    case S2: (Some ph)
    obtain p hs where ph: "ph = (p, hs)" by (cases ph)
    show ?thesis
    proof (cases "decodes p")
      case False
      with Some S2 ph show ?thesis by (intro ignored) (simp add: handle_request_def)
    next
      case True
      show ?thesis
      proof (cases "length (rr_queue r) < request_receiver_buffer")
        case True
        with Some S2 ph \<open>decodes p\<close> assms show ?thesis
          by (intro queued [where r = r]) (simp_all add: handle_request_def Let_def)
      next
        case False
        with Some S2 ph \<open>decodes p\<close> assms show ?thesis
          by (intro full) (simp add: handle_request_def Let_def send_reply_def)
      qed
    qed
  qed
qed


lemma handle_request_ok:
  assumes "\<not> de_done d" "buffers_ok d" "replies_ok d"
  shows "buffers_ok (handle_request gunzip decodes pick raw d) \<and>
    replies_ok (handle_request gunzip decodes pick raw d)"
using assms(1)
proof (cases rule: handle_request_outcome [where gunzip = gunzip and decodes = decodes and pick = pick and raw = raw])
  case ignored
  with assms show ?thesis by simp
next
  case (queued r q)
  then have "\<forall>x \<in> snd ` set (AList.update (rm_ident raw) q (de_requests d)).
      length (rr_queue x) \<le> request_receiver_buffer"
    using assms(2) by (intro update_bounded) (auto simp: buffers_ok_def)
  with queued assms replies_ok_new_waiting [OF assms(3,1)] show ?thesis by (simp add: buffers_ok_def)
next
  case full
  with assms replies_ok_new_reply [OF assms(3,1)] show ?thesis by (simp add: buffers_ok_def)
qed

lemma filter_waiting: "map fst (filter (\<lambda>w. fst w \<noteq> i) ws) = filter (\<lambda>j. j \<noteq> i) (map fst ws)"
  by (induction ws) auto

lemma reply_waiting_ok:
  assumes "buffers_ok d" "replies_ok d"
  shows "buffers_ok (reply_waiting i r d) \<and> replies_ok (reply_waiting i r d)"
proof (cases "map_of (de_waiting d) i")
  case None
  with assms show ?thesis by (simp add: reply_waiting_def)
next
  case (Some key)
  then have "i \<in> set (map fst (de_waiting d))" by (auto dest: map_of_SomeD intro: rev_image_eqI)
  with assms Some show ?thesis
    by (auto simp: reply_waiting_def send_reply_def buffers_ok_def replies_ok_def filter_waiting simp del: set_map)
qed

lemma take_ok:
  assumes "buffers_ok d" "replies_ok d"
  shows "buffers_ok (take_message i d)" "replies_ok (take_message i d)"
    "buffers_ok (take_request uri d)" "replies_ok (take_request uri d)"
proof -
  show "replies_ok (take_message i d)" "replies_ok (take_request uri d)"
    using assms by (simp_all add: take_message_def take_request_def replies_ok_def split: option.split)
  have "length (mr_queue (de_receivers d ! i)) - 1 \<le> message_receiver_buffer" if "i < length (de_receivers d)"
    using assms(1) nth_mem [OF that] by (auto simp: buffers_ok_def intro: le_trans [OF diff_le_self])
  then show "buffers_ok (take_message i d)"
    using assms(1)
    by (auto simp: take_message_def buffers_ok_def dest!: set_update_subset_insert [THEN subsetD])
  show "buffers_ok (take_request uri d)"
  proof (cases "map_of (de_requests d) uri")
    case None
    with assms show ?thesis by (simp add: take_request_def)
  next
    case (Some r)
    then have "length (rr_queue r) \<le> request_receiver_buffer"
      using assms(1) map_of_SomeD [OF Some] by (fastforce simp: buffers_ok_def)
    then have "\<forall>x \<in> snd ` set (AList.update uri (r\<lparr>rr_queue := tl (rr_queue r)\<rparr>) (de_requests d)).
        length (rr_queue x) \<le> request_receiver_buffer"
      using assms(1) by (intro update_bounded) (auto simp: buffers_ok_def)
    with Some assms(1) show ?thesis by (simp add: take_request_def buffers_ok_def)
  qed
qed

lemma receive_ok:
  assumes "buffers_ok d" "replies_ok d"
  shows "buffers_ok (snd (receive_message now ps d)) \<and> replies_ok (snd (receive_message now ps d))"
    "buffers_ok (snd (receive_request now uri d)) \<and> replies_ok (snd (receive_request now uri d))"
  using assms
  by (auto simp: receive_message_def receive_request_def start_receiving_def buffers_ok_def replies_ok_def)

lemma close_dealer_ok:
  assumes "buffers_ok d" "replies_ok d"
  shows "buffers_ok (close_dealer d) \<and> replies_ok (close_dealer d)"
  using assms by (auto simp: close_dealer_def request_close_def close_conn_def buffers_ok_def replies_ok_def
      split: option.split)

lemma recv_message_ok:
  assumes "recv_message gunzip decodes pick now m d = Some d1" "\<not> de_done d" "buffers_ok d" "replies_ok d"
  shows "buffers_ok d1 \<and> replies_ok d1"
proof -
  obtain raw where d1: "d1 = (if rm_type raw = ''message'' then handle_message gunzip raw d
                else if rm_type raw = ''request'' then handle_request gunzip decodes pick raw d
                else if rm_type raw = ''pong'' then d\<lparr>de_last_pong := now\<rparr> else d)"
    using assms(1) by (auto simp: recv_message_def split: option.splits)
  show ?thesis
    unfolding d1 using handle_message_ok [OF assms(3,4)] handle_request_ok [OF assms(2-4)] assms(3,4)
    by (simp add: buffers_ok_def replies_ok_def)
qed

lemma recv_read_cases:
  obtains "recv_read gunzip decodes pick now r d = d"
    | "de_place d = Reading" "recv_read gunzip decodes pick now r d = leave_loop d"
    | m d1 where "\<not> de_done d" "recv_message gunzip decodes pick now m d = Some d1"
        "recv_read gunzip decodes pick now r d = d1" "de_place d = Reading" "conn_alive d" "r = ReadText m"
proof (cases "de_place d = Reading \<and> \<not> de_done d")
  case True
  define r' where "r' = (if conn_alive d then r else ReadError)"
  from True have *: "recv_read gunzip decodes pick now r d =
      (case r' of ReadError \<Rightarrow> leave_loop d | ReadBinary \<Rightarrow> d
       | ReadText txt \<Rightarrow> (case recv_message gunzip decodes pick now txt d of None \<Rightarrow> leave_loop d | Some d1 \<Rightarrow> d1))"
    by (simp add: recv_read_def r'_def)
  show ?thesis
  proof (cases r')
    case (ReadText m)
    then have "conn_alive d" "r = ReadText m" by (simp_all add: r'_def split: if_splits)
    with ReadText show ?thesis
      using * True that by (cases "recv_message gunzip decodes pick now m d") auto
  qed (use * True that in auto)
next
  case False
  then show ?thesis using that by (cases "de_place d = Reading") (simp_all add: recv_read_def)
qed

lemma recv_read_ok:
  assumes "buffers_ok d" "replies_ok d"
  shows "buffers_ok (recv_read gunzip decodes pick now r d) \<and> replies_ok (recv_read gunzip decodes pick now r d)"
  by (cases rule: recv_read_cases [of gunzip decodes pick now r d])
    (use assms connection_events_same(1) [of d, THEN same_queues_ok] recv_message_ok [OF _ _ assms] in auto)

lemma step_queues_ok:
  assumes "buffers_ok d" "replies_ok d"
  shows "buffers_ok (dealer_step gunzip decodes d e) \<and> replies_ok (dealer_step gunzip decodes d e)"
  by (cases e)
    (use assms in \<open>simp_all add: receive_ok close_dealer_ok recv_read_ok take_ok reply_waiting_ok
      connection_events_same [THEN same_queues_ok]\<close>)

lemma connection_ok_receive:
  assumes "connection_ok d"
  shows "connection_ok (snd (receive_message now ps d))" "connection_ok (snd (receive_request now uri d))"
  using assms by (auto simp: receive_message_def receive_request_def start_receiving_def connection_ok_def)

lemma connection_ok_close: "connection_ok d \<Longrightarrow> connection_ok (close_conn d)"
  by (auto simp: close_conn_def connection_ok_def split: option.split)

lemma connection_ok_update:
  "connection_ok (d\<lparr>de_kick := k\<rparr>) = connection_ok d"
  "connection_ok (d\<lparr>de_pinging := p\<rparr>) = connection_ok d"
  "connection_ok d \<Longrightarrow> connection_ok (d\<lparr>de_done := True, de_waiting := w\<rparr>)"
  "connection_ok d \<Longrightarrow> de_place d = Dialing \<Longrightarrow> connection_ok (d\<lparr>de_closer := True\<rparr>)"
  "connection_ok d \<Longrightarrow> connection_ok (d\<lparr>de_conn := Some (de_conns d), de_conns := Suc (de_conns d)\<rparr>)"
  by (auto simp: connection_ok_def)

lemma connection_ok_request_close: "connection_ok d \<Longrightarrow> connection_ok (request_close d)"
  by (simp add: request_close_def connection_ok_close connection_ok_update)

lemma connection_ok_dial: "connection_ok d \<Longrightarrow> connection_ok (dial ok d)"
proof -
  have "de_conns (close_conn d) = de_conns d" by (simp add: close_conn_def split: option.split)
  then show "connection_ok d \<Longrightarrow> connection_ok (dial ok d)"
    using connection_ok_update(5) [of "close_conn d"] by (simp add: dial_def connection_ok_close)
qed

lemma connection_ok_callers:
  assumes "connection_ok d"
  shows "connection_ok (snd (connect_dealer ok d))" "connection_ok (close_dealer d)"
    "connection_ok (force_reconnect d)" "connection_ok (ping_tick now d)" "connection_ok (ping_write ok d)"
  using assms
  by (simp_all add: connect_dealer_def close_dealer_def force_reconnect_def ping_tick_def ping_write_def
      Let_def connection_ok_dial connection_ok_request_close connection_ok_close connection_ok_update)

lemma connection_ok_loop:
  assumes "connection_ok d"
  shows "connection_ok (start_dial d)" "connection_ok (wake cause d)"
  using assms by (auto simp: start_dial_def wake_def connection_ok_def split: wake_cause.split)

lemma close_conn_fields [simp]:
  "de_place (close_conn d) = de_place d" "de_conn (close_conn d) = de_conn d"
  "de_conns (close_conn d) = de_conns d" "de_closer (close_conn d) = de_closer d"
  "de_done (close_conn d) = de_done d"
  by (simp_all add: close_conn_def split: option.split)

lemma leave_loop_connection:
  "connection_ok d \<Longrightarrow> de_place d = Reading \<Longrightarrow> connection_ok (leave_loop d)"
  using connection_ok_close [of d] by (simp add: leave_loop_def connection_ok_def)

lemma dial_ends_connection:
  assumes "connection_ok d"
  shows "connection_ok (dial_ends now ok d)"
proof (cases "de_place d = Dialing")
  case False
  with assms show ?thesis by (simp add: dial_ends_def)
next
  case True
  define d1 where "d1 = dial ok d"
  define d2 where "d2 = (if ok then d1\<lparr>de_place := Reading, de_last_pong := now + ping_interval\<rparr>
                  else d1\<lparr>de_place := Sleeping\<rparr>)"
  have "connection_ok d1" using assms by (simp add: d1_def connection_ok_dial)
  moreover have "de_closer d1 = de_closer d" by (simp add: d1_def dial_def)
  ultimately have "connection_ok (d2\<lparr>de_closer := False\<rparr>)" "\<not> de_closer d \<Longrightarrow> connection_ok d2"
    by (simp_all add: d2_def connection_ok_def)
  moreover have "(close_conn d2)\<lparr>de_closer := False\<rparr> = close_conn (d2\<lparr>de_closer := False\<rparr>)"
    by (simp add: close_conn_def split: option.split)
  ultimately show ?thesis
    using True by (simp add: dial_ends_def flip: d1_def d2_def) (simp add: connection_ok_close Let_def)
qed

lemma recv_read_connection:
  assumes "connection_ok d"
  shows "connection_ok (recv_read gunzip decodes pick now r d)"
  by (cases rule: recv_read_cases [of gunzip decodes pick now r d])
    (use assms leave_loop_connection recv_message_same_connection [THEN same_connection_ok] in auto)

lemma step_connection_ok: "connection_ok d \<Longrightarrow> connection_ok (dealer_step gunzip decodes d e)"
  by (cases e)
    (simp_all add: connection_ok_receive connection_ok_callers connection_ok_loop dial_ends_connection
      recv_read_connection handlers_same_connection [THEN same_connection_ok])

definition dealer_ok :: "dealer \<Rightarrow> bool" where
  "dealer_ok d \<longleftrightarrow> buffers_ok d \<and> replies_ok d \<and> connection_ok d"

interpretation dealer: invariant_machine "dealer_step gunzip decodes" dealer_ok
  by unfold_locales (simp add: dealer_ok_def step_queues_ok step_connection_ok)

lemma run_dealer_ok: "dealer_ok (dealer_run gunzip decodes es)"
  unfolding dealer_run_def
  by (rule dealer.run_inv)
    (simp add: new_dealer_def dealer_ok_def buffers_ok_def replies_ok_def connection_ok_def)

subsection \<open>Properties\<close>

text \<open>A message that carries a connection id is delivered to every receiver whose prefix
  matches, even when its channel is full: the channel then holds its last 32 messages, that one
  last. Any other message is dropped by a full channel, which keeps what it has. No other receiver
  and no request is touched.\<close>

theorem connection_id_is_delivered:
  assumes "first_payload gunzip raw = Some (p, hs)"
    and "i < length (de_receivers (dealer_run gunzip decodes es))"
    and "matches (rm_uri raw) (de_receivers (dealer_run gunzip decodes es) ! i)"
    and "d = dealer_run gunzip decodes es"
    and "q = mr_queue (de_receivers d ! i)"
    and "msg = \<lparr>mg_uri = rm_uri raw, mg_headers = hs, mg_payload = p\<rparr>"
    and "d' = handle_message gunzip raw d"
  shows "(if has_prefix (rm_uri raw) connection_prefix
          then mr_queue (de_receivers d' ! i) = take_last 32 (q @ [msg])
          else mr_queue (de_receivers d' ! i) = take 32 (q @ [msg])) \<and>
         length (de_receivers d') = length (de_receivers d) \<and> de_requests d' = de_requests d \<and>
         (\<forall>j < length (de_receivers d). \<not> matches (rm_uri raw) (de_receivers d ! j) \<longrightarrow>
            de_receivers d' ! j = de_receivers d ! j)"
proof -
  have some: "list_ex (matches (rm_uri raw)) (de_receivers d)"
    using assms(2-4) by (auto simp: list_ex_iff dest: nth_mem)
  have len: "length q \<le> 32"
    using run_dealer_ok [of gunzip decodes es] assms(2,4,5)
    by (auto simp: dealer_ok_def buffers_ok_def message_receiver_buffer_def dest: nth_mem)
  have d': "de_receivers d' = map (\<lambda>r. if matches (rm_uri raw) r then deliver_message msg r else r) (de_receivers d)"
    using some assms(1,6,7) by (simp add: handle_message_def Let_def)
  have "mr_queue (de_receivers d' ! i) = mr_queue (deliver_message msg (de_receivers d ! i))"
    using d' assms(2-4) by simp
  moreover have "mr_queue (deliver_message msg (de_receivers d ! i)) =
      (if has_prefix (rm_uri raw) connection_prefix then take_last 32 (q @ [msg]) else take 32 (q @ [msg]))"
    using len assms(5,6)
    by (cases "length q = 32")
      (auto simp: deliver_message_def message_receiver_buffer_def take_last_def tl_append2 drop_Suc)
  ultimately show ?thesis
    using d' assms(7) handle_message_parts(2) [of gunzip raw d] by simp
qed

text \<open>What the events say about replies. A request is taken up by the event that reads it, when it
  names a known receiver and can be decoded; \<open>taken_requests\<close> lists the requests in the order they are
  taken up, with the number of their event, their key, and whether the channel of the receiver had
  room. A request that found no room is owed the answer \<open>False\<close>; another one what its goroutine is told
  first after that event: the verdict of the handler, and failure when the timer fires.\<close>

definition takes_up ::
    "(byte list \<Rightarrow> byte list option) \<Rightarrow> (byte list \<Rightarrow> bool) \<Rightarrow> raw_message \<Rightarrow> dealer \<Rightarrow> (string \<times> bool) option" where
  "takes_up gunzip decodes raw d =
     (case (map_of (de_requests d) (rm_ident raw),
            handle_transfer_encoding gunzip (rm_headers raw) (rm_compressed raw)) of
        (Some r, Some (p, hs)) \<Rightarrow>
          if decodes p then Some (rm_key raw, length (rr_queue r) < request_receiver_buffer) else None
      | _ \<Rightarrow> None)"

definition request_read ::
    "(byte list \<Rightarrow> byte list option) \<Rightarrow> (byte list \<Rightarrow> bool) \<Rightarrow> dealer \<Rightarrow> dealer_event \<Rightarrow> (string \<times> bool) option" where
  "request_read gunzip decodes d e =
     (case e of
        RecvRead pick now (ReadText txt) \<Rightarrow>
          if de_place d = Reading \<and> \<not> de_done d \<and> conn_alive d
          then case Option.bind (json_parse txt) dec_raw_message of
                 None \<Rightarrow> None
               | Some raw \<Rightarrow> if rm_type raw = ''request'' then takes_up gunzip decodes raw d else None
          else None
      | _ \<Rightarrow> None)"

definition taken_requests ::
    "(byte list \<Rightarrow> byte list option) \<Rightarrow> (byte list \<Rightarrow> bool) \<Rightarrow> dealer_event list \<Rightarrow> (nat \<times> string \<times> bool) list" where
  "taken_requests gunzip decodes =
     along (\<lambda>es e. case request_read gunzip decodes (dealer_run gunzip decodes es) e of
                     None \<Rightarrow> [] | Some kr \<Rightarrow> [(length es, kr)])"

fun first_told :: "nat \<Rightarrow> dealer_event list \<Rightarrow> bool option" where
  "first_told i [] = None"
| "first_told i (e # es) =
     (case e of ReplyWaiting j v \<Rightarrow> if j = i then Some (v = Some True) else first_told i es
              | _ \<Rightarrow> first_told i es)"

definition reply_owed ::
    "(byte list \<Rightarrow> byte list option) \<Rightarrow> (byte list \<Rightarrow> bool) \<Rightarrow> dealer_event list \<Rightarrow> nat \<Rightarrow> (string \<times> bool) option" where
  "reply_owed gunzip decodes es i =
     (if i < length (taken_requests gunzip decodes es)
      then case taken_requests gunzip decodes es ! i of
             (n, key, room) \<Rightarrow> map_option (Pair key) (if room then first_told i (drop (Suc n) es) else Some False)
      else None)"

lemma first_told_snoc:
  "first_told i (es @ [e]) =
     (case first_told i es of Some v \<Rightarrow> Some v | None \<Rightarrow> first_told i [e])"
  by (induction es) (auto split: dealer_event.split option.split)

lemma first_told_single: "first_told i [e] = Some s \<longleftrightarrow> (\<exists>v. e = ReplyWaiting i v \<and> s = (v = Some True))"
  by (cases e) auto

lemma dealer_run_snoc [simp]:
  "dealer_run gunzip decodes (es @ [e]) = dealer_step gunzip decodes (dealer_run gunzip decodes es) e"
  by (simp add: dealer_run_def)

lemma taken_requests_snoc:
  "taken_requests gunzip decodes (es @ [e]) = taken_requests gunzip decodes es @
     (case request_read gunzip decodes (dealer_run gunzip decodes es) e of None \<Rightarrow> [] | Some kr \<Rightarrow> [(length es, kr)])"
  by (simp add: taken_requests_def)

lemma taken_requests_before:
  "i < length (taken_requests gunzip decodes es) \<Longrightarrow> fst (taken_requests gunzip decodes es ! i) < length es"
  using nth_mem [of i "taken_requests gunzip decodes es"]
  by (fastforce simp: taken_requests_def set_along split: option.splits)

text \<open>The bookkeeping of an event while the dealer is open.\<close>

definition booked :: "dealer \<Rightarrow> dealer \<Rightarrow> (string \<times> bool) option \<Rightarrow> bool" where
  "booked d d' request \<longleftrightarrow>
     (case request of
        None \<Rightarrow> de_next d' = de_next d \<and> de_waiting d' = de_waiting d \<and> de_replies d' = de_replies d
      | Some (key, room) \<Rightarrow> de_next d' = Suc (de_next d) \<and>
          de_waiting d' = (if room then [(de_next d, key)] else []) @ de_waiting d \<and>
          de_replies d' = de_replies d @ (if room then [] else [(de_next d, key, False)]))"

lemma handle_request_books:
  assumes "\<not> de_done d"
  shows "booked d (handle_request gunzip decodes pick raw d) (takes_up gunzip decodes raw d)"
proof (cases "map_of (de_requests d) (rm_ident raw)")
  case None
  then show ?thesis by (simp add: booked_def takes_up_def handle_request_def)
next
  case (Some r)
  show ?thesis
  proof (cases "handle_transfer_encoding gunzip (rm_headers raw) (rm_compressed raw)")
    case None
    with Some show ?thesis by (simp add: booked_def takes_up_def handle_request_def)
  next
    case S2: (Some ph)
    obtain p hs where "ph = (p, hs)" by (cases ph)
    with Some S2 assms show ?thesis
      by (simp add: booked_def takes_up_def handle_request_def Let_def send_reply_def)
  qed
qed

lemma recv_read_books:
  assumes "\<not> de_done d" and "d' = recv_read gunzip decodes pick now r d"
  shows "booked d d' (request_read gunzip decodes d (RecvRead pick now r))"
proof (cases "\<exists>msg raw. de_place d = Reading \<and> conn_alive d \<and> r = ReadText msg \<and>
    Option.bind (json_parse msg) dec_raw_message = Some raw \<and> rm_type raw = ''request''")
  case True
  then obtain msg raw where t: "de_place d = Reading" "conn_alive d" "r = ReadText msg"
    "Option.bind (json_parse msg) dec_raw_message = Some raw" "rm_type raw = ''request''" by blast
  then have "d' = handle_request gunzip decodes pick raw d"
    using assms by (simp add: recv_read_def recv_message_def)
  moreover have "request_read gunzip decodes d (RecvRead pick now r) = takes_up gunzip decodes raw d"
    using t assms(1) by (simp add: request_read_def)
  ultimately show ?thesis using handle_request_books [OF assms(1)] by simp
next
  case False
  then have "request_read gunzip decodes d (RecvRead pick now r) = None"
    by (auto simp: request_read_def split: read_result.split option.split)
  moreover have "de_next d' = de_next d \<and> de_waiting d' = de_waiting d \<and> de_replies d' = de_replies d"
  proof (cases rule: recv_read_cases [of gunzip decodes pick now r d])
    case 2
    then show ?thesis using connection_events_same(1) [of d] assms(2) by (simp add: same_queues_def)
  next
    case (3 m d1)
    obtain raw where raw: "Option.bind (json_parse m) dec_raw_message = Some raw" using 3(2)
      by (auto simp: recv_message_def split: option.splits)
    show ?thesis
    proof (cases "rm_type raw = ''request''")
      case False
      have "recv_message gunzip decodes pick now m d = Some (if rm_type raw = ''message'' then handle_message gunzip raw d
          else if rm_type raw = ''pong'' then d\<lparr>de_last_pong := now\<rparr> else d)"
        using False raw by (simp add: recv_message_def)
      then have "d' = (if rm_type raw = ''message'' then handle_message gunzip raw d
          else if rm_type raw = ''pong'' then d\<lparr>de_last_pong := now\<rparr> else d)"
        using 3 assms(2) by simp
      then show ?thesis by (simp add: handle_message_parts)
    next
      case True
      with 3 raw False show ?thesis by blast
    qed
  qed (use assms(2) in simp)
  ultimately show ?thesis by (simp add: booked_def)
qed

lemma other_events_books:
  assumes "\<And>pick now r. e \<noteq> RecvRead pick now r" "\<And>i v. e \<noteq> ReplyWaiting i v" "e \<noteq> CloseDealer"
    and "d' = dealer_step gunzip decodes d e"
  shows "de_next d' = de_next d \<and> de_waiting d' = de_waiting d \<and> de_replies d' = de_replies d"
  using assms connection_events_same
  by (cases e) (auto simp: same_queues_def receive_message_def receive_request_def start_receiving_def
      take_message_def take_request_def split: option.split)

lemma open_until_closed: "CloseDealer \<notin> set es \<Longrightarrow> \<not> de_done (dealer_run gunzip decodes es)"
proof (induction es rule: rev_induct)
  case (snoc e es)
  let ?d = "dealer_run gunzip decodes es"
  have "de_done (dealer_step gunzip decodes ?d e) = de_done ?d"
  proof (cases e)
    case (RecvRead pick now r)
    then show ?thesis
      using connection_events_same(1) [of ?d] recv_message_same_connection
      by (cases rule: recv_read_cases [of gunzip decodes pick now r ?d])
        (auto simp: same_queues_def same_connection_def)
  next
    case (ReplyWaiting i v)
    then show ?thesis using handlers_same_connection(3) [of ?d i v] by (simp add: same_connection_def)
  qed (use snoc.prems connection_events_same [of ?d] handlers_same_connection [of ?d] in
    \<open>auto simp: same_queues_def same_connection_def receive_message_def receive_request_def start_receiving_def\<close>)
  with snoc show ?case by simp
qed (simp add: dealer_run_def new_dealer_def)

text \<open>The books of an open dealer are what the events owe.\<close>

definition books :: "(nat \<times> string \<times> bool) list \<Rightarrow> dealer_event list \<Rightarrow> nat \<Rightarrow> string option \<times> (string \<times> bool) option" where
  "books reqs es i =
     (if i < length reqs
      then case reqs ! i of
             (n, key, room) \<Rightarrow>
               let told = (if room then first_told i (drop (Suc n) es) else Some False)
               in (if told = None then Some key else None, map_option (Pair key) told)
      else (None, None))"

lemma books_owed: "snd (books (taken_requests gunzip decodes es) es i) = reply_owed gunzip decodes es i"
  by (simp add: books_def reply_owed_def Let_def split: prod.split)

lemma books_waiting: "fst (books reqs es i) \<noteq> None \<longleftrightarrow> i < length reqs \<and> snd (books reqs es i) = None"
  by (cases "reqs ! i") (simp add: books_def Let_def)

lemma books_snoc:
  assumes "\<And>i. i < length reqs \<Longrightarrow> fst (reqs ! i) < length es"
  shows "books reqs (es @ [e]) i =
    (case books reqs es i of
       (Some key, r) \<Rightarrow> (case first_told i [e] of None \<Rightarrow> (Some key, r) | Some s \<Rightarrow> (None, Some (key, s)))
     | b \<Rightarrow> b)"
proof (cases "i < length reqs")
  case True
  obtain n key room where n: "reqs ! i = (n, key, room)" by (cases "reqs ! i")
  then have "n < length es" using assms [OF True] by simp
  then have "drop (Suc n) (es @ [e]) = drop (Suc n) es @ [e]" by simp
  with True n show ?thesis
    by (cases "first_told i (drop (Suc n) es)"; cases "first_told i [e]")
      (auto simp: books_def first_told_snoc simp del: first_told.simps)
qed (simp add: books_def)

lemma books_new:
  "books (reqs @ [(length es, key, room)]) (es @ [e]) i =
    (if i = length reqs then (if room then (Some key, None) else (None, Some (key, False)))
     else books reqs (es @ [e]) i)"
  by (auto simp: books_def nth_append)

lemma reply_waiting_books:
  assumes "replies_ok d" "\<not> de_done d"
  shows "(map_of (de_waiting (reply_waiting j v d)) i, map_of (de_replies (reply_waiting j v d)) i) =
    (case (map_of (de_waiting d) i, map_of (de_replies d) i) of
       (Some key, r) \<Rightarrow>
         (case first_told i [ReplyWaiting j v] of None \<Rightarrow> (Some key, r) | Some s \<Rightarrow> (None, Some (key, s)))
     | b \<Rightarrow> b)"
proof (cases "map_of (de_waiting d) j")
  case None
  then show ?thesis by (auto simp: reply_waiting_def split: option.split)
next
  case (Some key)
  then have "j \<in> fst ` set (de_waiting d)" by (metis domI dom_map_of_conv_image_fst)
  then have "j \<notin> fst ` set (de_replies d)" using assms(1) by (auto simp: replies_ok_def)
  then have "map_of (de_replies d) j = None" by (simp add: map_of_eq_None_iff)
  moreover have "map_of (filter (\<lambda>w. fst w \<noteq> j) ws) k = (if k = j then None else map_of ws k)" for ws :: "(nat \<times> string) list" and k
    by (induction ws) auto
  ultimately show ?thesis
    using Some assms(2) by (auto simp: reply_waiting_def send_reply_def map_add_def split: option.split)
qed

lemma open_books:
  assumes "CloseDealer \<notin> set es" and "d = dealer_run gunzip decodes es"
  shows "de_next d = length (taken_requests gunzip decodes es) \<and>
    (\<forall>i. (map_of (de_waiting d) i, map_of (de_replies d) i) = books (taken_requests gunzip decodes es) es i)"
  using assms
proof (induction es arbitrary: d rule: rev_induct)
  case Nil
  then show ?case by (simp add: dealer_run_def new_dealer_def books_def taken_requests_def)
next
  case (snoc e es)
  define c where "c = dealer_run gunzip decodes es"
  define reqs where "reqs = taken_requests gunzip decodes es"
  have IH: "de_next c = length reqs" "\<And>i. (map_of (de_waiting c) i, map_of (de_replies c) i) = books reqs es i"
    using snoc.IH [OF _ c_def] snoc.prems(1) by (auto simp: reqs_def)
  have bs: "books reqs (es @ [e]) i = (case books reqs es i of
       (Some key, r) \<Rightarrow> (case first_told i [e] of None \<Rightarrow> (Some key, r) | Some s \<Rightarrow> (None, Some (key, s)))
     | b \<Rightarrow> b)" for i
    by (rule books_snoc) (simp add: reqs_def taken_requests_before)
  have d: "d = dealer_step gunzip decodes c e" using snoc.prems(2) by (simp add: c_def)
  have nd: "\<not> de_done c" using open_until_closed snoc.prems(1) by (simp add: c_def)
  have ok: "replies_ok c" using run_dealer_ok [of gunzip decodes es] by (simp add: dealer_ok_def c_def)
  note tr = taken_requests_snoc [of gunzip decodes es e, folded c_def reqs_def]
  show ?case
  proof (cases "\<exists>i v. e = ReplyWaiting i v")
    case True
    then obtain j v where e: "e = ReplyWaiting j v" by blast
    have "taken_requests gunzip decodes (es @ [e]) = reqs" using tr by (simp add: e request_read_def)
    moreover have "de_next d = de_next c"
      by (simp add: d e reply_waiting_def send_reply_def split: option.split)
    moreover have "(map_of (de_waiting d) i, map_of (de_replies d) i) = books reqs (es @ [e]) i" for i
      using reply_waiting_books [OF ok nd, of j v i] unfolding IH(2) bs unfolding d e by simp
    ultimately show ?thesis using IH(1) by simp
  next
    case False
    then have told: "first_told i [e] = None" for i by (cases e) auto
    then have same: "books reqs (es @ [e]) i = books reqs es i" for i
      unfolding bs by (simp split: option.split prod.split)
    have b: "booked c d (request_read gunzip decodes c e)"
    proof (cases "\<exists>pick now r. e = RecvRead pick now r")
      case True
      then show ?thesis using recv_read_books [OF nd] d by auto
    next
      case nr: False
      then have "request_read gunzip decodes c e = None" by (cases e) (auto simp: request_read_def)
      then show ?thesis using other_events_books [OF _ _ _ d] nr False snoc.prems(1) by (auto simp: booked_def)
    qed
    show ?thesis
    proof (cases "request_read gunzip decodes c e")
      case None
      with IH tr same b show ?thesis by (simp add: booked_def)
    next
      case (Some kr)
      obtain key room where kr: "kr = (key, room)" by (cases kr)
      have s: "de_next d = Suc (de_next c)"
        "de_waiting d = (if room then [(de_next c, key)] else []) @ de_waiting c"
        "de_replies d = de_replies c @ (if room then [] else [(de_next c, key, False)])"
        using b Some kr by (simp_all add: booked_def)
      have r: "taken_requests gunzip decodes (es @ [e]) = reqs @ [(length es, key, room)]"
        using tr Some kr by simp
      have fresh: "map_of (de_waiting c) (length reqs) = None" "map_of (de_replies c) (length reqs) = None"
        using IH(2) [of "length reqs"] by (simp_all add: books_def)
      have "(map_of (de_waiting d) i, map_of (de_replies d) i) = books (reqs @ [(length es, key, room)]) (es @ [e]) i" for i
        unfolding books_new same using IH(2) [of i, symmetric] fresh IH(1)
        by (auto simp: s map_add_def split: option.split)
      then show ?thesis using s(1) IH(1) r by simp
    qed
  qed
qed

lemma closed_step:
  assumes "de_done d"
  shows "de_done (dealer_step gunzip decodes d e) \<and> de_replies (dealer_step gunzip decodes d e) = de_replies d"
proof (cases e)
  case (RecvRead pick now r)
  then show ?thesis
    using assms connection_events_same(1) [of d]
    by (cases rule: recv_read_cases [of gunzip decodes pick now r d]) (auto simp: same_queues_def)
next
  case (ReplyWaiting i v)
  then show ?thesis using assms by (simp add: reply_waiting_def send_reply_def split: option.split)
next
  case CloseDealer
  then show ?thesis using assms by (simp add: close_dealer_def)
qed (use assms connection_events_same [of d] in
    \<open>auto simp: same_queues_def receive_message_def receive_request_def take_message_def take_request_def split: option.split\<close>)

definition before_close :: "dealer_event list \<Rightarrow> dealer_event list" where
  "before_close = takeWhile (\<lambda>e. e \<noteq> CloseDealer)"

lemma replies_before_close:
  "de_replies (dealer_run gunzip decodes es) = de_replies (dealer_run gunzip decodes (before_close es)) \<and>
   (CloseDealer \<in> set es \<longrightarrow> de_done (dealer_run gunzip decodes es))"
proof (induction es rule: rev_induct)
  case (snoc e es)
  show ?case
  proof (cases "CloseDealer \<in> set es")
    case True
    with snoc closed_step [of "dealer_run gunzip decodes es" gunzip decodes e] show ?thesis
      by (auto simp: before_close_def takeWhile_append1)
  next
    case False
    then have es: "before_close es = es" by (auto simp: before_close_def takeWhile_eq_all_conv)
    show ?thesis
    proof (cases "e = CloseDealer")
      case True
      have "de_replies (close_dealer d) = de_replies d \<and> de_done (close_dealer d)" for d
        using close_conn_same [of "d\<lparr>de_done := True, de_waiting := []\<rparr>"]
        by (simp add: close_dealer_def request_close_def same_queues_def)
      with True False es show ?thesis by (simp add: before_close_def takeWhile_append2)
    next
      case ne: False
      with False have "before_close (es @ [e]) = es @ [e]" by (auto simp: before_close_def takeWhile_eq_all_conv)
      with False ne show ?thesis by simp
    qed
  qed
qed (simp add: before_close_def)

text \<open>C15: Every request is answered once, with the verdict of its own handler. The replies that went
  out have distinct numbers, and the reply to the i-th request that was taken up carries the key of
  this request and is \<open>False\<close> when the channel of its receiver was full, and otherwise what its
  goroutine was told first after it was taken up: success exactly when the handler said so, failure
  when it said no or the timer fired. No other reply is sent, and none after the close. Until the
  close, the requests that wait are exactly those that nothing is owed yet.\<close>

theorem dealer_replies_once:
  assumes "d = dealer_run gunzip decodes es"
  shows "distinct (map fst (de_replies d)) \<and>
         (\<forall>i. map_of (de_replies d) i = reply_owed gunzip decodes (before_close es) i) \<and>
         (\<not> de_done d \<longrightarrow> de_next d = length (taken_requests gunzip decodes es) \<and>
            set (map fst (de_waiting d)) = {i. i < de_next d \<and> reply_owed gunzip decodes es i = None})"
proof -
  have ok: "replies_ok d" using run_dealer_ok [of gunzip decodes es] assms by (simp add: dealer_ok_def)
  let ?es = "before_close es"
  have "CloseDealer \<notin> set ?es" by (auto simp: before_close_def dest: set_takeWhileD)
  note closed = open_books [OF this refl, of gunzip decodes]
  have replies: "map_of (de_replies d) i = reply_owed gunzip decodes ?es i" for i
    using closed replies_before_close [of gunzip decodes es] assms books_owed [of gunzip decodes ?es i]
    by (metis snd_conv)
  have "de_next d = length (taken_requests gunzip decodes es) \<and>
      set (map fst (de_waiting d)) = {i. i < de_next d \<and> reply_owed gunzip decodes es i = None}" if "\<not> de_done d"
  proof -
    have "CloseDealer \<notin> set es" using that replies_before_close [of gunzip decodes es] assms by auto
    note kept = open_books [OF this assms]
    have "(map_of (de_waiting d) i \<noteq> None) = (i < de_next d \<and> reply_owed gunzip decodes es i = None)" for i
      using kept books_owed [of gunzip decodes es i] books_waiting [of "taken_requests gunzip decodes es" es i]
      by (metis fst_conv)
    then have "dom (map_of (de_waiting d)) = {i. i < de_next d \<and> reply_owed gunzip decodes es i = None}" by auto
    with kept show ?thesis by (simp add: dom_map_of_conv_image_fst)
  qed
  with ok replies show ?thesis by (simp add: replies_ok_def)
qed

text \<open>A dead connection is replaced: the rounds of the retry loop from each place.\<close>

lemma start_dial_ends:
  assumes "de_place d = Retrying" "\<not> de_done d" "connection_ok d"
  shows "de_place (dial_ends now True (start_dial d)) = Reading \<and>
    conn_alive (dial_ends now True (start_dial d)) \<and>
    de_last_pong (dial_ends now True (start_dial d)) = now + ping_interval"
proof -
  have "\<not> de_closer d" "\<forall>c \<in> set (de_closed d). c < de_conns d" "\<forall>c. de_conn d = Some c \<longrightarrow> c < de_conns d"
    using assms by (auto simp: connection_ok_def)
  with assms show ?thesis
    by (cases "de_conn d") (auto simp: start_dial_def dial_ends_def dial_def close_conn_def conn_alive_def)
qed

lemma force_reaches_retry:
  assumes "\<not> de_done d" "de_place d \<noteq> NotStarted" "connection_ok d"
    and "d' = wake ByKick (recv_read gunzip decodes pick t r (dial_ends now False (force_reconnect d)))"
  shows "de_place d' = Retrying \<and> same_queues d d' \<and> connection_ok d'"
proof -
  define f where "f = force_reconnect d"
  define g where "g = dial_ends now False f"
  have f: "same_queues d f" "de_place f = de_place d" "de_kick f" "de_place f = Reading \<Longrightarrow> \<not> conn_alive f"
    "connection_ok f"
    using assms(1,3) connection_events_same(5) [of d] connection_ok_callers(3) [of d]
    by (auto simp: f_def force_reconnect_def Let_def close_conn_def conn_alive_def split: option.split)
  have g: "same_queues d g" "de_kick g" "connection_ok g" "de_place g \<noteq> Dialing" "de_place g \<noteq> NotStarted"
    "de_place g = Reading \<Longrightarrow> \<not> conn_alive g" "de_place g \<noteq> Stopped"
    using f assms connection_events_same(3) [of f now False] dial_ends_connection [OF f(5), of now False]
    by (auto simp: g_def dial_ends_def dial_def Let_def same_queues_def close_conn_def connection_ok_def
        split: option.splits)
  show ?thesis
  proof (cases "de_place g")
    case Reading
    then have "recv_read gunzip decodes pick t r g = leave_loop g" using g by (simp add: recv_read_def)
    moreover have "\<not> de_done g" using g(1) assms(1) by (simp add: same_queues_def)
    ultimately show ?thesis
      using g leave_loop_connection [OF g(3) Reading] connection_events_same(1) [of g] assms(4)
      by (simp add: wake_def leave_loop_def same_queues_def flip: f_def g_def)
  next
    case Retrying
    then show ?thesis using g assms(4) by (simp add: wake_def recv_read_def flip: f_def g_def)
  next
    case Sleeping
    then have "d' = g\<lparr>de_place := Retrying, de_kick := False\<rparr>"
      using g assms(4) by (simp add: wake_def recv_read_def flip: f_def g_def)
    then show ?thesis using g Sleeping by (auto simp: same_queues_def connection_ok_def)
  qed (use g in simp_all)
qed

text \<open>C16: The dealer never gives up before it is closed: in any reachable state that is not closed
  the read loop has not ended (so no channel is closed), and wherever its goroutine is, a forced
  reconnect followed by one dial that succeeds brings it back to reading from a live connection,
  with a new deadline for the pong and with every receiver, message, request and waiting answer in
  place; no pause of the backoff is waited for.\<close>

theorem dealer_recovers:
  assumes "d = dealer_run gunzip decodes es" and "\<not> de_done d"
  shows "de_place d \<noteq> Stopped \<and>
    (de_place d \<noteq> NotStarted \<longrightarrow>
      (let d' = foldl (dealer_step gunzip decodes) d
                  [ForceReconnect, DialEnds t1 False, RecvRead pick t2 r, Wake ByKick, StartDial, DialEnds t3 True]
       in de_place d' = Reading \<and> conn_alive d' \<and> de_last_pong d' = t3 + ping_interval \<and> same_queues d d'))"
proof -
  have ok: "connection_ok d" using assms(1) run_dealer_ok [of gunzip decodes es] by (simp add: dealer_ok_def)
  define w where "w = wake ByKick (recv_read gunzip decodes pick t2 r (dial_ends t1 False (force_reconnect d)))"
  have "let d' = dial_ends t3 True (start_dial w) in
      de_place d' = Reading \<and> conn_alive d' \<and> de_last_pong d' = t3 + ping_interval \<and> same_queues d d'"
    if "de_place d \<noteq> NotStarted"
  proof -
    have w: "de_place w = Retrying" "same_queues d w" "connection_ok w"
      using force_reaches_retry [OF assms(2) that ok w_def] by auto
    then have "\<not> de_done w" using assms(2) by (simp add: same_queues_def)
    with w start_dial_ends [of w t3] connection_events_same(2) [of w]
      connection_events_same(3) [of "start_dial w" t3 True]
    show ?thesis by (simp add: same_queues_def Let_def)
  qed
  moreover have "de_place d \<noteq> Stopped" using ok assms(2) by (auto simp: connection_ok_def)
  ultimately show ?thesis by (simp add: w_def)
qed

text \<open>A tick of the pinger during a dial waits for the lock and then closes the connection that the
  dial has just established, although it was the old one that had no pong.\<close>

lemma late_tick_closes_fresh_connection:
  assumes "de_place d = Dialing" "\<not> de_done d" "\<not> de_pinging d"
    and "now - de_last_pong d > ping_interval + dealer_timeout"
  shows "let d' = dial_ends t True (ping_tick now d)
         in de_place d' = Reading \<and> de_last_pong d' = t + ping_interval \<and> \<not> conn_alive d'"
proof -
  have "time_sub now (de_last_pong d) > ping_interval + dealer_timeout"
    using assms(4) by (simp add: ping_interval_def dealer_timeout_def go_time)
  with assms show ?thesis
    by (simp add: ping_tick_def request_close_def dial_ends_def dial_def close_conn_def conn_alive_def Let_def
        split: option.split)
qed

subsection \<open>Witnesses\<close>

definition sample_receivers :: "dealer_event list" where
  "sample_receivers = [ReceiveMessage 0 [''hm://pusher/v1/connections/''], ReceiveRequest 0 ''cmd'', ConnectDealer True]"

definition sample_connection_message :: raw_message where
  "sample_connection_message = \<lparr>rm_type = ''message'', rm_uri = ''hm://pusher/v1/connections/abc'',
     rm_headers = [], rm_ident = [], rm_key = [], rm_payloads = [PayloadString ''aGk=''], rm_compressed = []\<rparr>"

lemma sample_receivers_run:
  "dealer_run gunzip decodes sample_receivers =
     new_dealer\<lparr>de_receivers := [\<lparr>mr_prefixes = [''hm://pusher/v1/connections/''], mr_queue = []\<rparr>],
       de_requests := [(''cmd'', \<lparr>rr_queue = []\<rparr>)], de_place := Reading, de_last_pong := ping_interval,
       de_conn := Some 0, de_conns := 1\<rparr>"
  by (simp add: dealer_run_def sample_receivers_def dealer_ops new_dealer_def)

lemma connection_id_is_delivered_witness:
  "mr_queue (de_receivers (handle_message (\<lambda>_. None) sample_connection_message
      (dealer_run (\<lambda>_. None) (\<lambda>_. True) sample_receivers)) ! 0) =
     [\<lparr>mg_uri = ''hm://pusher/v1/connections/abc'', mg_headers = [], mg_payload = [104, 105]\<rparr>]"
proof -
  have p: "first_payload (\<lambda>_. None) sample_connection_message = Some ([104, 105], [])"
    by code_simp
  have "matches (rm_uri sample_connection_message)
      \<lparr>mr_prefixes = [''hm://pusher/v1/connections/''], mr_queue = []\<rparr>"
    "has_prefix (rm_uri sample_connection_message) connection_prefix"
    by code_simp+
  then show ?thesis
    using connection_id_is_delivered [OF p, of 0 "\<lambda>_. True" sample_receivers, OF _ _ refl refl refl refl]
    by (simp add: sample_receivers_run new_dealer_def take_last_def) (simp add: sample_connection_message_def)
qed

definition sample_request_text :: string where
  "sample_request_text = ''{\"type\":\"request\",\"message_ident\":\"cmd\",\"key\":\"k1\"}''"

lemma sample_request_read:
  "dealer_run (\<lambda>_. None) (\<lambda>_. True)
     (sample_receivers @ [RecvRead False 5 (ReadText sample_request_text), ReplyWaiting 0 (Some True), ReplyWaiting 0 None]) =
   (dealer_run (\<lambda>_. None) (\<lambda>_. True) sample_receivers)
     \<lparr>de_next := 1, de_replies := [(0, ''k1'', True)],
      de_requests := [(''cmd'', \<lparr>rr_queue = [\<lparr>dq_id = 0, dq_ident = ''cmd'', dq_payload = []\<rparr>]\<rparr>)]\<rparr>"
  by code_simp

lemma dealer_replies_once_witness:
  "reply_owed (\<lambda>_. None) (\<lambda>_. True)
     (sample_receivers @ [RecvRead False 5 (ReadText sample_request_text), ReplyWaiting 0 (Some True), ReplyWaiting 0 None]) 0
   = Some (''k1'', True)"
proof -
  let ?es = "sample_receivers @ [RecvRead False 5 (ReadText sample_request_text), ReplyWaiting 0 (Some True), ReplyWaiting 0 None]"
  have "before_close ?es = ?es" by (simp add: before_close_def sample_receivers_def)
  moreover have "map_of (de_replies (dealer_run (\<lambda>_. None) (\<lambda>_. True) ?es)) 0 = Some (''k1'', True)"
    by (simp only: sample_request_read) simp
  ultimately show ?thesis
    using dealer_replies_once [of _ "\<lambda>_. None" "\<lambda>_. True" ?es, OF refl] by metis
qed

lemma dealer_recovers_witness:
  "de_place (foldl (dealer_step (\<lambda>_. None) (\<lambda>_. True))
       (dealer_run (\<lambda>_. None) (\<lambda>_. True) (sample_receivers @ [PingTick (seconds 71), RecvRead False 72 ReadBinary]))
       [ForceReconnect, DialEnds 73 False, RecvRead False 74 ReadError, Wake ByKick, StartDial, DialEnds 75 True])
     = Reading"
proof -
  have "de_done (dealer_run (\<lambda>_. None) (\<lambda>_. True)
      (sample_receivers @ [PingTick (seconds 71), RecvRead False 72 ReadBinary])) = False"
    "de_place (dealer_run (\<lambda>_. None) (\<lambda>_. True)
      (sample_receivers @ [PingTick (seconds 71), RecvRead False 72 ReadBinary])) = Retrying"
    by code_simp+
  then show ?thesis
    using dealer_recovers [of _ "\<lambda>_. None" "\<lambda>_. True"
        "sample_receivers @ [PingTick (seconds 71), RecvRead False 72 ReadBinary]", OF refl,
        of 73 False 74 ReadError 75]
    by (simp add: Let_def)
qed

end
