(* ===== verification/PlayerState.thy ===== *)
theory PlayerState
  imports Interfaces GoLib Complex_Main
begin

text \<open>
  The playback state of the player and of a remote device (\<open>daemon/player_state.go\<close>): the
  projection of the queue, the position that is shown between two updates, and the estimator
  of the offset between the device's clock and the server's.

  Times are milliseconds of the Unix clock, \<open>rs_received_at\<close> is the monotonic instant a
  snapshot arrived. A playback speed, a \<open>float64\<close> in the code, is a rational number; Go's
  conversion to \<open>int64\<close> drops the fraction. All values are far from the int64 bounds.
\<close>

subsection \<open>Queues\<close>

record queue_track =
  qt_uri :: string
  qt_track_id :: string
  qt_name :: string
  qt_artist :: string
  qt_album :: string
  qt_image_url :: string

definition queue_limit :: nat where "queue_limit = 100"

definition convert_spotify_image_url :: "string \<Rightarrow> string" where
  "convert_spotify_image_url s =
     (if has_prefix s ''spotify:image:'' then ''https://i.scdn.co/image/'' @ trim_prefix s ''spotify:image:''
      else if has_prefix s ''https://'' \<or> has_prefix s ''http://'' then s
      else ''https://'' @ s)"

definition connect_image_keys :: "string list" where
  "connect_image_keys = [''image_url'', ''image_xlarge_url'', ''image_large_url'', ''image_small_url'']"

definition first_connect_image :: "(string \<Rightarrow> string option) \<Rightarrow> string" where
  "first_connect_image metadata =
     (case find (\<lambda>k. get_str metadata k \<noteq> []) connect_image_keys of
        None \<Rightarrow> []
      | Some k \<Rightarrow> convert_spotify_image_url (get_str metadata k))"

text \<open>The id of a three-part uri, the third part being the rest of the uri.\<close>

definition track_id_from_uri :: "string \<Rightarrow> string" where
  "track_id_from_uri uri =
     (let parts = split_n (CHR '':'') 3 uri in if length parts = 3 then parts ! 2 else [])"

text \<open>A track of the payload: nil, or its uri and metadata (nil metadata is the empty map).\<close>

type_synonym payload_track = "(string \<times> (string \<Rightarrow> string option)) option"

definition queue_track_of :: "string \<Rightarrow> (string \<Rightarrow> string option) \<Rightarrow> queue_track" where
  "queue_track_of uri md = \<lparr>qt_uri = uri, qt_track_id = track_id_from_uri uri, qt_name = get_str md ''title'',
     qt_artist = get_str md ''artist_name'', qt_album = get_str md ''album_title'',
     qt_image_url = first_connect_image md\<rparr>"

fun project_tracks :: "payload_track list \<Rightarrow> nat \<Rightarrow> queue_track list \<Rightarrow> queue_track list" where
  "project_tracks [] limit out = out"
| "project_tracks (None # ts) limit out = project_tracks ts limit out"
| "project_tracks (Some (uri, md) # ts) limit out =
     (if uri = [] then project_tracks ts limit out
      else if length out \<ge> limit then out
      else project_tracks ts limit (out @ [queue_track_of uri md]))"

definition project_queue :: "payload_track list \<Rightarrow> nat \<Rightarrow> queue_track list" where
  "project_queue tracks limit = project_tracks tracks limit []"

subsection \<open>The player's own state\<close>

record player =
  pl_is_playing :: bool
  pl_is_paused :: bool
  pl_speed :: rat
  pl_position :: int
  pl_timestamp :: int
  pl_system_initiated :: bool

record play_state =
  ps_active :: bool
  ps_active_since :: instant
  ps_player :: player

definition set_paused :: "bool \<Rightarrow> play_state \<Rightarrow> play_state" where
  "set_paused val s = s\<lparr>ps_player := (ps_player s)\<lparr>pl_is_paused := val, pl_speed := (if val then 0 else 1)\<rparr>\<rparr>"

definition set_active :: "instant \<Rightarrow> bool \<Rightarrow> play_state \<Rightarrow> play_state" where
  "set_active now val s =
     (if val then (if ps_active s then s else s\<lparr>ps_active := True, ps_active_since := now\<rparr>)
      else s\<lparr>ps_active := False, ps_active_since := 0\<rparr>)"

definition reset_player :: player where
  "reset_player = \<lparr>pl_is_playing = False, pl_is_paused = False, pl_speed = 1, pl_position = 0,
     pl_timestamp = 0, pl_system_initiated = True\<rparr>"

definition reset_state :: "play_state \<Rightarrow> play_state" where
  "reset_state s = s\<lparr>ps_active := False, ps_active_since := 0, ps_player := reset_player\<rparr>"

definition max_reasonable_elapsed :: int where "max_reasonable_elapsed = 600000"

definition track_position :: "int \<Rightarrow> play_state \<Rightarrow> int" where
  "track_position now_ms s =
     (let p = ps_player s
      in if pl_is_paused p \<or> \<not> pl_is_playing p then pl_position p
         else
           let elapsed = now_ms - pl_timestamp p
           in if elapsed > max_reasonable_elapsed \<or> elapsed < 0 then pl_position p
              else let calculated = pl_position p + elapsed
                   in if calculated < 0 then pl_position p else calculated)"

definition update_timestamp :: "int \<Rightarrow> play_state \<Rightarrow> play_state" where
  "update_timestamp now_ms s =
     (let p = ps_player s;
          advanced = now_ms - pl_timestamp p;
          advanced_position = trunc (of_int advanced * pl_speed p)
      in s\<lparr>ps_player := p\<lparr>pl_position := pl_position p + advanced_position, pl_timestamp := now_ms\<rparr>\<rparr>)"

subsection \<open>A remote device\<close>

record remote_state =
  rs_device_id :: string
  rs_device_name :: string
  rs_device_type :: string
  rs_track_uri :: string
  rs_track_name :: string
  rs_track_artist :: string
  rs_track_album :: string
  rs_track_image :: string
  rs_context_uri :: string
  rs_context_name :: string
  rs_duration :: int
  rs_position_as_of :: int
  rs_timestamp :: int
  rs_position :: int
  rs_received_at :: instant
  rs_received_wall :: int
  rs_clock_offset :: int
  rs_offset_known :: bool
  rs_is_playing :: bool
  rs_is_paused :: bool
  rs_speed :: rat
  rs_volume :: nat
  rs_volume_disabled :: bool
  rs_volume_steps :: int
  rs_shuffle_context :: bool
  rs_smart_shuffle :: bool
  rs_repeat_context :: bool
  rs_repeat_track :: bool
  rs_disallow_skip_prev :: bool
  rs_disallow_skip_next :: bool
  rs_disallow_seek :: bool
  rs_prev_tracks :: "queue_track list"
  rs_next_tracks :: "queue_track list"
  rs_raw_metadata :: "string \<Rightarrow> string option"

definition zero_remote :: remote_state where
  "zero_remote = \<lparr>rs_device_id = [], rs_device_name = [], rs_device_type = [], rs_track_uri = [], rs_track_name = [],
     rs_track_artist = [], rs_track_album = [], rs_track_image = [], rs_context_uri = [], rs_context_name = [],
     rs_duration = 0, rs_position_as_of = 0, rs_timestamp = 0, rs_position = 0, rs_received_at = 0,
     rs_received_wall = 0, rs_clock_offset = 0, rs_offset_known = False, rs_is_playing = False,
     rs_is_paused = False, rs_speed = 0, rs_volume = 0, rs_volume_disabled = False, rs_volume_steps = 0,
     rs_shuffle_context = False, rs_smart_shuffle = False, rs_repeat_context = False, rs_repeat_track = False,
     rs_disallow_skip_prev = False, rs_disallow_skip_next = False, rs_disallow_seek = False,
     rs_prev_tracks = [], rs_next_tracks = [], rs_raw_metadata = (\<lambda>_. None)\<rparr>"

definition max_position_projection_ms :: int where "max_position_projection_ms = 600000"

text \<open>The age of the snapshot when it arrived, and the time since, both bounded.\<close>

definition snapshot_age :: "remote_state \<Rightarrow> int" where
  "snapshot_age rs =
     (if rs_offset_known rs \<and> rs_timestamp rs > 0
      then let age = rs_received_wall rs - rs_timestamp rs - rs_clock_offset rs
           in if age < 0 then 0 else if age > max_position_projection_ms then max_position_projection_ms else age
      else 0)"

text \<open>\<open>Duration.Milliseconds\<close> drops the fraction.\<close>

definition to_millis :: "duration \<Rightarrow> int" where
  "to_millis d = (if d \<ge> 0 then d div 1000000 else - ((- d) div 1000000))"

definition snapshot_elapsed :: "instant \<Rightarrow> remote_state \<Rightarrow> int" where
  "snapshot_elapsed now rs =
     (let elapsed = to_millis (time_sub now (rs_received_at rs))
      in if elapsed < 0 then 0 else if elapsed > max_position_projection_ms then 0 else elapsed)"

definition remote_position :: "instant \<Rightarrow> remote_state option \<Rightarrow> int" where
  "remote_position now ors =
     (case ors of
        None \<Rightarrow> 0
      | Some rs \<Rightarrow>
          if rs_is_paused rs \<or> \<not> rs_is_playing rs \<or> is_zero (rs_received_at rs) then rs_position_as_of rs
          else rs_position_as_of rs
                 + trunc (of_int (snapshot_age rs + snapshot_elapsed now rs) * rs_speed rs))"

subsection \<open>The clock offset\<close>

record clock_estimator =
  ce_samples :: "int list"
  ce_pending :: "int option"

definition clock_offset_window :: nat where "clock_offset_window = 16"
definition clock_jump_flush_ms :: int where "clock_jump_flush_ms = 60000"

definition new_estimator :: clock_estimator where
  "new_estimator = \<lparr>ce_samples = [], ce_pending = None\<rparr>"

definition clock_offset :: "clock_estimator \<Rightarrow> int option" where
  "clock_offset e =
     (case ce_samples e of
        [] \<Rightarrow> None
      | s # ss \<Rightarrow> Some (foldl (\<lambda>m x. if x < m then x else m) s ss))"

definition clock_push :: "clock_estimator \<Rightarrow> int \<Rightarrow> clock_estimator" where
  "clock_push e sample =
     (let ss = ce_samples e @ [sample]
      in e\<lparr>ce_samples := (if length ss > clock_offset_window then tl ss else ss)\<rparr>)"

definition clock_add :: "clock_estimator \<Rightarrow> int \<Rightarrow> clock_estimator" where
  "clock_add e sample =
     (case clock_offset e of
        None \<Rightarrow> clock_push e sample
      | Some cur \<Rightarrow>
          if \<bar>sample - cur\<bar> > clock_jump_flush_ms then
            (case ce_pending e of
               Some p \<Rightarrow>
                 if \<bar>sample - p\<bar> \<le> clock_jump_flush_ms
                 then clock_push (e\<lparr>ce_samples := [p], ce_pending := None\<rparr>) sample
                 else e\<lparr>ce_pending := Some sample\<rparr>
             | None \<Rightarrow> e\<lparr>ce_pending := Some sample\<rparr>)
          else clock_push (e\<lparr>ce_pending := None\<rparr>) sample)"

subsection \<open>Lemmas\<close>

lemma foldl_min: "foldl (\<lambda>m x. if x < m then x else m) s ss = Min (set (s # ss))" for s :: int
proof (induction ss arbitrary: s)
  case (Cons x ss)
  have "Min (set ((if x < s then x else s) # ss)) = Min (set (s # x # ss))"
    by (cases ss) (auto simp: min_def)
  with Cons.IH show ?case by simp
qed simp

lemma clock_offset_Min: "clock_offset e = (if ce_samples e = [] then None else Some (Min (set (ce_samples e))))"
  using foldl_min by (auto simp: clock_offset_def split: list.splits)

text \<open>The samples are bounded by the window.\<close>

definition clock_ok :: "clock_estimator \<Rightarrow> bool" where
  "clock_ok e \<longleftrightarrow> length (ce_samples e) \<le> clock_offset_window"

lemma clock_push_length: "length (ce_samples e) \<le> clock_offset_window \<Longrightarrow> length (ce_samples (clock_push e s)) \<le> clock_offset_window"
  by (simp add: clock_push_def Let_def clock_offset_window_def)

interpretation clock: invariant_machine clock_add clock_ok
proof unfold_locales
  fix e s
  assume "clock_ok e"
  then show "clock_ok (clock_add e s)"
    using clock_push_length [of "e\<lparr>ce_pending := None\<rparr>" s] clock_push_length [of e s]
      clock_push_length [of "e\<lparr>ce_samples := [p], ce_pending := None\<rparr>" s for p]
    by (auto simp: clock_add_def clock_ok_def clock_offset_window_def split: option.split)
qed

lemma trunc_mono: "p \<le> q \<Longrightarrow> trunc p \<le> trunc q"
proof (cases "0 \<le> p")
  case True
  then show "p \<le> q \<Longrightarrow> trunc p \<le> trunc q" by (simp add: trunc_def floor_mono)
next
  case False
  then have p: "trunc p \<le> 0" by (simp add: trunc_def)
  assume pq: "p \<le> q"
  show "trunc p \<le> trunc q"
  proof (cases "0 \<le> q")
    case True
    with p trunc_nonneg [of q] show ?thesis by simp
  next
    case False
    with \<open>\<not> 0 \<le> p\<close> pq show ?thesis by (simp add: trunc_def ceiling_mono)
  qed
qed

lemma trunc_le: "trunc q \<le> n" if "q \<le> of_int n" for n
  using trunc_mono [OF that] by simp

lemma to_millis_mono: "a \<le> b \<Longrightarrow> to_millis a \<le> to_millis b"
proof -
  assume "a \<le> b"
  have n: "0 \<le> x \<Longrightarrow> 0 \<le> x div 1000000" for x :: int by simp
  from \<open>a \<le> b\<close> n [of b] n [of "- a"] zdiv_mono1 [of "- b" "- a" 1000000] zdiv_mono1 [of a b 1000000]
  show "to_millis a \<le> to_millis b" by (auto simp: to_millis_def)
qed

lemma scaled_mono: "0 \<le> v \<Longrightarrow> a \<le> b \<Longrightarrow> trunc (of_int a * v) \<le> trunc (of_int b * v)"
  by (simp add: mult_right_mono trunc_mono)

lemma scaled_bounds:
  assumes "0 \<le> v" "v \<le> 1" "0 \<le> a"
  shows "0 \<le> trunc (of_int a * v)" and "trunc (of_int a * v) \<le> a"
proof -
  show "0 \<le> trunc (of_int a * v)" using assms by (simp add: trunc_nonneg)
  have "of_int a * v \<le> of_int a * 1" using assms by (intro mult_left_mono) auto
  then show "trunc (of_int a * v) \<le> a" by (simp add: trunc_le)
qed

lemma snapshot_age_bounds: "0 \<le> snapshot_age rs \<and> snapshot_age rs \<le> max_position_projection_ms"
  by (simp add: snapshot_age_def max_position_projection_ms_def Let_def)

lemma snapshot_elapsed_bounds: "0 \<le> snapshot_elapsed now rs \<and> snapshot_elapsed now rs \<le> max_position_projection_ms"
  by (simp add: snapshot_elapsed_def max_position_projection_ms_def Let_def)

lemma time_sub_mono: "s \<le> t \<Longrightarrow> time_sub s u \<le> time_sub t u"
  by (simp add: time_sub_def)

lemma snapshot_elapsed_mono:
  assumes "t \<le> t'" "to_millis (time_sub t' (rs_received_at rs)) \<le> max_position_projection_ms"
  shows "snapshot_elapsed t rs \<le> snapshot_elapsed t' rs"
  using to_millis_mono [OF time_sub_mono [OF assms(1)], of "rs_received_at rs"] assms(2)
  by (auto simp: snapshot_elapsed_def Let_def)

lemma clock_push_pending [simp]: "ce_pending (clock_push e s) = ce_pending e"
  by (simp add: clock_push_def Let_def)

lemma clock_offset_pending [simp]: "clock_offset (e\<lparr>ce_pending := p\<rparr>) = clock_offset e"
  by (simp add: clock_offset_def)

lemma project_tracks_eq:
  "length out \<le> limit \<Longrightarrow> project_tracks ts limit out
     = take limit (out @ [queue_track_of uri md. Some (uri, md) \<leftarrow> ts, uri \<noteq> []])"
proof (induction ts limit out rule: project_tracks.induct)
  case (3 uri md ts limit out)
  show ?case
  proof (cases "uri = [] \<or> length out = limit")
    case False
    with 3 have "Suc (length out) \<le> limit" by simp
    with 3 False show ?thesis by (simp add: Suc_diff_Suc take_Cons' [of "limit - length out"])
  qed (use 3 in auto)
qed auto

subsection \<open>Properties\<close>

text \<open>The shown position of a playing remote device, at a speed between 0 and 1, never lies before
  the reported one nor more than twice the projection bound after it, and does not run backwards
  while the snapshot is fresh; a paused device stays where it was reported.\<close>

theorem remote_position_projection:
  assumes "0 \<le> rs_speed rs" "rs_speed rs \<le> 1" "t \<le> t'"
  shows "rs_position_as_of rs \<le> remote_position t (Some rs)
         \<and> remote_position t (Some rs) \<le> rs_position_as_of rs + 2 * max_position_projection_ms
         \<and> (to_millis (time_sub t' (rs_received_at rs)) \<le> max_position_projection_ms \<longrightarrow>
              remote_position t (Some rs) \<le> remote_position t' (Some rs))
         \<and> (rs_is_paused rs \<longrightarrow> remote_position t (Some rs) = rs_position_as_of rs)"
proof -
  let ?a = "\<lambda>t. snapshot_age rs + snapshot_elapsed t rs"
  have b: "0 \<le> ?a t" "?a t \<le> 2 * max_position_projection_ms" for t
    using snapshot_age_bounds [of rs] snapshot_elapsed_bounds [of t rs] by auto
  have "to_millis (time_sub t' (rs_received_at rs)) \<le> max_position_projection_ms \<Longrightarrow> ?a t \<le> ?a t'"
    using snapshot_elapsed_mono [OF assms(3)] by simp
  then show ?thesis
    using scaled_bounds [OF assms(1,2) b(1) [of t]] b(2) [of t] scaled_mono [OF assms(1), of "?a t" "?a t'"]
    by (auto simp: remote_position_def max_position_projection_ms_def)
qed

definition playing_snapshot :: remote_state where
  "playing_snapshot = zero_remote\<lparr>rs_track_uri := ''u'', rs_context_uri := ''c'', rs_duration := 200000,
     rs_position_as_of := 5000, rs_timestamp := 1000, rs_received_at := 7000000000, rs_received_wall := 1900,
     rs_clock_offset := 400, rs_offset_known := True, rs_is_playing := True, rs_speed := 1\<rparr>"

theorem remote_position_projection_witness:
  "remote_position 7000000000 (Some playing_snapshot) = 5500
   \<and> remote_position 9000000000 (Some playing_snapshot) = 7500
   \<and> remote_position 7000000000 (Some playing_snapshot) \<le> remote_position 9000000000 (Some playing_snapshot)"
proof -
  have "rs_position_as_of playing_snapshot \<le> remote_position 7000000000 (Some playing_snapshot)
         \<and> remote_position 7000000000 (Some playing_snapshot) \<le> rs_position_as_of playing_snapshot + 2 * max_position_projection_ms
         \<and> (to_millis (time_sub 9000000000 (rs_received_at playing_snapshot)) \<le> max_position_projection_ms \<longrightarrow>
              remote_position 7000000000 (Some playing_snapshot) \<le> remote_position 9000000000 (Some playing_snapshot))
         \<and> (rs_is_paused playing_snapshot \<longrightarrow> remote_position 7000000000 (Some playing_snapshot) = rs_position_as_of playing_snapshot)"
    by (rule remote_position_projection) (simp_all add: playing_snapshot_def zero_remote_def)
  then show ?thesis
    by (simp add: playing_snapshot_def zero_remote_def remote_position_def snapshot_age_def snapshot_elapsed_def to_millis_def time_sub_def
        max_position_projection_ms_def is_zero_def trunc_def)
qed

text \<open>The estimate of the clock offset is the least sample kept. One sample more than a minute off
  leaves the estimate as it is, and no trace once a sample near the estimate follows; a second one
  that agrees with the first replaces all the samples by these two.\<close>

theorem clock_outliers:
  assumes "clock_offset e = Some cur" "ce_pending e = None" "\<bar>x - cur\<bar> > clock_jump_flush_ms"
  shows "cur = Min (set (ce_samples e))
         \<and> clock_offset (clock_add e x) = Some cur
         \<and> (\<bar>y - cur\<bar> \<le> clock_jump_flush_ms \<longrightarrow> clock_add (clock_add e x) y = clock_add e y)
         \<and> (\<bar>y - cur\<bar> > clock_jump_flush_ms \<and> \<bar>y - x\<bar> \<le> clock_jump_flush_ms \<longrightarrow>
              clock_add (clock_add e x) y = \<lparr>ce_samples = [x, y], ce_pending = None\<rparr>)"
proof -
  have out: "clock_add e x = e\<lparr>ce_pending := Some x\<rparr>"
    using assms by (simp add: clock_add_def)
  have "e\<lparr>ce_pending := None\<rparr> = e" using assms(2) by (cases e) simp
  then show ?thesis
    unfolding out using assms
    by (auto simp: clock_add_def clock_offset_Min clock_push_def clock_offset_window_def clock_jump_flush_ms_def
        split: if_splits)
qed

theorem clock_outliers_witness:
  "clock_offset (foldl clock_add new_estimator [300, 250, 90000]) = Some 250
   \<and> foldl clock_add new_estimator [300, 250, 90000, 260] = foldl clock_add new_estimator [300, 250, 260]
   \<and> foldl clock_add new_estimator [300, 250, 90000, 90100] = \<lparr>ce_samples = [90000, 90100], ce_pending = None\<rparr>"
proof -
  let ?e = "foldl clock_add new_estimator [300, 250]"
  have h: "clock_offset ?e = Some 250" "ce_pending ?e = None" "\<bar>90000 - 250\<bar> > clock_jump_flush_ms"
    by (simp_all add: new_estimator_def clock_add_def clock_offset_def clock_push_def clock_offset_window_def clock_jump_flush_ms_def)
  from clock_outliers [OF h, of 260] clock_outliers [OF h, of 90100] show ?thesis
    by (simp add: clock_jump_flush_ms_def)
qed

text \<open>The projected queue is the first entries, in order, of the tracks that are there and have a uri,
  at most as many as the limit.\<close>

lemma project_queue_spec:
  "project_queue ts limit = take limit [queue_track_of uri md. Some (uri, md) \<leftarrow> ts, uri \<noteq> []]
   \<and> length (project_queue ts limit) \<le> limit \<and> (\<forall>q. q \<in> set (project_queue ts limit) \<longrightarrow> qt_uri q \<noteq> [])"
proof -
  let ?all = "[queue_track_of uri md. Some (uri, md) \<leftarrow> ts, uri \<noteq> []]"
  have e: "project_queue ts limit = take limit ?all"
    by (simp add: project_queue_def project_tracks_eq)
  have "q \<in> set ?all \<Longrightarrow> qt_uri q \<noteq> []" for q
    by (auto simp: queue_track_of_def split: option.splits if_splits)
  then have "q \<in> set (take limit ?all) \<Longrightarrow> qt_uri q \<noteq> []" for q
    by (blast dest: in_set_takeD)
  then show ?thesis unfolding e by simp
qed

lemma project_queue_spec_witness:
  "map qt_uri (project_queue [None, Some (''a:b:c:d'', \<lambda>_. None), Some ([], \<lambda>_. None), Some (''e'', \<lambda>_. None), Some (''f'', \<lambda>_. None)] 2)
     = [''a:b:c:d'', ''e'']
   \<and> (\<forall>q. q \<in> set (project_queue [Some (''a:b:c:d'', \<lambda>_. None)] 2) \<longrightarrow> qt_uri q \<noteq> [])"
  using project_queue_spec [of "[Some (''a:b:c:d'', \<lambda>_. None)]" 2]
    project_queue_spec [of "[None, Some (''a:b:c:d'', \<lambda>_. None), Some ([], \<lambda>_. None), Some (''e'', \<lambda>_. None), Some (''f'', \<lambda>_. None)]" 2]
  by (simp add: queue_track_of_def)

end
