(* ===== verification/QueueExpand.thy ===== *)
theory QueueExpand
  imports PlayerState "HOL-Library.AList"
begin

text \<open>
  The full upcoming queue (\<open>daemon/queue_expand.go\<close>): the Connect payload ships a short preview
  of the queue, and for a playlist or the liked songs played in order the rest is derived
  from the track list of the context, which is fetched in the background and cached.

  A decoded JSON value is an \<open>any\<close>; its maps are association lists. The cache is a Go map
  whose iteration order can be seen when entries are as old as each other, so it is an
  association list in the order of the iteration. The goroutine of a fetch is an answer of
  \<open>expand_queue\<close>, and its body is \<open>fetch_queue_expand\<close> with the pages it gets.
\<close>

subsection \<open>Decoded JSON\<close>

record web_image =
  wi_url :: string
  wi_width :: int
  wi_height :: int

datatype any =
    AnyNil
  | AnyBool bool
  | AnyFloat rat
  | AnyInt int
  | AnyNumber "rat option"
  | AnyStr string
  | AnySlice "any list"
  | AnyMap "(string \<times> any) list"
  | AnyImage web_image
  | AnyImages "web_image list"

fun as_map :: "any \<Rightarrow> (string \<times> any) list option" where
  "as_map (AnyMap m) = Some m"
| "as_map _ = None"

text \<open>A lookup in a map, a nil map holding nothing.\<close>

definition any_get :: "(string \<times> any) list option \<Rightarrow> string \<Rightarrow> any" where
  "any_get om k = (case om of None \<Rightarrow> AnyNil | Some m \<Rightarrow> (case map_of m k of None \<Rightarrow> AnyNil | Some v \<Rightarrow> v))"

fun as_slice :: "any \<Rightarrow> any list" where
  "as_slice (AnySlice s) = s"
| "as_slice _ = []"

fun any_str :: "any \<Rightarrow> string" where
  "any_str (AnyStr s) = s"
| "any_str _ = []"

fun as_float :: "any \<Rightarrow> rat" where
  "as_float (AnyFloat q) = q"
| "as_float (AnyInt n) = of_int n"
| "as_float (AnyNumber r) = (case r of None \<Rightarrow> 0 | Some q \<Rightarrow> q)"
| "as_float _ = 0"

definition first_string :: "(string \<times> any) list option \<Rightarrow> string list \<Rightarrow> string" where
  "first_string om keys =
     (case find (\<lambda>k. any_str (any_get om k) \<noteq> []) keys of None \<Rightarrow> [] | Some k \<Rightarrow> any_str (any_get om k))"

subsection \<open>Tracks of a page\<close>

text \<open>\<open>pick\<close> over the images, each a url and a width: the first that fits, else the first that
  is usable.\<close>

fun pick_image :: "string \<Rightarrow> (string \<times> int) list \<Rightarrow> string" where
  "pick_image first [] = first"
| "pick_image first ((url, width) # is) =
     (if url = [] then pick_image first is
      else if width \<ge> 250 \<and> width \<le> 400 then url
      else pick_image (if first = [] then url else first) is)"

fun image_of_any :: "any \<Rightarrow> string \<times> int" where
  "image_of_any (AnyImage i) = (wi_url i, wi_width i)"
| "image_of_any (AnyMap m) = (first_string (Some m) [''url'', ''URL''], trunc (as_float (any_get (Some m) ''width'')))"
| "image_of_any _ = ([], 0)"

fun pf_image_url :: "any \<Rightarrow> string" where
  "pf_image_url (AnyImages is) = pick_image [] (map (\<lambda>i. (wi_url i, wi_width i)) is)"
| "pf_image_url (AnySlice is) = pick_image [] (map image_of_any is)"
| "pf_image_url _ = []"

definition queue_track_of_item :: "any \<Rightarrow> queue_track option" where
  "queue_track_of_item raw =
     (case as_map (any_get (as_map raw) ''track'') of
        None \<Rightarrow> None
      | Some tr \<Rightarrow>
          let uri = any_str (any_get (Some tr) ''uri'')
          in if uri = [] then None
             else
               let id0 = any_str (any_get (Some tr) ''id'');
                   alb = as_map (any_get (Some tr) ''album'')
               in Some \<lparr>qt_uri = uri,
                        qt_track_id = (if id0 = [] then track_id_from_uri uri else id0),
                        qt_name = any_str (any_get (Some tr) ''name''),
                        qt_artist = (case as_slice (any_get (Some tr) ''artists'') of
                            [] \<Rightarrow> [] | a # _ \<Rightarrow> first_string (as_map a) [''name'']),
                        qt_album = (if alb = None then [] else first_string alb [''name'']),
                        qt_image_url = (if alb = None then []
                            else convert_spotify_image_url (pf_image_url (any_get alb ''images'')))\<rparr>)"

definition queue_tracks_from_pf_items :: "any list \<Rightarrow> queue_track list" where
  "queue_tracks_from_pf_items items = List.map_filter queue_track_of_item items"

subsection \<open>Contexts\<close>

definition liked_collection_uri :: string where
  "liked_collection_uri = ''spotify:collection:tracks''"

definition is_liked_collection_uri :: "string \<Rightarrow> bool" where
  "is_liked_collection_uri uri \<longleftrightarrow>
     uri = liked_collection_uri \<or> has_prefix uri ''spotify:user:'' \<and> has_suffix uri '':collection:tracks''"

definition expandable_context_uri :: "string \<Rightarrow> string" where
  "expandable_context_uri uri =
     (if has_prefix uri ''spotify:playlist:'' then uri
      else if is_liked_collection_uri uri then uri
      else [])"

definition queue_expand_fetch_op :: "string \<Rightarrow> bool \<Rightarrow> string" where
  "queue_expand_fetch_op uri as_library =
     (if has_prefix uri ''spotify:playlist:'' \<and> \<not> as_library then ''fetchPlaylist'' else ''fetchLibraryTracks'')"

subsection \<open>The expansion\<close>

fun index_of :: "('a \<Rightarrow> bool) \<Rightarrow> 'a list \<Rightarrow> nat option" where
  "index_of P [] = None"
| "index_of P (x # xs) = (if P x then Some 0 else map_option Suc (index_of P xs))"

text \<open>The position of the active track: by id, else by uri.\<close>

definition active_index :: "queue_track list \<Rightarrow> string \<Rightarrow> string \<Rightarrow> nat option" where
  "active_index ts uri i =
     (case (if i \<noteq> [] then index_of (\<lambda>t. qt_track_id t = i) ts else None) of
        Some n \<Rightarrow> Some n
      | None \<Rightarrow> if uri \<noteq> [] then index_of (\<lambda>t. qt_uri t = uri) ts else None)"

definition upcoming_of :: "queue_track list \<Rightarrow> nat \<Rightarrow> bool \<Rightarrow> queue_track list" where
  "upcoming_of ts idx repeat = drop (Suc idx) ts @ (if repeat then take (Suc idx) ts else [])"

text \<open>The preview without a leading echo of the active track.\<close>

definition echoes :: "string \<Rightarrow> string \<Rightarrow> queue_track \<Rightarrow> bool" where
  "echoes uri i t \<longleftrightarrow> qt_uri t = uri \<or> qt_track_id t \<noteq> [] \<and> qt_track_id t = i"

definition compared_preview :: "string \<Rightarrow> string \<Rightarrow> queue_track list \<Rightarrow> queue_track list" where
  "compared_preview uri i preview =
     (case preview of [] \<Rightarrow> [] | t # ts \<Rightarrow> if echoes uri i t then ts else preview)"

definition compute_queue_expansion ::
  "queue_track list \<Rightarrow> string \<Rightarrow> string \<Rightarrow> bool \<Rightarrow> queue_track list \<Rightarrow> queue_track list option" where
  "compute_queue_expansion ts uri i repeat preview =
     (if ts = [] then None
      else case active_index ts uri i of
        None \<Rightarrow> None
      | Some idx \<Rightarrow>
          let upcoming = upcoming_of ts idx repeat;
              compared = compared_preview uri i preview
          in if length compared > length upcoming then None
             else if list_ex (\<lambda>(c, u). qt_uri c = [] \<or> qt_uri c \<noteq> qt_uri u) (zip compared upcoming) then None
             else Some (if length upcoming > queue_limit then take queue_limit upcoming else upcoming))"

subsection \<open>The cache\<close>

definition queue_expand_page_limit :: nat where "queue_expand_page_limit = 100"
definition queue_expand_max_entries :: nat where "queue_expand_max_entries = 500"
definition queue_expand_cache_ttl :: duration where "queue_expand_cache_ttl = minutes 10"
definition queue_expand_cache_max_contexts :: nat where "queue_expand_cache_max_contexts = 32"

lemmas expand_consts = queue_expand_page_limit_def queue_expand_max_entries_def queue_expand_cache_ttl_def
  queue_expand_cache_max_contexts_def

record cache_entry =
  ce_list :: "queue_track list"
  ce_total :: int
  ce_fetched_at :: instant
  ce_as_library :: bool

type_synonym expand_cache = "(string \<times> cache_entry) list"

fun oldest_entry :: "string \<Rightarrow> instant \<Rightarrow> expand_cache \<Rightarrow> string" where
  "oldest_entry oldest since [] = oldest"
| "oldest_entry oldest since ((uri, e) # c) =
     (if oldest = [] \<or> ce_fetched_at e < since then oldest_entry uri (ce_fetched_at e) c
      else oldest_entry oldest since c)"

lemma oldest_entry_in: "oldest_entry o' since c \<noteq> [] \<Longrightarrow> oldest_entry o' since c = o' \<or> oldest_entry o' since c \<in> fst ` set c"
  by (induction o' since c rule: oldest_entry.induct) (auto split: if_splits)

lemma length_delete_less: "k \<in> fst ` set c \<Longrightarrow> length (AList.delete k c) < length c"
  by (induction c) (auto simp: AList.delete_eq le_imp_less_Suc)

function drop_oldest :: "expand_cache \<Rightarrow> expand_cache" where
  "drop_oldest c =
     (if length c > queue_expand_cache_max_contexts
      then let oldest = oldest_entry [] 0 c
           in if oldest = [] then c else drop_oldest (AList.delete oldest c)
      else c)"
  by pat_completeness auto

termination
  by (relation "measure length") (use oldest_entry_in in \<open>auto intro!: length_delete_less\<close>)

declare drop_oldest.simps [simp del]

definition prune_queue_expand_cache :: "instant \<Rightarrow> expand_cache \<Rightarrow> expand_cache" where
  "prune_queue_expand_cache now c =
     drop_oldest (filter (\<lambda>(uri, e). \<not> time_sub now (ce_fetched_at e) \<ge> queue_expand_cache_ttl) c)"

subsection \<open>Fetching a context\<close>

definition page_limit :: "nat \<Rightarrow> nat" where
  "page_limit offset =
     (if offset + queue_expand_page_limit > queue_expand_max_entries
      then queue_expand_max_entries - offset else queue_expand_page_limit)"

text \<open>The pages from an offset on: \<open>page offset limit\<close> is what the service answers, the items and
  the total, or an error.\<close>

function fetch_pages ::
  "(nat \<Rightarrow> nat \<Rightarrow> (any list \<times> int) option) \<Rightarrow> nat \<Rightarrow> queue_track list \<Rightarrow> int \<Rightarrow> (queue_track list \<times> int) option" where
  "fetch_pages page offset ts tot =
     (if offset < queue_expand_max_entries then
        let limit = page_limit offset
        in (case page offset limit of
              None \<Rightarrow> None
            | Some (items, page_total) \<Rightarrow>
                let ts' = ts @ queue_tracks_from_pf_items items; offset' = offset + limit
                in if page_total > 0 \<and> int offset' \<ge> page_total then Some (ts', page_total)
                   else fetch_pages page offset' ts' page_total)
      else Some (ts, tot))"
  by pat_completeness auto

termination
  by (relation "measure (\<lambda>(_, offset, _, _). queue_expand_max_entries - offset)")
    (auto simp: expand_consts page_limit_def)

declare fetch_pages.simps [simp del]

record expander =
  qx_cache :: expand_cache
  qx_in_flight :: "string set"
  qx_liked_session :: bool

definition new_expander :: expander where
  "new_expander = \<lparr>qx_cache = [], qx_in_flight = {}, qx_liked_session = False\<rparr>"

text \<open>\<open>expandQueue\<close>: the remote state, the cache, and the fetch it starts.\<close>

definition expand_queue ::
  "instant \<Rightarrow> remote_state option \<Rightarrow> expander \<Rightarrow> remote_state option \<times> (string \<times> bool) option \<times> expander" where
  "expand_queue now ors x =
     (case ors of
        None \<Rightarrow> (None, None, x)
      | Some rs \<Rightarrow>
          if rs_track_uri rs = [] \<or> rs_shuffle_context rs then (Some rs, None, x)
          else
            let ctx = expandable_context_uri (rs_context_uri rs)
            in if ctx = [] then (Some rs, None, x)
               else
                 let as_library = (qx_liked_session x \<and> has_prefix ctx ''spotify:playlist:'');
                     hit = (case map_of (qx_cache x) ctx of
                              None \<Rightarrow> None
                            | Some e \<Rightarrow> if time_sub now (ce_fetched_at e) \<ge> queue_expand_cache_ttl
                                          \<or> ce_as_library e \<noteq> as_library then None else Some e)
                 in case hit of
                      Some e \<Rightarrow>
                        (case compute_queue_expansion (ce_list e) (rs_track_uri rs) (track_id_from_uri (rs_track_uri rs))
                                (rs_repeat_context rs) (rs_next_tracks rs) of
                           None \<Rightarrow> (Some rs, None, x)
                         | Some up \<Rightarrow> (Some (rs\<lparr>rs_next_tracks := up\<rparr>), None, x))
                    | None \<Rightarrow>
                        if ctx \<in> qx_in_flight x then (Some rs, None, x)
                        else (Some rs, Some (ctx, as_library), x\<lparr>qx_in_flight := insert ctx (qx_in_flight x)\<rparr>))"

text \<open>\<open>fetchQueueExpand\<close>: the mark in flight is removed on every path; \<open>free\<close> says whether the
  run loop's channel takes the result.\<close>

definition fetch_queue_expand ::
  "instant \<Rightarrow> (nat \<Rightarrow> nat \<Rightarrow> (any list \<times> int) option) \<Rightarrow> bool \<Rightarrow> string \<Rightarrow> bool \<Rightarrow> expander
    \<Rightarrow> (string \<times> queue_track list \<times> int) option \<times> expander" where
  "fetch_queue_expand now page free ctx as_library x =
     (let done = (\<lambda>x. x\<lparr>qx_in_flight := qx_in_flight x - {ctx}\<rparr>)
      in case fetch_pages page 0 [] 0 of
           None \<Rightarrow> (None, done x)
         | Some (ts, tot) \<Rightarrow>
             if ts = [] then (None, done x)
             else
               let c = AList.update ctx \<lparr>ce_list = ts, ce_total = tot, ce_fetched_at = now, ce_as_library = as_library\<rparr> (qx_cache x);
                   c' = (if length c > queue_expand_cache_max_contexts then prune_queue_expand_cache now c else c)
               in (if free then Some (ctx, ts, tot) else None, done (x\<lparr>qx_cache := c'\<rparr>)))"

subsection \<open>Lemmas\<close>







lemma page_limit_bound: "off < queue_expand_max_entries \<Longrightarrow> off + page_limit off \<le> queue_expand_max_entries"
  by (auto simp: page_limit_def)

lemma fetch_pages_step:
  assumes "off < queue_expand_max_entries" "fetch_pages page off ts n = Some (us, m)"
  obtains items pt where "page off (page_limit off) = Some (items, pt)"
    and "us = ts @ queue_tracks_from_pf_items items
         \<or> fetch_pages page (off + page_limit off) (ts @ queue_tracks_from_pf_items items) pt = Some (us, m)"
  using assms by (auto simp: fetch_pages.simps [of page off] Let_def split: option.splits if_splits)

lemma pf_items_length: "length (queue_tracks_from_pf_items items) \<le> length items"
  by (simp add: queue_tracks_from_pf_items_def map_filter_def)

lemma fetch_pages_length:
  assumes "\<And>o' l is n. page o' l = Some (is, n) \<Longrightarrow> length is \<le> l"
  shows "fetch_pages page off ts n = Some (us, m) \<Longrightarrow> off \<le> queue_expand_max_entries \<Longrightarrow>
    length us + off \<le> length ts + queue_expand_max_entries"
proof (induction "queue_expand_max_entries - off" arbitrary: off ts n rule: less_induct)
  case less
  show ?case
  proof (cases "off < queue_expand_max_entries")
    case False
    with less(2,3) show ?thesis by (simp add: fetch_pages.simps)
  next
    case True
    have pos: "0 < page_limit off" using True by (auto simp: page_limit_def expand_consts)
    from fetch_pages_step [OF True less(2)] obtain items pt where
      p: "page off (page_limit off) = Some (items, pt)"
      and u: "us = ts @ queue_tracks_from_pf_items items
         \<or> fetch_pages page (off + page_limit off) (ts @ queue_tracks_from_pf_items items) pt = Some (us, m)" .
    have len: "length (queue_tracks_from_pf_items items) \<le> page_limit off"
      using pf_items_length [of items] assms [OF p] by simp
    note b = page_limit_bound [OF True]
    from u show ?thesis
    proof
      assume "fetch_pages page (off + page_limit off) (ts @ queue_tracks_from_pf_items items) pt = Some (us, m)"
      moreover have "queue_expand_max_entries - (off + page_limit off) < queue_expand_max_entries - off"
        using pos b by simp
      ultimately show ?thesis using less(1) [OF _ _ b] len by fastforce
    qed (use len b in simp)
  qed
qed

subsection \<open>The cache stays bounded\<close>

lemma oldest_entry_nonempty:
  "o' \<noteq> [] \<or> c \<noteq> [] \<Longrightarrow> [] \<notin> fst ` set c \<Longrightarrow> oldest_entry o' since c \<noteq> []"
  by (induction o' since c rule: oldest_entry.induct) (auto split: if_splits)

definition cache_ok :: "expand_cache \<Rightarrow> bool" where
  "cache_ok c \<longleftrightarrow> distinct (map fst c) \<and> [] \<notin> fst ` set c"

lemma cache_ok_delete: "cache_ok c \<Longrightarrow> cache_ok (AList.delete k c)"
  using AList.delete_keys [of k c] by (auto simp: cache_ok_def distinct_removeAll image_iff AList.delete_eq)

lemma cache_ok_filter: "cache_ok c \<Longrightarrow> cache_ok (filter P c)"
  by (auto simp: cache_ok_def distinct_map_filter)

lemma cache_ok_update: "cache_ok c \<Longrightarrow> k \<noteq> [] \<Longrightarrow> cache_ok (AList.update k v c)"
  using AList.dom_update [of k v c] by (auto simp: cache_ok_def AList.distinct_update dom_map_of_conv_image_fst)

lemma drop_oldest_ok: "cache_ok c \<Longrightarrow> cache_ok (drop_oldest c) \<and> length (drop_oldest c) \<le> queue_expand_cache_max_contexts"
proof (induction c rule: drop_oldest.induct)
  case (1 c)
  show ?case
  proof (cases "length c > queue_expand_cache_max_contexts")
    case True
    with "1.prems" have "oldest_entry [] 0 c \<noteq> []" by (intro oldest_entry_nonempty) (auto simp: cache_ok_def)
    with 1 True show ?thesis by (subst (1 2) drop_oldest.simps) (simp add: Let_def cache_ok_delete)
  next
    case False
    with 1 show ?thesis by (simp add: drop_oldest.simps [of c])
  qed
qed

lemma prune_ok:
  "cache_ok c \<Longrightarrow> cache_ok (prune_queue_expand_cache now c)
     \<and> length (prune_queue_expand_cache now c) \<le> queue_expand_cache_max_contexts"
  unfolding prune_queue_expand_cache_def by (intro drop_oldest_ok cache_ok_filter)

text \<open>The player's side of the cache as a machine: a fetch ends only when it is in flight.\<close>

datatype expand_event =
    ExpandQueue instant "remote_state option"
  | FetchEnds instant "nat \<Rightarrow> nat \<Rightarrow> (any list \<times> int) option" bool string bool
  | LikedSession bool

fun expand_step :: "expander \<Rightarrow> expand_event \<Rightarrow> expander" where
  "expand_step x (ExpandQueue now ors) = snd (snd (expand_queue now ors x))"
| "expand_step x (FetchEnds now page free ctx as_library) =
     (if ctx \<in> qx_in_flight x then snd (fetch_queue_expand now page free ctx as_library x) else x)"
| "expand_step x (LikedSession b) = x\<lparr>qx_liked_session := b\<rparr>"

definition expander_ok :: "expander \<Rightarrow> bool" where
  "expander_ok x \<longleftrightarrow> cache_ok (qx_cache x) \<and> length (qx_cache x) \<le> queue_expand_cache_max_contexts \<and> [] \<notin> qx_in_flight x"

lemma expand_queue_ok: "expander_ok x \<Longrightarrow> expander_ok (snd (snd (expand_queue now ors x)))"
  by (auto simp: expand_queue_def expander_ok_def Let_def split: option.split)

lemma fetch_ok:
  assumes "expander_ok x" "ctx \<in> qx_in_flight x"
  shows "expander_ok (snd (fetch_queue_expand now page free ctx as_library x))"
proof -
  have c: "cache_ok (AList.update ctx e (qx_cache x))" for e
    using assms by (auto simp: expander_ok_def intro: cache_ok_update)
  show ?thesis using assms prune_ok [OF c]
    by (auto simp: fetch_queue_expand_def Let_def expander_ok_def c split: option.split)
qed

interpretation expanding: invariant_machine expand_step expander_ok
proof unfold_locales
  fix x e
  assume "expander_ok x"
  then show "expander_ok (expand_step x e)"
    using expand_queue_ok [of x] fetch_ok [of x] by (cases e) (auto simp: expander_ok_def)
qed

subsection \<open>Properties\<close>




text \<open>the cache of contexts stays bounded. Whatever is expanded and fetched, in whatever order,
  it holds at most 32 contexts, each once; a fetch that ends is no longer in flight, whether it
  failed or not, so a failed context can be tried again; and when the service respects the
  limit of a page, no list is longer than 500 tracks.\<close>

theorem expand_cache_bounded:
  "length (qx_cache (foldl expand_step new_expander es)) \<le> 32
   \<and> distinct (map fst (qx_cache (foldl expand_step new_expander es)))
   \<and> ctx \<notin> qx_in_flight (expand_step (foldl expand_step new_expander es) (FetchEnds now page free ctx as_library))
   \<and> ((\<forall>off l is n. page off l = Some (is, n) \<longrightarrow> length is \<le> l) \<longrightarrow>
       (\<forall>us m. fetch_pages page 0 [] 0 = Some (us, m) \<longrightarrow> length us \<le> 500))"
proof -
  let ?x = "foldl expand_step new_expander es"
  have "expander_ok new_expander" by (simp add: expander_ok_def new_expander_def cache_ok_def)
  then have "expander_ok ?x" by (rule expanding.run_inv)
  then have "length (qx_cache ?x) \<le> 32" "distinct (map fst (qx_cache ?x))"
    by (simp_all add: expander_ok_def cache_ok_def expand_consts)
  moreover have "ctx \<notin> qx_in_flight (expand_step ?x (FetchEnds now page free ctx as_library))"
    by (auto simp: fetch_queue_expand_def Let_def split: option.split)
  moreover have "length us \<le> 500"
    if "\<forall>off l is n. page off l = Some (is, n) \<longrightarrow> length is \<le> l" "fetch_pages page 0 [] 0 = Some (us, m)" for us m
    using fetch_pages_length [OF _ that(2)] that(1) by (simp add: expand_consts)
  ultimately show ?thesis by blast
qed

text \<open>A page with one track, the total being one.\<close>

definition short_page :: "nat \<Rightarrow> nat \<Rightarrow> (any list \<times> int) option" where
  "short_page off l =
     (if l = 0 then None else Some ([AnyMap [(''track'', AnyMap [(''uri'', AnyStr ''spotify:track:a'')])]], 1))"

definition short_run :: "expand_event list" where
  "short_run = [ExpandQueue 0 (Some (playing_snapshot\<lparr>rs_context_uri := ''spotify:playlist:p''\<rparr>)),
     FetchEnds 5 short_page True ''spotify:playlist:p'' False]"

theorem expand_cache_bounded_witness:
  "length (qx_cache (foldl expand_step new_expander short_run)) \<le> 32
   \<and> length (qx_cache (foldl expand_step new_expander short_run)) = 1
   \<and> length (fst (the (fetch_pages short_page 0 [] 0))) \<le> 500"
proof -
  have "\<forall>off l is n. short_page off l = Some (is, n) \<longrightarrow> length is \<le> l"
    by (auto simp: short_page_def)
  moreover obtain us where us: "fetch_pages short_page 0 [] 0 = Some (us, 1)"
    by (simp add: fetch_pages.simps [of _ 0] page_limit_def expand_consts short_page_def)
  moreover have "length (qx_cache (foldl expand_step new_expander short_run)) = 1" by code_simp
  ultimately show ?thesis
    using expand_cache_bounded [of short_run "''spotify:playlist:p''" 5 short_page True False] by simp
qed

text \<open>A track whose album carries no usable image gets the url \<open>https://\<close>, which is not empty.\<close>

lemma album_without_image:
  "queue_tracks_from_pf_items [AnyMap [(''track'', AnyMap [(''uri'', AnyStr ''spotify:track:a''), (''album'', AnyMap [])])]]
   = [\<lparr>qt_uri = ''spotify:track:a'', qt_track_id = ''a'', qt_name = [], qt_artist = [], qt_album = [],
       qt_image_url = ''https://''\<rparr>]"
  by code_simp

end
