(* ===== verification/QueueResolver.thy ===== *)
theory QueueResolver
  imports QueueExpand
begin

text \<open>
  The resolver of sparse queue entries (\<open>daemon/queue_resolver.go\<close>) and the two places of the
  player's run loop that use it (\<open>daemon/player.go\<close>): names, artists, albums and covers that
  the Connect payload leaves out are fetched in the background and kept in a cache.

  A goroutine of \<open>resolve\<close> is split at its lock: \<open>resolve_store\<close>, \<open>resolve_art\<close> for each
  cover the web finds, \<open>resolve_settle\<close>, and \<open>resolve_done\<close>, the deferred removal of the
  pending marks. The cache is an association list in the order in which the eviction's
  iteration yields it; sets are the Go maps to empty structs.
\<close>

subsection \<open>State\<close>

record resolved_track =
  rq_name :: string
  rq_artist :: string
  rq_album :: string
  rq_image :: string

record resolver =
  qr_cache :: "(string \<times> resolved_track) list"
  qr_pending :: "string set"
  qr_tried :: "string set"

definition new_resolver :: resolver where
  "new_resolver = \<lparr>qr_cache = [], qr_pending = {}, qr_tried = {}\<rparr>"

definition blank_resolved :: resolved_track where
  "blank_resolved = \<lparr>rq_name = [], rq_artist = [], rq_album = [], rq_image = []\<rparr>"

text \<open>\<open>r.cache[uri]\<close>, the zero value when it is absent.\<close>

definition cached :: "resolver \<Rightarrow> string \<Rightarrow> resolved_track" where
  "cached r uri = (case map_of (qr_cache r) uri of None \<Rightarrow> blank_resolved | Some v \<Rightarrow> v)"

definition queue_art_backfill_limit :: nat where "queue_art_backfill_limit = 10"
definition queue_resolver_cache_max :: nat where "queue_resolver_cache_max = 500"

subsection \<open>The run loop's side\<close>

definition texts_complete :: "queue_track \<Rightarrow> bool" where
  "texts_complete t \<longleftrightarrow> qt_name t \<noteq> [] \<and> qt_artist t \<noteq> [] \<and> qt_album t \<noteq> []"

definition fill_texts :: "resolver \<Rightarrow> queue_track \<Rightarrow> queue_track" where
  "fill_texts r t =
     (case map_of (qr_cache r) (qt_uri t) of
        None \<Rightarrow> t
      | Some v \<Rightarrow> t\<lparr>qt_name := (if qt_name t = [] then rq_name v else qt_name t),
                   qt_artist := (if qt_artist t = [] then rq_artist v else qt_artist t),
                   qt_album := (if qt_album t = [] then rq_album v else qt_album t)\<rparr>)"

text \<open>\<open>applyCache\<close>: the tracks, the uris to resolve, and the marks.\<close>

fun apply_cache :: "queue_track list \<Rightarrow> resolver \<Rightarrow> (queue_track list \<times> string list) \<times> resolver" where
  "apply_cache [] r = (([], []), r)"
| "apply_cache (t # ts) r =
     (if texts_complete t
      then (let ((ts', us), r') = apply_cache ts r in ((t # ts', us), r'))
      else
        let t' = fill_texts r t
        in if \<not> texts_complete t' \<and> qt_uri t' \<notin> qr_pending r
           then (let ((ts', us), r') = apply_cache ts (r\<lparr>qr_pending := insert (qt_uri t') (qr_pending r)\<rparr>)
                 in ((t' # ts', qt_uri t' # us), r'))
           else (let ((ts', us), r') = apply_cache ts r in ((t' # ts', us), r')))"

definition resolver_lookup :: "resolver \<Rightarrow> string \<Rightarrow> (string \<times> string) option" where
  "resolver_lookup r uri =
     (case map_of (qr_cache r) uri of
        None \<Rightarrow> None
      | Some v \<Rightarrow> if rq_artist v = [] then None else Some (rq_artist v, rq_album v))"

fun art_pass :: "queue_track list \<Rightarrow> bool \<Rightarrow> resolver \<Rightarrow> (queue_track list \<times> string list) \<times> resolver" where
  "art_pass [] schedule r = (([], []), r)"
| "art_pass (t # ts) schedule r =
     (if qt_uri t = [] \<or> qt_image_url t \<noteq> []
      then (let ((ts', us), r') = art_pass ts schedule r in ((t # ts', us), r'))
      else if map_of (qr_cache r) (qt_uri t) \<noteq> None \<and> rq_image (cached r (qt_uri t)) \<noteq> []
      then (let ((ts', us), r') = art_pass ts schedule r
            in ((t\<lparr>qt_image_url := rq_image (cached r (qt_uri t))\<rparr> # ts', us), r'))
      else if schedule \<and> qt_uri t \<notin> qr_tried r \<and> qt_uri t \<notin> qr_pending r
      then (let ((ts', us), r') = art_pass ts schedule (r\<lparr>qr_pending := insert (qt_uri t) (qr_pending r)\<rparr>)
            in ((t # ts', qt_uri t # us), r'))
      else (let ((ts', us), r') = art_pass ts schedule r in ((t # ts', us), r')))"

definition apply_art_backfill :: "queue_track list \<Rightarrow> bool \<Rightarrow> resolver \<Rightarrow> (queue_track list \<times> string list) \<times> resolver" where
  "apply_art_backfill ts schedule r =
     (let ((ts', us), r') = art_pass (take queue_art_backfill_limit ts) schedule r
      in ((ts' @ drop queue_art_backfill_limit ts, us), r'))"

text \<open>The pass of \<open>updateRemoteState\<close>: the next and previous tracks, the uris that are fetched and
  those of them for their cover.\<close>

definition cluster_pass ::
  "queue_track list \<Rightarrow> queue_track list \<Rightarrow> resolver
    \<Rightarrow> (queue_track list \<times> queue_track list \<times> string list \<times> string list) \<times> resolver" where
  "cluster_pass next prev r =
     (let ((next1, art_next), r1) = apply_art_backfill next True r;
          ((next2, need_next), r2) = apply_cache next1 r1;
          ((prev2, need_prev), r3) = apply_cache prev r2
      in ((next2, prev2, need_next @ need_prev @ art_next, art_next), r3))"

text \<open>The pass when a resolution landed: the uris that \<open>applyCache\<close> wants are dropped.\<close>

definition resolved_pass ::
  "queue_track list \<Rightarrow> queue_track list \<Rightarrow> resolver \<Rightarrow> (queue_track list \<times> queue_track list) \<times> resolver" where
  "resolved_pass next prev r =
     (let ((next1, _), r1) = apply_cache next r;
          ((prev1, _), r2) = apply_cache prev r1;
          ((next2, _), r3) = apply_art_backfill next1 False r2
      in ((next2, prev1), r3))"

subsection \<open>The goroutine\<close>

definition is_blank :: "resolved_track \<Rightarrow> bool" where
  "is_blank e \<longleftrightarrow> rq_name e = [] \<and> rq_artist e = [] \<and> rq_album e = [] \<and> rq_image e = []"

text \<open>The store of what the batch fetched: how many were resolved.\<close>

fun store_fetched :: "(string \<times> resolved_track) list \<Rightarrow> resolver \<Rightarrow> nat \<times> resolver" where
  "store_fetched [] r = (0, r)"
| "store_fetched ((uri, e) # fs) r =
     (if is_blank e then store_fetched fs r
      else let e' = (if rq_image e = [] then e\<lparr>rq_image := rq_image (cached r uri)\<rparr> else e);
               (n, r') = store_fetched fs (r\<lparr>qr_cache := AList.update uri e' (qr_cache r)\<rparr>)
           in (n + 1, r'))"

definition resolve_store ::
  "(string \<times> resolved_track) list \<Rightarrow> string list \<Rightarrow> resolver \<Rightarrow> (nat \<times> string list) \<times> resolver" where
  "resolve_store fetched art r =
     (let (n, r1) = store_fetched fetched r
      in ((n, filter (\<lambda>uri. rq_image (cached r1 uri) = []) art), r1))"

definition resolve_art :: "string \<Rightarrow> string \<Rightarrow> resolver \<Rightarrow> nat \<times> resolver" where
  "resolve_art uri url r =
     (if url = [] then (0, r)
      else (1, r\<lparr>qr_cache := AList.update uri ((cached r uri)\<lparr>rq_image := url\<rparr>) (qr_cache r)\<rparr>))"

definition evict :: "resolver \<Rightarrow> resolver" where
  "evict r =
     (if length (qr_cache r) \<le> queue_resolver_cache_max then r
      else let n = length (qr_cache r) div 2
           in r\<lparr>qr_cache := drop n (qr_cache r), qr_tried := qr_tried r - set (map fst (take n (qr_cache r)))\<rparr>)"

definition resolve_settle :: "string list \<Rightarrow> resolver \<Rightarrow> resolver" where
  "resolve_settle art r = evict (r\<lparr>qr_tried := qr_tried r \<union> set art\<rparr>)"

definition resolve_done :: "string list \<Rightarrow> resolver \<Rightarrow> resolver" where
  "resolve_done uris r = r\<lparr>qr_pending := qr_pending r - set uris\<rparr>"

fun resolve_arts :: "(string \<Rightarrow> string) \<Rightarrow> string list \<Rightarrow> resolver \<Rightarrow> nat \<times> resolver" where
  "resolve_arts web [] r = (0, r)"
| "resolve_arts web (u # us) r =
     (let (n, r1) = resolve_art u (web u) r; (k, r2) = resolve_arts web us r1 in (n + k, r2))"

text \<open>\<open>resolve\<close> in one go: whether it signals the run loop. The web lookup may be absent.\<close>

definition resolve ::
  "(string \<times> resolved_track) list \<Rightarrow> (string \<Rightarrow> string) option \<Rightarrow> string list \<Rightarrow> string list \<Rightarrow> resolver \<Rightarrow> bool \<times> resolver" where
  "resolve fetched web uris art r =
     (let ((n, still), r1) = resolve_store fetched art r;
          (k, r2) = (case web of None \<Rightarrow> (0, r1) | Some w \<Rightarrow> resolve_arts w still r1)
      in (n + k \<noteq> 0, resolve_done uris (resolve_settle art r2)))"

subsection \<open>What a pass marks\<close>

text \<open>A pass asks for uris that were not pending, each once, and marks exactly these.\<close>

definition marks :: "string list \<Rightarrow> resolver \<Rightarrow> resolver \<Rightarrow> bool" where
  "marks us r r' \<longleftrightarrow> distinct us \<and> set us \<inter> qr_pending r = {} \<and> qr_pending r' = qr_pending r \<union> set us"

lemma marks_Nil [simp]: "marks [] r r' \<longleftrightarrow> qr_pending r' = qr_pending r"
  by (auto simp: marks_def)

lemma marks_Cons:
  "u \<notin> qr_pending r \<Longrightarrow> marks us (r\<lparr>qr_pending := insert u (qr_pending r)\<rparr>) r' \<Longrightarrow> marks (u # us) r r'"
  by (auto simp: marks_def)

lemma marks_append: "marks us r r1 \<Longrightarrow> marks vs r1 r2 \<Longrightarrow> marks (us @ vs) r r2"
  by (auto simp: marks_def)

lemma marks_rotate: "marks (us @ vs) r r' \<Longrightarrow> marks (vs @ us) r r'"
  by (auto simp: marks_def)

lemma fill_texts_uri [simp]: "qt_uri (fill_texts r t) = qt_uri t"
  by (simp add: fill_texts_def split: option.split)

lemma apply_cache_marks: "apply_cache ts r = ((ts', us), r') \<Longrightarrow> marks us r r'"
proof (induction ts arbitrary: r ts' us r')
  case (Cons t ts)
  then show ?case
    by (auto simp: Let_def split: if_splits prod.splits intro!: marks_Cons)
qed simp

lemma art_pass_marks: "art_pass ts schedule r = ((ts', us), r') \<Longrightarrow> marks us r r'"
proof (induction ts arbitrary: r ts' us r')
  case (Cons t ts)
  then show ?case
    by (auto simp: Let_def split: if_splits prod.splits intro!: marks_Cons)
qed simp

lemma art_backfill_marks: "apply_art_backfill ts schedule r = ((ts', us), r') \<Longrightarrow> marks us r r'"
  by (auto simp: apply_art_backfill_def split: prod.splits dest: art_pass_marks)

lemma art_pass_unscheduled: "art_pass ts False r = ((ts', us), r') \<Longrightarrow> us = [] \<and> qr_pending r' = qr_pending r"
proof (induction ts arbitrary: r ts' us r')
  case (Cons t ts)
  then show ?case by (auto simp: Let_def split: if_splits prod.splits)
qed simp

lemma art_pass_untried: "art_pass ts schedule r = ((ts', us), r') \<Longrightarrow> set us \<inter> qr_tried r = {}"
proof (induction ts arbitrary: r ts' us r')
  case (Cons t ts)
  then show ?case by (fastforce simp: Let_def split: if_splits prod.splits)
qed simp

lemma cluster_pass_marks: "cluster_pass n p r = ((n', p', fetch, art), r') \<Longrightarrow> marks fetch r r'"
proof -
  assume a: "cluster_pass n p r = ((n', p', fetch, art), r')"
  obtain n1 an r1 where 1: "apply_art_backfill n True r = ((n1, an), r1)" by (metis prod.exhaust)
  obtain n2 nn r2 where 2: "apply_cache n1 r1 = ((n2, nn), r2)" by (metis prod.exhaust)
  obtain p2 np r3 where 3: "apply_cache p r2 = ((p2, np), r3)" by (metis prod.exhaust)
  have "marks (an @ nn @ np) r r3"
    using art_backfill_marks [OF 1] apply_cache_marks [OF 2] apply_cache_marks [OF 3] marks_append by blast
  then have "marks (nn @ np @ an) r r3" using marks_rotate [of an "nn @ np"] by simp
  with a show ?thesis by (auto simp: cluster_pass_def 1 2 3)
qed

text \<open>The pass after a resolution only adds marks.\<close>

lemma resolved_pass_pending: "qr_pending r \<subseteq> qr_pending (snd (resolved_pass n p r))"
proof -
  obtain n1 un r1 where 1: "apply_cache n r = ((n1, un), r1)" by (metis prod.exhaust)
  obtain p1 up r2 where 2: "apply_cache p r1 = ((p1, up), r2)" by (metis prod.exhaust)
  obtain n2 ua r3 where 3: "apply_art_backfill n1 False r2 = ((n2, ua), r3)" by (metis prod.exhaust)
  show ?thesis
    using apply_cache_marks [OF 1] apply_cache_marks [OF 2] art_backfill_marks [OF 3]
    by (simp add: resolved_pass_def 1 2 3 marks_def) blast
qed

lemma store_fetched_pending: "store_fetched fs r = (n, r') \<Longrightarrow> qr_pending r' = qr_pending r"
  by (induction fs r arbitrary: n r' rule: store_fetched.induct)
    (fastforce simp: Let_def split: if_splits prod.splits)+

lemma resolve_store_pending [simp]: "qr_pending (snd (resolve_store fs art r)) = qr_pending r"
  using store_fetched_pending [of fs r] by (auto simp: resolve_store_def split: prod.splits)

lemma resolve_art_pending [simp]: "qr_pending (snd (resolve_art u url r)) = qr_pending r"
  by (simp add: resolve_art_def)

lemma resolve_settle_pending [simp]: "qr_pending (resolve_settle art r) = qr_pending r"
  by (simp add: resolve_settle_def evict_def Let_def)

subsection \<open>The resolver and its goroutines as a machine\<close>

text \<open>\<open>rr_running\<close> holds the uris of each goroutine that runs, \<open>rr_asked\<close> every uri ever fetched.
  The inner steps of a goroutine come in any order, its end removes its marks.\<close>

record resolving =
  rr_res :: resolver
  rr_running :: "string list list"
  rr_asked :: "string list"

datatype resolve_event =
    ClusterPass "queue_track list" "queue_track list"
  | ResolvedPass "queue_track list" "queue_track list"
  | Store "(string \<times> resolved_track) list" "string list"
  | ArtFound string string
  | Settle "string list"
  | ResolveEnds nat

definition idle_resolving :: resolving where
  "idle_resolving = \<lparr>rr_res = new_resolver, rr_running = [], rr_asked = []\<rparr>"

fun rr_step :: "resolving \<Rightarrow> resolve_event \<Rightarrow> resolving" where
  "rr_step s (ClusterPass n p) =
     (let ((_, _, fetch, art), r) = cluster_pass n p (rr_res s)
      in if fetch = [] then s\<lparr>rr_res := r\<rparr>
         else s\<lparr>rr_res := r, rr_running := fetch # rr_running s, rr_asked := rr_asked s @ fetch\<rparr>)"
| "rr_step s (ResolvedPass n p) = s\<lparr>rr_res := snd (resolved_pass n p (rr_res s))\<rparr>"
| "rr_step s (Store fs art) = s\<lparr>rr_res := snd (resolve_store fs art (rr_res s))\<rparr>"
| "rr_step s (ArtFound u url) = s\<lparr>rr_res := snd (resolve_art u url (rr_res s))\<rparr>"
| "rr_step s (Settle art) = s\<lparr>rr_res := resolve_settle art (rr_res s)\<rparr>"
| "rr_step s (ResolveEnds i) =
     (if i < length (rr_running s)
      then s\<lparr>rr_res := resolve_done (rr_running s ! i) (rr_res s),
             rr_running := take i (rr_running s) @ drop (Suc i) (rr_running s)\<rparr>
      else s)"

definition single_flight :: "resolving \<Rightarrow> bool" where
  "single_flight s \<longleftrightarrow> distinct (concat (rr_running s)) \<and> set (concat (rr_running s)) \<subseteq> qr_pending (rr_res s)"

text \<open>Marked, but fetched by no goroutine.\<close>

definition stranded :: "string \<Rightarrow> resolving \<Rightarrow> bool" where
  "stranded u s \<longleftrightarrow> u \<in> qr_pending (rr_res s) \<and> u \<notin> set (concat (rr_running s))"

definition times_asked :: "string \<Rightarrow> resolving \<Rightarrow> nat" where
  "times_asked u s = count_list (rr_asked s) u"

lemma cluster_step:
  assumes "rr_step s (ClusterPass n p) = s'"
  obtains fetch where "marks fetch (rr_res s) (rr_res s')"
    and "rr_running s' = (if fetch = [] then rr_running s else fetch # rr_running s)"
    and "rr_asked s' = rr_asked s @ fetch"
proof -
  obtain n' p' fetch art r where c: "cluster_pass n p (rr_res s) = ((n', p', fetch, art), r)"
    by (metis prod.exhaust)
  show ?thesis
    by (rule that [of fetch]) (use cluster_pass_marks [OF c] assms c in \<open>auto simp: Let_def\<close>)
qed

lemma remove_running:
  assumes "i < length xss"
  shows "set (concat xss) = set (xss ! i) \<union> set (concat (take i xss @ drop (Suc i) xss))"
    and "distinct (concat xss) \<Longrightarrow> distinct (concat (take i xss @ drop (Suc i) xss))
      \<and> set (xss ! i) \<inter> set (concat (take i xss @ drop (Suc i) xss)) = {}"
proof -
  have e: "concat xss = concat (take i xss) @ xss ! i @ concat (drop (Suc i) xss)"
    using id_take_nth_drop [OF assms] by (metis concat.simps(2) concat_append)
  show "set (concat xss) = set (xss ! i) \<union> set (concat (take i xss @ drop (Suc i) xss))"
    unfolding e by auto
  show "distinct (concat (take i xss @ drop (Suc i) xss))
      \<and> set (xss ! i) \<inter> set (concat (take i xss @ drop (Suc i) xss)) = {}" if "distinct (concat xss)"
    using that unfolding e concat_append by auto
qed

lemma single_flight_step: "single_flight s \<Longrightarrow> single_flight (rr_step s e)"
proof (cases e)
  case (ClusterPass n p)
  assume s: "single_flight s"
  obtain fetch where "marks fetch (rr_res s) (rr_res (rr_step s e))"
    and "rr_running (rr_step s e) = (if fetch = [] then rr_running s else fetch # rr_running s)"
    using cluster_step [OF refl, of s n p] unfolding ClusterPass by blast
  with s show ?thesis unfolding single_flight_def marks_def by (auto split: if_splits)
next
  case (ResolvedPass n p)
  assume "single_flight s"
  with resolved_pass_pending [of "rr_res s" n p] show ?thesis
    unfolding ResolvedPass by (auto simp: single_flight_def)
next
  case (ResolveEnds i)
  assume s: "single_flight s"
  show ?thesis
  proof (cases "i < length (rr_running s)")
    case True
    with s remove_running [OF True] show ?thesis
      unfolding ResolveEnds single_flight_def by (auto simp: resolve_done_def)
  qed (use s ResolveEnds in simp)
qed (auto simp: single_flight_def)

interpretation flights: invariant_machine rr_step single_flight
  by unfold_locales (rule single_flight_step)

lemma stranded_step: "stranded u s \<Longrightarrow> stranded u (rr_step s e) \<and> times_asked u (rr_step s e) = times_asked u s"
proof (cases e)
  case (ClusterPass n p)
  assume s: "stranded u s"
  obtain fetch where m: "marks fetch (rr_res s) (rr_res (rr_step s e))"
    and "rr_running (rr_step s e) = (if fetch = [] then rr_running s else fetch # rr_running s)"
    and "rr_asked (rr_step s e) = rr_asked s @ fetch"
    using cluster_step [OF refl, of s n p] unfolding ClusterPass by blast
  moreover have "u \<notin> set fetch" using s m by (auto simp: stranded_def marks_def)
  ultimately show ?thesis using s by (auto simp: stranded_def times_asked_def marks_def count_list_0_iff)
next
  case (ResolvedPass n p)
  assume "stranded u s"
  with resolved_pass_pending [of "rr_res s" n p] show ?thesis
    unfolding ResolvedPass by (auto simp: stranded_def times_asked_def)
next
  case (ResolveEnds i)
  assume s: "stranded u s"
  show ?thesis
  proof (cases "i < length (rr_running s)")
    case True
    with s remove_running(1) [OF True] show ?thesis
      unfolding ResolveEnds stranded_def by (auto simp: resolve_done_def times_asked_def)
  qed (use s ResolveEnds in simp)
qed (auto simp: stranded_def times_asked_def)

interpretation strand: frozen_machine rr_step "stranded u" "times_asked u" for u
  by unfold_locales (simp_all add: stranded_step)

lemma cards_not_backfilled:
  "qt_image_url t \<noteq> [] \<Longrightarrow> art_pass (t # ts) schedule r =
     ((t # fst (fst (art_pass ts schedule r)), snd (fst (art_pass ts schedule r))), snd (art_pass ts schedule r))"
  by (simp add: Let_def case_prod_beta)

text \<open>A card without a usable image, built by the queue expansion, is never backfilled: its url
  is \<open>https://\<close>.\<close>

lemma imageless_card_stays:
  "apply_art_backfill (queue_tracks_from_pf_items
      [AnyMap [(''track'', AnyMap [(''uri'', AnyStr ''spotify:track:a''), (''album'', AnyMap [])])]]) True new_resolver
   = ((queue_tracks_from_pf_items
      [AnyMap [(''track'', AnyMap [(''uri'', AnyStr ''spotify:track:a''), (''album'', AnyMap [])])]], []), new_resolver)"
  by code_simp

subsection \<open>Properties\<close>

text \<open>each uri is fetched by at most one goroutine at a time. However the passes of the run loop
  and the steps of the goroutines interleave, the uris that are being fetched are distinct and
  all of them are marked; and a cover that was settled is not asked for again by the pass that
  looks for covers.\<close>

theorem resolves_single_flight:
  "distinct (concat (rr_running (foldl rr_step idle_resolving es)))
   \<and> set (concat (rr_running (foldl rr_step idle_resolving es))) \<subseteq> qr_pending (rr_res (foldl rr_step idle_resolving es))
   \<and> set (snd (fst (apply_art_backfill ts schedule r))) \<inter> qr_tried r = {}"
proof -
  have "single_flight idle_resolving" by (simp add: single_flight_def idle_resolving_def)
  then have "single_flight (foldl rr_step idle_resolving es)" by (rule flights.run_inv)
  moreover have "set (snd (fst (apply_art_backfill ts schedule r))) \<inter> qr_tried r = {}"
  proof -
    obtain ts' us r' where a: "art_pass (take queue_art_backfill_limit ts) schedule r = ((ts', us), r')"
      by (metis prod.exhaust)
    show ?thesis using art_pass_untried [OF a] by (simp add: apply_art_backfill_def a)
  qed
  ultimately show ?thesis by (simp add: single_flight_def)
qed

text \<open>a uri that is marked while no goroutine fetches it is lost: it stays marked and is never
  fetched again, whatever follows. The pass after a resolution leaves such marks, since it
  drops the uris that \<open>applyCache\<close> wants resolved.\<close>

theorem stranded_never_fetched:
  assumes "u \<in> qr_pending (rr_res s)" and "u \<notin> set (concat (rr_running s))"
  shows "times_asked u (foldl rr_step s es) = times_asked u s
    \<and> u \<in> qr_pending (rr_res (foldl rr_step s es))
    \<and> u \<notin> set (concat (rr_running (foldl rr_step s es)))"
proof -
  have "stranded u s" using assms by (simp add: stranded_def)
  then show ?thesis
    using strand.run_spent_count [of u s es] strand.run_spent [of u s es] by (simp add: stranded_def)
qed

definition sparse_track :: "string \<Rightarrow> queue_track" where
  "sparse_track uri = queue_track_of uri (\<lambda>_. None)"

text \<open>Two sparse tracks are fetched, one is found, the run loop is told and passes again.\<close>

definition half_resolved :: resolving where
  "half_resolved = foldl rr_step idle_resolving
     [ClusterPass (map sparse_track [''a'', ''b'']) [],
      Store [(''b'', \<lparr>rq_name = ''n'', rq_artist = ''r'', rq_album = ''l'', rq_image = ''i''\<rparr>)] [''a'', ''b''],
      Settle [''a'', ''b''], ResolveEnds 0,
      ResolvedPass (map sparse_track [''a'', ''b'']) []]"

theorem stranded_never_fetched_witness:
  "times_asked ''a'' half_resolved = 1
   \<and> times_asked ''a'' (foldl rr_step half_resolved [ClusterPass [sparse_track ''a''] []]) = 1"
proof -
  have h: "''a'' \<in> qr_pending (rr_res half_resolved)" "''a'' \<notin> set (concat (rr_running half_resolved))"
    "times_asked ''a'' half_resolved = 1"
    by code_simp+
  show ?thesis using stranded_never_fetched [OF h(1,2), of "[ClusterPass [sparse_track ''a''] []]"] h(3) by simp
qed

end
