(* ===== verification/PlayerDevices.thy ===== *)
theory PlayerDevices
  imports Interfaces GoLib Traces "HOL-Library.AList"
begin

text \<open>
  The list of selectable Connect devices (\<open>daemon/player.go\<close>): the snapshot of the live cluster,
  the account-wide list of the Web API, the memory of devices seen in the last thirty days, their
  merge for the picker, and the commands to a device.

  A Go map is an association list in the order in which an iteration yields it. \<open>sort.Slice\<close> is
  not stable; since the order of equal elements before it is that of a map, nothing rests on their
  order after it, and the model sorts stably. \<open>strings.ToLower\<close> and \<open>ToUpper\<close> are those of ASCII.
  What the device type of the protocol is called is generated code: a device has the name.
\<close>

subsection \<open>Devices of the cluster\<close>

record capabilities =
  ca_volume_steps :: int
  ca_disable_volume :: bool
  ca_smart_shuffle :: bool

record device_info =
  di_name :: string
  di_type :: string
  di_volume :: nat
  di_offline :: bool
  di_caps :: "capabilities option"
  di_disallow_transfer :: "string list"
  di_aliases :: "(nat \<times> string) list"
  di_selected_alias :: nat
  di_brand :: string
  di_model :: string

definition looks_like_device_id :: "string \<Rightarrow> bool" where
  "looks_like_device_id s \<longleftrightarrow> 16 \<le> length s \<and>
     list_all (\<lambda>c. is_digit c \<or> (let n = of_char c :: nat in 97 \<le> n \<and> n \<le> 102 \<or> 65 \<le> n \<and> n \<le> 70)
                 \<or> c = CHR ''-'' \<or> c = CHR ''_'') s"

text \<open>The alias of the smallest id that has a name, over any order of the map.\<close>

fun best_alias :: "(nat \<times> string) list \<Rightarrow> nat \<Rightarrow> string \<Rightarrow> string" where
  "best_alias [] best_id best = best"
| "best_alias ((i, n) # as) best_id best =
     (if n \<noteq> [] \<and> (best = [] \<or> i < best_id) then best_alias as i n else best_alias as best_id best)"

definition friendly_device_name :: "device_info \<Rightarrow> string" where
  "friendly_device_name d =
     (let alias = (case map_of (di_aliases d) (di_selected_alias d) of None \<Rightarrow> [] | Some n \<Rightarrow> n);
          best = best_alias (di_aliases d) 0 [];
          s = trim_space (di_brand d @ '' '' @ di_model d)
      in if alias \<noteq> [] then alias
         else if best \<noteq> [] then best
         else if di_name d \<noteq> [] \<and> \<not> looks_like_device_id (di_name d) then di_name d
         else if s \<noteq> [] \<and> \<not> looks_like_device_id s then s
         else [])"

subsection \<open>The picker\<close>

record connect_device =
  cd_id :: string
  cd_name :: string
  cd_type :: string
  cd_volume :: nat
  cd_volume_steps :: int
  cd_volume_disabled :: bool
  cd_active :: bool
  cd_offline :: bool
  cd_can_transfer :: bool

record known_device =
  kc_name :: string
  kc_type :: string
  kc_active :: bool

record remembered_device =
  rc_name :: string
  rc_type :: string
  rc_last_seen :: instant

definition device_type_group :: string where "device_type_group = ''GROUP''"
definition connect_device_remember_ttl :: duration where "connect_device_remember_ttl = 30 * 24 * 60 * 60 * 1000000000"

text \<open>The device part of the player's \<open>State\<close>; \<open>dv_emitted\<close> are the events sent to the UI.\<close>

record devices =
  dv_names :: "(string \<times> string) list"
  dv_cluster :: "connect_device list"
  dv_active :: string
  dv_known :: "(string \<times> known_device) list"
  dv_remembered :: "(string \<times> remembered_device) list"
  dv_devices :: "connect_device list option"
  dv_sig :: string
  dv_emitted :: "connect_device list list"

definition no_devices :: devices where
  "no_devices = \<lparr>dv_names = [], dv_cluster = [], dv_active = [], dv_known = [], dv_remembered = [],
     dv_devices = None, dv_sig = [], dv_emitted = []\<rparr>"

text \<open>The last good name of a device is remembered.\<close>

definition device_display_name :: "string \<Rightarrow> device_info \<Rightarrow> devices \<Rightarrow> string \<times> devices" where
  "device_display_name i d s =
     (let name = friendly_device_name d
      in if name \<noteq> [] then (name, s\<lparr>dv_names := AList.update i name (dv_names s)\<rparr>)
         else case map_of (dv_names s) i of
                Some c \<Rightarrow> (if c \<noteq> [] then c else di_name d, s)
              | None \<Rightarrow> (di_name d, s))"

text \<open>What the Web API list says about a group.\<close>

definition known_group :: "string \<Rightarrow> devices \<Rightarrow> known_device option" where
  "known_group i s =
     (case map_of (dv_known s) i of
        Some k \<Rightarrow> if kc_type k = device_type_group then Some k else None
      | None \<Rightarrow> None)"

fun remember_all :: "string \<Rightarrow> instant \<Rightarrow> (string \<times> device_info) list \<Rightarrow> devices \<Rightarrow> devices" where
  "remember_all own now [] s = s"
| "remember_all own now ((i, d) # ds) s =
     (if i = own then remember_all own now ds s
      else
        let (name, s1) = device_display_name i d s;
            re = (case known_group i s of
                    Some k \<Rightarrow> \<lparr>rc_name = kc_name k, rc_type = device_type_group, rc_last_seen = now\<rparr>
                  | None \<Rightarrow> \<lparr>rc_name = name, rc_type = di_type d, rc_last_seen = now\<rparr>)
        in remember_all own now ds (s1\<lparr>dv_remembered := AList.update i re (dv_remembered s1)\<rparr>))"

definition remember_cluster_sightings ::
    "string \<Rightarrow> instant \<Rightarrow> (string \<times> device_info) list \<Rightarrow> devices \<Rightarrow> devices" where
  "remember_cluster_sightings own now ds s =
     (let s1 = remember_all own now ds s
      in s1\<lparr>dv_remembered := filter (\<lambda>(i, re). \<not> rc_last_seen re < now - connect_device_remember_ttl) (dv_remembered s1)\<rparr>)"

definition connect_device_of :: "string \<Rightarrow> string \<Rightarrow> string \<Rightarrow> device_info \<Rightarrow> devices \<Rightarrow> connect_device" where
  "connect_device_of active i name d s =
     (let cd = \<lparr>cd_id = i, cd_name = name, cd_type = di_type d, cd_volume = di_volume d,
                cd_volume_steps = (case di_caps d of None \<Rightarrow> 0 | Some c \<Rightarrow> ca_volume_steps c),
                cd_volume_disabled = (case di_caps d of None \<Rightarrow> False | Some c \<Rightarrow> ca_disable_volume c),
                cd_active = (i = active), cd_offline = di_offline d,
                cd_can_transfer = (di_disallow_transfer d = [])\<rparr>
      in case known_group i s of
           None \<Rightarrow> cd
         | Some k \<Rightarrow> cd\<lparr>cd_name := kc_name k, cd_type := device_type_group\<rparr>)"

fun snapshot_devices ::
    "string \<Rightarrow> string \<Rightarrow> (string \<times> device_info) list \<Rightarrow> devices \<Rightarrow> connect_device list \<times> devices" where
  "snapshot_devices own active [] s = ([], s)"
| "snapshot_devices own active ((i, d) # ds) s =
     (if i = own \<or> (di_offline d \<and> i \<noteq> active) then snapshot_devices own active ds s
      else
        let (name, s1) = device_display_name i d s;
            cd = connect_device_of active i name d s1;
            (cds, s2) = snapshot_devices own active ds s1
        in (cd # cds, s2))"

definition known_entry :: "devices \<Rightarrow> string \<times> known_device \<Rightarrow> connect_device" where
  "known_entry s ik =
     (let active = (fst ik = dv_active s \<or> kc_active (snd ik))
      in \<lparr>cd_id = fst ik, cd_name = kc_name (snd ik), cd_type = kc_type (snd ik), cd_volume = 0, cd_volume_steps = 0,
          cd_volume_disabled = False, cd_active = active, cd_offline = (\<not> active), cd_can_transfer = True\<rparr>)"

definition remembered_entry :: "devices \<Rightarrow> string \<times> remembered_device \<Rightarrow> connect_device" where
  "remembered_entry s ir =
     (let active = (fst ir = dv_active s)
      in \<lparr>cd_id = fst ir, cd_name = rc_name (snd ir), cd_type = rc_type (snd ir), cd_volume = 0, cd_volume_steps = 0,
          cd_volume_disabled = False, cd_active = active, cd_offline = (\<not> active), cd_can_transfer = True\<rparr>)"

definition in_cluster :: "devices \<Rightarrow> string \<Rightarrow> bool" where
  "in_cluster s i \<longleftrightarrow> list_ex (\<lambda>d. cd_id d = i) (dv_cluster s)"

definition merged_devices :: "string \<Rightarrow> devices \<Rightarrow> connect_device list" where
  "merged_devices own s =
     dv_cluster s
     @ map (known_entry s) (filter (\<lambda>(i, k). \<not> (i = own \<or> in_cluster s i)) (dv_known s))
     @ map (remembered_entry s)
         (filter (\<lambda>(i, re). \<not> (i = own \<or> in_cluster s i) \<and> map_of (dv_known s) i = None) (dv_remembered s))"

definition device_less :: "connect_device \<Rightarrow> connect_device \<Rightarrow> bool" where
  "device_less a b = (if cd_active a \<noteq> cd_active b then cd_active a else str_less (cd_name a) (cd_name b))"

definition show_bool :: "bool \<Rightarrow> string" where
  "show_bool b = (if b then ''true'' else ''false'')"

definition device_signature :: "connect_device \<Rightarrow> string" where
  "device_signature d = cd_id d @ '':'' @ cd_name d @ '':'' @ show_bool (cd_active d) @ '':'' @ show_bool (cd_offline d) @ '';''"

definition connect_devices_signature :: "connect_device list \<Rightarrow> string" where
  "connect_devices_signature ds = concat (map device_signature ds)"

definition publish_connect_devices :: "string \<Rightarrow> devices \<Rightarrow> devices" where
  "publish_connect_devices own s =
     (let devs = stable_sort device_less (merged_devices own s);
          s1 = s\<lparr>dv_devices := Some devs\<rparr>;
          sig = connect_devices_signature devs
      in if sig = dv_sig s then s1
         else s1\<lparr>dv_sig := sig, dv_emitted := dv_emitted s @ [devs]\<rparr>)"

definition update_connect_devices ::
    "string \<Rightarrow> instant \<Rightarrow> string \<Rightarrow> (string \<times> device_info) list \<Rightarrow> devices \<Rightarrow> devices" where
  "update_connect_devices own now active ds s =
     (let s1 = remember_cluster_sightings own now ds s;
          (devs, s2) = snapshot_devices own active ds s1
      in publish_connect_devices own (s2\<lparr>dv_cluster := devs, dv_active := active\<rparr>))"

subsection \<open>The account-wide list\<close>

definition to_lower :: "string \<Rightarrow> string" where
  "to_lower s = map (\<lambda>c. let n = of_char c :: nat in if 65 \<le> n \<and> n \<le> 90 then char_of (n + 32) else c) s"

definition web_api_device_type_name :: "string \<Rightarrow> string" where
  "web_api_device_type_name t =
     (let l = to_lower t
      in if l = ''computer'' then ''COMPUTER'' else if l = ''chromebook'' then ''CHROMEBOOK''
         else if l = ''smartphone'' then ''SMARTPHONE'' else if l = ''tablet'' then ''TABLET''
         else if l = ''speaker'' then ''SPEAKER'' else if l = ''tv'' then ''TV'' else if l = ''avr'' then ''AVR''
         else if l = ''stb'' then ''STB''
         else if l = ''audiodongle'' \<or> l = ''audio_dongle'' then ''AUDIO_DONGLE''
         else if l = ''gameconsole'' \<or> l = ''game_console'' then ''GAME_CONSOLE''
         else if l = ''group'' then device_type_group
         else fold_key t)"

definition dec_web_device :: "json \<Rightarrow> (string \<times> known_device) option" where
  "dec_web_device j = do {
     i \<leftarrow> field ''id'' [] dec_str j;
     n \<leftarrow> field ''name'' [] dec_str j;
     t \<leftarrow> field ''type'' [] dec_str j;
     a \<leftarrow> field ''isActive'' False dec_bool j;
     Some (i, \<lparr>kc_name = n, kc_type = web_api_device_type_name t, kc_active = a\<rparr>) }"

fun known_of :: "string \<Rightarrow> (string \<times> known_device) list \<Rightarrow> (string \<times> known_device) list \<Rightarrow> (string \<times> known_device) list" where
  "known_of own [] m = m"
| "known_of own ((i, k) # ds) m = known_of own ds (if i = [] \<or> i = own then m else AList.update i k m)"

text \<open>\<open>False\<close>: the list could not be read and the previous one stays.\<close>

definition refresh_known_connect_devices :: "string \<Rightarrow> http \<Rightarrow> devices \<Rightarrow> bool \<times> devices" where
  "refresh_known_connect_devices own resp s =
     (case resp of
        NoResponse \<Rightarrow> (False, s)
      | Response status body \<Rightarrow>
          if status \<noteq> 200 then (False, s)
          else case Option.bind body (\<lambda>b. Option.bind (json_decode b) (field ''devices'' [] (dec_list dec_web_device))) of
                 None \<Rightarrow> (False, s)
               | Some ds \<Rightarrow> (True, publish_connect_devices own (s\<lparr>dv_known := known_of own ds []\<rparr>)))"

text \<open>The interval of the poll in the run loop: it doubles after a failure, up to its maximum.\<close>

definition connect_device_poll_interval :: duration where "connect_device_poll_interval = minutes 5"
definition connect_device_poll_max :: duration where "connect_device_poll_max = minutes 30"

definition next_poll_interval :: "bool \<Rightarrow> duration \<Rightarrow> duration" where
  "next_poll_interval ok d =
     (if ok then connect_device_poll_interval
      else if d < connect_device_poll_max
      then (if d * 2 > connect_device_poll_max then connect_device_poll_max else d * 2)
      else d)"

subsection \<open>The target of a command\<close>

text \<open>\<open>default_device_id\<close> of the settings blob; empty when unset or invalid.\<close>

definition default_device_id_from_settings :: "string option \<Rightarrow> string" where
  "default_device_id_from_settings raw =
     (case raw of
        None \<Rightarrow> []
      | Some r \<Rightarrow>
          (case Option.bind (json_parse r) (opt_field ''default_device_id'' dec_str) of
             Some (Some i) \<Rightarrow> i
           | _ \<Rightarrow> []))"

definition connect_devices_or_empty :: "devices \<Rightarrow> connect_device list" where
  "connect_devices_or_empty s = (case dv_devices s of None \<Rightarrow> [] | Some ds \<Rightarrow> ds)"

text \<open>The active device of the remote state, by id and name; empty when there is none.\<close>

type_synonym active_device = "(string \<times> string) option"

definition active_target :: "active_device \<Rightarrow> string \<times> string \<times> bool" where
  "active_target act =
     (case act of Some (i, n) \<Rightarrow> if i \<noteq> [] then (i, n, False) else ([], [], False) | None \<Rightarrow> ([], [], False))"

definition resolve_target_device :: "string option \<Rightarrow> active_device \<Rightarrow> devices \<Rightarrow> string \<times> string \<times> bool" where
  "resolve_target_device settings act s =
     (let i = default_device_id_from_settings settings
      in if i = [] then active_target act
         else case find (\<lambda>d. cd_id d = i) (connect_devices_or_empty s) of
                Some d \<Rightarrow> (cd_id d, cd_name d, cd_offline d)
              | None \<Rightarrow> active_target act)"

subsection \<open>The events of the run loop\<close>

text \<open>A list with a key twice stands for the map of its first entries.\<close>

datatype device_event =
  ClusterSeen instant string "(string \<times> device_info) list"
| WebList http

primrec device_step :: "string \<Rightarrow> devices \<Rightarrow> device_event \<Rightarrow> devices" where
  "device_step own s (ClusterSeen now active ds) = update_connect_devices own now active (AList.clearjunk ds) s"
| "device_step own s (WebList resp) = snd (refresh_known_connect_devices own resp s)"

definition device_run :: "string \<Rightarrow> device_event list \<Rightarrow> devices" where
  "device_run own es = foldl (device_step own) no_devices es"

subsection \<open>The order of the picker\<close>

lemma str_less_irrefl [simp]: "\<not> str_less s s"
  by (induction s) auto

lemma str_less_trans: "str_less s t \<Longrightarrow> str_less t u \<Longrightarrow> str_less s u"
  by (induction s u arbitrary: t rule: str_less.induct) (case_tac t; auto split: if_splits)+

lemma str_less_total: "\<not> str_less s t \<Longrightarrow> \<not> str_less t s \<Longrightarrow> s = t"
  by (induction s t rule: str_less.induct) (auto split: if_splits)

lemma str_less_le_trans: "\<not> str_less t s \<Longrightarrow> \<not> str_less u t \<Longrightarrow> \<not> str_less u s"
  by (metis str_less_irrefl str_less_total str_less_trans)

interpretation picker: less_function device_less
proof unfold_locales
  fix x y z :: connect_device
  show "\<not> device_less x x" by (simp add: device_less_def)
  show "device_less x y \<Longrightarrow> \<not> device_less y x"
    using str_less_trans [of "cd_name x" "cd_name y" "cd_name x"] by (auto simp: device_less_def)
  show "\<not> device_less y x \<Longrightarrow> \<not> device_less z y \<Longrightarrow> \<not> device_less z x"
    using str_less_le_trans [of "cd_name y" "cd_name x" "cd_name z"]
    by (auto simp: device_less_def split: if_splits)
qed

subsection \<open>What the operations keep\<close>

definition keys_ok :: "string \<Rightarrow> (string \<times> 'a) list \<Rightarrow> bool" where
  "keys_ok own m \<longleftrightarrow> distinct (map fst m) \<and> own \<notin> fst ` set m"

lemma keys_ok_Nil [simp]: "keys_ok own []"
  by (simp add: keys_ok_def)

lemma keys_ok_update: "keys_ok own m \<Longrightarrow> i \<noteq> own \<Longrightarrow> keys_ok own (AList.update i v m)"
  by (simp add: keys_ok_def distinct_update dom_update)

lemma keys_ok_filter: "keys_ok own m \<Longrightarrow> keys_ok own (filter P m)"
  by (auto simp: keys_ok_def distinct_map_filter)

text \<open>What the names of the devices have nothing to do with.\<close>

definition same_lists :: "devices \<Rightarrow> devices \<Rightarrow> bool" where
  "same_lists s s' \<longleftrightarrow> dv_cluster s' = dv_cluster s \<and> dv_active s' = dv_active s \<and> dv_known s' = dv_known s \<and>
     dv_devices s' = dv_devices s \<and> dv_sig s' = dv_sig s \<and> dv_emitted s' = dv_emitted s"

lemma same_lists_refl [simp]: "same_lists s s"
  by (simp add: same_lists_def)

lemma display_name_same:
  "device_display_name i d s = (n, s1) \<Longrightarrow> same_lists s s1 \<and> dv_remembered s1 = dv_remembered s"
  by (auto simp: device_display_name_def same_lists_def Let_def split: if_splits option.splits)

lemma remember_all_keys:
  "keys_ok own (dv_remembered s) \<Longrightarrow>
    keys_ok own (dv_remembered (remember_all own now ds s)) \<and> same_lists s (remember_all own now ds s)"
proof (induction own now ds s rule: remember_all.induct)
  case (2 own now i d ds s)
  show ?case
  proof (cases "i = own")
    case True
    with 2 show ?thesis by simp
  next
    case False
    obtain n s1 where n: "device_display_name i d s = (n, s1)" by (cases "device_display_name i d s")
    define re where "re = (case known_group i s of
                    Some k \<Rightarrow> \<lparr>rc_name = kc_name k, rc_type = device_type_group, rc_last_seen = now\<rparr>
                  | None \<Rightarrow> \<lparr>rc_name = n, rc_type = di_type d, rc_last_seen = now\<rparr>)"
    define s2 where "s2 = s1\<lparr>dv_remembered := AList.update i re (dv_remembered s1)\<rparr>"
    have s1: "same_lists s s1" "dv_remembered s1 = dv_remembered s" using display_name_same [OF n] by auto
    then have "keys_ok own (dv_remembered s2)" using 2(3) False by (simp add: s2_def keys_ok_update)
    with 2(2) [OF False n [symmetric] refl re_def] have
      "keys_ok own (dv_remembered (remember_all own now ds s2)) \<and> same_lists s2 (remember_all own now ds s2)"
      by (simp add: s2_def)
    moreover have "remember_all own now ((i, d) # ds) s = remember_all own now ds s2"
      using False n by (simp add: s2_def re_def)
    ultimately show ?thesis using s1 by (simp add: same_lists_def s2_def)
  qed
qed simp

text \<open>What is remembered after the sightings: those of the cluster with the new time, the others as
  they were.\<close>

lemma remember_all_get:
  "distinct (map fst ds) \<Longrightarrow>
    (i \<in> fst ` set ds \<and> i \<noteq> own \<longrightarrow>
       (\<exists>re. map_of (dv_remembered (remember_all own now ds s)) i = Some re \<and> rc_last_seen re = now)) \<and>
    (i \<notin> fst ` set ds \<or> i = own \<longrightarrow>
       map_of (dv_remembered (remember_all own now ds s)) i = map_of (dv_remembered s) i)"
proof (induction ds arbitrary: s)
  case (Cons p ds)
  obtain j d where p: "p = (j, d)" by (cases p)
  obtain n s1 where n: "device_display_name j d s = (n, s1)" by (cases "device_display_name j d s")
  define re where "re = (case known_group j s of
                    Some k \<Rightarrow> \<lparr>rc_name = kc_name k, rc_type = device_type_group, rc_last_seen = now\<rparr>
                  | None \<Rightarrow> \<lparr>rc_name = n, rc_type = di_type d, rc_last_seen = now\<rparr>)"
  define s2 where "s2 = s1\<lparr>dv_remembered := AList.update j re (dv_remembered s1)\<rparr>"
  have re: "rc_last_seen re = now" by (simp add: re_def split: option.split)
  have s1: "dv_remembered s1 = dv_remembered s" using display_name_same [OF n] by auto
  have step: "remember_all own now (p # ds) s = (if j = own then remember_all own now ds s else remember_all own now ds s2)"
    using n by (simp add: p s2_def re_def)
  have "map_of (dv_remembered s2) i = (if i = j then Some re else map_of (dv_remembered s) i)"
    by (simp add: s2_def s1 update_conv')
  with Cons.IH [of s] Cons.IH [of s2] Cons.prems re p show ?case
    unfolding step by auto
qed simp

lemma snapshot_same:
  "snapshot_devices own active ds s = (cds, s') \<Longrightarrow> same_lists s s' \<and> dv_remembered s' = dv_remembered s"
proof (induction ds arbitrary: s cds s')
  case (Cons p ds)
  obtain i d where p: "p = (i, d)" by (cases p)
  obtain n s1 where n: "device_display_name i d s = (n, s1)" by (cases "device_display_name i d s")
  show ?case
  proof (cases "i = own \<or> (di_offline d \<and> i \<noteq> active)")
    case True
    with Cons p show ?thesis by auto
  next
    case False
    obtain cs s2 where cs: "snapshot_devices own active ds s1 = (cs, s2)" by (cases "snapshot_devices own active ds s1")
    from Cons.prems False p n cs have "s' = s2" by (auto split: prod.splits)
    with Cons.IH [OF cs] display_name_same [OF n] show ?thesis by (auto simp: same_lists_def)
  qed
qed simp

lemma connect_device_of_fields [simp]:
  "cd_id (connect_device_of active i n d s) = i" "cd_active (connect_device_of active i n d s) = (i = active)"
  "cd_offline (connect_device_of active i n d s) = di_offline d"
  by (simp_all add: connect_device_of_def Let_def split: option.split)

lemma snapshot_ids:
  "snapshot_devices own active ds s = (cds, s') \<Longrightarrow>
    map cd_id cds = map fst (filter (\<lambda>(i, d). \<not> (i = own \<or> (di_offline d \<and> i \<noteq> active))) ds) \<and>
    (\<forall>c \<in> set cds. cd_offline c \<longrightarrow> cd_active c) \<and> (\<forall>c \<in> set cds. cd_active c \<longleftrightarrow> cd_id c = active)"
proof (induction ds arbitrary: s cds s')
  case (Cons p ds)
  obtain i d where p: "p = (i, d)" by (cases p)
  obtain n s1 where n: "device_display_name i d s = (n, s1)" by (cases "device_display_name i d s")
  obtain cs s2 where cs: "snapshot_devices own active ds s1 = (cs, s2)" by (cases "snapshot_devices own active ds s1")
  show ?case
  proof (cases "i = own \<or> (di_offline d \<and> i \<noteq> active)")
    case True
    with Cons p show ?thesis by auto
  next
    case False
    with Cons.prems p n cs have "cds = connect_device_of active i n d s1 # cs" by simp
    with Cons.IH [OF cs] False p n cs Cons.prems show ?thesis by auto
  qed
qed simp

definition lists_ok :: "string \<Rightarrow> devices \<Rightarrow> bool" where
  "lists_ok own s \<longleftrightarrow>
     distinct (map cd_id (dv_cluster s)) \<and> own \<notin> cd_id ` set (dv_cluster s) \<and>
     keys_ok own (dv_known s) \<and> keys_ok own (dv_remembered s)"

lemma in_cluster_iff: "in_cluster s i \<longleftrightarrow> i \<in> cd_id ` set (dv_cluster s)"
  by (auto simp: in_cluster_def list_ex_iff)

lemma map_fst_filter: "map fst (filter (\<lambda>(i, x). P i) m) = filter P (map fst m)"
  by (induction m) auto

lemma entry_ids [simp]: "cd_id (known_entry s ik) = fst ik" "cd_id (remembered_entry s ir) = fst ir"
  by (simp_all add: known_entry_def remembered_entry_def Let_def)

lemma merged_ids:
  "map cd_id (merged_devices own s) =
     map cd_id (dv_cluster s)
     @ filter (\<lambda>i. \<not> (i = own \<or> in_cluster s i)) (map fst (dv_known s))
     @ filter (\<lambda>i. \<not> (i = own \<or> in_cluster s i) \<and> map_of (dv_known s) i = None) (map fst (dv_remembered s))"
  by (simp add: merged_devices_def map_fst_filter [symmetric] o_def entry_ids)

lemma merged_distinct: "lists_ok own s \<Longrightarrow> distinct (map cd_id (merged_devices own s))"
  unfolding merged_ids lists_ok_def keys_ok_def
  by (auto simp: in_cluster_iff map_of_eq_None_iff simp del: set_map) (auto simp: in_cluster_iff)

lemma merged_own: "lists_ok own s \<Longrightarrow> own \<notin> cd_id ` set (merged_devices own s)"
proof -
  have "cd_id ` set (merged_devices own s) = set (map cd_id (merged_devices own s))" by simp
  then show "lists_ok own s \<Longrightarrow> own \<notin> cd_id ` set (merged_devices own s)"
    unfolding merged_ids by (auto simp: lists_ok_def)
qed

lemma merged_covers:
  "cd_id ` set (merged_devices own s) =
     cd_id ` set (dv_cluster s) \<union> ((fst ` set (dv_known s) \<union> fst ` set (dv_remembered s)) - {own})"
proof -
  have "cd_id ` set (merged_devices own s) = set (map cd_id (merged_devices own s))" by simp
  also have "\<dots> = cd_id ` set (dv_cluster s) \<union> ((fst ` set (dv_known s) \<union> fst ` set (dv_remembered s)) - {own})"
    unfolding merged_ids by (auto simp: in_cluster_iff map_of_eq_None_iff)
  finally show ?thesis .
qed

lemma publish_parts:
  "dv_devices (publish_connect_devices own s) = Some (stable_sort device_less (merged_devices own s))"
  "dv_cluster (publish_connect_devices own s) = dv_cluster s"
  "dv_known (publish_connect_devices own s) = dv_known s"
  "dv_remembered (publish_connect_devices own s) = dv_remembered s"
  "dv_sig (publish_connect_devices own s) = connect_devices_signature (stable_sort device_less (merged_devices own s))"
  by (simp_all add: publish_connect_devices_def Let_def)

lemma publish_emits:
  "dv_emitted (publish_connect_devices own s) =
     (if connect_devices_signature (stable_sort device_less (merged_devices own s)) = dv_sig s then dv_emitted s
      else dv_emitted s @ [stable_sort device_less (merged_devices own s)])"
  by (simp add: publish_connect_devices_def Let_def)

text \<open>No two events in a row have the same signature, and the last one has that of the list.\<close>

definition published_ok :: "string \<Rightarrow> devices \<Rightarrow> bool" where
  "published_ok own s \<longleftrightarrow>
     (case dv_devices s of
        None \<Rightarrow> dv_sig s = [] \<and> dv_emitted s = []
      | Some ds \<Rightarrow> distinct (map cd_id ds) \<and> own \<notin> cd_id ` set ds \<and> ordered_by device_less ds \<and>
          dv_sig s = connect_devices_signature ds) \<and>
     successively (\<lambda>a b. connect_devices_signature a \<noteq> connect_devices_signature b) (dv_emitted s) \<and>
     (dv_emitted s = [] \<longrightarrow> dv_sig s = []) \<and>
     (dv_emitted s \<noteq> [] \<longrightarrow> dv_sig s = connect_devices_signature (last (dv_emitted s)))"

definition devices_ok :: "string \<Rightarrow> devices \<Rightarrow> bool" where
  "devices_ok own s \<longleftrightarrow> lists_ok own s \<and> published_ok own s"

lemma publish_ok:
  assumes "lists_ok own s" "published_ok own s0" "dv_sig s = dv_sig s0" "dv_emitted s = dv_emitted s0"
  shows "devices_ok own (publish_connect_devices own s)"
proof -
  let ?ds = "stable_sort device_less (merged_devices own s)"
  have "distinct (map cd_id ?ds)" "own \<notin> cd_id ` set ?ds" "ordered_by device_less ?ds"
    using merged_distinct [OF assms(1)] merged_own [OF assms(1)] picker.stable_sort_is_ordered
    by (simp_all del: stable_sort_Cons)
  moreover have "lists_ok own (publish_connect_devices own s)"
    using assms(1) by (simp add: lists_ok_def publish_parts)
  ultimately show ?thesis
    using assms(2-4)
    by (auto simp: devices_ok_def published_ok_def publish_parts publish_emits successively_append_iff)
qed

lemma known_of_ok: "keys_ok own m \<Longrightarrow> keys_ok own (known_of own ds m)"
  by (induction own ds m rule: known_of.induct) (simp_all add: keys_ok_update)

lemma update_lists:
  assumes "lists_ok own s" "distinct (map fst ds)"
    and "remember_cluster_sightings own now ds s = s1" "snapshot_devices own active ds s1 = (devs, s2)"
  shows "lists_ok own (s2\<lparr>dv_cluster := devs, dv_active := active\<rparr>) \<and> dv_sig s2 = dv_sig s \<and>
    dv_emitted s2 = dv_emitted s \<and> dv_known s2 = dv_known s \<and> dv_remembered s2 = dv_remembered s1"
proof -
  have s1: "keys_ok own (dv_remembered s1)" "same_lists s s1"
    using remember_all_keys [of own s now ds] assms(1,3)
    by (auto simp: lists_ok_def remember_cluster_sightings_def Let_def same_lists_def intro: keys_ok_filter)
  have s2: "same_lists s1 s2" "dv_remembered s2 = dv_remembered s1" using snapshot_same [OF assms(4)] by auto
  have ids: "map cd_id devs = map fst (filter (\<lambda>(i, d). \<not> (i = own \<or> (di_offline d \<and> i \<noteq> active))) ds)"
    using snapshot_ids [OF assms(4)] by blast
  then have "distinct (map cd_id devs)" using assms(2) by (simp add: distinct_map_filter)
  moreover have "own \<notin> set (map cd_id devs)" unfolding ids by auto
  ultimately show ?thesis
    using s1 s2 assms(1) by (auto simp: lists_ok_def same_lists_def)
qed

lemma device_step_ok: "devices_ok own s \<Longrightarrow> devices_ok own (device_step own s e)"
proof (cases e)
  case (ClusterSeen now active ds)
  assume ok: "devices_ok own s"
  define s1 where "s1 = remember_cluster_sightings own now (AList.clearjunk ds) s"
  obtain devs s2 where d: "snapshot_devices own active (AList.clearjunk ds) s1 = (devs, s2)"
    by (cases "snapshot_devices own active (AList.clearjunk ds) s1")
  have "lists_ok own (s2\<lparr>dv_cluster := devs, dv_active := active\<rparr>)" "dv_sig s2 = dv_sig s" "dv_emitted s2 = dv_emitted s"
    using update_lists [OF _ _ s1_def [symmetric] d] ok by (simp_all add: devices_ok_def)
  then show ?thesis
    using publish_ok [of own "s2\<lparr>dv_cluster := devs, dv_active := active\<rparr>" s] ok ClusterSeen d
    by (simp add: update_connect_devices_def devices_ok_def flip: s1_def)
next
  case (WebList resp)
  assume ok: "devices_ok own s"
  then have "devices_ok own (publish_connect_devices own (s\<lparr>dv_known := known_of own ds []\<rparr>))" for ds
    using publish_ok [of own "s\<lparr>dv_known := known_of own ds []\<rparr>" s] known_of_ok [of own "[]" ds]
    by (simp add: devices_ok_def lists_ok_def)
  with ok WebList show ?thesis
    by (simp add: refresh_known_connect_devices_def split: http.split option.split)
qed

interpretation devices: invariant_machine "device_step own" "devices_ok own"
  by unfold_locales (rule device_step_ok)

lemma device_run_ok: "devices_ok own (device_run own es)"
  unfolding device_run_def
  by (rule devices.run_inv) (simp add: no_devices_def devices_ok_def lists_ok_def published_ok_def)

subsection \<open>Sightings\<close>

text \<open>A sighting that is not older than \<open>t\<close>.\<close>

definition sighted :: "instant \<Rightarrow> string \<Rightarrow> devices \<Rightarrow> bool" where
  "sighted t i s \<longleftrightarrow> (\<exists>re. map_of (dv_remembered s) i = Some re \<and> t \<le> rc_last_seen re)"

definition listed :: "string \<Rightarrow> devices \<Rightarrow> bool" where
  "listed i s \<longleftrightarrow> i \<in> cd_id ` set (connect_devices_or_empty s)"

lemma map_of_filter: "distinct (map fst m) \<Longrightarrow>
    map_of (filter P m) i = (case map_of m i of None \<Rightarrow> None | Some v \<Rightarrow> if P (i, v) then Some v else None)"
proof (induction m)
  case (Cons p m)
  then show ?case by (cases p) (auto simp: map_of_eq_None_iff [THEN iffD2] image_iff split: option.split)
qed simp

lemma remembered_after:
  assumes "distinct (map fst ds)" "keys_ok own (dv_remembered s)" "i \<noteq> own"
  shows "map_of (dv_remembered (remember_cluster_sightings own now ds s)) i =
    (case map_of (dv_remembered (remember_all own now ds s)) i of None \<Rightarrow> None
     | Some re \<Rightarrow> if rc_last_seen re < now - connect_device_remember_ttl then None else Some re)"
  using remember_all_keys [OF assms(2), of now ds]
  by (simp add: remember_cluster_sightings_def Let_def map_of_filter keys_ok_def split: option.split)

lemma sighted_step:
  assumes "devices_ok own s" "i \<noteq> own"
    and "sighted t i s \<or> (\<exists>now active ds. e = ClusterSeen now active ds \<and> i \<in> fst ` set ds)"
    and "\<And>now active ds. e = ClusterSeen now active ds \<Longrightarrow> t \<le> now \<and> now \<le> t + connect_device_remember_ttl"
  shows "sighted t i (device_step own s e)"
proof (cases e)
  case (ClusterSeen now active ds)
  define s1 where "s1 = remember_cluster_sightings own now (AList.clearjunk ds) s"
  obtain devs s2 where d: "snapshot_devices own active (AList.clearjunk ds) s1 = (devs, s2)"
    by (cases "snapshot_devices own active (AList.clearjunk ds) s1")
  have r: "dv_remembered (device_step own s e) = dv_remembered s1"
    using ClusterSeen d snapshot_same [OF d] by (simp add: update_connect_devices_def publish_parts flip: s1_def)
  have now: "t \<le> now" "now - connect_device_remember_ttl \<le> t" using assms(4) [OF ClusterSeen] by auto
  let ?m = "dv_remembered (remember_all own now (AList.clearjunk ds) s)"
  have "\<exists>re. map_of ?m i = Some re \<and> t \<le> rc_last_seen re"
    using remember_all_get [of "AList.clearjunk ds" i own now s] assms(2,3) now ClusterSeen
    by (cases "i \<in> fst ` set ds") (auto simp: sighted_def dom_clearjunk)
  then show ?thesis
    using remembered_after [of "AList.clearjunk ds" own s i now] assms(1,2) now
    by (auto simp: sighted_def r s1_def devices_ok_def lists_ok_def)
next
  case (WebList resp)
  then have "dv_remembered (device_step own s e) = dv_remembered s"
    by (simp add: refresh_known_connect_devices_def publish_parts split: http.split option.split)
  with WebList assms(3) show ?thesis by (simp add: sighted_def)
qed

lemma published_lists:
  assumes "dv_devices s = Some (stable_sort device_less (merged_devices own s))"
  shows "listed i s \<longleftrightarrow> i \<in> cd_id ` set (dv_cluster s) \<or> (i \<noteq> own \<and> (i \<in> fst ` set (dv_known s) \<or> i \<in> fst ` set (dv_remembered s)))"
  using merged_covers [of own s] assms by (auto simp: listed_def connect_devices_or_empty_def)

text \<open>After a cluster, every event leaves the list published.\<close>

definition published :: "string \<Rightarrow> devices \<Rightarrow> bool" where
  "published own s \<longleftrightarrow> dv_devices s = Some (stable_sort device_less (merged_devices own s))"

lemma merged_cong:
  "dv_cluster s' = dv_cluster s \<Longrightarrow> dv_known s' = dv_known s \<Longrightarrow> dv_remembered s' = dv_remembered s \<Longrightarrow>
    dv_active s' = dv_active s \<Longrightarrow> merged_devices own s' = merged_devices own s"
  unfolding merged_devices_def by (simp add: in_cluster_def known_entry_def [abs_def] remembered_entry_def [abs_def])

lemma publish_published: "published own (publish_connect_devices own s)"
  using merged_cong [of "publish_connect_devices own s" s own]
  by (simp add: published_def publish_parts publish_connect_devices_def Let_def)

lemma device_step_published:
  "published own s \<or> (\<exists>now active ds. e = ClusterSeen now active ds) \<Longrightarrow> published own (device_step own s e)"
  by (cases e)
    (auto simp: update_connect_devices_def refresh_known_connect_devices_def publish_published
      split: prod.split http.split option.split)





definition seen_at :: "device_event list \<Rightarrow> string \<Rightarrow> instant \<Rightarrow> bool" where
  "seen_at es i t \<longleftrightarrow>
     (\<exists>es1 active ds es2. es = es1 @ ClusterSeen t active ds # es2 \<and> i \<in> fst ` set ds \<and>
       (\<forall>now active' ds'. ClusterSeen now active' ds' \<in> set es2 \<longrightarrow>
          i \<notin> fst ` set ds' \<and> now \<le> t + connect_device_remember_ttl))"

lemma seen_at_Nil [simp]: "\<not> seen_at [] i t"
  by (simp add: seen_at_def)

lemma seen_at_web [simp]: "seen_at (es @ [WebList resp]) i t = seen_at es i t"
proof
  assume "seen_at es i t"
  then obtain es1 active ds es2 where "es = es1 @ ClusterSeen t active ds # es2" "i \<in> fst ` set ds"
    "\<forall>now active' ds'. ClusterSeen now active' ds' \<in> set es2 \<longrightarrow> i \<notin> fst ` set ds' \<and> now \<le> t + connect_device_remember_ttl"
    unfolding seen_at_def by blast
  then show "seen_at (es @ [WebList resp]) i t"
    unfolding seen_at_def by (intro exI [of _ es1] exI [of _ active] exI [of _ ds] exI [of _ "es2 @ [WebList resp]"]) simp
next
  assume "seen_at (es @ [WebList resp]) i t"
  then obtain es1 active ds es2 where s: "es @ [WebList resp] = es1 @ ClusterSeen t active ds # es2" "i \<in> fst ` set ds"
    "\<forall>now active' ds'. ClusterSeen now active' ds' \<in> set es2 \<longrightarrow> i \<notin> fst ` set ds' \<and> now \<le> t + connect_device_remember_ttl"
    unfolding seen_at_def by blast
  then obtain es3 where "es2 = es3 @ [WebList resp]" by (cases es2 rule: rev_cases) auto
  with s show "seen_at es i t"
    unfolding seen_at_def by (intro exI [of _ es1] exI [of _ active] exI [of _ ds] exI [of _ es3]) simp
qed

lemma seen_at_cluster [simp]:
  "seen_at (es @ [ClusterSeen now active ds]) i t \<longleftrightarrow>
    (if i \<in> fst ` set ds then t = now else seen_at es i t \<and> now \<le> t + connect_device_remember_ttl)"
proof (cases "i \<in> fst ` set ds")
  case True
  show ?thesis
  proof
    assume "seen_at (es @ [ClusterSeen now active ds]) i t"
    then obtain es1 a c es2 where s: "es @ [ClusterSeen now active ds] = es1 @ ClusterSeen t a c # es2"
      "\<forall>now active' ds'. ClusterSeen now active' ds' \<in> set es2 \<longrightarrow> i \<notin> fst ` set ds'"
      unfolding seen_at_def by blast
    then have "es2 = []" using True by (cases es2 rule: rev_cases) auto
    with s True show "if i \<in> fst ` set ds then t = now else seen_at es i t \<and> now \<le> t + connect_device_remember_ttl" by simp
  next
    assume "if i \<in> fst ` set ds then t = now else seen_at es i t \<and> now \<le> t + connect_device_remember_ttl"
    with True show "seen_at (es @ [ClusterSeen now active ds]) i t"
      unfolding seen_at_def by (intro exI [of _ es] exI [of _ active] exI [of _ ds] exI [of _ "[]"]) simp
  qed
next
  case False
  show ?thesis
  proof
    assume "seen_at (es @ [ClusterSeen now active ds]) i t"
    then obtain es1 a c es2 where s: "es @ [ClusterSeen now active ds] = es1 @ ClusterSeen t a c # es2" "i \<in> fst ` set c"
      "\<forall>now active' ds'. ClusterSeen now active' ds' \<in> set es2 \<longrightarrow> i \<notin> fst ` set ds' \<and> now \<le> t + connect_device_remember_ttl"
      unfolding seen_at_def by blast
    then obtain es3 where "es2 = es3 @ [ClusterSeen now active ds]"
      using False by (cases es2 rule: rev_cases) auto
    with s have "es = es1 @ ClusterSeen t a c # es3" "now \<le> t + connect_device_remember_ttl"
      "\<forall>now active' ds'. ClusterSeen now active' ds' \<in> set es3 \<longrightarrow> i \<notin> fst ` set ds' \<and> now \<le> t + connect_device_remember_ttl"
      by auto
    with s(2) False show "if i \<in> fst ` set ds then t = now else seen_at es i t \<and> now \<le> t + connect_device_remember_ttl"
      unfolding seen_at_def by (simp only: if_False) blast
  next
    assume "if i \<in> fst ` set ds then t = now else seen_at es i t \<and> now \<le> t + connect_device_remember_ttl"
    then have now: "now \<le> t + connect_device_remember_ttl" and "seen_at es i t" using False by simp_all
    then obtain es1 a c es2 where s: "es = es1 @ ClusterSeen t a c # es2" "i \<in> fst ` set c"
      "\<forall>now active' ds'. ClusterSeen now active' ds' \<in> set es2 \<longrightarrow> i \<notin> fst ` set ds' \<and> now \<le> t + connect_device_remember_ttl"
      unfolding seen_at_def by blast
    then show "seen_at (es @ [ClusterSeen now active ds]) i t"
      unfolding seen_at_def using now False
      by (intro exI [of _ es1] exI [of _ a] exI [of _ c] exI [of _ "es2 @ [ClusterSeen now active ds]"]) auto
  qed
qed










text \<open>A device that was seen in a cluster at \<open>t\<close>, were it offline, stays in the list for thirty days
  of further clusters and Web API answers of any kind. A device that neither the cluster nor the
  Web API list names, and whose last sighting is older, leaves the list with the next cluster.\<close>

theorem seen_device_stays_selectable:
  assumes "i \<noteq> own" and "i \<in> fst ` set ds"
    and "\<And>now act cs. ClusterSeen now act cs \<in> set es' \<Longrightarrow> t \<le> now \<and> now \<le> t + connect_device_remember_ttl"
    and "s = device_run own es"
    and "i' \<notin> fst ` set ds" and "i' \<notin> fst ` set (dv_known s)"
    and "\<And>re. map_of (dv_remembered s) i' = Some re \<Longrightarrow> rc_last_seen re < t - connect_device_remember_ttl"
  shows "listed i (foldl (device_step own) (device_step own s (ClusterSeen t active ds)) es') \<and>
    \<not> listed i' (device_step own s (ClusterSeen t active ds))"
proof -
  define s1 where "s1 = device_step own s (ClusterSeen t active ds)"
  have ok: "devices_ok own s" using assms(4) device_run_ok by simp
  have "devices_ok own s1" unfolding s1_def using ok by (rule device_step_ok)
  moreover have "sighted t i s1"
    unfolding s1_def using assms(1,2) ok by (intro sighted_step) (auto simp: connect_device_remember_ttl_def)
  moreover have "published own s1" unfolding s1_def by (intro device_step_published) auto
  ultimately have "devices_ok own (foldl (device_step own) s1 es') \<and> sighted t i (foldl (device_step own) s1 es') \<and>
      published own (foldl (device_step own) s1 es')"
    using assms(3)
  proof (induction es' arbitrary: s1)
    case (Cons e es')
    have "sighted t i (device_step own s1 e)"
      using Cons.prems assms(1) by (intro sighted_step) auto
    moreover have "devices_ok own (device_step own s1 e)" "published own (device_step own s1 e)"
      using Cons.prems(1,3) by (auto intro: device_step_ok device_step_published)
    moreover have "\<And>now act cs. ClusterSeen now act cs \<in> set es' \<Longrightarrow> t \<le> now \<and> now \<le> t + connect_device_remember_ttl"
      using Cons.prems(4) by (meson list.set_intros(2))
    ultimately show ?case using Cons.IH [of "device_step own s1 e"] by simp
  qed simp
  then have "listed i (foldl (device_step own) s1 es')"
    using assms(1) published_lists [of "foldl (device_step own) s1 es'" own i]
    by (force simp: published_def sighted_def dest: map_of_SomeD)
  moreover have "\<not> listed i' s1"
  proof -
    define r1 where "r1 = remember_cluster_sightings own t (AList.clearjunk ds) s"
    obtain devs s2 where d: "snapshot_devices own active (AList.clearjunk ds) r1 = (devs, s2)"
      by (cases "snapshot_devices own active (AList.clearjunk ds) r1")
    have parts: "dv_cluster s1 = devs" "dv_known s1 = dv_known s" "dv_remembered s1 = dv_remembered r1"
      using d update_lists [OF _ _ r1_def [symmetric] d] ok
      by (simp_all add: s1_def update_connect_devices_def publish_parts devices_ok_def flip: r1_def)
    have "set (map cd_id devs) \<subseteq> fst ` set (AList.clearjunk ds)"
      using snapshot_ids [OF d] by auto
    then have "i' \<notin> cd_id ` set devs" using assms(5) by (auto simp: dom_clearjunk)
    moreover have "i' \<notin> fst ` set (dv_remembered r1)" if "i' \<noteq> own"
    proof -
      have "map_of (dv_remembered r1) i' = None"
        using remembered_after [of "AList.clearjunk ds" own s i' t] remember_all_get [of "AList.clearjunk ds" i' own t s]
          ok that assms(5,7)
        by (auto simp: r1_def devices_ok_def lists_ok_def dom_clearjunk split: option.split)
      then show ?thesis by (simp add: map_of_eq_None_iff)
    qed
    ultimately show ?thesis
      using published_lists [of s1 own i'] \<open>published own s1\<close> assms(6) by (auto simp: published_def parts)
  qed
  ultimately show ?thesis by (simp add: s1_def)
qed

text \<open>The alias of the smallest id among those with a name.\<close>

definition least_named :: "(nat \<times> string) list \<Rightarrow> string \<Rightarrow> bool" where
  "least_named named r \<longleftrightarrow>
     (if named = [] then r = [] else \<exists>i. (i, r) \<in> set named \<and> (\<forall>j \<in> fst ` set named. i \<le> j))"

lemma least_named_skip:
  "least_named (p # named) r \<Longrightarrow> fst p \<le> fst q \<Longrightarrow> least_named (p # q # named) r"
  "least_named (q # named) r \<Longrightarrow> fst q \<le> fst p \<Longrightarrow> least_named (p # q # named) r"
  by (auto simp: least_named_def)

definition named_aliases :: "nat \<Rightarrow> string \<Rightarrow> (nat \<times> string) list \<Rightarrow> (nat \<times> string) list" where
  "named_aliases best_id best as = (if best = [] then [] else [(best_id, best)]) @ filter (\<lambda>(i, n). n \<noteq> []) as"

lemma best_alias_min:
  "least_named (named_aliases best_id best as) (best_alias as best_id best)"
proof (induction as best_id best rule: best_alias.induct)
  case (2 i n as best_id best)
  consider "n = []" | "n \<noteq> []" "best = []" | "n \<noteq> []" "best \<noteq> []" "i < best_id"
    | "n \<noteq> []" "best \<noteq> []" "best_id \<le> i" by linarith
  then show ?case
  proof cases
    case 1
    with 2(2) show ?thesis by (simp add: named_aliases_def)
  next
    case 2
    with "2.IH"(1) show ?thesis by (simp add: named_aliases_def)
  next
    case 3
    with "2.IH"(1) have "least_named ((i, n) # filter (\<lambda>(i, n). n \<noteq> []) as) (best_alias as i n)"
      by (simp add: named_aliases_def)
    with 3 least_named_skip(2) [of "(i, n)" _ _ "(best_id, best)"] show ?thesis by (simp add: named_aliases_def)
  next
    case 4
    with "2.IH"(2) have "least_named ((best_id, best) # filter (\<lambda>(i, n). n \<noteq> []) as) (best_alias as best_id best)"
      by (simp add: named_aliases_def)
    with 4 least_named_skip(1) [of "(best_id, best)" _ _ "(i, n)"] show ?thesis by (simp add: named_aliases_def)
  qed
qed (simp add: least_named_def named_aliases_def)

lemma best_alias_least: "least_named (filter (\<lambda>(i, n). n \<noteq> []) as) (best_alias as k [])"
  using best_alias_min [of k "[]" as] by (simp add: named_aliases_def)

lemma best_alias_order:
  assumes "distinct (map fst as)" "set as = set as'"
  shows "best_alias as k [] = best_alias as' k []"
proof -
  let ?f = "filter (\<lambda>(i, n). n \<noteq> [])"
  have f: "set (?f as) = set (?f as')" using assms(2) by simp
  show ?thesis
  proof (cases "?f as = []")
    case True
    then have "?f as' = []" using f by (metis set_empty)
    with True best_alias_least [of as k] best_alias_least [of as' k] show ?thesis by (simp add: least_named_def)
  next
    case False
    then have "?f as' \<noteq> []" using f by (metis set_empty)
    with False best_alias_least [of as k] best_alias_least [of as' k]
    obtain i i' where i: "(i, best_alias as k []) \<in> set (?f as)" "\<forall>j \<in> fst ` set (?f as). i \<le> j"
      and i': "(i', best_alias as' k []) \<in> set (?f as')" "\<forall>j \<in> fst ` set (?f as'). i' \<le> j"
      unfolding least_named_def by auto
    have "i \<in> fst ` set (?f as)" "i' \<in> fst ` set (?f as')" using i(1) i'(1) by force+
    then have "i = i'" using i(2) i'(2) f by (metis le_antisym)
    moreover have "(i, best_alias as k []) \<in> set as" "(i', best_alias as' k []) \<in> set as"
      using i(1) i'(1) assms(2) by auto
    ultimately show ?thesis using assms(1) by (metis eq_key_imp_eq_value)
  qed
qed

lemma best_alias_in: "best_alias as k [] \<noteq> [] \<Longrightarrow> best_alias as k [] \<in> snd ` set as"
  using best_alias_least [of as k] by (force simp: least_named_def split: if_splits)

text \<open>The name of a device does not depend on the order in which Go iterates over its aliases: the
  selected alias if it has a name, else the named alias of the smallest id, and so on. A name that
  is found is one that a person can read: it is not empty, and it is an alias or does not look like
  a device id.\<close>

theorem friendly_name_deterministic:
  assumes "distinct (map fst (di_aliases d))" and "distinct (map fst as)" and "set as = set (di_aliases d)"
  shows "friendly_device_name (d\<lparr>di_aliases := as\<rparr>) = friendly_device_name d \<and>
    (friendly_device_name d \<noteq> [] \<longrightarrow>
       friendly_device_name d \<in> snd ` set as \<or> \<not> looks_like_device_id (friendly_device_name d))"
proof -
  have "best_alias as 0 [] = best_alias (di_aliases d) 0 []"
    using assms by (intro best_alias_order) auto
  moreover have "map_of as = map_of (di_aliases d)"
    using assms by (intro map_of_inject_set [THEN iffD2]) auto
  moreover have "best_alias (di_aliases d) 0 [] \<noteq> [] \<Longrightarrow> best_alias (di_aliases d) 0 [] \<in> snd ` set as"
    using best_alias_in [of "di_aliases d" 0] assms(3) by simp
  moreover have "map_of (di_aliases d) i = Some n \<Longrightarrow> n \<in> snd ` set as" for i n
    using assms(3) by (force dest: map_of_SomeD)
  ultimately show ?thesis
    by (auto simp: friendly_device_name_def Let_def split: option.split)
qed

subsection \<open>Devices of the same name\<close>

text \<open>The order of two devices with the same name is that of the map, and the signature shows it: the
  same cluster in another order of the iteration is announced again.\<close>

definition speaker :: device_info where
  "speaker = \<lparr>di_name = ''Speaker'', di_type = ''SPEAKER'', di_volume = 0, di_offline = False, di_caps = None,
     di_disallow_transfer = [], di_aliases = [], di_selected_alias = 0, di_brand = [], di_model = []\<rparr>"

lemma same_cluster_announced_twice:
  "length (dv_emitted (device_run ''me''
     [ClusterSeen 1 ''x'' [(''a'', speaker), (''b'', speaker)], ClusterSeen 2 ''x'' [(''b'', speaker), (''a'', speaker)]])) = 2"
  by code_simp

subsection \<open>Witnesses\<close>

definition sample_devices :: "device_event list" where
  "sample_devices = [ClusterSeen 1 ''a'' [(''a'', speaker), (''me'', speaker), (''b'', speaker\<lparr>di_offline := True\<rparr>)],
     WebList (Response 200 (Some ''{\"devices\":[{\"id\":\"c\",\"name\":\"Kitchen\",\"type\":\"avr\"}]}''))]"

lemma sample_devices_run:
  "map (\<lambda>d. (cd_id d, cd_name d, cd_active d, cd_offline d)) (connect_devices_or_empty (device_run ''me'' sample_devices)) =
     [(''a'', ''Speaker'', True, False), (''c'', ''Kitchen'', False, True), (''b'', ''Speaker'', False, True)]"
  by code_simp


lemma seen_device_stays_selectable_witness:
  "listed ''b'' (foldl (device_step ''me'') (device_step ''me'' no_devices (ClusterSeen 5 ''a'' [(''b'', speaker\<lparr>di_offline := True\<rparr>)]))
      [ClusterSeen (5 + connect_device_remember_ttl) ''x'' [(''z'', speaker)]]) \<and>
   \<not> listed ''q'' (device_step ''me'' no_devices (ClusterSeen 5 ''a'' [(''b'', speaker\<lparr>di_offline := True\<rparr>)]))"
  by (rule seen_device_stays_selectable [where es = "[]"])
    (auto simp: device_run_def no_devices_def connect_device_remember_ttl_def)

lemma friendly_name_deterministic_witness:
  "friendly_device_name (speaker\<lparr>di_aliases := [(3, ''Bath''), (2, ''Den'')]\<rparr>) = ''Den''"
proof -
  have "friendly_device_name (speaker\<lparr>di_aliases := [(2, ''Den''), (3, ''Bath'')]\<rparr>) = ''Den''" by code_simp
  then show ?thesis
    using friendly_name_deterministic [of "speaker\<lparr>di_aliases := [(2, ''Den''), (3, ''Bath'')]\<rparr>" "[(3, ''Bath''), (2, ''Den'')]"]
    by auto
qed

end
