(* ===== verification/PlayerCluster.thy ===== *)
theory PlayerCluster
  imports PlayerDevices QueueResolver Ids
begin

text \<open>
  The observer of the player (\<open>daemon/player.go\<close>): how a snapshot of the Connect cluster becomes the
  remote state that the UI shows, and the cases of the run loop that change that state: clusters,
  resolved metadata, resolved and expanded queues.

  The run loop is one goroutine, so an event is one step. What the step starts in the background is
  recorded as a list (\<open>ob_meta_started\<close>, \<open>ob_resolve_started\<close>, \<open>ob_expand_started\<close>); what comes
  back is an event of its own. \<open>ob_events\<close> are the events sent to the UI and \<open>ob_voice\<close> what
  the voice control is told about the playback, when there is one. Whether the Music Assistant mode is on,
  and whether the clock has been synchronised, are arguments of the step.
\<close>

subsection \<open>The cluster\<close>

type_synonym metadata = "string \<Rightarrow> string option"

record player_options =
  po_shuffling :: bool
  po_repeating_context :: bool
  po_repeating_track :: bool
  po_modes :: metadata

record restrictions =
  re_skip_prev :: "string list"
  re_skip_next :: "string list"
  re_seek :: "string list"

record cluster_player =
  cp_track :: payload_track
  cp_context_uri :: string
  cp_context_metadata :: metadata
  cp_duration :: int
  cp_position_as_of :: int
  cp_timestamp :: int
  cp_is_paused :: bool
  cp_is_playing :: bool
  cp_speed :: rat
  cp_options :: "player_options option"
  cp_restrictions :: "restrictions option"
  cp_prev_tracks :: "payload_track list"
  cp_next_tracks :: "payload_track list"

record cluster =
  cl_active_device :: string
  cl_player :: "cluster_player option"
  cl_devices :: "(string \<times> device_info) list"

definition derive_smart_shuffle :: "player_options option \<Rightarrow> bool" where
  "derive_smart_shuffle opts =
     (case opts of None \<Rightarrow> False | Some p \<Rightarrow> get_str (po_modes p) ''context_enhancement'' = ''RECOMMENDATION'')"

text \<open>\<open>now\<close> and \<open>now_ms\<close> are the two readings of the clock in a \<open>time.Time\<close>. A map that is nil reads
  as an empty one.\<close>

definition cluster_to_remote_state :: "instant \<Rightarrow> int \<Rightarrow> cluster option \<Rightarrow> remote_state option" where
  "cluster_to_remote_state now now_ms c =
     (case c of
        None \<Rightarrow> None
      | Some cl \<Rightarrow>
          (case cl_player cl of
             None \<Rightarrow> None
           | Some ps \<Rightarrow>
               let dev = map_of (cl_devices cl) (cl_active_device cl);
                   caps = Option.bind dev di_caps;
                   md = (case cp_track ps of None \<Rightarrow> Map.empty | Some t \<Rightarrow> snd t);
                   flag = (\<lambda>f. case cp_options ps of None \<Rightarrow> False | Some p \<Rightarrow> f p);
                   disallowed = (\<lambda>f. case cp_restrictions ps of None \<Rightarrow> False | Some r \<Rightarrow> f r \<noteq> ([] :: string list));
                   rs = zero_remote\<lparr>
                     rs_device_id := cl_active_device cl,
                     rs_device_name := (case dev of None \<Rightarrow> [] | Some d \<Rightarrow> di_name d),
                     rs_device_type := (case dev of None \<Rightarrow> [] | Some d \<Rightarrow> di_type d),
                     rs_track_uri := (case cp_track ps of None \<Rightarrow> [] | Some t \<Rightarrow> fst t),
                     rs_track_name := get_str md ''title'',
                     rs_track_image := first_connect_image md,
                     rs_context_uri := cp_context_uri ps,
                     rs_context_name := get_str (cp_context_metadata ps) ''context_description'',
                     rs_duration := cp_duration ps,
                     rs_position_as_of := cp_position_as_of ps,
                     rs_timestamp := cp_timestamp ps,
                     rs_is_playing := (\<not> cp_is_paused ps \<and> cp_is_playing ps),
                     rs_is_paused := cp_is_paused ps,
                     rs_speed := cp_speed ps,
                     rs_volume := (case dev of None \<Rightarrow> 0 | Some d \<Rightarrow> di_volume d),
                     rs_volume_disabled := (case caps of None \<Rightarrow> False | Some k \<Rightarrow> ca_disable_volume k),
                     rs_volume_steps := (case caps of None \<Rightarrow> 0 | Some k \<Rightarrow> ca_volume_steps k),
                     rs_shuffle_context := flag po_shuffling,
                     rs_smart_shuffle := derive_smart_shuffle (cp_options ps),
                     rs_repeat_context := flag po_repeating_context,
                     rs_repeat_track := flag po_repeating_track,
                     rs_disallow_skip_prev := disallowed re_skip_prev,
                     rs_disallow_skip_next := disallowed re_skip_next,
                     rs_disallow_seek := disallowed re_seek,
                     rs_prev_tracks := project_queue (cp_prev_tracks ps) queue_limit,
                     rs_next_tracks := project_queue (cp_next_tracks ps) queue_limit,
                     rs_raw_metadata := md,
                     rs_received_at := now,
                     rs_received_wall := now_ms\<rparr>
               in Some (rs\<lparr>rs_position := remote_position now (Some rs)\<rparr>)))"

subsection \<open>The observer\<close>

datatype ui_event = TrackChanged remote_state | StateChanged remote_state | Inactive

record observer =
  ob_remote :: "remote_state option"
  ob_last_device :: "string \<times> string"
  ob_devices :: devices
  ob_expander :: expander
  ob_resolver :: "resolver option"
  ob_clock :: clock_estimator
  ob_clock_seeded :: bool
  ob_last_sampled :: int
  ob_ma_owns :: bool
  ob_meta_in_flight :: string
  ob_meta_failed :: string
  ob_meta_started :: "string list"
  ob_resolve_started :: "(string list \<times> string list) list"
  ob_expand_started :: "(string \<times> bool) list"
  ob_voice :: "bool list"
  ob_events :: "ui_event list"
  ob_crashed :: bool

definition new_observer :: observer where
  "new_observer = \<lparr>ob_remote = None, ob_last_device = ([], []), ob_devices = no_devices, ob_expander = new_expander,
     ob_resolver = Some new_resolver, ob_clock = new_estimator, ob_clock_seeded = False, ob_last_sampled = 0,
     ob_ma_owns = False, ob_meta_in_flight = [], ob_meta_failed = [], ob_meta_started = [],
     ob_resolve_started = [], ob_expand_started = [], ob_voice = [], ob_events = [],
     ob_crashed = False\<rparr>"

definition first_non_empty :: "string list \<Rightarrow> string" where
  "first_non_empty vals = (case find (\<lambda>v. v \<noteq> []) vals of None \<Rightarrow> [] | Some v \<Rightarrow> v)"

text \<open>\<open>synced\<close>: the flag file of the synchronised clock exists.\<close>

definition note_cluster_timing :: "bool \<Rightarrow> instant \<Rightarrow> remote_state \<Rightarrow> observer \<Rightarrow> remote_state \<times> observer" where
  "note_cluster_timing synced now rs p =
     (if \<not> ob_clock_seeded p \<and> \<not> synced then (rs\<lparr>rs_position := remote_position now (Some rs)\<rparr>, p)
      else
        let p1 = (if ob_clock_seeded p then p
                  else p\<lparr>ob_clock := clock_add (ob_clock p) 0, ob_clock_seeded := True\<rparr>);
            p2 = (if rs_timestamp rs > 0 \<and> rs_timestamp rs \<noteq> ob_last_sampled p1
                  then p1\<lparr>ob_clock := clock_add (ob_clock p1) (rs_received_wall rs - rs_timestamp rs),
                          ob_last_sampled := rs_timestamp rs\<rparr>
                  else p1);
            rs1 = (case clock_offset (ob_clock p2) of
                     None \<Rightarrow> rs
                   | Some off \<Rightarrow> rs\<lparr>rs_clock_offset := off, rs_offset_known := True\<rparr>)
        in (rs1\<lparr>rs_position := remote_position now (Some rs1)\<rparr>, p2))"

definition do_expand_queue :: "instant \<Rightarrow> remote_state \<Rightarrow> observer \<Rightarrow> remote_state \<times> observer" where
  "do_expand_queue now rs p =
     (case expand_queue now (Some rs) (ob_expander p) of
        (ors, started, x) \<Rightarrow>
          (case ors of None \<Rightarrow> rs | Some r \<Rightarrow> r,
           p\<lparr>ob_expander := x,
             ob_expand_started := ob_expand_started p @ (case started of None \<Rightarrow> [] | Some f \<Rightarrow> [f])\<rparr>))"

text \<open>The names and covers of the queue entries.\<close>

definition fill_queues :: "remote_state \<Rightarrow> observer \<Rightarrow> remote_state \<times> observer" where
  "fill_queues rs p =
     (case ob_resolver p of
        None \<Rightarrow> (rs, p)
      | Some r \<Rightarrow>
          (case cluster_pass (rs_next_tracks rs) (rs_prev_tracks rs) r of
             ((next, prev, fetch, art), r1) \<Rightarrow>
               (rs\<lparr>rs_next_tracks := next, rs_prev_tracks := prev\<rparr>,
                p\<lparr>ob_resolver := Some r1,
                  ob_resolve_started := ob_resolve_started p @ (if fetch = [] then [] else [(fetch, art)])\<rparr>)))"

definition resolve_current_track_meta_async :: "string \<Rightarrow> observer \<Rightarrow> observer" where
  "resolve_current_track_meta_async uri p =
     (if ob_meta_in_flight p = uri \<or> ob_meta_failed p = uri then p
      else p\<lparr>ob_meta_in_flight := uri, ob_meta_started := ob_meta_started p @ [uri]\<rparr>)"

text \<open>What is already known about the same track: name, artist, album and image.\<close>

definition carry_over ::
    "remote_state option \<Rightarrow> string \<Rightarrow> string \<Rightarrow> remote_state \<Rightarrow> string \<times> string \<times> remote_state" where
  "carry_over prev artist album rs =
     (case prev of
        Some pr \<Rightarrow>
          if rs_track_uri pr = rs_track_uri rs then
            (if artist = [] \<and> rs_track_artist pr \<noteq> [] then rs_track_artist pr else artist,
             if artist = [] \<and> rs_track_artist pr \<noteq> [] \<and> album = [] then rs_track_album pr else album,
             rs\<lparr>rs_track_name := (if rs_track_name rs = [] then rs_track_name pr else rs_track_name rs),
                rs_track_image := (if rs_track_image rs = [] then rs_track_image pr else rs_track_image rs)\<rparr>)
          else (artist, album, rs)
      | None \<Rightarrow> (artist, album, rs))"

definition lookup_artist :: "resolver option \<Rightarrow> string \<Rightarrow> string \<Rightarrow> string \<Rightarrow> string \<times> string" where
  "lookup_artist r uri artist album =
     (if artist \<noteq> [] then (artist, album)
      else case Option.bind r (\<lambda>q. resolver_lookup q uri) of None \<Rightarrow> (artist, album) | Some aa \<Rightarrow> aa)"

definition meta_incomplete :: "string \<Rightarrow> remote_state \<Rightarrow> bool" where
  "meta_incomplete artist rs \<longleftrightarrow> artist = [] \<or> rs_track_name rs = [] \<or> rs_track_image rs = []"

text \<open>The id of the track is read only when something is missing; an id of more than 128 bits panics.\<close>

definition track_is_sparse :: "remote_state \<Rightarrow> bool" where
  "track_is_sparse rs \<longleftrightarrow>
     rs_track_uri rs \<noteq> [] \<and> meta_incomplete (get_str (rs_raw_metadata rs) ''artist_name'') rs"

fun id_readable :: "'a outcome \<Rightarrow> bool" where
  "id_readable (Return x) = True"
| "id_readable (Fail e) = False"
| "id_readable (Panic e) = False"

fun id_panics :: "'a outcome \<Rightarrow> bool" where
  "id_panics (Panic e) = True"
| "id_panics (Fail e) = False"
| "id_panics (Return x) = False"

definition resolve_current :: "remote_state \<Rightarrow> observer \<Rightarrow> remote_state \<times> observer" where
  "resolve_current rs p =
     (let artist = get_str (rs_raw_metadata rs) ''artist_name'';
          album = get_str (rs_raw_metadata rs) ''album_title'';
          sparse = (track_is_sparse rs \<and> id_readable (spotify_id_from_uri (rs_track_uri rs)));
          (artist1, album1, rs1) = (if sparse then carry_over (ob_remote p) artist album rs else (artist, album, rs));
          (artist2, album2) = (if sparse then lookup_artist (ob_resolver p) (rs_track_uri rs) artist1 album1
                               else (artist1, album1));
          p1 = (if sparse \<and> meta_incomplete artist2 rs1 then resolve_current_track_meta_async (rs_track_uri rs) p else p)
      in (rs1\<lparr>rs_track_artist := artist2,
              rs_track_album := first_non_empty [album2, get_str (rs_raw_metadata rs) ''album_title'']\<rparr>, p1))"

definition set_remote_state :: "remote_state \<Rightarrow> observer \<Rightarrow> observer" where
  "set_remote_state rs p =
     (let changed = (case ob_remote p of None \<Rightarrow> True | Some prev \<Rightarrow> rs_track_uri prev \<noteq> rs_track_uri rs)
      in p\<lparr>ob_remote := Some rs,
           ob_ma_owns := False,
           ob_last_device := (if rs_device_id rs \<noteq> [] then (rs_device_id rs, rs_device_name rs) else ob_last_device p),
           ob_voice := ob_voice p @ [rs_is_playing rs \<and> \<not> rs_is_paused rs],
           ob_events := ob_events p @ [if changed then TrackChanged rs else StateChanged rs]\<rparr>)"

definition update_remote_state :: "bool \<Rightarrow> instant \<Rightarrow> int \<Rightarrow> cluster \<Rightarrow> observer \<Rightarrow> observer" where
  "update_remote_state synced now now_ms cl p =
     (case cluster_to_remote_state now now_ms (Some cl) of
        None \<Rightarrow> p
      | Some rs0 \<Rightarrow>
          let (rs1, p1) = do_expand_queue now rs0 p;
              (rs2, p2) = note_cluster_timing synced now rs1 p1;
              (rs3, p3) = (case map_of (cl_devices cl) (rs_device_id rs2) of
                             None \<Rightarrow> (rs2, p2)
                           | Some dev \<Rightarrow>
                               (case device_display_name (rs_device_id rs2) dev (ob_devices p2) of
                                  (name, ds) \<Rightarrow> (rs2\<lparr>rs_device_name := name\<rparr>, p2\<lparr>ob_devices := ds\<rparr>)));
              (rs4, p4) = fill_queues rs3 p3;
              (rs, p5) = resolve_current rs4 p4
          in if track_is_sparse rs4 \<and> id_panics (spotify_id_from_uri (rs_track_uri rs4))
             then p4\<lparr>ob_crashed := True\<rparr>
             else set_remote_state rs p5)"

definition clear_active_device :: "observer \<Rightarrow> observer" where
  "clear_active_device p =
     (case ob_remote p of
        None \<Rightarrow> p
      | Some _ \<Rightarrow> p\<lparr>ob_remote := None, ob_voice := ob_voice p @ [False], ob_events := ob_events p @ [Inactive]\<rparr>)"

definition handle_cluster ::
    "string \<Rightarrow> bool \<Rightarrow> bool \<Rightarrow> instant \<Rightarrow> int \<Rightarrow> cluster option \<Rightarrow> observer \<Rightarrow> observer" where
  "handle_cluster own ma_mode synced now now_ms c p =
     (case c of
        None \<Rightarrow> p
      | Some cl \<Rightarrow>
          let p1 = p\<lparr>ob_devices := update_connect_devices own now (cl_active_device cl) (cl_devices cl) (ob_devices p)\<rparr>
          in if ma_mode then p1
             else if cl_active_device cl = own then p1
             else if cl_active_device cl = [] then clear_active_device p1
             else case cl_player cl of
                    None \<Rightarrow> p1
                  | Some _ \<Rightarrow> update_remote_state synced now now_ms cl p1)"

subsection \<open>What comes back\<close>

record track_meta =
  tm_uri :: string
  tm_name :: string
  tm_artist :: string
  tm_album :: string
  tm_image :: string

text \<open>Metadata of the current track. The position is projected anew.\<close>

definition apply_meta :: "track_meta \<Rightarrow> remote_state \<Rightarrow> bool \<times> remote_state" where
  "apply_meta meta rs =
     (let alb = first_non_empty [tm_album meta, get_str (rs_raw_metadata rs) ''album_title''];
          artist = (tm_artist meta \<noteq> [] \<and> rs_track_artist rs = []);
          album = (rs_track_album rs = [] \<and> alb \<noteq> []);
          name = (tm_name meta \<noteq> [] \<and> rs_track_name rs = []);
          image = (tm_image meta \<noteq> [] \<and> rs_track_image rs = [])
      in (artist \<or> album \<or> name \<or> image,
          rs\<lparr>rs_track_artist := (if artist then tm_artist meta else rs_track_artist rs),
             rs_track_album := (if album then alb else rs_track_album rs),
             rs_track_name := (if name then tm_name meta else rs_track_name rs),
             rs_track_image := (if image then tm_image meta else rs_track_image rs)\<rparr>))"

text \<open>A resolution that found nothing is not tried again at once.\<close>

definition note_meta :: "track_meta \<Rightarrow> observer \<Rightarrow> observer" where
  "note_meta meta p =
     (let p1 = (if ob_meta_in_flight p = tm_uri meta then p\<lparr>ob_meta_in_flight := []\<rparr> else p)
      in if tm_artist meta = [] \<and> tm_name meta = [] \<and> tm_image meta = []
         then p1\<lparr>ob_meta_failed := tm_uri meta\<rparr> else p1)"

definition meta_resolved :: "instant \<Rightarrow> track_meta \<Rightarrow> observer \<Rightarrow> observer" where
  "meta_resolved now meta p =
     (let p2 = note_meta meta p
      in case ob_remote p2 of
           None \<Rightarrow> p2
         | Some rs \<Rightarrow>
             if rs_track_uri rs \<noteq> tm_uri meta then p2
             else case apply_meta meta rs of
                    (changed, rs1) \<Rightarrow>
                      if \<not> changed then p2
                      else
                        let rs2 = rs1\<lparr>rs_position := remote_position now (Some rs1)\<rparr>
                        in p2\<lparr>ob_remote := Some rs2, ob_events := ob_events p2 @ [StateChanged rs2]\<rparr>)"

text \<open>The resolver has new names and covers.\<close>

definition queue_resolved :: "instant \<Rightarrow> observer \<Rightarrow> observer" where
  "queue_resolved now p =
     (case (ob_remote p, ob_resolver p) of
        (Some rs, Some r) \<Rightarrow>
          (case resolved_pass (rs_next_tracks rs) (rs_prev_tracks rs) r of
             ((next, prev), r1) \<Rightarrow>
               let rs1 = rs\<lparr>rs_next_tracks := next, rs_prev_tracks := prev\<rparr>;
                   rs2 = rs1\<lparr>rs_position := remote_position now (Some rs1)\<rparr>
               in p\<lparr>ob_remote := Some rs2, ob_resolver := Some r1, ob_events := ob_events p @ [StateChanged rs2]\<rparr>)
      | _ \<Rightarrow> p)"

text \<open>The tracks of a context are in the cache. The expansion writes into the current state, the event
  is sent when the number of tracks changed.\<close>

definition queue_expanded :: "instant \<Rightarrow> observer \<Rightarrow> observer" where
  "queue_expanded now p =
     (case ob_remote p of
        None \<Rightarrow> p
      | Some rs \<Rightarrow>
          (case do_expand_queue now rs p of
             (rs1, p1) \<Rightarrow>
               if length (rs_next_tracks rs1) = length (rs_next_tracks rs) then p1\<lparr>ob_remote := Some rs1\<rparr>
               else
                 let rs2 = rs1\<lparr>rs_position := remote_position now (Some rs1)\<rparr>
                 in p1\<lparr>ob_remote := Some rs2, ob_events := ob_events p1 @ [StateChanged rs2]\<rparr>))"

subsection \<open>The run loop\<close>

text \<open>The goroutines of the expansion and of the resolver write their caches under their locks: such an
  event puts any cache in place. After a panic nothing happens any more.\<close>

datatype observer_event =
  ObCluster bool bool instant int "cluster option"
| ObWebList http
| ObMeta instant track_meta
| ObQueueResolved instant
| ObQueueExpanded instant
| ObExpanderWrites expander
| ObResolverWrites "resolver option"

primrec observer_step_alive :: "string \<Rightarrow> observer \<Rightarrow> observer_event \<Rightarrow> observer" where
  "observer_step_alive own p (ObCluster ma synced now now_ms c) = handle_cluster own ma synced now now_ms c p"
| "observer_step_alive own p (ObWebList resp) =
     p\<lparr>ob_devices := snd (refresh_known_connect_devices own resp (ob_devices p))\<rparr>"
| "observer_step_alive own p (ObMeta now meta) = meta_resolved now meta p"
| "observer_step_alive own p (ObQueueResolved now) = queue_resolved now p"
| "observer_step_alive own p (ObQueueExpanded now) = queue_expanded now p"
| "observer_step_alive own p (ObExpanderWrites x) = p\<lparr>ob_expander := x\<rparr>"
| "observer_step_alive own p (ObResolverWrites r) = p\<lparr>ob_resolver := r\<rparr>"

definition observer_step :: "string \<Rightarrow> observer \<Rightarrow> observer_event \<Rightarrow> observer" where
  "observer_step own p e = (if ob_crashed p then p else observer_step_alive own p e)"

definition observer_run :: "string \<Rightarrow> observer_event list \<Rightarrow> observer" where
  "observer_run own es = foldl (observer_step own) new_observer es"

subsection \<open>What the parts leave alone\<close>

text \<open>The expansion changes the next tracks of the state, the timing its clock offset and position, and
  so on: what the state says of its track stays.\<close>

definition same_track :: "remote_state \<Rightarrow> remote_state \<Rightarrow> bool" where
  "same_track rs rs' \<longleftrightarrow> rs_track_uri rs' = rs_track_uri rs \<and> rs_track_name rs' = rs_track_name rs \<and>
     rs_track_artist rs' = rs_track_artist rs \<and> rs_track_image rs' = rs_track_image rs \<and>
     rs_raw_metadata rs' = rs_raw_metadata rs \<and> rs_device_id rs' = rs_device_id rs"

definition same_observer :: "observer \<Rightarrow> observer \<Rightarrow> bool" where
  "same_observer p p' \<longleftrightarrow> ob_remote p' = ob_remote p \<and> ob_events p' = ob_events p \<and> ob_crashed p' = ob_crashed p"

lemma same_track_trans: "same_track a b \<Longrightarrow> same_track b c \<Longrightarrow> same_track a c"
  by (simp add: same_track_def)

lemma same_observer_trans: "same_observer a b \<Longrightarrow> same_observer b c \<Longrightarrow> same_observer a c"
  by (simp add: same_observer_def)

lemma expand_queue_state: "\<exists>q. fst (expand_queue now (Some rs) x) = Some (rs\<lparr>rs_next_tracks := q\<rparr>)"
proof -
  have "\<exists>q. Some rs = Some (rs\<lparr>rs_next_tracks := q\<rparr>)" by (intro exI [of _ "rs_next_tracks rs"]) simp
  then show ?thesis by (auto simp: expand_queue_def Let_def split: option.split)
qed

lemma do_expand_queue_state:
  "do_expand_queue now rs p = (rs1, p1) \<Longrightarrow> (\<exists>q. rs1 = rs\<lparr>rs_next_tracks := q\<rparr>) \<and> same_observer p p1"
  using expand_queue_state [of now rs "ob_expander p"]
  by (cases "expand_queue now (Some rs) (ob_expander p)") (auto simp: do_expand_queue_def same_observer_def)

lemma do_expand_queue_same:
  "do_expand_queue now rs p = (rs1, p1) \<Longrightarrow> same_track rs rs1 \<and> same_observer p p1"
  using do_expand_queue_state [of now rs p rs1 p1] by (auto simp: same_track_def)

lemma note_cluster_timing_same:
  "note_cluster_timing synced now rs p = (rs1, p1) \<Longrightarrow> same_track rs rs1 \<and> same_observer p p1"
  by (auto simp: note_cluster_timing_def Let_def same_track_def same_observer_def split: if_splits option.splits)

lemma fill_queues_same: "fill_queues rs p = (rs1, p1) \<Longrightarrow> same_track rs rs1 \<and> same_observer p p1"
  by (auto simp: fill_queues_def same_track_def same_observer_def split: option.splits prod.splits)

lemma resolve_async_same [simp]: "same_observer p (resolve_current_track_meta_async u p)"
  by (simp add: resolve_current_track_meta_async_def same_observer_def)

lemma same_observer_refl [simp]: "same_observer p p"
  by (simp add: same_observer_def)

lemma carry_over_fields:
  "carry_over prev artist album rs = (a, b, rs1) \<Longrightarrow>
    rs_track_uri rs1 = rs_track_uri rs \<and> rs_device_id rs1 = rs_device_id rs \<and>
    (artist \<noteq> [] \<longrightarrow> a = artist) \<and> (rs_track_name rs \<noteq> [] \<longrightarrow> rs_track_name rs1 = rs_track_name rs) \<and>
    (rs_track_image rs \<noteq> [] \<longrightarrow> rs_track_image rs1 = rs_track_image rs) \<and>
    (\<forall>pr. prev = Some pr \<and> rs_track_uri pr = rs_track_uri rs \<longrightarrow>
       (artist = [] \<longrightarrow> a = rs_track_artist pr) \<and>
       (rs_track_name rs = [] \<longrightarrow> rs_track_name rs1 = rs_track_name pr) \<and>
       (rs_track_image rs = [] \<longrightarrow> rs_track_image rs1 = rs_track_image pr))"
  by (auto simp: carry_over_def split: option.splits if_splits)

lemma lookup_artist_keeps: "a \<noteq> [] \<Longrightarrow> lookup_artist r u a b = (a, b)"
  by (simp add: lookup_artist_def)

text \<open>What the state says of its track in the end: what the cluster said, or else what was known.\<close>

lemma resolve_current_fields:
  assumes "resolve_current rs p = (rs1, p1)"
  shows "rs_track_uri rs1 = rs_track_uri rs" "rs_device_id rs1 = rs_device_id rs" "same_observer p p1"
    "rs_track_name rs \<noteq> [] \<Longrightarrow> rs_track_name rs1 = rs_track_name rs"
    "rs_track_image rs \<noteq> [] \<Longrightarrow> rs_track_image rs1 = rs_track_image rs"
    "get_str (rs_raw_metadata rs) ''artist_name'' \<noteq> [] \<Longrightarrow> rs_track_artist rs1 = get_str (rs_raw_metadata rs) ''artist_name''"
    "ob_remote p = Some pr \<Longrightarrow> rs_track_uri pr = rs_track_uri rs \<Longrightarrow> rs_track_uri rs \<noteq> [] \<Longrightarrow>
       id_readable (spotify_id_from_uri (rs_track_uri rs)) \<Longrightarrow>
       (rs_track_name rs = [] \<longrightarrow> rs_track_name rs1 = rs_track_name pr) \<and>
       (rs_track_image rs = [] \<longrightarrow> rs_track_image rs1 = rs_track_image pr) \<and>
       (get_str (rs_raw_metadata rs) ''artist_name'' = [] \<and> rs_track_artist pr \<noteq> [] \<longrightarrow> rs_track_artist rs1 = rs_track_artist pr)"
proof -
  define artist where "artist = get_str (rs_raw_metadata rs) ''artist_name''"
  define album where "album = get_str (rs_raw_metadata rs) ''album_title''"
  define sparse where "sparse = (track_is_sparse rs \<and> id_readable (spotify_id_from_uri (rs_track_uri rs)))"
  obtain a b r where c: "carry_over (ob_remote p) artist album rs = (a, b, r)"
    by (cases "carry_over (ob_remote p) artist album rs")
  obtain a' b' where l: "lookup_artist (ob_resolver p) (rs_track_uri rs) a b = (a', b')"
    by (cases "lookup_artist (ob_resolver p) (rs_track_uri rs) a b")
  note cf = carry_over_fields [OF c]
  have a': "a \<noteq> [] \<Longrightarrow> a' = a" using l lookup_artist_keeps by simp
  have p1: "same_observer p p1" using assms
    by (auto simp: resolve_current_def Let_def split: if_splits prod.splits)
  have alt: "(sparse \<and> rs_track_uri rs1 = rs_track_uri r \<and> rs_device_id rs1 = rs_device_id r \<and>
      rs_track_name rs1 = rs_track_name r \<and> rs_track_image rs1 = rs_track_image r \<and> rs_track_artist rs1 = a') \<or>
    (\<not> sparse \<and> rs_track_uri rs1 = rs_track_uri rs \<and> rs_device_id rs1 = rs_device_id rs \<and>
      rs_track_name rs1 = rs_track_name rs \<and> rs_track_image rs1 = rs_track_image rs \<and> rs_track_artist rs1 = artist)"
    using assms c l
    by (cases sparse) (auto simp: resolve_current_def Let_def sparse_def artist_def album_def split: prod.splits)
  show "rs_track_uri rs1 = rs_track_uri rs" "rs_device_id rs1 = rs_device_id rs" "same_observer p p1"
    using alt cf p1 by auto
  show "rs_track_name rs \<noteq> [] \<Longrightarrow> rs_track_name rs1 = rs_track_name rs"
    "rs_track_image rs \<noteq> [] \<Longrightarrow> rs_track_image rs1 = rs_track_image rs"
    using alt cf by auto
  show "get_str (rs_raw_metadata rs) ''artist_name'' \<noteq> [] \<Longrightarrow> rs_track_artist rs1 = get_str (rs_raw_metadata rs) ''artist_name''"
    using alt cf a' by (auto simp: artist_def)
  assume pr: "ob_remote p = Some pr" "rs_track_uri pr = rs_track_uri rs" "rs_track_uri rs \<noteq> []"
    "id_readable (spotify_id_from_uri (rs_track_uri rs))"
  show "(rs_track_name rs = [] \<longrightarrow> rs_track_name rs1 = rs_track_name pr) \<and>
       (rs_track_image rs = [] \<longrightarrow> rs_track_image rs1 = rs_track_image pr) \<and>
       (get_str (rs_raw_metadata rs) ''artist_name'' = [] \<and> rs_track_artist pr \<noteq> [] \<longrightarrow> rs_track_artist rs1 = rs_track_artist pr)"
  proof (cases sparse)
    case True
    with alt cf a' pr(1,2) show ?thesis by (auto simp: artist_def)
  next
    case False
    with pr(3,4) have "artist \<noteq> [] \<and> rs_track_name rs \<noteq> [] \<and> rs_track_image rs \<noteq> []"
      by (simp add: sparse_def track_is_sparse_def meta_incomplete_def artist_def)
    then show ?thesis by (simp add: artist_def)
  qed
qed

text \<open>An update: the new state has the track of the cluster, and the observer announces it.\<close>

lemma update_remote_state_cases:
  assumes "update_remote_state synced now now_ms cl p = p'" "cluster_to_remote_state now now_ms (Some cl) = Some rs0"
  obtains (crashed) "ob_remote p' = ob_remote p" "ob_events p' = ob_events p" "ob_crashed p'"
      "id_panics (spotify_id_from_uri (rs_track_uri rs0))"
    | (updated) rs4 rs p4 p5 where "same_track rs0 rs4" "same_observer p p4" "resolve_current rs4 p4 = (rs, p5)"
      "p' = set_remote_state rs p5" "same_observer p p5"
      "\<not> (track_is_sparse rs4 \<and> id_panics (spotify_id_from_uri (rs_track_uri rs4)))"
proof -
  obtain rs1 p1 where 1: "do_expand_queue now rs0 p = (rs1, p1)" by (cases "do_expand_queue now rs0 p")
  obtain rs2 p2 where 2: "note_cluster_timing synced now rs1 p1 = (rs2, p2)" by (cases "note_cluster_timing synced now rs1 p1")
  define rp where "rp = (case map_of (cl_devices cl) (rs_device_id rs2) of None \<Rightarrow> (rs2, p2)
      | Some dev \<Rightarrow> (case device_display_name (rs_device_id rs2) dev (ob_devices p2) of
            (name, ds) \<Rightarrow> (rs2\<lparr>rs_device_name := name\<rparr>, p2\<lparr>ob_devices := ds\<rparr>)))"
  obtain rs3 p3 where 3: "rp = (rs3, p3)" by (cases rp)
  obtain rs4 p4 where 4: "fill_queues rs3 p3 = (rs4, p4)" by (cases "fill_queues rs3 p3")
  obtain rs p5 where 5: "resolve_current rs4 p4 = (rs, p5)" by (cases "resolve_current rs4 p4")
  have p': "p' = (if track_is_sparse rs4 \<and> id_panics (spotify_id_from_uri (rs_track_uri rs4))
      then p4\<lparr>ob_crashed := True\<rparr> else set_remote_state rs p5)"
    using assms 1 2 3 [unfolded rp_def] 4 5 by (simp add: update_remote_state_def)
  have "same_track rs2 rs3 \<and> same_observer p2 p3"
    using 3 by (auto simp: rp_def same_track_def same_observer_def split: option.splits prod.splits)
  then have "same_track rs0 rs4 \<and> same_observer p p4"
    using do_expand_queue_same [OF 1] note_cluster_timing_same [OF 2] fill_queues_same [OF 4]
    by (meson same_track_trans same_observer_trans)
  moreover have "same_observer p p5"
    using calculation resolve_current_fields(3) [OF 5] same_observer_trans by blast
  ultimately show ?thesis
    using p' 5 crashed updated [of rs4 p4 rs p5]
    by (cases "track_is_sparse rs4 \<and> id_panics (spotify_id_from_uri (rs_track_uri rs4))")
      (auto simp: same_track_def same_observer_def)
qed

lemma cluster_state_fields:
  assumes "cluster_to_remote_state now now_ms (Some cl) = Some rs" "cl_player cl = Some ps"
  shows "rs_track_uri rs = (case cp_track ps of None \<Rightarrow> [] | Some t \<Rightarrow> fst t)"
    "rs_device_id rs = cl_active_device cl"
    "rs_raw_metadata rs = (case cp_track ps of None \<Rightarrow> Map.empty | Some t \<Rightarrow> snd t)"
    "rs_track_name rs = get_str (rs_raw_metadata rs) ''title''"
    "rs_track_image rs = first_connect_image (rs_raw_metadata rs)"
  using assms by (auto simp: cluster_to_remote_state_def Let_def)

lemma cluster_to_remote_state_Some:
  "cl_player cl = Some ps \<Longrightarrow> \<exists>rs. cluster_to_remote_state now now_ms (Some cl) = Some rs"
  by (simp add: cluster_to_remote_state_def Let_def)

subsection \<open>What the UI sees\<close>

text \<open>The state the UI shows after an event, and how the observer's state may differ from it: in what an
  expansion of the same length has filled in.\<close>

definition ui_state :: "ui_event list \<Rightarrow> remote_state option" where
  "ui_state es = (if es = [] then None
     else case last es of TrackChanged rs \<Rightarrow> Some rs | StateChanged rs \<Rightarrow> Some rs | Inactive \<Rightarrow> None)"

definition shows_state :: "remote_state option \<Rightarrow> remote_state option \<Rightarrow> bool" where
  "shows_state shown rs \<longleftrightarrow>
     (case (shown, rs) of
        (None, None) \<Rightarrow> True
      | (Some s, Some r) \<Rightarrow> \<exists>q. r = s\<lparr>rs_next_tracks := q\<rparr> \<and> length q = length (rs_next_tracks s)
      | _ \<Rightarrow> False)"

definition mirrored :: "observer \<Rightarrow> bool" where
  "mirrored p \<longleftrightarrow> shows_state (ui_state (ob_events p)) (ob_remote p)"

lemma shows_state_refl [simp]: "shows_state s s"
proof (cases s)
  case (Some r)
  then show ?thesis by (auto simp: shows_state_def intro!: exI [of _ "rs_next_tracks r"])
qed (simp add: shows_state_def)

lemma ui_state_snoc [simp]:
  "ui_state (es @ [StateChanged rs]) = Some rs" "ui_state (es @ [Inactive]) = None"
  "ui_state (es @ [TrackChanged rs]) = Some rs"
  by (simp_all add: ui_state_def)

lemma mirrored_same: "same_observer p p' \<Longrightarrow> mirrored p' = mirrored p"
  by (simp add: mirrored_def same_observer_def)

lemma set_remote_state_mirrored: "mirrored (set_remote_state rs p)"
  by (simp add: mirrored_def set_remote_state_def Let_def)

lemma handle_cluster_mirrored:
  assumes "mirrored p"
  shows "mirrored (handle_cluster own ma synced now now_ms c p)"
proof (cases c)
  case None
  with assms show ?thesis by (simp add: handle_cluster_def)
next
  case (Some cl)
  define p1 where "p1 = p\<lparr>ob_devices := update_connect_devices own now (cl_active_device cl) (cl_devices cl) (ob_devices p)\<rparr>"
  have p1: "mirrored p1" using assms by (simp add: p1_def mirrored_def)
  have clear: "mirrored (clear_active_device p1)"
    using p1 by (cases "ob_remote p1") (simp_all add: clear_active_device_def, simp add: mirrored_def)
  have "mirrored (update_remote_state synced now now_ms cl p1)" if ps: "cl_player cl = Some ps" for ps
  proof -
    obtain rs0 where "cluster_to_remote_state now now_ms (Some cl) = Some rs0"
      using cluster_to_remote_state_Some [OF ps, of now now_ms] by blast
    from refl [of "update_remote_state synced now now_ms cl p1"] this show ?thesis
      by (cases rule: update_remote_state_cases)
        (use p1 set_remote_state_mirrored in \<open>auto simp: mirrored_def\<close>)
  qed
  with p1 clear Some show ?thesis
    by (simp add: handle_cluster_def Let_def split: option.split flip: p1_def)
qed

lemma mirrored_announce:
  "mirrored (p\<lparr>ob_remote := Some rs, ob_events := es @ [StateChanged rs]\<rparr>)"
  "mirrored (p\<lparr>ob_remote := Some rs, ob_resolver := r, ob_events := es @ [StateChanged rs]\<rparr>)"
  by (simp_all add: mirrored_def)

lemma meta_resolved_mirrored:
  assumes "mirrored p"
  shows "mirrored (meta_resolved now meta p)"
proof -
  have same: "same_observer p (note_meta meta p)" by (simp add: note_meta_def same_observer_def Let_def)
  then have m: "mirrored (note_meta meta p)" using assms mirrored_same by blast
  show ?thesis
  proof (cases "ob_remote (note_meta meta p)")
    case None
    with m show ?thesis by (simp add: meta_resolved_def)
  next
    case (Some rs)
    obtain changed rs1 where "apply_meta meta rs = (changed, rs1)" by (cases "apply_meta meta rs")
    with Some m mirrored_announce(1) show ?thesis by (simp add: meta_resolved_def Let_def)
  qed
qed

lemma queue_expanded_mirrored:
  assumes "mirrored p"
  shows "mirrored (queue_expanded now p)"
proof (cases "ob_remote p")
  case None
  with assms show ?thesis by (simp add: queue_expanded_def)
next
  case (Some rs)
  obtain rs1 p1 where e: "do_expand_queue now rs p = (rs1, p1)" by (cases "do_expand_queue now rs p")
  obtain q where q: "rs1 = rs\<lparr>rs_next_tracks := q\<rparr>" and same: "same_observer p p1"
    using do_expand_queue_state [OF e] by blast
  show ?thesis
  proof (cases "length (rs_next_tracks rs1) = length (rs_next_tracks rs)")
    case True
    obtain s where s: "ui_state (ob_events p) = Some s" "\<exists>q0. rs = s\<lparr>rs_next_tracks := q0\<rparr> \<and> length q0 = length (rs_next_tracks s)"
      using assms Some by (auto simp: mirrored_def shows_state_def split: option.splits)
    then have "shows_state (Some s) (Some rs1)"
      using q True by (auto simp: shows_state_def)
    then show ?thesis
      using e Some True s same by (simp add: queue_expanded_def mirrored_def same_observer_def)
  next
    case False
    with e Some mirrored_announce(1) show ?thesis by (simp add: queue_expanded_def Let_def)
  qed
qed

lemma queue_resolved_mirrored:
  assumes "mirrored p"
  shows "mirrored (queue_resolved now p)"
  using assms mirrored_announce(2) [where p = p]
  by (simp add: queue_resolved_def Let_def split: option.split prod.split)

lemma observer_step_mirrored: "mirrored p \<Longrightarrow> mirrored (observer_step own p e)"
  by (cases e)
    (simp_all add: observer_step_def handle_cluster_mirrored meta_resolved_mirrored queue_expanded_mirrored
      queue_resolved_mirrored, simp_all add: mirrored_def)

interpretation observer: invariant_machine "observer_step own" mirrored
  by unfold_locales (rule observer_step_mirrored)

subsection \<open>Properties\<close>

text \<open>C18: Whatever clusters, metadata and queues arrive, the state that the events have told the UI is the
  observer's: there is one exactly when the observer has one, and it agrees with it in everything
  but the next tracks, of which there are as many (an expansion that does not change their number
  is not announced).\<close>

theorem ui_mirrors_observer:
  assumes "p = observer_run own es"
  shows "case (ui_state (ob_events p), ob_remote p) of
           (None, None) \<Rightarrow> True
         | (Some shown, Some rs) \<Rightarrow>
             \<exists>q. rs = shown\<lparr>rs_next_tracks := q\<rparr> \<and> length q = length (rs_next_tracks shown)
         | _ \<Rightarrow> False"
proof -
  have "mirrored new_observer" by (simp add: mirrored_def new_observer_def ui_state_def)
  then have "mirrored p" unfolding assms observer_run_def by (rule observer.run_inv)
  then show ?thesis by (simp add: mirrored_def shows_state_def)
qed

text \<open>What is known of a track.\<close>

definition knows_more :: "remote_state \<Rightarrow> remote_state \<Rightarrow> bool" where
  "knows_more rs rs' \<longleftrightarrow>
     (rs_track_name rs \<noteq> [] \<longrightarrow> rs_track_name rs' \<noteq> []) \<and>
     (rs_track_artist rs \<noteq> [] \<longrightarrow> rs_track_artist rs' \<noteq> []) \<and>
     (rs_track_image rs \<noteq> [] \<longrightarrow> rs_track_image rs' \<noteq> [])"

lemma knows_more_refl [simp]: "knows_more rs rs"
  by (simp add: knows_more_def)

lemma update_knows_more:
  assumes "ob_remote p = Some pr" "cluster_to_remote_state now now_ms (Some cl) = Some rs0"
    and "ob_remote (update_remote_state synced now now_ms cl p) = Some rs"
    and "rs_track_uri rs = rs_track_uri pr" "id_readable (spotify_id_from_uri (rs_track_uri pr))" "rs_track_uri pr \<noteq> []"
  shows "knows_more pr rs"
  using refl [of "update_remote_state synced now now_ms cl p"] assms(2)
proof (cases rule: update_remote_state_cases)
  case crashed
  with assms(1,3) show ?thesis by simp
next
  case (updated rs4 rs' p4 p5)
  then have rs: "rs' = rs" using assms(3) by (simp add: set_remote_state_def Let_def)
  have uri: "rs_track_uri pr = rs_track_uri rs4"
    using resolve_current_fields(1) [OF updated(3)] assms(4) rs by simp
  have "ob_remote p4 = Some pr" using updated(2) assms(1) by (simp add: same_observer_def)
  from resolve_current_fields(4-6) [OF updated(3)] resolve_current_fields(7) [OF updated(3) this uri] uri assms(5,6)
  show ?thesis unfolding knows_more_def rs by metis
qed

lemma step_knows_more:
  assumes "ob_remote p = Some pr" "ob_remote (observer_step own p e) = Some rs"
    and "rs_track_uri rs = rs_track_uri pr" "id_readable (spotify_id_from_uri (rs_track_uri pr))" "rs_track_uri pr \<noteq> []"
  shows "knows_more pr rs"
proof (cases "ob_crashed p")
  case True
  with assms(1,2) show ?thesis by (simp add: observer_step_def)
next
  case alive: False
  show ?thesis
  proof (cases e)
    case (ObCluster ma synced now now_ms c)
    show ?thesis
    proof (cases c)
      case None
      with ObCluster alive assms(1,2) show ?thesis by (simp add: observer_step_def handle_cluster_def)
    next
      case (Some cl)
      define p1 where "p1 = p\<lparr>ob_devices := update_connect_devices own now (cl_active_device cl) (cl_devices cl) (ob_devices p)\<rparr>"
      have p1: "ob_remote p1 = Some pr" using assms(1) by (simp add: p1_def)
      have "ob_remote (clear_active_device p1) = None" using p1 by (simp add: clear_active_device_def)
      then have "rs = pr \<or> (\<exists>ps. cl_player cl = Some ps \<and> ob_remote (update_remote_state synced now now_ms cl p1) = Some rs)"
        using assms(2) ObCluster Some alive p1
        by (auto simp: observer_step_def handle_cluster_def Let_def simp flip: p1_def split: if_splits option.splits)
      then show ?thesis
        using update_knows_more [OF p1 _ _ assms(3-5)] cluster_to_remote_state_Some by (metis knows_more_refl)
    qed
  next
    case (ObMeta now meta)
    then show ?thesis
      using assms(1,2) alive
      by (auto simp: observer_step_def meta_resolved_def note_meta_def Let_def apply_meta_def knows_more_def split: if_splits)
  next
    case (ObQueueResolved now)
    then show ?thesis
      using assms(1,2) alive
      by (auto simp: observer_step_def queue_resolved_def Let_def knows_more_def split: option.splits prod.splits)
  next
    case (ObQueueExpanded now)
    obtain rs1 p1 where e: "do_expand_queue now pr p = (rs1, p1)" by (cases "do_expand_queue now pr p")
    then have "same_track pr rs1" using do_expand_queue_same by blast
    with ObQueueExpanded e assms(1,2) alive show ?thesis
      by (auto simp: observer_step_def queue_expanded_def Let_def knows_more_def same_track_def split: if_splits)
  qed (use assms(1,2) alive in \<open>simp_all add: observer_step_def\<close>)
qed

text \<open>As long as the same track plays, nothing that was found out about it is lost: once its name,
  its artist or its cover is known, no later cluster, however sparse, and no other event takes it
  away.\<close>

theorem track_metadata_survives:
  assumes "id_readable (spotify_id_from_uri uri)" and "uri \<noteq> []"
    and "\<And>n. n \<le> length es \<Longrightarrow> \<exists>rs. ob_remote (foldl (observer_step own) p (take n es)) = Some rs \<and> rs_track_uri rs = uri"
    and "ob_remote p = Some pr" and "ob_remote (foldl (observer_step own) p es) = Some rs"
  shows "(rs_track_name pr \<noteq> [] \<longrightarrow> rs_track_name rs \<noteq> []) \<and>
         (rs_track_artist pr \<noteq> [] \<longrightarrow> rs_track_artist rs \<noteq> []) \<and>
         (rs_track_image pr \<noteq> [] \<longrightarrow> rs_track_image rs \<noteq> [])"
proof -
  have "knows_more pr rs" using assms(3-5)
  proof (induction es arbitrary: p pr)
    case (Cons e es)
    define q where "q = observer_step own p e"
    obtain r where r: "ob_remote q = Some r" "rs_track_uri r = uri" using Cons.prems(1) [of 1] by (auto simp: q_def)
    have "rs_track_uri pr = uri" using Cons.prems(1) [of 0] Cons.prems(2) by simp
    then have "knows_more pr r"
      using step_knows_more [OF Cons.prems(2), of own e r] r assms(1,2) by (simp add: q_def)
    moreover have "knows_more r rs"
    proof (rule Cons.IH [OF _ r(1)])
      show "\<exists>rs. ob_remote (foldl (observer_step own) q (take n es)) = Some rs \<and> rs_track_uri rs = uri"
        if "n \<le> length es" for n
        using Cons.prems(1) [of "Suc n"] that by (simp add: q_def)
      show "ob_remote (foldl (observer_step own) q es) = Some rs" using Cons.prems(3) by (simp add: q_def)
    qed
    ultimately show ?case by (auto simp: knows_more_def)
  qed simp
  then show ?thesis by (simp add: knows_more_def)
qed

lemma handle_cluster_outcome:
  assumes "p' = handle_cluster own ma synced now now_ms (Some cl) p" and "own \<noteq> []"
    and "track = (case cl_player cl of None \<Rightarrow> None | Some ps \<Rightarrow> cp_track ps)"
    and "uri = (case track of None \<Rightarrow> [] | Some t \<Rightarrow> fst t)"
    and "\<not> id_panics (spotify_id_from_uri uri)"
  shows "if ma \<or> cl_active_device cl = own \<or> (cl_active_device cl \<noteq> [] \<and> cl_player cl = None)
         then ob_remote p' = ob_remote p \<and> ob_events p' = ob_events p
         else if cl_active_device cl = []
         then ob_remote p' = None \<and> ob_events p' = ob_events p @ (if ob_remote p = None then [] else [Inactive])
         else \<exists>rs. ob_remote p' = Some rs \<and> rs_device_id rs = cl_active_device cl \<and> rs_track_uri rs = uri \<and>
                ob_last_device p' = (rs_device_id rs, rs_device_name rs) \<and>
                ob_events p' = ob_events p @
                  [if map_option rs_track_uri (ob_remote p) = Some uri then StateChanged rs else TrackChanged rs]"
proof -
  define p1 where "p1 = p\<lparr>ob_devices := update_connect_devices own now (cl_active_device cl) (cl_devices cl) (ob_devices p)\<rparr>"
  have p1: "ob_remote p1 = ob_remote p" "ob_events p1 = ob_events p" by (simp_all add: p1_def)
  have p': "p' = (if ma then p1 else if cl_active_device cl = own then p1
      else if cl_active_device cl = [] then clear_active_device p1
      else case cl_player cl of None \<Rightarrow> p1 | Some _ \<Rightarrow> update_remote_state synced now now_ms cl p1)"
    using assms(1) by (simp add: handle_cluster_def Let_def flip: p1_def)
  show ?thesis
  proof (cases "ma \<or> cl_active_device cl = own \<or> cl_active_device cl = [] \<or> cl_player cl = None")
    case True
    then show ?thesis
      using p1 assms(2) unfolding p'
      by (cases "ob_remote p1"; cases "cl_player cl") (auto simp: clear_active_device_def)
  next
    case False
    then obtain ps where ps: "cl_player cl = Some ps" by auto
    obtain rs0 where rs0: "cluster_to_remote_state now now_ms (Some cl) = Some rs0"
      using cluster_to_remote_state_Some [OF ps, of now now_ms] by blast
    have f: "rs_track_uri rs0 = uri" "rs_device_id rs0 = cl_active_device cl"
      using cluster_state_fields(1,2) [OF rs0 ps] assms(3,4) ps by simp_all
    have u: "p' = update_remote_state synced now now_ms cl p1" using False ps p' by simp
    from u [symmetric] rs0 have
      "\<exists>rs. ob_remote p' = Some rs \<and> rs_device_id rs = cl_active_device cl \<and> rs_track_uri rs = uri \<and>
         ob_last_device p' = (rs_device_id rs, rs_device_name rs) \<and>
         ob_events p' = ob_events p @
           [if map_option rs_track_uri (ob_remote p) = Some uri then StateChanged rs else TrackChanged rs]"
    proof (cases rule: update_remote_state_cases)
      case crashed
      with f assms(5) show ?thesis by simp
    next
      case (updated rs4 rs p4 p5)
      have "rs_track_uri rs = uri" "rs_device_id rs = cl_active_device cl" "rs_device_id rs \<noteq> []"
        using resolve_current_fields(1,2) [OF updated(3)] updated(1) f False by (simp_all add: same_track_def)
      then show ?thesis
        using updated(4,5) p1 by (auto simp: set_remote_state_def Let_def same_observer_def split: option.splits)
    qed
    with False show ?thesis by auto
  qed
qed

text \<open>C19: What a cluster does. With the Music Assistant on, with the daemon itself as the active device, or
  without a player state it leaves the state alone; with no active device it clears it and says so
  once; else the state becomes that of the active device and its track, announced as a new track
  exactly when there was no state or the track differs.\<close>

theorem handle_cluster_decides:
  assumes "p' = handle_cluster own ma synced now now_ms (Some cl) p" and "own \<noteq> []"
    and "track = (case cl_player cl of None \<Rightarrow> None | Some ps \<Rightarrow> cp_track ps)"
    and "uri = (case track of None \<Rightarrow> [] | Some t \<Rightarrow> fst t)"
    and "\<not> id_panics (spotify_id_from_uri uri)"
  shows "if ma \<or> cl_active_device cl = own \<or> (cl_active_device cl \<noteq> [] \<and> cl_player cl = None)
         then ob_remote p' = ob_remote p \<and> ob_events p' = ob_events p
         else if cl_active_device cl = []
         then ob_remote p' = None \<and> ob_events p' = ob_events p @ (if ob_remote p = None then [] else [Inactive])
         else \<exists>rs. ob_remote p' = Some rs \<and> rs_device_id rs = cl_active_device cl \<and> rs_track_uri rs = uri \<and>
                ob_last_device p' = (rs_device_id rs, rs_device_name rs) \<and>
                ob_events p' = ob_events p @
                  [if map_option rs_track_uri (ob_remote p) = Some uri then StateChanged rs else TrackChanged rs]"
  using assms by (rule handle_cluster_outcome)

subsection \<open>Lost albums and a crash\<close>

text \<open>An album that was found out is lost with the first cluster that names the artist but not the
  album.\<close>

lemma album_forgotten:
  "get_str (rs_raw_metadata rs) ''artist_name'' \<noteq> [] \<Longrightarrow> get_str (rs_raw_metadata rs) ''album_title'' = [] \<Longrightarrow>
    rs_track_album (fst (resolve_current rs p)) = []"
  by (auto simp: resolve_current_def Let_def carry_over_def lookup_artist_def first_non_empty_def
      split: option.split prod.split)

definition sample_metadata :: metadata where
  "sample_metadata = (\<lambda>k. if k = ''title'' then Some ''Song'' else if k = ''artist_name'' then Some ''Band'' else None)"

definition sample_player :: "string \<Rightarrow> metadata \<Rightarrow> cluster_player" where
  "sample_player uri md = \<lparr>cp_track = Some (uri, md), cp_context_uri = [], cp_context_metadata = Map.empty,
     cp_duration = 1000, cp_position_as_of = 0, cp_timestamp = 0, cp_is_paused = False, cp_is_playing = True,
     cp_speed = 1, cp_options = None, cp_restrictions = None, cp_prev_tracks = [], cp_next_tracks = []\<rparr>"

definition sample_cluster :: "string \<Rightarrow> metadata \<Rightarrow> cluster" where
  "sample_cluster uri md = \<lparr>cl_active_device = ''tv'', cl_player = Some (sample_player uri md),
     cl_devices = [(''tv'', speaker)]\<rparr>"

definition sample_uri :: string where "sample_uri = ''spotify:track:0000000000000000000000''"

text \<open>A cluster with an id of more than 128 bits and without an artist ends the daemon.\<close>

lemma oversized_id_crashes_observer:
  assumes "cl_player cl = Some ps" "cp_track ps = Some (uri, md)" "get_str md ''artist_name'' = []"
    and "id_panics (spotify_id_from_uri uri)" "uri \<noteq> []"
  shows "ob_crashed (update_remote_state synced now now_ms cl p)"
proof -
  obtain rs0 where rs0: "cluster_to_remote_state now now_ms (Some cl) = Some rs0"
    using cluster_to_remote_state_Some [OF assms(1), of now now_ms] by blast
  have f: "rs_track_uri rs0 = uri" "rs_raw_metadata rs0 = md"
    using cluster_state_fields(1,3) [OF rs0 assms(1)] assms(2) by simp_all
  from refl [of "update_remote_state synced now now_ms cl p"] rs0 show ?thesis
  proof (cases rule: update_remote_state_cases)
    case (updated rs4 rs p4 p5)
    then show ?thesis
      using f assms(3-5) by (simp add: same_track_def track_is_sparse_def meta_incomplete_def)
  qed
qed

subsection \<open>Witnesses\<close>

lemma sample_uri_readable:
  "spotify_id_from_uri sample_uri = Return \<lparr>sid_typ = ''track'', sid_id = be_bytes 16 0\<rparr>"
proof -
  have Z: "digit62_val (CHR ''0'') = Some 0" by (simp add: digit62_val_def alphabet62_def)
  have "uri_match sample_uri = Some (''track'', ''0000000000000000000000'')"
    using uri_match_build [of "''track''" "''0000000000000000000000''"]
    by (simp add: is_lower_def Z sample_uri_def)
  then obtain n where n: "set_string62 ''0000000000000000000000'' = Some n"
    and r: "spotify_id_from_uri sample_uri =
      (if n < 256 ^ 16 then Return \<lparr>sid_typ = ''track'', sid_id = be_bytes 16 n\<rparr>
       else Panic ''math/big: buffer too small'')"
    by (rule spotify_id_from_uri_match)
  have "set_string62 ''0000000000000000000000'' = Some 0"
    by (simp add: set_string62_def Z)
  with n r show ?thesis by simp
qed

lemma sample_observed:
  "\<exists>rs. ob_remote (handle_cluster ''me'' False True 5 5 (Some (sample_cluster sample_uri sample_metadata)) p) = Some rs \<and>
     rs_device_id rs = ''tv'' \<and> rs_track_uri rs = sample_uri"
  using handle_cluster_outcome [of _ "''me''" False True 5 5 "sample_cluster sample_uri sample_metadata" p
      "Some (sample_uri, sample_metadata)" sample_uri, OF refl]
  by (auto simp: sample_cluster_def sample_player_def sample_uri_readable)

lemma ui_mirrors_observer_witness:
  "ui_state (ob_events (observer_run ''me'' [ObCluster False True 5 5 (Some (sample_cluster sample_uri sample_metadata))])) \<noteq> None"
proof -
  have "ob_remote (observer_run ''me'' [ObCluster False True 5 5 (Some (sample_cluster sample_uri sample_metadata))]) \<noteq> None"
    using sample_observed [of new_observer] by (auto simp: observer_run_def observer_step_def new_observer_def)
  then show ?thesis
    using ui_mirrors_observer [of _ "''me''" "[ObCluster False True 5 5 (Some (sample_cluster sample_uri sample_metadata))]", OF refl]
    by (auto split: option.splits)
qed

lemma track_metadata_survives_witness:
  "case ob_remote (foldl (observer_step ''me'') (new_observer\<lparr>ob_remote := Some (zero_remote\<lparr>rs_track_uri := sample_uri, rs_track_image := ''i''\<rparr>)\<rparr>)
       [ObCluster False True 5 5 (Some (sample_cluster sample_uri sample_metadata))]) of
     Some rs \<Rightarrow> rs_track_image rs \<noteq> [] | None \<Rightarrow> False"
proof -
  define p where "p = new_observer\<lparr>ob_remote := Some (zero_remote\<lparr>rs_track_uri := sample_uri, rs_track_image := ''i''\<rparr>)\<rparr>"
  let ?es = "[ObCluster False True 5 5 (Some (sample_cluster sample_uri sample_metadata))]"
  obtain rs where rs: "ob_remote (foldl (observer_step ''me'') p ?es) = Some rs" "rs_track_uri rs = sample_uri"
    using sample_observed [of p] by (auto simp: observer_step_def p_def new_observer_def)
  have "\<exists>rs. ob_remote (foldl (observer_step ''me'') p (take n ?es)) = Some rs \<and> rs_track_uri rs = sample_uri"
    if "n \<le> length ?es" for n
    using that rs by (cases n) (auto simp: p_def)
  moreover have "id_readable (spotify_id_from_uri sample_uri)" "sample_uri \<noteq> []"
    by (simp add: sample_uri_readable) (simp add: sample_uri_def)
  moreover have "ob_remote p = Some (zero_remote\<lparr>rs_track_uri := sample_uri, rs_track_image := ''i''\<rparr>)"
    by (simp add: p_def)
  ultimately have "rs_track_image (zero_remote\<lparr>rs_track_uri := sample_uri, rs_track_image := ''i''\<rparr>) \<noteq> [] \<longrightarrow> rs_track_image rs \<noteq> []"
    using track_metadata_survives [where uri = sample_uri and es = ?es and own = "''me''" and p = p] rs(1) by blast
  then have "rs_track_image rs \<noteq> []" by simp
  with rs show ?thesis by (simp add: p_def)
qed

lemma handle_cluster_decides_witness:
  "\<exists>rs. ob_remote (handle_cluster ''me'' False True 5 5 (Some (sample_cluster sample_uri sample_metadata)) new_observer) = Some rs \<and>
     ob_events (handle_cluster ''me'' False True 5 5 (Some (sample_cluster sample_uri sample_metadata)) new_observer) = [TrackChanged rs]"
  using handle_cluster_decides [of _ "''me''" False True 5 5 "sample_cluster sample_uri sample_metadata" new_observer
      "Some (sample_uri, sample_metadata)" sample_uri, OF refl]
  by (auto simp: sample_cluster_def sample_player_def sample_uri_readable new_observer_def)

end
