(* ===== verification/PlayerRegister.thy ===== *)
theory PlayerRegister
  imports PlayerCluster Dealer Accesspoint
begin

text \<open>
  How the daemon becomes and stays a member of the account's devices (\<open>daemon/player.go\<close>): each
  connection id that the dealer pushes starts a goroutine that registers it until that succeeded or
  the id was superseded, a heartbeat repeats the registration, and the answers carry snapshots of
  the cluster to the run loop through a channel of one place.

  A goroutine is known by the generation of its connection id. Its check of the generation and what
  it does after it are separate steps, as in the code, where nothing holds the two together; what is
  put to the server and what is forced on the dealer is logged in the state.
\<close>

subsection \<open>The state\<close>

datatype register_place =
  RegPausing instant
| RegPutting
| RegLanded "cluster option"
| RegStoring "cluster option"

record register_task =
  rt_conn :: string
  rt_attempt :: nat
  rt_place :: register_place

datatype heartbeat_place =
  HbPutting
| HbPausing instant
| HbGivingUp

record heartbeat =
  hb_conn :: string
  hb_gen :: nat
  hb_attempt :: nat
  hb_place :: heartbeat_place

record registrar =
  rg_conn :: string
  rg_has_conn :: bool
  rg_gen :: nat
  rg_registered :: bool
  rg_tasks :: "nat \<Rightarrow> register_task option"
  rg_heartbeat :: "heartbeat option"
  rg_current :: bool
  rg_inbox :: "cluster list"
  rg_initial :: bool
  rg_country :: string
  rg_has_country :: bool
  rg_products :: "nat option"
  rg_ready :: bool
  rg_announced :: nat
  rg_puts :: "(nat \<times> string) list"
  rg_beats :: "(nat \<times> string) list"
  rg_landed :: "nat list"
  rg_forced :: nat

definition new_registrar :: registrar where
  "new_registrar = \<lparr>rg_conn = [], rg_has_conn = False, rg_gen = 0, rg_registered = False,
     rg_tasks = Map.empty, rg_heartbeat = None, rg_current = True, rg_inbox = [], rg_initial = False,
     rg_country = [], rg_has_country = False, rg_products = None, rg_ready = False, rg_announced = 0,
     rg_puts = [], rg_beats = [], rg_landed = [], rg_forced = 0\<rparr>"

subsection \<open>The snapshots for the run loop\<close>

definition cluster_ch_size :: nat where "cluster_ch_size = 1"

definition offer_cluster :: "cluster \<Rightarrow> cluster list \<Rightarrow> cluster list option" where
  "offer_cluster c q = (if length q < cluster_ch_size then Some (q @ [c]) else None)"

text \<open>A full channel gives up its old snapshot for the new one.\<close>

definition inject_cluster :: "cluster option \<Rightarrow> registrar \<Rightarrow> registrar" where
  "inject_cluster c r =
     (case c of
        None \<Rightarrow> r
      | Some cl \<Rightarrow>
          r\<lparr>rg_inbox :=
              (case offer_cluster cl (rg_inbox r) of
                 Some q \<Rightarrow> q
               | None \<Rightarrow>
                   let q = drop 1 (rg_inbox r)
                   in case offer_cluster cl q of Some q' \<Rightarrow> q' | None \<Rightarrow> q)\<rparr>)"

definition take_cluster :: "registrar \<Rightarrow> cluster option \<times> registrar" where
  "take_cluster r =
     (case rg_inbox r of [] \<Rightarrow> (None, r) | c # q \<Rightarrow> (Some c, r\<lparr>rg_inbox := q\<rparr>))"

subsection \<open>Ready to play\<close>

definition notify_ready :: "registrar \<Rightarrow> registrar" where
  "notify_ready r =
     (if \<not> rg_has_conn r \<or> \<not> rg_initial r \<or> \<not> rg_has_country r then r
      else if rg_ready r then r
      else r\<lparr>rg_ready := True, rg_announced := Suc (rg_announced r)\<rparr>)"

text \<open>The packets of the access point. \<open>products\<close> is the number of products that the XML document of a
  payload lists, if it is one.\<close>

definition packet_product_info :: byte where "packet_product_info = 0x50"

definition packet_country_code :: byte where "packet_country_code = 0x1b"

definition byte_text :: "byte list \<Rightarrow> string" where
  "byte_text bs = map (\<lambda>b. char_of (unat b)) bs"

definition handle_ap_packet :: "(byte list \<Rightarrow> nat option) \<Rightarrow> packet \<Rightarrow> registrar \<Rightarrow> unit outcome \<times> registrar" where
  "handle_ap_packet products pkt r =
     (if fst pkt = packet_product_info then
        (case products (snd pkt) of
           None \<Rightarrow> (Fail ''failed umarshalling ProductInfo'', r)
         | Some n \<Rightarrow>
             if n \<noteq> 1 then (Fail ''invalid ProductInfo'', r)
             else (Return (), r\<lparr>rg_products := Some n\<rparr>))
      else if fst pkt = packet_country_code then
        (Return (), notify_ready (r\<lparr>rg_country := byte_text (snd pkt), rg_has_country := True\<rparr>))
      else (Return (), r))"

subsection \<open>Registration\<close>

definition register_waits :: "duration list" where
  "register_waits = [0, seconds 1, seconds 2, seconds 4, seconds 8, seconds 15]"

definition register_slow_retry :: duration where "register_slow_retry = seconds 30"

definition register_wait :: "nat \<Rightarrow> duration" where
  "register_wait attempt =
     (if attempt < length register_waits then register_waits ! attempt else register_slow_retry)"

text \<open>A connection id. \<open>hs\<close> are the headers of its message; a missing header is an empty id, which is
  registered all the same.\<close>

definition connection_id :: "instant \<Rightarrow> headers \<Rightarrow> registrar \<Rightarrow> registrar" where
  "connection_id now hs r =
     (let c = get_str (map_of hs) ''Spotify-Connection-Id'';
          g = Suc (rg_gen r)
      in notify_ready (r\<lparr>rg_conn := c, rg_has_conn := (c \<noteq> []), rg_registered := False, rg_gen := g,
           rg_tasks := (rg_tasks r)(g \<mapsto> \<lparr>rt_conn = c, rt_attempt = 0, rt_place = RegPausing (now + register_wait 0)\<rparr>),
           rg_initial := True\<rparr>))"

definition set_place :: "nat \<Rightarrow> register_task \<Rightarrow> register_place \<Rightarrow> registrar \<Rightarrow> registrar" where
  "set_place g t pl r = r\<lparr>rg_tasks := (rg_tasks r)(g \<mapsto> t\<lparr>rt_place := pl\<rparr>)\<rparr>"

definition end_task :: "nat \<Rightarrow> registrar \<Rightarrow> registrar" where
  "end_task g r = r\<lparr>rg_tasks := (rg_tasks r)(g := None)\<rparr>"

definition register_wake :: "instant \<Rightarrow> nat \<Rightarrow> registrar \<Rightarrow> registrar" where
  "register_wake now g r =
     (case rg_tasks r g of
        None \<Rightarrow> r
      | Some t \<Rightarrow>
          (case rt_place t of
             RegPausing due \<Rightarrow>
               if now < due then r
               else if rg_gen r \<noteq> g \<or> \<not> rg_current r then end_task g r
               else (set_place g t RegPutting r)\<lparr>rg_puts := rg_puts r @ [(g, rt_conn t)]\<rparr>
           | _ \<Rightarrow> r))"

text \<open>The put is answered, by an error or a cluster.\<close>

definition register_answer :: "instant \<Rightarrow> nat \<Rightarrow> cluster option option \<Rightarrow> registrar \<Rightarrow> registrar" where
  "register_answer now g answer r =
     (case rg_tasks r g of
        None \<Rightarrow> r
      | Some t \<Rightarrow>
          (case rt_place t of
             RegPutting \<Rightarrow>
               (case answer of
                  Some c \<Rightarrow> (set_place g t (RegLanded c) r)\<lparr>rg_landed := rg_landed r @ [g]\<rparr>
                | None \<Rightarrow>
                    let n = Suc (rt_attempt t)
                    in set_place g (t\<lparr>rt_attempt := n\<rparr>) (RegPausing (now + register_wait n)) r)
           | _ \<Rightarrow> r))"

definition register_check :: "nat \<Rightarrow> registrar \<Rightarrow> registrar" where
  "register_check g r =
     (case rg_tasks r g of
        None \<Rightarrow> r
      | Some t \<Rightarrow>
          (case rt_place t of
             RegLanded c \<Rightarrow> if rg_gen r = g then set_place g t (RegStoring c) r else end_task g r
           | _ \<Rightarrow> r))"

definition register_store :: "nat \<Rightarrow> registrar \<Rightarrow> registrar" where
  "register_store g r =
     (case rg_tasks r g of
        None \<Rightarrow> r
      | Some t \<Rightarrow>
          (case rt_place t of
             RegStoring c \<Rightarrow> end_task g (inject_cluster c (r\<lparr>rg_registered := True\<rparr>))
           | _ \<Rightarrow> r))"

subsection \<open>The heartbeat\<close>

definition connect_state_heartbeat_interval :: duration where
  "connect_state_heartbeat_interval = minutes 4"

definition heartbeat_retry :: duration where "heartbeat_retry = seconds 5"

definition heartbeat_tick :: "registrar \<Rightarrow> registrar" where
  "heartbeat_tick r =
     (if \<not> rg_has_conn r \<or> \<not> rg_registered r then r
      else if rg_heartbeat r \<noteq> None then r
      else r\<lparr>rg_heartbeat := Some \<lparr>hb_conn = rg_conn r, hb_gen = rg_gen r, hb_attempt = 1, hb_place = HbPutting\<rparr>,
             rg_beats := rg_beats r @ [(rg_gen r, rg_conn r)]\<rparr>)"

definition heartbeat_answer :: "instant \<Rightarrow> cluster option option \<Rightarrow> registrar \<Rightarrow> registrar" where
  "heartbeat_answer now answer r =
     (case rg_heartbeat r of
        None \<Rightarrow> r
      | Some h \<Rightarrow>
          if hb_place h \<noteq> HbPutting then r
          else case answer of
                 Some c \<Rightarrow>
                   (if rg_gen r = hb_gen h then inject_cluster c r else r)\<lparr>rg_heartbeat := None\<rparr>
               | None \<Rightarrow>
                   if rg_gen r \<noteq> hb_gen h \<or> \<not> rg_current r then r\<lparr>rg_heartbeat := None\<rparr>
                   else if hb_attempt h = 1
                   then r\<lparr>rg_heartbeat := Some (h\<lparr>hb_place := HbPausing (now + heartbeat_retry)\<rparr>)\<rparr>
                   else r\<lparr>rg_heartbeat := Some (h\<lparr>hb_place := HbGivingUp\<rparr>)\<rparr>)"

text \<open>The second attempt does not look at the generation again.\<close>

definition heartbeat_wake :: "instant \<Rightarrow> registrar \<Rightarrow> registrar" where
  "heartbeat_wake now r =
     (case rg_heartbeat r of
        None \<Rightarrow> r
      | Some h \<Rightarrow>
          (case hb_place h of
             HbPausing due \<Rightarrow>
               if now < due then r
               else r\<lparr>rg_heartbeat := Some (h\<lparr>hb_attempt := Suc (hb_attempt h), hb_place := HbPutting\<rparr>),
                      rg_beats := rg_beats r @ [(hb_gen h, hb_conn h)]\<rparr>
           | _ \<Rightarrow> r))"

definition heartbeat_give_up :: "registrar \<Rightarrow> registrar" where
  "heartbeat_give_up r =
     (case rg_heartbeat r of
        None \<Rightarrow> r
      | Some h \<Rightarrow>
          if hb_place h \<noteq> HbGivingUp then r
          else r\<lparr>rg_registered := False, rg_forced := Suc (rg_forced r), rg_heartbeat := None\<rparr>)"

text \<open>Another player took over the account.\<close>

definition lose_player :: "registrar \<Rightarrow> registrar" where
  "lose_player r = r\<lparr>rg_current := False\<rparr>"

subsection \<open>Events\<close>

datatype register_event =
  ConnectionId instant headers
| RegisterWake instant nat
| RegisterAnswer instant nat "cluster option option"
| RegisterCheck nat
| RegisterStore nat
| HeartbeatTick
| HeartbeatAnswer instant "cluster option option"
| HeartbeatWake instant
| HeartbeatGiveUp
| TakeCluster
| ApPacket packet
| LosePlayer

fun register_step :: "(byte list \<Rightarrow> nat option) \<Rightarrow> registrar \<Rightarrow> register_event \<Rightarrow> registrar" where
  "register_step products r (ConnectionId now hs) = connection_id now hs r"
| "register_step products r (RegisterWake now g) = register_wake now g r"
| "register_step products r (RegisterAnswer now g answer) = register_answer now g answer r"
| "register_step products r (RegisterCheck g) = register_check g r"
| "register_step products r (RegisterStore g) = register_store g r"
| "register_step products r HeartbeatTick = heartbeat_tick r"
| "register_step products r (HeartbeatAnswer now answer) = heartbeat_answer now answer r"
| "register_step products r (HeartbeatWake now) = heartbeat_wake now r"
| "register_step products r HeartbeatGiveUp = heartbeat_give_up r"
| "register_step products r TakeCluster = snd (take_cluster r)"
| "register_step products r (ApPacket pkt) = snd (handle_ap_packet products pkt r)"
| "register_step products r LosePlayer = lose_player r"

definition register_run :: "(byte list \<Rightarrow> nat option) \<Rightarrow> register_event list \<Rightarrow> registrar" where
  "register_run products es = foldl (register_step products) new_registrar es"

subsection \<open>The invariant of every run\<close>

fun place_landed :: "register_place \<Rightarrow> bool" where
  "place_landed (RegPausing due) = False"
| "place_landed RegPutting = False"
| "place_landed (RegLanded c) = True"
| "place_landed (RegStoring c) = True"

text \<open>The parts are stated on the fields they are about.\<close>

definition tasks_ok :: "(nat \<Rightarrow> register_task option) \<Rightarrow> nat \<Rightarrow> nat list \<Rightarrow> bool" where
  "tasks_ok tasks gen landed \<longleftrightarrow>
     (\<forall>g t. tasks g = Some t \<longrightarrow> 0 < g \<and> g \<le> gen \<and> (place_landed (rt_place t) \<longrightarrow> g \<in> set landed))"

definition pursued :: "(nat \<Rightarrow> register_task option) \<Rightarrow> nat \<Rightarrow> nat list \<Rightarrow> bool \<Rightarrow> bool" where
  "pursued tasks gen landed current \<longleftrightarrow>
     (current \<and> 0 < gen \<longrightarrow> tasks gen \<noteq> None \<or> gen \<in> set landed)"

definition puts_ok :: "(nat \<times> string) list \<Rightarrow> nat \<Rightarrow> bool" where
  "puts_ok puts gen \<longleftrightarrow> sorted (map fst puts) \<and> (\<forall>p \<in> set puts. fst p \<le> gen)"

definition ready_ok :: "nat \<Rightarrow> bool \<Rightarrow> bool \<Rightarrow> bool \<Rightarrow> bool \<Rightarrow> bool" where
  "ready_ok announced ready conn initial country \<longleftrightarrow>
     announced = (if ready then 1 else 0) \<and> (conn \<and> initial \<and> country \<longrightarrow> ready) \<and>
     (ready \<longrightarrow> initial \<and> country)"

definition registrar_ok :: "registrar \<Rightarrow> bool" where
  "registrar_ok r \<longleftrightarrow>
     tasks_ok (rg_tasks r) (rg_gen r) (rg_landed r) \<and>
     pursued (rg_tasks r) (rg_gen r) (rg_landed r) (rg_current r) \<and>
     puts_ok (rg_puts r) (rg_gen r) \<and> length (rg_inbox r) \<le> 1 \<and>
     (rg_registered r \<longrightarrow> rg_landed r \<noteq> []) \<and>
     ready_ok (rg_announced r) (rg_ready r) (rg_has_conn r) (rg_initial r) (rg_has_country r)"

lemma inject_inbox:
  "length (rg_inbox r) \<le> 1 \<Longrightarrow>
     inject_cluster c r = (case c of None \<Rightarrow> r | Some cl \<Rightarrow> r\<lparr>rg_inbox := [cl]\<rparr>)"
  by (cases "rg_inbox r") (simp_all add: inject_cluster_def offer_cluster_def cluster_ch_size_def split: option.split)

lemma inject_ok: "registrar_ok r \<Longrightarrow> registrar_ok (inject_cluster c r)"
  by (cases c) (simp_all add: registrar_ok_def inject_inbox)

lemma inject_fields [simp]:
  "rg_tasks (inject_cluster c r) = rg_tasks r" "rg_gen (inject_cluster c r) = rg_gen r"
  "rg_landed (inject_cluster c r) = rg_landed r" "rg_current (inject_cluster c r) = rg_current r"
  by (simp_all add: inject_cluster_def split: option.split)

lemma notify_ready_ok:
  assumes "rg_announced r = (if rg_ready r then 1 else 0)" "rg_ready r \<longrightarrow> rg_initial r \<and> rg_has_country r"
    and "tasks_ok (rg_tasks r) (rg_gen r) (rg_landed r)"
    and "pursued (rg_tasks r) (rg_gen r) (rg_landed r) (rg_current r)"
    and "puts_ok (rg_puts r) (rg_gen r)" "length (rg_inbox r) \<le> 1" "rg_registered r \<longrightarrow> rg_landed r \<noteq> []"
  shows "registrar_ok (notify_ready r)"
  using assms by (simp add: registrar_ok_def notify_ready_def) (auto simp: ready_ok_def)

lemma tasks_ok_upd:
  "tasks_ok tasks gen landed \<Longrightarrow> 0 < g \<Longrightarrow> g \<le> gen \<Longrightarrow> place_landed (rt_place t) \<longrightarrow> g \<in> set landed \<Longrightarrow>
     tasks_ok (tasks(g \<mapsto> t)) gen landed"
  "tasks_ok tasks gen landed \<Longrightarrow> tasks_ok (tasks(g := None)) gen landed"
  "tasks_ok tasks gen landed \<Longrightarrow> tasks_ok tasks (Suc gen) landed"
  "tasks_ok tasks gen landed \<Longrightarrow> tasks_ok tasks gen (landed @ [g])"
  by (simp add: tasks_ok_def, simp add: tasks_ok_def, fastforce simp: tasks_ok_def, fastforce simp: tasks_ok_def)

lemma tasks_okD: "tasks_ok tasks gen landed \<Longrightarrow> tasks g = Some t \<Longrightarrow> 0 < g \<and> g \<le> gen \<and>
    (place_landed (rt_place t) \<longrightarrow> g \<in> set landed)"
  by (simp add: tasks_ok_def)

lemma registrar_okD:
  assumes "registrar_ok r"
  shows "tasks_ok (rg_tasks r) (rg_gen r) (rg_landed r)"
    and "pursued (rg_tasks r) (rg_gen r) (rg_landed r) (rg_current r)"
    and "puts_ok (rg_puts r) (rg_gen r)" and "length (rg_inbox r) \<le> 1"
    and "rg_registered r \<longrightarrow> rg_landed r \<noteq> []"
    and "ready_ok (rg_announced r) (rg_ready r) (rg_has_conn r) (rg_initial r) (rg_has_country r)"
  using assms by (simp_all add: registrar_ok_def)

lemma ready_okD:
  assumes "ready_ok announced ready conn initial country"
  shows "announced = (if ready then 1 else 0)" and "ready \<longrightarrow> initial \<and> country"
    and "ready \<longrightarrow> True \<and> country" and "ready \<longrightarrow> initial \<and> True"
  using assms unfolding ready_ok_def by blast+

lemma connection_id_ok:
  assumes "registrar_ok r"
  shows "registrar_ok (connection_id now hs r)"
proof -
  define r1 where "r1 = r\<lparr>rg_conn := get_str (map_of hs) ''Spotify-Connection-Id'',
      rg_has_conn := (get_str (map_of hs) ''Spotify-Connection-Id'' \<noteq> []), rg_registered := False, rg_gen := Suc (rg_gen r),
      rg_tasks := (rg_tasks r)(Suc (rg_gen r) \<mapsto> \<lparr>rt_conn = get_str (map_of hs) ''Spotify-Connection-Id'', rt_attempt = 0,
        rt_place = RegPausing (now + register_wait 0)\<rparr>),
      rg_initial := True\<rparr>"
  have f: "rg_announced r1 = rg_announced r" "rg_ready r1 = rg_ready r" "rg_initial r1" "rg_has_country r1 = rg_has_country r"
    "rg_gen r1 = Suc (rg_gen r)" "rg_landed r1 = rg_landed r" "rg_puts r1 = rg_puts r" "rg_inbox r1 = rg_inbox r"
    "\<not> rg_registered r1" "rg_tasks r1 (Suc (rg_gen r)) \<noteq> None"
    by (simp_all add: r1_def)
  have "tasks_ok (rg_tasks r1) (rg_gen r1) (rg_landed r1)"
    using registrar_okD(1) [OF assms] by (simp add: r1_def tasks_ok_upd)
  moreover have "puts_ok (rg_puts r1) (rg_gen r1)"
    using registrar_okD(3) [OF assms] f by (auto simp: puts_ok_def)
  moreover have "pursued (rg_tasks r1) (rg_gen r1) (rg_landed r1) (rg_current r1)"
    using f by (simp add: pursued_def)
  moreover have "rg_announced r1 = (if rg_ready r1 then 1 else 0)" "rg_ready r1 \<longrightarrow> rg_initial r1 \<and> rg_has_country r1"
    using ready_okD [OF registrar_okD(6) [OF assms]] f by (simp_all only:)
  ultimately have "registrar_ok (notify_ready r1)"
    using registrar_okD(4) [OF assms] f by (intro notify_ready_ok) simp_all
  then show ?thesis by (simp add: connection_id_def Let_def r1_def)
qed

lemma set_place_ok:
  assumes "registrar_ok r" "rg_tasks r g = Some t0" "place_landed pl \<longrightarrow> g \<in> set (rg_landed r)"
  shows "registrar_ok (set_place g t pl r)"
  using assms tasks_okD [of "rg_tasks r" "rg_gen r" "rg_landed r" g t0]
  by (simp add: registrar_ok_def set_place_def tasks_ok_upd pursued_def)

lemma end_task_ok:
  assumes "registrar_ok r" "rg_gen r \<noteq> g \<or> \<not> rg_current r \<or> g \<in> set (rg_landed r)"
  shows "registrar_ok (end_task g r)"
proof -
  have "pursued ((rg_tasks r)(g := None)) (rg_gen r) (rg_landed r) (rg_current r)"
    using registrar_okD(2) [OF assms(1)] assms(2) by (auto simp: pursued_def)
  with assms(1) show ?thesis by (simp add: registrar_ok_def end_task_def tasks_ok_upd)
qed

lemma register_wake_ok:
  assumes "registrar_ok r"
  shows "registrar_ok (register_wake now g r)"
proof -
  { fix t assume t: "rg_tasks r g = Some t" and g: "rg_gen r = g"
    have "registrar_ok (set_place g t RegPutting r)" using assms t by (simp add: set_place_ok)
    then have "registrar_ok ((set_place g t RegPutting r)\<lparr>rg_puts := rg_puts r @ [(g, rt_conn t)]\<rparr>)"
      using g by (auto simp: registrar_ok_def set_place_def puts_ok_def sorted_append) }
  then show ?thesis
    using assms end_task_ok [OF assms, of g]
    by (auto simp: register_wake_def split: option.split register_place.split)
qed

lemma register_answer_ok:
  assumes "registrar_ok r"
  shows "registrar_ok (register_answer now g answer r)"
proof -
  { fix t c assume t: "rg_tasks r g = Some t"
    have "pursued (rg_tasks r) (rg_gen r) (rg_landed r @ [g]) (rg_current r)"
      using registrar_okD(2) [OF assms] by (auto simp: pursued_def)
    then have "registrar_ok (r\<lparr>rg_landed := rg_landed r @ [g]\<rparr>)"
      using assms by (simp add: registrar_ok_def tasks_ok_upd)
    from set_place_ok [OF this, of g t "RegLanded c" t] t
    have "registrar_ok ((set_place g t (RegLanded c) r)\<lparr>rg_landed := rg_landed r @ [g]\<rparr>)"
      by (simp add: set_place_def registrar_ok_def) }
  then show ?thesis
    using assms by (simp add: register_answer_def set_place_ok Let_def split: option.split register_place.split)
qed

lemma register_check_ok:
  assumes "registrar_ok r"
  shows "registrar_ok (register_check g r)"
proof -
  have "g \<in> set (rg_landed r)" if "rg_tasks r g = Some t" "rt_place t = RegLanded c" for t c
    using assms that tasks_okD [of "rg_tasks r" "rg_gen r" "rg_landed r" g t] by (simp add: registrar_ok_def)
  then show ?thesis
    using assms by (simp add: register_check_def set_place_ok end_task_ok split: option.split register_place.split)
qed

lemma register_store_ok:
  assumes "registrar_ok r"
  shows "registrar_ok (register_store g r)"
proof -
  { fix t c assume t: "rg_tasks r g = Some t" "rt_place t = RegStoring c"
    have g: "g \<in> set (rg_landed r)"
      using assms t tasks_okD [of "rg_tasks r" "rg_gen r" "rg_landed r" g t] by (simp add: registrar_ok_def)
    then have "registrar_ok (r\<lparr>rg_registered := True\<rparr>)"
      using assms by (auto simp: registrar_ok_def)
    then have "registrar_ok (end_task g (inject_cluster c (r\<lparr>rg_registered := True\<rparr>)))"
      using g by (simp add: end_task_ok inject_ok) }
  then show ?thesis
    using assms by (simp add: register_store_def split: option.split register_place.split)
qed

lemma heartbeat_update_ok [simp]: "registrar_ok (r\<lparr>rg_heartbeat := h\<rparr>) = registrar_ok r"
  "registrar_ok (r\<lparr>rg_heartbeat := h, rg_beats := bs\<rparr>) = registrar_ok r"
  by (simp_all add: registrar_ok_def)

lemma heartbeat_ok:
  assumes "registrar_ok r"
  shows "registrar_ok (heartbeat_tick r)" "registrar_ok (heartbeat_answer now answer r)"
    "registrar_ok (heartbeat_wake now r)" "registrar_ok (heartbeat_give_up r)"
  using assms inject_ok [OF assms]
  by (simp add: heartbeat_tick_def,
      simp add: heartbeat_answer_def split: option.split,
      simp add: heartbeat_wake_def split: option.split heartbeat_place.split,
      simp add: heartbeat_give_up_def registrar_ok_def split: option.split)

lemma ap_packet_ok:
  assumes "registrar_ok r"
  shows "registrar_ok (snd (handle_ap_packet products pkt r))"
proof -
  have n: "registrar_ok (r\<lparr>rg_products := n\<rparr>)" for n
    using assms by (simp add: registrar_ok_def)
  have c: "registrar_ok (notify_ready (r\<lparr>rg_country := c, rg_has_country := True\<rparr>))" for c
  proof -
    define r1 where "r1 = r\<lparr>rg_country := c, rg_has_country := True\<rparr>"
    have f: "rg_announced r1 = rg_announced r" "rg_ready r1 = rg_ready r" "rg_initial r1 = rg_initial r" "rg_has_country r1"
      "rg_gen r1 = rg_gen r" "rg_landed r1 = rg_landed r" "rg_puts r1 = rg_puts r" "rg_inbox r1 = rg_inbox r"
      "rg_registered r1 = rg_registered r" "rg_tasks r1 = rg_tasks r" "rg_current r1 = rg_current r"
      by (simp_all add: r1_def)
    have "registrar_ok (notify_ready r1)"
      using registrar_okD(1-5) [OF assms] ready_okD(1,3) [OF registrar_okD(6) [OF assms]]
        ready_okD(2) [OF registrar_okD(6) [OF assms]]
      by (intro notify_ready_ok) (simp_all only: f, blast?)
    then show ?thesis by (simp only: r1_def)
  qed
  show ?thesis
    using assms n c by (auto simp: handle_ap_packet_def split: option.split)
qed

lemma register_step_ok:
  assumes "registrar_ok r"
  shows "registrar_ok (register_step products r e)"
proof (cases e)
  case TakeCluster
  with assms show ?thesis by (auto simp: take_cluster_def registrar_ok_def split: list.split)
next
  case LosePlayer
  with assms show ?thesis by (simp add: lose_player_def registrar_ok_def pursued_def)
qed (simp_all add: assms connection_id_ok register_wake_ok register_answer_ok register_check_ok
  register_store_ok heartbeat_ok ap_packet_ok)

interpretation registration: invariant_machine "register_step products" registrar_ok for products
  by unfold_locales (rule register_step_ok)

lemma register_run_ok: "registrar_ok (register_run products es)"
  unfolding register_run_def
  by (rule registration.run_inv)
    (simp add: new_registrar_def registrar_ok_def tasks_ok_def pursued_def puts_ok_def ready_ok_def)

lemma playback_ready_once:
  assumes "r = register_run products es"
  shows "rg_announced r = (if rg_ready r then 1 else 0)"
    and "rg_has_conn r \<Longrightarrow> rg_initial r \<Longrightarrow> rg_has_country r \<Longrightarrow> rg_ready r"
    and "rg_ready r \<Longrightarrow> rg_initial r \<and> rg_has_country r"
  using registrar_okD(6) [OF register_run_ok [of products es]] unfolding assms ready_ok_def by blast+

subsection \<open>A registration gets through\<close>

text \<open>The rounds of generation \<open>g\<close>: \<open>n\<close> puts that fail, each after its pause, and one that is answered.\<close>

fun register_rounds :: "instant \<Rightarrow> nat \<Rightarrow> nat \<Rightarrow> nat \<Rightarrow> cluster option \<Rightarrow> register_event list" where
  "register_rounds t g a 0 c = [RegisterWake t g, RegisterAnswer t g (Some c), RegisterCheck g, RegisterStore g]"
| "register_rounds t g a (Suc n) c =
     RegisterWake t g # RegisterAnswer t g None # register_rounds (t + register_wait (Suc a)) g (Suc a) n c"

lemma register_wait_bounds: "0 \<le> register_wait n" "register_wait n \<le> register_slow_retry"
proof -
  have "\<forall>i \<in> {0..<6}. 0 \<le> register_waits ! i \<and> register_waits ! i \<le> register_slow_retry"
    by (simp add: register_waits_def register_slow_retry_def atLeastLessThan_nat_numeral)
  then show "0 \<le> register_wait n" "register_wait n \<le> register_slow_retry"
    by (auto simp: register_wait_def register_waits_def register_slow_retry_def)
qed

lemma wake_puts:
  assumes "rg_tasks r g = Some task" "rt_place task = RegPausing due" "due \<le> t" "rg_gen r = g" "rg_current r"
  shows "register_wake t g r = (set_place g task RegPutting r)\<lparr>rg_puts := rg_puts r @ [(g, rt_conn task)]\<rparr>"
  using assms by (simp add: register_wake_def)

lemma put_fails:
  assumes "rg_tasks r g = Some task" "rt_place task = RegPausing due" "due \<le> t" "rg_gen r = g" "rg_current r"
  defines "r1 \<equiv> register_answer t g None (register_wake t g r)"
  shows "rg_tasks r1 g = Some (task\<lparr>rt_attempt := Suc (rt_attempt task),
           rt_place := RegPausing (t + register_wait (Suc (rt_attempt task)))\<rparr>)"
    and "rg_gen r1 = rg_gen r" "rg_current r1" "rg_inbox r1 = rg_inbox r"
    and "rg_puts r1 = rg_puts r @ [(g, rt_conn task)]" "rg_landed r1 = rg_landed r"
  using assms(5) unfolding r1_def wake_puts [OF assms(1-5)]
  by (simp_all add: register_answer_def set_place_def Let_def)

lemma put_lands:
  fixes c :: "cluster option"
  assumes "rg_tasks r g = Some task" "rt_place task = RegPausing due" "due \<le> t" "rg_gen r = g" "rg_current r"
  defines "r1 \<equiv> register_store g (register_check g (register_answer t g (Some c) (register_wake t g r)))"
  shows "rg_registered r1" and "rg_tasks r1 g = None" and "rg_landed r1 = rg_landed r @ [g]"
    and "rg_puts r1 = rg_puts r @ [(g, rt_conn task)]"
    and "length (rg_inbox r) \<le> 1 \<Longrightarrow> rg_inbox r1 = (case c of None \<Rightarrow> rg_inbox r | Some cl \<Rightarrow> [cl])"
proof -
  have c: "register_check g (register_answer t g (Some c) (register_wake t g r)) =
      (set_place g task (RegStoring c) r)\<lparr>rg_puts := rg_puts r @ [(g, rt_conn task)], rg_landed := rg_landed r @ [g]\<rparr>"
    using assms(4) unfolding wake_puts [OF assms(1-5)]
    by (simp add: register_answer_def register_check_def set_place_def)
  show "rg_registered r1" "rg_tasks r1 g = None" "rg_landed r1 = rg_landed r @ [g]"
    "rg_puts r1 = rg_puts r @ [(g, rt_conn task)]"
    "length (rg_inbox r) \<le> 1 \<Longrightarrow> rg_inbox r1 = (case c of None \<Rightarrow> rg_inbox r | Some cl \<Rightarrow> [cl])"
    unfolding r1_def c
    by (simp_all add: register_store_def set_place_def end_task_def inject_cluster_def offer_cluster_def
      cluster_ch_size_def Let_def split: option.split)
qed

lemma rounds_land:
  assumes "rg_tasks r g = Some task" "rt_place task = RegPausing due" "due \<le> t" "rg_gen r = g" "rg_current r"
    and "length (rg_inbox r) \<le> 1"
    and "r' = foldl (register_step products) r (register_rounds t g (rt_attempt task) n c)"
  shows "rg_registered r' \<and> rg_tasks r' g = None \<and> g \<in> set (rg_landed r') \<and>
    rg_inbox r' = (case c of None \<Rightarrow> rg_inbox r | Some cl \<Rightarrow> [cl]) \<and>
    rg_puts r' = rg_puts r @ replicate (Suc n) (g, rt_conn task)"
  using assms
proof (induction n arbitrary: r task t due)
  case 0
  then show ?case using put_lands [OF 0(1-5)] by simp
next
  case (Suc n)
  define r1 where "r1 = register_answer t g None (register_wake t g r)"
  define task1 where "task1 = task\<lparr>rt_attempt := Suc (rt_attempt task),
    rt_place := RegPausing (t + register_wait (Suc (rt_attempt task)))\<rparr>"
  note f = put_fails [OF Suc.prems(1-5), folded r1_def task1_def]
  have "r' = foldl (register_step products) r1 (register_rounds (t + register_wait (rt_attempt task1)) g (rt_attempt task1) n c)"
    using Suc.prems(7) by (simp add: r1_def task1_def)
  from Suc.IH [OF f(1) _ order_refl _ f(3) _ this, folded task1_def] f(2,4,5) Suc.prems(4,6)
  show ?case by (simp add: task1_def split: option.splits)
qed

subsection \<open>Properties\<close>

text \<open>What holds of the registration in every run, whatever fails and however the goroutines
  interleave: the latest connection id of a player that is still current is either registered or has
  a goroutine at work on it; no id is put again by its goroutine once a newer one was; and the
  channel of snapshots never holds more than one.\<close>

theorem registration_pursued:
  assumes "r = register_run products es"
  shows "(rg_current r \<and> 0 < rg_gen r \<longrightarrow> rg_tasks r (rg_gen r) \<noteq> None \<or> rg_gen r \<in> set (rg_landed r)) \<and>
    sorted (map fst (rg_puts r)) \<and> length (rg_inbox r) \<le> 1 \<and> (rg_registered r \<longrightarrow> rg_landed r \<noteq> [])"
  using register_run_ok [of products es] unfolding assms registrar_ok_def pursued_def puts_ok_def by blast

text \<open>A registration gets through. From every reachable state in which the goroutine of the latest
  connection id pauses, any number of failed puts followed by one that is answered ends registered,
  with that many puts of this id and with the cluster of the answer, and nothing older, waiting for
  the run loop. No pause is longer than thirty seconds.\<close>

theorem registration_lands:
  assumes "r = register_run products es" and "rg_current r" and "g = rg_gen r"
    and "rg_tasks r g = Some task" and "rt_place task = RegPausing due" and "due \<le> t"
    and "r' = foldl (register_step products) r (register_rounds t g (rt_attempt task) n c)"
  shows "rg_registered r' \<and> rg_tasks r' g = None \<and> g \<in> set (rg_landed r') \<and>
    rg_inbox r' = (case c of None \<Rightarrow> rg_inbox r | Some cl \<Rightarrow> [cl]) \<and>
    rg_puts r' = rg_puts r @ replicate (Suc n) (g, rt_conn task) \<and>
    (\<forall>k. 0 \<le> register_wait k \<and> register_wait k \<le> register_slow_retry)"
  using rounds_land [OF assms(4-6) assms(3) [symmetric] assms(2) _ assms(7)]
    registrar_okD(4) [OF register_run_ok [of products es]] register_wait_bounds
  by (simp add: assms(1))

subsection \<open>Witnesses and departures\<close>

definition sample_connection :: register_event where
  "sample_connection = ConnectionId 0 [(''Spotify-Connection-Id'', ''c1'')]"

lemmas register_ops = register_run_def new_registrar_def sample_connection_def connection_id_def notify_ready_def
  register_wake_def register_answer_def register_check_def register_store_def set_place_def end_task_def
  inject_cluster_def heartbeat_tick_def heartbeat_answer_def heartbeat_wake_def heartbeat_give_up_def
  register_wait_def register_waits_def heartbeat_retry_def get_str_def Let_def

lemma registration_pursued_witness:
  "rg_current (register_run (\<lambda>_. None) [sample_connection]) \<and>
   0 < rg_gen (register_run (\<lambda>_. None) [sample_connection]) \<and>
   rg_gen (register_run (\<lambda>_. None) [sample_connection]) \<notin> set (rg_landed (register_run (\<lambda>_. None) [sample_connection])) \<and>
   rg_tasks (register_run (\<lambda>_. None) [sample_connection]) (rg_gen (register_run (\<lambda>_. None) [sample_connection])) \<noteq> None"
proof -
  have "rg_current (register_run (\<lambda>_. None) [sample_connection]) \<and> 0 < rg_gen (register_run (\<lambda>_. None) [sample_connection]) \<and>
    rg_gen (register_run (\<lambda>_. None) [sample_connection]) \<notin> set (rg_landed (register_run (\<lambda>_. None) [sample_connection]))"
    by (simp add: register_ops)
  with registration_pursued [OF refl, of "\<lambda>_. None" "[sample_connection]"] show ?thesis by blast
qed

lemma registration_lands_witness:
  "rg_puts (foldl (register_step (\<lambda>_. None)) (register_run (\<lambda>_. None) [sample_connection])
     (register_rounds 0 1 0 2 None)) = replicate 3 (1, ''c1'')"
proof -
  let ?r = "register_run (\<lambda>_. None) [sample_connection]"
  have r: "rg_current ?r" "1 = rg_gen ?r" "rg_puts ?r = []"
    "rg_tasks ?r 1 = Some \<lparr>rt_conn = ''c1'', rt_attempt = 0, rt_place = RegPausing 0\<rparr>"
    by (simp_all add: register_ops)
  have "rt_place \<lparr>rt_conn = ''c1'', rt_attempt = 0, rt_place = RegPausing 0\<rparr> = RegPausing 0" by simp
  from registration_lands [OF refl r(1,2,4) this order_refl refl, of 2 None] r(3)
  show ?thesis by (simp add: numeral_3_eq_3)
qed

text \<open>The second attempt of a heartbeat puts an id that was superseded while it paused, after the new
  one was registered: the server is left with the id of a connection that is gone.\<close>

lemma heartbeat_puts_superseded_id:
  "let r = register_run (\<lambda>_. None)
      ([sample_connection] @ register_rounds 0 1 0 0 None @
       [HeartbeatTick, HeartbeatAnswer 100 None,
        ConnectionId 200 [(''Spotify-Connection-Id'', ''c2'')]] @ register_rounds 200 2 0 0 None @
       [HeartbeatWake 5000000100])
   in rg_conn r = ''c2'' \<and> rg_registered r \<and> last (rg_beats r) = (1, ''c1'')"
  by (simp add: register_ops)

text \<open>A goroutine that found its generation current marks the player registered though a newer
  connection id has arrived in between, for which nothing has been put.\<close>

lemma stale_store_claims_registration:
  "let r = register_run (\<lambda>_. None)
      [sample_connection, RegisterWake 0 1, RegisterAnswer 0 1 (Some None), RegisterCheck 1,
       ConnectionId 200 [(''Spotify-Connection-Id'', ''c2'')], RegisterStore 1]
   in rg_registered r \<and> rg_gen r = 2 \<and> rg_puts r = [(1, ''c1'')]"
  by (simp add: register_ops)

end
