(* ===== verification/LikedSongs.thy ===== *)
theory LikedSongs
  imports Interfaces Pathfinder QueueExpand Dealer
begin

text \<open>
  The playlist behind "Liked Songs" (\<open>daemon/player.go\<close>, \<open>daemon/webapi_library.go\<close>). Connect
  devices refuse the pseudo uri \<open>spotify:collection:tracks\<close>, so the daemon looks for the uri of the
  real playlist: in what the dealer pushes, and in a background loop that asks the library, then
  the child entities, and validates what it finds by the number of tracks of the playlist.

  The loop is a machine over the places at which it waits for the network or for its pause; what it
  finds is stored in a step of its own, as other sources store theirs in between. The answers of
  the persisted queries are arguments.
\<close>

subsection \<open>Candidates\<close>

definition playlist_prefix :: string where "playlist_prefix = ''spotify:playlist:''"

definition is_id_char :: "char \<Rightarrow> bool" where
  "is_id_char c \<longleftrightarrow>
     (let n = of_char c :: nat in 48 \<le> n \<and> n \<le> 57 \<or> 97 \<le> n \<and> n \<le> 122 \<or> 65 \<le> n \<and> n \<le> 90)"

definition id_length_ok :: "string \<Rightarrow> bool" where
  "id_length_ok i \<longleftrightarrow> 20 \<le> length i \<and> length i \<le> 25"

text \<open>The playlist that a push is about.\<close>

definition playlist_id_from_dealer_push_uri :: "string \<Rightarrow> string" where
  "playlist_id_from_dealer_push_uri uri =
     (let prefix = ''hm://playlist/v2/playlist/''
      in if \<not> has_prefix uri prefix then []
         else
           let i = takeWhile (\<lambda>c. c \<noteq> CHR ''/'' \<and> c \<noteq> CHR ''?'') (drop (length prefix) uri)
           in if \<not> id_length_ok i then [] else if \<not> list_all is_id_char i then [] else i)"

text \<open>The first occurrences, in their order.\<close>

fun first_seen :: "'a list \<Rightarrow> 'a list \<Rightarrow> 'a list" where
  "first_seen seen [] = []"
| "first_seen seen (x # xs) =
     (if x \<in> set seen then first_seen seen xs else x # first_seen (x # seen) xs)"

text \<open>The uris in a text: each occurrence of the prefix takes the longest run of letters and digits.\<close>

function playlist_tokens :: "string \<Rightarrow> string list" where
  "playlist_tokens s =
     (if s = [] then []
      else if has_prefix s playlist_prefix then
        let i = takeWhile is_id_char (drop (length playlist_prefix) s)
        in (if id_length_ok i then [playlist_prefix @ i] else []) @
           playlist_tokens (drop (length i) (drop (length playlist_prefix) s))
      else playlist_tokens (tl s))"
  by pat_completeness auto
termination
  by (relation "measure length") (auto simp: playlist_prefix_def)

declare playlist_tokens.simps [simp del]

definition playlist_uris_in_text :: "string \<Rightarrow> string list" where
  "playlist_uris_in_text s = first_seen [] (playlist_tokens s)"

text \<open>The strings of a JSON value in the order of its text, names of members included.\<close>

fun json_texts :: "json \<Rightarrow> string list" where
  "json_texts (JStr s) = [s]"
| "json_texts (JArr js) = concat (map json_texts js)"
| "json_texts (JObj kvs) = concat (map (\<lambda>(k, j). k # json_texts j) kvs)"
| "json_texts _ = []"

definition first_playlist_of :: "string list \<Rightarrow> string" where
  "first_playlist_of ts = (case find (\<lambda>s. has_prefix s playlist_prefix) ts of None \<Rightarrow> [] | Some s \<Rightarrow> s)"

text \<open>The tokens of \<open>json.Decoder.Token\<close> in a text that need not be JSON: strings only, up to the
  first error. Each call reads a byte at least, so fuel of one more than the bytes is enough.\<close>

datatype token_state =
  TopValue | ArrayStart | ArrayValue | ArrayComma | ObjectStart | ObjectKey | ObjectColon | ObjectValue | ObjectComma

definition value_allowed :: "token_state \<Rightarrow> bool" where
  "value_allowed st \<longleftrightarrow> st = TopValue \<or> st = ArrayStart \<or> st = ArrayValue \<or> st = ObjectValue"

definition value_end :: "token_state \<Rightarrow> token_state" where
  "value_end st =
     (if st = ArrayStart \<or> st = ArrayValue then ArrayComma
      else if st = ObjectValue then ObjectComma else st)"

fun token_texts :: "nat \<Rightarrow> token_state \<Rightarrow> token_state list \<Rightarrow> string \<Rightarrow> string list" where
  "token_texts 0 st stack s = []"
| "token_texts (Suc n) st stack s =
     (case skip_ws s of
        [] \<Rightarrow> []
      | c # r \<Rightarrow>
          if c = CHR ''['' then
            (if value_allowed st then token_texts n ArrayStart (st # stack) r else [])
          else if c = CHR '']'' then
            (case stack of
               outer # rest \<Rightarrow> if st = ArrayStart \<or> st = ArrayComma then token_texts n (value_end outer) rest r else []
             | [] \<Rightarrow> [])
          else if c = CHR ''{'' then
            (if value_allowed st then token_texts n ObjectStart (st # stack) r else [])
          else if c = CHR ''}'' then
            (case stack of
               outer # rest \<Rightarrow> if st = ObjectStart \<or> st = ObjectComma then token_texts n (value_end outer) rest r else []
             | [] \<Rightarrow> [])
          else if c = CHR '':'' then
            (if st = ObjectColon then token_texts n ObjectValue stack r else [])
          else if c = CHR '','' then
            (if st = ArrayComma then token_texts n ArrayValue stack r
             else if st = ObjectComma then token_texts n ObjectKey stack r else [])
          else if c = CHR 0x22 \<and> (st = ObjectStart \<or> st = ObjectKey) then
            (case json_string r of None \<Rightarrow> [] | Some (t, q) \<Rightarrow> t # token_texts n ObjectColon stack q)
          else if value_allowed st then
            (case json_value (2 * length s + 2) (c # r) of
               None \<Rightarrow> []
             | Some (v, q) \<Rightarrow> (case v of JStr t \<Rightarrow> [t] | _ \<Rightarrow> []) @ token_texts n (value_end st) stack q)
          else [])"

definition first_playlist_in_text :: "string \<Rightarrow> string" where
  "first_playlist_in_text s = first_playlist_of (token_texts (Suc (length s)) TopValue [] s)"

subsection \<open>The item of the library\<close>

record item_ident =
  ii_typename :: string
  ii_uri :: string
  ii_name :: string
  ii_outer_uri :: string

definition dec_item_ident :: "json \<Rightarrow> item_ident option" where
  "dec_item_ident j =
     do {
       (ty, u, n) \<leftarrow> field ''data'' ([], [], []) (\<lambda>d. do {
          ty \<leftarrow> field ''__typename'' [] dec_str d;
          u \<leftarrow> field ''uri'' [] dec_str d;
          n \<leftarrow> field ''name'' [] dec_str d;
          Some (ty, u, n) }) j;
       ou \<leftarrow> field ''_uri'' [] dec_str j;
       Some \<lparr>ii_typename = ty, ii_uri = u, ii_name = n, ii_outer_uri = ou\<rparr>
     }"

definition dec_library_items :: "json \<Rightarrow> json option list option" where
  "dec_library_items j =
     field ''data'' [] (field ''me'' [] (field ''libraryV3'' [] (field ''items'' []
       (dec_list (raw_field ''item''))))) j"

text \<open>The pseudo item by its uri, else the first pseudo playlist of that name.\<close>

fun scan_items :: "json option list \<Rightarrow> json option \<Rightarrow> string" where
  "scan_items [] second = (case second of None \<Rightarrow> [] | Some j \<Rightarrow> first_playlist_of (json_texts j))"
| "scan_items (raw # raws) second =
     (case Option.bind raw (\<lambda>j. map_option (\<lambda>i. (j, i)) (dec_item_ident j)) of
        None \<Rightarrow> scan_items raws second
      | Some (j, i) \<Rightarrow>
          if ii_uri i = liked_collection_uri \<or> ii_outer_uri i = liked_collection_uri
          then first_playlist_of (json_texts j)
          else if second = None \<and> ii_typename i = ''PseudoPlaylist'' \<and> fold_key (ii_name i) = fold_key ''Liked Songs''
          then scan_items raws (Some j)
          else scan_items raws second)"

definition scan_liked_playlist_uri :: "string \<Rightarrow> string" where
  "scan_liked_playlist_uri body =
     (case Option.bind (json_parse body) dec_library_items of
        None \<Rightarrow> []
      | Some items \<Rightarrow> scan_items items None)"

subsection \<open>The state\<close>

definition playlist_count_cache_ttl :: duration where "playlist_count_cache_ttl = minutes 30"

definition playlist_count_fail_ttl :: duration where "playlist_count_fail_ttl = minutes 2"

definition default_liked_playlist_budget :: duration where "default_liked_playlist_budget = minutes 1440"

definition default_liked_playlist_initial_delay :: duration where
  "default_liked_playlist_initial_delay = seconds 30"

definition liked_playlist_max_retry_delay :: duration where "liked_playlist_max_retry_delay = minutes 5"

record meta_entry =
  me_total :: int
  me_format :: string
  me_at :: instant
  me_ok :: bool

datatype resolver_place =
  NotRunning
| AtTop
| Querying
| Counting string
| Probing
| ProbeChecking "string list"
| ProbeFound string
| Got string
| PausingUntil instant

text \<open>\<open>lk_saves\<close> is what was persisted, \<open>lk_rotations\<close> how often a rotated hash was reported.\<close>

record liked =
  lk_uri :: string
  lk_saves :: "string list"
  lk_meta :: "string \<Rightarrow> meta_entry option"
  lk_place :: resolver_place
  lk_start :: instant
  lk_delay :: duration
  lk_attempt :: nat
  lk_rotations :: nat

definition new_liked :: "string \<Rightarrow> liked" where
  "new_liked uri = \<lparr>lk_uri = uri, lk_saves = [], lk_meta = Map.empty, lk_place = NotRunning, lk_start = 0,
     lk_delay = 0, lk_attempt = 0, lk_rotations = 0\<rparr>"

definition set_liked_playlist_uri :: "string \<Rightarrow> liked \<Rightarrow> liked" where
  "set_liked_playlist_uri uri lk = lk\<lparr>lk_uri := uri, lk_saves := lk_saves lk @ [uri]\<rparr>"

text \<open>The uri that was built into the configuration.\<close>

definition seed_baked_liked_playlist_uri :: "string \<Rightarrow> liked \<Rightarrow> liked" where
  "seed_baked_liked_playlist_uri baked lk =
     (if lk_uri lk \<noteq> [] then lk
      else if baked \<noteq> [] then set_liked_playlist_uri baked lk else lk)"

subsection \<open>What is known of a playlist\<close>

type_synonym pf_reply = "pathfinder_error option + string"

definition parse_playlist_meta :: "string \<Rightarrow> (int \<times> string) option" where
  "parse_playlist_meta body =
     Option.bind (json_parse body)
       (field ''data'' (0, []) (field ''playlistV2'' (0, []) (\<lambda>p. do {
          f \<leftarrow> field ''format'' [] dec_str p;
          n \<leftarrow> field ''content'' 0 (field ''totalCount'' 0 dec_int) p;
          Some (n, f) })))"

definition cached_playlist_meta :: "instant \<Rightarrow> string \<Rightarrow> liked \<Rightarrow> meta_entry option \<times> liked" where
  "cached_playlist_meta now uri lk =
     (case lk_meta lk uri of
        None \<Rightarrow> (None, lk)
      | Some e \<Rightarrow>
          let ttl = (if me_ok e then playlist_count_cache_ttl else playlist_count_fail_ttl)
          in if now - me_at e > ttl then (None, lk\<lparr>lk_meta := (lk_meta lk)(uri := None)\<rparr>)
             else (Some e, lk))"

definition store_playlist_meta :: "string \<Rightarrow> meta_entry \<Rightarrow> liked \<Rightarrow> liked" where
  "store_playlist_meta uri e lk = lk\<lparr>lk_meta := (lk_meta lk)(uri \<mapsto> e)\<rparr>"

definition meta_of_reply :: "instant \<Rightarrow> pf_reply \<Rightarrow> meta_entry" where
  "meta_of_reply now reply =
     (case reply of
        Inl e \<Rightarrow> \<lparr>me_total = 0, me_format = [], me_at = now, me_ok = False\<rparr>
      | Inr body \<Rightarrow>
          (case parse_playlist_meta body of
             None \<Rightarrow> \<lparr>me_total = 0, me_format = [], me_at = now, me_ok = False\<rparr>
           | Some (n, f) \<Rightarrow> \<lparr>me_total = n, me_format = f, me_at = now, me_ok = True\<rparr>))"

text \<open>\<open>ask\<close> answers the query for one playlist.\<close>

definition fetch_playlist_meta :: "instant \<Rightarrow> (string \<Rightarrow> pf_reply) \<Rightarrow> string \<Rightarrow> liked \<Rightarrow> meta_entry \<times> liked" where
  "fetch_playlist_meta now ask uri lk =
     (case cached_playlist_meta now uri lk of
        (Some e, lk1) \<Rightarrow> (e, lk1)
      | (None, lk1) \<Rightarrow> let e = meta_of_reply now (ask uri) in (e, store_playlist_meta uri e lk1))"

definition fetch_playlist_count :: "instant \<Rightarrow> (string \<Rightarrow> pf_reply) \<Rightarrow> string \<Rightarrow> liked \<Rightarrow> (int \<times> bool) \<times> liked" where
  "fetch_playlist_count now ask uri lk =
     (case fetch_playlist_meta now ask uri lk of (e, lk1) \<Rightarrow> ((me_total e, me_ok e), lk1))"

definition fetch_playlist_format :: "instant \<Rightarrow> (string \<Rightarrow> pf_reply) \<Rightarrow> string \<Rightarrow> liked \<Rightarrow> (string \<times> bool) \<times> liked" where
  "fetch_playlist_format now ask uri lk =
     (case fetch_playlist_meta now ask uri lk of (e, lk1) \<Rightarrow> ((me_format e, me_ok e), lk1))"

definition liked_songs_playlist_format :: string where
  "liked_songs_playlist_format = ''liked-songs''"

definition validate_liked_candidate ::
    "instant \<Rightarrow> (string \<Rightarrow> pf_reply) \<Rightarrow> string \<Rightarrow> liked \<Rightarrow> (int \<times> bool \<times> string \<times> bool) \<times> liked" where
  "validate_liked_candidate now ask cand lk =
     (case fetch_playlist_count now ask cand lk of
        ((n, ok), lk1) \<Rightarrow>
          if \<not> ok \<or> n \<le> 0 then ((n, ok, [], False), lk1)
          else case fetch_playlist_format now ask cand lk1 of
                 ((f, fok), lk2) \<Rightarrow> ((n, True, f, fok), lk2))"

subsection \<open>Pushes of the dealer\<close>

definition push_candidates :: "message \<Rightarrow> string list" where
  "push_candidates msg =
     (let i = playlist_id_from_dealer_push_uri (mg_uri msg);
          body = map (\<lambda>b. char_of (unat b)) (mg_payload msg);
          u = first_playlist_in_text body
      in first_seen []
           ((if i \<noteq> [] then [playlist_prefix @ i] else []) @ playlist_uris_in_text body @
            (if u \<noteq> [] then [u] else [])))"

fun try_candidates :: "instant \<Rightarrow> (string \<Rightarrow> pf_reply) \<Rightarrow> string list \<Rightarrow> liked \<Rightarrow> string \<times> liked" where
  "try_candidates now ask [] lk = ([], lk)"
| "try_candidates now ask (c # cs) lk =
     (case validate_liked_candidate now ask c lk of
        ((n, ok, f, fok), lk1) \<Rightarrow>
          if \<not> ok \<or> n \<le> 0 then try_candidates now ask cs lk1
          else if \<not> fok \<or> f \<noteq> liked_songs_playlist_format then try_candidates now ask cs lk1
          else (c, set_liked_playlist_uri c lk1))"

definition resolve_liked_playlist_from_dealer_push ::
    "instant \<Rightarrow> (string \<Rightarrow> pf_reply) \<Rightarrow> message \<Rightarrow> liked \<Rightarrow> string \<times> liked" where
  "resolve_liked_playlist_from_dealer_push now ask msg lk =
     (if lk_uri lk \<noteq> [] then ([], lk) else try_candidates now ask (push_candidates msg) lk)"

subsection \<open>The background loop\<close>

definition resolver_start :: "instant \<Rightarrow> liked \<Rightarrow> liked" where
  "resolver_start now lk =
     (if lk_place lk \<noteq> NotRunning then lk
      else lk\<lparr>lk_place := AtTop, lk_start := now, lk_delay := default_liked_playlist_initial_delay, lk_attempt := 0\<rparr>)"

definition resolver_top :: "instant \<Rightarrow> liked \<Rightarrow> liked" where
  "resolver_top now lk =
     (if lk_place lk \<noteq> AtTop then lk
      else if \<not> now < lk_start lk + default_liked_playlist_budget then lk\<lparr>lk_place := NotRunning\<rparr>
      else if lk_uri lk \<noteq> [] then lk\<lparr>lk_place := NotRunning, lk_attempt := Suc (lk_attempt lk)\<rparr>
      else lk\<lparr>lk_place := Querying, lk_attempt := Suc (lk_attempt lk)\<rparr>)"

text \<open>The library answers. Without a candidate the child entities are asked, unless the uri is known
  by now.\<close>

definition resolver_library :: "pf_reply \<Rightarrow> liked \<Rightarrow> liked" where
  "resolver_library reply lk =
     (if lk_place lk \<noteq> Querying then lk
      else case reply of
             Inl e \<Rightarrow> lk\<lparr>lk_place := Got []\<rparr>
           | Inr body \<Rightarrow>
               let u = scan_liked_playlist_uri body
               in if u \<noteq> [] then lk\<lparr>lk_place := Counting u\<rparr>
                  else if lk_uri lk \<noteq> [] then lk\<lparr>lk_place := Got []\<rparr>
                  else lk\<lparr>lk_place := Probing\<rparr>)"

definition resolver_count :: "instant \<Rightarrow> (string \<Rightarrow> pf_reply) \<Rightarrow> liked \<Rightarrow> liked" where
  "resolver_count now ask lk =
     (case lk_place lk of
        Counting u \<Rightarrow>
          (case fetch_playlist_count now ask u lk of
             ((n, ok), lk1) \<Rightarrow> lk1\<lparr>lk_place := Got (if \<not> ok \<or> n \<le> 0 then [] else u)\<rparr>)
      | _ \<Rightarrow> lk)"

definition resolver_children :: "pf_reply \<Rightarrow> liked \<Rightarrow> liked" where
  "resolver_children reply lk =
     (if lk_place lk \<noteq> Probing then lk
      else case reply of
             Inl e \<Rightarrow>
               lk\<lparr>lk_place := Got [],
                  lk_rotations := (case e of Some pe \<Rightarrow> if pe_persisted_query pe then Suc (lk_rotations lk) else lk_rotations lk
                                   | None \<Rightarrow> lk_rotations lk)\<rparr>
           | Inr body \<Rightarrow>
               let cs = playlist_uris_in_text body
               in if cs = [] then lk\<lparr>lk_place := Got []\<rparr> else lk\<lparr>lk_place := ProbeChecking cs\<rparr>)"

definition resolver_candidate :: "instant \<Rightarrow> (string \<Rightarrow> pf_reply) \<Rightarrow> liked \<Rightarrow> liked" where
  "resolver_candidate now ask lk =
     (case lk_place lk of
        ProbeChecking cs \<Rightarrow>
          (case cs of
             [] \<Rightarrow> lk\<lparr>lk_place := Got []\<rparr>
           | c # rest \<Rightarrow>
               if lk_uri lk \<noteq> [] then lk\<lparr>lk_place := Got []\<rparr>
               else case fetch_playlist_count now ask c lk of
                      ((n, ok), lk1) \<Rightarrow>
                        lk1\<lparr>lk_place := (if \<not> ok \<or> n \<le> 0 then ProbeChecking rest else ProbeFound c)\<rparr>)
      | _ \<Rightarrow> lk)"

definition resolver_found :: "liked \<Rightarrow> liked" where
  "resolver_found lk =
     (case lk_place lk of
        ProbeFound c \<Rightarrow> (set_liked_playlist_uri c lk)\<lparr>lk_place := Got c\<rparr>
      | _ \<Rightarrow> lk)"

text \<open>The end of an attempt.\<close>

definition resolver_got :: "instant \<Rightarrow> liked \<Rightarrow> liked" where
  "resolver_got now lk =
     (case lk_place lk of
        Got u \<Rightarrow>
          if u \<noteq> [] then (set_liked_playlist_uri u lk)\<lparr>lk_place := NotRunning\<rparr>
          else lk\<lparr>lk_place := PausingUntil (now + lk_delay lk)\<rparr>
      | _ \<Rightarrow> lk)"

definition resolver_wake :: "instant \<Rightarrow> liked \<Rightarrow> liked" where
  "resolver_wake now lk =
     (case lk_place lk of
        PausingUntil due \<Rightarrow>
          if now < due then lk
          else lk\<lparr>lk_place := AtTop, lk_delay := min (2 * lk_delay lk) liked_playlist_max_retry_delay\<rparr>
      | _ \<Rightarrow> lk)"

definition resolver_stop :: "liked \<Rightarrow> liked" where
  "resolver_stop lk = (case lk_place lk of PausingUntil due \<Rightarrow> lk\<lparr>lk_place := NotRunning\<rparr> | _ \<Rightarrow> lk)"

datatype liked_event =
  DealerPush instant "string \<Rightarrow> pf_reply" message
| ResolverStart instant
| ResolverTop instant
| LibraryReply pf_reply
| CountReply instant "string \<Rightarrow> pf_reply"
| ChildrenReply pf_reply
| CandidateReply instant "string \<Rightarrow> pf_reply"
| CandidateFound
| AttemptEnds instant
| ResolverWake instant
| ResolverStop

fun liked_step :: "liked \<Rightarrow> liked_event \<Rightarrow> liked" where
  "liked_step lk (DealerPush now ask msg) = snd (resolve_liked_playlist_from_dealer_push now ask msg lk)"
| "liked_step lk (ResolverStart now) = resolver_start now lk"
| "liked_step lk (ResolverTop now) = resolver_top now lk"
| "liked_step lk (LibraryReply reply) = resolver_library reply lk"
| "liked_step lk (CountReply now ask) = resolver_count now ask lk"
| "liked_step lk (ChildrenReply reply) = resolver_children reply lk"
| "liked_step lk (CandidateReply now ask) = resolver_candidate now ask lk"
| "liked_step lk CandidateFound = resolver_found lk"
| "liked_step lk (AttemptEnds now) = resolver_got now lk"
| "liked_step lk (ResolverWake now) = resolver_wake now lk"
| "liked_step lk ResolverStop = resolver_stop lk"

definition liked_run :: "string \<Rightarrow> string \<Rightarrow> liked_event list \<Rightarrow> liked" where
  "liked_run persisted baked es =
     foldl liked_step (seed_baked_liked_playlist_uri baked (new_liked persisted)) es"

subsection \<open>Uris in a text\<close>

lemma playlist_tokens_Nil [simp]: "playlist_tokens [] = []"
  by (simp add: playlist_tokens.simps)

lemma playlist_tokens_skip: "CHR ''s'' \<notin> set a \<Longrightarrow> playlist_tokens (a @ s) = playlist_tokens s"
proof (induction a)
  case (Cons c a)
  then have "\<not> has_prefix ((c # a) @ s) playlist_prefix"
    by (auto simp: has_prefix_def playlist_prefix_def)
  with Cons show ?case by (subst playlist_tokens.simps) simp
qed simp

lemma takeWhile_id:
  assumes "list_all is_id_char i" "s = [] \<or> \<not> is_id_char (hd s)"
  shows "takeWhile is_id_char (i @ s) = i"
proof -
  have "takeWhile is_id_char s = []" using assms(2) by (cases s) auto
  with assms(1) show ?thesis by (simp add: takeWhile_append2 list_all_iff)
qed

lemma playlist_prefix_ne [simp]: "playlist_prefix \<noteq> []"
  by (simp add: playlist_prefix_def)

lemma playlist_tokens_hit:
  assumes "id_length_ok i" "list_all is_id_char i" "s = [] \<or> \<not> is_id_char (hd s)"
  shows "playlist_tokens (playlist_prefix @ i @ s) = (playlist_prefix @ i) # playlist_tokens s"
  using assms takeWhile_id [OF assms(2,3)] by (subst playlist_tokens.simps) (simp add: playlist_prefix_ne)

lemma first_seen_sub: "set (first_seen seen xs) \<subseteq> set xs"
  by (induction xs arbitrary: seen) auto

lemma first_seen_distinct: "distinct (first_seen seen xs) \<and> set (first_seen seen xs) \<inter> set seen = {}"
proof (induction xs arbitrary: seen)
  case (Cons x xs)
  from Cons.IH [of seen] Cons.IH [of "x # seen"] show ?case by auto
qed simp

text \<open>A text with the uris in it: each after a separator that does not contain the letter s, so that
  no occurrence of the prefix begins in it, and that ends the id before it.\<close>

definition with_playlists :: "(string \<times> string) list \<Rightarrow> string \<Rightarrow> string" where
  "with_playlists xs rest = concat (map (\<lambda>(sep, i). sep @ playlist_prefix @ i) xs) @ rest"

definition separator :: "string \<Rightarrow> bool" where
  "separator sep \<longleftrightarrow> CHR ''s'' \<notin> set sep \<and> sep \<noteq> [] \<and> \<not> is_id_char (hd sep)"

lemma playlist_tokens_all:
  assumes "list_all (\<lambda>(sep, i). separator sep \<and> id_length_ok i \<and> list_all is_id_char i) xs"
    and "rest = [] \<or> separator rest"
  shows "playlist_tokens (with_playlists xs rest) = map (\<lambda>(sep, i). playlist_prefix @ i) xs"
  using assms
proof (induction xs)
  case Nil
  then show ?case
    using playlist_tokens_skip [of rest "[]"] by (auto simp: with_playlists_def separator_def)
next
  case (Cons x xs)
  obtain sep i where x: "x = (sep, i)" by (cases x)
  have s: "separator sep" "id_length_ok i" "list_all is_id_char i" using Cons.prems x by auto
  have "with_playlists xs rest = [] \<or> \<not> is_id_char (hd (with_playlists xs rest))"
    using Cons.prems by (cases xs) (auto simp: with_playlists_def separator_def)
  then have "playlist_tokens (playlist_prefix @ i @ with_playlists xs rest) =
      (playlist_prefix @ i) # playlist_tokens (with_playlists xs rest)"
    by (rule playlist_tokens_hit [OF s(2,3)])
  moreover have "with_playlists (x # xs) rest = sep @ playlist_prefix @ i @ with_playlists xs rest"
    by (simp add: with_playlists_def x)
  ultimately show ?case
    using Cons s(1) x by (simp add: playlist_tokens_skip separator_def)
qed

subsection \<open>Only playlists with tracks are stored\<close>

text \<open>An answer that vouches for a playlist, and an event that carries one.\<close>

definition vouches :: "(string \<Rightarrow> pf_reply) \<Rightarrow> string \<Rightarrow> bool" where
  "vouches ask u \<longleftrightarrow> me_ok (meta_of_reply 0 (ask u)) \<and> 0 < me_total (meta_of_reply 0 (ask u))"

fun event_vouches :: "liked_event \<Rightarrow> string \<Rightarrow> bool" where
  "event_vouches (DealerPush now ask msg) u = vouches ask u"
| "event_vouches (CountReply now ask) u = vouches ask u"
| "event_vouches (CandidateReply now ask) u = vouches ask u"
| "event_vouches _ u = False"

definition entry_good :: "meta_entry \<Rightarrow> bool" where
  "entry_good e \<longleftrightarrow> me_ok e \<and> 0 < me_total e"

lemma meta_of_reply_good: "entry_good (meta_of_reply now (ask u)) \<longleftrightarrow> vouches ask u"
  by (simp add: entry_good_def vouches_def meta_of_reply_def split: sum.split option.split)

text \<open>\<open>V\<close> are the playlists that were vouched for.\<close>

definition liked_ok :: "string set \<Rightarrow> liked \<Rightarrow> bool" where
  "liked_ok V lk \<longleftrightarrow>
     set (lk_saves lk) \<subseteq> V \<and> (lk_uri lk \<noteq> [] \<longrightarrow> lk_uri lk \<in> V) \<and>
     (\<forall>u e. lk_meta lk u = Some e \<longrightarrow> entry_good e \<longrightarrow> u \<in> V) \<and>
     (case lk_place lk of Got u \<Rightarrow> u \<noteq> [] \<longrightarrow> u \<in> V | ProbeFound u \<Rightarrow> u \<in> V | _ \<Rightarrow> True)"

lemma fetch_meta:
  assumes "fetch_playlist_meta now ask u lk = (e, lk1)"
  shows "lk_uri lk1 = lk_uri lk" "lk_saves lk1 = lk_saves lk" "lk_place lk1 = lk_place lk"
    and "lk_meta lk1 u = Some e" and "fetch_playlist_meta now ask u lk1 = (e, lk1)"
    and "liked_ok V lk \<Longrightarrow> (\<And>v. vouches ask v \<Longrightarrow> v \<in> V) \<Longrightarrow> liked_ok V lk1 \<and> (entry_good e \<longrightarrow> u \<in> V)"
proof -
  have *: "lk_uri lk1 = lk_uri lk \<and> lk_saves lk1 = lk_saves lk \<and> lk_place lk1 = lk_place lk \<and>
      lk_meta lk1 u = Some e \<and> (\<exists>m. lk_meta lk1 = m(u \<mapsto> e) \<and> (m = lk_meta lk \<or> m = (lk_meta lk)(u := None))) \<and>
      (now - me_at e \<le> (if me_ok e then playlist_count_cache_ttl else playlist_count_fail_ttl)) \<and>
      (lk_meta lk u = Some e \<or> e = meta_of_reply now (ask u))"
  proof (cases "cached_playlist_meta now u lk")
    case (Pair c lk0)
    show ?thesis
    proof (cases c)
      case None
      then have e: "e = meta_of_reply now (ask u)" "lk1 = store_playlist_meta u e lk0"
        using assms Pair by (auto simp: fetch_playlist_meta_def Let_def)
      have "me_at e = now" by (simp add: e meta_of_reply_def split: sum.split option.split)
      then have a: "now - me_at e \<le> (if me_ok e then playlist_count_cache_ttl else playlist_count_fail_ttl)"
        by (simp add: playlist_count_cache_ttl_def playlist_count_fail_ttl_def)
      have l: "lk0 = lk \<or> lk0 = lk\<lparr>lk_meta := (lk_meta lk)(u := None)\<rparr>"
        using Pair by (auto simp: cached_playlist_meta_def Let_def split: option.splits if_splits)
      with e(2) have "lk_meta lk1 = (lk_meta lk0)(u \<mapsto> e)" "lk_meta lk0 = lk_meta lk \<or> lk_meta lk0 = (lk_meta lk)(u := None)"
        by (auto simp: store_playlist_meta_def)
      moreover have "lk_uri lk1 = lk_uri lk \<and> lk_saves lk1 = lk_saves lk \<and> lk_place lk1 = lk_place lk"
        using e(2) l by (auto simp: store_playlist_meta_def)
      ultimately show ?thesis using e(1) a by auto
    next
      case (Some e0)
      then have e: "e = e0" "lk1 = lk0" using assms Pair by (simp_all add: fetch_playlist_meta_def)
      with Pair Some have "lk1 = lk" "lk_meta lk u = Some e"
        "now - me_at e \<le> (if me_ok e then playlist_count_cache_ttl else playlist_count_fail_ttl)"
        by (auto simp: cached_playlist_meta_def Let_def split: option.splits if_splits)
      then show ?thesis by (auto intro!: exI [of _ "lk_meta lk"])
    qed
  qed
  then show "lk_uri lk1 = lk_uri lk" "lk_saves lk1 = lk_saves lk" "lk_place lk1 = lk_place lk" "lk_meta lk1 u = Some e"
    by blast+
  show "fetch_playlist_meta now ask u lk1 = (e, lk1)"
    using * by (simp add: fetch_playlist_meta_def cached_playlist_meta_def Let_def not_less)
  assume ok: "liked_ok V lk" and V: "\<And>v. vouches ask v \<Longrightarrow> v \<in> V"
  have g: "entry_good e \<longrightarrow> u \<in> V"
    using * ok V meta_of_reply_good [of now ask u] unfolding liked_ok_def by metis
  obtain m where m: "lk_meta lk1 = m(u \<mapsto> e)" "m = lk_meta lk \<or> m = (lk_meta lk)(u := None)" using * by blast
  have "v \<in> V" if "lk_meta lk1 v = Some e'" "entry_good e'" for v e'
    using that m g ok by (auto simp: liked_ok_def split: if_splits)
  then show "liked_ok V lk1 \<and> (entry_good e \<longrightarrow> u \<in> V)"
    using ok g * by (simp add: liked_ok_def)
qed

lemma count_ok:
  assumes "fetch_playlist_count now ask u lk = ((n, ok), lk1)" "liked_ok V lk" "\<And>v. vouches ask v \<Longrightarrow> v \<in> V"
  shows "liked_ok V lk1" "ok \<Longrightarrow> 0 < n \<Longrightarrow> u \<in> V" "lk_uri lk1 = lk_uri lk" "lk_saves lk1 = lk_saves lk"
    "lk_place lk1 = lk_place lk"
proof -
  obtain e where e: "fetch_playlist_meta now ask u lk = (e, lk1)" "n = me_total e" "ok = me_ok e"
    using assms(1) by (auto simp: fetch_playlist_count_def split: prod.splits)
  from fetch_meta [OF e(1)] assms(2,3) e(2,3)
  show "liked_ok V lk1" "ok \<Longrightarrow> 0 < n \<Longrightarrow> u \<in> V" "lk_uri lk1 = lk_uri lk" "lk_saves lk1 = lk_saves lk"
    "lk_place lk1 = lk_place lk"
    by (auto simp: entry_good_def)
qed

text \<open>The two queries of a validation see the same entry.\<close>

lemma validate_entry:
  assumes "validate_liked_candidate now ask c lk = ((n, ok, f, fok), lk1)"
  shows "\<exists>e. fetch_playlist_meta now ask c lk = (e, lk1) \<and> n = me_total e \<and> ok = me_ok e \<and>
    (ok \<and> 0 < n \<longrightarrow> f = me_format e \<and> fok = me_ok e)"
proof -
  obtain e lk0 where e: "fetch_playlist_meta now ask c lk = (e, lk0)" by (cases "fetch_playlist_meta now ask c lk")
  have "fetch_playlist_meta now ask c lk0 = (e, lk0)" by (rule fetch_meta(5) [OF e])
  with e assms show ?thesis
    by (auto simp: validate_liked_candidate_def fetch_playlist_count_def fetch_playlist_format_def split: if_splits)
qed

lemma try_candidates_outcome:
  assumes "try_candidates now ask cs lk = (u, lk')"
  shows "(u = [] \<longrightarrow> [] \<notin> set cs \<longrightarrow> lk_uri lk' = lk_uri lk \<and> lk_saves lk' = lk_saves lk) \<and>
    (u \<noteq> [] \<longrightarrow> lk_uri lk' = u \<and> lk_saves lk' = lk_saves lk @ [u] \<and> u \<in> set cs \<and>
      (\<exists>e. lk_meta lk' u = Some e \<and> entry_good e \<and> me_format e = liked_songs_playlist_format)) \<and>
    lk_place lk' = lk_place lk"
  using assms
proof (induction cs arbitrary: lk)
  case (Cons c cs)
  obtain n ok f fok lk1 where v: "validate_liked_candidate now ask c lk = ((n, ok, f, fok), lk1)"
    by (metis surj_pair)
  obtain e where e: "fetch_playlist_meta now ask c lk = (e, lk1)" "n = me_total e" "ok = me_ok e"
    "ok \<and> 0 < n \<longrightarrow> f = me_format e \<and> fok = me_ok e"
    using validate_entry [OF v] by blast
  note f = fetch_meta(1-4) [OF e(1)]
  show ?case
  proof (cases "ok \<and> 0 < n \<and> fok \<and> f = liked_songs_playlist_format")
    case True
    then have r: "u = c" "lk' = set_liked_playlist_uri c lk1" using Cons.prems v by auto
    then show ?thesis
      using f e True by (auto simp: set_liked_playlist_uri_def entry_good_def)
  next
    case False
    then have "try_candidates now ask cs lk1 = (u, lk')"
      using Cons.prems v by (auto split: if_splits)
    from Cons.IH [OF this] f show ?thesis by auto
  qed
qed simp

lemma push_outcome:
  assumes "resolve_liked_playlist_from_dealer_push now ask msg lk = (u, lk')"
  shows "(u = [] \<longrightarrow> lk_uri lk' = lk_uri lk \<and> lk_saves lk' = lk_saves lk) \<and>
    (u \<noteq> [] \<longrightarrow> lk_uri lk = [] \<and> lk_uri lk' = u \<and> lk_saves lk' = lk_saves lk @ [u] \<and> u \<in> set (push_candidates msg) \<and>
      (\<exists>e. lk_meta lk' u = Some e \<and> entry_good e \<and> me_format e = liked_songs_playlist_format)) \<and>
    lk_place lk' = lk_place lk"
proof (cases "lk_uri lk = []")
  case True
  then have t: "try_candidates now ask (push_candidates msg) lk = (u, lk')"
    using assms by (simp add: resolve_liked_playlist_from_dealer_push_def)
  have "[] \<notin> set (push_candidates msg)"
  proof -
    have "[] \<notin> set (playlist_tokens s)" for s
      by (induction s rule: playlist_tokens.induct)
        (subst playlist_tokens.simps, auto simp: playlist_prefix_def Let_def)
    then have "[] \<notin> set (playlist_uris_in_text s)" for s
      using first_seen_sub [of "[]" "playlist_tokens s"] by (auto simp: playlist_uris_in_text_def)
    then show ?thesis
      using first_seen_sub unfolding push_candidates_def Let_def
      by (force simp: playlist_prefix_def split: if_splits)
  qed
  with try_candidates_outcome [OF t] True show ?thesis by blast
next
  case False
  with assms show ?thesis by (auto simp: resolve_liked_playlist_from_dealer_push_def)
qed

lemma try_candidates_ok:
  assumes "liked_ok V lk" "\<And>v. vouches ask v \<Longrightarrow> v \<in> V"
  shows "liked_ok V (snd (try_candidates now ask cs lk))"
  using assms(1)
proof (induction cs arbitrary: lk)
  case (Cons c cs)
  obtain n ok f fok lk1 where v: "validate_liked_candidate now ask c lk = ((n, ok, f, fok), lk1)"
    by (metis surj_pair)
  obtain e where e: "fetch_playlist_meta now ask c lk = (e, lk1)" "n = me_total e" "ok = me_ok e"
    using validate_entry [OF v] by blast
  from fetch_meta(6) [OF e(1) Cons.prems assms(2)] have ok: "liked_ok V lk1" "entry_good e \<longrightarrow> c \<in> V" by auto
  show ?case
  proof (cases "ok \<and> 0 < n \<and> fok \<and> f = liked_songs_playlist_format")
    case True
    then have "c \<in> V" using ok(2) e by (simp add: entry_good_def)
    with True ok(1) v show ?thesis by (simp add: liked_ok_def set_liked_playlist_uri_def)
  next
    case False
    with v Cons.IH [OF ok(1)] show ?thesis by (auto split: if_splits)
  qed
qed simp

lemma liked_ok_mono: "liked_ok V lk \<Longrightarrow> V \<subseteq> W \<Longrightarrow> liked_ok W lk"
  by (cases "lk_place lk") (auto simp: liked_ok_def)

lemma liked_step_ok:
  assumes "liked_ok V lk" "\<And>v. event_vouches e v \<Longrightarrow> v \<in> V"
  shows "liked_ok V (liked_step lk e)"
proof (cases e)
  case (DealerPush now ask msg)
  with assms try_candidates_ok [of V lk ask] show ?thesis
    by (simp add: resolve_liked_playlist_from_dealer_push_def)
next
  case (ResolverStart now)
  with assms show ?thesis by (simp add: resolver_start_def liked_ok_def)
next
  case (ResolverTop now)
  with assms show ?thesis by (simp add: resolver_top_def liked_ok_def)
next
  case (LibraryReply reply)
  with assms show ?thesis by (simp add: resolver_library_def liked_ok_def Let_def split: sum.split)
next
  case (CountReply now ask)
  show ?thesis
  proof (cases "\<exists>u. lk_place lk = Counting u")
    case True
    then obtain u where u: "lk_place lk = Counting u" by blast
    obtain n ok lk1 where f: "fetch_playlist_count now ask u lk = ((n, ok), lk1)" by (metis surj_pair)
    from count_ok [OF f assms(1)] assms(2) CountReply have "liked_ok V lk1" "ok \<Longrightarrow> 0 < n \<Longrightarrow> u \<in> V" by auto
    with u f CountReply show ?thesis by (auto simp: resolver_count_def liked_ok_def)
  next
    case False
    with assms CountReply show ?thesis by (cases "lk_place lk") (simp_all add: resolver_count_def)
  qed
next
  case (ChildrenReply reply)
  with assms show ?thesis
    by (simp add: resolver_children_def liked_ok_def Let_def split: sum.split)
next
  case (CandidateReply now ask)
  show ?thesis
  proof (cases "\<exists>c cs. lk_place lk = ProbeChecking (c # cs) \<and> lk_uri lk = []")
    case True
    then obtain c cs where u: "lk_place lk = ProbeChecking (c # cs)" "lk_uri lk = []" by blast
    obtain n ok lk1 where f: "fetch_playlist_count now ask c lk = ((n, ok), lk1)" by (metis surj_pair)
    from count_ok [OF f assms(1)] assms(2) CandidateReply have "liked_ok V lk1" "ok \<Longrightarrow> 0 < n \<Longrightarrow> c \<in> V" by auto
    with u f CandidateReply show ?thesis by (auto simp: resolver_candidate_def liked_ok_def)
  next
    case False
    with assms CandidateReply show ?thesis
      by (cases "lk_place lk") (auto simp: resolver_candidate_def liked_ok_def split: list.split)
  qed
next
  case CandidateFound
  with assms show ?thesis
    by (cases "lk_place lk") (auto simp: resolver_found_def liked_ok_def set_liked_playlist_uri_def)
next
  case (AttemptEnds now)
  with assms show ?thesis
    by (cases "lk_place lk") (auto simp: resolver_got_def liked_ok_def set_liked_playlist_uri_def)
next
  case (ResolverWake now)
  with assms show ?thesis by (cases "lk_place lk") (simp_all add: resolver_wake_def liked_ok_def)
next
  case ResolverStop
  with assms show ?thesis by (cases "lk_place lk") (simp_all add: resolver_stop_def liked_ok_def)
qed

text \<open>The loop together with the playlists vouched for so far.\<close>

definition vouch_step :: "liked \<times> string set \<Rightarrow> liked_event \<Rightarrow> liked \<times> string set" where
  "vouch_step s e = (liked_step (fst s) e, snd s \<union> {v. event_vouches e v})"

lemma vouch_run: "foldl vouch_step (lk, V) es = (foldl liked_step lk es, V \<union> {v. \<exists>e \<in> set es. event_vouches e v})"
  by (induction es arbitrary: lk V) (auto simp: vouch_step_def)

interpretation vouched: invariant_machine vouch_step "\<lambda>s. liked_ok (snd s) (fst s)"
proof unfold_locales
  fix s :: "liked \<times> string set" and e
  assume "liked_ok (snd s) (fst s)"
  then have "liked_ok (snd s \<union> {v. event_vouches e v}) (liked_step (fst s) e)"
    by (intro liked_step_ok) (auto elim: liked_ok_mono)
  then show "liked_ok (snd (vouch_step s e)) (fst (vouch_step s e))" by (simp add: vouch_step_def)
qed

subsection \<open>Properties\<close>

text \<open>The uris of playlists are found in a text whatever is around them, also in the binary payload of
  a push: of a text in which each uri follows a separator, all uris come back, in their order and
  each once.\<close>

theorem playlist_uris_roundtrip:
  assumes "list_all (\<lambda>(sep, i). separator sep \<and> id_length_ok i \<and> list_all is_id_char i) xs"
    and "rest = [] \<or> separator rest"
  shows "playlist_uris_in_text (with_playlists xs rest) = first_seen [] (map (\<lambda>(sep, i). playlist_prefix @ i) xs)"
  using playlist_tokens_all [OF assms] by (simp add: playlist_uris_in_text_def)

text \<open>A push sets the uri only when none is known, and only to a candidate in the push that the
  service describes as a playlist of the format of the liked songs with tracks in it; otherwise it
  leaves the uri, what was persisted and the background loop alone.\<close>

theorem push_sets_liked_playlist:
  assumes "resolve_liked_playlist_from_dealer_push now ask msg lk = (u, lk')"
  shows "(u = [] \<longrightarrow> lk_uri lk' = lk_uri lk \<and> lk_saves lk' = lk_saves lk) \<and>
    (u \<noteq> [] \<longrightarrow> lk_uri lk = [] \<and> lk_uri lk' = u \<and> lk_saves lk' = lk_saves lk @ [u] \<and> u \<in> set (push_candidates msg) \<and>
      (\<exists>e. lk_meta lk' u = Some e \<and> me_ok e \<and> 0 < me_total e \<and> me_format e = liked_songs_playlist_format)) \<and>
    lk_place lk' = lk_place lk"
  using push_outcome [OF assms] by (simp add: entry_good_def)

text \<open>Whatever arrives in whatever order, a fresh daemon never persists a uri, and never plays one,
  that no answer of the service has vouched for: a readable description of that playlist with at
  least one track.\<close>

theorem liked_uri_vouched:
  assumes "u \<in> set (lk_saves (liked_run [] [] es)) \<or> u = lk_uri (liked_run [] [] es)" and "u \<noteq> []"
  shows "\<exists>e \<in> set es. event_vouches e u"
proof -
  have "liked_ok (snd (new_liked [], {} :: string set)) (fst (new_liked [], {} :: string set))"
    by (simp add: liked_ok_def new_liked_def)
  from vouched.run_inv [OF this, of es]
  have "liked_ok {v. \<exists>e \<in> set es. event_vouches e v} (liked_run [] [] es)"
    by (simp add: vouch_run liked_run_def seed_baked_liked_playlist_uri_def new_liked_def)
  with assms show ?thesis by (auto simp: liked_ok_def)
qed

subsection \<open>Witnesses and departures\<close>

definition sample_id :: string where "sample_id = ''37i9dQZF1DXcBWIGoYBM5M''"

definition sample_reply :: "string \<Rightarrow> pf_reply" where
  "sample_reply u = Inr
     (if u = playlist_prefix @ sample_id
      then ''{\"data\":{\"playlistV2\":{\"format\":\"liked-songs\",\"content\":{\"totalCount\":3}}}}''
      else ''{\"data\":{\"playlistV2\":{\"content\":{\"totalCount\":9}}}}'')"

definition sample_push :: message where
  "sample_push = \<lparr>mg_uri = ''hm://playlist/v2/playlist/'' @ sample_id, mg_headers = [], mg_payload = []\<rparr>"

lemma playlist_uris_roundtrip_witness:
  "playlist_uris_in_text (with_playlists [(''!!'', sample_id), ([CHR 0x12], sample_id)] ''\"'') = [playlist_prefix @ sample_id]"
proof -
  have "list_all (\<lambda>(sep, i). separator sep \<and> id_length_ok i \<and> list_all is_id_char i)
      [(''!!'', sample_id), ([CHR 0x12], sample_id)]" "separator ''\"''"
    by code_simp+
  then show ?thesis by (simp add: playlist_uris_roundtrip)
qed

lemma sample_push_resolves:
  "fst (resolve_liked_playlist_from_dealer_push 5 sample_reply sample_push (new_liked [])) = playlist_prefix @ sample_id"
  by code_simp

lemma push_sets_liked_playlist_witness:
  "lk_uri (snd (resolve_liked_playlist_from_dealer_push 5 sample_reply sample_push (new_liked []))) = playlist_prefix @ sample_id"
  using push_sets_liked_playlist [OF prod.collapse [symmetric], of 5 sample_reply sample_push "new_liked []"]
  by (simp add: sample_push_resolves)

lemma liked_uri_vouched_witness:
  "event_vouches (DealerPush 5 sample_reply sample_push) (playlist_prefix @ sample_id)"
proof -
  have "lk_uri (liked_run [] [] [DealerPush 5 sample_reply sample_push]) = playlist_prefix @ sample_id"
    by code_simp
  from liked_uri_vouched [of "playlist_prefix @ sample_id" "[DealerPush 5 sample_reply sample_push]"] this
  show ?thesis by simp
qed

text \<open>The background loop does not look at the format, and does not look again at whether a uri is known
  when its attempt ends: the uri that a push has validated is replaced by another playlist.\<close>

definition sample_library :: pf_reply where
  "sample_library = Inr
     ''{\"data\":{\"me\":{\"libraryV3\":{\"items\":[{\"item\":{\"_uri\":\"spotify:collection:tracks\",\"x\":\"spotify:playlist:other\"}}]}}}}''"

lemma background_overwrites_push:
  "lk_uri (liked_run [] []
     [ResolverStart 0, ResolverTop 0, LibraryReply sample_library, DealerPush 1 sample_reply sample_push,
      CountReply 2 sample_reply, AttemptEnds 3]) = ''spotify:playlist:other''"
  by code_simp

end
