(* ===== verification/Settings.thy ===== *)
theory Settings
  imports GoLib
begin

text \<open>
  What the daemon reads of the settings that the user interface stores: \<open>daemon/ma_config.go\<close>,
  \<open>daemon/ha_config.go\<close> and the urls of \<open>daemon/ha_login.go\<close>. The settings are a text that only the
  interface writes; every read parses it again.

  \<open>net/url\<close> is a parameter: \<open>parse\<close> gives the scheme and the host of a text and its \<open>String()\<close> as a
  function of the scheme.
\<close>

subsection \<open>Server urls\<close>

record parsed_url =
  pu_scheme :: string
  pu_host :: string
  pu_string :: "string \<Rightarrow> string"

type_synonym url_parser = "string \<Rightarrow> parsed_url option"

definition lower_char :: "char \<Rightarrow> char" where
  "lower_char c = (let n = of_char c :: nat in if 65 \<le> n \<and> n \<le> 90 then char_of (n + 32) else c)"

definition trim_suffix :: "string \<Rightarrow> string \<Rightarrow> string" where
  "trim_suffix s suf = (if has_suffix s suf then take (length s - length suf) s else s)"

definition canonical_scheme :: "string \<Rightarrow> string option" where
  "canonical_scheme s =
     (let l = map lower_char s
      in if l = ''http'' \<or> l = ''ws'' then Some ''http''
         else if l = ''https'' \<or> l = ''wss'' then Some ''https'' else None)"

definition normalize_ha_url :: "url_parser \<Rightarrow> string \<Rightarrow> string" where
  "normalize_ha_url parse raw =
     (let u = trim_space raw
      in if u = [] then []
         else let v = (if str_contains u ''://'' then u else ''http://'' @ u)
              in case parse v of
                   None \<Rightarrow> []
                 | Some p \<Rightarrow>
                     (if pu_host p = [] then []
                      else case canonical_scheme (pu_scheme p) of
                             None \<Rightarrow> []
                           | Some s \<Rightarrow> trim_suffix (pu_string p s) ''/''))"

definition ha_web_socket_url :: "string \<Rightarrow> string" where
  "ha_web_socket_url canonical =
     (if has_prefix canonical ''https://''
      then ''wss://'' @ trim_prefix canonical ''https://'' @ ''/api/websocket''
      else ''ws://'' @ trim_prefix canonical ''http://'' @ ''/api/websocket'')"

subsection \<open>Music Assistant\<close>

record ma_config =
  mc_url :: string
  mc_token :: string

definition playback_source_ma :: string where "playback_source_ma = ''ma''"

definition dec_ma :: "json \<Rightarrow> (string \<times> string) option" where
  "dec_ma j = do { url \<leftarrow> field ''url'' [] dec_str j; token \<leftarrow> field ''token'' [] dec_str j; Some (url, token) }"

definition parse_ma_config :: "url_parser \<Rightarrow> string \<Rightarrow> ma_config option" where
  "parse_ma_config parse blob =
     (case Option.bind (json_parse blob) (opt_field ''ma'' dec_ma) of
        Some (Some (raw, token)) \<Rightarrow>
          (let url = normalize_ha_url parse raw
           in if url = [] then None else Some \<lparr>mc_url = url, mc_token = token\<rparr>)
      | _ \<Rightarrow> None)"

definition playback_source_from_settings :: "string \<Rightarrow> string" where
  "playback_source_from_settings blob =
     (case Option.bind (json_parse blob) (field ''playbackSource'' [] dec_str) of
        None \<Rightarrow> [] | Some s \<Rightarrow> s)"

definition ma_default_device_id_from_settings :: "string \<Rightarrow> string" where
  "ma_default_device_id_from_settings blob =
     (case Option.bind (json_parse blob) (opt_field ''maDefaultDeviceId'' dec_str) of
        Some (Some s) \<Rightarrow> s | _ \<Rightarrow> [])"

subsection \<open>Home Assistant\<close>

record ha_config =
  hc_url :: string
  hc_username :: string
  hc_password :: string
  hc_token :: string
  hc_token_source :: string

definition ha_token_sources :: "string list" where
  "ha_token_sources = [''default'', ''manual'', ''login'']"

definition dec_ha :: "json \<Rightarrow> ha_config option" where
  "dec_ha j = do {
     url \<leftarrow> field ''url'' [] dec_str j;
     username \<leftarrow> field ''username'' [] dec_str j;
     password \<leftarrow> field ''password'' [] dec_str j;
     token \<leftarrow> field ''token'' [] dec_str j;
     source \<leftarrow> field ''tokenSource'' [] dec_str j;
     Some \<lparr>hc_url = url, hc_username = username, hc_password = password, hc_token = token,
       hc_token_source = source\<rparr> }"

definition parse_ha_config :: "url_parser \<Rightarrow> string \<Rightarrow> ha_config option" where
  "parse_ha_config parse blob =
     (case Option.bind (json_parse blob) (opt_field ''ha'' dec_ha) of
        Some (Some raw) \<Rightarrow>
          (let url = normalize_ha_url parse (hc_url raw)
           in if url = [] then None
              else Some (raw\<lparr>hc_url := url, hc_username := trim_space (hc_username raw),
                hc_token_source := (if hc_token_source raw \<in> set ha_token_sources then hc_token_source raw
                                    else ''default'')\<rparr>))
      | _ \<Rightarrow> None)"

subsection \<open>What the readers promise\<close>

text \<open>A documented property of \<open>net/url\<close>: the text of a url with a scheme and a host begins with both.\<close>

definition url_parser_ok :: "url_parser \<Rightarrow> bool" where
  "url_parser_ok parse \<longleftrightarrow>
     (\<forall>u p s. parse u = Some p \<longrightarrow> pu_host p \<noteq> [] \<longrightarrow> s \<noteq> [] \<longrightarrow>
        has_prefix (pu_string p s) (s @ ''://'' @ take 1 (pu_host p)) \<and> take 1 (pu_host p) \<noteq> ''/'')"

lemma canonical_scheme_cases: "canonical_scheme s = Some t \<Longrightarrow> t = ''http'' \<or> t = ''https''"
  by (auto simp: canonical_scheme_def Let_def split: if_splits)

lemma trim_suffix_prefix: "has_prefix s (p @ [c]) \<Longrightarrow> c \<noteq> CHR ''/'' \<Longrightarrow> has_prefix (trim_suffix s ''/'') p"
proof (cases s rule: rev_cases)
  case (snoc ys y)
  assume "has_prefix s (p @ [c])" and c: "c \<noteq> CHR ''/''"
  then obtain r where r: "ys @ [y] = (p @ [c]) @ r" by (auto simp: has_prefix_iff snoc)
  show ?thesis
  proof (cases r rule: rev_cases)
    case Nil
    with r have "ys = p" "y = c" by auto
    with c snoc show ?thesis by (simp add: has_prefix_iff trim_suffix_def has_suffix_def)
  next
    case (snoc q z)
    with r have "ys = p @ [c] @ q" by simp
    with \<open>s = ys @ [y]\<close> show ?thesis by (simp add: has_prefix_iff trim_suffix_def has_suffix_def)
  qed
qed (simp add: has_prefix_iff)

text \<open>A usable url starts with \<open>http://\<close> or \<open>https://\<close>.\<close>

lemma normalized_url:
  assumes "url_parser_ok parse" and "normalize_ha_url parse raw \<noteq> []"
  shows "has_prefix (normalize_ha_url parse raw) ''http://'' \<or> has_prefix (normalize_ha_url parse raw) ''https://''"
proof -
  from assms(2) obtain u p s where p: "parse u = Some p" "pu_host p \<noteq> []" "canonical_scheme (pu_scheme p) = Some s"
      "normalize_ha_url parse raw = trim_suffix (pu_string p s) ''/''"
    by (auto simp: normalize_ha_url_def Let_def split: if_splits option.splits)
  from canonical_scheme_cases [OF p(3)] have s: "s = ''http'' \<or> s = ''https''" .
  from p(2) obtain c r where h: "pu_host p = c # r" by (cases "pu_host p") auto
  have "has_prefix (pu_string p s) ((s @ ''://'') @ [c]) \<and> c \<noteq> CHR ''/''"
    using assms(1) [unfolded url_parser_ok_def, rule_format, OF p(1,2), of s] s h by auto
  then have "has_prefix (normalize_ha_url parse raw) (s @ ''://'')"
    unfolding p(4) using trim_suffix_prefix by blast
  with s show ?thesis by auto
qed

lemma parse_ma_config_url:
  "parse_ma_config parse blob = Some cfg \<Longrightarrow> \<exists>raw. mc_url cfg = normalize_ha_url parse raw \<and> mc_url cfg \<noteq> []"
  by (fastforce simp: parse_ma_config_def Let_def split: option.splits if_splits)

text \<open>Only one slash is cut off the end: a url that ends with two keeps one, though the header promises
  none.\<close>

lemma second_slash_stays:
  assumes "parse ''http://h//'' = Some p" and "pu_host p = ''h''" and "pu_scheme p = ''http''"
    and "pu_string p ''http'' = ''http://h//''"
  shows "normalize_ha_url parse ''http://h//'' = ''http://h/''"
proof -
  have "trim_space ''http://h//'' = ''http://h//''" "str_contains ''http://h//'' ''://''" by code_simp+
  moreover have "canonical_scheme ''http'' = Some ''http''" by code_simp
  ultimately show ?thesis
    using assms by (simp add: normalize_ha_url_def trim_suffix_def has_suffix_def)
qed

text \<open>The source of a token is one of the three known ones.\<close>

lemma ha_token_source_known:
  "parse_ha_config parse blob = Some cfg \<Longrightarrow> hc_token_source cfg \<in> set ha_token_sources \<and> hc_url cfg \<noteq> []"
  by (auto simp: parse_ha_config_def ha_token_sources_def Let_def split: option.splits if_splits)

text \<open>A password and a token are taken as they are.\<close>

lemma tokens_verbatim:
  "json_parse blob = Some j \<Longrightarrow> opt_field ''ma'' dec_ma j = Some (Some (raw, token)) \<Longrightarrow>
    parse_ma_config parse blob = Some cfg \<Longrightarrow> mc_token cfg = token"
  by (auto simp: parse_ma_config_def Let_def split: if_splits)

end
