(* ===== verification/MaClient.thy ===== *)
theory MaClient
  imports Settings
begin

text \<open>
  The client of the Music Assistant server: \<open>ma/client.go\<close>, \<open>ma/types.go\<close> and \<open>ma/commands.go\<close>. Every
  command is one POST to the same endpoint; its answer is the result as it is, an error status,
  or a text that is no JSON.

  The server is a function \<open>net\<close>: what it answers to a post may depend on how many were sent before.
  All posts are kept in a log. The random message id of a post and its deadline are left out: a
  request that runs out of time is \<open>NoResponse\<close>. The conversion of positions to milliseconds stays in
  the range of int64.
\<close>

named_theorems ma_defs \<open>the commands of the server\<close>

subsection \<open>Calls\<close>

record ma_client =
  cl_base :: string
  cl_token :: string

record ma_post =
  po_url :: string
  po_auth :: "string option"
  po_command :: string
  po_args :: "(string \<times> json) list"

datatype ma_error =
    MaUnauthenticated
  | MaApiError string int string  \<comment> \<open>command, status, message\<close>
  | MaTransport string
  | MaDecode string

type_synonym ma_log = "ma_post list"
type_synonym ma_net = "nat \<Rightarrow> ma_post \<Rightarrow> http"

definition new_client :: "string \<Rightarrow> string \<Rightarrow> ma_client" where
  "new_client base token = \<lparr>cl_base = trim_suffix base ''/'', cl_token = token\<rparr>"

definition max_body :: int where "max_body = 4194304"

definition limit_body :: "string \<Rightarrow> string" where
  "limit_body full = (if int (length full) \<le> max_body then full else take (nat max_body) full)"

definition ma_post_of :: "ma_client \<Rightarrow> string \<Rightarrow> (string \<times> json) list \<Rightarrow> ma_post" where
  "ma_post_of c command args =
     \<lparr>po_url = cl_base c @ ''/api'',
      po_auth = (if cl_token c \<noteq> [] then Some (''Bearer '' @ cl_token c) else None),
      po_command = command, po_args = args\<rparr>"

text \<open>A result is absent when the body of a success is empty.\<close>

definition ma_result :: "string \<Rightarrow> http \<Rightarrow> ma_error + json option" where
  "ma_result command resp =
     (case resp of
        NoResponse \<Rightarrow> Inl (MaTransport command)
      | Response status body \<Rightarrow>
          (case body of
             None \<Rightarrow> Inl (MaTransport command)
           | Some full \<Rightarrow>
               let content = limit_body full
               in if status = 401 then Inl MaUnauthenticated
                  else if status < 200 \<or> status > 299 then Inl (MaApiError command status (trim_space content))
                  else if trim_space content = [] then Inr None
                  else case json_parse content of
                         None \<Rightarrow> Inl (MaApiError command status (trim_space content))
                       | Some j \<Rightarrow> Inr (Some j)))"

definition ma_call ::
    "ma_net \<Rightarrow> ma_client \<Rightarrow> string \<Rightarrow> (string \<times> json) list \<Rightarrow> ma_log \<Rightarrow> (ma_error + json option) \<times> ma_log" where
  "ma_call net c command args lg =
     (let post = ma_post_of c command args in (ma_result command (net (length lg) post), lg @ [post]))"

definition ma_decode :: "string \<Rightarrow> (json \<Rightarrow> 'a option) \<Rightarrow> ma_error + json option \<Rightarrow> ma_error + 'a" where
  "ma_decode command d r =
     (case r of
        Inl e \<Rightarrow> Inl e
      | Inr None \<Rightarrow> Inl (MaDecode command)
      | Inr (Some j) \<Rightarrow> (case d j of None \<Rightarrow> Inl (MaDecode command) | Some x \<Rightarrow> Inr x))"

text \<open>A command whose result is read, and one whose result is dropped.\<close>

definition ma_query ::
    "ma_net \<Rightarrow> ma_client \<Rightarrow> string \<Rightarrow> (string \<times> json) list \<Rightarrow> (json \<Rightarrow> 'a option) \<Rightarrow> ma_log \<Rightarrow> (ma_error + 'a) \<times> ma_log" where
  "ma_query net c command args d lg =
     (case ma_call net c command args lg of (r, lg') \<Rightarrow> (ma_decode command d r, lg'))"

definition ma_do ::
    "ma_net \<Rightarrow> ma_client \<Rightarrow> string \<Rightarrow> (string \<times> json) list \<Rightarrow> ma_log \<Rightarrow> ma_error option \<times> ma_log" where
  "ma_do net c command args lg =
     (case ma_call net c command args lg of
        (Inl e, lg') \<Rightarrow> (Some e, lg') | (Inr r, lg') \<Rightarrow> (None, lg'))"

subsection \<open>What the server reports\<close>

record media_image =
  mi_type :: string
  mi_path :: string
  mi_provider :: string
  mi_remote :: bool

record track_item =
  ti_item_id :: string
  ti_provider :: string
  ti_name :: string
  ti_uri :: string
  ti_media_type :: string
  ti_album :: string
  ti_version :: string
  ti_artists :: "string list"
  ti_duration :: int
  ti_position :: int
  ti_image :: "media_image option"
  ti_metadata :: "media_image list option"

record current_media =
  cm_uri :: string
  cm_media_type :: string
  cm_title :: string
  cm_artist :: string
  cm_album :: string
  cm_album_artist :: string
  cm_image_url :: string
  cm_duration :: int
  cm_elapsed :: "rat option"
  cm_elapsed_at :: "rat option"

record ma_player =
  pl_id :: string
  pl_name :: string
  pl_available :: bool
  pl_state :: string
  pl_elapsed :: "rat option"
  pl_elapsed_at :: "rat option"
  pl_volume :: "int option"
  pl_muted :: "bool option"
  pl_media :: "current_media option"
  pl_members :: "string list"
  pl_synced_to :: "string option"

record queue_item =
  qi_queue_id :: string
  qi_item_id :: string
  qi_name :: string
  qi_duration :: "rat option"
  qi_media :: "track_item option"
  qi_image :: "media_image option"

record queue_source =
  qs_item_id :: string
  qs_provider :: string
  qs_name :: string
  qs_uri :: string
  qs_media_type :: string

record player_queue =
  pq_id :: string
  pq_items :: int
  pq_current :: "int option"
  pq_state :: string
  pq_ended :: bool
  pq_shuffle :: bool
  pq_current_item :: "queue_item option"
  pq_next_item :: "queue_item option"
  pq_sources :: "queue_source list"
  pq_elapsed :: "rat option"
  pq_elapsed_at :: "rat option"

record browse_item =
  bi_item_id :: string
  bi_provider :: string
  bi_name :: string
  bi_uri :: string
  bi_path :: string
  bi_media_type :: string
  bi_image :: "media_image option"
  bi_metadata :: "media_image list option"

text \<open>The image of a track: its own, else the first one of its metadata.\<close>

definition cover :: "track_item \<Rightarrow> media_image option" where
  "cover t =
     (case ti_image t of
        Some i \<Rightarrow> Some i
      | None \<Rightarrow> (case ti_metadata t of Some (i # _) \<Rightarrow> Some i | _ \<Rightarrow> None))"

subsection \<open>Decoding\<close>

definition dec_image :: "json \<Rightarrow> media_image option" where
  "dec_image j = do {
     t \<leftarrow> field ''type'' [] dec_str j;
     p \<leftarrow> field ''path'' [] dec_str j;
     pr \<leftarrow> field ''provider'' [] dec_str j;
     r \<leftarrow> field ''remotely_accessible'' False dec_bool j;
     Some \<lparr>mi_type = t, mi_path = p, mi_provider = pr, mi_remote = r\<rparr> }"

definition dec_artist_name :: "json \<Rightarrow> string option" where
  "dec_artist_name j = field ''name'' [] dec_str j"

definition dec_images :: "json \<Rightarrow> media_image list option" where
  "dec_images j = field ''images'' [] (dec_list dec_image) j"

text \<open>An album is a name or an object with a name.\<close>

fun dec_album :: "json \<Rightarrow> string option" where
  "dec_album JNull = Some []"
| "dec_album (JStr s) = Some s"
| "dec_album (JObj kvs) = field ''name'' [] dec_str (JObj kvs)"
| "dec_album _ = None"

definition dec_track_item :: "json \<Rightarrow> track_item option" where
  "dec_track_item j = do {
     i \<leftarrow> field ''item_id'' [] dec_str j;
     p \<leftarrow> field ''provider'' [] dec_str j;
     n \<leftarrow> field ''name'' [] dec_str j;
     u \<leftarrow> field ''uri'' [] dec_str j;
     m \<leftarrow> field ''media_type'' [] dec_str j;
     al \<leftarrow> field ''album'' [] dec_album j;
     v \<leftarrow> field ''version'' [] dec_str j;
     ar \<leftarrow> field ''artists'' [] (dec_list dec_artist_name) j;
     d \<leftarrow> field ''duration'' 0 dec_int j;
     po \<leftarrow> field ''position'' 0 dec_int j;
     im \<leftarrow> opt_field ''image'' dec_image j;
     md \<leftarrow> opt_field ''metadata'' dec_images j;
     Some \<lparr>ti_item_id = i, ti_provider = p, ti_name = n, ti_uri = u, ti_media_type = m, ti_album = al,
       ti_version = v, ti_artists = ar, ti_duration = d, ti_position = po, ti_image = im, ti_metadata = md\<rparr> }"

definition dec_current_media :: "json \<Rightarrow> current_media option" where
  "dec_current_media j = do {
     u \<leftarrow> field ''uri'' [] dec_str j;
     m \<leftarrow> field ''media_type'' [] dec_str j;
     t \<leftarrow> field ''title'' [] dec_str j;
     a \<leftarrow> field ''artist'' [] dec_str j;
     al \<leftarrow> field ''album'' [] dec_str j;
     aa \<leftarrow> field ''album_artist'' [] dec_str j;
     im \<leftarrow> field ''image_url'' [] dec_str j;
     d \<leftarrow> field ''duration'' 0 dec_int j;
     e \<leftarrow> opt_field ''elapsed_time'' dec_float j;
     ea \<leftarrow> opt_field ''elapsed_time_last_updated'' dec_float j;
     Some \<lparr>cm_uri = u, cm_media_type = m, cm_title = t, cm_artist = a, cm_album = al, cm_album_artist = aa,
       cm_image_url = im, cm_duration = d, cm_elapsed = e, cm_elapsed_at = ea\<rparr> }"

definition dec_player :: "json \<Rightarrow> ma_player option" where
  "dec_player j = do {
     i \<leftarrow> field ''player_id'' [] dec_str j;
     n \<leftarrow> field ''name'' [] dec_str j;
     av \<leftarrow> field ''available'' False dec_bool j;
     st \<leftarrow> field ''playback_state'' [] dec_str j;
     e \<leftarrow> opt_field ''elapsed_time'' dec_float j;
     ea \<leftarrow> opt_field ''elapsed_time_last_updated'' dec_float j;
     v \<leftarrow> opt_field ''volume_level'' dec_int j;
     mu \<leftarrow> opt_field ''volume_muted'' dec_bool j;
     m \<leftarrow> opt_field ''current_media'' dec_current_media j;
     g \<leftarrow> field ''group_members'' [] (dec_list dec_str) j;
     s \<leftarrow> opt_field ''synced_to'' dec_str j;
     Some \<lparr>pl_id = i, pl_name = n, pl_available = av, pl_state = st, pl_elapsed = e, pl_elapsed_at = ea,
       pl_volume = v, pl_muted = mu, pl_media = m, pl_members = g, pl_synced_to = s\<rparr> }"

definition dec_queue_item :: "json \<Rightarrow> queue_item option" where
  "dec_queue_item j = do {
     q \<leftarrow> field ''queue_id'' [] dec_str j;
     i \<leftarrow> field ''queue_item_id'' [] dec_str j;
     n \<leftarrow> field ''name'' [] dec_str j;
     d \<leftarrow> opt_field ''duration'' dec_float j;
     m \<leftarrow> opt_field ''media_item'' dec_track_item j;
     im \<leftarrow> opt_field ''image'' dec_image j;
     Some \<lparr>qi_queue_id = q, qi_item_id = i, qi_name = n, qi_duration = d, qi_media = m, qi_image = im\<rparr> }"

definition dec_queue_source :: "json \<Rightarrow> queue_source option" where
  "dec_queue_source j = do {
     i \<leftarrow> field ''item_id'' [] dec_str j;
     p \<leftarrow> field ''provider'' [] dec_str j;
     n \<leftarrow> field ''name'' [] dec_str j;
     u \<leftarrow> field ''uri'' [] dec_str j;
     m \<leftarrow> field ''media_type'' [] dec_str j;
     Some \<lparr>qs_item_id = i, qs_provider = p, qs_name = n, qs_uri = u, qs_media_type = m\<rparr> }"

definition dec_player_queue :: "json \<Rightarrow> player_queue option" where
  "dec_player_queue j = do {
     q \<leftarrow> field ''queue_id'' [] dec_str j;
     n \<leftarrow> field ''items'' 0 dec_int j;
     c \<leftarrow> opt_field ''current_index'' dec_int j;
     s \<leftarrow> field ''state'' [] dec_str j;
     en \<leftarrow> field ''ended'' False dec_bool j;
     sh \<leftarrow> field ''shuffle_enabled'' False dec_bool j;
     ci \<leftarrow> opt_field ''current_item'' dec_queue_item j;
     ni \<leftarrow> opt_field ''next_item'' dec_queue_item j;
     so \<leftarrow> field ''sources'' [] (dec_list dec_queue_source) j;
     e \<leftarrow> opt_field ''elapsed_time'' dec_float j;
     ea \<leftarrow> opt_field ''elapsed_time_last_updated'' dec_float j;
     Some \<lparr>pq_id = q, pq_items = n, pq_current = c, pq_state = s, pq_ended = en, pq_shuffle = sh,
       pq_current_item = ci, pq_next_item = ni, pq_sources = so, pq_elapsed = e, pq_elapsed_at = ea\<rparr> }"

definition dec_browse_item :: "json \<Rightarrow> browse_item option" where
  "dec_browse_item j = do {
     i \<leftarrow> field ''item_id'' [] dec_str j;
     p \<leftarrow> field ''provider'' [] dec_str j;
     n \<leftarrow> field ''name'' [] dec_str j;
     u \<leftarrow> field ''uri'' [] dec_str j;
     pa \<leftarrow> field ''path'' [] dec_str j;
     m \<leftarrow> field ''media_type'' [] dec_str j;
     im \<leftarrow> opt_field ''image'' dec_image j;
     md \<leftarrow> opt_field ''metadata'' dec_images j;
     Some \<lparr>bi_item_id = i, bi_provider = p, bi_name = n, bi_uri = u, bi_path = pa, bi_media_type = m,
       bi_image = im, bi_metadata = md\<rparr> }"

subsection \<open>Commands\<close>

definition jint :: "int \<Rightarrow> json" where "jint n = JNum (of_int n) True"

definition player_args :: "string \<Rightarrow> (string \<times> json) list" where
  "player_args pid = [(''player_id'', JStr pid)]"

definition list_players :: "ma_net \<Rightarrow> ma_client \<Rightarrow> ma_log \<Rightarrow> (ma_error + ma_player list) \<times> ma_log" where
  "list_players net c = ma_query net c ''players/all'' [] (dec_list dec_player)"

definition get_player :: "ma_net \<Rightarrow> ma_client \<Rightarrow> string \<Rightarrow> ma_log \<Rightarrow> (ma_error + ma_player) \<times> ma_log" where
  "get_player net c pid = ma_query net c ''players/get'' (player_args pid) dec_player"

definition ma_play :: "ma_net \<Rightarrow> ma_client \<Rightarrow> string \<Rightarrow> ma_log \<Rightarrow> ma_error option \<times> ma_log" where
  "ma_play net c pid = ma_do net c ''players/cmd/play'' (player_args pid)"

definition ma_pause :: "ma_net \<Rightarrow> ma_client \<Rightarrow> string \<Rightarrow> ma_log \<Rightarrow> ma_error option \<times> ma_log" where
  "ma_pause net c pid = ma_do net c ''players/cmd/pause'' (player_args pid)"

definition ma_next :: "ma_net \<Rightarrow> ma_client \<Rightarrow> string \<Rightarrow> ma_log \<Rightarrow> ma_error option \<times> ma_log" where
  "ma_next net c pid = ma_do net c ''players/cmd/next'' (player_args pid)"

definition ma_previous :: "ma_net \<Rightarrow> ma_client \<Rightarrow> string \<Rightarrow> ma_log \<Rightarrow> ma_error option \<times> ma_log" where
  "ma_previous net c pid = ma_do net c ''players/cmd/previous'' (player_args pid)"

definition ma_seek :: "ma_net \<Rightarrow> ma_client \<Rightarrow> string \<Rightarrow> int \<Rightarrow> ma_log \<Rightarrow> ma_error option \<times> ma_log" where
  "ma_seek net c pid pos =
     ma_do net c ''players/cmd/seek'' [(''player_id'', JStr pid), (''position'', jint pos)]"

definition ma_volume_set :: "ma_net \<Rightarrow> ma_client \<Rightarrow> string \<Rightarrow> int \<Rightarrow> ma_log \<Rightarrow> ma_error option \<times> ma_log" where
  "ma_volume_set net c pid level =
     ma_do net c ''players/cmd/volume_set'' [(''player_id'', JStr pid), (''volume_level'', jint level)]"

definition ma_volume_up :: "ma_net \<Rightarrow> ma_client \<Rightarrow> string \<Rightarrow> ma_log \<Rightarrow> ma_error option \<times> ma_log" where
  "ma_volume_up net c pid = ma_do net c ''players/cmd/volume_up'' (player_args pid)"

definition ma_volume_down :: "ma_net \<Rightarrow> ma_client \<Rightarrow> string \<Rightarrow> ma_log \<Rightarrow> ma_error option \<times> ma_log" where
  "ma_volume_down net c pid = ma_do net c ''players/cmd/volume_down'' (player_args pid)"

definition ma_volume_mute :: "ma_net \<Rightarrow> ma_client \<Rightarrow> string \<Rightarrow> bool \<Rightarrow> ma_log \<Rightarrow> ma_error option \<times> ma_log" where
  "ma_volume_mute net c pid muted =
     ma_do net c ''players/cmd/volume_mute'' [(''player_id'', JStr pid), (''muted'', JBool muted)]"

definition ma_shuffle :: "ma_net \<Rightarrow> ma_client \<Rightarrow> string \<Rightarrow> bool \<Rightarrow> ma_log \<Rightarrow> ma_error option \<times> ma_log" where
  "ma_shuffle net c pid enabled =
     ma_do net c ''player_queues/shuffle'' [(''queue_id'', JStr pid), (''shuffle_enabled'', JBool enabled)]"

definition repeat_off :: string where "repeat_off = ''off''"
definition repeat_one :: string where "repeat_one = ''one''"
definition repeat_all :: string where "repeat_all = ''all''"

definition ma_repeat :: "ma_net \<Rightarrow> ma_client \<Rightarrow> string \<Rightarrow> string \<Rightarrow> ma_log \<Rightarrow> ma_error option \<times> ma_log" where
  "ma_repeat net c pid mode =
     ma_do net c ''players/cmd/repeat'' [(''player_id'', JStr pid), (''repeat_mode'', JStr mode)]"

definition play_media ::
    "ma_net \<Rightarrow> ma_client \<Rightarrow> string \<Rightarrow> string \<Rightarrow> string \<Rightarrow> ma_log \<Rightarrow> ma_error option \<times> ma_log" where
  "play_media net c qid uri start =
     ma_do net c ''player_queues/play_media''
       ([(''queue_id'', JStr qid), (''media'', JArr [JStr uri]), (''option'', JStr ''replace'')] @
        (if start \<noteq> [] then [(''start_item'', JStr start)] else []))"

definition play_index :: "ma_net \<Rightarrow> ma_client \<Rightarrow> string \<Rightarrow> int \<Rightarrow> ma_log \<Rightarrow> ma_error option \<times> ma_log" where
  "play_index net c qid i =
     ma_do net c ''player_queues/play_index'' [(''queue_id'', JStr qid), (''index'', jint i)]"

definition queue_resume :: "ma_net \<Rightarrow> ma_client \<Rightarrow> string \<Rightarrow> ma_log \<Rightarrow> ma_error option \<times> ma_log" where
  "queue_resume net c qid = ma_do net c ''player_queues/resume'' [(''queue_id'', JStr qid)]"

definition transfer_queue ::
    "ma_net \<Rightarrow> ma_client \<Rightarrow> string \<Rightarrow> string \<Rightarrow> ma_log \<Rightarrow> ma_error option \<times> ma_log" where
  "transfer_queue net c source target =
     ma_do net c ''player_queues/transfer''
       [(''source_queue_id'', JStr source), (''target_queue_id'', JStr target)]"

definition get_queue :: "ma_net \<Rightarrow> ma_client \<Rightarrow> string \<Rightarrow> ma_log \<Rightarrow> (ma_error + player_queue) \<times> ma_log" where
  "get_queue net c qid = ma_query net c ''player_queues/get'' [(''queue_id'', JStr qid)] dec_player_queue"

definition queue_items ::
    "ma_net \<Rightarrow> ma_client \<Rightarrow> string \<Rightarrow> int \<Rightarrow> int \<Rightarrow> ma_log \<Rightarrow> (ma_error + queue_item list) \<times> ma_log" where
  "queue_items net c qid limit offset =
     ma_query net c ''player_queues/items''
       [(''queue_id'', JStr qid), (''limit'', jint limit), (''offset'', jint offset)] (dec_list dec_queue_item)"

definition browse :: "ma_net \<Rightarrow> ma_client \<Rightarrow> string \<Rightarrow> ma_log \<Rightarrow> (ma_error + browse_item list) \<times> ma_log" where
  "browse net c path = ma_query net c ''music/browse'' [(''path'', JStr path)] (dec_list dec_browse_item)"

definition playlist_tracks :: "ma_net \<Rightarrow> ma_client \<Rightarrow> string \<Rightarrow> ma_log \<Rightarrow> (ma_error + track_item list) \<times> ma_log" where
  "playlist_tracks net c item =
     ma_query net c ''music/playlists/playlist_tracks''
       [(''item_id'', JStr item), (''provider_instance_id_or_domain'', JStr ''library'')] (dec_list dec_track_item)"

definition album_tracks ::
    "ma_net \<Rightarrow> ma_client \<Rightarrow> string \<Rightarrow> string \<Rightarrow> ma_log \<Rightarrow> (ma_error + track_item list) \<times> ma_log" where
  "album_tracks net c item provider =
     ma_query net c ''music/albums/album_tracks''
       [(''item_id'', JStr item), (''provider_instance_id_or_domain'', JStr provider)] (dec_list dec_track_item)"

definition playable_row :: "track_item \<Rightarrow> bool" where
  "playable_row t \<longleftrightarrow> (ti_media_type t = ''track'' \<or> ti_media_type t = ''playlist'') \<and> ti_uri t \<noteq> []"

definition recently_played ::
    "ma_net \<Rightarrow> ma_client \<Rightarrow> int \<Rightarrow> string \<Rightarrow> string list \<Rightarrow> bool \<Rightarrow> ma_log \<Rightarrow> (ma_error + track_item list) \<times> ma_log" where
  "recently_played net c limit qid types fully lg =
     (case ma_query net c ''music/recently_played_items''
             ([(''limit'', jint limit), (''fully_played_only'', JBool fully)] @
              (if types \<noteq> [] then [(''media_types'', JArr (map JStr types))] else []) @
              (if qid \<noteq> [] then [(''queue_id'', JStr qid)] else [])) (dec_list dec_track_item) lg of
        (Inl e, lg') \<Rightarrow> (Inl e, lg')
      | (Inr items, lg') \<Rightarrow> (Inr (filter playable_row items), lg'))"

lemmas ma_ops [ma_defs] = list_players_def get_player_def ma_play_def ma_pause_def ma_next_def ma_previous_def
  ma_seek_def ma_volume_set_def ma_shuffle_def ma_repeat_def play_media_def play_index_def queue_resume_def
  transfer_queue_def get_queue_def queue_items_def browse_def playlist_tracks_def album_tracks_def

subsection \<open>One post per command\<close>

lemma ma_call_log: "ma_call net c command args lg = (r, lg') \<Longrightarrow> lg' = lg @ [ma_post_of c command args]"
  by (auto simp: ma_call_def Let_def)

lemma ma_query_log [dest]: "ma_query net c command args d lg = (r, lg') \<Longrightarrow> lg' = lg @ [ma_post_of c command args]"
  by (auto simp: ma_query_def split: prod.splits dest: ma_call_log)

lemma ma_do_log [dest]: "ma_do net c command args lg = (r, lg') \<Longrightarrow> lg' = lg @ [ma_post_of c command args]"
  by (auto simp: ma_do_def split: prod.splits sum.splits dest: ma_call_log)

lemma recently_played_rows:
  "recently_played net c limit qid types fully lg = (Inr items, lg') \<Longrightarrow> t \<in> set items \<Longrightarrow> playable_row t"
  by (auto simp: recently_played_def split: prod.splits sum.splits)

text \<open>The token travels only to the configured server, and only when there is one.\<close>

lemma ma_post_of_fields [simp]:
  "po_url (ma_post_of c command args) = cl_base c @ ''/api''"
  "po_command (ma_post_of c command args) = command"
  "po_args (ma_post_of c command args) = args"
  by (simp_all add: ma_post_of_def)

text \<open>A rejected token is told apart from every other failure.\<close>

lemma ma_result_unauthenticated:
  "ma_result command (Response status body) = Inl MaUnauthenticated \<longleftrightarrow> status = 401 \<and> body \<noteq> None"
  by (auto simp: ma_result_def Let_def split: option.splits)

lemma ma_result_ok:
  "ma_result command resp = Inr r \<Longrightarrow> \<exists>status body. resp = Response status (Some body) \<and> 200 \<le> status \<and> status \<le> 299"
  by (auto simp: ma_result_def Let_def split: http.splits option.splits if_splits)

lemma album_shapes: "dec_album (JStr s) = Some s" "dec_album (JObj [(''name'', JStr s)]) = Some s"
  by (simp_all add: field_def member_def same_key_def)

end
