(* ===== verification/MaContent.thy ===== *)
theory MaContent
  imports MaClient "HOL-Library.Multiset"
begin

text \<open>
  Playlists, tracks and devices of the Music Assistant server as the user interface gets them:
  \<open>daemon/ma_content.go\<close> and the pure parts of \<open>daemon/player_ma.go\<close> it uses.
\<close>

subsection \<open>Images\<close>

text \<open>An image the interface can fetch itself.\<close>

definition ma_image_url :: "media_image option \<Rightarrow> string" where
  "ma_image_url img =
     (case img of
        None \<Rightarrow> []
      | Some i \<Rightarrow>
          if \<not> mi_remote i then []
          else if has_prefix (mi_path i) ''http://'' \<or> has_prefix (mi_path i) ''https://'' then mi_path i
          else [])"

definition ma_playlist_image :: "browse_item \<Rightarrow> string" where
  "ma_playlist_image it =
     (case bi_metadata it of
        None \<Rightarrow> []
      | Some imgs \<Rightarrow>
          (case find (\<lambda>i. ma_image_url (Some i) \<noteq> []) imgs of
             None \<Rightarrow> [] | Some i \<Rightarrow> ma_image_url (Some i)))"

subsection \<open>Playlists\<close>

record ma_playlist =
  mpl_id :: string
  mpl_name :: string
  mpl_uri :: string
  mpl_image :: string

definition is_provider_folder :: "browse_item \<Rightarrow> bool" where
  "is_provider_folder f \<longleftrightarrow> has_suffix (bi_path f) ''://''"

definition folder_playlists :: "browse_item list \<Rightarrow> ma_playlist list" where
  "folder_playlists items =
     map (\<lambda>it. \<lparr>mpl_id = bi_item_id it, mpl_name = bi_name it, mpl_uri = bi_uri it, mpl_image = ma_playlist_image it\<rparr>)
       (filter (\<lambda>it. bi_media_type it = ''playlist'' \<and> bi_uri it \<noteq> []) items)"

text \<open>The folders one after the other: the playlists found, the number of folders and of those that failed.\<close>

fun browse_folders ::
    "ma_net \<Rightarrow> ma_client \<Rightarrow> browse_item list \<Rightarrow> ma_log \<Rightarrow> (ma_playlist list \<times> nat \<times> nat) \<times> ma_log" where
  "browse_folders net c [] lg = (([], 0, 0), lg)"
| "browse_folders net c (f # fs) lg =
     (if \<not> is_provider_folder f then browse_folders net c fs lg
      else case browse net c (bi_path f @ ''playlists'') lg of
             (Inl e, lg1) \<Rightarrow>
               (case browse_folders net c fs lg1 of ((pls, n, failed), lg2) \<Rightarrow> ((pls, Suc n, Suc failed), lg2))
           | (Inr items, lg1) \<Rightarrow>
               (case browse_folders net c fs lg1 of
                  ((pls, n, failed), lg2) \<Rightarrow> ((folder_playlists items @ pls, Suc n, failed), lg2)))"

datatype ma_failure = MaBadRequest | MaCall ma_error | MaFailure string

definition ma_browse_playlists ::
    "ma_net \<Rightarrow> ma_client \<Rightarrow> ma_log \<Rightarrow> (ma_failure + ma_playlist list) \<times> ma_log" where
  "ma_browse_playlists net c lg =
     (case browse net c ''root'' lg of
        (Inl e, lg1) \<Rightarrow> (Inl (MaCall e), lg1)
      | (Inr rootdir, lg1) \<Rightarrow>
          (case browse_folders net c rootdir lg1 of
             ((pls, n, failed), lg2) \<Rightarrow>
               (if n > 0 \<and> failed = n then Inl (MaFailure ''music assistant playlist browse failed for all providers'')
                else Inr pls, lg2)))"

subsection \<open>The order of the playlists\<close>

text \<open>The position of the newest entry of the play log with an id.\<close>

fun recent_index :: "track_item list \<Rightarrow> string \<Rightarrow> nat option" where
  "recent_index [] i = None"
| "recent_index (t # ts) i = (if ti_item_id t = i then Some 0 else map_option Suc (recent_index ts i))"

definition recent_less :: "track_item list \<Rightarrow> ma_playlist \<Rightarrow> ma_playlist \<Rightarrow> bool" where
  "recent_less recent a b \<longleftrightarrow> the (recent_index recent (mpl_id a)) < the (recent_index recent (mpl_id b))"

definition order_playlists :: "track_item list \<Rightarrow> ma_playlist list \<Rightarrow> ma_playlist list" where
  "order_playlists recent pls =
     (let played = filter (\<lambda>p. recent_index recent (mpl_id p) \<noteq> None) pls;
          rest = filter (\<lambda>p. recent_index recent (mpl_id p) = None) pls
      in if played = [] then pls else stable_sort (recent_less recent) played @ rest)"

definition ma_apply_recent_playlist_order ::
    "ma_net \<Rightarrow> ma_client \<Rightarrow> ma_playlist list \<Rightarrow> ma_log \<Rightarrow> ma_playlist list \<times> ma_log" where
  "ma_apply_recent_playlist_order net c pls lg =
     (if length pls < 2 then (pls, lg)
      else case recently_played net c 50 [] [''playlist''] False lg of
             (Inl e, lg') \<Rightarrow> (pls, lg')
           | (Inr recent, lg') \<Rightarrow> (order_playlists recent pls, lg'))"

subsection \<open>Devices and tracks\<close>

record ma_device =
  md_id :: string
  md_name :: string
  md_available :: bool

definition ma_group_id_prefix :: string where "ma_group_id_prefix = ''group:''"

text \<open>Every player, and one more entry for each master of a group.\<close>

definition ma_map_devices :: "ma_player list \<Rightarrow> ma_device list" where
  "ma_map_devices players =
     map (\<lambda>p. \<lparr>md_id = pl_id p, md_name = pl_name p, md_available = pl_available p\<rparr>) players @
     map (\<lambda>p. \<lparr>md_id = ma_group_id_prefix @ pl_id p, md_name = pl_name p @ '' (Gruppe)'', md_available = pl_available p\<rparr>)
       (filter (\<lambda>p. length (pl_members p) > 1) players)"

record ma_track =
  mt_id :: string
  mt_name :: string
  mt_uri :: string
  mt_album :: string
  mt_artists :: "string list"
  mt_duration_ms :: int
  mt_position :: int
  mt_image :: string
  mt_media_type :: string

definition ma_map_playlist_items :: "track_item list \<Rightarrow> ma_track list" where
  "ma_map_playlist_items items =
     map (\<lambda>t. \<lparr>mt_id = ti_item_id t, mt_name = ti_name t, mt_uri = ti_uri t, mt_album = ti_album t,
                mt_artists = filter (\<lambda>a. a \<noteq> []) (ti_artists t),
                mt_duration_ms = (if ti_duration t > 0 then ti_duration t * 1000 else 0),
                mt_position = ti_position t, mt_image = ma_image_url (cover t), mt_media_type = []\<rparr>)
       (filter (\<lambda>t. ti_uri t \<noteq> []) items)"

definition ma_map_recent_items :: "track_item list \<Rightarrow> ma_track list" where
  "ma_map_recent_items items =
     map (\<lambda>t. \<lparr>mt_id = ti_item_id t, mt_name = ti_name t, mt_uri = ti_uri t, mt_album = [], mt_artists = [],
                mt_duration_ms = 0, mt_position = 0, mt_image = ma_image_url (ti_image t),
                mt_media_type = (if ti_media_type t = ''playlist'' then ''playlist'' else [])\<rparr>) items"

text \<open>The player an id stands for: the master of the group it names or belongs to, nothing when it is unknown.\<close>

definition resolve_player :: "string \<Rightarrow> ma_player list \<Rightarrow> string" where
  "resolve_player i players =
     (case find (\<lambda>p. pl_id p = i) players of
        None \<Rightarrow> []
      | Some p \<Rightarrow> (case pl_synced_to p of None \<Rightarrow> i | Some m \<Rightarrow> if m \<noteq> [] then m else i))"

definition ma_resolve_player_id :: "string \<Rightarrow> ma_player list \<Rightarrow> string" where
  "ma_resolve_player_id i players = resolve_player (trim_prefix i ma_group_id_prefix) players"

subsection \<open>Lemmas\<close>

lemma browse_folders_counts:
  "browse_folders net c fs lg = ((pls, n, failed), lg') \<Longrightarrow>
    n = length (filter is_provider_folder fs) \<and> failed \<le> n \<and> (failed = n \<longrightarrow> pls = [])"
  by (induction fs arbitrary: lg pls n failed lg')
    (fastforce split: if_splits prod.splits sum.splits)+

lemma folder_playlists_ok: "p \<in> set (folder_playlists items) \<Longrightarrow> mpl_uri p \<noteq> []"
  by (auto simp: folder_playlists_def)

lemma browse_folders_uris:
  "browse_folders net c fs lg = ((pls, n, failed), lg') \<Longrightarrow> p \<in> set pls \<Longrightarrow> mpl_uri p \<noteq> []"
  by (induction fs arbitrary: lg pls n failed lg')
    (fastforce split: if_splits prod.splits sum.splits dest: folder_playlists_ok)+

lemma recent_index_None: "recent_index ts i = None \<longleftrightarrow> i \<notin> ti_item_id ` set ts"
  by (induction ts) auto

lemma recent_index_Some:
  "recent_index ts i = Some k \<Longrightarrow> k < length ts \<and> ti_item_id (ts ! k) = i \<and> (\<forall>j < k. ti_item_id (ts ! j) \<noteq> i)"
proof (induction ts arbitrary: k)
  case (Cons t ts)
  show ?case
  proof (cases "ti_item_id t = i")
    case False
    with Cons.prems obtain m where "recent_index ts i = Some m" "k = Suc m" by auto
    with Cons.IH [of m] False show ?thesis by (auto simp: less_Suc_eq_0_disj)
  qed (use Cons.prems in auto)
qed simp

lemma image_is_absolute:
  "ma_image_url img = [] \<or> has_prefix (ma_image_url img) ''http://'' \<or> has_prefix (ma_image_url img) ''https://''"
  by (auto simp: ma_image_url_def split: option.split)

text \<open>The recency of a playlist: the place of its newest entry of the play log, behind all others when it has
  none.\<close>

definition recency :: "track_item list \<Rightarrow> ma_playlist \<Rightarrow> nat" where
  "recency recent p = (case recent_index recent (mpl_id p) of None \<Rightarrow> length recent | Some k \<Rightarrow> k)"

lemma insert_by_key: "(\<And>y. y \<in> set ys \<Longrightarrow> lt y x \<longleftrightarrow> f y < f x) \<Longrightarrow> insert_by lt x ys = insort_key f x ys"
  for f :: "'a \<Rightarrow> 'b :: linorder"
  by (induction ys) auto

lemma stable_sort_key:
  fixes f :: "'a \<Rightarrow> 'b :: linorder"
  assumes "\<And>x y. x \<in> set xs \<Longrightarrow> y \<in> set xs \<Longrightarrow> lt x y \<longleftrightarrow> f x < f y"
  shows "stable_sort lt xs = sort_key f xs"
  using assms
proof (induction xs)
  case (Cons x xs)
  then have "stable_sort lt xs = sort_key f xs" by simp
  moreover have "insert_by lt x (sort_key f xs) = insort_key f x (sort_key f xs)"
    by (rule insert_by_key) (simp add: Cons.prems)
  ultimately show ?case by simp
qed simp

lemma insort_key_append:
  fixes f :: "'a \<Rightarrow> 'b :: linorder"
  shows "(\<And>b. b \<in> set bs \<Longrightarrow> f x \<le> f b) \<Longrightarrow> insort_key f x (as @ bs) = insort_key f x as @ bs"
    and "(\<And>a. a \<in> set as \<Longrightarrow> f a < f x) \<Longrightarrow> insort_key f x (as @ bs) = as @ insort_key f x bs"
  by (induction as) (auto simp: insort_is_Cons not_le dest: leD)

text \<open>A stable sort can treat apart the elements that share the greatest key.\<close>

lemma sort_key_split:
  fixes f :: "'a \<Rightarrow> 'b :: linorder"
  assumes "\<And>x. P x \<Longrightarrow> f x < m" and "\<And>x. \<not> P x \<Longrightarrow> f x = m"
  shows "sort_key f xs = sort_key f (filter P xs) @ filter (\<lambda>x. \<not> P x) xs"
proof (induction xs)
  case (Cons x xs)
  show ?case
  proof (cases "P x")
    case True
    then have "f x \<le> f b" if "b \<in> set (filter (\<lambda>x. \<not> P x) xs)" for b
      using that assms(1) [OF True] assms(2) [of b] by (simp add: less_imp_le)
    then have "insort_key f x (sort_key f (filter P xs) @ filter (\<lambda>x. \<not> P x) xs) =
        insort_key f x (sort_key f (filter P xs)) @ filter (\<lambda>x. \<not> P x) xs"
      by (rule insort_key_append(1))
    with True Cons show ?thesis by simp
  next
    case False
    have "f a < f x" if "a \<in> set (sort_key f (filter P xs))" for a
      using that assms False by auto
    then have "insort_key f x (sort_key f (filter P xs) @ filter (\<lambda>x. \<not> P x) xs) =
        sort_key f (filter P xs) @ insort_key f x (filter (\<lambda>x. \<not> P x) xs)"
      by (rule insort_key_append(2))
    moreover have "insort_key f x (filter (\<lambda>x. \<not> P x) xs) = x # filter (\<lambda>x. \<not> P x) xs"
      using False assms(2) by (intro insort_is_Cons) auto
    ultimately show ?thesis using False Cons by simp
  qed
qed simp

lemma recency_less: "recent_index recent (mpl_id p) \<noteq> None \<Longrightarrow> recency recent p < length recent"
  using recent_index_Some [of recent] by (auto simp: recency_def)

text \<open>The playlists are served in the order of their last use: the list is the stable sort of the
  browsed one by the place of its newest entry of the play log, the never played ones last in the
  order of browsing. None is lost or repeated.\<close>

theorem playlists_by_recency: "order_playlists recent pls = sort_key (recency recent) pls"
proof -
  let ?p = "\<lambda>p. recent_index recent (mpl_id p) \<noteq> None"
  have s: "stable_sort (recent_less recent) (filter ?p pls) = sort_key (recency recent) (filter ?p pls)"
    by (rule stable_sort_key) (auto simp: recent_less_def recency_def)
  have "sort_key (recency recent) pls = sort_key (recency recent) (filter ?p pls) @ filter (\<lambda>p. \<not> ?p p) pls"
    by (rule sort_key_split [where m = "length recent"]) (auto simp: recency_less, simp add: recency_def)
  with s show ?thesis
    by (auto simp: order_playlists_def Let_def filter_empty_conv intro: filter_True)
qed

end
