(* ===== verification/PlayerMa.thy ===== *)
theory PlayerMa
  imports PlayerCluster MaContent Pathfinder "HOL-Library.Signed_Division"
begin

text \<open>
  The Music Assistant side of the player: \<open>daemon/player_ma.go\<close>. One player of the server is observed by
  polling, shown in the same shape as a Spotify device, and every control command goes to it.

  The record holds the \<open>ma*\<close> fields of \<open>AppPlayer\<close> around the observer of \<open>PlayerCluster\<close>, and the log of
  all posts. A tick of the poll, a control command and a request are one function each, since all of
  them run in one goroutine; the browse that warms the list of playlists is another one, which ends
  in a step of its own (\<open>ma_warmed\<close>). The settings are an argument: the parsed configuration, the
  source of playback and the default device. A copy of a state keeps its values; no code changes
  a state of this source in place.
\<close>

subsection \<open>State\<close>

record ma_settings =
  ms_config :: "ma_config option"
  ms_source :: string
  ms_default :: string

record ma_state =
  mp_ob :: observer
  mp_active :: string
  mp_client :: "(ma_client \<times> string \<times> string) option"
  mp_failing :: bool
  mp_upcoming_key :: string
  mp_upcoming :: "queue_track list"
  mp_last_active :: "remote_state option"
  mp_idle_fallback :: "remote_state option"
  mp_tried_for :: string
  mp_last_playback :: string
  mp_cache :: "ma_playlist list"
  mp_cached_at :: instant
  mp_warming :: "ma_client option"
  mp_log :: ma_log

definition ma_resolved :: "url_parser \<Rightarrow> string \<Rightarrow> ma_settings" where
  "ma_resolved parse blob = \<lparr>ms_config = parse_ma_config parse blob, ms_source = playback_source_from_settings blob,
     ms_default = ma_default_device_id_from_settings blob\<rparr>"

definition ma_mode_active :: "ma_settings \<Rightarrow> bool" where
  "ma_mode_active s \<longleftrightarrow> ms_config s \<noteq> None \<and> ms_source s = playback_source_ma"

text \<open>The client of the last configuration is kept with its url and token as they were configured.\<close>

definition ma_client_for :: "ma_config \<Rightarrow> ma_state \<Rightarrow> ma_client \<times> ma_state" where
  "ma_client_for cfg p =
     (case mp_client p of
        Some (c, url, token) \<Rightarrow>
          if url = mc_url cfg \<and> token = mc_token cfg then (c, p)
          else let c' = new_client (mc_url cfg) (mc_token cfg) in (c', p\<lparr>mp_client := Some (c', mc_url cfg, mc_token cfg)\<rparr>)
      | None \<Rightarrow>
          let c' = new_client (mc_url cfg) (mc_token cfg) in (c', p\<lparr>mp_client := Some (c', mc_url cfg, mc_token cfg)\<rparr>))"

subsection \<open>The target of a command\<close>

definition retarget_default ::
    "ma_net \<Rightarrow> ma_config \<Rightarrow> string \<Rightarrow> ma_state \<Rightarrow> (ma_failure + ma_client \<times> string) \<times> ma_state" where
  "retarget_default net cfg def p =
     (case ma_client_for cfg p of
        (c, p1) \<Rightarrow>
          (case list_players net c (mp_log p1) of
             (Inl e, lg) \<Rightarrow> (Inl MaBadRequest, p1\<lparr>mp_log := lg\<rparr>)
           | (Inr players, lg) \<Rightarrow>
               let resolved = ma_resolve_player_id def players
               in if resolved \<noteq> [] then (Inr (c, resolved), p1\<lparr>mp_log := lg, mp_active := resolved\<rparr>)
                  else (Inl MaBadRequest, p1\<lparr>mp_log := lg\<rparr>)))"

definition ma_control_target ::
    "ma_net \<Rightarrow> ma_settings \<Rightarrow> ma_state \<Rightarrow> (ma_failure + ma_client \<times> string) \<times> ma_state" where
  "ma_control_target net s p =
     (case ms_config s of
        None \<Rightarrow> (Inl MaBadRequest, p)
      | Some cfg \<Rightarrow>
          if mp_active p = [] then
            (if ms_default s \<noteq> [] then retarget_default net cfg (ms_default s) p else (Inl MaBadRequest, p))
          else case ma_client_for cfg p of (c, p1) \<Rightarrow> (Inr (c, mp_active p1), p1))"

subsection \<open>Volumes\<close>

definition max_state_volume :: int where "max_state_volume = 65535"

definition ma_volume_to_state :: "int option \<Rightarrow> nat" where
  "ma_volume_to_state level =
     (case level of
        None \<Rightarrow> 0
      | Some v \<Rightarrow> if v < 0 then 0 else nat ((if v > 100 then 100 else v) * max_state_volume div 100))"

definition ma_target_to_level :: "int \<Rightarrow> int" where
  "ma_target_to_level target = target * 100 sdiv max_state_volume"

subsection \<open>The queue ahead\<close>

definition join_names :: "string list \<Rightarrow> string" where
  "join_names names =
     (case filter (\<lambda>a. a \<noteq> []) names of [] \<Rightarrow> [] | a # as \<Rightarrow> a @ concat (map ((@) '', '') as))"

definition ma_queue_item_to_upcoming :: "queue_item \<Rightarrow> int \<Rightarrow> queue_track" where
  "ma_queue_item_to_upcoming it pos =
     (case qi_media it of
        Some mi \<Rightarrow> \<lparr>qt_uri = ti_uri mi, qt_track_id = show_int pos, qt_name = ti_name mi,
                     qt_artist = join_names (ti_artists mi), qt_album = ti_album mi,
                     qt_image_url = (if ma_image_url (qi_image it) = [] then ma_image_url (cover mi)
                                     else ma_image_url (qi_image it))\<rparr>
      | None \<Rightarrow> \<lparr>qt_uri = [], qt_track_id = show_int pos, qt_name = qi_name it, qt_artist = [], qt_album = [],
                   qt_image_url = ma_image_url (qi_image it)\<rparr>)"

text \<open>The entries with their absolute positions, without the empty ones.\<close>

fun upcoming_from :: "int \<Rightarrow> queue_item list \<Rightarrow> queue_track list" where
  "upcoming_from pos [] = []"
| "upcoming_from pos (it # items) =
     (let t = ma_queue_item_to_upcoming it pos
      in if qt_uri t = [] \<and> qt_name t = [] then upcoming_from (pos + 1) items else t # upcoming_from (pos + 1) items)"

definition upcoming_key :: "string \<Rightarrow> int \<Rightarrow> int \<Rightarrow> string \<Rightarrow> string" where
  "upcoming_key qid cur items uri = qid @ ''|'' @ show_int cur @ ''|'' @ show_int items @ ''|'' @ uri"

definition ma_upcoming_tracks ::
    "ma_net \<Rightarrow> ma_client \<Rightarrow> ma_player \<Rightarrow> player_queue option \<Rightarrow> ma_state \<Rightarrow> queue_track list \<times> ma_state" where
  "ma_upcoming_tracks net c pl queue p =
     (case (queue, pl_media pl, Option.bind queue pq_current) of
        (Some q, Some media, Some cur) \<Rightarrow>
          let qid = (if pq_id q = [] then pl_id pl else pq_id q);
              key = upcoming_key qid cur (pq_items q) (cm_uri media)
          in if key = mp_upcoming_key p then (mp_upcoming p, p)
             else (case queue_items net c qid (int queue_limit) (cur + 1) (mp_log p) of
                     (Inl e, lg) \<Rightarrow> (mp_upcoming p, p\<lparr>mp_log := lg\<rparr>)
                   | (Inr items, lg) \<Rightarrow>
                       let up = upcoming_from (cur + 1) items
                       in (up, p\<lparr>mp_log := lg, mp_upcoming_key := key, mp_upcoming := up\<rparr>))
      | _ \<Rightarrow> (mp_upcoming p, p))"

subsection \<open>What is shown\<close>

definition ma_device_type :: string where "ma_device_type = ''MUSIC_ASSISTANT''"

text \<open>Seconds as the server reports them, in milliseconds.\<close>

definition seconds_to_ms :: "rat \<Rightarrow> int" where "seconds_to_ms x = trunc (f64 (x * 1000))"

definition ma_position :: "ma_player \<Rightarrow> player_queue option \<Rightarrow> (rat \<times> rat) option" where
  "ma_position pl queue =
     (case (Option.bind queue pq_elapsed, Option.bind queue pq_elapsed_at) of
        (Some e, Some a) \<Rightarrow> Some (e, a)
      | _ \<Rightarrow> (case (pl_elapsed pl, pl_elapsed_at pl) of (Some e, Some a) \<Rightarrow> Some (e, a) | _ \<Rightarrow> None))"

definition ma_remote_state :: "instant \<Rightarrow> int \<Rightarrow> ma_player \<Rightarrow> current_media \<Rightarrow> player_queue option \<Rightarrow> remote_state" where
  "ma_remote_state now now_ms pl media queue =
     (let pos = ma_position pl queue
      in zero_remote\<lparr>
        rs_device_id := pl_id pl, rs_device_name := pl_name pl, rs_device_type := ma_device_type,
        rs_track_uri := cm_uri media, rs_track_name := cm_title media, rs_track_artist := cm_artist media,
        rs_track_album := cm_album media, rs_track_image := cm_image_url media,
        rs_duration := cm_duration media * 1000,
        rs_is_playing := (pl_state pl = ''playing''), rs_is_paused := (pl_state pl = ''paused''),
        rs_volume := ma_volume_to_state (pl_volume pl), rs_volume_steps := 100,
        rs_speed := (if pl_state pl = ''playing'' then 1 else 0),
        rs_position_as_of := (case pos of Some (e, a) \<Rightarrow> seconds_to_ms e | None \<Rightarrow> 0),
        rs_timestamp := (case pos of Some (e, a) \<Rightarrow> seconds_to_ms a | None \<Rightarrow> 0),
        rs_received_at := now, rs_received_wall := now_ms\<rparr>)"

text \<open>The queue: fresh when the server gave one, else as it was shown on this device.\<close>

definition ma_fill_queue ::
    "player_queue option \<Rightarrow> queue_track list \<Rightarrow> observer \<Rightarrow> remote_state \<Rightarrow> remote_state" where
  "ma_fill_queue queue upcoming ob rs =
     (case queue of
        Some q \<Rightarrow> rs\<lparr>rs_next_tracks := upcoming,
                      rs_context_uri := (case pq_sources q of [s] \<Rightarrow> qs_uri s | _ \<Rightarrow> [])\<rparr>
      | None \<Rightarrow>
          (case ob_remote ob of
             Some prev \<Rightarrow>
               if ob_ma_owns ob \<and> rs_device_id prev = rs_device_id rs
               then rs\<lparr>rs_next_tracks := rs_next_tracks prev, rs_context_uri := rs_context_uri prev\<rparr>
               else rs
           | None \<Rightarrow> rs))"

definition ma_track_changed :: "observer \<Rightarrow> remote_state \<Rightarrow> bool" where
  "ma_track_changed ob rs =
     (case ob_remote ob of None \<Rightarrow> True | Some prev \<Rightarrow> \<not> ob_ma_owns ob \<or> rs_track_uri prev \<noteq> rs_track_uri rs)"

definition ma_show :: "bool \<Rightarrow> remote_state \<Rightarrow> observer \<Rightarrow> observer" where
  "ma_show voice rs ob =
     ob\<lparr>ob_remote := Some rs, ob_ma_owns := True,
        ob_last_device := (if rs_device_id rs \<noteq> [] then (rs_device_id rs, rs_device_name rs) else ob_last_device ob),
        ob_voice := ob_voice ob @ [voice],
        ob_events := ob_events ob @ [if ma_track_changed ob rs then TrackChanged rs else StateChanged rs]\<rparr>"

definition ma_idle_last_track :: "string \<Rightarrow> ma_state \<Rightarrow> remote_state option" where
  "ma_idle_last_track i p =
     (case mp_last_active p of
        Some r \<Rightarrow>
          if rs_device_id r = i then Some r
          else (case mp_idle_fallback p of Some q \<Rightarrow> if rs_device_id q = i then Some q else None | None \<Rightarrow> None)
      | None \<Rightarrow> (case mp_idle_fallback p of Some q \<Rightarrow> if rs_device_id q = i then Some q else None | None \<Rightarrow> None))"

definition ma_idle_state :: "instant \<Rightarrow> int \<Rightarrow> ma_player \<Rightarrow> ma_state \<Rightarrow> remote_state" where
  "ma_idle_state now now_ms pl p =
     (let rs0 = zero_remote\<lparr>
            rs_device_id := pl_id pl, rs_device_name := pl_name pl, rs_device_type := ma_device_type,
            rs_is_paused := True, rs_volume := ma_volume_to_state (pl_volume pl), rs_volume_steps := 100,
            rs_received_at := now, rs_received_wall := now_ms, rs_timestamp := now_ms\<rparr>;
          rs1 = (case ma_idle_last_track (pl_id pl) p of
                   None \<Rightarrow> rs0
                 | Some l \<Rightarrow> rs0\<lparr>rs_track_uri := rs_track_uri l, rs_track_name := rs_track_name l,
                     rs_track_artist := rs_track_artist l, rs_track_album := rs_track_album l,
                     rs_track_image := rs_track_image l, rs_duration := rs_duration l,
                     rs_position_as_of := rs_position_as_of l\<rparr>);
          rs2 = (case (Option.bind (pl_media pl) cm_elapsed, Option.bind (pl_media pl) cm_elapsed_at) of
                   (Some e, Some a) \<Rightarrow> rs1\<lparr>rs_position_as_of := seconds_to_ms e, rs_timestamp := seconds_to_ms a\<rparr>
                 | _ \<Rightarrow> rs1)
      in rs2\<lparr>rs_position := remote_position now (Some rs2)\<rparr>)"

definition apply_ma_idle_state :: "instant \<Rightarrow> int \<Rightarrow> ma_player \<Rightarrow> ma_state \<Rightarrow> ma_state" where
  "apply_ma_idle_state now now_ms pl p =
     p\<lparr>mp_ob := ma_show False (ma_idle_state now now_ms pl p) (mp_ob p), mp_last_playback := ''idle''\<rparr>"

definition ma_idle :: "ma_player \<Rightarrow> bool" where
  "ma_idle pl \<longleftrightarrow> pl_state pl = ''idle'' \<or> pl_media pl = None"

definition apply_ma_live_state ::
    "bool \<Rightarrow> instant \<Rightarrow> int \<Rightarrow> ma_player \<Rightarrow> current_media \<Rightarrow> player_queue option \<Rightarrow> queue_track list \<Rightarrow> ma_state \<Rightarrow> ma_state" where
  "apply_ma_live_state synced now now_ms pl media queue upcoming p =
     (let rs0 = ma_fill_queue queue upcoming (mp_ob p) (ma_remote_state now now_ms pl media queue);
          (rs1, ob1) = note_cluster_timing synced now rs0 (mp_ob p);
          rs = rs1\<lparr>rs_position := remote_position now (Some rs1)\<rparr>
      in p\<lparr>mp_ob := ma_show (rs_is_playing rs \<and> \<not> rs_is_paused rs) rs ob1,
           mp_last_active := Some rs, mp_idle_fallback := None, mp_last_playback := pl_state pl\<rparr>)"

definition apply_ma_state ::
    "bool \<Rightarrow> instant \<Rightarrow> int \<Rightarrow> ma_player \<Rightarrow> player_queue option \<Rightarrow> queue_track list \<Rightarrow> ma_state \<Rightarrow> ma_state" where
  "apply_ma_state synced now now_ms pl queue upcoming p =
     (if pl_state pl = ''idle'' then apply_ma_idle_state now now_ms pl p
      else case pl_media pl of
             None \<Rightarrow> apply_ma_idle_state now now_ms pl p
           | Some media \<Rightarrow> apply_ma_live_state synced now now_ms pl media queue upcoming p)"

text \<open>The last track of the speaker's own play log, asked for once.\<close>

definition ma_fetch_idle_fallback :: "ma_net \<Rightarrow> ma_client \<Rightarrow> ma_player \<Rightarrow> ma_state \<Rightarrow> ma_state" where
  "ma_fetch_idle_fallback net c pl p =
     (case recently_played net c 1 (pl_id pl) [''track''] False (mp_log p) of
        (Inl e, lg) \<Rightarrow> p\<lparr>mp_log := lg, mp_tried_for := pl_id pl\<rparr>
      | (Inr entries, lg) \<Rightarrow>
          let rs0 = zero_remote\<lparr>rs_device_id := pl_id pl, rs_device_name := pl_name pl, rs_device_type := ma_device_type\<rparr>;
              rs = (case entries of
                      [] \<Rightarrow> rs0
                    | e # _ \<Rightarrow> rs0\<lparr>rs_track_uri := ti_uri e, rs_track_name := ti_name e,
                        rs_track_artist := join_names (ti_artists e), rs_track_album := ti_album e,
                        rs_track_image := ma_image_url (cover e),
                        rs_duration := (if ti_duration e > 0 then ti_duration e * 1000 else 0)\<rparr>)
          in p\<lparr>mp_log := lg, mp_idle_fallback := Some rs, mp_tried_for := pl_id pl\<rparr>)"

subsection \<open>The warm list of playlists\<close>

definition ma_playlist_ttl :: duration where "ma_playlist_ttl = minutes 5"

definition ma_maybe_warm_playlists :: "instant \<Rightarrow> ma_client \<Rightarrow> ma_state \<Rightarrow> ma_state" where
  "ma_maybe_warm_playlists now c p =
     (if mp_warming p \<noteq> None \<or> time_sub now (mp_cached_at p) < ma_playlist_ttl then p
      else p\<lparr>mp_warming := Some c\<rparr>)"

text \<open>The goroutine that warms: its browse and what it leaves.\<close>

definition ma_warmed :: "ma_net \<Rightarrow> instant \<Rightarrow> ma_state \<Rightarrow> ma_state" where
  "ma_warmed net now p =
     (case mp_warming p of
        None \<Rightarrow> p
      | Some c \<Rightarrow>
          (case ma_browse_playlists net c (mp_log p) of
             (Inl e, lg) \<Rightarrow> p\<lparr>mp_log := lg, mp_warming := None\<rparr>
           | (Inr pls, lg) \<Rightarrow> p\<lparr>mp_log := lg, mp_cache := pls, mp_cached_at := now, mp_warming := None\<rparr>))"

definition ma_update_playlist_cache :: "instant \<Rightarrow> ma_playlist list \<Rightarrow> ma_state \<Rightarrow> ma_state" where
  "ma_update_playlist_cache now pls p = p\<lparr>mp_cache := pls, mp_cached_at := now\<rparr>"

definition ma_stale_playlists :: "ma_state \<Rightarrow> ma_playlist list" where
  "ma_stale_playlists p = mp_cache p"

definition ma_list_playlists ::
    "ma_net \<Rightarrow> instant \<Rightarrow> ma_settings \<Rightarrow> ma_state \<Rightarrow> (ma_failure + ma_playlist list) \<times> ma_state" where
  "ma_list_playlists net now s p =
     (case ms_config s of
        None \<Rightarrow> (Inr [], p)
      | Some cfg \<Rightarrow>
          (case ma_client_for cfg p of
             (c, p1) \<Rightarrow>
               (case ma_browse_playlists net c (mp_log p1) of
                  (Inr pls, lg) \<Rightarrow>
                    let p2 = ma_update_playlist_cache now pls (p1\<lparr>mp_log := lg\<rparr>);
                        (served, lg2) = ma_apply_recent_playlist_order net c pls (mp_log p2)
                    in (Inr served, p2\<lparr>mp_log := lg2\<rparr>)
                | (Inl e, lg) \<Rightarrow>
                    let st = ma_stale_playlists p1
                    in (if length st > 0 then Inr st else Inl (MaFailure ''music assistant playlist browse failed''),
                        p1\<lparr>mp_log := lg\<rparr>))))"

definition ma_list_playlist_items ::
    "ma_net \<Rightarrow> ma_settings \<Rightarrow> string \<Rightarrow> ma_state \<Rightarrow> ma_track list \<times> ma_state" where
  "ma_list_playlist_items net s item p =
     (case ms_config s of
        None \<Rightarrow> ([], p)
      | Some cfg \<Rightarrow>
          if item = [] then ([], p)
          else (case ma_client_for cfg p of
                  (c, p1) \<Rightarrow>
                    (case playlist_tracks net c item (mp_log p1) of
                       (Inl e, lg) \<Rightarrow> ([], p1\<lparr>mp_log := lg\<rparr>)
                     | (Inr items, lg) \<Rightarrow> (ma_map_playlist_items items, p1\<lparr>mp_log := lg\<rparr>))))"

definition ma_list_recent ::
    "ma_net \<Rightarrow> ma_settings \<Rightarrow> int \<Rightarrow> ma_state \<Rightarrow> (ma_failure + ma_track list) \<times> ma_state" where
  "ma_list_recent net s limit p =
     (let n = (if limit < 1 \<or> limit > 50 then 20 else limit)
      in case ms_config s of
           None \<Rightarrow> (Inr [], p)
         | Some cfg \<Rightarrow>
             (case ma_client_for cfg p of
                (c, p1) \<Rightarrow>
                  (case recently_played net c n [] [''track'', ''playlist''] False (mp_log p1) of
                     (Inl e, lg) \<Rightarrow> (Inl (MaFailure ''music assistant playlog fetch failed''), p1\<lparr>mp_log := lg\<rparr>)
                   | (Inr items, lg) \<Rightarrow> (Inr (ma_map_recent_items items), p1\<lparr>mp_log := lg\<rparr>))))"

definition ma_list_devices :: "ma_net \<Rightarrow> ma_settings \<Rightarrow> ma_state \<Rightarrow> ma_device list \<times> ma_state" where
  "ma_list_devices net s p =
     (case ms_config s of
        None \<Rightarrow> ([], p)
      | Some cfg \<Rightarrow>
          (case ma_client_for cfg p of
             (c, p1) \<Rightarrow>
               (case list_players net c (mp_log p1) of
                  (Inl e, lg) \<Rightarrow> ([], p1\<lparr>mp_log := lg\<rparr>)
                | (Inr players, lg) \<Rightarrow> (ma_map_devices players, p1\<lparr>mp_log := lg\<rparr>))))"

subsection \<open>The poll\<close>

definition ma_release :: "ma_settings \<Rightarrow> ma_state \<Rightarrow> ma_state" where
  "ma_release s p =
     (if ob_ma_owns (mp_ob p) \<or> ms_source s = playback_source_ma
      then p\<lparr>mp_ob := clear_active_device ((mp_ob p)\<lparr>ob_ma_owns := False\<rparr>)\<rparr> else p)"

definition ma_poll_queue :: "ma_net \<Rightarrow> ma_client \<Rightarrow> ma_player \<Rightarrow> ma_state \<Rightarrow> player_queue option \<times> ma_state" where
  "ma_poll_queue net c pl p =
     (if ma_idle pl then (None, p)
      else case get_queue net c (mp_active p) (mp_log p) of
             (Inl e, lg) \<Rightarrow> (None, p\<lparr>mp_log := lg\<rparr>) | (Inr q, lg) \<Rightarrow> (Some q, p\<lparr>mp_log := lg\<rparr>))"

definition ma_observe :: "ma_net \<Rightarrow> bool \<Rightarrow> instant \<Rightarrow> int \<Rightarrow> ma_client \<Rightarrow> ma_player \<Rightarrow> ma_state \<Rightarrow> ma_state" where
  "ma_observe net synced now now_ms c pl p =
     (let p1 = (if ma_idle pl \<and> mp_tried_for p \<noteq> mp_active p \<and> ma_idle_last_track (mp_active p) p = None
                then ma_fetch_idle_fallback net c pl p else p);
          (queue, p2) = ma_poll_queue net c pl p1;
          (upcoming, p3) = ma_upcoming_tracks net c pl queue p2
      in apply_ma_state synced now now_ms pl queue upcoming p3)"

definition ma_follow :: "ma_player \<Rightarrow> ma_state \<Rightarrow> string option" where
  "ma_follow pl p =
     (case pl_synced_to pl of
        Some m \<Rightarrow> if m \<noteq> [] \<and> m \<noteq> mp_active p then Some m else None
      | None \<Rightarrow> None)"

definition ma_poll_selected :: "ma_net \<Rightarrow> bool \<Rightarrow> instant \<Rightarrow> int \<Rightarrow> ma_config \<Rightarrow> ma_state \<Rightarrow> ma_state" where
  "ma_poll_selected net synced now now_ms cfg p =
     (let (c, p1) = ma_client_for cfg p;
          p2 = ma_maybe_warm_playlists now c p1
      in case get_player net c (mp_active p2) (mp_log p2) of
           (Inl e, lg) \<Rightarrow> p2\<lparr>mp_log := lg, mp_failing := True\<rparr>
         | (Inr pl, lg) \<Rightarrow>
             let p3 = p2\<lparr>mp_log := lg, mp_failing := False\<rparr>
             in case ma_follow pl p3 of
                  Some m \<Rightarrow> p3\<lparr>mp_active := m\<rparr>
                | None \<Rightarrow> ma_observe net synced now now_ms c pl p3)"

definition ma_poll_tick :: "ma_net \<Rightarrow> bool \<Rightarrow> instant \<Rightarrow> int \<Rightarrow> ma_settings \<Rightarrow> ma_state \<Rightarrow> ma_state" where
  "ma_poll_tick net synced now now_ms s p =
     (case ms_config s of
        None \<Rightarrow> ma_release s p
      | Some cfg \<Rightarrow>
          if ms_source s \<noteq> playback_source_ma \<or> mp_active p = [] then ma_release s p
          else ma_poll_selected net synced now now_ms cfg p)"

subsection \<open>Commands\<close>

text \<open>The position of a uri in a window of the live queue around its current item.\<close>

fun find_uri :: "string \<Rightarrow> int \<Rightarrow> queue_item list \<Rightarrow> int option" where
  "find_uri uri pos [] = None"
| "find_uri uri pos (it # items) =
     (case qi_media it of
        Some mi \<Rightarrow> if ti_uri mi = uri then Some pos else find_uri uri (pos + 1) items
      | None \<Rightarrow> find_uri uri (pos + 1) items)"

definition ma_queue_index_of ::
    "ma_net \<Rightarrow> ma_client \<Rightarrow> string \<Rightarrow> string \<Rightarrow> ma_log \<Rightarrow> int option \<times> ma_log" where
  "ma_queue_index_of net c pid uri lg =
     (case get_queue net c pid lg of
        (Inl e, lg1) \<Rightarrow> (None, lg1)
      | (Inr q, lg1) \<Rightarrow>
          let start = max 0 ((case pq_current q of None \<Rightarrow> 0 | Some n \<Rightarrow> n) - 2);
              qid = (if pq_id q = [] then pid else pq_id q)
          in case queue_items net c qid (int queue_limit + 3) start lg1 of
               (Inl e, lg2) \<Rightarrow> (None, lg2)
             | (Inr items, lg2) \<Rightarrow> (find_uri uri start items, lg2))"

record play_request =
  pr_uri :: string
  pr_offset :: "string option"  \<comment> \<open>the uri of the offset\<close>

text \<open>The card of the shown queue that a uri belongs to: its position.\<close>

definition shown_index :: "remote_state option \<Rightarrow> string \<Rightarrow> string \<Rightarrow> int option" where
  "shown_index remote pid uri =
     (case remote of
        None \<Rightarrow> None
      | Some rs \<Rightarrow>
          if rs_device_id rs = pid then
            (case find (\<lambda>t. qt_track_id t \<noteq> [] \<and> qt_uri t \<noteq> [] \<and> qt_uri t = uri \<and> atoi (qt_track_id t) \<noteq> None)
                    (rs_next_tracks rs) of
               None \<Rightarrow> None | Some t \<Rightarrow> atoi (qt_track_id t))
          else None)"

definition ma_play_uri ::
    "ma_net \<Rightarrow> ma_client \<Rightarrow> string \<Rightarrow> play_request \<Rightarrow> remote_state option \<Rightarrow> ma_log \<Rightarrow> ma_error option \<times> ma_log" where
  "ma_play_uri net c pid play remote lg =
     (case pr_offset play of
        Some tapped \<Rightarrow>
          if tapped \<noteq> [] then
            (case ma_queue_index_of net c pid tapped lg of
               (Some i, lg1) \<Rightarrow> play_index net c pid i lg1
             | (None, lg1) \<Rightarrow>
                 (case play_media net c pid (pr_uri play) tapped lg1 of
                    (None, lg2) \<Rightarrow> (None, lg2)
                  | (Some e, lg2) \<Rightarrow> play_media net c pid tapped [] lg2))
          else (case shown_index remote pid (pr_uri play) of
                  Some i \<Rightarrow> play_index net c pid i lg | None \<Rightarrow> play_media net c pid (pr_uri play) [] lg)
      | None \<Rightarrow>
          (case shown_index remote pid (pr_uri play) of
             Some i \<Rightarrow> play_index net c pid i lg | None \<Rightarrow> play_media net c pid (pr_uri play) [] lg))"

definition ma_is_idle :: "ma_state \<Rightarrow> bool" where
  "ma_is_idle p \<longleftrightarrow> mp_last_playback p = ''idle''"

definition ma_resume_displayed ::
    "ma_net \<Rightarrow> ma_client \<Rightarrow> string \<Rightarrow> remote_state option \<Rightarrow> ma_log \<Rightarrow> ma_error option \<times> ma_log" where
  "ma_resume_displayed net c pid remote lg =
     (case remote of
        None \<Rightarrow> ma_play net c pid lg
      | Some rs \<Rightarrow>
          if rs_track_uri rs = [] then ma_play net c pid lg
          else
            let (skipped, lg1) =
                  (case ma_queue_index_of net c pid (rs_track_uri rs) lg of
                     (None, lg') \<Rightarrow> (False, lg')
                   | (Some i, lg') \<Rightarrow> (case play_index net c pid i lg' of (r, lg'') \<Rightarrow> (r = None, lg'')))
            in if skipped then (None, lg1)
               else case play_media net c pid (rs_track_uri rs) [] lg1 of
                      (None, lg2) \<Rightarrow> (None, lg2)
                    | (Some e, lg2) \<Rightarrow> ma_play net c pid lg2)"

definition ma_resume_stopped ::
    "ma_net \<Rightarrow> ma_client \<Rightarrow> string \<Rightarrow> remote_state option \<Rightarrow> ma_log \<Rightarrow> ma_error option \<times> ma_log" where
  "ma_resume_stopped net c pid remote lg =
     (case queue_resume net c pid lg of
        (None, lg1) \<Rightarrow> (None, lg1)
      | (Some e, lg1) \<Rightarrow> ma_resume_displayed net c pid remote lg1)"

datatype ma_verb =
    VerbResume
  | VerbPlay play_request
  | VerbPause
  | VerbPlaypause
  | VerbNext
  | VerbPrev
  | VerbSeek int bool     \<comment> \<open>position, relative\<close>
  | VerbVolume int bool   \<comment> \<open>volume, relative\<close>
  | VerbShuffle bool
  | VerbRepeatContext bool
  | VerbRepeatTrack bool

definition volume_target :: "int \<Rightarrow> bool \<Rightarrow> remote_state option \<Rightarrow> int" where
  "volume_target v relative remote =
     (let target = (if relative then (case remote of None \<Rightarrow> 0 | Some rs \<Rightarrow> int (rs_volume rs)) + v else v);
          low = (if target < 0 then 0 else target)
      in if low > max_state_volume then max_state_volume else low)"

text \<open>One verb on one player. The first component is the result of the command, or an error before it.\<close>

definition ma_verb_call ::
    "ma_net \<Rightarrow> ma_client \<Rightarrow> string \<Rightarrow> ma_verb \<Rightarrow> string \<Rightarrow> remote_state option \<Rightarrow> ma_log \<Rightarrow> ma_failure option \<times> ma_log" where
  "ma_verb_call net c pid verb last_playback remote lg =
     (let called = (\<lambda>(r, lg'). (map_option MaCall r, lg'))
      in case verb of
           VerbResume \<Rightarrow>
             if last_playback = ''playing'' then (None, lg) else called (ma_resume_stopped net c pid remote lg)
         | VerbPlay play \<Rightarrow>
             if pr_uri play \<noteq> [] then called (ma_play_uri net c pid play remote lg)
             else if last_playback = ''playing'' then (None, lg)
             else called (ma_resume_stopped net c pid remote lg)
         | VerbPause \<Rightarrow> called (ma_pause net c pid lg)
         | VerbPlaypause \<Rightarrow>
             if last_playback = ''playing'' then called (ma_pause net c pid lg)
             else called (ma_resume_stopped net c pid remote lg)
         | VerbNext \<Rightarrow> called (ma_next net c pid lg)
         | VerbPrev \<Rightarrow> called (ma_previous net c pid lg)
         | VerbSeek pos relative \<Rightarrow>
             if relative then (Some (MaFailure ''relative seek not supported in observer mode''), lg)
             else called (ma_seek net c pid (pos sdiv 1000) lg)
         | VerbVolume v relative \<Rightarrow>
             called (ma_volume_set net c pid (ma_target_to_level (volume_target v relative remote)) lg)
         | VerbShuffle on \<Rightarrow> called (ma_shuffle net c pid on lg)
         | VerbRepeatContext on \<Rightarrow> called (ma_repeat net c pid (if on then repeat_all else repeat_off) lg)
         | VerbRepeatTrack on \<Rightarrow> called (ma_repeat net c pid (if on then repeat_one else repeat_off) lg))"

definition ma_send :: "ma_net \<Rightarrow> ma_settings \<Rightarrow> ma_verb \<Rightarrow> ma_state \<Rightarrow> ma_failure option \<times> ma_state" where
  "ma_send net s verb p =
     (case ma_control_target net s p of
        (Inl e, p1) \<Rightarrow> (Some e, p1)
      | (Inr (c, pid), p1) \<Rightarrow>
          (case ma_verb_call net c pid verb (mp_last_playback p1) (ob_remote (mp_ob p1)) (mp_log p1) of
             (r, lg) \<Rightarrow> (r, p1\<lparr>mp_log := lg\<rparr>)))"

subsection \<open>Selecting a player\<close>

definition ma_transfer_playback ::
    "ma_net \<Rightarrow> ma_client \<Rightarrow> string \<Rightarrow> string \<Rightarrow> ma_log \<Rightarrow> ma_failure option \<times> ma_log" where
  "ma_transfer_playback net c old_id new_id lg =
     (case get_queue net c old_id lg of
        (Inl e, lg1) \<Rightarrow> (None, lg1)
      | (Inr q, lg1) \<Rightarrow>
          if pq_state q = ''idle'' \<or> (pq_current_item q = None \<and> pq_items q = 0) then (None, lg1)
          else (case transfer_queue net c old_id new_id lg1 of
                  (Some e, lg2) \<Rightarrow> (Some (MaFailure ''could not move playback to the new device''), lg2)
                | (None, lg2) \<Rightarrow> (None, lg2)))"

definition select_resolved :: "string \<Rightarrow> ma_state \<Rightarrow> ma_state" where
  "select_resolved resolved p =
     (let p1 = (if mp_active p \<noteq> resolved
                then p\<lparr>mp_last_active := None, mp_idle_fallback := None, mp_tried_for := [], mp_last_playback := []\<rparr>
                else p)
      in p1\<lparr>mp_active := resolved\<rparr>)"

definition ma_select_player ::
    "ma_net \<Rightarrow> ma_settings \<Rightarrow> string \<Rightarrow> ma_state \<Rightarrow> ma_failure option \<times> ma_state" where
  "ma_select_player net s i p =
     (case ms_config s of
        None \<Rightarrow> (Some MaBadRequest, p)
      | Some cfg \<Rightarrow>
          (case ma_client_for cfg p of
             (c, p1) \<Rightarrow>
               (case list_players net c (mp_log p1) of
                  (Inl e, lg) \<Rightarrow> (Some (MaFailure ''music assistant unreachable''), p1\<lparr>mp_log := lg\<rparr>)
                | (Inr players, lg) \<Rightarrow>
                    let resolved = ma_resolve_player_id i players; p2 = p1\<lparr>mp_log := lg\<rparr>
                    in if resolved = [] then (Some MaBadRequest, p2)
                       else if mp_active p2 \<noteq> [] \<and> mp_active p2 \<noteq> resolved then
                         (case ma_transfer_playback net c (mp_active p2) resolved (mp_log p2) of
                            (Some e, lg2) \<Rightarrow> (Some e, p2\<lparr>mp_log := lg2\<rparr>)
                          | (None, lg2) \<Rightarrow> (None, select_resolved resolved (p2\<lparr>mp_log := lg2\<rparr>)))
                       else (None, select_resolved resolved p2))))"

end
