(* ===== verification/PlayerMaRuns.thy ===== *)
theory PlayerMaRuns
  imports PlayerMa Interfaces
begin

text \<open>
  The Music Assistant side of the player as a machine: everything that can happen to it and to the
  observer it shares with the Spotify side, in any order, and what holds of every run.
\<close>

subsection \<open>The machine\<close>

text \<open>Each event brings the answers of the server and the settings it finds.\<close>

datatype ma_event =
    MaObserver observer_event
  | MaTick ma_net bool instant int ma_settings
  | MaSend ma_net ma_settings ma_verb
  | MaSelect ma_net ma_settings string
  | MaPlaylists ma_net instant ma_settings
  | MaItems ma_net ma_settings string
  | MaRecent ma_net ma_settings int
  | MaDevices ma_net ma_settings
  | MaWarmed ma_net instant

definition new_ma_state :: ma_state where
  "new_ma_state = \<lparr>mp_ob = new_observer, mp_active = [], mp_client = None, mp_failing = False, mp_upcoming_key = [],
     mp_upcoming = [], mp_last_active = None, mp_idle_fallback = None, mp_tried_for = [], mp_last_playback = [],
     mp_cache = [], mp_cached_at = 0, mp_warming = None, mp_log = []\<rparr>"

primrec ma_step :: "string \<Rightarrow> ma_state \<Rightarrow> ma_event \<Rightarrow> ma_state" where
  "ma_step own p (MaObserver e) = p\<lparr>mp_ob := observer_step own (mp_ob p) e\<rparr>"
| "ma_step own p (MaTick net synced now now_ms s) = ma_poll_tick net synced now now_ms s p"
| "ma_step own p (MaSend net s verb) = snd (ma_send net s verb p)"
| "ma_step own p (MaSelect net s i) = snd (ma_select_player net s i p)"
| "ma_step own p (MaPlaylists net now s) = snd (ma_list_playlists net now s p)"
| "ma_step own p (MaItems net s i) = snd (ma_list_playlist_items net s i p)"
| "ma_step own p (MaRecent net s n) = snd (ma_list_recent net s n p)"
| "ma_step own p (MaDevices net s) = snd (ma_list_devices net s p)"
| "ma_step own p (MaWarmed net now) = ma_warmed net now p"

definition ma_run :: "string \<Rightarrow> ma_event list \<Rightarrow> ma_state" where
  "ma_run own es = foldl (ma_step own) new_ma_state es"

subsection \<open>Posts\<close>

text \<open>What was added to the log satisfies \<open>P\<close>.\<close>

definition sends :: "(ma_post \<Rightarrow> bool) \<Rightarrow> ma_log \<Rightarrow> ma_log \<Rightarrow> bool" where
  "sends P lg lg' \<longleftrightarrow> (\<exists>new. lg' = lg @ new \<and> list_all P new)"

lemma sends_refl [simp]: "sends P lg lg"
  by (simp add: sends_def)

lemma sends_trans: "sends P a b \<Longrightarrow> sends P b c \<Longrightarrow> sends P a c"
  by (auto simp: sends_def)

lemma sends_one: "sends P lg (lg @ [q]) \<longleftrightarrow> P q"
  by (simp add: sends_def)

lemma sends_mono: "sends P a b \<Longrightarrow> (\<And>q. P q \<Longrightarrow> Q q) \<Longrightarrow> sends Q a b"
  by (auto simp: sends_def list_all_iff)

lemma ma_do_sends: "ma_do net c command args lg = (r, lg') \<Longrightarrow> P (ma_post_of c command args) \<Longrightarrow> sends P lg lg'"
  by (auto simp: sends_one dest!: ma_do_log)

lemma ma_query_sends:
  "ma_query net c command args d lg = (r, lg') \<Longrightarrow> P (ma_post_of c command args) \<Longrightarrow> sends P lg lg'"
  by (auto simp: sends_one dest!: ma_query_log)

text \<open>A post of the client that asks or that is addressed to the player.\<close>

definition ma_reads :: "string list" where
  "ma_reads = [''players/all'', ''player_queues/get'', ''player_queues/items'']"

definition addressed :: "ma_client \<Rightarrow> string \<Rightarrow> ma_post \<Rightarrow> bool" where
  "addressed c pid q \<longleftrightarrow> po_url q = cl_base c @ ''/api'' \<and>
     po_auth q = (if cl_token c \<noteq> [] then Some (''Bearer '' @ cl_token c) else None) \<and>
     (po_command q \<in> set ma_reads \<or>
      (\<exists>rest. po_args q = (''player_id'', JStr pid) # rest \<or> po_args q = (''queue_id'', JStr pid) # rest))"

lemma addressed_post:
  "addressed c pid (ma_post_of c command args) \<longleftrightarrow>
     command \<in> set ma_reads \<or> (\<exists>rest. args = (''player_id'', JStr pid) # rest \<or> args = (''queue_id'', JStr pid) # rest)"
  by (simp add: addressed_def ma_post_of_def)

lemma command_sends:
  "ma_play net c pid lg = (r, lg') \<Longrightarrow> sends (addressed c pid) lg lg'"
  "ma_pause net c pid lg = (r, lg') \<Longrightarrow> sends (addressed c pid) lg lg'"
  "ma_next net c pid lg = (r, lg') \<Longrightarrow> sends (addressed c pid) lg lg'"
  "ma_previous net c pid lg = (r, lg') \<Longrightarrow> sends (addressed c pid) lg lg'"
  "ma_seek net c pid pos lg = (r, lg') \<Longrightarrow> sends (addressed c pid) lg lg'"
  "ma_volume_set net c pid level lg = (r, lg') \<Longrightarrow> sends (addressed c pid) lg lg'"
  "ma_shuffle net c pid on lg = (r, lg') \<Longrightarrow> sends (addressed c pid) lg lg'"
  "ma_repeat net c pid mode lg = (r, lg') \<Longrightarrow> sends (addressed c pid) lg lg'"
  "play_media net c pid uri start lg = (r, lg') \<Longrightarrow> sends (addressed c pid) lg lg'"
  "play_index net c pid i lg = (r, lg') \<Longrightarrow> sends (addressed c pid) lg lg'"
  "queue_resume net c pid lg = (r, lg') \<Longrightarrow> sends (addressed c pid) lg lg'"
  by (auto simp: ma_ops player_args_def addressed_post elim!: ma_do_sends)

lemma read_sends:
  "list_players net c lg = (x, lg') \<Longrightarrow> sends (addressed c pid) lg lg'"
  "get_queue net c qid lg = (y, lg') \<Longrightarrow> sends (addressed c pid) lg lg'"
  "queue_items net c qid limit offset lg = (z, lg') \<Longrightarrow> sends (addressed c pid) lg lg'"
  by (auto simp: ma_ops addressed_post ma_reads_def elim!: ma_query_sends)

lemma queue_index_sends: "ma_queue_index_of net c pid uri lg = (i, lg') \<Longrightarrow> sends (addressed c pid') lg lg'"
  by (auto simp: ma_queue_index_of_def Let_def split: prod.splits sum.splits dest!: read_sends [where pid = pid']
      intro: sends_trans)

lemma play_uri_sends: "ma_play_uri net c pid play remote lg = (r, lg') \<Longrightarrow> sends (addressed c pid) lg lg'"
  by (auto simp: ma_play_uri_def split: prod.splits option.splits if_splits
      dest!: command_sends queue_index_sends [where pid' = pid] intro: sends_trans)

lemma resume_displayed_sends:
  "ma_resume_displayed net c pid remote lg = (r, lg') \<Longrightarrow> sends (addressed c pid) lg lg'"
  by (auto simp: ma_resume_displayed_def Let_def split: prod.splits option.splits if_splits
      dest!: command_sends queue_index_sends [where pid' = pid] intro: sends_trans)

lemma resume_stopped_sends:
  "ma_resume_stopped net c pid remote lg = (r, lg') \<Longrightarrow> sends (addressed c pid) lg lg'"
  by (auto simp: ma_resume_stopped_def split: prod.splits option.splits
      dest!: command_sends resume_displayed_sends intro: sends_trans)

lemma verb_sends:
  "ma_verb_call net c pid verb playing remote lg = (r, lg') \<Longrightarrow> sends (addressed c pid) lg lg'"
  by (cases verb) (auto simp: ma_verb_call_def Let_def split: prod.splits if_splits
      dest!: command_sends resume_stopped_sends play_uri_sends)

text \<open>The kept client is the one of the configuration it was made for.\<close>

definition client_ok :: "ma_state \<Rightarrow> bool" where
  "client_ok p \<longleftrightarrow> (\<forall>c url token. mp_client p = Some (c, url, token) \<longrightarrow> c = new_client url token)"

definition config_client :: "ma_config \<Rightarrow> ma_client" where
  "config_client cfg = new_client (mc_url cfg) (mc_token cfg)"

text \<open>Getting the client changes nothing else.\<close>

lemma ma_client_for_cases:
  assumes "ma_client_for cfg p = (c, p1)" and "client_ok p"
  obtains x where "c = config_client cfg" "p1 = p\<lparr>mp_client := x\<rparr>" "client_ok p1"
proof -
  have "\<exists>x. c = config_client cfg \<and> p1 = p\<lparr>mp_client := x\<rparr> \<and> client_ok p1"
  proof (cases "mp_client p")
    case None
    with assms show ?thesis by (auto simp: ma_client_for_def client_ok_def config_client_def Let_def)
  next
    case (Some k)
    obtain c0 url token where k: "k = (c0, url, token)" by (cases k)
    show ?thesis
    proof (cases "url = mc_url cfg \<and> token = mc_token cfg")
      case True
      have "p = p\<lparr>mp_client := mp_client p\<rparr>" by simp
      with True assms Some k show ?thesis
        by (auto simp: ma_client_for_def client_ok_def config_client_def intro!: exI [of _ "mp_client p"])
    next
      case False
      with assms Some k show ?thesis
        by (auto simp: ma_client_for_def client_ok_def config_client_def Let_def)
    qed
  qed
  then show ?thesis using that by blast
qed

lemma client_ok_update [simp]: "client_ok (p\<lparr>mp_log := lg\<rparr>) = client_ok p" "client_ok (p\<lparr>mp_active := i\<rparr>) = client_ok p"
  "client_ok (p\<lparr>mp_ob := ob\<rparr>) = client_ok p" "client_ok (p\<lparr>mp_warming := w\<rparr>) = client_ok p"
  "client_ok (p\<lparr>mp_failing := b\<rparr>) = client_ok p"
  by (simp_all add: client_ok_def)

text \<open>The target: an error, or the client of the configuration and the selected player.\<close>

lemma control_target_cases:
  assumes "ma_control_target net s p = (r, p1)" and "client_ok p"
  obtains (bad) x lg where "r = Inl MaBadRequest" "p1 = p\<lparr>mp_client := x, mp_log := lg\<rparr>" "client_ok p1"
      "\<And>cfg. ms_config s = Some cfg \<Longrightarrow> sends (addressed (config_client cfg) pid) (mp_log p) lg"
    | (target) cfg x lg i where "r = Inr (config_client cfg, i)" "ms_config s = Some cfg" "i \<noteq> []"
      "p1 = p\<lparr>mp_client := x, mp_log := lg, mp_active := i\<rparr>" "client_ok p1"
      "mp_active p \<noteq> [] \<longrightarrow> i = mp_active p" "sends (addressed (config_client cfg) pid) (mp_log p) lg"
proof (cases "ms_config s")
  case None
  have "p = p\<lparr>mp_client := mp_client p, mp_log := mp_log p\<rparr>" by simp
  with None assms show ?thesis
    by (intro bad [where x = "mp_client p" and lg = "mp_log p"]) (auto simp: ma_control_target_def)
next
  case (Some cfg)
  obtain c p0 where c: "ma_client_for cfg p = (c, p0)" by (cases "ma_client_for cfg p")
  from ma_client_for_cases [OF c assms(2)] obtain x where
    x: "c = config_client cfg" "p0 = p\<lparr>mp_client := x\<rparr>" "client_ok p0" by blast
  show ?thesis
  proof (cases "mp_active p = []")
    case False
    have "p0 = p\<lparr>mp_client := x, mp_log := mp_log p, mp_active := mp_active p\<rparr>" using x(2) by simp
    with False assms Some c x show ?thesis
      by (intro target [where cfg = cfg and i = "mp_active p" and x = x and lg = "mp_log p"]) (auto simp: ma_control_target_def)
  next
    case True
    show ?thesis
    proof (cases "ms_default s = []")
      case True
      have "p = p\<lparr>mp_client := mp_client p, mp_log := mp_log p\<rparr>" by simp
      with True \<open>mp_active p = []\<close> Some assms show ?thesis
        by (intro bad [where x = "mp_client p" and lg = "mp_log p"]) (auto simp: ma_control_target_def)
    next
      case False
      obtain ps lg where l: "list_players net c (mp_log p0) = (ps, lg)" by (cases "list_players net c (mp_log p0)")
      then have s: "sends (addressed (config_client cfg) pid) (mp_log p) lg"
        using read_sends(1) [OF l] x by simp
      have r: "(r, p1) = (case ps of Inl e \<Rightarrow> (Inl MaBadRequest, p0\<lparr>mp_log := lg\<rparr>)
          | Inr players \<Rightarrow> let resolved = ma_resolve_player_id (ms_default s) players
              in if resolved \<noteq> [] then (Inr (c, resolved), p0\<lparr>mp_log := lg, mp_active := resolved\<rparr>)
                 else (Inl MaBadRequest, p0\<lparr>mp_log := lg\<rparr>))"
        using assms(1) Some True False c l by (simp add: ma_control_target_def retarget_default_def)
      show ?thesis
      proof (cases "\<exists>players. ps = Inr players \<and> ma_resolve_player_id (ms_default s) players \<noteq> []")
        case False
        then have "r = Inl MaBadRequest \<and> p1 = p0\<lparr>mp_log := lg\<rparr>"
          using r by (cases ps) (auto simp: Let_def)
        with x s Some show ?thesis by (intro bad [where x = x and lg = lg]) auto
      next
        case True
        then obtain players where "ps = Inr players" and n: "ma_resolve_player_id (ms_default s) players \<noteq> []" by blast
        then have "r = Inr (c, ma_resolve_player_id (ms_default s) players) \<and>
            p1 = p0\<lparr>mp_log := lg, mp_active := ma_resolve_player_id (ms_default s) players\<rparr>"
          using r by (simp add: Let_def)
        with n x s Some \<open>mp_active p = []\<close> show ?thesis
          by (intro target [where cfg = cfg and i = "ma_resolve_player_id (ms_default s) players" and x = x and lg = lg]) auto
      qed
    qed
  qed
qed

text \<open>One command: the posts, the selection and what stays.\<close>

lemma ma_send_effect:
  assumes "ma_send net s verb p = (r, p')" and "client_ok p" and "ms_config s = Some cfg"
  shows "sends (addressed (config_client cfg) (mp_active p')) (mp_log p) (mp_log p') \<and>
    (mp_active p \<noteq> [] \<longrightarrow> mp_active p' = mp_active p) \<and> (mp_active p' = [] \<longrightarrow> r = Some MaBadRequest) \<and>
    client_ok p' \<and> mp_ob p' = mp_ob p"
proof -
  obtain tg p1 where tg: "ma_control_target net s p = (tg, p1)" by (cases "ma_control_target net s p")
  show ?thesis
  proof (rule control_target_cases [OF tg assms(2), of "mp_active p'"], goal_cases)
    case (1 x lg)
    have r: "r = Some MaBadRequest" "p' = p1" using assms(1) 1(1) tg by (simp_all add: ma_send_def)
    with 1 assms(3) show ?thesis by simp
  next
    case (2 cfg' x lg i)
    then have "cfg' = cfg" using assms(3) by simp
    obtain r' lg' where v: "ma_verb_call net (config_client cfg) i verb (mp_last_playback p1) (ob_remote (mp_ob p1)) (mp_log p1) = (r', lg')"
      by (metis prod.exhaust)
    with assms(1) 2(1) tg \<open>cfg' = cfg\<close> have p': "r = r'" "p' = p1\<lparr>mp_log := lg'\<rparr>"
      by (simp_all add: ma_send_def)
    have "sends (addressed (config_client cfg) i) (mp_log p1) lg'" using verb_sends [OF v] .
    with 2 p' \<open>cfg' = cfg\<close> show ?thesis by (auto intro: sends_trans)
  qed
qed

lemma ma_send_unconfigured: "ms_config s = None \<Longrightarrow> ma_send net s verb p = (Some MaBadRequest, p)"
  by (simp add: ma_send_def ma_control_target_def)

subsection \<open>The shared state and its owner\<close>

text \<open>A state that the poll owns is one of a Music Assistant player.\<close>

definition owns_ok :: "observer \<Rightarrow> bool" where
  "owns_ok ob \<longleftrightarrow> (ob_ma_owns ob \<longrightarrow> (\<forall>rs. ob_remote ob = Some rs \<longrightarrow> rs_device_type rs = ma_device_type))"

definition same_owner :: "observer \<Rightarrow> observer \<Rightarrow> bool" where
  "same_owner ob ob' \<longleftrightarrow> ob_ma_owns ob' = ob_ma_owns ob \<and>
     map_option rs_device_type (ob_remote ob') = map_option rs_device_type (ob_remote ob)"

lemma same_owner_refl [simp]: "same_owner ob ob"
  by (simp add: same_owner_def)

lemma same_owner_ok: "same_owner ob ob' \<Longrightarrow> owns_ok ob \<Longrightarrow> owns_ok ob'"
  by (cases "ob_remote ob"; cases "ob_remote ob'") (auto simp: same_owner_def owns_ok_def)

lemma part_owner:
  "do_expand_queue now rs p = (rs1, p1) \<Longrightarrow> ob_ma_owns p1 = ob_ma_owns p \<and> rs_device_type rs1 = rs_device_type rs"
  "note_cluster_timing synced now rs q = (rs2, q1) \<Longrightarrow> ob_ma_owns q1 = ob_ma_owns q \<and> rs_device_type rs2 = rs_device_type rs
     \<and> rs_device_id rs2 = rs_device_id rs \<and> rs_track_uri rs2 = rs_track_uri rs \<and> rs_next_tracks rs2 = rs_next_tracks rs"
  "fill_queues rs r = (rs3, r1) \<Longrightarrow> ob_ma_owns r1 = ob_ma_owns r \<and> rs_device_type rs3 = rs_device_type rs"
proof -
  show "do_expand_queue now rs p = (rs1, p1) \<Longrightarrow> ob_ma_owns p1 = ob_ma_owns p \<and> rs_device_type rs1 = rs_device_type rs"
    using expand_queue_state [of now rs "ob_expander p"]
    by (cases "expand_queue now (Some rs) (ob_expander p)") (auto simp: do_expand_queue_def)
  show "note_cluster_timing synced now rs q = (rs2, q1) \<Longrightarrow> ob_ma_owns q1 = ob_ma_owns q \<and> rs_device_type rs2 = rs_device_type rs
     \<and> rs_device_id rs2 = rs_device_id rs \<and> rs_track_uri rs2 = rs_track_uri rs \<and> rs_next_tracks rs2 = rs_next_tracks rs"
    by (auto simp: note_cluster_timing_def Let_def split: if_splits option.splits)
  show "fill_queues rs r = (rs3, r1) \<Longrightarrow> ob_ma_owns r1 = ob_ma_owns r \<and> rs_device_type rs3 = rs_device_type rs"
    by (auto simp: fill_queues_def split: option.splits prod.splits)
qed

lemma update_remote_state_owner: "owns_ok p \<Longrightarrow> owns_ok (update_remote_state synced now now_ms cl p)"
proof (cases "cluster_to_remote_state now now_ms (Some cl)")
  case None
  then show "owns_ok p \<Longrightarrow> ?thesis" by (simp add: update_remote_state_def)
next
  case (Some rs0)
  assume ok: "owns_ok p"
  obtain rs1 p1 where 1: "do_expand_queue now rs0 p = (rs1, p1)" by (cases "do_expand_queue now rs0 p")
  obtain rs2 p2 where 2: "note_cluster_timing synced now rs1 p1 = (rs2, p2)" by (cases "note_cluster_timing synced now rs1 p1")
  define rp where "rp = (case map_of (cl_devices cl) (rs_device_id rs2) of None \<Rightarrow> (rs2, p2)
      | Some dev \<Rightarrow> (case device_display_name (rs_device_id rs2) dev (ob_devices p2) of
            (name, ds) \<Rightarrow> (rs2\<lparr>rs_device_name := name\<rparr>, p2\<lparr>ob_devices := ds\<rparr>)))"
  obtain rs3 p3 where 3: "rp = (rs3, p3)" by (cases rp)
  obtain rs4 p4 where 4: "fill_queues rs3 p3 = (rs4, p4)" by (cases "fill_queues rs3 p3")
  obtain rs p5 where 5: "resolve_current rs4 p4 = (rs, p5)" by (cases "resolve_current rs4 p4")
  have p': "update_remote_state synced now now_ms cl p =
      (if track_is_sparse rs4 \<and> id_panics (spotify_id_from_uri (rs_track_uri rs4))
       then p4\<lparr>ob_crashed := True\<rparr> else set_remote_state rs p5)"
    using Some 1 2 3 [unfolded rp_def] 4 5 by (simp add: update_remote_state_def)
  have 23: "same_observer p2 p3 \<and> ob_ma_owns p3 = ob_ma_owns p2"
    using 3 by (auto simp: rp_def same_observer_def split: option.splits prod.splits)
  have "ob_ma_owns p4 = ob_ma_owns p \<and> ob_remote p4 = ob_remote p"
    using do_expand_queue_same [OF 1] note_cluster_timing_same [OF 2] fill_queues_same [OF 4] 23
      part_owner(1) [OF 1] part_owner(2) [OF 2] part_owner(3) [OF 4] by (simp add: same_observer_def)
  with ok show ?thesis
    by (simp add: p' owns_ok_def set_remote_state_def)
qed

lemma clear_active_device_owner: "owns_ok p \<Longrightarrow> owns_ok (clear_active_device p)"
  by (auto simp: clear_active_device_def owns_ok_def split: option.split)

lemma apply_meta_type: "apply_meta meta rs = (changed, rs1) \<Longrightarrow> rs_device_type rs1 = rs_device_type rs"
  by (simp add: apply_meta_def Let_def) auto

lemma owns_ok_remote: "owns_ok p \<Longrightarrow> ob_remote p = Some rs \<Longrightarrow> ob_ma_owns p \<Longrightarrow> rs_device_type rs = ma_device_type"
  by (simp add: owns_ok_def)

lemma owns_ok_put:
  "owns_ok p \<Longrightarrow> ob_remote p = Some rs \<Longrightarrow> rs_device_type rs' = rs_device_type rs \<Longrightarrow>
    ob_remote p' = Some rs' \<Longrightarrow> ob_ma_owns p' = ob_ma_owns p \<Longrightarrow> owns_ok p'"
  by (simp add: owns_ok_def)

lemma handle_cluster_owner: "owns_ok p \<Longrightarrow> owns_ok (handle_cluster own ma synced now now_ms c p)"
proof -
  assume p: "owns_ok p"
  then have d: "owns_ok (p\<lparr>ob_devices := d\<rparr>)" for d by (simp add: owns_ok_def)
  show ?thesis
    unfolding handle_cluster_def Let_def
    by (simp add: p d update_remote_state_owner clear_active_device_owner split: option.split)
qed

lemma meta_resolved_owner: "owns_ok p \<Longrightarrow> owns_ok (meta_resolved now meta p)"
proof -
  assume p: "owns_ok p"
  let ?q = "note_meta meta p"
  have q: "ob_remote ?q = ob_remote p" "ob_ma_owns ?q = ob_ma_owns p" by (simp_all add: note_meta_def Let_def)
  then have ok: "owns_ok ?q" using p by (simp add: owns_ok_def)
  show ?thesis
  proof (cases "ob_remote ?q")
    case None
    with ok show ?thesis by (simp add: meta_resolved_def Let_def)
  next
    case (Some rs)
    obtain changed rs1 where a: "apply_meta meta rs = (changed, rs1)" by (cases "apply_meta meta rs")
    from Some ok apply_meta_type [OF a] show ?thesis
      by (simp add: meta_resolved_def Let_def a owns_ok_def)
  qed
qed

lemma queue_resolved_owner: "owns_ok p \<Longrightarrow> owns_ok (queue_resolved now p)"
proof (cases "ob_remote p"; cases "ob_resolver p")
  fix rs r
  assume p: "owns_ok p" and s: "ob_remote p = Some rs" "ob_resolver p = Some r"
  obtain nx pv r1 where "resolved_pass (rs_next_tracks rs) (rs_prev_tracks rs) r = ((nx, pv), r1)"
    by (metis prod.exhaust)
  with s show "owns_ok (queue_resolved now p)"
    by (intro owns_ok_put [OF p s(1)]) (auto simp: queue_resolved_def Let_def)
qed (simp_all add: queue_resolved_def)

lemma queue_expanded_owner: "owns_ok p \<Longrightarrow> owns_ok (queue_expanded now p)"
proof (cases "ob_remote p")
  case (Some rs)
  assume p: "owns_ok p"
  obtain rs1 p1 where d: "do_expand_queue now rs p = (rs1, p1)" by (cases "do_expand_queue now rs p")
  from part_owner(1) [OF d] p Some show ?thesis
    by (simp add: queue_expanded_def d owns_ok_def Let_def)
qed (simp add: queue_expanded_def)

lemma observer_step_owner: "owns_ok p \<Longrightarrow> owns_ok (observer_step own p e)"
  by (cases e) (simp_all add: observer_step_def handle_cluster_owner meta_resolved_owner queue_resolved_owner
      queue_expanded_owner, simp_all add: owns_ok_def)

text \<open>What a poll shows.\<close>

lemma ma_show_fields [simp]:
  "ob_remote (ma_show v rs ob) = Some rs" "ob_ma_owns (ma_show v rs ob)"
  "ob_crashed (ma_show v rs ob) = ob_crashed ob" "ob_clock (ma_show v rs ob) = ob_clock ob"
  "ob_events (ma_show v rs ob) = ob_events ob @ [if ma_track_changed ob rs then TrackChanged rs else StateChanged rs]"
  by (simp_all add: ma_show_def)

lemma ma_fill_queue_fields [simp]:
  "rs_device_type (ma_fill_queue queue upcoming ob rs) = rs_device_type rs"
  "rs_device_id (ma_fill_queue queue upcoming ob rs) = rs_device_id rs"
  "rs_track_uri (ma_fill_queue queue upcoming ob rs) = rs_track_uri rs"
  by (auto simp: ma_fill_queue_def split: option.split)

lemma ma_remote_state_fields [simp]:
  "rs_device_type (ma_remote_state now now_ms pl media queue) = ma_device_type"
  "rs_device_id (ma_remote_state now now_ms pl media queue) = pl_id pl"
  "rs_track_uri (ma_remote_state now now_ms pl media queue) = cm_uri media"
  by (simp_all add: ma_remote_state_def Let_def)

lemma ma_idle_state_fields [simp]:
  "rs_device_type (ma_idle_state now now_ms pl p) = ma_device_type"
  "rs_device_id (ma_idle_state now now_ms pl p) = pl_id pl"
  "rs_is_paused (ma_idle_state now now_ms pl p)" "\<not> rs_is_playing (ma_idle_state now now_ms pl p)"
  "rs_next_tracks (ma_idle_state now now_ms pl p) = []"
  by (simp_all add: ma_idle_state_def Let_def zero_remote_def split: option.split)

lemma apply_ma_live_shows:
  assumes "p' = apply_ma_live_state synced now now_ms pl media queue upcoming p"
  obtains rs where "ob_remote (mp_ob p') = Some rs" "rs_device_type rs = ma_device_type" "rs_device_id rs = pl_id pl"
    "rs_track_uri rs = cm_uri media" "rs_next_tracks rs = rs_next_tracks (ma_fill_queue queue upcoming (mp_ob p) (ma_remote_state now now_ms pl media queue))"
    "ob_ma_owns (mp_ob p')" "mp_last_active p' = Some rs" "mp_active p' = mp_active p" "mp_client p' = mp_client p"
proof -
  let ?rs0 = "ma_fill_queue queue upcoming (mp_ob p) (ma_remote_state now now_ms pl media queue)"
  obtain rs1 ob1 where n: "note_cluster_timing synced now ?rs0 (mp_ob p) = (rs1, ob1)"
    by (cases "note_cluster_timing synced now ?rs0 (mp_ob p)")
  from part_owner(2) [OF n] show ?thesis
    using assms n that [of "rs1\<lparr>rs_position := remote_position now (Some rs1)\<rparr>"]
    by (simp add: apply_ma_live_state_def Let_def)
qed

lemma apply_ma_state_shows:
  "\<exists>rs. ob_remote (mp_ob (apply_ma_state synced now now_ms pl queue upcoming p)) = Some rs \<and>
     rs_device_type rs = ma_device_type \<and> rs_device_id rs = pl_id pl \<and>
     ob_ma_owns (mp_ob (apply_ma_state synced now now_ms pl queue upcoming p)) \<and>
     mp_active (apply_ma_state synced now now_ms pl queue upcoming p) = mp_active p \<and>
     mp_client (apply_ma_state synced now now_ms pl queue upcoming p) = mp_client p"
proof (cases "ma_idle pl")
  case True
  then show ?thesis
    by (auto simp: apply_ma_state_def apply_ma_idle_state_def ma_idle_def split: option.split)
next
  case False
  then obtain media where m: "pl_media pl = Some media" "pl_state pl \<noteq> ''idle''" by (auto simp: ma_idle_def)
  then have "apply_ma_state synced now now_ms pl queue upcoming p =
      apply_ma_live_state synced now now_ms pl media queue upcoming p"
    by (simp add: apply_ma_state_def)
  from apply_ma_live_shows [OF this] show ?thesis by metis
qed

text \<open>The requests of a poll leave the rest of the state alone.\<close>

lemma fetch_idle_frame:
  "mp_ob (ma_fetch_idle_fallback net c pl p) = mp_ob p" "mp_active (ma_fetch_idle_fallback net c pl p) = mp_active p"
  "mp_client (ma_fetch_idle_fallback net c pl p) = mp_client p"
  "mp_last_active (ma_fetch_idle_fallback net c pl p) = mp_last_active p"
  by (auto simp: ma_fetch_idle_fallback_def Let_def split: prod.split sum.split)

lemma poll_queue_frame:
  "ma_poll_queue net c pl p = (q, p') \<Longrightarrow> mp_ob p' = mp_ob p \<and> mp_active p' = mp_active p \<and> mp_client p' = mp_client p \<and>
    mp_last_active p' = mp_last_active p \<and> mp_idle_fallback p' = mp_idle_fallback p \<and> mp_upcoming p' = mp_upcoming p \<and>
    mp_upcoming_key p' = mp_upcoming_key p \<and> (ma_idle pl \<longrightarrow> q = None \<and> p' = p)"
  by (auto simp: ma_poll_queue_def split: if_splits prod.splits sum.splits)

lemma upcoming_frame:
  "ma_upcoming_tracks net c pl q p = (u, p') \<Longrightarrow> mp_ob p' = mp_ob p \<and> mp_active p' = mp_active p \<and> mp_client p' = mp_client p \<and>
    mp_last_active p' = mp_last_active p \<and> mp_idle_fallback p' = mp_idle_fallback p"
  by (auto simp: ma_upcoming_tracks_def Let_def split: option.splits if_splits prod.splits sum.splits)

lemma ma_observe_shows:
  "\<exists>rs. ob_remote (mp_ob (ma_observe net synced now now_ms c pl p)) = Some rs \<and>
     rs_device_type rs = ma_device_type \<and> rs_device_id rs = pl_id pl \<and>
     ob_ma_owns (mp_ob (ma_observe net synced now now_ms c pl p)) \<and>
     mp_active (ma_observe net synced now now_ms c pl p) = mp_active p \<and>
     mp_client (ma_observe net synced now now_ms c pl p) = mp_client p"
proof -
  define p1 where "p1 = (if ma_idle pl \<and> mp_tried_for p \<noteq> mp_active p \<and> ma_idle_last_track (mp_active p) p = None
                then ma_fetch_idle_fallback net c pl p else p)"
  obtain q p2 where q: "ma_poll_queue net c pl p1 = (q, p2)" by (cases "ma_poll_queue net c pl p1")
  obtain u p3 where u: "ma_upcoming_tracks net c pl q p2 = (u, p3)" by (cases "ma_upcoming_tracks net c pl q p2")
  have "mp_active p3 = mp_active p" "mp_client p3 = mp_client p"
    using poll_queue_frame [OF q] upcoming_frame [OF u] by (auto simp: p1_def fetch_idle_frame)
  moreover have "ma_observe net synced now now_ms c pl p = apply_ma_state synced now now_ms pl q u p3"
    by (simp add: ma_observe_def q u flip: p1_def)
  ultimately show ?thesis using apply_ma_state_shows [of synced now now_ms pl q u p3] by simp
qed

subsection \<open>Every run\<close>

definition ma_ok :: "ma_state \<Rightarrow> bool" where
  "ma_ok p \<longleftrightarrow> client_ok p \<and> owns_ok (mp_ob p)"

lemma new_ma_state_ok: "ma_ok new_ma_state"
  by (simp add: ma_ok_def client_ok_def owns_ok_def new_ma_state_def new_observer_def)

lemma client_ok_cong: "mp_client p' = mp_client p \<Longrightarrow> client_ok p' = client_ok p"
  by (simp add: client_ok_def)

lemma ma_release_effect:
  "mp_client (ma_release s p) = mp_client p \<and> mp_active (ma_release s p) = mp_active p \<and>
   mp_log (ma_release s p) = mp_log p \<and> \<not> ob_ma_owns (mp_ob (ma_release s p)) \<and>
   (ob_ma_owns (mp_ob p) \<or> ms_source s = playback_source_ma \<longrightarrow> ob_remote (mp_ob (ma_release s p)) = None) \<and>
   (\<not> ob_ma_owns (mp_ob p) \<and> ms_source s \<noteq> playback_source_ma \<longrightarrow> ma_release s p = p)"
  by (auto simp: ma_release_def clear_active_device_def split: option.split)

lemma warm_frame:
  "mp_ob (ma_maybe_warm_playlists now c p) = mp_ob p" "mp_client (ma_maybe_warm_playlists now c p) = mp_client p"
  "mp_active (ma_maybe_warm_playlists now c p) = mp_active p" "mp_log (ma_maybe_warm_playlists now c p) = mp_log p"
  "mp_last_active (ma_maybe_warm_playlists now c p) = mp_last_active p"
  "mp_idle_fallback (ma_maybe_warm_playlists now c p) = mp_idle_fallback p"
  by (simp_all add: ma_maybe_warm_playlists_def)

text \<open>A poll of the selected player: it fails, follows the master of the group, or shows what it got.\<close>

lemma poll_selected_cases:
  assumes "p' = ma_poll_selected net synced now now_ms cfg p" and "client_ok p"
  obtains (failed) e lg where "get_player net (config_client cfg) (mp_active p) (mp_log p) = (Inl e, lg)"
      "mp_ob p' = mp_ob p" "mp_active p' = mp_active p" "client_ok p'" "mp_failing p'"
    | (follow) pl lg m where "get_player net (config_client cfg) (mp_active p) (mp_log p) = (Inr pl, lg)"
      "pl_synced_to pl = Some m" "m \<noteq> []" "m \<noteq> mp_active p" "mp_ob p' = mp_ob p" "mp_active p' = m" "client_ok p'"
    | (shown) pl lg p3 where "get_player net (config_client cfg) (mp_active p) (mp_log p) = (Inr pl, lg)"
      "p' = ma_observe net synced now now_ms (config_client cfg) pl p3" "mp_ob p3 = mp_ob p" "mp_active p3 = mp_active p"
      "mp_last_active p3 = mp_last_active p" "mp_idle_fallback p3 = mp_idle_fallback p" "client_ok p3" "mp_log p3 = lg"
      "\<And>m. pl_synced_to pl = Some m \<Longrightarrow> m = [] \<or> m = mp_active p"
proof -
  obtain c p1 where c: "ma_client_for cfg p = (c, p1)" by (cases "ma_client_for cfg p")
  from ma_client_for_cases [OF c assms(2)] obtain x where
    x: "c = config_client cfg" "p1 = p\<lparr>mp_client := x\<rparr>" "client_ok p1" by blast
  let ?p2 = "ma_maybe_warm_playlists now c p1"
  have p2: "mp_ob ?p2 = mp_ob p" "mp_active ?p2 = mp_active p" "mp_log ?p2 = mp_log p" "client_ok ?p2"
    "mp_last_active ?p2 = mp_last_active p" "mp_idle_fallback ?p2 = mp_idle_fallback p"
    using x client_ok_cong [of ?p2 p1] by (simp_all add: warm_frame)
  obtain r lg where g: "get_player net c (mp_active p) (mp_log p) = (r, lg)" by (cases "get_player net c (mp_active p) (mp_log p)")
  show ?thesis
  proof (cases r)
    case (Inl e)
    with assms(1) c g p2 have "p' = ?p2\<lparr>mp_log := lg, mp_failing := True\<rparr>"
      by (simp add: ma_poll_selected_def Let_def)
    with Inl g x p2 show ?thesis by (intro failed [of e lg]) simp_all
  next
    case (Inr pl)
    let ?p3 = "?p2\<lparr>mp_log := lg, mp_failing := False\<rparr>"
    have p': "p' = (case ma_follow pl ?p3 of Some m \<Rightarrow> ?p3\<lparr>mp_active := m\<rparr>
        | None \<Rightarrow> ma_observe net synced now now_ms c pl ?p3)"
      using assms(1) c g p2 Inr by (simp add: ma_poll_selected_def Let_def)
    show ?thesis
    proof (cases "ma_follow pl ?p3")
      case (Some m)
      then have "pl_synced_to pl = Some m \<and> m \<noteq> [] \<and> m \<noteq> mp_active p"
        using p2 by (auto simp: ma_follow_def split: option.splits if_splits)
      with Some p' Inr g x p2 show ?thesis by (intro follow [of pl lg m]) simp_all
    next
      case None
      then have "\<And>m. pl_synced_to pl = Some m \<Longrightarrow> m = [] \<or> m = mp_active p"
        using p2 by (auto simp: ma_follow_def split: if_splits)
      with None p' Inr g x p2 show ?thesis by (intro shown [of pl lg ?p3]) simp_all
    qed
  qed
qed

lemma ma_poll_tick_ok: "ma_ok p \<Longrightarrow> ma_ok (ma_poll_tick net synced now now_ms s p)"
proof -
  assume ok: "ma_ok p"
  have rel: "ma_ok (ma_release s p)"
    using ok ma_release_effect [of s p] client_ok_cong [of "ma_release s p" p] by (simp add: ma_ok_def owns_ok_def)
  have "ma_ok (ma_poll_selected net synced now now_ms cfg p)" for cfg
  proof (rule poll_selected_cases [OF refl, where p = p and net = net and synced = synced and now = now
      and now_ms = now_ms and cfg = cfg], goal_cases)
    case 1 then show ?case using ok by (simp add: ma_ok_def)
  next
    case (2 e lg) then show ?case using ok by (simp add: ma_ok_def)
  next
    case (3 pl lg m) then show ?case using ok by (simp add: ma_ok_def)
  next
    case (4 pl lg p3)
    then show ?case
      using ma_observe_shows [of net synced now now_ms "config_client cfg" pl p3]
        client_ok_cong [of "ma_observe net synced now now_ms (config_client cfg) pl p3" p3]
      by (auto simp: ma_ok_def owns_ok_def)
  qed
  with rel show ?thesis by (simp add: ma_poll_tick_def split: option.split)
qed

text \<open>The requests that only read leave the observer and the selection alone.\<close>

lemma list_frames:
  assumes "client_ok p"
  shows "client_ok (snd (ma_list_playlists net now s p)) \<and> mp_ob (snd (ma_list_playlists net now s p)) = mp_ob p"
    and "client_ok (snd (ma_list_playlist_items net s i p)) \<and> mp_ob (snd (ma_list_playlist_items net s i p)) = mp_ob p"
    and "client_ok (snd (ma_list_recent net s n p)) \<and> mp_ob (snd (ma_list_recent net s n p)) = mp_ob p"
    and "client_ok (snd (ma_list_devices net s p)) \<and> mp_ob (snd (ma_list_devices net s p)) = mp_ob p"
    and "client_ok (ma_warmed net now p) \<and> mp_ob (ma_warmed net now p) = mp_ob p"
  using assms
  by (auto simp: ma_list_playlists_def ma_list_playlist_items_def ma_list_recent_def ma_list_devices_def ma_warmed_def
      ma_update_playlist_cache_def Let_def client_ok_def split: option.splits prod.splits sum.splits
      elim!: ma_client_for_cases [OF _ assms])

lemma select_frame:
  assumes "client_ok p"
  shows "client_ok (snd (ma_select_player net s i p)) \<and> mp_ob (snd (ma_select_player net s i p)) = mp_ob p"
proof (cases "ms_config s")
  case (Some cfg)
  obtain c p1 where c: "ma_client_for cfg p = (c, p1)" by (cases "ma_client_for cfg p")
  from ma_client_for_cases [OF c assms] obtain x where p1: "p1 = p\<lparr>mp_client := x\<rparr>" "client_ok p1" by blast
  have sel: "client_ok (select_resolved r q) = client_ok q \<and> mp_ob (select_resolved r q) = mp_ob q" for r q
    by (simp add: select_resolved_def client_ok_def Let_def)
  from Some c p1 show ?thesis
    by (auto simp: ma_select_player_def Let_def sel split: prod.splits sum.splits option.splits)
qed (simp add: ma_select_player_def assms)

lemma send_frame:
  "client_ok p \<Longrightarrow> client_ok (snd (ma_send net s verb p)) \<and> mp_ob (snd (ma_send net s verb p)) = mp_ob p"
proof (cases "ms_config s")
  case (Some cfg)
  obtain r p' where e: "ma_send net s verb p = (r, p')" by (cases "ma_send net s verb p")
  assume "client_ok p"
  from ma_send_effect [OF e this Some] e show ?thesis by simp
qed (simp add: ma_send_unconfigured)

lemma ma_step_ok: "ma_ok p \<Longrightarrow> ma_ok (ma_step own p e)"
  by (cases e) (simp_all add: ma_poll_tick_ok, simp_all add: ma_ok_def observer_step_owner list_frames select_frame send_frame)

interpretation ma_machine: invariant_machine "ma_step own" ma_ok for own
  by unfold_locales (rule ma_step_ok)

lemma ma_run_ok: "ma_ok (ma_run own es)"
  unfolding ma_run_def by (rule ma_machine.run_inv) (rule new_ma_state_ok)

subsection \<open>Properties\<close>

text \<open>C20: A control command reaches the selected player and nobody else. In every run, each post a command
  adds goes to the configured server with its token and either only asks or is addressed to the
  selected player; a command changes the selection only when there was none (the default device),
  shows nothing by itself, and is refused without a player or without a configuration.\<close>

theorem ma_commands_reach_selected:
  assumes "p = ma_run own es" and "ma_send net s verb p = (r, p')"
  shows "(case ms_config s of
       None \<Rightarrow> r = Some MaBadRequest \<and> p' = p
     | Some cfg \<Rightarrow> sends (addressed (new_client (mc_url cfg) (mc_token cfg)) (mp_active p')) (mp_log p) (mp_log p') \<and>
         (mp_active p \<noteq> [] \<longrightarrow> mp_active p' = mp_active p) \<and> (mp_active p' = [] \<longrightarrow> r = Some MaBadRequest) \<and>
         mp_ob p' = mp_ob p)"
proof (cases "ms_config s")
  case (Some cfg)
  have "client_ok p" using ma_run_ok assms(1) by (simp add: ma_ok_def)
  from ma_send_effect [OF assms(2) this Some] Some show ?thesis by (simp add: config_client_def)
qed (use assms(2) in \<open>auto simp: ma_send_unconfigured\<close>)

text \<open>The state that is shown has one owner. In every run, what the poll owns is a Music Assistant
  player. One tick after the settings no longer select Music Assistant nothing of it is shown and
  what Spotify shows is untouched; with Music Assistant selected and no player chosen one tick
  clears the state, whoever it came from.\<close>

theorem ma_ownership:
  assumes "p = ma_run own es" and "q = ma_poll_tick net synced now now_ms s p"
  shows "(ob_ma_owns (mp_ob p) \<longrightarrow> map_option rs_device_type (ob_remote (mp_ob p)) \<in> {None, Some ma_device_type}) \<and>
    (\<not> ma_mode_active s \<longrightarrow> \<not> ob_ma_owns (mp_ob q) \<and>
       (if ob_ma_owns (mp_ob p) \<or> ms_source s = playback_source_ma then ob_remote (mp_ob q) = None else q = p)) \<and>
    (ma_mode_active s \<and> mp_active p = [] \<longrightarrow> \<not> ob_ma_owns (mp_ob q) \<and> ob_remote (mp_ob q) = None)"
proof -
  have "owns_ok (mp_ob p)" using ma_run_ok assms(1) by (simp add: ma_ok_def)
  then have "ob_ma_owns (mp_ob p) \<longrightarrow> map_option rs_device_type (ob_remote (mp_ob p)) \<in> {None, Some ma_device_type}"
    by (cases "ob_remote (mp_ob p)") (auto simp: owns_ok_def)
  moreover have "q = ma_release s p" if "\<not> ma_mode_active s \<or> mp_active p = []"
    using that assms(2) by (auto simp: ma_poll_tick_def ma_mode_active_def split: option.split)
  ultimately show ?thesis
    using ma_release_effect [of s p] by (auto simp: ma_mode_active_def)
qed

text \<open>Where a uri was found.\<close>

definition item_has :: "string \<Rightarrow> queue_item list \<Rightarrow> nat \<Rightarrow> bool" where
  "item_has uri items k \<longleftrightarrow> k < length items \<and> (\<exists>m. qi_media (items ! k) = Some m \<and> ti_uri m = uri)"

lemma item_has_Cons [simp]:
  "item_has uri (it # items) (Suc k) = item_has uri items k"
  "item_has uri (it # items) 0 \<longleftrightarrow> (\<exists>m. qi_media it = Some m \<and> ti_uri m = uri)"
  by (simp_all add: item_has_def)

lemma find_uri_Some:
  "find_uri uri pos items = Some i \<Longrightarrow>
    \<exists>k. i = pos + int k \<and> item_has uri items k \<and> (\<forall>j < k. \<not> item_has uri items j)"
proof (induction items arbitrary: pos)
  case (Cons it items)
  show ?case
  proof (cases "item_has uri (it # items) 0")
    case True
    with Cons.prems show ?thesis by (intro exI [of _ 0]) auto
  next
    case False
    then have "find_uri uri (pos + 1) items = Some i" using Cons.prems by (auto split: option.splits if_splits)
    from Cons.IH [OF this] obtain k where
      k: "i = pos + 1 + int k" "item_has uri items k" "\<forall>j < k. \<not> item_has uri items j" by blast
    have "\<not> item_has uri (it # items) j" if "j < Suc k" for j
      using that False k(3) by (cases j) auto
    with k show ?thesis by (intro exI [of _ "Suc k"]) auto
  qed
qed simp

lemma find_uri_None: "find_uri uri pos items = None \<Longrightarrow> \<not> item_has uri items k"
proof (induction items arbitrary: pos k)
  case (Cons it items)
  then have "\<not> item_has uri (it # items) 0" "find_uri uri (pos + 1) items = None"
    by (auto split: option.splits if_splits)
  with Cons.IH show ?case by (cases k) auto
qed (simp add: item_has_def)

text \<open>What the server lists around the current item of the live queue, and that it does not list it. The
  window starts two positions before the current item and has three more than the cards of the UI.\<close>

definition window_start :: "player_queue \<Rightarrow> int" where
  "window_start q = max 0 ((case pq_current q of None \<Rightarrow> 0 | Some n \<Rightarrow> n) - 2)"

definition window_queue :: "string \<Rightarrow> player_queue \<Rightarrow> string" where
  "window_queue pid q = (if pq_id q = [] then pid else pq_id q)"

definition window_listed ::
    "ma_net \<Rightarrow> ma_client \<Rightarrow> string \<Rightarrow> ma_log \<Rightarrow> int \<Rightarrow> queue_item list \<Rightarrow> ma_log \<Rightarrow> bool" where
  "window_listed net c pid lg start items lg1 \<longleftrightarrow>
     (\<exists>q lg0. get_queue net c pid lg = (Inr q, lg0) \<and> start = window_start q \<and>
        queue_items net c (window_queue pid q) (int queue_limit + 3) start lg0 = (Inr items, lg1))"

definition window_unread :: "ma_net \<Rightarrow> ma_client \<Rightarrow> string \<Rightarrow> ma_log \<Rightarrow> ma_log \<Rightarrow> bool" where
  "window_unread net c pid lg lg1 \<longleftrightarrow>
     (\<exists>e. get_queue net c pid lg = (Inl e, lg1)) \<or>
     (\<exists>q lg0 e. get_queue net c pid lg = (Inr q, lg0) \<and>
        queue_items net c (window_queue pid q) (int queue_limit + 3) (window_start q) lg0 = (Inl e, lg1))"

lemma queue_index_Some:
  assumes "ma_queue_index_of net c pid uri lg = (Some i, lg1)"
  shows "\<exists>start items k. window_listed net c pid lg start items lg1 \<and> i = start + int k \<and>
    item_has uri items k \<and> (\<forall>j < k. \<not> item_has uri items j)"
proof -
  obtain q lg0 items where q: "get_queue net c pid lg = (Inr q, lg0)"
    "queue_items net c (window_queue pid q) (int queue_limit + 3) (window_start q) lg0 = (Inr items, lg1)"
    "find_uri uri (window_start q) items = Some i"
    using assms
    by (auto simp: ma_queue_index_of_def Let_def window_start_def window_queue_def split: prod.splits sum.splits)
  then have "window_listed net c pid lg (window_start q) items lg1" by (auto simp: window_listed_def)
  with find_uri_Some [OF q(3)] show ?thesis by blast
qed

lemma queue_index_None:
  assumes "ma_queue_index_of net c pid uri lg = (None, lg1)"
  shows "window_unread net c pid lg lg1 \<or>
    (\<exists>start items. window_listed net c pid lg start items lg1 \<and> (\<forall>k. \<not> item_has uri items k))"
proof (cases "window_unread net c pid lg lg1")
  case False
  then obtain q lg0 items where q: "get_queue net c pid lg = (Inr q, lg0)"
    "queue_items net c (window_queue pid q) (int queue_limit + 3) (window_start q) lg0 = (Inr items, lg1)"
    "find_uri uri (window_start q) items = None"
    using assms
    by (auto simp: ma_queue_index_of_def Let_def window_start_def window_queue_def window_unread_def split: prod.splits sum.splits)
  then have "window_listed net c pid lg (window_start q) items lg1" by (auto simp: window_listed_def)
  with find_uri_None [OF q(3)] show ?thesis by blast
qed simp

text \<open>Positions survive their way through a card's text.\<close>

lemma digits_val_snoc: "digits_val (xs @ [c]) = 10 * digits_val xs + digit_val c"
  by (simp add: digits_val_def)

lemma digit_char: "n < 10 \<Longrightarrow> is_digit (char_of (48 + n)) \<and> digit_val (char_of (48 + n)) = n"
  by (simp add: is_digit_def digit_val_def of_char_of)

lemma show_nat_digits: "show_nat n \<noteq> [] \<and> list_all is_digit (show_nat n) \<and> digits_val (show_nat n) = n"
proof (induction n rule: show_nat.induct)
  case (1 n)
  show ?case
  proof (cases "n < 10")
    case True
    then show ?thesis using digit_char [of n] by (simp add: digits_val_def show_nat.simps [of n])
  next
    case False
    with 1 digit_char [of "n mod 10"] show ?thesis
      by (subst (1 2 3) show_nat.simps) (simp add: digits_val_snoc)
  qed
qed

lemma digit_not_sign: "is_digit c \<Longrightarrow> c \<noteq> CHR ''-'' \<and> c \<noteq> CHR ''+''"
  by (auto simp: is_digit_def)

lemma atoi_show_int: "0 \<le> n \<Longrightarrow> n \<le> 9223372036854775807 \<Longrightarrow> atoi (show_int n) = Some n"
proof -
  assume n: "0 \<le> n" "n \<le> 9223372036854775807"
  obtain c cs where s: "show_nat (nat n) = c # cs" using show_nat_digits [of "nat n"] by (cases "show_nat (nat n)") auto
  with show_nat_digits [of "nat n"] digit_not_sign [of c] n show ?thesis
    by (simp add: atoi_def show_int_def Let_def)
qed

lemma upcoming_from_in:
  "t \<in> set (upcoming_from pos items) \<Longrightarrow> \<exists>k < length items. t = ma_queue_item_to_upcoming (items ! k) (pos + int k)"
proof (induction items arbitrary: pos)
  case (Cons it items)
  show ?case
  proof (cases "t = ma_queue_item_to_upcoming it pos")
    case True
    then show ?thesis by (intro exI [of _ 0]) simp
  next
    case False
    with Cons.prems have "t \<in> set (upcoming_from (pos + 1) items)" by (auto simp: Let_def split: if_splits)
    from Cons.IH [OF this] obtain k where "k < length items" "t = ma_queue_item_to_upcoming (items ! k) (pos + 1 + int k)"
      by blast
    then show ?thesis by (intro exI [of _ "Suc k"]) (simp add: algebra_simps)
  qed
qed simp

text \<open>A tap on a card of the queue ahead skips to the position at which the server listed that uri.\<close>

lemma shown_card_position:
  assumes "rs_next_tracks rs = upcoming_from start items" and "0 \<le> start"
    and "start + int (length items) \<le> 9223372036854775807" and "shown_index (Some rs) pid uri = Some i"
  shows "\<exists>k m. k < length items \<and> i = start + int k \<and> qi_media (items ! k) = Some m \<and> ti_uri m = uri"
proof -
  from assms(4) obtain t where t: "t \<in> set (rs_next_tracks rs)" "qt_uri t \<noteq> []" "qt_uri t = uri" "atoi (qt_track_id t) = Some i"
    by (auto simp: shown_index_def find_Some_iff split: if_splits option.splits) (metis nth_mem)
  with assms(1) obtain k where k: "k < length items" "t = ma_queue_item_to_upcoming (items ! k) (start + int k)"
    using upcoming_from_in [of t start items] by auto
  have id: "qt_track_id t = show_int (start + int k)" by (simp add: k(2) ma_queue_item_to_upcoming_def split: option.split)
  have "i = start + int k" using t(4) id atoi_show_int [of "start + int k"] assms(2,3) k(1) by simp
  moreover obtain m where "qi_media (items ! k) = Some m" "ti_uri m = uri"
    using t(2,3) k(2) by (auto simp: ma_queue_item_to_upcoming_def split: option.splits)
  ultimately show ?thesis using k(1) by blast
qed

text \<open>C21: A tap lands on the song. When the server lists the window of the live queue around the current
  item and the tapped uri is in it, the last post starts the queue at the first position where the list
  has that uri. Otherwise, that is when the server does not answer for the queue or for the window, or
  when no item of the window has the uri, the source is started at the tapped item, and when the
  server refuses that, the tapped item alone.\<close>

theorem ma_tap_lands:
  assumes "pr_offset play = Some uri" and "uri \<noteq> []" and "ma_play_uri net c pid play remote lg = (r, lg')"
  shows "(\<exists>start items lg1 k. window_listed net c pid lg start items lg1 \<and>
      item_has uri items k \<and> (\<forall>j < k. \<not> item_has uri items j) \<and>
      lg' = lg1 @ [ma_post_of c ''player_queues/play_index'' [(''queue_id'', JStr pid), (''index'', jint (start + int k))]]) \<or>
    (\<exists>lg1. (window_unread net c pid lg lg1 \<or>
        (\<exists>start items. window_listed net c pid lg start items lg1 \<and> (\<forall>k. \<not> item_has uri items k))) \<and>
      (if fst (play_media net c pid (pr_uri play) uri lg1) = None
       then r = None \<and>
         lg' = lg1 @ [ma_post_of c ''player_queues/play_media'' [(''queue_id'', JStr pid), (''media'', JArr [JStr (pr_uri play)]),
           (''option'', JStr ''replace''), (''start_item'', JStr uri)]]
       else lg' = lg1 @ [ma_post_of c ''player_queues/play_media'' [(''queue_id'', JStr pid), (''media'', JArr [JStr (pr_uri play)]),
           (''option'', JStr ''replace''), (''start_item'', JStr uri)],
         ma_post_of c ''player_queues/play_media'' [(''queue_id'', JStr pid), (''media'', JArr [JStr uri]),
           (''option'', JStr ''replace'')]]))"
proof -
  obtain oi lg1 where qi: "ma_queue_index_of net c pid uri lg = (oi, lg1)" by (cases "ma_queue_index_of net c pid uri lg")
  show ?thesis
  proof (cases oi)
    case None
    obtain r2 lg2 where m: "play_media net c pid (pr_uri play) uri lg1 = (r2, lg2)" by (cases "play_media net c pid (pr_uri play) uri lg1")
    with assms qi None have "if r2 = None
       then r = None \<and>
         lg' = lg1 @ [ma_post_of c ''player_queues/play_media'' [(''queue_id'', JStr pid), (''media'', JArr [JStr (pr_uri play)]),
           (''option'', JStr ''replace''), (''start_item'', JStr uri)]]
       else lg' = lg1 @ [ma_post_of c ''player_queues/play_media'' [(''queue_id'', JStr pid), (''media'', JArr [JStr (pr_uri play)]),
           (''option'', JStr ''replace''), (''start_item'', JStr uri)],
         ma_post_of c ''player_queues/play_media'' [(''queue_id'', JStr pid), (''media'', JArr [JStr uri]),
           (''option'', JStr ''replace'')]]"
      by (cases r2) (auto simp: ma_play_uri_def play_media_def dest!: ma_do_log)
    with queue_index_None [OF qi [unfolded None]] show ?thesis
      by - (rule disjI2, rule exI [of _ lg1], rule conjI, assumption, simp only: m fst_conv)
  next
    case (Some i)
    with assms qi have "play_index net c pid i lg1 = (r, lg')" by (simp add: ma_play_uri_def)
    then have "lg' = lg1 @ [ma_post_of c ''player_queues/play_index'' [(''queue_id'', JStr pid), (''index'', jint i)]]"
      by (auto simp: play_index_def)
    with queue_index_Some [OF qi [unfolded Some]] show ?thesis by blast
  qed
qed

lemma transfer_posts:
  assumes "ma_transfer_playback net c old_id new_id lg = (r, lg')"
  shows "lg' = lg @ [ma_post_of c ''player_queues/get'' [(''queue_id'', JStr old_id)]] \<or>
    lg' = lg @ [ma_post_of c ''player_queues/get'' [(''queue_id'', JStr old_id)],
      ma_post_of c ''player_queues/transfer'' [(''source_queue_id'', JStr old_id), (''target_queue_id'', JStr new_id)]]"
  using assms
  by (auto simp: ma_transfer_playback_def get_queue_def transfer_queue_def split: prod.splits sum.splits if_splits option.splits
      dest!: ma_do_log ma_query_log)

definition transfers :: "ma_log \<Rightarrow> ma_log" where
  "transfers lg = filter (\<lambda>q. po_command q = ''player_queues/transfer'') lg"

lemma transfers_append [simp]: "transfers (a @ b) = transfers a @ transfers b"
  by (simp add: transfers_def)

lemma transfers_post [simp]:
  "transfers [] = []"
  "transfers (ma_post_of c command args # lg) =
     (if command = ''player_queues/transfer'' then ma_post_of c command args # transfers lg else transfers lg)"
  by (simp_all add: transfers_def)

lemma select_resolved_active [simp]:
  "mp_active (select_resolved i p) = i" "mp_log (select_resolved i p) = mp_log p"
  by (simp_all add: select_resolved_def Let_def)

text \<open>C22: A selection is all or nothing. A refused one keeps the selected player with its last song and
  state; a granted one is the player that the id stands for, and the playback moves, if at all, in
  one post from the old player to that one.\<close>

theorem ma_select_atomic:
  assumes "p = ma_run own es" and "ma_select_player net s i p = (r, p')"
  shows "(r \<noteq> None \<longrightarrow> mp_active p' = mp_active p \<and> mp_last_active p' = mp_last_active p \<and>
       mp_idle_fallback p' = mp_idle_fallback p \<and> mp_last_playback p' = mp_last_playback p) \<and>
    (r = None \<longrightarrow> mp_active p' \<noteq> [] \<and> (\<exists>cfg players lg. ms_config s = Some cfg \<and>
       list_players net (new_client (mc_url cfg) (mc_token cfg)) (mp_log p) = (Inr players, lg) \<and>
       mp_active p' = ma_resolve_player_id i players)) \<and>
    (transfers (mp_log p') = transfers (mp_log p) \<or>
     (\<exists>c j. mp_active p \<notin> {[], j} \<and> transfers (mp_log p') = transfers (mp_log p) @
         [ma_post_of c ''player_queues/transfer'' [(''source_queue_id'', JStr (mp_active p)), (''target_queue_id'', JStr j)]] \<and>
       (r = None \<longrightarrow> mp_active p' = j)))"
proof (cases "ms_config s")
  case None
  with assms(2) show ?thesis by (auto simp: ma_select_player_def)
next
  case (Some cfg)
  obtain c p1 where c: "ma_client_for cfg p = (c, p1)" by (cases "ma_client_for cfg p")
  have "client_ok p" using ma_run_ok assms(1) by (simp add: ma_ok_def)
  from ma_client_for_cases [OF c this] obtain x where
    x: "c = new_client (mc_url cfg) (mc_token cfg)" "p1 = p\<lparr>mp_client := x\<rparr>" unfolding config_client_def by blast
  obtain ps lg where l: "list_players net c (mp_log p) = (ps, lg)" by (cases "list_players net c (mp_log p)")
  then have lg: "transfers lg = transfers (mp_log p)" by (auto simp: list_players_def)
  show ?thesis
  proof (cases ps)
    case (Inl e)
    with assms(2) Some c x l lg show ?thesis by (auto simp: ma_select_player_def)
  next
    case (Inr players)
    let ?j = "ma_resolve_player_id i players"
    show ?thesis
    proof (cases "?j = [] \<or> mp_active p = [] \<or> mp_active p = ?j")
      case True
      with assms(2) Some c x l lg Inr show ?thesis
        by (auto simp: ma_select_player_def Let_def split: if_splits)
    next
      case False
      obtain tr lg2 where tr: "ma_transfer_playback net c (mp_active p) ?j lg = (tr, lg2)"
        by (cases "ma_transfer_playback net c (mp_active p) ?j lg")
      have "transfers lg2 = transfers (mp_log p) \<or> transfers lg2 = transfers (mp_log p) @
          [ma_post_of c ''player_queues/transfer'' [(''source_queue_id'', JStr (mp_active p)), (''target_queue_id'', JStr ?j)]]"
        using transfer_posts [OF tr] lg by auto
      moreover have "r = tr \<and> p' = (case tr of Some e \<Rightarrow> p1\<lparr>mp_log := lg2\<rparr>
          | None \<Rightarrow> select_resolved ?j (p1\<lparr>mp_log := lg2\<rparr>))"
        using assms(2) Some c x l Inr False tr by (auto simp: ma_select_player_def Let_def split: option.splits)
      ultimately show ?thesis
        using False Some x l Inr by (cases tr) auto
    qed
  qed
qed

text \<open>The list of playlists is never falsely empty. With a configuration, an empty list means that the
  server was browsed and has none; when it cannot be browsed, the last good list is served, and an
  error when there is none.\<close>

theorem ma_playlists_honest:
  assumes "p = ma_run own es" and "ms_config s = Some cfg" and "ma_list_playlists net now s p = (r, p')"
    and "ma_browse_playlists net (new_client (mc_url cfg) (mc_token cfg)) (mp_log p) = (b, lg)"
  shows "(case b of
       Inr pls \<Rightarrow> (\<exists>served. r = Inr served \<and> mset served = mset pls \<and> mp_cache p' = pls \<and> mp_cached_at p' = now)
     | Inl e \<Rightarrow> mp_cache p' = mp_cache p \<and>
         (if mp_cache p = [] then r = Inl (MaFailure ''music assistant playlist browse failed'') else r = Inr (mp_cache p)))"
proof -
  obtain c p1 where c: "ma_client_for cfg p = (c, p1)" by (cases "ma_client_for cfg p")
  have "client_ok p" using ma_run_ok assms(1) by (simp add: ma_ok_def)
  from ma_client_for_cases [OF c this] obtain x where
    x: "c = new_client (mc_url cfg) (mc_token cfg)" "p1 = p\<lparr>mp_client := x\<rparr>" unfolding config_client_def by blast
  show ?thesis
  proof (cases b)
    case (Inl e)
    with assms c x show ?thesis by (auto simp: ma_list_playlists_def ma_stale_playlists_def Let_def split: if_splits)
  next
    case (Inr pls)
    obtain served lg2 where o: "ma_apply_recent_playlist_order net c pls lg = (served, lg2)"
      by (cases "ma_apply_recent_playlist_order net c pls lg")
    have "mset (order_playlists recent pls) = mset pls" for recent
      by (simp add: order_playlists_def Let_def)
    then have "mset served = mset pls"
      using o by (auto simp: ma_apply_recent_playlist_order_def split: if_splits prod.splits sum.splits)
    with Inr assms c x o show ?thesis
      by (auto simp: ma_list_playlists_def ma_update_playlist_cache_def Let_def)
  qed
qed

lemma observe_idle:
  assumes "ma_idle pl" and "ma_idle_last_track (mp_active p) p = Some l"
  shows "ma_observe net synced now now_ms c pl p = apply_ma_idle_state now now_ms pl p"
  using assms
  by (auto simp: ma_observe_def ma_poll_queue_def ma_upcoming_tracks_def apply_ma_state_def ma_idle_def split: option.split)

lemma idle_state_song:
  assumes "ma_idle_last_track (pl_id pl) p = Some l"
  shows "rs_track_uri (ma_idle_state now now_ms pl p) = rs_track_uri l \<and>
    rs_track_name (ma_idle_state now now_ms pl p) = rs_track_name l \<and>
    rs_track_artist (ma_idle_state now now_ms pl p) = rs_track_artist l \<and>
    rs_position (ma_idle_state now now_ms pl p) = rs_position_as_of (ma_idle_state now now_ms pl p) \<and>
    (pl_media pl = None \<longrightarrow> rs_position (ma_idle_state now now_ms pl p) = rs_position_as_of l)"
  using assms by (simp add: ma_idle_state_def Let_def remote_position_def split: option.split)

text \<open>A player that falls idle keeps its song. A poll that finds the selected player idle shows it as
  paused with the last song that was seen on it, sends nothing but its own request, and forgets
  neither the song nor the selection, so that the next idle poll shows the same.\<close>

theorem ma_idle_keeps_song:
  assumes "p = ma_run own es" and "ms_config s = Some cfg" and "ms_source s = ''ma''" and "mp_active p = d" and "d \<noteq> []"
    and "mp_last_active p = Some l" and "rs_device_id l = d"
    and "get_player net (new_client (mc_url cfg) (mc_token cfg)) d (mp_log p) = (Inr pl, lg)"
    and "pl_id pl = d" and "pl_synced_to pl = None" and "pl_state pl = ''idle'' \<or> pl_media pl = None"
    and "q = ma_poll_tick net synced now now_ms s p"
  shows "\<exists>rs. ob_remote (mp_ob q) = Some rs \<and> rs_device_id rs = d \<and> rs_is_paused rs \<and> \<not> rs_is_playing rs \<and>
      rs_track_uri rs = rs_track_uri l \<and> rs_track_name rs = rs_track_name l \<and> rs_track_artist rs = rs_track_artist l \<and>
      rs_position rs = rs_position_as_of rs \<and>
      (pl_media pl = None \<longrightarrow> rs_position rs = rs_position_as_of l) \<and>
      mp_last_active q = Some l \<and> mp_active q = d \<and> mp_log q = lg \<and> mp_last_playback q = ''idle''"
proof -
  have ok: "client_ok p" using ma_run_ok assms(1) by (simp add: ma_ok_def)
  have "q = ma_poll_selected net synced now now_ms cfg p"
    using assms by (simp add: ma_poll_tick_def playback_source_ma_def)
  then show ?thesis
  proof (rule poll_selected_cases [OF _ ok], goal_cases)
    case (3 pl' lg' p3)
    then have pl: "pl' = pl" "lg' = lg" using assms by (simp_all add: config_client_def)
    have l: "ma_idle_last_track d p3 = Some l" using 3 assms by (simp add: ma_idle_last_track_def)
    have "q = apply_ma_idle_state now now_ms pl p3"
      using 3(2) pl observe_idle [of pl p3 l] l 3(4) assms(4,11) by (simp add: ma_idle_def)
    then show ?case
      using idle_state_song [of pl p3 l now now_ms] l assms(4,6,9) 3 pl by (auto simp: apply_ma_idle_state_def)
  qed (use assms in \<open>auto simp: config_client_def\<close>)
qed

subsection \<open>Where the code departs from its intent\<close>

lemma sdiv_nonneg: "0 \<le> a \<Longrightarrow> 0 < b \<Longrightarrow> a sdiv b = a div b" for a b :: int
  by (cases "a = 0") (auto simp: signed_divide_int_def)

lemma hundredth_mod: "v * 65535 mod 100 = 0 \<longleftrightarrow> v mod 20 = 0" for v :: int
proof -
  have "20 dvd v" if "100 dvd v * 65535"
  proof -
    from that obtain k where "v * 65535 = 100 * k" by (rule dvdE)
    then have "v = 20 * (3 * k - 1966 * v)" by simp
    then show ?thesis by (rule dvdI)
  qed
  moreover have "100 dvd v * 65535" if "20 dvd v"
  proof -
    from that obtain k where "v = 20 * k" by (rule dvdE)
    then have "v * 65535 = 100 * (13107 * k)" by simp
    then show ?thesis by (rule dvdI)
  qed
  ultimately show ?thesis by (auto simp only: dvd_eq_mod_eq_0 [symmetric])
qed

text \<open>A volume does not survive the way to the shared scale and back: setting the volume that is shown
  turns the player down by one, unless it is a multiple of twenty.\<close>

lemma volume_roundtrip_loses:
  assumes "0 \<le> v" and "v \<le> 100"
  shows "ma_target_to_level (int (ma_volume_to_state (Some v))) = (if v mod 20 = 0 then v else v - 1)"
proof -
  define k m where "k = v * 65535 div 100" and "m = v * 65535 mod 100"
  have "k * 100 + m = v * 65535" unfolding k_def m_def by (rule div_mult_mod_eq)
  then have km: "k * 100 = 65535 * v - m" "0 \<le> m" "m < 100" "0 \<le> k"
    using assms unfolding k_def m_def by (simp_all add: pos_imp_zdiv_nonneg_iff)
  have m: "m = 0 \<longleftrightarrow> v mod 20 = 0" unfolding m_def by (rule hundredth_mod)
  have "int (ma_volume_to_state (Some v)) = k"
    using assms km(4) by (simp add: ma_volume_to_state_def max_state_volume_def k_def)
  then have "ma_target_to_level (int (ma_volume_to_state (Some v))) = (65535 * v - m) div 65535"
    using km(1,4) by (simp add: ma_target_to_level_def max_state_volume_def sdiv_nonneg)
  also have "\<dots> = (if m = 0 then v else v - 1)"
    using km(2,3) int_div_pos_eq [of "65535 * v - m" 65535 "v - 1" "65535 - m"] by simp
  finally show ?thesis by (simp add: m)
qed

text \<open>The queue of the old player outlives a selection: when the items of the new player cannot be read, its
  state shows the queue of the old one.\<close>

lemma old_queue_shown:
  assumes "queue_items net c (if pq_id q = [] then pl_id pl else pq_id q) (int queue_limit) (cur + 1) (mp_log p) = (Inl e, lg)"
    and "pq_current q = Some cur" and "pl_media pl = Some media"
    and "upcoming_key (if pq_id q = [] then pl_id pl else pq_id q) cur (pq_items q) (cm_uri media) \<noteq> mp_upcoming_key p"
    and "p = select_resolved i p0" and "mp_active p0 \<noteq> i"
  shows "fst (ma_upcoming_tracks net c pl (Some q) p) = mp_upcoming p0"
  using assms by (simp add: ma_upcoming_tracks_def Let_def select_resolved_def)

text \<open>The guard of the idle lookup is set for the player of the answer, not for the one that was asked: an
  answer without an id leaves it open, and the play log is asked again with every poll.\<close>

lemma idle_lookup_repeats:
  "mp_tried_for (ma_fetch_idle_fallback net c pl p) = pl_id pl"
  by (auto simp: ma_fetch_idle_fallback_def Let_def split: prod.split sum.split)

subsection \<open>Examples\<close>

definition sample_net :: ma_net where
  "sample_net n q =
     (if po_command q = ''players/all'' then
        Response 200 (Some ''[{\"player_id\":\"kitchen\"},{\"player_id\":\"hall\",\"synced_to\":\"kitchen\"}]'')
      else if po_command q = ''players/get'' then
        Response 200 (Some ''{\"player_id\":\"kitchen\",\"playback_state\":\"idle\"}'')
      else if po_command q = ''player_queues/get'' then
        Response 200 (Some ''{\"current_index\":1}'')
      else if po_command q = ''player_queues/items'' then
        Response 200 (Some ''[{\"media_item\":{\"uri\":\"a\"}},{\"media_item\":{\"uri\":\"b\"}}]'')
      else Response 200 (Some ''null''))"

definition sample_config :: ma_config where
  "sample_config = \<lparr>mc_url = ''http://ma:8095'', mc_token = ''t''\<rparr>"

definition sample_ma :: ma_settings where
  "sample_ma = \<lparr>ms_config = Some sample_config, ms_source = ''ma'', ms_default = ''hall''\<rparr>"

definition live_net :: ma_net where
  "live_net n q =
     (if po_command q = ''players/get'' then
        Response 200 (Some ''{\"player_id\":\"kitchen\",\"playback_state\":\"playing\",\"current_media\":{\"uri\":\"a\",\"title\":\"A\"}}'')
      else NoResponse)"

definition sample_selected :: ma_state where
  "sample_selected = ma_run ''own'' [MaSelect sample_net sample_ma ''hall'']"

definition sample_playing :: ma_state where
  "sample_playing = ma_run ''own'' [MaSelect sample_net sample_ma ''hall'', MaTick live_net True 7 8 sample_ma]"

text \<open>The member of a group stands for its master.\<close>

lemma sample_playing_facts:
  "let p = sample_playing in (mp_active p, ob_ma_owns (mp_ob p),
      map_option (\<lambda>l. (rs_device_id l, rs_track_uri l)) (mp_last_active p)) =
    (''kitchen'', True, Some (''kitchen'', ''a''))"
  by code_simp

lemma sample_selected_facts:
  "let p = sample_selected in (mp_active p, mp_cache p) = (''kitchen'', [])"
  by code_simp

lemma sample_select: "fst (ma_select_player sample_net sample_ma ''hall'' new_ma_state) = None"
  by code_simp

lemma sample_facts:
  "mp_active sample_selected = ''kitchen''" "mp_active sample_playing = ''kitchen''" "mp_cache sample_selected = []"
  "ob_ma_owns (mp_ob sample_playing)"
  "map_option (\<lambda>l. (rs_device_id l, rs_track_uri l)) (mp_last_active sample_playing) = Some (''kitchen'', ''a'')"
  using sample_playing_facts sample_selected_facts by (simp_all add: Let_def)

lemma sample_get_player:
  "map_sum (\<lambda>e. ()) (\<lambda>pl. (pl_id pl, pl_synced_to pl, pl_state pl)) (fst (get_player sample_net c d lg)) =
     Inr (''kitchen'', None, ''idle'')"
proof -
  have "fst (get_player sample_net c d lg) = ma_decode ''players/get'' dec_player (ma_result ''players/get''
      (Response 200 (Some ''{\"player_id\":\"kitchen\",\"playback_state\":\"idle\"}'')))"
    by (simp add: get_player_def ma_query_def ma_call_def sample_net_def Let_def)
  moreover have "map_sum (\<lambda>e. ()) (\<lambda>pl. (pl_id pl, pl_synced_to pl, pl_state pl))
      (ma_decode ''players/get'' dec_player (ma_result ''players/get''
      (Response 200 (Some ''{\"player_id\":\"kitchen\",\"playback_state\":\"idle\"}'')))) = Inr (''kitchen'', None, ''idle'')"
    by code_simp
  ultimately show ?thesis by simp
qed

theorem ma_commands_reach_selected_witness:
  "sends (addressed (new_client ''http://ma:8095'' ''t'') ''kitchen'') (mp_log sample_selected)
     (mp_log (snd (ma_send sample_net sample_ma VerbNext sample_selected)))"
proof -
  have "mp_active (snd (ma_send sample_net sample_ma VerbNext sample_selected)) = ''kitchen''" by code_simp
  with ma_commands_reach_selected [OF sample_selected_def prod.collapse [symmetric], where net = sample_net and s = sample_ma and verb = VerbNext]
  show ?thesis by (simp add: sample_ma_def sample_config_def)
qed

theorem ma_ownership_witness:
  "ob_remote (mp_ob (ma_poll_tick sample_net True 9 9 (sample_ma\<lparr>ms_source := ''spotify''\<rparr>) sample_playing)) = None"
  using ma_ownership [OF sample_playing_def refl, where net = sample_net and synced = True and now = 9 and now_ms = 9
      and s = "sample_ma\<lparr>ms_source := ''spotify''\<rparr>"] sample_facts(4)
  by (simp add: ma_mode_active_def playback_source_ma_def)

theorem ma_tap_lands_witness:
  "\<exists>start items lg1 k. window_listed sample_net (new_client [] []) ''kitchen'' [] start items lg1 \<and> item_has ''b'' items k \<and>
    snd (ma_play_uri sample_net (new_client [] []) ''kitchen'' \<lparr>pr_uri = ''list'', pr_offset = Some ''b''\<rparr> None []) =
      lg1 @ [ma_post_of (new_client [] []) ''player_queues/play_index''
        [(''queue_id'', JStr ''kitchen''), (''index'', jint (start + int k))]]"
proof -
  let ?play = "ma_play_uri sample_net (new_client [] []) ''kitchen'' \<lparr>pr_uri = ''list'', pr_offset = Some ''b''\<rparr> None []"
  have "po_command (last (snd ?play)) = ''player_queues/play_index''" by code_simp
  moreover have "po_command (ma_post_of c cmd args) = cmd" for c cmd args by (simp add: ma_post_of_def)
  ultimately have "snd ?play \<noteq> lg @ [ma_post_of c ''player_queues/play_media'' args]"
    "snd ?play \<noteq> lg @ [q, ma_post_of c ''player_queues/play_media'' args]" for lg c args q by auto
  with ma_tap_lands [of "\<lparr>pr_uri = ''list'', pr_offset = Some ''b''\<rparr>" "''b''", OF _ _ prod.collapse [symmetric],
      of sample_net "new_client [] []" "''kitchen''" "[]" None]
  show ?thesis by (simp only: play_request.simps list.distinct simp_thms if_cancel) blast
qed

theorem ma_select_atomic_witness:
  "mp_active (snd (ma_select_player sample_net sample_ma ''hall'' (ma_run ''own'' []))) \<noteq> []"
  using ma_select_atomic [OF refl prod.collapse [symmetric], of sample_net sample_ma "''hall''" "''own''" "[]"] sample_select
  by (simp add: ma_run_def)

theorem ma_playlists_honest_witness:
  "fst (ma_list_playlists (\<lambda>n q. NoResponse) 5 sample_ma sample_selected) =
     Inl (MaFailure ''music assistant playlist browse failed'')"
proof -
  obtain b lg where b: "ma_browse_playlists (\<lambda>n q. NoResponse) (new_client (mc_url sample_config) (mc_token sample_config))
      (mp_log sample_selected) = (b, lg)" by force
  then have "\<exists>e. b = Inl e"
    by (auto simp: ma_browse_playlists_def browse_def ma_query_def ma_call_def ma_result_def ma_decode_def Let_def)
  with ma_playlists_honest [OF sample_selected_def, of sample_ma sample_config "\<lambda>n q. NoResponse" 5,
      OF _ prod.collapse [symmetric] b] sample_facts(3)
  show ?thesis by (auto simp: sample_ma_def)
qed

theorem ma_idle_keeps_song_witness:
  "\<exists>rs. ob_remote (mp_ob (ma_poll_tick sample_net True 9 9 sample_ma sample_playing)) = Some rs \<and> rs_track_uri rs = ''a''"
proof -
  obtain l where l: "mp_last_active sample_playing = Some l" "rs_device_id l = ''kitchen''" "rs_track_uri l = ''a''"
    using sample_facts(5) by auto
  obtain r lg where g: "get_player sample_net (new_client (mc_url sample_config) (mc_token sample_config)) ''kitchen''
      (mp_log sample_playing) = (r, lg)" by force
  have "map_sum (\<lambda>e. ()) (\<lambda>pl. (pl_id pl, pl_synced_to pl, pl_state pl)) r = Inr (''kitchen'', None, ''idle'')"
    using g sample_get_player [of "new_client (mc_url sample_config) (mc_token sample_config)" "''kitchen''" "mp_log sample_playing"]
    by simp
  then obtain pl where pl: "r = Inr pl" "pl_id pl = ''kitchen''" "pl_synced_to pl = None" "pl_state pl = ''idle'' \<or> pl_media pl = None"
    by (cases r) auto
  from ma_idle_keeps_song [OF sample_playing_def, of sample_ma sample_config "''kitchen''" l sample_net pl lg,
      OF _ _ sample_facts(2) _ l(1,2) g [unfolded pl(1)] pl(2-4) refl, of True 9 9] l(3)
  show ?thesis by (auto simp: sample_ma_def)
qed

end
