(* ===== verification/PlayerCommands.thy ===== *)
theory PlayerCommands
  imports PlayerMaRuns LikedSongs
begin

text \<open>
  The commands of the user interface to a Spotify Connect device: the requests for playback in
  \<open>handleApiRequest\<close> of \<open>daemon/player.go\<close> with the envelopes they send. While Music Assistant is
  selected they go to its player instead (\<open>PlayerMa\<close>).

  What reaches Spotify is a list of posts; \<open>ce_ok\<close> says which of them are answered with success. The
  library, the phone and the random id of a command come from the environment.
\<close>

subsection \<open>Envelopes\<close>

record play_offset =
  of_uri :: string
  of_position :: int

record play_data =
  pd_uri :: string
  pd_skip_to :: string
  pd_shuffle :: "bool option"
  pd_offset :: "play_offset option"

datatype command_value = ValueInt int | ValueBool bool

record command_options =
  co_skip_to :: string
  co_offset :: "(string \<times> int) option"
  co_shuffling :: "bool option"

record connect_command =
  cc_endpoint :: string
  cc_value :: "command_value option"
  cc_context :: "(string \<times> string) option"  \<comment> \<open>uri and url\<close>
  cc_options :: "command_options option"
  cc_track :: "string option"
  cc_shuffling :: "bool option"
  cc_enhancement :: "string option"
  cc_origin :: "(string \<times> string \<times> string) option"  \<comment> \<open>feature, its version, referrer\<close>
  cc_command_id :: "string option"

definition plain_command :: "string \<Rightarrow> connect_command" where
  "plain_command endpoint = \<lparr>cc_endpoint = endpoint, cc_value = None, cc_context = None, cc_options = None,
     cc_track = None, cc_shuffling = None, cc_enhancement = None, cc_origin = None, cc_command_id = None\<rparr>"

definition build_play_command :: "string \<Rightarrow> play_data \<Rightarrow> connect_command" where
  "build_play_command command_id d =
     (plain_command ''play'')\<lparr>
        cc_context := Some (pd_uri d, ''context://'' @ pd_uri d),
        cc_options := Some \<lparr>
          co_skip_to =
            (if pd_skip_to d \<noteq> [] then pd_skip_to d
             else case pd_offset d of Some f \<Rightarrow> if of_uri f \<noteq> [] then of_uri f else [] | None \<Rightarrow> []),
          co_offset = map_option (\<lambda>f. (of_uri f, of_position f)) (pd_offset d),
          co_shuffling = pd_shuffle d\<rparr>,
        cc_origin := Some (''your_library'', ''go-librespot'', ''your_library''),
        cc_command_id := Some command_id\<rparr>"

definition build_shuffle_command :: "bool \<Rightarrow> bool option \<Rightarrow> connect_command" where
  "build_shuffle_command shuffle smart =
     (plain_command ''set_options'')\<lparr>
        cc_shuffling := Some shuffle,
        cc_enhancement := Some (if shuffle \<and> smart = Some True then ''RECOMMENDATION'' else ''NONE'')\<rparr>"

definition queue_command :: "string \<Rightarrow> connect_command" where
  "queue_command uri = (plain_command ''add_to_queue'')\<lparr>cc_track := Some uri\<rparr>"

text \<open>The JSON of a command: what is absent or empty is left out.\<close>

definition json_opt :: "string \<Rightarrow> ('a \<Rightarrow> json) \<Rightarrow> 'a option \<Rightarrow> (string \<times> json) list" where
  "json_opt k f x = (case x of None \<Rightarrow> [] | Some v \<Rightarrow> [(k, f v)])"

definition json_str :: "string \<Rightarrow> string \<Rightarrow> (string \<times> json) list" where
  "json_str k s = (if s = [] then [] else [(k, JStr s)])"

definition options_json :: "command_options \<Rightarrow> json" where
  "options_json p =
     JObj ([(''license'', JStr ''tft''), (''skip_to'', JObj (json_str ''track_uri'' (co_skip_to p)))] @
       json_opt ''offset'' (\<lambda>(u, n). JObj (json_str ''uri'' u @ (if n = 0 then [] else [(''position'', jint n)]))) (co_offset p) @
       [(''player_options_override'', JObj (json_opt ''shuffling_context'' JBool (co_shuffling p)))])"

definition command_json :: "connect_command \<Rightarrow> json" where
  "command_json c =
     JObj ([(''endpoint'', JStr (cc_endpoint c))] @
       json_opt ''value'' (\<lambda>v. case v of ValueInt n \<Rightarrow> jint n | ValueBool b \<Rightarrow> JBool b) (cc_value c) @
       json_opt ''context'' (\<lambda>(u, w). JObj ([(''uri'', JStr u)] @ json_str ''url'' w @ [(''metadata'', JObj [])])) (cc_context c) @
       json_opt ''options'' options_json (cc_options c) @
       json_opt ''play_origin'' (\<lambda>(a, b, d). JObj ([(''feature_identifier'', JStr a)] @
          json_str ''feature_version'' b @ json_str ''referrer_identifier'' d)) (cc_origin c) @
       json_opt ''logging_params'' (\<lambda>i. JObj [(''page_instance_ids'', JArr []), (''interaction_ids'', JArr []),
          (''command_id'', JStr i)]) (cc_command_id c) @
       json_opt ''track'' (\<lambda>u. JObj [(''uri'', JStr u), (''provider'', JStr ''queue''),
          (''metadata'', JObj [(''is_queued'', JStr ''true'')])]) (cc_track c) @
       json_opt ''shuffling_context'' JBool (cc_shuffling c) @
       json_opt ''modes'' (\<lambda>e. JObj [(''context_enhancement'', JStr e)]) (cc_enhancement c))"

subsection \<open>State and environment\<close>

datatype connect_post =
    PlayerCommand string string connect_command  \<comment> \<open>target, connection id\<close>
  | SetVolume string string int
  | TransferTo string string

text \<open>The bodies; the ids of a transfer are an argument.\<close>

definition post_body :: "string \<Rightarrow> string \<Rightarrow> connect_post \<Rightarrow> json" where
  "post_body interaction_id command_id p =
     (case p of
        PlayerCommand target conn cmd \<Rightarrow> JObj [(''command'', command_json cmd)]
      | SetVolume target conn v \<Rightarrow> JObj [(''volume'', jint v)]
      | TransferTo target conn \<Rightarrow>
          JObj [(''transfer_options'', JObj [(''restore_paused'', JStr ''restore'')]),
                (''interaction_id'', JStr interaction_id), (''command_id'', JStr command_id)])"

record commander =
  cm_ma :: ma_state
  cm_own :: string
  cm_conn :: "string option"
  cm_liked_uri :: string
  cm_liked_session :: bool
  cm_resolver_starts :: nat
  cm_posts :: "connect_post list"
  cm_phone_steps :: "int list"

record command_env =
  ce_ok :: "nat \<Rightarrow> connect_post \<Rightarrow> bool"
  ce_net :: ma_net
  ce_ma :: ma_settings
  ce_settings :: "string option"
  ce_phone :: "(int \<Rightarrow> bool) option"  \<comment> \<open>whether the phone takes the steps, when there is a bluetooth manager\<close>
  ce_command_id :: string
  ce_first_track :: "string option"  \<comment> \<open>the first track of the library\<close>
  ce_stop :: bool                    \<comment> \<open>the resolver can be started\<close>

datatype command_error = CommandMa ma_failure | CommandFailed string | CommandNotFound

type_synonym command_reply = "command_error option \<times> commander"

abbreviation cm_observer :: "commander \<Rightarrow> observer" where "cm_observer c \<equiv> mp_ob (cm_ma c)"

abbreviation cm_remote :: "commander \<Rightarrow> remote_state option" where "cm_remote c \<equiv> ob_remote (cm_observer c)"

definition active_of :: "commander \<Rightarrow> active_device" where
  "active_of c = map_option (\<lambda>rs. (rs_device_id rs, rs_device_name rs)) (cm_remote c)"

definition command_target :: "command_env \<Rightarrow> commander \<Rightarrow> string" where
  "command_target e c = fst (resolve_target_device (ce_settings e) (active_of c) (ob_devices (cm_observer c)))"

subsection \<open>Sending\<close>

definition send_post :: "command_env \<Rightarrow> connect_post \<Rightarrow> commander \<Rightarrow> command_reply" where
  "send_post e post c =
     (if ce_ok e (length (cm_posts c)) post then None else Some (CommandFailed ''the request failed''),
      c\<lparr>cm_posts := cm_posts c @ [post]\<rparr>)"

definition send_device_command :: "command_env \<Rightarrow> string \<Rightarrow> connect_command \<Rightarrow> commander \<Rightarrow> command_reply" where
  "send_device_command e target cmd c =
     (if target = [] then (Some (CommandFailed ''no target device''), c)
      else if target = cm_own c then (Some (CommandFailed ''target device is us; cannot remote-control self''), c)
      else case cm_conn c of
             None \<Rightarrow> (Some (CommandFailed ''dealer not connected''), c)
           | Some conn \<Rightarrow> send_post e (PlayerCommand target conn cmd) c)"

definition send_active_device_command :: "command_env \<Rightarrow> connect_command \<Rightarrow> commander \<Rightarrow> command_reply" where
  "send_active_device_command e cmd c =
     (case cm_remote c of
        None \<Rightarrow> (Some (CommandFailed ''no active remote device known yet''), c)
      | Some rs \<Rightarrow>
          if rs_device_id rs = [] then (Some (CommandFailed ''no active remote device known yet''), c)
          else send_device_command e (rs_device_id rs) cmd c)"

definition send_active_device_volume :: "command_env \<Rightarrow> int \<Rightarrow> commander \<Rightarrow> command_reply" where
  "send_active_device_volume e volume c =
     (case cm_remote c of
        None \<Rightarrow> (Some (CommandFailed ''no active remote device known yet''), c)
      | Some rs \<Rightarrow>
          if rs_device_id rs = [] then (Some (CommandFailed ''no active remote device known yet''), c)
          else if rs_device_id rs = cm_own c then (Some (CommandFailed ''active device is us; cannot remote-control self''), c)
          else case cm_conn c of
                 None \<Rightarrow> (Some (CommandFailed ''dealer not connected''), c)
               | Some conn \<Rightarrow> send_post e (SetVolume (rs_device_id rs) conn volume) c)"

definition send_transfer :: "command_env \<Rightarrow> string \<Rightarrow> commander \<Rightarrow> command_reply" where
  "send_transfer e target c =
     (if target = [] then (Some (CommandFailed ''transfer requires a target device id''), c)
      else if target = cm_own c then (Some (CommandFailed ''cannot transfer to ourselves (observer cannot play)''), c)
      else case cm_conn c of
             None \<Rightarrow> (Some (CommandFailed ''dealer not connected''), c)
           | Some conn \<Rightarrow> send_post e (TransferTo target conn) c)"

text \<open>The device that was active last, when it is in the picker.\<close>

definition resume_last_device :: "command_env \<Rightarrow> commander \<Rightarrow> command_reply" where
  "resume_last_device e c =
     (let target = fst (ob_last_device (cm_observer c))
      in if target = [] then (Some CommandNotFound, c)
         else if target \<notin> cd_id ` set (connect_devices_or_empty (ob_devices (cm_observer c))) then (Some CommandNotFound, c)
         else send_device_command e target (plain_command ''resume'') c)"

definition transfer_if_needed :: "command_env \<Rightarrow> commander \<Rightarrow> bool \<times> commander" where
  "transfer_if_needed e c =
     (let def = default_device_id_from_settings (ce_settings e)
      in if def = [] then (False, c)
         else case cm_remote c of
                None \<Rightarrow> (False, c)
              | Some rs \<Rightarrow>
                  if rs_device_id rs = [] \<or> rs_device_id rs = def then (False, c)
                  else case send_transfer e def c of (r, c') \<Rightarrow> (r = None, c'))"

subsection \<open>Playing\<close>

definition resolve_play_context_uri :: "string \<Rightarrow> commander \<Rightarrow> string" where
  "resolve_play_context_uri uri c = (if uri \<noteq> liked_collection_uri then uri else cm_liked_uri c)"

text \<open>Liked songs without a known playlist: the tapped track, else the first one of the library.\<close>

definition play_liked_songs_fallback :: "command_env \<Rightarrow> string \<Rightarrow> play_data \<Rightarrow> commander \<Rightarrow> command_reply" where
  "play_liked_songs_fallback e target d c =
     (let c1 = c\<lparr>cm_liked_session := False\<rparr>;
          tapped = (case pd_offset d of None \<Rightarrow> [] | Some f \<Rightarrow> of_uri f);
          track = (if tapped \<noteq> [] then Some tapped else ce_first_track e)
      in case track of
           None \<Rightarrow> (Some (CommandFailed ''liked songs are still being set up, please try again shortly''), c1)
         | Some uri \<Rightarrow>
             if uri = [] then (Some (CommandFailed ''liked songs are still being set up, please try again shortly''), c1)
             else send_device_command e target
                    (build_play_command (ce_command_id e) \<lparr>pd_uri = uri, pd_skip_to = [], pd_shuffle = pd_shuffle d, pd_offset = None\<rparr>) c1)"

definition play_context :: "command_env \<Rightarrow> play_data \<Rightarrow> commander \<Rightarrow> command_reply" where
  "play_context e d c =
     (if pd_uri d = [] then (Some (CommandFailed ''play requires a context uri''), c)
      else
        let c1 = snd (transfer_if_needed e c); target = command_target e c1;
            liked = (pd_uri d = liked_collection_uri)
        in if target = [] then (Some (CommandFailed ''no target device for play''), c1)
           else if liked \<and> cm_liked_uri c1 = [] then
             play_liked_songs_fallback e target d
               (if ce_stop e then c1\<lparr>cm_resolver_starts := Suc (cm_resolver_starts c1)\<rparr> else c1)
           else
             case send_device_command e target
                    (build_play_command (ce_command_id e) (if liked then d\<lparr>pd_uri := cm_liked_uri c1\<rparr> else d)) c1 of
               (Some err, c2) \<Rightarrow> (Some err, c2)
             | (None, c2) \<Rightarrow> (None, c2\<lparr>cm_liked_session := liked\<rparr>))"

subsection \<open>Volume\<close>

definition can_route_phone_volume :: "string \<Rightarrow> bool" where
  "can_route_phone_volume t \<longleftrightarrow> t = ''SMARTPHONE'' \<or> t = ''TABLET''"

definition set_volume :: "command_env \<Rightarrow> int \<Rightarrow> bool \<Rightarrow> commander \<Rightarrow> command_reply" where
  "set_volume e v relative c =
     (case cm_remote c of
        None \<Rightarrow> (Some (CommandFailed ''no active remote device known yet''), c)
      | Some rs \<Rightarrow>
          if rs_device_id rs = [] then (Some (CommandFailed ''no active remote device known yet''), c)
          else if rs_volume_disabled rs then
            (if relative \<and> can_route_phone_volume (rs_device_type rs) then
               (case ce_phone e of
                  None \<Rightarrow> (Some (CommandFailed ''active device does not allow volume control''), c)
                | Some takes \<Rightarrow>
                    (if takes v then None else Some (CommandFailed ''active device does not allow volume control''),
                     c\<lparr>cm_phone_steps := cm_phone_steps c @ [v]\<rparr>))
             else (Some (CommandFailed ''active device does not allow volume control''), c))
          else send_active_device_volume e (volume_target v relative (Some rs)) c)"

definition get_volume :: "commander \<Rightarrow> nat option" where
  "get_volume c =
     (case cm_remote c of
        None \<Rightarrow> None | Some rs \<Rightarrow> if rs_device_id rs = [] then None else Some (rs_volume rs))"

subsection \<open>Requests\<close>

datatype command =
    CmdResume
  | CmdResumeLast
  | CmdPause
  | CmdPlayPause
  | CmdNext
  | CmdPrev
  | CmdSeek int bool
  | CmdShuffle bool "bool option"
  | CmdRepeatContext bool
  | CmdRepeatTrack bool
  | CmdSetVolume int bool
  | CmdPlay play_data
  | CmdAddToQueue string
  | CmdTransfer string
  | CmdMaSelect string

text \<open>The verb of Music Assistant for a command, for the commands it takes over.\<close>

definition ma_verb_of :: "command \<Rightarrow> ma_verb option" where
  "ma_verb_of cmd =
     (case cmd of
        CmdResume \<Rightarrow> Some VerbResume
      | CmdResumeLast \<Rightarrow> Some (VerbPlay \<lparr>pr_uri = [], pr_offset = None\<rparr>)
      | CmdPause \<Rightarrow> Some VerbPause
      | CmdPlayPause \<Rightarrow> Some VerbPlaypause
      | CmdNext \<Rightarrow> Some VerbNext
      | CmdPrev \<Rightarrow> Some VerbPrev
      | CmdSeek pos relative \<Rightarrow> Some (VerbSeek pos relative)
      | CmdShuffle on smart \<Rightarrow> Some (VerbShuffle on)
      | CmdRepeatContext on \<Rightarrow> Some (VerbRepeatContext on)
      | CmdRepeatTrack on \<Rightarrow> Some (VerbRepeatTrack on)
      | CmdSetVolume v relative \<Rightarrow> Some (VerbVolume v relative)
      | CmdPlay d \<Rightarrow> Some (VerbPlay \<lparr>pr_uri = pd_uri d, pr_offset = map_option of_uri (pd_offset d)\<rparr>)
      | CmdAddToQueue uri \<Rightarrow> None
      | CmdTransfer i \<Rightarrow> None
      | CmdMaSelect i \<Rightarrow> None)"

definition to_target :: "command_env \<Rightarrow> string \<Rightarrow> connect_command \<Rightarrow> commander \<Rightarrow> command_reply" where
  "to_target e what cmd c =
     (if command_target e c = [] then (Some (CommandFailed (''no target device for '' @ what)), c)
      else send_device_command e (command_target e c) cmd c)"

definition spotify_command :: "command_env \<Rightarrow> command \<Rightarrow> commander \<Rightarrow> command_reply" where
  "spotify_command e cmd c =
     (case cmd of
        CmdResume \<Rightarrow> to_target e ''resume'' (plain_command ''resume'') c
      | CmdResumeLast \<Rightarrow> resume_last_device e (snd (transfer_if_needed e c))
      | CmdPause \<Rightarrow> to_target e ''pause'' (plain_command ''pause'') c
      | CmdPlayPause \<Rightarrow>
          to_target e ''playpause'' (plain_command
            (case cm_remote c of
               Some rs \<Rightarrow> if rs_is_playing rs \<and> \<not> rs_is_paused rs then ''pause'' else ''resume''
             | None \<Rightarrow> ''resume'')) c
      | CmdNext \<Rightarrow> to_target e ''next'' (plain_command ''skip_next'') c
      | CmdPrev \<Rightarrow> to_target e ''prev'' (plain_command ''skip_prev'') c
      | CmdSeek pos relative \<Rightarrow>
          if relative then (Some (CommandFailed ''relative seek not supported in observer mode''), c)
          else to_target e ''seek'' ((plain_command ''seek_to'')\<lparr>cc_value := Some (ValueInt pos)\<rparr>) c
      | CmdShuffle on smart \<Rightarrow> to_target e ''shuffle'' (build_shuffle_command on smart) c
      | CmdRepeatContext on \<Rightarrow>
          to_target e ''repeat context'' ((plain_command ''set_repeating_context'')\<lparr>cc_value := Some (ValueBool on)\<rparr>) c
      | CmdRepeatTrack on \<Rightarrow>
          to_target e ''repeat track'' ((plain_command ''set_repeating_track'')\<lparr>cc_value := Some (ValueBool on)\<rparr>) c
      | CmdSetVolume v relative \<Rightarrow> set_volume e v relative c
      | CmdPlay d \<Rightarrow> play_context e d c
      | CmdAddToQueue uri \<Rightarrow>
          if uri = [] then (Some (CommandFailed ''add_to_queue requires a uri''), c)
          else send_active_device_command e (queue_command uri) c
      | CmdTransfer i \<Rightarrow> send_transfer e i c
      | CmdMaSelect i \<Rightarrow>
          (case ma_select_player (ce_net e) (ce_ma e) i (cm_ma c) of (r, p) \<Rightarrow> (map_option CommandMa r, c\<lparr>cm_ma := p\<rparr>)))"

definition handle_command :: "command_env \<Rightarrow> command \<Rightarrow> commander \<Rightarrow> command_reply" where
  "handle_command e cmd c =
     (case ma_verb_of cmd of
        Some verb \<Rightarrow>
          if ma_mode_active (ce_ma e) then
            (case ma_send (ce_net e) (ce_ma e) verb (cm_ma c) of (r, p) \<Rightarrow> (map_option CommandMa r, c\<lparr>cm_ma := p\<rparr>))
          else spotify_command e cmd c
      | None \<Rightarrow> spotify_command e cmd c)"

subsection \<open>Smaller parts\<close>

text \<open>The id for the status and the lyrics of a track.\<close>

definition track_id_from_track_uri :: "string \<Rightarrow> string" where
  "track_id_from_track_uri uri =
     (let parts = split_n (CHR '':'') 3 uri
      in if length parts = 3 then parts ! 2
         else case str_index ''://'' uri of
                None \<Rightarrow> []
              | Some i \<Rightarrow>
                  let rest = drop (i + 3) uri
                  in case str_index ''/'' rest of
                       None \<Rightarrow> []
                     | Some j \<Rightarrow> if j > 0 \<and> take j rest = ''track'' then drop (j + 1) rest else [])"

definition web_api_status :: "int \<Rightarrow> api_error option" where
  "web_api_status status =
     (if status = 400 then Some ErrBadRequest
      else if status = 403 then Some ErrForbidden
      else if status = 404 then Some ErrNotFound
      else if status = 405 then Some ErrMethodNotAllowed
      else if status = 429 then Some ErrTooManyRequests
      else None)"

text \<open>What the lyrics of a request are looked up by: its own fields, completed from the shown track. None
  without a name.\<close>

record lyrics_request =
  lr_track_name :: string
  lr_artist_name :: string
  lr_album_name :: string
  lr_duration_ms :: int

definition complete_lyrics_request :: "remote_state option \<Rightarrow> lyrics_request \<Rightarrow> lyrics_request option" where
  "complete_lyrics_request remote q =
     (let q1 = (case remote of
                  None \<Rightarrow> q
                | Some rs \<Rightarrow>
                    if lr_track_name q = [] \<or> lr_artist_name q = [] then
                      \<lparr>lr_track_name = (if lr_track_name q = [] then rs_track_name rs else lr_track_name q),
                       lr_artist_name = (if lr_artist_name q = [] then rs_track_artist rs else lr_artist_name q),
                       lr_album_name = (if lr_album_name q = [] then rs_track_album rs else lr_album_name q),
                       lr_duration_ms = (if lr_duration_ms q = 0 then rs_duration rs else lr_duration_ms q)\<rparr>
                    else q)
      in if lr_track_name q1 = [] then None else Some q1)"

subsection \<open>Where the posts go\<close>

fun post_target :: "connect_post \<Rightarrow> string" where
  "post_target (PlayerCommand target conn cmd) = target"
| "post_target (SetVolume target conn v) = target"
| "post_target (TransferTo target conn) = target"

fun post_conn :: "connect_post \<Rightarrow> string" where
  "post_conn (PlayerCommand target conn cmd) = conn"
| "post_conn (SetVolume target conn v) = conn"
| "post_conn (TransferTo target conn) = conn"

fun post_volume_ok :: "connect_post \<Rightarrow> bool" where
  "post_volume_ok (SetVolume target conn v) \<longleftrightarrow> 0 \<le> v \<and> v \<le> max_state_volume"
| "post_volume_ok p \<longleftrightarrow> True"

definition addressed :: "commander \<Rightarrow> connect_post \<Rightarrow> bool" where
  "addressed c p \<longleftrightarrow> post_target p \<noteq> [] \<and> post_target p \<noteq> cm_own c \<and> cm_conn c = Some (post_conn p) \<and> post_volume_ok p"

text \<open>A function on the state that only appends posts that are addressed properly.\<close>

definition speaks :: "commander \<Rightarrow> commander \<Rightarrow> bool" where
  "speaks c c' \<longleftrightarrow> cm_own c' = cm_own c \<and> cm_conn c' = cm_conn c \<and>
     (\<exists>ps. cm_posts c' = cm_posts c @ ps \<and> list_all (addressed c) ps)"

lemma speaks_refl [simp]: "speaks c c"
  by (simp add: speaks_def)

lemma speaks_trans: "speaks c c1 \<Longrightarrow> speaks c1 c2 \<Longrightarrow> speaks c c2"
proof -
  assume a: "speaks c c1" and b: "speaks c1 c2"
  from a obtain ps where p: "cm_posts c1 = cm_posts c @ ps" "list_all (addressed c) ps"
    by (auto simp: speaks_def)
  from b obtain qs where q: "cm_posts c2 = cm_posts c1 @ qs" "list_all (addressed c1) qs"
    by (auto simp: speaks_def)
  have "addressed c1 = addressed c" using a by (simp add: speaks_def addressed_def fun_eq_iff)
  then have "cm_posts c2 = cm_posts c @ (ps @ qs)" "list_all (addressed c) (ps @ qs)"
    using p q by simp_all
  then show ?thesis using a b by (auto simp: speaks_def)
qed

lemma speaks_same:
  "cm_own c' = cm_own c \<Longrightarrow> cm_conn c' = cm_conn c \<Longrightarrow> cm_posts c' = cm_posts c \<Longrightarrow> speaks c c'"
  by (simp add: speaks_def)

lemma speaks_post:
  "post_target p \<noteq> [] \<Longrightarrow> post_target p \<noteq> cm_own c \<Longrightarrow> cm_conn c = Some (post_conn p) \<Longrightarrow> post_volume_ok p
   \<Longrightarrow> speaks c (snd (send_post e p c))"
  by (simp add: speaks_def addressed_def send_post_def)

lemma speaks_device: "speaks c (snd (send_device_command e target cmd c))"
  by (simp add: send_device_command_def speaks_post split: option.split)

lemma speaks_active: "speaks c (snd (send_active_device_command e cmd c))"
  by (simp add: send_active_device_command_def speaks_device split: option.split)

lemma speaks_volume:
  "0 \<le> v \<Longrightarrow> v \<le> max_state_volume \<Longrightarrow> speaks c (snd (send_active_device_volume e v c))"
  by (simp add: send_active_device_volume_def speaks_post split: option.split)

lemma speaks_transfer: "speaks c (snd (send_transfer e target c))"
  by (simp add: send_transfer_def speaks_post split: option.split)

lemma speaks_resume: "speaks c (snd (resume_last_device e c))"
  by (simp add: resume_last_device_def Let_def speaks_device)

lemma speaks_transfer_if_needed: "speaks c (snd (transfer_if_needed e c))"
  using speaks_transfer [of c e]
  by (simp add: transfer_if_needed_def Let_def split_def split: option.split)

lemma speaks_fallback: "speaks c (snd (play_liked_songs_fallback e target d c))"
  by (auto simp: play_liked_songs_fallback_def Let_def split: option.split
      intro: speaks_same speaks_trans [OF speaks_same speaks_device])

lemma speaks_play: "speaks c (snd (play_context e d c))"
proof -
  let ?c1 = "snd (transfer_if_needed e c)"
  have fallback: "speaks ?c1 (snd (play_liked_songs_fallback e t d (if ce_stop e
      then ?c1\<lparr>cm_resolver_starts := Suc (cm_resolver_starts ?c1)\<rparr> else ?c1)))" for t
    by (rule speaks_trans [OF speaks_same speaks_fallback]) simp_all
  have sent: "speaks ?c1 (snd (case send_device_command e t cmd ?c1 of
      (Some err, c2) \<Rightarrow> (Some err, c2) | (None, c2) \<Rightarrow> (None, c2\<lparr>cm_liked_session := b\<rparr>)))" for t cmd b
    using speaks_device [of ?c1 e t cmd]
    by (auto simp: speaks_def split: prod.split option.split)
  show ?thesis
    using speaks_trans [OF speaks_transfer_if_needed [of c e] fallback]
      speaks_trans [OF speaks_transfer_if_needed [of c e] sent] speaks_transfer_if_needed [of c e]
    by (simp add: play_context_def Let_def)
qed

lemma volume_target_range: "0 \<le> volume_target v relative remote \<and> volume_target v relative remote \<le> max_state_volume"
  by (simp add: volume_target_def Let_def max_state_volume_def)

lemma speaks_set_volume: "speaks c (snd (set_volume e v relative c))"
  using volume_target_range
  by (auto simp: set_volume_def speaks_same intro: speaks_volume split: option.split)

lemma speaks_to_target: "speaks c (snd (to_target e what cmd c))"
  by (simp add: to_target_def speaks_device)

lemma speaks_spotify: "speaks c (snd (spotify_command e cmd c))"
  by (cases cmd) (auto simp: spotify_command_def speaks_to_target speaks_set_volume speaks_play speaks_active
      speaks_transfer speaks_same split: prod.split intro: speaks_trans [OF speaks_transfer_if_needed speaks_resume])

lemma speaks_handle: "speaks c (snd (handle_command e cmd c))"
  by (auto simp: handle_command_def speaks_spotify speaks_same split: option.split prod.split)

subsection \<open>Runs\<close>

text \<open>Between two commands the observer, the connection id, the playlist of the liked songs and Music Assistant
  change in any way.\<close>

datatype command_event =
    Request command_env command
  | DealerConnected "string option"
  | LikedUriKnown string
  | StateMoved ma_state

definition command_step :: "commander \<Rightarrow> command_event \<Rightarrow> commander" where
  "command_step c ev =
     (case ev of
        Request e cmd \<Rightarrow> snd (handle_command e cmd c)
      | DealerConnected conn \<Rightarrow> c\<lparr>cm_conn := conn\<rparr>
      | LikedUriKnown uri \<Rightarrow> c\<lparr>cm_liked_uri := uri\<rparr>
      | StateMoved p \<Rightarrow> c\<lparr>cm_ma := p\<rparr>)"

text \<open>The posts of each step, with the state they were sent in.\<close>

fun command_trace :: "commander \<Rightarrow> command_event list \<Rightarrow> (commander \<times> connect_post list) list" where
  "command_trace c [] = []"
| "command_trace c (ev # evs) =
     (c, drop (length (cm_posts c)) (cm_posts (command_step c ev))) # command_trace (command_step c ev) evs"

lemma command_step_posts:
  "\<exists>ps. cm_posts (command_step c ev) = cm_posts c @ ps \<and> list_all (addressed c) ps"
  using speaks_handle by (cases ev) (auto simp: command_step_def speaks_def)

lemma command_trace_posts:
  "cm_posts (foldl command_step c evs) = cm_posts c @ concat (map snd (command_trace c evs))"
proof (induction evs arbitrary: c)
  case (Cons ev evs)
  obtain ps where "cm_posts (command_step c ev) = cm_posts c @ ps"
    using command_step_posts by blast
  then show ?case by (simp add: Cons.IH)
qed simp

text \<open>C23: Over any run of commands, whatever the player, the dealer and Music Assistant do in between, the list of
  posts is made of what each command sent, and each of these posts addresses a named device that is not the
  display itself, under the connection id the dealer had at that moment, and no volume leaves the range of
  Connect.\<close>

theorem commands_never_stray:
  "cm_posts (foldl command_step c evs) = cm_posts c @ concat (map snd (command_trace c evs)) \<and>
   list_all (\<lambda>(s, ps). list_all (addressed s) ps) (command_trace c evs)"
proof -
  have "list_all (\<lambda>(s, ps). list_all (addressed s) ps) (command_trace c evs)"
  proof (induction evs arbitrary: c)
    case (Cons ev evs)
    obtain ps where "cm_posts (command_step c ev) = cm_posts c @ ps" "list_all (addressed c) ps"
      using command_step_posts by blast
    then show ?case by (simp add: Cons.IH)
  qed simp
  then show ?thesis by (simp add: command_trace_posts)
qed

subsection \<open>One backend\<close>

text \<open>The requests that Music Assistant answers.\<close>

definition reaches_ma :: "command_env \<Rightarrow> command \<Rightarrow> bool" where
  "reaches_ma e cmd \<longleftrightarrow>
     (case cmd of CmdMaSelect i \<Rightarrow> True | CmdAddToQueue uri \<Rightarrow> False | CmdTransfer i \<Rightarrow> False
      | _ \<Rightarrow> ma_mode_active (ce_ma e))"

definition keeps_ma :: "commander \<Rightarrow> commander \<Rightarrow> bool" where
  "keeps_ma c c' \<longleftrightarrow> cm_ma c' = cm_ma c"

lemma keeps_refl [simp]: "keeps_ma c c"
  by (simp add: keeps_ma_def)

lemma keeps_post [simp]: "cm_ma (snd (send_post e p c)) = cm_ma c"
  by (simp add: send_post_def)

lemma keeps_device [simp]: "cm_ma (snd (send_device_command e target cmd c)) = cm_ma c"
  by (simp add: send_device_command_def split: option.split)

lemma keeps_active [simp]: "cm_ma (snd (send_active_device_command e cmd c)) = cm_ma c"
  by (simp add: send_active_device_command_def split: option.split)

lemma keeps_volume [simp]: "cm_ma (snd (send_active_device_volume e v c)) = cm_ma c"
  by (simp add: send_active_device_volume_def split: option.split)

lemma keeps_transfer [simp]: "cm_ma (snd (send_transfer e target c)) = cm_ma c"
  by (simp add: send_transfer_def split: option.split)

lemma keeps_resume [simp]: "cm_ma (snd (resume_last_device e c)) = cm_ma c"
  by (simp add: resume_last_device_def Let_def)

lemma keeps_transfer_if_needed [simp]: "cm_ma (snd (transfer_if_needed e c)) = cm_ma c"
  by (simp add: transfer_if_needed_def Let_def split_def split: option.split)

lemma keeps_fallback [simp]: "cm_ma (snd (play_liked_songs_fallback e target d c)) = cm_ma c"
  by (simp add: play_liked_songs_fallback_def Let_def split: option.split)

lemma keeps_play [simp]: "cm_ma (snd (play_context e d c)) = cm_ma c"
proof -
  have sent: "cm_ma (snd (case send_device_command e t cmd c1 of
      (Some err, c2) \<Rightarrow> (Some err, c2) | (None, c2) \<Rightarrow> (None, c2\<lparr>cm_liked_session := b\<rparr>))) = cm_ma c1" for t cmd c1 b
    using keeps_device [of e t cmd c1] by (auto simp del: keeps_device split: prod.split option.split)
  show ?thesis by (simp add: play_context_def Let_def sent)
qed

lemma keeps_set_volume [simp]: "cm_ma (snd (set_volume e v relative c)) = cm_ma c"
  by (simp add: set_volume_def split: option.split)

lemma keeps_to_target [simp]: "cm_ma (snd (to_target e what cmd c)) = cm_ma c"
  by (simp add: to_target_def)

text \<open>Each request is answered by one of the two: either it changes nothing but the state of Music
  Assistant, so that nothing reaches Spotify or the phone, or it leaves Music Assistant alone. Which one it is
  depends on the selected source, except for adding to the queue and a transfer, which always go to Spotify.\<close>

theorem one_backend:
  "if reaches_ma e cmd then snd (handle_command e cmd c) = c\<lparr>cm_ma := cm_ma (snd (handle_command e cmd c))\<rparr>
   else cm_ma (snd (handle_command e cmd c)) = cm_ma c"
  by (cases cmd) (auto simp: reaches_ma_def handle_command_def ma_verb_of_def spotify_command_def split: prod.split)

subsection \<open>The liked songs\<close>

text \<open>What a tap on the liked songs plays: the playlist when it is known, else the tapped track, else the first
  track of the library.\<close>

definition liked_context :: "command_env \<Rightarrow> play_data \<Rightarrow> commander \<Rightarrow> string" where
  "liked_context e d c =
     first_non_empty [cm_liked_uri c, (case pd_offset d of None \<Rightarrow> [] | Some f \<Rightarrow> of_uri f),
       (case ce_first_track e of None \<Rightarrow> [] | Some u \<Rightarrow> u)]"

lemma transfer_keeps [simp]:
  "cm_liked_uri (snd (transfer_if_needed e c)) = cm_liked_uri c"
  "cm_own (snd (transfer_if_needed e c)) = cm_own c"
  "cm_conn (snd (transfer_if_needed e c)) = cm_conn c"
  "command_target e (snd (transfer_if_needed e c)) = command_target e c"
  by (simp_all add: transfer_if_needed_def Let_def split_def send_transfer_def send_post_def command_target_def
      active_of_def split: option.split)

definition liked_command :: "command_env \<Rightarrow> play_data \<Rightarrow> commander \<Rightarrow> connect_command" where
  "liked_command e d c =
     build_play_command (ce_command_id e)
       (if cm_liked_uri c \<noteq> [] then d\<lparr>pd_uri := cm_liked_uri c\<rparr>
        else \<lparr>pd_uri = liked_context e d c, pd_skip_to = [], pd_shuffle = pd_shuffle d, pd_offset = None\<rparr>)"

lemma liked_command_context: "cc_context (liked_command e d c) = Some (liked_context e d c, ''context://'' @ liked_context e d c)"
  by (simp add: liked_command_def build_play_command_def liked_context_def first_non_empty_def)

lemma send_device_ok:
  "target \<noteq> [] \<Longrightarrow> target \<noteq> cm_own c \<Longrightarrow> cm_conn c = Some k
   \<Longrightarrow> send_device_command e target cmd c = send_post e (PlayerCommand target k cmd) c"
  by (simp add: send_device_command_def)

lemma fallback_outcome:
  assumes "cm_liked_uri c = []" "target \<noteq> []" "target \<noteq> cm_own c" "cm_conn c = Some k"
  shows "if liked_context e d c = [] then
           fst (play_liked_songs_fallback e target d c) \<noteq> None \<and>
           snd (play_liked_songs_fallback e target d c) = c\<lparr>cm_liked_session := False\<rparr>
         else play_liked_songs_fallback e target d c =
           send_post e (PlayerCommand target k (liked_command e d c)) (c\<lparr>cm_liked_session := False\<rparr>)"
  using assms
  by (auto simp: play_liked_songs_fallback_def liked_context_def liked_command_def first_non_empty_def Let_def
      send_device_ok split: option.split)

lemma liked_context_starts [simp]:
  "liked_context e d (c\<lparr>cm_resolver_starts := n\<rparr>) = liked_context e d c"
  "liked_command e d (c\<lparr>cm_resolver_starts := n\<rparr>) = liked_command e d c"
  by (simp_all add: liked_context_def liked_command_def)

lemma liked_context_transfer [simp]:
  "liked_context e d (snd (transfer_if_needed e c)) = liked_context e d c"
  "liked_command e d (snd (transfer_if_needed e c)) = liked_command e d c"
  by (simp_all add: liked_context_def liked_command_def)

lemma liked_play_outcome:
  assumes "\<not> ma_mode_active (ce_ma e)" and "pd_uri d = liked_collection_uri"
    and "command_target e c = target" and "target \<noteq> []" and "target \<noteq> cm_own c" and "cm_conn c = Some k"
  shows "let c1 = snd (transfer_if_needed e c); c' = snd (handle_command e (CmdPlay d) c);
             failed = (fst (handle_command e (CmdPlay d) c) \<noteq> None); p = PlayerCommand target k (liked_command e d c)
         in (if liked_context e d c = [] then failed \<and> cm_posts c' = cm_posts c1
             else (failed \<longleftrightarrow> \<not> ce_ok e (length (cm_posts c1)) p) \<and> cm_posts c' = cm_posts c1 @ [p]) \<and>
            (failed \<or> cm_liked_session c' = (cm_liked_uri c \<noteq> [])) \<and>
            cm_resolver_starts c' = cm_resolver_starts c1 + (if cm_liked_uri c = [] \<and> ce_stop e then 1 else 0)"
proof -
  let ?c1 = "snd (transfer_if_needed e c)"
  let ?c2 = "if ce_stop e then ?c1\<lparr>cm_resolver_starts := Suc (cm_resolver_starts ?c1)\<rparr> else ?c1"
  have play: "handle_command e (CmdPlay d) c = play_context e d c"
    using assms by (simp add: handle_command_def ma_verb_of_def spotify_command_def)
  have named: "pd_uri d \<noteq> []" using assms by (simp add: liked_collection_uri_def)
  have "play_context e d c =
      (if cm_liked_uri c = [] then play_liked_songs_fallback e target d ?c2
       else case send_post e (PlayerCommand target k (liked_command e d c)) ?c1 of
              (Some err, c2) \<Rightarrow> (Some err, c2) | (None, c2) \<Rightarrow> (None, c2\<lparr>cm_liked_session := True\<rparr>))"
    using assms named by (simp add: play_context_def Let_def liked_command_def send_device_ok)
  moreover have "liked_context e d c \<noteq> []" if "cm_liked_uri c \<noteq> []"
    using that by (simp add: liked_context_def first_non_empty_def)
  moreover have "cm_liked_uri ?c2 = [] \<Longrightarrow> if liked_context e d c = [] then
           fst (play_liked_songs_fallback e target d ?c2) \<noteq> None \<and>
           snd (play_liked_songs_fallback e target d ?c2) = ?c2\<lparr>cm_liked_session := False\<rparr>
         else play_liked_songs_fallback e target d ?c2 =
           send_post e (PlayerCommand target k (liked_command e d c)) (?c2\<lparr>cm_liked_session := False\<rparr>)"
    using fallback_outcome [of ?c2 target k e d] assms by (simp split: if_splits)
  ultimately show ?thesis
    by (auto simp: play Let_def send_post_def split: if_splits)
qed

lemma transfer_posts_only:
  "\<exists>ts. cm_posts (snd (transfer_if_needed e c)) = cm_posts c @ ts \<and> (\<forall>t k cmd. PlayerCommand t k cmd \<notin> set ts)"
  by (auto simp: transfer_if_needed_def Let_def split_def send_transfer_def send_post_def split: option.split)

text \<open>C24: A tap on the liked songs never sends the collection itself. Given that the cached playlist, the
  tapped track and the first track of the library are not the collection, no command that goes out has it as
  its context. What is played is the cached playlist when it is known, with the offset, the shuffle and the
  track to skip to of the tap, in a single command; else the tapped track, else the first track of the
  library; and when there is none of them the tap fails. Without the playlist the resolver is started
  again, and the session counts as one of the liked songs exactly when the playlist was played.\<close>

theorem liked_play_is_concrete:
  assumes "\<not> ma_mode_active (ce_ma e)" and "pd_uri d = liked_collection_uri"
    and "command_target e c = target" and "target \<noteq> []" and "target \<noteq> cm_own c" and "cm_conn c = Some k"
    and "cm_liked_uri c \<noteq> liked_collection_uri" and "\<And>f. pd_offset d = Some f \<Longrightarrow> of_uri f \<noteq> liked_collection_uri"
    and "ce_first_track e \<noteq> Some liked_collection_uri"
  shows "let c' = snd (handle_command e (CmdPlay d) c); sent = drop (length (cm_posts c)) (cm_posts c');
             failed = (fst (handle_command e (CmdPlay d) c) \<noteq> None); p = PlayerCommand target k (liked_command e d c)
         in (\<forall>t k' cmd u v. PlayerCommand t k' cmd \<in> set sent \<and> cc_context cmd = Some (u, v) \<longrightarrow> u \<noteq> liked_collection_uri) \<and>
            (if liked_context e d c = [] then failed else p \<in> set sent) \<and>
            cc_context (liked_command e d c) = Some (liked_context e d c, ''context://'' @ liked_context e d c) \<and>
            (cm_liked_uri c \<noteq> [] \<longrightarrow>
               liked_command e d c = build_play_command (ce_command_id e) (d\<lparr>pd_uri := cm_liked_uri c\<rparr>) \<and>
               filter (\<lambda>q. \<exists>t k' cmd. q = PlayerCommand t k' cmd) sent = [p]) \<and>
            (failed \<or> cm_liked_session c' = (cm_liked_uri c \<noteq> [])) \<and>
            cm_resolver_starts c' = cm_resolver_starts (snd (transfer_if_needed e c)) +
              (if cm_liked_uri c = [] \<and> ce_stop e then 1 else 0)"
proof -
  obtain ts where ts: "cm_posts (snd (transfer_if_needed e c)) = cm_posts c @ ts" "\<forall>t k cmd. PlayerCommand t k cmd \<notin> set ts"
    using transfer_posts_only [of e c] by blast
  have con: "liked_context e d c \<noteq> liked_collection_uri"
    using assms(7-9) by (auto simp: liked_context_def first_non_empty_def liked_collection_uri_def split: option.split)
  have none: "filter (\<lambda>q. \<exists>t k' cmd. q = PlayerCommand t k' cmd) ts = []"
    using ts(2) by (auto simp: filter_empty_conv)
  have named: "liked_context e d c \<noteq> []" "liked_command e d c = build_play_command (ce_command_id e) (d\<lparr>pd_uri := cm_liked_uri c\<rparr>)"
    if "cm_liked_uri c \<noteq> []"
    using that by (simp_all add: liked_context_def liked_command_def first_non_empty_def)
  show ?thesis
    using liked_play_outcome [OF assms(1-6)] ts con none named
    by (auto simp: Let_def liked_command_context split: if_splits)
qed

text \<open>After a transfer to the default device the device that was active before is told to resume.\<close>

lemma resume_last_pulls_back:
  assumes "\<not> ma_mode_active (ce_ma e)" and "default_device_id_from_settings (ce_settings e) = def"
    and "cm_remote c = Some rs" and "fst (ob_last_device (cm_observer c)) = rs_device_id rs"
    and "rs_device_id rs \<in> cd_id ` set (connect_devices_or_empty (ob_devices (cm_observer c)))"
    and "def \<notin> {[], rs_device_id rs, cm_own c}" and "rs_device_id rs \<notin> {[], cm_own c}" and "cm_conn c = Some k"
  shows "cm_posts (snd (handle_command e CmdResumeLast c)) =
     cm_posts c @ [TransferTo def k, PlayerCommand (rs_device_id rs) k (plain_command ''resume'')]"
  using assms
  by (auto simp: handle_command_def ma_verb_of_def spotify_command_def transfer_if_needed_def Let_def split_def
      send_transfer_def send_post_def resume_last_device_def send_device_command_def)

text \<open>Anything with two colons has an id for the lyrics, streams included.\<close>

lemma stream_has_lyrics_id:
  "track_id_from_track_uri ''http://host:8000/live'' = ''8000/live''"
  "track_id_from_track_uri ''spotify--yofv://track/4ml1'' = ''4ml1''"
  "track_id_from_track_uri ''spotify--yofv://podcast_episode/4ml1'' = []"
  by code_simp+

subsection \<open>Examples\<close>

definition sample_commander :: commander where
  "sample_commander = \<lparr>cm_ma = new_ma_state\<lparr>mp_ob := new_observer\<lparr>ob_remote :=
       Some (zero_remote\<lparr>rs_device_id := ''phone''\<rparr>)\<rparr>\<rparr>,
     cm_own = ''car'', cm_conn = Some ''conn1'', cm_liked_uri = [], cm_liked_session = True, cm_resolver_starts = 0,
     cm_posts = [], cm_phone_steps = []\<rparr>"

definition sample_command_env :: command_env where
  "sample_command_env = \<lparr>ce_ok = (\<lambda>n p. True), ce_net = (\<lambda>n q. NoResponse),
     ce_ma = \<lparr>ms_config = None, ms_source = [], ms_default = []\<rparr>, ce_settings = None, ce_phone = None,
     ce_command_id = ''id'', ce_first_track = Some ''spotify:track:1'', ce_stop = True\<rparr>"

definition sample_tap :: play_data where
  "sample_tap = \<lparr>pd_uri = liked_collection_uri, pd_skip_to = [], pd_shuffle = Some True,
     pd_offset = Some \<lparr>of_uri = ''spotify:track:2'', of_position = 7\<rparr>\<rparr>"

lemma sample_target: "command_target sample_command_env sample_commander = ''phone''"
  by (simp add: command_target_def resolve_target_device_def default_device_id_from_settings_def active_of_def
      active_target_def sample_command_env_def sample_commander_def Let_def)

lemma sample_liked: "liked_context sample_command_env sample_tap sample_commander = ''spotify:track:2''"
  by (simp add: liked_context_def first_non_empty_def sample_tap_def sample_commander_def)

lemma sample_fields:
  "cm_own sample_commander = ''car''" "cm_conn sample_commander = Some ''conn1''" "cm_liked_uri sample_commander = []"
  "ce_ok sample_command_env n p" "\<not> ma_mode_active (ce_ma sample_command_env)"
  "pd_uri sample_tap = liked_collection_uri"
  "cm_posts (snd (transfer_if_needed sample_command_env sample_commander)) = []"
  by (simp_all add: transfer_if_needed_def default_device_id_from_settings_def sample_command_env_def
      sample_commander_def sample_tap_def ma_mode_active_def)

theorem liked_play_is_concrete_witness:
  "PlayerCommand ''phone'' ''conn1'' (liked_command sample_command_env sample_tap sample_commander)
     \<in> set (cm_posts (snd (handle_command sample_command_env (CmdPlay sample_tap) sample_commander))) \<and>
   cc_context (liked_command sample_command_env sample_tap sample_commander) =
     Some (''spotify:track:2'', ''context://spotify:track:2'')"
proof -
  have plain: "cm_liked_uri sample_commander \<noteq> liked_collection_uri" "cm_posts sample_commander = []"
    "\<And>f. pd_offset sample_tap = Some f \<Longrightarrow> of_uri f \<noteq> liked_collection_uri"
    "ce_first_track sample_command_env \<noteq> Some liked_collection_uri"
    by (simp_all add: sample_commander_def sample_tap_def sample_command_env_def liked_collection_uri_def)
  note tap = liked_play_is_concrete [OF sample_fields(5,6) sample_target _ _ sample_fields(2) plain(1,3,4)]
  show ?thesis using tap by (simp add: Let_def sample_liked sample_fields(1) plain(2))
qed

end
