(* ===== verification/VoiceMatch.thy ===== *)
theory VoiceMatch
  imports GoLib
begin

text \<open>
  The distance behind the phonetic matching of voice commands: \<open>levRunes\<close> and \<open>normDist\<close> of
  \<open>daemon/voice_resolver.go\<close>, and the choice of the nearest candidate that the matchers share.

  A score is the double of the code, as a rational: \<open>f64\<close> rounds after each operation that is not exact.
\<close>

subsection \<open>Edit distance\<close>

text \<open>One row of the table, written from left to right: \<open>p\<close> and \<open>q\<close> are \<open>prev[j-1]\<close> and \<open>prev[j]\<close>,
  \<open>left\<close> is \<open>cur[j-1]\<close>.\<close>

fun lev_row :: "'a \<Rightarrow> 'a list \<Rightarrow> nat list \<Rightarrow> nat \<Rightarrow> nat list" where
  "lev_row ca (cb # b) (p # q # prev) left =
     (let c = min (min (q + 1) (left + 1)) (p + (if ca = cb then 0 else 1))
      in c # lev_row ca b (q # prev) c)"
| "lev_row ca b prev left = []"

fun lev_rows :: "'a list \<Rightarrow> 'a list \<Rightarrow> nat \<Rightarrow> nat list \<Rightarrow> nat list" where
  "lev_rows [] b i prev = prev"
| "lev_rows (ca # a) b i prev = lev_rows a b (i + 1) (i # lev_row ca b prev i)"

definition lev_runes :: "'a list \<Rightarrow> 'a list \<Rightarrow> nat" where
  "lev_runes a b =
     (if a = [] then length b else if b = [] then length a
      else lev_rows a b 1 [0..<length b + 1] ! length b)"

definition norm_dist :: "'a list \<Rightarrow> 'a list \<Rightarrow> rat" where
  "norm_dist a b = f64 (of_nat (lev_runes a b) / of_nat (max (max (length a) (length b)) 1))"

subsection \<open>The nearest candidate\<close>

text \<open>A candidate replaces the best one when its score is lower.\<close>

definition nearer :: "('a \<Rightarrow> rat) \<Rightarrow> 'a option \<Rightarrow> 'a \<Rightarrow> 'a option" where
  "nearer score best m =
     (case best of None \<Rightarrow> Some m | Some b \<Rightarrow> if score m < score b then Some m else Some b)"

definition nearest :: "('a \<Rightarrow> rat) \<Rightarrow> 'a list \<Rightarrow> 'a option" where
  "nearest score xs = foldl (nearer score) None xs"

subsection \<open>Alignments\<close>

text \<open>The specification: two words written below each other with \<open>n\<close> places where they differ.\<close>

inductive align :: "nat \<Rightarrow> 'a list \<Rightarrow> 'a list \<Rightarrow> bool" where
  align_nil: "align 0 [] []"
| align_keep: "align n a b \<Longrightarrow> align n (x # a) (x # b)"
| align_subst: "align n a b \<Longrightarrow> align (Suc n) (x # a) (y # b)"
| align_delete: "align n a b \<Longrightarrow> align (Suc n) (x # a) b"
| align_insert: "align n a b \<Longrightarrow> align (Suc n) a (y # b)"

inductive_cases align_NilE: "align n [] b"
inductive_cases align_ConsE: "align n (x # a) b"

lemma align_length: "align n a b \<Longrightarrow> length a \<le> length b + n \<and> length b \<le> length a + n"
  by (induction rule: align.induct) auto

lemma align_refl: "align 0 a a"
  by (induction a) (auto intro: align.intros)

lemma align_0: "align n a b \<Longrightarrow> n = 0 \<Longrightarrow> a = b"
  by (induction rule: align.induct) auto

lemma align_sym: "align n a b \<Longrightarrow> align n b a"
  by (induction rule: align.induct) (auto intro: align.intros)

lemma align_Nil: "align (length b) [] b"
  by (induction b) (auto intro: align.intros)

lemma align_append: "align m a b \<Longrightarrow> align n c d \<Longrightarrow> align (m + n) (a @ c) (b @ d)"
  by (induction rule: align.induct) (auto intro: align.intros)

lemma align_single: "align n a b \<Longrightarrow> align n (rev a) (rev b)"
proof (induction rule: align.induct)
  case (align_keep n a b x)
  then show ?case using align_append [OF _ align_refl, of n "rev a" "rev b" "[x]"] by simp
next
  case (align_subst n a b x y)
  then show ?case using align_append [of n "rev a" "rev b" "Suc 0" "[x]" "[y]"]
    by (auto intro: align.intros)
next
  case (align_delete n a b x)
  then show ?case using align_append [of n "rev a" "rev b" "Suc 0" "[x]" "[]"]
    by (auto intro: align.intros)
next
  case (align_insert n a b y)
  then show ?case using align_append [of n "rev a" "rev b" "Suc 0" "[]" "[y]"]
    by (auto intro: align.intros)
qed (simp add: align_nil)

lemma align_rev: "align n (rev a) (rev b) \<longleftrightarrow> align n a b"
  using align_single [of n a b] align_single [of n "rev a" "rev b"] by auto

lemma align_trans:
  "align m a b \<Longrightarrow> align n b c \<Longrightarrow> \<exists>k \<le> m + n. align k a c"
proof (induction arbitrary: n c rule: align.induct)
  case align_nil
  then show ?case by auto
next
  case (align_keep m a b x)
  from align_keep.prems align_keep.IH show ?case
  proof (induction n "x # b" c rule: align.induct)
    case (align_insert n c y)
    then obtain k where "k \<le> m + n" "align k (x # a) c" by blast
    then show ?case by (intro exI [of _ "Suc k"]) (auto intro: align.intros)
  next
    case (align_keep n c) then show ?case by (meson align.align_keep)
  next
    case (align_subst n c y)
    then obtain k where "k \<le> m + n" "align k a c" by blast
    then show ?case by (intro exI [of _ "Suc k"]) (auto intro: align.intros)
  next
    case (align_delete n c)
    then obtain k where "k \<le> m + n" "align k a c" by blast
    then show ?case by (intro exI [of _ "Suc k"]) (auto intro: align.intros)
  qed
next
  case (align_subst m a b x y)
  from align_subst.prems align_subst.IH show ?case
  proof (induction n "y # b" c rule: align.induct)
    case (align_insert n c z)
    then obtain k where "k \<le> Suc m + n" "align k (x # a) c" by blast
    then show ?case by (intro exI [of _ "Suc k"]) (auto intro: align.intros)
  next
    case (align_keep n c)
    then obtain k where "k \<le> m + n" "align k a c" by blast
    then show ?case by (intro exI [of _ "Suc k"]) (auto intro: align.intros)
  next
    case (align_subst n c z)
    then obtain k where "k \<le> m + n" "align k a c" by blast
    then show ?case by (intro exI [of _ "Suc k"]) (auto intro: align.intros)
  next
    case (align_delete n c)
    then obtain k where "k \<le> m + n" "align k a c" by blast
    then show ?case by (intro exI [of _ "Suc k"]) (auto intro: align.intros)
  qed
next
  case (align_delete m a b x)
  then obtain k where "k \<le> m + n" "align k a c" by blast
  then show ?case by (intro exI [of _ "Suc k"]) (auto intro: align.intros)
next
  case (align_insert m a b y)
  from align_insert.prems align_insert.IH show ?case
  proof (induction n "y # b" c rule: align.induct)
    case (align_insert n c z)
    then obtain k where "k \<le> Suc m + n" "align k a c" by blast
    then show ?case by (intro exI [of _ "Suc k"]) (auto intro: align.intros)
  next
    case (align_keep n c)
    then obtain k where "k \<le> m + n" "align k a c" by blast
    then show ?case by (intro exI [of _ "Suc k"]) (auto intro: align.intros)
  next
    case (align_subst n c z)
    then obtain k where "k \<le> m + n" "align k a c" by blast
    then show ?case by (intro exI [of _ "Suc k"]) (auto intro: align.intros)
  next
    case (align_delete n c)
    then obtain k where "k \<le> m + n" "align k a c" by blast
    then show ?case by (intro exI [of _ k]) (auto intro: align.intros)
  qed
qed

subsection \<open>The table computes the least alignment\<close>

fun edit_distance :: "'a list \<Rightarrow> 'a list \<Rightarrow> nat" where
  "edit_distance [] b = length b"
| "edit_distance a [] = length a"
| "edit_distance (x # a) (y # b) =
     min (min (edit_distance a (y # b) + 1) (edit_distance (x # a) b + 1))
         (edit_distance a b + (if x = y then 0 else 1))"

lemma edit_distance_Nil [simp]: "edit_distance a [] = length a"
  by (cases a) simp_all

lemma edit_distance_align: "align (edit_distance a b) a b"
proof (induction a b rule: edit_distance.induct)
  case (1 b)
  then show ?case by (simp add: align_Nil)
next
  case (2 x a)
  then show ?case using align_sym [OF align_Nil [of "x # a"]] by simp
next
  case (3 x a y b)
  then show ?case by (auto simp: min_def intro: align.intros)
qed

lemma edit_distance_step:
  "edit_distance (x # a) (x # b) \<le> edit_distance a b"
  "edit_distance (x # a) (y # b) \<le> Suc (edit_distance a b)"
  "edit_distance (x # a) b \<le> Suc (edit_distance a b)"
  "edit_distance a (y # b) \<le> Suc (edit_distance a b)"
  subgoal by (simp add: min.coboundedI2)
  subgoal by (simp add: min.coboundedI2)
  subgoal by (cases b) (simp_all add: min.coboundedI1)
  subgoal by (cases a) (simp_all add: min.coboundedI1 min.coboundedI2)
  done

lemma edit_distance_max: "edit_distance a b \<le> max (length a) (length b)"
proof (induction a b rule: edit_distance.induct)
  case (3 x a y b)
  then show ?case using edit_distance_step(2) [of x a y b] by (simp add: max_def split: if_splits)
qed simp_all

lemma edit_distance_least: "align n a b \<Longrightarrow> edit_distance a b \<le> n"
  by (induction rule: align.induct) (auto intro: order_trans [OF edit_distance_step(1)]
      order_trans [OF edit_distance_step(2)] order_trans [OF edit_distance_step(3)] order_trans [OF edit_distance_step(4)])

lemma edit_distance_0: "edit_distance a b = 0 \<longleftrightarrow> a = b"
proof
  show "edit_distance a b = 0 \<Longrightarrow> a = b" using align_0 [OF edit_distance_align] .
  show "a = b \<Longrightarrow> edit_distance a b = 0" using edit_distance_least [OF align_refl [of a]] by simp
qed

lemma edit_distance_Least: "edit_distance a b = (LEAST n. align n a b)"
  by (rule Least_equality [symmetric]) (simp_all add: edit_distance_align edit_distance_least)

lemma edit_distance_rev: "edit_distance (rev a) (rev b) = edit_distance a b"
  by (simp add: edit_distance_Least align_rev)

text \<open>Row \<open>i\<close> of the table holds the distances of the first \<open>i\<close> runes to every prefix; the prefixes grow at
  the end, so they are kept reversed.\<close>

definition table_row :: "'a list \<Rightarrow> 'a list \<Rightarrow> nat list" where
  "table_row ra b = map (\<lambda>j. edit_distance ra (rev (take j b))) [0..<length b + 1]"

fun dist_from :: "'a list \<Rightarrow> 'a list \<Rightarrow> 'a list \<Rightarrow> nat list" where
  "dist_from ra done [] = []"
| "dist_from ra done (y # b) = edit_distance ra (y # done) # dist_from ra (y # done) b"

lemma lev_row_correct:
  "lev_row x b (edit_distance ra done # dist_from ra done b) (edit_distance (x # ra) done)
   = dist_from (x # ra) done b"
proof (induction b arbitrary: "done")
  case (Cons y b)
  show ?case using Cons.IH [of "y # done"] by (simp add: Let_def)
qed simp

lemma lev_rows_correct:
  "lev_rows a b (Suc (length ra)) (length ra # dist_from ra [] b) =
   (length ra + length a) # dist_from (rev a @ ra) [] b"
proof (induction a arbitrary: ra)
  case (Cons x a)
  have "lev_row x b (length ra # dist_from ra [] b) (Suc (length ra)) = dist_from (x # ra) [] b"
    using lev_row_correct [of x b ra "[]"] by simp
  then show ?case using Cons.IH [of "x # ra"] by simp
qed simp

lemma dist_from_Nil: "dist_from [] done b = [Suc (length done)..<Suc (length done + length b)]"
proof (induction b arbitrary: "done")
  case (Cons y b)
  then show ?case by (simp add: upt_conv_Cons del: upt_Suc)
qed simp

lemma dist_from_nth: "j < length b \<Longrightarrow> dist_from ra done b ! j = edit_distance ra (rev (take (Suc j) b) @ done)"
  by (induction b arbitrary: j "done") (auto simp: nth_Cons split: nat.split)

lemma lev_runes_edit: "lev_runes a b = edit_distance a b"
proof -
  consider "a = []" | "b = []" "a \<noteq> []" | "a \<noteq> []" "b \<noteq> []" by blast
  then show ?thesis
  proof cases
    case 3
    have start: "[0..<length b + 1] = 0 # dist_from [] [] b"
      by (simp add: dist_from_Nil upt_conv_Cons del: upt_Suc)
    have "lev_rows a b 1 [0..<length b + 1] = length a # dist_from (rev a) [] b"
      using lev_rows_correct [of a b "[]"] unfolding start by simp
    moreover obtain j where j: "length b = Suc j" using 3 by (cases b) auto
    ultimately have "lev_runes a b = edit_distance (rev a) (rev b)"
      using 3 by (simp add: lev_runes_def dist_from_nth)
    then show ?thesis by (simp add: edit_distance_rev)
  qed (simp_all add: lev_runes_def)
qed

text \<open>C25: The table of \<open>levRunes\<close> computes the edit distance: the least number of differing places over all
  alignments of the two words. It is a metric, and at most the length of the longer word.\<close>

theorem lev_runes_is_edit_distance:
  "lev_runes a b = (LEAST n. align n a b) \<and> (lev_runes a b = 0 \<longleftrightarrow> a = b) \<and> lev_runes a b = lev_runes b a \<and>
   lev_runes a c \<le> lev_runes a b + lev_runes b c \<and> lev_runes a b \<le> max (length a) (length b)"
proof -
  have zero: "edit_distance a b = 0 \<longleftrightarrow> a = b" by (rule edit_distance_0)
  have sym: "edit_distance a b = edit_distance b a"
    using edit_distance_least [OF align_sym [OF edit_distance_align [of a b]]]
      edit_distance_least [OF align_sym [OF edit_distance_align [of b a]]] by (rule antisym [rotated])
  obtain k where "k \<le> edit_distance a b + edit_distance b c" "align k a c"
    using align_trans [OF edit_distance_align edit_distance_align] by blast
  then have tri: "edit_distance a c \<le> edit_distance a b + edit_distance b c"
    by (meson edit_distance_least le_trans)
  show ?thesis
    using zero sym tri edit_distance_max [of a b] edit_distance_Least [of a b] by (simp only: lev_runes_edit simp_thms)
qed

lemma f64_nonneg: "0 \<le> q \<Longrightarrow> 0 \<le> f64 q"
proof -
  assume "0 \<le> q"
  moreover have "0 \<le> x \<Longrightarrow> 0 \<le> round_even x" for x by (simp add: round_even_def Let_def)
  moreover have "0 \<le> two_to e" for e by (simp add: two_to_def)
  ultimately show "0 \<le> f64 q" by (simp add: f64_def Let_def sgn_if)
qed

lemma f64_0 [simp]: "f64 0 = 0"
  by (simp add: f64_def)

lemma two_to_pos [simp]: "0 < two_to e"
  by (simp add: two_to_def)

lemma two_to_powr: "two_to e = 2 powi e"
  by (simp add: two_to_def power_int_def inverse_eq_divide power_divide)

lemma f64_exponent_le:
  assumes "0 < a"
  shows "two_to (f64_exponent a) \<le> a"
proof -
  obtain n d where q: "quotient_of a = (n, d)" by (cases "quotient_of a")
  have d: "0 < d" using quotient_of_denom_pos [OF q] .
  have a: "a = of_int n / of_int d" using quotient_of_div [OF q] .
  then have n: "0 < n" using assms d by (simp add: zero_less_divide_iff)
  have "2 ^ nat (bitlen n - 1) \<le> n" using bitlen_bounds [OF n] by simp
  then have nl: "(2::rat) powi (bitlen n - 1) \<le> of_int n"
    using n bitlen_nonneg [of n] bitlen_eq_zero_iff [of n]
    by (simp add: power_int_def)
  have "d < 2 ^ nat (bitlen d)" using bitlen_bounds [OF d] by simp
  then have du: "of_int d \<le> (2::rat) powi (bitlen d)"
    using bitlen_nonneg [of d] by (simp add: power_int_def)
  have "(2::rat) powi (bitlen n - 1 - bitlen d) = 2 powi (bitlen n - 1) / 2 powi (bitlen d)"
    by (simp add: power_int_diff)
  also have "\<dots> \<le> a" unfolding a using nl du d n by (intro frac_le) auto
  finally show ?thesis by (simp add: f64_exponent_def q two_to_powr Let_def algebra_simps)
qed

lemma f64_pos: "0 < q \<Longrightarrow> 0 < f64 q"
proof -
  assume q: "0 < q"
  let ?e = "f64_exponent q"
  have "two_to ?e * two_to (52 - ?e) \<le> q * two_to (52 - ?e)"
    using f64_exponent_le [OF q] by (simp add: mult_right_mono less_imp_le)
  also have "two_to ?e * two_to (52 - ?e) = 2 ^ 52" by (simp add: two_to_powr power_int_add [symmetric])
  finally have "1 \<le> q * two_to (52 - ?e)" by simp
  then have "1 \<le> \<lfloor>q * two_to (52 - ?e)\<rfloor>" by simp
  then have "0 < round_even (q * two_to (52 - ?e))" by (auto simp: round_even_def Let_def)
  then show "0 < f64 q" using q by (simp add: f64_def Let_def)
qed

lemma f64_eq_0 [simp]: "0 \<le> q \<Longrightarrow> f64 q = 0 \<longleftrightarrow> q = 0"
  using f64_pos [of q] by (cases "q = 0") auto

lemma norm_dist_nonneg: "0 \<le> norm_dist a b"
  by (simp add: norm_dist_def f64_nonneg)

lemma norm_dist_0: "norm_dist a b = 0 \<longleftrightarrow> a = b"
  by (simp add: norm_dist_def lev_runes_edit edit_distance_0)

lemma norm_dist_self [simp]: "norm_dist a a = 0"
proof -
  have "lev_runes a a = 0" by (simp add: lev_runes_edit edit_distance_0)
  then show ?thesis by (simp add: norm_dist_def)
qed

subsection \<open>The choice is the first of the nearest\<close>

lemma nearest_snoc: "nearest score (xs @ [x]) = nearer score (nearest score xs) x"
  by (simp add: nearest_def)

lemma nearest_Nil [simp]: "nearest score [] = None"
  by (simp add: nearest_def)

lemma nearest_single [simp]: "nearest score [x] = Some x"
  by (simp add: nearest_def nearer_def)

lemma nearest_None [simp]: "nearest score xs = None \<longleftrightarrow> xs = []"
  by (induction xs rule: rev_induct) (simp_all add: nearest_snoc nearer_def split: option.split)

lemma nearest_split:
  "nearest score xs = Some m \<Longrightarrow> \<exists>as bs. xs = as @ m # bs \<and> (\<forall>x \<in> set as. score m < score x) \<and> (\<forall>x \<in> set bs. score m \<le> score x)"
proof (induction xs arbitrary: m rule: rev_induct)
  case (snoc x xs)
  show ?case
  proof (cases "nearest score xs")
    case None
    then have "xs = []" "m = x" using snoc.prems by (simp_all add: nearest_snoc nearer_def del: nearest_None)
        (metis nearest_None None)
    then show ?thesis by (intro exI [of _ "[]"]) simp
  next
    case (Some b)
    then obtain as bs where split: "xs = as @ b # bs" "\<forall>x \<in> set as. score b < score x" "\<forall>x \<in> set bs. score b \<le> score x"
      using snoc.IH by blast
    show ?thesis
    proof (cases "score x < score b")
      case True
      then have "m = x" using Some snoc.prems by (simp add: nearest_snoc nearer_def)
      then show ?thesis using True split by (intro exI [of _ xs] exI [of _ "[]"]) fastforce
    next
      case False
      then have "m = b" using Some snoc.prems by (simp add: nearest_snoc nearer_def)
      then show ?thesis using False split by (intro exI [of _ as] exI [of _ "bs @ [x]"]) auto
    qed
  qed
qed simp

lemma nearest_least: "nearest score xs = Some m \<Longrightarrow> m \<in> set xs \<and> (\<forall>x \<in> set xs. score m \<le> score x)"
  using nearest_split by fastforce

lemma nearest_map: "nearest score (map f xs) = map_option f (nearest (score \<circ> f) xs)"
  by (induction xs rule: rev_induct) (auto simp: nearest_snoc nearer_def split: option.split)

text \<open>A perfect candidate is found when nothing can be better.\<close>

lemma nearest_zero:
  assumes "\<forall>x \<in> set xs. 0 \<le> score x" and "x \<in> set xs" and "score x = 0"
  shows "\<exists>m. nearest score xs = Some m \<and> score m = 0"
proof -
  obtain m where m: "nearest score xs = Some m"
    using assms(2) nearest_None [of score xs] by (cases "nearest score xs") auto
  then show ?thesis using nearest_least [OF m] assms by (intro exI [of _ m]) force
qed

end
