(* ===== verification/VoiceG2p.thy ===== *)
theory VoiceG2p
  imports VoiceMatch Settings
begin

text \<open>
  Text for the voice commands and its phonemes: the normal forms of \<open>daemon/voice_resolver.go\<close> and
  \<open>daemon/voice.go\<close>, and \<open>daemon/voice_g2p.go\<close> with its memo.

  Phonemes are lists of code points. A run of espeak is a function of its number and its input; None is a
  failed run. The lower case of letters outside of Latin-1 is not modelled: such letters keep their case,
  except the two whose lower case is an ASCII letter.
\<close>

subsection \<open>Text\<close>

fun lower_text :: "string \<Rightarrow> string" where
  "lower_text [] = []"
| "lower_text (c # cs) =
     (if has_prefix (c # cs) [CHR 0xC4, CHR 0xB0] then CHR ''i'' # lower_text (drop 1 cs)
      else if has_prefix (c # cs) [CHR 0xE2, CHR 0x84, CHR 0xAA] then CHR ''k'' # lower_text (drop 2 cs)
      else if c = CHR 0xC3 then
        (case cs of
           [] \<Rightarrow> [c]
         | d # r \<Rightarrow>
             let n = of_char d :: nat
             in if 0x80 \<le> n \<and> n \<le> 0x9E \<and> n \<noteq> 0x97 then c # char_of (n + 32) # lower_text r
                else c # lower_text cs)
      else lower_char c # lower_text cs)"

lemma str_fields_shorter:
  assumes "dropWhile is_space s \<noteq> []"
  shows "length (dropWhile (\<lambda>c. \<not> is_space c) (dropWhile is_space s)) < length s"
proof -
  obtain c r where r: "dropWhile is_space s = c # r" using assms by (cases "dropWhile is_space s") auto
  then have "\<not> is_space c" using hd_dropWhile [of is_space s] by simp
  then have "length (dropWhile (\<lambda>c. \<not> is_space c) (dropWhile is_space s)) \<le> length r"
    by (simp add: r length_dropWhile_le)
  also have "length r < length (dropWhile is_space s)" by (simp add: r)
  also have "\<dots> \<le> length s" by (rule length_dropWhile_le)
  finally show ?thesis .
qed

text \<open>\<open>strings.Fields\<close>.\<close>

function str_fields :: "string \<Rightarrow> string list" where
  "str_fields s =
     (let r = dropWhile is_space s
      in if r = [] then [] else takeWhile (\<lambda>c. \<not> is_space c) r # str_fields (dropWhile (\<lambda>c. \<not> is_space c) r))"
  by pat_completeness auto

termination by (relation "measure length") (simp_all only: in_measure wf_measure str_fields_shorter not_False_eq_True)

declare str_fields.simps [simp del]

text \<open>\<open>strings.Join\<close> with a space.\<close>

fun unwords :: "string list \<Rightarrow> string" where
  "unwords [] = []"
| "unwords [w] = w"
| "unwords (w # ws) = w @ CHR '' '' # unwords ws"

text \<open>Each maximal run of such characters becomes one space.\<close>

fun squeeze :: "(char \<Rightarrow> bool) \<Rightarrow> bool \<Rightarrow> string \<Rightarrow> string" where
  "squeeze P inside [] = []"
| "squeeze P inside (c # cs) =
     (if P c then (if inside then squeeze P True cs else CHR '' '' # squeeze P True cs)
      else c # squeeze P False cs)"

definition is_word_char :: "char \<Rightarrow> bool" where
  "is_word_char c \<longleftrightarrow> (let n = of_char c :: nat in 48 \<le> n \<and> n \<le> 57 \<or> 65 \<le> n \<and> n \<le> 90 \<or> n = 95 \<or> 97 \<le> n \<and> n \<le> 122)"

definition is_re_space :: "char \<Rightarrow> bool" where
  "is_re_space c \<longleftrightarrow> c \<in> {CHR '' '', CHR 0x09, CHR 0x0A, CHR 0x0C, CHR 0x0D}"

definition resolver_normalize :: "string \<Rightarrow> string" where
  "resolver_normalize h =
     trim_space (squeeze is_re_space False
       (squeeze (\<lambda>c. \<not> is_word_char c \<and> \<not> is_re_space c) False (lower_text h)))"

fun replace_all :: "string \<Rightarrow> string \<Rightarrow> string \<Rightarrow> string" where
  "replace_all old new [] = []"
| "replace_all old new (c # cs) =
     (if old \<noteq> [] \<and> has_prefix (c # cs) old then new @ replace_all old new (drop (length old - 1) cs)
      else c # replace_all old new cs)"

subsection \<open>The query of a transcript without the resolver\<close>

definition is_query_char :: "char \<Rightarrow> bool" where
  "is_query_char c \<longleftrightarrow> (let n = of_char c :: nat in 97 \<le> n \<and> n \<le> 122 \<or> 48 \<le> n \<and> n \<le> 57 \<or> n = 32)"

definition parse_voice_query :: "string \<Rightarrow> string" where
  "parse_voice_query t =
     (let words = str_fields (squeeze (\<lambda>c. \<not> is_query_char c) False (lower_text t));
          said = (if ''play'' \<in> set words
                  then takeWhile (\<lambda>w. w \<noteq> ''play'') (tl (dropWhile (\<lambda>w. w \<noteq> ''play'') words)) else words)
      in unwords (dropWhile (\<lambda>w. w \<in> {''the'', ''some'', ''a''}) said))"

definition clean_transcript :: "string \<Rightarrow> string" where
  "clean_transcript s = trim_space (replace_char (CHR 0x0A) (CHR '' '') (trim_space s))"

subsection \<open>Phonemes\<close>

type_synonym phonemes = "nat list"

record g2p =
  gp_memo :: "string \<rightharpoonup> phonemes"
  gp_runs :: nat
  gp_ok :: "bool option"  \<comment> \<open>the probe, once done\<close>

type_synonym espeak = "nat \<Rightarrow> string list \<Rightarrow> phonemes list option"  \<comment> \<open>one run, its lines and theirs\<close>

definition new_g2p :: g2p where
  "new_g2p = \<lparr>gp_memo = Map.empty, gp_runs = 0, gp_ok = None\<rparr>"

definition is_espeak_char :: "char \<Rightarrow> bool" where
  "is_espeak_char c \<longleftrightarrow> (let n = of_char c :: nat in 97 \<le> n \<and> n \<le> 122 \<or> 48 \<le> n \<and> n \<le> 57 \<or> n = 39)"

definition espeak_norm :: "string \<Rightarrow> string" where
  "espeak_norm s =
     (let t = trim_space (squeeze (\<lambda>c. \<not> is_espeak_char c) False (lower_text s)) in if t = [] then ''x'' else t)"

text \<open>White space and the two stress marks, U+02C8 and U+02CC.\<close>

definition clean_ipa :: "phonemes \<Rightarrow> phonemes" where
  "clean_ipa s = filter (\<lambda>r. r \<notin> {0x20, 0x0A, 0x0D, 0x09, 0x2C8, 0x2CC}) s"

definition g2p_key :: "string \<Rightarrow> string" where
  "g2p_key s = lower_text (trim_space s)"

definition ipa :: "espeak \<Rightarrow> string \<Rightarrow> g2p \<Rightarrow> phonemes \<times> g2p" where
  "ipa esp s g =
     (let key = g2p_key s
      in if key = [] then ([], g)
         else case gp_memo g key of
                Some v \<Rightarrow> (v, g)
              | None \<Rightarrow>
                  (case esp (gp_runs g) [espeak_norm key] of
                     Some outs \<Rightarrow>
                       let v = clean_ipa (concat outs)
                       in (v, g\<lparr>gp_memo := (gp_memo g)(key \<mapsto> v), gp_runs := Suc (gp_runs g)\<rparr>)
                   | None \<Rightarrow> ([], g\<lparr>gp_runs := Suc (gp_runs g)\<rparr>)))"

definition g2p_chunk :: nat where "g2p_chunk = 512"

text \<open>The keys that are not known yet, each once.\<close>

definition pending_keys :: "g2p \<Rightarrow> string list \<Rightarrow> string list" where
  "pending_keys g texts =
     filter (\<lambda>k. gp_memo g k = None) (rev (remdups (rev (filter (\<lambda>k. k \<noteq> []) (map g2p_key texts)))))"

fun ipa_each :: "espeak \<Rightarrow> string list \<Rightarrow> g2p \<Rightarrow> g2p" where
  "ipa_each esp [] g = g"
| "ipa_each esp (k # ks) g = ipa_each esp ks (snd (ipa esp k g))"

text \<open>One run for a chunk; an answer with another number of lines counts as failed, and then each is asked alone.\<close>

definition ipa_chunk :: "espeak \<Rightarrow> string list \<Rightarrow> g2p \<Rightarrow> g2p" where
  "ipa_chunk esp chunk g =
     (let g1 = g\<lparr>gp_runs := Suc (gp_runs g)\<rparr>
      in case esp (gp_runs g) (map espeak_norm chunk) of
           None \<Rightarrow> ipa_each esp chunk g1
         | Some outs \<Rightarrow>
             if length outs \<noteq> length chunk then ipa_each esp chunk g1
             else g1\<lparr>gp_memo := gp_memo g1 ++ map_of (zip chunk (map clean_ipa outs))\<rparr>)"

function ipa_chunks :: "espeak \<Rightarrow> string list \<Rightarrow> g2p \<Rightarrow> g2p" where
  "ipa_chunks esp ks g =
     (if ks = [] then g else ipa_chunks esp (drop g2p_chunk ks) (ipa_chunk esp (take g2p_chunk ks) g))"
  by pat_completeness auto

termination by (relation "measure (\<lambda>(esp, ks, g). length ks)") (auto simp: g2p_chunk_def)

declare ipa_chunks.simps [simp del]

definition ipa_many :: "espeak \<Rightarrow> string list \<Rightarrow> g2p \<Rightarrow> g2p" where
  "ipa_many esp texts g = ipa_chunks esp (pending_keys g texts) g"

definition g2p_available :: "espeak \<Rightarrow> g2p \<Rightarrow> bool \<times> g2p" where
  "g2p_available esp g =
     (case gp_ok g of
        Some ok \<Rightarrow> (ok, g)
      | None \<Rightarrow> (case ipa esp ''test'' g of (s, g1) \<Rightarrow> (s \<noteq> [], g1\<lparr>gp_ok := Some (s \<noteq> [])\<rparr>)))"

end
