(* ===== verification/VoiceResolver.thy ===== *)
theory VoiceResolver
  imports VoiceG2p QueueExpand
begin

text \<open>
  \<open>daemon/voice_resolver.go\<close>: what a transcript asks for, and which entry of the library it means.

  \<open>say\<close> gives the phonemes of a text (\<open>ipa\<close> of \<open>VoiceG2p\<close>; an empty answer is a failed run); the choice of a
  random song is an argument.
\<close>

subsection \<open>Thresholds and words\<close>

definition cascade_accept_default :: rat where "cascade_accept_default = f64 (42 / 100)"
definition cascade_track_anchored_floor :: rat where "cascade_track_anchored_floor = f64 (60 / 100)"
definition bare_floor :: rat where "bare_floor = f64 (30 / 100)"
definition search_rerank_floor :: rat where "search_rerank_floor = f64 (40 / 100)"
definition verb_match_threshold :: rat where "verb_match_threshold = f64 (34 / 100)"
definition bare_max_prefix_words :: nat where "bare_max_prefix_words = 6"
definition bare_prefix_penalty :: rat where "bare_prefix_penalty = f64 (1 / 100)"

definition control_phrases :: "(string list \<times> string) list" where
  "control_phrases =
    [([''turn'', ''it'', ''up''], ''volup''), ([''turn'', ''it'', ''down''], ''voldown''),
     ([''volume'', ''up''], ''volup''), ([''volume'', ''down''], ''voldown''),
     ([''turn'', ''up''], ''volup''), ([''turn'', ''down''], ''voldown''), ([''go'', ''back''], ''prev''),
     ([''pause''], ''pause''), ([''stop''], ''pause''), ([''resume''], ''resume''), ([''skip''], ''next''),
     ([''next''], ''next''), ([''previous''], ''prev''), ([''back''], ''prev'')]"

definition control_particles :: "string list" where
  "control_particles = [''this'', ''that'', ''it'', ''song'', ''track'', ''please'', ''now'', ''one'', ''the'', ''ahead'', ''again'']"

definition lead_play_variants :: "string list" where
  "lead_play_variants = [''clay'', ''pray'', ''slay'', ''played'', ''plays'', ''prey'', ''flay'', ''blay'', ''plei'', ''pleh'']"

definition filler_words :: "string list" where
  "filler_words = [''play'', ''please'', ''the'', ''a'', ''an'', ''of'', ''for'', ''his'', ''her'', ''to'', ''put'', ''on'',
     ''some'', ''my'', ''music'', ''song'', ''track'', ''by'']"

definition liked_filler :: "string list" where
  "liked_filler = [''play'', ''my'', ''the'', ''a'', ''some'', ''of'', ''to'', ''songs'', ''song'', ''tracks'', ''track'',
     ''music'', ''liked'', ''licked'', ''like'', ''list'', ''all'', ''collection'', ''saved'', ''favourites'', ''favorites'']"

definition random_filler :: "string list" where
  "random_filler = [''play'', ''a'', ''an'', ''some'', ''the'', ''my'', ''song'', ''songs'', ''track'', ''tracks'',
     ''music'', ''something'', ''any'', ''random'', ''anything'', ''shuffle'']"

definition strip_filler :: "string \<Rightarrow> string" where
  "strip_filler s = trim_space (unwords (filter (\<lambda>w. w \<notin> set filler_words) (str_fields s)))"

subsection \<open>Intents\<close>

datatype voice_intent =
    IntentControl string
  | IntentBare string
  | IntentTrack string string
  | IntentArtist string
  | IntentPlaylist string
  | IntentAlbum string
  | IntentQueue string string string  \<comment> \<open>track, artist, name\<close>
  | IntentRandom
  | IntentPlayLiked

definition neg_prefix :: "string \<Rightarrow> bool" where
  "neg_prefix w \<longleftrightarrow> has_prefix w ''un'' \<or> has_prefix w ''dis''"

definition sounds_like :: "(string \<Rightarrow> phonemes) \<Rightarrow> string \<Rightarrow> string \<Rightarrow> bool" where
  "sounds_like say a b \<longleftrightarrow> say a \<noteq> [] \<and> say b \<noteq> [] \<and> norm_dist (say a) (say b) \<le> verb_match_threshold"

definition word_match :: "(string \<Rightarrow> phonemes) \<Rightarrow> string \<Rightarrow> string \<Rightarrow> bool" where
  "word_match say a b \<longleftrightarrow> a = b \<or> neg_prefix a = neg_prefix b \<and> sounds_like say a b"

definition words_match :: "(string \<Rightarrow> phonemes) \<Rightarrow> string list \<Rightarrow> string list \<Rightarrow> bool" where
  "words_match say lead pw \<longleftrightarrow> list_all (\<lambda>(a, b). word_match say a b) (zip lead pw)"

definition rest_is_filler :: "string list \<Rightarrow> bool" where
  "rest_is_filler rest \<longleftrightarrow> list_all (\<lambda>w. w \<in> set control_particles) rest"

definition phrase_fits :: "(string \<Rightarrow> phonemes) \<Rightarrow> string list \<Rightarrow> string list \<times> string \<Rightarrow> bool" where
  "phrase_fits say words e \<longleftrightarrow>
     length (fst e) \<le> length words \<and> words_match say (take (length (fst e)) words) (fst e) \<and>
     rest_is_filler (drop (length (fst e)) words)"

definition match_control :: "(string \<Rightarrow> phonemes) \<Rightarrow> string list \<Rightarrow> string option" where
  "match_control say words = (if words = [] then None else map_option snd (find (phrase_fits say words) control_phrases))"

definition matches_liked :: "string list \<Rightarrow> bool" where
  "matches_liked words \<longleftrightarrow>
     list_ex (\<lambda>w. w = ''liked'' \<or> w = ''licked'') words \<and> list_all (\<lambda>w. w \<in> set liked_filler) words"

definition matches_random :: "string \<Rightarrow> bool" where
  "matches_random t \<longleftrightarrow>
     t = ''surprise me'' \<or> t = ''surprise'' \<or>
     str_contains t ''random'' \<and> list_all (\<lambda>w. w \<in> set random_filler) (str_fields t)"

definition is_queue_verb :: "(string \<Rightarrow> phonemes) \<Rightarrow> string \<Rightarrow> bool" where
  "is_queue_verb say w \<longleftrightarrow> w = ''queue'' \<or> w = ''cue'' \<or> sounds_like say w ''queue''"

definition queue_name :: "(string \<Rightarrow> phonemes) \<Rightarrow> string \<Rightarrow> string list \<Rightarrow> string option" where
  "queue_name say t words =
     (let inner = trim_space (foldl trim_suffix (trim_prefix (trim_suffix t '' queue'') ''add '')
                    ['' to the'', '' to my'', '' to''])
      in if hd words = ''add'' \<and> has_suffix t '' queue'' \<and> inner \<noteq> [] then Some inner
         else if 1 < length words \<and> is_queue_verb say (hd words) then Some (unwords (tl words))
         else None)"

definition classify_grammar :: "string \<Rightarrow> voice_intent" where
  "classify_grammar t0 =
     (let t = trim_space t0
      in if t = [] then IntentBare []
         else case str_index '' by '' t of
           Some i \<Rightarrow> IntentTrack (strip_filler (take i t)) (strip_filler (drop (i + 4) t))
         | None \<Rightarrow>
             if has_suffix t '' radio'' \<or> has_suffix t '' discography'' \<or> str_contains t '' everything by '' \<or>
                has_suffix t '' songs'' then
               IntentArtist (strip_filler (replace_all ''everything by'' []
                 (foldl trim_suffix t ['' radio'', '' discography'', '' songs''])))
             else if str_contains t ''playlist'' \<or> has_prefix t ''play my '' then
               IntentPlaylist (strip_filler (replace_all ''playlist'' [] t))
             else if str_contains t ''album'' then IntentAlbum (strip_filler (replace_all ''album'' [] t))
             else IntentBare (strip_filler t))"

definition queue_intent :: "voice_intent \<Rightarrow> voice_intent" where
  "queue_intent i =
     (case i of
        IntentTrack t a \<Rightarrow> IntentQueue t a []
      | IntentArtist n \<Rightarrow> IntentQueue [] [] n
      | IntentPlaylist n \<Rightarrow> IntentQueue [] [] n
      | IntentAlbum n \<Rightarrow> IntentQueue [] [] n
      | IntentBare n \<Rightarrow> IntentQueue [] [] n
      | _ \<Rightarrow> IntentQueue [] [] [])"

definition classify :: "(string \<Rightarrow> phonemes) \<Rightarrow> string \<Rightarrow> voice_intent" where
  "classify say h =
     (let t0 = resolver_normalize h; words0 = str_fields t0
      in if t0 = [] then IntentBare []
         else case match_control say words0 of
           Some action \<Rightarrow> IntentControl action
         | None \<Rightarrow>
             let lead = (1 < length words0 \<and> hd words0 \<in> set lead_play_variants);
                 words = (if lead then ''play'' # tl words0 else words0);
                 t = (if lead then unwords words else t0)
             in if matches_liked words then IntentPlayLiked
                else if matches_random t then IntentRandom
                else case queue_name say t words of
                       Some n \<Rightarrow> queue_intent (classify_grammar n)
                     | None \<Rightarrow> classify_grammar t)"

subsection \<open>The library\<close>

record index_entry =
  ie_name :: string
  ie_artist :: string
  ie_uri :: string
  ie_ipa :: phonemes
  ie_artist_ipa :: phonemes

record routed_index =
  ri_tracks :: "index_entry list"
  ri_artists :: "index_entry list"
  ri_playlists :: "index_entry list"
  ri_albums :: "index_entry list"
  ri_liked :: "index_entry list"

definition empty_index :: routed_index where
  "empty_index = \<lparr>ri_tracks = [], ri_artists = [], ri_playlists = [], ri_albums = [], ri_liked = []\<rparr>"

datatype entry_kind = KindTrack | KindArtist | KindPlaylist | KindAlbum

record local_candidate =
  lc_score :: rat
  lc_kind :: entry_kind
  lc_name :: string
  lc_artist :: string
  lc_uri :: string
  lc_anchored :: bool
  lc_bare :: bool

definition candidate :: "rat \<Rightarrow> entry_kind \<Rightarrow> bool \<Rightarrow> index_entry \<Rightarrow> local_candidate" where
  "candidate score kind anchored e =
     \<lparr>lc_score = score, lc_kind = kind, lc_name = ie_name e, lc_artist = ie_artist e, lc_uri = ie_uri e,
      lc_anchored = anchored, lc_bare = False\<rparr>"

definition track_score :: "phonemes \<Rightarrow> phonemes \<Rightarrow> index_entry \<Rightarrow> rat" where
  "track_score qt qa e =
     f64 (norm_dist qt (ie_ipa e) +
          (if qa \<noteq> [] \<and> ie_artist_ipa e \<noteq> [] then norm_dist qa (ie_artist_ipa e) else 0) / 2)"

definition match_track :: "(string \<Rightarrow> phonemes) \<Rightarrow> routed_index \<Rightarrow> string \<Rightarrow> string \<Rightarrow> local_candidate option" where
  "match_track say idx track artist =
     (if track = [] \<or> ri_tracks idx = [] \<or> say track = [] then None
      else let qa = (if artist = [] then [] else say artist)
           in nearest lc_score (map (\<lambda>e. candidate (track_score (say track) qa e) KindTrack (qa \<noteq> []) e) (ri_tracks idx)))"

definition match_simple :: "(string \<Rightarrow> phonemes) \<Rightarrow> index_entry list \<Rightarrow> string \<Rightarrow> entry_kind \<Rightarrow> local_candidate option" where
  "match_simple say entries n kind =
     (if n = [] \<or> entries = [] \<or> say n = [] then None
      else nearest lc_score (map (\<lambda>e. candidate (norm_dist (say n) (ie_ipa e)) kind False e) entries))"

definition bare_words :: "string \<Rightarrow> string list" where
  "bare_words n = take bare_max_prefix_words (str_fields n)"

text \<open>The tracks against the first \<open>n\<close> words, from all of them down to one.\<close>

definition prefix_candidates :: "(string \<Rightarrow> phonemes) \<Rightarrow> routed_index \<Rightarrow> string list \<Rightarrow> nat \<Rightarrow> local_candidate list" where
  "prefix_candidates say idx words n =
     (let qi = say (unwords (take n words)); penalty = f64 (of_nat (length words - n) * bare_prefix_penalty)
      in if qi = [] then []
         else map (\<lambda>e. candidate (f64 (norm_dist qi (ie_ipa e) + penalty)) KindTrack False e) (ri_tracks idx))"

definition bare_candidates :: "(string \<Rightarrow> phonemes) \<Rightarrow> routed_index \<Rightarrow> string \<Rightarrow> local_candidate list" where
  "bare_candidates say idx n =
     (let words = bare_words n
      in concat (map (prefix_candidates say idx words) (rev [1..<length words + 1])) @
         List.map_filter id
           [match_simple say (ri_artists idx) n KindArtist, match_simple say (ri_playlists idx) n KindPlaylist,
            match_simple say (ri_albums idx) n KindAlbum])"

definition match_bare :: "(string \<Rightarrow> phonemes) \<Rightarrow> routed_index \<Rightarrow> string \<Rightarrow> local_candidate option" where
  "match_bare say idx n =
     (if n = [] then None
      else map_option (\<lambda>m. m\<lparr>lc_bare := True\<rparr>) (nearest lc_score (bare_candidates say idx n)))"

definition lower_of :: "local_candidate option \<Rightarrow> local_candidate option \<Rightarrow> local_candidate option" where
  "lower_of a b =
     (case (a, b) of
        (None, _) \<Rightarrow> b | (_, None) \<Rightarrow> a
      | (Some x, Some y) \<Rightarrow> if lc_score y < lc_score x then Some y else Some x)"

definition match_for_intent :: "(string \<Rightarrow> phonemes) \<Rightarrow> routed_index \<Rightarrow> voice_intent \<Rightarrow> local_candidate option" where
  "match_for_intent say idx i =
     (case i of
        IntentTrack t a \<Rightarrow> match_track say idx t a
      | IntentQueue t a n \<Rightarrow> if t \<noteq> [] then match_track say idx t a else match_bare say idx n
      | IntentArtist n \<Rightarrow> lower_of (match_simple say (ri_artists idx) n KindArtist) (match_bare say idx n)
      | IntentPlaylist n \<Rightarrow> lower_of (match_simple say (ri_playlists idx) n KindPlaylist) (match_bare say idx n)
      | IntentAlbum n \<Rightarrow> lower_of (match_simple say (ri_albums idx) n KindAlbum) (match_bare say idx n)
      | IntentBare n \<Rightarrow> match_bare say idx n
      | _ \<Rightarrow> match_bare say idx [])"

subsection \<open>The cascade\<close>

record resolver_config =
  rc_accept :: rat

definition new_cascade_resolver :: "rat \<Rightarrow> resolver_config" where
  "new_cascade_resolver accept = \<lparr>rc_accept = (if accept \<le> 0 then cascade_accept_default else accept)\<rparr>"

definition floor_for :: "resolver_config \<Rightarrow> local_candidate \<Rightarrow> rat" where
  "floor_for c m =
     (if lc_kind m = KindTrack \<and> lc_anchored m \<and> rc_accept c < cascade_track_anchored_floor then cascade_track_anchored_floor
      else if lc_bare m \<and> bare_floor < rc_accept c then bare_floor
      else rc_accept c)"

definition has_play_intent_lead :: "(string \<Rightarrow> phonemes) \<Rightarrow> string \<Rightarrow> bool" where
  "has_play_intent_lead say h =
     (let words = str_fields (resolver_normalize h)
      in 1 < length words \<and>
         (hd words = ''play'' \<or> hd words \<in> set lead_play_variants \<or>
          2 < length words \<and> (take 2 words = [''put'', ''on''] \<or> take 2 words = [''listen'', ''to'']) \<or>
          word_match say (hd words) ''play''))"

definition search_terms_light :: "string \<Rightarrow> string \<times> string \<times> string" where
  "search_terms_light h =
     (let words0 = str_fields (resolver_normalize h);
          words = (if words0 \<noteq> [] \<and> (hd words0 = ''play'' \<or> hd words0 \<in> set lead_play_variants) then tl words0 else words0)
      in if ''by'' \<in> set words then
           let track = trim_space (unwords (takeWhile (\<lambda>w. w \<noteq> ''by'') words));
               artist = trim_space (unwords (tl (dropWhile (\<lambda>w. w \<noteq> ''by'') words)))
           in (trim_space (track @ '' '' @ artist), track, artist)
         else let track = trim_space (unwords words) in (track, track, []))"

datatype tier = TierControl | TierLocal | TierQueue | TierAbstain | TierSearch

datatype result_kind = ResultNone | ResultEntry entry_kind | ResultCollection | ResultQueue | ResultRandom | ResultBare

record resolve_result =
  rr_tier :: tier
  rr_kind :: result_kind
  rr_action :: string
  rr_name :: string
  rr_artist :: string
  rr_uri :: string
  rr_score :: rat
  rr_query :: string
  rr_query_track :: string
  rr_query_artist :: string
  rr_via :: string
  rr_index_size :: nat

definition result :: "tier \<Rightarrow> string \<Rightarrow> resolve_result" where
  "result t via = \<lparr>rr_tier = t, rr_kind = ResultNone, rr_action = [], rr_name = [], rr_artist = [], rr_uri = [], rr_score = 0,
     rr_query = [], rr_query_track = [], rr_query_artist = [], rr_via = via, rr_index_size = 0\<rparr>"

text \<open>What the loop over the hypotheses collects.\<close>

record choice =
  ch_any :: "local_candidate option"
  ch_accepted :: "local_candidate option"
  ch_hyp :: string

definition no_choice :: choice where "no_choice = \<lparr>ch_any = None, ch_accepted = None, ch_hyp = []\<rparr>"

definition consider_match :: "resolver_config \<Rightarrow> local_candidate option \<Rightarrow> string \<Rightarrow> choice \<Rightarrow> choice" where
  "consider_match c m h ch =
     (case m of
        None \<Rightarrow> ch
      | Some m \<Rightarrow>
          let ch1 = ch\<lparr>ch_any := nearer lc_score (ch_any ch) m\<rparr>
          in if lc_score m \<le> floor_for c m \<and> (case ch_accepted ch of None \<Rightarrow> True | Some b \<Rightarrow> lc_score m < lc_score b)
             then ch1\<lparr>ch_accepted := Some m, ch_hyp := h\<rparr> else ch1)"

record tally =
  ta_votes :: "string list"
  ta_control_hyp :: string
  ta_special_hyp :: string
  ta_liked :: bool
  ta_random :: bool
  ta_search :: bool
  ta_queue_seen :: bool
  ta_queue :: choice
  ta_content :: choice
  ta_fallback :: "string \<times> string \<times> string"
  ta_fallback_hyp :: string

definition no_tally :: tally where
  "no_tally = \<lparr>ta_votes = [], ta_control_hyp = [], ta_special_hyp = [], ta_liked = False, ta_random = False,
     ta_search = False, ta_queue_seen = False, ta_queue = no_choice, ta_content = no_choice,
     ta_fallback = ([], [], []), ta_fallback_hyp = []\<rparr>"

definition first_hyp :: "string \<Rightarrow> string \<Rightarrow> string" where
  "first_hyp old h = (if old = [] then h else old)"

definition is_bare :: "voice_intent \<Rightarrow> bool" where
  "is_bare i = (case i of IntentBare n \<Rightarrow> True | _ \<Rightarrow> False)"

definition tally_step :: "resolver_config \<Rightarrow> (string \<Rightarrow> phonemes) \<Rightarrow> routed_index \<Rightarrow> tally \<Rightarrow> string \<Rightarrow> tally" where
  "tally_step c say idx s h =
     (if trim_space h = [] then s
      else let i = classify say h in
        case i of
          IntentControl action \<Rightarrow>
            s\<lparr>ta_votes := action # ta_votes s, ta_control_hyp := first_hyp (ta_control_hyp s) h\<rparr>
        | IntentPlayLiked \<Rightarrow> s\<lparr>ta_liked := True, ta_special_hyp := first_hyp (ta_special_hyp s) h\<rparr>
        | IntentRandom \<Rightarrow> s\<lparr>ta_random := True, ta_special_hyp := first_hyp (ta_special_hyp s) h\<rparr>
        | IntentQueue t a n \<Rightarrow>
            s\<lparr>ta_queue_seen := True,
              ta_queue := consider_match c (match_for_intent say idx i) h
                ((ta_queue s)\<lparr>ch_hyp := first_hyp (ch_hyp (ta_queue s)) h\<rparr>)\<rparr>
        | _ \<Rightarrow>
            let s1 = s\<lparr>ta_search := (ta_search s \<or> \<not> is_bare i \<or> has_play_intent_lead say h)\<rparr>;
                s2 = (if fst (ta_fallback s1) = [] \<and> fst (search_terms_light h) \<noteq> []
                      then s1\<lparr>ta_fallback := search_terms_light h, ta_fallback_hyp := h\<rparr> else s1)
            in s2\<lparr>ta_content := consider_match c (match_for_intent say idx i) h (ta_content s2)\<rparr>)"

definition top_vote :: "string list \<Rightarrow> string" where
  "top_vote votes =
     fst (foldl (\<lambda>(best, n) e. let v = int (count_list votes (snd e)) in if n < v then (snd e, v) else (best, n))
       ([], -1) control_phrases)"

definition random_liked :: "nat \<Rightarrow> routed_index \<Rightarrow> index_entry option" where
  "random_liked r idx = (if ri_liked idx = [] then None else Some (ri_liked idx ! (r mod length (ri_liked idx))))"

definition of_candidate :: "local_candidate \<Rightarrow> resolve_result \<Rightarrow> resolve_result" where
  "of_candidate m r = r\<lparr>rr_kind := ResultEntry (lc_kind m), rr_name := lc_name m, rr_artist := lc_artist m,
     rr_uri := lc_uri m, rr_score := lc_score m\<rparr>"

definition with_best :: "local_candidate option \<Rightarrow> resolve_result \<Rightarrow> resolve_result" where
  "with_best m r = (case m of None \<Rightarrow> r | Some m \<Rightarrow> r\<lparr>rr_score := lc_score m, rr_name := lc_name m\<rparr>)"

definition decide :: "nat \<Rightarrow> routed_index \<Rightarrow> string list \<Rightarrow> tally \<Rightarrow> resolve_result" where
  "decide r idx hyps s =
     (if ta_queue_seen s then
        (case ch_accepted (ta_queue s) of
           Some m \<Rightarrow> of_candidate m (result TierQueue (ch_hyp (ta_queue s)))
         | None \<Rightarrow> with_best (ch_any (ta_queue s)) ((result TierAbstain (ch_hyp (ta_queue s)))\<lparr>rr_kind := ResultQueue\<rparr>))
      else if ta_liked s then
        (result TierLocal (ta_special_hyp s))\<lparr>rr_kind := ResultCollection, rr_uri := liked_collection_uri, rr_name := ''Liked Songs''\<rparr>
      else if ta_random s then
        (case random_liked r idx of
           Some e \<Rightarrow> (result TierLocal (ta_special_hyp s))\<lparr>rr_kind := ResultEntry KindTrack, rr_uri := ie_uri e,
                       rr_name := ie_name e, rr_artist := ie_artist e\<rparr>
         | None \<Rightarrow> (result TierAbstain (ta_special_hyp s))\<lparr>rr_kind := ResultRandom\<rparr>)
      else case ch_accepted (ta_content s) of
        Some m \<Rightarrow> of_candidate m (result TierLocal (ch_hyp (ta_content s)))
      | None \<Rightarrow>
          if ta_votes s \<noteq> [] then (result TierControl (ta_control_hyp s))\<lparr>rr_action := top_vote (ta_votes s)\<rparr>
          else if \<not> ta_search s then
            with_best (ch_any (ta_content s)) ((result TierAbstain (ta_fallback_hyp s))\<lparr>rr_kind := ResultBare\<rparr>)
          else
            let (q0, qt, qa) = ta_fallback s;
                late = (q0 = [] \<and> hyps \<noteq> []);
                r1 = (result TierSearch (if late then hd hyps else ta_fallback_hyp s))
                       \<lparr>rr_query := (if late then parse_voice_query (hd hyps) else q0), rr_query_track := qt,
                        rr_query_artist := qa,
                        rr_index_size := length (ri_tracks idx) + length (ri_artists idx) + length (ri_playlists idx) +
                          length (ri_albums idx)\<rparr>
            in case ch_any (ta_content s) of
                 None \<Rightarrow> r1
               | Some m \<Rightarrow> (with_best (Some m) r1)\<lparr>rr_kind := ResultEntry (lc_kind m)\<rparr>)"

definition resolve_voice :: "resolver_config \<Rightarrow> (string \<Rightarrow> phonemes) \<Rightarrow> nat \<Rightarrow> routed_index \<Rightarrow> string list \<Rightarrow> resolve_result" where
  "resolve_voice c say r idx hyps = decide r idx hyps (foldl (tally_step c say idx) no_tally hyps)"

subsection \<open>Search results\<close>

definition search_query_from_result :: "resolve_result \<Rightarrow> string" where
  "search_query_from_result d =
     (if rr_artist d \<noteq> [] then trim_space (rr_name d @ '' '' @ rr_artist d) else rr_name d)"

record search_track =
  st_uri :: string
  st_name :: string
  st_artist :: string

definition rerank_score :: "(string \<Rightarrow> phonemes) \<Rightarrow> phonemes \<Rightarrow> phonemes \<Rightarrow> search_track \<Rightarrow> rat" where
  "rerank_score say qt qa t =
     (let td = norm_dist qt (say (st_name t))
      in if qa \<noteq> [] \<and> st_artist t \<noteq> []
         then f64 (f64 (td + norm_dist qa (say (st_artist t)) / 2) / (3 / 2))
         else td)"

text \<open>The best result, its score and whether it is good enough; None when there is nothing to rank.\<close>

definition rerank_search ::
    "(string \<Rightarrow> phonemes) \<Rightarrow> string \<Rightarrow> string \<Rightarrow> search_track list \<Rightarrow> (search_track \<times> rat \<times> bool) option" where
  "rerank_search say q_track q_artist results =
     (if q_track = [] \<or> results = [] \<or> say q_track = [] then None
      else let qa = (if q_artist = [] then [] else say q_artist); score = rerank_score say (say q_track) qa
           in map_option (\<lambda>t. (t, score t, score t \<le> search_rerank_floor)) (nearest score results))"

subsection \<open>What is collected\<close>

text \<open>The declarative reading of the loop: the spoken hypotheses with their intents, and the matches among them.\<close>

definition spoken :: "(string \<Rightarrow> phonemes) \<Rightarrow> string list \<Rightarrow> (string \<times> voice_intent) list" where
  "spoken say hyps = map (\<lambda>h. (h, classify say h)) (filter (\<lambda>h. trim_space h \<noteq> []) hyps)"

definition is_queue :: "voice_intent \<Rightarrow> bool" where
  "is_queue i = (case i of IntentQueue t a n \<Rightarrow> True | _ \<Rightarrow> False)"

definition control_action :: "voice_intent \<Rightarrow> string option" where
  "control_action i = (case i of IntentControl a \<Rightarrow> Some a | _ \<Rightarrow> None)"

definition is_special :: "voice_intent \<Rightarrow> bool" where
  "is_special i \<longleftrightarrow> i = IntentPlayLiked \<or> i = IntentRandom"

definition is_content :: "voice_intent \<Rightarrow> bool" where
  "is_content i \<longleftrightarrow> control_action i = None \<and> \<not> is_special i \<and> \<not> is_queue i"

definition first_said :: "(voice_intent \<Rightarrow> bool) \<Rightarrow> (string \<times> voice_intent) list \<Rightarrow> string" where
  "first_said P sp = (case find (P \<circ> snd) sp of None \<Rightarrow> [] | Some (h, i) \<Rightarrow> h)"

definition voice_matches ::
    "(string \<Rightarrow> phonemes) \<Rightarrow> routed_index \<Rightarrow> (voice_intent \<Rightarrow> bool) \<Rightarrow> (string \<times> voice_intent) list \<Rightarrow>
     (string \<times> local_candidate) list" where
  "voice_matches say idx P sp =
     List.map_filter (\<lambda>(h, i). if P i then map_option (Pair h) (match_for_intent say idx i) else None) sp"

definition choice_of :: "resolver_config \<Rightarrow> string \<Rightarrow> (string \<times> local_candidate) list \<Rightarrow> choice" where
  "choice_of c start ms =
     (let best = nearest (lc_score \<circ> snd) (filter (\<lambda>(h, m). lc_score m \<le> floor_for c m) ms)
      in \<lparr>ch_any = nearest lc_score (map snd ms), ch_accepted = map_option snd best,
          ch_hyp = (case best of None \<Rightarrow> start | Some (h, m) \<Rightarrow> h)\<rparr>)"

definition fallback_of :: "(string \<times> voice_intent) list \<Rightarrow> (string \<times> string \<times> string) \<times> string" where
  "fallback_of sp =
     (case find (\<lambda>(h, i). is_content i \<and> fst (search_terms_light h) \<noteq> []) sp of
        None \<Rightarrow> (([], [], []), [])
      | Some (h, i) \<Rightarrow> (search_terms_light h, h))"

definition tally_of :: "resolver_config \<Rightarrow> (string \<Rightarrow> phonemes) \<Rightarrow> routed_index \<Rightarrow> (string \<times> voice_intent) list \<Rightarrow> tally" where
  "tally_of c say idx sp =
     \<lparr>ta_votes = rev (List.map_filter (control_action \<circ> snd) sp),
      ta_control_hyp = first_said (\<lambda>i. control_action i \<noteq> None) sp,
      ta_special_hyp = first_said is_special sp,
      ta_liked = (IntentPlayLiked \<in> snd ` set sp),
      ta_random = (IntentRandom \<in> snd ` set sp),
      ta_search = list_ex (\<lambda>(h, i). is_content i \<and> (\<not> is_bare i \<or> has_play_intent_lead say h)) sp,
      ta_queue_seen = list_ex (is_queue \<circ> snd) sp,
      ta_queue = choice_of c (first_said is_queue sp) (voice_matches say idx is_queue sp),
      ta_content = choice_of c [] (voice_matches say idx is_content sp),
      ta_fallback = fst (fallback_of sp),
      ta_fallback_hyp = snd (fallback_of sp)\<rparr>"

lemma find_append: "find P (xs @ ys) = (case find P xs of None \<Rightarrow> find P ys | Some x \<Rightarrow> Some x)"
  by (induction xs) simp_all

lemma find_in_set: "find P xs = Some x \<Longrightarrow> x \<in> set xs \<and> P x"
  by (auto simp: find_Some_iff)

lemma first_said_snoc:
  "first_said P (sp @ [(h, i)]) =
     (if P i \<and> find (P \<circ> snd) sp = None then h else first_said P sp)"
  by (auto simp: first_said_def find_append split: option.split)

lemma first_said_no: "\<not> P i \<Longrightarrow> first_said P (sp @ [(h, i)]) = first_said P sp"
  by (simp add: first_said_snoc)

lemma first_said_None: "find (P \<circ> snd) sp = None \<Longrightarrow> first_said P sp = []"
  by (simp add: first_said_def)

lemma first_said_Some:
  "find (P \<circ> snd) sp = Some x \<Longrightarrow> \<forall>y \<in> set sp. fst y \<noteq> [] \<Longrightarrow> first_said P sp \<noteq> []"
  by (cases x) (auto simp: first_said_def dest!: find_in_set)

lemma first_hyp_said:
  assumes "\<forall>y \<in> set sp. fst y \<noteq> []" and "P i"
  shows "first_hyp (first_said P sp) h = first_said P (sp @ [(h, i)])"
  using first_said_None [of P sp] first_said_Some [of P sp] assms
  by (cases "find (P \<circ> snd) sp") (auto simp: first_hyp_def first_said_snoc)

lemma voice_matches_snoc:
  "voice_matches say idx P (sp @ [(h, i)]) =
     voice_matches say idx P sp @ (if P i then (case match_for_intent say idx i of None \<Rightarrow> [] | Some m \<Rightarrow> [(h, m)]) else [])"
  by (auto simp: voice_matches_def List.map_filter_def split: option.split)

lemma consider_choice:
  "consider_match c m h (choice_of c start ms) =
     choice_of c start (ms @ (case m of None \<Rightarrow> [] | Some m \<Rightarrow> [(h, m)]))"
proof (cases m)
  case (Some m')
  let ?ok = "filter (\<lambda>(h, m). lc_score m \<le> floor_for c m) ms"
  show ?thesis
    by (cases "nearest (lc_score \<circ> snd) ?ok")
      (auto simp: Some consider_match_def choice_of_def Let_def nearest_snoc nearer_def split: option.splits)
qed (simp add: consider_match_def)

lemma spoken_snoc:
  "spoken say (hyps @ [h]) = spoken say hyps @ (if trim_space h = [] then [] else [(h, classify say h)])"
  by (simp add: spoken_def)

lemma spoken_named: "\<forall>y \<in> set (spoken say hyps). fst y \<noteq> []"
  by (auto simp: spoken_def)

lemma queue_choice_hyp:
  assumes "\<forall>y \<in> set sp. fst y \<noteq> []" and "is_queue i"
  shows "(choice_of c (first_said is_queue sp) (voice_matches say idx is_queue sp))
           \<lparr>ch_hyp := first_hyp (ch_hyp (choice_of c (first_said is_queue sp) (voice_matches say idx is_queue sp))) h\<rparr>
         = choice_of c (first_said is_queue (sp @ [(h, i)])) (voice_matches say idx is_queue sp)"
proof -
  let ?best = "nearest (lc_score \<circ> snd) (filter (\<lambda>(h, m). lc_score m \<le> floor_for c m) (voice_matches say idx is_queue sp))"
  show ?thesis
  proof (cases ?best)
    case None
    then show ?thesis using first_hyp_said [of sp is_queue i h] assms by (simp add: choice_of_def)
  next
    case (Some x)
    obtain k m where x: "x = (k, m)" by (cases x)
    have "x \<in> set (voice_matches say idx is_queue sp)" using nearest_least [OF Some] by auto
    then have "k \<noteq> []" using assms(1) by (auto simp: voice_matches_def List.map_filter_def x split: if_splits)
    then show ?thesis by (simp add: choice_of_def Some x first_hyp_def)
  qed
qed


lemma tally_step_content:
  "trim_space h \<noteq> [] \<Longrightarrow> is_content (classify say h) \<Longrightarrow> tally_step c say idx s h =
     (let s1 = s\<lparr>ta_search := (ta_search s \<or> \<not> is_bare (classify say h) \<or> has_play_intent_lead say h)\<rparr>;
          s2 = (if fst (ta_fallback s1) = [] \<and> fst (search_terms_light h) \<noteq> []
                then s1\<lparr>ta_fallback := search_terms_light h, ta_fallback_hyp := h\<rparr> else s1)
      in s2\<lparr>ta_content := consider_match c (match_for_intent say idx (classify say h)) h (ta_content s2)\<rparr>)"
  by (cases "classify say h")
    (simp_all add: tally_step_def Let_def is_content_def control_action_def is_special_def is_queue_def)

lemma fallback_snoc:
  "fallback_of (sp @ [(h, i)]) =
     (if is_content i \<and> fst (search_terms_light h) \<noteq> [] \<and> fst (fst (fallback_of sp)) = []
      then (search_terms_light h, h) else fallback_of sp)"
proof (cases "find (\<lambda>(h, i). is_content i \<and> fst (search_terms_light h) \<noteq> []) sp")
  case (Some x)
  then have "is_content (snd x) \<and> fst (search_terms_light (fst x)) \<noteq> []" by (auto dest!: find_in_set)
  then show ?thesis using Some by (cases x) (simp add: fallback_of_def find_append)
qed (auto simp: fallback_of_def find_append)

lemma votes_snoc:
  "List.map_filter (control_action \<circ> snd) (sp @ [(h, i)]) =
     List.map_filter (control_action \<circ> snd) sp @ (case control_action i of None \<Rightarrow> [] | Some a \<Rightarrow> [a])"
  by (auto simp: List.map_filter_def split: option.split)

lemmas tally_snoc = first_said_snoc voice_matches_snoc fallback_snoc votes_snoc

lemma tally_step_of:
  assumes said: "trim_space h \<noteq> []" and named: "\<forall>y \<in> set sp. fst y \<noteq> []"
  shows "tally_step c say idx (tally_of c say idx sp) h = tally_of c say idx (sp @ [(h, classify say h)])"
proof -
  let ?i = "classify say h"
  consider (control) a where "?i = IntentControl a" | (special) "is_special ?i" | (queue) t a n where "?i = IntentQueue t a n"
    | (content) "is_content ?i"
    by (cases ?i) (auto simp: is_content_def is_special_def is_queue_def control_action_def)
  then show ?thesis
  proof cases
    case control
    then show ?thesis using said first_hyp_said [OF named, of "\<lambda>i. control_action i \<noteq> None" ?i h]
      by (simp add: tally_step_def tally_of_def tally_snoc control_action_def is_special_def is_queue_def is_content_def)
  next
    case special
    then show ?thesis using said first_hyp_said [OF named, of is_special ?i h]
      by (auto simp: tally_step_def tally_of_def first_said_no voice_matches_snoc fallback_snoc votes_snoc
          control_action_def is_special_def is_queue_def is_content_def)
  next
    case queue
    then have "is_queue ?i" by (simp add: is_queue_def)
    then show ?thesis using said queue queue_choice_hyp [OF named, of ?i c say idx h]
      by (simp add: tally_step_def tally_of_def fallback_snoc votes_snoc consider_choice voice_matches_snoc
          control_action_def is_special_def is_content_def first_said_snoc)
  next
    case content
    then show ?thesis using said
      by (auto simp: tally_step_content tally_of_def tally_snoc Let_def consider_choice is_content_def is_special_def)
  qed
qed

lemma tally_fold: "foldl (tally_step c say idx) no_tally hyps = tally_of c say idx (spoken say hyps)"
proof (induction hyps rule: rev_induct)
  case Nil
  show ?case by (simp add: tally_of_def no_tally_def spoken_def first_said_def voice_matches_def List.map_filter_def
        choice_of_def no_choice_def fallback_of_def Let_def)
next
  case (snoc h hyps)
  show ?case
  proof (cases "trim_space h = []")
    case True
    then have "tally_step c say idx s h = s" for s by (simp add: tally_step_def)
    then show ?thesis using True by (simp add: snoc.IH spoken_snoc)
  next
    case False
    then show ?thesis using tally_step_of [where sp = "spoken say hyps" and say = say and c = c and idx = idx, OF False spoken_named]
      by (simp add: snoc.IH spoken_snoc)
  qed
qed

subsection \<open>Properties\<close>

text \<open>The loop over the hypotheses collects what a declarative reading of them says: whether a queue command,
  the liked songs or a random song was asked for, the first hypothesis of each, the nearest match of all and the
  nearest one below its own floor, for queue commands and content apart, and the first usable search query. The
  cascade decides on that.\<close>

theorem resolve_reads_all: "resolve_voice c say r idx hyps = decide r idx hyps (tally_of c say idx (spoken say hyps))"
  by (simp add: resolve_voice_def tally_fold)

definition entries :: "routed_index \<Rightarrow> index_entry set" where
  "entries idx = set (ri_tracks idx) \<union> set (ri_artists idx) \<union> set (ri_playlists idx) \<union> set (ri_albums idx) \<union> set (ri_liked idx)"

definition in_library :: "routed_index \<Rightarrow> local_candidate \<Rightarrow> bool" where
  "in_library idx m \<longleftrightarrow> (\<exists>e \<in> entries idx. lc_uri m = ie_uri e \<and> lc_name m = ie_name e \<and> lc_artist m = ie_artist e)"

lemma candidate_in_library: "e \<in> entries idx \<Longrightarrow> in_library idx (candidate s k a e)"
  by (auto simp: in_library_def candidate_def)

lemma track_in_library: "match_track say idx t a = Some m \<Longrightarrow> in_library idx m"
  by (auto simp: match_track_def Let_def entries_def split: if_splits dest!: nearest_least intro!: candidate_in_library)

lemma simple_in_library:
  "match_simple say es n k = Some m \<Longrightarrow> set es \<subseteq> entries idx \<Longrightarrow> in_library idx m"
  by (auto simp: match_simple_def split: if_splits dest!: nearest_least intro!: candidate_in_library)

lemma entries_parts:
  "set (ri_tracks idx) \<subseteq> entries idx" "set (ri_artists idx) \<subseteq> entries idx" "set (ri_playlists idx) \<subseteq> entries idx"
  "set (ri_albums idx) \<subseteq> entries idx" "set (ri_liked idx) \<subseteq> entries idx"
  by (auto simp: entries_def)

lemma prefix_in_library: "m \<in> set (prefix_candidates say idx ws n) \<Longrightarrow> in_library idx m"
  using entries_parts(1) [of idx]
  by (auto simp: prefix_candidates_def Let_def split: if_splits intro!: candidate_in_library)

lemma bare_in_library: "match_bare say idx n = Some m \<Longrightarrow> in_library idx m"
proof -
  assume "match_bare say idx n = Some m"
  then obtain b where b: "nearest lc_score (bare_candidates say idx n) = Some b" "m = b\<lparr>lc_bare := True\<rparr>"
    by (auto simp: match_bare_def split: if_splits)
  from nearest_least [OF b(1)] have "b \<in> set (bare_candidates say idx n)" by simp
  then have "in_library idx b"
    using simple_in_library entries_parts
    by (auto simp: bare_candidates_def Let_def List.map_filter_def split: if_splits dest: prefix_in_library)
  then show ?thesis by (simp add: b(2) in_library_def)
qed

lemma lower_in_library:
  "lower_of a b = Some m \<Longrightarrow> (\<And>x. a = Some x \<Longrightarrow> in_library idx x) \<Longrightarrow> (\<And>x. b = Some x \<Longrightarrow> in_library idx x) \<Longrightarrow> in_library idx m"
  by (auto simp: lower_of_def split: option.splits if_splits)

lemma match_in_library: "match_for_intent say idx i = Some m \<Longrightarrow> in_library idx m"
  using entries_parts [of idx]
  by (cases i) (auto simp: match_for_intent_def split: if_splits dest: track_in_library bare_in_library
      elim!: lower_in_library intro: simple_in_library bare_in_library)

lemma accepted_match:
  assumes "ch_accepted (choice_of c start (voice_matches say idx P sp)) = Some m"
  shows "in_library idx m \<and> lc_score m \<le> floor_for c m"
proof -
  obtain h where best: "nearest (lc_score \<circ> snd) (filter (\<lambda>(h, m). lc_score m \<le> floor_for c m) (voice_matches say idx P sp)) = Some (h, m)"
    using assms by (auto simp: choice_of_def Let_def)
  have "(h, m) \<in> set (voice_matches say idx P sp)" "lc_score m \<le> floor_for c m" using nearest_least [OF best] by auto
  then show ?thesis by (auto simp: voice_matches_def List.map_filter_def split: if_splits dest: match_in_library)
qed

lemma random_in_library: "random_liked r idx = Some e \<Longrightarrow> e \<in> entries idx"
  using nth_mem [of "r mod length (ri_liked idx)" "ri_liked idx"]
  by (auto simp: random_liked_def entries_def split: if_splits)

text \<open>C26: What the cascade starts or queues is the liked collection or an entry of the library, under the name and
  artist of the entry, and a match by sound is at least as near as the largest floor.\<close>

theorem voice_plays_library:
  assumes "rr_tier d = TierLocal \<or> rr_tier d = TierQueue" and "resolve_voice c say r idx hyps = d"
  shows "rr_kind d = ResultCollection \<and> rr_uri d = liked_collection_uri \<or>
     (\<exists>e \<in> entries idx. rr_uri d = ie_uri e \<and> rr_name d = ie_name e \<and> rr_artist d = ie_artist e) \<and>
     rr_score d \<le> max 0 (max (rc_accept c) cascade_track_anchored_floor)"
proof -
  let ?s = "tally_of c say idx (spoken say hyps)"
  have d: "decide r idx hyps ?s = d" using assms(2) by (simp add: resolve_reads_all)
  have floor: "floor_for c m \<le> max 0 (max (rc_accept c) cascade_track_anchored_floor)" for m
    by (simp add: floor_for_def max_def)
  have found: "(\<exists>e \<in> entries idx. lc_uri m = ie_uri e \<and> lc_name m = ie_name e \<and> lc_artist m = ie_artist e) \<and>
      lc_score m \<le> max 0 (max (rc_accept c) cascade_track_anchored_floor)"
    if "ch_accepted (ta_queue ?s) = Some m \<or> ch_accepted (ta_content ?s) = Some m" for m
    using that floor [of m] accepted_match [of c _ say idx _ "spoken say hyps" m]
    unfolding in_library_def tally_of_def tally.simps by (metis order_trans)
  show ?thesis
    using assms(1) found random_in_library [of r idx] unfolding d [symmetric]
    by (auto simp: decide_def of_candidate_def result_def with_best_def Let_def split: if_splits option.splits prod.splits)
qed

end
