(* ===== verification/VoiceChoice.thy ===== *)
theory VoiceChoice
  imports VoiceResolver
begin

text \<open>
  What the cascade of \<open>VoiceResolver\<close> does with a name: a perfect match is played. And two places where it
  does not do what it is meant to.
\<close>

definition exact_for :: "(string \<Rightarrow> phonemes) \<Rightarrow> routed_index \<Rightarrow> string \<Rightarrow> local_candidate \<Rightarrow> bool" where
  "exact_for say idx n m \<longleftrightarrow> (\<exists>e \<in> entries idx. lc_uri m = ie_uri e \<and> lc_name m = ie_name e \<and> ie_ipa e = say n)"

lemma bare_word_order:
  "bare_candidates say idx n =
     concat (map (prefix_candidates say idx (bare_words n)) (rev [1..<length (bare_words n) + 1])) @
     List.map_filter id [match_simple say (ri_artists idx) n KindArtist, match_simple say (ri_playlists idx) n KindPlaylist,
       match_simple say (ri_albums idx) n KindAlbum]"
  by (simp add: bare_candidates_def Let_def)

lemma penalty_nonneg: "0 \<le> f64 (of_nat k * bare_prefix_penalty)"
  by (intro f64_nonneg mult_nonneg_nonneg) (simp_all add: bare_prefix_penalty_def f64_nonneg)

lemma penalty_raw: "0 \<le> of_nat k * bare_prefix_penalty"
  by (intro mult_nonneg_nonneg) (simp_all add: bare_prefix_penalty_def f64_nonneg)

lemma penalty_pos: "0 < k \<Longrightarrow> 0 < f64 (of_nat k * bare_prefix_penalty)"
  by (intro f64_pos mult_pos_pos) (simp_all add: bare_prefix_penalty_def f64_pos)

lemma simple_nonneg: "match_simple say es n k = Some m \<Longrightarrow> 0 \<le> lc_score m"
  by (auto simp: match_simple_def candidate_def norm_dist_nonneg split: if_splits dest!: nearest_least)

lemma simple_exact:
  "match_simple say es n k = Some m \<Longrightarrow> set es \<subseteq> entries idx \<Longrightarrow> lc_score m = 0 \<Longrightarrow> exact_for say idx n m"
  by (force simp: match_simple_def candidate_def norm_dist_0 exact_for_def split: if_splits dest!: nearest_least)

lemma prefix_nonneg: "m \<in> set (prefix_candidates say idx ws k) \<Longrightarrow> 0 \<le> lc_score m"
  using penalty_nonneg
  by (auto simp: prefix_candidates_def Let_def candidate_def norm_dist_nonneg split: if_splits
      intro!: f64_nonneg [OF add_nonneg_nonneg])

lemma prefix_exact:
  assumes "m \<in> set (prefix_candidates say idx ws k)" and "lc_score m = 0" and "k \<le> length ws" and "unwords ws = n"
  shows "exact_for say idx n m"
proof -
  let ?qi = "say (unwords (take k ws))" and ?p = "f64 (of_nat (length ws - k) * bare_prefix_penalty)"
  obtain e where e: "e \<in> set (ri_tracks idx)" "m = candidate (f64 (norm_dist ?qi (ie_ipa e) + ?p)) KindTrack False e"
    using assms(1) by (auto simp: prefix_candidates_def Let_def split: if_splits)
  have sum: "norm_dist ?qi (ie_ipa e) + ?p = 0"
    using assms(2) f64_eq_0 [OF add_nonneg_nonneg [OF norm_dist_nonneg penalty_nonneg], of ?qi "ie_ipa e" "length ws - k"]
    by (simp add: e(2) candidate_def)
  then have "?p = 0" "norm_dist ?qi (ie_ipa e) = 0"
    using penalty_nonneg [of "length ws - k"] norm_dist_nonneg [of ?qi "ie_ipa e"] by linarith+
  then have "k = length ws" "?qi = ie_ipa e" using penalty_pos [of "length ws - k"] assms(3) norm_dist_0 by force+
  then show ?thesis using e assms(4) entries_parts(1) [of idx] by (auto simp: exact_for_def candidate_def)
qed

lemma bare_nonneg: "m \<in> set (bare_candidates say idx n) \<Longrightarrow> 0 \<le> lc_score m"
  using prefix_nonneg simple_nonneg
  by (auto simp: bare_word_order List.map_filter_def split: if_splits)

lemma bare_exact:
  assumes "m \<in> set (bare_candidates say idx n)" and "lc_score m = 0" and "unwords (bare_words n) = n"
  shows "exact_for say idx n m"
proof -
  consider k where "m \<in> set (prefix_candidates say idx (bare_words n) k)" "k \<le> length (bare_words n)"
    | es kd where "match_simple say es n kd = Some m" "set es \<subseteq> entries idx"
    using assms(1) entries_parts [of idx] by (auto simp: bare_word_order List.map_filter_def split: if_splits)
  then show ?thesis
  proof cases
    case 1
    then show ?thesis using prefix_exact [OF 1(1) assms(2) 1(2) assms(3)] by simp
  next
    case 2
    then show ?thesis using simple_exact assms(2) by blast
  qed
qed

lemma bare_perfect:
  assumes "n \<noteq> []" and "unwords (bare_words n) = n" and "e \<in> set (ri_tracks idx)" and "ie_ipa e = say n" and "say n \<noteq> []"
  shows "\<exists>m. match_bare say idx n = Some m \<and> lc_score m = 0 \<and> lc_bare m \<and> \<not> lc_anchored m \<and> exact_for say idx n m"
proof -
  let ?k = "length (bare_words n)"
  have "?k \<noteq> 0" using assms(1,2) by auto
  moreover have "candidate 0 KindTrack False e \<in> set (prefix_candidates say idx (bare_words n) ?k)"
    using assms(2-5) by (force simp: prefix_candidates_def norm_dist_0 [THEN iffD2])
  ultimately have "candidate 0 KindTrack False e \<in> set (bare_candidates say idx n)"
    by (auto simp: bare_word_order Suc_le_eq intro!: bexI [of _ ?k])
  then obtain b where b: "nearest lc_score (bare_candidates say idx n) = Some b" "lc_score b = 0"
    using nearest_zero [of "bare_candidates say idx n" lc_score "candidate 0 KindTrack False e"] bare_nonneg
    by (auto simp: candidate_def)
  have "exact_for say idx n b" using nearest_least [OF b(1)] bare_exact assms(2) b(2) by blast
  moreover have "\<not> lc_anchored b" using nearest_least [OF b(1)]
    by (auto simp: bare_word_order List.map_filter_def prefix_candidates_def Let_def candidate_def match_simple_def
        split: if_splits dest!: nearest_least)
  ultimately show ?thesis using b assms(1) by (simp add: match_bare_def exact_for_def)
qed

text \<open>A song that is named exactly as it sounds is played: when the name has at most six words, has the
  phonemes of a track, and no other command fits, the cascade ends with score 0 and an entry with these phonemes,
  whatever else the library holds.\<close>

theorem exact_name_is_played:
  assumes "classify say h = IntentBare n" and "trim_space h \<noteq> []" and "n \<noteq> []" and "unwords (bare_words n) = n"
    and "e \<in> set (ri_tracks idx)" and "ie_ipa e = say n" and "say n \<noteq> []"
  shows "let d = resolve_voice (new_cascade_resolver a) say r idx [h]
         in rr_tier d = TierLocal \<and> rr_score d = 0 \<and>
            (\<exists>e' \<in> entries idx. rr_uri d = ie_uri e' \<and> rr_name d = ie_name e' \<and> ie_ipa e' = say n)"
proof -
  obtain m where m: "match_bare say idx n = Some m" "lc_score m = 0" "lc_bare m" "\<not> lc_anchored m" "exact_for say idx n m"
    using bare_perfect assms(3-7) by blast
  let ?c = "new_cascade_resolver a"
  have "0 \<le> floor_for ?c m"
    by (simp add: floor_for_def new_cascade_resolver_def bare_floor_def cascade_accept_default_def
        cascade_track_anchored_floor_def f64_nonneg)
  then have "tally_of ?c say idx (spoken say [h]) = tally_of ?c say idx (spoken say [h])\<lparr>ta_content :=
      \<lparr>ch_any = Some m, ch_accepted = Some m, ch_hyp = h\<rparr>\<rparr>" (is "?s = _")
    using assms(1,2) m(1,2)
    by (simp add: tally_of_def spoken_def voice_matches_def List.map_filter_def choice_of_def Let_def is_content_def
        control_action_def is_special_def is_queue_def match_for_intent_def)
  then have "ch_accepted (ta_content ?s) = Some m" by (metis choice.select_convs(2) tally.select_convs(9) tally.surjective tally.update_convs(9))
  moreover have "\<not> ta_queue_seen ?s" "\<not> ta_liked ?s" "\<not> ta_random ?s"
    using assms(1,2) by (simp_all add: tally_of_def spoken_def is_queue_def)
  ultimately show ?thesis using m by (simp add: resolve_reads_all decide_def of_candidate_def result_def exact_for_def Let_def)
qed

text \<open>An artist cannot be asked for with "everything by": the phrase contains the mark of a track by an artist.\<close>

lemma everything_by_is_a_track:
  assumes "trim_space t = t" and "str_contains t '' everything by ''"
  shows "\<exists>a b. classify_grammar t = IntentTrack a b"
proof -
  obtain p s where t: "t = p @ '' everything by '' @ s"
    using assms(2) by (auto simp: str_contains_def dest!: str_index_Some)
  then have "t = (p @ '' everything'') @ '' by '' @ s" by simp
  then have "str_index '' by '' t \<noteq> None" using str_index_None by blast
  then show ?thesis using assms(1) t by (auto simp: classify_grammar_def)
qed


subsection \<open>Examples\<close>

definition sample_say :: "string \<Rightarrow> phonemes" where
  "sample_say s = (if s = ''yesterday'' then [1, 2, 3] else [])"

definition voice_library :: routed_index where
  "voice_library = \<lparr>ri_tracks = [\<lparr>ie_name = ''Help'', ie_artist = ''A'', ie_uri = ''u1'', ie_ipa = [4, 5], ie_artist_ipa = []\<rparr>,
       \<lparr>ie_name = ''Yesterday'', ie_artist = ''A'', ie_uri = ''u2'', ie_ipa = [1, 2, 3], ie_artist_ipa = []\<rparr>],
     ri_artists = [], ri_playlists = [], ri_albums = [], ri_liked = []\<rparr>"

lemma sample_classified:
  "let i = classify sample_say ''Play Yesterday!'' in
     (i, unwords (bare_words ''yesterday''), trim_space ''Play Yesterday!'' = []) = (IntentBare ''yesterday'', ''yesterday'', False)"
  by code_simp

lemma sample_resolved:
  "let d = resolve_voice (new_cascade_resolver 0) sample_say 0 voice_library [''Play Yesterday!''] in
     (rr_tier d, rr_kind d, rr_uri d) = (TierLocal, ResultEntry KindTrack, ''u2'')"
  by code_simp

theorem voice_plays_library_witness:
  "\<exists>e \<in> entries voice_library. ''u2'' = ie_uri e \<and>
     rr_name (resolve_voice (new_cascade_resolver 0) sample_say 0 voice_library [''Play Yesterday!'']) = ie_name e"
  using voice_plays_library [of "resolve_voice (new_cascade_resolver 0) sample_say 0 voice_library [''Play Yesterday!'']"
      "new_cascade_resolver 0" sample_say 0 voice_library "[''Play Yesterday!'']"] sample_resolved
  by (auto simp: Let_def)

theorem exact_name_is_played_witness:
  "rr_tier (resolve_voice (new_cascade_resolver 0) sample_say 0 voice_library [''Play Yesterday!'']) = TierLocal"
  using exact_name_is_played [of sample_say "''Play Yesterday!''" "''yesterday''"
      "\<lparr>ie_name = ''Yesterday'', ie_artist = ''A'', ie_uri = ''u2'', ie_ipa = [1, 2, 3], ie_artist_ipa = []\<rparr>" voice_library 0 0]
    sample_classified
  by (simp add: Let_def voice_library_def sample_say_def)

text \<open>A title of more than six words is compared by its first six only: ten distinct words, spoken perfectly, are not
  near enough for a play command.\<close>

definition word_say :: "string \<Rightarrow> phonemes" where
  "word_say s = (let ws = str_fields s in if length ws < 6 then [] else map (\<lambda>w. of_char (hd w)) ws)"

definition long_title :: string where "long_title = ''k l m n q r s t u v''"

lemma long_title_missed:
  "let m = match_bare word_say (empty_index\<lparr>ri_tracks := [\<lparr>ie_name = long_title, ie_artist = [], ie_uri = ''u'',
       ie_ipa = word_say long_title, ie_artist_ipa = []\<rparr>]\<rparr>) long_title
   in map_option (\<lambda>m. lc_score m \<le> floor_for (new_cascade_resolver 0) m) m = Some False"
  by code_simp

end
