(* ===== verification/VoiceCatalog.thy ===== *)
theory VoiceCatalog
  imports VoiceResolver Pathfinder
begin

text \<open>
  \<open>daemon/voice_catalog.go\<close>: the library of the user, fetched page by page with retries, kept in a checkpoint
  across restarts, refreshed, and turned into the phonetic index.

  \<open>ce_ask\<close> answers the n-th paced request (\<open>do\<close>, modelled first) with a page and a total, or None when it gave up;
  \<open>ce_cancelled\<close> tells whether the context has ended after so many requests. The files are values in the state, and
  writing them does not fail. Loops over pages may not end when a service returns full pages forever: None.
\<close>

subsection \<open>Constants\<close>

definition catalog_page_size :: nat where "catalog_page_size = 50"
definition catalog_max_retries :: nat where "catalog_max_retries = 6"
definition catalog_max_playlists :: nat where "catalog_max_playlists = 200"
definition catalog_index_version :: int where "catalog_index_version = 3"
definition catalog_min_interval :: duration where "catalog_min_interval = milliseconds 350"
definition catalog_jitter_max :: duration where "catalog_jitter_max = milliseconds 250"
definition catalog_backoff_start :: duration where "catalog_backoff_start = milliseconds 2000"
definition catalog_backoff_cap :: duration where "catalog_backoff_cap = milliseconds 60000"

record catalog_item =
  ci_name :: string
  ci_artist :: string
  ci_uri :: string

subsection \<open>One request with its retries\<close>

datatype fetch_answer =
    FetchPage "catalog_item list" int
  | FetchPf pathfinder_error
  | FetchOther

datatype do_result = DoPage "catalog_item list" int | DoDrift | DoGaveUp | DoCancelled

definition next_backoff :: "duration \<Rightarrow> duration" where
  "next_backoff b = (let b2 = b * 2 in if b2 > catalog_backoff_cap then catalog_backoff_cap else b2)"

text \<open>The wait before a request: the time since the last one is filled up to the interval with its jitter.\<close>

definition pace :: "instant \<Rightarrow> duration \<Rightarrow> instant \<Rightarrow> duration" where
  "pace now jitter last_request =
     (if last_request \<noteq> 0 \<and> now - last_request < catalog_min_interval + jitter
      then catalog_min_interval + jitter - (now - last_request) else 0)"

text \<open>What was done: each request with its force flag, each sleep of a backoff.\<close>

datatype do_event = Asked bool | Slept duration | Drifted

text \<open>One attempt: it ends the request, or asks for another one after the backoff, or after the pause that the
  server named. The answers are consumed in order; when they end, the context has ended in a pause.\<close>

datatype attempt_end =
    Ended do_result "do_event list"
  | Again "duration option" bool "fetch_answer list" "do_event list"

fun do_attempt :: "bool \<Rightarrow> fetch_answer list \<Rightarrow> attempt_end" where
  "do_attempt forced [] = Ended DoCancelled []"
| "do_attempt forced (FetchPage items n # as) = Ended (DoPage items n) [Asked False]"
| "do_attempt forced (FetchOther # as) = Again None forced as [Asked False]"
| "do_attempt forced (FetchPf pe # as) =
     (if pe_persisted_query pe \<or> pe_status pe = 400 then Ended DoDrift [Asked False, Drifted]
      else if (pe_status pe = 401 \<or> pe_status pe = 403) \<and> \<not> forced then
        (case as of
           [] \<Rightarrow> Ended DoCancelled [Asked False]
         | FetchPage items n # as' \<Rightarrow> Ended (DoPage items n) [Asked False, Asked True]
         | _ # as' \<Rightarrow> Again None True as' [Asked False, Asked True])
      else if (pe_status pe = 429 \<or> pe_status pe \<ge> 500) \<and> pe_retry_after pe > 0
        then Again (Some (pe_retry_after pe)) forced as [Asked False]
      else Again None forced as [Asked False])"

lemma do_attempt_shorter: "do_attempt forced as = Again w f rest tr \<Longrightarrow> length rest < length as"
  by (induction forced as rule: do_attempt.induct) (auto split: if_splits list.splits fetch_answer.splits)

function catalog_do :: "nat \<Rightarrow> duration \<Rightarrow> bool \<Rightarrow> fetch_answer list \<Rightarrow> do_result \<times> do_event list" where
  "catalog_do attempt backoff forced as =
     (case do_attempt forced as of
        Ended r tr \<Rightarrow> (r, tr)
      | Again w forced' rest tr \<Rightarrow>
          if attempt \<ge> catalog_max_retries then (DoGaveUp, tr)
          else
            case catalog_do (attempt + 1) (next_backoff backoff) forced' rest of
              (r, tr') \<Rightarrow> (r, tr @ [Slept (case w of None \<Rightarrow> backoff | Some d \<Rightarrow> d)] @ tr'))"
  by pat_completeness auto

termination by (relation "measure (\<lambda>(n, b, f, as). length as)") (auto dest: do_attempt_shorter)

declare catalog_do.simps [simp del]

definition catalog_request :: "fetch_answer list \<Rightarrow> do_result \<times> do_event list" where
  "catalog_request as = catalog_do 0 catalog_backoff_start False as"

subsection \<open>The checkpoint\<close>

record pages =
  pg_offset :: nat
  pg_done :: bool
  pg_items :: "catalog_item list"
  pg_total :: int

definition no_pages :: pages where "no_pages = \<lparr>pg_offset = 0, pg_done = False, pg_items = [], pg_total = 0\<rparr>"

record checkpoint =
  cp_liked :: pages
  cp_playlists :: pages
  cp_artists :: pages
  cp_albums :: pages
  cp_pl_idx :: nat
  cp_pl_offset :: nat
  cp_pl_done :: bool
  cp_pl_tracks :: "(string \<times> catalog_item list) list"
  cp_pl_counts :: "(string \<times> int) list"
  cp_top :: "catalog_item list"
  cp_top_done :: bool

definition new_checkpoint :: checkpoint where
  "new_checkpoint = \<lparr>cp_liked = no_pages, cp_playlists = no_pages, cp_artists = no_pages, cp_albums = no_pages,
     cp_pl_idx = 0, cp_pl_offset = 0, cp_pl_done = False, cp_pl_tracks = [], cp_pl_counts = [], cp_top = [], cp_top_done = False\<rparr>"

subsection \<open>The syncer\<close>

datatype catalog_query =
    LikedTracks nat nat
  | LibraryList string nat nat
  | PlaylistTracks string nat nat
  | TopArtists nat nat

datatype catalog_stage = StageLiked | StagePlaylists | StageArtists | StageAlbums | StagePlaylistTracks | StageTop | StageFinalizing

record catalog_env =
  ce_ask :: "nat \<Rightarrow> catalog_query \<Rightarrow> (catalog_item list \<times> int) option"
  ce_cancelled :: "nat \<Rightarrow> bool"
  ce_say :: "string \<Rightarrow> phonemes"

record syncer =
  sy_asked :: "catalog_query list"
  sy_cp_file :: "(int \<times> checkpoint) option"
  sy_index_file :: "(int \<times> routed_index) option"
  sy_published :: "routed_index list"
  sy_progress :: "(catalog_stage \<times> int \<times> int \<times> rat) list"
  sy_shows_progress :: bool

definition stage_span :: "catalog_stage \<Rightarrow> rat \<times> rat" where
  "stage_span st =
     (case st of StageLiked \<Rightarrow> (0, 25) | StagePlaylists \<Rightarrow> (25, 5) | StageArtists \<Rightarrow> (30, 4) | StageAlbums \<Rightarrow> (34, 4)
      | StagePlaylistTracks \<Rightarrow> (38, 52) | StageTop \<Rightarrow> (90, 2) | StageFinalizing \<Rightarrow> (92, 8))"

text \<open>A negative share means the share of what is done.\<close>

definition progress :: "catalog_stage \<Rightarrow> int \<Rightarrow> int \<Rightarrow> rat \<Rightarrow> syncer \<Rightarrow> syncer" where
  "progress st n m share s =
     (if \<not> sy_shows_progress s then s
      else
        let f0 = (if share < 0 then (if m > 0 then f64 (of_int n / of_int m) else 0) else share);
            f1 = (if f0 > 1 then 1 else f0)
        in s\<lparr>sy_progress := sy_progress s @ [(st, n, m, f64 (fst (stage_span st) + f64 (snd (stage_span st) * f1)))]\<rparr>)"

definition ask :: "catalog_env \<Rightarrow> catalog_query \<Rightarrow> syncer \<Rightarrow> (catalog_item list \<times> int) option \<times> syncer" where
  "ask e q s = (ce_ask e (length (sy_asked s)) q, s\<lparr>sy_asked := sy_asked s @ [q]\<rparr>)"

definition cancelled :: "catalog_env \<Rightarrow> syncer \<Rightarrow> bool" where
  "cancelled e s \<longleftrightarrow> ce_cancelled e (length (sy_asked s))"

definition load_checkpoint :: "syncer \<Rightarrow> checkpoint" where
  "load_checkpoint s =
     (case sy_cp_file s of
        Some (v, cp) \<Rightarrow> if v = catalog_index_version then cp else new_checkpoint
      | None \<Rightarrow> new_checkpoint)"

definition save_checkpoint :: "checkpoint \<Rightarrow> syncer \<Rightarrow> syncer" where
  "save_checkpoint cp s = s\<lparr>sy_cp_file := Some (catalog_index_version, cp)\<rparr>"

definition load_cached_index :: "syncer \<Rightarrow> routed_index option" where
  "load_cached_index s =
     (case sy_index_file s of Some (v, idx) \<Rightarrow> if v = catalog_index_version then Some idx else None | None \<Rightarrow> None)"

definition save_index :: "routed_index \<Rightarrow> syncer \<Rightarrow> syncer" where
  "save_index idx s = s\<lparr>sy_index_file := Some (catalog_index_version, idx)\<rparr>"

definition publish_index :: "routed_index \<Rightarrow> syncer \<Rightarrow> syncer" where
  "publish_index idx s = s\<lparr>sy_published := sy_published s @ [idx]\<rparr>"

subsection \<open>Pages of a list\<close>

definition add_page :: "catalog_item list \<Rightarrow> int \<Rightarrow> pages \<Rightarrow> pages" where
  "add_page items n pg =
     (let off = pg_offset pg + length items
      in \<lparr>pg_offset = off, pg_done = (pg_done pg \<or> length items < catalog_page_size \<or> n > 0 \<and> int off \<ge> n),
          pg_items = pg_items pg @ items, pg_total = (if n > 0 then n else pg_total pg)\<rparr>)"

text \<open>\<open>after\<close> is what the caller does with each page: progress, and for the liked songs the checkpoint.\<close>

partial_function (option) page_loop ::
    "catalog_env \<Rightarrow> (nat \<Rightarrow> catalog_query) \<Rightarrow> (pages \<Rightarrow> int \<Rightarrow> syncer \<Rightarrow> syncer) \<Rightarrow> pages \<Rightarrow> syncer \<Rightarrow>
     (bool \<times> pages \<times> syncer) option" where
  "page_loop e query after pg s =
     (if pg_done pg then Some (True, pg, s)
      else
        (case ask e (query (pg_offset pg)) s of
           (None, s1) \<Rightarrow> Some (False, pg, s1)
         | (Some (items, n), s1) \<Rightarrow>
             let pg1 = add_page items n pg in page_loop e query after pg1 (after pg1 n s1)))"

definition sync_liked :: "catalog_env \<Rightarrow> checkpoint \<Rightarrow> syncer \<Rightarrow> (bool \<times> checkpoint \<times> syncer) option" where
  "sync_liked e cp s =
     map_option (\<lambda>(ok, pg, s). (ok, cp\<lparr>cp_liked := pg\<rparr>, s))
       (page_loop e (\<lambda>off. LikedTracks off catalog_page_size)
          (\<lambda>pg n s. save_checkpoint (cp\<lparr>cp_liked := pg\<rparr>) (progress StageLiked (int (pg_offset pg)) (pg_total pg) (-1) s))
          (cp_liked cp) s)"

definition sync_list ::
    "catalog_env \<Rightarrow> string \<Rightarrow> catalog_stage \<Rightarrow> pages \<Rightarrow> syncer \<Rightarrow> (bool \<times> pages \<times> syncer) option" where
  "sync_list e filt st pg s =
     page_loop e (\<lambda>off. LibraryList filt off catalog_page_size)
       (\<lambda>pg n s. progress st (int (pg_offset pg)) n (-1) s) pg s"

definition sync_playlists :: "catalog_env \<Rightarrow> checkpoint \<Rightarrow> syncer \<Rightarrow> (bool \<times> checkpoint \<times> syncer) option" where
  "sync_playlists e cp s =
     map_option (\<lambda>(ok, pg, s). (ok, cp\<lparr>cp_playlists := pg\<rparr>, s)) (sync_list e ''Playlists'' StagePlaylists (cp_playlists cp) s)"

definition sync_artists :: "catalog_env \<Rightarrow> checkpoint \<Rightarrow> syncer \<Rightarrow> (bool \<times> checkpoint \<times> syncer) option" where
  "sync_artists e cp s =
     map_option (\<lambda>(ok, pg, s). (ok, cp\<lparr>cp_artists := pg\<rparr>, s)) (sync_list e ''Artists'' StageArtists (cp_artists cp) s)"

definition sync_albums :: "catalog_env \<Rightarrow> checkpoint \<Rightarrow> syncer \<Rightarrow> (bool \<times> checkpoint \<times> syncer) option" where
  "sync_albums e cp s =
     map_option (\<lambda>(ok, pg, s). (ok, cp\<lparr>cp_albums := pg\<rparr>, s)) (sync_list e ''Albums'' StageAlbums (cp_albums cp) s)"

definition sync_top_artists :: "catalog_env \<Rightarrow> checkpoint \<Rightarrow> syncer \<Rightarrow> (bool \<times> checkpoint \<times> syncer) option" where
  "sync_top_artists e cp s =
     Some (if cp_top_done cp then (True, cp, s)
           else case ask e (TopArtists 0 catalog_page_size) s of
                  (None, s1) \<Rightarrow> (False, cp, s1)
                | (Some (items, n), s1) \<Rightarrow> (True, cp\<lparr>cp_top := items, cp_top_done := True\<rparr>, s1))"

subsection \<open>The tracks of the playlists\<close>

definition assoc :: "'k \<Rightarrow> 'v \<Rightarrow> ('k \<times> 'v) list \<Rightarrow> 'v" where
  "assoc k d m = (case map_of m k of None \<Rightarrow> d | Some v \<Rightarrow> v)"

definition playlist_uri_prefix :: string where "playlist_uri_prefix = ''spotify:playlist:''"

definition playlist_slots :: "checkpoint \<Rightarrow> catalog_item list" where
  "playlist_slots cp = take catalog_max_playlists (pg_items (cp_playlists cp))"

definition skip_playlist :: "checkpoint \<Rightarrow> checkpoint" where
  "skip_playlist cp = cp\<lparr>cp_pl_idx := Suc (cp_pl_idx cp), cp_pl_offset := 0\<rparr>"

definition add_playlist_page :: "string \<Rightarrow> catalog_item list \<Rightarrow> int \<Rightarrow> checkpoint \<Rightarrow> checkpoint" where
  "add_playlist_page uri items n cp =
     (let off = cp_pl_offset cp + length items;
          cp1 = cp\<lparr>cp_pl_tracks := AList.update uri (assoc uri [] (cp_pl_tracks cp) @ items) (cp_pl_tracks cp), cp_pl_offset := off,
                   cp_pl_counts := (if n > 0 then AList.update uri n (cp_pl_counts cp) else cp_pl_counts cp)\<rparr>
      in if length items < catalog_page_size \<or> n > 0 \<and> int off \<ge> n then skip_playlist cp1 else cp1)"

partial_function (option) playlist_loop ::
    "catalog_env \<Rightarrow> checkpoint \<Rightarrow> syncer \<Rightarrow> (bool \<times> checkpoint \<times> syncer) option" where
  "playlist_loop e cp s =
     (let slots = playlist_slots cp; n = length slots
      in if n \<le> cp_pl_idx cp then Some (True, cp\<lparr>cp_pl_done := True\<rparr>, s)
         else
           let uri = ci_uri (slots ! cp_pl_idx cp)
           in if \<not> has_prefix uri playlist_uri_prefix then playlist_loop e (skip_playlist cp) s
              else
                (case ask e (PlaylistTracks uri (cp_pl_offset cp) catalog_page_size) s of
                   (None, s1) \<Rightarrow> Some (False, cp, s1)
                 | (Some (items, m), s1) \<Rightarrow>
                     let cp1 = add_playlist_page uri items m cp;
                         part = (if m > 0 \<and> cp_pl_offset cp1 > 0 then f64 (of_nat (cp_pl_offset cp1) / of_int m) else 0);
                         share = f64 (f64 (of_nat (cp_pl_idx cp1) + part) / of_nat n)
                     in playlist_loop e cp1
                          (save_checkpoint cp1 (progress StagePlaylistTracks (int (cp_pl_idx cp1)) (int n) share s1))))"

definition sync_playlist_tracks :: "catalog_env \<Rightarrow> checkpoint \<Rightarrow> syncer \<Rightarrow> (bool \<times> checkpoint \<times> syncer) option" where
  "sync_playlist_tracks e cp s = (if cp_pl_done cp then Some (True, cp, s) else playlist_loop e cp s)"

subsection \<open>The index\<close>

text \<open>Each key once, in the order of its first entry.\<close>

fun first_by :: "('a \<Rightarrow> string) \<Rightarrow> string list \<Rightarrow> 'a list \<Rightarrow> 'a list" where
  "first_by key seen [] = []"
| "first_by key seen (x # xs) =
     (if key x \<in> set seen then first_by key seen xs else x # first_by key (key x # seen) xs)"

definition track_key :: "catalog_item \<Rightarrow> string" where
  "track_key it = (if ci_uri it \<noteq> [] then ci_uri it else lower_text (ci_name it @ ''|'' @ ci_artist it))"

definition name_key :: "catalog_item \<Rightarrow> string" where
  "name_key it = (if ci_uri it \<noteq> [] then ci_uri it else lower_text (ci_name it))"

definition merge_artists :: "catalog_item list \<Rightarrow> catalog_item list \<Rightarrow> catalog_item list" where
  "merge_artists followed top_artists =
     foldl (\<lambda>out a. if ci_uri a \<noteq> [] \<and> ci_uri a \<in> ci_uri ` set out then out else out @ [a]) [] (followed @ top_artists)"

definition sorted_tracks :: "checkpoint \<Rightarrow> catalog_item list" where
  "sorted_tracks cp = concat (map snd (stable_sort (\<lambda>a b. str_less (fst a) (fst b)) (cp_pl_tracks cp)))"

definition all_tracks :: "checkpoint \<Rightarrow> catalog_item list" where
  "all_tracks cp = filter (\<lambda>it. ci_name it \<noteq> []) (pg_items (cp_liked cp) @ sorted_tracks cp)"

definition track_entry :: "(string \<Rightarrow> phonemes) \<Rightarrow> catalog_item \<Rightarrow> index_entry" where
  "track_entry say it = \<lparr>ie_name = ci_name it, ie_artist = ci_artist it, ie_uri = ci_uri it, ie_ipa = say (ci_name it),
     ie_artist_ipa = say (ci_artist it)\<rparr>"

definition named_entry :: "(string \<Rightarrow> phonemes) \<Rightarrow> bool \<Rightarrow> catalog_item \<Rightarrow> index_entry" where
  "named_entry say with_artist it = \<lparr>ie_name = ci_name it, ie_artist = (if with_artist then ci_artist it else []),
     ie_uri = ci_uri it, ie_ipa = say (ci_name it), ie_artist_ipa = []\<rparr>"

definition phonemize_names :: "(string \<Rightarrow> phonemes) \<Rightarrow> bool \<Rightarrow> bool \<Rightarrow> catalog_item list \<Rightarrow> index_entry list" where
  "phonemize_names say with_artist by_name items =
     (let es = map (named_entry say with_artist)
                 (first_by (if with_artist then track_key else name_key) [] (filter (\<lambda>it. ci_name it \<noteq> []) items))
      in if by_name then stable_sort (\<lambda>a b. str_less (ie_name a) (ie_name b)) es else es)"

definition build_index :: "(string \<Rightarrow> phonemes) \<Rightarrow> checkpoint \<Rightarrow> routed_index" where
  "build_index say cp =
     \<lparr>ri_tracks = map (track_entry say) (first_by track_key [] (all_tracks cp)),
      ri_artists = phonemize_names say False False (merge_artists (pg_items (cp_artists cp)) (cp_top cp)),
      ri_playlists = phonemize_names say False False (pg_items (cp_playlists cp)),
      ri_albums = phonemize_names say True True (pg_items (cp_albums cp)),
      ri_liked = map (\<lambda>it. \<lparr>ie_name = ci_name it, ie_artist = ci_artist it, ie_uri = ci_uri it, ie_ipa = [], ie_artist_ipa = []\<rparr>)
        (first_by ci_uri [] (filter (\<lambda>it. ci_uri it \<noteq> [] \<and> ci_name it \<noteq> []) (pg_items (cp_liked cp))))\<rparr>"

subsection \<open>A full sync\<close>

type_synonym stage_run = "catalog_env \<Rightarrow> checkpoint \<Rightarrow> syncer \<Rightarrow> (bool \<times> checkpoint \<times> syncer) option"

definition sync_stages :: "(catalog_stage \<times> stage_run) list" where
  "sync_stages = [(StageLiked, sync_liked), (StagePlaylists, sync_playlists), (StageArtists, sync_artists),
     (StageAlbums, sync_albums), (StagePlaylistTracks, sync_playlist_tracks), (StageTop, sync_top_artists)]"

text \<open>The flag tells whether the run was cancelled.\<close>

fun run_stages :: "catalog_env \<Rightarrow> (catalog_stage \<times> stage_run) list \<Rightarrow> checkpoint \<Rightarrow> syncer \<Rightarrow> (bool \<times> checkpoint \<times> syncer) option" where
  "run_stages e [] cp s = Some (False, cp, s)"
| "run_stages e ((st, run) # stages) cp s =
     (if cancelled e s then Some (True, cp, s)
      else case run e cp s of
             None \<Rightarrow> None
           | Some (ok, cp1, s1) \<Rightarrow>
               if \<not> ok \<and> cancelled e s1 then Some (True, cp1, s1)
               else run_stages e stages cp1
                      (publish_index (build_index (ce_say e) cp1) (save_checkpoint cp1 (progress st 0 0 1 s1))))"

definition sync_run :: "catalog_env \<Rightarrow> syncer \<Rightarrow> (routed_index \<times> bool \<times> syncer) option" where
  "sync_run e s =
     (case run_stages e sync_stages (load_checkpoint s) (progress StageLiked 0 0 0 s) of
        None \<Rightarrow> None
      | Some (True, cp, s1) \<Rightarrow> Some (build_index (ce_say e) cp, True, s1)
      | Some (False, cp, s1) \<Rightarrow>
          let idx = build_index (ce_say e) cp
          in Some (idx, False, progress StageFinalizing 0 0 1 (save_index idx (progress StageFinalizing 0 0 0 s1))))"

subsection \<open>A refresh\<close>

definition same_uri_head :: "catalog_item list \<Rightarrow> catalog_item list \<Rightarrow> bool" where
  "same_uri_head page old \<longleftrightarrow> length page \<le> length old \<and> map ci_uri page = map ci_uri (take (length page) old)"

definition uri_index :: "catalog_item list \<Rightarrow> string \<Rightarrow> nat option" where
  "uri_index old u = (if u = [] then None else find (\<lambda>i. ci_uri (old ! i) = u) [0..<length old])"

text \<open>The songs before the first known one, and where that one was.\<close>

fun scan_liked_page :: "(string \<Rightarrow> nat option) \<Rightarrow> catalog_item list \<Rightarrow> catalog_item list \<times> nat option" where
  "scan_liked_page idx [] = ([], None)"
| "scan_liked_page idx (it # cur) =
     (case idx (ci_uri it) of
        Some i \<Rightarrow> ([], Some i)
      | None \<Rightarrow> (case scan_liked_page idx cur of (new, ov) \<Rightarrow> (it # new, ov)))"

function scan_liked ::
    "catalog_env \<Rightarrow> (string \<Rightarrow> nat option) \<Rightarrow> int \<Rightarrow> nat \<Rightarrow> catalog_item list \<Rightarrow> catalog_item list \<Rightarrow> syncer \<Rightarrow>
     (catalog_item list \<times> nat option \<times> catalog_item list) option \<times> syncer" where
  "scan_liked e idx n off cur prepended s =
     (case scan_liked_page idx cur of
        (new, ov) \<Rightarrow>
          let pre = prepended @ new; off1 = off + length cur
          in if ov \<noteq> None \<or> length cur < catalog_page_size \<or> int off1 > n + int catalog_page_size
             then (Some (pre, ov, cur), s)
             else case ask e (LikedTracks off1 catalog_page_size) s of
                    (None, s1) \<Rightarrow> (None, s1)
                  | (Some (cur1, m), s1) \<Rightarrow> scan_liked e idx n off1 cur1 pre s1)"
  by pat_completeness auto

termination
proof (relation "measure (\<lambda>(e, idx, n, off, cur, pre, s). nat (n + int catalog_page_size + 1 - int off))")
qed (auto simp: catalog_page_size_def)

declare scan_liked.simps [simp del]

definition fetch_all_paged ::
    "catalog_env \<Rightarrow> (nat \<Rightarrow> catalog_query) \<Rightarrow> syncer \<Rightarrow> (catalog_item list option \<times> syncer) option" where
  "fetch_all_paged e query s =
     map_option (\<lambda>(ok, pg, s). (if ok then Some (pg_items pg) else None, s)) (page_loop e query (\<lambda>pg n s. s) no_pages s)"

text \<open>The new list with its total, None when nothing changed or a request failed.\<close>

definition refresh_liked :: "catalog_env \<Rightarrow> checkpoint \<Rightarrow> syncer \<Rightarrow> ((catalog_item list \<times> int) option \<times> syncer) option" where
  "refresh_liked e cp s =
     (case ask e (LikedTracks 0 catalog_page_size) s of
        (None, s1) \<Rightarrow> Some (None, s1)
      | (Some (page, n), s1) \<Rightarrow>
          let old = pg_items (cp_liked cp)
          in if n = pg_total (cp_liked cp) \<and> same_uri_head page old then Some (None, s1)
             else
               (case scan_liked e (uri_index old) n 0 page [] s1 of
                  (None, s2) \<Rightarrow> Some (None, s2)
                | (Some (pre, ov, cur), s2) \<Rightarrow>
                    let full = map_option (\<lambda>(r, s3). (map_option (\<lambda>items. (items, n)) r, s3))
                                 (fetch_all_paged e (\<lambda>off. LikedTracks off catalog_page_size) s2)
                    in (case ov of
                          Some i \<Rightarrow>
                            let merged = pre @ drop i old in if int (length merged) = n then Some (Some (merged, n), s2) else full
                        | None \<Rightarrow>
                            if length cur < catalog_page_size \<and> int (length pre) = n then Some (Some (pre, n), s2) else full)))"

definition refresh_list :: "catalog_env \<Rightarrow> string \<Rightarrow> catalog_stage \<Rightarrow> pages \<Rightarrow> syncer \<Rightarrow> (pages option \<times> syncer) option" where
  "refresh_list e filt st pg s =
     (case ask e (LibraryList filt 0 1) s of
        (None, s1) \<Rightarrow> Some (None, s1)
      | (Some (items, n), s1) \<Rightarrow>
          if n = pg_total pg then Some (None, s1)
          else map_option (\<lambda>(ok, pg1, s2). (if ok then Some (pg\<lparr>pg_items := pg_items pg1, pg_total := pg_total pg1\<rparr>) else None, s2))
                 (sync_list e filt st no_pages s1))"

text \<open>The playlists that are still saved, each once fetched again when its total changed.\<close>

type_synonym playlist_maps = "(string \<times> catalog_item list) list \<times> (string \<times> int) list"

fun refresh_playlists ::
    "catalog_env \<Rightarrow> catalog_item list \<Rightarrow> bool \<Rightarrow> playlist_maps \<Rightarrow> syncer \<Rightarrow> (bool \<times> playlist_maps \<times> syncer) option" where
  "refresh_playlists e [] changed m s = Some (changed, m, s)"
| "refresh_playlists e (pl # pls) changed (tracks, counts) s =
     (let uri = ci_uri pl
      in if \<not> has_prefix uri playlist_uri_prefix then refresh_playlists e pls changed (tracks, counts) s
         else
           case ask e (PlaylistTracks uri 0 1) s of
             (None, s1) \<Rightarrow> refresh_playlists e pls changed (tracks, counts) s1
           | (Some (items, n), s1) \<Rightarrow>
               if map_of tracks uri \<noteq> None \<and> n = assoc uri 0 counts then refresh_playlists e pls changed (tracks, counts) s1
               else
                 (case fetch_all_paged e (\<lambda>off. PlaylistTracks uri off catalog_page_size) s1 of
                    None \<Rightarrow> None
                  | Some (None, s2) \<Rightarrow> refresh_playlists e pls changed (tracks, counts) s2
                  | Some (Some ts, s2) \<Rightarrow>
                      refresh_playlists e pls True (AList.update uri ts tracks, AList.update uri n counts) s2))"

definition refresh_playlist_tracks :: "catalog_env \<Rightarrow> checkpoint \<Rightarrow> syncer \<Rightarrow> (bool \<times> checkpoint \<times> syncer) option" where
  "refresh_playlist_tracks e cp s =
     (case refresh_playlists e (playlist_slots cp) False (cp_pl_tracks cp, cp_pl_counts cp) s of
        None \<Rightarrow> None
      | Some (changed, (tracks, counts), s1) \<Rightarrow>
          let cur = filter (\<lambda>u. has_prefix u playlist_uri_prefix) (map ci_uri (playlist_slots cp));
              gone = filter (\<lambda>u. u \<notin> set cur) (map fst tracks)
          in Some (changed \<or> gone \<noteq> [],
               cp\<lparr>cp_pl_tracks := filter (\<lambda>(u, t). u \<in> set cur) tracks,
                  cp_pl_counts := filter (\<lambda>(u, n). u \<notin> set gone) counts\<rparr>, s1))"

text \<open>One list of the refresh: the flag says whether it changed.\<close>

definition refresh_part ::
    "(pages option \<times> syncer) option \<Rightarrow> (pages \<Rightarrow> checkpoint) \<Rightarrow> checkpoint \<Rightarrow> bool \<Rightarrow> (bool \<times> checkpoint \<times> syncer) option" where
  "refresh_part r put cp changed =
     map_option (\<lambda>(res, s). case res of None \<Rightarrow> (changed, cp, s) | Some pg \<Rightarrow> (True, put pg, s)) r"

definition refresh_lists :: "catalog_env \<Rightarrow> bool \<Rightarrow> checkpoint \<Rightarrow> syncer \<Rightarrow> (bool \<times> checkpoint \<times> syncer) option" where
  "refresh_lists e changed cp s =
     Option.bind (refresh_part (refresh_list e ''Artists'' StageArtists (cp_artists cp) s)
       (\<lambda>pg. cp\<lparr>cp_artists := pg\<rparr>) cp changed) (\<lambda>(ch1, cp1, s1).
     Option.bind (refresh_part (refresh_list e ''Albums'' StageAlbums (cp_albums cp1) s1)
       (\<lambda>pg. cp1\<lparr>cp_albums := pg\<rparr>) cp1 ch1) (\<lambda>(ch2, cp2, s2).
     refresh_part (refresh_list e ''Playlists'' StagePlaylists (cp_playlists cp2) s2)
       (\<lambda>pg. cp2\<lparr>cp_playlists := pg\<rparr>) cp2 ch2))"

text \<open>The result is the new index, whether it changed, and whether a full run was cancelled.\<close>

definition sync_refresh :: "catalog_env \<Rightarrow> syncer \<Rightarrow> (routed_index option \<times> bool \<times> syncer) option" where
  "sync_refresh e s =
     (let cp = load_checkpoint s
      in if \<not> pg_done (cp_liked cp) then map_option (\<lambda>(idx, stopped, s1). (Some idx, True, s1)) (sync_run e s)
         else
           Option.bind (refresh_liked e cp s) (\<lambda>(res, s1).
             let liked = (case res of None \<Rightarrow> cp
                          | Some (items, n) \<Rightarrow> cp\<lparr>cp_liked := (cp_liked cp)\<lparr>pg_items := items, pg_total := n\<rparr>\<rparr>)
             in Option.bind (refresh_lists e (res \<noteq> None) liked s1) (\<lambda>(changed, cp1, s2).
                Option.bind (refresh_playlist_tracks e cp1 s2) (\<lambda>(more_changed, cp2, s3).
                  if \<not> changed \<and> \<not> more_changed then Some (None, False, s3)
                  else
                    let idx = build_index (ce_say e) cp2
                    in Some (Some idx, True, publish_index idx (save_index idx (save_checkpoint cp2 s3)))))))"

subsection \<open>The start of the service\<close>

text \<open>The cached index is used at once; without one the first sync shows its progress.\<close>

definition start_cascade :: "syncer \<Rightarrow> routed_index \<times> bool \<times> syncer" where
  "start_cascade s =
     (case load_cached_index s of
        Some idx \<Rightarrow> (idx, True, s)
      | None \<Rightarrow> (empty_index, False, s\<lparr>sy_shows_progress := True\<rparr>))"

definition run_catalog_sync :: "catalog_env \<Rightarrow> bool \<Rightarrow> bool \<Rightarrow> syncer \<Rightarrow> syncer option" where
  "run_catalog_sync e g2p_ok had_index s =
     (if \<not> g2p_ok then Some s
      else if had_index then map_option (\<lambda>(idx, changed, s1). s1) (sync_refresh e s)
      else map_option (\<lambda>(idx, stopped, s1). s1) (sync_run e s))"

end
