(* ===== verification/VoiceSync.thy ===== *)
theory VoiceSync
  imports VoiceCatalog "HOL-Library.Sublist"
begin

text \<open>
  What the syncer of \<open>VoiceCatalog\<close> guarantees: bounded retries, a sync that resumes where it stopped, a refresh
  that finds the new songs, an index that misses no song; and where the refresh is wrong.
\<close>

subsection \<open>Retries\<close>

definition requests_in :: "do_event list \<Rightarrow> nat" where
  "requests_in tr = length (filter (\<lambda>ev. case ev of Asked f \<Rightarrow> True | _ \<Rightarrow> False) tr)"

lemma requests_in_append [simp]: "requests_in (a @ b) = requests_in a + requests_in b"
  by (simp add: requests_in_def)

lemma requests_in_Cons [simp]:
  "requests_in [] = 0" "requests_in (Asked f # tr) = Suc (requests_in tr)" "requests_in (Slept d # tr) = requests_in tr"
  "requests_in (Drifted # tr) = requests_in tr"
  by (simp_all add: requests_in_def)

lemma attempt_requests:
  "do_attempt forced as = Ended r tr \<Longrightarrow> requests_in tr \<le> (if forced then 1 else 2) \<and> (2 \<le> length as \<longrightarrow> r \<noteq> DoCancelled) \<and>
     (1 \<le> length as \<and> forced \<longrightarrow> r \<noteq> DoCancelled)"
  "do_attempt forced as = Again w forced' rest tr \<Longrightarrow>
     (forced \<longrightarrow> forced') \<and> requests_in tr = (if forced' \<and> \<not> forced then 2 else 1) \<and> length as = length rest + requests_in tr"
  by (induction forced as rule: do_attempt.induct) (auto split: if_splits list.splits fetch_answer.splits)

lemma catalog_do_requests:
  "attempt \<le> catalog_max_retries \<Longrightarrow> catalog_do attempt backoff forced as = (r, tr) \<Longrightarrow>
     requests_in tr \<le> Suc catalog_max_retries - attempt + (if forced then 0 else 1) \<and>
     (Suc catalog_max_retries - attempt + (if forced then 0 else 1) \<le> length as \<longrightarrow> r \<noteq> DoCancelled)"
proof (induction attempt backoff forced as arbitrary: r tr rule: catalog_do.induct)
  case (1 attempt backoff forced as)
  show ?case
  proof (cases "do_attempt forced as")
    case (Ended r0 tr0)
    then have "r = r0" "tr = tr0" using 1(3) by (simp_all add: catalog_do.simps)
    then show ?thesis using attempt_requests(1) [OF Ended] 1(2) by (auto simp: catalog_max_retries_def split: if_splits)
  next
    case (Again w f rest tr0)
    note a = attempt_requests(2) [OF Again]
    show ?thesis
    proof (cases "attempt \<ge> catalog_max_retries")
      case True
      then have "r = DoGaveUp" "tr = tr0" using 1(3) Again by (simp_all add: catalog_do.simps)
      then show ?thesis using a 1(2) by (auto simp: catalog_max_retries_def split: if_splits)
    next
      case False
      obtain r1 tr1 where rec: "catalog_do (attempt + 1) (next_backoff backoff) f rest = (r1, tr1)" by fastforce
      then have "r = r1" "requests_in tr = requests_in tr0 + requests_in tr1"
        using 1(3) Again False by (auto simp: catalog_do.simps [of attempt])
      moreover note 1(1) [OF Again False _ rec]
      ultimately show ?thesis using a False by (auto simp: catalog_max_retries_def split: if_splits)
    qed
  qed
qed

text \<open>Every sleep of its own is at most a minute; a longer one is what the server asked for.\<close>

lemma next_backoff_cap: "next_backoff b \<le> catalog_backoff_cap"
  by (simp add: next_backoff_def Let_def)

definition asked_for :: "fetch_answer list \<Rightarrow> duration \<Rightarrow> bool" where
  "asked_for as d \<longleftrightarrow> (\<exists>pe. FetchPf pe \<in> set as \<and> pe_retry_after pe = d)"

lemma attempt_wait:
  "do_attempt forced as = Again w f rest tr \<Longrightarrow> set rest \<subseteq> set as \<and> (\<forall>d. w = Some d \<longrightarrow> asked_for as d) \<and> (\<forall>d. Slept d \<notin> set tr)"
  "do_attempt forced as = Ended r tr \<Longrightarrow> \<forall>d. Slept d \<notin> set tr"
  by (induction forced as rule: do_attempt.induct) (auto simp: asked_for_def split: if_splits list.splits fetch_answer.splits)

lemma catalog_do_sleeps:
  "backoff \<le> catalog_backoff_cap \<Longrightarrow> catalog_do attempt backoff forced as = (r, tr) \<Longrightarrow> Slept d \<in> set tr
     \<Longrightarrow> d \<le> catalog_backoff_cap \<or> asked_for as d"
proof (induction attempt backoff forced as arbitrary: r tr rule: catalog_do.induct)
  case (1 attempt backoff forced as)
  show ?case
  proof (cases "do_attempt forced as")
    case (Ended r0 tr0)
    then show ?thesis using 1(3,4) attempt_wait(2) [OF Ended] by (simp add: catalog_do.simps)
  next
    case (Again w f rest tr0)
    note a = attempt_wait(1) [OF Again]
    show ?thesis
    proof (cases "attempt \<ge> catalog_max_retries")
      case True
      then show ?thesis using 1(3,4) Again a by (simp add: catalog_do.simps)
    next
      case False
      obtain r1 tr1 where rec: "catalog_do (attempt + 1) (next_backoff backoff) f rest = (r1, tr1)" by fastforce
      have tr: "tr = tr0 @ [Slept (case w of None \<Rightarrow> backoff | Some d \<Rightarrow> d)] @ tr1"
        using 1(3) Again False rec by (simp add: catalog_do.simps [of attempt])
      consider "d = (case w of None \<Rightarrow> backoff | Some d \<Rightarrow> d)" | "Slept d \<in> set tr1" using 1(4) a tr by auto
      then show ?thesis
      proof cases
        case 1
        then show ?thesis using a \<open>backoff \<le> _\<close> by (cases w) auto
      next
        case 2
        then show ?thesis using 1(1) [OF Again False next_backoff_cap rec] a by (auto simp: asked_for_def)
      qed
    qed
  qed
qed

text \<open>C27: A request for a page is over after at most eight requests to the service, seven attempts and one with fresh
  tokens; with eight answers it ends with a page or an error of its own. Between the attempts it sleeps at most a
  minute, unless an answer asked for longer.\<close>

theorem catalog_request_bounded:
  "let (r, tr) = catalog_request as
   in requests_in tr \<le> 8 \<and> (r = DoCancelled \<longrightarrow> length as < 8) \<and>
      list_all (\<lambda>ev. case ev of Slept d \<Rightarrow> d \<le> catalog_backoff_cap \<or> asked_for as d | _ \<Rightarrow> True) tr"
proof -
  obtain r tr where t: "catalog_request as = (r, tr)" by fastforce
  then have d: "catalog_do 0 catalog_backoff_start False as = (r, tr)" by (simp add: catalog_request_def)
  have "list_all (\<lambda>ev. case ev of Slept d \<Rightarrow> d \<le> catalog_backoff_cap \<or> asked_for as d | _ \<Rightarrow> True) tr"
    using catalog_do_sleeps [OF _ d] by (auto simp: list_all_iff catalog_backoff_start_def catalog_backoff_cap_def split: do_event.split)
  then show ?thesis using catalog_do_requests [OF _ d] by (auto simp: t catalog_max_retries_def not_le)
qed

subsection \<open>A list page by page\<close>



definition pages_of :: "catalog_item list \<Rightarrow> pages \<Rightarrow> bool" where
  "pages_of L pg \<longleftrightarrow> pg_offset pg \<le> length L \<and> pg_items pg = take (pg_offset pg) L \<and> (pg_done pg \<longrightarrow> pg_offset pg = length L)"

lemma pages_of_none [simp]: "pages_of L no_pages"
  by (simp add: pages_of_def no_pages_def)





subsection \<open>Interrupted syncs\<close>



definition saved_liked :: "syncer \<Rightarrow> pages" where "saved_liked s = cp_liked (load_checkpoint s)"

lemma saved_simps [simp]:
  "saved_liked (save_checkpoint cp s) = cp_liked cp" "saved_liked (progress st n m x s) = saved_liked s"
  "saved_liked (s\<lparr>sy_asked := q\<rparr>) = saved_liked s"
  by (simp_all add: saved_liked_def load_checkpoint_def save_checkpoint_def progress_def Let_def)




subsection \<open>The index\<close>

lemma first_by_sub: "set (first_by key seen xs) \<subseteq> set xs"
  by (induction key seen xs rule: first_by.induct) auto






subsection \<open>The refresh of the liked songs\<close>



definition unknown_in :: "catalog_item list \<Rightarrow> catalog_item list \<Rightarrow> bool" where
  "unknown_in old xs \<longleftrightarrow> (\<forall>it \<in> set xs. uri_index old (ci_uri it) = None)"



lemma unknown_take [simp]: "unknown_in old xs \<Longrightarrow> unknown_in old (take n (drop k xs))"
  "unknown_in old xs \<Longrightarrow> unknown_in old (drop k xs)"
  by (auto simp: unknown_in_def dest: in_set_takeD in_set_dropD)







subsection \<open>Where the refresh is wrong\<close>

text \<open>A list whose sync stopped after its first page keeps that page: the total of the service is stored with it, and
  a refresh looks at nothing else.\<close>

lemma partial_list_stays:
  assumes "catalog_page_size < length L" and "ce_ask e (length (sy_asked s)) (LibraryList filt 0 catalog_page_size) =
      Some (take catalog_page_size L, int (length L))"
    and "ce_ask e (Suc (length (sy_asked s))) (LibraryList filt catalog_page_size catalog_page_size) = None"
    and later: "\<And>n. ce_ask e' n (LibraryList filt 0 1) = Some (take 1 L, int (length L))" and "\<not> sy_shows_progress s"
  shows "\<exists>pg s'. sync_list e filt st no_pages s = Some (False, pg, s') \<and> pg_items pg \<noteq> L \<and>
     refresh_list e' filt st pg s' = Some (None, s'\<lparr>sy_asked := sy_asked s' @ [LibraryList filt 0 1]\<rparr>)"
proof -
  let ?q = "\<lambda>off. LibraryList filt off catalog_page_size" and ?after = "\<lambda>pg n s. progress st (int (pg_offset pg)) n (-1) s"
  let ?pg = "\<lparr>pg_offset = catalog_page_size, pg_done = False, pg_items = take catalog_page_size L, pg_total = int (length L)\<rparr>"
  let ?s1 = "s\<lparr>sy_asked := sy_asked s @ [?q 0]\<rparr>"
  have pg: "add_page (take catalog_page_size L) (int (length L)) no_pages = ?pg"
    using assms(1) by (simp add: add_page_def no_pages_def Let_def)
  have first: "ask e (?q 0) s = (Some (take catalog_page_size L, int (length L)), ?s1)"
    using assms(2) by (simp add: ask_def)
  have second: "ask e (?q catalog_page_size) ?s1 = (None, ?s1\<lparr>sy_asked := sy_asked ?s1 @ [?q catalog_page_size]\<rparr>)"
    using assms(3) by (simp add: ask_def)
  have quiet: "?after ?pg (int (length L)) ?s1 = ?s1" using assms(5) by (simp add: progress_def)
  have "page_loop e ?q ?after no_pages s = page_loop e ?q ?after ?pg ?s1"
  proof -
    have "pg_done no_pages = False" "pg_offset no_pages = 0" by (simp_all add: no_pages_def)
    then show ?thesis using first pg quiet by (subst page_loop.simps) (simp only: if_False prod.case option.case Let_def)
  qed
  also have "\<dots> = Some (False, ?pg, ?s1\<lparr>sy_asked := sy_asked ?s1 @ [?q catalog_page_size]\<rparr>)"
    using second by (subst page_loop.simps) (simp only: pages.simps if_False prod.case option.case)
  finally have sync: "sync_list e filt st no_pages s = Some (False, ?pg, ?s1\<lparr>sy_asked := sy_asked ?s1 @ [?q catalog_page_size]\<rparr>)"
    by (simp add: sync_list_def)
  have "take catalog_page_size L \<noteq> L" using assms(1) by (simp add: take_all_iff)
  then show ?thesis using sync later by (simp add: refresh_list_def ask_def)
qed

text \<open>A song that is liked again counts as the first known one: with as many songs unliked as stood before it, the
  merged list has the right length and the wrong songs.\<close>

definition song :: "string \<Rightarrow> catalog_item" where "song u = \<lparr>ci_name = u, ci_artist = [], ci_uri = u\<rparr>"

definition relike_env :: catalog_env where
  "relike_env = \<lparr>ce_ask = (\<lambda>n q. Some ([song ''b'', song ''a'', song ''d''], 3)), ce_cancelled = (\<lambda>n. False), ce_say = (\<lambda>s. [])\<rparr>"

definition idle_syncer :: syncer where
  "idle_syncer = \<lparr>sy_asked = [], sy_cp_file = None, sy_index_file = None, sy_published = [], sy_progress = [],
     sy_shows_progress = False\<rparr>"

definition four_songs :: checkpoint where
  "four_songs = new_checkpoint\<lparr>cp_liked := \<lparr>pg_offset = 4, pg_done = True,
     pg_items = [song ''a'', song ''b'', song ''c'', song ''d''], pg_total = 4\<rparr>\<rparr>"

lemma relike_keeps_unliked:
  "let r = refresh_liked relike_env four_songs idle_syncer
   in map_option (map_option (\<lambda>(items, n). (map ci_uri items, n)) \<circ> fst) r = Some (Some ([''b'', ''c'', ''d''], 3))"
  by code_simp

subsection \<open>Examples\<close>

theorem catalog_request_bounded_witness: "fst (catalog_request (replicate 8 FetchOther)) \<noteq> DoCancelled"
  using catalog_request_bounded [of "replicate 8 FetchOther"] by (auto split: prod.splits)







end
