(* ===== verification/VoiceService.thy ===== *)
theory VoiceService
  imports VoiceResolver PlayerCommands
begin

text \<open>
  \<open>daemon/voice.go\<close>: what a voice command does to the player and to the banner of the user interface, and when the
  wake listener is restarted.

  \<open>voice_script\<close> is a command from its transcript to its end: what it emits, what it submits and when it asks for
  the banner to be cleared, for given answers. The machine below it runs such scripts one action at a time, among
  wake words and timers; the check of a timer and its emission are one step.
\<close>

subsection \<open>Actions of a command\<close>

datatype voice_request = VoiceCommand command | VoiceSearch string bool

datatype submit_answer = SubmitFailed | SubmitDone | SubmitTracks "search_track list" | SubmitTrack "search_track option"

datatype voice_banner = BannerIdle | BannerListening | BannerThinking | BannerPlaying | BannerDone | BannerError

datatype voice_action =
    VoiceEmit voice_banner string
  | VoiceSubmit voice_request
  | VoiceIdle duration

record voice_env =
  ve_submit :: "nat \<Rightarrow> voice_request \<Rightarrow> submit_answer"  \<comment> \<open>by the number of the request in the command\<close>
  ve_transcribe :: "string \<Rightarrow> string option option"  \<comment> \<open>of a clip; None without the sidecar\<close>
  ve_resolver :: "(resolver_config \<times> routed_index) option"
  ve_say :: "string \<Rightarrow> phonemes"
  ve_random :: nat

definition voice_volume_step :: int where "voice_volume_step = 6553"

definition flash :: "voice_banner \<Rightarrow> string \<Rightarrow> voice_action list" where
  "flash st msg = [VoiceEmit st msg, VoiceIdle (milliseconds 3500)]"

definition right_quote :: string where "right_quote = [CHR 0xE2, CHR 0x80, CHR 0x99]"
definition open_quotes :: string where "open_quotes = [CHR 0xE2, CHR 0x80, CHR 0x9C]"
definition close_quotes :: string where "close_quotes = [CHR 0xE2, CHR 0x80, CHR 0x9D]"
definition apostrophe :: string where "apostrophe = [CHR 0x27]"

definition not_caught :: string where "not_caught = ''Sorry, I didn'' @ apostrophe @ ''t catch that''"

definition not_found :: "string \<Rightarrow> string" where
  "not_found query = ''Couldn'' @ apostrophe @ ''t find '' @ open_quotes @ query @ close_quotes"

definition voice_label :: "string \<Rightarrow> string \<Rightarrow> string" where
  "voice_label n artist = (if artist \<noteq> [] then n @ '' - '' @ artist else n)"

text \<open>The result is whether the command succeeded.\<close>

definition play_uri :: "voice_env \<Rightarrow> nat \<Rightarrow> string \<Rightarrow> string \<Rightarrow> voice_action list \<times> bool" where
  "play_uri e k uri label =
     (let req = VoiceCommand (CmdPlay \<lparr>pd_uri = uri, pd_skip_to = [], pd_shuffle = Some False, pd_offset = None\<rparr>);
          start = [VoiceEmit BannerPlaying label, VoiceSubmit req]
      in if ve_submit e k req = SubmitFailed then (start @ flash BannerError (''Couldn'' @ apostrophe @ ''t start playback''), False)
         else (start @ [VoiceIdle (milliseconds 5000)], True))"

definition handle_simple :: "voice_env \<Rightarrow> command \<Rightarrow> string \<Rightarrow> voice_action list \<times> bool" where
  "handle_simple e cmd banner =
     (if ve_submit e 0 (VoiceCommand cmd) = SubmitFailed
      then (VoiceSubmit (VoiceCommand cmd) # flash BannerError (''Couldn'' @ apostrophe @ ''t do that''), False)
      else (VoiceSubmit (VoiceCommand cmd) # flash BannerDone banner, True))"

definition handle_resume :: "voice_env \<Rightarrow> voice_action list \<times> bool" where
  "handle_resume e =
     (if ve_submit e 0 (VoiceCommand CmdResume) \<noteq> SubmitFailed
      then (VoiceSubmit (VoiceCommand CmdResume) # flash BannerDone ''Resumed'', True)
      else if ve_submit e 1 (VoiceCommand CmdResumeLast) \<noteq> SubmitFailed
      then ([VoiceSubmit (VoiceCommand CmdResume), VoiceSubmit (VoiceCommand CmdResumeLast)] @ flash BannerDone ''Resumed'', True)
      else ([VoiceSubmit (VoiceCommand CmdResume), VoiceSubmit (VoiceCommand CmdResumeLast)] @
              flash BannerError ''Nothing to resume'', False))"

definition handle_volume :: "voice_env \<Rightarrow> bool \<Rightarrow> voice_action list \<times> bool" where
  "handle_volume e down =
     (let cmd = CmdSetVolume (if down then - voice_volume_step else voice_volume_step) True
      in if ve_submit e 0 (VoiceCommand cmd) = SubmitFailed
         then (VoiceSubmit (VoiceCommand cmd) # flash BannerError (''Couldn'' @ apostrophe @ ''t change volume''), False)
         else (VoiceSubmit (VoiceCommand cmd) # flash BannerDone (if down then ''Volume down'' else ''Volume up''), True))"

definition handle_control :: "voice_env \<Rightarrow> string \<Rightarrow> voice_action list \<times> bool" where
  "handle_control e action =
     (if action = ''resume'' then handle_resume e
      else if action = ''volup'' then handle_volume e False
      else if action = ''voldown'' then handle_volume e True
      else if action = ''pause'' then handle_simple e CmdPause ''Paused''
      else if action = ''next'' then handle_simple e CmdNext ''Skipping''
      else if action = ''prev'' then handle_simple e CmdPrev ''Previous''
      else (flash BannerError not_caught, False))"

definition handle_queue :: "voice_env \<Rightarrow> string \<Rightarrow> string \<Rightarrow> voice_action list \<times> bool" where
  "handle_queue e uri label =
     (let req = VoiceCommand (CmdAddToQueue uri); start = [VoiceEmit BannerThinking [], VoiceSubmit req]
      in if ve_submit e 0 req = SubmitFailed then (start @ flash BannerError (''Couldn'' @ apostrophe @ ''t queue that''), False)
         else (start @ flash BannerDone (''Queued '' @ label), True))"

definition search_failed :: string where "search_failed = ''Couldn'' @ apostrophe @ ''t search right now''"

definition search_rerank_play ::
    "voice_env \<Rightarrow> resolve_result \<Rightarrow> voice_action list \<times> bool" where
  "search_rerank_play e d =
     (let query = trim_space (rr_query d); req = VoiceSearch query True;
          start = [VoiceEmit BannerThinking [], VoiceSubmit req];
          tracks = (case ve_submit e 0 req of SubmitTracks ts \<Rightarrow> ts | _ \<Rightarrow> []);
          q_track = (if rr_query_track d = [] then query else rr_query_track d)
      in if query = [] then (flash BannerError not_caught, False)
         else if ve_submit e 0 req = SubmitFailed then (start @ flash BannerError search_failed, False)
         else if tracks = [] then (start @ flash BannerError (not_found query), False)
         else case rerank_search (ve_say e) q_track (rr_query_artist d) tracks of
                Some (pick, score, True) \<Rightarrow>
                  (case play_uri e 1 (st_uri pick) (voice_label (st_name pick) (st_artist pick)) of
                     (acts, ok) \<Rightarrow> (start @ acts, ok))
              | _ \<Rightarrow> (start @ flash BannerError (not_found query), False))"

definition search_and_play :: "voice_env \<Rightarrow> string \<Rightarrow> voice_action list \<times> bool" where
  "search_and_play e query =
     (let req = VoiceSearch query False; start = [VoiceEmit BannerThinking [], VoiceSubmit req]
      in if trim_space query = [] then (flash BannerError not_caught, False)
         else if ve_submit e 0 req = SubmitFailed then (start @ flash BannerError search_failed, False)
         else case ve_submit e 0 req of
                SubmitTrack (Some t) \<Rightarrow>
                  if st_uri t = [] then (start @ flash BannerError (not_found query), False)
                  else (case play_uri e 1 (st_uri t) (voice_label (st_name t) (st_artist t)) of (acts, ok) \<Rightarrow> (start @ acts, ok))
              | _ \<Rightarrow> (start @ flash BannerError (not_found query), False))"

definition abstain_message :: "resolve_result \<Rightarrow> string" where
  "abstain_message d =
     (if rr_kind d = ResultQueue then ''Couldn'' @ right_quote @ ''t find that to queue''
      else if rr_kind d = ResultRandom then ''No liked songs yet''
      else ''Sorry, I didn'' @ right_quote @ ''t catch that'')"

definition voice_decide :: "voice_env \<Rightarrow> string \<Rightarrow> voice_action list \<times> bool" where
  "voice_decide e transcript =
     (case ve_resolver e of
        None \<Rightarrow> search_and_play e (parse_voice_query transcript)
      | Some (c, idx) \<Rightarrow>
          let d = resolve_voice c (ve_say e) (ve_random e) idx [transcript]
          in case rr_tier d of
               TierControl \<Rightarrow> handle_control e (rr_action d)
             | TierQueue \<Rightarrow> handle_queue e (rr_uri d) (voice_label (rr_name d) (rr_artist d))
             | TierAbstain \<Rightarrow> (flash BannerError (abstain_message d), False)
             | TierLocal \<Rightarrow>
                 if rr_uri d = [] then search_and_play e (search_query_from_result d)
                 else play_uri e 0 (rr_uri d) (voice_label (rr_name d) (rr_artist d))
             | TierSearch \<Rightarrow> search_rerank_play e d)"

definition voice_script :: "voice_env \<Rightarrow> string \<Rightarrow> string \<Rightarrow> voice_action list \<times> bool" where
  "voice_script e transcript clip =
     (let heard = (if transcript = [] \<and> clip \<noteq> [] then Option.bind (ve_transcribe e clip) id else Some transcript)
      in case heard of
           None \<Rightarrow> (VoiceEmit BannerThinking [] # flash BannerError not_caught, False)
         | Some t \<Rightarrow>
             if trim_space t = [] then (VoiceEmit BannerThinking [] # flash BannerError not_caught, False)
             else case voice_decide e t of (acts, ok) \<Rightarrow> (VoiceEmit BannerThinking [] # acts, ok))"

subsection \<open>The service\<close>

record voice_state =
  vs_busy :: bool
  vs_gen :: nat
  vs_seq :: nat
  vs_banner :: voice_banner
  vs_running :: "voice_action list"
  vs_wake_clear :: bool  \<comment> \<open>a wake word was emitted, its timer not yet armed\<close>
  vs_timers :: "(nat \<times> nat option) list"  \<comment> \<open>the sequence number, and the command for its own timers\<close>
  vs_requests :: "voice_request list"

definition new_voice :: voice_state where
  "new_voice = \<lparr>vs_busy = False, vs_gen = 0, vs_seq = 0, vs_banner = BannerIdle, vs_running = [], vs_wake_clear = False,
     vs_timers = [], vs_requests = []\<rparr>"

datatype voice_event =
    VoiceTriggered voice_env string string
  | VoiceProceeds
  | WakeWord
  | WakeTimerArmed
  | TimerFires nat

definition voice_emit :: "voice_banner \<Rightarrow> voice_state \<Rightarrow> voice_state" where
  "voice_emit b s = s\<lparr>vs_seq := Suc (vs_seq s), vs_banner := b\<rparr>"

text \<open>\<open>scheduleIdle\<close> and \<open>scheduleClear\<close>.\<close>

definition arm_timer :: "nat option \<Rightarrow> voice_state \<Rightarrow> voice_state" where
  "arm_timer g s = s\<lparr>vs_timers := vs_timers s @ [(vs_seq s, g)]\<rparr>"

definition do_action :: "voice_action \<Rightarrow> voice_state \<Rightarrow> voice_state" where
  "do_action a s =
     (case a of
        VoiceEmit b msg \<Rightarrow> voice_emit b s
      | VoiceSubmit r \<Rightarrow> s\<lparr>vs_requests := vs_requests s @ [r]\<rparr>
      | VoiceIdle d \<Rightarrow> arm_timer (Some (vs_gen s)) s)"

definition timer_fires :: "nat \<Rightarrow> voice_state \<Rightarrow> voice_state" where
  "timer_fires i s =
     (if length (vs_timers s) \<le> i then s
      else
        let (sq, g) = vs_timers s ! i; s1 = s\<lparr>vs_timers := take i (vs_timers s) @ drop (Suc i) (vs_timers s)\<rparr>
        in if sq = vs_seq s \<and> (case g of None \<Rightarrow> True | Some n \<Rightarrow> n = vs_gen s) then voice_emit BannerIdle s1 else s1)"

definition voice_step :: "voice_state \<Rightarrow> voice_event \<Rightarrow> voice_state" where
  "voice_step s ev =
     (case ev of
        VoiceTriggered e transcript clip \<Rightarrow>
          if vs_busy s then s
          else s\<lparr>vs_busy := True, vs_gen := Suc (vs_gen s), vs_running := fst (voice_script e transcript clip)\<rparr>
      | VoiceProceeds \<Rightarrow>
          (case vs_running s of
             [] \<Rightarrow> s\<lparr>vs_busy := False\<rparr>
           | a # as \<Rightarrow> do_action a (s\<lparr>vs_running := as\<rparr>))
      | WakeWord \<Rightarrow> if vs_wake_clear s then s else (voice_emit BannerListening s)\<lparr>vs_wake_clear := True\<rparr>
      | WakeTimerArmed \<Rightarrow> if vs_wake_clear s then (arm_timer None s)\<lparr>vs_wake_clear := False\<rparr> else s
      | TimerFires i \<Rightarrow> timer_fires i s)"

subsection \<open>The wake threshold\<close>

record wake_listener =
  wk_wake :: bool
  wk_enabled :: bool
  wk_playing :: bool
  wk_gen :: nat
  wk_running :: "rat option"  \<comment> \<open>the threshold of the running listener\<close>
  wk_restart :: bool
  wk_threshold :: rat
  wk_threshold_playing :: rat
  wk_pending :: "nat list"  \<comment> \<open>generations of the armed timers\<close>
  wk_kills :: nat

definition wake_threshold :: "wake_listener \<Rightarrow> rat" where
  "wake_threshold w = (if wk_playing w \<and> wk_threshold_playing w > 0 then wk_threshold_playing w else wk_threshold w)"

definition notify_playback :: "bool \<Rightarrow> wake_listener \<Rightarrow> wake_listener" where
  "notify_playback playing w =
     (if \<not> wk_wake w \<or> wk_playing w = playing then w
      else w\<lparr>wk_playing := playing, wk_gen := Suc (wk_gen w), wk_pending := Suc (wk_gen w) # wk_pending w\<rparr>)"

text \<open>The threshold of a listener that never ran is 0; the timer is taken from the pending ones.\<close>

definition apply_wake_threshold :: "nat \<Rightarrow> bool \<Rightarrow> bool \<Rightarrow> wake_listener \<Rightarrow> wake_listener" where
  "apply_wake_threshold gen stopped busy w0 =
     (let w = w0\<lparr>wk_pending := remove1 gen (wk_pending w0)\<rparr>
      in if wk_gen w \<noteq> gen then w
         else if stopped \<or> \<not> wk_enabled w then w
         else if (case wk_running w of None \<Rightarrow> 0 | Some t \<Rightarrow> t) = wake_threshold w then w
         else if busy then w\<lparr>wk_pending := gen # wk_pending w\<rparr>
         else w\<lparr>wk_restart := True, wk_kills := Suc (wk_kills w)\<rparr>)"

definition set_wake_enabled :: "bool \<Rightarrow> wake_listener \<Rightarrow> wake_listener" where
  "set_wake_enabled on w =
     (if wk_enabled w = on then w
      else if on then w\<lparr>wk_enabled := True\<rparr>
      else w\<lparr>wk_enabled := False, wk_kills := Suc (wk_kills w)\<rparr>)"

text \<open>The loop starts a listener with the threshold of the moment; after its end a restart that was asked for is
  immediate, and consumed.\<close>

definition listener_starts :: "wake_listener \<Rightarrow> wake_listener" where
  "listener_starts w = (if wk_enabled w then w\<lparr>wk_running := Some (wake_threshold w)\<rparr> else w)"

definition listener_ended :: "wake_listener \<Rightarrow> bool \<times> wake_listener" where
  "listener_ended w = (if \<not> wk_enabled w then (True, w) else (wk_restart w, w\<lparr>wk_restart := False\<rparr>))"

subsection \<open>A command ends with a cleared banner\<close>

definition clears :: "voice_action list \<Rightarrow> bool" where
  "clears acts \<longleftrightarrow> acts \<noteq> [] \<and> (\<exists>d. last acts = VoiceIdle d)"

definition submitted :: "voice_action list \<Rightarrow> voice_request list" where
  "submitted acts = List.map_filter (\<lambda>a. case a of VoiceSubmit r \<Rightarrow> Some r | _ \<Rightarrow> None) acts"

lemma submitted_simps [simp]:
  "submitted [] = []" "submitted (VoiceEmit b m # acts) = submitted acts" "submitted (VoiceIdle d # acts) = submitted acts"
  "submitted (VoiceSubmit r # acts) = r # submitted acts" "submitted (xs @ ys) = submitted xs @ submitted ys"
  by (simp_all add: submitted_def List.map_filter_def)

lemma clears_simps [simp]:
  "clears [VoiceIdle d]" "clears (flash b m)" "clears (xs @ flash b m)" "clears (xs @ [VoiceIdle d])" "clears acts \<Longrightarrow> clears (xs @ acts)"
  "clears acts \<Longrightarrow> clears (a # acts)" "submitted (flash b m) = []"
  by (auto simp: clears_def flash_def)

lemma play_uri_script: "clears (fst (play_uri e k uri label)) \<and> length (submitted (fst (play_uri e k uri label))) = 1"
  by (simp add: play_uri_def Let_def)

lemma handle_script:
  "clears (fst (handle_control e action)) \<and> length (submitted (fst (handle_control e action))) \<le> 2"
  "clears (fst (handle_queue e uri label)) \<and> length (submitted (fst (handle_queue e uri label))) \<le> 2"
  by (auto simp: handle_control_def handle_resume_def handle_volume_def handle_simple_def handle_queue_def Let_def)

lemma search_script:
  "clears (fst (search_rerank_play e d)) \<and> length (submitted (fst (search_rerank_play e d))) \<le> 2"
  "clears (fst (search_and_play e q)) \<and> length (submitted (fst (search_and_play e q))) \<le> 2"
  using play_uri_script
  by (auto simp: search_rerank_play_def search_and_play_def Let_def split_def split: option.split prod.split bool.split submit_answer.split)

lemma decide_script: "clears (fst (voice_decide e t)) \<and> length (submitted (fst (voice_decide e t))) \<le> 2"
  using play_uri_script [of e 0] handle_script search_script
  by (auto simp: voice_decide_def Let_def split: option.split tier.split prod.split)

lemma voice_script_clears: "clears (fst (voice_script e t clip)) \<and> length (submitted (fst (voice_script e t clip))) \<le> 2"
  using decide_script by (auto simp: voice_script_def Let_def split_def split: option.split)

subsection \<open>The banner\<close>

definition cleared_later :: "voice_state \<Rightarrow> bool" where
  "cleared_later s \<longleftrightarrow>
     vs_banner s = BannerIdle \<or> clears (vs_running s) \<or> vs_wake_clear s \<or>
     (\<exists>i < length (vs_timers s). vs_timers s ! i = (vs_seq s, None) \<or> vs_timers s ! i = (vs_seq s, Some (vs_gen s)))"

definition voice_ok :: "voice_state \<Rightarrow> bool" where
  "voice_ok s \<longleftrightarrow> cleared_later s \<and> (vs_running s = [] \<or> clears (vs_running s)) \<and> (vs_running s \<noteq> [] \<longrightarrow> vs_busy s)"

lemma arm_cleared: "g = None \<or> g = Some (vs_gen s) \<Longrightarrow> cleared_later (arm_timer g s)"
  unfolding cleared_later_def arm_timer_def
  by (intro disjI2) (rule exI [of _ "length (vs_timers s)"], auto)

lemma proceeds_ok: "voice_ok s \<Longrightarrow> voice_ok (voice_step s VoiceProceeds)"
proof -
  assume ok: "voice_ok s"
  show ?thesis
  proof (cases "vs_running s")
    case Nil
    then show ?thesis using ok by (simp add: voice_step_def voice_ok_def cleared_later_def)
  next
    case (Cons a as)
    have c: "clears (a # as)" using ok Cons by (simp add: voice_ok_def)
    show ?thesis
    proof (cases "as = []")
      case True
      then obtain d where "a = VoiceIdle d" using c by (auto simp: clears_def)
      then show ?thesis using True Cons arm_cleared [of "Some (vs_gen s)" "s\<lparr>vs_running := []\<rparr>"]
        by (simp add: voice_step_def do_action_def voice_ok_def arm_timer_def)
    next
      case False
      then have "clears as" using c by (simp add: clears_def)
      then show ?thesis using ok Cons
        by (cases a) (simp_all add: voice_step_def do_action_def voice_ok_def cleared_later_def arm_timer_def voice_emit_def)
    qed
  qed
qed

lemma nth_removed:
  "i < length xs \<Longrightarrow> k < length xs \<Longrightarrow> k \<noteq> i \<Longrightarrow> \<exists>j < length (take i xs @ drop (Suc i) xs). (take i xs @ drop (Suc i) xs) ! j = xs ! k"
proof (cases "k < i")
  case True
  assume "i < length xs"
  then show ?thesis using True by (intro exI [of _ k]) (simp add: nth_append)
next
  case False
  assume "i < length xs" "k < length xs" "k \<noteq> i"
  then obtain j where "k = Suc j" "i \<le> j" using False by (cases k) auto
  then show ?thesis using \<open>i < length xs\<close> \<open>k < length xs\<close> by (intro exI [of _ j]) (simp add: nth_append)
qed

lemma timer_stale:
  assumes "i < length (vs_timers s)" and "vs_timers s ! i = (sq, g)" and "\<not> (sq = vs_seq s \<and> (g = None \<or> g = Some (vs_gen s)))"
  shows "timer_fires i s = s\<lparr>vs_timers := take i (vs_timers s) @ drop (Suc i) (vs_timers s)\<rparr>"
  using assms by (cases g) (auto simp: timer_fires_def)

lemma timer_current:
  assumes "i < length (vs_timers s)" and "vs_timers s ! i = (sq, g)" and "sq = vs_seq s \<and> (g = None \<or> g = Some (vs_gen s))"
  shows "timer_fires i s = voice_emit BannerIdle (s\<lparr>vs_timers := take i (vs_timers s) @ drop (Suc i) (vs_timers s)\<rparr>)"
  using assms by (cases g) (auto simp: timer_fires_def)

lemma stale_cleared:
  assumes "cleared_later s" and "i < length (vs_timers s)" and "vs_timers s ! i = (sq, g)"
    and "\<not> (sq = vs_seq s \<and> (g = None \<or> g = Some (vs_gen s)))"
  shows "cleared_later (s\<lparr>vs_timers := take i (vs_timers s) @ drop (Suc i) (vs_timers s)\<rparr>)"
proof (cases "vs_banner s = BannerIdle \<or> clears (vs_running s) \<or> vs_wake_clear s")
  case True
  then show ?thesis by (auto simp: cleared_later_def)
next
  case False
  then obtain k where k: "k < length (vs_timers s)" "vs_timers s ! k = (vs_seq s, None) \<or> vs_timers s ! k = (vs_seq s, Some (vs_gen s))"
    using assms(1) by (auto simp: cleared_later_def)
  then have "k \<noteq> i" using assms(3,4) by auto
  then obtain j where "j < length (take i (vs_timers s) @ drop (Suc i) (vs_timers s))"
      "(take i (vs_timers s) @ drop (Suc i) (vs_timers s)) ! j = vs_timers s ! k"
    using nth_removed [OF assms(2) k(1)] by blast
  then show ?thesis unfolding cleared_later_def using k(2) by simp metis
qed

lemma timer_ok: "voice_ok s \<Longrightarrow> voice_ok (timer_fires i s)"
proof -
  assume ok: "voice_ok s"
  obtain sq g where t: "vs_timers s ! i = (sq, g)" by fastforce
  consider "length (vs_timers s) \<le> i"
    | "i < length (vs_timers s)" "sq = vs_seq s \<and> (g = None \<or> g = Some (vs_gen s))"
    | "i < length (vs_timers s)" "\<not> (sq = vs_seq s \<and> (g = None \<or> g = Some (vs_gen s)))" by linarith
  then show ?thesis
  proof cases
    case 1
    then show ?thesis using ok by (simp add: timer_fires_def)
  next
    case 2
    then show ?thesis using ok unfolding timer_current [OF 2(1) t 2(2)]
      by (simp add: voice_ok_def cleared_later_def voice_emit_def)
  next
    case 3
    then show ?thesis using ok stale_cleared [OF _ 3(1) t 3(2)] unfolding timer_stale [OF 3(1) t 3(2)]
      by (simp add: voice_ok_def)
  qed
qed

lemma voice_step_ok: "voice_ok s \<Longrightarrow> voice_ok (voice_step s ev)"
proof (cases ev)
  case (VoiceTriggered e t clip)
  assume "voice_ok s"
  then show ?thesis using VoiceTriggered voice_script_clears [of e t clip]
    by (simp add: voice_step_def voice_ok_def cleared_later_def)
next
  case WakeTimerArmed
  assume "voice_ok s"
  then show ?thesis using WakeTimerArmed arm_cleared [of None s]
    by (auto simp: voice_step_def voice_ok_def cleared_later_def arm_timer_def)
next
  case VoiceProceeds
  assume "voice_ok s"
  then show ?thesis using proceeds_ok VoiceProceeds by simp
next
  case WakeWord
  assume "voice_ok s"
  then show ?thesis using WakeWord by (simp add: voice_step_def voice_ok_def cleared_later_def voice_emit_def)
next
  case (TimerFires i)
  assume "voice_ok s"
  then show ?thesis using timer_ok TimerFires by (simp add: voice_step_def)
qed

interpretation banner: invariant_machine voice_step voice_ok
  by unfold_locales (rule voice_step_ok)

lemma new_voice_ok: "voice_ok new_voice"
  by (simp add: voice_ok_def cleared_later_def new_voice_def)

lemma timer_clears:
  "i < length (vs_timers s) \<Longrightarrow> vs_timers s ! i = (vs_seq s, None) \<or> vs_timers s ! i = (vs_seq s, Some (vs_gen s))
   \<Longrightarrow> vs_banner (voice_step s (TimerFires i)) = BannerIdle"
  using timer_current [of i s] by (auto simp: voice_step_def voice_emit_def)

text \<open>C31: Whatever happens, in any order of commands, wake words and timers, a banner that is shown is going to be
  cleared: a command is running whose last action arms the timer, or a wake word is about to arm one, or a timer for
  this very banner is armed, and when it fires the banner is idle.\<close>

theorem banner_is_cleared:
  "let s = foldl voice_step new_voice evs
   in vs_banner s = BannerIdle \<or> clears (vs_running s) \<or> vs_wake_clear s \<or>
      (\<exists>i. vs_banner (voice_step s (TimerFires i)) = BannerIdle)"
proof -
  have "voice_ok (foldl voice_step new_voice evs)" using banner.run_inv new_voice_ok by blast
  then show ?thesis unfolding voice_ok_def cleared_later_def Let_def using timer_clears by blast
qed

text \<open>A command submits at most two requests, however the services answer, and ends with the timer that clears
  its banner; a command that comes while another one runs does nothing.\<close>

theorem voice_command_bounded:
  "length (submitted (fst (voice_script e t clip))) \<le> 2 \<and> clears (fst (voice_script e t clip)) \<and>
   (if vs_busy s then voice_step s (VoiceTriggered e t clip) = s
    else vs_running (voice_step s (VoiceTriggered e t clip)) = fst (voice_script e t clip) \<and> vs_busy (voice_step s (VoiceTriggered e t clip)))"
  using voice_script_clears by (simp add: voice_step_def)

text \<open>A queue command can name an artist, an album or a playlist, and then its context goes into the queue.\<close>

lemma queue_takes_any_kind:
  assumes "ve_resolver e = Some (c, idx)" and "resolve_voice c (ve_say e) (ve_random e) idx [t] = d"
    and "rr_tier d = TierQueue" and "rr_kind d = ResultEntry KindPlaylist"
  shows "submitted (fst (voice_decide e t)) = [VoiceCommand (CmdAddToQueue (rr_uri d))]"
  using assms by (simp add: voice_decide_def handle_queue_def Let_def)

end
