(* ===== verification/ApiTypes.thy ===== *)
theory ApiTypes
  imports MaClient
begin

text \<open>
  What the handlers of the HTTP server share, of \<open>daemon/api_server.go\<close>: requests and answers, the
  decoding of a body (\<open>jsonDecode\<close>), the interfaces that are set after the start, and which Home
  Assistant the daemon talks to (\<open>getHomeAssistantConfig\<close>).

  The body of a request is None when reading it fails. What a handler writes is its status, the headers
  that the code sets and its body.
\<close>

named_theorems api_defs \<open>the small functions of the handlers\<close>

subsection \<open>Requests and answers\<close>

record http_request =
  rq_method :: string
  rq_path :: string
  rq_raw_query :: string
  rq_query :: "(string \<times> string) list"
  rq_body :: "string option"

datatype answer_body = NoBody | JsonBody json | TextBody string

record answer =
  an_status :: int
  an_type :: string
  an_no_store :: bool
  an_body :: "answer_body"

text \<open>\<open>Query().Get\<close>: the first value of a name.\<close>

definition query_get :: "string \<Rightarrow> http_request \<Rightarrow> string" where
  "query_get k q = (case map_of (rq_query q) k of None \<Rightarrow> [] | Some v \<Rightarrow> v)"

definition status_only :: "int \<Rightarrow> answer" where
  "status_only code = \<lparr>an_status = code, an_type = [], an_no_store = False, an_body = NoBody\<rparr>"

definition json_type :: string where "json_type = ''application/json''"

definition json_answer :: "int \<Rightarrow> json \<Rightarrow> answer" where
  "json_answer code j = \<lparr>an_status = code, an_type = json_type, an_no_store = False, an_body = JsonBody j\<rparr>"

definition json_reply :: "json \<Rightarrow> answer" where
  "json_reply j = json_answer 200 j"

definition no_store :: "answer \<Rightarrow> answer" where
  "no_store a = a\<lparr>an_no_store := True\<rparr>"

definition json_error :: "int \<Rightarrow> string \<Rightarrow> answer" where
  "json_error code msg = json_answer code (JObj [(''error'', JStr msg)])"

lemmas [api_defs] = query_get_def status_only_def json_type_def json_answer_def json_reply_def no_store_def
  json_error_def

text \<open>An empty body leaves the struct as it is, as \<open>null\<close> does.\<close>

definition json_body :: "(json \<Rightarrow> 'a option) \<Rightarrow> string option \<Rightarrow> 'a option" where
  "json_body d b =
     (case b of
        None \<Rightarrow> None
      | Some s \<Rightarrow> if s = [] then d JNull else Option.bind (json_parse s) d)"

lemma json_body_empty [simp]: "json_body d (Some []) = d JNull"
  by (simp add: json_body_def)

lemma json_body_unread [simp]: "json_body d None = None"
  by (simp add: json_body_def)

lemma json_body_from: "json_body d b = Some x \<Longrightarrow> \<exists>j. d j = Some x"
  by (auto simp: json_body_def split: option.splits if_splits Option.bind_splits)

subsection \<open>Which Home Assistant\<close>

record ha_target =
  ht_url :: string
  ht_token :: string

definition set_home_assistant_config :: "url_parser \<Rightarrow> ha_target \<Rightarrow> ha_target" where
  "set_home_assistant_config parse cfg = cfg\<lparr>ht_url := normalize_ha_url parse (ht_url cfg)\<rparr>"

text \<open>The settings of the user interface win over the defaults of the build; None is a server without a
  store of settings.\<close>

definition get_home_assistant_config :: "url_parser \<Rightarrow> string option \<Rightarrow> ha_target \<Rightarrow> ha_target" where
  "get_home_assistant_config parse settings defaults =
     (case settings of
        None \<Rightarrow> defaults
      | Some blob \<Rightarrow>
          (case parse_ha_config parse blob of
             None \<Rightarrow> defaults
           | Some hc \<Rightarrow> \<lparr>ht_url = hc_url hc, ht_token = hc_token hc\<rparr>))"

end
