(* ===== verification/HaLogin.thy ===== *)
theory HaLogin
  imports ApiTypes "HOL-Library.Sublist"
begin

text \<open>
  The connection to Home Assistant: \<open>daemon/ha_login.go\<close> and the proxy \<open>handleHaApiProxy\<close> of
  \<open>daemon/api_server.go\<close>. A login validates a token over the websocket, or makes a long-lived token from a
  name and a password: three posts, then a websocket that authenticates, lists the tokens and mints one.

  What the network does in a run is a script: the answer to the n-th post, the frames that arrive on the
  websocket until it breaks or the deadline of the conversation passes, and which writes succeed. A theorem
  about every script is about every server, whatever its answers depend on. \<open>strconv.Quote\<close> is written out
  for ASCII; other bytes are kept as they are.
\<close>

named_theorems ha_defs \<open>the small steps of a login\<close>

subsection \<open>Classes, names and logging\<close>

datatype ha_error = HaBadRequest | HaUnreachable | HaInvalidCreds

definition ha_class :: "ha_error \<Rightarrow> string" where
  "ha_class e = (case e of HaBadRequest \<Rightarrow> ''bad_request'' | HaUnreachable \<Rightarrow> ''unreachable''
     | HaInvalidCreds \<Rightarrow> ''invalid_credentials'')"

definition ha_status_for_error :: "ha_error \<Rightarrow> int" where
  "ha_status_for_error e = (case e of HaBadRequest \<Rightarrow> 400 | HaInvalidCreds \<Rightarrow> 401 | HaUnreachable \<Rightarrow> 502)"

definition ha_list_msg_id :: int where "ha_list_msg_id = 1"
definition ha_mint_msg_id :: int where "ha_mint_msg_id = 2"
definition ha_lla_name :: string where "ha_lla_name = ''Mira''"
definition ha_lla_days :: int where "ha_lla_days = 3650"
definition ha_token_type_lla :: string where "ha_token_type_lla = ''long_lived_access_token''"

definition ha_host_for_log :: "url_parser \<Rightarrow> string \<Rightarrow> string" where
  "ha_host_for_log parse canonical =
     (case parse canonical of
        Some p \<Rightarrow> if pu_host p \<noteq> [] then pu_host p else canonical
      | None \<Rightarrow> canonical)"

definition go_quote_char :: "char \<Rightarrow> string" where
  "go_quote_char c =
     (let n = of_char c :: nat
      in if c = CHR 0x22 then [CHR 0x5C, CHR 0x22]
         else if c = CHR 0x5C then [CHR 0x5C, CHR 0x5C]
         else if n = 7 then CHR 0x5C # ''a'' else if n = 8 then CHR 0x5C # ''b''
         else if n = 9 then CHR 0x5C # ''t'' else if n = 10 then CHR 0x5C # ''n''
         else if n = 11 then CHR 0x5C # ''v'' else if n = 12 then CHR 0x5C # ''f''
         else if n = 13 then CHR 0x5C # ''r''
         else if n < 32 \<or> n = 127 then CHR 0x5C # CHR ''x'' # map lower_char (show_hex2 (of_nat n))
         else [c])"

definition go_quote :: "string \<Rightarrow> string" where
  "go_quote s = [CHR 0x22] @ concat (map go_quote_char s) @ [CHR 0x22]"

definition ha_unique_lla_name :: "string \<Rightarrow> (8 word \<times> 8 word) option \<Rightarrow> string" where
  "ha_unique_lla_name stamp rnd =
     ha_lla_name @ '' '' @ stamp @
       (case rnd of None \<Rightarrow> [] | Some (a, b) \<Rightarrow> ''-'' @ map lower_char (show_hex2 a @ show_hex2 b))"

definition ha_login_client_ids :: "string \<Rightarrow> string \<times> string" where
  "ha_login_client_ids canonical = (canonical @ ''/mira'', canonical @ ''/mira/callback'')"

subsection \<open>A run and its script\<close>

datatype ws_frame = TextFrame string | OtherFrame

datatype ha_payload = JsonPayload json | FormPayload string

record ha_post =
  hp_url :: string
  hp_type :: string
  hp_payload :: ha_payload

record ha_env =
  he_parse :: url_parser
  he_answer :: "nat \<Rightarrow> http"
  he_dial :: "ws_frame list option"
  he_write :: "nat \<Rightarrow> bool"
  he_stamp :: "nat \<Rightarrow> string"
  he_random :: "nat \<Rightarrow> (8 word \<times> 8 word) option"

record ha_run =
  hr_posts :: "ha_post list"
  hr_dialed :: "string list"
  hr_open :: bool
  hr_in :: "ws_frame list"
  hr_writes :: nat
  hr_sent :: "json list"
  hr_names :: nat
  hr_log :: "string list"

definition new_run :: ha_run where
  "new_run = \<lparr>hr_posts = [], hr_dialed = [], hr_open = False, hr_in = [], hr_writes = 0, hr_sent = [],
     hr_names = 0, hr_log = []\<rparr>"

definition ha_say :: "string \<Rightarrow> string \<Rightarrow> ha_run \<Rightarrow> ha_run" where
  "ha_say host what r = r\<lparr>hr_log := hr_log r @ [''ha login: '' @ host @ '': '' @ what]\<rparr>"

definition ha_close :: "ha_run \<Rightarrow> ha_run" where
  "ha_close r = r\<lparr>hr_open := False\<rparr>"

definition ws_read :: "ha_run \<Rightarrow> string option \<times> ha_run" where
  "ws_read r =
     (case hr_in r of
        [] \<Rightarrow> (None, r)
      | TextFrame d # fs \<Rightarrow> (Some d, r\<lparr>hr_in := fs\<rparr>)
      | OtherFrame # fs \<Rightarrow> (None, r\<lparr>hr_in := fs\<rparr>))"

definition ws_write :: "ha_env \<Rightarrow> json \<Rightarrow> ha_run \<Rightarrow> bool \<times> ha_run" where
  "ws_write env m r =
     (if he_write env (hr_writes r) then (True, r\<lparr>hr_writes := Suc (hr_writes r), hr_sent := hr_sent r @ [m]\<rparr>)
      else (False, r\<lparr>hr_writes := Suc (hr_writes r)\<rparr>))"

definition unique_name :: "ha_env \<Rightarrow> ha_run \<Rightarrow> string \<times> ha_run" where
  "unique_name env r =
     (ha_unique_lla_name (he_stamp env (hr_names r)) (he_random env (hr_names r)), r\<lparr>hr_names := Suc (hr_names r)\<rparr>)"

lemmas [ha_defs] = ha_say_def ha_close_def ws_read_def ws_write_def unique_name_def

subsection \<open>The websocket\<close>

definition dec_type :: "string \<Rightarrow> string option" where
  "dec_type d = Option.bind (json_parse d) (field ''type'' [] dec_str)"

definition auth_request :: "string \<Rightarrow> json" where
  "auth_request token = JObj [(''type'', JStr ''auth''), (''access_token'', JStr token)]"

definition ha_ws_dial_and_auth :: "ha_env \<Rightarrow> string \<Rightarrow> string \<Rightarrow> ha_run \<Rightarrow> ha_error option \<times> ha_run" where
  "ha_ws_dial_and_auth env u token r =
     (let host = ha_host_for_log (he_parse env) u;
          r1 = r\<lparr>hr_dialed := hr_dialed r @ [ha_web_socket_url u]\<rparr>
      in case he_dial env of
           None \<Rightarrow> (Some HaUnreachable, ha_say host ''dial failed (unreachable)'' r1)
         | Some frames \<Rightarrow>
             (case ws_read (r1\<lparr>hr_open := True, hr_in := frames\<rparr>) of
                (None, r2) \<Rightarrow> (Some HaUnreachable, ha_close (ha_say host ''opening frame read failed (unreachable)'' r2))
              | (Some d, r2) \<Rightarrow>
                  if dec_type d \<noteq> Some ''auth_required''
                  then (Some HaUnreachable, ha_close (ha_say host ''unexpected opening frame (unreachable)'' r2))
                  else case ws_write env (auth_request token) r2 of
                         (False, r3) \<Rightarrow> (Some HaUnreachable, ha_close (ha_say host ''auth write failed (unreachable)'' r3))
                       | (True, r3) \<Rightarrow> (None, r3)))"

definition ha_auth_with_token :: "ha_env \<Rightarrow> string \<Rightarrow> string \<Rightarrow> ha_run \<Rightarrow> (ha_error + string) \<times> ha_run" where
  "ha_auth_with_token env u token r =
     (let host = ha_host_for_log (he_parse env) u
      in case ha_ws_dial_and_auth env u token r of
           (Some e, r1) \<Rightarrow> (Inl e, r1)
         | (None, r1) \<Rightarrow>
             (case ws_read r1 of
                (None, r2) \<Rightarrow> (Inl HaUnreachable, ha_close (ha_say host ''auth response failed (unreachable)'' r2))
              | (Some d, r2) \<Rightarrow>
                  (case dec_type d of
                     None \<Rightarrow> (Inl HaUnreachable, ha_close (ha_say host ''malformed auth response (unreachable)'' r2))
                   | Some t \<Rightarrow>
                       if t = ''auth_ok'' then
                         (Inr token, ha_close (r2\<lparr>hr_log := hr_log r2 @ [''ha login: access token accepted by '' @ host]\<rparr>))
                       else if t = ''auth_invalid'' then
                         (Inl HaInvalidCreds, ha_close (ha_say host ''token rejected (invalid_credentials)'' r2))
                       else (Inl HaUnreachable, ha_close
                         (ha_say host (''unexpected auth response type '' @ go_quote t @ '' (unreachable)'') r2)))))"

subsection \<open>The posts\<close>

text \<open>A post whose url cannot be parsed is not sent. Without a whole body there is no answer.\<close>

definition ha_bootstrap_request :: "ha_env \<Rightarrow> ha_post \<Rightarrow> ha_run \<Rightarrow> (int \<times> string) option \<times> ha_run" where
  "ha_bootstrap_request env p r =
     (if he_parse env (hp_url p) = None then (None, r)
      else (case he_answer env (length (hr_posts r)) of
              Response status (Some b) \<Rightarrow> Some (status, b) | _ \<Rightarrow> None,
            r\<lparr>hr_posts := hr_posts r @ [p]\<rparr>))"

definition ha_http_error_message :: "string \<Rightarrow> string" where
  "ha_http_error_message b =
     (case Option.bind (json_parse b) (\<lambda>j. do {
             m \<leftarrow> field ''message'' [] dec_str j; d \<leftarrow> field ''error_description'' [] dec_str j; Some (m, d) }) of
        None \<Rightarrow> []
      | Some (m, d) \<Rightarrow> if m \<noteq> [] then m else d)"

record ha_flow =
  fl_type :: string
  fl_flow_id :: string
  fl_step_id :: string
  fl_result :: string
  fl_errors :: "(string \<times> string) list"

text \<open>A \<open>map[string]string\<close>.\<close>

definition dec_str_map :: "json \<Rightarrow> (string \<times> string) list option" where
  "dec_str_map j = Option.bind (dec_map j) (dec_all (\<lambda>(k, v). map_option (Pair k) (dec_str v)))"

definition dec_flow :: "json \<Rightarrow> ha_flow option" where
  "dec_flow j = do {
     t \<leftarrow> field ''type'' [] dec_str j;
     i \<leftarrow> field ''flow_id'' [] dec_str j;
     s \<leftarrow> field ''step_id'' [] dec_str j;
     c \<leftarrow> field ''result'' [] dec_str j;
     e \<leftarrow> field ''errors'' [] dec_str_map j;
     Some \<lparr>fl_type = t, fl_flow_id = i, fl_step_id = s, fl_result = c, fl_errors = e\<rparr> }"

definition flow_error :: "string \<Rightarrow> ha_flow \<Rightarrow> string" where
  "flow_error k f = (case map_of (rev (fl_errors f)) k of None \<Rightarrow> [] | Some v \<Rightarrow> v)"

definition login_flow_post :: "string \<Rightarrow> ha_post" where
  "login_flow_post u =
     \<lparr>hp_url = u @ ''/auth/login_flow'', hp_type = ''application/json'',
      hp_payload = JsonPayload (JObj [(''client_id'', JStr (fst (ha_login_client_ids u))),
        (''handler'', JArr [JStr ''homeassistant'', JNull]),
        (''redirect_uri'', JStr (snd (ha_login_client_ids u)))])\<rparr>"

definition ha_start_login_flow :: "ha_env \<Rightarrow> string \<Rightarrow> ha_run \<Rightarrow> (ha_error + ha_flow) \<times> ha_run" where
  "ha_start_login_flow env u r =
     (let host = ha_host_for_log (he_parse env) u
      in case ha_bootstrap_request env (login_flow_post u) r of
           (None, r1) \<Rightarrow> (Inl HaUnreachable, ha_say host ''login flow start failed (unreachable)'' r1)
         | (Some (status, b), r1) \<Rightarrow>
             if status \<noteq> 200 then (Inl HaUnreachable, ha_say host ''login flow start failed (unreachable)'' r1)
             else case Option.bind (json_parse b) dec_flow of
                    None \<Rightarrow> (Inl HaUnreachable, ha_say host ''login flow start unexpected answer (unreachable)'' r1)
                  | Some f \<Rightarrow>
                      if fl_type f \<noteq> ''form'' \<or> fl_step_id f \<noteq> ''init''
                      then (Inl HaUnreachable, ha_say host ''login flow start unexpected answer (unreachable)'' r1)
                      else (Inr f, r1))"

definition submit_post :: "string \<Rightarrow> string \<Rightarrow> string \<Rightarrow> string \<Rightarrow> string \<Rightarrow> ha_post" where
  "submit_post u client_id flow_id username password =
     \<lparr>hp_url = u @ ''/auth/login_flow/'' @ flow_id, hp_type = ''application/json'',
      hp_payload = JsonPayload (JObj [(''client_id'', JStr client_id), (''password'', JStr password),
        (''username'', JStr username)])\<rparr>"

text \<open>What the answer to the credentials says: the code of the login, or the class with the message for the
  user and the line for the log.\<close>

definition submit_result :: "int \<Rightarrow> string \<Rightarrow> (ha_error \<times> string \<times> string) + string" where
  "submit_result status b =
     (case Option.bind (json_parse b) dec_flow of
        None \<Rightarrow> Inl (HaUnreachable, [], ''credential submit unexpected answer (unreachable)'')
      | Some f \<Rightarrow>
          if status = 403 then
            Inl (HaInvalidCreds, ha_http_error_message b, ''login blocked (invalid_credentials)'')
          else if status \<noteq> 200 then Inl (HaUnreachable, [], ''credential submit unexpected status (unreachable)'')
          else if fl_type f = ''create_entry'' then
            (if fl_result f = [] then Inl (HaUnreachable, [], ''flow finished without an auth code (unreachable)'')
             else Inr (fl_result f))
          else if fl_type f = ''form'' then
            (if flow_error ''base'' f = ''invalid_auth''
             then Inl (HaInvalidCreds, ''invalid_auth'', ''credentials rejected (invalid_credentials)'')
             else Inl (HaInvalidCreds, ''unexpected flow step '' @ go_quote (fl_step_id f),
                 ''unexpected flow step (invalid_credentials)''))
          else Inl (HaUnreachable, [], ''credential submit unexpected answer type (unreachable)''))"

definition ha_flow_submit ::
    "ha_env \<Rightarrow> string \<Rightarrow> string \<Rightarrow> string \<Rightarrow> string \<Rightarrow> string \<Rightarrow> ha_run \<Rightarrow> ((ha_error \<times> string) + string) \<times> ha_run" where
  "ha_flow_submit env u client_id flow_id username password r =
     (let host = ha_host_for_log (he_parse env) u
      in case ha_bootstrap_request env (submit_post u client_id flow_id username password) r of
           (None, r1) \<Rightarrow> (Inl (HaUnreachable, []), ha_say host ''credential submit failed (unreachable)'' r1)
         | (Some (status, b), r1) \<Rightarrow>
             (case submit_result status b of
                Inl (e, msg, what) \<Rightarrow> (Inl (e, msg), ha_say host what r1)
              | Inr code \<Rightarrow> (Inr code, r1)))"

definition exchange_post :: "string \<Rightarrow> string \<Rightarrow> string \<Rightarrow> ha_post" where
  "exchange_post u client_id code =
     \<lparr>hp_url = u @ ''/auth/token'', hp_type = ''application/x-www-form-urlencoded'',
      hp_payload = FormPayload (encode_query [(''grant_type'', ''authorization_code''), (''client_id'', client_id),
        (''code'', code)])\<rparr>"

definition ha_exchange_token :: "ha_env \<Rightarrow> string \<Rightarrow> string \<Rightarrow> string \<Rightarrow> ha_run \<Rightarrow> (ha_error + string) \<times> ha_run" where
  "ha_exchange_token env u client_id code r =
     (let host = ha_host_for_log (he_parse env) u
      in case ha_bootstrap_request env (exchange_post u client_id code) r of
           (None, r1) \<Rightarrow> (Inl HaUnreachable, ha_say host ''token exchange failed (unreachable)'' r1)
         | (Some (status, b), r1) \<Rightarrow>
             if status \<noteq> 200 then (Inl HaUnreachable, ha_say host ''token exchange failed (unreachable)'' r1)
             else case Option.bind (json_parse b) (field ''access_token'' [] dec_str) of
                    None \<Rightarrow> (Inl HaUnreachable, ha_say host ''token exchange unexpected answer (unreachable)'' r1)
                  | Some t \<Rightarrow>
                      if t = [] then (Inl HaUnreachable, ha_say host ''token exchange unexpected answer (unreachable)'' r1)
                      else (Inr t, r1))"

subsection \<open>Minting\<close>

record ha_error_payload =
  ep_code :: string
  ep_message :: string

definition dec_error_payload :: "json \<Rightarrow> ha_error_payload option" where
  "dec_error_payload j = do {
     c \<leftarrow> field ''code'' [] dec_str j; m \<leftarrow> field ''message'' [] dec_str j;
     Some \<lparr>ep_code = c, ep_message = m\<rparr> }"

definition no_error_payload :: ha_error_payload where
  "no_error_payload = \<lparr>ep_code = [], ep_message = []\<rparr>"

record token_entry =
  tk_client_name :: string
  tk_type :: string

definition dec_token_entry :: "json \<Rightarrow> token_entry option" where
  "dec_token_entry j = do {
     c \<leftarrow> field ''client_name'' [] dec_str j; t \<leftarrow> field ''type'' [] dec_str j;
     Some \<lparr>tk_client_name = c, tk_type = t\<rparr> }"

record 'a ws_result =
  wr_id :: "int option"
  wr_success :: bool
  wr_result :: 'a
  wr_message :: string
  wr_error :: ha_error_payload

definition dec_token_list :: "json \<Rightarrow> token_entry list ws_result option" where
  "dec_token_list j = do {
     i \<leftarrow> opt_field ''id'' dec_int j;
     t \<leftarrow> field ''type'' [] dec_str j;
     s \<leftarrow> field ''success'' False dec_bool j;
     es \<leftarrow> field ''result'' [] (dec_list dec_token_entry) j;
     e \<leftarrow> field ''error'' no_error_payload dec_error_payload j;
     Some \<lparr>wr_id = i, wr_success = s, wr_result = es, wr_message = [], wr_error = e\<rparr> }"

definition dec_mint :: "json \<Rightarrow> string ws_result option" where
  "dec_mint j = do {
     i \<leftarrow> opt_field ''id'' dec_int j;
     t \<leftarrow> field ''type'' [] dec_str j;
     s \<leftarrow> field ''success'' False dec_bool j;
     c \<leftarrow> field ''result'' [] dec_str j;
     m \<leftarrow> field ''message'' [] dec_str j;
     e \<leftarrow> field ''error'' no_error_payload dec_error_payload j;
     Some \<lparr>wr_id = i, wr_success = s, wr_result = c, wr_message = m, wr_error = e\<rparr> }"

text \<open>The loop that waits for the answer to a message: frames of other requests are skipped.\<close>

datatype 'a awaited = ReadFailed | Malformed | Awaited 'a

fun await_result ::
    "(json \<Rightarrow> 'a ws_result option) \<Rightarrow> int \<Rightarrow> ws_frame list \<Rightarrow> 'a ws_result awaited \<times> ws_frame list" where
  "await_result d n [] = (ReadFailed, [])"
| "await_result d n (OtherFrame # fs) = (ReadFailed, fs)"
| "await_result d n (TextFrame s # fs) =
     (case Option.bind (json_parse s) d of
        None \<Rightarrow> (Malformed, fs)
      | Some x \<Rightarrow> if wr_id x \<noteq> Some n then await_result d n fs else (Awaited x, fs))"

definition ws_await :: "(json \<Rightarrow> 'a ws_result option) \<Rightarrow> int \<Rightarrow> ha_run \<Rightarrow> 'a ws_result awaited \<times> ha_run" where
  "ws_await d n r = (case await_result d n (hr_in r) of (a, fs) \<Rightarrow> (a, r\<lparr>hr_in := fs\<rparr>))"

definition list_request :: json where
  "list_request = JObj [(''id'', jint ha_list_msg_id), (''type'', JStr ''auth/refresh_tokens'')]"

definition ha_ws_stable_name_taken :: "ha_env \<Rightarrow> ha_run \<Rightarrow> (string + bool) \<times> ha_run" where
  "ha_ws_stable_name_taken env r =
     (case ws_write env list_request r of
        (False, r1) \<Rightarrow> (Inl ''write failed'', r1)
      | (True, r1) \<Rightarrow>
          (case ws_await dec_token_list ha_list_msg_id r1 of
             (ReadFailed, r2) \<Rightarrow> (Inl ''list response read failed'', r2)
           | (Malformed, r2) \<Rightarrow> (Inl ''malformed list response'', r2)
           | (Awaited x, r2) \<Rightarrow>
               if \<not> wr_success x then (Inl (''list failed: '' @ ep_message (wr_error x)), r2)
               else (Inr (list_ex (\<lambda>e. tk_client_name e = ha_lla_name \<and> tk_type e = ha_token_type_lla) (wr_result x)), r2)))"

definition mint_request :: "int \<Rightarrow> string \<Rightarrow> json" where
  "mint_request n client_name =
     JObj [(''id'', jint n), (''type'', JStr ''auth/long_lived_access_token''), (''client_name'', JStr client_name),
       (''lifespan'', jint ha_lla_days)]"

datatype mint_end = Minted string | MintRefused string | MintFailed

definition mint_attempt :: "ha_env \<Rightarrow> string \<Rightarrow> int \<Rightarrow> string \<Rightarrow> ha_run \<Rightarrow> mint_end \<times> ha_run" where
  "mint_attempt env host n client_name r =
     (case ws_write env (mint_request n client_name) r of
        (False, r1) \<Rightarrow> (MintFailed, ha_say host ''mint write failed (unreachable)'' r1)
      | (True, r1) \<Rightarrow>
          (case ws_await dec_mint n r1 of
             (ReadFailed, r2) \<Rightarrow> (MintFailed, ha_say host ''mint response failed (unreachable)'' r2)
           | (Malformed, r2) \<Rightarrow> (MintFailed, ha_say host ''malformed mint response (unreachable)'' r2)
           | (Awaited x, r2) \<Rightarrow>
               if \<not> wr_success x then
                 (MintRefused (if ep_message (wr_error x) = [] then wr_message x else ep_message (wr_error x)), r2)
               else if wr_result x = [] then (MintFailed, ha_say host ''LLA mint returned no token (unreachable)'' r2)
               else (Minted (wr_result x),
                 r2\<lparr>hr_log := hr_log r2 @ [''ha login: long-lived access token minted by '' @ host]\<rparr>)))"

definition ha_mint_lla :: "ha_env \<Rightarrow> string \<Rightarrow> ha_run \<Rightarrow> (ha_error + string) \<times> ha_run" where
  "ha_mint_lla env host r =
     (let (check, r1) = ha_ws_stable_name_taken env r;
          (name, r2) =
            (case check of
               Inl err \<Rightarrow> (ha_lla_name,
                 ha_say host (''LLA name check failed, proceeding with the stable name ('' @ err @ '')'') r1)
             | Inr True \<Rightarrow>
                 (case unique_name env r1 of
                    (n, r') \<Rightarrow> (n, ha_say host ''stable LLA name exists, minting under a unique name'' r'))
             | Inr False \<Rightarrow> (ha_lla_name, r1))
      in case mint_attempt env host ha_mint_msg_id name r2 of
           (Minted t, r3) \<Rightarrow> (Inr t, r3)
         | (MintFailed, r3) \<Rightarrow> (Inl HaUnreachable, r3)
         | (MintRefused msg, r3) \<Rightarrow>
             (case unique_name env (ha_say host
                     (''LLA mint failed (unreachable): '' @ msg @ '', retrying with a unique name'') r3) of
                (name', r4) \<Rightarrow>
                  (case mint_attempt env host (ha_mint_msg_id + 1) name' r4 of
                     (Minted t, r5) \<Rightarrow> (Inr t, r5)
                   | (MintFailed, r5) \<Rightarrow> (Inl HaUnreachable, r5)
                   | (MintRefused msg', r5) \<Rightarrow>
                       (Inl HaUnreachable, ha_say host (''LLA mint failed twice (unreachable): '' @ msg') r5))))"

subsection \<open>A login\<close>

definition ha_auth_with_credentials ::
    "ha_env \<Rightarrow> string \<Rightarrow> string \<Rightarrow> string \<Rightarrow> ha_run \<Rightarrow> ((ha_error \<times> string) + string) \<times> ha_run" where
  "ha_auth_with_credentials env u username password r =
     (let host = ha_host_for_log (he_parse env) u;
          client_id = fst (ha_login_client_ids u)
      in case ha_start_login_flow env u r of
           (Inl e, r1) \<Rightarrow> (Inl (e, []), r1)
         | (Inr flow, r1) \<Rightarrow>
             (case ha_flow_submit env u client_id (fl_flow_id flow) username password r1 of
                (Inl (e, msg), r2) \<Rightarrow> (Inl (e, msg), r2)
              | (Inr code, r2) \<Rightarrow>
                  (case ha_exchange_token env u client_id code r2 of
                     (Inl e, r3) \<Rightarrow> (Inl (e, []), r3)
                   | (Inr short_token, r3) \<Rightarrow>
                       (case ha_ws_dial_and_auth env u short_token r3 of
                          (Some e, r4) \<Rightarrow> (Inl (e, []), r4)
                        | (None, r4) \<Rightarrow>
                            (case ws_read r4 of
                               (None, r5) \<Rightarrow>
                                 (Inl (HaUnreachable, []), ha_close (ha_say host ''auth response failed (unreachable)'' r5))
                             | (Some d, r5) \<Rightarrow>
                                 if dec_type d \<noteq> Some ''auth_ok'' then
                                   (Inl (HaUnreachable, []), ha_close (ha_say host ''short-lived token rejected (unreachable)'' r5))
                                 else case ha_mint_lla env host r5 of
                                        (Inl e, r6) \<Rightarrow> (Inl (e, []), ha_close r6)
                                      | (Inr t, r6) \<Rightarrow> (Inr t, ha_close r6))))))"

record ha_login_request =
  lq_url :: string
  lq_token :: string
  lq_username :: string
  lq_password :: string

definition dec_ha_login :: "json \<Rightarrow> ha_login_request option" where
  "dec_ha_login j = do {
     u \<leftarrow> field ''url'' [] dec_str j;
     t \<leftarrow> field ''token'' [] dec_str j;
     n \<leftarrow> field ''username'' [] dec_str j;
     p \<leftarrow> field ''password'' [] dec_str j;
     Some \<lparr>lq_url = u, lq_token = t, lq_username = n, lq_password = p\<rparr> }"

definition ha_login_error :: "ha_error \<Rightarrow> string \<Rightarrow> answer" where
  "ha_login_error e msg =
     json_answer (ha_status_for_error e)
       (JObj ([(''ok'', JBool False), (''error'', JStr (ha_class e))] @ (if msg = [] then [] else [(''message'', JStr msg)])))"

definition ha_login_success :: "string \<Rightarrow> answer" where
  "ha_login_success token = json_answer 200 (JObj [(''ok'', JBool True), (''token'', JStr token)])"

definition ha_login_answer :: "(ha_error \<times> string) + string \<Rightarrow> answer" where
  "ha_login_answer res = (case res of Inl (e, msg) \<Rightarrow> ha_login_error e msg | Inr t \<Rightarrow> ha_login_success t)"

definition ha_login :: "ha_env \<Rightarrow> ha_login_request \<Rightarrow> ((ha_error \<times> string) + string) \<times> ha_run" where
  "ha_login env q =
     (let canonical = normalize_ha_url (he_parse env) (lq_url q)
      in if canonical = [] then (Inl (HaBadRequest, []), new_run)
         else if lq_token q \<noteq> [] then
           (case ha_auth_with_token env canonical (lq_token q) new_run of
              (Inl e, r) \<Rightarrow> (Inl (e, []), r) | (Inr t, r) \<Rightarrow> (Inr t, r))
         else if lq_username q \<noteq> [] \<and> lq_password q \<noteq> [] then
           ha_auth_with_credentials env canonical (lq_username q) (lq_password q) new_run
         else (Inl (HaBadRequest, []), new_run))"

definition handle_ha_login :: "ha_env \<Rightarrow> http_request \<Rightarrow> answer \<times> ha_run" where
  "handle_ha_login env q =
     (case json_body dec_ha_login (rq_body q) of
        None \<Rightarrow> (ha_login_error HaBadRequest [], new_run)
      | Some lq \<Rightarrow> (case ha_login env lq of (res, r) \<Rightarrow> (ha_login_answer res, r)))"

subsection \<open>The probe and the proxy\<close>

record ha_probe =
  pb_method :: string
  pb_url :: string
  pb_auth :: "string option"
  pb_body :: "string option"

definition bearer :: "string \<Rightarrow> string option" where
  "bearer token = (if token \<noteq> [] then Some (''Bearer '' @ token) else None)"

definition dec_ha_test :: "json \<Rightarrow> (string \<times> string) option" where
  "dec_ha_test j = do { u \<leftarrow> field ''url'' [] dec_str j; t \<leftarrow> field ''token'' [] dec_str j; Some (u, t) }"

definition ha_test_answer :: "bool \<Rightarrow> bool \<Rightarrow> string \<Rightarrow> answer" where
  "ha_test_answer reachable authenticated default_url =
     json_answer 200 (JObj [(''reachable'', JBool reachable), (''authenticated'', JBool authenticated),
       (''defaults'', JObj [(''url'', JStr default_url)])])"

text \<open>The answer, the request it made of Home Assistant and its line in the log.\<close>

definition handle_ha_test ::
    "url_parser \<Rightarrow> ha_target \<Rightarrow> (ha_probe \<Rightarrow> int option) \<Rightarrow> http_request \<Rightarrow> answer \<times> ha_probe option \<times> string list" where
  "handle_ha_test parse cfg probe q =
     (case json_body dec_ha_test (rq_body q) of
        None \<Rightarrow> (ha_login_error HaBadRequest [], None, [])
      | Some (raw, token) \<Rightarrow>
          if trim_space raw = [] then (ha_test_answer False False (ht_url cfg), None, [])
          else let canonical = normalize_ha_url parse raw
               in if canonical = [] then (ha_login_error HaBadRequest [], None, [])
                  else let p = \<lparr>pb_method = ''GET'', pb_url = canonical @ ''/api/'', pb_auth = bearer token, pb_body = None\<rparr>
                       in if parse (pb_url p) = None then (ha_login_error HaBadRequest [], None, [])
                          else case probe p of
                                 None \<Rightarrow> (ha_test_answer False False (ht_url cfg), Some p,
                                    [''ha test: '' @ ha_host_for_log parse canonical @ '': probe failed (unreachable)''])
                               | Some status \<Rightarrow> (ha_test_answer True (status = 200) (ht_url cfg), Some p, []))"

definition ha_api_prefix :: string where "ha_api_prefix = ''/ha-api/''"
definition ha_proxy_limit :: nat where "ha_proxy_limit = 4194304"

definition ha_proxy_request :: "ha_target \<Rightarrow> http_request \<Rightarrow> ha_probe" where
  "ha_proxy_request cfg q =
     \<lparr>pb_method = rq_method q,
      pb_url = trim_suffix (ht_url cfg) ''/'' @ ''/api/'' @ trim_prefix (rq_path q) ha_api_prefix @
        (if rq_raw_query q \<noteq> [] then ''?'' @ rq_raw_query q else []),
      pb_auth = bearer (ht_token cfg),
      pb_body = (if rq_method q \<noteq> ''GET'' \<and> rq_method q \<noteq> ''HEAD'' then rq_body q else None)\<rparr>"

text \<open>Home Assistant answers with a status, a content type and what arrives of its body.\<close>

definition handle_ha_api_proxy ::
    "url_parser \<Rightarrow> ha_target \<Rightarrow> (ha_probe \<Rightarrow> (int \<times> string \<times> string) option) \<Rightarrow> http_request \<Rightarrow>
       answer \<times> ha_probe option" where
  "handle_ha_api_proxy parse cfg send q =
     (if ht_url cfg = [] then (json_error 503 ''home assistant proxy not configured'', None)
      else let p = ha_proxy_request cfg q
           in if parse (pb_url p) = None then (status_only 500, None)
              else case send p of
                     None \<Rightarrow> (json_error 502 ''home assistant unreachable'', Some p)
                   | Some (status, ctype, content) \<Rightarrow>
                       (\<lparr>an_status = status, an_type = ctype, an_no_store = False,
                         an_body = TextBody (take ha_proxy_limit content)\<rparr>, Some p))"

subsection \<open>Credentials stay out of the log\<close>

text \<open>Two runs that differ at most in what their posts and messages carry.\<close>

definition same_run :: "ha_run \<Rightarrow> ha_run \<Rightarrow> bool" where
  "same_run r r' \<longleftrightarrow>
     length (hr_posts r) = length (hr_posts r') \<and> hr_dialed r = hr_dialed r' \<and> hr_open r = hr_open r' \<and>
     hr_in r = hr_in r' \<and> hr_writes r = hr_writes r' \<and> hr_names r = hr_names r' \<and> hr_log r = hr_log r'"

definition alike :: "'a \<times> ha_run \<Rightarrow> 'a \<times> ha_run \<Rightarrow> bool" where
  "alike x y \<longleftrightarrow> fst x = fst y \<and> same_run (snd x) (snd y)"

named_theorems same_runs \<open>steps that do not show what they carry\<close>

lemma same_run_refl [simp]: "same_run r r" by (simp add: same_run_def)

lemma alike_pair [same_runs]: "same_run r r' \<Longrightarrow> alike (x, r) (x, r')" by (simp add: alike_def)

lemma same_run_say [same_runs]: "same_run r r' \<Longrightarrow> same_run (ha_say h w r) (ha_say h w r')"
  by (simp add: same_run_def ha_say_def)

lemma same_run_log [same_runs]:
  "same_run r r' \<Longrightarrow> same_run (r\<lparr>hr_log := hr_log r @ l\<rparr>) (r'\<lparr>hr_log := hr_log r' @ l\<rparr>)"
  by (simp add: same_run_def)

lemma same_run_close [same_runs]: "same_run r r' \<Longrightarrow> same_run (ha_close r) (ha_close r')"
  by (simp add: same_run_def ha_close_def)

lemma same_run_dial:
  "same_run r r' \<Longrightarrow> same_run (r\<lparr>hr_dialed := hr_dialed r @ d\<rparr>) (r'\<lparr>hr_dialed := hr_dialed r' @ d\<rparr>)"
  by (simp add: same_run_def)

lemma same_run_open: "same_run r r' \<Longrightarrow> same_run (r\<lparr>hr_open := b, hr_in := f\<rparr>) (r'\<lparr>hr_open := b, hr_in := f\<rparr>)"
  by (simp add: same_run_def)

lemma alike_read: "same_run r r' \<Longrightarrow> alike (ws_read r) (ws_read r')"
  by (auto simp: alike_def same_run_def ws_read_def split: list.split ws_frame.split)

lemma alike_write: "same_run r r' \<Longrightarrow> alike (ws_write env m r) (ws_write env m' r')"
  by (auto simp: alike_def same_run_def ws_write_def)

lemma alike_unique: "same_run r r' \<Longrightarrow> alike (unique_name env r) (unique_name env r')"
  by (auto simp: alike_def same_run_def unique_name_def)

lemma alike_await: "same_run r r' \<Longrightarrow> alike (ws_await d n r) (ws_await d n r')"
  by (auto simp: alike_def same_run_def ws_await_def split: prod.split)

lemma alike_post:
  "same_run r r' \<Longrightarrow> hp_url p = hp_url p' \<Longrightarrow> alike (ha_bootstrap_request env p r) (ha_bootstrap_request env p' r')"
  by (auto simp: alike_def same_run_def ha_bootstrap_request_def)

lemma alikeE:
  assumes "alike m m'"
  obtains x s s' where "m = (x, s)" "m' = (x, s')" "same_run s s'"
  using assms by (cases m; cases m') (auto simp: alike_def)

text \<open>A step that goes on with what an earlier one gave.\<close>

lemma alike_bind:
  assumes "alike m m'" "\<And>x s s'. same_run s s' \<Longrightarrow> alike (f x s) (f' x s')"
  shows "alike (case m of (x, s) \<Rightarrow> f x s) (case m' of (x, s) \<Rightarrow> f' x s)"
  using assms by (cases m; cases m') (auto simp: alike_def)

lemma alike_dial:
  assumes "same_run r r'"
  shows "alike (ha_ws_dial_and_auth env u token r) (ha_ws_dial_and_auth env u token' r')"
proof (cases "he_dial env")
  case None
  then show ?thesis using assms
    by (simp add: ha_ws_dial_and_auth_def Let_def alike_pair same_run_say same_run_dial)
next
  case (Some frames)
  obtain x s s' where rd:
    "ws_read (r\<lparr>hr_dialed := hr_dialed r @ [ha_web_socket_url u], hr_open := True, hr_in := frames\<rparr>) = (x, s)"
    "ws_read (r'\<lparr>hr_dialed := hr_dialed r' @ [ha_web_socket_url u], hr_open := True, hr_in := frames\<rparr>) = (x, s')"
    "same_run s s'"
    using alikeE [OF alike_read [OF same_run_open [OF same_run_dial [OF assms]]]] by metis
  obtain b t t' where wr: "ws_write env (auth_request token) s = (b, t)"
    "ws_write env (auth_request token') s' = (b, t')" "same_run t t'"
    using alikeE [OF alike_write [OF rd(3)]] by metis
  show ?thesis
    using Some rd wr
    by (cases x; cases b) (auto simp: ha_ws_dial_and_auth_def Let_def intro!: same_runs)
qed

lemma alike_submit:
  assumes "same_run r r'"
  shows "alike (ha_flow_submit env u c i n p r) (ha_flow_submit env u c i n' p' r')"
proof -
  obtain x s s' where "ha_bootstrap_request env (submit_post u c i n p) r = (x, s)"
    "ha_bootstrap_request env (submit_post u c i n' p') r' = (x, s')" "same_run s s'"
    using alikeE [OF alike_post [OF assms]] by (metis submit_post_def ha_post.select_convs(1))
  then show ?thesis
    by (auto simp: ha_flow_submit_def Let_def split: option.split sum.split prod.split intro!: same_runs)
qed

lemma alike_start: "same_run r r' \<Longrightarrow> alike (ha_start_login_flow env u r) (ha_start_login_flow env u r')"
  using alikeE [OF alike_post [of r r' "login_flow_post u" "login_flow_post u" env]]
  by (fastforce simp: ha_start_login_flow_def Let_def split: option.split prod.split intro!: same_runs)

lemma alike_exchange: "same_run r r' \<Longrightarrow> alike (ha_exchange_token env u c i r) (ha_exchange_token env u c i r')"
  using alikeE [OF alike_post [of r r' "exchange_post u c i" "exchange_post u c i" env]]
  by (fastforce simp: ha_exchange_token_def Let_def split: option.split prod.split intro!: same_runs)

lemma alike_taken: 
  assumes "same_run r r'"
  shows "alike (ha_ws_stable_name_taken env r) (ha_ws_stable_name_taken env r')"
proof -
  obtain b s s' where wr: "ws_write env list_request r = (b, s)" "ws_write env list_request r' = (b, s')"
    "same_run s s'"
    using alikeE [OF alike_write [OF assms]] by metis
  obtain x t t' where "ws_await dec_token_list ha_list_msg_id s = (x, t)"
    "ws_await dec_token_list ha_list_msg_id s' = (x, t')" "same_run t t'"
    using alikeE [OF alike_await [OF wr(3)]] by metis
  with wr show ?thesis
    by (cases b; cases x) (auto simp: ha_ws_stable_name_taken_def intro!: same_runs)
qed

lemma alike_attempt:
  assumes "same_run r r'"
  shows "alike (mint_attempt env h n c r) (mint_attempt env h n c r')"
proof -
  obtain b s s' where wr: "ws_write env (mint_request n c) r = (b, s)" "ws_write env (mint_request n c) r' = (b, s')"
    "same_run s s'"
    using alikeE [OF alike_write [OF assms]] by metis
  obtain x t t' where "ws_await dec_mint n s = (x, t)" "ws_await dec_mint n s' = (x, t')" "same_run t t'"
    using alikeE [OF alike_await [OF wr(3)]] by metis
  with wr show ?thesis
    by (cases b; cases x) (auto simp: mint_attempt_def intro!: same_runs)
qed

text \<open>The name for the first attempt, and what follows a refused one.\<close>

definition first_name :: "ha_env \<Rightarrow> string \<Rightarrow> string + bool \<Rightarrow> ha_run \<Rightarrow> string \<times> ha_run" where
  "first_name env host check r1 =
     (case check of
        Inl err \<Rightarrow> (ha_lla_name,
          ha_say host (''LLA name check failed, proceeding with the stable name ('' @ err @ '')'') r1)
      | Inr True \<Rightarrow>
          (case unique_name env r1 of
             (n, r') \<Rightarrow> (n, ha_say host ''stable LLA name exists, minting under a unique name'' r'))
      | Inr False \<Rightarrow> (ha_lla_name, r1))"

definition second_mint :: "ha_env \<Rightarrow> string \<Rightarrow> string \<Rightarrow> ha_run \<Rightarrow> (ha_error + string) \<times> ha_run" where
  "second_mint env host msg r3 =
     (case unique_name env (ha_say host (''LLA mint failed (unreachable): '' @ msg @ '', retrying with a unique name'') r3) of
        (name', r4) \<Rightarrow>
          (case mint_attempt env host (ha_mint_msg_id + 1) name' r4 of
             (Minted t, r5) \<Rightarrow> (Inr t, r5)
           | (MintFailed, r5) \<Rightarrow> (Inl HaUnreachable, r5)
           | (MintRefused msg', r5) \<Rightarrow>
               (Inl HaUnreachable, ha_say host (''LLA mint failed twice (unreachable): '' @ msg') r5)))"

lemma ha_mint_lla_parts:
  "ha_mint_lla env host r =
     (case ha_ws_stable_name_taken env r of (check, r1) \<Rightarrow>
        (case first_name env host check r1 of (name, r2) \<Rightarrow>
           (case mint_attempt env host ha_mint_msg_id name r2 of (x, r3) \<Rightarrow>
              (case x of Minted t \<Rightarrow> (Inr t, r3) | MintFailed \<Rightarrow> (Inl HaUnreachable, r3)
               | MintRefused msg \<Rightarrow> second_mint env host msg r3))))"
  by (auto simp: ha_mint_lla_def first_name_def second_mint_def Let_def split: prod.split mint_end.split)

lemma alike_first_name:
  assumes "same_run r r'"
  shows "alike (first_name env h c r) (first_name env h c r')"
proof -
  obtain x s s' where "unique_name env r = (x, s)" "unique_name env r' = (x, s')" "same_run s s'"
    using alikeE [OF alike_unique [OF assms]] by metis
  with assms show ?thesis
    by (cases c) (auto simp: first_name_def split: bool.split intro!: same_runs)
qed

lemma alike_second_mint:
  assumes "same_run r r'"
  shows "alike (second_mint env h m r) (second_mint env h m r')"
  unfolding second_mint_def
proof (rule alike_bind)
  show "alike (unique_name env (ha_say h (''LLA mint failed (unreachable): '' @ m @ '', retrying with a unique name'') r))
      (unique_name env (ha_say h (''LLA mint failed (unreachable): '' @ m @ '', retrying with a unique name'') r'))"
    using assms by (intro alike_unique same_run_say)
next
  fix x s s' assume "same_run s s'"
  then obtain y t t' where "mint_attempt env h (ha_mint_msg_id + 1) x s = (y, t)"
    "mint_attempt env h (ha_mint_msg_id + 1) x s' = (y, t')" "same_run t t'"
    using alikeE [OF alike_attempt] by metis
  then show "alike (case mint_attempt env h (ha_mint_msg_id + 1) x s of
             (Minted t, r5) \<Rightarrow> (Inr t, r5) | (MintFailed, r5) \<Rightarrow> (Inl HaUnreachable, r5)
           | (MintRefused msg', r5) \<Rightarrow>
               (Inl HaUnreachable, ha_say h (''LLA mint failed twice (unreachable): '' @ msg') r5))
      (case mint_attempt env h (ha_mint_msg_id + 1) x s' of
             (Minted t, r5) \<Rightarrow> (Inr t, r5) | (MintFailed, r5) \<Rightarrow> (Inl HaUnreachable, r5)
           | (MintRefused msg', r5) \<Rightarrow>
               (Inl HaUnreachable, ha_say h (''LLA mint failed twice (unreachable): '' @ msg') r5))"
    by (cases y) (auto intro!: same_runs)
qed

lemma alike_mint: "same_run r r' \<Longrightarrow> alike (ha_mint_lla env h r) (ha_mint_lla env h r')"
  unfolding ha_mint_lla_parts
  by (intro alike_bind alike_taken alike_first_name alike_attempt)
    (auto split: mint_end.split intro: alike_pair alike_second_mint)

lemma alike_credentials:
  assumes "same_run r r'"
  shows "alike (ha_auth_with_credentials env u n p r) (ha_auth_with_credentials env u n' p' r')"
proof -
  let ?c = "fst (ha_login_client_ids u)" and ?h = "ha_host_for_log (he_parse env) u"
  obtain x1 s1 t1 where p1: "ha_start_login_flow env u r = (x1, s1)" "ha_start_login_flow env u r' = (x1, t1)" "same_run s1 t1"
    using alikeE [OF alike_start [OF assms]] by metis
  obtain x2 s2 t2 where p2: "ha_flow_submit env u ?c (fl_flow_id (projr x1)) n p s1 = (x2, s2)"
    "ha_flow_submit env u ?c (fl_flow_id (projr x1)) n' p' t1 = (x2, t2)" "same_run s2 t2"
    using alikeE [OF alike_submit [OF p1(3)]] by metis
  obtain x3 s3 t3 where p3: "ha_exchange_token env u ?c (projr x2) s2 = (x3, s3)"
    "ha_exchange_token env u ?c (projr x2) t2 = (x3, t3)" "same_run s3 t3"
    using alikeE [OF alike_exchange [OF p2(3)]] by metis
  obtain x4 s4 t4 where p4: "ha_ws_dial_and_auth env u (projr x3) s3 = (x4, s4)"
    "ha_ws_dial_and_auth env u (projr x3) t3 = (x4, t4)" "same_run s4 t4"
    using alikeE [OF alike_dial [OF p3(3)]] by metis
  obtain x5 s5 t5 where p5: "ws_read s4 = (x5, s5)" "ws_read t4 = (x5, t5)" "same_run s5 t5"
    using alikeE [OF alike_read [OF p4(3)]] by metis
  obtain x6 s6 t6 where p6: "ha_mint_lla env ?h s5 = (x6, s6)" "ha_mint_lla env ?h t5 = (x6, t6)" "same_run s6 t6"
    using alikeE [OF alike_mint [OF p5(3)]] by metis
  show ?thesis
  proof (cases x1)
    case (Inr f)
    note f = this
    show ?thesis
    proof (cases x2)
      case (Inr c)
      note c = this
      show ?thesis
      proof (cases x3)
        case (Inr tk)
        show ?thesis
          using f c Inr p1 p2 p3 p4 p5 p6
          by (cases x4; cases x5; cases x6)
            (auto simp: ha_auth_with_credentials_def Let_def intro!: same_runs)
      qed (use f c p1 p2 p3 in \<open>auto simp: ha_auth_with_credentials_def Let_def intro!: same_runs\<close>)
    qed (use f p1 p2 in \<open>auto simp: ha_auth_with_credentials_def Let_def split: prod.split intro!: same_runs\<close>)
  qed (use p1 in \<open>auto simp: ha_auth_with_credentials_def Let_def intro!: same_runs\<close>)
qed

lemma same_token_runs:
  assumes "same_run r r'"
  shows "same_run (snd (ha_auth_with_token env u t r)) (snd (ha_auth_with_token env u t' r'))"
proof -
  obtain x s s' where d: "ha_ws_dial_and_auth env u t r = (x, s)" "ha_ws_dial_and_auth env u t' r' = (x, s')" "same_run s s'"
    using alikeE [OF alike_dial [OF assms]] by metis
  obtain y z z' where "ws_read s = (y, z)" "ws_read s' = (y, z')" "same_run z z'"
    using alikeE [OF alike_read [OF d(3)]] by metis
  with d show ?thesis
    by (cases x; cases y) (auto simp: ha_auth_with_token_def Let_def split: option.split intro!: same_runs)
qed

subsection \<open>The ids of the messages\<close>

definition msg_id :: "json \<Rightarrow> int option" where
  "msg_id m =
     (case m of
        JObj kvs \<Rightarrow> (case map_of kvs ''id'' of Some (JNum q _) \<Rightarrow> Some \<lfloor>q\<rfloor> | _ \<Rightarrow> None)
      | _ \<Rightarrow> None)"

definition msg_ids :: "json list \<Rightarrow> int list" where
  "msg_ids ms = List.map_filter msg_id ms"

lemma msg_id_auth [simp]: "msg_id (auth_request t) = None"
  by (simp add: msg_id_def auth_request_def)

lemma msg_id_list [simp]: "msg_id list_request = Some ha_list_msg_id"
  by (simp add: msg_id_def list_request_def jint_def)

lemma msg_id_mint [simp]: "msg_id (mint_request n c) = Some n"
  by (simp add: msg_id_def mint_request_def jint_def)

lemma msg_ids_append: "msg_ids (ms @ ns) = msg_ids ms @ msg_ids ns"
  by (simp add: msg_ids_def List.map_filter_def)

lemma msg_ids_Nil [simp]: "msg_ids [] = []"
  by (simp add: msg_ids_def List.map_filter_def)

text \<open>What a step adds to the messages carries ids of a given sequence, and the frames only get fewer.\<close>

definition speaks_ids :: "int list \<Rightarrow> ha_run \<Rightarrow> ha_run \<Rightarrow> bool" where
  "speaks_ids ids r r' \<longleftrightarrow>
     (\<exists>ms. hr_sent r' = hr_sent r @ ms \<and> subseq (msg_ids ms) ids) \<and> set (hr_in r') \<subseteq> set (hr_in r)"

lemma says_refl [simp]: "speaks_ids ids r r"
  by (simp add: speaks_ids_def msg_ids_def List.map_filter_def)

lemma says_trans:
  assumes "speaks_ids a r s" "speaks_ids b s t"
  shows "speaks_ids (a @ b) r t"
proof -
  obtain ms ns where "hr_sent s = hr_sent r @ ms" "subseq (msg_ids ms) a"
    "hr_sent t = hr_sent s @ ns" "subseq (msg_ids ns) b"
    using assms by (auto simp: speaks_ids_def)
  then have "hr_sent t = hr_sent r @ (ms @ ns) \<and> subseq (msg_ids (ms @ ns)) (a @ b)"
    by (simp add: msg_ids_append list_emb_append_mono)
  then show ?thesis using assms unfolding speaks_ids_def by blast
qed

lemma speaks_more: "speaks_ids a r s \<Longrightarrow> subseq a b \<Longrightarrow> speaks_ids b r s"
  unfolding speaks_ids_def using subseq_order.order_trans by blast

lemma speaks_say [simp]: "speaks_ids ids r (ha_say h w s) = speaks_ids ids r s"
  by (simp add: speaks_ids_def ha_say_def)

lemma speaks_log [simp]: "speaks_ids ids r (s\<lparr>hr_log := l\<rparr>) = speaks_ids ids r s"
  by (simp add: speaks_ids_def)

lemma speaks_close [simp]: "speaks_ids ids r (ha_close s) = speaks_ids ids r s"
  by (simp add: speaks_ids_def ha_close_def)

lemma speaks_read: "ws_read r = (x, s) \<Longrightarrow> speaks_ids [] r s"
  by (auto simp: ws_read_def speaks_ids_def msg_ids_def List.map_filter_def split: list.splits ws_frame.splits)

lemma speaks_write: "ws_write env m r = (b, s) \<Longrightarrow> speaks_ids (msg_ids [m]) r s"
  by (auto simp: ws_write_def speaks_ids_def msg_ids_def List.map_filter_def split: if_splits)

lemma speaks_unique: "unique_name env r = (n, s) \<Longrightarrow> speaks_ids [] r s"
  by (auto simp: unique_name_def speaks_ids_def msg_ids_def List.map_filter_def)

lemma await_fewer: "await_result d n fs = (a, gs) \<Longrightarrow> set gs \<subseteq> set fs"
  by (induction d n fs rule: await_result.induct) (auto split: option.splits if_splits)

lemma speaks_await: "ws_await d n r = (a, s) \<Longrightarrow> speaks_ids [] r s"
  by (auto simp: ws_await_def speaks_ids_def msg_ids_def List.map_filter_def dest!: await_fewer split: prod.splits)

lemma says_post: "ha_bootstrap_request env p r = (x, s) \<Longrightarrow> speaks_ids [] r s"
  by (auto simp: ha_bootstrap_request_def speaks_ids_def msg_ids_def List.map_filter_def split: if_splits)

lemma msg_ids_one [simp]: "msg_ids [list_request] = [ha_list_msg_id]" "msg_ids [mint_request n c] = [n]"
  "msg_ids [auth_request t] = []"
  by (simp_all add: msg_ids_def List.map_filter_def)

lemma speaks_start: "ha_start_login_flow env u r = (x, s) \<Longrightarrow> speaks_ids [] r s"
  by (auto simp: ha_start_login_flow_def Let_def dest!: says_post split: prod.splits option.splits if_splits)

lemma speaks_submit: "ha_flow_submit env u c i n p r = (x, s) \<Longrightarrow> speaks_ids [] r s"
  by (auto simp: ha_flow_submit_def Let_def dest!: says_post split: prod.splits option.splits sum.splits)

lemma speaks_exchange: "ha_exchange_token env u c i r = (x, s) \<Longrightarrow> speaks_ids [] r s"
  by (auto simp: ha_exchange_token_def Let_def dest!: says_post split: prod.splits option.splits if_splits)

lemma speaks_check:
  assumes "ha_ws_stable_name_taken env r = (x, s)"
  shows "speaks_ids [ha_list_msg_id] r s"
proof -
  obtain b r1 where w: "ws_write env list_request r = (b, r1)" by fastforce
  obtain a r2 where a: "ws_await dec_token_list ha_list_msg_id r1 = (a, r2)" by fastforce
  have "s = r1 \<or> s = r2"
    using assms w a by (cases b; cases a) (auto simp: ha_ws_stable_name_taken_def split: if_splits)
  then show ?thesis
    using speaks_write [OF w] says_trans [OF speaks_write [OF w] speaks_await [OF a]] by auto
qed

lemma speaks_attempt:
  assumes "mint_attempt env h n c r = (x, s)"
  shows "speaks_ids [n] r s"
proof -
  obtain b r1 where w: "ws_write env (mint_request n c) r = (b, r1)" by fastforce
  obtain a r2 where a: "ws_await dec_mint n r1 = (a, r2)" by fastforce
  show ?thesis
    using assms w a speaks_write [OF w] says_trans [OF speaks_write [OF w] speaks_await [OF a]]
    by (cases b; cases a) (auto simp: mint_attempt_def split: if_splits)
qed

lemma speaks_first: "first_name env h c r = (n, s) \<Longrightarrow> speaks_ids [] r s"
  by (auto simp: first_name_def dest: speaks_unique split: sum.splits bool.splits prod.splits)

lemma speaks_say_left: "speaks_ids ids (ha_say h w r) s = speaks_ids ids r s"
  by (simp add: speaks_ids_def ha_say_def)

lemma speaks_second:
  assumes "second_mint env h m r = (x, s)"
  shows "speaks_ids [ha_mint_msg_id + 1] r s"
proof -
  obtain n r1 where u: "unique_name env (ha_say h (''LLA mint failed (unreachable): '' @ m @ '', retrying with a unique name'') r) = (n, r1)"
    by fastforce
  obtain a r2 where a: "mint_attempt env h (ha_mint_msg_id + 1) n r1 = (a, r2)" by fastforce
  have "speaks_ids [ha_mint_msg_id + 1] r r2"
    using says_trans [OF speaks_unique [OF u] speaks_attempt [OF a]] by (simp add: speaks_say_left)
  then show ?thesis using assms u a by (cases a) (auto simp: second_mint_def)
qed

lemma speaks_mint:
  assumes "ha_mint_lla env h r = (x, s)"
  shows "speaks_ids [ha_list_msg_id, ha_mint_msg_id, ha_mint_msg_id + 1] r s"
proof -
  obtain c r1 where c: "ha_ws_stable_name_taken env r = (c, r1)" by fastforce
  obtain n r2 where n: "first_name env h c r1 = (n, r2)" by fastforce
  obtain a r3 where a: "mint_attempt env h ha_mint_msg_id n r2 = (a, r3)" by fastforce
  have s3: "speaks_ids [ha_list_msg_id, ha_mint_msg_id] r r3"
    using says_trans [OF says_trans [OF speaks_check [OF c] speaks_first [OF n]] speaks_attempt [OF a]] by simp
  show ?thesis
  proof (cases a)
    case (MintRefused m)
    with assms c n a have "second_mint env h m r3 = (x, s)" by (simp add: ha_mint_lla_parts)
    from says_trans [OF s3 speaks_second [OF this]] show ?thesis by simp
  qed (use assms c n a s3 in \<open>auto simp: ha_mint_lla_parts elim!: speaks_more\<close>)
qed

lemma dial_frames:
  assumes "ha_ws_dial_and_auth env u t r = (x, s)"
  shows "\<exists>ms. hr_sent s = hr_sent r @ ms \<and> msg_ids ms = []"
    and "x = None \<Longrightarrow> \<exists>frames. he_dial env = Some frames \<and> set (hr_in s) \<subseteq> set frames"
proof -
  show "\<exists>ms. hr_sent s = hr_sent r @ ms \<and> msg_ids ms = []"
    using assms
    by (fastforce simp: ha_ws_dial_and_auth_def Let_def ha_defs split: option.splits prod.splits list.splits
        ws_frame.splits if_splits bool.splits)
  show "\<exists>frames. he_dial env = Some frames \<and> set (hr_in s) \<subseteq> set frames" if "x = None"
    using assms that
    by (auto simp: ha_ws_dial_and_auth_def Let_def ha_defs split: option.splits prod.splits list.splits
        ws_frame.splits if_splits bool.splits)
qed

text \<open>What a minted token comes from.\<close>

definition mint_answer :: "int \<Rightarrow> string \<Rightarrow> string \<Rightarrow> bool" where
  "mint_answer n t s \<longleftrightarrow>
     (case Option.bind (json_parse s) dec_mint of
        None \<Rightarrow> False | Some x \<Rightarrow> wr_id x = Some n \<and> wr_success x \<and> wr_result x = t)"

lemma await_from: "await_result d n fs = (Awaited x, gs) \<Longrightarrow> wr_id x = Some n \<and>
    (\<exists>s. TextFrame s \<in> set fs \<and> Option.bind (json_parse s) d = Some x)"
  by (induction d n fs rule: await_result.induct) (auto split: option.splits if_splits)

definition mint_from :: "ha_run \<Rightarrow> int \<Rightarrow> string \<Rightarrow> string \<Rightarrow> ha_run \<Rightarrow> bool" where
  "mint_from r n c t s \<longleftrightarrow>
     t \<noteq> [] \<and> hr_sent s \<noteq> [] \<and> last (hr_sent s) = mint_request n c \<and>
     (\<exists>f. TextFrame f \<in> set (hr_in r) \<and> mint_answer n t f)"

lemma minted_from:
  assumes "mint_attempt env h n c r = (Minted t, s)"
  shows "mint_from r n c t s"
proof -
  obtain r1 where w: "ws_write env (mint_request n c) r = (True, r1)" and r1: "hr_in r1 = hr_in r"
    using assms by (auto simp: mint_attempt_def ha_defs split: prod.splits bool.splits if_splits)
  obtain x r2 where a: "ws_await dec_mint n r1 = (Awaited x, r2)" and ok: "wr_success x" "wr_result x = t" "t \<noteq> []"
    and s: "hr_sent s = hr_sent r2"
    using assms w by (auto simp: mint_attempt_def split: prod.splits awaited.splits if_splits)
  have "hr_sent r2 = hr_sent r @ [mint_request n c]"
    using w a by (auto simp: ha_defs ws_await_def split: if_splits prod.splits)
  moreover have "\<exists>f. TextFrame f \<in> set (hr_in r) \<and> mint_answer n t f"
    using a ok r1 by (auto simp: ws_await_def mint_answer_def dest!: await_from split: prod.splits)
  ultimately show ?thesis using ok s by (simp add: mint_from_def)
qed

lemma mint_from_earlier: "speaks_ids ids r0 r \<Longrightarrow> mint_from r n c t s \<Longrightarrow> mint_from r0 n c t s"
  by (auto simp: mint_from_def speaks_ids_def)

lemma unique_not_stable: "unique_name env r = (n, s) \<Longrightarrow> n \<noteq> ha_lla_name"
  by (auto simp: unique_name_def ha_unique_lla_name_def)

lemma mint_lla_from:
  assumes "ha_mint_lla env h r = (Inr t, s)"
  shows "\<exists>n c. mint_from r n c t s \<and> (c = ha_lla_name \<longrightarrow> n = ha_mint_msg_id)"
proof -
  obtain c r1 where c: "ha_ws_stable_name_taken env r = (c, r1)" by fastforce
  obtain n r2 where n: "first_name env h c r1 = (n, r2)" by fastforce
  obtain a r3 where a: "mint_attempt env h ha_mint_msg_id n r2 = (a, r3)" by fastforce
  have s2: "speaks_ids [ha_list_msg_id] r r2"
    using says_trans [OF speaks_check [OF c] speaks_first [OF n]] by simp
  have s3: "speaks_ids [ha_list_msg_id, ha_mint_msg_id] r r3"
    using says_trans [OF s2 speaks_attempt [OF a]] by simp
  show ?thesis
  proof (cases a)
    case (Minted t')
    with assms c n a have "t' = t" "r3 = s" by (auto simp: ha_mint_lla_parts)
    then show ?thesis using minted_from [of env h ha_mint_msg_id n r2 t s] a Minted mint_from_earlier [OF s2] by blast
  next
    case (MintRefused m)
    let ?r = "ha_say h (''LLA mint failed (unreachable): '' @ m @ '', retrying with a unique name'') r3"
    obtain k r4 where u: "unique_name env ?r = (k, r4)" by fastforce
    have at: "mint_attempt env h (ha_mint_msg_id + 1) k r4 = (Minted t, s)"
      using assms c n a MintRefused u
      by (auto simp: ha_mint_lla_parts second_mint_def split: prod.splits mint_end.splits)
    have "speaks_ids [] r3 r4" using speaks_unique [OF u] by (simp add: speaks_say_left)
    from mint_from_earlier [OF says_trans [OF s3 this] minted_from [OF at]] unique_not_stable [OF u]
    show ?thesis by blast
  qed (use assms c n a in \<open>auto simp: ha_mint_lla_parts\<close>)
qed

subsection \<open>What a login promises\<close>

lemma speaks_token:
  "\<exists>ms. hr_sent (snd (ha_auth_with_token env u t r)) = hr_sent r @ ms \<and> msg_ids ms = []"
proof -
  obtain x s where d: "ha_ws_dial_and_auth env u t r = (x, s)" by fastforce
  obtain y z where rd: "ws_read s = (y, z)" by fastforce
  have "hr_sent z = hr_sent s" using rd by (auto simp: ws_read_def split: list.splits ws_frame.splits)
  then have "hr_sent (snd (ha_auth_with_token env u t r)) = hr_sent s"
    using d rd by (cases x; cases y)
      (auto simp: ha_auth_with_token_def Let_def ha_say_def ha_close_def split: option.split)
  with dial_frames(1) [OF d] show ?thesis by simp
qed

text \<open>The states a login with a name and a password goes through, when it gets as far as the minting.\<close>

lemma credentials_cases:
  assumes "ha_auth_with_credentials env u n p new_run = (res, r)"
  obtains (early) e msg where "res = Inl (e, msg)" "msg_ids (hr_sent r) = []"
  | (mint) s5 frames x s6 where "msg_ids (hr_sent s5) = []" "he_dial env = Some frames"
      "set (hr_in s5) \<subseteq> set frames"
      "ha_mint_lla env (ha_host_for_log (he_parse env) u) s5 = (x, s6)" "r = ha_close s6"
      "res = (case x of Inl e \<Rightarrow> Inl (e, []) | Inr t \<Rightarrow> Inr t)"
proof -
  let ?c = "fst (ha_login_client_ids u)"
  have quiet: "msg_ids (hr_sent t) = []" if "speaks_ids [] s t" "msg_ids (hr_sent s) = []" for s t
    using that by (auto simp: speaks_ids_def msg_ids_append)
  have new: "msg_ids (hr_sent new_run) = []" by (simp add: new_run_def msg_ids_def List.map_filter_def)
  obtain x1 s1 where p1: "ha_start_login_flow env u new_run = (x1, s1)" by fastforce
  note q1 = quiet [OF speaks_start [OF p1] new]
  show thesis
  proof (cases x1)
    case (Inl e)
    then show thesis using assms p1 q1 early by (auto simp: ha_auth_with_credentials_def Let_def)
  next
    case (Inr f)
    note f = this
    obtain x2 s2 where p2: "ha_flow_submit env u ?c (fl_flow_id f) n p s1 = (x2, s2)" by fastforce
    note q2 = quiet [OF speaks_submit [OF p2] q1]
    show thesis
    proof (cases x2)
      case (Inl e)
      then show thesis using assms p1 f p2 q2 early
        by (cases e) (auto simp: ha_auth_with_credentials_def Let_def)
    next
      case (Inr c)
      note c = this
      obtain x3 s3 where p3: "ha_exchange_token env u ?c c s2 = (x3, s3)" by fastforce
      note q3 = quiet [OF speaks_exchange [OF p3] q2]
      show thesis
      proof (cases x3)
        case (Inl e)
        then show thesis using assms p1 f p2 c p3 q3 early by (auto simp: ha_auth_with_credentials_def Let_def)
      next
        case (Inr tk)
        note tk = this
        obtain x4 s4 where p4: "ha_ws_dial_and_auth env u tk s3 = (x4, s4)" by fastforce
        have q4: "msg_ids (hr_sent s4) = []"
          using dial_frames(1) [OF p4] q3 by (auto simp: msg_ids_append)
        obtain x5 s5 where p5: "ws_read s4 = (x5, s5)" by fastforce
        note q5 = quiet [OF speaks_read [OF p5] q4]
        have same: "hr_sent (ha_close (ha_say h w s)) = hr_sent s" for h w s by (simp add: ha_close_def ha_say_def)
        consider (dial) e where "x4 = Some e" | (unread) "x4 = None" "x5 = None"
          | (refused) d where "x4 = None" "x5 = Some d" "dec_type d \<noteq> Some ''auth_ok''"
          | (go) d where "x4 = None" "x5 = Some d" "dec_type d = Some ''auth_ok''"
          by (cases x4; cases x5) auto
        then show thesis
        proof cases
          case go
          obtain x6 s6 where p6: "ha_mint_lla env (ha_host_for_log (he_parse env) u) s5 = (x6, s6)" by fastforce
          obtain frames where fr: "he_dial env = Some frames" "set (hr_in s4) \<subseteq> set frames"
            using dial_frames(2) [OF p4] go by auto
          moreover have "set (hr_in s5) \<subseteq> set (hr_in s4)" using speaks_read [OF p5] by (simp add: speaks_ids_def)
          ultimately show thesis
            using mint [OF q5 fr(1) _ p6] assms p1 f p2 c p3 tk p4 p5 go p6
            by (cases x6) (auto simp: ha_auth_with_credentials_def Let_def)
        qed (use assms p1 f p2 c p3 tk p4 p5 q4 q5 same early in
            \<open>auto simp: ha_auth_with_credentials_def Let_def\<close>)
      qed
    qed
  qed
qed

text \<open>C32: The ids of the messages that a login sends on its websocket strictly increase, as Home Assistant
  demands: at most the list of the tokens and two mint requests, in this order, whichever of them fail to
  be sent and whatever is answered.\<close>

theorem ha_ids_increase:
  "subseq (msg_ids (hr_sent (snd (ha_login env q)))) [ha_list_msg_id, ha_mint_msg_id, ha_mint_msg_id + 1]"
proof -
  let ?u = "normalize_ha_url (he_parse env) (lq_url q)"
  have cred: "subseq (msg_ids (hr_sent r)) [ha_list_msg_id, ha_mint_msg_id, ha_mint_msg_id + 1]"
    if "ha_auth_with_credentials env ?u (lq_username q) (lq_password q) new_run = (res, r)" for res r
    using that
  proof (cases rule: credentials_cases)
    case (mint s5 frames x s6)
    then show ?thesis using speaks_mint [of env "ha_host_for_log (he_parse env) ?u" s5 x s6]
      by (auto simp: speaks_ids_def msg_ids_append ha_close_def)
  qed auto
  have tok: "msg_ids (hr_sent r) = []" if "ha_auth_with_token env ?u (lq_token q) new_run = (res, r)" for res r
    using speaks_token [of env ?u "lq_token q" new_run] that by (auto simp: msg_ids_append new_run_def)
  have empty: "hr_sent new_run = []" by (simp add: new_run_def)
  show ?thesis
    using cred [OF surjective_pairing] tok [OF surjective_pairing]
    by (auto simp: ha_login_def Let_def empty split: prod.split sum.split)
qed

text \<open>C33: A login with a name and a password answers with the token that Home Assistant minted for the last
  message of the login: a frame of the websocket carries the id of that message, reports success and holds
  the token. Only the first attempt asks under the name that may exist already.\<close>

theorem ha_token_is_minted:
  assumes "ha_login env q = (Inr t, r)" and "lq_token q = []"
  shows "\<exists>n c frames f. last (hr_sent r) = mint_request n c \<and> (c = ha_lla_name \<longrightarrow> n = ha_mint_msg_id) \<and>
    he_dial env = Some frames \<and> TextFrame f \<in> set frames \<and> mint_answer n t f \<and> t \<noteq> []"
proof -
  let ?u = "normalize_ha_url (he_parse env) (lq_url q)"
  have "ha_auth_with_credentials env ?u (lq_username q) (lq_password q) new_run = (Inr t, r)"
    using assms by (auto simp: ha_login_def Let_def split: if_splits)
  then show ?thesis
  proof (cases rule: credentials_cases)
    case (mint s5 frames x s6)
    then have "ha_mint_lla env (ha_host_for_log (he_parse env) ?u) s5 = (Inr t, s6)" by (cases x) auto
    then obtain n c where "mint_from s5 n c t s6" "c = ha_lla_name \<longrightarrow> n = ha_mint_msg_id"
      using mint_lla_from by blast
    moreover have "hr_sent r = hr_sent s6" using mint by (simp add: ha_close_def)
    ultimately show ?thesis using mint unfolding mint_from_def by (metis subsetD)
  qed auto
qed

text \<open>C34: The log shows nothing of the credentials. Whatever the network answers, two logins to the same url
  write the same lines, when they give the same kinds of credentials with different values.\<close>

theorem ha_log_keeps_secrets:
  assumes "lq_url q' = lq_url q" and "lq_token q' = [] \<longleftrightarrow> lq_token q = []"
    and "lq_username q' = [] \<longleftrightarrow> lq_username q = []" and "lq_password q' = [] \<longleftrightarrow> lq_password q = []"
  shows "hr_log (snd (ha_login env q')) = hr_log (snd (ha_login env q))"
proof -
  let ?u = "normalize_ha_url (he_parse env) (lq_url q)"
  have "same_run (snd (ha_auth_with_token env ?u (lq_token q') new_run)) (snd (ha_auth_with_token env ?u (lq_token q) new_run))"
    by (rule same_token_runs) simp
  moreover have "same_run (snd (ha_auth_with_credentials env ?u (lq_username q') (lq_password q') new_run))
      (snd (ha_auth_with_credentials env ?u (lq_username q) (lq_password q) new_run))"
    using alike_credentials [OF same_run_refl] by (simp add: alike_def)
  ultimately show ?thesis
    using assms by (auto simp: ha_login_def Let_def same_run_def split: prod.split sum.split)
qed

subsection \<open>A login on a small script\<close>

text \<open>A parser for one url shape, the answers to the three posts and the frames of a login whose list of tokens is
  refused.\<close>

definition sample_url_parser :: url_parser where
  "sample_url_parser u = Some \<lparr>pu_scheme = ''http'', pu_host = ''ha'', pu_string = (\<lambda>s. s @ ''://ha'')\<rparr>"

definition js :: "string \<Rightarrow> string" where
  "js s = map (\<lambda>c. if c = CHR ''~'' then CHR 0x22 else c) s"

definition sample_script :: ha_env where
  "sample_script = \<lparr>he_parse = sample_url_parser,
     he_answer = (\<lambda>n. Response 200 (Some (js (
       if n = 0 then ''{~type~:~form~,~step_id~:~init~,~flow_id~:~f~}''
       else if n = 1 then ''{~type~:~create_entry~,~result~:~c~}'' else ''{~access_token~:~s~}'')))),
     he_dial = Some [TextFrame (js ''{~type~:~auth_required~}''), TextFrame (js ''{~type~:~auth_ok~}''),
       TextFrame (js ''{~id~:1}''), TextFrame (js ''{~id~:2,~success~:true,~result~:~L~}'')],
     he_write = (\<lambda>_. True), he_stamp = (\<lambda>_. ''20260101-000000''), he_random = (\<lambda>n. Some (of_nat n, 255))\<rparr>"

definition sample_ha_login :: "string \<Rightarrow> ha_login_request" where
  "sample_ha_login p = \<lparr>lq_url = ''ha'', lq_token = [], lq_username = ''u'', lq_password = p\<rparr>"

lemma sample_login_run:
  "map_prod id (\<lambda>r. map msg_id (hr_sent r)) (ha_login sample_script (sample_ha_login ''p'')) =
     (Inr ''L'', [None, Some 1, Some 2])"
  by code_simp

theorem ha_token_is_minted_witness:
  "\<exists>(r :: ha_run) n c. last (hr_sent r) = mint_request n c \<and> (c = ha_lla_name \<longrightarrow> n = ha_mint_msg_id) \<and>
    (\<exists>frames f. he_dial sample_script = Some frames \<and> TextFrame f \<in> set frames \<and> mint_answer n ''L'' f)"
proof -
  obtain r where "ha_login sample_script (sample_ha_login ''p'') = (Inr ''L'', r)"
    using sample_login_run by (cases "ha_login sample_script (sample_ha_login ''p'')") auto
  from ha_token_is_minted [OF this] show ?thesis by (simp add: sample_ha_login_def) blast
qed

theorem ha_log_keeps_secrets_witness:
  "hr_log (snd (ha_login sample_script (sample_ha_login ''other''))) = hr_log (snd (ha_login sample_script (sample_ha_login ''p'')))"
  by (rule ha_log_keeps_secrets) (simp_all add: sample_ha_login_def)

text \<open>The unique name has two random bytes after the time.\<close>

lemma unique_name_has_bytes:
  "ha_unique_lla_name ''20260101-000000'' (Some (0, 255)) = ''Mira 20260101-000000-00ff''"
  by code_simp

text \<open>A line of the log can carry a text of the server beside the host and the class.\<close>

lemma log_carries_server_text:
  "hr_log (snd (ha_login (sample_script\<lparr>he_dial := Some [TextFrame (js ''{~type~:~auth_required~}''),
        TextFrame (js ''{~type~:~any text~}'')]\<rparr>) \<lparr>lq_url = ''ha'', lq_token = ''t'', lq_username = [], lq_password = []\<rparr>)) =
     [js ''ha login: ha: unexpected auth response type ~any text~ (unreachable)'']"
  by code_simp

end
