(* ===== verification/ApiServer.thy ===== *)
theory ApiServer
  imports HaLogin PlayerCommands PiJobs
begin

text \<open>
  The HTTP server of the user interface: the handlers of \<open>serve\<close> in \<open>daemon/api_server.go\<close> and of
  \<open>daemon/bluetooth_routes.go\<close>, behind the patterns they are registered under. A request for the player goes
  to its run loop as a \<open>player_request\<close>; the commands among them are those of \<open>PlayerCommands\<close>.

  Everything behind an interface of the code (\<open>SystemHandler\<close>, \<open>BluetoothHandler\<close>, \<open>VoiceHandler\<close>, ...) is an
  argument: what it answers is given, that it was called is an effect. The paths are clean, as the router
  makes them before it looks for a pattern. The middleware for other origins and the TLS listener are left out.
\<close>

subsection \<open>Requests to the player\<close>

record lyrics_ask =
  yq_track_id :: string
  yq_request :: lyrics_request
  yq_episode :: bool
  yq_richsync :: bool

datatype player_request =
    AskRoot
  | AskWebApi string string "(string \<times> string) list"
  | AskWebApiLocal string string "(string \<times> string) list"
  | AskStatus
  | AskCommand command
  | AskSearch string bool
  | AskGetVolume
  | AskGetSaved string
  | AskSetSaved string bool
  | AskToken
  | AskObserverStatus
  | AskConnectDevices
  | AskConnectRefresh
  | AskLyrics lyrics_ask
  | AskMaDevices
  | AskMaPlaylists
  | AskMaPlaylistItems string
  | AskMaRecent int

datatype request_error = NoSession | RequestError api_error

datatype player_reply = ReplyError request_error | ReplyBytes string | ReplyJson json

definition error_status :: "request_error \<Rightarrow> int" where
  "error_status e =
     (case e of
        NoSession \<Rightarrow> 204
      | RequestError ErrForbidden \<Rightarrow> 403
      | RequestError ErrNotFound \<Rightarrow> 404
      | RequestError ErrMethodNotAllowed \<Rightarrow> 405
      | RequestError ErrTooManyRequests \<Rightarrow> 429
      | RequestError ErrBadRequest \<Rightarrow> 400
      | RequestError (OtherError m) \<Rightarrow> 500)"

definition reply_answer :: "player_reply \<Rightarrow> answer" where
  "reply_answer r =
     (case r of
        ReplyError e \<Rightarrow> status_only (error_status e)
      | ReplyBytes b \<Rightarrow> \<lparr>an_status = 200, an_type = ''application/octet-stream'', an_no_store = False, an_body = TextBody b\<rparr>
      | ReplyJson j \<Rightarrow> json_reply j)"

subsection \<open>The environment and the effects of a handler\<close>

datatype start_error = StartBusy | StartNoKey | StartBadProfile | StartOther

record pi_delete_request =
  dl_ip :: string
  dl_user :: string
  dl_password :: string

datatype bt_call =
    BtSteps int | BtDiscoverable bool | BtInfo string | BtRemove string | BtConnectDevice string
  | BtDisconnectDevice string | BtConnectNetwork string | BtStar string bool | BtForget string | BtPage string
  | BtAcceptPairing | BtDenyPairing | BtRead string

record bt_handler =
  bh_hid :: "bool \<times> bool \<times> bool"
  bh_steps :: "int \<Rightarrow> bool"
  bh_call :: "bt_call \<Rightarrow> string option"  \<comment> \<open>the error\<close>
  bh_devices :: "string + json list"
  bh_info :: "string \<Rightarrow> string + json"
  bh_up :: bool
  bh_known :: "json list"
  bh_pairing :: "json option"

datatype api_effect =
    Asked player_request
  | MaPosted ma_log
  | HaLogged ha_run
  | HaProbed ha_probe
  | SetupStarted setup_request
  | TetheringStarted string
  | ProfileDeleted string pi_delete_request
  | VoiceTriggered string string
  | ReportSent
  | UiLogged string
  | ResetStarted
  | RestartStarted
  | SuspendStarted
  | SettingsStored string
  | BtCalled bt_call

record api_env =
  ae_ready :: bool
  ae_player :: "player_request \<Rightarrow> player_reply"
  ae_parse :: url_parser
  ae_settings :: "(string \<times> bool) option"     \<comment> \<open>the stored settings, and whether storing others works\<close>
  ae_ha_defaults :: ha_target
  ae_ha_login :: ha_env
  ae_ha_probe :: "ha_probe \<Rightarrow> int option"
  ae_ha_send :: "ha_probe \<Rightarrow> (int \<times> string \<times> string) option"
  ae_ma_net :: ma_net
  ae_auth :: "(bool \<times> string \<times> bool) option"
  ae_debug :: "(json \<times> string \<times> (string + string)) option"  \<comment> \<open>status, bundle, outcome of a report\<close>
  ae_system :: bool
  ae_voice :: "(string \<Rightarrow> string \<Rightarrow> string option) option"
  ae_setup :: "((setup_request \<Rightarrow> (start_error \<times> string) + string) \<times> json) option"
  ae_pi_status :: "json option"
  ae_pi_profile :: "(string \<Rightarrow> pi_delete_request \<Rightarrow> string + json) option"
  ae_tethering :: "((string \<Rightarrow> (start_error \<times> string) + string) \<times> json) option"
  ae_bluetooth :: "bt_handler option"
  ae_lux :: "string option"                     \<comment> \<open>the file of the light sensor\<close>

type_synonym handled = "answer \<times> api_effect list"
type_synonym handler = "api_env \<Rightarrow> http_request \<Rightarrow> handled"

definition plain :: "answer \<Rightarrow> handled" where "plain a = (a, [])"

definition refuse :: "int \<Rightarrow> handled" where "refuse code = plain (status_only code)"

text \<open>Before the player is ready nobody reads its requests.\<close>

definition handle_player_request :: "api_env \<Rightarrow> player_request \<Rightarrow> handled" where
  "handle_player_request e rq =
     (if \<not> ae_ready e then refuse 503 else (reply_answer (ae_player e rq), [Asked rq]))"

definition when_method :: "string \<Rightarrow> handler \<Rightarrow> handler" where
  "when_method m h e q = (if rq_method q \<noteq> m then refuse 405 else h e q)"

definition ask_plain :: "string \<Rightarrow> player_request \<Rightarrow> handler" where
  "ask_plain m rq = when_method m (\<lambda>e q. handle_player_request e rq)"

text \<open>A request with a body: decoded, checked, handed on.\<close>

definition ask_decoded ::
    "string \<Rightarrow> (json \<Rightarrow> 'a option) \<Rightarrow> ('a \<Rightarrow> bool) \<Rightarrow> ('a \<Rightarrow> player_request) \<Rightarrow> handler" where
  "ask_decoded m d ok f = when_method m (\<lambda>e q.
     case json_body d (rq_body q) of
       None \<Rightarrow> refuse 400
     | Some x \<Rightarrow> if ok x then handle_player_request e (f x) else refuse 400)"

text \<open>What is answered at once before the player is ready.\<close>

definition ask_or :: "string \<Rightarrow> answer \<Rightarrow> player_request \<Rightarrow> handler" where
  "ask_or m early rq = when_method m (\<lambda>e q. if \<not> ae_ready e then plain early else handle_player_request e rq)"

lemmas [api_defs] = plain_def refuse_def handle_player_request_def when_method_def ask_plain_def ask_decoded_def ask_or_def

subsection \<open>Playback\<close>

definition dec_int_between :: "int \<Rightarrow> int \<Rightarrow> json \<Rightarrow> int option" where
  "dec_int_between lo hi j =
     (case dec_int j of None \<Rightarrow> None | Some n \<Rightarrow> if lo \<le> n \<and> n \<le> hi then Some n else None)"

definition dec_int32 :: "json \<Rightarrow> int option" where
  "dec_int32 = dec_int_between (-2147483648) 2147483647"

definition dec_offset :: "json \<Rightarrow> play_offset option" where
  "dec_offset j = do {
     u \<leftarrow> field ''uri'' [] dec_str j; n \<leftarrow> field ''position'' 0 dec_int j;
     Some \<lparr>of_uri = u, of_position = n\<rparr> }"

definition dec_play :: "json \<Rightarrow> play_data option" where
  "dec_play j = do {
     u \<leftarrow> field ''uri'' [] dec_str j;
     s \<leftarrow> field ''skip_to_uri'' [] dec_str j;
     p \<leftarrow> field ''paused'' False dec_bool j;
     sh \<leftarrow> opt_field ''shuffle'' dec_bool j;
     f \<leftarrow> opt_field ''offset'' dec_offset j;
     Some \<lparr>pd_uri = u, pd_skip_to = s, pd_shuffle = sh, pd_offset = f\<rparr> }"

definition player_play :: handler where
  "player_play = ask_decoded ''POST'' dec_play (\<lambda>d. pd_uri d \<noteq> []) (\<lambda>d. AskCommand (CmdPlay d))"

definition dec_search :: "json \<Rightarrow> (string \<times> bool) option" where
  "dec_search j = do { s \<leftarrow> field ''query'' [] dec_str j; n \<leftarrow> field ''top_n'' False dec_bool j; Some (s, n) }"

definition player_search :: handler where
  "player_search = ask_decoded ''POST'' dec_search (\<lambda>(s, n). trim_space s \<noteq> []) (\<lambda>(s, n). AskSearch s n)"

definition player_resume :: handler where "player_resume = ask_plain ''POST'' (AskCommand CmdResume)"
definition player_resume_last :: handler where "player_resume_last = ask_plain ''POST'' (AskCommand CmdResumeLast)"
definition player_pause :: handler where "player_pause = ask_plain ''POST'' (AskCommand CmdPause)"
definition player_playpause :: handler where "player_playpause = ask_plain ''POST'' (AskCommand CmdPlayPause)"
definition player_prev :: handler where "player_prev = ask_plain ''POST'' (AskCommand CmdPrev)"

definition player_next :: handler where
  "player_next = ask_decoded ''POST'' (opt_field ''uri'' dec_str) (\<lambda>_. True) (\<lambda>_. AskCommand CmdNext)"

definition dec_seek :: "json \<Rightarrow> (int \<times> bool) option" where
  "dec_seek j = do { n \<leftarrow> field ''position'' 0 dec_int j; r \<leftarrow> field ''relative'' False dec_bool j; Some (n, r) }"

definition player_seek :: handler where
  "player_seek = ask_decoded ''POST'' dec_seek (\<lambda>(n, r). \<not> (\<not> r \<and> n < 0)) (\<lambda>(n, r). AskCommand (CmdSeek n r))"

definition dec_volume :: "json \<Rightarrow> (int \<times> bool) option" where
  "dec_volume j = do { n \<leftarrow> field ''volume'' 0 dec_int32 j; r \<leftarrow> field ''relative'' False dec_bool j; Some (n, r) }"

definition player_volume :: handler where
  "player_volume e q =
     (if rq_method q = ''GET'' then handle_player_request e AskGetVolume
      else ask_decoded ''POST'' dec_volume (\<lambda>(n, r). \<not> (\<not> r \<and> n < 0)) (\<lambda>(n, r). AskCommand (CmdSetVolume n r)) e q)"

definition player_repeat_context :: handler where
  "player_repeat_context =
     ask_decoded ''POST'' (field ''repeat_context'' False dec_bool) (\<lambda>_. True) (\<lambda>b. AskCommand (CmdRepeatContext b))"

definition player_repeat_track :: handler where
  "player_repeat_track =
     ask_decoded ''POST'' (field ''repeat_track'' False dec_bool) (\<lambda>_. True) (\<lambda>b. AskCommand (CmdRepeatTrack b))"

definition dec_shuffle :: "json \<Rightarrow> (bool \<times> bool option) option" where
  "dec_shuffle j = do {
     s \<leftarrow> field ''shuffle_context'' False dec_bool j; m \<leftarrow> opt_field ''smart_shuffle'' dec_bool j; Some (s, m) }"

definition player_shuffle_context :: handler where
  "player_shuffle_context =
     ask_decoded ''POST'' dec_shuffle (\<lambda>_. True) (\<lambda>(s, m). AskCommand (CmdShuffle s m))"

definition player_add_to_queue :: handler where
  "player_add_to_queue =
     ask_decoded ''POST'' (field ''uri'' [] dec_str) (\<lambda>u. u \<noteq> []) (\<lambda>u. AskCommand (CmdAddToQueue u))"

definition dec_saved :: "json \<Rightarrow> (string \<times> bool) option" where
  "dec_saved j = do { u \<leftarrow> field ''uri'' [] dec_str j; b \<leftarrow> field ''saved'' False dec_bool j; Some (u, b) }"

definition player_saved :: handler where
  "player_saved e q =
     (if rq_method q = ''GET'' then
        (if query_get ''uri'' q = [] then refuse 400 else handle_player_request e (AskGetSaved (query_get ''uri'' q)))
      else ask_decoded ''POST'' dec_saved (\<lambda>(u, b). u \<noteq> []) (\<lambda>(u, b). AskSetSaved u b) e q)"

lemmas playback_handlers = player_play_def player_search_def player_resume_def player_resume_last_def player_pause_def
  player_playpause_def player_prev_def player_next_def player_seek_def player_volume_def player_repeat_context_def
  player_repeat_track_def player_shuffle_context_def player_add_to_queue_def player_saved_def

subsection \<open>State, devices and lyrics\<close>

definition root_page :: handler where "root_page = ask_plain ''GET'' AskRoot"
definition status_page :: handler where "status_page = ask_plain ''GET'' AskStatus"
definition token_page :: handler where "token_page = ask_plain ''POST'' AskToken"

definition observer_status_page :: handler where
  "observer_status_page = ask_or ''GET''
     (no_store (json_reply (JObj [(''active'', JBool False), (''message'', JStr ''starting up'')]))) AskObserverStatus"

definition no_device_list :: answer where
  "no_device_list = no_store (json_reply (JObj [(''devices'', JArr [])]))"

definition connect_devices_page :: handler where "connect_devices_page = ask_or ''GET'' no_device_list AskConnectDevices"
definition connect_refresh_page :: handler where "connect_refresh_page = ask_or ''POST'' no_device_list AskConnectRefresh"

definition connect_transfer_page :: handler where
  "connect_transfer_page =
     ask_decoded ''POST'' (field ''device_id'' [] dec_str) (\<lambda>i. i \<noteq> []) (\<lambda>i. AskCommand (CmdTransfer i))"

definition lyrics_page :: handler where
  "lyrics_page = when_method ''GET'' (\<lambda>e q.
     let track_id = trim_prefix (rq_path q) ''/lyrics/''
     in if track_id = [] then refuse 400
        else handle_player_request e (AskLyrics \<lparr>yq_track_id = track_id,
          yq_request = \<lparr>lr_track_name = query_get ''track'' q, lr_artist_name = query_get ''artist'' q,
            lr_album_name = query_get ''album'' q,
            lr_duration_ms = (case atoi (query_get ''duration'' q) of None \<Rightarrow> 0 | Some n \<Rightarrow> n)\<rparr>,
          yq_episode = (query_get ''episode'' q = ''1''), yq_richsync = (query_get ''richsync'' q = ''1'')\<rparr>))"

definition playlist_tracks_path :: "string \<Rightarrow> string" where
  "playlist_tracks_path p =
     (if \<not> has_prefix p ''playlists/'' \<or> \<not> has_suffix p ''/tracks'' then []
      else let i = trim_suffix (trim_prefix p ''playlists/'') ''/tracks''
           in if i = [] \<or> CHR ''/'' \<in> set i then [] else i)"

definition is_local_web_api_path :: "string \<Rightarrow> bool" where
  "is_local_web_api_path p \<longleftrightarrow>
     p \<in> set [''me/playlists'', ''me/player/recently-played'', ''me/tracks''] \<or> playlist_tracks_path p \<noteq> []"

definition web_api_page :: handler where
  "web_api_page e q =
     (let p = trim_prefix (rq_path q) ''/web-api/''
      in handle_player_request e
           (if rq_method q = ''GET'' \<and> is_local_web_api_path p then AskWebApiLocal (rq_method q) p (rq_query q)
            else AskWebApi (rq_method q) p (rq_query q)))"

definition auth_status_page :: handler where
  "auth_status_page = when_method ''GET'' (\<lambda>e q.
     case ae_auth e of
       None \<Rightarrow> refuse 503
     | Some (required, url, known) \<Rightarrow>
         plain (no_store (json_reply (JObj ([(''loading'', JBool (\<not> known)), (''required'', JBool required)] @
           (if required \<and> url \<noteq> [] then [(''url'', JStr url)] else []))))))"

subsection \<open>Music Assistant\<close>

definition ma_device_json :: "ma_device \<Rightarrow> json" where
  "ma_device_json d = JObj [(''id'', JStr (md_id d)), (''name'', JStr (md_name d)), (''available'', JBool (md_available d))]"

definition ma_playlist_json :: "ma_playlist \<Rightarrow> json" where
  "ma_playlist_json p = JObj [(''item_id'', JStr (mpl_id p)), (''name'', JStr (mpl_name p)), (''uri'', JStr (mpl_uri p)),
     (''image_url'', JStr (mpl_image p))]"

definition ma_track_json :: "ma_track \<Rightarrow> json" where
  "ma_track_json t =
     JObj ([(''id'', JStr (mt_id t)), (''name'', JStr (mt_name t)), (''uri'', JStr (mt_uri t))] @
       json_str ''album'' (mt_album t) @ [(''artists'', JArr (map JStr (mt_artists t)))] @
       (if mt_duration_ms t = 0 then [] else [(''duration_ms'', jint (mt_duration_ms t))]) @
       [(''position'', jint (mt_position t))] @ json_str ''image_url'' (mt_image t) @
       json_str ''media_type'' (mt_media_type t))"

datatype ma_content = MaContentDevices | MaContentPlaylists | MaContentItems string | MaContentRecent int

text \<open>The content, straight from the server of the stored settings; None when there is no such server, it is not the
  source, or it fails.\<close>

definition ma_content_payload :: "ma_net \<Rightarrow> ma_client \<Rightarrow> ma_content \<Rightarrow> json option \<times> ma_log" where
  "ma_content_payload net c kind =
     (case kind of
        MaContentDevices \<Rightarrow>
          (case list_players net c [] of
             (Inl err, lg) \<Rightarrow> (None, lg)
           | (Inr players, lg) \<Rightarrow>
               (Some (JObj [(''devices'', JArr (map ma_device_json (ma_map_devices players)))]), lg))
      | MaContentPlaylists \<Rightarrow>
          (case ma_browse_playlists net c [] of
             (Inl err, lg) \<Rightarrow> (None, lg)
           | (Inr pls, lg) \<Rightarrow>
               (case ma_apply_recent_playlist_order net c pls lg of
                  (served, lg') \<Rightarrow> (Some (JObj [(''playlists'', JArr (map ma_playlist_json served))]), lg')))
      | MaContentItems item \<Rightarrow>
          (case playlist_tracks net c item [] of
             (Inl err, lg) \<Rightarrow> (None, lg)
           | (Inr items, lg) \<Rightarrow>
               (Some (JObj [(''tracks'', JArr (map ma_track_json (ma_map_playlist_items items)))]), lg))
      | MaContentRecent limit \<Rightarrow>
          (case recently_played net c limit [] [''track'', ''playlist''] False [] of
             (Inl err, lg) \<Rightarrow> (None, lg)
           | (Inr items, lg) \<Rightarrow>
               (Some (JObj [(''tracks'', JArr (map ma_track_json (ma_map_recent_items items)))]), lg)))"

definition serve_ma_pre_session :: "api_env \<Rightarrow> ma_content \<Rightarrow> json option \<times> ma_log" where
  "serve_ma_pre_session e kind =
     (case ae_settings e of
        None \<Rightarrow> (None, [])
      | Some (blob, _) \<Rightarrow>
          (case parse_ma_config (ae_parse e) blob of
             None \<Rightarrow> (None, [])
           | Some cfg \<Rightarrow>
               if playback_source_from_settings blob \<noteq> playback_source_ma then (None, [])
               else ma_content_payload (ae_ma_net e) (new_client (mc_url cfg) (mc_token cfg)) kind))"

definition ma_not_ready :: answer where
  "ma_not_ready = no_store (json_error 503 ''player session not ready'')"

definition ma_content_page :: "ma_content \<Rightarrow> player_request \<Rightarrow> api_env \<Rightarrow> handled" where
  "ma_content_page kind rq e =
     (if \<not> ae_ready e then
        (case serve_ma_pre_session e kind of
           (Some j, lg) \<Rightarrow> (no_store (json_reply j), [MaPosted lg])
         | (None, lg) \<Rightarrow> (ma_not_ready, [MaPosted lg]))
      else handle_player_request e rq)"

definition ma_devices_page :: handler where
  "ma_devices_page = when_method ''GET'' (\<lambda>e q. ma_content_page MaContentDevices AskMaDevices e)"

definition ma_playlists_page :: handler where
  "ma_playlists_page = when_method ''GET'' (\<lambda>e q. ma_content_page MaContentPlaylists AskMaPlaylists e)"

definition ma_playlist_items_page :: handler where
  "ma_playlist_items_page = when_method ''GET'' (\<lambda>e q.
     let i = trim_space (query_get ''id'' q)
     in if i = [] then refuse 400 else ma_content_page (MaContentItems i) (AskMaPlaylistItems i) e)"

definition recent_limit :: "http_request \<Rightarrow> int" where
  "recent_limit q =
     (case atoi (query_get ''limit'' q) of Some v \<Rightarrow> if 1 \<le> v \<and> v \<le> 50 then v else 20 | None \<Rightarrow> 20)"

definition ma_recent_page :: handler where
  "ma_recent_page = when_method ''GET'' (\<lambda>e q.
     ma_content_page (MaContentRecent (recent_limit q)) (AskMaRecent (recent_limit q)) e)"

definition ma_player_select_page :: handler where
  "ma_player_select_page =
     ask_decoded ''POST'' (field ''player_id'' [] dec_str) (\<lambda>i. trim_space i \<noteq> []) (\<lambda>i. AskCommand (CmdMaSelect i))"

subsection \<open>The Pi\<close>

definition setup_error_status :: "start_error \<Rightarrow> int" where
  "setup_error_status err = (case err of StartBusy \<Rightarrow> 409 | _ \<Rightarrow> 500)"

definition tethering_error_status :: "start_error \<Rightarrow> int" where
  "tethering_error_status err =
     (case err of StartBadProfile \<Rightarrow> 400 | StartNoKey \<Rightarrow> 409 | StartBusy \<Rightarrow> 409 | StartOther \<Rightarrow> 500)"

definition job_answer :: "(start_error \<Rightarrow> int) \<Rightarrow> (start_error \<times> string) + string \<Rightarrow> answer" where
  "job_answer code r =
     (case r of
        Inl (err, msg) \<Rightarrow> json_error (code err) msg
      | Inr job \<Rightarrow> json_answer 202 (JObj [(''job_id'', JStr job)]))"

definition invalid_body :: handled where "invalid_body = plain (json_error 400 ''invalid json body'')"

definition dec_setup :: "json \<Rightarrow> setup_request option" where
  "dec_setup j = do {
     i \<leftarrow> field ''ip'' [] dec_str j; u \<leftarrow> field ''user'' [] dec_str j;
     p \<leftarrow> field ''password'' [] dec_str j; n \<leftarrow> field ''profile_id'' [] dec_str j;
     Some \<lparr>sr_ip = i, sr_user = u, sr_password = p, sr_profile_id = n\<rparr> }"

definition setup_pi_page :: handler where
  "setup_pi_page e q =
     (case json_body dec_setup (rq_body q) of
        None \<Rightarrow> invalid_body
      | Some rq \<Rightarrow>
          (case ae_setup e of
             None \<Rightarrow> refuse 503
           | Some (start, _) \<Rightarrow>
               (case validate_setup_pi_request rq of
                  Return _ \<Rightarrow> (job_answer setup_error_status (start rq), [SetupStarted rq])
                | Fail msg \<Rightarrow> plain (json_error 400 msg)
                | Panic msg \<Rightarrow> plain (json_error 400 msg))))"

definition status_of :: "json option \<Rightarrow> handled" where
  "status_of s = (case s of None \<Rightarrow> refuse 503 | Some j \<Rightarrow> plain (json_reply j))"

definition setup_pi_status_page :: handler where "setup_pi_status_page e q = status_of (map_option snd (ae_setup e))"
definition pi_status_page :: handler where "pi_status_page e q = status_of (ae_pi_status e)"
definition tethering_status_page :: handler where
  "tethering_status_page e q = status_of (map_option snd (ae_tethering e))"

definition dec_pi_delete :: "json \<Rightarrow> pi_delete_request option" where
  "dec_pi_delete j = do {
     i \<leftarrow> field ''ip'' [] dec_str j; u \<leftarrow> field ''user'' [] dec_str j; p \<leftarrow> field ''password'' [] dec_str j;
     Some \<lparr>dl_ip = i, dl_user = u, dl_password = p\<rparr> }"

definition pi_profile_page :: handler where
  "pi_profile_page e q =
     (let i = query_get ''id'' q
      in if i = [] then plain (json_error 400 ''missing 'id' query parameter'')
         else case json_body dec_pi_delete (rq_body q) of
                None \<Rightarrow> invalid_body
              | Some rq \<Rightarrow>
                  (case ae_pi_profile e of
                     None \<Rightarrow> refuse 503
                   | Some del \<Rightarrow>
                       (case del i rq of Inl msg \<Rightarrow> json_error 400 msg | Inr j \<Rightarrow> json_reply j, [ProfileDeleted i rq])))"

definition tethering_page :: handler where
  "tethering_page e q =
     (case json_body (field ''profile_id'' [] dec_str) (rq_body q) of
        None \<Rightarrow> invalid_body
      | Some i \<Rightarrow>
          (case ae_tethering e of
             None \<Rightarrow> refuse 503
           | Some (start, _) \<Rightarrow> (job_answer tethering_error_status (start i), [TetheringStarted i])))"

subsection \<open>Home Assistant\<close>

definition ha_cfg :: "api_env \<Rightarrow> ha_target" where
  "ha_cfg e = get_home_assistant_config (ae_parse e) (map_option fst (ae_settings e)) (ae_ha_defaults e)"

definition ha_api_page :: handler where
  "ha_api_page e q =
     (case handle_ha_api_proxy (ae_parse e) (ha_cfg e) (ae_ha_send e) q of
        (a, p) \<Rightarrow> (a, case p of None \<Rightarrow> [] | Some x \<Rightarrow> [HaProbed x]))"

definition ha_login_page :: handler where
  "ha_login_page e q = (case handle_ha_login (ae_ha_login e) q of (a, r) \<Rightarrow> (a, [HaLogged r]))"

definition ha_test_page :: handler where
  "ha_test_page e q =
     (case handle_ha_test (ae_parse e) (ha_cfg e) (ae_ha_probe e) q of
        (a, p, ls) \<Rightarrow> (a, case p of None \<Rightarrow> [] | Some x \<Rightarrow> [HaProbed x]))"

subsection \<open>Debugging, the system and the settings\<close>

definition debug_status_page :: handler where
  "debug_status_page = when_method ''GET'' (\<lambda>e q.
     case ae_debug e of None \<Rightarrow> refuse 503 | Some (status, _, _) \<Rightarrow> plain (no_store (json_reply status)))"

definition debug_bundle_page :: handler where
  "debug_bundle_page = when_method ''GET'' (\<lambda>e q.
     case ae_debug e of
       None \<Rightarrow> refuse 503
     | Some (_, bundle, _) \<Rightarrow>
         plain \<lparr>an_status = 200, an_type = ''application/gzip'', an_no_store = False, an_body = TextBody bundle\<rparr>)"

definition debug_report_page :: handler where
  "debug_report_page = when_method ''POST'' (\<lambda>e q.
     case ae_debug e of
       None \<Rightarrow> refuse 503
     | Some (_, _, report) \<Rightarrow>
         (case report of Inl msg \<Rightarrow> json_error 502 msg | Inr i \<Rightarrow> json_reply (JObj [(''id'', JStr i)]), [ReportSent]))"

definition ui_error_limit :: nat where "ui_error_limit = 4096"
definition ui_error_length :: nat where "ui_error_length = 300"

definition debug_ui_error_page :: handler where
  "debug_ui_error_page = when_method ''POST'' (\<lambda>e q.
     case Option.bind (rq_body q) (\<lambda>b. Option.bind (json_decode (take ui_error_limit b)) (field ''message'' [] dec_str)) of
       None \<Rightarrow> refuse 400
     | Some m \<Rightarrow>
         if m = [] then refuse 400 else (status_only 204, [UiLogged (''ui: '' @ take ui_error_length m)]))"

text \<open>The body of a trigger is optional: what cannot be read of it is empty.\<close>

definition trigger_field :: "string \<Rightarrow> http_request \<Rightarrow> string" where
  "trigger_field k q =
     (case Option.bind (rq_body q) (\<lambda>b. Option.bind (json_parse b) (field k [] dec_str)) of None \<Rightarrow> [] | Some v \<Rightarrow> v)"

definition voice_trigger_page :: handler where
  "voice_trigger_page = when_method ''POST'' (\<lambda>e q.
     case ae_voice e of
       None \<Rightarrow> refuse 503
     | Some trigger \<Rightarrow>
         let transcript = trigger_field ''transcript'' q; clip = trigger_field ''clip'' q
         in (case trigger transcript clip of
               None \<Rightarrow> status_only 500 | Some t \<Rightarrow> json_reply (JObj [(''text'', JStr t)]),
             [VoiceTriggered transcript clip]))"

definition system_page :: "api_effect \<Rightarrow> handler" where
  "system_page act e q = (if ae_system e then (status_only 200, [act]) else refuse 503)"

definition read_ambient_lux :: "string option \<Rightarrow> int option" where
  "read_ambient_lux f = Option.bind f (\<lambda>s. atoi (trim_space s))"

definition ambient_page :: handler where
  "ambient_page e q =
     plain (json_reply (JObj [(''lux'', case read_ambient_lux (ae_lux e) of None \<Rightarrow> JNull | Some n \<Rightarrow> jint n)]))"

definition get_settings_page :: handler where
  "get_settings_page e q =
     (case ae_settings e of
        None \<Rightarrow> refuse 503
      | Some (blob, _) \<Rightarrow>
          plain \<lparr>an_status = 200, an_type = json_type, an_no_store = False,
            an_body = TextBody (if blob = [] then ''{}'' else blob)\<rparr>)"

definition settings_limit :: nat where "settings_limit = 65536"

definition put_settings_page :: handler where
  "put_settings_page e q =
     (case ae_settings e of
        None \<Rightarrow> refuse 503
      | Some (_, works) \<Rightarrow>
          (case rq_body q of
             None \<Rightarrow> refuse 400
           | Some b \<Rightarrow>
               if length b > settings_limit \<or> json_parse b = None then refuse 400
               else if \<not> works then (status_only 500, [SettingsStored b])
               else (\<lparr>an_status = 200, an_type = json_type, an_no_store = False, an_body = TextBody b\<rparr>,
                     [SettingsStored b])))"

subsection \<open>Bluetooth\<close>

definition with_bt :: "(bt_handler \<Rightarrow> handled) \<Rightarrow> api_env \<Rightarrow> handled" where
  "with_bt f e = (case ae_bluetooth e of None \<Rightarrow> refuse 503 | Some bm \<Rightarrow> f bm)"

definition bt_json :: "string \<Rightarrow> json \<Rightarrow> handled" where
  "bt_json what j = (json_reply j, [BtCalled (BtRead what)])"

text \<open>A call without a result: 204, or the status for its error.\<close>

definition bt_do :: "int \<Rightarrow> bt_call \<Rightarrow> api_env \<Rightarrow> handled" where
  "bt_do code c = with_bt (\<lambda>bm.
     (case bh_call bm c of None \<Rightarrow> status_only 204 | Some msg \<Rightarrow> json_error code msg, [BtCalled c]))"

definition hid_json :: "bool \<times> bool \<times> bool \<Rightarrow> (string \<times> json) list" where
  "hid_json s = (case s of (registered, subscribed, dead) \<Rightarrow>
     [(''registered'', JBool registered), (''sub_dead'', JBool dead), (''subscribed'', JBool subscribed)])"

definition bt_hid_page :: handler where
  "bt_hid_page e q = with_bt (\<lambda>bm. bt_json ''hid'' (JObj (hid_json (bh_hid bm)))) e"

definition bt_steps_error :: string where
  "bt_steps_error = ''body must be {'' @ [CHR 0x22] @ ''steps'' @ [CHR 0x22] @ '': '' @ [CHR 0xC2, CHR 0xB1] @ ''N}''"

definition bt_hid_volume_page :: handler where
  "bt_hid_volume_page e q = with_bt (\<lambda>bm.
     case Option.bind (rq_body q) (\<lambda>b. Option.bind (json_decode b) (field ''steps'' 0 dec_int)) of
       None \<Rightarrow> plain (json_error 400 bt_steps_error)
     | Some n \<Rightarrow>
         if n = 0 then plain (json_error 400 bt_steps_error)
         else (json_reply (JObj (hid_json (bh_hid bm) @ [(''sent'', JBool (bh_steps bm n))])), [BtCalled (BtSteps n)])) e"

definition bt_devices_page :: handler where
  "bt_devices_page e q = with_bt (\<lambda>bm.
     case bh_devices bm of
       Inl msg \<Rightarrow> (json_error 500 msg, [BtCalled (BtRead ''devices'')])
     | Inr ds \<Rightarrow> bt_json ''devices'' (JArr ds)) e"

definition bt_network_page :: handler where
  "bt_network_page e q = with_bt (\<lambda>bm. bt_json ''network'' (JObj [(''up'', JBool (bh_up bm))])) e"

definition bt_known_page :: handler where
  "bt_known_page e q = with_bt (\<lambda>bm. bt_json ''known'' (JArr (bh_known bm))) e"

definition bt_pairing_page :: handler where
  "bt_pairing_page e q = with_bt (\<lambda>bm. bt_json ''pairing''
     (case bh_pairing bm of
        None \<Rightarrow> JObj [(''pending'', JBool False)]
      | Some j \<Rightarrow> JObj [(''pending'', JBool True), (''request'', j)])) e"

definition bt_info_page :: "string \<Rightarrow> handler" where
  "bt_info_page a e q = with_bt (\<lambda>bm.
     (case bh_info bm a of Inl msg \<Rightarrow> json_error 404 msg | Inr j \<Rightarrow> json_reply j, [BtCalled (BtInfo a)])) e"

definition bt_discover_page :: "bool \<Rightarrow> handler" where "bt_discover_page on e q = bt_do 500 (BtDiscoverable on) e"
definition bt_remove_page :: "string \<Rightarrow> handler" where "bt_remove_page a e q = bt_do 500 (BtRemove a) e"
definition bt_connect_page :: "string \<Rightarrow> handler" where "bt_connect_page a e q = bt_do 500 (BtConnectDevice a) e"
definition bt_disconnect_page :: "string \<Rightarrow> handler" where "bt_disconnect_page a e q = bt_do 500 (BtDisconnectDevice a) e"
definition bt_connect_network_page :: "string \<Rightarrow> handler" where
  "bt_connect_network_page a e q = bt_do 500 (BtConnectNetwork a) e"
definition bt_star_page :: "bool \<Rightarrow> string \<Rightarrow> handler" where "bt_star_page s a e q = bt_do 404 (BtStar a s) e"
definition bt_forget_page :: "string \<Rightarrow> handler" where "bt_forget_page a e q = bt_do 500 (BtForget a) e"
definition bt_page_page :: "string \<Rightarrow> handler" where "bt_page_page a e q = bt_do 404 (BtPage a) e"
definition bt_accept_page :: handler where "bt_accept_page e q = bt_do 400 BtAcceptPairing e"
definition bt_deny_page :: handler where "bt_deny_page e q = bt_do 400 BtDenyPairing e"

subsection \<open>The router\<close>

text \<open>The patterns with a method, which take part only when the method fits; GET patterns take HEAD too.\<close>

definition method_routes :: "(string \<times> string \<times> handler) list" where
  "method_routes =
     [(''POST'', ''/api/setup-pi'', setup_pi_page),
      (''GET'', ''/api/setup-pi/status'', setup_pi_status_page),
      (''GET'', ''/api/pi/status'', pi_status_page),
      (''DELETE'', ''/api/pi/profile'', pi_profile_page),
      (''POST'', ''/api/pi/tethering'', tethering_page),
      (''GET'', ''/api/pi/tethering/status'', tethering_status_page),
      (''POST'', ''/api/ha/login'', ha_login_page),
      (''POST'', ''/api/ha/test'', ha_test_page),
      (''POST'', ''/system/reset'', system_page ResetStarted),
      (''POST'', ''/system/restart'', system_page RestartStarted),
      (''POST'', ''/system/suspend'', system_page SuspendStarted),
      (''GET'', ''/system/ambient'', ambient_page),
      (''GET'', ''/settings'', get_settings_page),
      (''PUT'', ''/settings'', put_settings_page),
      (''GET'', ''/bluetooth/hid'', bt_hid_page),
      (''POST'', ''/bluetooth/hid/volume'', bt_hid_volume_page),
      (''POST'', ''/bluetooth/discover/on'', bt_discover_page True),
      (''POST'', ''/bluetooth/discover/off'', bt_discover_page False),
      (''GET'', ''/bluetooth/devices'', bt_devices_page),
      (''GET'', ''/bluetooth/network'', bt_network_page),
      (''GET'', ''/bluetooth/known'', bt_known_page),
      (''GET'', ''/bluetooth/pairing'', bt_pairing_page),
      (''POST'', ''/bluetooth/pairing/accept'', bt_accept_page),
      (''POST'', ''/bluetooth/pairing/deny'', bt_deny_page)]"

text \<open>The patterns with an address: what stands before and after it.\<close>

definition address_routes :: "(string \<times> string \<times> string \<times> (string \<Rightarrow> handler)) list" where
  "address_routes =
     [(''GET'', ''/bluetooth/info/'', [], bt_info_page),
      (''POST'', ''/bluetooth/remove/'', [], bt_remove_page),
      (''POST'', ''/bluetooth/connect/'', [], bt_connect_page),
      (''POST'', ''/bluetooth/disconnect/'', [], bt_disconnect_page),
      (''POST'', ''/bluetooth/network/'', [], bt_connect_network_page),
      (''POST'', ''/bluetooth/known/'', ''/star'', bt_star_page True),
      (''POST'', ''/bluetooth/known/'', ''/unstar'', bt_star_page False),
      (''POST'', ''/bluetooth/known/'', ''/forget'', bt_forget_page),
      (''POST'', ''/bluetooth/known/'', ''/connect'', bt_page_page)]"

definition any_routes :: "(string \<times> handler) list" where
  "any_routes =
     [(''/status'', status_page), (''/debug/status'', debug_status_page), (''/debug/bundle'', debug_bundle_page),
      (''/debug/report'', debug_report_page), (''/debug/ui-error'', debug_ui_error_page),
      (''/observer/status'', observer_status_page), (''/connect/devices'', connect_devices_page),
      (''/connect/refresh'', connect_refresh_page), (''/connect/transfer'', connect_transfer_page),
      (''/ma/devices'', ma_devices_page), (''/ma/player/select'', ma_player_select_page),
      (''/ma/playlists'', ma_playlists_page), (''/ma/playlist-items'', ma_playlist_items_page),
      (''/ma/recent'', ma_recent_page), (''/auth/status'', auth_status_page), (''/player/play'', player_play),
      (''/player/search'', player_search), (''/voice/trigger'', voice_trigger_page), (''/player/resume'', player_resume),
      (''/player/resume_last'', player_resume_last), (''/player/pause'', player_pause),
      (''/player/playpause'', player_playpause), (''/player/next'', player_next), (''/player/prev'', player_prev),
      (''/player/seek'', player_seek), (''/player/volume'', player_volume),
      (''/player/repeat_context'', player_repeat_context), (''/player/repeat_track'', player_repeat_track),
      (''/player/shuffle_context'', player_shuffle_context), (''/player/add_to_queue'', player_add_to_queue),
      (''/player/saved'', player_saved), (''/token'', token_page)]"

definition subtrees :: "(string \<times> handler) list" where
  "subtrees = [(''/web-api/'', web_api_page), (''/ha-api/'', ha_api_page), (''/lyrics/'', lyrics_page)]"

definition method_fits :: "string \<Rightarrow> string \<Rightarrow> bool" where
  "method_fits pattern m \<longleftrightarrow> pattern = m \<or> pattern = ''GET'' \<and> m = ''HEAD''"

definition address_in :: "string \<Rightarrow> string \<Rightarrow> string \<Rightarrow> string option" where
  "address_in before after p =
     (if has_prefix p before \<and> has_suffix (trim_prefix p before) after then
        let a = trim_suffix (trim_prefix p before) after
        in if a = [] \<or> CHR ''/'' \<in> set a then None else Some a
      else None)"

definition find_address :: "http_request \<Rightarrow> handler option" where
  "find_address q =
     (case find (\<lambda>(m, before, after, h). method_fits m (rq_method q) \<and> address_in before after (rq_path q) \<noteq> None)
             address_routes of
        None \<Rightarrow> None
      | Some (m, before, after, h) \<Rightarrow> map_option h (address_in before after (rq_path q)))"

definition find_method :: "http_request \<Rightarrow> handler option" where
  "find_method q =
     map_option (\<lambda>(m, p, h). h) (find (\<lambda>(m, p, h). p = rq_path q \<and> method_fits m (rq_method q)) method_routes)"

definition redirect :: handler where "redirect e q = refuse 307"

text \<open>The most specific pattern; a path that only lacks the slash of a subtree is redirected.\<close>

definition route :: "http_request \<Rightarrow> handler" where
  "route q =
     (case find_method q of
        Some h \<Rightarrow> h
      | None \<Rightarrow>
          (case find_address q of
             Some h \<Rightarrow> h
           | None \<Rightarrow>
               (case map_of any_routes (rq_path q) of
                  Some h \<Rightarrow> h
                | None \<Rightarrow>
                    if rq_path q @ ''/'' \<in> fst ` set subtrees then redirect
                    else case find (\<lambda>(p, h). has_prefix (rq_path q) p) subtrees of
                           Some (p, h) \<Rightarrow> h
                         | None \<Rightarrow> root_page)))"

definition serve :: handler where
  "serve e q = route q e q"

subsection \<open>What reaches the player is sound\<close>

text \<open>What the run loop of the player may rely on.\<close>

fun sound_command :: "command \<Rightarrow> bool" where
  "sound_command (CmdPlay d) = (pd_uri d \<noteq> [])"
| "sound_command (CmdSeek n r) = (r \<or> 0 \<le> n)"
| "sound_command (CmdSetVolume n r) = ((r \<or> 0 \<le> n) \<and> \<bar>n\<bar> \<le> 2147483648)"
| "sound_command (CmdAddToQueue u) = (u \<noteq> [])"
| "sound_command (CmdTransfer i) = (i \<noteq> [])"
| "sound_command (CmdMaSelect i) = (trim_space i \<noteq> [])"
| "sound_command _ = True"

fun sound_request :: "player_request \<Rightarrow> bool" where
  "sound_request (AskCommand c) = sound_command c"
| "sound_request (AskSearch s n) = (trim_space s \<noteq> [])"
| "sound_request (AskGetSaved u) = (u \<noteq> [])"
| "sound_request (AskSetSaved u b) = (u \<noteq> [])"
| "sound_request (AskLyrics l) = (yq_track_id l \<noteq> [])"
| "sound_request (AskMaPlaylistItems i) = (i \<noteq> [])"
| "sound_request (AskMaRecent n) = (1 \<le> n \<and> n \<le> 50)"
| "sound_request (AskWebApiLocal m p kvs) = (m = ''GET'' \<and> is_local_web_api_path p)"
| "sound_request _ = True"

definition sound_handler :: "handler \<Rightarrow> bool" where
  "sound_handler h \<longleftrightarrow> (\<forall>e q rq. Asked rq \<in> set (snd (h e q)) \<longrightarrow> ae_ready e \<and> sound_request rq)"

named_theorems sounds \<open>handlers that ask the player nothing unsound\<close>

lemma asked_by_request: "Asked rq \<in> set (snd (handle_player_request e rq')) \<longleftrightarrow> ae_ready e \<and> rq = rq'"
  by (auto simp: handle_player_request_def refuse_def plain_def)

lemma not_asked [simp]: "snd (refuse c) = []" "snd (plain a) = []"
  by (simp_all add: refuse_def plain_def)

lemma sound_when: "sound_handler h \<Longrightarrow> sound_handler (when_method m h)"
  by (auto simp: sound_handler_def when_method_def)

lemma sound_ask: "sound_request rq \<Longrightarrow> sound_handler (ask_plain m rq)"
  by (auto simp: sound_handler_def ask_plain_def when_method_def asked_by_request split: if_splits)

lemma sound_ask_or: "sound_request rq \<Longrightarrow> sound_handler (ask_or m early rq)"
  by (auto simp: sound_handler_def ask_or_def when_method_def asked_by_request split: if_splits)

lemma sound_decoded:
  "(\<And>x j. d j = Some x \<Longrightarrow> ok x \<Longrightarrow> sound_request (f x)) \<Longrightarrow> sound_handler (ask_decoded m d ok f)"
  by (auto simp: sound_handler_def ask_decoded_def when_method_def asked_by_request dest!: json_body_from
      split: if_splits option.splits)

text \<open>A number is in the range of its decoder, whichever member it comes from.\<close>

lemma field_from: "field k z d j = Some x \<Longrightarrow> x = z \<or> (\<exists>v. d v = Some x)"
  by (auto simp: field_def split: json.splits option.splits)

lemma dec_int32_range: "dec_int32 j = Some n \<Longrightarrow> \<bar>n\<bar> \<le> 2147483648"
  by (auto simp: dec_int32_def dec_int_between_def split: option.splits if_splits)

lemma dec_volume_range: "dec_volume j = Some (n, r) \<Longrightarrow> \<bar>n\<bar> \<le> 2147483648"
  by (auto simp: dec_volume_def dest!: field_from dec_int32_range split: Option.bind_splits)

lemma sound_playback [sounds]:
  "sound_handler player_play" "sound_handler player_search" "sound_handler player_resume"
  "sound_handler player_resume_last" "sound_handler player_pause" "sound_handler player_playpause"
  "sound_handler player_prev" "sound_handler player_next" "sound_handler player_seek"
  "sound_handler player_repeat_context" "sound_handler player_repeat_track"
  "sound_handler player_shuffle_context" "sound_handler player_add_to_queue"
  unfolding playback_handlers by (auto intro!: sound_ask sound_decoded)

lemma sound_volume [sounds]: "sound_handler player_volume"
proof -
  have "sound_handler (ask_decoded ''POST'' dec_volume (\<lambda>(n, r). \<not> (\<not> r \<and> n < 0)) (\<lambda>(n, r). AskCommand (CmdSetVolume n r)))"
    by (auto intro!: sound_decoded dest: dec_volume_range)
  then show ?thesis by (auto simp: sound_handler_def player_volume_def asked_by_request)
qed

lemma sound_saved [sounds]: "sound_handler player_saved"
proof -
  have "sound_handler (ask_decoded ''POST'' dec_saved (\<lambda>(u, b). u \<noteq> []) (\<lambda>(u, b). AskSetSaved u b))"
    by (auto intro!: sound_decoded)
  then show ?thesis by (auto simp: sound_handler_def player_saved_def asked_by_request split: if_splits)
qed

lemma sound_pages [sounds]:
  "sound_handler root_page" "sound_handler status_page" "sound_handler token_page" "sound_handler observer_status_page"
  "sound_handler connect_devices_page" "sound_handler connect_refresh_page" "sound_handler connect_transfer_page"
  "sound_handler ma_player_select_page"
  by (auto simp: root_page_def status_page_def token_page_def observer_status_page_def connect_devices_page_def
      connect_refresh_page_def connect_transfer_page_def ma_player_select_page_def
      intro!: sound_ask sound_ask_or sound_decoded)

lemma sound_lyrics [sounds]: "sound_handler lyrics_page"
  unfolding lyrics_page_def
  by (rule sound_when) (auto simp: sound_handler_def Let_def asked_by_request split: if_splits)

lemma sound_web_api [sounds]: "sound_handler web_api_page"
  by (auto simp: sound_handler_def web_api_page_def Let_def asked_by_request)

lemma asked_by_content: "Asked rq \<in> set (snd (ma_content_page kind rq' e)) \<Longrightarrow> ae_ready e \<and> rq = rq'"
  by (auto simp: ma_content_page_def asked_by_request split: if_splits prod.splits option.splits)

lemma recent_limit_range: "1 \<le> recent_limit q \<and> recent_limit q \<le> 50"
  by (auto simp: recent_limit_def split: option.splits)

lemma sound_ma [sounds]:
  "sound_handler ma_devices_page" "sound_handler ma_playlists_page" "sound_handler ma_playlist_items_page"
  "sound_handler ma_recent_page"
  unfolding ma_devices_page_def ma_playlists_page_def ma_playlist_items_page_def ma_recent_page_def
  by (rule sound_when, (auto simp: sound_handler_def Let_def recent_limit_range dest!: asked_by_content
        split: if_splits)[1])+

lemma silent_handler: "(\<And>e q rq. Asked rq \<notin> set (snd (h e q))) \<Longrightarrow> sound_handler h"
  by (simp add: sound_handler_def)

lemma sound_pi [sounds]:
  "sound_handler setup_pi_page" "sound_handler setup_pi_status_page" "sound_handler pi_status_page"
  "sound_handler tethering_status_page" "sound_handler pi_profile_page" "sound_handler tethering_page"
  by (rule silent_handler, (auto simp: setup_pi_page_def setup_pi_status_page_def pi_status_page_def
        tethering_status_page_def pi_profile_page_def tethering_page_def invalid_body_def status_of_def Let_def
        split: option.splits outcome.splits sum.splits if_splits)[1])+

lemma sound_ha [sounds]: "sound_handler ha_api_page" "sound_handler ha_login_page" "sound_handler ha_test_page"
  by (rule silent_handler, auto simp: ha_api_page_def ha_login_page_def ha_test_page_def
      split: prod.splits option.splits)+

lemma sound_system [sounds]:
  "sound_handler (system_page ResetStarted)" "sound_handler (system_page RestartStarted)"
  "sound_handler (system_page SuspendStarted)" "sound_handler ambient_page" "sound_handler get_settings_page"
  "sound_handler put_settings_page"
  by (rule silent_handler, auto simp: system_page_def ambient_page_def get_settings_page_def put_settings_page_def
      split: option.splits)+

lemma sound_debug [sounds]:
  "sound_handler debug_status_page" "sound_handler debug_bundle_page" "sound_handler debug_report_page"
  "sound_handler debug_ui_error_page" "sound_handler voice_trigger_page" "sound_handler auth_status_page"
  by (rule silent_handler, auto simp: debug_status_page_def debug_bundle_page_def debug_report_page_def
      debug_ui_error_page_def voice_trigger_page_def auth_status_page_def when_method_def Let_def split: option.splits)+

lemmas bt_pages = bt_hid_page_def bt_hid_volume_page_def bt_devices_page_def bt_network_page_def bt_known_page_def
  bt_pairing_page_def bt_info_page_def bt_discover_page_def bt_remove_page_def bt_connect_page_def
  bt_disconnect_page_def bt_connect_network_page_def bt_star_page_def bt_forget_page_def bt_page_page_def
  bt_accept_page_def bt_deny_page_def

lemma sound_bt [sounds]:
  "sound_handler bt_hid_page" "sound_handler bt_hid_volume_page" "sound_handler bt_devices_page"
  "sound_handler bt_network_page" "sound_handler bt_known_page" "sound_handler bt_pairing_page"
  "sound_handler (bt_info_page a)" "sound_handler (bt_discover_page b)" "sound_handler (bt_remove_page a)"
  "sound_handler (bt_connect_page a)" "sound_handler (bt_disconnect_page a)" "sound_handler (bt_connect_network_page a)"
  "sound_handler (bt_star_page b a)" "sound_handler (bt_forget_page a)" "sound_handler (bt_page_page a)"
  "sound_handler bt_accept_page" "sound_handler bt_deny_page"
  by (rule silent_handler, auto simp: bt_pages with_bt_def bt_json_def bt_do_def split: option.splits sum.splits)+

lemma routes_sound:
  "(m, p, h) \<in> set method_routes \<Longrightarrow> sound_handler h"
  "(m, b, a, g) \<in> set address_routes \<Longrightarrow> sound_handler (g x)"
  "(p, k) \<in> set any_routes \<Longrightarrow> sound_handler k"
  "(p, l) \<in> set subtrees \<Longrightarrow> sound_handler l"
     apply (auto simp: method_routes_def sounds)[1]
    apply (auto simp: address_routes_def sounds)[1]
   apply (auto simp: any_routes_def sounds)[1]
  apply (auto simp: subtrees_def sounds)[1]
  done

lemma find_in: "find P xs = Some x \<Longrightarrow> x \<in> set xs \<and> P x"
  by (auto simp: find_Some_iff)

text \<open>Every handler the router can choose: one of the tables, under a pattern that fits.\<close>

lemma route_cases:
  obtains (by_method) m p h where "route q = h" "(m, p, h) \<in> set method_routes" "method_fits m (rq_method q)"
  | (address) m b a g x where "route q = g x" "(m, b, a, g) \<in> set address_routes" "method_fits m (rq_method q)"
      "address_in b a (rq_path q) = Some x"
  | (any) p h where "route q = h" "(p, h) \<in> set any_routes"
  | (redirect) "route q = redirect"
  | (subtree) p h where "route q = h" "(p, h) \<in> set subtrees" "has_prefix (rq_path q) p"
  | (root) "route q = root_page"
proof (cases "find_method q")
  case (Some h)
  then obtain m p where "(m, p, h) \<in> set method_routes" "method_fits m (rq_method q)"
    by (auto simp: find_method_def dest!: find_in)
  with Some by_method show thesis by (auto simp: route_def)
next
  case None
  note no_method = this
  show thesis
  proof (cases "find_address q")
    case (Some h)
    then obtain m b a g x where "(m, b, a, g) \<in> set address_routes" "method_fits m (rq_method q)"
      "address_in b a (rq_path q) = Some x" "h = g x"
      by (auto simp: find_address_def dest!: find_in split: option.splits prod.splits)
    with Some no_method address show thesis by (auto simp: route_def)
  next
    case None
    note no_address = this
    show thesis
    proof (cases "map_of any_routes (rq_path q)")
      case (Some h)
      with no_method no_address any show thesis by (auto simp: route_def dest: map_of_SomeD)
    next
      case None
      note none = no_method no_address this
      show thesis
      proof (cases "rq_path q @ ''/'' \<in> fst ` set subtrees")
        case True
        with none redirect show thesis by (simp add: route_def)
      next
        case False
        note rest = none False
        show thesis
        proof (cases "find (\<lambda>(p, h). has_prefix (rq_path q) p) subtrees")
          case None
          with rest root show thesis by (simp add: route_def)
        next
          case (Some x)
          then obtain p h where "find (\<lambda>(p, h). has_prefix (rq_path q) p) subtrees = Some (p, h)" by (cases x) auto
          with rest subtree find_in [OF this] show thesis by (auto simp: route_def)
        qed
      qed
    qed
  qed
qed

lemma route_sound: "sound_handler (route q)"
proof (cases rule: route_cases [of q])
  case redirect
  then show ?thesis by (simp add: sound_handler_def redirect_def)
qed (auto simp: sounds routes_sound)

text \<open>C35: Whatever arrives at the server, what it passes on to the run loop of the player is sound, and passed on only when
  a player is there to answer: contexts to play and tracks to queue have a uri, positions and volumes that are
  absolute are not negative and volumes fit in 32 bits, searches and selections are not blank, and the limit of a
  page is between 1 and 50.\<close>

theorem api_requests_sound:
  assumes "Asked rq \<in> set (snd (serve e q))"
  shows "ae_ready e \<and> sound_request rq"
  using assms route_sound [of q] by (auto simp: serve_def sound_handler_def)

subsection \<open>Reading changes nothing\<close>

definition ma_content_reads :: "string list" where
  "ma_content_reads = [''players/all'', ''music/browse'', ''music/playlists/playlist_tracks'', ''music/recently_played_items'']"

fun request_changes :: "player_request \<Rightarrow> bool" where
  "request_changes (AskCommand c) = True"
| "request_changes (AskSetSaved u b) = True"
| "request_changes (AskWebApi m p kvs) = (m \<noteq> ''GET'' \<and> m \<noteq> ''HEAD'')"
| "request_changes AskConnectRefresh = True"
| "request_changes AskToken = True"
| "request_changes _ = False"

fun changes :: "api_effect \<Rightarrow> bool" where
  "changes (Asked rq) = request_changes rq"
| "changes (MaPosted lg) = list_ex (\<lambda>p. po_command p \<notin> set ma_content_reads) lg"
| "changes (HaProbed p) = (pb_method p \<noteq> ''GET'' \<and> pb_method p \<noteq> ''HEAD'')"
| "changes (BtCalled (BtRead w)) = False"
| "changes (BtCalled (BtInfo a)) = False"
| "changes _ = True"

definition reading :: "http_request \<Rightarrow> bool" where
  "reading q \<longleftrightarrow> rq_method q = ''GET'' \<or> rq_method q = ''HEAD''"

definition safe_handler :: "handler \<Rightarrow> bool" where
  "safe_handler h \<longleftrightarrow> (\<forall>e q eff. reading q \<longrightarrow> eff \<in> set (snd (h e q)) \<longrightarrow> \<not> changes eff)"

named_theorems safes \<open>handlers that change nothing when they are read\<close>

lemma effect_of_request: "eff \<in> set (snd (handle_player_request e rq)) \<Longrightarrow> eff = Asked rq"
  by (auto simp: handle_player_request_def split: if_splits)

lemma safe_post: "safe_handler (when_method ''POST'' h)"
  by (auto simp: safe_handler_def when_method_def reading_def)

lemma safe_decoded: "safe_handler (ask_decoded ''POST'' d ok f)"
  unfolding ask_decoded_def by (rule safe_post)

lemma safe_ask: "m = ''POST'' \<or> \<not> request_changes rq \<Longrightarrow> safe_handler (ask_plain m rq)"
  by (auto simp: safe_handler_def ask_plain_def when_method_def reading_def dest!: effect_of_request split: if_splits)

lemma safe_ask_or: "m = ''POST'' \<or> \<not> request_changes rq \<Longrightarrow> safe_handler (ask_or m a rq)"
  by (auto simp: safe_handler_def ask_or_def when_method_def reading_def dest!: effect_of_request split: if_splits)

lemma safe_playback [safes]:
  "safe_handler player_play" "safe_handler player_search" "safe_handler player_resume"
  "safe_handler player_resume_last" "safe_handler player_pause" "safe_handler player_playpause"
  "safe_handler player_prev" "safe_handler player_next" "safe_handler player_seek"
  "safe_handler player_repeat_context" "safe_handler player_repeat_track"
  "safe_handler player_shuffle_context" "safe_handler player_add_to_queue"
  "safe_handler connect_transfer_page" "safe_handler ma_player_select_page"
  "safe_handler root_page" "safe_handler status_page" "safe_handler token_page" "safe_handler observer_status_page"
  "safe_handler connect_devices_page" "safe_handler connect_refresh_page"
  unfolding playback_handlers connect_transfer_page_def ma_player_select_page_def root_page_def status_page_def
    token_page_def observer_status_page_def connect_devices_page_def connect_refresh_page_def
  by (auto intro!: safe_ask safe_ask_or safe_decoded)

lemma reading_decoded: "reading q \<Longrightarrow> snd (ask_decoded ''POST'' d ok f e q) = []"
  by (auto simp: ask_decoded_def when_method_def reading_def)

lemma safe_volume [safes]: "safe_handler player_volume" "safe_handler player_saved"
  by (auto simp: safe_handler_def player_volume_def player_saved_def reading_decoded dest!: effect_of_request
      split: if_splits)

lemma safe_web_api [safes]: "safe_handler web_api_page" "safe_handler lyrics_page"
  by (auto simp: safe_handler_def web_api_page_def lyrics_page_def when_method_def Let_def reading_def
      dest!: effect_of_request split: if_splits)

text \<open>The content of Music Assistant is read with read commands.\<close>

abbreviation reads_only :: "ma_post \<Rightarrow> bool" where
  "reads_only p \<equiv> po_command p \<in> set ma_content_reads"

lemma read_query:
  "ma_query net c command args d lg = (r, lg') \<Longrightarrow> command \<in> set ma_content_reads \<Longrightarrow> sends reads_only lg lg'"
  by (erule ma_query_sends) (simp add: ma_post_of_def)

lemma content_reads:
  "list_players net c lg = (a, lg') \<Longrightarrow> sends reads_only lg lg'"
  "browse net c p lg = (b, lg') \<Longrightarrow> sends reads_only lg lg'"
  "playlist_tracks net c i lg = (d, lg') \<Longrightarrow> sends reads_only lg lg'"
  "recently_played net c n u ts f lg = (d, lg') \<Longrightarrow> sends reads_only lg lg'"
  by (auto simp: list_players_def browse_def playlist_tracks_def recently_played_def ma_content_reads_def
      dest!: read_query split: prod.splits sum.splits)

lemma folders_read: "browse_folders net c fs lg = (x, lg') \<Longrightarrow> sends reads_only lg lg'"
proof (induction net c fs lg arbitrary: x lg' rule: browse_folders.induct)
  case (2 net c f fs lg)
  then show ?case
    by (auto split: if_splits prod.splits sum.splits dest!: content_reads(2) intro: sends_trans)
qed simp

lemma payload_reads: "ma_content_payload net c kind = (x, lg) \<Longrightarrow> sends reads_only [] lg"
  by (auto simp: ma_content_payload_def ma_browse_playlists_def ma_apply_recent_playlist_order_def
      split: ma_content.splits prod.splits sum.splits if_splits
      dest!: content_reads folders_read intro: sends_trans)

lemma content_page_safe: "eff \<in> set (snd (ma_content_page kind rq e)) \<Longrightarrow> \<not> request_changes rq \<Longrightarrow> \<not> changes eff"
proof -
  have posts: "\<not> changes (MaPosted lg)" if "serve_ma_pre_session e kind = (x, lg)" for x lg
    using that by (auto simp: serve_ma_pre_session_def sends_def list_all_iff list_ex_iff
        dest!: payload_reads split: option.splits if_splits prod.splits)
  show "eff \<in> set (snd (ma_content_page kind rq e)) \<Longrightarrow> \<not> request_changes rq \<Longrightarrow> \<not> changes eff"
    using posts by (auto simp: ma_content_page_def dest!: effect_of_request split: if_splits prod.splits option.splits)
qed

lemma safe_ma [safes]:
  "safe_handler ma_devices_page" "safe_handler ma_playlists_page" "safe_handler ma_playlist_items_page"
  "safe_handler ma_recent_page"
  by (auto simp: safe_handler_def ma_devices_page_def ma_playlists_page_def ma_playlist_items_page_def ma_recent_page_def
      when_method_def Let_def split: if_splits dest!: content_page_safe)

lemma safe_ha [safes]: "safe_handler ha_api_page"
  by (auto simp: safe_handler_def ha_api_page_def handle_ha_api_proxy_def ha_proxy_request_def reading_def Let_def
      split: option.splits if_splits prod.splits)

lemma safe_status [safes]:
  "safe_handler setup_pi_status_page" "safe_handler pi_status_page" "safe_handler tethering_status_page"
  "safe_handler ambient_page" "safe_handler get_settings_page" "safe_handler debug_status_page"
  "safe_handler debug_bundle_page" "safe_handler auth_status_page"
  by (auto simp: safe_handler_def setup_pi_status_page_def pi_status_page_def tethering_status_page_def status_of_def
      ambient_page_def get_settings_page_def debug_status_page_def debug_bundle_page_def auth_status_page_def
      when_method_def split: option.splits if_splits)

lemma safe_debug [safes]:
  "safe_handler debug_report_page" "safe_handler debug_ui_error_page" "safe_handler voice_trigger_page"
  by (simp_all add: debug_report_page_def debug_ui_error_page_def voice_trigger_page_def safe_post)

lemma safe_bt [safes]:
  "safe_handler bt_hid_page" "safe_handler bt_devices_page" "safe_handler bt_network_page" "safe_handler bt_known_page"
  "safe_handler bt_pairing_page" "safe_handler (bt_info_page a)"
  by (auto simp: safe_handler_def bt_pages with_bt_def bt_json_def split: option.splits sum.splits)

lemma routes_safe:
  "(''GET'', p, h) \<in> set method_routes \<Longrightarrow> safe_handler h"
  "(''GET'', b, a, g) \<in> set address_routes \<Longrightarrow> safe_handler (g x)"
  "(p, k) \<in> set any_routes \<Longrightarrow> safe_handler k"
  "(p, l) \<in> set subtrees \<Longrightarrow> safe_handler l"
     apply (auto simp: method_routes_def safes)[1]
    apply (auto simp: address_routes_def safes)[1]
   apply (auto simp: any_routes_def safes)[1]
  apply (auto simp: subtrees_def safes)[1]
  done

lemma reading_fits: "method_fits m (rq_method q) \<Longrightarrow> reading q \<Longrightarrow> (m, p, h) \<in> set method_routes \<Longrightarrow> m = ''GET''"
  by (auto simp: method_fits_def reading_def method_routes_def)

lemma reading_fits_address:
  "method_fits m (rq_method q) \<Longrightarrow> reading q \<Longrightarrow> (m, b, a, g) \<in> set address_routes \<Longrightarrow> m = ''GET''"
  by (auto simp: method_fits_def reading_def address_routes_def)

text \<open>C36: A GET or HEAD request changes nothing, whatever its path: no command reaches the player or the Bluetooth
  manager, no settings are stored, no job, reset or report starts, and what is asked of Music Assistant and of Home
  Assistant only reads.\<close>

theorem api_reading_is_safe:
  assumes "rq_method q = ''GET'' \<or> rq_method q = ''HEAD''" and "eff \<in> set (snd (serve e q))"
  shows "\<not> changes eff"
proof -
  have r: "reading q" using assms(1) by (simp add: reading_def)
  have by_handler: "\<not> changes eff" if "safe_handler h" "route q = h" for h
    using r assms(2) that by (auto simp: serve_def safe_handler_def)
  show ?thesis
  proof (cases rule: route_cases [of q])
    case (by_method m p h)
    then show ?thesis using reading_fits [of m q p h] r routes_safe(1) by_handler by blast
  next
    case (address m b a g x)
    then show ?thesis using reading_fits_address [of m q b a g] r routes_safe(2) by_handler by blast
  next
    case redirect
    then show ?thesis using assms(2) by (simp add: serve_def redirect_def)
  next
    case (any p h)
    then show ?thesis using routes_safe(3) by_handler by blast
  next
    case (subtree p h)
    then show ?thesis using routes_safe(4) by_handler by blast
  next
    case root
    then show ?thesis using safe_playback by_handler by blast
  qed
qed

subsection \<open>Two requests\<close>

definition sample_api :: api_env where
  "sample_api = \<lparr>ae_ready = True, ae_player = (\<lambda>_. ReplyJson JNull), ae_parse = sample_url_parser, ae_settings = None,
     ae_ha_defaults = \<lparr>ht_url = [], ht_token = []\<rparr>, ae_ha_login = sample_script, ae_ha_probe = (\<lambda>_. None),
     ae_ha_send = (\<lambda>_. None), ae_ma_net = (\<lambda>n p. NoResponse), ae_auth = None, ae_debug = None, ae_system = True,
     ae_voice = None, ae_setup = None, ae_pi_status = None, ae_pi_profile = None, ae_tethering = None,
     ae_bluetooth = None, ae_lux = None\<rparr>"

definition sample_http :: "string \<Rightarrow> string \<Rightarrow> string \<Rightarrow> http_request" where
  "sample_http m p b = \<lparr>rq_method = m, rq_path = p, rq_raw_query = [], rq_query = [], rq_body = Some b\<rparr>"

lemma seek_reaches_player:
  "snd (serve sample_api (sample_http ''POST'' ''/player/seek'' (js ''{~position~:5}''))) = [Asked (AskCommand (CmdSeek 5 False))]"
  by code_simp

text \<open>The reset is registered for POST; the root page, which has no method, takes the rest.\<close>

lemma reset_needs_post:
  "snd (serve sample_api (sample_http ''POST'' ''/system/reset'' [])) = [ResetStarted]"
  "snd (serve sample_api (sample_http ''GET'' ''/system/reset'' [])) = [Asked AskRoot]"
  by code_simp+

theorem api_requests_sound_witness:
  "ae_ready sample_api \<and> sound_request (AskCommand (CmdSeek 5 False))"
  by (rule api_requests_sound [of _ _ "sample_http ''POST'' ''/player/seek'' (js ''{~position~:5}'')"])
    (simp add: seek_reaches_player)

theorem api_reading_is_safe_witness: "\<not> changes (Asked AskRoot)"
  by (rule api_reading_is_safe [of "sample_http ''GET'' ''/system/reset'' []" _ sample_api])
    (simp_all add: reset_needs_post, simp add: sample_http_def)

end
