(* ===== verification/ApiEvents.thy ===== *)
theory ApiEvents
  imports Main "HOL-Library.Multiset" "HOL-Library.Sublist"
begin

text \<open>
  What is shared between the goroutines of the HTTP server, of \<open>daemon/api_server.go\<close>: the subscribers of
  \<open>/events\<close> with \<open>Emit\<close>, \<open>removeClient\<close> and \<open>Close\<close>, and the callbacks of \<open>OnPlayerReady\<close>.

  Every step is what one goroutine does between two points where another may run: a critical section under
  the write lock, one send of an \<open>Emit\<close> that holds the read lock, one close of a channel. Sending on a closed
  channel and closing it twice panic. The sockets are reduced to the writes that a writer takes from its channel and to the moment
  when a read or a write fails.
\<close>

subsection \<open>Subscribers\<close>

text \<open>How far the teardown of a subscriber is: its \<open>closeOnce\<close> is free, taken, past the unlinking, or done.\<close>

datatype teardown = Unclaimed | Unlinking | Unlinked | Shut

record 'e hub =
  hb_next :: nat
  hb_linked :: "nat list"
  hb_teardown :: "nat \<Rightarrow> teardown"
  hb_closes :: "nat \<Rightarrow> nat"
  hb_buffer :: "nat \<Rightarrow> 'e list"
  hb_offered :: "nat \<Rightarrow> 'e list"
  hb_taken :: "nat \<Rightarrow> 'e list"
  hb_emits :: "nat \<Rightarrow> ('e \<times> nat list) option"
  hb_closing :: "nat list"
  hb_panicked :: bool

definition ws_client_buffer :: nat where "ws_client_buffer = 64"

definition new_hub :: "'e hub" where
  "new_hub = \<lparr>hb_next = 0, hb_linked = [], hb_teardown = (\<lambda>_. Unclaimed), hb_closes = (\<lambda>_. 0), hb_buffer = (\<lambda>_. []),
     hb_offered = (\<lambda>_. []), hb_taken = (\<lambda>_. []), hb_emits = Map.empty, hb_closing = [], hb_panicked = False\<rparr>"

text \<open>Nobody holds the read lock, so that the write lock can be taken.\<close>

definition unread :: "'e hub \<Rightarrow> bool" where
  "unread h \<longleftrightarrow> (\<forall>i. hb_emits h i = None)"

text \<open>A send that does not block: a full channel drops the event.\<close>

definition offer :: "'e \<Rightarrow> nat \<Rightarrow> 'e hub \<Rightarrow> 'e hub" where
  "offer ev c h =
     (if hb_closes h c > 0 then h\<lparr>hb_panicked := True\<rparr>
      else let h' = h\<lparr>hb_offered := (hb_offered h)(c := hb_offered h c @ [ev])\<rparr>
           in if length (hb_buffer h c) < ws_client_buffer
              then h'\<lparr>hb_buffer := (hb_buffer h)(c := hb_buffer h c @ [ev])\<rparr> else h')"

definition close_channel :: "nat \<Rightarrow> 'e hub \<Rightarrow> 'e hub" where
  "close_channel c h =
     (if hb_closes h c > 0 then h\<lparr>hb_panicked := True\<rparr>
      else h\<lparr>hb_closes := (hb_closes h)(c := Suc (hb_closes h c))\<rparr>)"

definition teardown_to :: "teardown \<Rightarrow> nat \<Rightarrow> 'e hub \<Rightarrow> 'e hub" where
  "teardown_to t c h = h\<lparr>hb_teardown := (hb_teardown h)(c := t)\<rparr>"

inductive hub_step :: "'e hub \<Rightarrow> 'e hub \<Rightarrow> bool" where
  subscribe: "unread h \<Longrightarrow> hub_step h (h\<lparr>hb_next := Suc (hb_next h), hb_linked := hb_linked h @ [hb_next h]\<rparr>)"
| emit_begin: "hb_emits h i = None \<Longrightarrow> hub_step h (h\<lparr>hb_emits := (hb_emits h)(i \<mapsto> (ev, hb_linked h))\<rparr>)"
| emit_send: "hb_emits h i = Some (ev, c # cs) \<Longrightarrow>
    hub_step h (offer ev c (h\<lparr>hb_emits := (hb_emits h)(i \<mapsto> (ev, cs))\<rparr>))"
| emit_end: "hb_emits h i = Some (ev, []) \<Longrightarrow> hub_step h (h\<lparr>hb_emits := (hb_emits h)(i := None)\<rparr>)"
| take_event: "hb_buffer h c = ev # evs \<Longrightarrow>
    hub_step h (h\<lparr>hb_buffer := (hb_buffer h)(c := evs), hb_taken := (hb_taken h)(c := hb_taken h c @ [ev])\<rparr>)"
| claim: "c < hb_next h \<Longrightarrow> hb_teardown h c = Unclaimed \<Longrightarrow> hub_step h (teardown_to Unlinking c h)"
| unlink: "hb_teardown h c = Unlinking \<Longrightarrow> unread h \<Longrightarrow>
    hub_step h (teardown_to Unlinked c (h\<lparr>hb_linked := remove1 c (hb_linked h)\<rparr>))"
| shut: "hb_teardown h c = Unlinked \<Longrightarrow> hub_step h (teardown_to Shut c (close_channel c h))"
| close_begin: "unread h \<Longrightarrow> hub_step h (h\<lparr>hb_closing := hb_closing h @ hb_linked h, hb_linked := []\<rparr>)"
| close_client: "c \<in> set (hb_closing h) \<Longrightarrow> hb_teardown h c = Unclaimed \<Longrightarrow>
    hub_step h (teardown_to Shut c (close_channel c (h\<lparr>hb_closing := remove1 c (hb_closing h)\<rparr>)))"
| close_done: "c \<in> set (hb_closing h) \<Longrightarrow> hb_teardown h c = Shut \<Longrightarrow>
    hub_step h (h\<lparr>hb_closing := remove1 c (hb_closing h)\<rparr>)"

abbreviation hub_reachable :: "'e hub \<Rightarrow> bool" where
  "hub_reachable h \<equiv> hub_step\<^sup>*\<^sup>* new_hub h"

lemmas hub_defs = offer_def close_channel_def teardown_to_def unread_def

subsection \<open>The invariant\<close>

text \<open>Whoever an \<open>Emit\<close> may still send to is linked; whoever is linked has an open channel.\<close>

definition hub_ok :: "'e hub \<Rightarrow> bool" where
  "hub_ok h \<longleftrightarrow>
     distinct (hb_linked h) \<and>
     (\<forall>c \<in> set (hb_linked h). c < hb_next h \<and> (hb_teardown h c = Unclaimed \<or> hb_teardown h c = Unlinking)) \<and>
     (\<forall>i ev cs. hb_emits h i = Some (ev, cs) \<longrightarrow> set cs \<subseteq> set (hb_linked h)) \<and>
     (\<forall>c \<in> set (hb_closing h). c < hb_next h \<and> c \<notin> set (hb_linked h)) \<and>
     (\<forall>c. hb_closes h c = (if hb_teardown h c = Shut then 1 else 0)) \<and>
     (\<forall>c. hb_teardown h c \<noteq> Unclaimed \<longrightarrow> c < hb_next h) \<and>
     \<not> hb_panicked h"

lemma hub_ok_new: "hub_ok new_hub"
  by (simp add: hub_ok_def new_hub_def)

lemma hub_ok_step: "hub_step h h' \<Longrightarrow> hub_ok h \<Longrightarrow> hub_ok h'"
proof (induction rule: hub_step.induct)
  case (subscribe h)
  then show ?case by (force simp: hub_ok_def)
next
  case (emit_begin h i ev)
  then show ?case by (auto simp: hub_ok_def)
next
  case (emit_send h i ev c cs)
  then have "set (c # cs) \<subseteq> set (hb_linked h)" unfolding hub_ok_def by blast
  then have "hb_closes h c = 0" using emit_send by (auto simp: hub_ok_def)
  with emit_send show ?case by (fastforce simp: hub_ok_def offer_def Let_def)
next
  case (emit_end h i ev)
  then show ?case by (auto simp: hub_ok_def)
next
  case (take_event h c ev evs)
  then show ?case by (auto simp: hub_ok_def)
next
  case (claim c h)
  then show ?case by (auto simp: hub_ok_def teardown_to_def)
next
  case (unlink h c)
  then show ?case by (auto simp: hub_ok_def hub_defs)
next
  case (shut h c)
  then show ?case by (auto simp: hub_ok_def hub_defs)
next
  case (close_begin h)
  then show ?case by (auto simp: hub_ok_def unread_def)
next
  case (close_client c h)
  then show ?case by (auto simp: hub_ok_def hub_defs dest: notin_set_remove1 set_remove1_subset [THEN subsetD])
next
  case (close_done c h)
  then show ?case by (auto simp: hub_ok_def dest: set_remove1_subset [THEN subsetD])
qed

lemma hub_ok_reachable: "hub_reachable h \<Longrightarrow> hub_ok h"
  by (induction rule: rtranclp_induct) (auto intro: hub_ok_new hub_ok_step)

text \<open>The stream of a subscriber: in the order of the sends, with gaps only where the channel was full.\<close>

definition stream_ok :: "'e hub \<Rightarrow> bool" where
  "stream_ok h \<longleftrightarrow>
     (\<forall>c. subseq (hb_taken h c @ hb_buffer h c) (hb_offered h c) \<and> length (hb_buffer h c) \<le> ws_client_buffer)"

lemma subseq_snoc: "subseq xs ys \<Longrightarrow> subseq (xs @ [e]) (ys @ [e])"
  by (simp add: subseq_append')

lemma subseq_more: "subseq xs ys \<Longrightarrow> subseq xs (ys @ [e])"
  by (simp add: subseq_rev_drop_many)

lemma stream_ok_step: "hub_step h h' \<Longrightarrow> stream_ok h \<Longrightarrow> stream_ok h'"
proof (induction rule: hub_step.induct)
  case (emit_send h i ev c cs)
  then have "subseq (hb_taken h c @ hb_buffer h c @ [ev]) (hb_offered h c @ [ev])"
    using subseq_snoc [of "hb_taken h c @ hb_buffer h c" "hb_offered h c" ev] by (simp add: stream_ok_def)
  with emit_send show ?case by (auto simp: stream_ok_def offer_def Let_def intro: subseq_more)
next
  case (take_event h c ev evs)
  then have "subseq (hb_taken h c @ ev # evs) (hb_offered h c)" "Suc (length evs) \<le> ws_client_buffer"
    unfolding stream_ok_def by (metis, metis length_Cons)
  with take_event show ?case by (auto simp: stream_ok_def)
qed (auto simp: stream_ok_def hub_defs Let_def)

text \<open>C37: In no interleaving of subscribing, emitting, failing connections and closing does the server panic: nothing is
  sent on a closed channel, and no channel is closed twice, although a subscriber is torn down from its reader,
  its writer and \<open>Close\<close> at once, while events are under way to it.\<close>

theorem event_hub_never_panics:
  assumes "hub_reachable h"
  shows "\<not> hb_panicked h"
  using hub_ok_reachable [OF assms] by (simp add: hub_ok_def)

lemma stream_in_order:
  assumes "hub_reachable h"
  shows "subseq (hb_taken h c @ hb_buffer h c) (hb_offered h c)" and "length (hb_buffer h c) \<le> ws_client_buffer"
proof -
  have "stream_ok h" using assms
  proof (induction rule: rtranclp_induct)
    case base
    show ?case by (simp add: stream_ok_def new_hub_def)
  qed (rule stream_ok_step)
  then show "subseq (hb_taken h c @ hb_buffer h c) (hb_offered h c)" "length (hb_buffer h c) \<le> ws_client_buffer"
    by (auto simp: stream_ok_def)
qed

text \<open>A run in which an event is under way while the connection fails and the server closes.\<close>

lemma torn_run: "\<exists>h. hub_reachable h \<and> hb_offered h 0 = [7 :: nat] \<and> hb_teardown h 0 = Shut \<and> hb_closes h 0 = 1"
proof -
  let ?h1 = "(new_hub :: nat hub)\<lparr>hb_next := 1, hb_linked := [0]\<rparr>"
  let ?h2 = "?h1\<lparr>hb_emits := Map.empty(0 \<mapsto> (7, [0]))\<rparr>"
  let ?h3 = "teardown_to Unlinking 0 ?h2"
  let ?h4 = "offer 7 0 (?h3\<lparr>hb_emits := (hb_emits ?h3)(0 \<mapsto> (7, []))\<rparr>)"
  let ?h5 = "?h4\<lparr>hb_emits := (hb_emits ?h4)(0 := None)\<rparr>"
  let ?h6 = "?h5\<lparr>hb_closing := hb_closing ?h5 @ hb_linked ?h5, hb_linked := []\<rparr>"
  let ?h7 = "teardown_to Unlinked 0 (?h6\<lparr>hb_linked := remove1 0 (hb_linked ?h6)\<rparr>)"
  let ?h8 = "teardown_to Shut 0 (close_channel 0 ?h7)"
  have "hub_step new_hub ?h1" using subscribe [of "new_hub :: nat hub"] by (simp add: new_hub_def unread_def)
  moreover have "hub_step ?h1 ?h2" using emit_begin [of ?h1 0 7] by (simp add: new_hub_def)
  moreover have "hub_step ?h2 ?h3" by (rule claim) (simp_all add: new_hub_def)
  moreover have "hub_step ?h3 ?h4" by (rule emit_send) (simp add: teardown_to_def)
  moreover have "hub_step ?h4 ?h5" by (rule emit_end [of _ _ 7]) (simp add: hub_defs new_hub_def Let_def)
  moreover have "hub_step ?h5 ?h6" by (rule close_begin) (simp add: hub_defs new_hub_def Let_def)
  moreover have "hub_step ?h6 ?h7" by (rule unlink) (simp_all add: hub_defs new_hub_def Let_def)
  moreover have "hub_step ?h7 ?h8" by (rule shut) (simp add: hub_defs new_hub_def Let_def)
  ultimately have "hub_reachable ?h8" by (meson rtranclp.rtrancl_into_rtrancl rtranclp.rtrancl_refl)
  then show ?thesis by (intro exI [of _ ?h8]) (simp add: hub_defs new_hub_def Let_def)
qed

theorem event_hub_never_panics_witness:
  "\<exists>h :: nat hub. \<not> hb_panicked h \<and> hb_offered h 0 = [7 :: nat] \<and> hb_teardown h 0 = Shut"
  using torn_run event_hub_never_panics by blast

subsection \<open>Callbacks for a ready player\<close>

text \<open>A registration holds the lock while it looks at the flag and queues the callback; who sets the flag takes the
  queue under the same lock, after the flag.\<close>

record 'f ready_state =
  rd_ready :: bool
  rd_takers :: nat
  rd_queue :: "'f list"
  rd_lock :: "('f \<times> bool) option"
  rd_running :: "'f multiset"
  rd_run :: "'f multiset"
  rd_registered :: "'f multiset"

definition new_ready :: "'f ready_state" where
  "new_ready = \<lparr>rd_ready = False, rd_takers = 0, rd_queue = [], rd_lock = None, rd_running = {#}, rd_run = {#},
     rd_registered = {#}\<rparr>"

inductive ready_step :: "'f ready_state \<Rightarrow> 'f ready_state \<Rightarrow> bool" where
  set_ready: "\<not> rd_ready r \<Longrightarrow> ready_step r (r\<lparr>rd_ready := True, rd_takers := Suc (rd_takers r)\<rparr>)"
| set_unready: "ready_step r (r\<lparr>rd_ready := False\<rparr>)"
| take_queue: "rd_takers r = Suc n \<Longrightarrow> rd_lock r = None \<Longrightarrow>
    ready_step r (r\<lparr>rd_takers := n, rd_queue := [], rd_running := rd_running r + mset (rd_queue r)\<rparr>)"
| register: "rd_lock r = None \<Longrightarrow>
    ready_step r (r\<lparr>rd_lock := Some (f, rd_ready r), rd_registered := add_mset f (rd_registered r)\<rparr>)"
| run_at_once: "rd_lock r = Some (f, True) \<Longrightarrow>
    ready_step r (r\<lparr>rd_lock := None, rd_running := add_mset f (rd_running r)\<rparr>)"
| queue_up: "rd_lock r = Some (f, False) \<Longrightarrow> ready_step r (r\<lparr>rd_lock := None, rd_queue := rd_queue r @ [f]\<rparr>)"
| call_back: "f \<in># rd_running r \<Longrightarrow>
    ready_step r (r\<lparr>rd_running := rd_running r - {#f#}, rd_run := add_mset f (rd_run r)\<rparr>)"

abbreviation ready_reachable :: "'f ready_state \<Rightarrow> bool" where
  "ready_reachable r \<equiv> ready_step\<^sup>*\<^sup>* new_ready r"

definition in_lock :: "'f ready_state \<Rightarrow> 'f multiset" where
  "in_lock r = (case rd_lock r of None \<Rightarrow> {#} | Some (f, b) \<Rightarrow> {#f#})"

definition ready_inv :: "'f ready_state \<Rightarrow> bool" where
  "ready_inv r \<longleftrightarrow>
     rd_registered r = in_lock r + mset (rd_queue r) + rd_running r + rd_run r \<and>
     (rd_queue r \<noteq> [] \<or> (\<exists>f. rd_lock r = Some (f, False)) \<longrightarrow> \<not> rd_ready r \<or> rd_takers r > 0)"

lemma ready_inv_step: "ready_step r r' \<Longrightarrow> ready_inv r \<Longrightarrow> ready_inv r'"
proof (induction rule: ready_step.induct)
  case (call_back f r)
  then have "add_mset f (rd_running r - {#f#}) = rd_running r" by simp
  with call_back show ?case
    by (simp add: ready_inv_def in_lock_def)
qed (auto simp: ready_inv_def in_lock_def)

lemma ready_inv_reachable: "ready_reachable r \<Longrightarrow> ready_inv r"
proof (induction rule: rtranclp_induct)
  case base
  show ?case by (simp add: ready_inv_def in_lock_def new_ready_def)
qed (rule ready_inv_step)

text \<open>C38: Once the player is ready and nothing is under way, every callback that was ever registered has run exactly as
  often as it was registered, whether it came before the flag, after it, or while the flag was being set.\<close>

theorem ready_callbacks_run_once:
  assumes "ready_reachable r" and "rd_ready r" and "rd_takers r = 0" and "rd_lock r = None" and "rd_running r = {#}"
  shows "rd_run r = rd_registered r"
  using ready_inv_reachable [OF assms(1)] assms(2-5) by (auto simp: ready_inv_def in_lock_def)

text \<open>A registration that sees the flag unset while it is being set.\<close>

lemma raced_registration:
  "\<exists>r. ready_reachable r \<and> rd_ready r \<and> rd_takers r = 0 \<and> rd_lock r = None \<and> rd_running r = {#} \<and> rd_registered r = {#5 :: nat#}"
proof -
  let ?r1 = "(new_ready :: nat ready_state)\<lparr>rd_lock := Some (5, False), rd_registered := {#5#}\<rparr>"
  let ?r2 = "?r1\<lparr>rd_ready := True, rd_takers := 1\<rparr>"
  let ?r3 = "?r2\<lparr>rd_lock := None, rd_queue := [5]\<rparr>"
  let ?r4 = "?r3\<lparr>rd_takers := 0, rd_queue := [], rd_running := {#5#}\<rparr>"
  let ?r5 = "?r4\<lparr>rd_running := {#}, rd_run := {#5#}\<rparr>"
  have "ready_step new_ready ?r1" using register [of new_ready 5] by (simp add: new_ready_def)
  moreover have "ready_step ?r1 ?r2" using set_ready [of ?r1] by (simp add: new_ready_def)
  moreover have "ready_step ?r2 ?r3" using queue_up [of ?r2 5] by (simp add: new_ready_def)
  moreover have "ready_step ?r3 ?r4" using take_queue [of ?r3 0] by (simp add: new_ready_def)
  moreover have "ready_step ?r4 ?r5" using call_back [of 5 ?r4] by (simp add: new_ready_def)
  ultimately have "ready_reachable ?r5" by (meson rtranclp.rtrancl_into_rtrancl rtranclp.rtrancl_refl)
  then show ?thesis by (intro exI [of _ ?r5]) (simp add: new_ready_def)
qed

theorem ready_callbacks_run_once_witness: "\<exists>r :: nat ready_state. rd_run r = {#5#} \<and> rd_ready r"
  using raced_registration ready_callbacks_run_once by metis

end
