(* ===== verification/AppLife.thy ===== *)
theory AppLife
  imports Pathfinder BtKnown VoiceG2p
begin

text \<open>
  The application around the components: \<open>daemon/app.go\<close> with its network monitor, the barrier that parks what needs
  the network, the retries of a session, the settings and the tokens it stores; \<open>daemon/checkin.go\<close>,
  \<open>daemon/backlight_conf.go\<close>, \<open>daemon/clock_watch.go\<close>, the chord of \<open>daemon/debug_buttons.go\<close> and the readers of
  \<open>daemon/debug_status.go\<close>.

  Pings, files, processes, sessions and the store are answers of the environment; the text of a time is an argument.
\<close>

named_theorems app_defs \<open>the small functions of the application\<close>

subsection \<open>The network monitor\<close>

record monitor =
  nm_online :: bool
  nm_fails :: nat
  nm_emitted :: bool
  nm_since :: nat

definition new_monitor :: monitor where
  "new_monitor = \<lparr>nm_online = False, nm_fails = 0, nm_emitted = False, nm_since = 0\<rparr>"

definition fail_threshold :: nat where "fail_threshold = 3"
definition rebroadcast_ticks :: nat where "rebroadcast_ticks = 15"

datatype monitor_effect = EmitStatus bool | Transition bool

text \<open>What a probe changes, with its effects; then the broadcast for late subscribers.\<close>

definition monitor_probe :: "bool \<Rightarrow> monitor \<Rightarrow> monitor_effect list \<times> monitor" where
  "monitor_probe ok m =
     (if ok then
        let m1 = m\<lparr>nm_fails := 0\<rparr>
        in if \<not> nm_online m \<or> \<not> nm_emitted m
           then ([EmitStatus True, Transition True], m1\<lparr>nm_online := True, nm_emitted := True, nm_since := 0\<rparr>)
           else ([], m1)
      else
        let m1 = m\<lparr>nm_fails := Suc (nm_fails m)\<rparr>
        in if nm_fails m1 \<ge> fail_threshold \<and> (nm_online m \<or> \<not> nm_emitted m)
           then ([EmitStatus False, Transition False], m1\<lparr>nm_online := False, nm_emitted := True, nm_since := 0\<rparr>)
           else ([], m1))"

definition monitor_tick :: "bool \<Rightarrow> bool \<Rightarrow> monitor \<Rightarrow> monitor_effect list \<times> monitor" where
  "monitor_tick ping confirm m =
     (case monitor_probe (ping \<or> confirm) m of
        (es, m1) \<Rightarrow>
          if \<not> nm_emitted m1 then (es, m1)
          else let m2 = m1\<lparr>nm_since := Suc (nm_since m1)\<rparr>
               in if nm_since m2 \<ge> rebroadcast_ticks then (es @ [EmitStatus (nm_online m2)], m2\<lparr>nm_since := 0\<rparr>)
                  else (es, m2))"

fun monitor_run :: "(bool \<times> bool) list \<Rightarrow> monitor \<Rightarrow> monitor_effect list \<times> monitor" where
  "monitor_run [] m = ([], m)"
| "monitor_run ((p, c) # ticks) m =
     (case monitor_tick p c m of (es, m1) \<Rightarrow> (case monitor_run ticks m1 of (fs, m2) \<Rightarrow> (es @ fs, m2)))"

subsection \<open>The barrier for the network\<close>

text \<open>The channel that \<open>setOnlineState\<close> closes and replaces is a generation; a waiter holds the one it saw.\<close>

record online_state =
  on_online :: bool
  on_gen :: nat
  on_closed :: "nat set"
  on_drops :: nat
  on_waiting :: "(nat \<times> nat) set"  \<comment> \<open>a waiter and its generation\<close>

definition new_online :: online_state where
  "new_online = \<lparr>on_online = False, on_gen = 0, on_closed = {}, on_drops = 0, on_waiting = {}\<rparr>"

definition set_online_state :: "bool \<Rightarrow> online_state \<Rightarrow> online_state" where
  "set_online_state up s =
     (if on_online s = up then s
      else let s1 = (if on_online s \<and> \<not> up then s\<lparr>on_drops := Suc (on_drops s)\<rparr> else s);
               s2 = s1\<lparr>on_online := up\<rparr>
           in if up then s2\<lparr>on_closed := insert (on_gen s2) (on_closed s2), on_gen := Suc (on_gen s2)\<rparr> else s2)"

text \<open>The part under the lock: whether the caller may go on, or the generation it waits for.\<close>

definition wait_online_begin :: "nat \<Rightarrow> online_state \<Rightarrow> bool \<times> online_state" where
  "wait_online_begin w s =
     (if on_online s then (True, s) else (False, s\<lparr>on_waiting := insert (w, on_gen s) (on_waiting s)\<rparr>))"

datatype wait_end = WaitCancelled | WaitTimedOut | WaitOnline

definition wait_may_end :: "online_state \<Rightarrow> nat \<Rightarrow> bool" where
  "wait_may_end s g \<longleftrightarrow> g \<in> on_closed s"

inductive online_step :: "online_state \<Rightarrow> online_state \<Rightarrow> bool" where
  set_online: "online_step s (set_online_state b s)"
| begin_wait: "wait_online_begin w s = (False, t) \<Longrightarrow> online_step s t"
| end_wait: "(w, g) \<in> on_waiting s \<Longrightarrow> e = WaitOnline \<longrightarrow> wait_may_end s g \<Longrightarrow>
    online_step s (s\<lparr>on_waiting := on_waiting s - {(w, g)}\<rparr>)"

subsection \<open>The retries of a session\<close>

definition session_retry_cap :: duration where "session_retry_cap = seconds 30"

definition session_retry_backoff :: "nat \<Rightarrow> duration" where
  "session_retry_backoff attempt =
     (if attempt \<ge> 5 then session_retry_cap
      else let d = seconds (2 ^ attempt) in if d < session_retry_cap then d else session_retry_cap)"

text \<open>What happens to an attempt: whether the context ends in the wait, the session, its dealer, and how the pause after
  a failure ends.\<close>

datatype 's session_attempt =
    CancelledInWait
  | NoSessionMade bool                \<comment> \<open>the context has ended\<close>
  | DealerFailed bool
  | Connected 's

datatype pause_end = PauseCancelled | PauseSignalled | PauseElapsed

datatype 's retried = RetryCancelled | RetryDone 's | RetryStill

text \<open>The loop over a script of attempts: its outcome, the pauses it chose and the sessions it closed again.\<close>

fun retry_session ::
    "nat \<Rightarrow> ('s session_attempt \<times> pause_end) list \<Rightarrow> 's retried \<times> duration list \<times> nat" where
  "retry_session n [] = (RetryStill, [], 0)"
| "retry_session n ((a, p) # as) =
     (case a of
        CancelledInWait \<Rightarrow> (RetryCancelled, [], 0)
      | Connected s \<Rightarrow> (RetryDone s, [], 0)
      | NoSessionMade ended \<Rightarrow>
          if ended then (RetryCancelled, [], 0)
          else if p = PauseCancelled then (RetryCancelled, [session_retry_backoff n], 0)
          else (case retry_session (Suc n) as of (r, ds, c) \<Rightarrow> (r, session_retry_backoff n # ds, c))
      | DealerFailed ended \<Rightarrow>
          if ended then (RetryCancelled, [], 1)
          else if p = PauseCancelled then (RetryCancelled, [session_retry_backoff n], 1)
          else (case retry_session (Suc n) as of (r, ds, c) \<Rightarrow> (r, session_retry_backoff n # ds, Suc c)))"

subsection \<open>What the application stores\<close>

record oauth_state =
  oa_access :: string
  oa_refresh :: string
  oa_expires :: int

record app_state =
  ap_device_id :: string
  ap_username :: string
  ap_credentials :: string
  ap_oauth :: oauth_state
  ap_liked_uri :: string
  ap_settings :: string
  ap_known :: "known_device list"
  ap_last_pan :: string
  ap_utc_offset :: "int option"
  ap_latest :: string
  ap_highlights :: "string list"
  ap_mandatory :: bool

datatype app_effect =
    Persisted app_state
  | WakeEnabled bool
  | BacklightWritten string
  | BrightnessRestarted
  | LikedResolverStarted

text \<open>A stored session is reused; the first login stores its credentials.\<close>

datatype credentials = StoredLogin string string | GivenLogin

definition login_with :: "app_state \<Rightarrow> credentials" where
  "login_with s = (if ap_credentials s \<noteq> [] then StoredLogin (ap_username s) (ap_credentials s) else GivenLogin)"

definition store_login :: "string \<Rightarrow> string \<Rightarrow> app_state \<Rightarrow> app_state" where
  "store_login username cred s = s\<lparr>ap_username := username, ap_credentials := cred\<rparr>"

definition choose_device_id :: "string \<Rightarrow> string \<Rightarrow> app_state \<Rightarrow> string \<times> app_state" where
  "choose_device_id configured fresh s =
     (if configured \<noteq> [] then (configured, s)
      else if ap_device_id s \<noteq> [] then (ap_device_id s, s)
      else (fresh, s\<lparr>ap_device_id := fresh\<rparr>))"

definition on_oauth_token_changed :: "bool \<Rightarrow> oauth_state \<Rightarrow> app_state \<Rightarrow> app_effect list \<times> app_state" where
  "on_oauth_token_changed player oauth s =
     (let repaired = (oa_refresh (ap_oauth s) \<noteq> [] \<and> oa_refresh oauth \<noteq> [] \<and> oa_refresh oauth \<noteq> oa_refresh (ap_oauth s));
          s1 = (if repaired then s\<lparr>ap_liked_uri := []\<rparr> else s)\<lparr>ap_oauth := oauth\<rparr>
      in (Persisted s1 # (if repaired \<and> player then [LikedResolverStarted] else []), s1))"

definition get_settings :: "app_state \<Rightarrow> string option" where
  "get_settings s = (if ap_settings s = [] then None else Some (ap_settings s))"

definition voice_mic_from_settings :: "string \<Rightarrow> bool" where
  "voice_mic_from_settings b =
     (case Option.bind (json_parse b) (opt_field ''voiceMic'' dec_bool) of Some (Some v) \<Rightarrow> v | _ \<Rightarrow> True)"

definition newline_char :: char where "newline_char = CHR 0x0A"

definition render_backlight_conf :: "string \<Rightarrow> string option" where
  "render_backlight_conf b =
     (case Option.bind (json_parse b) (\<lambda>j. do {
             a \<leftarrow> opt_field ''autoBrightness'' dec_bool j; v \<leftarrow> opt_field ''brightness'' dec_int j; Some (a, v) }) of
        None \<Rightarrow> None
      | Some (a, v) \<Rightarrow>
          if a = None \<and> v = None then None
          else let auto = (if a = Some False then 0 else 1 :: int);
                   brightness = (case v of None \<Rightarrow> 8 | Some n \<Rightarrow> min (max n 1) 10)
               in Some (''AUTO='' @ show_int auto @ [newline_char] @ ''BRIGHTNESS='' @ show_int brightness @ [newline_char]))"

text \<open>The file as it is, and whether it can be written.\<close>

definition mirror_backlight_conf :: "string option \<Rightarrow> bool \<Rightarrow> string \<Rightarrow> app_effect list" where
  "mirror_backlight_conf existing writable b =
     (case render_backlight_conf b of
        None \<Rightarrow> []
      | Some conf \<Rightarrow>
          if existing = Some conf then []
          else if \<not> writable then [] else [BacklightWritten conf, BrightnessRestarted])"

definition put_settings ::
    "bool \<Rightarrow> string option \<Rightarrow> bool \<Rightarrow> string \<Rightarrow> app_state \<Rightarrow> app_effect list \<times> app_state" where
  "put_settings voice existing writable b s =
     (let s1 = s\<lparr>ap_settings := b\<rparr>
      in (mirror_backlight_conf existing writable b @
            (if voice then [WakeEnabled (voice_mic_from_settings b)] else []) @ [Persisted s1], s1))"

text \<open>The devices that the Bluetooth manager starts with, and what its list changes.\<close>

definition migrate_known :: "app_state \<Rightarrow> known_device list" where
  "migrate_known s =
     (if ap_known s = [] \<and> ap_last_pan s \<noteq> []
      then [\<lparr>kd_address = ap_last_pan s, kd_name = [], kd_starred = True, kd_last = 0\<rparr>] else ap_known s)"

definition seed_bluetooth :: "app_state \<Rightarrow> manager \<Rightarrow> manager" where
  "seed_bluetooth s m =
     (case migrate_known s of
        [] \<Rightarrow> m
      | d # ds \<Rightarrow> seed_last_pan_address (kd_address d) (seed_known_devices (d # ds) m))"

definition known_devices_changed :: "known_device list \<Rightarrow> app_state \<Rightarrow> app_effect list \<times> app_state" where
  "known_devices_changed ds s =
     (let s1 = s\<lparr>ap_known := ds, ap_last_pan := (case ds of [] \<Rightarrow> [] | d # _ \<Rightarrow> kd_address d)\<rparr> in ([Persisted s1], s1))"

subsection \<open>Checking in\<close>

definition normalize_version :: "string \<Rightarrow> string" where
  "normalize_version v = trim_prefix (trim_space v) ''v''"

definition version_part :: "string \<Rightarrow> int option" where
  "version_part p =
     (case atoi (takeWhile (\<lambda>c. c \<noteq> CHR ''-'') p) of None \<Rightarrow> None | Some n \<Rightarrow> if n < 0 then None else Some n)"

definition parse_version_parts :: "string \<Rightarrow> (int \<times> int \<times> int) option" where
  "parse_version_parts v =
     (if v = [] then None
      else case those (map version_part (split_n (CHR ''.'') 3 v)) of
             Some [a] \<Rightarrow> Some (a, 0, 0)
           | Some [a, b] \<Rightarrow> Some (a, b, 0)
           | Some (a # b # c # _) \<Rightarrow> Some (a, b, c)
           | _ \<Rightarrow> None)"

definition version_less :: "string \<Rightarrow> string \<Rightarrow> bool" where
  "version_less a b =
     (case (parse_version_parts a, parse_version_parts b) of
        (Some (a1, a2, a3), Some (b1, b2, b3)) \<Rightarrow>
          if a1 \<noteq> b1 then a1 < b1 else if a2 \<noteq> b2 then a2 < b2 else if a3 \<noteq> b3 then a3 < b3 else False
      | _ \<Rightarrow> False)"

definition update_available :: "string \<Rightarrow> app_state \<Rightarrow> bool" where
  "update_available firmware s =
     (if ap_latest s = [] then False else version_less (normalize_version firmware) (normalize_version (ap_latest s)))"

record checkin_answer =
  ci_offset :: "int option"
  ci_latest :: "string option"
  ci_highlights :: "string list"
  ci_mandatory :: "bool option"

definition dec_checkin :: "json \<Rightarrow> checkin_answer option" where
  "dec_checkin j = do {
     u \<leftarrow> opt_field ''utc_offset_min'' dec_int j;
     l \<leftarrow> opt_field ''latest_version'' dec_str j;
     hs \<leftarrow> field ''latest_highlights'' [] (dec_list dec_str) j;
     m \<leftarrow> opt_field ''update_mandatory'' dec_bool j;
     Some \<lparr>ci_offset = u, ci_latest = l, ci_highlights = hs, ci_mandatory = m\<rparr> }"

text \<open>\<open>strings.Join\<close> with line ends.\<close>

fun join_lines :: "string list \<Rightarrow> string" where
  "join_lines [] = []"
| "join_lines [l] = l"
| "join_lines (l # ls) = l @ newline_char # join_lines ls"

text \<open>The fields one after the other, each with whether it changed anything.\<close>

definition take_offset :: "int \<Rightarrow> app_state \<Rightarrow> bool \<times> app_state" where
  "take_offset off s = (ap_utc_offset s \<noteq> Some off, s\<lparr>ap_utc_offset := Some off\<rparr>)"

definition take_latest :: "checkin_answer \<Rightarrow> app_state \<Rightarrow> bool \<times> app_state" where
  "take_latest a s =
     (case ci_latest a of
        Some v \<Rightarrow> if v \<noteq> [] \<and> ap_latest s \<noteq> v then (True, s\<lparr>ap_latest := v\<rparr>) else (False, s)
      | None \<Rightarrow> (False, s))"

definition take_highlights :: "checkin_answer \<Rightarrow> app_state \<Rightarrow> bool \<times> app_state" where
  "take_highlights a s =
     (if ci_highlights a \<noteq> [] \<and> join_lines (ci_highlights a) \<noteq> join_lines (ap_highlights s)
      then (True, s\<lparr>ap_highlights := ci_highlights a\<rparr>) else (False, s))"

definition take_mandatory :: "checkin_answer \<Rightarrow> app_state \<Rightarrow> bool \<times> app_state" where
  "take_mandatory a s =
     (let m = (ci_mandatory a = Some True)
      in if ap_mandatory s \<noteq> m then (True, s\<lparr>ap_mandatory := m\<rparr>) else (False, s))"

definition checkin_body_limit :: nat where "checkin_body_limit = 4096"

text \<open>None is a failed check-in; otherwise whether the state is to be stored.\<close>

definition do_checkin :: "http \<Rightarrow> app_state \<Rightarrow> bool option \<times> app_state" where
  "do_checkin resp s =
     (case resp of
        Response status (Some b) \<Rightarrow>
          if status < 200 \<or> status \<ge> 300 then (None, s)
          else (case Option.bind (json_parse (take checkin_body_limit b)) dec_checkin of
                  None \<Rightarrow> (None, s)
                | Some a \<Rightarrow>
                    (case ci_offset a of
                       None \<Rightarrow> (None, s)
                     | Some off \<Rightarrow>
                         let (c1, s1) = take_offset off s; (c2, s2) = take_latest a s1;
                             (c3, s3) = take_highlights a s2; (c4, s4) = take_mandatory a s3
                         in (Some (c1 \<or> c2 \<or> c3 \<or> c4), s4)))
      | _ \<Rightarrow> (None, s))"

definition checkin_interval :: duration where "checkin_interval = minutes 360"
definition checkin_retry_interval :: duration where "checkin_retry_interval = minutes 2"
definition checkin_jitter :: duration where "checkin_jitter = minutes 30"

text \<open>The random part is below twice the jitter.\<close>

definition checkin_wait :: "duration \<Rightarrow> duration" where
  "checkin_wait rnd = checkin_interval - checkin_jitter + rnd"

definition next_checkin :: "duration \<Rightarrow> bool option \<Rightarrow> app_state \<Rightarrow> duration" where
  "next_checkin rnd outcome s =
     (case outcome of
        None \<Rightarrow> if ap_utc_offset s = None then checkin_retry_interval else checkin_wait rnd
      | Some _ \<Rightarrow> checkin_wait rnd)"

subsection \<open>The clock, the chord and the state for the debug screen\<close>

text \<open>A reading of the clock has its wall time and its monotonic time.\<close>

definition wall_step :: "instant \<times> int \<Rightarrow> instant \<times> int \<Rightarrow> duration" where
  "wall_step prev now = time_sub (fst now) (fst prev) - (snd now - snd prev)"

definition clock_step_min :: duration where "clock_step_min = seconds 2"

definition clock_jumped :: "instant \<times> int \<Rightarrow> instant \<times> int \<Rightarrow> bool" where
  "clock_jumped prev now \<longleftrightarrow> wall_step prev now \<ge> clock_step_min \<or> wall_step prev now \<le> - clock_step_min"

record chord =
  ch_one :: bool
  ch_four :: bool
  ch_timer :: bool
  ch_last_upload :: instant

definition chord_cooldown :: duration where "chord_cooldown = seconds 60"

text \<open>A key event: its type, code and value; the timer runs while both keys are down.\<close>

definition chord_key :: "nat \<Rightarrow> nat \<Rightarrow> int \<Rightarrow> chord \<Rightarrow> chord" where
  "chord_key typ code v c =
     (if typ \<noteq> 1 \<or> code \<noteq> 2 \<and> code \<noteq> 5 then c
      else let c1 = (if code = 2 then c\<lparr>ch_one := (v \<noteq> 0)\<rparr> else c\<lparr>ch_four := (v \<noteq> 0)\<rparr>)
           in c1\<lparr>ch_timer := ch_one c1 \<and> ch_four c1\<rparr>)"

text \<open>The timer fires: whether a report is sent, for the number of connected clients.\<close>

definition chord_fire :: "instant \<Rightarrow> nat \<Rightarrow> chord \<Rightarrow> bool \<times> chord" where
  "chord_fire now clients c =
     (if clients > 0 then (False, c)
      else if ch_one c \<and> ch_four c \<and> time_sub now (ch_last_upload c) \<ge> chord_cooldown
           then (True, c\<lparr>ch_last_upload := now\<rparr>) else (False, c))"

definition spotify_state :: "bool \<Rightarrow> app_state \<Rightarrow> string" where
  "spotify_state ready s =
     (if ready then (if ap_username s \<noteq> [] then ''signed in as '' @ ap_username s else ''signed in'')
      else if ap_username s \<noteq> [] then ''connecting'' else ''waiting for sign-in'')"

definition android_volume :: "bool \<times> bool \<times> bool \<Rightarrow> string \<Rightarrow> string" where
  "android_volume st adv =
     (case st of (registered, subscribed, dead) \<Rightarrow>
        if subscribed then ''ready''
        else if dead then ''phone not accepting volume keys (toggle phone Bluetooth to fix)''
        else if registered then ''registered (phone not subscribed)'' else ''off ('' @ adv @ '')'')"

definition device_label :: "device_info list \<Rightarrow> string" where
  "device_label ds =
     (case find di_connected ds of
        None \<Rightarrow> []
      | Some d \<Rightarrow> if di_name d \<noteq> [] then di_name d else if di_alias d \<noteq> [] then di_alias d else di_address d)"

definition max_int :: int where "max_int = 9223372036854775807"

definition route_line :: "string \<Rightarrow> (string \<times> int) option" where
  "route_line line =
     (let f = str_fields line
      in if length f < 7 \<or> f ! 1 \<noteq> ''00000000'' then None else Some (f ! 0, atoi_or_zero (f ! 6)))"

text \<open>The interface of the default route with the least metric; the first line is a heading.\<close>

definition default_route_iface :: "string option \<Rightarrow> string" where
  "default_route_iface f =
     (case f of
        None \<Rightarrow> []
      | Some b \<Rightarrow>
          fst (foldl (\<lambda>(best, metric) line.
                 case route_line line of
                   None \<Rightarrow> (best, metric)
                 | Some (name, m) \<Rightarrow> if m < metric then (name, m) else (best, metric))
               ([], max_int) (tl (split_on newline_char b))))"

definition iface_label :: "string \<Rightarrow> string \<Rightarrow> string" where
  "iface_label name v4 =
     (if v4 = [] then [] else if name = ''bnep0'' then ''Bluetooth'' else if has_prefix name ''usb'' then ''USB'' else name)"

text \<open>The address of an interface is empty when it is not up.\<close>

definition network_path_and_ip :: "(string \<Rightarrow> string) \<Rightarrow> string option \<Rightarrow> string \<times> string" where
  "network_path_and_ip addr routes =
     (let def = default_route_iface routes
      in if def \<noteq> [] \<and> addr def \<noteq> [] then (iface_label def (addr def), addr def)
         else case find (\<lambda>n. addr n \<noteq> []) [''bnep0'', ''usb1'', ''usb0''] of
                Some n \<Rightarrow> (iface_label n (addr n), addr n)
              | None \<Rightarrow> (''none'', []))"

definition dns_server_count :: "string option \<Rightarrow> nat" where
  "dns_server_count f =
     (case f of
        None \<Rightarrow> 0
      | Some b \<Rightarrow> length (filter (\<lambda>l. has_prefix (trim_space l) ''nameserver '') (split_on newline_char b)))"

definition usb_bounces :: "string option \<Rightarrow> int" where
  "usb_bounces f =
     (case f of None \<Rightarrow> 0 | Some b \<Rightarrow> (case str_fields b of [] \<Rightarrow> 0 | w # _ \<Rightarrow> atoi_or_zero w))"

definition read_load_avg1 :: "string option \<Rightarrow> string" where
  "read_load_avg1 f = (case f of None \<Rightarrow> [] | Some b \<Rightarrow> (case str_fields b of [] \<Rightarrow> [] | w # _ \<Rightarrow> w))"

text \<open>The zones up to the first that is missing, at most eight.\<close>

definition read_temp_c :: "string option list \<Rightarrow> int" where
  "read_temp_c zones =
     foldl (\<lambda>m z. case atoi (trim_space (the z)) of
              None \<Rightarrow> m | Some milli \<Rightarrow> if milli \<le> 0 then m else max m (milli div 1000))
       0 (takeWhile (\<lambda>z. z \<noteq> None) (take 8 zones))"

definition tail_lines :: "nat \<Rightarrow> string list \<Rightarrow> string list" where
  "tail_lines n ls =
     foldl (\<lambda>ring l. let r = ring @ [l] in if length r > n then drop (length r - n) r else r) [] ls"

subsection \<open>The monitor is not hasty\<close>

definition failed_probe :: "bool \<times> bool \<Rightarrow> bool" where
  "failed_probe t \<longleftrightarrow> \<not> fst t \<and> \<not> snd t"

fun transitions :: "monitor_effect list \<Rightarrow> bool list" where
  "transitions [] = []"
| "transitions (Transition b # es) = b # transitions es"
| "transitions (EmitStatus b # es) = transitions es"

lemma transitions_append [simp]: "transitions (es @ fs) = transitions es @ transitions fs"
  by (induction es rule: transitions.induct) auto

lemma monitor_run_append:
  "monitor_run (ts @ us) m =
     (case monitor_run ts m of (es, m1) \<Rightarrow> (case monitor_run us m1 of (fs, m2) \<Rightarrow> (es @ fs, m2)))"
  by (induction ts m rule: monitor_run.induct) (auto split: prod.splits)

text \<open>The failures counted are those at the end of the run; the last transition is the state.\<close>

definition monitor_ok :: "(bool \<times> bool) list \<Rightarrow> monitor_effect list \<Rightarrow> monitor \<Rightarrow> bool" where
  "monitor_ok ts es m \<longleftrightarrow>
     nm_fails m = length (takeWhile failed_probe (rev ts)) \<and>
     (transitions es = [] \<longleftrightarrow> \<not> nm_emitted m) \<and>
     (nm_emitted m \<longrightarrow> last (transitions es) = nm_online m) \<and>
     distinct_adj (transitions es)"

lemma probe_effects:
  "monitor_probe ok m = (es, m1) \<Longrightarrow>
     nm_fails m1 = (if ok then 0 else Suc (nm_fails m)) \<and>
     (transitions es = [] \<and> nm_online m1 = nm_online m \<and> nm_emitted m1 = nm_emitted m \<or>
      transitions es = [ok] \<and> nm_online m1 = ok \<and> nm_emitted m1 \<and> (nm_emitted m \<longrightarrow> nm_online m \<noteq> ok) \<and>
      (\<not> ok \<longrightarrow> fail_threshold \<le> Suc (nm_fails m)))"
  by (auto simp: monitor_probe_def Let_def split: if_splits)

lemma tick_effects:
  "monitor_tick p c m = (es, m1) \<Longrightarrow>
     nm_fails m1 = (if p \<or> c then 0 else Suc (nm_fails m)) \<and>
     (transitions es = [] \<and> nm_online m1 = nm_online m \<and> nm_emitted m1 = nm_emitted m \<or>
      transitions es = [p \<or> c] \<and> nm_online m1 = (p \<or> c) \<and> nm_emitted m1 \<and> (nm_emitted m \<longrightarrow> nm_online m \<noteq> (p \<or> c)) \<and>
      (\<not> (p \<or> c) \<longrightarrow> fail_threshold \<le> Suc (nm_fails m)))"
proof -
  assume tick: "monitor_tick p c m = (es, m1)"
  obtain fs m0 where pr: "monitor_probe (p \<or> c) m = (fs, m0)" by fastforce
  have "nm_fails m1 = nm_fails m0 \<and> nm_online m1 = nm_online m0 \<and> nm_emitted m1 = nm_emitted m0 \<and> transitions es = transitions fs"
    using tick unfolding monitor_tick_def pr by (auto simp: Let_def split: if_splits)
  with probe_effects [OF pr] show ?thesis by simp
qed

lemma distinct_adj_snoc: "distinct_adj (xs @ [x]) \<longleftrightarrow> distinct_adj xs \<and> (xs \<noteq> [] \<longrightarrow> last xs \<noteq> x)"
  by (cases "xs = []") (auto simp: distinct_adj_append_iff)

lemma monitor_ok_run: "monitor_run ts new_monitor = (es, m) \<Longrightarrow> monitor_ok ts es m"
proof (induction ts arbitrary: es m rule: rev_induct)
  case Nil
  then show ?case by (auto simp: monitor_ok_def new_monitor_def)
next
  case (snoc t ts)
  obtain p c where t: "t = (p, c)" by (cases t)
  obtain es0 m0 where r: "monitor_run ts new_monitor = (es0, m0)" by fastforce
  obtain fs where f: "monitor_tick p c m0 = (fs, m)" and es: "es = es0 @ fs"
    using snoc.prems by (auto simp: monitor_run_append r t split: prod.splits)
  from snoc.IH [OF r] tick_effects [OF f] show ?case
    by (auto simp: monitor_ok_def es t failed_probe_def distinct_adj_snoc)
qed

text \<open>C39: The monitor reports that the network is gone only after three failed probes in a row, and its reports
  alternate: over any run of pings and confirming connections, a tick with the report of an outage ends at least
  three ticks that failed both ways, and no report repeats the one before.\<close>

theorem outage_needs_three_failures:
  assumes "monitor_run ts new_monitor = (es, m)" and "monitor_tick p c m = (fs, m')" and "Transition False \<in> set fs"
  shows "distinct_adj (transitions (es @ fs)) \<and> failed_probe (p, c) \<and> 2 \<le> length (takeWhile failed_probe (rev ts))"
proof -
  have "monitor_run (ts @ [(p, c)]) new_monitor = (es @ fs, m')"
    using assms(1,2) by (simp add: monitor_run_append)
  from monitor_ok_run [OF this] have "distinct_adj (transitions (es @ fs))" by (simp add: monitor_ok_def)
  moreover have "False \<in> set (transitions fs)" using assms(3) by (induction fs rule: transitions.induct) auto
  ultimately show ?thesis
    using tick_effects [OF assms(2)] monitor_ok_run [OF assms(1)]
    by (auto simp: monitor_ok_def failed_probe_def fail_threshold_def)
qed

theorem outage_needs_three_failures_witness:
  "distinct_adj (transitions ([EmitStatus True, Transition True] @ [EmitStatus False, Transition False])) \<and>
   failed_probe (False, False) \<and> 2 \<le> length (takeWhile failed_probe (rev [(True, False), (False, False), (False, False)]))"
  by (rule outage_needs_three_failures [where p = False and c = False and
        m = "snd (monitor_run [(True, False), (False, False), (False, False)] new_monitor)" and
        m' = "snd (monitor_run [(True, False), (False, False), (False, False), (False, False)] new_monitor)"])
    (code_simp, code_simp, simp)

subsection \<open>Nobody waits for a network that is there\<close>

definition online_ok :: "online_state \<Rightarrow> bool" where
  "online_ok s \<longleftrightarrow>
     (\<forall>g < on_gen s. g \<in> on_closed s) \<and>
     (\<forall>(w, g) \<in> on_waiting s. g \<le> on_gen s \<and> (on_online s \<longrightarrow> g < on_gen s))"

lemma online_ok_step: "online_step s t \<Longrightarrow> online_ok s \<Longrightarrow> online_ok t"
proof (induction rule: online_step.induct)
  case (set_online s b)
  then show ?case by (fastforce simp: online_ok_def set_online_state_def Let_def less_Suc_eq)
next
  case (begin_wait w s t)
  then show ?case by (auto simp: online_ok_def wait_online_begin_def split: if_splits)
next
  case (end_wait w g s e)
  then show ?case by (auto simp: online_ok_def)
qed

text \<open>C40: While the network is there, nobody is left waiting for it: whoever began to wait, at any time and
  with any changes of the network since, holds a channel that is closed.\<close>

theorem waiters_wake_online:
  assumes "online_step\<^sup>*\<^sup>* new_online s" and "on_online s" and "(w, g) \<in> on_waiting s"
  shows "wait_may_end s g"
proof -
  have "online_ok s" using assms(1)
  proof (induction rule: rtranclp_induct)
    case base
    show ?case by (simp add: online_ok_def new_online_def)
  qed (rule online_ok_step)
  with assms(2,3) show ?thesis by (auto simp: online_ok_def wait_may_end_def)
qed

theorem waiters_wake_online_witness:
  "wait_may_end (set_online_state True (snd (wait_online_begin 3 (set_online_state False (set_online_state True new_online))))) 1"
proof (rule waiters_wake_online)
  have "online_step new_online (set_online_state True new_online)" by (rule set_online)
  moreover have "online_step (set_online_state True new_online) (set_online_state False (set_online_state True new_online))"
    by (rule set_online)
  moreover have "online_step (set_online_state False (set_online_state True new_online))
      (snd (wait_online_begin 3 (set_online_state False (set_online_state True new_online))))"
    by (rule begin_wait [of 3]) (simp add: wait_online_begin_def set_online_state_def new_online_def)
  ultimately show "online_step\<^sup>*\<^sup>* new_online
      (set_online_state True (snd (wait_online_begin 3 (set_online_state False (set_online_state True new_online)))))"
    by (meson rtranclp.rtrancl_into_rtrancl rtranclp.rtrancl_refl set_online)
qed (simp_all add: wait_online_begin_def set_online_state_def new_online_def)

subsection \<open>Retries, settings, versions, reports\<close>

lemma session_pauses:
  "session_retry_backoff 0 = seconds 1" "session_retry_backoff 4 = seconds 16" "5 \<le> n \<Longrightarrow> session_retry_backoff n = seconds 30"
  by (simp_all add: session_retry_backoff_def session_retry_cap_def Let_def)

lemma session_backoff_bounds: "seconds 1 \<le> session_retry_backoff n \<and> session_retry_backoff n \<le> seconds 30"
proof -
  have "n \<in> {0, 1, 2, 3, 4} \<or> 5 \<le> n" by auto
  then show ?thesis by (auto simp: session_retry_backoff_def session_retry_cap_def Let_def)
qed

text \<open>The loop gives the session of the first attempt that connects, after one pause for each that failed.\<close>

lemma retry_gives_first:
  "retry_session n as = (RetryDone s, ds, c) \<Longrightarrow>
     (\<exists>fs p rest. as = fs @ (Connected s, p) # rest \<and> ds = map session_retry_backoff [n ..< n + length fs] \<and>
        list_all (\<lambda>(a, p). (a = NoSessionMade False \<or> a = DealerFailed False) \<and> p \<noteq> PauseCancelled) fs \<and>
        c = length (filter (\<lambda>(a, p). a = DealerFailed False) fs))"
proof (induction as arbitrary: n ds c)
  case (Cons ap as)
  obtain a p where ap: "ap = (a, p)" by (cases ap)
  show ?case
  proof (cases a)
    case (Connected s')
    with Cons.prems ap show ?thesis by (intro exI [of _ "[]"]) auto
  next
    case (NoSessionMade ended)
    then obtain ds' where r: "retry_session (Suc n) as = (RetryDone s, ds', c)" "ds = session_retry_backoff n # ds'"
      "\<not> ended" "p \<noteq> PauseCancelled"
      using Cons.prems ap by (auto split: if_splits prod.splits)
    obtain fs q rest where i: "as = fs @ (Connected s, q) # rest" "ds' = map session_retry_backoff [Suc n ..< Suc n + length fs]"
      "list_all (\<lambda>(a, p). (a = NoSessionMade False \<or> a = DealerFailed False) \<and> p \<noteq> PauseCancelled) fs"
      "c = length (filter (\<lambda>(a, p). a = DealerFailed False) fs)"
      using Cons.IH [OF r(1)] by blast
    show ?thesis
      by (rule exI [of _ "ap # fs"], rule exI [of _ q], rule exI [of _ rest]) (use i r ap NoSessionMade in \<open>auto simp: upt_rec\<close>)
  next
    case (DealerFailed ended)
    then obtain ds' c' where r: "retry_session (Suc n) as = (RetryDone s, ds', c')" "ds = session_retry_backoff n # ds'"
      "\<not> ended" "p \<noteq> PauseCancelled" "c = Suc c'"
      using Cons.prems ap by (auto split: if_splits prod.splits)
    obtain fs q rest where i: "as = fs @ (Connected s, q) # rest" "ds' = map session_retry_backoff [Suc n ..< Suc n + length fs]"
      "list_all (\<lambda>(a, p). (a = NoSessionMade False \<or> a = DealerFailed False) \<and> p \<noteq> PauseCancelled) fs"
      "c' = length (filter (\<lambda>(a, p). a = DealerFailed False) fs)"
      using Cons.IH [OF r(1)] by blast
    show ?thesis
      by (rule exI [of _ "ap # fs"], rule exI [of _ q], rule exI [of _ rest]) (use i r ap DealerFailed in \<open>auto simp: upt_rec\<close>)
  qed (use Cons.prems ap in auto)
qed simp

lemma settings_roundtrip: "b \<noteq> [] \<Longrightarrow> get_settings (snd (put_settings v f w b s)) = Some b"
  by (simp add: put_settings_def get_settings_def Let_def)

lemma repaired_drops_liked:
  "oa_refresh (ap_oauth s) \<noteq> [] \<Longrightarrow> oa_refresh oauth \<notin> {[], oa_refresh (ap_oauth s)} \<Longrightarrow>
     ap_liked_uri (snd (on_oauth_token_changed p oauth s)) = []"
  by (simp add: on_oauth_token_changed_def Let_def)

lemma version_less_irrefl: "\<not> version_less a a"
  by (auto simp: version_less_def split: option.splits)

lemma version_less_trans: "version_less a b \<Longrightarrow> version_less b c \<Longrightarrow> version_less a c"
proof -
  have lex: "version_less a b \<longleftrightarrow>
      (\<exists>a1 a2 a3 b1 b2 b3. parse_version_parts a = Some (a1, a2, a3) \<and> parse_version_parts b = Some (b1, b2, b3) \<and>
        (a1 < b1 \<or> a1 = b1 \<and> (a2 < b2 \<or> a2 = b2 \<and> a3 < b3)))" for a b
    by (cases "parse_version_parts a"; cases "parse_version_parts b") (auto simp: version_less_def)
  assume "version_less a b" "version_less b c"
  then obtain a1 a2 a3 b1 b2 b3 c1 c2 c3 where
    p: "parse_version_parts a = Some (a1, a2, a3)" "parse_version_parts c = Some (c1, c2, c3)" and
    o: "a1 < b1 \<or> a1 = b1 \<and> (a2 < b2 \<or> a2 = b2 \<and> a3 < b3)" "b1 < c1 \<or> b1 = c1 \<and> (b2 < c2 \<or> b2 = c2 \<and> b3 < c3)"
    unfolding lex by fastforce
  from o have "a1 < c1 \<or> a1 = c1 \<and> (a2 < c2 \<or> a2 = c2 \<and> a3 < c3)" by linarith
  with p show ?thesis unfolding lex by blast
qed

text \<open>A check-in that stores nothing has changed nothing.\<close>

lemma checkin_stores_changes: "do_checkin resp s = (r, s') \<Longrightarrow> r \<noteq> Some True \<Longrightarrow> s' = s"
  by (auto simp: do_checkin_def take_offset_def take_latest_def take_highlights_def take_mandatory_def Let_def
      split: http.splits option.splits if_splits)

text \<open>Two reports of the chord are a minute apart.\<close>

lemma chord_reports_apart:
  "chord_fire now k c = (True, c1) \<Longrightarrow> ch_last_upload c2 = ch_last_upload c1 \<Longrightarrow> chord_fire t k' c2 = (True, c3) \<Longrightarrow>
     time_sub t now \<ge> chord_cooldown"
  by (auto simp: chord_fire_def split: if_splits)

lemma chord_key_keeps_upload: "ch_last_upload (chord_key typ code v c) = ch_last_upload c"
  by (simp add: chord_key_def Let_def)

lemma tail_lines_last: "tail_lines n ls = drop (length ls - n) ls"
proof (induction ls rule: rev_induct)
  case (snoc l ls)
  then show ?case by (auto simp: tail_lines_def Let_def Suc_diff_le)
qed (simp add: tail_lines_def)

end
