(* ===== verification/Spec2Isabelle.thy ===== *)
theory Spec2Isabelle
  imports Ids BtPan BtKnown BtMgmt BtAgent BtNetwork RouteHealth BtIap2 BtHid PiProfiles Recovery PiJobs
    PiSession LogBuffer HashStore Pathfinder Lyrics Hashcash ApConn Accesspoint Mercury Dealer PlayerState
    QueueExpand QueueResolver PlayerDevices PlayerCluster PlayerRegister LikedSongs
    PlayerMaRuns PlayerCommands VoiceChoice VoiceSync VoiceService ApiServer ApiEvents AppLife
begin

text \<open>
  A model of the daemon of a car display that shows what Spotify plays (\<open>daemon/\<close>, with the
  client library at the root of the repository), and the properties that make its parts correct.

  \<^bold>\<open>The program.\<close> The daemon is one process. Its bluetooth manager (\<open>daemon/bluetooth/\<close>) keeps the
  phone's tethered network up: it watches BlueZ signals, kernel management events and netlink, and
  decides when to connect, when to retry and when to leave a phone alone. It also drives the volume
  of the phone, over a HID service or an iAP2 sidecar. A Raspberry Pi next to the display is
  provisioned, used as an uplink over a kept session and, when it loses the internet, rebooted once
  (\<open>setup_pi.go\<close>, \<open>pi_session.go\<close>, \<open>tethering.go\<close>, \<open>recovery.go\<close>, \<open>pi_profiles.go\<close>, \<open>sshkey.go\<close>).
  The client library reaches Spotify over an encrypted connection to an access point with its
  mercury requests (\<open>ap/\<close>, \<open>mercury/\<close>) and over the dealer's websocket (\<open>dealer/\<close>). The player
  (\<open>daemon/player*.go\<close>, \<open>queue_*.go\<close>) registers with the dealer as an observer, mirrors what a
  Spotify Connect device plays, completes its queue in the background and sends the commands of the
  user interface to the device; while Music Assistant is the selected source, it polls and controls
  a Music Assistant player instead (\<open>player_ma.go\<close>, \<open>ma/\<close>). Lyrics come from three sources
  (\<open>lyrics.go\<close>), persisted queries need hashes that are scraped from the web player
  (\<open>hashstore.go\<close>, \<open>hashscrape.go\<close>), and spoken commands are matched against an index of the library
  that a background sync builds (\<open>voice*.go\<close>). The latest problems are kept for a debug screen
  (\<open>logbuffer.go\<close>).

  \<^bold>\<open>The theories\<close>, in the order of their imports.

  \<^item> \<open>Prelude\<close>: instants and durations of Go, the outcome of a call (value, error, panic), the
    string helpers of the standard library, the stable sort, ring buffers, bytes.
  \<^item> \<open>Interfaces\<close>: the locales. \<open>invariant_machine\<close> lifts a step lemma to runs, \<open>latch_machine\<close>,
    \<open>frozen_machine\<close> and \<open>once_machine\<close> are about flags that stay set, \<open>ring_buffer\<close>, \<open>codec\<close>,
    \<open>cooldown\<close> and \<open>less_function\<close> about shared contracts. Each is interpreted on the model's own
    definitions, in the theory of the component that provides them. \<open>Traces\<close>: what the events of a run
    give rise to, for specifications that speak of the history and not of the state.
  \<^item> \<open>GoLib\<close>: JSON as \<open>encoding/json\<close> reads it, decoding into structs, doubles, times, the answers of HTTP.
    \<open>GoCrypto\<close>: the interface of the cryptographic primitives.
  \<^item> \<open>Ids\<close>: \<open>ids.go\<close> and \<open>utils.go\<close>: base 62 ids and uris.
  \<^item> \<open>BtState\<close>, \<open>BtPan\<close>, \<open>BtKnown\<close>, \<open>BtMgmt\<close>, \<open>BtAgent\<close>, \<open>BtNetwork\<close>: the manager
    (\<open>manager.go\<close>, \<open>known_devices.go\<close>, \<open>mgmt_watcher.go\<close>, \<open>agent.go\<close>, \<open>types.go\<close>). Its struct is
    one record, each method a function on it; everything it does to the outside is a list of
    effects in the state, and everything it hears is an argument (\<open>bt_env\<close>).
  \<^item> \<open>RouteHealth\<close>: \<open>route_health.go\<close>: which default route is preferred.
  \<^item> \<open>BtIap2\<close>, \<open>BtHid\<close>: \<open>iap2_volume.go\<close> and \<open>hid_volume.go\<close>.
  \<^item> \<open>PiProfiles\<close>, \<open>Recovery\<close>, \<open>PiJobs\<close>, \<open>PiSession\<close>: the Raspberry Pi: profiles, keys and ssh runs, the
    recovery with its flag file, the tethering and provisioning jobs, the kept session.
  \<^item> \<open>LogBuffer\<close>, \<open>HashStore\<close>, \<open>Pathfinder\<close>: the debug log, the hashes of the persisted queries and
    what their answers mean.
  \<^item> \<open>Lyrics\<close>: the sources, their tokens and cooldowns, their parsers, the chain and its cache.
  \<^item> \<open>Hashcash\<close>: the proof of work of the login. \<open>ApConn\<close>, \<open>Accesspoint\<close>: the Shannon stream and the
    access point with its channels and reconnects. \<open>Mercury\<close>: requests over it. \<open>Dealer\<close>: the websocket
    with its receivers, requests and pings.
  \<^item> \<open>PlayerState\<close>, \<open>QueueExpand\<close>, \<open>QueueResolver\<close>: \<open>player_state.go\<close>, \<open>queue_expand.go\<close>,
    \<open>queue_resolver.go\<close>. \<open>PlayerDevices\<close>: the list of Connect devices. \<open>PlayerCluster\<close>: the observed
    state from the clusters. \<open>PlayerRegister\<close>: the registration. \<open>LikedSongs\<close>: the playlist of the liked
    songs. All of \<open>player.go\<close>.
  \<^item> \<open>Settings\<close>, \<open>MaClient\<close>, \<open>MaContent\<close>, \<open>PlayerMa\<close>, \<open>PlayerMaRuns\<close>: Music Assistant: its settings
    (\<open>ma_config.go\<close>, \<open>ha_config.go\<close>), the client (\<open>ma/\<close>), its lists (\<open>ma_content.go\<close>) and the player that shows and
    controls it, as one machine with the observer.
  \<^item> \<open>PlayerCommands\<close>: the playback requests of \<open>handleApiRequest\<close> and the commands they send.
  \<^item> \<open>VoiceMatch\<close>, \<open>VoiceG2p\<close>, \<open>VoiceResolver\<close>, \<open>VoiceChoice\<close>: \<open>voice_resolver.go\<close> and \<open>voice_g2p.go\<close>: edit
    distance, normal forms and phonemes, intents and the cascade. \<open>VoiceCatalog\<close>, \<open>VoiceSync\<close>:
    \<open>voice_catalog.go\<close>: the sync of the library and its index. \<open>VoiceService\<close>: \<open>voice.go\<close>: a command from its
    transcript to its banner.
  \<^item> \<open>HaLogin\<close>: \<open>ha_login.go\<close>: the login flow of Home Assistant and the minting of its token over the
    websocket. \<open>ApiTypes\<close>, \<open>ApiServer\<close>: the local HTTP server (\<open>api_server.go\<close>, \<open>bluetooth_routes.go\<close>): what a
    request is answered, as a function of the route, the body and the daemon's answers. \<open>ApiEvents\<close>: the hub of its
    event stream and the callbacks that wait for the player. \<open>AppLife\<close>: the network monitor
    (\<open>network_monitor.go\<close>), the online state and those that wait for it (\<open>app.go\<close>).

  \<^bold>\<open>How the code is modelled.\<close> A struct is a record, a method a function from the old state to its
  results and the new state, an error or panic a value of \<open>outcome\<close>, a sum or an option. Locks do not appear: a critical
  section is one function, and a method that releases its lock in between is split there. A
  goroutine that a method starts is an effect or a result (\<open>GoPage\<close>, the fetch of
  \<open>expand_queue\<close>) and its body a function of its own that later runs on the state it then finds;
  so the interleavings of the code are the sequences of these steps, and the properties over runs
  quantify over all of them. Clocks, BlueZ, netlink, processes, files and HTTP answer through
  arguments, which no property restricts unless it says so; a request is often answered by its number
  and its text, so that the same request may be answered differently each time. A Go map is a partial function, or an
  association list where the order of its iteration can be seen. Times and counters of Go are
  mathematical integers where the code stays far from the bounds of int64; \<open>Time.Sub\<close> saturates as
  in Go, the bytes of wire formats are words, the negation of an \<open>int\<close> is written with its
  overflow (\<open>neg64\<close>), and a double is a rational that is rounded after each operation (\<open>f64\<close>).

  \<^bold>\<open>Bounds and termination.\<close> Loops over what the code has at hand are structural recursions. Loops
  that poll or retry are recursions over the list of the answers they get, and the list ends where
  the timeout or the daemon's stop ends the loop. The loop that pages a
  context (\<open>fetch_pages\<close>), the eviction of the oldest contexts (\<open>drop_oldest\<close>), the scans for hashes
  and for playlist uris (\<open>find_op_defs\<close>, \<open>playlist_tokens\<close>), the retries of a catalog page (\<open>catalog_do\<close>) and
  the search for the first known song (\<open>scan_liked\<close>) terminate by a
  measure. The parser of JSON has fuel, twice the length of its text and two: \<open>json_parse_fuel\<close> shows that no more is
  needed; the texts of a token (\<open>token_texts\<close>) take one more than its length. The search for the
  proof of work and the loops over the pages of a list may run forever, against a service that never lets them
  end: they are partial functions, and \<open>solve_hashcash_first\<close>, \<open>page_loop_ends\<close> say when they return.

  \<^bold>\<open>What is proved.\<close> Recovery: at most one reboot in a lifetime, none after a restart within the
  episode, and while the same Pi stays recognized only after a dark window. Routes: three failures to demote, three
  successes and five minutes to restore. Bluetooth: paused devices are left alone, retries are rate
  limited and back off, the list of known devices keeps its invariant and its order, volume bursts are complete
  key presses. Pi: the session refines a specification of four states, keys are distinct and never
  lost. Access point and dealer: streams decrypt to what was sent, every packet goes to each
  receiver of its type in order (\<open>owed\<close>), a silent connection is replaced, every mercury request gets the outcome its events
  owe it (\<open>outcomes\<close>) and every dealer request one reply with its own verdict (\<open>reply_owed\<close>). Lyrics: the chain returns the best source, the cache stays
  small. Player: the registration follows the newest connection id, clusters and
  metadata are merged without loss, the picker lists exactly what the last cluster, the Web API and thirty
  days of memory offer, an expanded queue begins with what
  Connect announced, a liked-songs playlist is stored only when the service vouched for it, commands
  go to a named device that is not the display. Music Assistant: commands reach the selected player,
  a refused selection changes nothing, and a tap starts the item where the server lists it. Voice: the distance is the edit distance, the cascade picks the nearest
  entry below its floor and plays only what the library holds, an interrupted sync and a refresh of the liked songs end with
  the list of the service, the index misses no track, and every banner is cleared. Server and application: a request reaches
  the player only when it is sound and the player ready, a reading one changes nothing, the hub of the events never closes a
  channel twice or sends on a closed one, callbacks run once, an outage needs three failed probes, and whoever waits for the
  network is woken; the login's messages are numbered upwards, its token comes from the answer to its own request, and
  its log never depends on a secret. Many more lemmas of this kind stand beside these.

  Lemmas also show where the code departs from its
  intent, among them: ids of 2 to the 128 and more panic (\<open>spotify_id_from_uri_outcome\<close>), a star for an unknown
  device clears the others (\<open>star_unknown_clears_priority\<close>), the profile \<open>id\<close> shares the legacy key
  (\<open>key_paths_distinct\<close>), the dark window
  spans profiles (\<open>window_spans_profiles\<close>), a result line split over two writes is lost
  (\<open>chunked_result_lost\<close>), the pass after a resolution strands uris
  (\<open>stranded_never_fetched\<close>), the cache of lyrics drops a third (\<open>evict_drops_a_third\<close>), a heartbeat puts a
  superseded id (\<open>heartbeat_puts_superseded_id\<close>), the background search overwrites a pushed playlist
  (\<open>background_overwrites_push\<close>), a volume shown and sent back gets lower (\<open>volume_roundtrip_loses\<close>), a resumed
  device pulls playback back (\<open>resume_last_pulls_back\<close>), \<open>everything by\<close> never names an artist
  (\<open>everything_by_is_a_track\<close>), long titles cannot be spoken (\<open>long_title_missed\<close>), a list cut off in its first
  sync stays cut off (\<open>partial_list_stays\<close>), and a song that is liked again can keep an unliked one
  (\<open>relike_keeps_unliked\<close>). A tap on liked songs whose playlist is not known plays one track, although
  a comment promises the rest in the background (\<open>liked_play_outcome\<close>).

  \<^bold>\<open>What is not modelled.\<close> The D-Bus, netlink and socket plumbing, the GATT tables, processes and
  files beyond what they answer; the mappers of the Web API (\<open>webapi_library.go\<close>), which decode and pass on; the login of
  Spotify, session and spclient; the processes of the voice recognition; the headers for other origins and the
  listeners of the HTTP server; the wiring of the daemon at its start, its suspension and reset, the
  virtual touch screen and the bundle for debugging; generated protocol buffers; the
  sidecar in Rust and the user interface.
\<close>

end
